(* ===== verification/Prelude.thy ===== *)
theory Prelude
  imports Main "HOL-Library.Multiset" "HOL-Library.Product_Lexorder"
begin

text \<open>
  Shared vocabulary of the development: the representation of instants, dates and wall-clock
  times, the result type of a request handler, the hint collections, and the list lemmas that
  several components use.

  An instant is a number of microseconds on the UTC time line, the resolution of Python's
  \<open>datetime\<close>; a date is a day number, a wall-clock time the number of microseconds since
  midnight. Python's integers are unbounded, so all of these are \<open>int\<close>. Primary keys (UUIDs in
  the code) are natural numbers: only their equality matters.
\<close>

type_synonym instant = int
type_synonym date = int
type_synonym clock = int
type_synonym uid = nat

abbreviation minute_us :: int where "minute_us \<equiv> 60000000"
abbreviation hour_us :: int where "hour_us \<equiv> 3600000000"
abbreviation day_us :: int where "day_us \<equiv> 86400000000"

named_theorems eval_simps \<open>definitions unfolded to run the model on a concrete input\<close>
named_theorems inv_simps \<open>definitions of invariants\<close>

subsection \<open>A check that may abort\<close>

text \<open>
  \<open>checks\<close> runs a pure check and goes on with its value; \<open>checked\<close> does so inside a handler, where a
  failed check ends the handler with the state it has reached.
\<close>

definition checks :: "'e + 'a \<Rightarrow> ('a \<Rightarrow> 'e + 'b) \<Rightarrow> 'e + 'b" where
  "checks r k = (case r of Inl e \<Rightarrow> Inl e | Inr x \<Rightarrow> k x)"

definition checked :: "'e + 'a \<Rightarrow> 's \<Rightarrow> ('a \<Rightarrow> ('e + 'b) \<times> 's) \<Rightarrow> ('e + 'b) \<times> 's" where
  "checked r s k = (case r of Inl e \<Rightarrow> (Inl e, s) | Inr x \<Rightarrow> k x)"

definition require :: "bool \<Rightarrow> 'e \<Rightarrow> 'e + unit" where
  "require b e = (if b then Inr () else Inl e)"

lemma checks_simps [simp]: "checks (Inl e) k = Inl e" "checks (Inr x) k = k x"
  by (simp_all add: checks_def)

lemma checked_simps [simp]: "checked (Inl e) s k = (Inl e, s)" "checked (Inr x) s k = k x"
  by (simp_all add: checked_def)

lemma checks_Inr: "checks r k = Inr y \<longleftrightarrow> (\<exists>x. r = Inr x \<and> k x = Inr y)"
  by (cases r) auto

lemma checked_Inr: "checked r s k = (Inr y, s') \<longleftrightarrow> (\<exists>x. r = Inr x \<and> k x = (Inr y, s'))"
  by (cases r) auto

lemma require_Inr [simp]: "require b e = Inr u \<longleftrightarrow> b"
  by (simp add: require_def)

lemma require_simps [simp]: "require True e = Inr ()" "require False e = Inl e"
  by (simp_all add: require_def)

subsection \<open>Lists as database tables\<close>

text \<open>
  A table is the list of its rows in creation order. \<open>row_find\<close> is the primary-key lookup
  (\<open>filter_by(id=...).first()\<close>), \<open>row_set\<close> the write-back of one mutated row.
\<close>

definition row_find :: "('r \<Rightarrow> uid) \<Rightarrow> uid \<Rightarrow> 'r list \<Rightarrow> 'r option" where
  "row_find key i rows = find (\<lambda>r. key r = i) rows"

definition row_set :: "('r \<Rightarrow> uid) \<Rightarrow> 'r \<Rightarrow> 'r list \<Rightarrow> 'r list" where
  "row_set key r' rows = map (\<lambda>r. if key r = key r' then r' else r) rows"

lemma row_find_Some:
  assumes "row_find key i rows = Some r"
  shows "r \<in> set rows \<and> key r = i"
  using assms unfolding row_find_def
  by (auto simp: find_Some_iff in_set_conv_nth)

lemma row_find_None: "row_find key i rows = None \<longleftrightarrow> i \<notin> key ` set rows"
  by (auto simp: row_find_def find_None_iff)

lemma row_find_distinct:
  assumes "distinct (map key rows)" "r \<in> set rows"
  shows "row_find key (key r) rows = Some r"
proof (cases "row_find key (key r) rows")
  case None
  with assms show ?thesis by (auto simp: row_find_None)
next
  case (Some r')
  then have "r' \<in> set rows" "key r' = key r" by (auto dest: row_find_Some)
  with assms have "r' = r" by (metis distinct_map inj_onD)
  with Some show ?thesis by simp
qed

lemma row_set_keys [simp]: "map key (row_set key r' rows) = map key rows"
  by (simp add: row_set_def)

lemma length_row_set [simp]: "length (row_set key r' rows) = length rows"
  by (simp add: row_set_def)

lemma set_row_set:
  "key r' \<in> key ` set rows \<Longrightarrow>
    set (row_set key r' rows) = insert r' {r \<in> set rows. key r \<noteq> key r'}"
  by (auto simp: row_set_def)

lemma in_row_set: "r \<in> set (row_set key r' rows) \<Longrightarrow> r = r' \<or> r \<in> set rows \<and> key r \<noteq> key r'"
  by (auto simp: row_set_def split: if_splits)

lemma row_find_row_set:
  "row_find key i (row_set key r' rows) =
    (if i = key r' \<and> i \<in> key ` set rows then Some r' else row_find key i rows)"
  by (induction rows) (auto simp: row_find_def row_set_def)

subsection \<open>Counting\<close>

lemma filter_length_mono:
  "(\<And>x. x \<in> set xs \<Longrightarrow> P x \<Longrightarrow> Q x) \<Longrightarrow> length (filter P xs) \<le> length (filter Q xs)"
  by (induction xs) (auto simp: le_SucI)

lemma length_filter_row_set:
  assumes "distinct (map key rows)" "r \<in> set rows" "key r' = key r"
  shows "length (filter P (row_set key r' rows)) + (if P r then 1 else 0)
    = length (filter P rows) + (if P r' then 1 else 0)"
  using assms
proof (induction rows)
  case (Cons x rows)
  show ?case
  proof (cases "x = r")
    case True
    with Cons.prems have "key r' \<notin> key ` set rows" by simp
    then have "\<forall>y \<in> set rows. key y \<noteq> key r'" by (metis image_eqI)
    then have "row_set key r' rows = rows" by (auto simp: row_set_def intro!: map_idI)
    with True Cons.prems(3) show ?thesis by (simp add: row_set_def)
  next
    case False
    with Cons.prems have "r \<in> set rows" "key x \<noteq> key r'" by force+
    with Cons show ?thesis by (auto simp: row_set_def)
  qed
qed simp

lemma filter_row_set_other:
  assumes "distinct (map key rows)" "r \<in> set rows" "key r' = key r" "\<not> P r" "\<not> P r'"
  shows "filter P (row_set key r' rows) = filter P rows"
proof -
  have "r = x" if "x \<in> set rows" "key x = key r'" for x
    using that assms(1-3) by (metis distinct_map inj_onD)
  with assms(4,5) have "filter P (row_set key r' xs) = filter P xs" if "set xs \<subseteq> set rows" for xs
    using that by (induction xs) (auto simp: row_set_def)
  then show ?thesis by simp
qed

lemma filter_row_set_same:
  assumes "distinct (map key rows)" "r \<in> set rows" "key r' = key r" "P r" "P r'"
  shows "filter P (row_set key r' rows) = row_set key r' (filter P rows)"
proof -
  have "r = x" if "x \<in> set rows" "key x = key r'" for x
    using that assms(1-3) by (metis distinct_map inj_onD)
  with assms(4,5) have "filter P (row_set key r' xs) = row_set key r' (filter P xs)" if "set xs \<subseteq> set rows" for xs
    using that by (induction xs) (auto simp: row_set_def)
  then show ?thesis by simp
qed

lemma last_row_set: "xs \<noteq> [] \<Longrightarrow> key (last xs) = key r' \<Longrightarrow> last (row_set key r' xs) = r'"
  by (simp add: row_set_def last_map)

lemma row_set_Nil_iff [simp]: "row_set key r' xs = [] \<longleftrightarrow> xs = []"
  by (simp add: row_set_def)

lemma row_set_eq_map:
  assumes "distinct (map key rows)" "r \<in> set rows" "key (f r) = key r"
  shows "row_set key (f r) rows = map (\<lambda>x. if key x = key r then f x else x) rows"
  unfolding row_set_def using assms by (intro map_cong refl) (auto simp: distinct_map dest: inj_onD)

lemma length_filter_row_set_le:
  "\<not> P r' \<Longrightarrow> length (filter P (row_set key r' rows)) \<le> length (filter P rows)"
  by (induction rows) (auto simp: row_set_def le_SucI)

subsection \<open>First match in a sorted list\<close>

lemma find_sorted_least:
  assumes "sorted xs" "find P xs = Some x" "y \<in> set xs" "P y"
  shows "x \<le> y"
  using assms by (induction xs) (auto split: if_splits)

lemma find_SomeD: "find P xs = Some x \<Longrightarrow> x \<in> set xs \<and> P x"
  by (induction xs) (auto split: if_splits)

lemma find_snoc: "find P xs = None \<Longrightarrow> find P (xs @ [x]) = (if P x then Some x else None)"
  by (induction xs) (auto split: if_splits)

lemma set_map_filter: "set (List.map_filter f xs) = {y. \<exists>x \<in> set xs. f x = Some y}"
  by (force simp: List.map_filter_def)

text \<open>Rows whose keys are distinct: at most one satisfies a predicate that fixes the key.\<close>

lemma one_of_distinct:
  assumes "distinct (map f xs)" "\<And>x y. P x \<Longrightarrow> P y \<Longrightarrow> f x = f y"
  shows "length (filter P xs) \<le> 1"
  using assms
proof (induction xs)
  case (Cons x xs)
  have "\<not> P y" if "P x" "y \<in> set xs" for y
  proof
    assume "P y"
    with that(1) have "f x = f y" by (rule Cons.prems(2))
    with that(2) have "f x \<in> f ` set xs" by blast
    with Cons.prems(1) show False by simp
  qed
  then have "filter P xs = []" if "P x" using that by (simp add: filter_empty_conv)
  moreover have "length (filter P xs) \<le> 1"
    by (rule Cons.IH [OF _ Cons.prems(2)]) (use Cons.prems(1) in simp_all)
  ultimately show ?case by (cases "P x") simp_all
qed simp

end
