(* ===== verification/Timezones.thy ===== *)
theory Timezones
  imports Prelude
begin

text \<open>
  Business-wall-clock conversion, \<open>app/garages/timezones.py\<close>, with the part of Python's
  \<open>zoneinfo\<close> it relies on. A zone is the offset before the first transition and the ascending
  list of transitions (UTC instant, offset from then on); the IANA data itself is a parameter.
  \<open>offset_at\<close> is \<open>zoneinfo\<close>'s lookup for a UTC instant, \<open>wall_offset\<close> its lookup for a wall-clock
  value with \<open>fold=0\<close>: a transition takes effect at the later of its two wall-clock readings.
\<close>

type_synonym transition = "instant \<times> int"

record tz =
  tz_base :: int
  tz_transitions :: "transition list"

fun offset_at :: "int \<Rightarrow> transition list \<Rightarrow> instant \<Rightarrow> int" where
  "offset_at off [] t = off"
| "offset_at off ((u, off') # trs) t = (if u \<le> t then offset_at off' trs t else off)"

fun wall_offset :: "int \<Rightarrow> transition list \<Rightarrow> int \<Rightarrow> int" where
  "wall_offset off [] w = off"
| "wall_offset off ((u, off') # trs) w =
     (if u + max off off' \<le> w then wall_offset off' trs w else off)"

text \<open>
  \<open>timezone_for\<close>: the zone the garage names, the default one when it names none or an unknown
  one. A lookup of the default itself can only fail where the data has no such zone; \<open>ZoneInfo\<close>
  raises then, modelled by \<open>None\<close>.
\<close>

definition default_business_timezone :: string where
  "default_business_timezone = ''Europe/London''"

definition timezone_for :: "(string \<rightharpoonup> tz) \<Rightarrow> string option \<Rightarrow> tz option" where
  "timezone_for zones name =
     (let key = (case name of None \<Rightarrow> default_business_timezone
                 | Some n \<Rightarrow> if n = [] then default_business_timezone else n)
      in case zones key of Some z \<Rightarrow> Some z | None \<Rightarrow> zones default_business_timezone)"

definition local_slot_as_utc :: "tz \<Rightarrow> date \<Rightarrow> clock \<Rightarrow> instant" where
  "local_slot_as_utc z day slot_time =
     (let wall = day * day_us + slot_time
      in wall - wall_offset (tz_base z) (tz_transitions z) wall)"

definition time_min :: clock where "time_min = 0"
definition time_max :: clock where "time_max = day_us - 1"

definition local_day_bounds_utc :: "tz \<Rightarrow> date \<Rightarrow> instant \<times> instant" where
  "local_day_bounds_utc z day =
     (local_slot_as_utc z day time_min, local_slot_as_utc z day time_max)"

definition local_wall :: "tz \<Rightarrow> instant \<Rightarrow> int" where
  "local_wall z t = t + offset_at (tz_base z) (tz_transitions z) t"

definition local_day_for :: "tz \<Rightarrow> instant \<Rightarrow> date" where
  "local_day_for z t = local_wall z t div day_us"

definition local_time_for :: "tz \<Rightarrow> instant \<Rightarrow> clock" where
  "local_time_for z t = local_wall z t mod day_us"

lemmas tz_eval [eval_simps] =
  local_slot_as_utc_def local_day_for_def local_time_for_def local_wall_def
  local_day_bounds_utc_def time_min_def time_max_def

subsection \<open>Round trip between wall clock and UTC\<close>

definition sorted_zone :: "tz \<Rightarrow> bool" where
  "sorted_zone z \<longleftrightarrow> sorted (map fst (tz_transitions z))"

text \<open>A wall-clock value the clocks skip: it lies between the two readings of a forward change.\<close>

fun in_gap :: "int \<Rightarrow> transition list \<Rightarrow> int \<Rightarrow> bool" where
  "in_gap off [] w \<longleftrightarrow> False"
| "in_gap off ((u, off') # trs) w \<longleftrightarrow> u + off \<le> w \<and> w < u + off' \<or> in_gap off' trs w"

definition skipped :: "tz \<Rightarrow> date \<Rightarrow> clock \<Rightarrow> bool" where
  "skipped z day slot_time \<longleftrightarrow> in_gap (tz_base z) (tz_transitions z) (day * day_us + slot_time)"

lemma wall_offset_after:
  assumes "u + off \<le> w" "sorted (u # map fst trs)"
  shows "u \<le> w - wall_offset off trs w"
  using assms
proof (induction trs arbitrary: u off)
  case Nil
  then show ?case by simp
next
  case (Cons tr trs)
  obtain u' off' where tr: "tr = (u', off')" by (cases tr)
  show ?case
  proof (cases "u' + max off off' \<le> w")
    case True
    then have "u' + off' \<le> w" by simp
    with Cons.IH [of u' off'] Cons.prems tr True show ?thesis by auto
  next
    case False
    with Cons.prems tr show ?thesis by simp
  qed
qed

lemma offset_at_wall_offset:
  assumes "sorted (map fst trs)" "\<not> in_gap off trs w"
  shows "offset_at off trs (w - wall_offset off trs w) = wall_offset off trs w"
  using assms
proof (induction trs arbitrary: off)
  case Nil
  then show ?case by simp
next
  case (Cons tr trs)
  obtain u off' where tr: "tr = (u, off')" by (cases tr)
  show ?case
  proof (cases "u + max off off' \<le> w")
    case True
    then have "u \<le> w - wall_offset off' trs w"
      using Cons.prems(1) tr by (intro wall_offset_after) auto
    with True Cons tr show ?thesis by simp
  next
    case False
    with Cons.prems(2) tr show ?thesis by (auto simp: max_def split: if_splits)
  qed
qed

lemma local_wall_slot:
  assumes "sorted_zone z" "\<not> skipped z day slot_time"
  shows "local_wall z (local_slot_as_utc z day slot_time) = day * day_us + slot_time"
  using offset_at_wall_offset [of "tz_transitions z" "tz_base z" "day * day_us + slot_time"] assms
  by (simp add: local_wall_def local_slot_as_utc_def sorted_zone_def skipped_def Let_def)

lemma wall_split:
  fixes day slot_time :: int
  assumes "0 \<le> slot_time" "slot_time < day_us"
  shows "(day * day_us + slot_time) div day_us = day" "(day * day_us + slot_time) mod day_us = slot_time"
  using assms by (simp_all add: div_pos_geq mod_pos_pos_trivial)

text \<open>
  The contract the scheduling code relies on: reading a slot's instant back gives the day and the
  time it was built from.
\<close>

locale business_calendar =
  fixes to_utc :: "date \<Rightarrow> clock \<Rightarrow> instant"
    and day_of :: "instant \<Rightarrow> date"
    and time_of :: "instant \<Rightarrow> clock"
    and valid :: "date \<Rightarrow> clock \<Rightarrow> bool"
  assumes day_of_to_utc: "valid d c \<Longrightarrow> 0 \<le> c \<Longrightarrow> c < day_us \<Longrightarrow> day_of (to_utc d c) = d"
    and time_of_to_utc: "valid d c \<Longrightarrow> 0 \<le> c \<Longrightarrow> c < day_us \<Longrightarrow> time_of (to_utc d c) = c"
begin

lemma to_utc_inject:
  assumes "valid d c" "valid d' c'" "0 \<le> c" "c < day_us" "0 \<le> c'" "c' < day_us"
  shows "to_utc d c = to_utc d' c' \<longleftrightarrow> d = d' \<and> c = c'"
  using assms day_of_to_utc time_of_to_utc by metis

end

interpretation zone: business_calendar
  "local_slot_as_utc z" "local_day_for z" "local_time_for z" "\<lambda>d c. sorted_zone z \<and> \<not> skipped z d c"
  for z
  by unfold_locales (simp_all add: local_day_for_def local_time_for_def local_wall_slot wall_split)

subsection \<open>Properties\<close>

text \<open>
  Interpreting a business's wall-clock slot as a UTC instant and reading the instant back in
  the business's zone gives the same local day and time, for every slot the clocks do not skip.
\<close>

theorem local_slot_round_trip:
  assumes "sorted_zone z" "\<not> skipped z day slot_time" "0 \<le> slot_time" "slot_time < day_us"
  shows "local_day_for z (local_slot_as_utc z day slot_time) = day
    \<and> local_time_for z (local_slot_as_utc z day slot_time) = slot_time"
  using zone.day_of_to_utc [of z day slot_time] zone.time_of_to_utc [of z day slot_time] assms
  by simp

theorem local_slot_round_trip_witness:
  "local_day_for \<lparr>tz_base = 0, tz_transitions = [(88 * day_us + hour_us, hour_us)]\<rparr>
      (local_slot_as_utc \<lparr>tz_base = 0, tz_transitions = [(88 * day_us + hour_us, hour_us)]\<rparr> 88 (9 * hour_us)) = 88
   \<and> local_slot_as_utc \<lparr>tz_base = 0, tz_transitions = [(88 * day_us + hour_us, hour_us)]\<rparr> 88 (9 * hour_us)
      = 88 * day_us + 8 * hour_us"
proof -
  let ?z = "\<lparr>tz_base = 0, tz_transitions = [(88 * day_us + hour_us, hour_us)]\<rparr>"
  have "sorted_zone ?z" "\<not> skipped ?z 88 (9 * hour_us)"
    by (simp_all add: sorted_zone_def skipped_def)
  from local_slot_round_trip [OF this] show ?thesis by (simp add: eval_simps)
qed

end
