(* ===== verification/Money.thy ===== *)
theory Money
  imports Prelude
begin

text \<open>
  Deposit configuration and calculation, \<open>app/payments/money.py\<close>, and the rounding rule every
  amount goes through. Prices and deposit values are \<open>Numeric(10, 2)\<close> columns: they are modelled
  by their number of hundredths (pence, or hundredths of a per cent), so that the code's exact
  \<open>Decimal\<close> products are integers over a power of ten and \<open>quantize(0.01, ROUND_HALF_UP)\<close> is
  \<open>round_half_up\<close>.
\<close>

type_synonym pence = int

definition round_half_up :: "int \<Rightarrow> int \<Rightarrow> int" where
  "round_half_up a b = sgn a * ((2 * \<bar>a\<bar> + b) div (2 * b))"

definition pence_per_pound :: int where "pence_per_pound = 100"

text \<open>\<open>DepositConfigError\<close>, with the message of each \<open>raise\<close> as a constructor.\<close>

datatype deposit_config_error =
  Deposit_type_invalid
| Deposit_value_missing
| Deposit_value_not_positive
| Deposit_percentage_over_100
| Deposit_needs_price
| Deposit_over_price
| Deposit_no_price_at_booking
| Deposit_total_too_low

definition validate_deposit_config ::
  "bool \<Rightarrow> string option \<Rightarrow> int option \<Rightarrow> pence option \<Rightarrow> deposit_config_error + unit"
where
  "validate_deposit_config deposit_required deposit_type deposit_value base_price =
     (if \<not> deposit_required then Inr ()
      else if deposit_type \<noteq> Some ''FIXED'' \<and> deposit_type \<noteq> Some ''PERCENTAGE''
      then Inl Deposit_type_invalid
      else case deposit_value of
        None \<Rightarrow> Inl Deposit_value_missing
      | Some v \<Rightarrow>
          if v \<le> 0 then Inl Deposit_value_not_positive
          else if deposit_type = Some ''PERCENTAGE'' then
            (if v > 100 * 100 then Inl Deposit_percentage_over_100
             else if base_price = None then Inl Deposit_needs_price
             else Inr ())
          else (case base_price of
              Some p \<Rightarrow> if v > p then Inl Deposit_over_price else Inr ()
            | None \<Rightarrow> Inr ()))"

definition calculate_deposit_minor ::
  "string \<Rightarrow> int \<Rightarrow> pence option \<Rightarrow> deposit_config_error + pence"
where
  "calculate_deposit_minor deposit_type deposit_value base_price =
     (if deposit_type = ''PERCENTAGE'' then
        (case base_price of
           None \<Rightarrow> Inl Deposit_no_price_at_booking
         | Some p \<Rightarrow> Inr (round_half_up (p * deposit_value) (100 * 100)))
      else Inr (round_half_up deposit_value 1))"

text \<open>\<open>minor_to_decimal\<close>: pence as pounds and pence, what the audit line prints.\<close>

definition minor_to_decimal :: "pence \<Rightarrow> int \<times> int" where
  "minor_to_decimal amount_minor =
     (sgn amount_minor * (\<bar>amount_minor\<bar> div pence_per_pound), \<bar>amount_minor\<bar> mod pence_per_pound)"

lemmas money_eval [eval_simps] =
  round_half_up_def calculate_deposit_minor_def validate_deposit_config_def
  minor_to_decimal_def pence_per_pound_def

subsection \<open>Rounding\<close>

lemma round_half_up_0 [simp]: "0 < b \<Longrightarrow> round_half_up 0 b = 0"
  by (simp add: round_half_up_def)

lemma round_half_up_1 [simp]: "round_half_up a 1 = a"
  by (simp add: round_half_up_def mult_sgn_abs)

lemma round_half_up_nonneg_eq: "0 \<le> a \<Longrightarrow> 0 < b \<Longrightarrow> round_half_up a b = (2 * a + b) div (2 * b)"
  by (cases "a = 0") (simp_all add: round_half_up_def)

lemma round_half_up_nonneg: "0 \<le> a \<Longrightarrow> 0 < b \<Longrightarrow> 0 \<le> round_half_up a b"
  by (simp add: round_half_up_nonneg_eq pos_imp_zdiv_nonneg_iff)

text \<open>The result is within half a unit of the exact quotient, and an exact half goes up.\<close>

lemma round_half_up_near:
  assumes "0 \<le> a" "0 < b"
  shows "2 * a - b < 2 * b * round_half_up a b" "2 * b * round_half_up a b \<le> 2 * a + b"
proof -
  let ?q = "(2 * a + b) div (2 * b)"
  have "2 * a + b = 2 * b * ?q + (2 * a + b) mod (2 * b)" by simp
  moreover have "0 \<le> (2 * a + b) mod (2 * b)" "(2 * a + b) mod (2 * b) < 2 * b"
    using assms by simp_all
  ultimately show "2 * a - b < 2 * b * round_half_up a b" "2 * b * round_half_up a b \<le> 2 * a + b"
    unfolding round_half_up_nonneg_eq [OF assms] by linarith+
qed

lemma round_half_up_le:
  assumes "0 \<le> a" "0 < b" "a \<le> n * b"
  shows "round_half_up a b \<le> n"
proof (rule ccontr)
  assume "\<not> round_half_up a b \<le> n"
  then have "2 * b * (n + 1) \<le> 2 * b * round_half_up a b" using assms(2) by simp
  also have "\<dots> \<le> 2 * a + b" by (rule round_half_up_near [OF assms(1,2)])
  also have "\<dots> \<le> 2 * (n * b) + b" using assms(3) by simp
  finally show False using assms(2) by (simp add: algebra_simps)
qed

lemma round_half_up_pos:
  assumes "0 < b" "b \<le> 2 * a"
  shows "0 < round_half_up a b"
proof -
  from assms have "0 \<le> a" by linarith
  moreover have "1 \<le> (2 * a + b) div (2 * b)" using assms pos_imp_zdiv_pos_iff [of "2 * b" "2 * a + b"] by linarith
  ultimately show ?thesis using assms(1) by (simp add: round_half_up_nonneg_eq)
qed

subsection \<open>Properties\<close>

text \<open>
  A deposit configuration that passes validation can always be turned into an amount for the
  validated price, and that amount is between nothing and the full price.
\<close>

theorem valid_deposit_amount:
  assumes "validate_deposit_config True (Some ty) (Some v) (Some price) = Inr ()" "0 \<le> price"
  shows "\<exists>amount. calculate_deposit_minor ty v (Some price) = Inr amount \<and> 0 \<le> amount \<and> amount \<le> price"
proof (cases "ty = ''PERCENTAGE''")
  case True
  with assms have v: "0 < v" "v \<le> 100 * 100"
    by (auto simp: validate_deposit_config_def split: if_splits)
  have "price * v \<le> price * (100 * 100)" using v(2) assms(2) by (rule mult_left_mono)
  then have "round_half_up (price * v) (100 * 100) \<le> price"
    using v assms(2) by (intro round_half_up_le) auto
  with True v assms(2) show ?thesis by (simp add: calculate_deposit_minor_def round_half_up_nonneg)
next
  case False
  with assms show ?thesis
    by (auto simp: validate_deposit_config_def calculate_deposit_minor_def split: if_splits)
qed

theorem valid_deposit_amount_witness:
  "\<exists>amount. calculate_deposit_minor ''PERCENTAGE'' 2500 (Some 5499) = Inr amount
    \<and> 0 \<le> amount \<and> amount \<le> 5499"
proof -
  have "validate_deposit_config True (Some ''PERCENTAGE'') (Some 2500) (Some 5499) = Inr ()"
    by (simp add: eval_simps)
  then show ?thesis by (rule valid_deposit_amount) simp
qed

text \<open>
  A percentage deposit is the exact percentage rounded to the nearest penny: it is never more
  than half a penny away, and an exact half penny is charged up.
\<close>

theorem percentage_deposit_nearest_penny:
  assumes "0 \<le> price" "0 \<le> v" "calculate_deposit_minor ''PERCENTAGE'' v (Some price) = Inr amount"
  shows "2 * (price * v) - 10000 < 2 * 10000 * amount \<and> 2 * 10000 * amount \<le> 2 * (price * v) + 10000"
  using round_half_up_near [of "price * v" 10000] assms
  by (auto simp: calculate_deposit_minor_def)

theorem percentage_deposit_nearest_penny_witness:
  "2 * (5 * 1000) - 10000 < 2 * 10000 * (1::int) \<and> 2 * 10000 * (1::int) \<le> 2 * (5 * 1000) + 10000"
proof -
  have "calculate_deposit_minor ''PERCENTAGE'' 1000 (Some 5) = Inr 1" by (simp add: eval_simps)
  from percentage_deposit_nearest_penny [OF _ _ this] show ?thesis by simp
qed

end
