(* ===== verification/Schema.thy ===== *)
theory Schema
  imports Timezones Money
begin

text \<open>
  The database the handlers share: one record per table of \<open>app/models/\<close> and the record \<open>db\<close> of
  all tables, each a list of rows in creation order. A handler takes the database and returns
  the committed one with its result. Columns that are only copied through (addresses, free-text
  notes of the customer, images, provider metadata) are left out. New primary keys come from a
  counter, which models that \<open>uuid4\<close> never repeats; bearer tokens (\<open>token_urlsafe\<close> and their
  SHA-256 hashes) are passed in by the caller of an operation as the value that was drawn.
\<close>

subsection \<open>Catalogue, people and appointments\<close>

datatype type_status = TYPE_ACTIVE | TYPE_HIDDEN | TYPE_DEPRECATED

record appointment_type =
  ty_id :: uid
  ty_garage :: uid
  ty_name :: string
  ty_status :: type_status
  ty_duration :: "int option"
  ty_base_price :: "pence option"
  ty_order :: int
  ty_deposit_required :: bool
  ty_deposit_type :: "string option"
  ty_deposit_value :: "int option"

text \<open>The extras of a service, and the ones applied to a booking, with their terms frozen.\<close>

record add_on =
  xt_id :: uid
  xt_garage :: uid
  xt_type :: uid
  xt_name :: string
  xt_price_delta :: pence
  xt_duration_delta :: int
  xt_max_quantity :: int
  xt_group :: "string option"
  xt_status :: type_status

record applied_add_on =
  ao_add_on :: "uid option"
  ao_name :: string
  ao_quantity :: int
  ao_price_delta :: pence
  ao_duration_delta :: int

record employee =
  em_id :: uid
  em_garage :: uid
  em_active :: bool

record customer =
  cu_id :: uid
  cu_garage :: uid
  cu_first :: string
  cu_last :: string
  cu_email :: "string option"
  cu_phone :: "string option"
  cu_active :: bool

record vehicle =
  ve_id :: uid
  ve_garage :: uid
  ve_customer :: uid
  ve_registration :: string
  ve_active :: bool
  ve_mot_expiry :: "date option"
  ve_make :: "string option"
  ve_model :: "string option"

text \<open>\<open>DiscountSnapshotMixin\<close>: the six columns frozen onto a booking.\<close>

record discount_snapshot =
  ds_code_id :: "uid option"
  ds_code :: "string option"
  ds_type :: "string option"
  ds_value :: "int option"
  ds_amount :: "pence option"
  ds_before :: "pence option"

definition no_discount :: discount_snapshot where
  "no_discount = \<lparr>ds_code_id = None, ds_code = None, ds_type = None, ds_value = None,
     ds_amount = None, ds_before = None\<rparr>"

text \<open>Businesses may add their own appointment statuses; the built-in keys have meaning in code.\<close>

datatype appointment_status =
  AP_REQUESTED | AP_BOOKED | AP_IN_PROGRESS | AP_COMPLETED | AP_ACTION_NEEDED
| AP_CANCELLED | AP_NO_SHOW | AP_CUSTOM string

record appointment =
  ap_id :: uid
  ap_garage :: uid
  ap_employee :: uid
  ap_customer :: uid
  ap_vehicle :: "uid option"
  ap_type :: uid
  ap_start :: instant
  ap_end :: instant
  ap_status :: appointment_status
  ap_price :: "pence option"
  ap_type_name :: "string option"
  ap_imported_at :: "instant option"
  ap_completed_at :: "instant option"
  ap_add_ons :: "applied_add_on list"
  ap_discount :: discount_snapshot

text \<open>A business's own configuration of a status (\<open>GarageAppointmentStatus\<close>).\<close>

record status_config =
  sc_garage :: uid
  sc_key :: appointment_status
  sc_terminal :: bool

subsection \<open>Booking requests\<close>

datatype request_status =
  AWAITING_TERMS | AWAITING_PAYMENT | PENDING | APPROVED | REJECTED | EXPIRED | CANCELLED

record contact =
  ct_first :: string
  ct_last :: string
  ct_email :: "string option"
  ct_phone :: "string option"
  ct_registration :: "string option"

text \<open>The questions of the booking form, and what a customer answered.\<close>

datatype field_type =
  F_TEXT | F_TEXTAREA | F_NUMBER | F_SELECT | F_MULTI_SELECT | F_CHECKBOX | F_DATE | F_TIME
| F_EMAIL | F_PHONE | F_PHOTO

datatype field_binding = ITEM_REFERENCE | ITEM_MAKE | ITEM_MODEL | ITEM_YEAR | ITEM_USAGE

record flow_field =
  ff_id :: uid
  ff_label :: string
  ff_type :: field_type
  ff_required :: bool
  ff_options :: "string list"
  ff_min :: "int option"
  ff_max :: "int option"
  ff_max_length :: "int option"
  ff_binds :: "field_binding option"

record flow_section =
  fs_id :: uid
  fs_garage :: uid
  fs_type :: "uid option"
  fs_order :: int
  fs_title :: string
  fs_active :: bool
  fs_fields :: "flow_field list"

record answer_row =
  an_field :: uid
  an_order :: nat
  an_section :: string
  an_label :: string
  an_type :: field_type
  an_value :: "string option"
  an_values :: "string list"

record item_details =
  it_make :: "string option"
  it_model :: "string option"
  it_year :: "int option"
  it_usage :: "int option"

datatype request_source = SOURCE_WEB | SOURCE_CONVERSATION

record booking_request =
  rq_id :: uid
  rq_garage :: uid
  rq_status :: request_status
  rq_contact :: contact
  rq_type :: "uid option"
  rq_duration :: "int option"
  rq_price :: "pence option"
  rq_type_name :: "string option"
  rq_date :: date
  rq_time :: "clock option"
  rq_add_ons :: "applied_add_on list"
  rq_discount :: discount_snapshot
  rq_customer :: "uid option"
  rq_vehicle :: "uid option"
  rq_appointment :: "uid option"
  rq_reviewer :: "uid option"
  rq_reviewed_at :: "instant option"
  rq_accepted_automatically :: bool
  rq_hold_expires :: "instant option"
  rq_terms_accepted_at :: "instant option"
  rq_terms_version :: "int option"
  rq_terms_token :: "string option"
  rq_recovery_token :: "string option"
  rq_source :: request_source
  rq_reference :: "string option"
  rq_attempt :: "uid option"
  rq_item :: item_details
  rq_employee_note :: "string option"
  rq_notes :: "string option"
  rq_answers :: "answer_row list"
  rq_voice_tool :: "string option"
  rq_voice_call :: "string option"

subsection \<open>Schedule\<close>

text \<open>
  \<open>limited_threshold_ratio\<close> is a Python float: an integer times a power of two, kept as the pair
  of its mantissa and the number of fractional bits.
\<close>

record schedule_settings =
  slot_interval_minutes :: int
  default_appointment_minutes :: int
  min_lead_time_hours :: int
  max_advance_days :: int
  capacity_per_slot :: "int option"
  limited_threshold_ratio :: "int \<times> nat"

record opening_hours =
  oh_weekday :: int
  oh_opens :: clock
  oh_closes :: clock
  oh_closed :: bool

record schedule_exception =
  ex_date :: date
  ex_closed :: bool
  ex_opens :: "clock option"
  ex_closes :: "clock option"

record reserved_window =
  rw_garage :: uid
  rw_weekday :: "int option"
  rw_date :: "date option"
  rw_starts :: clock
  rw_ends :: clock
  rw_capacity :: int

record garage =
  g_id :: uid
  g_zone :: tz
  g_schedule :: "schedule_settings option"
  g_hours :: "opening_hours list"
  g_exceptions :: "schedule_exception list"
  g_auto_accept :: bool
  g_auto_accept_enabled :: bool
  g_terms :: "string option"
  g_terms_version :: "int option"

subsection \<open>Discount codes\<close>

datatype code_source = SOURCE_LOYALTY | SOURCE_MANUAL
datatype code_stored_status = CODE_ACTIVE | CODE_DISABLED
datatype redemption_status = RESERVED | CONSUMED | RELEASED

record discount_code =
  dc_id :: uid
  dc_garage :: uid
  dc_code :: string
  dc_normalized :: string
  dc_source :: code_source
  dc_type :: string
  dc_value :: int
  dc_status :: code_stored_status
  dc_customer :: "uid option"
  dc_valid_from :: "instant option"
  dc_expires :: "instant option"
  dc_max_uses :: "int option"
  dc_max_per_customer :: "int option"
  dc_visit :: "int option"
  dc_for_appointment :: "uid option"

record redemption =
  rd_id :: uid
  rd_code :: uid
  rd_request :: "uid option"
  rd_appointment :: "uid option"
  rd_customer :: "uid option"
  rd_amount :: pence
  rd_status :: redemption_status
  rd_single_use :: bool
  rd_reserved_at :: "instant option"
  rd_consumed_at :: "instant option"
  rd_released_at :: "instant option"

subsection \<open>Payments\<close>

datatype payment_status =
  P_REQUIRES_PAYMENT | P_PENDING | P_SUCCEEDED | P_FAILED | P_CANCELLED
| P_REFUND_PENDING | P_REFUNDED | P_PARTIALLY_REFUNDED | P_REFUND_FAILED

record payment =
  pay_id :: uid
  pay_garage :: uid
  pay_request :: uid
  pay_provider :: string
  pay_provider_id :: "string option"
  pay_account :: "string option"
  pay_amount :: pence
  pay_status :: payment_status
  pay_paid_at :: "instant option"
  pay_failed_at :: "instant option"
  pay_cancelled_at :: "instant option"
  pay_refund_requested_at :: "instant option"
  pay_refund_id :: "string option"
  pay_refunded_amount :: "pence option"
  pay_refunded_at :: "instant option"
  pay_refund_failed_at :: "instant option"

subsection \<open>Walk-in queue\<close>

datatype queue_status = Q_WAITING | Q_CALLED | Q_IN_SERVICE | Q_DONE | Q_CANCELLED | Q_NO_SHOW

datatype end_reason =
  END_CUSTOMER_CANCELLED | END_STAFF_CANCELLED | END_STAFF_NO_SHOW | END_CALL_TIMEOUT | END_DAY_ENDED

record queue_entry =
  qe_id :: uid
  qe_garage :: uid
  qe_status :: queue_status
  qe_end_reason :: "end_reason option"
  qe_date :: date
  qe_ticket :: int
  qe_sort :: int
  qe_first :: string
  qe_last :: "string option"
  qe_phone :: "string option"
  qe_email :: "string option"
  qe_registration :: "string option"
  qe_notes :: "string option"
  qe_type :: "uid option"
  qe_minutes :: int
  qe_token :: string
  qe_called_at :: "instant option"
  qe_started_at :: "instant option"
  qe_ended_at :: "instant option"
  qe_appointment :: "uid option"
  qe_terms_accepted_at :: "instant option"
  qe_terms_version :: "int option"

record queue_settings =
  qs_garage :: uid
  qs_is_open :: bool
  qs_collect_name :: bool
  qs_name_required :: bool
  qs_collect_phone :: bool
  qs_phone_required :: bool
  qs_collect_email :: bool
  qs_email_required :: bool
  qs_collect_registration :: bool
  qs_registration_required :: bool
  qs_average_manual :: bool
  qs_manual_minutes :: "int option"
  qs_timeout_minutes :: "int option"
  qs_default_type :: "uid option"

subsection \<open>Loyalty, terms, and the database\<close>

record loyalty_settings =
  ls_garage :: uid
  ls_enabled :: bool
  ls_visits_required :: int
  ls_discount_type :: string
  ls_discount_value :: int
  ls_expiry_days :: int
  ls_enabled_at :: "instant option"

record terms_version =
  tv_garage :: uid
  tv_version :: int
  tv_body :: string

text \<open>What \<open>emit_event\<close> was called with, and the calls made to a payment provider that move money.\<close>

datatype app_event =
  BOOKING_REQUEST_CREATED uid
| BOOKING_REQUEST_APPROVED uid uid
| BOOKING_REQUEST_REJECTED uid
| APPOINTMENT_CREATED uid
| APPOINTMENT_CANCELLED uid
| APPOINTMENT_COMPLETED uid
| APPOINTMENT_RESCHEDULED uid "instant option" "instant option"
| QUEUE_ENTRY_JOINED uid
| QUEUE_ENTRY_CALLED uid
| CALLBACK_REQUESTED uid

datatype provider_call =
  CALL_CREATE uid
| CALL_CHARGE uid
| CALL_CANCEL uid
| CALL_REFUND uid

record db =
  db_garages :: "garage list"
  db_employees :: "employee list"
  db_types :: "appointment_type list"
  db_add_ons :: "add_on list"
  db_sections :: "flow_section list"
  db_statuses :: "status_config list"
  db_appointments :: "appointment list"
  db_requests :: "booking_request list"
  db_windows :: "reserved_window list"
  db_customers :: "customer list"
  db_vehicles :: "vehicle list"
  db_codes :: "discount_code list"
  db_redemptions :: "redemption list"
  db_payments :: "payment list"
  db_webhooks :: "string list"
  db_queue :: "queue_entry list"
  db_queue_settings :: "queue_settings list"
  db_terms :: "terms_version list"
  db_loyalty :: "loyalty_settings list"
  db_events :: "app_event list"
  db_calls :: "provider_call list"
  db_next :: uid

text \<open>
  A request handler ends normally or with \<open>abort(code, ...)\<close>; the reason stands for the message.
  The database is returned in both cases, since some handlers commit before they abort.
\<close>

datatype http_error = Abort int string

type_synonym 'a outcome = "(http_error + 'a) \<times> db"

definition fresh_id :: "db \<Rightarrow> uid" where
  "fresh_id s = db_next s"

definition emit :: "app_event \<Rightarrow> db \<Rightarrow> db" where
  "emit ev s = s\<lparr>db_events := db_events s @ [ev]\<rparr>"

definition put_request :: "booking_request \<Rightarrow> db \<Rightarrow> db" where
  "put_request r s = s\<lparr>db_requests := row_set rq_id r (db_requests s)\<rparr>"

definition put_payment :: "payment \<Rightarrow> db \<Rightarrow> db" where
  "put_payment p s = s\<lparr>db_payments := row_set pay_id p (db_payments s)\<rparr>"

definition put_redemption :: "redemption \<Rightarrow> db \<Rightarrow> db" where
  "put_redemption r s = s\<lparr>db_redemptions := row_set rd_id r (db_redemptions s)\<rparr>"

definition put_appointment :: "appointment \<Rightarrow> db \<Rightarrow> db" where
  "put_appointment a s = s\<lparr>db_appointments := row_set ap_id a (db_appointments s)\<rparr>"

definition put_entry :: "queue_entry \<Rightarrow> db \<Rightarrow> db" where
  "put_entry e s = s\<lparr>db_queue := row_set qe_id e (db_queue s)\<rparr>"

lemmas put_defs = put_request_def put_payment_def put_redemption_def put_appointment_def put_entry_def
  emit_def

end
