(* ===== verification/Bay_Occupancy.thy ===== *)
theory Bay_Occupancy
  imports Prelude
begin

text \<open>
  The one resource the booking calendar and the walk-in queue compete for: bays. A booked or
  running job occupies one bay over a half-open interval \<open>[start, end)\<close>; \<open>occupancy\<close> counts the
  intervals in progress at an instant. Two components decide "is there room for this job?" with
  different code (\<open>app/queueing/eta.py::_fits\<close> and
  \<open>app/public_booking/availability.py::_peak_overlap\<close>). The locales here state the contract both
  must meet, and what follows from it; both are interpreted where the code is modelled.
\<close>

type_synonym span = "instant \<times> instant"

definition active_at :: "instant \<Rightarrow> span \<Rightarrow> bool" where
  "active_at t iv \<longleftrightarrow> fst iv \<le> t \<and> t < snd iv"

definition occupancy :: "span list \<Rightarrow> instant \<Rightarrow> int" where
  "occupancy ivs t = int (length (filter (active_at t) ivs))"

definition proper_spans :: "span list \<Rightarrow> bool" where
  "proper_spans ivs \<longleftrightarrow> (\<forall>iv \<in> set ivs. fst iv \<le> snd iv)"

lemma occupancy_Nil [simp]: "occupancy [] t = 0"
  by (simp add: occupancy_def)

lemma occupancy_Cons [simp]:
  "occupancy (iv # ivs) t = (if active_at t iv then 1 else 0) + occupancy ivs t"
  by (simp add: occupancy_def)

lemma occupancy_append [simp]: "occupancy (xs @ ys) t = occupancy xs t + occupancy ys t"
  by (simp add: occupancy_def)

lemma occupancy_nonneg [simp]: "0 \<le> occupancy ivs t"
  by (simp add: occupancy_def)

lemma occupancy_mset: "mset xs = mset ys \<Longrightarrow> occupancy xs t = occupancy ys t"
  by (simp add: occupancy_def) (metis mset_filter size_mset)

lemma occupancy_filter_le: "occupancy (filter P ivs) t \<le> occupancy ivs t"
  by (induction ivs) auto

text \<open>Dropping intervals that are over by \<open>floor\<close> (or empty) changes nothing from \<open>floor\<close> on.\<close>

lemma occupancy_filter_live:
  assumes "\<And>iv. iv \<in> set ivs \<Longrightarrow> active_at t iv \<Longrightarrow> P iv"
  shows "occupancy (filter P ivs) t = occupancy ivs t"
  using assms by (induction ivs) auto

text \<open>The contract of a room check: a job fits iff a bay is free throughout its interval.\<close>

locale bay_check =
  fixes room :: "span list \<Rightarrow> instant \<Rightarrow> instant \<Rightarrow> int \<Rightarrow> bool"
  assumes room_iff: "proper_spans ivs \<Longrightarrow> s < e \<Longrightarrow>
    room ivs s e cap \<longleftrightarrow> (\<forall>t. s \<le> t \<and> t < e \<longrightarrow> occupancy ivs t < cap)"
begin

lemma room_admit:
  assumes "proper_spans ivs" "s < e" "room ivs s e cap"
  shows "occupancy ((s, e) # ivs) t \<le> max cap (occupancy ivs t)"
proof (cases "active_at t (s, e)")
  case True
  with assms have "occupancy ivs t < cap" by (auto simp: room_iff active_at_def)
  with True show ?thesis by simp
qed simp

lemma room_keeps_capacity:
  assumes "proper_spans ivs" "s < e" "room ivs s e cap"
    and "\<And>t. occupancy ivs t \<le> cap"
  shows "occupancy ((s, e) # ivs) t \<le> cap"
  using room_admit [OF assms(1-3), of t] assms(4) [of t] by simp

lemma room_subwindow:
  assumes "proper_spans ivs" "room ivs s e cap" "s < e" "s \<le> s'" "s' < e'" "e' \<le> e"
  shows "room ivs s' e' cap"
proof -
  from assms(1-3) have "\<forall>t. s \<le> t \<and> t < e \<longrightarrow> occupancy ivs t < cap" by (simp add: room_iff)
  with assms(4-6) show ?thesis by (auto simp: room_iff [OF assms(1)])
qed

lemma room_order:
  assumes "mset xs = mset ys" "proper_spans xs" "s < e"
  shows "room xs s e cap \<longleftrightarrow> room ys s e cap"
proof -
  from assms(1,2) have "proper_spans ys" by (simp add: proper_spans_def flip: set_mset_mset)
  with assms show ?thesis by (simp add: room_iff occupancy_mset [OF assms(1)])
qed

lemma room_capacity_pos:
  assumes "proper_spans ivs" "s < e" "room ivs s e cap"
  shows "0 < cap"
proof -
  from assms have "occupancy ivs s < cap" by (simp add: room_iff)
  then show ?thesis using occupancy_nonneg [of ivs s] by linarith
qed

end

text \<open>
  A peak meter reports the largest number of bays in use at any instant of a window. Comparing
  its reading with the capacity is a room check.
\<close>

locale peak_meter =
  fixes peak :: "span list \<Rightarrow> instant \<Rightarrow> instant \<Rightarrow> int"
  assumes peak_upper: "proper_spans ivs \<Longrightarrow> s \<le> t \<Longrightarrow> t < e \<Longrightarrow> occupancy ivs t \<le> peak ivs s e"
    and peak_attained: "proper_spans ivs \<Longrightarrow> s < e \<Longrightarrow>
      \<exists>t. s \<le> t \<and> t < e \<and> occupancy ivs t = peak ivs s e"
begin

lemma peak_less_iff:
  assumes "proper_spans ivs" "s < e"
  shows "peak ivs s e < cap \<longleftrightarrow> (\<forall>t. s \<le> t \<and> t < e \<longrightarrow> occupancy ivs t < cap)"
  using peak_upper [OF assms(1), of s _ e] peak_attained [OF assms, THEN exE]
  by (metis (no_types, opaque_lifting) le_less_trans)

lemma peak_unique:
  assumes "proper_spans ivs" "s < e"
    and "\<And>t. s \<le> t \<Longrightarrow> t < e \<Longrightarrow> occupancy ivs t \<le> n"
    and "\<exists>t. s \<le> t \<and> t < e \<and> occupancy ivs t = n"
  shows "peak ivs s e = n"
proof (rule antisym)
  from peak_attained [OF assms(1,2)] assms(3) show "peak ivs s e \<le> n" by metis
  from assms(4) peak_upper [OF assms(1)] show "n \<le> peak ivs s e" by metis
qed

lemma peak_mset:
  assumes "mset xs = mset ys" "proper_spans xs" "s < e"
  shows "peak xs s e = peak ys s e"
proof -
  from assms(1,2) have "proper_spans ys" by (simp add: proper_spans_def flip: set_mset_mset)
  then have "peak ys s e = peak xs s e"
    using peak_upper [OF assms(2), of s _ e] peak_attained [OF assms(2,3)] assms(3)
    by (intro peak_unique) (simp_all add: occupancy_mset [OF assms(1), symmetric])
  then show ?thesis by simp
qed

end

sublocale peak_meter \<subseteq> bay_check "\<lambda>ivs s e cap. peak ivs s e < cap"
  by unfold_locales (rule peak_less_iff)

end
