(* ===== verification/Queue_Eta.thy ===== *)
theory Queue_Eta
  imports Bay_Occupancy
begin

text \<open>
  The walk-in waiting-time estimate, \<open>app/queueing/eta.py\<close>: pure functions that place every
  waiting walk-in, in queue order, at the earliest instant a bay is free for the whole job.
  \<open>earliest_start\<close> searches the ends of the busy intervals; the lemmas show that those
  candidates suffice (no earlier instant fits), that placing a queue never oversells a bay and
  that the order of the queue is kept.
\<close>

subsection \<open>Data\<close>

datatype busy = Busy (bstart: instant) (bend: instant)

record 'k queued_job =
  job_key :: 'k
  job_minutes :: int

record 'k estimate =
  est_key :: 'k
  est_position :: nat
  est_start :: "instant option"

definition fits_today :: "'k estimate \<Rightarrow> bool" where
  "fits_today est \<longleftrightarrow> est_start est \<noteq> None"

definition overrun_grace :: int where
  "overrun_grace = 5 * minute_us"

subsection \<open>Operations\<close>

definition ongoing :: "instant \<Rightarrow> instant \<Rightarrow> instant \<Rightarrow> busy" where
  "ongoing start expected_end now = Busy start (max expected_end (now + overrun_grace))"

text \<open>\<open>math.ceil((start - now).total_seconds() / 60)\<close>; the ceiling of \<open>a / b\<close> is \<open>- ((- a) div b)\<close>.\<close>

definition wait_minutes :: "instant option \<Rightarrow> instant \<Rightarrow> int option" where
  "wait_minutes start now =
     (case start of None \<Rightarrow> None
      | Some s \<Rightarrow> Some (max 0 (- ((now - s) div minute_us))))"

definition usage_at :: "busy list \<Rightarrow> instant \<Rightarrow> int" where
  "usage_at intervals instant =
     int (length (filter (\<lambda>b. bstart b \<le> instant \<and> instant < bend b) intervals))"

definition fits :: "busy list \<Rightarrow> instant \<Rightarrow> instant \<Rightarrow> int \<Rightarrow> bool" where
  "fits intervals start end capacity =
     (let checkpoints = start # map bstart (filter (\<lambda>b. start < bstart b \<and> bstart b < end) intervals)
      in list_all (\<lambda>t. usage_at intervals t < capacity) checkpoints)"

definition start_candidates :: "busy list \<Rightarrow> instant \<Rightarrow> instant list" where
  "start_candidates intervals not_before =
     sort (remdups (not_before # map bend (filter (\<lambda>b. not_before < bend b) intervals)))"

definition earliest_start :: "busy list \<Rightarrow> instant \<Rightarrow> int \<Rightarrow> int \<Rightarrow> instant" where
  "earliest_start intervals not_before minutes capacity =
     (let duration = minutes * minute_us;
          candidates = start_candidates intervals not_before
      in case find (\<lambda>t. fits intervals t (t + duration) capacity) candidates of
           Some t \<Rightarrow> t
         | None \<Rightarrow> last candidates)"

text \<open>
  The loop of \<open>estimate_queue\<close>: its state is the list of intervals, the floor, the flag \<open>blocked\<close>
  and the index.
\<close>

fun place_jobs ::
  "int \<Rightarrow> instant \<Rightarrow> busy list \<Rightarrow> instant \<Rightarrow> bool \<Rightarrow> nat \<Rightarrow> 'k queued_job list \<Rightarrow> 'k estimate list"
where
  "place_jobs capacity closes_at intervals floor blocked i [] = []"
| "place_jobs capacity closes_at intervals floor blocked i (job # jobs) =
     (if blocked
      then \<lparr>est_key = job_key job, est_position = i + 1, est_start = None\<rparr>
           # place_jobs capacity closes_at intervals floor True (i + 1) jobs
      else
        let start = earliest_start intervals floor (job_minutes job) capacity;
            end = start + job_minutes job * minute_us
        in if closes_at < end
           then \<lparr>est_key = job_key job, est_position = i + 1, est_start = None\<rparr>
                # place_jobs capacity closes_at intervals floor True (i + 1) jobs
           else \<lparr>est_key = job_key job, est_position = i + 1, est_start = Some start\<rparr>
                # place_jobs capacity closes_at (intervals @ [Busy start end]) start False (i + 1) jobs)"

definition closed_estimates :: "'k queued_job list \<Rightarrow> 'k estimate list" where
  "closed_estimates queue =
     map (\<lambda>(i, job). \<lparr>est_key = job_key job, est_position = i + 1, est_start = None\<rparr>)
       (enumerate 0 queue)"

definition estimate_queue ::
  "instant \<Rightarrow> int \<Rightarrow> instant option \<Rightarrow> instant option \<Rightarrow> busy list \<Rightarrow> 'k queued_job list
     \<Rightarrow> 'k estimate list"
where
  "estimate_queue now capacity opens_at closes_at busy queue =
     (case (opens_at, closes_at) of
        (Some opens, Some closes) \<Rightarrow>
          if capacity < 1 then closed_estimates queue
          else
            let floor = max now opens;
                intervals = filter (\<lambda>b. floor < bend b \<and> bstart b < bend b) busy
            in place_jobs capacity closes intervals floor False 0 queue
      | _ \<Rightarrow> closed_estimates queue)"

lemmas eta_eval [eval_simps] =
  estimate_queue_def closed_estimates_def earliest_start_def start_candidates_def fits_def
  usage_at_def ongoing_def overrun_grace_def wait_minutes_def fits_today_def

subsection \<open>The fit check decides whether a bay is free throughout the interval\<close>

definition span_of :: "busy \<Rightarrow> span" where
  "span_of b = (bstart b, bend b)"

definition busy_of :: "span \<Rightarrow> busy" where
  "busy_of iv = Busy (fst iv) (snd iv)"

lemma span_of_busy_of [simp]: "span_of (busy_of iv) = iv"
  by (simp add: span_of_def busy_of_def)

lemma span_of_Busy [simp]: "span_of (Busy s e) = (s, e)"
  by (simp add: span_of_def)

lemma map_span_of_busy_of [simp]: "map span_of (map busy_of ivs) = ivs"
  by (induction ivs) auto

lemma usage_at_occupancy: "usage_at ivs t = occupancy (map span_of ivs) t"
  by (simp add: usage_at_def occupancy_def filter_map comp_def active_at_def span_of_def)

lemma usage_at_mono:
  assumes "\<And>b. b \<in> set ivs \<Longrightarrow> bstart b \<le> t \<Longrightarrow> t < bend b \<Longrightarrow> bstart b \<le> u \<and> u < bend b"
  shows "usage_at ivs t \<le> usage_at ivs u"
  unfolding usage_at_def of_nat_le_iff by (rule filter_length_mono) (use assms in auto)

lemma usage_at_earlier_start:
  assumes "s \<le> t"
  obtains c where "c = s \<or> c \<in> bstart ` set ivs \<and> s < c" "s \<le> c" "c \<le> t"
    "usage_at ivs t \<le> usage_at ivs c"
proof -
  let ?C = "insert s {x \<in> bstart ` set ivs. s < x \<and> x \<le> t}"
  let ?c = "Max ?C"
  have fin: "finite ?C" by simp
  have c: "?c \<in> ?C" by (rule Max_in [OF fin]) simp
  have up: "x \<le> ?c" if "x \<in> ?C" for x using Max_ge [OF fin that] .
  have "usage_at ivs t \<le> usage_at ivs ?c"
  proof (rule usage_at_mono)
    fix b assume b: "b \<in> set ivs" "bstart b \<le> t" "t < bend b"
    have "bstart b \<le> ?c"
    proof (cases "bstart b \<le> s")
      case True
      also have "s \<le> ?c" by (rule up) simp
      finally show ?thesis .
    next
      case False
      with b show ?thesis by (intro up) auto
    qed
    moreover from c assms have "?c \<le> t" by auto
    ultimately show "bstart b \<le> ?c \<and> ?c < bend b" using b by simp
  qed
  with c assms that [of ?c] up [of s] show thesis by auto
qed

lemma fits_iff:
  assumes "s < e"
  shows "fits ivs s e cap \<longleftrightarrow> (\<forall>t. s \<le> t \<and> t < e \<longrightarrow> usage_at ivs t < cap)"
proof
  assume fit: "fits ivs s e cap"
  show "\<forall>t. s \<le> t \<and> t < e \<longrightarrow> usage_at ivs t < cap"
  proof (intro allI impI)
    fix t assume t: "s \<le> t \<and> t < e"
    obtain c where c: "c = s \<or> c \<in> bstart ` set ivs \<and> s < c" "c \<le> t"
      and le: "usage_at ivs t \<le> usage_at ivs c"
      using usage_at_earlier_start [of s t ivs] t by metis
    from c t fit have "usage_at ivs c < cap" by (auto simp: fits_def list_all_iff)
    with le show "usage_at ivs t < cap" by simp
  qed
next
  assume "\<forall>t. s \<le> t \<and> t < e \<longrightarrow> usage_at ivs t < cap"
  with assms show "fits ivs s e cap" by (auto simp: fits_def list_all_iff)
qed

interpretation eta: bay_check "\<lambda>ivs s e cap. fits (map busy_of ivs) s e cap"
  by unfold_locales (simp only: fits_iff usage_at_occupancy map_span_of_busy_of)

subsection \<open>The earliest start\<close>

lemma set_start_candidates:
  "set (start_candidates ivs nb) = insert nb {x \<in> bend ` set ivs. nb < x}"
  by (auto simp: start_candidates_def)

lemma sorted_start_candidates: "sorted (start_candidates ivs nb)"
  by (simp add: start_candidates_def)

lemma start_candidates_ge: "c \<in> set (start_candidates ivs nb) \<Longrightarrow> nb \<le> c"
  by (auto simp: set_start_candidates)

text \<open>
  Moving a start back to the latest candidate before it never loses room: between the two no
  interval ends, so every bay in use in between is still in use at the later instant.
\<close>

lemma usage_at_back_to_candidate:
  assumes "nb \<le> t"
  obtains c where "c \<in> set (start_candidates ivs nb)" "c \<le> t"
    "\<forall>x. c \<le> x \<and> x \<le> t \<longrightarrow> usage_at ivs x \<le> usage_at ivs t"
proof -
  let ?C = "{c \<in> set (start_candidates ivs nb). c \<le> t}"
  let ?c = "Max ?C"
  have fin: "finite ?C" by simp
  have c: "?c \<in> ?C"
    by (rule Max_in [OF fin]) (use assms in \<open>auto simp: set_start_candidates\<close>)
  have up: "x \<le> ?c" if "x \<in> ?C" for x using Max_ge [OF fin that] .
  have "usage_at ivs x \<le> usage_at ivs t" if x: "?c \<le> x" "x \<le> t" for x
  proof (rule usage_at_mono)
    fix b assume b: "b \<in> set ivs" "bstart b \<le> x" "x < bend b"
    have "nb \<le> ?c" using c by (auto dest: start_candidates_ge)
    with b x have "nb < bend b" by linarith
    have "t < bend b"
    proof (rule ccontr)
      assume "\<not> t < bend b"
      with b \<open>nb < bend b\<close> have "bend b \<in> ?C" by (auto simp: set_start_candidates)
      then have "bend b \<le> ?c" by (rule up)
      with b x show False by linarith
    qed
    with b x show "bstart b \<le> t \<and> t < bend b" by linarith
  qed
  with c that [of ?c] show thesis by blast
qed

lemma fits_back_to_candidate:
  assumes "nb \<le> t" "0 < d" "fits ivs t (t + d) cap"
  obtains c where "c \<in> set (start_candidates ivs nb)" "c \<le> t" "fits ivs c (c + d) cap"
proof -
  obtain c where c: "c \<in> set (start_candidates ivs nb)" "c \<le> t"
    and wait_back: "\<forall>x. c \<le> x \<and> x \<le> t \<longrightarrow> usage_at ivs x \<le> usage_at ivs t"
    by (rule usage_at_back_to_candidate [OF assms(1), of ivs])
  have use: "usage_at ivs x < cap" if "t \<le> x" "x < t + d" for x
    using assms that by (auto simp: fits_iff)
  have "usage_at ivs x < cap" if x: "c \<le> x" "x < c + d" for x
  proof (cases "t \<le> x")
    case True
    with x c use show ?thesis by simp
  next
    case False
    with x wait_back have "usage_at ivs x \<le> usage_at ivs t" by simp
    also have "\<dots> < cap" using use [of t] assms(2) by simp
    finally show ?thesis .
  qed
  with c assms(2) that show thesis by (auto simp: fits_iff)
qed

lemma usage_at_after_last:
  assumes "\<And>b. b \<in> set ivs \<Longrightarrow> bend b \<le> t"
  shows "usage_at ivs t = 0"
  using assms by (auto simp: usage_at_def filter_empty_conv not_less)

lemma fits_after_last:
  assumes "1 \<le> cap" "0 < d" "\<And>b. b \<in> set ivs \<Longrightarrow> bend b \<le> t"
  shows "fits ivs t (t + d) cap"
proof -
  have "usage_at ivs x = 0" if "t \<le> x" for x
    by (rule usage_at_after_last) (use assms(3) that in fastforce)
  with assms show ?thesis by (simp add: fits_iff)
qed

lemma some_candidate_fits:
  assumes "1 \<le> cap" "0 < d"
  shows "\<exists>c \<in> set (start_candidates ivs nb). fits ivs c (c + d) cap"
proof -
  let ?m = "Max (set (start_candidates ivs nb))"
  have "?m \<in> set (start_candidates ivs nb)"
    by (rule Max_in) (auto simp: set_start_candidates)
  moreover have "fits ivs ?m (?m + d) cap"
  proof (rule fits_after_last [OF assms])
    fix b assume "b \<in> set ivs"
    then show "bend b \<le> ?m"
      by (cases "nb < bend b") (auto simp: set_start_candidates Max_ge_iff)
  qed
  ultimately show ?thesis ..
qed

lemma earliest_start_found:
  assumes "1 \<le> cap" "0 < minutes"
  shows "find (\<lambda>t. fits ivs t (t + minutes * minute_us) cap) (start_candidates ivs nb)
    = Some (earliest_start ivs nb minutes cap)"
proof -
  have "0 < minutes * minute_us" using assms(2) by simp
  from some_candidate_fits [OF assms(1) this, of ivs nb] show ?thesis
    by (auto simp: earliest_start_def Let_def find_None_iff split: option.split)
qed

lemma earliest_start_props:
  assumes "1 \<le> cap" "0 < minutes"
  shows earliest_start_ge: "nb \<le> earliest_start ivs nb minutes cap"
    and earliest_start_fits:
      "fits ivs (earliest_start ivs nb minutes cap)
         (earliest_start ivs nb minutes cap + minutes * minute_us) cap"
  using find_SomeD [OF earliest_start_found [OF assms, of ivs nb]]
  by (auto dest: start_candidates_ge)

lemma earliest_start_minimal:
  assumes "1 \<le> cap" "0 < minutes" "nb \<le> t" "fits ivs t (t + minutes * minute_us) cap"
  shows "earliest_start ivs nb minutes cap \<le> t"
proof -
  from assms(2) have "0 < minutes * minute_us" by simp
  then obtain c where "c \<in> set (start_candidates ivs nb)" "c \<le> t"
      "fits ivs c (c + minutes * minute_us) cap"
    using fits_back_to_candidate [OF assms(3) _ assms(4)] by metis
  with find_sorted_least [OF sorted_start_candidates earliest_start_found [OF assms(1,2)]]
  show ?thesis by fastforce
qed

subsection \<open>Placing a whole queue\<close>

text \<open>The bays the estimates hand out: one interval for every job that got a start.\<close>

fun placed_spans :: "'k queued_job list \<Rightarrow> 'k estimate list \<Rightarrow> span list" where
  "placed_spans (job # jobs) (est # ests) =
     (case est_start est of None \<Rightarrow> []
      | Some s \<Rightarrow> [(s, s + job_minutes job * minute_us)]) @ placed_spans jobs ests"
| "placed_spans _ _ = []"

definition positive_jobs :: "'k queued_job list \<Rightarrow> bool" where
  "positive_jobs jobs \<longleftrightarrow> (\<forall>job \<in> set jobs. 0 < job_minutes job)"

lemma positive_jobs_Cons [simp]:
  "positive_jobs (job # jobs) \<longleftrightarrow> 0 < job_minutes job \<and> positive_jobs jobs"
  by (simp add: positive_jobs_def)

text \<open>The two ways one turn of the loop can go.\<close>

lemma place_jobs_stop:
  assumes "bl \<or> closes < earliest_start ivs fl (job_minutes job) cap + job_minutes job * minute_us"
  shows "place_jobs cap closes ivs fl bl i (job # jobs) =
    \<lparr>est_key = job_key job, est_position = i + 1, est_start = None\<rparr>
    # place_jobs cap closes ivs fl True (i + 1) jobs"
  using assms by (auto simp: Let_def)

lemma place_jobs_go:
  assumes "\<not> (bl \<or> closes < s + job_minutes job * minute_us)"
    and "s = earliest_start ivs fl (job_minutes job) cap"
  shows "place_jobs cap closes ivs fl bl i (job # jobs) =
    \<lparr>est_key = job_key job, est_position = i + 1, est_start = Some s\<rparr>
    # place_jobs cap closes (ivs @ [Busy s (s + job_minutes job * minute_us)]) s False (i + 1) jobs"
  using assms by (simp add: Let_def)

lemma length_place_jobs [simp]: "length (place_jobs cap closes ivs fl bl i jobs) = length jobs"
  by (induction jobs arbitrary: ivs fl bl i) (auto simp: Let_def)

lemma place_jobs_keys: "map est_key (place_jobs cap closes ivs fl bl i jobs) = map job_key jobs"
  by (induction jobs arbitrary: ivs fl bl i) (auto simp: Let_def)

lemma place_jobs_positions:
  "map est_position (place_jobs cap closes ivs fl bl i jobs) = [i + 1..<i + 1 + length jobs]"
  by (induction jobs arbitrary: ivs fl bl i) (auto simp: Let_def upt_rec)

lemma place_jobs_blocked: "est \<in> set (place_jobs cap closes ivs fl True i jobs) \<Longrightarrow> est_start est = None"
  by (induction jobs arbitrary: i) auto

lemma placed_spans_blocked [simp]: "placed_spans jobs (place_jobs cap closes ivs fl True i jobs) = []"
  by (induction jobs arbitrary: i) auto

text \<open>One admitted job raises no instant above the capacity.\<close>

lemma earliest_start_admit:
  fixes ivs :: "busy list" and nb :: instant
  assumes "1 \<le> cap" "0 < minutes"
  defines "s \<equiv> earliest_start ivs nb minutes cap"
  shows "occupancy (map span_of (ivs @ [Busy s (s + minutes * minute_us)])) t
    \<le> max cap (occupancy (map span_of ivs) t)"
proof -
  have "usage_at ivs t < cap" if "s \<le> t" "t < s + minutes * minute_us"
    using that earliest_start_fits [OF assms(1,2), of ivs nb] assms(2)
    by (simp add: s_def fits_iff)
  then show ?thesis by (auto simp: usage_at_occupancy active_at_def)
qed

lemma place_jobs_capacity:
  assumes "1 \<le> cap" "positive_jobs jobs"
  shows "occupancy (map span_of ivs @ placed_spans jobs (place_jobs cap closes ivs fl bl i jobs)) t
    \<le> max cap (occupancy (map span_of ivs) t)"
  using assms(2)
proof (induction jobs arbitrary: ivs fl bl i)
  case Nil
  then show ?case by simp
next
  case (Cons job jobs)
  let ?s = "earliest_start ivs fl (job_minutes job) cap"
  let ?b = "Busy ?s (?s + job_minutes job * minute_us)"
  from Cons.prems have pos: "0 < job_minutes job" "positive_jobs jobs" by simp_all
  show ?case
  proof (cases "bl \<or> closes < ?s + job_minutes job * minute_us")
    case True
    then show ?thesis by (simp only: place_jobs_stop) simp
  next
    case False
    from Cons.IH [OF pos(2), of "ivs @ [?b]" ?s False "i + 1"]
      earliest_start_admit [OF assms(1) pos(1), of ivs fl t]
    show ?thesis by (simp add: place_jobs_go [OF False refl] del: place_jobs.simps)
  qed
qed

lemma place_jobs_starts:
  assumes "1 \<le> cap" "positive_jobs jobs" "span \<in> set (placed_spans jobs (place_jobs cap closes ivs fl bl i jobs))"
  shows "fl \<le> fst span \<and> fst span < snd span \<and> snd span \<le> closes"
  using assms(2,3)
proof (induction jobs arbitrary: ivs fl bl i)
  case Nil
  then show ?case by simp
next
  case (Cons job jobs)
  let ?s = "earliest_start ivs fl (job_minutes job) cap"
  from Cons.prems have pos: "0 < job_minutes job" "positive_jobs jobs" by simp_all
  have ge: "fl \<le> ?s" by (rule earliest_start_ge [OF assms(1) pos(1)])
  show ?case
  proof (cases "bl \<or> closes < ?s + job_minutes job * minute_us")
    case True
    with Cons.prems(2) show ?thesis by (simp only: place_jobs_stop) simp
  next
    case False
    from Cons.prems(2) have "span = (?s, ?s + job_minutes job * minute_us) \<or>
        span \<in> set (placed_spans jobs (place_jobs cap closes
          (ivs @ [Busy ?s (?s + job_minutes job * minute_us)]) ?s False (i + 1) jobs))"
      by (simp add: place_jobs_go [OF False refl] del: place_jobs.simps)
    then show ?thesis
    proof
      assume "span = (?s, ?s + job_minutes job * minute_us)"
      with ge pos(1) False show ?thesis by simp
    next
      assume "span \<in> set (placed_spans jobs (place_jobs cap closes
          (ivs @ [Busy ?s (?s + job_minutes job * minute_us)]) ?s False (i + 1) jobs))"
      from Cons.IH [OF pos(2) this] ge show ?thesis by simp
    qed
  qed
qed

text \<open>Those who get a start are a prefix of the queue, and their starts never go backwards.\<close>

definition served_starts :: "'k estimate list \<Rightarrow> instant list" where
  "served_starts ests = List.map_filter est_start ests"

lemma served_starts_simps [simp]:
  "served_starts [] = []"
  "served_starts (est # ests) =
     (case est_start est of None \<Rightarrow> served_starts ests | Some s \<Rightarrow> s # served_starts ests)"
  by (simp_all add: served_starts_def map_filter_simps split: option.split)

lemma served_starts_blocked [simp]: "served_starts (place_jobs cap closes ivs fl True i jobs) = []"
  by (induction jobs arbitrary: i) auto

lemma place_jobs_fifo:
  assumes "1 \<le> cap" "positive_jobs jobs"
  shows "sorted (fl # served_starts (place_jobs cap closes ivs fl bl i jobs))"
  using assms(2)
proof (induction jobs arbitrary: ivs fl bl i)
  case Nil
  then show ?case by simp
next
  case (Cons job jobs)
  let ?s = "earliest_start ivs fl (job_minutes job) cap"
  from Cons.prems have pos: "0 < job_minutes job" "positive_jobs jobs" by simp_all
  have "fl \<le> ?s" by (rule earliest_start_ge [OF assms(1) pos(1)])
  with Cons.IH [OF pos(2), of ?s "ivs @ [Busy ?s (?s + job_minutes job * minute_us)]" False "i + 1"]
  show ?case by (auto simp: Let_def)
qed

fun prefix_served :: "'k estimate list \<Rightarrow> bool" where
  "prefix_served [] \<longleftrightarrow> True"
| "prefix_served (est # ests) \<longleftrightarrow>
     (fits_today est \<or> (\<forall>e \<in> set ests. \<not> fits_today e)) \<and> prefix_served ests"

lemma place_jobs_prefix: "prefix_served (place_jobs cap closes ivs fl bl i jobs)"
proof (induction jobs arbitrary: ivs fl bl i)
  case Nil
  then show ?case by simp
next
  case (Cons job jobs)
  then show ?case
    by (auto simp: Let_def fits_today_def dest: place_jobs_blocked)
qed

lemma closed_estimates_facts:
  shows closed_estimates_keys: "map est_key (closed_estimates queue) = map job_key queue"
    and closed_estimates_positions:
      "map est_position (closed_estimates queue) = [1..<1 + length queue]"
    and closed_estimates_none: "e \<in> set (closed_estimates queue) \<Longrightarrow> est_start e = None"
  by (auto simp: closed_estimates_def nth_enumerate_eq intro!: nth_equalityI simp del: upt_Suc)

lemma placed_spans_none:
  "(\<And>e. e \<in> set ests \<Longrightarrow> est_start e = None) \<Longrightarrow> placed_spans jobs ests = []"
  by (induction jobs ests rule: placed_spans.induct) auto

lemma served_starts_none:
  "(\<And>e. e \<in> set ests \<Longrightarrow> est_start e = None) \<Longrightarrow> served_starts ests = []"
  by (induction ests) auto

lemma prefix_served_none: "(\<And>e. e \<in> set ests \<Longrightarrow> est_start e = None) \<Longrightarrow> prefix_served ests"
  by (induction ests) (auto simp: fits_today_def)

text \<open>Either nobody can be placed today, or the placement loop runs from the floor.\<close>

lemma estimate_queue_cases:
  obtains (closed) "estimate_queue now cap opens_at closes_at busy queue = closed_estimates queue"
  | (placed) opens closes where "opens_at = Some opens" "closes_at = Some closes" "1 \<le> cap"
      "estimate_queue now cap opens_at closes_at busy queue =
        place_jobs cap closes (filter (\<lambda>b. max now opens < bend b \<and> bstart b < bend b) busy)
          (max now opens) False 0 queue"
proof (cases "(\<exists>opens closes. opens_at = Some opens \<and> closes_at = Some closes) \<and> 1 \<le> cap")
  case True
  then show thesis by (auto intro: placed simp: estimate_queue_def Let_def)
next
  case False
  then show thesis
    by (intro closed) (auto simp: estimate_queue_def split: option.split)
qed

lemma occupancy_live_busy:
  assumes "fl \<le> t"
  shows "occupancy (map span_of (filter (\<lambda>b. fl < bend b \<and> bstart b < bend b) busy)) t
    = occupancy (map span_of busy) t"
  using assms by (induction busy) (auto simp: active_at_def span_of_def)

subsection \<open>Properties\<close>

text \<open>
  C24: Placing the walk-in queue never oversells a bay. At every instant, the bays in use by
  appointments, running services and the estimated walk-ins together exceed neither the capacity
  nor what the appointments alone already used.
\<close>

theorem estimate_queue_never_oversells:
  assumes "positive_jobs queue"
  shows "occupancy (map span_of busy
      @ placed_spans queue (estimate_queue now capacity opens_at closes_at busy queue)) t
    \<le> max capacity (occupancy (map span_of busy) t)"
proof (cases now capacity opens_at closes_at busy queue rule: estimate_queue_cases)
  case closed
  then show ?thesis by (simp add: placed_spans_none closed_estimates_none)
next
  case (placed opens closes)
  let ?fl = "max now opens"
  let ?live = "filter (\<lambda>b. ?fl < bend b \<and> bstart b < bend b) busy"
  let ?new = "placed_spans queue (place_jobs capacity closes ?live ?fl False 0 queue)"
  show ?thesis
  proof (cases "?fl \<le> t")
    case True
    from place_jobs_capacity [OF placed(3) assms, of ?live closes ?fl False 0 t]
    show ?thesis by (simp only: placed(4) occupancy_append occupancy_live_busy [OF True])
  next
    case False
    have "\<not> active_at t iv" if "iv \<in> set ?new" for iv
      using place_jobs_starts [OF placed(3) assms that] False unfolding active_at_def by linarith
    then have "filter (active_at t) ?new = []" by (simp only: filter_empty_conv) simp
    then have "occupancy ?new t = 0" by (simp only: occupancy_def) simp
    then show ?thesis by (simp add: placed(4))
  qed
qed

theorem estimate_queue_never_oversells_witness:
  "positive_jobs [\<lparr>job_key = ''a'', job_minutes = 45\<rparr>]
   \<and> occupancy (map span_of [Busy 0 (30 * minute_us)]
      @ placed_spans [\<lparr>job_key = ''a'', job_minutes = 45\<rparr>]
          (estimate_queue 0 1 (Some 0) (Some (10 * hour_us)) [Busy 0 (30 * minute_us)]
            [\<lparr>job_key = ''a'', job_minutes = 45\<rparr>])) 5
    \<le> max 1 (occupancy (map span_of [Busy 0 (30 * minute_us)]) 5)"
proof -
  have h: "positive_jobs [\<lparr>job_key = ''a'', job_minutes = 45\<rparr>]" by (simp add: positive_jobs_def)
  from h estimate_queue_never_oversells [OF h, of "[Busy 0 (30 * minute_us)]" 0 1 "Some 0"
      "Some (10 * hour_us)" 5]
  show ?thesis by blast
qed

text \<open>
  The estimate of one job is exact: it starts no earlier than asked, the job fits there, and
  at no earlier instant at all (not only at none of the code's candidates) does it fit.
\<close>

theorem earliest_start_exact:
  assumes "1 \<le> capacity" "0 < minutes"
  shows "not_before \<le> earliest_start intervals not_before minutes capacity
    \<and> fits intervals (earliest_start intervals not_before minutes capacity)
        (earliest_start intervals not_before minutes capacity + minutes * minute_us) capacity
    \<and> (\<forall>t. not_before \<le> t \<and> t < earliest_start intervals not_before minutes capacity
        \<longrightarrow> \<not> fits intervals t (t + minutes * minute_us) capacity)"
  using earliest_start_props [OF assms] earliest_start_minimal [OF assms] by (meson not_less)

theorem earliest_start_exact_witness:
  "earliest_start [Busy 0 (30 * minute_us)] 0 45 1 = 30 * minute_us
   \<and> \<not> fits [Busy 0 (30 * minute_us)] (29 * minute_us) (74 * minute_us) 1"
proof -
  have "earliest_start [Busy 0 (30 * minute_us)] 0 45 1 = 30 * minute_us"
    by (simp add: eval_simps)
  with earliest_start_exact [of 1 45 0 "[Busy 0 (30 * minute_us)]"] show ?thesis
    by (auto dest: spec [of _ "29 * minute_us"])
qed

text \<open>
  The queue is a promise about order: every job is reported at its place, starts never go
  backwards along the line, and behind somebody who cannot be seen today nobody is given a start.
\<close>

theorem estimate_queue_fifo:
  assumes "positive_jobs queue"
    and "ests = estimate_queue now capacity opens_at closes_at busy queue"
  shows "map est_key ests = map job_key queue
    \<and> map est_position ests = [1..<1 + length queue]
    \<and> sorted (served_starts ests)
    \<and> prefix_served ests"
proof (cases now capacity opens_at closes_at busy queue rule: estimate_queue_cases)
  case closed
  then show ?thesis
    by (simp add: assms(2) closed_estimates_keys closed_estimates_positions closed_estimates_none
        served_starts_none prefix_served_none)
next
  case (placed opens closes)
  from place_jobs_fifo [OF placed(3) assms(1)] show ?thesis
    by (simp add: assms(2) placed(4) place_jobs_keys place_jobs_positions place_jobs_prefix)
qed

theorem estimate_queue_fifo_witness:
  "served_starts (estimate_queue 0 1 (Some 0) (Some (2 * hour_us)) []
      [\<lparr>job_key = ''a'', job_minutes = 60\<rparr>, \<lparr>job_key = ''b'', job_minutes = 90\<rparr>,
       \<lparr>job_key = ''c'', job_minutes = 10\<rparr>]) = [0]
   \<and> prefix_served (estimate_queue 0 1 (Some 0) (Some (2 * hour_us)) []
      [\<lparr>job_key = ''a'', job_minutes = 60\<rparr>, \<lparr>job_key = ''b'', job_minutes = 90\<rparr>,
       \<lparr>job_key = ''c'', job_minutes = 10\<rparr>])"
proof -
  let ?q = "[\<lparr>job_key = ''a'', job_minutes = 60\<rparr>, \<lparr>job_key = ''b'', job_minutes = 90\<rparr>,
       \<lparr>job_key = ''c'', job_minutes = 10\<rparr>]"
  have "positive_jobs ?q" by (simp add: positive_jobs_def)
  from estimate_queue_fifo [OF this refl, of 0 1 "Some 0" "Some (2 * hour_us)" "[]"] show ?thesis
    by (simp add: eval_simps)
qed

text \<open>
  Every estimated walk-in is placed within the business day: not before now, not before the
  business opens, and the whole job ends by closing time.
\<close>

theorem estimate_queue_within_hours:
  assumes "positive_jobs queue"
    and "span \<in> set (placed_spans queue (estimate_queue now capacity opens_at closes_at busy queue))"
  shows "\<exists>opens closes. opens_at = Some opens \<and> closes_at = Some closes
    \<and> now \<le> fst span \<and> opens \<le> fst span \<and> fst span < snd span \<and> snd span \<le> closes"
proof (cases now capacity opens_at closes_at busy queue rule: estimate_queue_cases)
  case closed
  with assms(2) show ?thesis by (simp add: placed_spans_none closed_estimates_none)
next
  case (placed opens closes)
  from place_jobs_starts [OF placed(3) assms(1) assms(2) [unfolded placed(4)]] placed(1,2)
  show ?thesis by simp
qed

theorem estimate_queue_within_hours_witness:
  "\<exists>opens closes. Some (0::int) = Some opens \<and> Some (2 * hour_us) = Some closes
    \<and> 5 \<le> (5::int) \<and> opens \<le> 5 \<and> (5::int) < 5 + 60 * minute_us \<and> 5 + 60 * minute_us \<le> closes"
proof -
  have "positive_jobs [\<lparr>job_key = ''a'', job_minutes = 60\<rparr>]" by (simp add: positive_jobs_def)
  moreover have "(5, 5 + 60 * minute_us) \<in> set (placed_spans [\<lparr>job_key = ''a'', job_minutes = 60\<rparr>]
      (estimate_queue 5 1 (Some 0) (Some (2 * hour_us)) [] [\<lparr>job_key = ''a'', job_minutes = 60\<rparr>]))"
    by (simp add: eval_simps)
  ultimately show ?thesis by (drule_tac estimate_queue_within_hours) auto
qed

end
