(* ===== verification/Availability.thy ===== *)
theory Availability
  imports Schema Bay_Occupancy
begin

text \<open>
  The availability calendar of the public booking page, \<open>app/public_booking/availability.py\<close>:
  schedule resolution, bay accounting for one candidate slot, the slot list of a day, the day
  levels of the month calendar and the submit-time check \<open>validate_slot\<close>. Database queries are
  filters over the tables of \<open>Schema.db\<close>; \<open>strftime("%H:%M")\<close> results are kept as minutes since
  midnight. The slot loop adds \<open>slot_interval_minutes\<close> until the job no longer fits before
  closing; with an interval that is not positive it would not stop, so loops are
  \<open>partial_function (option)\<close> and \<open>None\<close> stands for not returning.
\<close>

subsection \<open>Resolved schedule\<close>

definition default_settings :: schedule_settings where
  "default_settings = \<lparr>slot_interval_minutes = 5, default_appointment_minutes = 60,
     min_lead_time_hours = 2, max_advance_days = 60, capacity_per_slot = None,
     limited_threshold_ratio = (1, 1)\<rparr>"

definition resolve_settings :: "garage \<Rightarrow> schedule_settings" where
  "resolve_settings g = (case g_schedule g of None \<Rightarrow> default_settings | Some row \<Rightarrow> row)"

type_synonym day_rule = "clock \<times> clock \<times> bool"

definition default_opening_hours :: "int \<Rightarrow> day_rule" where
  "default_opening_hours wd = (9 * hour_us, 17 * hour_us, wd = 5 \<or> wd = 6)"

definition resolve_opening_hours :: "garage \<Rightarrow> int \<Rightarrow> day_rule" where
  "resolve_opening_hours g wd =
     (let rows = map_of (rev (map (\<lambda>oh. (oh_weekday oh, (oh_opens oh, oh_closes oh, oh_closed oh)))
                  (g_hours g)))
      in case rows wd of None \<Rightarrow> default_opening_hours wd | Some r \<Rightarrow> r)"

definition resolve_exceptions :: "garage \<Rightarrow> date \<Rightarrow> date \<Rightarrow> (date \<rightharpoonup> schedule_exception)" where
  "resolve_exceptions g start_date end_date =
     map_of (rev (map (\<lambda>exc. (ex_date exc, exc))
       (filter (\<lambda>exc. start_date \<le> ex_date exc \<and> ex_date exc \<le> end_date) (g_exceptions g))))"

text \<open>\<open>Employee.query.filter_by(garage_id=...).count()\<close>: every employee row, active or not.\<close>

definition slot_capacity :: "db \<Rightarrow> garage \<Rightarrow> schedule_settings \<Rightarrow> int" where
  "slot_capacity s g settings =
     (case capacity_per_slot settings of
        Some c \<Rightarrow> max 1 c
      | None \<Rightarrow> max 1 (int (length (filter (\<lambda>em. em_garage em = g_id g) (db_employees s)))))"

definition booking_window :: "schedule_settings \<Rightarrow> date \<Rightarrow> date \<times> date" where
  "booking_window settings today = (today, today + max_advance_days settings)"

text \<open>\<open>date.weekday()\<close>: day 1 of the calendar is a Monday (0).\<close>

definition weekday_of :: "date \<Rightarrow> int" where
  "weekday_of day = (day + 6) mod 7"

definition day_hours ::
  "date \<Rightarrow> (int \<Rightarrow> day_rule) \<Rightarrow> (date \<rightharpoonup> schedule_exception) \<Rightarrow> (clock \<times> clock) option"
where
  "day_hours day hours_map exceptions =
     (let regular = (case hours_map (weekday_of day) of
                       (opens, closes, closed) \<Rightarrow> if closed then None else Some (opens, closes))
      in case exceptions day of
           None \<Rightarrow> regular
         | Some exc \<Rightarrow>
             if ex_closed exc then None
             else case (ex_opens exc, ex_closes exc) of
                    (Some opens, Some closes) \<Rightarrow> Some (opens, closes)
                  | _ \<Rightarrow> regular)"

definition open_interval :: "garage \<Rightarrow> date \<Rightarrow> (instant \<times> instant) option" where
  "open_interval g day =
     (case day_hours day (resolve_opening_hours g) (resolve_exceptions g day day) of
        None \<Rightarrow> None
      | Some (opens, closes) \<Rightarrow>
          Some (local_slot_as_utc (g_zone g) day opens, local_slot_as_utc (g_zone g) day closes))"

definition minutes_of :: "clock \<Rightarrow> int" where
  "minutes_of t = t div minute_us"

subsection \<open>What already occupies the bays\<close>

definition holding_statuses :: "request_status list" where
  "holding_statuses = [PENDING, AWAITING_PAYMENT, AWAITING_TERMS]"

definition load_day_usage ::
  "db \<Rightarrow> garage \<Rightarrow> date \<Rightarrow> appointment list \<times> booking_request list"
where
  "load_day_usage s g day =
     (let day_start = local_slot_as_utc (g_zone g) day time_min;
          day_end = local_slot_as_utc (g_zone g) day time_max
      in (filter (\<lambda>a. ap_garage a = g_id g \<and> ap_status a \<noteq> AP_CANCELLED
                    \<and> ap_start a \<le> day_end \<and> day_start \<le> ap_end a) (db_appointments s),
          filter (\<lambda>r. rq_garage r = g_id g \<and> rq_status r \<in> set holding_statuses
                    \<and> rq_date r = day \<and> rq_time r \<noteq> None) (db_requests s)))"

definition load_reserved_windows :: "db \<Rightarrow> garage \<Rightarrow> date \<Rightarrow> (instant \<times> instant \<times> int) list" where
  "load_reserved_windows s g day =
     map (\<lambda>w. (local_slot_as_utc (g_zone g) day (rw_starts w),
               local_slot_as_utc (g_zone g) day (rw_ends w), rw_capacity w))
       (filter (\<lambda>w. rw_garage w = g_id g
                 \<and> (rw_weekday w = Some (weekday_of day) \<or> rw_date w = Some day)) (db_windows s))"

fun max_default :: "int \<Rightarrow> int list \<Rightarrow> int" where
  "max_default d [] = d"
| "max_default d (x # xs) = foldl max x xs"

definition reserved_at :: "(instant \<times> instant \<times> int) list \<Rightarrow> instant \<Rightarrow> instant \<Rightarrow> int" where
  "reserved_at windows slot_start slot_end =
     max_default 0 (map (\<lambda>(ws, we, n). n)
       (filter (\<lambda>(ws, we, n). ws < slot_end \<and> slot_start < we) windows))"

definition find_type :: "db \<Rightarrow> uid option \<Rightarrow> appointment_type option" where
  "find_type s i = (case i of None \<Rightarrow> None | Some t \<Rightarrow> row_find ty_id t (db_types s))"

definition pending_request_duration :: "db \<Rightarrow> booking_request \<Rightarrow> schedule_settings \<Rightarrow> int" where
  "pending_request_duration s r settings =
     (case rq_duration r of
        Some d \<Rightarrow> d
      | None \<Rightarrow>
          (case find_type s (rq_type r) of
             Some ty \<Rightarrow> (case ty_duration ty of Some d \<Rightarrow> d | None \<Rightarrow> default_appointment_minutes settings)
           | None \<Rightarrow> default_appointment_minutes settings))"

definition overlap_events :: "span list \<Rightarrow> instant \<Rightarrow> instant \<Rightarrow> (instant \<times> int) list" where
  "overlap_events intervals window_start window_end =
     concat (map (\<lambda>(start, end).
       if start < window_end \<and> window_start < end
       then [(max start window_start, 1), (min end window_end, -1)] else []) intervals)"

text \<open>The sweep: \<open>current\<close> follows the sorted events, \<open>peak\<close> its maximum.\<close>

fun sweep_events :: "int \<Rightarrow> int \<Rightarrow> (instant \<times> int) list \<Rightarrow> int" where
  "sweep_events peak current [] = peak"
| "sweep_events peak current ((t, delta) # events) =
     sweep_events (max peak (current + delta)) (current + delta) events"

definition peak_overlap :: "span list \<Rightarrow> instant \<Rightarrow> instant \<Rightarrow> int" where
  "peak_overlap intervals window_start window_end =
     sweep_events 0 0 (sort (overlap_events intervals window_start window_end))"

definition usage_intervals ::
  "db \<Rightarrow> garage \<Rightarrow> appointment list \<Rightarrow> booking_request list \<Rightarrow> schedule_settings \<Rightarrow> span list"
where
  "usage_intervals s g appointments pending settings =
     map (\<lambda>a. (ap_start a, ap_end a)) appointments @
     map (\<lambda>r. let p_start = local_slot_as_utc (g_zone g) (rq_date r) (the (rq_time r))
              in (p_start, p_start + pending_request_duration s r settings * minute_us)) pending"

definition slot_usage ::
  "db \<Rightarrow> garage \<Rightarrow> appointment list \<Rightarrow> booking_request list \<Rightarrow> instant \<Rightarrow> int \<Rightarrow> schedule_settings \<Rightarrow> int"
where
  "slot_usage s g appointments pending slot_start duration_min settings =
     peak_overlap (usage_intervals s g appointments pending settings)
       slot_start (slot_start + duration_min * minute_us)"

subsection \<open>The slots of a day\<close>

datatype slot_status = SLOT_AVAILABLE | SLOT_LIMITED | SLOT_BOOKED

record slot =
  sl_start :: int
  sl_end :: int
  sl_duration :: int
  sl_status :: slot_status
  sl_remaining :: int
  sl_capacity :: int

text \<open>
  \<open>math.floor(capacity * ratio)\<close> on a Python float: the exact product is rounded to 53 bits, ties
  to even, before the floor is taken.
\<close>

fun bit_length :: "nat \<Rightarrow> nat" where
  "bit_length n = (if n = 0 then 0 else Suc (bit_length (n div 2)))"

declare bit_length.simps [simp del]

definition div_half_even :: "int \<Rightarrow> int \<Rightarrow> int" where
  "div_half_even n d =
     (let q = n div d; r = n mod d
      in if 2 * r < d then q else if d < 2 * r then q + 1 else if even q then q else q + 1)"

definition limited_threshold :: "int \<Rightarrow> int \<times> nat \<Rightarrow> int" where
  "limited_threshold capacity ratio =
     (let n = capacity * fst ratio;
          sh = bit_length (nat \<bar>n\<bar>) - 53;
          m = div_half_even n (2 ^ sh)
      in m * 2 ^ sh div 2 ^ snd ratio)"

partial_function (option) slot_minutes :: "int \<Rightarrow> int \<Rightarrow> int \<Rightarrow> int \<Rightarrow> int list option" where
  "slot_minutes m interval duration close_m =
     (if m + duration \<le> close_m
      then Option.bind (slot_minutes (m + interval) interval duration close_m) (\<lambda>ms. Some (m # ms))
      else Some [])"

definition day_slot ::
  "db \<Rightarrow> garage \<Rightarrow> date \<Rightarrow> schedule_settings \<Rightarrow> instant \<Rightarrow> int \<Rightarrow> int \<Rightarrow> slot option"
where
  "day_slot s g day settings now duration m =
     (let capacity = slot_capacity s g settings;
          threshold = limited_threshold capacity (limited_threshold_ratio settings);
          lead_cutoff = now + min_lead_time_hours settings * hour_us;
          slot_start = local_slot_as_utc (g_zone g) day (m * minute_us)
      in if lead_cutoff \<le> slot_start then
           let (appointments, pending) = load_day_usage s g day;
               windows = load_reserved_windows s g day;
               used = slot_usage s g appointments pending slot_start duration settings;
               slot_end = slot_start + duration * minute_us;
               remaining = capacity - reserved_at windows slot_start slot_end - used
           in Some \<lparr>sl_start = m, sl_end = minutes_of (local_time_for (g_zone g) slot_end),
                    sl_duration = duration,
                    sl_status = (if remaining \<le> 0 then SLOT_BOOKED
                                 else if remaining \<le> threshold then SLOT_LIMITED
                                 else SLOT_AVAILABLE),
                    sl_remaining = max 0 remaining, sl_capacity = capacity\<rparr>
         else None)"

definition day_slots ::
  "db \<Rightarrow> garage \<Rightarrow> date \<Rightarrow> schedule_settings \<Rightarrow> (int \<Rightarrow> day_rule) \<Rightarrow> (date \<rightharpoonup> schedule_exception)
     \<Rightarrow> instant \<Rightarrow> int option \<Rightarrow> slot list option"
where
  "day_slots s g day settings hours_map exceptions now duration_min =
     (case day_hours day hours_map exceptions of
        None \<Rightarrow> Some []
      | Some (opens_at, closes_at) \<Rightarrow>
          let duration = (case duration_min of Some d \<Rightarrow> d | None \<Rightarrow> default_appointment_minutes settings)
          in map_option (List.map_filter (day_slot s g day settings now duration))
               (slot_minutes (minutes_of opens_at) (slot_interval_minutes settings) duration
                 (minutes_of closes_at)))"

partial_function (option) count_slots :: "int \<Rightarrow> int \<Rightarrow> int \<Rightarrow> int \<Rightarrow> int \<Rightarrow> int option" where
  "count_slots n m interval duration close_m =
     (if m + duration \<le> close_m
      then count_slots (n + 1) (m + interval) interval duration close_m
      else Some n)"

definition day_slot_count ::
  "date \<Rightarrow> schedule_settings \<Rightarrow> (int \<Rightarrow> day_rule) \<Rightarrow> (date \<rightharpoonup> schedule_exception) \<Rightarrow> int option"
where
  "day_slot_count day settings hours_map exceptions =
     (case day_hours day hours_map exceptions of
        None \<Rightarrow> Some 0
      | Some (opens_at, closes_at) \<Rightarrow>
          count_slots 0 (minutes_of opens_at) (slot_interval_minutes settings)
            (default_appointment_minutes settings) (minutes_of closes_at))"

definition day_open_minutes ::
  "date \<Rightarrow> (int \<Rightarrow> day_rule) \<Rightarrow> (date \<rightharpoonup> schedule_exception) \<Rightarrow> int"
where
  "day_open_minutes day hours_map exceptions =
     (case day_hours day hours_map exceptions of
        None \<Rightarrow> 0
      | Some (opens_at, closes_at) \<Rightarrow> minutes_of closes_at - minutes_of opens_at)"

subsection \<open>Day levels, the range and the single-day payloads\<close>

datatype day_level = LEVEL_AVAILABLE | LEVEL_LIMITED | LEVEL_FULL | LEVEL_CLOSED | LEVEL_PAST

record summary =
  sm_date :: date
  sm_weekday :: int
  sm_is_open :: bool
  sm_level :: day_level
  sm_open_slots :: int
  sm_total_slots :: int

definition make_summary :: "date \<Rightarrow> bool \<Rightarrow> day_level \<Rightarrow> int \<Rightarrow> int \<Rightarrow> summary" where
  "make_summary day is_open level open_slots total_slots =
     \<lparr>sm_date = day, sm_weekday = weekday_of day, sm_is_open = is_open, sm_level = level,
      sm_open_slots = open_slots, sm_total_slots = total_slots\<rparr>"

definition slots_level :: "slot list \<Rightarrow> day_level" where
  "slots_level slots =
     (let n_slots = int (length slots);
          open_slots = int (length (filter (\<lambda>sl. sl_status sl \<in> {SLOT_AVAILABLE, SLOT_LIMITED}) slots))
      in if open_slots = 0 then LEVEL_FULL
         else if list_ex (\<lambda>sl. sl_status sl = SLOT_LIMITED) slots \<or> open_slots \<le> max 1 (n_slots div 3)
         then LEVEL_LIMITED
         else LEVEL_AVAILABLE)"

definition day_summary ::
  "db \<Rightarrow> garage \<Rightarrow> date \<Rightarrow> schedule_settings \<Rightarrow> (int \<Rightarrow> day_rule) \<Rightarrow> (date \<rightharpoonup> schedule_exception)
     \<Rightarrow> instant \<Rightarrow> date \<Rightarrow> int option \<Rightarrow> summary option"
where
  "day_summary s g day settings hours_map exceptions now today duration_min =
     (if day < today then Some (make_summary day False LEVEL_PAST 0 0)
      else if day_hours day hours_map exceptions = None
      then Some (make_summary day False LEVEL_CLOSED 0 0)
      else map_option (\<lambda>slots.
             make_summary day True (slots_level slots)
               (int (length (filter (\<lambda>sl. sl_status sl \<in> {SLOT_AVAILABLE, SLOT_LIMITED}) slots)))
               (int (length slots)))
           (day_slots s g day settings hours_map exceptions now duration_min))"

definition type_duration :: "appointment_type option \<Rightarrow> schedule_settings \<Rightarrow> int" where
  "type_duration ty settings =
     (case ty of
        Some t \<Rightarrow> (case ty_duration t of Some d \<Rightarrow> d | None \<Rightarrow> default_appointment_minutes settings)
      | None \<Rightarrow> default_appointment_minutes settings)"

fun all_some :: "'a option list \<Rightarrow> 'a list option" where
  "all_some [] = Some []"
| "all_some (None # xs) = None"
| "all_some (Some x # xs) = map_option (Cons x) (all_some xs)"

record range_payload =
  rp_interval :: int
  rp_lead_hours :: int
  rp_advance_days :: int
  rp_window :: "date \<times> date"
  rp_opening_hours :: "(int \<times> int \<times> int \<times> bool) list"
  rp_days :: "summary list"

definition opening_hours_payload :: "(int \<Rightarrow> day_rule) \<Rightarrow> (int \<times> int \<times> int \<times> bool) list" where
  "opening_hours_payload hours_map =
     map (\<lambda>wd. case hours_map wd of
            (opens, closes, closed) \<Rightarrow> (wd, minutes_of opens, minutes_of closes, closed)) [0..6]"

definition availability_range ::
  "db \<Rightarrow> garage \<Rightarrow> date option \<Rightarrow> date option \<Rightarrow> instant \<Rightarrow> appointment_type option \<Rightarrow> int option
     \<Rightarrow> range_payload option"
where
  "availability_range s g from_date to_date now ty duration_min =
     (let settings = resolve_settings g;
          hours_map = resolve_opening_hours g;
          today = local_day_for (g_zone g) now;
          (win_start, win_end) = booking_window settings today;
          start = (case from_date of Some f \<Rightarrow> max f win_start | None \<Rightarrow> win_start);
          end0 = (case to_date of Some t \<Rightarrow> min t win_end | None \<Rightarrow> win_end);
          end = max end0 start;
          exceptions = resolve_exceptions g start end;
          duration = (case duration_min of Some d \<Rightarrow> d | None \<Rightarrow> type_duration ty settings)
      in map_option (\<lambda>days.
           \<lparr>rp_interval = slot_interval_minutes settings, rp_lead_hours = min_lead_time_hours settings,
            rp_advance_days = max_advance_days settings, rp_window = (win_start, win_end),
            rp_opening_hours = opening_hours_payload hours_map, rp_days = days\<rparr>)
         (all_some (map (\<lambda>day. day_summary s g day settings hours_map exceptions now today (Some duration))
           [start..end])))"

record single_day_payload =
  sd_date :: date
  sd_is_open :: bool
  sd_level :: day_level
  sd_duration :: int
  sd_slots :: "slot list"

definition single_day ::
  "db \<Rightarrow> garage \<Rightarrow> date \<Rightarrow> instant \<Rightarrow> appointment_type option \<Rightarrow> int option \<Rightarrow> single_day_payload option"
where
  "single_day s g day now ty duration_min =
     (let settings = resolve_settings g;
          hours_map = resolve_opening_hours g;
          today = local_day_for (g_zone g) now;
          exceptions = resolve_exceptions g day day;
          duration = (case duration_min of Some d \<Rightarrow> d | None \<Rightarrow> type_duration ty settings)
      in case day_summary s g day settings hours_map exceptions now today (Some duration) of
           None \<Rightarrow> None
         | Some sm \<Rightarrow>
             map_option (\<lambda>slots.
               \<lparr>sd_date = day, sd_is_open = sm_is_open sm, sd_level = sm_level sm,
                sd_duration = duration, sd_slots = slots\<rparr>)
             (if sm_is_open sm
              then day_slots s g day settings hours_map exceptions now (Some duration)
              else Some []))"

subsection \<open>The submit-time check\<close>

definition slot_capacity_usage ::
  "db \<Rightarrow> garage \<Rightarrow> instant \<Rightarrow> int \<Rightarrow> uid option \<Rightarrow> uid option \<Rightarrow> bool \<Rightarrow> int \<times> int"
where
  "slot_capacity_usage s g slot_start duration_min exclude_request exclude_appointment include_walkin =
     (let settings = resolve_settings g;
          usage_day = local_day_for (g_zone g) slot_start;
          capacity = slot_capacity s g settings
            - (if include_walkin
               then reserved_at (load_reserved_windows s g usage_day) slot_start
                      (slot_start + duration_min * minute_us)
               else 0);
          (appointments, pending) = load_day_usage s g usage_day;
          pending' = filter (\<lambda>p. exclude_request \<noteq> Some (rq_id p)) pending;
          appointments' = filter (\<lambda>a. exclude_appointment \<noteq> Some (ap_id a)) appointments
      in (slot_usage s g appointments' pending' slot_start duration_min settings, capacity))"

datatype slot_reason = PAST | OUT_OF_WINDOW | CLOSED | OUTSIDE_HOURS | TOO_SOON | FULL

definition validate_slot ::
  "db \<Rightarrow> garage \<Rightarrow> date \<Rightarrow> clock \<Rightarrow> instant \<Rightarrow> appointment_type option \<Rightarrow> uid option \<Rightarrow> int option
     \<Rightarrow> slot_reason option"
where
  "validate_slot s g day slot_time now ty exclude_appointment duration_min =
     (let settings = resolve_settings g;
          today = local_day_for (g_zone g) now;
          (win_start, win_end) = booking_window settings today
      in if day < today then Some PAST
         else if win_end < day then Some OUT_OF_WINDOW
         else case day_hours day (resolve_opening_hours g) (resolve_exceptions g day day) of
           None \<Rightarrow> Some CLOSED
         | Some (opens_at, closes_at) \<Rightarrow>
             let duration = (case duration_min of Some d \<Rightarrow> d | None \<Rightarrow> type_duration ty settings);
                 start_m = minutes_of slot_time
             in if start_m < minutes_of opens_at \<or> minutes_of closes_at < start_m + duration
                then Some OUTSIDE_HOURS
                else
                  let slot_start = local_slot_as_utc (g_zone g) day slot_time
                  in if slot_start \<le> now then Some PAST
                     else if slot_start < now + min_lead_time_hours settings * hour_us then Some TOO_SOON
                     else case slot_capacity_usage s g slot_start duration None exclude_appointment True of
                            (used, capacity) \<Rightarrow> if capacity \<le> used then Some FULL else None)"

definition check_slot_available :: "db \<Rightarrow> garage \<Rightarrow> date \<Rightarrow> clock \<Rightarrow> instant \<Rightarrow> bool" where
  "check_slot_available s g day slot_time now \<longleftrightarrow>
     validate_slot s g day slot_time now None None None = None"

subsection \<open>The sweep computes the largest number of bays in use\<close>

definition delta_upto :: "instant \<Rightarrow> (instant \<times> int) list \<Rightarrow> int" where
  "delta_upto t events = sum_list (map snd (filter (\<lambda>ev. fst ev \<le> t) events))"

lemma delta_upto_simps [simp]:
  "delta_upto t [] = 0"
  "delta_upto t (ev # events) = (if fst ev \<le> t then snd ev else 0) + delta_upto t events"
  "delta_upto t (events @ events') = delta_upto t events + delta_upto t events'"
  by (simp_all add: delta_upto_def)

lemma delta_upto_mset: "mset xs = mset ys \<Longrightarrow> delta_upto t xs = delta_upto t ys"
  unfolding delta_upto_def sum_mset_sum_list [symmetric] by simp

lemma occupancy_delta_upto:
  assumes "proper_spans ivs" "s \<le> t" "t < e"
  shows "delta_upto t (overlap_events ivs s e) = occupancy ivs t"
  using assms(1)
proof (induction ivs)
  case Nil
  then show ?case by (simp add: overlap_events_def)
next
  case (Cons iv ivs)
  obtain a b where iv: "iv = (a, b)" by (cases iv)
  with Cons.prems have "a \<le> b" and IH: "delta_upto t (overlap_events ivs s e) = occupancy ivs t"
    using Cons.IH by (simp_all add: proper_spans_def)
  with assms(2,3) iv show ?case
    by (auto simp: overlap_events_def active_at_def)
qed

lemma sweep_events_mono: "peak \<le> sweep_events peak current events"
  by (induction peak current events rule: sweep_events.induct) auto

lemma sweep_events_prefix:
  "current \<le> peak \<Longrightarrow> current + sum_list (map snd xs) \<le> sweep_events peak current (xs @ ys)"
proof (induction xs arbitrary: peak current)
  case Nil
  then show ?case using sweep_events_mono [of peak current ys] by simp
next
  case (Cons ev xs)
  then show ?case
    using Cons.IH [of "current + snd ev" "max peak (current + snd ev)"]
    by (cases ev) (simp add: add.assoc)
qed

text \<open>The sweep either never rises above its start or its maximum follows an event that adds a job.\<close>

lemma sweep_events_attained:
  assumes "current \<le> peak"
  shows "sweep_events peak current events = peak \<or>
    (\<exists>xs t d ys. events = xs @ (t, d) # ys \<and> 0 < d \<and>
       sweep_events peak current events = current + sum_list (map snd xs) + d)"
  using assms
proof (induction events arbitrary: peak current)
  case Nil
  then show ?case by simp
next
  case (Cons ev events)
  obtain t d where ev: "ev = (t, d)" by (cases ev)
  let ?p = "max peak (current + d)"
  have step: "sweep_events peak current (ev # events) = sweep_events ?p (current + d) events"
    by (simp add: ev)
  from Cons.IH [of "current + d" ?p] consider
      "sweep_events ?p (current + d) events = ?p"
    | xs t' d' ys where "events = xs @ (t', d') # ys" "0 < d'"
        "sweep_events ?p (current + d) events = current + d + sum_list (map snd xs) + d'"
    by auto
  then show ?case
  proof cases
    case 1
    show ?thesis
    proof (cases "current + d \<le> peak")
      case True
      with 1 show ?thesis by (simp add: ev)
    next
      case False
      with Cons.prems 1 ev have "ev # events = [] @ (t, d) # events \<and> 0 < d \<and>
          sweep_events peak current (ev # events) = current + sum_list (map snd []) + d"
        by simp
      then show ?thesis by blast
    qed
  next
    case 2
    then have "ev # events = (ev # xs) @ (t', d') # ys \<and> 0 < d' \<and>
        sweep_events peak current (ev # events) = current + sum_list (map snd (ev # xs)) + d'"
      by (simp add: step ev)
    then show ?thesis by blast
  qed
qed

lemma sorted_events_split:
  assumes "sorted (events :: (instant \<times> int) list)"
  shows "events = filter (\<lambda>ev. fst ev \<le> t) events @ filter (\<lambda>ev. \<not> fst ev \<le> t) events"
  using assms
proof (induction events)
  case Nil
  then show ?case by simp
next
  case (Cons ev events)
  show ?case
  proof (cases "fst ev \<le> t")
    case True
    with Cons show ?thesis by simp
  next
    case False
    with Cons.prems have "\<forall>x \<in> set events. \<not> fst x \<le> t"
      by (auto simp: less_eq_prod_def)
    with False show ?thesis by (simp add: filter_id_conv filter_empty_conv)
  qed
qed

lemma overlap_event_time:
  assumes "(t, d) \<in> set (overlap_events ivs s e)" "0 < d" "s < e"
  shows "s \<le> t \<and> t < e"
  using assms by (auto simp: overlap_events_def split: if_splits)

lemma overlap_event_deltas: "(t, d) \<in> set (overlap_events ivs s e) \<Longrightarrow> d = 1 \<or> d = -1"
  by (auto simp: overlap_events_def split: if_splits)

lemma peak_overlap_upper:
  assumes "proper_spans ivs" "s \<le> t" "t < e"
  shows "occupancy ivs t \<le> peak_overlap ivs s e"
proof -
  let ?es = "sort (overlap_events ivs s e)"
  have "occupancy ivs t = delta_upto t ?es"
    using occupancy_delta_upto [OF assms] delta_upto_mset [of ?es "overlap_events ivs s e" t] by simp
  also have "\<dots> = 0 + sum_list (map snd (filter (\<lambda>ev. fst ev \<le> t) ?es))"
    by (simp add: delta_upto_def)
  also have "\<dots> \<le> sweep_events 0 0
      (filter (\<lambda>ev. fst ev \<le> t) ?es @ filter (\<lambda>ev. \<not> fst ev \<le> t) ?es)"
    by (rule sweep_events_prefix) simp
  also have "\<dots> = peak_overlap ivs s e"
    by (simp only: peak_overlap_def sorted_events_split [OF sorted_sort, symmetric])
  finally show ?thesis .
qed

lemma peak_overlap_attained:
  assumes "proper_spans ivs" "s < e"
  shows "\<exists>t. s \<le> t \<and> t < e \<and> occupancy ivs t = peak_overlap ivs s e"
proof -
  let ?es = "sort (overlap_events ivs s e)"
  have occ: "occupancy ivs t = delta_upto t ?es" if "s \<le> t" "t < e" for t
    using occupancy_delta_upto [OF assms(1) that] delta_upto_mset [of ?es "overlap_events ivs s e" t]
    by simp
  from sweep_events_attained [of 0 0 ?es] consider
      "peak_overlap ivs s e = 0"
    | xs t d ys where "?es = xs @ (t, d) # ys" "0 < d"
        "peak_overlap ivs s e = sum_list (map snd xs) + d"
    by (auto simp: peak_overlap_def)
  then show ?thesis
  proof cases
    case 1
    with peak_overlap_upper [OF assms(1), of s s e] assms(2) occupancy_nonneg [of ivs s]
    show ?thesis by (intro exI [of _ s]) simp
  next
    case 2
    have mem: "(t, d) \<in> set (overlap_events ivs s e)"
      by (metis 2(1) in_set_conv_decomp set_sort)
    from overlap_event_time [OF mem 2(2) assms(2)] have t: "s \<le> t" "t < e" by simp_all
    have srt: "sorted (xs @ (t, d) # ys)" by (metis 2(1) sorted_sort)
    have xs: "delta_upto t xs = sum_list (map snd xs)"
    proof -
      from srt have "\<forall>x \<in> set xs. fst x \<le> t"
        by (auto simp: sorted_append less_eq_prod_def)
      then have "filter (\<lambda>ev. fst ev \<le> t) xs = xs" by simp
      then show ?thesis by (simp add: delta_upto_def)
    qed
    have ys: "0 \<le> delta_upto t ys"
    proof -
      have "\<forall>y \<in> set ys. fst y \<le> t \<longrightarrow> 0 \<le> snd y"
        using srt 2(2) by (auto simp: sorted_append less_eq_prod_def)
      then show ?thesis unfolding delta_upto_def by (intro sum_list_nonneg) auto
    qed
    from 2(1,3) xs ys occ [OF t] have "peak_overlap ivs s e \<le> occupancy ivs t" by simp
    with peak_overlap_upper [OF assms(1) t] t show ?thesis by (intro exI [of _ t]) simp
  qed
qed

interpretation bays: peak_meter peak_overlap
  by unfold_locales (rule peak_overlap_upper peak_overlap_attained; assumption)+

subsection \<open>The slot loop stops and enumerates the grid\<close>

definition slot_grid :: "int \<Rightarrow> int \<Rightarrow> int \<Rightarrow> int \<Rightarrow> int set" where
  "slot_grid open_m interval duration close_m =
     {m. (\<exists>k. m = open_m + int k * interval) \<and> m + duration \<le> close_m}"

lemma slot_grid_step:
  assumes "0 < interval"
  shows "slot_grid m interval duration close_m =
    (if m + duration \<le> close_m then insert m (slot_grid (m + interval) interval duration close_m) else {})"
proof (cases "m + duration \<le> close_m")
  case True
  have "x \<in> insert m (slot_grid (m + interval) interval duration close_m)"
    if "x \<in> slot_grid m interval duration close_m" for x
  proof -
    from that obtain k where k: "x = m + int k * interval" "x + duration \<le> close_m"
      by (auto simp: slot_grid_def)
    show ?thesis
    proof (cases k)
      case 0
      with k show ?thesis by simp
    next
      case (Suc j)
      with k have "x = (m + interval) + int j * interval" by (simp add: algebra_simps)
      with k show ?thesis by (auto simp: slot_grid_def)
    qed
  qed
  moreover have "x \<in> slot_grid m interval duration close_m"
    if "x \<in> slot_grid (m + interval) interval duration close_m" for x
  proof -
    from that obtain k where "x = m + interval + int k * interval" "x + duration \<le> close_m"
      by (auto simp: slot_grid_def)
    then have "x = m + int (Suc k) * interval" "x + duration \<le> close_m" by (simp_all add: algebra_simps)
    then show ?thesis unfolding slot_grid_def by blast
  qed
  moreover have "m \<in> slot_grid m interval duration close_m"
    using True by (auto simp: slot_grid_def intro: exI [of _ 0])
  ultimately show ?thesis using True by auto
next
  case False
  have "0 \<le> int k * interval" for k using assms by simp
  with False have "\<not> (m + int k * interval + duration \<le> close_m)" for k
    by (smt (verit, best))
  with False show ?thesis by (auto simp: slot_grid_def)
qed

lemma slot_minutes_grid:
  assumes "0 < interval"
  shows "\<exists>ms. slot_minutes m interval duration close_m = Some ms \<and> sorted_wrt (<) ms
    \<and> set ms = slot_grid m interval duration close_m"
proof (induction "nat (close_m - duration - m + 1)" arbitrary: m rule: less_induct)
  case less
  show ?case
  proof (cases "m + duration \<le> close_m")
    case True
    with assms have "nat (close_m - duration - (m + interval) + 1) < nat (close_m - duration - m + 1)"
      by simp
    from less [OF this] obtain ms where ms:
      "slot_minutes (m + interval) interval duration close_m = Some ms" "sorted_wrt (<) ms"
      "set ms = slot_grid (m + interval) interval duration close_m"
      by auto
    have "m < x" if "x \<in> set ms" for x
      using that assms unfolding ms(3) slot_grid_def
      by (auto simp: add.assoc intro!: add_pos_nonneg)
    with ms True show ?thesis
      by (subst slot_minutes.simps, subst slot_grid_step [OF assms]) simp
  next
    case False
    with slot_grid_step [OF assms, of m duration close_m] show ?thesis
      by (subst slot_minutes.simps) simp
  qed
qed

lemma count_slots_minutes:
  assumes "0 < interval" "slot_minutes m interval duration close_m = Some ms"
  shows "count_slots n m interval duration close_m = Some (n + int (length ms))"
  using assms(2)
proof (induction "nat (close_m - duration - m + 1)" arbitrary: m n ms rule: less_induct)
  case less
  show ?case
  proof (cases "m + duration \<le> close_m")
    case True
    with less.prems obtain ms' where ms':
      "slot_minutes (m + interval) interval duration close_m = Some ms'" "ms = m # ms'"
      by (subst (asm) slot_minutes.simps) (auto simp: Option.bind_eq_Some_conv)
    have dec: "nat (close_m - duration - (m + interval) + 1) < nat (close_m - duration - m + 1)"
      using assms True by simp
    show ?thesis
      using True ms' less.hyps [OF dec ms'(1), of "n + 1"] by (subst count_slots.simps) simp
  next
    case False
    with less.prems show ?thesis
      by (subst count_slots.simps, subst (asm) slot_minutes.simps) simp
  qed
qed

lemma all_some_map:
  "(\<And>x. x \<in> set xs \<Longrightarrow> \<exists>y. f x = Some y) \<Longrightarrow> \<exists>ys. all_some (map f xs) = Some ys"
proof (induction xs)
  case (Cons x xs)
  then have "\<exists>y. f x = Some y" "\<exists>ys. all_some (map f xs) = Some ys" by simp_all
  then show ?case by auto
qed simp

text \<open>What the slot list holds, in terms of the grid and of \<open>day_slot\<close>.\<close>

lemma day_slots_open:
  assumes "0 < slot_interval_minutes settings" "day_hours day hours_map exceptions = Some (opens, closes)"
  shows "\<exists>slots. day_slots s g day settings hours_map exceptions now (Some duration) = Some slots
    \<and> set slots = {sl. \<exists>m \<in> slot_grid (minutes_of opens) (slot_interval_minutes settings) duration
        (minutes_of closes). day_slot s g day settings now duration m = Some sl}"
proof -
  from slot_minutes_grid [OF assms(1), of "minutes_of opens" duration "minutes_of closes"]
  obtain ms where "slot_minutes (minutes_of opens) (slot_interval_minutes settings) duration
      (minutes_of closes) = Some ms"
    and ms: "set ms = slot_grid (minutes_of opens) (slot_interval_minutes settings) duration (minutes_of closes)"
    by auto
  then have "day_slots s g day settings hours_map exceptions now (Some duration) =
      Some (List.map_filter (day_slot s g day settings now duration) ms)"
    by (simp add: day_slots_def assms(2))
  then show ?thesis by (simp add: set_map_filter ms)
qed

lemma day_slots_return:
  assumes "0 < slot_interval_minutes settings"
  shows "\<exists>slots. day_slots s g day settings hours_map exceptions now (Some duration) = Some slots"
proof (cases "day_hours day hours_map exceptions")
  case (Some hrs)
  obtain opens closes where "hrs = (opens, closes)" by (cases hrs)
  with day_slots_open [OF assms, of day hours_map exceptions opens closes s g now duration] Some
  show ?thesis by auto
qed (simp add: day_slots_def)

subsection \<open>One accounting behind the calendar and the submit-time check\<close>

text \<open>The facts about a candidate that both sides compute: its instant, its usage, its capacity.\<close>

definition public_room :: "db \<Rightarrow> garage \<Rightarrow> instant \<Rightarrow> int \<Rightarrow> uid option \<Rightarrow> bool" where
  "public_room s g slot_start duration exclude_appointment \<longleftrightarrow>
     (case slot_capacity_usage s g slot_start duration None exclude_appointment True of
        (used, capacity) \<Rightarrow> used < capacity)"

lemma validate_slot_None_iff:
  "validate_slot s g day slot_time now ty exclude_appointment duration_min = None \<longleftrightarrow>
     local_day_for (g_zone g) now \<le> day
     \<and> day \<le> local_day_for (g_zone g) now + max_advance_days (resolve_settings g)
     \<and> (\<exists>opens closes. day_hours day (resolve_opening_hours g) (resolve_exceptions g day day) = Some (opens, closes)
        \<and> minutes_of opens \<le> minutes_of slot_time
        \<and> minutes_of slot_time
            + (case duration_min of Some d \<Rightarrow> d | None \<Rightarrow> type_duration ty (resolve_settings g))
          \<le> minutes_of closes)
     \<and> now < local_slot_as_utc (g_zone g) day slot_time
     \<and> now + min_lead_time_hours (resolve_settings g) * hour_us \<le> local_slot_as_utc (g_zone g) day slot_time
     \<and> public_room s g (local_slot_as_utc (g_zone g) day slot_time)
         (case duration_min of Some d \<Rightarrow> d | None \<Rightarrow> type_duration ty (resolve_settings g))
         exclude_appointment"
  by (auto simp: validate_slot_def booking_window_def Let_def public_room_def
      split: option.splits prod.splits if_splits)

lemma day_slot_bookable_iff:
  assumes "local_day_for (g_zone g) (local_slot_as_utc (g_zone g) day (m * minute_us)) = day"
    and "settings = resolve_settings g"
  shows "(\<exists>sl. day_slot s g day settings now duration m = Some sl \<and> sl_status sl \<noteq> SLOT_BOOKED) \<longleftrightarrow>
    now + min_lead_time_hours settings * hour_us \<le> local_slot_as_utc (g_zone g) day (m * minute_us)
    \<and> public_room s g (local_slot_as_utc (g_zone g) day (m * minute_us)) duration None"
  using assms
  by (auto simp: day_slot_def public_room_def slot_capacity_usage_def Let_def split: prod.splits if_splits)

lemma day_slot_start: "day_slot s g day settings now duration m = Some sl \<Longrightarrow> sl_start sl = m"
  by (auto simp: day_slot_def Let_def split: prod.splits if_splits)

text \<open>
  A day whose opening hours lie within it and whose minutes the clocks do not skip; its instants
  then read back as its own.
\<close>

definition regular_day :: "garage \<Rightarrow> date \<Rightarrow> bool" where
  "regular_day g day \<longleftrightarrow> sorted_zone (g_zone g) \<and>
     (case day_hours day (resolve_opening_hours g) (resolve_exceptions g day day) of
        None \<Rightarrow> True
      | Some (opens, closes) \<Rightarrow> 0 \<le> opens \<and> closes < day_us \<and>
          (\<forall>m. minutes_of opens \<le> m \<and> m \<le> minutes_of closes \<longrightarrow> \<not> skipped (g_zone g) day (m * minute_us)))"

lemma regular_day_minute:
  assumes "regular_day g day"
    and "day_hours day (resolve_opening_hours g) (resolve_exceptions g day day) = Some (opens, closes)"
    and "minutes_of opens \<le> m" "m \<le> minutes_of closes"
  shows "local_day_for (g_zone g) (local_slot_as_utc (g_zone g) day (m * minute_us)) = day"
proof (rule zone.day_of_to_utc)
  from assms show "sorted_zone (g_zone g) \<and> \<not> skipped (g_zone g) day (m * minute_us)"
    by (simp add: regular_day_def)
  from assms have "0 \<le> opens" "closes < day_us" by (simp_all add: regular_day_def)
  then have "0 \<le> minutes_of opens" "minutes_of closes < 1440" by (simp_all add: minutes_of_def)
  with assms(3,4) show "0 \<le> m * minute_us" "m * minute_us < day_us" by simp_all
qed

lemma minutes_of_minute [simp]: "minutes_of (m * minute_us) = m"
  by (simp add: minutes_of_def)

lemma slot_grid_ge: "0 < interval \<Longrightarrow> m \<in> slot_grid a interval duration b \<Longrightarrow> a \<le> m \<and> m + duration \<le> b"
  by (auto simp: slot_grid_def)

lemma open_slots_iff:
  assumes "regular_day g day" "settings = resolve_settings g" "0 < slot_interval_minutes settings"
    "0 < min_lead_time_hours settings" "0 \<le> duration"
    "day_hours day (resolve_opening_hours g) (resolve_exceptions g day day) = Some (opens, closes)"
    "local_day_for (g_zone g) now \<le> day"
    "day \<le> local_day_for (g_zone g) now + max_advance_days settings"
    "day_slots s g day settings (resolve_opening_hours g) (resolve_exceptions g day day) now (Some duration)
       = Some slots"
  shows "(\<exists>sl \<in> set slots. sl_start sl = m \<and> sl_status sl \<noteq> SLOT_BOOKED) \<longleftrightarrow>
    (\<exists>k. m = minutes_of opens + int k * slot_interval_minutes settings)
    \<and> validate_slot s g day (m * minute_us) now ty None (Some duration) = None"
proof -
  let ?grid = "slot_grid (minutes_of opens) (slot_interval_minutes settings) duration (minutes_of closes)"
  from day_slots_open [OF assms(3,6), of s g now duration] assms(9)
  have slots: "set slots = {sl. \<exists>m \<in> ?grid. day_slot s g day settings now duration m = Some sl}"
    by auto
  have "(\<exists>sl \<in> set slots. sl_start sl = m \<and> sl_status sl \<noteq> SLOT_BOOKED) \<longleftrightarrow>
      m \<in> ?grid \<and> (\<exists>sl. day_slot s g day settings now duration m = Some sl \<and> sl_status sl \<noteq> SLOT_BOOKED)"
    unfolding slots using day_slot_start by fastforce
  also have "\<dots> \<longleftrightarrow> m \<in> ?grid \<and>
      now + min_lead_time_hours settings * hour_us \<le> local_slot_as_utc (g_zone g) day (m * minute_us)
      \<and> public_room s g (local_slot_as_utc (g_zone g) day (m * minute_us)) duration None"
  proof (rule conj_cong [OF refl])
    assume "m \<in> ?grid"
    from slot_grid_ge [OF assms(3) this] assms(5) have "minutes_of opens \<le> m" "m \<le> minutes_of closes"
      by simp_all
    from day_slot_bookable_iff [OF regular_day_minute [OF assms(1,6) this] assms(2)]
    show "(\<exists>sl. day_slot s g day settings now duration m = Some sl \<and> sl_status sl \<noteq> SLOT_BOOKED) \<longleftrightarrow>
      now + min_lead_time_hours settings * hour_us \<le> local_slot_as_utc (g_zone g) day (m * minute_us)
      \<and> public_room s g (local_slot_as_utc (g_zone g) day (m * minute_us)) duration None" .
  qed
  also have "\<dots> \<longleftrightarrow> (\<exists>k. m = minutes_of opens + int k * slot_interval_minutes settings)
      \<and> validate_slot s g day (m * minute_us) now ty None (Some duration) = None"
    unfolding validate_slot_None_iff slot_grid_def using assms(2-8) by auto
  finally show ?thesis .
qed

lemma single_day_open:
  assumes "settings = resolve_settings g" "local_day_for (g_zone g) now \<le> day"
    "duration = (case duration_min of Some d \<Rightarrow> d | None \<Rightarrow> type_duration ty settings)"
    "day_hours day (resolve_opening_hours g) (resolve_exceptions g day day) = Some hrs"
    "single_day s g day now ty duration_min = Some p"
  shows "day_slots s g day settings (resolve_opening_hours g) (resolve_exceptions g day day) now (Some duration)
    = Some (sd_slots p)"
  using assms by (auto simp: single_day_def day_summary_def Let_def make_summary_def split: option.splits if_splits)

lemma single_day_closed:
  assumes "local_day_for (g_zone g) now \<le> day"
    "day_hours day (resolve_opening_hours g) (resolve_exceptions g day day) = None"
    "single_day s g day now ty duration_min = Some p"
  shows "sd_slots p = []"
  using assms by (auto simp: single_day_def day_summary_def Let_def make_summary_def)

lemma day_summary_returns:
  assumes "0 < slot_interval_minutes settings"
  shows "\<exists>sm. day_summary s g day settings hours_map exceptions now today (Some duration) = Some sm \<and> sm_date sm = day"
  using day_slots_return [OF assms, of s g day hours_map exceptions now duration]
  by (auto simp: day_summary_def make_summary_def)

lemma single_day_returns:
  assumes "0 < slot_interval_minutes (resolve_settings g)"
  shows "\<exists>p. single_day s g day now ty duration_min = Some p"
proof -
  let ?st = "resolve_settings g" and ?hm = "resolve_opening_hours g" and ?ex = "resolve_exceptions g day day"
  let ?d = "case duration_min of Some d \<Rightarrow> d | None \<Rightarrow> type_duration ty ?st"
  from day_summary_returns [OF assms, of s g day ?hm ?ex now "local_day_for (g_zone g) now" ?d]
  obtain sm where sm: "day_summary s g day ?st ?hm ?ex now (local_day_for (g_zone g) now) (Some ?d) = Some sm"
    by auto
  from day_slots_return [OF assms, of s g day ?hm ?ex now ?d]
  have "\<exists>slots. day_slots s g day ?st ?hm ?ex now (Some ?d) = Some slots" .
  with sm show ?thesis by (auto simp: single_day_def Let_def)
qed

lemma all_some_dates:
  assumes "all_some (map f days) = Some sms" "\<And>d sm. f d = Some sm \<Longrightarrow> sm_date sm = d"
  shows "map sm_date sms = days"
  using assms(1)
proof (induction days arbitrary: sms)
  case (Cons d days)
  then show ?case by (cases "f d") (auto dest: assms(2))
qed simp

subsection \<open>Example business for the witnesses: one bay, hourly slots, UTC, open 09:00 to 17:00\<close>

definition demo_settings :: schedule_settings where
  "demo_settings = \<lparr>slot_interval_minutes = 60, default_appointment_minutes = 60,
     min_lead_time_hours = 2, max_advance_days = 60, capacity_per_slot = Some 1,
     limited_threshold_ratio = (1, 1)\<rparr>"

definition demo_garage :: garage where
  "demo_garage = \<lparr>g_id = 1, g_zone = \<lparr>tz_base = 0, tz_transitions = []\<rparr>, g_schedule = Some demo_settings,
     g_hours = [], g_exceptions = [], g_auto_accept = True, g_auto_accept_enabled = True,
     g_terms = None, g_terms_version = None\<rparr>"

definition demo_appointment :: appointment where
  "demo_appointment = \<lparr>ap_id = 10, ap_garage = 1, ap_employee = 2, ap_customer = 3, ap_vehicle = None,
     ap_type = 4, ap_start = day_us + 10 * hour_us, ap_end = day_us + 11 * hour_us,
     ap_status = AP_BOOKED, ap_price = None, ap_type_name = None, ap_imported_at = None,
     ap_completed_at = None, ap_add_ons = [], ap_discount = no_discount\<rparr>"

definition demo_db :: db where
  "demo_db = \<lparr>db_garages = [demo_garage], db_employees = [], db_types = [], db_add_ons = [], db_sections = [], db_statuses = [],
     db_appointments = [demo_appointment], db_requests = [], db_windows = [], db_customers = [],
     db_vehicles = [], db_codes = [], db_redemptions = [], db_payments = [], db_webhooks = [],
     db_queue = [], db_queue_settings = [], db_terms = [], db_loyalty = [], db_events = [], db_calls = [], db_next = 100\<rparr>"

lemmas demo_defs = demo_settings_def demo_garage_def demo_appointment_def demo_db_def

lemmas calendar_eval = demo_defs resolve_settings_def resolve_opening_hours_def default_opening_hours_def
  resolve_exceptions_def day_hours_def weekday_of_def minutes_of_def eval_simps
  public_room_def slot_capacity_usage_def slot_capacity_def load_reserved_windows_def reserved_at_def
  load_day_usage_def slot_usage_def usage_intervals_def peak_overlap_def overlap_events_def

lemma demo_slots:
  "validate_slot demo_db demo_garage 1 (9 * hour_us) 0 None None (Some 60) = None"
  "validate_slot demo_db demo_garage 1 (10 * hour_us) 0 None None (Some 60) = Some FULL"
  by (simp_all add: validate_slot_def booking_window_def Let_def calendar_eval)

lemma demo_regular: "regular_day demo_garage 1"
  by (simp add: regular_day_def sorted_zone_def skipped_def calendar_eval)

lemma bookable_iff: "sl_status sl \<in> {SLOT_AVAILABLE, SLOT_LIMITED} \<longleftrightarrow> sl_status sl \<noteq> SLOT_BOOKED"
  by (cases "sl_status sl") auto

lemma slots_level_open:
  "slots_level slots \<in> {LEVEL_AVAILABLE, LEVEL_LIMITED} \<longleftrightarrow> (\<exists>sl \<in> set slots. sl_status sl \<noteq> SLOT_BOOKED)"
  unfolding slots_level_def Let_def bookable_iff
  by (auto simp: filter_empty_conv)

definition bays_in_use :: "db \<Rightarrow> garage \<Rightarrow> date \<Rightarrow> instant \<Rightarrow> int" where
  "bays_in_use s g day t = occupancy (usage_intervals s g
     (filter (\<lambda>a. ap_garage a = g_id g \<and> ap_status a \<noteq> AP_CANCELLED) (db_appointments s))
     (filter (\<lambda>r. rq_garage r = g_id g \<and> rq_status r \<in> set holding_statuses
        \<and> rq_date r = day \<and> rq_time r \<noteq> None) (db_requests s))
     (resolve_settings g)) t"

definition proper_usage :: "db \<Rightarrow> bool" where
  "proper_usage s \<longleftrightarrow> (\<forall>a \<in> set (db_appointments s). ap_start a \<le> ap_end a)
     \<and> (\<forall>r \<in> set (db_requests s). \<forall>d. rq_duration r = Some d \<longrightarrow> 0 \<le> d)
     \<and> (\<forall>ty \<in> set (db_types s). \<forall>d. ty_duration ty = Some d \<longrightarrow> 0 \<le> d)"

lemma pending_duration_nonneg:
  assumes "proper_usage s" "0 \<le> default_appointment_minutes settings" "r \<in> set (db_requests s)"
  shows "0 \<le> pending_request_duration s r settings"
  using assms
  by (auto simp: pending_request_duration_def proper_usage_def find_type_def
      dest!: row_find_Some split: option.splits)

lemma proper_usage_intervals:
  assumes "proper_usage s" "0 \<le> default_appointment_minutes settings"
    "set appts \<subseteq> set (db_appointments s)" "set pend \<subseteq> set (db_requests s)"
  shows "proper_spans (usage_intervals s g appts pend settings)"
  using assms pending_duration_nonneg [OF assms(1,2)]
  by (auto simp: proper_spans_def usage_intervals_def proper_usage_def Let_def)

text \<open>At an instant of the local day, loading that day's rows misses no bay in use.\<close>

lemma occupancy_loaded:
  assumes "load_day_usage s g day = (appts, pend)"
    and "fst (local_day_bounds_utc (g_zone g) day) \<le> t" "t \<le> snd (local_day_bounds_utc (g_zone g) day)"
  shows "occupancy (usage_intervals s g appts pend (resolve_settings g)) t = bays_in_use s g day t"
proof -
  let ?live = "\<lambda>a. ap_garage a = g_id g \<and> ap_status a \<noteq> AP_CANCELLED"
  let ?near = "\<lambda>a. ap_start a \<le> snd (local_day_bounds_utc (g_zone g) day)
    \<and> fst (local_day_bounds_utc (g_zone g) day) \<le> ap_end a"
  have "occupancy (map (\<lambda>a. (ap_start a, ap_end a)) (filter (\<lambda>a. ?live a \<and> ?near a) as)) t
      = occupancy (map (\<lambda>a. (ap_start a, ap_end a)) (filter ?live as)) t" for as
    using assms(2,3) by (induction as) (auto simp: active_at_def)
  with assms(1) show ?thesis
    by (auto simp: load_day_usage_def bays_in_use_def usage_intervals_def Let_def local_day_bounds_utc_def)
qed

lemma slot_capacity_usage_public:
  assumes "local_day_for (g_zone g) slot_start = day" "load_day_usage s g day = (appts, pend)"
  shows "public_room s g slot_start duration None \<longleftrightarrow>
    peak_overlap (usage_intervals s g appts pend (resolve_settings g)) slot_start (slot_start + duration * minute_us)
      < slot_capacity s g (resolve_settings g)
        - reserved_at (load_reserved_windows s g day) slot_start (slot_start + duration * minute_us)"
  using assms by (simp add: public_room_def slot_capacity_usage_def slot_usage_def Let_def)

subsection \<open>Properties\<close>

text \<open>
  The sweep reads the largest number of bays in use at any single instant of the window: no
  instant exceeds it and some instant attains it. Overlapping jobs that follow one another count
  once, back-to-back jobs never count together.
\<close>

theorem peak_overlap_exact:
  assumes "proper_spans intervals" "window_start < window_end"
  shows "(\<forall>t. window_start \<le> t \<and> t < window_end \<longrightarrow> occupancy intervals t \<le> peak_overlap intervals window_start window_end)
    \<and> (\<exists>t. window_start \<le> t \<and> t < window_end \<and> occupancy intervals t = peak_overlap intervals window_start window_end)"
  using bays.peak_upper [OF assms(1)] bays.peak_attained [OF assms] by blast

theorem peak_overlap_exact_witness:
  "peak_overlap [(600, 660), (720, 780)] 600 840 = 1
   \<and> (\<exists>t. 600 \<le> t \<and> t < 840 \<and> occupancy [(600, 660), (720, 780)] t = 1)"
proof -
  have "proper_spans [(600, 660), (720, 780)]" by (simp add: proper_spans_def)
  from peak_overlap_exact [OF this, of 600 840]
  show ?thesis by (simp add: peak_overlap_def overlap_events_def)
qed

text \<open>
  C23: The calendar and the submit-time check agree: a start time is shown as bookable on a day of
  the booking window exactly when it lies on the slot grid and validate_slot would accept it
  for the same duration. (With a lead time of zero hours they differ at the current instant.)
\<close>

theorem calendar_agrees_with_submit:
  assumes "regular_day g day" "settings = resolve_settings g" "0 < slot_interval_minutes settings"
    "0 < min_lead_time_hours settings" "0 \<le> duration"
    "local_day_for (g_zone g) now \<le> day"
    "day \<le> local_day_for (g_zone g) now + max_advance_days settings"
    "single_day s g day now ty (Some duration) = Some payload"
  shows "(\<exists>sl \<in> set (sd_slots payload). sl_start sl = m \<and> sl_status sl \<noteq> SLOT_BOOKED) \<longleftrightarrow>
    (\<exists>opens closes k. day_hours day (resolve_opening_hours g) (resolve_exceptions g day day) = Some (opens, closes)
        \<and> m = minutes_of opens + int k * slot_interval_minutes settings)
    \<and> validate_slot s g day (m * minute_us) now ty None (Some duration) = None"
proof (cases "day_hours day (resolve_opening_hours g) (resolve_exceptions g day day)")
  case None
  with single_day_closed [OF assms(6) None assms(8)] show ?thesis by simp
next
  case (Some hrs)
  obtain opens closes where hrs: "hrs = (opens, closes)" by (cases hrs)
  have "day_slots s g day settings (resolve_opening_hours g) (resolve_exceptions g day day) now (Some duration)
      = Some (sd_slots payload)"
    by (rule single_day_open [OF assms(2,6) _ Some assms(8)]) simp
  from open_slots_iff [OF assms(1-5) Some [unfolded hrs] assms(6,7) this, of m ty] Some hrs
  show ?thesis by simp
qed

theorem calendar_agrees_with_submit_witness:
  "\<exists>payload. single_day demo_db demo_garage 1 0 None (Some 60) = Some payload
     \<and> (\<exists>sl \<in> set (sd_slots payload). sl_start sl = 540 \<and> sl_status sl \<noteq> SLOT_BOOKED)
     \<and> \<not> (\<exists>sl \<in> set (sd_slots payload). sl_start sl = 600 \<and> sl_status sl \<noteq> SLOT_BOOKED)"
proof -
  have "0 < slot_interval_minutes (resolve_settings demo_garage)" by (simp add: calendar_eval)
  from single_day_returns [OF this, of demo_db 1 0 None "Some 60"]
  obtain p where p: "single_day demo_db demo_garage 1 0 None (Some 60) = Some p" by auto
  have iff: "(\<exists>sl \<in> set (sd_slots p). sl_start sl = m \<and> sl_status sl \<noteq> SLOT_BOOKED) \<longleftrightarrow>
      (\<exists>opens closes k. day_hours 1 (resolve_opening_hours demo_garage) (resolve_exceptions demo_garage 1 1)
          = Some (opens, closes) \<and> m = minutes_of opens + int k * slot_interval_minutes demo_settings)
      \<and> validate_slot demo_db demo_garage 1 (m * minute_us) 0 None None (Some 60) = None" for m
    by (rule calendar_agrees_with_submit [OF demo_regular _ _ _ _ _ _ p]) (simp_all add: calendar_eval)
  have hrs: "day_hours 1 (resolve_opening_hours demo_garage) (resolve_exceptions demo_garage 1 1)
      = Some (9 * hour_us, 17 * hour_us)"
    by (simp add: calendar_eval)
  have "\<exists>k. (540 :: int) = minutes_of (9 * hour_us) + int k * slot_interval_minutes demo_settings"
    by (intro exI [of _ 0]) (simp add: minutes_of_def)
  then have "\<exists>sl \<in> set (sd_slots p). sl_start sl = 540 \<and> sl_status sl \<noteq> SLOT_BOOKED"
    unfolding iff hrs using demo_slots(1) by simp
  moreover have "\<not> (\<exists>sl \<in> set (sd_slots p). sl_start sl = 600 \<and> sl_status sl \<noteq> SLOT_BOOKED)"
    unfolding iff using demo_slots(2) by simp
  ultimately show ?thesis using p by simp
qed

text \<open>
  A day of the month calendar is shown green or amber exactly when some start time of its grid
  would be accepted for the duration the level was computed with, so a customer never picks an open
  day that has no time for the chosen service.
\<close>

theorem open_level_means_bookable:
  assumes "regular_day g day" "settings = resolve_settings g" "0 < slot_interval_minutes settings"
    "0 < min_lead_time_hours settings" "0 \<le> duration"
    "today = local_day_for (g_zone g) now" "today \<le> day" "day \<le> today + max_advance_days settings"
    "day_summary s g day settings (resolve_opening_hours g) (resolve_exceptions g day day) now today
      (Some duration) = Some sm"
  shows "sm_level sm \<in> {LEVEL_AVAILABLE, LEVEL_LIMITED} \<longleftrightarrow>
    (\<exists>opens closes k. day_hours day (resolve_opening_hours g) (resolve_exceptions g day day) = Some (opens, closes)
        \<and> validate_slot s g day ((minutes_of opens + int k * slot_interval_minutes settings) * minute_us)
            now ty None (Some duration) = None)"
proof (cases "day_hours day (resolve_opening_hours g) (resolve_exceptions g day day)")
  case None
  with assms(7,9) show ?thesis by (auto simp: day_summary_def make_summary_def)
next
  case (Some hrs)
  obtain opens closes where hrs: "hrs = (opens, closes)" by (cases hrs)
  from assms(7,9) Some obtain slots where slots: "day_slots s g day settings (resolve_opening_hours g)
      (resolve_exceptions g day day) now (Some duration) = Some slots"
    and sm: "sm_level sm = slots_level slots"
    by (auto simp: day_summary_def make_summary_def)
  from open_slots_iff [OF assms(1-5) Some [unfolded hrs] _ _ slots, of _ ty] assms(6-8)
  have "(\<exists>sl \<in> set slots. sl_status sl \<noteq> SLOT_BOOKED) \<longleftrightarrow>
     (\<exists>k. validate_slot s g day ((minutes_of opens + int k * slot_interval_minutes settings) * minute_us)
            now ty None (Some duration) = None)"
    by metis
  with Some hrs sm slots_level_open [of slots] show ?thesis by simp
qed

theorem open_level_means_bookable_witness:
  "\<exists>sm. day_summary demo_db demo_garage 1 demo_settings (resolve_opening_hours demo_garage)
       (resolve_exceptions demo_garage 1 1) 0 0 (Some 60) = Some sm
     \<and> sm_level sm \<in> {LEVEL_AVAILABLE, LEVEL_LIMITED}"
proof -
  have "0 < slot_interval_minutes demo_settings" by (simp add: calendar_eval)
  from day_summary_returns [OF this, of demo_db demo_garage 1 "resolve_opening_hours demo_garage"
      "resolve_exceptions demo_garage 1 1" 0 0 60]
  obtain sm where sm: "day_summary demo_db demo_garage 1 demo_settings (resolve_opening_hours demo_garage)
       (resolve_exceptions demo_garage 1 1) 0 0 (Some 60) = Some sm" by auto
  have "\<exists>opens closes k. day_hours 1 (resolve_opening_hours demo_garage) (resolve_exceptions demo_garage 1 1)
        = Some (opens, closes)
      \<and> validate_slot demo_db demo_garage 1 ((minutes_of opens + int k * 60) * minute_us) 0 None None (Some 60) = None"
    using demo_slots(1) by (intro exI [of _ "9 * hour_us"] exI [of _ "17 * hour_us"] exI [of _ 0])
      (simp add: calendar_eval)
  with open_level_means_bookable [OF demo_regular, of demo_settings 60 0 0 demo_db sm None] sm
  show ?thesis by (auto simp: calendar_eval)
qed

lemma validated_slot_bay:
  assumes "proper_usage s" "0 \<le> default_appointment_minutes (resolve_settings g)" "0 < duration"
    "slot_start = local_slot_as_utc (g_zone g) day slot_time" "local_day_for (g_zone g) slot_start = day"
    "validate_slot s g day slot_time now ty None (Some duration) = None"
    "slot_start \<le> t" "t < slot_start + duration * minute_us"
    "fst (local_day_bounds_utc (g_zone g) day) \<le> t" "t \<le> snd (local_day_bounds_utc (g_zone g) day)"
  shows "bays_in_use s g day t + 1
      + reserved_at (load_reserved_windows s g day) slot_start (slot_start + duration * minute_us)
    \<le> slot_capacity s g (resolve_settings g)"
proof -
  obtain appts pend where load: "load_day_usage s g day = (appts, pend)" by fastforce
  let ?ivs = "usage_intervals s g appts pend (resolve_settings g)"
  from load have "set appts \<subseteq> set (db_appointments s)" "set pend \<subseteq> set (db_requests s)"
    by (auto simp: load_day_usage_def Let_def)
  then have proper: "proper_spans ?ivs" by (rule proper_usage_intervals [OF assms(1,2)])
  from assms(6) have "public_room s g slot_start duration None"
    by (simp add: validate_slot_None_iff assms(4))
  with slot_capacity_usage_public [OF assms(5) load]
  have "peak_overlap ?ivs slot_start (slot_start + duration * minute_us)
      < slot_capacity s g (resolve_settings g)
        - reserved_at (load_reserved_windows s g day) slot_start (slot_start + duration * minute_us)"
    by simp
  moreover have "occupancy ?ivs t \<le> peak_overlap ?ivs slot_start (slot_start + duration * minute_us)"
    by (rule bays.peak_upper [OF proper assms(7,8)])
  ultimately show ?thesis using occupancy_loaded [OF load assms(9,10)] by simp
qed

text \<open>
  C4: A slot the submit-time check accepts has a free bay for the whole job: at every instant of it,
  the live appointments and the requests holding a slot, the walk-in reservation touching the slot
  and the new job together stay within the capacity.
\<close>

theorem accepted_slot_has_a_bay:
  assumes "proper_usage s" "0 \<le> default_appointment_minutes (resolve_settings g)" "0 < duration"
    "slot_start = local_slot_as_utc (g_zone g) day slot_time" "local_day_for (g_zone g) slot_start = day"
    "validate_slot s g day slot_time now ty None (Some duration) = None"
    "slot_start \<le> t" "t < slot_start + duration * minute_us"
    "fst (local_day_bounds_utc (g_zone g) day) \<le> t" "t \<le> snd (local_day_bounds_utc (g_zone g) day)"
  shows "bays_in_use s g day t + 1
      + reserved_at (load_reserved_windows s g day) slot_start (slot_start + duration * minute_us)
    \<le> slot_capacity s g (resolve_settings g)"
  by (rule validated_slot_bay [OF assms])

theorem accepted_slot_has_a_bay_witness:
  "bays_in_use demo_db demo_garage 1 (day_us + 9 * hour_us) + 1 \<le> slot_capacity demo_db demo_garage demo_settings"
proof -
  have "bays_in_use demo_db demo_garage 1 (day_us + 9 * hour_us) + 1
      + reserved_at (load_reserved_windows demo_db demo_garage 1) (day_us + 9 * hour_us)
          (day_us + 9 * hour_us + 60 * minute_us)
    \<le> slot_capacity demo_db demo_garage (resolve_settings demo_garage)"
    by (rule accepted_slot_has_a_bay [OF _ _ _ _ _ demo_slots(1)])
      (simp_all add: calendar_eval proper_usage_def)
  then show ?thesis by (simp add: calendar_eval)
qed

text \<open>
  With a positive slot interval the calendar always answers: the month range holds one entry for
  every day from the (clamped) start to the end, and the single-day payload exists. Dates and minutes have no
  bounds here; the code raises an \<open>OverflowError\<close> where a date or a sum of minutes leaves Python's range.
\<close>

theorem calendar_always_answers:
  assumes "0 < slot_interval_minutes (resolve_settings g)"
    "win_start = local_day_for (g_zone g) now"
    "win_end = win_start + max_advance_days (resolve_settings g)"
    "first_day = (case from_date of Some f \<Rightarrow> max f win_start | None \<Rightarrow> win_start)"
    "last_day = max (case to_date of Some t \<Rightarrow> min t win_end | None \<Rightarrow> win_end) first_day"
  shows "\<exists>rng payload. availability_range s g from_date to_date now ty duration_min = Some rng
    \<and> map sm_date (rp_days rng) = [first_day..last_day]
    \<and> single_day s g day now ty duration_min = Some payload"
proof -
  let ?st = "resolve_settings g" and ?hm = "resolve_opening_hours g"
  let ?f = "\<lambda>d. day_summary s g d ?st ?hm (resolve_exceptions g first_day last_day) now win_start
      (Some (case duration_min of Some d \<Rightarrow> d | None \<Rightarrow> type_duration ty ?st))"
  have date: "sm_date sm = d" if "?f d = Some sm" for d sm
    using that by (auto simp: day_summary_def make_summary_def split: if_splits)
  have "\<exists>sms. all_some (map ?f [first_day..last_day]) = Some sms"
    using day_summary_returns [OF assms(1)] by (intro all_some_map) blast
  then obtain sms where sms: "all_some (map ?f [first_day..last_day]) = Some sms" by blast
  from sms have dates: "map sm_date sms = [first_day..last_day]"
    by (rule all_some_dates) (rule date)
  have "\<exists>rng. availability_range s g from_date to_date now ty duration_min = Some rng \<and> rp_days rng = sms"
    using sms unfolding availability_range_def booking_window_def Let_def assms(2-5) by simp
  with dates single_day_returns [OF assms(1), of s day now ty duration_min] show ?thesis by blast
qed

theorem calendar_always_answers_witness:
  "\<exists>rng. availability_range demo_db demo_garage (Some 5) (Some 7) 0 None None = Some rng
     \<and> map sm_date (rp_days rng) = [5, 6, 7]"
proof -
  have "\<exists>rng payload. availability_range demo_db demo_garage (Some 5) (Some 7) 0 None None = Some rng
    \<and> map sm_date (rp_days rng) = [5..7] \<and> single_day demo_db demo_garage 1 0 None None = Some payload"
    by (rule calendar_always_answers [where win_start = 0 and win_end = 60]) (simp_all add: calendar_eval)
  moreover have "[5..7] = [5, 6, 7 :: int]" by (simp add: upto.simps)
  ultimately show ?thesis by auto
qed

text \<open>
  With no lead time the two sides differ at one instant: \<open>day_slots\<close> keeps the slot that starts
  exactly now (\<open>slot_start >= lead_cutoff\<close>), \<open>validate_slot\<close> calls it past (\<open>slot_start <= now\<close>).
\<close>

definition walk_up_garage :: garage where
  "walk_up_garage = demo_garage\<lparr>g_schedule := Some (demo_settings\<lparr>min_lead_time_hours := 0\<rparr>)\<rparr>"

lemma current_slot_offered_but_refused:
  "(\<exists>sl. day_slot demo_db walk_up_garage 1 (resolve_settings walk_up_garage) (day_us + 9 * hour_us) 60 540
      = Some sl \<and> sl_status sl \<noteq> SLOT_BOOKED)
   \<and> validate_slot demo_db walk_up_garage 1 (540 * minute_us) (day_us + 9 * hour_us) None None (Some 60) = Some PAST"
proof
  show "\<exists>sl. day_slot demo_db walk_up_garage 1 (resolve_settings walk_up_garage) (day_us + 9 * hour_us) 60 540
      = Some sl \<and> sl_status sl \<noteq> SLOT_BOOKED"
    by (subst day_slot_bookable_iff) (simp_all add: walk_up_garage_def calendar_eval)
  show "validate_slot demo_db walk_up_garage 1 (540 * minute_us) (day_us + 9 * hour_us) None None (Some 60) = Some PAST"
    by (simp add: validate_slot_def booking_window_def Let_def walk_up_garage_def calendar_eval)
qed

end
