(* ===== verification/Texts.thy ===== *)
theory Texts
  imports Prelude
begin

text \<open>
  Python's string methods on ASCII texts: \<open>str.upper\<close>, \<open>str.lower\<close>, \<open>str.strip\<close> and the
  character classes of \<open>re\<close>. A text is a list of characters; letters outside ASCII, whose case
  mapping follows Unicode, are not modelled.
\<close>

definition is_space :: "char \<Rightarrow> bool" where
  "is_space c \<longleftrightarrow> of_char c \<in> {9 :: nat, 10, 11, 12, 13, 28, 29, 30, 31, 32}"

definition is_digit :: "char \<Rightarrow> bool" where
  "is_digit c \<longleftrightarrow> (48 :: nat) \<le> of_char c \<and> of_char c \<le> (57 :: nat)"

definition is_upper :: "char \<Rightarrow> bool" where
  "is_upper c \<longleftrightarrow> (65 :: nat) \<le> of_char c \<and> of_char c \<le> (90 :: nat)"

definition is_lower :: "char \<Rightarrow> bool" where
  "is_lower c \<longleftrightarrow> (97 :: nat) \<le> of_char c \<and> of_char c \<le> (122 :: nat)"

definition upper_char :: "char \<Rightarrow> char" where
  "upper_char c = (if is_lower c then char_of (of_char c - 32 :: nat) else c)"

definition lower_char :: "char \<Rightarrow> char" where
  "lower_char c = (if is_upper c then char_of (of_char c + 32 :: nat) else c)"

definition strip_text :: "string \<Rightarrow> string" where
  "strip_text t = rev (dropWhile is_space (rev (dropWhile is_space t)))"

text \<open>\<open>str.startswith\<close> and \<open>in\<close>.\<close>

definition starts_with :: "string \<Rightarrow> string \<Rightarrow> bool" where
  "starts_with p t \<longleftrightarrow> take (length p) t = p"

fun contains :: "string \<Rightarrow> string \<Rightarrow> bool" where
  "contains p [] \<longleftrightarrow> p = []"
| "contains p (c # t) \<longleftrightarrow> starts_with p (c # t) \<or> contains p t"

text \<open>\<open>str.split()\<close>: the words between runs of white space; \<open>word\<close> is the one being read, backwards.\<close>

fun words_from :: "string \<Rightarrow> string \<Rightarrow> string list" where
  "words_from word [] = (if word = [] then [] else [rev word])"
| "words_from word (c # t) =
     (if is_space c then (if word = [] then words_from [] t else rev word # words_from [] t)
      else words_from (c # word) t)"

definition split_words :: "string \<Rightarrow> string list" where
  "split_words t = words_from [] t"

text \<open>\<open>separator.join(ts)\<close>.\<close>

fun join_texts :: "string \<Rightarrow> string list \<Rightarrow> string" where
  "join_texts sep [] = []"
| "join_texts sep [t] = t"
| "join_texts sep (t # u # ts) = t @ sep @ join_texts sep (u # ts)"

lemmas char_class_defs = is_space_def is_digit_def is_upper_def is_lower_def

lemmas text_eval [eval_simps] = char_class_defs upper_char_def lower_char_def strip_text_def starts_with_def char_of_def bit_0

lemma starts_with_Nil [simp]: "starts_with [] t"
  by (simp add: starts_with_def)

lemma starts_with_Cons [simp]: "starts_with (c # p) t \<longleftrightarrow> (\<exists>r. t = c # r \<and> starts_with p r)"
  by (cases t) (auto simp: starts_with_def)

lemma starts_with_append [simp]: "starts_with p (p @ t)"
  by (simp add: starts_with_def)

lemma of_char_upper_char:
  "(of_char (upper_char c) :: nat) = (if is_lower c then of_char c - 32 else of_char c)"
proof (cases "is_lower c")
  case True
  then have "(of_char c :: nat) - 32 < 256" unfolding is_lower_def by linarith
  with True show ?thesis by (simp add: upper_char_def)
qed (simp add: upper_char_def)

lemma upper_char_not_lower [simp]: "\<not> is_lower (upper_char c)"
  by (auto simp: is_lower_def of_char_upper_char)

lemma upper_char_upper [simp]: "upper_char (upper_char c) = upper_char c"
  by (simp add: upper_char_def [of "upper_char c"])

lemma upper_char_space [simp]: "is_space (upper_char c) \<longleftrightarrow> is_space c"
  by (auto simp: is_space_def of_char_upper_char is_lower_def)

lemma upper_char_eq_iff_code:
  assumes "(of_char d :: nat) < 65"
  shows "upper_char c = d \<longleftrightarrow> c = d"
proof -
  have "(of_char (upper_char c) :: nat) = of_char d \<longleftrightarrow> (of_char c :: nat) = of_char d"
    using assms by (auto simp: of_char_upper_char is_lower_def)
  then show ?thesis by simp
qed

lemma upper_char_dash [simp]: "upper_char c = CHR ''-'' \<longleftrightarrow> c = CHR ''-''"
  by (rule upper_char_eq_iff_code) simp

lemma dropWhile_idem [simp]: "dropWhile P (dropWhile P xs) = dropWhile P xs"
  by (induction xs) auto

lemma strip_text_hd:
  assumes "strip_text t \<noteq> []"
  shows "\<not> is_space (hd (strip_text t))" "\<not> is_space (last (strip_text t))"
proof -
  let ?u = "dropWhile is_space t"
  from assms have "dropWhile is_space (rev ?u) \<noteq> []" by (simp add: strip_text_def)
  then show "\<not> is_space (last (strip_text t))"
    unfolding strip_text_def by (simp add: last_rev hd_dropWhile)
  obtain a where "rev ?u = a @ dropWhile is_space (rev ?u)" by (metis takeWhile_dropWhile_id)
  then have u: "?u = strip_text t @ rev a" unfolding strip_text_def by (metis rev_append rev_rev_ident)
  with assms have "?u \<noteq> []" "hd (strip_text t) = hd ?u" by (simp_all add: hd_append)
  with hd_dropWhile [of is_space t] show "\<not> is_space (hd (strip_text t))" by simp
qed

lemma strip_text_id:
  assumes "t \<noteq> []" "\<not> is_space (hd t)" "\<not> is_space (last t)"
  shows "strip_text t = t"
proof -
  have "dropWhile is_space t = t" using assms by (cases t) auto
  moreover have "dropWhile is_space (rev t) = rev t"
    using assms by (cases "rev t") (auto simp: hd_rev [symmetric])
  ultimately show ?thesis by (simp add: strip_text_def)
qed

lemma strip_text_Nil [simp]: "strip_text [] = []"
  by (simp add: strip_text_def)

lemma strip_text_strip [simp]: "strip_text (strip_text t) = strip_text t"
  using strip_text_hd [of t] strip_text_id [of "strip_text t"] by (cases "strip_text t = []") simp_all

end
