(* ===== verification/Discounts.thy ===== *)
theory Discounts
  imports Schema Texts
begin

text \<open>
  Discount codes, \<open>app/loyalty/codes.py\<close> and \<open>app/loyalty/service.py\<close>: the text of a code,
  its value, \<open>evaluate_code\<close> (the one decision whether a code applies), the redemption rows and
  their lifecycle RESERVED, CONSUMED, RELEASED. Texts are ASCII: for other letters \<open>upper()\<close> and
  \<open>ILIKE\<close> follow Unicode, which is not modelled. A query's \<open>with_for_update\<close> lock is the reason
  an operation may be modelled as one step on the tables.
\<close>

subsection \<open>The text of a code\<close>

definition code_char :: "char \<Rightarrow> bool" where
  "code_char c \<longleftrightarrow> is_upper c \<or> is_digit c"

definition CODE_ALPHABET :: string where
  "CODE_ALPHABET = ''ABCDEFGHJKLMNPQRSTUVWXYZ23456789''"

definition LOYALTY_PREFIX :: string where
  "LOYALTY_PREFIX = ''LOYAL-''"

definition normalize_code :: "string option \<Rightarrow> string" where
  "normalize_code raw = (case raw of
     None \<Rightarrow> []
   | Some r \<Rightarrow> map upper_char (filter (\<lambda>c. \<not> (is_space c \<or> c = CHR ''-'')) r))"

definition display_code :: "string \<Rightarrow> string" where
  "display_code raw = map upper_char (filter (\<lambda>c. \<not> is_space c) raw)"

text \<open>\<open>$\<close> also matches before one final newline.\<close>

definition is_valid_code :: "string \<Rightarrow> bool" where
  "is_valid_code normalised \<longleftrightarrow> 3 \<le> length normalised \<and> length normalised \<le> 32 \<and>
     (let body = (if last normalised = CHR 0x0A then butlast normalised else normalised)
      in body \<noteq> [] \<and> list_all code_char body)"

definition generate_code :: "string \<Rightarrow> nat list \<Rightarrow> string" where
  "generate_code prefix choices = prefix @ map (\<lambda>i. CODE_ALPHABET ! (i mod 32)) (take 8 choices)"

subsection \<open>Money\<close>

definition compute_discount :: "pence \<Rightarrow> string \<Rightarrow> int \<Rightarrow> pence" where
  "compute_discount order_total discount_type discount_value =
     (let amount = (if discount_type = ''PERCENTAGE''
                    then round_half_up (order_total * discount_value) (100 * 100)
                    else round_half_up discount_value 1)
      in max 0 (min amount order_total))"

text \<open>A value as it arrives: a \<open>Decimal\<close> is a mantissa and a number of decimal places.\<close>

type_synonym decimal = "int \<times> nat"

datatype discount_config_error =
  Discount_type_invalid
| Discount_value_missing
| Discount_value_not_positive
| Discount_value_too_precise
| Discount_percentage_over_100
| Discount_fixed_too_large
| Visits_out_of_range
| Expiry_out_of_range

definition validate_discount :: "string option \<Rightarrow> decimal option \<Rightarrow> discount_config_error + unit" where
  "validate_discount discount_type discount_value =
     (if discount_type \<noteq> Some ''PERCENTAGE'' \<and> discount_type \<noteq> Some ''FIXED''
      then Inl Discount_type_invalid
      else case discount_value of
        None \<Rightarrow> Inl Discount_value_missing
      | Some (m, k) \<Rightarrow>
          if m \<le> 0 then Inl Discount_value_not_positive
          else if (m * 100) mod 10 ^ k \<noteq> 0 then Inl Discount_value_too_precise
          else if discount_type = Some ''PERCENTAGE'' \<and> 100 * 10 ^ k < m
          then Inl Discount_percentage_over_100
          else if discount_type = Some ''FIXED'' \<and> 10000 * 10 ^ k < m
          then Inl Discount_fixed_too_large
          else Inr ())"

definition validate_loyalty_settings ::
  "int \<Rightarrow> string option \<Rightarrow> decimal option \<Rightarrow> int \<Rightarrow> discount_config_error + unit"
where
  "validate_loyalty_settings visits_required discount_type discount_value expiry_days =
     (if \<not> (1 \<le> visits_required \<and> visits_required \<le> 100) then Inl Visits_out_of_range
      else if \<not> (1 \<le> expiry_days \<and> expiry_days \<le> 3650) then Inl Expiry_out_of_range
      else validate_discount discount_type discount_value)"

subsection \<open>Lookup\<close>

definition find_code :: "db \<Rightarrow> uid \<Rightarrow> string option \<Rightarrow> discount_code option" where
  "find_code s garage_id raw =
     (let normalised = normalize_code raw
      in if \<not> is_valid_code normalised then None
         else find (\<lambda>c. dc_garage c = garage_id \<and> dc_normalized c = normalised) (db_codes s))"

text \<open>
  SQL \<open>LIKE\<close>: a percent sign stands for any text, an underscore for any character, a backslash
  escapes the next character. A pattern that ends in a backslash is an error of the database; no
  e-mail address that passed validation is one.
\<close>

fun sql_like :: "string \<Rightarrow> string \<Rightarrow> bool" where
  "sql_like [] s \<longleftrightarrow> s = []"
| "sql_like (c # p) [] \<longleftrightarrow> c = CHR ''%'' \<and> sql_like p []"
| "sql_like (c # p) (d # s) \<longleftrightarrow>
     (if c = CHR ''%'' then sql_like p (d # s) \<or> sql_like (c # p) s
      else if c = CHR 0x5C then (case p of [] \<Rightarrow> False | e # p' \<Rightarrow> d = e \<and> sql_like p' s)
      else (c = CHR ''_'' \<or> c = d) \<and> sql_like p s)"

definition ilike :: "string \<Rightarrow> string \<Rightarrow> bool" where
  "ilike pattern text_value = sql_like (map lower_char pattern) (map lower_char text_value)"

definition find_customer_by_email :: "db \<Rightarrow> uid \<Rightarrow> string option \<Rightarrow> customer option" where
  "find_customer_by_email s garage_id email = (case email of
     None \<Rightarrow> None
   | Some e \<Rightarrow> if e = [] then None
       else find (\<lambda>c. cu_garage c = garage_id
              \<and> (case cu_email c of None \<Rightarrow> False | Some e' \<Rightarrow> ilike e e')) (db_customers s))"

subsection \<open>Redemption rows\<close>

definition redemption_active :: "redemption \<Rightarrow> bool" where
  "redemption_active r \<longleftrightarrow> rd_status r = RESERVED \<or> rd_status r = CONSUMED"

definition terminal_request_statuses :: "request_status list" where
  "terminal_request_statuses = [REJECTED, EXPIRED, CANCELLED]"

definition releasing_appointment_statuses :: "appointment_status list" where
  "releasing_appointment_statuses = [AP_CANCELLED, AP_NO_SHOW]"

definition redemption_is_dead :: "db \<Rightarrow> redemption \<Rightarrow> bool" where
  "redemption_is_dead s r = (case rd_appointment r of
     Some a \<Rightarrow> (case row_find ap_id a (db_appointments s) of
                  None \<Rightarrow> True
                | Some ap \<Rightarrow> ap_status ap \<in> set releasing_appointment_statuses)
   | None \<Rightarrow> (case rd_request r of
       Some q \<Rightarrow> (case row_find rq_id q (db_requests s) of
                    None \<Rightarrow> True
                  | Some rq \<Rightarrow> rq_status rq \<in> set terminal_request_statuses)
     | None \<Rightarrow> True))"

definition set_status :: "redemption \<Rightarrow> redemption_status \<Rightarrow> instant \<Rightarrow> redemption" where
  "set_status r status now =
     (if rd_status r = status then r
      else case status of
        CONSUMED \<Rightarrow> r\<lparr>rd_status := CONSUMED, rd_consumed_at := Some now, rd_released_at := None\<rparr>
      | RELEASED \<Rightarrow> r\<lparr>rd_status := RELEASED, rd_released_at := Some now\<rparr>
      | RESERVED \<Rightarrow> r\<lparr>rd_status := RESERVED, rd_released_at := None\<rparr>)"

definition release_where :: "(redemption \<Rightarrow> bool) \<Rightarrow> instant \<Rightarrow> db \<Rightarrow> db" where
  "release_where P now s = s\<lparr>db_redemptions :=
     map (\<lambda>r. if P r then set_status r RELEASED now else r) (db_redemptions s)\<rparr>"

definition release_stale_redemptions :: "db \<Rightarrow> discount_code \<Rightarrow> instant \<Rightarrow> db" where
  "release_stale_redemptions s code now =
     release_where (\<lambda>r. rd_code r = dc_id code \<and> redemption_active r \<and> redemption_is_dead s r) now s"

definition active_uses :: "db \<Rightarrow> uid \<Rightarrow> uid list \<Rightarrow> redemption list" where
  "active_uses s code_id exclude =
     filter (\<lambda>r. rd_code r = code_id \<and> redemption_active r \<and> rd_id r \<notin> set exclude) (db_redemptions s)"

definition code_uses :: "db \<Rightarrow> discount_code \<Rightarrow> int" where
  "code_uses s code = int (length (active_uses s (dc_id code) []))"

subsection \<open>Does a code apply?\<close>

datatype discount_failure =
  D_NOT_FOUND | D_DISABLED | D_NOT_YET_VALID | D_EXPIRED | D_USED_UP | D_CUSTOMER_LIMIT
| D_WRONG_CUSTOMER | D_UNPRICED | D_NOTHING_TO_DISCOUNT

definition generic_failures :: "discount_failure list" where
  "generic_failures = [D_NOT_FOUND, D_DISABLED, D_NOT_YET_VALID, D_EXPIRED, D_USED_UP,
     D_CUSTOMER_LIMIT, D_WRONG_CUSTOMER]"

text \<open>The public message: one text for every reason that would tell something about a code.\<close>

datatype discount_message = Generic_failure | Service_unpriced | Already_free

definition public_message :: "discount_failure \<Rightarrow> discount_message" where
  "public_message f = (case f of
     D_UNPRICED \<Rightarrow> Service_unpriced
   | D_NOTHING_TO_DISCOUNT \<Rightarrow> Already_free
   | _ \<Rightarrow> Generic_failure)"

record discount_result =
  dr_code :: discount_code
  dr_original_total :: pence
  dr_discount_amount :: pence
  dr_new_total :: pence

text \<open>The checks of \<open>evaluate_code\<close> on the code found, one definition per condition.\<close>

definition not_yet_valid :: "discount_code \<Rightarrow> instant \<Rightarrow> bool" where
  "not_yet_valid c now \<longleftrightarrow> (case dc_valid_from c of None \<Rightarrow> False | Some v \<Rightarrow> now < v)"

definition code_expired :: "discount_code \<Rightarrow> instant \<Rightarrow> bool" where
  "code_expired c now \<longleftrightarrow> (case dc_expires c of None \<Rightarrow> False | Some e \<Rightarrow> e \<le> now)"

definition wrong_customer :: "discount_code \<Rightarrow> customer option \<Rightarrow> bool" where
  "wrong_customer c customer \<longleftrightarrow> dc_source c = SOURCE_LOYALTY
     \<and> (case customer of None \<Rightarrow> True | Some cu \<Rightarrow> dc_customer c \<noteq> Some (cu_id cu))"

definition used_up :: "discount_code \<Rightarrow> redemption list \<Rightarrow> bool" where
  "used_up c uses \<longleftrightarrow> (case dc_max_uses c of None \<Rightarrow> False | Some n \<Rightarrow> n \<le> int (length uses))"

definition customer_limit_reached :: "discount_code \<Rightarrow> customer option \<Rightarrow> redemption list \<Rightarrow> bool" where
  "customer_limit_reached c customer uses \<longleftrightarrow> (case (dc_max_per_customer c, customer) of
       (Some n, Some cu) \<Rightarrow> n \<le> int (length (filter (\<lambda>r. rd_customer r = Some (cu_id cu)) uses))
     | _ \<Rightarrow> False)"

definition evaluate_code ::
  "db \<Rightarrow> garage \<Rightarrow> string option \<Rightarrow> customer option \<Rightarrow> pence option \<Rightarrow> uid list \<Rightarrow> instant
     \<Rightarrow> (discount_failure + discount_result) \<times> db"
where
  "evaluate_code s g code customer order_total exclude now =
     (case order_total of
        None \<Rightarrow> (Inl D_UNPRICED, s)
      | Some t \<Rightarrow>
          if t \<le> 0 then (Inl D_NOTHING_TO_DISCOUNT, s)
          else case find_code s (g_id g) code of
            None \<Rightarrow> (Inl D_NOT_FOUND, s)
          | Some found \<Rightarrow>
              if dc_status found = CODE_DISABLED then (Inl D_DISABLED, s)
              else if not_yet_valid found now then (Inl D_NOT_YET_VALID, s)
              else if code_expired found now then (Inl D_EXPIRED, s)
              else if wrong_customer found customer then (Inl D_WRONG_CUSTOMER, s)
              else
                let s' = release_stale_redemptions s found now;
                    uses = active_uses s' (dc_id found) exclude
                in if used_up found uses then (Inl D_USED_UP, s')
                   else if customer_limit_reached found customer uses then (Inl D_CUSTOMER_LIMIT, s')
                   else
                     let amount = compute_discount t (dc_type found) (dc_value found)
                     in (Inr \<lparr>dr_code = found, dr_original_total = t, dr_discount_amount = amount,
                              dr_new_total = t - amount\<rparr>, s'))"

lemmas evaluate_checks = not_yet_valid_def code_expired_def wrong_customer_def used_up_def
  customer_limit_reached_def

subsection \<open>The snapshot on a booking\<close>

definition apply_snapshot :: "discount_result \<Rightarrow> discount_snapshot" where
  "apply_snapshot result = \<lparr>ds_code_id = Some (dc_id (dr_code result)), ds_code = Some (dc_code (dr_code result)),
     ds_type = Some (dc_type (dr_code result)), ds_value = Some (dc_value (dr_code result)),
     ds_amount = Some (dr_discount_amount result), ds_before = Some (dr_original_total result)\<rparr>"

definition clear_snapshot :: discount_snapshot where
  "clear_snapshot = \<lparr>ds_code_id = None, ds_code = None, ds_type = None, ds_value = None,
     ds_amount = None, ds_before = None\<rparr>"

definition copy_snapshot :: "discount_snapshot \<Rightarrow> discount_snapshot" where
  "copy_snapshot source = \<lparr>ds_code_id = ds_code_id source, ds_code = ds_code source, ds_type = ds_type source,
     ds_value = ds_value source, ds_amount = ds_amount source, ds_before = ds_before source\<rparr>"

text \<open>The most recent redemption of a request or an appointment: rows are in creation order.\<close>

definition redemption_for_request :: "db \<Rightarrow> uid \<Rightarrow> redemption option" where
  "redemption_for_request s request_id =
     find (\<lambda>r. rd_request r = Some request_id) (rev (db_redemptions s))"

definition redemption_for_appointment :: "db \<Rightarrow> uid \<Rightarrow> redemption option" where
  "redemption_for_appointment s appointment_id =
     find (\<lambda>r. rd_appointment r = Some appointment_id) (rev (db_redemptions s))"

text \<open>\<open>reprice_snapshot\<close> on the snapshot of a booking and the redemption found for it.\<close>

definition reprice_snapshot ::
  "db \<Rightarrow> discount_snapshot \<Rightarrow> redemption option \<Rightarrow> pence option \<Rightarrow> (pence option \<times> discount_snapshot) \<times> db"
where
  "reprice_snapshot s ds redemption pre_discount_total =
     (case (ds_type ds, ds_value ds) of
        (Some ty, Some v) \<Rightarrow>
          (case pre_discount_total of
             None \<Rightarrow> ((None, ds\<lparr>ds_before := None, ds_amount := None\<rparr>), s)
           | Some pre \<Rightarrow>
               let amount = compute_discount pre ty v
               in ((Some (pre - amount), ds\<lparr>ds_before := Some pre, ds_amount := Some amount\<rparr>),
                   (case redemption of
                      None \<Rightarrow> s
                    | Some r \<Rightarrow> put_redemption (r\<lparr>rd_amount := amount\<rparr>) s)))
      | _ \<Rightarrow> ((pre_discount_total, ds), s))"

subsection \<open>Redeeming\<close>

text \<open>
  The partial unique index on single-use rows that are active: an insert that violates it raises
  \<open>IntegrityError\<close>, which the code reports as the code being used up.
\<close>

definition single_use_taken :: "db \<Rightarrow> uid \<Rightarrow> bool" where
  "single_use_taken s code_id \<longleftrightarrow>
     list_ex (\<lambda>r. rd_code r = code_id \<and> rd_single_use r \<and> redemption_active r) (db_redemptions s)"

definition redeem ::
  "db \<Rightarrow> discount_result \<Rightarrow> uid option \<Rightarrow> redemption_status \<Rightarrow> uid option \<Rightarrow> uid option \<Rightarrow> instant
     \<Rightarrow> (discount_failure + redemption) \<times> db"
where
  "redeem s result customer_id status booking_request appointment_id now =
     (let r = \<lparr>rd_id = fresh_id s, rd_code = dc_id (dr_code result), rd_request = booking_request,
               rd_appointment = appointment_id, rd_customer = customer_id,
               rd_amount = dr_discount_amount result, rd_status = status,
               rd_single_use = (dc_max_uses (dr_code result) = Some 1),
               rd_reserved_at = Some now,
               rd_consumed_at = (if status = CONSUMED then Some now else None), rd_released_at = None\<rparr>
      in if rd_single_use r \<and> redemption_active r \<and> single_use_taken s (rd_code r)
         then (Inl D_USED_UP, s)
         else (Inr r, s\<lparr>db_redemptions := db_redemptions s @ [r], db_next := Suc (db_next s)\<rparr>))"

subsection \<open>Following the booking\<close>

definition move_to :: "db \<Rightarrow> redemption \<Rightarrow> redemption_status \<Rightarrow> instant \<Rightarrow> db" where
  "move_to s r status now =
     (if rd_status r = RELEASED \<and> (status = RESERVED \<or> status = CONSUMED)
         \<and> (case row_find dc_id (rd_code r) (db_codes s) of
              None \<Rightarrow> False
            | Some code \<Rightarrow>
                (case dc_max_uses code of
                   None \<Rightarrow> False
                 | Some n \<Rightarrow> n \<le> int (length (active_uses s (dc_id code) []))))
      then s
      else put_redemption (set_status r status now) s)"

definition sync_booking_request_redemption :: "db \<Rightarrow> booking_request \<Rightarrow> instant \<Rightarrow> db" where
  "sync_booking_request_redemption s rq now =
     (if ds_code_id (rq_discount rq) = None then s
      else case redemption_for_request s (rq_id rq) of
        None \<Rightarrow> s
      | Some r \<Rightarrow>
          if rd_appointment r \<noteq> None then s
          else if rq_status rq = AWAITING_PAYMENT \<or> rq_status rq = AWAITING_TERMS
          then move_to s r RESERVED now
          else if rq_status rq = PENDING \<or> rq_status rq = APPROVED
          then move_to s r CONSUMED now
          else if rq_status rq \<in> set terminal_request_statuses
          then put_redemption (set_status r RELEASED now) s
          else s)"

definition release_for_booking_requests :: "db \<Rightarrow> uid list \<Rightarrow> instant \<Rightarrow> db" where
  "release_for_booking_requests s ids now =
     (if ids = [] then s
      else release_where (\<lambda>r. (case rd_request r of None \<Rightarrow> False | Some q \<Rightarrow> q \<in> set ids)
             \<and> rd_appointment r = None \<and> redemption_active r) now s)"

definition sync_appointment_redemption :: "db \<Rightarrow> appointment \<Rightarrow> instant \<Rightarrow> db" where
  "sync_appointment_redemption s ap now =
     (if ds_code_id (ap_discount ap) = None then s
      else case redemption_for_appointment s (ap_id ap) of
        None \<Rightarrow> s
      | Some r \<Rightarrow>
          if ap_status ap \<in> set releasing_appointment_statuses
          then put_redemption (set_status r RELEASED now) s
          else move_to s r CONSUMED now)"

definition attach_redemption_to_appointment ::
  "db \<Rightarrow> booking_request \<Rightarrow> uid \<Rightarrow> instant \<Rightarrow> db"
where
  "attach_redemption_to_appointment s rq appointment_id now =
     (if ds_code_id (rq_discount rq) = None then s
      else case redemption_for_request s (rq_id rq) of
        None \<Rightarrow> s
      | Some r \<Rightarrow>
          let r' = r\<lparr>rd_appointment := Some appointment_id\<rparr>
          in move_to (put_redemption r' s) r' CONSUMED now)"

definition release_appointment_discount :: "db \<Rightarrow> uid \<Rightarrow> instant \<Rightarrow> db" where
  "release_appointment_discount s appointment_id now =
     (case redemption_for_appointment s appointment_id of
        None \<Rightarrow> s
      | Some r \<Rightarrow> put_redemption (set_status r RELEASED now) s)"

subsection \<open>The status shown for a code\<close>

datatype derived_status = ST_ACTIVE | ST_USED | ST_EXPIRED | ST_DISABLED

definition code_status :: "db \<Rightarrow> discount_code \<Rightarrow> instant \<Rightarrow> derived_status" where
  "code_status s code now =
     (if dc_status code = CODE_DISABLED then ST_DISABLED
      else if (case dc_max_uses code of None \<Rightarrow> False | Some n \<Rightarrow> n \<le> code_uses s code) then ST_USED
      else if (case dc_expires code of None \<Rightarrow> False | Some e \<Rightarrow> e \<le> now) then ST_EXPIRED
      else ST_ACTIVE)"

subsection \<open>Creating codes\<close>

text \<open>
  Inserting a code fails on either unique constraint: the normalised text within the business, and
  the visit a loyalty code rewards per customer.
\<close>

definition code_text_exists :: "db \<Rightarrow> uid \<Rightarrow> string \<Rightarrow> bool" where
  "code_text_exists s garage_id normalised \<longleftrightarrow>
     list_ex (\<lambda>c. dc_garage c = garage_id \<and> dc_normalized c = normalised) (db_codes s)"

definition milestone_exists :: "db \<Rightarrow> uid option \<Rightarrow> int option \<Rightarrow> bool" where
  "milestone_exists s customer_id visit_count \<longleftrightarrow> customer_id \<noteq> None \<and> visit_count \<noteq> None \<and>
     list_ex (\<lambda>c. dc_customer c = customer_id \<and> dc_visit c = visit_count) (db_codes s)"

definition insert_code :: "db \<Rightarrow> discount_code \<Rightarrow> (discount_code \<times> db) option" where
  "insert_code s row =
     (let c = row\<lparr>dc_id := fresh_id s\<rparr>
      in if code_text_exists s (dc_garage c) (dc_normalized c) \<or> milestone_exists s (dc_customer c) (dc_visit c)
         then None
         else Some (c, s\<lparr>db_codes := db_codes s @ [c], db_next := Suc (db_next s)\<rparr>))"

text \<open>
  \<open>create_unique_code\<close>: at most five attempts, on the texts \<open>secrets.choice\<close> draws. The code that
  could not be inserted for another reason than its text is \<open>Code_none\<close>; running out of attempts
  is the \<open>RuntimeError\<close>.
\<close>

datatype code_creation = Code_created discount_code | Code_none | Code_runtime_error

primrec create_attempts ::
  "db \<Rightarrow> uid \<Rightarrow> (string \<Rightarrow> string \<Rightarrow> discount_code) \<Rightarrow> string list \<Rightarrow> code_creation \<times> db"
where
  "create_attempts s garage_id build [] = (Code_runtime_error, s)"
| "create_attempts s garage_id build (txt # draws) =
     (let normalised = normalize_code (Some txt)
      in if code_text_exists s garage_id normalised then create_attempts s garage_id build draws
         else case insert_code s (build txt normalised) of
           Some (c, s') \<Rightarrow> (Code_created c, s')
         | None \<Rightarrow> if \<not> code_text_exists s garage_id normalised then (Code_none, s)
                   else create_attempts s garage_id build draws)"

definition create_unique_code ::
  "db \<Rightarrow> uid \<Rightarrow> (string \<Rightarrow> string \<Rightarrow> discount_code) \<Rightarrow> string \<Rightarrow> nat list list \<Rightarrow> code_creation \<times> db"
where
  "create_unique_code s garage_id build prefix draws =
     create_attempts s garage_id build (map (generate_code prefix) (take 5 draws))"

definition create_manual_code ::
  "db \<Rightarrow> uid \<Rightarrow> string option \<Rightarrow> string \<Rightarrow> int \<Rightarrow> instant option \<Rightarrow> instant option \<Rightarrow> int option
     \<Rightarrow> int option \<Rightarrow> nat list list \<Rightarrow> discount_code outcome"
where
  "create_manual_code s garage_id code discount_type discount_value valid_from expires_at max_uses
       max_uses_per_customer draws =
     (let fields = (\<lambda>txt normalised. \<lparr>dc_id = 0, dc_garage = garage_id, dc_code = txt,
            dc_normalized = normalised, dc_source = SOURCE_MANUAL, dc_type = discount_type,
            dc_value = discount_value, dc_status = CODE_ACTIVE, dc_customer = None,
            dc_valid_from = valid_from, dc_expires = expires_at, dc_max_uses = max_uses,
            dc_max_per_customer = max_uses_per_customer, dc_visit = None, dc_for_appointment = None\<rparr>);
          raw = strip_text (case code of None \<Rightarrow> [] | Some c \<Rightarrow> c)
      in case validate_discount (Some discount_type) (Some (discount_value, 2)) of
           Inl _ \<Rightarrow> (Inl (Abort 422 ''discount_value''), s)
         | Inr _ \<Rightarrow>
             if raw \<noteq> [] then
               let normalised = normalize_code (Some raw)
               in if \<not> is_valid_code normalised then (Inl (Abort 422 ''code''), s)
                  else case insert_code s (fields (display_code raw) normalised) of
                    None \<Rightarrow> (Inl (Abort 409 ''code''), s)
                  | Some (c, s') \<Rightarrow> (Inr c, s')
             else case create_unique_code s garage_id fields [] draws of
               (Code_created c, s') \<Rightarrow> (Inr c, s')
             | (Code_none, s') \<Rightarrow> (Inl (Abort 409 ''Could not create a code''), s')
             | (Code_runtime_error, s') \<Rightarrow> (Inl (Abort 500 ''RuntimeError''), s'))"

subsection \<open>Spelling\<close>

lemma normalize_code_display [simp]: "normalize_code (Some (display_code raw)) = normalize_code (Some raw)"
  by (induction raw) (auto simp: normalize_code_def display_code_def)

lemma normalize_code_idem [simp]: "normalize_code (Some (normalize_code raw)) = normalize_code raw"
proof (cases raw)
  case (Some r)
  then show ?thesis by (induct r arbitrary: raw) (auto simp: normalize_code_def)
qed (simp add: normalize_code_def)

subsection \<open>The invariant of the redemption table\<close>

definition uses_of :: "db \<Rightarrow> uid \<Rightarrow> nat" where
  "uses_of s code_id = length (filter (\<lambda>r. rd_code r = code_id \<and> redemption_active r) (db_redemptions s))"

definition ids_ok :: "db \<Rightarrow> bool" where
  "ids_ok s \<longleftrightarrow> distinct (map rd_id (db_redemptions s)) \<and> distinct (map dc_id (db_codes s))
     \<and> (\<forall>r \<in> set (db_redemptions s). rd_id r < db_next s \<and> rd_code r < db_next s)
     \<and> (\<forall>c \<in> set (db_codes s). dc_id c < db_next s)"

definition within_limits :: "db \<Rightarrow> bool" where
  "within_limits s \<longleftrightarrow> (\<forall>c \<in> set (db_codes s). \<forall>n. dc_max_uses c = Some n \<longrightarrow> int (uses_of s (dc_id c)) \<le> n)"

definition limits_ok :: "db \<Rightarrow> bool" where
  "limits_ok s \<longleftrightarrow> ids_ok s \<and> within_limits s"

lemmas limits_defs [inv_simps] = limits_ok_def within_limits_def ids_ok_def

lemma active_uses_none [simp]: "length (active_uses s i []) = uses_of s i"
  by (simp add: active_uses_def uses_of_def)

lemma code_uses_uses_of: "code_uses s code = int (uses_of s (dc_id code))"
  by (simp add: code_uses_def)

lemma set_status_frame [simp]:
  "rd_id (set_status r st now) = rd_id r" "rd_code (set_status r st now) = rd_code r"
  "rd_single_use (set_status r st now) = rd_single_use r"
  "rd_request (set_status r st now) = rd_request r"
  "rd_appointment (set_status r st now) = rd_appointment r"
  "rd_status (set_status r st now) = st"
  by (cases st; simp add: set_status_def)+

lemma set_status_active: "redemption_active (set_status r st now) \<longleftrightarrow> st = RESERVED \<or> st = CONSUMED"
  by (simp add: redemption_active_def)

lemma put_redemption_frame [simp]:
  "db_codes (put_redemption r s) = db_codes s" "db_next (put_redemption r s) = db_next s"
  "db_requests (put_redemption r s) = db_requests s" "db_appointments (put_redemption r s) = db_appointments s"
  by (simp_all add: put_redemption_def)

lemma redemption_for_requestD:
  "redemption_for_request s q = Some r \<Longrightarrow> r \<in> set (db_redemptions s) \<and> rd_request r = Some q"
  unfolding redemption_for_request_def by (auto dest: find_SomeD)

lemma redemption_for_appointmentD:
  "redemption_for_appointment s a = Some r \<Longrightarrow> r \<in> set (db_redemptions s) \<and> rd_appointment r = Some a"
  unfolding redemption_for_appointment_def by (auto dest: find_SomeD)

text \<open>Putting back a changed row keeps the keys; its code's uses change with its status only.\<close>

lemma ids_ok_put:
  assumes "ids_ok s" "r \<in> set (db_redemptions s)" "rd_id r' = rd_id r" "rd_code r' = rd_code r"
  shows "ids_ok (put_redemption r' s)"
  using assms by (auto simp: ids_ok_def put_redemption_def dest: in_row_set)

lemma uses_of_put:
  assumes "ids_ok s" "r \<in> set (db_redemptions s)" "rd_id r' = rd_id r" "rd_code r' = rd_code r"
  shows "uses_of (put_redemption r' s) i + (if rd_code r = i \<and> redemption_active r then 1 else 0)
    = uses_of s i + (if rd_code r = i \<and> redemption_active r' then 1 else 0)"
  using length_filter_row_set [of rd_id "db_redemptions s" r r' "\<lambda>r. rd_code r = i \<and> redemption_active r"] assms
  by (simp add: ids_ok_def uses_of_def put_redemption_def)

lemma limits_ok_put:
  assumes "limits_ok s" "r \<in> set (db_redemptions s)" "rd_id r' = rd_id r" "rd_code r' = rd_code r"
    and "redemption_active r' \<Longrightarrow> \<not> redemption_active r \<Longrightarrow>
      \<forall>c \<in> set (db_codes s). \<forall>n. dc_id c = rd_code r \<longrightarrow> dc_max_uses c = Some n \<longrightarrow> int (uses_of s (dc_id c)) < n"
  shows "limits_ok (put_redemption r' s)"
proof -
  from assms(1) have ok: "ids_ok s" "within_limits s" by (simp_all add: limits_ok_def)
  have "int (uses_of (put_redemption r' s) (dc_id c)) \<le> n"
    if c: "c \<in> set (db_codes s)" "dc_max_uses c = Some n" for c n
  proof (cases "rd_code r = dc_id c \<and> redemption_active r' \<and> \<not> redemption_active r")
    case True
    with c assms(5) have "int (uses_of s (dc_id c)) < n" by auto
    with uses_of_put [OF ok(1) assms(2-4), of "dc_id c"] True show ?thesis by simp
  next
    case False
    from ok(2) c have "int (uses_of s (dc_id c)) \<le> n" by (simp add: within_limits_def)
    with uses_of_put [OF ok(1) assms(2-4), of "dc_id c"] False show ?thesis by (auto split: if_splits)
  qed
  with ids_ok_put [OF ok(1) assms(2-4)] show ?thesis by (simp add: limits_ok_def within_limits_def)
qed

lemma limits_ok_release:
  "limits_ok s \<Longrightarrow> r \<in> set (db_redemptions s) \<Longrightarrow> limits_ok (put_redemption (set_status r RELEASED now) s)"
  by (rule limits_ok_put) (simp_all add: set_status_active)

lemma code_row_unique:
  "ids_ok s \<Longrightarrow> c \<in> set (db_codes s) \<Longrightarrow> row_find dc_id (dc_id c) (db_codes s) = Some c"
  by (rule row_find_distinct) (simp_all add: ids_ok_def)

lemma limits_ok_move_to:
  assumes "limits_ok s" "r \<in> set (db_redemptions s)"
  shows "limits_ok (move_to s r status now)"
proof (cases "move_to s r status now = s")
  case False
  then have moved: "move_to s r status now = put_redemption (set_status r status now) s"
    by (simp add: move_to_def split: if_splits)
  show ?thesis unfolding moved
  proof (rule limits_ok_put [OF assms])
    assume "redemption_active (set_status r status now)" "\<not> redemption_active r"
    then have st: "status = RESERVED \<or> status = CONSUMED" "rd_status r = RELEASED"
      by (cases "rd_status r"; simp add: set_status_active redemption_active_def)+
    show "\<forall>c \<in> set (db_codes s). \<forall>n. dc_id c = rd_code r \<longrightarrow> dc_max_uses c = Some n \<longrightarrow> int (uses_of s (dc_id c)) < n"
    proof (intro ballI allI impI)
      fix c n
      assume c: "c \<in> set (db_codes s)" "dc_id c = rd_code r" "dc_max_uses c = Some n"
      with assms(1) code_row_unique [of s c] have "row_find dc_id (rd_code r) (db_codes s) = Some c"
        by (simp add: limits_ok_def)
      with False st c show "int (uses_of s (dc_id c)) < n"
        by (auto simp: move_to_def split: if_splits)
    qed
  qed simp_all
qed (simp add: assms(1))

lemma release_where_frame [simp]:
  "db_codes (release_where P now s) = db_codes s" "db_next (release_where P now s) = db_next s"
  by (simp_all add: release_where_def)

lemma uses_of_release_where: "uses_of (release_where P now s) i \<le> uses_of s i"
  unfolding uses_of_def release_where_def
  by (simp add: filter_map) (intro filter_length_mono, auto simp: set_status_active split: if_splits)

lemma ids_ok_release_where: "ids_ok s \<Longrightarrow> ids_ok (release_where P now s)"
  by (auto simp: ids_ok_def release_where_def o_def if_distrib [of rd_id] cong: if_cong)

lemma limits_ok_release_where:
  assumes "limits_ok s"
  shows "limits_ok (release_where P now s)"
proof -
  have "int (uses_of (release_where P now s) (dc_id c)) \<le> n"
    if "c \<in> set (db_codes s)" "dc_max_uses c = Some n" for c n
    using that assms uses_of_release_where [of P now s "dc_id c"]
    by (fastforce simp: limits_ok_def within_limits_def)
  with ids_ok_release_where assms show ?thesis by (simp add: limits_ok_def within_limits_def)
qed

text \<open>
  The contract every operation on redemptions keeps: it leaves the codes alone and keeps the use
  limits. Whatever is done with such operations, in any order, keeps them too.
\<close>

locale use_keeper =
  fixes op :: "'k \<Rightarrow> db \<Rightarrow> db"
  assumes op_codes: "db_codes (op k s) = db_codes s"
    and op_limits: "limits_ok s \<Longrightarrow> limits_ok (op k s)"
begin

lemma fold_codes: "db_codes (fold op ks s) = db_codes s"
  by (induction ks arbitrary: s) (simp_all add: op_codes)

lemma fold_limits: "limits_ok s \<Longrightarrow> limits_ok (fold op ks s)"
  by (induction ks arbitrary: s) (simp_all add: op_limits)

lemma uses_bounded:
  assumes "limits_ok s" "c \<in> set (db_codes s)" "dc_max_uses c = Some n"
  shows "code_uses (op k s) c \<le> n"
  using op_limits [OF assms(1), of k] assms(2,3)
  by (auto simp: limits_ok_def within_limits_def op_codes code_uses_uses_of)

end

lemma move_to_codes [simp]: "db_codes (move_to s r status now) = db_codes s"
  by (simp add: move_to_def)

interpretation request_sync: use_keeper "\<lambda>(rq, now) s. sync_booking_request_redemption s rq now"
proof
  show "db_codes ((case k of (rq, now) \<Rightarrow> \<lambda>s. sync_booking_request_redemption s rq now) s) = db_codes s" for k s
    by (cases k) (simp add: sync_booking_request_redemption_def split: option.split)
  show "limits_ok ((case k of (rq, now) \<Rightarrow> \<lambda>s. sync_booking_request_redemption s rq now) s)"
    if "limits_ok s" for k s
    using that by (cases k)
      (auto simp: sync_booking_request_redemption_def limits_ok_move_to limits_ok_release
        dest: redemption_for_requestD split: option.split)
qed

interpretation appointment_sync: use_keeper "\<lambda>(ap, now) s. sync_appointment_redemption s ap now"
proof
  show "db_codes ((case k of (ap, now) \<Rightarrow> \<lambda>s. sync_appointment_redemption s ap now) s) = db_codes s" for k s
    by (cases k) (simp add: sync_appointment_redemption_def split: option.split)
  show "limits_ok ((case k of (ap, now) \<Rightarrow> \<lambda>s. sync_appointment_redemption s ap now) s)"
    if "limits_ok s" for k s
    using that by (cases k)
      (auto simp: sync_appointment_redemption_def limits_ok_move_to limits_ok_release
        dest: redemption_for_appointmentD split: option.split)
qed

interpretation bulk_release: use_keeper "\<lambda>(ids, now) s. release_for_booking_requests s ids now"
  by unfold_locales (auto simp: release_for_booking_requests_def limits_ok_release_where)

interpretation discount_removal: use_keeper "\<lambda>(ap_id, now) s. release_appointment_discount s ap_id now"
  by unfold_locales
    (auto simp: release_appointment_discount_def redemption_for_appointmentD
      intro!: limits_ok_release split: option.split)

lemma limits_ok_attach:
  assumes "limits_ok s"
  shows "limits_ok (attach_redemption_to_appointment s rq a now)"
proof (cases "redemption_for_request s (rq_id rq)")
  case None
  with assms show ?thesis by (simp add: attach_redemption_to_appointment_def)
next
  case (Some r)
  let ?r = "r\<lparr>rd_appointment := Some a\<rparr>"
  from redemption_for_requestD [OF Some] have r: "r \<in> set (db_redemptions s)" by simp
  have ok: "limits_ok (put_redemption ?r s)"
    by (rule limits_ok_put [OF assms r]) (simp_all add: redemption_active_def)
  have "rd_id ?r \<in> rd_id ` set (db_redemptions s)" using r by force
  from set_row_set [OF this] have "?r \<in> set (db_redemptions (put_redemption ?r s))"
    by (simp add: put_redemption_def)
  from limits_ok_move_to [OF ok this] assms Some show ?thesis
    by (simp add: attach_redemption_to_appointment_def Let_def)
qed

interpretation approval: use_keeper "\<lambda>(rq, a, now) s. attach_redemption_to_appointment s rq a now"
  by unfold_locales
    (auto simp: limits_ok_attach, simp add: attach_redemption_to_appointment_def Let_def split: option.split)

subsection \<open>Evaluating and redeeming\<close>

lemma find_codeD:
  "find_code s garage_id raw = Some c \<Longrightarrow>
    c \<in> set (db_codes s) \<and> dc_garage c = garage_id \<and> dc_normalized c = normalize_code raw"
  by (auto simp: find_code_def Let_def dest: find_SomeD split: if_splits)

lemma evaluate_code_db:
  "snd (evaluate_code s g code customer order_total exclude now) = s \<or>
   (\<exists>c. snd (evaluate_code s g code customer order_total exclude now) = release_stale_redemptions s c now)"
  unfolding evaluate_code_def Let_def
  by (auto split: option.split)

lemma limits_ok_evaluate:
  assumes "limits_ok s"
  shows "limits_ok (snd (evaluate_code s g code customer order_total exclude now))"
  using evaluate_code_db [of s g code customer order_total exclude now] assms
  by (auto simp: release_stale_redemptions_def limits_ok_release_where)

text \<open>The conditions under which a code applies, and what it is then worth.\<close>

definition code_applies ::
  "db \<Rightarrow> garage \<Rightarrow> string option \<Rightarrow> customer option \<Rightarrow> pence \<Rightarrow> uid list \<Rightarrow> instant \<Rightarrow> discount_code \<Rightarrow> bool"
where
  "code_applies s g code customer t exclude now c \<longleftrightarrow>
     0 < t \<and> find_code s (g_id g) code = Some c \<and> dc_status c = CODE_ACTIVE
     \<and> \<not> not_yet_valid c now \<and> \<not> code_expired c now \<and> \<not> wrong_customer c customer
     \<and> \<not> used_up c (active_uses (release_stale_redemptions s c now) (dc_id c) exclude)
     \<and> \<not> customer_limit_reached c customer (active_uses (release_stale_redemptions s c now) (dc_id c) exclude)"

lemma not_disabled_iff: "st \<noteq> CODE_DISABLED \<longleftrightarrow> st = CODE_ACTIVE"
  by (cases st) simp_all

lemma evaluate_code_Inr_iff:
  "evaluate_code s g code customer order_total exclude now = (Inr res, s') \<longleftrightarrow>
     (\<exists>t c. order_total = Some t \<and> code_applies s g code customer t exclude now c
        \<and> res = \<lparr>dr_code = c, dr_original_total = t,
                 dr_discount_amount = compute_discount t (dc_type c) (dc_value c),
                 dr_new_total = t - compute_discount t (dc_type c) (dc_value c)\<rparr>
        \<and> s' = release_stale_redemptions s c now)"
  unfolding evaluate_code_def Let_def code_applies_def not_disabled_iff [symmetric]
  by (cases order_total; cases "find_code s (g_id g) code") auto

lemma evaluate_code_InrD:
  assumes "evaluate_code s g code customer order_total exclude now = (Inr res, s')"
  shows "find_code s (g_id g) code = Some (dr_code res)"
    "s' = release_stale_redemptions s (dr_code res) now"
    "\<not> used_up (dr_code res) (active_uses s' (dc_id (dr_code res)) exclude)"
  using assms unfolding evaluate_code_Inr_iff code_applies_def by auto

lemma uses_of_redeem:
  "redeem s res customer_id status rq a now = (Inr r, s') \<Longrightarrow>
    uses_of s' i = uses_of s i + (if dc_id (dr_code res) = i \<and> (status = RESERVED \<or> status = CONSUMED) then 1 else 0)"
  by (auto simp: redeem_def Let_def uses_of_def redemption_active_def split: if_splits)

lemma redeem_frame:
  "redeem s res customer_id status rq a now = (out, s') \<Longrightarrow> db_codes s' = db_codes s"
  by (auto simp: redeem_def Let_def split: if_splits)

lemma ids_ok_redeem:
  assumes "ids_ok s" "dr_code res \<in> set (db_codes s)" "redeem s res customer_id status rq a now = (out, s')"
  shows "ids_ok s'"
  using assms by (fastforce simp: redeem_def Let_def ids_ok_def fresh_id_def split: if_splits)

lemma limits_ok_redeem:
  assumes "limits_ok s" "dr_code res \<in> set (db_codes s)"
    and "\<And>n. dc_max_uses (dr_code res) = Some n \<Longrightarrow> int (uses_of s (dc_id (dr_code res))) < n"
    and "redeem s res customer_id status rq a now = (out, s')"
  shows "limits_ok s'"
proof (cases out)
  case (Inl f)
  with assms(1,4) show ?thesis by (auto simp: redeem_def Let_def split: if_splits)
next
  case (Inr r)
  note red = assms(4) [unfolded Inr]
  have "int (uses_of s' (dc_id c)) \<le> n" if c: "c \<in> set (db_codes s)" "dc_max_uses c = Some n" for c n
  proof (cases "dc_id (dr_code res) = dc_id c")
    case True
    with assms(1,2) c have "c = dr_code res"
      by (metis code_row_unique limits_ok_def option.inject)
    with c assms(3) uses_of_redeem [OF red, of "dc_id c"] show ?thesis by auto
  next
    case False
    with uses_of_redeem [OF red, of "dc_id c"] c assms(1) show ?thesis
      by (simp add: limits_ok_def within_limits_def)
  qed
  moreover have "ids_ok s'"
    by (rule ids_ok_redeem [OF _ assms(2) red]) (use assms(1) in \<open>simp add: limits_ok_def\<close>)
  ultimately show ?thesis unfolding limits_ok_def within_limits_def redeem_frame [OF red] by blast
qed

lemma limits_ok_checkout:
  assumes "limits_ok s" "evaluate_code s g code customer order_total [] now = (Inr res, s1)"
    "redeem s1 res customer_id status rq a now = (out, s2)"
  shows "limits_ok s2"
proof (rule limits_ok_redeem [OF _ _ _ assms(3)])
  note ev = evaluate_code_InrD [OF assms(2)]
  show "limits_ok s1" using limits_ok_evaluate [OF assms(1), of g code customer order_total "[]" now] assms(2) by simp
  from find_codeD [OF ev(1)] have "dr_code res \<in> set (db_codes s)" by simp
  then show "dr_code res \<in> set (db_codes s1)" by (simp add: ev(2) release_stale_redemptions_def)
  show "int (uses_of s1 (dc_id (dr_code res))) < n" if "dc_max_uses (dr_code res) = Some n" for n
    using ev(3) that by (simp add: used_up_def)
qed

subsection \<open>Everything that can happen to the table\<close>

text \<open>
  \<open>discount_step\<close>: one request handled by the code. Bookings change in every way (their rows are
  replaced by any others), codes are created, a checkout evaluates and redeems a code under the row
  lock, and the operations of the redemption lifecycle run at any time on any booking.
\<close>

inductive discount_step :: "db \<Rightarrow> db \<Rightarrow> bool" where
  bookings: "discount_step s (s\<lparr>db_requests := rqs, db_appointments := aps\<rparr>)"
| created: "insert_code s row = Some (c, s') \<Longrightarrow> (\<And>n. dc_max_uses row = Some n \<Longrightarrow> 0 \<le> n) \<Longrightarrow> discount_step s s'"
| refused: "evaluate_code s g code customer order_total exclude now = (Inl f, s') \<Longrightarrow> discount_step s s'"
| checkout: "evaluate_code s g code customer order_total [] now = (Inr res, s1) \<Longrightarrow>
    redeem s1 res customer_id status rq a now = (out, s2) \<Longrightarrow> discount_step s s2"
| synced_request: "discount_step s (sync_booking_request_redemption s rq now)"
| bulk_expired: "discount_step s (release_for_booking_requests s ids now)"
| synced_appointment: "discount_step s (sync_appointment_redemption s ap now)"
| approved: "discount_step s (attach_redemption_to_appointment s rq a now)"
| removed: "discount_step s (release_appointment_discount s a now)"

inductive_cases discount_stepE: "discount_step s s'"

lemma limits_ok_bookings: "limits_ok (s\<lparr>db_requests := rqs, db_appointments := aps\<rparr>) = limits_ok s"
  by (simp add: limits_defs uses_of_def)

lemma limits_ok_insert_code:
  assumes "limits_ok s" "insert_code s row = Some (c, s')" "\<And>n. dc_max_uses row = Some n \<Longrightarrow> 0 \<le> n"
  shows "limits_ok s'"
proof -
  from assms(2) have c: "c = row\<lparr>dc_id := db_next s\<rparr>"
    and s': "s' = s\<lparr>db_codes := db_codes s @ [c], db_next := Suc (db_next s)\<rparr>"
    by (auto simp: insert_code_def Let_def fresh_id_def split: if_splits)
  have ids: "ids_ok s" and lim: "within_limits s" using assms(1) by (simp_all add: limits_ok_def)
  then have "ids_ok s'" unfolding s' c by (fastforce simp: ids_ok_def)
  moreover have "uses_of s' i = uses_of s i" for i by (simp add: s' uses_of_def)
  moreover have "uses_of s (dc_id c) = 0"
    using ids by (auto simp: c uses_of_def ids_ok_def filter_empty_conv)
  ultimately show ?thesis
    using lim assms(3) by (auto simp: limits_ok_def within_limits_def s' c)
qed

lemma limits_ok_step:
  assumes "discount_step s s'" "limits_ok s"
  shows "limits_ok s'"
  using assms(1)
proof cases
  case bookings
  with assms(2) show ?thesis by (simp add: limits_ok_bookings)
next
  case (created row c)
  then show ?thesis using limits_ok_insert_code [OF assms(2)] by blast
next
  case (refused g code customer order_total exclude now f)
  with limits_ok_evaluate [OF assms(2), of g code customer order_total exclude now] show ?thesis by simp
next
  case checkout
  then show ?thesis using limits_ok_checkout [OF assms(2)] by blast
next
  case (synced_request rq now)
  with request_sync.op_limits [OF assms(2), of "(rq, now)"] show ?thesis by simp
next
  case (bulk_expired ids now)
  with bulk_release.op_limits [OF assms(2), of "(ids, now)"] show ?thesis by simp
next
  case (synced_appointment ap now)
  with appointment_sync.op_limits [OF assms(2), of "(ap, now)"] show ?thesis by simp
next
  case (approved rq a now)
  with approval.op_limits [OF assms(2), of "(rq, a, now)"] show ?thesis by simp
next
  case (removed a now)
  with discount_removal.op_limits [OF assms(2), of "(a, now)"] show ?thesis by simp
qed

lemma limits_ok_steps: "discount_step\<^sup>*\<^sup>* s s' \<Longrightarrow> limits_ok s \<Longrightarrow> limits_ok s'"
  by (induction rule: rtranclp_induct) (auto intro: limits_ok_step)

subsection \<open>Lemmas for the properties\<close>

lemma compute_discount_bounds: "0 \<le> t \<Longrightarrow> 0 \<le> compute_discount t ty v \<and> compute_discount t ty v \<le> t"
  by (auto simp: compute_discount_def Let_def)

lemma filter_dropWhile: "(\<And>x. P x \<Longrightarrow> \<not> Q x) \<Longrightarrow> filter P (dropWhile Q xs) = filter P xs"
  by (induction xs) auto

lemma normalize_code_strip [simp]: "normalize_code (Some (strip_text t)) = normalize_code (Some t)"
proof -
  let ?P = "\<lambda>c. \<not> (is_space c \<or> c = CHR ''-'')"
  have drop: "filter ?P (dropWhile is_space u) = filter ?P u" for u by (rule filter_dropWhile) auto
  have "filter ?P (strip_text t) = filter ?P t"
    unfolding strip_text_def by (simp only: rev_filter [symmetric] drop rev_rev_ident)
  then show ?thesis unfolding normalize_code_def option.case by (rule arg_cong)
qed

lemma find_code_insert:
  assumes "insert_code s row = Some (c, s')" "is_valid_code (dc_normalized row)"
    "normalize_code raw = dc_normalized row" "dc_garage row = garage_id"
  shows "find_code s' garage_id raw = Some c"
proof -
  have c: "c = row\<lparr>dc_id := db_next s\<rparr>" "db_codes s' = db_codes s @ [c]"
    and fresh: "\<not> code_text_exists s garage_id (dc_normalized row)"
    using assms(1,4) by (auto simp: insert_code_def Let_def fresh_id_def split: if_splits)
  have "find (\<lambda>c. dc_garage c = garage_id \<and> dc_normalized c = dc_normalized row) (xs @ [c]) = Some c"
    if "\<not> list_ex (\<lambda>c. dc_garage c = garage_id \<and> dc_normalized c = dc_normalized row) xs" for xs
    using that assms(4) by (induction xs) (auto simp: c(1))
  with fresh have "find (\<lambda>c. dc_garage c = garage_id \<and> dc_normalized c = dc_normalized row) (db_codes s') = Some c"
    by (simp add: c(2) code_text_exists_def)
  with assms(2,3) show ?thesis by (simp add: find_code_def Let_def)
qed

lemma active_uses_released:
  "active_uses (release_stale_redemptions s c now) (dc_id c) exclude =
    filter (\<lambda>r. rd_code r = dc_id c \<and> redemption_active r \<and> rd_id r \<notin> set exclude \<and> \<not> redemption_is_dead s r)
      (db_redemptions s)"
proof -
  let ?f = "\<lambda>r. if rd_code r = dc_id c \<and> redemption_active r \<and> redemption_is_dead s r
      then set_status r RELEASED now else r"
  have "filter (\<lambda>r. rd_code r = dc_id c \<and> redemption_active r \<and> rd_id r \<notin> set exclude) (map ?f rs) =
      filter (\<lambda>r. rd_code r = dc_id c \<and> redemption_active r \<and> rd_id r \<notin> set exclude \<and> \<not> redemption_is_dead s r) rs"
    for rs by (induction rs) (auto simp: set_status_active)
  then show ?thesis by (simp add: active_uses_def release_stale_redemptions_def release_where_def)
qed

text \<open>A row put back unchanged leaves the table as it was.\<close>

lemma row_set_same: "distinct (map key rows) \<Longrightarrow> r \<in> set rows \<Longrightarrow> row_set key r rows = rows"
  unfolding row_set_def by (rule map_idI) (auto simp: distinct_map dest: inj_onD)

lemma put_redemption_same: "ids_ok s \<Longrightarrow> r \<in> set (db_redemptions s) \<Longrightarrow> put_redemption r s = s"
  by (simp add: put_redemption_def row_set_same ids_ok_def)

lemma find_row_set_same:
  assumes "find P rows = Some r" "key r' = key r" "P r'" "distinct (map key rows)"
  shows "find P (row_set key r' rows) = Some r'"
  using assms
proof (induction rows)
  case (Cons x rows)
  then show ?case
    by (cases "P x") (auto simp: row_set_def dest!: find_SomeD)
qed simp

lemma redemption_for_request_put:
  assumes "ids_ok s" "redemption_for_request s q = Some r" "rd_id r' = rd_id r" "rd_request r' = rd_request r"
  shows "redemption_for_request (put_redemption r' s) q = Some r'"
proof -
  have rev: "rev (row_set rd_id r' rows) = row_set rd_id r' (rev rows)" for rows
    by (simp add: row_set_def rev_map)
  have "rd_request r' = Some q" using redemption_for_requestD [OF assms(2)] assms(4) by simp
  with assms show ?thesis
    by (auto simp: redemption_for_request_def put_redemption_def rev ids_ok_def rev_map [symmetric]
        intro!: find_row_set_same)
qed

text \<open>The redemption status a request's status asks for.\<close>

definition wanted_status :: "request_status \<Rightarrow> redemption_status" where
  "wanted_status st = (if st = AWAITING_PAYMENT \<or> st = AWAITING_TERMS then RESERVED
     else if st = PENDING \<or> st = APPROVED then CONSUMED else RELEASED)"

lemma move_to_RELEASED: "move_to s r RELEASED now = put_redemption (set_status r RELEASED now) s"
  by (simp add: move_to_def)

lemma sync_request_eq:
  assumes "ds_code_id (rq_discount rq) \<noteq> None" "redemption_for_request s (rq_id rq) = Some r"
    "rd_appointment r = None"
  shows "sync_booking_request_redemption s rq now = move_to s r (wanted_status (rq_status rq)) now"
  using assms
  by (cases "rq_status rq")
    (auto simp: sync_booking_request_redemption_def wanted_status_def terminal_request_statuses_def
      move_to_RELEASED)

lemma sync_request_none:
  assumes "ds_code_id (rq_discount rq) = None \<or> redemption_for_request s (rq_id rq) = None
    \<or> (\<exists>r. redemption_for_request s (rq_id rq) = Some r \<and> rd_appointment r \<noteq> None)"
  shows "sync_booking_request_redemption s rq now = s"
  using assms by (auto simp: sync_booking_request_redemption_def)

lemma move_to_cases:
  assumes "ids_ok s" "r \<in> set (db_redemptions s)"
  obtains (refused) "move_to s r st now = s" "\<And>now'. move_to s r st now' = s"
  | (moved) "move_to s r st now = put_redemption (set_status r st now) s"
      "\<And>now'. move_to (put_redemption (set_status r st now) s) (set_status r st now) st now'
        = put_redemption (set_status r st now) s"
proof -
  let ?r = "set_status r st now" and ?s = "put_redemption (set_status r st now) s"
  have "rd_id ?r \<in> rd_id ` set (db_redemptions s)" using assms(2) by simp
  from set_row_set [OF this] have "?r \<in> set (db_redemptions ?s)" by (simp add: put_redemption_def)
  moreover have "ids_ok ?s" by (rule ids_ok_put [OF assms]) simp_all
  ultimately have same: "put_redemption ?r ?s = ?s" by (rule put_redemption_same [rotated])
  have "move_to ?s ?r st now' = put_redemption (set_status ?r st now') ?s" for now'
    by (cases st) (simp_all add: move_to_def)
  moreover have "set_status ?r st now' = ?r" for now' by (simp add: set_status_def [of ?r])
  ultimately have again: "move_to ?s ?r st now' = ?s" for now' using same by simp
  consider "\<And>now. move_to s r st now = s" | "move_to s r st now = ?s" unfolding move_to_def by metis
  then show ?thesis using refused moved again by cases blast+
qed

lemma sync_request_idem:
  assumes "ids_ok s"
  shows "sync_booking_request_redemption (sync_booking_request_redemption s rq now) rq now'
    = sync_booking_request_redemption s rq now"
proof (cases "ds_code_id (rq_discount rq) = None \<or> redemption_for_request s (rq_id rq) = None
    \<or> (\<exists>r. redemption_for_request s (rq_id rq) = Some r \<and> rd_appointment r \<noteq> None)")
  case True
  then show ?thesis by (simp only: sync_request_none)
next
  case False
  then obtain r where r: "redemption_for_request s (rq_id rq) = Some r" "rd_appointment r = None"
    and c: "ds_code_id (rq_discount rq) \<noteq> None" by auto
  let ?st = "wanted_status (rq_status rq)"
  note eq = sync_request_eq [OF c r]
  from redemption_for_requestD [OF r(1)] have mem: "r \<in> set (db_redemptions s)" by simp
  show ?thesis
  proof (cases rule: move_to_cases [OF assms mem, of ?st now])
    case 1
    then show ?thesis by (simp only: eq)
  next
    case 2
    have "redemption_for_request (put_redemption (set_status r ?st now) s) (rq_id rq) = Some (set_status r ?st now)"
      by (rule redemption_for_request_put [OF assms r(1)]) simp_all
    from sync_request_eq [OF c this] r(2) 2 show ?thesis by (simp only: eq set_status_frame)
  qed
qed

subsection \<open>Properties\<close>

text \<open>
  C5: The use limit of a discount code is never exceeded: whatever sequence of checkouts, approvals,
  expiries, cancellations, reactivations and code creations is handled, the uses counted against a
  code with a limit stay within it.
\<close>

theorem use_limit_never_exceeded:
  assumes "discount_step\<^sup>*\<^sup>* s s'" "limits_ok s" "c \<in> set (db_codes s')" "dc_max_uses c = Some n"
  shows "code_uses s' c \<le> n"
  using limits_ok_steps [OF assms(1,2)] assms(3,4)
  by (auto simp: limits_ok_def within_limits_def code_uses_uses_of)

definition demo_code :: discount_code where
  "demo_code = \<lparr>dc_id = 3, dc_garage = 2, dc_code = ''SUMMER-10'', dc_normalized = ''SUMMER10'',
     dc_source = SOURCE_MANUAL, dc_type = ''PERCENTAGE'', dc_value = 1000, dc_status = CODE_ACTIVE,
     dc_customer = None, dc_valid_from = None, dc_expires = None, dc_max_uses = Some 1,
     dc_max_per_customer = None, dc_visit = None, dc_for_appointment = None\<rparr>"

definition demo_shop :: db where
  "demo_shop = \<lparr>db_garages = [], db_employees = [], db_types = [], db_add_ons = [], db_sections = [], db_statuses = [], db_appointments = [], db_requests = [],
     db_windows = [], db_customers = [], db_vehicles = [], db_codes = [demo_code], db_redemptions = [],
     db_payments = [], db_webhooks = [], db_queue = [], db_queue_settings = [], db_terms = [], db_loyalty = [],
     db_events = [], db_calls = [], db_next = 4\<rparr>"

lemma demo_shop_ok: "limits_ok demo_shop"
  by (simp add: demo_shop_def demo_code_def limits_defs uses_of_def)

definition demo_result :: discount_result where
  "demo_result = \<lparr>dr_code = demo_code, dr_original_total = 5000, dr_discount_amount = 500, dr_new_total = 4500\<rparr>"

definition demo_business :: garage where
  "demo_business = \<lparr>g_id = 2, g_zone = \<lparr>tz_base = 0, tz_transitions = []\<rparr>, g_schedule = None,
     g_hours = [], g_exceptions = [], g_auto_accept = True, g_auto_accept_enabled = True,
     g_terms = None, g_terms_version = None\<rparr>"

lemma demo_find: "find_code demo_shop 2 (Some ''summer 10'') = Some demo_code"
  by (simp add: find_code_def normalize_code_def is_valid_code_def code_char_def text_eval
      demo_shop_def demo_code_def Let_def)

lemma demo_release: "release_stale_redemptions demo_shop demo_code now = demo_shop"
  by (simp add: release_stale_redemptions_def release_where_def demo_shop_def)

lemma demo_evaluate:
  "evaluate_code demo_shop demo_business (Some ''summer 10'') None (Some 5000) [] 0 = (Inr demo_result, demo_shop)"
  by (simp add: evaluate_code_def demo_find demo_release demo_business_def Let_def evaluate_checks
      active_uses_def compute_discount_def eval_simps demo_result_def)
    (simp add: demo_shop_def demo_code_def)

theorem use_limit_never_exceeded_witness:
  "\<exists>s' c. discount_step\<^sup>*\<^sup>* demo_shop s' \<and> c \<in> set (db_codes s') \<and> code_uses s' c = 1
     \<and> code_uses s' c \<le> 1"
proof -
  obtain out s' where red: "redeem demo_shop demo_result None CONSUMED (Some 9) None 0 = (out, s')" by fastforce
  then have s': "db_codes s' = [demo_code]" "code_uses s' demo_code = 1"
    by (auto simp: redeem_def Let_def single_use_taken_def code_uses_def active_uses_def
        redemption_active_def demo_shop_def demo_result_def demo_code_def fresh_id_def)
  from discount_step.checkout [OF demo_evaluate red] have step: "discount_step\<^sup>*\<^sup>* demo_shop s'" by blast
  have c: "demo_code \<in> set (db_codes s')" "dc_max_uses demo_code = Some 1"
    by (simp_all add: s'(1) demo_code_def)
  from use_limit_never_exceeded [OF step demo_shop_ok c] step s' show ?thesis by auto
qed

text \<open>
  A code is accepted exactly when every check passes - a positive total, a code of this business
  with that spelling, switched on, inside its dates, the right customer, and uses left counting live
  bookings only - and it is then worth an amount between nothing and the total; the new total is
  what remains.
\<close>

theorem code_accepted_iff:
  "((\<exists>res. fst (evaluate_code s g code customer (Some t) exclude now) = Inr res) \<longleftrightarrow>
     (\<exists>c. 0 < t \<and> find_code s (g_id g) code = Some c \<and> dc_status c = CODE_ACTIVE
        \<and> \<not> not_yet_valid c now \<and> \<not> code_expired c now \<and> \<not> wrong_customer c customer
        \<and> (let live = filter (\<lambda>r. rd_code r = dc_id c \<and> redemption_active r \<and> rd_id r \<notin> set exclude
                             \<and> \<not> redemption_is_dead s r) (db_redemptions s)
            in \<not> used_up c live \<and> \<not> customer_limit_reached c customer live)))
   \<and> (case fst (evaluate_code s g code customer (Some t) exclude now) of
        Inl f \<Rightarrow> True
      | Inr res \<Rightarrow> 0 \<le> dr_discount_amount res \<and> dr_discount_amount res \<le> t
          \<and> dr_new_total res = t - dr_discount_amount res)"
proof -
  have acc: "(\<exists>res. fst (evaluate_code s g code customer (Some t) exclude now) = Inr res) \<longleftrightarrow>
      (\<exists>c. code_applies s g code customer t exclude now c)"
    using evaluate_code_Inr_iff [of s g code customer "Some t" exclude now] by (metis fst_conv option.inject prod.collapse)
  have "case fst (evaluate_code s g code customer (Some t) exclude now) of
        Inl f \<Rightarrow> True
      | Inr res \<Rightarrow> 0 \<le> dr_discount_amount res \<and> dr_discount_amount res \<le> t
          \<and> dr_new_total res = t - dr_discount_amount res"
  proof (cases "fst (evaluate_code s g code customer (Some t) exclude now)")
    case (Inr res)
    then have "evaluate_code s g code customer (Some t) exclude now
        = (Inr res, snd (evaluate_code s g code customer (Some t) exclude now))" by (simp add: prod_eq_iff)
    then obtain c where "0 < t" "res = \<lparr>dr_code = c, dr_original_total = t,
        dr_discount_amount = compute_discount t (dc_type c) (dc_value c),
        dr_new_total = t - compute_discount t (dc_type c) (dc_value c)\<rparr>"
      unfolding evaluate_code_Inr_iff code_applies_def by auto
    with Inr compute_discount_bounds [of t "dc_type c" "dc_value c"] show ?thesis by simp
  qed simp
  moreover have "code_applies s g code customer t exclude now c \<longleftrightarrow>
      0 < t \<and> find_code s (g_id g) code = Some c \<and> dc_status c = CODE_ACTIVE
        \<and> \<not> not_yet_valid c now \<and> \<not> code_expired c now \<and> \<not> wrong_customer c customer
        \<and> (let live = filter (\<lambda>r. rd_code r = dc_id c \<and> redemption_active r \<and> rd_id r \<notin> set exclude
                             \<and> \<not> redemption_is_dead s r) (db_redemptions s)
            in \<not> used_up c live \<and> \<not> customer_limit_reached c customer live)" for c
    by (simp add: code_applies_def active_uses_released Let_def)
  ultimately show ?thesis unfolding acc by blast
qed

text \<open>
  A promo code created from a typed text is found by every spelling of that text - other case,
  inner spaces, other dashes - and a second code with such a spelling is refused with a conflict.
\<close>

theorem created_code_found_by_any_spelling:
  assumes "create_manual_code s garage_id (Some txt) ty v vf ex mu mpc draws = (Inr c, s')"
    "strip_text txt \<noteq> []" "normalize_code raw = normalize_code (Some txt)"
  shows "find_code s' garage_id raw = Some c
    \<and> fst (create_manual_code s' garage_id raw ty v vf ex mu mpc draws) = Inl (Abort 409 ''code'')"
proof -
  let ?row = "\<lparr>dc_id = 0, dc_garage = garage_id, dc_code = display_code (strip_text txt),
      dc_normalized = normalize_code (Some txt), dc_source = SOURCE_MANUAL, dc_type = ty, dc_value = v,
      dc_status = CODE_ACTIVE, dc_customer = None, dc_valid_from = vf, dc_expires = ex, dc_max_uses = mu,
      dc_max_per_customer = mpc, dc_visit = None, dc_for_appointment = None\<rparr>"
  from assms(1,2) have ins: "insert_code s ?row = Some (c, s')"
    and valid: "is_valid_code (normalize_code (Some txt))"
    and val: "validate_discount (Some ty) (Some (v, 2)) = Inr ()"
    by (auto simp: create_manual_code_def Let_def split: sum.splits if_splits option.splits)
  from find_code_insert [OF ins, of raw garage_id] valid assms(3)
  have found: "find_code s' garage_id raw = Some c" by simp
  obtain r where r: "raw = Some r" "strip_text r \<noteq> []"
  proof (cases raw)
    case None
    with valid assms(3) show ?thesis by (simp add: normalize_code_def is_valid_code_def)
  next
    case (Some r)
    have "strip_text r \<noteq> []"
    proof
      assume "strip_text r = []"
      then have "normalize_code (Some r) = []" using normalize_code_strip [of r] by (simp add: normalize_code_def)
      with valid assms(3) Some show False by (simp add: is_valid_code_def)
    qed
    with Some that show ?thesis by blast
  qed
  have "code_text_exists s' garage_id (normalize_code (Some r))"
    using find_codeD [OF found] r(1) by (auto simp: code_text_exists_def list_ex_iff)
  then have "fst (create_manual_code s' garage_id raw ty v vf ex mu mpc draws) = Inl (Abort 409 ''code'')"
    using r valid val assms(3)
    by (simp add: create_manual_code_def insert_code_def Let_def)
  with found show ?thesis by simp
qed

theorem created_code_found_by_any_spelling_witness:
  "\<exists>c s'. create_manual_code (demo_shop\<lparr>db_codes := []\<rparr>) 2 (Some ''summer-10'') ''PERCENTAGE'' 1000 None None
       None None [] = (Inr c, s')
     \<and> find_code s' 2 (Some ''SUM mer10'') = Some c"
proof -
  have "\<exists>c s'. create_manual_code (demo_shop\<lparr>db_codes := []\<rparr>) 2 (Some ''summer-10'') ''PERCENTAGE'' 1000 None None
       None None [] = (Inr c, s')"
    by (simp add: create_manual_code_def Let_def validate_discount_def insert_code_def code_text_exists_def
        milestone_exists_def normalize_code_def is_valid_code_def code_char_def text_eval demo_shop_def)
  then obtain c s' where cr: "create_manual_code (demo_shop\<lparr>db_codes := []\<rparr>) 2 (Some ''summer-10'')
       ''PERCENTAGE'' 1000 None None None None [] = (Inr c, s')" by blast
  have "find_code s' 2 (Some ''SUM mer10'') = Some c
      \<and> fst (create_manual_code s' 2 (Some ''SUM mer10'') ''PERCENTAGE'' 1000 None None None None [])
        = Inl (Abort 409 ''code'')"
    by (rule created_code_found_by_any_spelling [OF cr]) (simp_all add: text_eval normalize_code_def)
  with cr show ?thesis by blast
qed

text \<open>
  Bringing a request's redemption in line with its status can be repeated without effect: a
  second sync at any later time changes nothing, whether the first one moved the redemption or
  refused to bring a released use back to life.
\<close>

theorem request_sync_idempotent:
  assumes "limits_ok s"
  shows "sync_booking_request_redemption (sync_booking_request_redemption s rq now) rq now'
    = sync_booking_request_redemption s rq now"
  by (rule sync_request_idem) (use assms in \<open>simp add: limits_ok_def\<close>)

theorem request_sync_idempotent_witness:
  "\<forall>rq. sync_booking_request_redemption (sync_booking_request_redemption demo_shop rq 5) rq 6
    = sync_booking_request_redemption demo_shop rq 5"
  using request_sync_idempotent [OF demo_shop_ok] by blast

text \<open>
  The e-mail lookup passes the address to \<open>ILIKE\<close> as a pattern: an underscore or a percent sign in
  it is a wildcard, so an address can resolve to the customer with a different one.
\<close>

lemma email_lookup_wildcard:
  assumes "db_customers s = [c]" "cu_garage c = g" "cu_email c = Some ''jane.doe@mail.uk''"
  shows "find_customer_by_email s g (Some ''jane_doe@mail.uk'') = Some c
    \<and> find_customer_by_email s g (Some ''%@mail.uk'') = Some c"
  using assms by (simp add: find_customer_by_email_def ilike_def text_eval)

subsection \<open>Only the redemptions change\<close>

lemma evaluate_code_frame:
  assumes "evaluate_code s g code customer order_total exclude now = (r, s')"
  shows "\<exists>rds. s' = s\<lparr>db_redemptions := rds\<rparr>"
proof -
  have keep: "\<exists>rds. s = s\<lparr>db_redemptions := rds\<rparr>" by (rule exI [of _ "db_redemptions s"]) simp
  show ?thesis
    using assms keep unfolding evaluate_code_def Let_def release_stale_redemptions_def release_where_def
    by (auto split: option.splits if_splits)
qed

lemma move_to_redemptions: "\<exists>rds. move_to s r st now = s\<lparr>db_redemptions := rds\<rparr>"
proof -
  have "s = s\<lparr>db_redemptions := db_redemptions s\<rparr>" by simp
  then show ?thesis unfolding move_to_def put_redemption_def by metis
qed

lemma sync_request_redemptions: "\<exists>rds. sync_booking_request_redemption s rq now = s\<lparr>db_redemptions := rds\<rparr>"
proof -
  have keep: "\<exists>rds. s = s\<lparr>db_redemptions := rds\<rparr>" by (rule exI [of _ "db_redemptions s"]) simp
  show ?thesis
    unfolding sync_booking_request_redemption_def
    using keep move_to_redemptions [of s] by (auto simp: put_redemption_def split: option.split)
qed

lemma attach_redemptions: "\<exists>rds. attach_redemption_to_appointment s rq a now = s\<lparr>db_redemptions := rds\<rparr>"
proof -
  have keep: "\<exists>rds. s = s\<lparr>db_redemptions := rds\<rparr>" by (rule exI [of _ "db_redemptions s"]) simp
  have "\<exists>rds. move_to (put_redemption r' s) r' CONSUMED now = s\<lparr>db_redemptions := rds\<rparr>" for r'
    using move_to_redemptions [of "put_redemption r' s" r' CONSUMED now] by (auto simp: put_redemption_def)
  with keep show ?thesis by (auto simp: attach_redemption_to_appointment_def Let_def split: option.split)
qed

lemma sync_appointment_redemptions: "\<exists>rds. sync_appointment_redemption s ap now = s\<lparr>db_redemptions := rds\<rparr>"
proof -
  have keep: "\<exists>rds. s = s\<lparr>db_redemptions := rds\<rparr>" by (rule exI [of _ "db_redemptions s"]) simp
  show ?thesis
    unfolding sync_appointment_redemption_def
    using keep move_to_redemptions [of s] by (auto simp: put_redemption_def split: option.split)
qed

lemma release_appointment_redemptions: "\<exists>rds. release_appointment_discount s i now = s\<lparr>db_redemptions := rds\<rparr>"
proof -
  have keep: "\<exists>rds. s = s\<lparr>db_redemptions := rds\<rparr>" by (rule exI [of _ "db_redemptions s"]) simp
  show ?thesis
    unfolding release_appointment_discount_def using keep by (auto simp: put_redemption_def split: option.split)
qed

end
