(* ===== verification/Payments.thy ===== *)
theory Payments
  imports Availability Discounts
begin

text \<open>
  Deposit payments, \<open>app/payments/service.py\<close>: the hold taken at checkout, the token submission of
  two-phase providers, the expiry sweep, the customer's own abandonment, reconciliation with the
  provider's live status, refunds, and the webhook handlers. A payment provider is not part of the
  repository: its answers are the functions of \<open>payment_provider\<close>, \<open>None\<close> standing for a raised
  \<open>PaymentProviderError\<close>; the calls the code makes are logged in \<open>db_calls\<close>. Audit rows and log
  lines are not modelled. Row locks make each operation one step; \<open>created_at\<close> order is table order.
\<close>

record payment_provider =
  pv_two_phase :: bool
  pv_create :: "uid \<Rightarrow> pence \<Rightarrow> (string option \<times> payment_status) option"
  pv_charge :: "uid \<Rightarrow> pence \<Rightarrow> string \<Rightarrow> (string option \<times> payment_status) option"
  pv_live :: "string \<Rightarrow> payment_status option"
  pv_refund :: "uid \<Rightarrow> string \<Rightarrow> pence \<Rightarrow> (string \<times> payment_status \<times> pence) option"

text \<open>\<open>get_provider(payment.provider, ...)\<close>: the adapter by name.\<close>

type_synonym providers = "string \<Rightarrow> payment_provider"

datatype payment_error =
  Payment_unavailable
| Assertion_error
| Deposit_config deposit_config_error
| Provider_error
| Submission_error string
| Hold_not_abandonable string

definition PAYMENT_STATUSES_CHARGED :: "payment_status list" where
  "PAYMENT_STATUSES_CHARGED = [P_SUCCEEDED, P_REFUND_PENDING, P_PARTIALLY_REFUNDED, P_REFUND_FAILED]"

definition payment_hold_deadline :: "instant \<Rightarrow> int \<Rightarrow> instant" where
  "payment_hold_deadline now hold_minutes = now + hold_minutes * minute_us"

definition truthy :: "string option \<Rightarrow> bool" where
  "truthy t \<longleftrightarrow> t \<noteq> None \<and> t \<noteq> Some []"

definition log_call :: "provider_call \<Rightarrow> db \<Rightarrow> db" where
  "log_call c s = s\<lparr>db_calls := db_calls s @ [c]\<rparr>"

text \<open>\<open>_locked_active_payment\<close>, also the property \<open>BookingRequest.active_payment\<close>.\<close>

definition payments_of :: "db \<Rightarrow> booking_request \<Rightarrow> payment list" where
  "payments_of s rq =
     filter (\<lambda>p. pay_request p = rq_id rq \<and> pay_garage p = rq_garage rq) (db_payments s)"

definition locked_active_payment :: "db \<Rightarrow> booking_request \<Rightarrow> payment option" where
  "locked_active_payment s rq =
     (let payments = payments_of s rq;
          live = filter (\<lambda>p. pay_status p \<noteq> P_CANCELLED \<and> pay_status p \<noteq> P_FAILED) payments
      in if live \<noteq> [] then Some (last live) else if payments \<noteq> [] then Some (last payments) else None)"

subsection \<open>Taking the hold\<close>

definition new_payment :: "db \<Rightarrow> uid \<Rightarrow> uid \<Rightarrow> string \<Rightarrow> string option \<Rightarrow> pence \<Rightarrow> payment" where
  "new_payment s garage_id request_id provider account amount =
     \<lparr>pay_id = fresh_id s, pay_garage = garage_id, pay_request = request_id, pay_provider = provider,
      pay_provider_id = None, pay_account = account, pay_amount = amount, pay_status = P_REQUIRES_PAYMENT,
      pay_paid_at = None, pay_failed_at = None, pay_cancelled_at = None, pay_refund_requested_at = None,
      pay_refund_id = None, pay_refunded_amount = None, pay_refunded_at = None, pay_refund_failed_at = None\<rparr>"

definition insert_payment :: "payment \<Rightarrow> db \<Rightarrow> db" where
  "insert_payment p s = s\<lparr>db_payments := db_payments s @ [p], db_next := Suc (db_next s)\<rparr>"

definition deposit_amount :: "appointment_type \<Rightarrow> booking_request \<Rightarrow> payment_error + pence" where
  "deposit_amount ty rq =
     (case (ty_deposit_type ty, ty_deposit_value ty) of
        (Some dt, Some dv) \<Rightarrow>
          let service_total = (case rq_price rq of Some p \<Rightarrow> Some p | None \<Rightarrow> ty_base_price ty)
          in (case calculate_deposit_minor dt dv service_total of
                Inl e \<Rightarrow> Inl (Deposit_config e)
              | Inr amount0 \<Rightarrow>
                  let amount = (case service_total of Some p \<Rightarrow> min amount0 p | None \<Rightarrow> amount0)
                  in if amount \<le> 0 then Inl (Deposit_config Deposit_total_too_low) else Inr amount)
      | _ \<Rightarrow> Inl Assertion_error)"

definition create_deposit_hold ::
  "db \<Rightarrow> garage \<Rightarrow> appointment_type \<Rightarrow> booking_request \<Rightarrow> providers \<Rightarrow> string \<Rightarrow> bool \<Rightarrow> bool
     \<Rightarrow> string option \<Rightarrow> instant \<Rightarrow> (payment_error + payment \<times> (string option \<times> payment_status)) \<times> db"
where
  "create_deposit_hold s g ty rq pvs provider_name enabled configured account now =
     (if \<not> enabled \<or> \<not> configured then (Inl Payment_unavailable, s)
      else case deposit_amount ty rq of
        Inl e \<Rightarrow> (Inl e, s)
      | Inr amount \<Rightarrow>
          let payment = new_payment s (g_id g) (rq_id rq) provider_name account amount;
              s1 = log_call (CALL_CREATE (pay_id payment)) (insert_payment payment s)
          in (case pv_create (pvs provider_name) (pay_id payment) amount of
                None \<Rightarrow> (Inl Provider_error,
                  put_payment (payment\<lparr>pay_status := P_FAILED, pay_failed_at := Some now\<rparr>) s1)
              | Some session \<Rightarrow>
                  let payment' = payment\<lparr>pay_provider_id := fst session, pay_status := snd session\<rparr>
                  in (Inr (payment', session), put_payment payment' s1)))"

definition resume_payment_session ::
  "db \<Rightarrow> payment \<Rightarrow> providers \<Rightarrow> (payment_error + (string option \<times> payment_status) option) \<times> db"
where
  "resume_payment_session s payment pvs =
     (let provider = pvs (pay_provider payment)
      in if truthy (pay_provider_id payment) then
           (case pv_live provider (the (pay_provider_id payment)) of
              None \<Rightarrow> (Inl Provider_error, s)
            | Some st \<Rightarrow> (Inr (Some (pay_provider_id payment, st)), s))
         else if pv_two_phase provider \<and> pay_status payment = P_REQUIRES_PAYMENT then
           (case pv_create provider (pay_id payment) (pay_amount payment) of
              None \<Rightarrow> (Inl Provider_error, log_call (CALL_CREATE (pay_id payment)) s)
            | Some session \<Rightarrow> (Inr (Some session), log_call (CALL_CREATE (pay_id payment)) s))
         else (Inr None, s))"

subsection \<open>Submitting a card token\<close>

definition charge_attempt ::
  "db \<Rightarrow> payment \<Rightarrow> providers \<Rightarrow> string \<Rightarrow> instant \<Rightarrow> (payment_error + payment) \<times> db"
where
  "charge_attempt s payment pvs source_id now =
     (let s1 = log_call (CALL_CHARGE (pay_id payment)) s
      in case pv_charge (pvs (pay_provider payment)) (pay_id payment) (pay_amount payment) source_id of
           None \<Rightarrow> (Inl Provider_error,
             put_payment (payment\<lparr>pay_status := P_FAILED, pay_failed_at := Some now\<rparr>) s1)
         | Some session \<Rightarrow>
             let payment' = payment\<lparr>pay_provider_id := fst session,
                   pay_status := (if snd session = P_FAILED then P_FAILED else P_PENDING)\<rparr>
             in (Inr payment', put_payment payment' s1))"

definition submit_client_payment_token ::
  "db \<Rightarrow> booking_request \<Rightarrow> providers \<Rightarrow> string \<Rightarrow> instant \<Rightarrow> (payment_error + payment) \<times> db"
where
  "submit_client_payment_token s locked pvs source_id now =
     (case locked_active_payment s locked of
        None \<Rightarrow> (Inl (Submission_error ''no_payment''), s)
      | Some payment \<Rightarrow>
          if \<not> pv_two_phase (pvs (pay_provider payment)) then
            (Inl (Submission_error ''not_token_based''), s)
          else if truthy (pay_provider_id payment) \<and> pay_status payment \<noteq> P_FAILED then (Inr payment, s)
          else if rq_status locked \<noteq> AWAITING_PAYMENT then
            (Inl (Submission_error ''not_awaiting_payment''), s)
          else if (case rq_hold_expires locked of None \<Rightarrow> False | Some e \<Rightarrow> e < now) then
            (Inl (Submission_error ''hold_expired''), s)
          else if pay_status payment = P_FAILED \<or> pay_status payment = P_CANCELLED then
            let fresh = new_payment s (pay_garage payment) (pay_request payment) (pay_provider payment)
                  (pay_account payment) (pay_amount payment)
            in charge_attempt (insert_payment fresh s) fresh pvs source_id now
          else charge_attempt s payment pvs source_id now)"

subsection \<open>Reconciling with the provider\<close>

text \<open>The request leaves the hold as a normal, staff-visible request.\<close>

definition confirm_request :: "db \<Rightarrow> booking_request \<Rightarrow> instant \<Rightarrow> db" where
  "confirm_request s rq now =
     (let rq' = rq\<lparr>rq_status := PENDING, rq_hold_expires := None\<rparr>
      in sync_booking_request_redemption (put_request rq' s) rq' now)"

text \<open>
  \<open>_reconcile_if_already_succeeded\<close> returns whether it succeeded, the requests to notify about, and
  the database.
\<close>

definition reconcile_if_already_succeeded ::
  "db \<Rightarrow> booking_request \<Rightarrow> payment \<Rightarrow> providers \<Rightarrow> instant \<Rightarrow> bool \<times> uid list \<times> db"
where
  "reconcile_if_already_succeeded s rq payment pvs now =
     (if pay_status payment = P_SUCCEEDED then (True, [], confirm_request s rq now)
      else if (pay_status payment \<noteq> P_REQUIRES_PAYMENT \<and> pay_status payment \<noteq> P_PENDING)
        \<or> \<not> truthy (pay_provider_id payment) then (False, [], s)
      else case pv_live (pvs (pay_provider payment)) (the (pay_provider_id payment)) of
        None \<Rightarrow> (False, [], s)
      | Some live \<Rightarrow>
          if live \<noteq> P_SUCCEEDED then (False, [], s)
          else (True, [rq_id rq],
                confirm_request
                  (put_payment (payment\<lparr>pay_status := P_SUCCEEDED, pay_paid_at := Some now\<rparr>) s) rq now))"

definition emit_created :: "uid list \<Rightarrow> db \<Rightarrow> db" where
  "emit_created ids s = fold (\<lambda>i. emit (BOOKING_REQUEST_CREATED i)) ids s"

subsection \<open>The expiry sweep\<close>

definition HOLD_STATUSES :: "request_status list" where
  "HOLD_STATUSES = [AWAITING_PAYMENT, AWAITING_TERMS]"

definition stale_hold :: "instant \<Rightarrow> booking_request \<Rightarrow> bool" where
  "stale_hold now rq \<longleftrightarrow> rq_status rq \<in> set HOLD_STATUSES
     \<and> (case rq_hold_expires rq of None \<Rightarrow> False | Some e \<Rightarrow> e < now)"

definition expire_request :: "db \<Rightarrow> booking_request \<Rightarrow> instant \<Rightarrow> db" where
  "expire_request s rq now =
     (let rq' = rq\<lparr>rq_status := EXPIRED, rq_hold_expires := None\<rparr>
      in sync_booking_request_redemption (put_request rq' s) rq' now)"

text \<open>A failing \<open>cancel_payment\<close> is only logged: the row is cancelled either way.\<close>

definition cancel_attempt :: "db \<Rightarrow> payment \<Rightarrow> instant \<Rightarrow> db" where
  "cancel_attempt s payment now =
     put_payment (payment\<lparr>pay_status := P_CANCELLED, pay_cancelled_at := Some now\<rparr>)
       (if truthy (pay_provider_id payment) then log_call (CALL_CANCEL (pay_id payment)) s else s)"

definition expire_one ::
  "providers \<Rightarrow> instant \<Rightarrow> uid \<Rightarrow> int \<times> uid list \<times> db \<Rightarrow> int \<times> uid list \<times> db"
where
  "expire_one pvs now request_id = (\<lambda>(n, notes, s).
     case row_find rq_id request_id (db_requests s) of
       None \<Rightarrow> (n, notes, s)
     | Some rq \<Rightarrow>
         if \<not> stale_hold now rq then (n, notes, s)
         else if rq_status rq = AWAITING_TERMS then (n + 1, notes, expire_request s rq now)
         else case locked_active_payment s rq of
           None \<Rightarrow> (n + 1, notes, expire_request s rq now)
         | Some payment \<Rightarrow>
             (case reconcile_if_already_succeeded s rq payment pvs now of
                (True, created, s') \<Rightarrow> (n, notes @ created, s')
              | (False, created, s') \<Rightarrow>
                  (n + 1, notes,
                   if pay_status payment = P_REQUIRES_PAYMENT \<or> pay_status payment = P_PENDING
                   then cancel_attempt (expire_request s' rq now) payment now
                   else expire_request s' rq now)))"

definition stale_ids :: "db \<Rightarrow> uid option \<Rightarrow> instant \<Rightarrow> uid list" where
  "stale_ids s garage_id now =
     map rq_id (filter (\<lambda>rq. stale_hold now rq
       \<and> (case garage_id of None \<Rightarrow> True | Some g \<Rightarrow> rq_garage rq = g)) (db_requests s))"

definition expire_stale_payment_holds :: "db \<Rightarrow> uid option \<Rightarrow> providers \<Rightarrow> instant \<Rightarrow> int \<times> db" where
  "expire_stale_payment_holds s garage_id pvs now =
     (let ids = stale_ids s garage_id now
      in if ids = [] then (0, s)
         else case fold (expire_one pvs now) ids (0, [], s) of
                (n, notes, s') \<Rightarrow> (n, emit_created notes s'))"

subsection \<open>Abandoning, recovering, polling\<close>

definition abandon_public_hold ::
  "db \<Rightarrow> booking_request \<Rightarrow> providers \<Rightarrow> instant \<Rightarrow> (payment_error + unit) \<times> db"
where
  "abandon_public_hold s locked pvs now =
     (if rq_status locked \<noteq> AWAITING_PAYMENT then (Inl (Hold_not_abandonable ''not_awaiting_payment''), s)
      else case locked_active_payment s locked of
        None \<Rightarrow> (Inr (), expire_request s locked now)
      | Some payment \<Rightarrow>
          (case reconcile_if_already_succeeded s locked payment pvs now of
             (True, notes, s') \<Rightarrow> (Inl (Hold_not_abandonable ''already_paid''), emit_created notes s')
           | (False, notes, s') \<Rightarrow>
               if pay_status payment = P_PENDING then
                 (Inl (Hold_not_abandonable ''payment_in_progress''), s')
               else
                 let s1 = expire_request s' locked now
                 in (Inr (), if pay_status payment = P_REQUIRES_PAYMENT
                             then cancel_attempt s1 payment now else s1)))"

definition reconcile_public_payment_recovery :: "db \<Rightarrow> booking_request \<Rightarrow> providers \<Rightarrow> instant \<Rightarrow> db" where
  "reconcile_public_payment_recovery s locked pvs now =
     (case locked_active_payment s locked of
        None \<Rightarrow> s
      | Some payment \<Rightarrow>
          (case reconcile_if_already_succeeded s locked payment pvs now of
             (True, notes, s') \<Rightarrow> emit_created notes s'
           | (False, notes, s') \<Rightarrow> s'))"

text \<open>
  \<open>reconcile_submitted_payment\<close>: the unlocked check and the re-check under the lock read the same
  rows here.
\<close>

definition reconcile_submitted_payment :: "db \<Rightarrow> booking_request \<Rightarrow> providers \<Rightarrow> instant \<Rightarrow> db" where
  "reconcile_submitted_payment s rq pvs now =
     (case locked_active_payment s rq of
        None \<Rightarrow> s
      | Some payment \<Rightarrow>
          if pay_status payment \<noteq> P_PENDING \<or> \<not> truthy (pay_provider_id payment)
             \<or> rq_status rq \<noteq> AWAITING_PAYMENT \<or> \<not> pv_two_phase (pvs (pay_provider payment))
          then s
          else case pv_live (pvs (pay_provider payment)) (the (pay_provider_id payment)) of
            None \<Rightarrow> s
          | Some live \<Rightarrow>
              if live = P_SUCCEEDED then
                (case reconcile_if_already_succeeded s rq payment pvs now of
                   (b, notes, s') \<Rightarrow> emit_created notes s')
              else if live = P_FAILED then
                put_payment (payment\<lparr>pay_status := P_FAILED, pay_failed_at := Some now\<rparr>) s
              else if live = P_CANCELLED then
                put_payment (payment\<lparr>pay_status := P_CANCELLED, pay_cancelled_at := Some now\<rparr>) s
              else s)"

subsection \<open>Refunds\<close>

definition refund_deposit ::
  "db \<Rightarrow> booking_request \<Rightarrow> providers \<Rightarrow> instant \<Rightarrow> (payment_error + payment option) \<times> db"
where
  "refund_deposit s rq pvs now =
     (case locked_active_payment s rq of
        None \<Rightarrow> (Inr None, s)
      | Some payment \<Rightarrow>
          if pay_status payment \<notin> set PAYMENT_STATUSES_CHARGED then (Inr None, s)
          else if pay_status payment \<noteq> P_SUCCEEDED then (Inr (Some payment), s)
          else case pay_provider_id payment of
            None \<Rightarrow> (Inl Assertion_error, s)
          | Some provider_id \<Rightarrow>
              let p1 = payment\<lparr>pay_status := P_REFUND_PENDING, pay_refund_requested_at := Some now\<rparr>;
                  s1 = log_call (CALL_REFUND (pay_id payment)) s
              in (case pv_refund (pvs (pay_provider payment)) (pay_id payment) provider_id (pay_amount payment) of
                    None \<Rightarrow>
                      let p2 = p1\<lparr>pay_status := P_REFUND_FAILED, pay_refund_failed_at := Some now\<rparr>
                      in (Inr (Some p2), put_payment p2 s1)
                  | Some (refund_id, status, amount) \<Rightarrow>
                      let p2 = p1\<lparr>pay_refund_id := Some refund_id\<rparr>;
                          p3 = (if status = P_REFUNDED
                                then p2\<lparr>pay_status := P_REFUNDED, pay_refunded_amount := Some amount,
                                        pay_refunded_at := Some now\<rparr>
                                else p2)
                      in (Inr (Some p3), put_payment p3 s1)))"

subsection \<open>Webhooks\<close>

datatype webhook_kind =
  WEBHOOK_PAYMENT_SUCCEEDED | WEBHOOK_PAYMENT_FAILED | WEBHOOK_PAYMENT_CANCELLED
| WEBHOOK_REFUND_UPDATED | WEBHOOK_ACCOUNT_UPDATED | WEBHOOK_ACCOUNT_REVOKED | WEBHOOK_UNHANDLED

record webhook_event =
  ev_id :: string
  ev_kind :: webhook_kind
  ev_payment_id :: "string option"
  ev_status :: "payment_status option"
  ev_account :: "string option"

definition find_payment :: "db \<Rightarrow> string option \<Rightarrow> string option \<Rightarrow> payment option" where
  "find_payment s provider_payment_id provider_account_id =
     (if \<not> truthy provider_payment_id then None
      else find (\<lambda>p. pay_provider_id p = provider_payment_id
             \<and> (provider_account_id = None \<or> pay_account p = provider_account_id)) (db_payments s))"

text \<open>
  \<open>_reinstate_or_flag_expired_booking\<close>: the slot is re-validated with the appointment type only,
  not with the duration the request was made for.
\<close>

definition reinstate_or_flag :: "db \<Rightarrow> booking_request \<Rightarrow> instant \<Rightarrow> bool \<times> db" where
  "reinstate_or_flag s rq now =
     (case row_find g_id (rq_garage rq) (db_garages s) of
        None \<Rightarrow> (False, s)
      | Some g \<Rightarrow>
          let reason = (case rq_time rq of
                None \<Rightarrow> None
              | Some t \<Rightarrow> validate_slot s g (rq_date rq) t now (find_type s (rq_type rq)) None None)
          in if reason = None then
               let rq' = rq\<lparr>rq_status := PENDING\<rparr>
               in (True, sync_booking_request_redemption (put_request rq' s) rq' now)
             else (False, s))"

definition handle_payment_succeeded :: "db \<Rightarrow> webhook_event \<Rightarrow> instant \<Rightarrow> uid list \<times> db" where
  "handle_payment_succeeded s ev now =
     (case find_payment s (ev_payment_id ev) (ev_account ev) of
        None \<Rightarrow> ([], s)
      | Some payment \<Rightarrow>
          if pay_status payment = P_SUCCEEDED then ([], s)
          else
            let s1 = put_payment (payment\<lparr>pay_status := P_SUCCEEDED, pay_paid_at := Some now\<rparr>) s
            in case row_find rq_id (pay_request payment) (db_requests s1) of
                 None \<Rightarrow> ([], s1)
               | Some rq \<Rightarrow>
                   if rq_status rq = AWAITING_PAYMENT then ([rq_id rq], confirm_request s1 rq now)
                   else if rq_status rq = EXPIRED then
                     (case reinstate_or_flag s1 rq now of
                        (True, s2) \<Rightarrow> ([rq_id rq], s2)
                      | (False, s2) \<Rightarrow> ([], s2))
                   else ([], s1))"

definition handle_payment_failed :: "db \<Rightarrow> webhook_event \<Rightarrow> instant \<Rightarrow> db" where
  "handle_payment_failed s ev now =
     (case find_payment s (ev_payment_id ev) (ev_account ev) of
        None \<Rightarrow> s
      | Some payment \<Rightarrow>
          if pay_status payment = P_SUCCEEDED \<or> pay_status payment = P_CANCELLED then s
          else put_payment (payment\<lparr>pay_status := P_FAILED, pay_failed_at := Some now\<rparr>) s)"

definition handle_payment_cancelled :: "db \<Rightarrow> webhook_event \<Rightarrow> instant \<Rightarrow> db" where
  "handle_payment_cancelled s ev now =
     (case find_payment s (ev_payment_id ev) (ev_account ev) of
        None \<Rightarrow> s
      | Some payment \<Rightarrow>
          if pay_status payment = P_SUCCEEDED \<or> pay_status payment = P_CANCELLED then s
          else put_payment (payment\<lparr>pay_status := P_CANCELLED, pay_cancelled_at := Some now\<rparr>) s)"

definition handle_refund_updated :: "db \<Rightarrow> webhook_event \<Rightarrow> instant \<Rightarrow> db" where
  "handle_refund_updated s ev now =
     (case find_payment s (ev_payment_id ev) (ev_account ev) of
        None \<Rightarrow> s
      | Some payment \<Rightarrow>
          if pay_status payment = P_REFUNDED then s
          else if ev_status ev = Some P_REFUNDED then
            put_payment (payment\<lparr>pay_status := P_REFUNDED, pay_refunded_amount := Some (pay_amount payment),
              pay_refunded_at := Some now\<rparr>) s
          else if ev_status ev = Some P_REFUND_FAILED then
            put_payment (payment\<lparr>pay_status := P_REFUND_FAILED, pay_refund_failed_at := Some now\<rparr>) s
          else put_payment (payment\<lparr>pay_status := P_REFUND_PENDING\<rparr>) s)"

text \<open>
  Account events change the business's provider settings, which are not part of the model's
  database; they leave the bookings and payments alone.
\<close>

definition dispatch :: "db \<Rightarrow> webhook_event \<Rightarrow> instant \<Rightarrow> uid list \<times> db" where
  "dispatch s ev now =
     (case ev_kind ev of
        WEBHOOK_PAYMENT_SUCCEEDED \<Rightarrow> handle_payment_succeeded s ev now
      | WEBHOOK_PAYMENT_FAILED \<Rightarrow> ([], handle_payment_failed s ev now)
      | WEBHOOK_PAYMENT_CANCELLED \<Rightarrow> ([], handle_payment_cancelled s ev now)
      | WEBHOOK_REFUND_UPDATED \<Rightarrow> ([], handle_refund_updated s ev now)
      | _ \<Rightarrow> ([], s))"

text \<open>
  \<open>process_webhook\<close> and the route around it: \<open>verified = None\<close> is a signature that did not verify
  (answered 400 after a rollback); a known event id violates the primary key and is rolled back.
\<close>

definition process_webhook :: "db \<Rightarrow> webhook_event option \<Rightarrow> instant \<Rightarrow> unit outcome" where
  "process_webhook s verified now =
     (case verified of
        None \<Rightarrow> (Inl (Abort 400 ''Invalid signature''), s)
      | Some ev \<Rightarrow>
          if ev_id ev \<in> set (db_webhooks s) then (Inr (), s)
          else case dispatch (s\<lparr>db_webhooks := db_webhooks s @ [ev_id ev]\<rparr>) ev now of
                 (notes, s') \<Rightarrow> (Inr (), emit_created notes s'))"

subsection \<open>What the operations leave alone\<close>

lemma put_payment_frame [simp]:
  "db_requests (put_payment p s) = db_requests s" "db_redemptions (put_payment p s) = db_redemptions s"
  "db_codes (put_payment p s) = db_codes s" "db_webhooks (put_payment p s) = db_webhooks s"
  "db_calls (put_payment p s) = db_calls s" "db_next (put_payment p s) = db_next s"
  "db_events (put_payment p s) = db_events s" "db_garages (put_payment p s) = db_garages s"
  "db_appointments (put_payment p s) = db_appointments s"
  by (simp_all add: put_payment_def)

lemma put_request_frame [simp]:
  "db_payments (put_request r s) = db_payments s" "db_redemptions (put_request r s) = db_redemptions s"
  "db_codes (put_request r s) = db_codes s" "db_webhooks (put_request r s) = db_webhooks s"
  "db_calls (put_request r s) = db_calls s" "db_next (put_request r s) = db_next s"
  "db_events (put_request r s) = db_events s" "db_garages (put_request r s) = db_garages s"
  "db_appointments (put_request r s) = db_appointments s"
  by (simp_all add: put_request_def)

lemma log_call_frame [simp]:
  "db_payments (log_call c s) = db_payments s" "db_requests (log_call c s) = db_requests s"
  "db_redemptions (log_call c s) = db_redemptions s" "db_codes (log_call c s) = db_codes s"
  "db_webhooks (log_call c s) = db_webhooks s" "db_next (log_call c s) = db_next s"
  "db_events (log_call c s) = db_events s" "db_calls (log_call c s) = db_calls s @ [c]"
  by (simp_all add: log_call_def)

lemma insert_payment_frame [simp]:
  "db_requests (insert_payment p s) = db_requests s" "db_calls (insert_payment p s) = db_calls s"
  "db_webhooks (insert_payment p s) = db_webhooks s" "db_payments (insert_payment p s) = db_payments s @ [p]"
  "db_next (insert_payment p s) = Suc (db_next s)"
  by (simp_all add: insert_payment_def)

lemma put_redemption_frame2 [simp]:
  "db_payments (put_redemption r s) = db_payments s" "db_webhooks (put_redemption r s) = db_webhooks s"
  "db_calls (put_redemption r s) = db_calls s" "db_events (put_redemption r s) = db_events s"
  "db_garages (put_redemption r s) = db_garages s"
  by (simp_all add: put_redemption_def)

lemma move_to_frame [simp]:
  "db_payments (move_to s r st now) = db_payments s" "db_requests (move_to s r st now) = db_requests s"
  "db_webhooks (move_to s r st now) = db_webhooks s" "db_calls (move_to s r st now) = db_calls s"
  "db_next (move_to s r st now) = db_next s" "db_events (move_to s r st now) = db_events s"
  "db_appointments (move_to s r st now) = db_appointments s"
  by (simp_all add: move_to_def)

lemma sync_request_frame [simp]:
  "db_payments (sync_booking_request_redemption s rq now) = db_payments s"
  "db_requests (sync_booking_request_redemption s rq now) = db_requests s"
  "db_webhooks (sync_booking_request_redemption s rq now) = db_webhooks s"
  "db_calls (sync_booking_request_redemption s rq now) = db_calls s"
  "db_next (sync_booking_request_redemption s rq now) = db_next s"
  "db_events (sync_booking_request_redemption s rq now) = db_events s"
  "db_appointments (sync_booking_request_redemption s rq now) = db_appointments s"
  by (simp_all add: sync_booking_request_redemption_def split: option.split)

lemma emit_created_frame [simp]:
  "db_payments (emit_created ids s) = db_payments s" "db_requests (emit_created ids s) = db_requests s"
  "db_webhooks (emit_created ids s) = db_webhooks s" "db_calls (emit_created ids s) = db_calls s"
  "db_next (emit_created ids s) = db_next s"
  by (induction ids arbitrary: s) (simp_all add: emit_created_def emit_def)

lemma request_move_frame [simp]:
  "db_payments (confirm_request s rq now) = db_payments s" "db_calls (confirm_request s rq now) = db_calls s"
  "db_payments (expire_request s rq now) = db_payments s" "db_calls (expire_request s rq now) = db_calls s"
  "db_webhooks (confirm_request s rq now) = db_webhooks s" "db_next (confirm_request s rq now) = db_next s"
  "db_next (expire_request s rq now) = db_next s"
  by (simp_all add: confirm_request_def expire_request_def Let_def)

lemma request_move_requests:
  "db_requests (confirm_request s rq now)
     = row_set rq_id (rq\<lparr>rq_status := PENDING, rq_hold_expires := None\<rparr>) (db_requests s)"
  "db_requests (expire_request s rq now)
     = row_set rq_id (rq\<lparr>rq_status := EXPIRED, rq_hold_expires := None\<rparr>) (db_requests s)"
  by (simp_all add: confirm_request_def expire_request_def Let_def) (simp_all add: put_request_def)

lemma reinstate_frame [simp]:
  "db_payments (snd (reinstate_or_flag s rq now)) = db_payments s"
  "db_webhooks (snd (reinstate_or_flag s rq now)) = db_webhooks s"
  "db_calls (snd (reinstate_or_flag s rq now)) = db_calls s"
  "db_next (snd (reinstate_or_flag s rq now)) = db_next s"
  by (simp_all add: reinstate_or_flag_def Let_def split: option.split)

lemma reinstate_case:
  "(case reinstate_or_flag s rq now of (True, s2) \<Rightarrow> (a, s2) | (False, s2) \<Rightarrow> (b, s2))
    = (if fst (reinstate_or_flag s rq now) then a else b, snd (reinstate_or_flag s rq now))"
  by (simp split: prod.split bool.split)

lemma succeeded_frame [simp]:
  "db_webhooks (snd (handle_payment_succeeded s ev now)) = db_webhooks s"
  "db_calls (snd (handle_payment_succeeded s ev now)) = db_calls s"
  "db_next (snd (handle_payment_succeeded s ev now)) = db_next s"
  by (simp_all add: handle_payment_succeeded_def Let_def reinstate_case split: option.split)

lemma other_handlers_frame [simp]:
  "db_webhooks (handle_payment_failed s ev now) = db_webhooks s"
  "db_webhooks (handle_payment_cancelled s ev now) = db_webhooks s"
  "db_webhooks (handle_refund_updated s ev now) = db_webhooks s"
  "db_calls (handle_payment_failed s ev now) = db_calls s"
  "db_calls (handle_payment_cancelled s ev now) = db_calls s"
  "db_calls (handle_refund_updated s ev now) = db_calls s"
  "db_next (handle_payment_failed s ev now) = db_next s"
  "db_next (handle_payment_cancelled s ev now) = db_next s"
  "db_next (handle_refund_updated s ev now) = db_next s"
  by (simp_all add: handle_payment_failed_def handle_payment_cancelled_def handle_refund_updated_def
      split: option.split)

lemma dispatch_frame [simp]:
  "db_webhooks (snd (dispatch s ev now)) = db_webhooks s"
  "db_calls (snd (dispatch s ev now)) = db_calls s"
  "db_next (snd (dispatch s ev now)) = db_next s"
  by (cases "ev_kind ev"; simp add: dispatch_def)+

subsection \<open>Well-formed payment tables\<close>

definition payments_ok :: "db \<Rightarrow> bool" where
  "payments_ok s \<longleftrightarrow> distinct (map pay_id (db_payments s)) \<and> distinct (map rq_id (db_requests s))
     \<and> (\<forall>p \<in> set (db_payments s). pay_id p < db_next s)"

lemma locked_active_paymentD:
  assumes "locked_active_payment s rq = Some p"
  shows "p \<in> set (db_payments s)" "pay_request p = rq_id rq"
proof -
  from assms have "p \<in> set (payments_of s rq)"
    by (auto simp: locked_active_payment_def Let_def split: if_splits dest: last_in_set)
  then show "p \<in> set (db_payments s)" "pay_request p = rq_id rq" by (simp_all add: payments_of_def)
qed

lemma find_paymentD: "find_payment s i a = Some p \<Longrightarrow> p \<in> set (db_payments s)"
  by (auto simp: find_payment_def split: if_splits dest: find_SomeD)

lemma locked_active_payment_cong:
  "payments_of s r = payments_of s' r \<Longrightarrow> locked_active_payment s r = locked_active_payment s' r"
  by (simp add: locked_active_payment_def)

lemma payments_of_frame: "db_payments s' = db_payments s \<Longrightarrow> payments_of s' r = payments_of s r"
  by (simp add: payments_of_def)

lemma payments_of_put_other:
  assumes "distinct (map pay_id (db_payments s))" "p \<in> set (db_payments s)" "pay_id p' = pay_id p"
    "pay_request p' = pay_request p" "pay_request p \<noteq> rq_id r"
  shows "payments_of (put_payment p' s) r = payments_of s r"
  using filter_row_set_other [OF assms(1-3), of "\<lambda>p. pay_request p = rq_id r \<and> pay_garage p = rq_garage r"]
    assms(4,5) by (simp add: payments_of_def put_payment_def)

lemma payment_ids_put [simp]:
  "map pay_id (db_payments (put_payment p s)) = map pay_id (db_payments s)"
  by (simp add: put_payment_def)

subsection \<open>The sweep, request by request\<close>

text \<open>What the sweep should do with one request: a paid hold becomes a booking, any other expires.\<close>

definition deposit_paid :: "db \<Rightarrow> providers \<Rightarrow> booking_request \<Rightarrow> bool" where
  "deposit_paid s pvs rq \<longleftrightarrow> (case locked_active_payment s rq of
     None \<Rightarrow> False
   | Some p \<Rightarrow> pay_status p = P_SUCCEEDED
       \<or> (pay_status p = P_REQUIRES_PAYMENT \<or> pay_status p = P_PENDING) \<and> truthy (pay_provider_id p)
         \<and> pv_live (pvs (pay_provider p)) (the (pay_provider_id p)) = Some P_SUCCEEDED)"

definition swept :: "db \<Rightarrow> providers \<Rightarrow> instant \<Rightarrow> booking_request \<Rightarrow> booking_request" where
  "swept s pvs now rq =
     (if \<not> stale_hold now rq then rq
      else if rq_status rq = AWAITING_PAYMENT \<and> deposit_paid s pvs rq
      then rq\<lparr>rq_status := PENDING, rq_hold_expires := None\<rparr>
      else rq\<lparr>rq_status := EXPIRED, rq_hold_expires := None\<rparr>)"

lemma swept_id [simp]: "rq_id (swept s pvs now rq) = rq_id rq" "rq_garage (swept s pvs now rq) = rq_garage rq"
  by (simp_all add: swept_def)

lemma swept_not_stale: "\<not> stale_hold now (swept s pvs now rq)"
  by (simp add: swept_def stale_hold_def HOLD_STATUSES_def)

lemma reconcile_cases:
  assumes "locked_active_payment s rq = Some p"
  shows "fst (reconcile_if_already_succeeded s rq p pvs now) \<longleftrightarrow> deposit_paid s pvs rq"
    "deposit_paid s pvs rq \<Longrightarrow> db_requests (snd (snd (reconcile_if_already_succeeded s rq p pvs now)))
       = row_set rq_id (rq\<lparr>rq_status := PENDING, rq_hold_expires := None\<rparr>) (db_requests s)"
    "\<not> deposit_paid s pvs rq \<Longrightarrow> reconcile_if_already_succeeded s rq p pvs now = (False, [], s)"
  by (auto simp: reconcile_if_already_succeeded_def deposit_paid_def assms request_move_requests
      split: option.splits)

lemma reconcile_payments:
  assumes "locked_active_payment s rq = Some p"
  shows "db_payments (snd (snd (reconcile_if_already_succeeded s rq p pvs now))) = db_payments s \<or>
    db_payments (snd (snd (reconcile_if_already_succeeded s rq p pvs now)))
      = db_payments (put_payment (p\<lparr>pay_status := P_SUCCEEDED, pay_paid_at := Some now\<rparr>) s)"
  by (auto simp: reconcile_if_already_succeeded_def split: option.splits)

lemma cancel_attempt_frame [simp]:
  "db_requests (cancel_attempt s p now) = db_requests s" "db_next (cancel_attempt s p now) = db_next s"
  "db_payments (cancel_attempt s p now)
     = db_payments (put_payment (p\<lparr>pay_status := P_CANCELLED, pay_cancelled_at := Some now\<rparr>) s)"
  by (simp_all add: cancel_attempt_def put_payment_def log_call_def)

text \<open>\<open>expire_one\<close> written with the reconciliation's outcome.\<close>

lemma expire_one_eq:
  assumes "row_find rq_id i (db_requests s) = Some rq"
  shows "expire_one pvs now i (n, ns, s) =
    (if \<not> stale_hold now rq then (n, ns, s)
     else if rq_status rq = AWAITING_TERMS then (n + 1, ns, expire_request s rq now)
     else case locked_active_payment s rq of
       None \<Rightarrow> (n + 1, ns, expire_request s rq now)
     | Some p \<Rightarrow>
         if deposit_paid s pvs rq
         then (n, ns @ fst (snd (reconcile_if_already_succeeded s rq p pvs now)),
               snd (snd (reconcile_if_already_succeeded s rq p pvs now)))
         else (n + 1, ns,
               if pay_status p = P_REQUIRES_PAYMENT \<or> pay_status p = P_PENDING
               then cancel_attempt (expire_request s rq now) p now else expire_request s rq now))"
proof (cases "locked_active_payment s rq")
  case None
  then show ?thesis by (simp add: expire_one_def assms)
next
  case (Some p)
  note rc = reconcile_cases [OF Some, of pvs now]
  show ?thesis
  proof (cases "deposit_paid s pvs rq")
    case True
    with rc(1) obtain ns' s' where "reconcile_if_already_succeeded s rq p pvs now = (True, ns', s')"
      by (metis prod.collapse)
    with True Some show ?thesis by (simp add: expire_one_def assms)
  next
    case False
    with rc(3) Some show ?thesis by (simp add: expire_one_def assms)
  qed
qed

lemma expire_one_requests:
  assumes "row_find rq_id i (db_requests s) = Some rq" "payments_ok s"
  shows "db_requests (snd (snd (expire_one pvs now i (n, ns, s))))
    = row_set rq_id (swept s pvs now rq) (db_requests s)"
proof -
  from row_find_Some [OF assms(1)] have rq: "rq \<in> set (db_requests s)" by simp
  have same: "row_set rq_id rq (db_requests s) = db_requests s"
    by (rule row_set_same [OF _ rq]) (use assms(2) in \<open>simp add: payments_ok_def\<close>)
  have st: "rq_status rq = AWAITING_TERMS \<or> rq_status rq = AWAITING_PAYMENT" if "stale_hold now rq"
    using that by (auto simp: stale_hold_def HOLD_STATUSES_def)
  show ?thesis
  proof (cases "locked_active_payment s rq")
    case None
    then have "\<not> deposit_paid s pvs rq" by (simp add: deposit_paid_def)
    with None show ?thesis
      by (simp add: expire_one_eq [OF assms(1)] swept_def same request_move_requests)
  next
    case (Some p)
    show ?thesis
    proof (cases "stale_hold now rq")
      case True
      with st [OF True] Some show ?thesis
        by (auto simp: expire_one_eq [OF assms(1)] swept_def request_move_requests reconcile_cases(2))
    next
      case False
      with Some show ?thesis by (simp add: expire_one_eq [OF assms(1)] swept_def same)
    qed
  qed
qed

text \<open>One request's turn changes at most its own active payment, by a put-back of that row.\<close>

lemma expire_one_payments:
  assumes "row_find rq_id i (db_requests s) = Some rq"
  shows "db_payments (snd (snd (expire_one pvs now i (n, ns, s)))) = db_payments s \<or>
    (\<exists>p p'. locked_active_payment s rq = Some p \<and> pay_id p' = pay_id p \<and> pay_request p' = pay_request p
       \<and> db_payments (snd (snd (expire_one pvs now i (n, ns, s)))) = db_payments (put_payment p' s))"
proof (cases "locked_active_payment s rq")
  case None
  then show ?thesis by (simp add: expire_one_eq [OF assms])
next
  case (Some p)
  have put: "db_payments (put_payment q s') = row_set pay_id q (db_payments s')" for q s'
    by (simp add: put_payment_def)
  have "db_payments (snd (snd (expire_one pvs now i (n, ns, s)))) \<in>
      {db_payments s, row_set pay_id (p\<lparr>pay_status := P_SUCCEEDED, pay_paid_at := Some now\<rparr>) (db_payments s),
       row_set pay_id (p\<lparr>pay_status := P_CANCELLED, pay_cancelled_at := Some now\<rparr>) (db_payments s)}"
    using reconcile_payments [OF Some, of pvs now] Some
    by (auto simp: expire_one_eq [OF assms] put)
  then show ?thesis
    by (auto simp: Some put
        intro: exI [of _ "p\<lparr>pay_status := P_SUCCEEDED, pay_paid_at := Some now\<rparr>"]
          exI [of _ "p\<lparr>pay_status := P_CANCELLED, pay_cancelled_at := Some now\<rparr>"])
qed

lemma expire_one_next [simp]: "db_next (snd (snd (expire_one pvs now i (n, ns, s)))) = db_next s"
proof (cases "row_find rq_id i (db_requests s)")
  case None
  then show ?thesis by (simp add: expire_one_def)
next
  case (Some rq)
  have "db_next (snd (snd (reconcile_if_already_succeeded s rq p pvs now))) = db_next s" for p
    by (simp add: reconcile_if_already_succeeded_def split: option.split)
  then show ?thesis by (simp add: expire_one_eq [OF Some] split: option.split)
qed

lemma payments_ok_put:
  assumes "payments_ok s" "p \<in> set (db_payments s)" "pay_id p' = pay_id p"
    "db_payments s' = db_payments (put_payment p' s)" "map rq_id (db_requests s') = map rq_id (db_requests s)"
    "db_next s' = db_next s"
  shows "payments_ok s'"
  using assms by (auto simp: payments_ok_def put_payment_def dest: in_row_set)

lemma expire_one_ok:
  assumes "payments_ok s" "row_find rq_id i (db_requests s) = Some rq"
  shows "payments_ok (snd (snd (expire_one pvs now i (n, ns, s))))"
    and "rq_id r \<noteq> i \<Longrightarrow> payments_of (snd (snd (expire_one pvs now i (n, ns, s)))) r = payments_of s r"
proof -
  let ?s = "snd (snd (expire_one pvs now i (n, ns, s)))"
  have ids: "map rq_id (db_requests ?s) = map rq_id (db_requests s)"
    by (simp add: expire_one_requests [OF assms(2,1)])
  consider "db_payments ?s = db_payments s"
    | p p' where "locked_active_payment s rq = Some p" "pay_id p' = pay_id p" "pay_request p' = pay_request p"
        "db_payments ?s = db_payments (put_payment p' s)"
    using expire_one_payments [OF assms(2)] by blast
  then have "payments_ok ?s \<and> (rq_id r \<noteq> i \<longrightarrow> payments_of ?s r = payments_of s r)"
  proof cases
    case 1
    have "payments_ok ?s" using assms(1) ids by (simp add: payments_ok_def 1)
    with payments_of_frame [OF 1] show ?thesis by simp
  next
    case 2
    from locked_active_paymentD [OF 2(1)] row_find_Some [OF assms(2)]
    have p: "p \<in> set (db_payments s)" "pay_request p = i" by simp_all
    have "payments_of (put_payment p' s) r = payments_of s r" if "rq_id r \<noteq> i"
      by (rule payments_of_put_other [OF _ p(1) 2(2,3)]) (use assms(1) that p(2) in \<open>auto simp: payments_ok_def\<close>)
    with payments_of_frame [OF 2(4)] payments_ok_put [OF assms(1) p(1) 2(2,4) ids] show ?thesis by simp
  qed
  then show "payments_ok ?s" "rq_id r \<noteq> i \<Longrightarrow> payments_of ?s r = payments_of s r" by simp_all
qed

lemma swept_cong:
  "payments_of s' r = payments_of s r \<Longrightarrow> swept s' pvs now r = swept s pvs now r"
  by (simp add: swept_def deposit_paid_def locked_active_payment_cong [of s' r s])

lemma fold_expire_one:
  assumes "payments_ok s" "distinct ids" "set ids \<subseteq> rq_id ` set (db_requests s)"
  shows "db_requests (snd (snd (fold (expire_one pvs now) ids (n, ns, s))))
    = map (\<lambda>r. if rq_id r \<in> set ids then swept s pvs now r else r) (db_requests s)"
  using assms
proof (induction ids arbitrary: n ns s)
  case Nil
  then show ?case by simp
next
  case (Cons i ids)
  from Cons.prems(3) obtain rq where rq: "rq \<in> set (db_requests s)" "rq_id rq = i" by auto
  with Cons.prems(1) have find: "row_find rq_id i (db_requests s) = Some rq"
    using row_find_distinct [of rq_id "db_requests s" rq] by (simp add: payments_ok_def)
  obtain n1 ns1 s1 where one: "expire_one pvs now i (n, ns, s) = (n1, ns1, s1)"
    by (metis prod.exhaust)
  note step = expire_one_requests [OF find Cons.prems(1), of pvs now n ns, unfolded one]
    and ok = expire_one_ok [OF Cons.prems(1) find, where pvs = pvs and now = now and n = n and ns = ns, unfolded one]
  have reqs1: "db_requests s1 = map (\<lambda>r. if rq_id r = i then swept s pvs now r else r) (db_requests s)"
    using step row_set_eq_map [of rq_id "db_requests s" rq "swept s pvs now"] rq Cons.prems(1)
    by (simp add: payments_ok_def)
  have "map rq_id (db_requests s1) = map rq_id (db_requests s)" using step by simp
  then have "rq_id ` set (db_requests s1) = rq_id ` set (db_requests s)" by (metis set_map)
  with Cons.prems(3) have ids1: "set ids \<subseteq> rq_id ` set (db_requests s1)" by simp
  have "db_requests (snd (snd (fold (expire_one pvs now) ids (n1, ns1, s1))))
      = map (\<lambda>r. if rq_id r \<in> set ids then swept s1 pvs now r else r) (db_requests s1)"
    using Cons.IH [OF _ _ ids1] ok(1) Cons.prems(2) by simp
  also have "\<dots> = map (\<lambda>r. if rq_id r \<in> set (i # ids) then swept s pvs now r else r) (db_requests s)"
    unfolding reqs1 map_map
  proof (rule map_cong [OF refl])
    fix r
    show "((\<lambda>r. if rq_id r \<in> set ids then swept s1 pvs now r else r) \<circ>
        (\<lambda>r. if rq_id r = i then swept s pvs now r else r)) r
      = (if rq_id r \<in> set (i # ids) then swept s pvs now r else r)"
      using Cons.prems(2) swept_cong [OF ok(2), of r pvs now] by auto
  qed
  finally show ?case by (simp add: one)
qed

definition in_scope :: "uid option \<Rightarrow> booking_request \<Rightarrow> bool" where
  "in_scope garage_id rq \<longleftrightarrow> (case garage_id of None \<Rightarrow> True | Some g \<Rightarrow> rq_garage rq = g)"

lemma stale_ids_member:
  assumes "distinct (map rq_id (db_requests s))" "r \<in> set (db_requests s)"
  shows "rq_id r \<in> set (stale_ids s garage_id now) \<longleftrightarrow> stale_hold now r \<and> in_scope garage_id r"
  using assms by (auto simp: stale_ids_def in_scope_def distinct_map dest: inj_onD)

lemma sweep_requests:
  assumes "payments_ok s"
  shows "db_requests (snd (expire_stale_payment_holds s garage_id pvs now))
    = map (\<lambda>r. if in_scope garage_id r then swept s pvs now r else r) (db_requests s)"
proof -
  let ?ids = "stale_ids s garage_id now"
  have dist: "distinct ?ids" and sub: "set ?ids \<subseteq> rq_id ` set (db_requests s)"
    using assms by (auto simp: stale_ids_def payments_ok_def distinct_map inj_on_def)
  have sel: "(if rq_id r \<in> set ?ids then swept s pvs now r else r)
      = (if in_scope garage_id r then swept s pvs now r else r)" if "r \<in> set (db_requests s)" for r
    using stale_ids_member [OF _ that, of garage_id now] assms by (simp add: payments_ok_def swept_def)
  have "db_requests (snd (expire_stale_payment_holds s garage_id pvs now))
      = map (\<lambda>r. if rq_id r \<in> set ?ids then swept s pvs now r else r) (db_requests s)"
  proof (cases "?ids = []")
    case True
    then show ?thesis by (simp add: expire_stale_payment_holds_def)
  next
    case False
    then show ?thesis using fold_expire_one [OF assms dist sub, of pvs now 0 "[]"]
      by (simp add: expire_stale_payment_holds_def Let_def case_prod_beta)
  qed
  also have "\<dots> = map (\<lambda>r. if in_scope garage_id r then swept s pvs now r else r) (db_requests s)"
    by (rule map_cong [OF refl sel])
  finally show ?thesis .
qed

subsection \<open>Refunds: at most one per payment\<close>

definition refund_ish :: "payment_status \<Rightarrow> bool" where
  "refund_ish st \<longleftrightarrow> st \<in> {P_REFUND_PENDING, P_REFUNDED, P_REFUND_FAILED, P_PARTIALLY_REFUNDED}"

definition refund_calls :: "db \<Rightarrow> uid \<Rightarrow> nat" where
  "refund_calls s i = length (filter (\<lambda>c. c = CALL_REFUND i) (db_calls s))"

text \<open>
  What the code relies on from an adapter: a provider payment id is not the empty string, and a new
  session is not reported as refunded.
\<close>

definition session_ok :: "string option \<times> payment_status \<Rightarrow> bool" where
  "session_ok session \<longleftrightarrow> fst session \<noteq> Some [] \<and> \<not> refund_ish (snd session)"

definition adapters_ok :: "providers \<Rightarrow> bool" where
  "adapters_ok pvs \<longleftrightarrow> (\<forall>name i amt session. pv_create (pvs name) i amt = Some session \<longrightarrow> session_ok session)
     \<and> (\<forall>name i amt src session. pv_charge (pvs name) i amt src = Some session \<longrightarrow> session_ok session)"

definition row_ok :: "payment \<Rightarrow> bool" where
  "row_ok p \<longleftrightarrow> pay_provider_id p \<noteq> Some [] \<and> (refund_ish (pay_status p) \<longrightarrow> pay_provider_id p \<noteq> None)"

definition refunds_ok :: "db \<Rightarrow> bool" where
  "refunds_ok s \<longleftrightarrow> distinct (map pay_id (db_payments s))
     \<and> (\<forall>p \<in> set (db_payments s). pay_id p < db_next s \<and> row_ok p)
     \<and> (\<forall>p \<in> set (db_payments s). \<not> refund_ish (pay_status p) \<longrightarrow> refund_calls s (pay_id p) = 0)
     \<and> (\<forall>i. refund_calls s i \<le> 1) \<and> (\<forall>i. db_next s \<le> i \<longrightarrow> refund_calls s i = 0)"

lemma refunds_ok_cong:
  assumes "db_payments s' = db_payments s" "db_calls s' = db_calls s" "db_next s' = db_next s"
  shows "refunds_ok s' = refunds_ok s"
  using assms by (simp add: refunds_ok_def refund_calls_def)

lemma refund_calls_log [simp]:
  "refund_calls (log_call c s) i = refund_calls s i + (if c = CALL_REFUND i then 1 else 0)"
  by (simp add: refund_calls_def)

lemma refund_calls_frame [simp]:
  "refund_calls (put_payment p s) i = refund_calls s i"
  "refund_calls (insert_payment p s) i = refund_calls s i"
  by (simp_all add: refund_calls_def)

lemma refunds_ok_log:
  "\<forall>i. c \<noteq> CALL_REFUND i \<Longrightarrow> refunds_ok s \<Longrightarrow> refunds_ok (log_call c s)"
  by (simp add: refunds_ok_def)

lemma refunds_ok_put:
  assumes "refunds_ok s" "p \<in> set (db_payments s)" "pay_id p' = pay_id p"
    "refund_ish (pay_status p) \<Longrightarrow> refund_ish (pay_status p')" "row_ok p'"
  shows "refunds_ok (put_payment p' s)"
proof -
  have "refund_calls s (pay_id q) = 0"
    if "q \<in> set (db_payments (put_payment p' s))" "\<not> refund_ish (pay_status q)" for q
    using that assms by (auto simp: refunds_ok_def put_payment_def dest!: in_row_set)
  moreover have "pay_id q < db_next s \<and> row_ok q" if "q \<in> set (db_payments (put_payment p' s))" for q
    using that assms by (auto simp: refunds_ok_def put_payment_def dest!: in_row_set)
  ultimately show ?thesis using assms(1) by (simp add: refunds_ok_def)
qed

lemma refunds_ok_insert:
  assumes "refunds_ok s" "pay_id p = db_next s" "row_ok p"
  shows "refunds_ok (insert_payment p s)"
  using assms by (fastforce simp: refunds_ok_def)

lemma refunds_ok_refund:
  assumes "refunds_ok s" "p \<in> set (db_payments s)" "pay_status p = P_SUCCEEDED" "pay_id p' = pay_id p"
    "refund_ish (pay_status p')" "row_ok p'"
  shows "refunds_ok (put_payment p' (log_call (CALL_REFUND (pay_id p)) s))"
proof -
  have zero: "refund_calls s (pay_id p) = 0" using assms(1-3) by (simp add: refunds_ok_def refund_ish_def)
  let ?s = "put_payment p' (log_call (CALL_REFUND (pay_id p)) s)"
  have calls: "refund_calls ?s i = refund_calls s i + (if pay_id p = i then 1 else 0)" for i by simp
  have rows: "q = p' \<or> q \<in> set (db_payments s) \<and> pay_id q \<noteq> pay_id p" if "q \<in> set (db_payments ?s)" for q
    using that assms(4) by (auto simp: put_payment_def dest!: in_row_set)
  have "pay_id q < db_next s \<and> row_ok q" if "q \<in> set (db_payments ?s)" for q
    using rows [OF that] assms(1,2,4,6) by (auto simp: refunds_ok_def)
  moreover have "refund_calls ?s (pay_id q) = 0"
    if "q \<in> set (db_payments ?s)" "\<not> refund_ish (pay_status q)" for q
    using rows [OF that(1)] that(2) assms(1,5) by (auto simp: refunds_ok_def)
  moreover have "refund_calls ?s i \<le> 1" for i
    using zero assms(1) by (auto simp: calls refunds_ok_def)
  moreover have "refund_calls ?s i = 0" if "db_next s \<le> i" for i
    using that assms(1,2) by (auto simp: calls refunds_ok_def)
  ultimately show ?thesis unfolding refunds_ok_def using assms(1) by (simp add: refunds_ok_def)
qed

lemma refunds_ok_sync [simp]:
  "refunds_ok (sync_booking_request_redemption s rq now) = refunds_ok s"
  "refunds_ok (put_request r s) = refunds_ok s"
  "refunds_ok (emit_created ids s) = refunds_ok s"
  "refunds_ok (confirm_request s rq now) = refunds_ok s"
  "refunds_ok (expire_request s rq now) = refunds_ok s"
  "refunds_ok (snd (reinstate_or_flag s rq now)) = refunds_ok s"
  by (rule refunds_ok_cong; simp)+

lemma refunds_ok_row: "refunds_ok s \<Longrightarrow> p \<in> set (db_payments s) \<Longrightarrow> row_ok p"
  by (simp add: refunds_ok_def)

lemma refunds_ok_reconcile:
  assumes "refunds_ok s" "p \<in> set (db_payments s)"
  shows "refunds_ok (snd (snd (reconcile_if_already_succeeded s rq p pvs now)))"
proof -
  from refunds_ok_row [OF assms] have "row_ok (p\<lparr>pay_status := P_SUCCEEDED, pay_paid_at := Some now\<rparr>)"
    by (simp add: row_ok_def refund_ish_def)
  then have "refunds_ok (put_payment (p\<lparr>pay_status := P_SUCCEEDED, pay_paid_at := Some now\<rparr>) s)"
    if "\<not> refund_ish (pay_status p)"
    by (intro refunds_ok_put [OF assms]) (use that in simp_all)
  with assms(1) show ?thesis
    by (auto simp: reconcile_if_already_succeeded_def refund_ish_def split: option.split)
qed

lemma refunds_ok_cancel:
  assumes "refunds_ok s" "p \<in> set (db_payments s)" "\<not> refund_ish (pay_status p)"
  shows "refunds_ok (cancel_attempt s p now)"
proof -
  from refunds_ok_row [OF assms(1,2)]
  have "row_ok (p\<lparr>pay_status := P_CANCELLED, pay_cancelled_at := Some now\<rparr>)"
    by (simp add: row_ok_def refund_ish_def)
  with assms show ?thesis unfolding cancel_attempt_def
    by (auto intro!: refunds_ok_put [of _ p] refunds_ok_log)
qed

lemma refunds_ok_expire_one:
  assumes "refunds_ok s"
  shows "refunds_ok (snd (snd (expire_one pvs now i (n, ns, s))))"
proof (cases "row_find rq_id i (db_requests s)")
  case None
  with assms show ?thesis by (simp add: expire_one_def)
next
  case (Some rq)
  show ?thesis
  proof (cases "locked_active_payment s rq")
    case None
    with assms show ?thesis by (simp add: expire_one_eq [OF Some])
  next
    case (Some p)
    from locked_active_paymentD [OF Some] have p: "p \<in> set (db_payments s)" by simp
    have "refunds_ok (cancel_attempt (expire_request s rq now) p now)" if "\<not> refund_ish (pay_status p)"
      by (rule refunds_ok_cancel) (use assms p that in simp_all)
    with assms refunds_ok_reconcile [OF assms p] \<open>row_find rq_id i (db_requests s) = Some rq\<close> Some
    show ?thesis by (auto simp: expire_one_eq refund_ish_def)
  qed
qed

lemma refunds_ok_sweep:
  assumes "refunds_ok s"
  shows "refunds_ok (snd (expire_stale_payment_holds s garage_id pvs now))"
proof -
  have "refunds_ok (snd (snd (fold (expire_one pvs now) ids (n, ns, s))))" for ids n ns
    using assms
  proof (induction ids arbitrary: n ns s)
    case (Cons i ids)
    from refunds_ok_expire_one [OF Cons.prems, of pvs now i n ns]
    have "refunds_ok (snd (snd (expire_one pvs now i (n, ns, s))))" .
    with Cons.IH show ?case by (metis fold_simps(2) prod.collapse)
  qed simp
  with assms show ?thesis by (simp add: expire_stale_payment_holds_def Let_def case_prod_beta)
qed

lemma refunds_ok_charge:
  assumes "refunds_ok s" "p \<in> set (db_payments s)" "\<not> refund_ish (pay_status p)" "adapters_ok pvs"
  shows "refunds_ok (snd (charge_attempt s p pvs src now))"
proof (cases "pv_charge (pvs (pay_provider p)) (pay_id p) (pay_amount p) src")
  case None
  from refunds_ok_row [OF assms(1,2)] have "row_ok (p\<lparr>pay_status := P_FAILED, pay_failed_at := Some now\<rparr>)"
    by (simp add: row_ok_def refund_ish_def)
  with None assms(1-3) show ?thesis unfolding charge_attempt_def Let_def
    by (auto intro!: refunds_ok_put [of _ p] refunds_ok_log)
next
  case (Some session)
  with assms(4) have "fst session \<noteq> Some []" unfolding adapters_ok_def session_ok_def by blast
  then have "row_ok (p\<lparr>pay_provider_id := fst session,
      pay_status := if snd session = P_FAILED then P_FAILED else P_PENDING\<rparr>)"
    by (simp add: row_ok_def refund_ish_def)
  with Some assms(1-3) show ?thesis unfolding charge_attempt_def Let_def
    by (auto intro!: refunds_ok_put [of _ p] refunds_ok_log)
qed

lemma new_payment_fields [simp]:
  "pay_status (new_payment s g r prov acc amt) = P_REQUIRES_PAYMENT"
  "pay_id (new_payment s g r prov acc amt) = db_next s"
  "pay_provider_id (new_payment s g r prov acc amt) = None"
  by (simp_all add: new_payment_def fresh_id_def)

lemma refunds_ok_new:
  "refunds_ok s \<Longrightarrow> refunds_ok (insert_payment (new_payment s g r prov acc amt) s)"
  by (rule refunds_ok_insert) (simp_all add: row_ok_def refund_ish_def)

lemma refunds_ok_submit:
  assumes "refunds_ok s" "adapters_ok pvs"
  shows "refunds_ok (snd (submit_client_payment_token s rq pvs src now))"
proof (cases "locked_active_payment s rq")
  case None
  with assms show ?thesis by (simp add: submit_client_payment_token_def)
next
  case (Some p)
  from locked_active_paymentD [OF Some] have p: "p \<in> set (db_payments s)" by simp
  let ?f = "new_payment s (pay_garage p) (pay_request p) (pay_provider p) (pay_account p) (pay_amount p)"
  have fresh: "refunds_ok (snd (charge_attempt (insert_payment ?f s) ?f pvs src now))"
    by (rule refunds_ok_charge [OF refunds_ok_new [OF assms(1)] _ _ assms(2)]) (simp_all add: refund_ish_def)
  show ?thesis
  proof (cases "refund_ish (pay_status p)")
    case True
    with refunds_ok_row [OF assms(1) p] have "truthy (pay_provider_id p)" "pay_status p \<noteq> P_FAILED"
      by (auto simp: row_ok_def truthy_def refund_ish_def)
    with assms Some show ?thesis by (simp add: submit_client_payment_token_def)
  next
    case False
    with assms(1) p fresh refunds_ok_charge [OF assms(1) p False assms(2)] Some show ?thesis
      by (simp add: submit_client_payment_token_def Let_def)
  qed
qed

lemma refunds_ok_hold:
  assumes "refunds_ok s" "adapters_ok pvs"
  shows "refunds_ok (snd (create_deposit_hold s g ty rq pvs name enabled configured account now))"
proof (cases "deposit_amount ty rq")
  case (Inl e)
  with assms show ?thesis by (simp add: create_deposit_hold_def)
next
  case (Inr amount)
  let ?p = "new_payment s (g_id g) (rq_id rq) name account amount"
  have ins: "refunds_ok (log_call (CALL_CREATE (pay_id ?p)) (insert_payment ?p s))"
    by (rule refunds_ok_log [OF _ refunds_ok_new [OF assms(1)]]) simp
  have put: "refunds_ok (put_payment q (log_call (CALL_CREATE (pay_id ?p)) (insert_payment ?p s)))"
    if "pay_id q = pay_id ?p" "row_ok q" for q
    by (rule refunds_ok_put [OF ins, of ?p]) (use that in \<open>simp_all add: refund_ish_def\<close>)
  have "row_ok (?p\<lparr>pay_provider_id := fst session, pay_status := snd session\<rparr>)"
    if "pv_create (pvs name) (pay_id ?p) amount = Some session" for session
  proof -
    from that assms(2) have "session_ok session" unfolding adapters_ok_def by blast
    then show ?thesis by (simp add: row_ok_def session_ok_def)
  qed
  moreover have "row_ok (?p\<lparr>pay_status := P_FAILED, pay_failed_at := Some now\<rparr>)"
    by (simp add: row_ok_def refund_ish_def)
  ultimately show ?thesis using assms(1) Inr put
    unfolding create_deposit_hold_def Let_def by (simp split: option.split)
qed

lemma refunds_ok_refund_deposit:
  assumes "refunds_ok s"
  shows "refunds_ok (snd (refund_deposit s rq pvs now))"
proof (cases "locked_active_payment s rq")
  case None
  with assms show ?thesis by (simp add: refund_deposit_def)
next
  case (Some p)
  from locked_active_paymentD [OF Some] have p: "p \<in> set (db_payments s)" by simp
  show ?thesis
  proof (cases "pay_status p = P_SUCCEEDED \<and> pay_provider_id p \<noteq> None")
    case False
    with Some assms show ?thesis by (auto simp: refund_deposit_def split: option.split)
  next
    case True
    then obtain i where i: "pay_provider_id p = Some i" "i \<noteq> []" "pay_status p = P_SUCCEEDED"
      using refunds_ok_row [OF assms p] by (auto simp: row_ok_def)
    have step: "refunds_ok (put_payment q (log_call (CALL_REFUND (pay_id p)) s))"
      if "pay_id q = pay_id p" "refund_ish (pay_status q)" "pay_provider_id q = Some i" for q
      by (rule refunds_ok_refund [OF assms p i(3)]) (use that i(2) in \<open>simp_all add: row_ok_def\<close>)
    show ?thesis using Some i
      by (auto simp: refund_deposit_def Let_def PAYMENT_STATUSES_CHARGED_def refund_ish_def
          intro!: step split: option.split)
  qed
qed

text \<open>An outcome of the original charge that arrives after the refund was started.\<close>

definition late_outcome :: "db \<Rightarrow> webhook_event \<Rightarrow> bool" where
  "late_outcome s ev \<longleftrightarrow>
     ev_kind ev \<in> {WEBHOOK_PAYMENT_SUCCEEDED, WEBHOOK_PAYMENT_FAILED, WEBHOOK_PAYMENT_CANCELLED}
     \<and> (case find_payment s (ev_payment_id ev) (ev_account ev) of
          None \<Rightarrow> False | Some p \<Rightarrow> refund_ish (pay_status p))"

lemma find_payment_truthy:
  "find_payment s i a = Some p \<Longrightarrow> pay_provider_id p = i \<and> truthy i"
  by (auto simp: find_payment_def split: if_splits dest!: find_SomeD)

lemma refunds_ok_put_found:
  assumes "refunds_ok s" "find_payment s i a = Some p" "pay_id p' = pay_id p"
    "pay_provider_id p' = pay_provider_id p" "refund_ish (pay_status p) \<Longrightarrow> refund_ish (pay_status p')"
  shows "refunds_ok (put_payment p' s)"
  using find_payment_truthy [OF assms(2)] assms(4)
  by (intro refunds_ok_put [OF assms(1) find_paymentD [OF assms(2)] assms(3,5)])
    (auto simp: row_ok_def truthy_def)

lemma refunds_ok_succeeded:
  assumes "refunds_ok s" "\<And>p. find_payment s (ev_payment_id ev) (ev_account ev) = Some p \<Longrightarrow> \<not> refund_ish (pay_status p)"
  shows "refunds_ok (snd (handle_payment_succeeded s ev now))"
proof (cases "find_payment s (ev_payment_id ev) (ev_account ev)")
  case None
  with assms(1) show ?thesis by (simp add: handle_payment_succeeded_def)
next
  case (Some p)
  have "refunds_ok (put_payment (p\<lparr>pay_status := P_SUCCEEDED, pay_paid_at := Some now\<rparr>) s)"
    by (rule refunds_ok_put_found [OF assms(1) Some]) (use assms(2) [OF Some] in simp_all)
  with Some assms(1) show ?thesis
    by (simp add: handle_payment_succeeded_def Let_def reinstate_case split: option.split)
qed

lemma refunds_ok_failed:
  assumes "refunds_ok s" "\<And>p. find_payment s (ev_payment_id ev) (ev_account ev) = Some p \<Longrightarrow> \<not> refund_ish (pay_status p)"
  shows "refunds_ok (handle_payment_failed s ev now)" "refunds_ok (handle_payment_cancelled s ev now)"
  using assms
  by (auto simp: handle_payment_failed_def handle_payment_cancelled_def
      intro!: refunds_ok_put_found split: option.split)

lemma refunds_ok_refund_updated:
  "refunds_ok s \<Longrightarrow> refunds_ok (handle_refund_updated s ev now)"
  by (auto simp: handle_refund_updated_def refund_ish_def intro!: refunds_ok_put_found split: option.split)

lemma refunds_ok_webhook:
  assumes "refunds_ok s" "\<not> late_outcome s ev"
  shows "refunds_ok (snd (process_webhook s (Some ev) now))"
proof (cases "ev_id ev \<in> set (db_webhooks s)")
  case True
  with assms(1) show ?thesis by (simp add: process_webhook_def)
next
  case False
  let ?s = "s\<lparr>db_webhooks := db_webhooks s @ [ev_id ev]\<rparr>"
  have ok: "refunds_ok ?s" using assms(1) refunds_ok_cong [of ?s s] by simp
  have fp: "find_payment ?s i a = find_payment s i a" for i a by (simp add: find_payment_def)
  have live: "\<not> refund_ish (pay_status p)"
    if "find_payment ?s (ev_payment_id ev) (ev_account ev) = Some p"
      "ev_kind ev \<in> {WEBHOOK_PAYMENT_SUCCEEDED, WEBHOOK_PAYMENT_FAILED, WEBHOOK_PAYMENT_CANCELLED}" for p
    using assms(2) that by (auto simp: late_outcome_def fp)
  have "refunds_ok (snd (dispatch ?s ev now))"
    using ok live refunds_ok_succeeded [OF ok] refunds_ok_failed [OF ok] refunds_ok_refund_updated [OF ok]
    by (cases "ev_kind ev") (simp_all add: dispatch_def)
  with False show ?thesis by (simp add: process_webhook_def case_prod_beta)
qed

text \<open>Every operation of the module, at any time, with any answers of well-behaved adapters.\<close>

inductive payment_step :: "db \<Rightarrow> db \<Rightarrow> bool" where
  hold: "adapters_ok pvs \<Longrightarrow>
    payment_step s (snd (create_deposit_hold s g ty rq pvs name enabled configured account now))"
| submit: "adapters_ok pvs \<Longrightarrow> payment_step s (snd (submit_client_payment_token s rq pvs src now))"
| sweep: "payment_step s (snd (expire_stale_payment_holds s garage_id pvs now))"
| abandon: "payment_step s (snd (abandon_public_hold s rq pvs now))"
| recover: "payment_step s (reconcile_public_payment_recovery s rq pvs now)"
| poll: "payment_step s (reconcile_submitted_payment s rq pvs now)"
| refund: "payment_step s (snd (refund_deposit s rq pvs now))"
| webhook: "\<not> late_outcome s ev \<Longrightarrow> payment_step s (snd (process_webhook s (Some ev) now))"
| bookings: "payment_step s (s\<lparr>db_requests := rqs, db_appointments := aps\<rparr>)"

inductive_cases payment_stepE: "payment_step s s'"

lemma refunds_ok_abandon:
  assumes "refunds_ok s"
  shows "refunds_ok (snd (abandon_public_hold s rq pvs now))"
proof (cases "locked_active_payment s rq")
  case None
  with assms show ?thesis by (simp add: abandon_public_hold_def)
next
  case (Some p)
  from locked_active_paymentD [OF Some] have p: "p \<in> set (db_payments s)" by simp
  note rc = refunds_ok_reconcile [OF assms p, of rq pvs now]
  have cancel: "refunds_ok (cancel_attempt (expire_request s rq now) p now)" if "\<not> refund_ish (pay_status p)"
    by (rule refunds_ok_cancel) (use assms p that in simp_all)
  show ?thesis
  proof (cases "deposit_paid s pvs rq")
    case True
    with reconcile_cases(1) [OF Some, of pvs now] obtain ns s' where
      "reconcile_if_already_succeeded s rq p pvs now = (True, ns, s')" by (metis prod.collapse)
    with rc assms Some show ?thesis by (simp add: abandon_public_hold_def)
  next
    case False
    from reconcile_cases(3) [OF Some this] assms Some cancel show ?thesis
      by (auto simp: abandon_public_hold_def Let_def refund_ish_def)
  qed
qed

lemma refunds_ok_recover:
  assumes "refunds_ok s"
  shows "refunds_ok (reconcile_public_payment_recovery s rq pvs now)"
  using assms refunds_ok_reconcile [OF assms, of _ rq pvs now]
  by (auto simp: reconcile_public_payment_recovery_def dest!: locked_active_paymentD(1)
      split: option.split prod.split bool.split) fastforce+

lemma refunds_ok_poll:
  assumes "refunds_ok s"
  shows "refunds_ok (reconcile_submitted_payment s rq pvs now)"
proof (cases "locked_active_payment s rq")
  case None
  with assms show ?thesis by (simp add: reconcile_submitted_payment_def)
next
  case (Some p)
  from locked_active_paymentD [OF Some] have p: "p \<in> set (db_payments s)" by simp
  have put: "refunds_ok (put_payment q s)"
    if "pay_status p = P_PENDING" "pay_id q = pay_id p" "pay_provider_id q = pay_provider_id p"
      "\<not> refund_ish (pay_status q)" for q
    by (rule refunds_ok_put [OF assms p that(2)])
      (use that refunds_ok_row [OF assms p] in \<open>simp_all add: refund_ish_def row_ok_def\<close>)
  show ?thesis using Some assms refunds_ok_reconcile [OF assms p, of rq pvs now]
    by (auto simp: reconcile_submitted_payment_def refund_ish_def case_prod_beta intro!: put split: option.split)
qed

lemma refunds_ok_step:
  assumes "payment_step s s'" "refunds_ok s"
  shows "refunds_ok s'"
  using assms
proof cases
  case (bookings aps rqs)
  with assms(2) refunds_ok_cong [of "s\<lparr>db_requests := rqs, db_appointments := aps\<rparr>" s] show ?thesis by simp
qed (simp_all add: refunds_ok_hold refunds_ok_submit refunds_ok_sweep refunds_ok_abandon
    refunds_ok_recover refunds_ok_poll refunds_ok_refund_deposit refunds_ok_webhook)

lemma refunds_ok_steps: "payment_step\<^sup>*\<^sup>* s s' \<Longrightarrow> refunds_ok s \<Longrightarrow> refunds_ok s'"
  by (induction rule: rtranclp_induct) (auto intro: refunds_ok_step)

subsection \<open>Double submission\<close>

lemma locked_active_payment_put:
  assumes "payments_ok s" "locked_active_payment s rq = Some p" "pay_status p \<notin> {P_CANCELLED, P_FAILED}"
    "pay_id p' = pay_id p" "pay_request p' = pay_request p" "pay_garage p' = pay_garage p"
    "pay_status p' \<notin> {P_CANCELLED, P_FAILED}" "db_payments s' = row_set pay_id p' (db_payments s)"
  shows "locked_active_payment s' rq = Some p'"
proof -
  let ?mine = "\<lambda>p. pay_request p = rq_id rq \<and> pay_garage p = rq_garage rq"
  let ?live = "\<lambda>p. pay_status p \<noteq> P_CANCELLED \<and> pay_status p \<noteq> P_FAILED"
  let ?lp = "filter ?live (payments_of s rq)"
  from assms(2) have mem: "p \<in> set (payments_of s rq)"
    by (auto simp: locked_active_payment_def Let_def split: if_splits dest: last_in_set)
  with assms(3) have ne: "?lp \<noteq> []" by (auto simp: filter_empty_conv)
  with assms(2) have lst: "last ?lp = p" by (simp add: locked_active_payment_def)
  have dist: "distinct (map pay_id (db_payments s))" using assms(1) by (simp add: payments_ok_def)
  have p: "p \<in> set (db_payments s)" "?mine p" using mem by (simp_all add: payments_of_def)
  have pof: "payments_of s' rq = row_set pay_id p' (payments_of s rq)"
    unfolding payments_of_def assms(8)
    by (rule filter_row_set_same [where r = p, OF dist p(1) assms(4)]) (use p(2) assms(5,6) in simp_all)
  have "distinct (map pay_id (payments_of s rq))"
    unfolding payments_of_def using dist by (simp add: distinct_map_filter)
  then have "filter ?live (payments_of s' rq) = row_set pay_id p' ?lp"
    unfolding pof by (rule filter_row_set_same [where r = p, OF _ mem assms(4)]) (use assms(3,7) in simp_all)
  moreover have "last (row_set pay_id p' ?lp) = p'"
    by (rule last_row_set [OF ne]) (simp add: lst assms(4))
  ultimately show ?thesis using ne by (simp add: locked_active_payment_def Let_def)
qed

lemma locked_active_payment_appended:
  assumes "db_payments s' = db_payments s @ [p]" "pay_request p = rq_id rq" "pay_garage p = rq_garage rq"
    "pay_status p \<notin> {P_CANCELLED, P_FAILED}"
  shows "locked_active_payment s' rq = Some p"
  using assms by (simp add: locked_active_payment_def payments_of_def Let_def)

lemma row_set_last_new:
  assumes "key p' = key p" "key p \<notin> key ` set rows"
  shows "row_set key p' (rows @ [p]) = rows @ [p']"
proof -
  from assms(2) have "\<forall>x \<in> set rows. key x \<noteq> key p" by (metis image_eqI)
  with assms(1) show ?thesis unfolding row_set_def by (auto intro!: map_idI)
qed

lemma charge_attempt_Inr:
  assumes "charge_attempt s p pvs src now = (Inr p', s')"
  shows "pay_id p' = pay_id p" "pay_request p' = pay_request p" "pay_garage p' = pay_garage p"
    "pay_provider p' = pay_provider p" "pay_status p' = P_FAILED \<or> pay_status p' = P_PENDING"
    "db_payments s' = row_set pay_id p' (db_payments s)"
  using assms by (auto simp: charge_attempt_def Let_def put_payment_def split: option.splits if_splits)

lemma submit_result_active:
  assumes "payments_ok s" "submit_client_payment_token s rq pvs src now = (Inr p, s')" "pay_status p \<noteq> P_FAILED"
  shows "locked_active_payment s' rq = Some p" "pv_two_phase (pvs (pay_provider p))"
proof -
  from assms(2) obtain p0 where p0: "locked_active_payment s rq = Some p0"
    by (auto simp: submit_client_payment_token_def split: option.splits)
  from p0 have mem: "p0 \<in> set (payments_of s rq)"
    by (auto simp: locked_active_payment_def Let_def split: if_splits dest: last_in_set)
  let ?f = "new_payment s (pay_garage p0) (pay_request p0) (pay_provider p0) (pay_account p0) (pay_amount p0)"
  consider "p = p0" "s' = s" "pv_two_phase (pvs (pay_provider p0))"
    | "pay_status p0 = P_FAILED \<or> pay_status p0 = P_CANCELLED" "pv_two_phase (pvs (pay_provider p0))"
      "charge_attempt (insert_payment ?f s) ?f pvs src now = (Inr p, s')"
    | "pay_status p0 \<notin> {P_CANCELLED, P_FAILED}" "pv_two_phase (pvs (pay_provider p0))"
      "charge_attempt s p0 pvs src now = (Inr p, s')"
    using assms(2) by (auto simp: submit_client_payment_token_def p0 Let_def split: if_splits)
  then have "locked_active_payment s' rq = Some p \<and> pv_two_phase (pvs (pay_provider p))"
  proof cases
    case 1
    with p0 show ?thesis by simp
  next
    case 2
    note ch = charge_attempt_Inr [OF 2(3)]
    have prov: "pay_provider ?f = pay_provider p0" "pay_request ?f = pay_request p0" "pay_garage ?f = pay_garage p0"
      by (simp_all add: new_payment_def)
    have "pay_id ?f \<notin> pay_id ` set (db_payments s)" using assms(1) by (auto simp: payments_ok_def)
    with ch(1,6) have "db_payments s' = db_payments s @ [p]" by (simp add: row_set_last_new)
    then have "locked_active_payment s' rq = Some p"
      by (rule locked_active_payment_appended)
        (use ch mem assms(3) prov in \<open>auto simp: payments_of_def\<close>)
    with ch(4) 2(2) prov show ?thesis by simp
  next
    case 3
    note ch = charge_attempt_Inr [OF 3(3)]
    have "locked_active_payment s' rq = Some p"
      by (rule locked_active_payment_put [OF assms(1) p0 3(1) ch(1-3) _ ch(6)]) (use ch(5) assms(3) in auto)
    with ch(4) 3(2) show ?thesis by simp
  qed
  then show "locked_active_payment s' rq = Some p" "pv_two_phase (pvs (pay_provider p))" by simp_all
qed

subsection \<open>Properties\<close>

text \<open>
  C1: A deposit is refunded at most once: over any sequence of holds, submissions, sweeps,
  abandonments, recoveries, polls, refund requests (by staff, a rejection or a retry) and webhook
  deliveries, the provider's refund call is made at most once per payment - as long as no outcome of
  the original charge arrives after its refund was started.
\<close>

theorem refund_called_at_most_once:
  assumes "payment_step\<^sup>*\<^sup>* s s'" "refunds_ok s"
  shows "refund_calls s' payment_id \<le> 1"
  using refunds_ok_steps [OF assms] by (simp add: refunds_ok_def)

definition paid_row :: payment where
  "paid_row = \<lparr>pay_id = 7, pay_garage = 2, pay_request = 5, pay_provider = ''square'', pay_provider_id = Some ''pi'',
     pay_account = None, pay_amount = 1000, pay_status = P_SUCCEEDED, pay_paid_at = Some 0,
     pay_failed_at = None, pay_cancelled_at = None, pay_refund_requested_at = None, pay_refund_id = None,
     pay_refunded_amount = None, pay_refunded_at = None, pay_refund_failed_at = None\<rparr>"

definition no_contact :: contact where
  "no_contact = \<lparr>ct_first = ''A'', ct_last = ''B'', ct_email = None, ct_phone = None, ct_registration = None\<rparr>"

definition held_row :: booking_request where
  "held_row = \<lparr>rq_id = 5, rq_garage = 2, rq_status = AWAITING_PAYMENT, rq_contact = no_contact, rq_type = None,
     rq_duration = None, rq_price = None, rq_type_name = None, rq_date = 1, rq_time = None, rq_add_ons = [],
     rq_discount = no_discount, rq_customer = None, rq_vehicle = None, rq_appointment = None,
     rq_reviewer = None, rq_reviewed_at = None, rq_accepted_automatically = False, rq_hold_expires = Some 100,
     rq_terms_accepted_at = None, rq_terms_version = None, rq_terms_token = None, rq_recovery_token = None,
     rq_source = SOURCE_WEB, rq_reference = None, rq_attempt = None,
     rq_item = \<lparr>it_make = None, it_model = None, it_year = None, it_usage = None\<rparr>,
     rq_employee_note = None, rq_notes = None, rq_answers = [], rq_voice_tool = None, rq_voice_call = None\<rparr>"

definition paid_db :: db where
  "paid_db = demo_shop\<lparr>db_codes := [], db_requests := [held_row], db_payments := [paid_row], db_next := 10\<rparr>"

definition demo_adapter :: payment_provider where
  "demo_adapter = \<lparr>pv_two_phase = True, pv_create = (\<lambda>i a. Some (None, P_REQUIRES_PAYMENT)),
     pv_charge = (\<lambda>i a src. Some (Some ''pi'', P_SUCCEEDED)), pv_live = (\<lambda>i. Some P_SUCCEEDED),
     pv_refund = (\<lambda>i p a. Some (''rf'', P_REFUND_PENDING, a))\<rparr>"

lemmas payment_demo = paid_row_def held_row_def paid_db_def demo_adapter_def demo_shop_def no_contact_def
  no_discount_def

lemma paid_db_ok: "refunds_ok paid_db" "payments_ok paid_db"
  by (simp_all add: payment_demo refunds_ok_def payments_ok_def row_ok_def refund_calls_def)

lemma paid_active: "locked_active_payment paid_db held_row = Some paid_row"
  by (simp add: locked_active_payment_def payments_of_def payment_demo Let_def)

theorem refund_called_at_most_once_witness:
  "\<exists>s'. payment_step\<^sup>*\<^sup>* paid_db s' \<and> refund_calls s' 7 = 1 \<and> refund_calls s' 7 \<le> 1"
proof -
  let ?s = "snd (refund_deposit paid_db held_row (\<lambda>n. demo_adapter) 5)"
  have step: "payment_step\<^sup>*\<^sup>* paid_db ?s" using payment_step.refund by blast
  have "refund_calls ?s 7 = 1"
    by (simp add: refund_deposit_def paid_active Let_def)
      (simp add: payment_demo PAYMENT_STATUSES_CHARGED_def refund_calls_def Let_def)
  with step refund_called_at_most_once [OF step paid_db_ok(1), of 7] show ?thesis by blast
qed

text \<open>
  C8: The expiry sweep does to every request exactly what its payment says: a request whose hold has
  run out becomes a booking (PENDING) when its deposit is recorded as paid or the provider reports it
  as paid, and EXPIRED otherwise; no other request and no other business is touched, whatever the
  other holds handled in the same run.
\<close>

theorem sweep_expires_exactly_unpaid_holds:
  assumes "payments_ok s"
  shows "db_requests (snd (expire_stale_payment_holds s garage_id pvs now))
    = map (\<lambda>r. if in_scope garage_id r then swept s pvs now r else r) (db_requests s)"
  by (rule sweep_requests [OF assms])

theorem sweep_expires_exactly_unpaid_holds_witness:
  "map rq_status (db_requests (snd (expire_stale_payment_holds paid_db None (\<lambda>n. demo_adapter) 200))) = [PENDING]"
proof -
  have "db_requests (snd (expire_stale_payment_holds paid_db None (\<lambda>n. demo_adapter) 200))
      = map (\<lambda>r. if in_scope None r then swept paid_db (\<lambda>n. demo_adapter) 200 r else r) (db_requests paid_db)"
    by (rule sweep_expires_exactly_unpaid_holds [OF paid_db_ok(2)])
  moreover have "deposit_paid paid_db (\<lambda>n. demo_adapter) held_row"
    by (simp add: deposit_paid_def paid_active) (simp add: paid_row_def)
  moreover have "db_requests paid_db = [held_row]" "rq_status held_row = AWAITING_PAYMENT" "stale_hold 200 held_row"
    by (simp_all add: payment_demo stale_hold_def HOLD_STATUSES_def)
  ultimately show ?thesis by (simp add: swept_def in_scope_def)
qed

text \<open>
  C32: A redelivered webhook is a no-op: processing the same provider event again, at any later time,
  leaves the whole database - bookings, payments, redemptions, emitted events - as it was.
\<close>

theorem webhook_redelivery_changes_nothing:
  "snd (process_webhook (snd (process_webhook s verified now)) verified now')
    = snd (process_webhook s verified now)"
proof (cases verified)
  case None
  then show ?thesis by (simp add: process_webhook_def)
next
  case (Some ev)
  have "ev_id ev \<in> set (db_webhooks (snd (process_webhook s verified now)))"
    using Some by (simp add: process_webhook_def case_prod_beta)
  then show ?thesis unfolding Some by (simp add: process_webhook_def [of "snd _"])
qed

text \<open>
  Submitting the card token again - a double click, a retry after a lost response - never charges
  twice: once a submission has reached the provider, a second one returns the same attempt and makes
  no call, whatever token it carries.
\<close>

theorem resubmission_never_charges_again:
  assumes "payments_ok s" "submit_client_payment_token s rq pvs source_id now = (Inr payment, s')"
    "pay_status payment \<noteq> P_FAILED" "truthy (pay_provider_id payment)"
  shows "submit_client_payment_token s' (rq\<lparr>rq_status := st\<rparr>) pvs source_id' now' = (Inr payment, s')"
proof -
  note act = submit_result_active [OF assms(1-3)]
  have "locked_active_payment s' (rq\<lparr>rq_status := st\<rparr>) = Some payment"
    using act(1) by (simp add: locked_active_payment_def payments_of_def)
  with act(2) assms(3,4) show ?thesis by (simp add: submit_client_payment_token_def)
qed

definition unpaid_db :: db where
  "unpaid_db = paid_db\<lparr>db_payments := [paid_row\<lparr>pay_status := P_REQUIRES_PAYMENT, pay_provider_id := None\<rparr>]\<rparr>"

lemma unpaid_active: "locked_active_payment unpaid_db held_row
    = Some (paid_row\<lparr>pay_status := P_REQUIRES_PAYMENT, pay_provider_id := None\<rparr>)"
  by (simp add: locked_active_payment_def payments_of_def unpaid_db_def payment_demo Let_def)

theorem resubmission_never_charges_again_witness:
  "\<exists>payment s'. submit_client_payment_token unpaid_db held_row (\<lambda>n. demo_adapter) ''tok'' 50 = (Inr payment, s')
     \<and> db_calls s' = [CALL_CHARGE 7]
     \<and> submit_client_payment_token s' held_row (\<lambda>n. demo_adapter) ''tok2'' 51 = (Inr payment, s')"
proof -
  have ok: "payments_ok unpaid_db" by (simp add: unpaid_db_def payment_demo payments_ok_def)
  obtain r s' where sub: "submit_client_payment_token unpaid_db held_row (\<lambda>n. demo_adapter) ''tok'' 50 = (r, s')"
    by fastforce
  then have r: "r = Inr (paid_row\<lparr>pay_status := P_PENDING\<rparr>) \<and> db_calls s' = [CALL_CHARGE 7]"
    unfolding submit_client_payment_token_def unpaid_active option.case
    by (auto simp: charge_attempt_def Let_def truthy_def put_payment_def log_call_def payment_demo unpaid_db_def)
  have "submit_client_payment_token s' (held_row\<lparr>rq_status := AWAITING_PAYMENT\<rparr>) (\<lambda>n. demo_adapter) ''tok2'' 51
      = (Inr (paid_row\<lparr>pay_status := P_PENDING\<rparr>), s')"
    by (rule resubmission_never_charges_again [OF ok]) (use sub r in \<open>simp_all add: truthy_def paid_row_def\<close>)
  moreover have "held_row\<lparr>rq_status := AWAITING_PAYMENT\<rparr> = held_row" by (simp add: held_row_def)
  ultimately show ?thesis using sub r by auto
qed

text \<open>
  Giving up a checkout never gives up money: when the customer abandons a hold, a deposit that is
  paid (here or at the provider) turns the hold into a booking and the request is refused; an attempt
  being confirmed leaves the hold as it was; only an unpaid hold expires, its slot released and its
  open attempt cancelled.
\<close>

theorem abandoning_never_loses_money:
  assumes "payments_ok s" "rq \<in> set (db_requests s)" "rq_status rq = AWAITING_PAYMENT"
    "locked_active_payment s rq = Some payment" "abandon_public_hold s rq pvs now = (result, s')"
  shows "(result, row_find rq_id (rq_id rq) (db_requests s')) =
    (if deposit_paid s pvs rq
     then (Inl (Hold_not_abandonable ''already_paid''), Some (rq\<lparr>rq_status := PENDING, rq_hold_expires := None\<rparr>))
     else if pay_status payment = P_PENDING
     then (Inl (Hold_not_abandonable ''payment_in_progress''), Some rq)
     else (Inr (), Some (rq\<lparr>rq_status := EXPIRED, rq_hold_expires := None\<rparr>)))"
proof -
  have dist: "distinct (map rq_id (db_requests s))" using assms(1) by (simp add: payments_ok_def)
  have found: "row_find rq_id (rq_id rq) (db_requests s) = Some rq" by (rule row_find_distinct [OF dist assms(2)])
  have put: "row_find rq_id (rq_id rq) (row_set rq_id rq' (db_requests s)) = Some rq'" if "rq_id rq' = rq_id rq" for rq'
    using assms(2) that by (auto simp: row_find_row_set)
  show ?thesis
  proof (cases "deposit_paid s pvs rq")
    case True
    with reconcile_cases [OF assms(4), of pvs now] obtain ns t where
      "reconcile_if_already_succeeded s rq payment pvs now = (True, ns, t)"
      "db_requests t = row_set rq_id (rq\<lparr>rq_status := PENDING, rq_hold_expires := None\<rparr>) (db_requests s)"
      by (metis prod.collapse)
    with True assms(3-5) put show ?thesis by (auto simp: abandon_public_hold_def)
  next
    case False
    from reconcile_cases(3) [OF assms(4) this] False assms(3-5) put found show ?thesis
      by (auto simp: abandon_public_hold_def Let_def request_move_requests split: if_splits)
  qed
qed

theorem abandoning_never_loses_money_witness:
  "fst (abandon_public_hold paid_db held_row (\<lambda>n. demo_adapter) 5) = Inl (Hold_not_abandonable ''already_paid'')
   \<and> row_find rq_id 5 (db_requests (snd (abandon_public_hold paid_db held_row (\<lambda>n. demo_adapter) 5)))
     = Some (held_row\<lparr>rq_status := PENDING, rq_hold_expires := None\<rparr>)"
proof -
  have "held_row \<in> set (db_requests paid_db)" "rq_status held_row = AWAITING_PAYMENT" "rq_id held_row = 5"
    by (simp_all add: payment_demo)
  moreover have "deposit_paid paid_db (\<lambda>n. demo_adapter) held_row"
    by (simp add: deposit_paid_def paid_active) (simp add: paid_row_def)
  ultimately show ?thesis
    using abandoning_never_loses_money [OF paid_db_ok(2) _ _ paid_active,
        of "\<lambda>n. demo_adapter" 5 "fst (abandon_public_hold paid_db held_row (\<lambda>n. demo_adapter) 5)"
          "snd (abandon_public_hold paid_db held_row (\<lambda>n. demo_adapter) 5)"]
    by simp
qed

text \<open>
  C37: The deposit a checkout takes is a positive number of pence and never more than the price the
  customer was shown, add-ons and discount included.
\<close>

theorem deposit_hold_amount_bounds:
  assumes "create_deposit_hold s g ty rq pvs name enabled configured account now = (Inr (payment, session), s')"
    "rq_price rq = Some price"
  shows "0 < pay_amount payment \<and> pay_amount payment \<le> price \<and> enabled \<and> configured
    \<and> pay_request payment = rq_id rq \<and> db_calls s' = db_calls s @ [CALL_CREATE (pay_id payment)]"
proof -
  from assms(1) obtain amount where amt: "deposit_amount ty rq = Inr amount"
    by (auto simp: create_deposit_hold_def split: sum.splits if_splits)
  with assms(2) have bounds: "0 < amount" "amount \<le> price"
    by (auto simp: deposit_amount_def Let_def split: option.splits sum.splits if_splits)
  from assms(1) amt have "pay_amount payment = amount \<and> enabled \<and> configured \<and> pay_request payment = rq_id rq
      \<and> db_calls s' = db_calls s @ [CALL_CREATE (pay_id payment)]"
    by (auto simp: create_deposit_hold_def Let_def new_payment_def split: if_splits option.splits)
  with bounds show ?thesis by simp
qed

definition deposit_type :: appointment_type where
  "deposit_type = \<lparr>ty_id = 4, ty_garage = 2, ty_name = ''MOT'', ty_status = TYPE_ACTIVE, ty_duration = Some 60,
     ty_base_price = Some 5000, ty_order = 0, ty_deposit_required = True, ty_deposit_type = Some ''FIXED'',
     ty_deposit_value = Some 2000\<rparr>"

theorem deposit_hold_amount_bounds_witness:
  "\<exists>payment session s'. create_deposit_hold paid_db demo_business deposit_type (held_row\<lparr>rq_price := Some 1500\<rparr>)
     (\<lambda>n. demo_adapter) ''square'' True True None 0 = (Inr (payment, session), s')
     \<and> pay_amount payment \<le> 1500 \<and> 0 < pay_amount payment"
proof -
  let ?rq = "held_row\<lparr>rq_price := Some 1500\<rparr>"
  have "deposit_amount deposit_type ?rq = Inr 1500"
    by (simp add: deposit_amount_def deposit_type_def eval_simps)
  then obtain payment session s' where cr: "create_deposit_hold paid_db demo_business deposit_type ?rq
     (\<lambda>n. demo_adapter) ''square'' True True None 0 = (Inr (payment, session), s')"
    by (simp add: create_deposit_hold_def demo_adapter_def Let_def)
  moreover have "rq_price ?rq = Some 1500" by simp
  ultimately show ?thesis using deposit_hold_amount_bounds [OF cr, of 1500] by blast
qed

text \<open>
  The proviso of \<open>refund_called_at_most_once\<close> is needed. \<open>_handle_payment_succeeded\<close> only skips
  payments that are SUCCEEDED: an event for the original charge that is delivered after the refund
  (Square sends payment.updated on every change) puts the payment back to SUCCEEDED, and the next
  refund request calls the provider again.
\<close>

definition late_event :: webhook_event where
  "late_event = \<lparr>ev_id = ''e9'', ev_kind = WEBHOOK_PAYMENT_SUCCEEDED, ev_payment_id = Some ''pi'',
     ev_status = None, ev_account = None\<rparr>"

definition rejected_row :: booking_request where
  "rejected_row = held_row\<lparr>rq_status := REJECTED\<rparr>"

definition rejected_db :: db where
  "rejected_db = paid_db\<lparr>db_requests := [rejected_row]\<rparr>"

lemma late_success_reopens_refund:
  "refund_calls (snd (refund_deposit (snd (process_webhook
      (snd (refund_deposit rejected_db rejected_row (\<lambda>n. demo_adapter) 5)) (Some late_event) 6))
    rejected_row (\<lambda>n. demo_adapter) 7)) 7 = 2"
proof -
  note run = rejected_db_def rejected_row_def payment_demo Let_def put_payment_def row_set_def
  have 1: "snd (refund_deposit rejected_db rejected_row (\<lambda>n. demo_adapter) 5) =
      rejected_db\<lparr>db_payments := [paid_row\<lparr>pay_status := P_REFUND_PENDING, pay_refund_requested_at := Some 5,
          pay_refund_id := Some ''rf''\<rparr>], db_calls := [CALL_REFUND 7]\<rparr>" (is "_ = ?s1")
    by (simp add: run refund_deposit_def locked_active_payment_def payments_of_def
        PAYMENT_STATUSES_CHARGED_def log_call_def)
  have 2: "snd (process_webhook ?s1 (Some late_event) 6) =
      ?s1\<lparr>db_webhooks := [''e9''], db_payments := [paid_row\<lparr>pay_status := P_SUCCEEDED, pay_paid_at := Some 6,
          pay_refund_requested_at := Some 5, pay_refund_id := Some ''rf''\<rparr>]\<rparr>" (is "_ = ?s2")
    by (simp add: run process_webhook_def dispatch_def handle_payment_succeeded_def find_payment_def
        truthy_def late_event_def row_find_def emit_created_def)
  have "refund_calls (snd (refund_deposit ?s2 rejected_row (\<lambda>n. demo_adapter) 7)) 7 = 2"
    by (simp add: run refund_deposit_def locked_active_payment_def payments_of_def
        PAYMENT_STATUSES_CHARGED_def log_call_def refund_calls_def)
  then show ?thesis by (simp only: 1 2)
qed

text \<open>
  A belated success reinstates an expired booking after \<open>validate_slot\<close> with the appointment type's
  duration only: a job that add-ons had made longer is put back although its second hour overlaps
  another appointment in the only bay.
\<close>

definition long_job :: booking_request where
  "long_job = held_row\<lparr>rq_garage := g_id demo_garage, rq_status := EXPIRED, rq_hold_expires := None,
     rq_duration := Some 120, rq_time := Some (9 * hour_us)\<rparr>"

definition long_job_db :: db where
  "long_job_db = demo_db\<lparr>db_requests := [long_job]\<rparr>"

lemma reinstating_overbooks:
  "fst (reinstate_or_flag long_job_db long_job 0)
   \<and> bays_in_use (snd (reinstate_or_flag long_job_db long_job 0)) demo_garage 1 (day_us + 10 * hour_us) = 2
   \<and> slot_capacity long_job_db demo_garage (resolve_settings demo_garage) = 1"
proof -
  note run = long_job_def payment_demo calendar_eval long_job_db_def Let_def
  have v: "validate_slot long_job_db demo_garage 1 (9 * hour_us) 0 None None None = None"
    by (simp add: validate_slot_def booking_window_def type_duration_def holding_statuses_def run)
  have "reinstate_or_flag long_job_db long_job 0
      = (True, long_job_db\<lparr>db_requests := [long_job\<lparr>rq_status := PENDING\<rparr>]\<rparr>)"
    using v by (simp add: reinstate_or_flag_def row_find_def find_type_def sync_booking_request_redemption_def
        put_request_def row_set_def run)
  then show ?thesis
    by (simp add: bays_in_use_def holding_statuses_def pending_request_duration_def active_at_def run)
qed

end
