(* ===== verification/Booking_Requests.thy ===== *)
theory Booking_Requests
  imports Payments
begin

text \<open>
  The staff side of a booking request, \<open>app/booking_requests/service.py\<close> with the reject and refund
  routes, and the scheduling predicates of \<open>app/appointments/scheduling.py\<close>: finding or creating the
  customer and vehicle, approving a request into one appointment, automatic acceptance, rejection
  with refund, and the expiry of requests whose preferred time has passed. A request handler that
  aborts has its uncommitted changes rolled back, so the database returned with an error is the last
  committed one. Checklists, staff notes and the log are not modelled.
\<close>

subsection \<open>Scheduling predicates\<close>

definition live_appointment :: "appointment \<Rightarrow> bool" where
  "live_appointment a \<longleftrightarrow> ap_status a \<noteq> AP_CANCELLED"

definition has_employee_conflict :: "db \<Rightarrow> uid \<Rightarrow> instant \<Rightarrow> instant \<Rightarrow> uid option \<Rightarrow> bool" where
  "has_employee_conflict s employee_id start_time end_time exclude =
     list_ex (\<lambda>a. ap_employee a = employee_id \<and> live_appointment a \<and> ap_start a < end_time
       \<and> start_time < ap_end a \<and> exclude \<noteq> Some (ap_id a)) (db_appointments s)"

definition duration_minutes :: "instant \<Rightarrow> instant \<Rightarrow> int" where
  "duration_minutes start_time end_time = (end_time - start_time) div minute_us"

definition capacity_exceeded :: "db \<Rightarrow> garage \<Rightarrow> instant \<Rightarrow> instant \<Rightarrow> uid option \<Rightarrow> bool" where
  "capacity_exceeded s g start_time end_time exclude =
     (case slot_capacity_usage s g start_time (duration_minutes start_time end_time) None exclude False of
        (used, capacity) \<Rightarrow> capacity \<le> used)"

definition default_end_time :: "instant \<Rightarrow> appointment_type \<Rightarrow> int \<Rightarrow> instant option" where
  "default_end_time start_time ty add_on_minutes = (case ty_duration ty of
     None \<Rightarrow> None | Some d \<Rightarrow> Some (start_time + (d + add_on_minutes) * minute_us))"

subsection \<open>Customer and vehicle\<close>

definition normalize_registration :: "string \<Rightarrow> string" where
  "normalize_registration v = filter (\<lambda>c. c \<noteq> CHR '' '') (map upper_char (strip_text v))"

definition put_customer :: "customer \<Rightarrow> db \<Rightarrow> db" where
  "put_customer c s = s\<lparr>db_customers := row_set cu_id c (db_customers s)\<rparr>"

definition put_vehicle :: "vehicle \<Rightarrow> db \<Rightarrow> db" where
  "put_vehicle v s = s\<lparr>db_vehicles := row_set ve_id v (db_vehicles s)\<rparr>"

definition match_customer :: "db \<Rightarrow> uid \<Rightarrow> uid option \<Rightarrow> string option \<Rightarrow> customer option" where
  "match_customer s garage_id customer_id customer_email =
     (case (case customer_id of
              None \<Rightarrow> None
            | Some i \<Rightarrow> find (\<lambda>c. cu_id c = i \<and> cu_garage c = garage_id) (db_customers s)) of
        Some c \<Rightarrow> Some c
      | None \<Rightarrow> if truthy customer_email
          then find (\<lambda>c. cu_garage c = garage_id
                 \<and> (case cu_email c of None \<Rightarrow> False | Some e \<Rightarrow> ilike (the customer_email) e)) (db_customers s)
          else None)"

definition resolve_customer ::
  "db \<Rightarrow> uid \<Rightarrow> uid option \<Rightarrow> contact \<Rightarrow> customer \<times> db"
where
  "resolve_customer s garage_id customer_id ct =
     (case match_customer s garage_id customer_id (ct_email ct) of
        None \<Rightarrow>
          let c = \<lparr>cu_id = fresh_id s, cu_garage = garage_id, cu_first = ct_first ct, cu_last = ct_last ct,
                   cu_email = ct_email ct, cu_phone = ct_phone ct, cu_active = True\<rparr>
          in (c, s\<lparr>db_customers := db_customers s @ [c], db_next := Suc (db_next s)\<rparr>)
      | Some c \<Rightarrow>
          if \<not> cu_active c then (c\<lparr>cu_active := True\<rparr>, put_customer (c\<lparr>cu_active := True\<rparr>) s)
          else (c, s))"

text \<open>The defaults of the details of the customer's item.\<close>

definition no_item :: item_details where
  "no_item = \<lparr>it_make = None, it_model = None, it_year = None, it_usage = None\<rparr>"

definition resolve_customer_and_vehicle ::
  "db \<Rightarrow> uid \<Rightarrow> uid option \<Rightarrow> contact \<Rightarrow> item_details \<Rightarrow> (http_error + uid \<times> uid option) \<times> db"
where
  "resolve_customer_and_vehicle s0 garage_id customer_id ct it =
     (case resolve_customer s0 garage_id customer_id ct of
        (c, s) \<Rightarrow>
          (case ct_registration ct of
             None \<Rightarrow> (Inr (cu_id c, None), s)
           | Some reg0 \<Rightarrow>
               if strip_text reg0 = [] then (Inr (cu_id c, None), s)
               else
                 let reg = normalize_registration reg0
                 in case find (\<lambda>v. ve_garage v = garage_id \<and> ve_registration v = reg) (db_vehicles s) of
                      None \<Rightarrow>
                        let v = \<lparr>ve_id = fresh_id s, ve_garage = garage_id, ve_customer = cu_id c,
                                 ve_registration = reg, ve_active = True, ve_mot_expiry = None,
                                 ve_make = it_make it, ve_model = it_model it\<rparr>
                        in (Inr (cu_id c, Some (ve_id v)),
                            s\<lparr>db_vehicles := db_vehicles s @ [v], db_next := Suc (db_next s)\<rparr>)
                    | Some v \<Rightarrow>
                        if ve_customer v \<noteq> cu_id c then (Inl (Abort 409 ''vehicle_reference_conflict''), s0)
                        else if \<not> ve_active v
                        then (Inr (cu_id c, Some (ve_id v)), put_vehicle (v\<lparr>ve_active := True\<rparr>) s)
                        else (Inr (cu_id c, Some (ve_id v)), s)))"

subsection \<open>When a request has passed\<close>

definition is_request_stale :: "garage \<Rightarrow> booking_request \<Rightarrow> instant \<Rightarrow> bool" where
  "is_request_stale g rq now =
     (let today = local_day_for (g_zone g) now
      in if rq_date rq < today then True
         else if today < rq_date rq then False
         else case rq_time rq of
           None \<Rightarrow> False
         | Some t \<Rightarrow> t < local_time_for (g_zone g) now)"

definition row_stale :: "db \<Rightarrow> instant \<Rightarrow> booking_request \<Rightarrow> bool" where
  "row_stale s now rq = (case row_find g_id (rq_garage rq) (db_garages s) of
     None \<Rightarrow> False | Some g \<Rightarrow> is_request_stale g rq now)"

definition expire_stale_booking_requests :: "db \<Rightarrow> uid option \<Rightarrow> instant \<Rightarrow> int \<times> db" where
  "expire_stale_booking_requests s garage_id now =
     (let ids = map rq_id (filter (\<lambda>r. rq_status r = PENDING \<and> in_scope garage_id r \<and> row_stale s now r)
                  (db_requests s));
          hit = (\<lambda>r. rq_id r \<in> set ids \<and> rq_status r = PENDING)
      in if ids = [] then (0, s)
         else let expired = int (length (filter hit (db_requests s)));
                  s1 = s\<lparr>db_requests := map (\<lambda>r. if hit r then r\<lparr>rq_status := EXPIRED\<rparr> else r) (db_requests s)\<rparr>
              in (expired,
                  if expired \<noteq> 0
                  then release_for_booking_requests s1
                         (map rq_id (filter (\<lambda>r. rq_id r \<in> set ids \<and> rq_status r = EXPIRED) (db_requests s1))) now
                  else s1))"

subsection \<open>Approval\<close>

record approval_data =
  ad_type :: "uid option"
  ad_employee :: "uid option"
  ad_start :: "instant option"
  ad_end :: "instant option"
  ad_automatic :: bool

definition resolve_appointment_slot ::
  "garage \<Rightarrow> booking_request \<Rightarrow> approval_data \<Rightarrow> appointment_type \<Rightarrow> bool \<Rightarrow> http_error + instant \<times> instant"
where
  "resolve_appointment_slot g rq data ty use_request_duration =
     (case (case ad_start data of
              Some t \<Rightarrow> Some t
            | None \<Rightarrow> map_option (local_slot_as_utc (g_zone g) (rq_date rq)) (rq_time rq)) of
        None \<Rightarrow> Inl (Abort 422 ''start_time is required'')
      | Some start_time \<Rightarrow>
          (case (case ad_end data of
                   Some e \<Rightarrow> Some e
                 | None \<Rightarrow>
                     map_option (\<lambda>d. start_time + d * minute_us)
                       (if rq_duration rq \<noteq> None \<and> use_request_duration then rq_duration rq else ty_duration ty)) of
             None \<Rightarrow> Inl (Abort 422 ''end_time is required'')
           | Some end_time \<Rightarrow>
               if end_time \<le> start_time then Inl (Abort 422 ''start_time must be before end_time'')
               else Inr (start_time, end_time)))"

definition request_capacity_full :: "db \<Rightarrow> garage \<Rightarrow> uid \<Rightarrow> instant \<Rightarrow> instant \<Rightarrow> bool" where
  "request_capacity_full s g request_id start_time end_time =
     (case slot_capacity_usage s g start_time (duration_minutes start_time end_time) (Some request_id) None True of
        (used, capacity) \<Rightarrow> capacity \<le> used)"

text \<open>The appointment an approval creates, with the request's price, add-ons and discount.\<close>

definition approved_appointment ::
  "db \<Rightarrow> booking_request \<Rightarrow> appointment_type \<Rightarrow> uid \<Rightarrow> uid \<Rightarrow> uid option \<Rightarrow> instant \<Rightarrow> instant \<Rightarrow> appointment"
where
  "approved_appointment s rq ty employee_id customer_id vehicle_id start_time end_time =
     (let keep_add_ons = (rq_type rq = Some (ty_id ty));
          dropped_add_ons = (rq_add_ons rq \<noteq> [] \<and> \<not> keep_add_ons);
          price = (if rq_price rq \<noteq> None \<and> \<not> dropped_add_ons then rq_price rq else ty_base_price ty);
          (price', snapshot) =
            (if ds_code_id (rq_discount rq) = None then (price, no_discount)
             else if dropped_add_ons \<or> \<not> keep_add_ons
             then fst (reprice_snapshot s (copy_snapshot (rq_discount rq)) None (ty_base_price ty))
             else (price, copy_snapshot (rq_discount rq)))
      in \<lparr>ap_id = fresh_id s, ap_garage = rq_garage rq, ap_employee = employee_id, ap_customer = customer_id,
          ap_vehicle = vehicle_id, ap_type = ty_id ty, ap_start = start_time, ap_end = end_time,
          ap_status = AP_BOOKED, ap_price = price',
          ap_type_name = Some (if truthy (rq_type_name rq) then the (rq_type_name rq) else ty_name ty),
          ap_imported_at = None, ap_completed_at = None,
          ap_add_ons = (if keep_add_ons then rq_add_ons rq else []), ap_discount = snapshot\<rparr>)"

definition insert_appointment :: "appointment \<Rightarrow> db \<Rightarrow> db" where
  "insert_appointment a s = s\<lparr>db_appointments := db_appointments s @ [a], db_next := Suc (db_next s)\<rparr>"

text \<open>The checks before anything is written; the result is the type, the employee and the slot.\<close>

definition approval_checks ::
  "db \<Rightarrow> garage \<Rightarrow> booking_request \<Rightarrow> approval_data \<Rightarrow> http_error + appointment_type \<times> uid \<times> instant \<times> instant"
where
  "approval_checks s g rq data =
     (case (case ad_type data of Some t \<Rightarrow> Some t | None \<Rightarrow> rq_type rq) of
        None \<Rightarrow> Inl (Abort 422 ''appointment_type_id is required'')
      | Some type_id \<Rightarrow>
          (case find (\<lambda>ty. ty_id ty = type_id \<and> ty_garage ty = g_id g) (db_types s) of
             None \<Rightarrow> Inl (Abort 422 ''appointment_type_id is not an active type'')
           | Some ty \<Rightarrow>
               if ty_status ty \<noteq> TYPE_ACTIVE then Inl (Abort 422 ''appointment_type_id is not an active type'')
               else case ad_employee data of
                 None \<Rightarrow> Inl (Abort 422 ''employee_id is required'')
               | Some employee_id \<Rightarrow>
                   (case find (\<lambda>e. em_id e = employee_id \<and> em_garage e = g_id g) (db_employees s) of
                      None \<Rightarrow> Inl (Abort 422 ''employee_id does not belong'')
                    | Some e \<Rightarrow>
                        if \<not> em_active e then Inl (Abort 422 ''employee deactivated'')
                        else case resolve_appointment_slot g rq data ty
                                    (\<not> (rq_add_ons rq \<noteq> [] \<and> rq_type rq \<noteq> Some (ty_id ty))) of
                          Inl err \<Rightarrow> Inl err
                        | Inr (start_time, end_time) \<Rightarrow>
                            if has_employee_conflict s employee_id start_time end_time None
                            then Inl (Abort 409 ''employee conflict'')
                            else if request_capacity_full s g (rq_id rq) start_time end_time
                            then Inl (Abort 409 ''capacity'')
                            else Inr (ty, employee_id, start_time, end_time))))"

definition approve_booking_request ::
  "db \<Rightarrow> garage \<Rightarrow> employee \<Rightarrow> uid \<Rightarrow> approval_data \<Rightarrow> instant \<Rightarrow> booking_request outcome"
where
  "approve_booking_request s g reviewer request_id data now =
     (case find (\<lambda>r. rq_id r = request_id \<and> rq_garage r = g_id g) (db_requests s) of
        None \<Rightarrow> (Inl (Abort 404 ''Booking request not found''), s)
      | Some rq \<Rightarrow>
          if rq_status rq = PENDING \<and> is_request_stale g rq now then
            let rq' = rq\<lparr>rq_status := EXPIRED\<rparr>
            in (Inl (Abort 409 ''expired''), sync_booking_request_redemption (put_request rq' s) rq' now)
          else if rq_status rq = AWAITING_TERMS then (Inl (Abort 409 ''awaiting_terms''), s)
          else if rq_status rq \<noteq> PENDING then (Inl (Abort 409 ''already decided''), s)
          else case approval_checks s g rq data of
            Inl err \<Rightarrow> (Inl err, s)
          | Inr (ty, employee_id, start_time, end_time) \<Rightarrow>
              (case resolve_customer_and_vehicle s (g_id g) (rq_customer rq) (rq_contact rq) (rq_item rq) of
                 (Inl err, _) \<Rightarrow> (Inl err, s)
               | (Inr (customer_id, vehicle_id), s1) \<Rightarrow>
                   let ap = approved_appointment s1 rq ty employee_id customer_id vehicle_id start_time end_time;
                       s2 = attach_redemption_to_appointment (insert_appointment ap s1)
                              (rq\<lparr>rq_status := APPROVED\<rparr>) (ap_id ap) now;
                       rq' = rq\<lparr>rq_status := APPROVED, rq_type := Some (ty_id ty), rq_customer := Some customer_id,
                                rq_vehicle := vehicle_id, rq_appointment := Some (ap_id ap),
                                rq_reviewer := Some (em_id reviewer), rq_reviewed_at := Some now,
                                rq_accepted_automatically := ad_automatic data\<rparr>
                   in (Inr rq', emit (BOOKING_REQUEST_APPROVED (rq_id rq) (ap_id ap)) (put_request rq' s2))))"

subsection \<open>Automatic acceptance\<close>

fun first_free_employee :: "db \<Rightarrow> instant \<Rightarrow> instant \<Rightarrow> employee list \<Rightarrow> employee option" where
  "first_free_employee s start_time end_time [] = None"
| "first_free_employee s start_time end_time (e # es) =
     (if has_employee_conflict s (em_id e) start_time end_time None
      then first_free_employee s start_time end_time es else Some e)"

definition auto_candidates :: "db \<Rightarrow> garage \<Rightarrow> employee list" where
  "auto_candidates s g = sort_key em_id (filter (\<lambda>e. em_garage e = g_id g \<and> em_active e) (db_employees s))"

text \<open>Python's \<open>or\<close> on an optional number: zero counts as missing.\<close>

definition number_or :: "int option \<Rightarrow> int option \<Rightarrow> int option" where
  "number_or a b = (if a = None \<or> a = Some 0 then b else a)"

definition auto_accept_booking_request ::
  "db \<Rightarrow> garage \<Rightarrow> uid \<Rightarrow> instant \<Rightarrow> booking_request option outcome"
where
  "auto_accept_booking_request s g request_id now =
     (if \<not> g_auto_accept g \<or> \<not> g_auto_accept_enabled g then (Inr None, s)
      else case find (\<lambda>r. rq_id r = request_id \<and> rq_garage r = g_id g) (db_requests s) of
        None \<Rightarrow> (Inr None, s)
      | Some rq \<Rightarrow>
          (case (rq_status rq = PENDING, rq_time rq, find_type s (rq_type rq)) of
             (True, Some t, Some ty) \<Rightarrow>
               if ty_status ty \<noteq> TYPE_ACTIVE then (Inr None, s)
               else (case number_or (rq_duration rq) (ty_duration ty) of
                 None \<Rightarrow> (Inr None, s)
               | Some d \<Rightarrow>
                   let start_time = local_slot_as_utc (g_zone g) (rq_date rq) t;
                       end_time = start_time + d * minute_us
                   in if request_capacity_full s g (rq_id rq) start_time end_time then (Inr None, s)
                      else case first_free_employee s start_time end_time (auto_candidates s g) of
                        None \<Rightarrow> (Inr None, s)
                      | Some e \<Rightarrow>
                          (case approve_booking_request s g e (rq_id rq)
                                  \<lparr>ad_type = None, ad_employee = Some (em_id e), ad_start = None, ad_end = None,
                                   ad_automatic = True\<rparr> now of
                             (Inr r, s') \<Rightarrow> (Inr (Some r), s')
                           | (Inl (Abort code msg), s') \<Rightarrow>
                               if code \<noteq> 409 then (Inl (Abort code msg), s') else (Inr None, s')))
           | _ \<Rightarrow> (Inr None, s)))"

subsection \<open>Review, rejection, refund\<close>

definition duration_minutes_for :: "db \<Rightarrow> garage \<Rightarrow> booking_request \<Rightarrow> int" where
  "duration_minutes_for s g rq =
     (case rq_duration rq of
        Some d \<Rightarrow> d
      | None \<Rightarrow> (case find_type s (rq_type rq) of
          None \<Rightarrow> default_appointment_minutes (resolve_settings g)
        | Some ty \<Rightarrow> (case number_or (ty_duration ty) None of
            Some d \<Rightarrow> d | None \<Rightarrow> default_appointment_minutes (resolve_settings g))))"

text \<open>\<open>None\<close>: nothing was checked; otherwise whether the slot still has room for the request.\<close>

definition slot_check_for_request :: "db \<Rightarrow> garage \<Rightarrow> booking_request \<Rightarrow> bool option" where
  "slot_check_for_request s g rq =
     (case rq_time rq of
        None \<Rightarrow> None
      | Some t \<Rightarrow>
          if rq_status rq \<noteq> PENDING then None
          else case slot_capacity_usage s g (local_slot_as_utc (g_zone g) (rq_date rq) t)
                      (duration_minutes_for s g rq) (Some (rq_id rq)) None True of
                 (used, capacity) \<Rightarrow> Some (used < capacity))"

definition reject_booking_request ::
  "db \<Rightarrow> garage \<Rightarrow> employee \<Rightarrow> uid \<Rightarrow> providers \<Rightarrow> instant \<Rightarrow> booking_request outcome"
where
  "reject_booking_request s g staff request_id pvs now =
     (case find (\<lambda>r. rq_id r = request_id \<and> rq_garage r = g_id g) (db_requests s) of
        None \<Rightarrow> (Inl (Abort 404 ''Booking request not found''), s)
      | Some rq \<Rightarrow>
          if rq_status rq = PENDING \<and> is_request_stale g rq now then
            let rq' = rq\<lparr>rq_status := EXPIRED\<rparr>
            in (Inl (Abort 409 ''already decided''), sync_booking_request_redemption (put_request rq' s) rq' now)
          else if rq_status rq \<noteq> PENDING then (Inl (Abort 409 ''already decided''), s)
          else
            let rq' = rq\<lparr>rq_status := REJECTED, rq_reviewer := Some (em_id staff), rq_reviewed_at := Some now\<rparr>;
                s1 = sync_booking_request_redemption (put_request rq' s) rq' now
            in (case refund_deposit s1 rq' pvs now of
                  (Inl e, s2) \<Rightarrow> (Inl (Abort 500 ''AssertionError''), s2)
                | (Inr p, s2) \<Rightarrow> (Inr rq', emit (BOOKING_REQUEST_REJECTED (rq_id rq)) s2)))"

definition refund_booking_request ::
  "db \<Rightarrow> garage \<Rightarrow> uid \<Rightarrow> providers \<Rightarrow> instant \<Rightarrow> booking_request outcome"
where
  "refund_booking_request s g request_id pvs now =
     (case find (\<lambda>r. rq_id r = request_id \<and> rq_garage r = g_id g) (db_requests s) of
        None \<Rightarrow> (Inl (Abort 404 ''Booking request not found''), s)
      | Some rq \<Rightarrow>
          (case locked_active_payment s rq of
             None \<Rightarrow> (Inl (Abort 409 ''no successful payment''), s)
           | Some p \<Rightarrow>
               if pay_status p \<noteq> P_SUCCEEDED then (Inl (Abort 409 ''no successful payment''), s)
               else case refund_deposit s rq pvs now of
                 (Inl e, s') \<Rightarrow> (Inl (Abort 500 ''AssertionError''), s')
               | (Inr q, s') \<Rightarrow> (Inr rq, s')))"

subsection \<open>What an approval did\<close>

lemma find_request:
  assumes "find (\<lambda>r. rq_id r = i \<and> rq_garage r = gid) (db_requests s) = Some rq"
  shows "rq \<in> set (db_requests s)" "rq_id rq = i" "rq_garage rq = gid"
  using find_SomeD [OF assms] by simp_all

lemma approval_checks_Inr:
  assumes "approval_checks s g rq data = Inr (ty, employee_id, start_time, end_time)"
  shows "start_time < end_time" "\<not> has_employee_conflict s employee_id start_time end_time None"
    "\<not> request_capacity_full s g (rq_id rq) start_time end_time"
    "ty_status ty = TYPE_ACTIVE" "ad_employee data = Some employee_id"
    "\<exists>e \<in> set (db_employees s). em_id e = employee_id \<and> em_garage e = g_id g \<and> em_active e"
  using assms
  by (auto simp: approval_checks_def resolve_appointment_slot_def split: option.splits if_splits sum.splits
      dest!: find_SomeD)

lemma approve_InrE:
  assumes "approve_booking_request s g reviewer request_id data now = (Inr rq', s')"
  obtains rq ty employee_id start_time end_time customer_id vehicle_id s1 ap where
    "find (\<lambda>r. rq_id r = request_id \<and> rq_garage r = g_id g) (db_requests s) = Some rq"
    "rq_status rq = PENDING" "\<not> is_request_stale g rq now"
    "approval_checks s g rq data = Inr (ty, employee_id, start_time, end_time)"
    "resolve_customer_and_vehicle s (g_id g) (rq_customer rq) (rq_contact rq) (rq_item rq) = (Inr (customer_id, vehicle_id), s1)"
    "ap = approved_appointment s1 rq ty employee_id customer_id vehicle_id start_time end_time"
    "rq' = rq\<lparr>rq_status := APPROVED, rq_type := Some (ty_id ty), rq_customer := Some customer_id,
       rq_vehicle := vehicle_id, rq_appointment := Some (ap_id ap),
       rq_reviewer := Some (em_id reviewer), rq_reviewed_at := Some now,
       rq_accepted_automatically := ad_automatic data\<rparr>"
    "s' = emit (BOOKING_REQUEST_APPROVED (rq_id rq) (ap_id ap)) (put_request rq'
       (attach_redemption_to_appointment (insert_appointment ap s1) (rq\<lparr>rq_status := APPROVED\<rparr>) (ap_id ap) now))"
  using assms unfolding approve_booking_request_def Let_def
  by (auto split: option.splits if_splits sum.splits prod.splits)

lemma resolve_customer_frame:
  assumes "resolve_customer s gid cid ct = (c, s')"
  shows "db_appointments s' = db_appointments s" "db_requests s' = db_requests s"
    "db_employees s' = db_employees s" "db_types s' = db_types s" "db_windows s' = db_windows s"
    "db_garages s' = db_garages s" "db_payments s' = db_payments s" "db_redemptions s' = db_redemptions s"
    "db_codes s' = db_codes s" "db_calls s' = db_calls s" "db_next s \<le> db_next s'"
  using assms by (auto simp: resolve_customer_def put_customer_def Let_def split: option.splits if_splits)

lemma resolve_frame:
  assumes "resolve_customer_and_vehicle s gid cid ct it = (Inr out, s')"
  shows "db_appointments s' = db_appointments s" "db_requests s' = db_requests s"
    "db_employees s' = db_employees s" "db_types s' = db_types s" "db_windows s' = db_windows s"
    "db_garages s' = db_garages s" "db_payments s' = db_payments s" "db_redemptions s' = db_redemptions s"
    "db_codes s' = db_codes s" "db_calls s' = db_calls s" "db_next s \<le> db_next s'"
proof -
  obtain c t where rc: "resolve_customer s gid cid ct = (c, t)" by fastforce
  have "db_appointments s' = db_appointments t \<and> db_requests s' = db_requests t \<and>
    db_employees s' = db_employees t \<and> db_types s' = db_types t \<and> db_windows s' = db_windows t \<and>
    db_garages s' = db_garages t \<and> db_payments s' = db_payments t \<and> db_redemptions s' = db_redemptions t \<and>
    db_codes s' = db_codes t \<and> db_calls s' = db_calls t \<and> db_next t \<le> db_next s'"
    using assms rc by (auto simp: resolve_customer_and_vehicle_def put_vehicle_def Let_def
        split: option.splits if_splits)
  with resolve_customer_frame [OF rc]
  show "db_appointments s' = db_appointments s" "db_requests s' = db_requests s"
    "db_employees s' = db_employees s" "db_types s' = db_types s" "db_windows s' = db_windows s"
    "db_garages s' = db_garages s" "db_payments s' = db_payments s" "db_redemptions s' = db_redemptions s"
    "db_codes s' = db_codes s" "db_calls s' = db_calls s" "db_next s \<le> db_next s'"
    by auto
qed

lemma move_to_tables [simp]:
  "db_employees (move_to s r st now) = db_employees s" "db_types (move_to s r st now) = db_types s"
  "db_windows (move_to s r st now) = db_windows s" "db_garages (move_to s r st now) = db_garages s"
  by (simp_all add: move_to_def put_redemption_def)

lemma attach_frame [simp]:
  "db_appointments (attach_redemption_to_appointment s rq a now) = db_appointments s"
  "db_requests (attach_redemption_to_appointment s rq a now) = db_requests s"
  "db_employees (attach_redemption_to_appointment s rq a now) = db_employees s"
  "db_types (attach_redemption_to_appointment s rq a now) = db_types s"
  "db_windows (attach_redemption_to_appointment s rq a now) = db_windows s"
  "db_garages (attach_redemption_to_appointment s rq a now) = db_garages s"
  "db_payments (attach_redemption_to_appointment s rq a now) = db_payments s"
  by (simp_all add: attach_redemption_to_appointment_def Let_def put_redemption_def split: option.split)

lemma insert_appointment_frame [simp]:
  "db_appointments (insert_appointment a s) = db_appointments s @ [a]"
  "db_requests (insert_appointment a s) = db_requests s" "db_employees (insert_appointment a s) = db_employees s"
  "db_types (insert_appointment a s) = db_types s" "db_windows (insert_appointment a s) = db_windows s"
  "db_garages (insert_appointment a s) = db_garages s"
  by (simp_all add: insert_appointment_def)

lemma put_request_tables [simp]:
  "db_employees (put_request r s) = db_employees s" "db_types (put_request r s) = db_types s"
  "db_windows (put_request r s) = db_windows s"
  by (simp_all add: put_request_def)

lemma emit_frame [simp]:
  "db_appointments (emit ev s) = db_appointments s" "db_requests (emit ev s) = db_requests s"
  "db_employees (emit ev s) = db_employees s" "db_types (emit ev s) = db_types s"
  "db_windows (emit ev s) = db_windows s" "db_garages (emit ev s) = db_garages s"
  "db_payments (emit ev s) = db_payments s" "db_redemptions (emit ev s) = db_redemptions s"
  "db_calls (emit ev s) = db_calls s"
  by (simp_all add: emit_def)

lemma approved_appointment_fields [simp]:
  "ap_id (approved_appointment s rq ty e c v b f) = db_next s"
  "ap_garage (approved_appointment s rq ty e c v b f) = rq_garage rq"
  "ap_employee (approved_appointment s rq ty e c v b f) = e"
  "ap_customer (approved_appointment s rq ty e c v b f) = c"
  "ap_start (approved_appointment s rq ty e c v b f) = b"
  "ap_end (approved_appointment s rq ty e c v b f) = f"
  "ap_status (approved_appointment s rq ty e c v b f) = AP_BOOKED"
  by (simp_all add: approved_appointment_def Let_def fresh_id_def split: prod.split)

text \<open>One summary of a successful approval, for the properties.\<close>

definition approval_effect ::
  "db \<Rightarrow> garage \<Rightarrow> uid \<Rightarrow> instant \<Rightarrow> booking_request \<Rightarrow> db \<Rightarrow> booking_request \<Rightarrow> appointment \<Rightarrow> employee \<Rightarrow> bool"
where
  "approval_effect s g request_id now rq' s' rq ap e \<longleftrightarrow>
     rq \<in> set (db_requests s) \<and> rq_id rq = request_id \<and> rq_garage rq = g_id g
     \<and> rq_status rq = PENDING \<and> \<not> is_request_stale g rq now
     \<and> rq_id rq' = rq_id rq \<and> rq_garage rq' = rq_garage rq \<and> rq_status rq' = APPROVED
     \<and> rq_appointment rq' = Some (ap_id ap)
     \<and> db_appointments s' = db_appointments s @ [ap] \<and> db_requests s' = row_set rq_id rq' (db_requests s)
     \<and> db_employees s' = db_employees s \<and> db_types s' = db_types s \<and> db_windows s' = db_windows s
     \<and> db_garages s' = db_garages s
     \<and> db_next s \<le> ap_id ap \<and> ap_garage ap = g_id g \<and> live_appointment ap \<and> ap_start ap < ap_end ap
     \<and> \<not> has_employee_conflict s (ap_employee ap) (ap_start ap) (ap_end ap) None
     \<and> \<not> request_capacity_full s g request_id (ap_start ap) (ap_end ap)
     \<and> e \<in> set (db_employees s) \<and> em_id e = ap_employee ap \<and> em_garage e = g_id g \<and> em_active e"

lemma approve_result:
  assumes "approve_booking_request s g reviewer request_id data now = (Inr rq', s')"
  shows "\<exists>rq ap e. approval_effect s g request_id now rq' s' rq ap e"
  using assms
proof (rule approve_InrE)
  fix rq ty employee_id start_time end_time customer_id vehicle_id s1 ap
  assume f: "find (\<lambda>r. rq_id r = request_id \<and> rq_garage r = g_id g) (db_requests s) = Some rq"
    and st: "rq_status rq = PENDING" "\<not> is_request_stale g rq now"
    and ch: "approval_checks s g rq data = Inr (ty, employee_id, start_time, end_time)"
    and rs: "resolve_customer_and_vehicle s (g_id g) (rq_customer rq) (rq_contact rq) (rq_item rq) = (Inr (customer_id, vehicle_id), s1)"
    and ap: "ap = approved_appointment s1 rq ty employee_id customer_id vehicle_id start_time end_time"
    and rq': "rq' = rq\<lparr>rq_status := APPROVED, rq_type := Some (ty_id ty), rq_customer := Some customer_id,
       rq_vehicle := vehicle_id, rq_appointment := Some (ap_id ap),
       rq_reviewer := Some (em_id reviewer), rq_reviewed_at := Some now,
       rq_accepted_automatically := ad_automatic data\<rparr>"
    and s': "s' = emit (BOOKING_REQUEST_APPROVED (rq_id rq) (ap_id ap)) (put_request rq'
       (attach_redemption_to_appointment (insert_appointment ap s1) (rq\<lparr>rq_status := APPROVED\<rparr>) (ap_id ap) now))"
  note fr = resolve_frame [OF rs] and ok = approval_checks_Inr [OF ch] and r = find_request [OF f]
  have reqs: "db_requests s' = row_set rq_id rq' (db_requests s)"
    unfolding s' by (simp add: fr put_request_def)
  obtain e where e: "e \<in> set (db_employees s)" "em_id e = employee_id" "em_garage e = g_id g" "em_active e"
    using ok(6) by blast
  show ?thesis
    by (rule exI [of _ rq], rule exI [of _ ap], rule exI [of _ e])
      (use r st e ok reqs fr in \<open>simp add: approval_effect_def ap rq' s' live_appointment_def\<close>)
qed

subsection \<open>No employee in two places\<close>

definition clash :: "appointment \<Rightarrow> appointment \<Rightarrow> bool" where
  "clash a b \<longleftrightarrow> live_appointment a \<and> live_appointment b \<and> ap_employee a = ap_employee b
     \<and> ap_start a < ap_end b \<and> ap_start b < ap_end a"

definition no_double_booking :: "db \<Rightarrow> bool" where
  "no_double_booking s \<longleftrightarrow> sorted_wrt (\<lambda>a b. \<not> clash a b) (db_appointments s)"

lemma no_double_booking_append:
  assumes "no_double_booking s" "db_appointments s' = db_appointments s @ [ap]"
    "\<not> has_employee_conflict s (ap_employee ap) (ap_start ap) (ap_end ap) None"
  shows "no_double_booking s'"
  using assms by (auto simp: no_double_booking_def sorted_wrt_append has_employee_conflict_def list_ex_iff clash_def)

text \<open>
  The contract of a scheduling operation, whoever asks for it: it keeps the diary free of
  double-bookings.
\<close>

locale diary_keeper =
  fixes op :: "'k \<Rightarrow> db \<Rightarrow> db"
  assumes keeps: "no_double_booking s \<Longrightarrow> no_double_booking (op k s)"
begin

lemma fold_keeps: "no_double_booking s \<Longrightarrow> no_double_booking (fold op ks s)"
  by (induction ks arbitrary: s) (simp_all add: keeps)

lemma never_clash:
  assumes "no_double_booking s" "i < j" "j < length (db_appointments (op k s))"
  shows "\<not> clash (db_appointments (op k s) ! i) (db_appointments (op k s) ! j)"
  using keeps [OF assms(1), of k] assms(2,3) by (simp add: no_double_booking_def sorted_wrt_iff_nth_less)

end

lemma approve_appointments:
  "(\<exists>ap. db_appointments (snd (approve_booking_request s g reviewer i data now)) = db_appointments s @ [ap]
      \<and> \<not> has_employee_conflict s (ap_employee ap) (ap_start ap) (ap_end ap) None)
   \<or> db_appointments (snd (approve_booking_request s g reviewer i data now)) = db_appointments s"
proof (cases "approve_booking_request s g reviewer i data now")
  case (Pair out s')
  show ?thesis
  proof (cases out)
    case (Inr rq')
    from approve_result [OF Pair [unfolded Inr]] Pair show ?thesis by (auto simp: approval_effect_def)
  next
    case (Inl err)
    with Pair have "db_appointments s' = db_appointments s"
      by (auto simp: approve_booking_request_def Let_def split: option.splits if_splits sum.splits prod.splits)
    with Pair show ?thesis by simp
  qed
qed

lemma approve_keeps_diary:
  "no_double_booking s \<Longrightarrow> no_double_booking (snd (approve_booking_request s g reviewer i data now))"
  using approve_appointments [of s g reviewer i data now] no_double_booking_append [of s]
  by (auto simp: no_double_booking_def)

lemma auto_accept_runs:
  "snd (auto_accept_booking_request s g i now) = s
   \<or> (\<exists>e data. ad_type data = None
        \<and> snd (auto_accept_booking_request s g i now) = snd (approve_booking_request s g e i data now))"
proof (cases "find (\<lambda>r. rq_id r = i \<and> rq_garage r = g_id g) (db_requests s)")
  case None
  then show ?thesis by (simp add: auto_accept_booking_request_def)
next
  case (Some rq)
  let ?data = "\<lambda>e. \<lparr>ad_type = None, ad_employee = Some (em_id e), ad_start = None, ad_end = None, ad_automatic = True\<rparr>"
  let ?auto = "\<lambda>e. approve_booking_request s g e (rq_id rq) (?data e) now"
  have leaf: "snd (case ?auto e of (Inr r, s') \<Rightarrow> (Inr (Some r), s')
      | (Inl (Abort code msg), s') \<Rightarrow> if code \<noteq> 409 then (Inl (Abort code msg), s') else (Inr None, s'))
      = snd (?auto e)" for e
    by (simp split: prod.split sum.split http_error.split)
  from find_request(2) [OF Some] have i: "rq_id rq = i" .
  note leaf' = leaf [unfolded i]
  have "snd (auto_accept_booking_request s g i now) \<in> insert s (range (\<lambda>e. snd (approve_booking_request s g e i (?data e) now)))"
    unfolding auto_accept_booking_request_def Some option.case Let_def
    by (cases "rq_status rq = PENDING"; cases "rq_time rq"; cases "find_type s (rq_type rq)")
      (auto simp: if_distrib [of snd] leaf' i image_iff split: option.split)
  then show ?thesis by (auto intro!: exI [of _ "?data _"])
qed

lemma auto_accept_db:
  "snd (auto_accept_booking_request s g i now) = s
   \<or> (\<exists>e data. snd (auto_accept_booking_request s g i now) = snd (approve_booking_request s g e i data now))"
  using auto_accept_runs [of s g i now] by blast

interpretation approving: diary_keeper
  "\<lambda>(g, reviewer, i, data, now) s. snd (approve_booking_request s g reviewer i data now)"
  by unfold_locales (auto simp: approve_keeps_diary)

interpretation auto_accepting: diary_keeper "\<lambda>(g, i, now) s. snd (auto_accept_booking_request s g i now)"
proof
  fix s and k :: "garage \<times> nat \<times> int"
  assume "no_double_booking s"
  then show "no_double_booking ((case k of (g, i, now) \<Rightarrow> \<lambda>s. snd (auto_accept_booking_request s g i now)) s)"
    by (cases k) (metis (no_types, lifting) approve_keeps_diary auto_accept_db case_prod_conv)
qed

subsection \<open>Bays\<close>

lemma occupancy_near:
  "b \<le> t \<Longrightarrow> t \<le> f \<Longrightarrow>
    occupancy (map (\<lambda>a. (ap_start a, ap_end a)) (filter (\<lambda>a. P a \<and> Q a \<and> ap_start a \<le> f \<and> b \<le> ap_end a) as)) t
    = occupancy (map (\<lambda>a. (ap_start a, ap_end a)) (filter (\<lambda>a. P a \<and> Q a) as)) t"
  by (induction as) (auto simp: active_at_def)

lemma pending_duration_cong:
  assumes "db_types s' = db_types s"
  shows "pending_request_duration s' r st = pending_request_duration s r st"
  unfolding pending_request_duration_def find_type_def assms ..

lemma usage_intervals_cong:
  "db_types s' = db_types s \<Longrightarrow> usage_intervals s' g as rs st = usage_intervals s g as rs st"
  unfolding usage_intervals_def Let_def by (simp only: pending_duration_cong [of s' s])

lemma usage_occupancy:
  "occupancy (usage_intervals s g as rs st) t = occupancy (map (\<lambda>a. (ap_start a, ap_end a)) as) t
     + occupancy (usage_intervals s g [] rs st) t"
  by (simp add: usage_intervals_def)

definition holding_on :: "garage \<Rightarrow> date \<Rightarrow> booking_request \<Rightarrow> bool" where
  "holding_on g day r \<longleftrightarrow> rq_garage r = g_id g \<and> rq_status r \<in> set holding_statuses
     \<and> rq_date r = day \<and> rq_time r \<noteq> None"

lemma filter_row_set_gone:
  assumes "\<not> P r'"
  shows "filter P (row_set key r' rows) = filter (\<lambda>r. key r \<noteq> key r' \<and> P r) rows"
  using assms by (induction rows) (auto simp: row_set_def)

text \<open>One more appointment on top of what its slot was measured to hold.\<close>

lemma added_fits:
  assumes "proper_usage s" "0 \<le> default_appointment_minutes (resolve_settings g)"
    and use: "slot_capacity_usage s g (ap_start ap) (duration_minutes (ap_start ap) (ap_end ap)) exclude None walkin = (used, capacity)"
    and day: "day = local_day_for (g_zone g) (ap_start ap)"
    and t: "ap_start ap \<le> t" "t < ap_start ap + duration_minutes (ap_start ap) (ap_end ap) * minute_us"
      "fst (local_day_bounds_utc (g_zone g) day) \<le> t" "t \<le> snd (local_day_bounds_utc (g_zone g) day)"
    and added: "db_appointments s' = db_appointments s @ [ap]" "ap_garage ap = g_id g" "live_appointment ap" "db_types s' = db_types s"
    and held: "filter (holding_on g day) (db_requests s') = filter (\<lambda>r. exclude \<noteq> Some (rq_id r) \<and> holding_on g day r) (db_requests s)"
  shows "bays_in_use s' g day t \<le> used + 1"
proof -
  let ?st = "resolve_settings g" and ?d = "duration_minutes (ap_start ap) (ap_end ap)"
  let ?live = "\<lambda>a. ap_garage a = g_id g \<and> ap_status a \<noteq> AP_CANCELLED"
  let ?span = "\<lambda>a. (ap_start a, ap_end a)"
  obtain appts pend where load: "load_day_usage s g day = (appts, pend)" by fastforce
  let ?pend = "filter (\<lambda>p. exclude \<noteq> Some (rq_id p)) pend"
  let ?ivs = "usage_intervals s g appts ?pend ?st"
  have "filter (\<lambda>a. None \<noteq> Some (ap_id a)) appts = appts" by simp
  with use have used: "used = peak_overlap ?ivs (ap_start ap) (ap_start ap + ?d * minute_us)"
    by (simp add: slot_capacity_usage_def slot_usage_def Let_def load day [symmetric])
  from load have sub: "set appts \<subseteq> set (db_appointments s)" "set ?pend \<subseteq> set (db_requests s)"
    by (auto simp: load_day_usage_def Let_def)
  have occ: "occupancy ?ivs t \<le> used"
    unfolding used by (rule bays.peak_upper [OF proper_usage_intervals [OF assms(1,2) sub] t(1,2)])
  have appt_occ: "occupancy (map ?span appts) t = occupancy (map ?span (filter ?live (db_appointments s))) t"
    using load occupancy_near [OF t(3,4), of "\<lambda>a. ap_garage a = g_id g" "\<lambda>a. ap_status a \<noteq> AP_CANCELLED"
      "db_appointments s"]
    by (auto simp: load_day_usage_def Let_def local_day_bounds_utc_def)
  have "pend = filter (holding_on g day) (db_requests s)"
    using load unfolding load_day_usage_def Let_def holding_on_def [abs_def] by simp
  then have pend': "filter (holding_on g day) (db_requests s') = ?pend"
    unfolding held filter_filter by (auto intro!: filter_cong)
  have "bays_in_use s' g day t
      = occupancy (usage_intervals s' g (filter ?live (db_appointments s')) ?pend ?st) t"
    unfolding bays_in_use_def pend' [unfolded holding_on_def, symmetric] ..
  also have "\<dots> = occupancy (map ?span (filter ?live (db_appointments s'))) t
      + occupancy (usage_intervals s g [] ?pend ?st) t"
    unfolding usage_intervals_cong [OF added(4)] by (rule usage_occupancy)
  also have "\<dots> \<le> occupancy ?ivs t + 1"
    using added(1-3) appt_occ usage_occupancy [of s g appts ?pend ?st t]
    by (simp add: live_appointment_def)
  finally show ?thesis using occ by simp
qed

lemma approve_bays:
  assumes "proper_usage s" "0 \<le> default_appointment_minutes (resolve_settings g)"
    "approve_booking_request s g reviewer i data now = (Inr rq', s')"
    "ap = last (db_appointments s')" "day = local_day_for (g_zone g) (ap_start ap)"
    "ap_start ap \<le> t" "t < ap_start ap + duration_minutes (ap_start ap) (ap_end ap) * minute_us"
    "fst (local_day_bounds_utc (g_zone g) day) \<le> t" "t \<le> snd (local_day_bounds_utc (g_zone g) day)"
  shows "bays_in_use s' g day t
      + reserved_at (load_reserved_windows s' g day) (ap_start ap)
          (ap_start ap + duration_minutes (ap_start ap) (ap_end ap) * minute_us)
    \<le> slot_capacity s' g (resolve_settings g)"
proof -
  let ?d = "duration_minutes (ap_start ap) (ap_end ap)"
  from approve_result [OF assms(3)] obtain rq ap0 e where ef: "approval_effect s g i now rq' s' rq ap0 e" by blast
  then have rq: "rq_id rq = i" "rq_id rq' = rq_id rq" "rq_status rq' = APPROVED"
    and app0: "db_appointments s' = db_appointments s @ [ap0]" "ap_garage ap0 = g_id g" "live_appointment ap0"
    and same: "db_requests s' = row_set rq_id rq' (db_requests s)" "db_types s' = db_types s"
      "db_employees s' = db_employees s" "db_windows s' = db_windows s"
    and full0: "\<not> request_capacity_full s g i (ap_start ap0) (ap_end ap0)"
    by (simp_all only: approval_effect_def not_False_eq_True)
  have "ap0 = ap" using assms(4) app0(1) by simp
  note app = app0 [unfolded this] and full = full0 [unfolded this]
  obtain used capacity where use: "slot_capacity_usage s g (ap_start ap) ?d (Some i) None True = (used, capacity)" by fastforce
  with full have "used < capacity" by (simp add: request_capacity_full_def)
  moreover have "capacity = slot_capacity s g (resolve_settings g)
      - reserved_at (load_reserved_windows s g day) (ap_start ap) (ap_start ap + ?d * minute_us)"
    using use by (simp add: slot_capacity_usage_def Let_def assms(5) split: prod.splits)
  moreover have "\<not> holding_on g day rq'" by (simp add: holding_on_def holding_statuses_def rq(3))
  then have gone: "filter (holding_on g day) (db_requests s')
      = filter (\<lambda>r. Some i \<noteq> Some (rq_id r) \<and> holding_on g day r) (db_requests s)"
    unfolding same(1) by (auto simp: filter_row_set_gone rq intro!: filter_cong)
  have "bays_in_use s' g day t \<le> used + 1"
    by (rule added_fits [OF assms(1,2) use assms(5-9) app same(2) gone])
  moreover have "slot_capacity s' g (resolve_settings g) = slot_capacity s g (resolve_settings g)"
    "load_reserved_windows s' g day = load_reserved_windows s g day"
    unfolding slot_capacity_def load_reserved_windows_def same(3,4) by simp_all
  ultimately show ?thesis by simp
qed

subsection \<open>Lifecycle\<close>

lemma approve_again_refused:
  assumes "approve_booking_request s g reviewer i data now = (Inr rq', s')" "distinct (map rq_id (db_requests s))"
  shows "approve_booking_request s' g reviewer' i data' now' = (Inl (Abort 409 ''already decided''), s')"
proof -
  from approve_result [OF assms(1)] obtain rq ap e where ef: "approval_effect s g i now rq' s' rq ap e" by blast
  then have r: "rq \<in> set (db_requests s)" "rq_id rq = i" "rq_id rq' = i" "rq_garage rq' = g_id g"
    "rq_status rq' = APPROVED" "db_requests s' = row_set rq_id rq' (db_requests s)"
    by (simp_all add: approval_effect_def)
  have ids: "distinct (map rq_id (db_requests s'))" using assms(2) by (simp add: r(6))
  have "rq_id rq' \<in> rq_id ` set (db_requests s)" using r(1-3) by force
  from set_row_set [OF this] have mem: "rq' \<in> set (db_requests s')" by (simp add: r(6))
  have "x = rq'" if "find (\<lambda>r. rq_id r = i \<and> rq_garage r = g_id g) (db_requests s') = Some x" for x
  proof -
    from find_request [OF that] have "x \<in> set (db_requests s')" "rq_id x = rq_id rq'" using r(3) by simp_all
    with mem ids show ?thesis by (metis distinct_map inj_onD)
  qed
  moreover have "find (\<lambda>r. rq_id r = i \<and> rq_garage r = g_id g) (db_requests s') \<noteq> None"
    using mem r(3,4) by (auto simp: find_None_iff)
  ultimately have "find (\<lambda>r. rq_id r = i \<and> rq_garage r = g_id g) (db_requests s') = Some rq'" by auto
  then show ?thesis using r(5) by (simp add: approve_booking_request_def)
qed

lemma request_sync_releases:
  assumes "ids_ok s" "rq_status rq \<in> set terminal_request_statuses" "ds_code_id (rq_discount rq) \<noteq> None"
    "redemption_for_request s (rq_id rq) = Some r" "rd_appointment r = None"
  shows "\<exists>r'. redemption_for_request (sync_booking_request_redemption s rq now) (rq_id rq) = Some r'
    \<and> rd_status r' = RELEASED"
proof -
  from assms(2) have "wanted_status (rq_status rq) = RELEASED"
    by (auto simp: wanted_status_def terminal_request_statuses_def)
  with sync_request_eq [OF assms(3-5), of now]
  have "sync_booking_request_redemption s rq now = put_redemption (set_status r RELEASED now) s"
    by (simp add: move_to_RELEASED)
  moreover have "redemption_for_request (put_redemption (set_status r RELEASED now) s) (rq_id rq)
      = Some (set_status r RELEASED now)"
    by (rule redemption_for_request_put [OF assms(1,4)]) simp_all
  ultimately show ?thesis by simp
qed

text \<open>The sweep of passed requests, request by request.\<close>

definition passed :: "db \<Rightarrow> uid option \<Rightarrow> instant \<Rightarrow> booking_request \<Rightarrow> booking_request" where
  "passed s garage_id now r =
     (if rq_status r = PENDING \<and> in_scope garage_id r \<and> row_stale s now r then r\<lparr>rq_status := EXPIRED\<rparr> else r)"

lemma release_for_requests [simp]:
  "db_requests (release_for_booking_requests s ids now) = db_requests s"
  "db_garages (release_for_booking_requests s ids now) = db_garages s"
  by (simp_all add: release_for_booking_requests_def release_where_def)

lemma expire_stale_requests:
  assumes "distinct (map rq_id (db_requests s))"
  shows "db_requests (snd (expire_stale_booking_requests s garage_id now)) = map (passed s garage_id now) (db_requests s)"
proof -
  let ?sel = "\<lambda>r. rq_status r = PENDING \<and> in_scope garage_id r \<and> row_stale s now r"
  let ?ids = "map rq_id (filter ?sel (db_requests s))"
  have hit: "rq_id r \<in> set ?ids \<and> rq_status r = PENDING \<longleftrightarrow> ?sel r" if "r \<in> set (db_requests s)" for r
    using that assms by (auto simp: distinct_map dest: inj_onD)
  have eq: "map (\<lambda>r. if rq_id r \<in> set ?ids \<and> rq_status r = PENDING then r\<lparr>rq_status := EXPIRED\<rparr> else r) (db_requests s)
      = map (passed s garage_id now) (db_requests s)"
    by (rule map_cong [OF refl]) (simp only: hit passed_def)
  show ?thesis
  proof (cases "?ids = []")
    case True
    then have "map (passed s garage_id now) (db_requests s) = db_requests s"
      by (auto simp: filter_empty_conv passed_def intro!: map_idI)
    with True show ?thesis by (simp add: expire_stale_booking_requests_def)
  next
    case False
    then have "db_requests (snd (expire_stale_booking_requests s garage_id now))
       = map (\<lambda>r. if rq_id r \<in> set ?ids \<and> rq_status r = PENDING then r\<lparr>rq_status := EXPIRED\<rparr> else r) (db_requests s)"
      unfolding expire_stale_booking_requests_def Let_def by simp
    with eq show ?thesis by (simp only:)
  qed
qed

subsection \<open>Example for the witnesses\<close>

definition mechanic :: employee where
  "mechanic = \<lparr>em_id = 2, em_garage = g_id demo_garage, em_active = True\<rparr>"

definition service_type :: appointment_type where
  "service_type = deposit_type\<lparr>ty_garage := g_id demo_garage\<rparr>"

definition pending_row :: booking_request where
  "pending_row = held_row\<lparr>rq_garage := g_id demo_garage, rq_status := PENDING, rq_type := Some 4,
     rq_duration := Some 60, rq_time := Some (9 * hour_us), rq_hold_expires := None\<rparr>"

definition review_db :: db where
  "review_db = demo_db\<lparr>db_employees := [mechanic], db_types := [service_type], db_requests := [pending_row]\<rparr>"

definition approve_data :: approval_data where
  "approve_data = \<lparr>ad_type = None, ad_employee = Some 2, ad_start = None, ad_end = None, ad_automatic = False\<rparr>"

lemmas review_demo = mechanic_def service_type_def pending_row_def review_db_def approve_data_def
  deposit_type_def payment_demo

lemma review_checks:
  "approval_checks review_db demo_garage pending_row approve_data
    = Inr (service_type, 2, day_us + 9 * hour_us, day_us + 10 * hour_us)"
  by (simp add: approval_checks_def resolve_appointment_slot_def has_employee_conflict_def
      request_capacity_full_def duration_minutes_def live_appointment_def Let_def review_demo calendar_eval
      holding_statuses_def)

lemma review_approved:
  "\<exists>rq' s'. approve_booking_request review_db demo_garage mechanic 5 approve_data 0 = (Inr rq', s')
     \<and> last (db_appointments s') = approved_appointment (review_db\<lparr>db_customers :=
          [\<lparr>cu_id = 100, cu_garage = g_id demo_garage, cu_first = ''A'', cu_last = ''B'', cu_email = None,
            cu_phone = None, cu_active = True\<rparr>], db_next := 101\<rparr>)
        pending_row service_type 2 100 None (day_us + 9 * hour_us) (day_us + 10 * hour_us)"
proof -
  have f: "find (\<lambda>r. rq_id r = 5 \<and> rq_garage r = g_id demo_garage) (db_requests review_db) = Some pending_row"
    by (simp add: review_demo)
  have st: "rq_status pending_row = PENDING" "\<not> is_request_stale demo_garage pending_row 0"
    by (simp_all add: is_request_stale_def review_demo calendar_eval Let_def)
  have rs: "resolve_customer_and_vehicle review_db (g_id demo_garage) (rq_customer pending_row) (rq_contact pending_row) (rq_item pending_row)
      = (Inr (100, None), review_db\<lparr>db_customers :=
          [\<lparr>cu_id = 100, cu_garage = g_id demo_garage, cu_first = ''A'', cu_last = ''B'', cu_email = None,
            cu_phone = None, cu_active = True\<rparr>], db_next := 101\<rparr>)"
    by (simp add: resolve_customer_and_vehicle_def resolve_customer_def match_customer_def truthy_def Let_def
        review_demo demo_db_def fresh_id_def)
  show ?thesis
    by (simp add: approve_booking_request_def f st review_checks rs Let_def)
qed

lemma review_usage: "proper_usage review_db"
  by (simp add: proper_usage_def review_demo calendar_eval)

lemma review_diary: "no_double_booking review_db"
  by (simp add: no_double_booking_def review_demo demo_defs)

subsection \<open>Properties\<close>

text \<open>One request to the handlers that put appointments into the diary on a customer's behalf.\<close>

datatype diary_request =
  Approve garage employee uid approval_data instant
| Auto_accept garage uid instant

fun handle_diary :: "diary_request \<Rightarrow> db \<Rightarrow> db" where
  "handle_diary (Approve g reviewer i data now) s = snd (approve_booking_request s g reviewer i data now)"
| "handle_diary (Auto_accept g i now) s = snd (auto_accept_booking_request s g i now)"

interpretation diary: diary_keeper handle_diary
proof
  fix s k
  assume "no_double_booking s"
  then show "no_double_booking (handle_diary k s)"
    using approving.keeps [of s "(_, _, _, _, _)"] auto_accepting.keeps [of s "(_, _, _)"] by (cases k) auto
qed

text \<open>
  No employee is booked twice: however many approvals and automatic acceptances are handled, in
  any order, no two live appointments of the same employee ever overlap.
\<close>

theorem no_employee_double_booked:
  assumes "no_double_booking s" "i < j" "j < length (db_appointments (fold handle_diary requests s))"
  shows "\<not> clash (db_appointments (fold handle_diary requests s) ! i) (db_appointments (fold handle_diary requests s) ! j)"
  using diary.fold_keeps [OF assms(1), of requests] assms(2,3)
  by (simp add: no_double_booking_def sorted_wrt_iff_nth_less)

theorem no_employee_double_booked_witness:
  "\<exists>s'. s' = fold handle_diary [Approve demo_garage mechanic 5 approve_data 0] review_db
     \<and> length (db_appointments s') = 2 \<and> \<not> clash (db_appointments s' ! 0) (db_appointments s' ! 1)"
proof -
  let ?s = "fold handle_diary [Approve demo_garage mechanic 5 approve_data 0] review_db"
  from review_approved obtain rq' s' where
    ok: "approve_booking_request review_db demo_garage mechanic 5 approve_data 0 = (Inr rq', s')" by blast
  from approve_result [OF this] obtain ap where "db_appointments s' = db_appointments review_db @ [ap]"
    unfolding approval_effect_def by blast
  moreover have "length (db_appointments review_db) = 1" by (simp add: review_demo demo_defs)
  ultimately have len: "length (db_appointments ?s) = 2" by (simp add: ok)
  with no_employee_double_booked [OF review_diary, of 0 1 "[Approve demo_garage mechanic 5 approve_data 0]"]
  show ?thesis by auto
qed

text \<open>
  C25: Approving a request keeps the bays within capacity: at every instant of the whole minutes the new
  appointment lasts (while the local day lasts), the live appointments with the new one, the requests still
  holding a slot and the walk-in reservation fit - the request's own reservation is replaced, not counted
  twice. The code rounds the length it checks down to whole minutes; what it leaves unchecked is the rest of
  the last minute, less than sixty seconds, and nothing for an appointment of whole minutes.
\<close>

theorem approval_fits_the_bays:
  assumes "proper_usage s" "0 \<le> default_appointment_minutes (resolve_settings g)"
    "approve_booking_request s g reviewer i data now = (Inr rq', s')"
    "ap = last (db_appointments s')" "day = local_day_for (g_zone g) (ap_start ap)"
    "ap_start ap \<le> t" "t < ap_start ap + duration_minutes (ap_start ap) (ap_end ap) * minute_us"
    "fst (local_day_bounds_utc (g_zone g) day) \<le> t" "t \<le> snd (local_day_bounds_utc (g_zone g) day)"
  shows "bays_in_use s' g day t
      + reserved_at (load_reserved_windows s' g day) (ap_start ap)
          (ap_start ap + duration_minutes (ap_start ap) (ap_end ap) * minute_us)
    \<le> slot_capacity s' g (resolve_settings g)
    \<and> ap_end ap - (ap_start ap + duration_minutes (ap_start ap) (ap_end ap) * minute_us) \<in> {0..<minute_us}
    \<and> (minute_us dvd ap_end ap - ap_start ap
        \<longleftrightarrow> ap_end ap = ap_start ap + duration_minutes (ap_start ap) (ap_end ap) * minute_us)"
proof -
  let ?len = "ap_end ap - ap_start ap"
  have "ap_end ap - (ap_start ap + duration_minutes (ap_start ap) (ap_end ap) * minute_us) = ?len mod minute_us"
    by (simp add: duration_minutes_def minus_div_mult_eq_mod [symmetric])
  moreover have "?len mod minute_us \<in> {0..<minute_us}" by simp
  ultimately show ?thesis using approve_bays [OF assms] by (auto simp: dvd_eq_mod_eq_0)
qed

theorem approval_fits_the_bays_witness:
  "\<exists>rq' s'. approve_booking_request review_db demo_garage mechanic 5 approve_data 0 = (Inr rq', s')
     \<and> bays_in_use s' demo_garage 1 (day_us + 9 * hour_us)
         + reserved_at (load_reserved_windows s' demo_garage 1) (day_us + 9 * hour_us) (day_us + 10 * hour_us)
       \<le> slot_capacity s' demo_garage (resolve_settings demo_garage)"
proof -
  from review_approved obtain rq' s' where
    ok: "approve_booking_request review_db demo_garage mechanic 5 approve_data 0 = (Inr rq', s')"
    and ap: "ap_start (last (db_appointments s')) = day_us + 9 * hour_us"
      "ap_end (last (db_appointments s')) = day_us + 10 * hour_us" by auto
  have "bays_in_use s' demo_garage 1 (day_us + 9 * hour_us)
      + reserved_at (load_reserved_windows s' demo_garage 1) (ap_start (last (db_appointments s')))
          (ap_start (last (db_appointments s')) + duration_minutes (ap_start (last (db_appointments s')))
             (ap_end (last (db_appointments s'))) * minute_us)
    \<le> slot_capacity s' demo_garage (resolve_settings demo_garage)"
    by (rule conjunct1 [OF approval_fits_the_bays [OF review_usage _ ok]])
      (simp_all add: ap duration_minutes_def calendar_eval)
  with ok show ?thesis by (auto simp: ap duration_minutes_def)
qed

text \<open>
  A request is approved at most once: an approval only succeeds on a pending request whose time
  has not passed, adds exactly one appointment - for an active employee of the business who was free -
  and any later approval of the same request is refused and changes nothing.
\<close>

theorem approval_happens_once:
  assumes "approve_booking_request s g reviewer i data now = (Inr rq', s')" "distinct (map rq_id (db_requests s))"
  shows "(\<exists>rq ap e. approval_effect s g i now rq' s' rq ap e)
    \<and> approve_booking_request s' g reviewer' i data' now' = (Inl (Abort 409 ''already decided''), s')"
  using approve_result [OF assms(1)] approve_again_refused [OF assms] by blast

theorem approval_happens_once_witness:
  "\<exists>rq' s'. approve_booking_request review_db demo_garage mechanic 5 approve_data 0 = (Inr rq', s')
     \<and> approve_booking_request s' demo_garage mechanic 5 approve_data 1 = (Inl (Abort 409 ''already decided''), s')"
proof -
  from review_approved obtain rq' s' where
    ok: "approve_booking_request review_db demo_garage mechanic 5 approve_data 0 = (Inr rq', s')" by auto
  have "distinct (map rq_id (db_requests review_db))" by (simp add: review_demo)
  from approval_happens_once [OF ok this] ok show ?thesis by blast
qed

text \<open>
  The sweep of passed requests expires exactly the pending requests in scope whose preferred time
  is over in their business's own zone, touches no other request, and running it again finds nothing.
\<close>

theorem passed_requests_expire_once:
  assumes "distinct (map rq_id (db_requests s))"
  shows "db_requests (snd (expire_stale_booking_requests s garage_id now)) = map (passed s garage_id now) (db_requests s)
    \<and> fst (expire_stale_booking_requests (snd (expire_stale_booking_requests s garage_id now)) garage_id now) = 0"
proof -
  let ?s = "snd (expire_stale_booking_requests s garage_id now)"
  note reqs = expire_stale_requests [OF assms, of garage_id now]
  have "db_garages ?s = db_garages s" by (simp add: expire_stale_booking_requests_def Let_def)
  then have stale: "row_stale ?s now r = row_stale s now r" for r by (simp add: row_stale_def)
  have gar: "in_scope garage_id (passed s garage_id now r) = in_scope garage_id r"
    "row_stale s now (passed s garage_id now r) = row_stale s now r" for r
    by (simp_all add: passed_def in_scope_def row_stale_def is_request_stale_def split: option.split)
  have "\<not> (rq_status (passed s garage_id now r) = PENDING \<and> in_scope garage_id (passed s garage_id now r)
      \<and> row_stale ?s now (passed s garage_id now r))" for r
    unfolding stale gar by (auto simp: passed_def split: if_splits)
  then have "filter (\<lambda>r. rq_status r = PENDING \<and> in_scope garage_id r \<and> row_stale ?s now r) (db_requests ?s) = []"
    unfolding reqs by (auto simp: filter_empty_conv)
  then have "fst (expire_stale_booking_requests ?s garage_id now) = 0"
    by (simp add: expire_stale_booking_requests_def)
  with reqs show ?thesis by simp
qed

theorem passed_requests_expire_once_witness:
  "map rq_status (db_requests (snd (expire_stale_booking_requests review_db None (3 * day_us)))) = [EXPIRED]"
proof -
  have "distinct (map rq_id (db_requests review_db))" by (simp add: review_demo)
  from passed_requests_expire_once [OF this, of None "3 * day_us"]
  show ?thesis
    by (simp add: passed_def row_stale_def row_find_def in_scope_def is_request_stale_def review_demo calendar_eval Let_def)
qed

lemma refund_deposit_charges_back:
  assumes "locked_active_payment s rq = Some p" "pay_status p = P_SUCCEEDED" "refund_deposit s rq pvs now = (Inr out, s')"
  shows "CALL_REFUND (pay_id p) \<in> set (db_calls s')"
    "\<exists>p' \<in> set (db_payments s'). pay_id p' = pay_id p \<and> refund_ish (pay_status p')"
    "db_redemptions s' = db_redemptions s"
proof -
  from locked_active_paymentD [OF assms(1)] have p: "p \<in> set (db_payments s)" by simp
  from assms obtain i where i: "pay_provider_id p = Some i"
    by (auto simp: refund_deposit_def PAYMENT_STATUSES_CHARGED_def split: option.splits)
  have row: "\<exists>x \<in> set (row_set pay_id q (db_payments s)). pay_id x = pay_id p \<and> refund_ish (pay_status x)"
    if "pay_id q = pay_id p" "refund_ish (pay_status q)" for q
  proof -
    have "pay_id q \<in> pay_id ` set (db_payments s)" using p that(1) by force
    from set_row_set [OF this] that show ?thesis by blast
  qed
  have "\<exists>q. out = Some q \<and> pay_id q = pay_id p \<and> refund_ish (pay_status q)
      \<and> s' = put_payment q (log_call (CALL_REFUND (pay_id p)) s)"
    using assms i
    by (auto simp: refund_deposit_def Let_def PAYMENT_STATUSES_CHARGED_def refund_ish_def
        split: option.splits)
  then obtain q where q: "pay_id q = pay_id p" "refund_ish (pay_status q)"
    "s' = put_payment q (log_call (CALL_REFUND (pay_id p)) s)" by blast
  show "CALL_REFUND (pay_id p) \<in> set (db_calls s')" "db_redemptions s' = db_redemptions s"
    by (simp_all add: q(3))
  show "\<exists>p' \<in> set (db_payments s'). pay_id p' = pay_id p \<and> refund_ish (pay_status p')"
    using row [OF q(1,2)] by (simp add: q(3) put_payment_def)
qed

text \<open>
  Rejecting a paid request gives everything back: the customer's deposit is sent to the provider
  for refund and recorded as refunding, refunded or failed to refund, and the discount code's use is
  released.
\<close>

theorem rejection_gives_everything_back:
  assumes "reject_booking_request s g staff i pvs now = (Inr rq', s')" "ids_ok s"
    "locked_active_payment s rq' = Some p" "pay_status p = P_SUCCEEDED"
    "ds_code_id (rq_discount rq') \<noteq> None" "redemption_for_request s i = Some r" "rd_appointment r = None"
  shows "rq_status rq' = REJECTED \<and> CALL_REFUND (pay_id p) \<in> set (db_calls s')
    \<and> (\<exists>p' \<in> set (db_payments s'). pay_id p' = pay_id p \<and> refund_ish (pay_status p'))
    \<and> (\<exists>r'. redemption_for_request s' i = Some r' \<and> rd_status r' = RELEASED)"
proof -
  let ?s1 = "sync_booking_request_redemption (put_request rq' s) rq' now"
  from assms(1) have rq': "rq_status rq' = REJECTED" "rq_id rq' = i"
    and ref: "\<exists>out s2. refund_deposit ?s1 rq' pvs now = (Inr out, s2) \<and> s' = emit (BOOKING_REQUEST_REJECTED i) s2"
    by (auto simp: reject_booking_request_def Let_def dest: find_request(2)
        split: option.splits if_splits sum.splits prod.splits)
  then obtain out s2 where s2: "refund_deposit ?s1 rq' pvs now = (Inr out, s2)"
    "s' = emit (BOOKING_REQUEST_REJECTED i) s2" by blast
  have act: "locked_active_payment ?s1 rq' = Some p"
    using assms(3) by (simp add: locked_active_payment_def payments_of_def)
  note gives = refund_deposit_charges_back [OF act assms(4) s2(1)]
  have "\<exists>r'. redemption_for_request ?s1 (rq_id rq') = Some r' \<and> rd_status r' = RELEASED"
    by (rule request_sync_releases)
      (use assms(2,5,6,7) rq' in \<open>simp_all add: ids_ok_def redemption_for_request_def terminal_request_statuses_def\<close>)
  with gives rq' show ?thesis by (simp add: s2(2) redemption_for_request_def)
qed

definition held_use :: redemption where
  "held_use = \<lparr>rd_id = 8, rd_code = 3, rd_request = Some 5, rd_appointment = None, rd_customer = None,
     rd_amount = 500, rd_status = CONSUMED, rd_single_use = True, rd_reserved_at = None, rd_consumed_at = None,
     rd_released_at = None\<rparr>"

definition paid_review_db :: db where
  "paid_review_db = review_db\<lparr>db_codes := [demo_code], db_redemptions := [held_use],
     db_requests := [pending_row\<lparr>rq_discount := apply_snapshot demo_result\<rparr>],
     db_payments := [paid_row\<lparr>pay_garage := g_id demo_garage\<rparr>]\<rparr>"

theorem rejection_gives_everything_back_witness:
  "\<exists>rq' s'. reject_booking_request paid_review_db demo_garage mechanic 5 (\<lambda>n. demo_adapter) 0 = (Inr rq', s')
     \<and> CALL_REFUND 7 \<in> set (db_calls s')
     \<and> (\<exists>r'. redemption_for_request s' 5 = Some r' \<and> rd_status r' = RELEASED)"
proof -
  let ?rq = "pending_row\<lparr>rq_discount := apply_snapshot demo_result\<rparr>"
  let ?rq' = "?rq\<lparr>rq_status := REJECTED, rq_reviewer := Some 2, rq_reviewed_at := Some 0\<rparr>"
  note run = paid_review_db_def held_use_def apply_snapshot_def demo_result_def demo_code_def review_demo
  have f: "find (\<lambda>r. rq_id r = 5 \<and> rq_garage r = g_id demo_garage) (db_requests paid_review_db) = Some ?rq"
    by (simp add: run)
  have st: "rq_status ?rq = PENDING" "\<not> is_request_stale demo_garage ?rq 0"
    by (simp_all add: is_request_stale_def run calendar_eval Let_def)
  have act: "locked_active_payment paid_review_db ?rq' = Some (paid_row\<lparr>pay_garage := g_id demo_garage\<rparr>)"
    by (simp add: locked_active_payment_def payments_of_def run Let_def)
  then have "\<exists>out s2. refund_deposit (sync_booking_request_redemption (put_request ?rq' paid_review_db) ?rq' 0) ?rq'
      (\<lambda>n. demo_adapter) 0 = (Inr out, s2)"
    by (simp add: refund_deposit_def locked_active_payment_def payments_of_def Let_def paid_row_def demo_adapter_def
        split: option.split)
  then obtain s' where rj: "reject_booking_request paid_review_db demo_garage mechanic 5 (\<lambda>n. demo_adapter) 0
      = (Inr ?rq', s')"
    using st by (auto simp: reject_booking_request_def f Let_def mechanic_def)
  have "rq_status ?rq' = REJECTED \<and> CALL_REFUND (pay_id (paid_row\<lparr>pay_garage := g_id demo_garage\<rparr>)) \<in> set (db_calls s')
    \<and> (\<exists>p' \<in> set (db_payments s'). pay_id p' = pay_id (paid_row\<lparr>pay_garage := g_id demo_garage\<rparr>)
         \<and> refund_ish (pay_status p'))
    \<and> (\<exists>r'. redemption_for_request s' 5 = Some r' \<and> rd_status r' = RELEASED)"
    by (rule rejection_gives_everything_back [OF rj _ act, where r = held_use])
      (simp_all add: run ids_ok_def redemption_for_request_def demo_defs)
  with rj show ?thesis by (simp add: paid_row_def)
qed

end
