(* ===== verification/Terms.thy ===== *)
theory Terms
  imports Booking_Requests
begin

text \<open>
  Terms and conditions, \<open>app/terms/service.py\<close>: the versions of a business's wording, the acceptance a
  web submission must carry, and the texted link that holds a conversational booking until its
  customer has accepted. The token of a link and the recovery token are passed in as drawn; the
  stored hash is modelled by the token itself. Links and page payloads are not modelled.
\<close>

subsection \<open>The business's wording\<close>

definition normalise_terms :: "string option \<Rightarrow> string option" where
  "normalise_terms t =
     (case t of None \<Rightarrow> None | Some x \<Rightarrow> if strip_text x = [] then None else Some (strip_text x))"

definition has_terms :: "garage \<Rightarrow> bool" where
  "has_terms g \<longleftrightarrow> truthy (g_terms g) \<and> g_terms_version g \<noteq> None"

definition get_version :: "db \<Rightarrow> uid \<Rightarrow> int option \<Rightarrow> terms_version option" where
  "get_version s garage_id version =
     (case version of
        None \<Rightarrow> None
      | Some v \<Rightarrow> find (\<lambda>t. tv_garage t = garage_id \<and> tv_version t = v) (db_terms s))"

definition current_terms :: "db \<Rightarrow> garage \<Rightarrow> terms_version option" where
  "current_terms s g = (if \<not> has_terms g then None else get_version s (g_id g) (g_terms_version g))"

definition latest_version :: "db \<Rightarrow> uid \<Rightarrow> terms_version option" where
  "latest_version s garage_id =
     (case sort_key (\<lambda>t. - tv_version t) (filter (\<lambda>t. tv_garage t = garage_id) (db_terms s)) of
        [] \<Rightarrow> None | t # _ \<Rightarrow> Some t)"

definition put_garage :: "garage \<Rightarrow> db \<Rightarrow> db" where
  "put_garage g s = s\<lparr>db_garages := row_set g_id g (db_garages s)\<rparr>"

definition save_terms :: "db \<Rightarrow> garage \<Rightarrow> string option \<Rightarrow> garage \<times> db" where
  "save_terms s g new_text =
     (case normalise_terms new_text of
        None \<Rightarrow> let g' = g\<lparr>g_terms := None\<rparr> in (g', put_garage g' s)
      | Some body \<Rightarrow>
          (case latest_version s (g_id g) of
             Some t \<Rightarrow>
               if tv_body t = body
               then let g' = g\<lparr>g_terms_version := Some (tv_version t), g_terms := Some body\<rparr> in (g', put_garage g' s)
               else let g' = g\<lparr>g_terms_version := Some (tv_version t + 1), g_terms := Some body\<rparr>
                    in (g', put_garage g' (s\<lparr>db_terms := db_terms s @
                          [\<lparr>tv_garage = g_id g, tv_version = tv_version t + 1, tv_body = body\<rparr>]\<rparr>))
           | None \<Rightarrow>
               let g' = g\<lparr>g_terms_version := Some 1, g_terms := Some body\<rparr>
               in (g', put_garage g' (s\<lparr>db_terms := db_terms s @
                     [\<lparr>tv_garage = g_id g, tv_version = 1, tv_body = body\<rparr>]\<rparr>))))"

subsection \<open>Acceptance on the web\<close>

text \<open>The two keys of the submission: the ticked box and the version the page showed.\<close>

definition require_web_acceptance :: "garage \<Rightarrow> bool \<Rightarrow> int option \<Rightarrow> http_error + int option" where
  "require_web_acceptance g accepted version =
     (if \<not> has_terms g then Inr None
      else if \<not> accepted then Inl (Abort 422 ''terms_accepted'')
      else if version \<noteq> g_terms_version g then Inl (Abort 409 ''terms_version_mismatch'')
      else Inr (g_terms_version g))"

definition stamp_acceptance :: "booking_request \<Rightarrow> int option \<Rightarrow> instant \<Rightarrow> booking_request" where
  "stamp_acceptance rq version now =
     (case version of
        None \<Rightarrow> rq
      | Some v \<Rightarrow> rq\<lparr>rq_terms_accepted_at := Some now, rq_terms_version := Some v\<rparr>)"

subsection \<open>Acceptance by a texted link\<close>

definition terms_hold_deadline :: "instant \<Rightarrow> int \<Rightarrow> instant" where
  "terms_hold_deadline now minutes = now + minutes * minute_us"

definition hold_for_acceptance :: "booking_request \<Rightarrow> string \<Rightarrow> instant \<Rightarrow> int \<Rightarrow> booking_request" where
  "hold_for_acceptance rq token now minutes =
     rq\<lparr>rq_status := AWAITING_TERMS, rq_hold_expires := Some (terms_hold_deadline now minutes),
        rq_terms_token := Some token\<rparr>"

definition find_by_token :: "db \<Rightarrow> uid \<Rightarrow> string \<Rightarrow> booking_request option" where
  "find_by_token s garage_id token =
     find (\<lambda>r. rq_garage r = garage_id \<and> rq_terms_token r = Some token) (db_requests s)"

datatype acceptance_state = STATE_AWAITING | STATE_ACCEPTED | STATE_EXPIRED | STATE_CLOSED

definition hold_lapsed :: "garage \<Rightarrow> booking_request \<Rightarrow> instant \<Rightarrow> bool" where
  "hold_lapsed g rq now \<longleftrightarrow>
     (case rq_hold_expires rq of None \<Rightarrow> False | Some e \<Rightarrow> e < now) \<or> is_request_stale g rq now"

definition acceptance_state :: "garage \<Rightarrow> booking_request \<Rightarrow> instant \<Rightarrow> acceptance_state" where
  "acceptance_state g rq now =
     (if rq_terms_accepted_at rq \<noteq> None then STATE_ACCEPTED
      else if rq_status rq = EXPIRED \<or> rq_status rq = AWAITING_TERMS \<and> hold_lapsed g rq now then STATE_EXPIRED
      else if rq_status rq = AWAITING_TERMS then STATE_AWAITING
      else STATE_CLOSED)"

text \<open>A rollback undoes the rows; the calls a provider has already received stay.\<close>

definition rolled_back :: "db \<Rightarrow> db \<Rightarrow> db" where
  "rolled_back s s' = s\<lparr>db_calls := db_calls s'\<rparr>"

definition deposit_abort :: "payment_error \<Rightarrow> http_error" where
  "deposit_abort e =
     (case e of
        Payment_unavailable \<Rightarrow> Abort 503 ''deposit payments unavailable''
      | Deposit_config c \<Rightarrow> Abort 422 ''deposit configuration''
      | Provider_error \<Rightarrow> Abort 502 ''could not start the deposit payment''
      | _ \<Rightarrow> Abort 500 ''unhandled'')"

text \<open>What the payment set-up of a business resolves to, and the minutes of a payment hold.\<close>

record payment_setup =
  su_providers :: providers
  su_name :: string
  su_enabled :: bool
  su_configured :: bool
  su_account :: "string option"
  su_hold_minutes :: int

definition start_deposit ::
  "db \<Rightarrow> garage \<Rightarrow> appointment_type \<Rightarrow> booking_request \<Rightarrow> payment_setup \<Rightarrow> instant
     \<Rightarrow> (payment_error + payment \<times> (string option \<times> payment_status)) \<times> db"
where
  "start_deposit s g ty rq su now =
     create_deposit_hold s g ty rq (su_providers su) (su_name su) (su_enabled su) (su_configured su)
       (su_account su) now"

definition accept_deposit ::
  "db \<Rightarrow> garage \<Rightarrow> appointment_type \<Rightarrow> booking_request \<Rightarrow> payment_setup \<Rightarrow> string \<Rightarrow> instant
     \<Rightarrow> (request_status \<times> string option) outcome"
where
  "accept_deposit s g ty stamped su recovery now =
     (let rq' = stamped\<lparr>rq_status := AWAITING_PAYMENT,
                  rq_hold_expires := Some (payment_hold_deadline now (su_hold_minutes su)),
                  rq_recovery_token := Some recovery\<rparr>
      in (case start_deposit (put_request rq' s) g ty rq' su now of
            (Inl e, s') \<Rightarrow> (Inl (deposit_abort e), rolled_back s s')
          | (Inr _, s') \<Rightarrow> (Inr (AWAITING_PAYMENT, Some recovery), s')))"

text \<open>After the commit the request is an ordinary one: its event, then auto-accept.\<close>

definition accept_plain ::
  "db \<Rightarrow> garage \<Rightarrow> booking_request \<Rightarrow> instant \<Rightarrow> (request_status \<times> string option) outcome"
where
  "accept_plain s g stamped now =
     (let rq' = stamped\<lparr>rq_status := PENDING, rq_hold_expires := None\<rparr>;
          s1 = emit (BOOKING_REQUEST_CREATED (rq_id rq')) (put_request rq' s)
      in (case auto_accept_booking_request s1 g (rq_id rq') now of
            (Inl e, s2) \<Rightarrow> (Inl e, s2)
          | (Inr None, s2) \<Rightarrow> (Inr (PENDING, None), s2)
          | (Inr (Some r), s2) \<Rightarrow> (Inr (rq_status r, None), s2)))"

definition accept_by_token ::
  "db \<Rightarrow> garage \<Rightarrow> uid \<Rightarrow> bool \<Rightarrow> int option \<Rightarrow> payment_setup \<Rightarrow> string \<Rightarrow> instant
     \<Rightarrow> (request_status \<times> string option) outcome"
where
  "accept_by_token s g request_id accepted version su recovery now =
     (case find (\<lambda>r. rq_id r = request_id \<and> rq_garage r = g_id g) (db_requests s) of
        None \<Rightarrow> (Inl (Abort 500 ''NoResultFound''), s)
      | Some locked \<Rightarrow>
          (case acceptance_state g locked now of
             STATE_ACCEPTED \<Rightarrow> (Inl (Abort 409 ''terms_already_accepted''), s)
           | STATE_EXPIRED \<Rightarrow>
               (Inl (Abort 409 ''terms_acceptance_expired''),
                if rq_status locked = AWAITING_TERMS
                then put_request (locked\<lparr>rq_status := EXPIRED, rq_hold_expires := None\<rparr>) s else s)
           | STATE_CLOSED \<Rightarrow> (Inl (Abort 409 ''terms_acceptance_closed''), s)
           | STATE_AWAITING \<Rightarrow>
               (case require_web_acceptance g accepted version of
                  Inl e \<Rightarrow> (Inl e, s)
                | Inr v \<Rightarrow>
                    let stamped = stamp_acceptance locked v now
                    in (case find_type s (rq_type locked) of
                          Some ty \<Rightarrow> if ty_deposit_required ty then accept_deposit s g ty stamped su recovery now
                                     else accept_plain s g stamped now
                        | None \<Rightarrow> accept_plain s g stamped now))))"

subsection \<open>The history of a wording\<close>

definition versions_of :: "db \<Rightarrow> uid \<Rightarrow> terms_version list" where
  "versions_of s garage_id = filter (\<lambda>t. tv_garage t = garage_id) (db_terms s)"

definition history_ok :: "db \<Rightarrow> bool" where
  "history_ok s \<longleftrightarrow>
     (\<forall>i. map tv_version (versions_of s i) = map (\<lambda>n. int n + 1) [0..<length (versions_of s i)])"

definition garages_ok :: "db \<Rightarrow> bool" where
  "garages_ok s \<longleftrightarrow> distinct (map g_id (db_garages s)) \<and>
     (\<forall>g \<in> set (db_garages s). \<forall>body. g_terms g = Some body \<longrightarrow>
        body \<noteq> [] \<and> (\<exists>t. get_version s (g_id g) (g_terms_version g) = Some t \<and> tv_body t = body))"

definition terms_ok :: "db \<Rightarrow> bool" where
  "terms_ok s \<longleftrightarrow> history_ok s \<and> garages_ok s"

lemma version_at:
  assumes "history_ok s" "k < length (versions_of s i)"
  shows "tv_version (versions_of s i ! k) = int k + 1"
proof -
  have "map tv_version (versions_of s i) ! k = map (\<lambda>n. int n + 1) [0..<length (versions_of s i)] ! k"
    using assms(1) by (metis history_ok_def)
  with assms(2) show ?thesis by simp
qed

lemma latest_version_spec:
  assumes "history_ok s"
  shows "latest_version s i = (if versions_of s i = [] then None else Some (last (versions_of s i)))"
proof (cases "versions_of s i = []")
  case True
  then show ?thesis by (simp add: latest_version_def versions_of_def)
next
  case False
  let ?rows = "versions_of s i" and ?key = "\<lambda>t. - tv_version t"
  obtain t ts where sorted_rows: "sort_key ?key ?rows = t # ts" using False by (cases "sort_key ?key ?rows") (metis length_0_conv length_sort, simp)
  have "t \<in> set ?rows" using sorted_rows by (metis list.set_intros(1) set_sort)
  then obtain k where k: "k < length ?rows" "?rows ! k = t" by (auto simp: in_set_conv_nth)
  have "sorted (map ?key (t # ts))" unfolding sorted_rows [symmetric] by simp
  moreover have "last ?rows \<in> set (t # ts)" unfolding sorted_rows [symmetric] using False by simp
  ultimately have "tv_version (last ?rows) \<le> tv_version t" by auto
  moreover have "last ?rows = ?rows ! (length ?rows - 1)" using False by (rule last_conv_nth)
  ultimately have "int (length ?rows - 1) \<le> int k"
    using version_at [OF assms k(1)] version_at [OF assms, of "length ?rows - 1" i] False k by simp
  with k have "k = length ?rows - 1" by simp
  with k False have "t = last ?rows" by (simp add: last_conv_nth)
  with sorted_rows False show ?thesis by (simp add: latest_version_def versions_of_def)
qed

lemma get_version_rows: "get_version s i (Some v) = find (\<lambda>t. tv_version t = v) (versions_of s i)"
proof -
  have "find (\<lambda>t. tv_garage t = i \<and> tv_version t = v) xs = find (\<lambda>t. tv_version t = v) (filter (\<lambda>t. tv_garage t = i) xs)" for xs
    by (induction xs) auto
  then show ?thesis by (simp add: get_version_def versions_of_def)
qed

text \<open>Appending a version: the earlier ones stay what they were.\<close>

lemma find_append: "find P (xs @ ys) = (case find P xs of None \<Rightarrow> find P ys | Some x \<Rightarrow> Some x)"
  by (induction xs) auto

lemma get_version_append:
  "get_version s i v = Some t \<Longrightarrow> db_terms s' = db_terms s @ ts \<Longrightarrow> get_version s' i v = Some t"
  by (cases v) (simp_all add: get_version_def find_append)

text \<open>What one save does: perhaps a version more, and the garage's row.\<close>

lemma save_terms_effect:
  assumes "history_ok s" "save_terms s g new_text = (g', s')"
  shows "\<exists>ts. db_terms s' = db_terms s @ ts \<and> history_ok s' \<and> db_garages s' = row_set g_id g' (db_garages s)
    \<and> g_id g' = g_id g
    \<and> (\<forall>body. g_terms g' = Some body \<longrightarrow> body \<noteq> []
         \<and> (\<exists>t. get_version s' (g_id g') (g_terms_version g') = Some t \<and> tv_body t = body))"
proof (cases "normalise_terms new_text")
  case None
  with assms show ?thesis
    by (intro exI [of _ "[]"]) (auto simp: save_terms_def put_garage_def history_ok_def versions_of_def Let_def)
next
  case (Some body)
  then have body: "body \<noteq> []" by (auto simp: normalise_terms_def split: option.splits if_splits)
  let ?rows = "versions_of s (g_id g)"
  note latest = latest_version_spec [OF assms(1), of "g_id g"]
  show ?thesis
  proof (cases "?rows \<noteq> [] \<and> tv_body (last ?rows) = body")
    case True
    then have s': "s' = put_garage g' s" "g' = g\<lparr>g_terms_version := Some (tv_version (last ?rows)), g_terms := Some body\<rparr>"
      using assms(2) Some latest by (auto simp: save_terms_def Let_def)
    have rows: "versions_of s' i = versions_of s i" for i by (simp add: s' put_garage_def versions_of_def)
    obtain init where init: "?rows = init @ [last ?rows]" using True by (metis append_butlast_last_id)
    have "find (\<lambda>t. tv_version t = tv_version (last ?rows)) ?rows = Some (last ?rows)"
    proof -
      have "tv_version t \<noteq> tv_version (last ?rows)" if t: "t \<in> set init" for t
      proof -
        obtain k where "k < length init" "init ! k = t" using t by (auto simp: in_set_conv_nth)
        then have "tv_version t = int k + 1" "k < length ?rows - 1"
          using version_at [OF assms(1), of k "g_id g"] by (metis init nth_append length_append_singleton less_SucI, metis init diff_Suc_1 length_append_singleton)
        moreover have "tv_version (last ?rows) = int (length ?rows - 1) + 1"
          using version_at [OF assms(1), of "length ?rows - 1" "g_id g"] True by (simp add: last_conv_nth)
        ultimately show ?thesis by simp
      qed
      then have "find (\<lambda>t. tv_version t = tv_version (last ?rows)) init = None" by (simp add: find_None_iff)
      then show ?thesis by (subst (2) init) (simp add: find_append)
    qed
    with True rows assms(1) show ?thesis
      by (intro exI [of _ "[]"]) (simp add: s' put_garage_def get_version_rows history_ok_def body)
  next
    case False
    let ?v = "int (length ?rows) + 1"
    let ?new = "\<lparr>tv_garage = g_id g, tv_version = ?v, tv_body = body\<rparr>"
    have "tv_version (last ?rows) + 1 = ?v" if "?rows \<noteq> []"
      using version_at [OF assms(1), of "length ?rows - 1" "g_id g"] that
      by (simp add: last_conv_nth of_nat_diff Suc_leI)
    then have s': "s' = put_garage g' (s\<lparr>db_terms := db_terms s @ [?new]\<rparr>)"
      "g' = g\<lparr>g_terms_version := Some ?v, g_terms := Some body\<rparr>"
      using assms(2) Some latest False by (auto simp: save_terms_def Let_def split: if_splits)
    have rows: "versions_of s' i = versions_of s i @ (if i = g_id g then [?new] else [])" for i
      by (simp add: s' put_garage_def versions_of_def)
    have hist: "history_ok s'" using assms(1) by (simp add: history_ok_def rows)
    have "find (\<lambda>t. tv_version t = ?v) ?rows = None"
      using version_at [OF assms(1), of _ "g_id g"] by (force simp: find_None_iff in_set_conv_nth)
    then have "get_version s' (g_id g) (Some ?v) = Some ?new" by (simp add: get_version_rows rows find_append)
    with hist show ?thesis by (intro exI [of _ "[?new]"]) (simp add: s' put_garage_def body)
  qed
qed

lemma terms_ok_save:
  assumes "terms_ok s" "g \<in> set (db_garages s)" "save_terms s g new_text = (g', s')"
  shows "terms_ok s' \<and> (\<forall>i v t. get_version s i v = Some t \<longrightarrow> get_version s' i v = Some t)"
proof -
  from save_terms_effect [OF _ assms(3)] assms(1) obtain ts where e: "db_terms s' = db_terms s @ ts" "history_ok s'"
    "db_garages s' = row_set g_id g' (db_garages s)" "g_id g' = g_id g"
    "\<forall>body. g_terms g' = Some body \<longrightarrow> body \<noteq> []
         \<and> (\<exists>t. get_version s' (g_id g') (g_terms_version g') = Some t \<and> tv_body t = body)"
    by (auto simp: terms_ok_def)
  have kept: "get_version s' i v = Some t" if "get_version s i v = Some t" for i v t
    using get_version_append [OF that e(1)] .
  have "garages_ok s'"
    using assms(1) e(3-5) kept unfolding terms_ok_def garages_ok_def
    by (auto dest!: in_row_set) blast+
  with e(2) kept show ?thesis by (simp add: terms_ok_def)
qed

text \<open>One save of a business, by the row the database holds.\<close>

definition save_for :: "uid \<times> string option \<Rightarrow> db \<Rightarrow> db" where
  "save_for k s = (case row_find g_id (fst k) (db_garages s) of None \<Rightarrow> s | Some g \<Rightarrow> snd (save_terms s g (snd k)))"

lemma save_for_ok:
  "terms_ok s \<Longrightarrow> terms_ok (save_for k s) \<and> (\<forall>i v t. get_version s i v = Some t \<longrightarrow> get_version (save_for k s) i v = Some t)"
proof (cases "row_find g_id (fst k) (db_garages s)")
  case (Some g)
  obtain g' s' where save: "save_terms s g (snd k) = (g', s')" by fastforce
  assume "terms_ok s"
  from terms_ok_save [OF this _ save] row_find_Some [OF Some] show ?thesis by (simp add: save_for_def Some save)
qed (simp add: save_for_def)

lemma saves_ok:
  "terms_ok s \<Longrightarrow> terms_ok (fold save_for ks s)
     \<and> (\<forall>i v t. get_version s i v = Some t \<longrightarrow> get_version (fold save_for ks s) i v = Some t)"
proof (induction ks arbitrary: s)
  case (Cons k ks)
  from save_for_ok [OF Cons.prems, of k] Cons.IH [of "save_for k s"] show ?case by auto
qed simp

subsection \<open>What accepting leaves behind\<close>

text \<open>A request whose acceptance is behind it: its stamp is set, or it is no longer waiting for one.\<close>

definition past_acceptance :: "booking_request \<Rightarrow> bool" where
  "past_acceptance rq \<longleftrightarrow> rq_terms_accepted_at rq \<noteq> None \<or> rq_status rq \<noteq> AWAITING_TERMS"

lemma past_acceptance_refused:
  assumes "find (\<lambda>r. rq_id r = i \<and> rq_garage r = g_id g) (db_requests s) = Some rq" "past_acceptance rq"
  shows "\<exists>reason. accept_by_token s g i accepted version su recovery now = (Inl (Abort 409 reason), s)"
  using assms by (auto simp: accept_by_token_def acceptance_state_def past_acceptance_def)

lemma find_row_set_same_row:
  assumes "find (\<lambda>r. rq_id r = i \<and> rq_garage r = gid) rows = Some rq" "rq_id rq' = i" "rq_garage rq' = gid"
  shows "find (\<lambda>r. rq_id r = i \<and> rq_garage r = gid) (row_set rq_id rq' rows) = Some rq'"
  using assms by (induction rows) (auto simp: row_set_def split: if_splits)

definition stamped_by :: "garage \<Rightarrow> bool \<Rightarrow> int option \<Rightarrow> instant \<Rightarrow> booking_request \<Rightarrow> bool" where
  "stamped_by g accepted version now rq \<longleftrightarrow>
     has_terms g \<longrightarrow> accepted \<and> version = g_terms_version g \<and> rq_terms_version rq = version
       \<and> rq_terms_accepted_at rq = Some now"

lemma require_web_acceptance_Inr:
  "require_web_acceptance g accepted version = Inr v \<Longrightarrow>
     (has_terms g \<longrightarrow> accepted \<and> version = g_terms_version g \<and> v = g_terms_version g \<and> v \<noteq> None)
     \<and> (\<not> has_terms g \<longrightarrow> v = None)"
  by (cases "g_terms_version g"; cases v) (auto simp: require_web_acceptance_def has_terms_def split: if_splits)

lemma stamp_fields [simp]:
  "rq_id (stamp_acceptance rq v now) = rq_id rq" "rq_garage (stamp_acceptance rq v now) = rq_garage rq"
  "rq_status (stamp_acceptance rq v now) = rq_status rq" "rq_type (stamp_acceptance rq v now) = rq_type rq"
  by (simp_all add: stamp_acceptance_def split: option.splits)

lemma stamp_stamps:
  assumes "require_web_acceptance g accepted version = Inr v"
  shows "stamped_by g accepted version now (stamp_acceptance rq v now)"
proof (cases "has_terms g")
  case True
  with require_web_acceptance_Inr [OF assms] have "accepted" "version = g_terms_version g" "v = g_terms_version g" by auto
  moreover obtain w where "g_terms_version g = Some w" using True by (auto simp: has_terms_def)
  ultimately show ?thesis by (simp add: stamped_by_def stamp_acceptance_def)
qed (simp add: stamped_by_def)

lemma approve_request_row:
  assumes "approve_booking_request s g reviewer i data now = (Inr rq', s')"
    "find (\<lambda>r. rq_id r = i \<and> rq_garage r = g_id g) (db_requests s) = Some rq"
  shows "find (\<lambda>r. rq_id r = i \<and> rq_garage r = g_id g) (db_requests s') = Some rq' \<and> rq_status rq' = APPROVED
    \<and> rq_terms_version rq' = rq_terms_version rq \<and> rq_terms_accepted_at rq' = rq_terms_accepted_at rq"
  using assms(1)
proof (rule approve_InrE)
  fix rq0 ty employee_id start_time end_time customer_id vehicle_id s1 ap
  assume f: "find (\<lambda>r. rq_id r = i \<and> rq_garage r = g_id g) (db_requests s) = Some rq0"
    and rs: "resolve_customer_and_vehicle s (g_id g) (rq_customer rq0) (rq_contact rq0) (rq_item rq0) = (Inr (customer_id, vehicle_id), s1)"
    and rq': "rq' = rq0\<lparr>rq_status := APPROVED, rq_type := Some (ty_id ty), rq_customer := Some customer_id,
       rq_vehicle := vehicle_id, rq_appointment := Some (ap_id ap),
       rq_reviewer := Some (em_id reviewer), rq_reviewed_at := Some now,
       rq_accepted_automatically := ad_automatic data\<rparr>"
    and s': "s' = emit (BOOKING_REQUEST_APPROVED (rq_id rq0) (ap_id ap)) (put_request rq'
       (attach_redemption_to_appointment (insert_appointment ap s1) (rq0\<lparr>rq_status := APPROVED\<rparr>) (ap_id ap) now))"
  have "db_requests s' = row_set rq_id rq' (db_requests s)"
    unfolding s' using resolve_frame [OF rs] by (simp add: put_request_def)
  with find_row_set_same_row [OF f, of rq'] find_SomeD [OF f] f assms(2) show ?thesis by (simp add: rq')
qed

lemma approve_refused_row:
  assumes "approve_booking_request s g reviewer i data now = (Inl e, s')"
    "find (\<lambda>r. rq_id r = i \<and> rq_garage r = g_id g) (db_requests s) = Some rq"
  shows "db_requests s' = db_requests s \<or> db_requests s' = row_set rq_id (rq\<lparr>rq_status := EXPIRED\<rparr>) (db_requests s)"
  using assms unfolding approve_booking_request_def Let_def
  by (auto simp: put_request_def split: option.splits if_splits sum.splits prod.splits)

lemma approve_keeps_acceptance:
  assumes "find (\<lambda>r. rq_id r = i \<and> rq_garage r = g_id g) (db_requests s) = Some rq" "rq_status rq \<noteq> AWAITING_TERMS"
  shows "\<exists>rq'. find (\<lambda>r. rq_id r = i \<and> rq_garage r = g_id g) (db_requests (snd (approve_booking_request s g reviewer i data now))) = Some rq'
    \<and> rq_status rq' \<noteq> AWAITING_TERMS \<and> rq_terms_version rq' = rq_terms_version rq
    \<and> rq_terms_accepted_at rq' = rq_terms_accepted_at rq"
proof (cases "approve_booking_request s g reviewer i data now")
  case (Pair res s')
  show ?thesis
  proof (cases res)
    case (Inl e)
    with approve_refused_row [OF _ assms(1)] Pair have
      "db_requests s' = db_requests s \<or> db_requests s' = row_set rq_id (rq\<lparr>rq_status := EXPIRED\<rparr>) (db_requests s)" by blast
    with assms find_row_set_same_row [OF assms(1), of "rq\<lparr>rq_status := EXPIRED\<rparr>"] find_SomeD [OF assms(1)] Pair
    show ?thesis by auto
  next
    case (Inr rq')
    with approve_request_row [OF _ assms(1)] Pair show ?thesis by (intro exI [of _ rq']) simp
  qed
qed

lemma auto_accept_keeps_acceptance:
  assumes "find (\<lambda>r. rq_id r = i \<and> rq_garage r = g_id g) (db_requests s) = Some rq" "rq_status rq \<noteq> AWAITING_TERMS"
  shows "\<exists>rq'. find (\<lambda>r. rq_id r = i \<and> rq_garage r = g_id g) (db_requests (snd (auto_accept_booking_request s g i now))) = Some rq'
    \<and> rq_status rq' \<noteq> AWAITING_TERMS \<and> rq_terms_version rq' = rq_terms_version rq
    \<and> rq_terms_accepted_at rq' = rq_terms_accepted_at rq"
  using auto_accept_db [of s g i now] approve_keeps_acceptance [OF assms] assms by auto

lemma create_deposit_hold_requests:
  "db_requests (snd (create_deposit_hold s g ty rq pvs name enabled configured account now)) = db_requests s"
  by (simp add: create_deposit_hold_def Let_def put_payment_def insert_payment_def log_call_def split: sum.split option.split prod.split)

lemma accept_deposit_row:
  assumes "accept_deposit s g ty stamped su recovery now = (Inr res, s')"
    "find (\<lambda>r. rq_id r = i \<and> rq_garage r = g_id g) (db_requests s) = Some rq" "rq_id stamped = i" "rq_garage stamped = g_id g"
  shows "\<exists>rq'. find (\<lambda>r. rq_id r = i \<and> rq_garage r = g_id g) (db_requests s') = Some rq'
    \<and> rq_status rq' \<noteq> AWAITING_TERMS \<and> rq_terms_version rq' = rq_terms_version stamped
    \<and> rq_terms_accepted_at rq' = rq_terms_accepted_at stamped"
proof -
  let ?rq' = "stamped\<lparr>rq_status := AWAITING_PAYMENT,
      rq_hold_expires := Some (payment_hold_deadline now (su_hold_minutes su)), rq_recovery_token := Some recovery\<rparr>"
  from assms(1) obtain out where "start_deposit (put_request ?rq' s) g ty ?rq' su now = (Inr out, s')"
    unfolding accept_deposit_def Let_def by (auto split: prod.splits sum.splits)
  then have "db_requests s' = db_requests (put_request ?rq' s)"
    using create_deposit_hold_requests unfolding start_deposit_def by (metis snd_conv)
  then show ?thesis using find_row_set_same_row [OF assms(2), of ?rq'] assms(3,4) by (simp add: put_request_def)
qed

lemma accept_plain_row:
  assumes "accept_plain s g stamped now = (Inr res, s')"
    "find (\<lambda>r. rq_id r = i \<and> rq_garage r = g_id g) (db_requests s) = Some rq" "rq_id stamped = i" "rq_garage stamped = g_id g"
  shows "\<exists>rq'. find (\<lambda>r. rq_id r = i \<and> rq_garage r = g_id g) (db_requests s') = Some rq'
    \<and> rq_status rq' \<noteq> AWAITING_TERMS \<and> rq_terms_version rq' = rq_terms_version stamped
    \<and> rq_terms_accepted_at rq' = rq_terms_accepted_at stamped"
proof -
  let ?rq' = "stamped\<lparr>rq_status := PENDING, rq_hold_expires := None\<rparr>"
  let ?s1 = "emit (BOOKING_REQUEST_CREATED i) (put_request ?rq' s)"
  have f: "find (\<lambda>r. rq_id r = i \<and> rq_garage r = g_id g) (db_requests ?s1) = Some ?rq'"
    using find_row_set_same_row [OF assms(2), of ?rq'] assms(3,4) by (simp add: put_request_def)
  have "s' = snd (auto_accept_booking_request ?s1 g i now)"
    using assms(1,3) unfolding accept_plain_def Let_def by (auto split: prod.splits sum.splits option.splits)
  then show ?thesis using auto_accept_keeps_acceptance [OF f, of now] by simp
qed

subsection \<open>The wording on record\<close>

text \<open>
  C28: whatever texts a business saves, and in whatever order, its versions stay numbered 1, 2, 3
  and so on, the wording it shows is the version its row names, and no version that was ever
  recorded changes: what a booking's stamp points at is what its customer read.
\<close>

theorem recorded_wording_is_final:
  assumes "terms_ok s"
  shows "terms_ok (fold save_for ks s)
    \<and> (\<forall>g\<in>set (db_garages (fold save_for ks s)). has_terms g \<longrightarrow>
         (\<exists>t. current_terms (fold save_for ks s) g = Some t \<and> g_terms g = Some (tv_body t)))
    \<and> (\<forall>i v t. get_version s i v = Some t \<longrightarrow> get_version (fold save_for ks s) i v = Some t)"
proof -
  note ok = saves_ok [OF assms, of ks]
  then have "garages_ok (fold save_for ks s)" by (simp add: terms_ok_def)
  then have "\<exists>t. current_terms (fold save_for ks s) g = Some t \<and> g_terms g = Some (tv_body t)"
    if "g \<in> set (db_garages (fold save_for ks s))" "has_terms g" for g
    using that by (cases "g_terms g") (auto simp: garages_ok_def current_terms_def has_terms_def truthy_def)
  with ok show ?thesis by blast
qed

definition terms_garage :: garage where
  "terms_garage = demo_garage\<lparr>g_auto_accept := False, g_terms := Some ''A'', g_terms_version := Some 1\<rparr>"

definition terms_db :: db where
  "terms_db = demo_db\<lparr>db_garages := [terms_garage],
     db_terms := [\<lparr>tv_garage = g_id demo_garage, tv_version = 1, tv_body = ''A''\<rparr>]\<rparr>"

lemma terms_db_ok: "terms_ok terms_db"
  by (auto simp: terms_ok_def history_ok_def versions_of_def garages_ok_def get_version_def terms_db_def terms_garage_def
      demo_db_def)

lemma recorded_wording_is_final_witness:
  "get_version (fold save_for [(g_id demo_garage, Some ''B''), (g_id demo_garage, None)] terms_db) (g_id demo_garage) (Some 1)
     = Some \<lparr>tv_garage = g_id demo_garage, tv_version = 1, tv_body = ''A''\<rparr>"
proof -
  have "get_version terms_db (g_id demo_garage) (Some 1)
      = Some \<lparr>tv_garage = g_id demo_garage, tv_version = 1, tv_body = ''A''\<rparr>"
    by (simp add: get_version_def terms_db_def)
  with recorded_wording_is_final [OF terms_db_ok] show ?thesis by blast
qed

subsection \<open>One acceptance per request\<close>

text \<open>
  C27: when a texted link is accepted, the request carries the acceptance of the wording the
  business shows at that moment (if it has any), it no longer waits for terms, and every later
  use of the link is refused with 409 and changes nothing.
\<close>

theorem acceptance_is_final:
  assumes "accept_by_token s g i accepted version su recovery now = (Inr res, s')"
  shows "(\<exists>rq. find (\<lambda>r. rq_id r = i \<and> rq_garage r = g_id g) (db_requests s') = Some rq
        \<and> rq_status rq \<noteq> AWAITING_TERMS \<and> stamped_by g accepted version now rq)
    \<and> (\<exists>reason. accept_by_token s' g i accepted2 version2 su2 recovery2 later = (Inl (Abort 409 reason), s'))"
proof -
  from assms obtain rq where f: "find (\<lambda>r. rq_id r = i \<and> rq_garage r = g_id g) (db_requests s) = Some rq"
    by (auto simp: accept_by_token_def split: option.splits)
  from assms f obtain v where v: "require_web_acceptance g accepted version = Inr v"
    by (auto simp: accept_by_token_def split: acceptance_state.splits sum.splits)
  let ?st = "stamp_acceptance rq v now"
  have ids: "rq_id ?st = i" "rq_garage ?st = g_id g" using find_SomeD [OF f] by simp_all
  have "accept_plain s g ?st now = (Inr res, s') \<or> (\<exists>ty. accept_deposit s g ty ?st su recovery now = (Inr res, s'))"
    using assms f v by (auto simp: accept_by_token_def Let_def split: acceptance_state.splits option.splits if_splits)
  with accept_plain_row [OF _ f ids] accept_deposit_row [OF _ f ids] obtain rq' where
    rq': "find (\<lambda>r. rq_id r = i \<and> rq_garage r = g_id g) (db_requests s') = Some rq'" "rq_status rq' \<noteq> AWAITING_TERMS"
      "rq_terms_version rq' = rq_terms_version ?st" "rq_terms_accepted_at rq' = rq_terms_accepted_at ?st" by blast
  have "stamped_by g accepted version now rq'"
    using stamp_stamps [OF v, of now rq] rq'(3,4) by (simp add: stamped_by_def)
  with rq'(1,2) past_acceptance_refused [OF rq'(1)] show ?thesis by (auto simp: past_acceptance_def)
qed

definition texted_row :: booking_request where
  "texted_row = hold_for_acceptance (pending_row\<lparr>rq_source := SOURCE_CONVERSATION\<rparr>) ''T'' 0 60"

definition texted_db :: db where
  "texted_db = terms_db\<lparr>db_requests := [texted_row], db_types := []\<rparr>"

definition demo_setup :: payment_setup where
  "demo_setup = \<lparr>su_providers = (\<lambda>_. demo_adapter), su_name = ''stripe'', su_enabled = False,
     su_configured = False, su_account = None, su_hold_minutes = 15\<rparr>"

lemma texted_link_accepted:
  "\<exists>s'. accept_by_token texted_db terms_garage 5 True (Some 1) demo_setup ''R'' 0 = (Inr (PENDING, None), s')"
proof -
  have f: "find (\<lambda>r. rq_id r = 5 \<and> rq_garage r = g_id terms_garage) (db_requests texted_db) = Some texted_row"
    by (simp add: texted_db_def texted_row_def hold_for_acceptance_def terms_garage_def review_demo)
  have "acceptance_state terms_garage texted_row 0 = STATE_AWAITING"
    by (simp add: acceptance_state_def hold_lapsed_def is_request_stale_def texted_row_def hold_for_acceptance_def
        terms_hold_deadline_def terms_garage_def review_demo calendar_eval Let_def)
  moreover have "require_web_acceptance terms_garage True (Some 1) = Inr (Some 1)"
    by (simp add: require_web_acceptance_def terms_garage_def has_terms_def truthy_def)
  moreover have "find_type texted_db (rq_type texted_row) = None"
    by (simp add: texted_db_def find_type_def row_find_def split: option.split)
  moreover have "auto_accept_booking_request s terms_garage i 0 = (Inr None, s)" for s i
    by (simp add: auto_accept_booking_request_def terms_garage_def)
  ultimately show ?thesis using f by (simp add: accept_by_token_def accept_plain_def Let_def)
qed

lemma acceptance_is_final_witness:
  "\<exists>s' reason. accept_by_token texted_db terms_garage 5 True (Some 1) demo_setup ''R'' 0 = (Inr (PENDING, None), s')
    \<and> accept_by_token s' terms_garage 5 True (Some 1) demo_setup ''S'' 1 = (Inl (Abort 409 reason), s')"
  using texted_link_accepted acceptance_is_final by meson

end
