(* ===== verification/Python_Parsing.thy ===== *)
theory Python_Parsing
  imports Texts
begin

text \<open>
  The parsers of Python's standard library that decide whether a typed answer is a number, a date or
  a time: \<open>int\<close> and \<open>str\<close> of an integer, \<open>date.fromisoformat\<close> and \<open>time.fromisoformat\<close> (Python 3.12),
  on ASCII texts whose blanks at both ends are already stripped.
\<close>

subsection \<open>Integers\<close>

definition digit_value :: "char \<Rightarrow> nat" where
  "digit_value c = of_char c - 48"

definition digit_char :: "nat \<Rightarrow> char" where
  "digit_char n = char_of (48 + n)"

definition digits_value :: "string \<Rightarrow> nat" where
  "digits_value t = foldl (\<lambda>n c. 10 * n + digit_value c) 0 t"

fun show_nat :: "nat \<Rightarrow> string" where
  "show_nat n = (if n < 10 then [digit_char n] else show_nat (n div 10) @ [digit_char (n mod 10)])"

declare show_nat.simps [simp del]

definition show_int :: "int \<Rightarrow> string" where
  "show_int z = (if z < 0 then CHR ''-'' # show_nat (nat (- z)) else show_nat (nat z))"

text \<open>Digits in groups: an underscore stands between two digits, never alone.\<close>

fun int_digits :: "string \<Rightarrow> string option" where
  "int_digits [] = None"
| "int_digits [c] = (if is_digit c then Some [c] else None)"
| "int_digits (c # d # t) =
     (if \<not> is_digit c then None
      else map_option (Cons c) (if d = CHR ''_'' then int_digits t else int_digits (d # t)))"

text \<open>\<open>int\<close> refuses more than 4300 digits.\<close>

definition parse_int :: "string \<Rightarrow> int option" where
  "parse_int t =
     (let (sgn, body) = (case t of [] \<Rightarrow> (1, []) | c # r \<Rightarrow>
            if c = CHR ''-'' then (- 1, r) else if c = CHR ''+'' then (1, r) else (1, t))
      in case int_digits body of
           None \<Rightarrow> None
         | Some ds \<Rightarrow> if 4300 < length ds then None else Some (sgn * int (digits_value ds)))"

subsection \<open>ISO dates and times\<close>

definition read_digits :: "nat \<Rightarrow> string \<Rightarrow> (nat \<times> string) option" where
  "read_digits n t =
     (if n \<le> length t \<and> list_all is_digit (take n t) then Some (digits_value (take n t), drop n t) else None)"

definition leap_year :: "nat \<Rightarrow> bool" where
  "leap_year y \<longleftrightarrow> y mod 4 = 0 \<and> (y mod 100 \<noteq> 0 \<or> y mod 400 = 0)"

definition days_in_month :: "nat \<Rightarrow> nat \<Rightarrow> nat" where
  "days_in_month y m = (if m = 2 then (if leap_year y then 29 else 28) else if m \<in> {4, 6, 9, 11} then 30 else 31)"

definition real_date :: "nat \<Rightarrow> nat \<Rightarrow> nat \<Rightarrow> bool" where
  "real_date y m d \<longleftrightarrow> 1 \<le> y \<and> 1 \<le> m \<and> m \<le> 12 \<and> 1 \<le> d \<and> d \<le> days_in_month y m"

text \<open>A date of the ISO week calendar; the last day of the calendar is day 3652059.\<close>

definition real_week_date :: "nat \<Rightarrow> nat \<Rightarrow> nat \<Rightarrow> bool" where
  "real_week_date y w d \<longleftrightarrow>
     (let first = int ((y - 1) * 365 + (y - 1) div 4 - (y - 1) div 100 + (y - 1) div 400) + 1;
          weekday = (first + 6) mod 7;
          monday = first - weekday + (if 3 < weekday then 7 else 0);
          n = monday + (int w - 1) * 7 + int d - 1
      in 1 \<le> y \<and> 1 \<le> w \<and> (w \<le> 52 \<or> w = 53 \<and> (weekday = 3 \<or> weekday = 2 \<and> leap_year y))
         \<and> 1 \<le> d \<and> d \<le> 7 \<and> 1 \<le> n \<and> n \<le> 3652059)"

definition skip_dash :: "bool \<Rightarrow> string \<Rightarrow> string option" where
  "skip_dash sep t = (if \<not> sep then Some t else case t of c # r \<Rightarrow> if c = CHR ''-'' then Some r else None | [] \<Rightarrow> None)"

definition week_date_ok :: "nat \<Rightarrow> bool \<Rightarrow> string \<Rightarrow> bool" where
  "week_date_ok y sep t =
     (case read_digits 2 t of
        None \<Rightarrow> False
      | Some (w, r) \<Rightarrow>
          if r = [] then real_week_date y w 1
          else (case Option.bind (skip_dash sep r) (read_digits 1) of
                  None \<Rightarrow> False | Some (d, r') \<Rightarrow> real_week_date y w d))"

definition month_date_ok :: "nat \<Rightarrow> bool \<Rightarrow> string \<Rightarrow> bool" where
  "month_date_ok y sep t =
     (case read_digits 2 t of
        None \<Rightarrow> False
      | Some (m, r) \<Rightarrow>
          (case Option.bind (skip_dash sep r) (read_digits 2) of
             None \<Rightarrow> False | Some (d, r') \<Rightarrow> real_date y m d))"

definition iso_date_ok :: "string \<Rightarrow> bool" where
  "iso_date_ok t \<longleftrightarrow> length t \<in> {7, 8, 10} \<and>
     (case read_digits 4 t of
        None \<Rightarrow> False
      | Some (y, r) \<Rightarrow>
          let sep = (r \<noteq> [] \<and> hd r = CHR ''-''); r' = (if sep then tl r else r)
          in if r' \<noteq> [] \<and> hd r' = CHR ''W'' then week_date_ok y sep (tl r') else month_date_ok y sep r')"

text \<open>
  \<open>[HH[:?MM[:?SS]]]\<close> and a fraction of any length: the values read so far, the fields still to come
  and whether the first separator was a colon.
\<close>

definition fraction_ok :: "string \<Rightarrow> bool" where
  "fraction_ok t \<longleftrightarrow> t \<noteq> [] \<and> list_all is_digit t"

fun clock_fields :: "nat \<Rightarrow> bool \<Rightarrow> string \<Rightarrow> nat list option" where
  "clock_fields 0 sep t = (if fraction_ok t then Some [] else None)"
| "clock_fields (Suc k) sep t =
     (case read_digits 2 t of
        None \<Rightarrow> None
      | Some (v, []) \<Rightarrow> Some [v]
      | Some (v, c # r) \<Rightarrow>
          let sep' = (if k = 2 then c = CHR '':'' else sep)
          in if r = [] then None
             else if sep' \<and> c = CHR '':'' then map_option (Cons v) (clock_fields k sep' r)
             else if c = CHR ''.'' \<or> c = CHR '','' then (if fraction_ok r then Some [v] else None)
             else if \<not> sep' then map_option (Cons v) (clock_fields k sep' (c # r))
             else None)"

definition clock_ok :: "nat list \<Rightarrow> bool" where
  "clock_ok vs \<longleftrightarrow>
     (case vs of [h] \<Rightarrow> h < 24 | [h, m] \<Rightarrow> h < 24 \<and> m < 60 | [h, m, s] \<Rightarrow> h < 24 \<and> m < 60 \<and> s < 60 | _ \<Rightarrow> False)"

text \<open>An offset is strictly less than a day.\<close>

definition offset_ok :: "nat list \<Rightarrow> bool" where
  "offset_ok vs \<longleftrightarrow> foldl (\<lambda>n v. 60 * n + v) 0 (take 3 (vs @ [0, 0])) < 86400"

definition is_zone_mark :: "char \<Rightarrow> bool" where
  "is_zone_mark c \<longleftrightarrow> c = CHR ''+'' \<or> c = CHR ''-'' \<or> c = CHR ''Z''"

definition iso_time_ok :: "string \<Rightarrow> bool" where
  "iso_time_ok t0 \<longleftrightarrow>
     (let t = (case t0 of [] \<Rightarrow> [] | c # r \<Rightarrow> if c = CHR ''T'' then r else t0);
          main = takeWhile (\<lambda>c. \<not> is_zone_mark c) t;
          zone = dropWhile (\<lambda>c. \<not> is_zone_mark c) t
      in (case clock_fields 3 True main of None \<Rightarrow> False | Some vs \<Rightarrow> clock_ok vs)
         \<and> (case zone of [] \<Rightarrow> True
             | c # r \<Rightarrow> if c = CHR ''Z'' then r = []
                        else (case clock_fields 3 True r of None \<Rightarrow> False | Some vs \<Rightarrow> offset_ok vs)))"

subsection \<open>Integers survive printing\<close>

lemma digit_char_props:
  assumes "n < 10"
  shows "is_digit (digit_char n)" "digit_value (digit_char n) = n"
proof -
  have "(of_char (digit_char n) :: nat) = 48 + n" using assms by (simp add: digit_char_def)
  with assms show "is_digit (digit_char n)" "digit_value (digit_char n) = n"
    by (simp_all add: is_digit_def digit_value_def)
qed

lemma digits_value_snoc: "digits_value (t @ [c]) = 10 * digits_value t + digit_value c"
  by (simp add: digits_value_def)

lemma show_nat_value: "digits_value (show_nat n) = n"
proof (induction n rule: show_nat.induct)
  case (1 n)
  show ?case
  proof (cases "n < 10")
    case True
    then show ?thesis by (simp add: show_nat.simps [of n] digits_value_def digit_char_props)
  next
    case False
    with 1 show ?thesis by (simp add: show_nat.simps [of n] digits_value_snoc digit_char_props)
  qed
qed

lemma show_nat_digits: "list_all is_digit (show_nat n) \<and> show_nat n \<noteq> []"
proof (induction n rule: show_nat.induct)
  case (1 n)
  then show ?case by (cases "n < 10") (simp_all add: show_nat.simps [of n] digit_char_props)
qed

lemma digit_no_mark: "is_digit c \<Longrightarrow> c \<noteq> CHR ''_'' \<and> c \<noteq> CHR ''-'' \<and> c \<noteq> CHR ''+'' \<and> \<not> is_space c"
  by (auto simp: is_digit_def is_space_def)

lemma int_digits_plain: "list_all is_digit t \<Longrightarrow> t \<noteq> [] \<Longrightarrow> int_digits t = Some t"
  by (induction t rule: int_digits.induct) (auto dest: digit_no_mark)

lemma show_nat_length: "n < 10 ^ k \<Longrightarrow> 0 < k \<Longrightarrow> length (show_nat n) \<le> k"
proof (induction n arbitrary: k rule: show_nat.induct)
  case (1 n)
  show ?case
  proof (cases "n < 10")
    case True
    with 1 show ?thesis by (simp add: show_nat.simps [of n])
  next
    case False
    with 1 obtain j where j: "k = Suc j" "0 < j" by (cases k; cases "k = 1") auto
    with 1 False have "length (show_nat (n div 10)) \<le> j"
      by (intro "1.IH") (simp_all add: less_mult_imp_div_less mult.commute)
    with False j show ?thesis by (simp add: show_nat.simps [of n])
  qed
qed

lemma digits_value_less:
  assumes "list_all is_digit t"
  shows "digits_value t < 10 ^ length t"
  using assms
proof (induction t rule: rev_induct)
  case (snoc c t)
  have "(of_char c :: nat) \<le> 57" using snoc.prems by (simp add: is_digit_def)
  then have "digit_value c < 10" by (simp add: digit_value_def)
  with snoc show ?case by (simp add: digits_value_snoc)
qed (simp add: digits_value_def)

lemma int_digits_are_digits: "int_digits t = Some ds \<Longrightarrow> list_all is_digit ds \<and> ds \<noteq> []"
  by (induction t arbitrary: ds rule: int_digits.induct) (auto split: if_splits)

lemma parse_show_int:
  assumes "length (show_nat (nat \<bar>z\<bar>)) \<le> 4300"
  shows "parse_int (show_int z) = Some z"
proof -
  obtain c t where show_pos: "show_nat (nat \<bar>z\<bar>) = c # t"
    using show_nat_digits [of "nat \<bar>z\<bar>"] by (cases "show_nat (nat \<bar>z\<bar>)") auto
  then have c: "c \<noteq> CHR ''-''" "c \<noteq> CHR ''+''"
    using show_nat_digits [of "nat \<bar>z\<bar>"] by (auto dest: digit_no_mark)
  have digits: "int_digits (c # t) = Some (c # t)"
    using show_nat_digits [of "nat \<bar>z\<bar>"] show_pos by (intro int_digits_plain) auto
  have "digits_value (c # t) = nat \<bar>z\<bar>" using show_nat_value [of "nat \<bar>z\<bar>"] show_pos by simp
  with assms show_pos c digits show ?thesis
    by (auto simp: parse_int_def show_int_def Let_def)
qed

text \<open>A number that was read prints within the limit, so it is read back.\<close>

lemma parse_show_parsed:
  assumes "parse_int t = Some z"
  shows "parse_int (show_int z) = Some z"
proof -
  obtain ds sgn where ds: "int_digits ds = Some sgn" "length sgn \<le> 4300" "nat \<bar>z\<bar> = digits_value sgn"
    using assms by (auto simp: parse_int_def Let_def abs_mult split: prod.splits option.splits if_splits list.splits)
  from int_digits_are_digits [OF ds(1)] have "digits_value sgn < 10 ^ length sgn" "0 < length sgn"
    using digits_value_less by auto
  from show_nat_length [OF this] ds show ?thesis by (intro parse_show_int) simp
qed

end
