(* ===== verification/Booking_Flow.thy ===== *)
theory Booking_Flow
  imports Payments Python_Parsing "HOL-Library.List_Lexorder" "HOL-Library.Char_ord"
begin

text \<open>
  The questions a business asks while a customer books: \<open>app/booking_flow/resolve.py\<close> and
  \<open>app/booking_flow/answers.py\<close>. Which sections apply to a service, the check of a submission against
  them, the snapshot rows that are stored and the answers bound to the tracked item. A submitted
  scalar is the text \<open>str(value)\<close> of what the client sent.
\<close>

subsection \<open>Which questions apply\<close>

text \<open>Sections come in display order; ties keep the order of the rows.\<close>

definition active_sections :: "flow_section list \<Rightarrow> flow_section list" where
  "active_sections rows = sort_key (\<lambda>x. (fs_order x, fs_title x)) (filter fs_active rows)"

definition resolve_sections :: "db \<Rightarrow> uid \<Rightarrow> uid option \<Rightarrow> flow_section list" where
  "resolve_sections s garage_id type_id =
     (let own = (case type_id of None \<Rightarrow> [] | Some i \<Rightarrow>
                   active_sections (filter (\<lambda>x. fs_garage x = garage_id \<and> fs_type x = Some i) (db_sections s)))
      in if own \<noteq> [] then own
         else active_sections (filter (\<lambda>x. fs_garage x = garage_id \<and> fs_type x = None) (db_sections s)))"

definition resolve_fields :: "db \<Rightarrow> uid \<Rightarrow> uid option \<Rightarrow> flow_field list" where
  "resolve_fields s garage_id type_id = concat (map fs_fields (resolve_sections s garage_id type_id))"

subsection \<open>One answer\<close>

text \<open>The keys and the reason of the \<open>AnswerError\<close>; \<open>None\<close> stands for the key \<open>answers\<close>.\<close>

datatype answer_error = Answer_error "uid option" string

definition as_text :: "string option \<Rightarrow> string" where
  "as_text raw = (case raw of None \<Rightarrow> [] | Some t \<Rightarrow> strip_text t)"

definition rejected :: "flow_field \<Rightarrow> string \<Rightarrow> answer_error + 'a" where
  "rejected f reason = Inl (Answer_error (Some (ff_id f)) reason)"

definition validate_choices ::
  "flow_field \<Rightarrow> string list \<Rightarrow> answer_error + string option \<times> string list"
where
  "validate_choices f raw_values =
     (let values = filter (\<lambda>v. v \<noteq> []) (map strip_text raw_values)
      in if ff_required f \<and> values = [] then rejected f ''required''
         else if filter (\<lambda>v. v \<notin> set (ff_options f)) values \<noteq> [] then rejected f ''not an option''
         else Inr (None, values))"

definition validate_number :: "flow_field \<Rightarrow> string \<Rightarrow> answer_error + string option \<times> string list" where
  "validate_number f v =
     (case parse_int v of
        None \<Rightarrow> rejected f ''whole number''
      | Some n \<Rightarrow>
          if (case ff_min f of None \<Rightarrow> False | Some b \<Rightarrow> n < b) then rejected f ''at least''
          else if (case ff_max f of None \<Rightarrow> False | Some b \<Rightarrow> b < n) then rejected f ''at most''
          else Inr (Some (show_int n), []))"

text \<open>\<open>value.split('@')[-1]\<close> is what follows the last \<open>@\<close>.\<close>

definition email_shape :: "string \<Rightarrow> bool" where
  "email_shape v \<longleftrightarrow> CHR ''@'' \<in> set v \<and> CHR ''.'' \<in> set (takeWhile (\<lambda>c. c \<noteq> CHR ''@'') (rev v))"

definition validate_one ::
  "flow_field \<Rightarrow> string option \<Rightarrow> string list \<Rightarrow> answer_error + string option \<times> string list"
where
  "validate_one f raw_value raw_values =
     (if ff_type f = F_MULTI_SELECT then validate_choices f raw_values
      else
        let v = as_text raw_value
        in if v = [] then (if ff_required f then rejected f ''required'' else Inr (None, []))
           else if ff_type f = F_CHECKBOX then
             Inr (Some (if map lower_char v \<in> {''true'', ''yes'', ''on'', ''1''} then ''Yes'' else ''No''), [])
           else if ff_type f = F_SELECT then
             (if v \<notin> set (ff_options f) then rejected f ''not an option'' else Inr (Some v, []))
           else if ff_type f = F_NUMBER then validate_number f v
           else if ff_type f = F_DATE then
             (if iso_date_ok v then Inr (Some v, []) else rejected f ''date'')
           else if ff_type f = F_TIME then
             (if iso_time_ok v then Inr (Some v, []) else rejected f ''time'')
           else if ff_type f = F_EMAIL \<and> \<not> email_shape v then rejected f ''email''
           else if (case ff_max_length f of None \<Rightarrow> False | Some n \<Rightarrow> n < int (length v))
           then rejected f ''characters or fewer''
           else Inr (Some v, []))"

subsection \<open>A whole submission\<close>

record submitted =
  sb_field :: uid
  sb_value :: "string option"
  sb_values :: "string list"

text \<open>A field answered twice keeps its last answer; one not answered counts as blank.\<close>

definition incoming :: "submitted list \<Rightarrow> uid \<Rightarrow> string option \<times> string list" where
  "incoming entries field_id =
     (case find (\<lambda>e. sb_field e = field_id) (rev entries) of
        None \<Rightarrow> (None, []) | Some e \<Rightarrow> (sb_value e, sb_values e))"

fun resolve_answers ::
  "submitted list \<Rightarrow> nat \<Rightarrow> (string \<times> flow_field) list \<Rightarrow> answer_error + (flow_field \<times> answer_row) list"
where
  "resolve_answers entries n [] = Inr []"
| "resolve_answers entries n ((title, f) # fs) =
     (case incoming entries (ff_id f) of (raw_value, raw_values) \<Rightarrow>
        (case validate_one f raw_value raw_values of
           Inl e \<Rightarrow> Inl e
         | Inr (v, vs) \<Rightarrow>
             map_sum id (Cons (f, \<lparr>an_field = ff_id f, an_order = n, an_section = title, an_label = ff_label f,
                                   an_type = ff_type f, an_value = v, an_values = vs\<rparr>))
               (resolve_answers entries (Suc n) fs)))"

definition asked :: "flow_section list \<Rightarrow> (string \<times> flow_field) list" where
  "asked sections = concat (map (\<lambda>x. map (\<lambda>f. (fs_title x, f)) (fs_fields x)) sections)"

definition validate_answers ::
  "db \<Rightarrow> uid \<Rightarrow> uid option \<Rightarrow> submitted list \<Rightarrow> answer_error + (flow_field \<times> answer_row) list"
where
  "validate_answers s garage_id type_id entries =
     (let sections = resolve_sections s garage_id type_id
      in if \<exists>e \<in> set entries. sb_field e \<notin> ff_id ` set (map snd (asked sections))
         then Inl (Answer_error None ''not a field on this booking form'')
         else resolve_answers entries 0 (asked sections))"

definition persist_answers :: "(flow_field \<times> answer_row) list \<Rightarrow> booking_request \<Rightarrow> booking_request" where
  "persist_answers resolved rq = rq\<lparr>rq_answers := rq_answers rq @ map snd resolved\<rparr>"

definition bound_values :: "(flow_field \<times> answer_row) list \<Rightarrow> field_binding \<rightharpoonup> string" where
  "bound_values resolved =
     fold (\<lambda>(f, r) out. (case (ff_binds f, an_value r) of
             (Some b, Some v) \<Rightarrow> if v \<noteq> [] then out(b \<mapsto> v) else out
           | _ \<Rightarrow> out)) resolved Map.empty"

record tracked_item =
  ti_reference :: string
  ti_make :: "string option"
  ti_model :: "string option"
  ti_year :: "int option"
  ti_usage :: "int option"

definition tracked_item_kwargs :: "(field_binding \<rightharpoonup> string) \<Rightarrow> tracked_item option" where
  "tracked_item_kwargs bindings =
     (case bindings ITEM_REFERENCE of
        None \<Rightarrow> None
      | Some [] \<Rightarrow> None
      | Some (c # t) \<Rightarrow>
          Some \<lparr>ti_reference = c # t, ti_make = bindings ITEM_MAKE, ti_model = bindings ITEM_MODEL,
                ti_year = Option.bind (bindings ITEM_YEAR) (\<lambda>v. parse_int (strip_text v)),
                ti_usage = Option.bind (bindings ITEM_USAGE) (\<lambda>v. parse_int (strip_text v))\<rparr>)"

subsection \<open>What an accepted answer looks like\<close>

definition answer_fits :: "flow_field \<Rightarrow> string option \<Rightarrow> string list \<Rightarrow> bool" where
  "answer_fits f v vs \<longleftrightarrow>
     (if ff_type f = F_MULTI_SELECT
      then v = None \<and> set vs \<subseteq> set (ff_options f) \<and> (ff_required f \<longrightarrow> vs \<noteq> []) \<and> [] \<notin> set vs
      else vs = [] \<and>
        (case v of
           None \<Rightarrow> \<not> ff_required f
         | Some t \<Rightarrow> t \<noteq> [] \<and>
             (case ff_type f of
                F_CHECKBOX \<Rightarrow> t \<in> {''Yes'', ''No''}
              | F_SELECT \<Rightarrow> t \<in> set (ff_options f)
              | F_NUMBER \<Rightarrow> (\<exists>n. t = show_int n \<and> (\<forall>b. ff_min f = Some b \<longrightarrow> b \<le> n) \<and> (\<forall>b. ff_max f = Some b \<longrightarrow> n \<le> b))
              | F_DATE \<Rightarrow> iso_date_ok t
              | F_TIME \<Rightarrow> iso_time_ok t
              | _ \<Rightarrow> (ff_type f = F_EMAIL \<longrightarrow> email_shape t)
                   \<and> (\<forall>n. ff_max_length f = Some n \<longrightarrow> int (length t) \<le> n))))"

lemma show_int_not_Nil [simp]: "show_int n \<noteq> []"
  using show_nat_digits by (simp add: show_int_def)

lemma validate_one_fits:
  assumes "validate_one f raw raws = Inr (v, vs)"
  shows "answer_fits f v vs"
proof (cases "ff_type f = F_MULTI_SELECT")
  case True
  with assms have "validate_choices f raws = Inr (v, vs)" by (simp add: validate_one_def)
  with True show ?thesis
    by (auto simp: validate_choices_def answer_fits_def rejected_def Let_def filter_empty_conv split: if_splits)
next
  case False
  show ?thesis
  proof (cases "as_text raw = []")
    case True
    with False assms show ?thesis
      by (auto simp: validate_one_def answer_fits_def rejected_def split: if_splits)
  next
    case blank: False
    show ?thesis
    proof (cases "ff_type f")
      case F_NUMBER
      with blank assms show ?thesis
        by (auto simp: validate_one_def validate_number_def answer_fits_def rejected_def Let_def
            not_less split: option.splits if_splits)
    qed (use False blank assms in \<open>auto simp: validate_one_def answer_fits_def rejected_def Let_def not_less
           split: option.splits if_splits\<close>)
  qed
qed

subsection \<open>Sending the stored answers again\<close>

lemma strip_show_int [simp]: "strip_text (show_int n) = show_int n"
proof (rule strip_text_id)
  have digits: "list_all is_digit (show_nat m)" "show_nat m \<noteq> []" for m using show_nat_digits by blast+
  then have ends: "is_digit (hd (show_nat m)) \<and> is_digit (last (show_nat m))" for m
    by (metis hd_in_set last_in_set list_all_iff)
  have "\<not> is_space (CHR ''-'')" by (simp add: is_space_def)
  with ends [of "nat (- n)"] ends [of "nat n"] digits(2) [of "nat (- n)"]
  show "\<not> is_space (hd (show_int n))" "\<not> is_space (last (show_int n))"
    by (auto simp: show_int_def dest: digit_no_mark)
qed simp

lemma as_text_Some [simp]: "strip_text t = t \<Longrightarrow> as_text (Some t) = t" "as_text None = []"
  by (simp_all add: as_text_def)

lemma as_text_strip: "strip_text (as_text raw) = as_text raw"
  by (simp add: as_text_def split: option.split)

lemma yes_no: "map lower_char ''Yes'' = ''yes''" "map lower_char ''No'' = ''no''" "strip_text ''Yes'' = ''Yes''"
  "strip_text ''No'' = ''No''"
  by (simp_all add: text_eval)

lemma validate_choices_stable:
  assumes "validate_choices f raws = Inr (v, vs)"
  shows "validate_choices f vs = Inr (v, vs)"
proof -
  have vs: "v = None" "vs = filter (\<lambda>v. v \<noteq> []) (map strip_text raws)"
    using assms by (auto simp: validate_choices_def rejected_def Let_def split: if_splits)
  then have "\<forall>x \<in> set vs. strip_text x = x \<and> x \<noteq> []" by auto
  then have same: "filter (\<lambda>v. v \<noteq> []) (map strip_text vs) = vs" by (simp add: map_idI filter_id_conv)
  have "\<not> (ff_required f \<and> vs = [])" "filter (\<lambda>v. v \<notin> set (ff_options f)) vs = []"
    using assms vs(2) by (auto simp: validate_choices_def rejected_def Let_def split: if_splits)
  with same vs(1) show ?thesis by (auto simp: validate_choices_def)
qed

lemma validate_number_stable:
  assumes "validate_number f t = Inr (v, vs)"
  shows "\<exists>n. v = Some (show_int n) \<and> validate_number f (show_int n) = Inr (v, vs)"
proof -
  obtain n where n: "parse_int t = Some n" "v = Some (show_int n)"
    using assms by (auto simp: validate_number_def rejected_def split: option.splits if_splits)
  with assms parse_show_parsed [OF n(1)] show ?thesis
    by (intro exI [of _ n]) (simp add: validate_number_def)
qed

lemma scalar_value:
  assumes "ff_type f \<notin> {F_MULTI_SELECT, F_NUMBER, F_CHECKBOX}" "as_text raw \<noteq> []"
    "validate_one f raw raws = Inr (v, vs)"
  shows "v = Some (as_text raw) \<and> vs = []"
  using assms by (cases "ff_type f") (auto simp: validate_one_def rejected_def Let_def split: if_splits)

lemma validate_one_stable:
  assumes "validate_one f raw raws = Inr (v, vs)"
  shows "validate_one f v vs = Inr (v, vs)"
proof (cases "ff_type f = F_MULTI_SELECT")
  case True
  with assms show ?thesis by (simp add: validate_one_def validate_choices_stable)
next
  case False
  show ?thesis
  proof (cases "as_text raw = []")
    case True
    with False assms show ?thesis by (auto simp: validate_one_def rejected_def split: if_splits)
  next
    case blank: False
    have "as_text (Some (as_text raw)) = as_text raw" by (simp add: as_text_strip)
    with False have same: "validate_one f (Some (as_text raw)) [] = validate_one f raw raws"
      by (simp add: validate_one_def)
    consider "ff_type f = F_NUMBER" | "ff_type f = F_CHECKBOX" | "ff_type f \<notin> {F_MULTI_SELECT, F_NUMBER, F_CHECKBOX}"
      using False by blast
    then show ?thesis
    proof cases
      case 1
      with blank assms have "validate_number f (as_text raw) = Inr (v, vs)" by (simp add: validate_one_def Let_def)
      from validate_number_stable [OF this] 1 show ?thesis by (auto simp: validate_one_def Let_def)
    next
      case 2
      define yes where "yes \<longleftrightarrow> map lower_char (as_text raw) \<in> {''true'', ''yes'', ''on'', ''1''}"
      have v: "v = Some (if yes then ''Yes'' else ''No'')" "vs = []"
        using 2 blank assms unfolding validate_one_def Let_def yes_def [symmetric] by simp_all
      have texts: "as_text v = (if yes then ''Yes'' else ''No'')" by (simp add: v as_text_def yes_no)
      have "map lower_char (as_text v) \<in> {''true'', ''yes'', ''on'', ''1''} \<longleftrightarrow> yes"
        unfolding texts by (cases yes) (simp_all add: yes_no del: list.map)
      then show ?thesis
        using 2 v texts unfolding validate_one_def Let_def by simp
    next
      case 3
      with scalar_value [OF 3 blank assms] same assms show ?thesis by simp
    qed
  qed
qed

subsection \<open>Whole submissions\<close>

lemma resolve_answers_rows:
  "resolve_answers entries n fs = Inr rows \<Longrightarrow>
     map fst rows = map snd fs \<and> map (\<lambda>x. an_section (snd x)) rows = map fst fs
     \<and> map (\<lambda>x. an_order (snd x)) rows = [n..<n + length fs]
     \<and> (\<forall>(f, r) \<in> set rows. an_field r = ff_id f \<and> an_label r = ff_label f \<and> an_type r = ff_type f
          \<and> answer_fits f (an_value r) (an_values r)
          \<and> validate_one f (an_value r) (an_values r) = Inr (an_value r, an_values r))"
proof (induction fs arbitrary: n rows)
  case (Cons tf fs)
  obtain title f where tf: "tf = (title, f)" by (cases tf)
  obtain raw raws where inc: "incoming entries (ff_id f) = (raw, raws)" by (cases "incoming entries (ff_id f)")
  obtain v vs where one: "validate_one f raw raws = Inr (v, vs)"
    using Cons.prems tf inc by (auto split: sum.splits)
  obtain rest where rest: "resolve_answers entries (Suc n) fs = Inr rest"
    using Cons.prems tf inc one by (cases "resolve_answers entries (Suc n) fs") auto
  have rows: "rows = (f, \<lparr>an_field = ff_id f, an_order = n, an_section = title, an_label = ff_label f,
      an_type = ff_type f, an_value = v, an_values = vs\<rparr>) # rest"
    using Cons.prems tf inc one rest by simp
  show ?case
    using Cons.IH [OF rest] validate_one_fits [OF one] validate_one_stable [OF one]
    by (auto simp: rows tf upt_rec [of n])
qed simp

definition resubmit :: "(flow_field \<times> answer_row) list \<Rightarrow> submitted list" where
  "resubmit rows = map (\<lambda>(f, r). \<lparr>sb_field = an_field r, sb_value = an_value r, sb_values = an_values r\<rparr>) rows"

lemma find_filter: "find P xs = (case filter P xs of [] \<Rightarrow> None | x # _ \<Rightarrow> Some x)"
  by (induction xs) auto

lemma incoming_resubmit:
  assumes "distinct (map (\<lambda>x. an_field (snd x)) rows)" "(f, r) \<in> set rows"
  shows "incoming (resubmit rows) (an_field r) = (an_value r, an_values r)"
proof -
  have "find (\<lambda>e. sb_field e = an_field r) (rev (resubmit rows))
      = Some \<lparr>sb_field = an_field r, sb_value = an_value r, sb_values = an_values r\<rparr>"
  proof -
    obtain xs ys where rows: "rows = xs @ (f, r) # ys" using split_list [OF assms(2)] by blast
    have "an_field r \<notin> (\<lambda>x. an_field (snd x)) ` set ys" using assms(1) rows by auto
    then have none: "filter (\<lambda>e. sb_field e = an_field r) (resubmit ys) = []"
      by (force simp: resubmit_def filter_empty_conv)
    show ?thesis
      unfolding find_filter rev_filter [symmetric] using none
      by (simp add: rows) (simp add: resubmit_def)
  qed
  then show ?thesis by (simp add: incoming_def)
qed

lemma resolve_again:
  assumes "\<And>f r. (f, r) \<in> set rows \<Longrightarrow> incoming entries (ff_id f) = (an_value r, an_values r)"
    "\<forall>(f, r) \<in> set rows. an_field r = ff_id f \<and> an_label r = ff_label f \<and> an_type r = ff_type f
       \<and> validate_one f (an_value r) (an_values r) = Inr (an_value r, an_values r)"
    "map (\<lambda>x. an_order (snd x)) rows = [n..<n + length rows]"
  shows "resolve_answers entries n (map (\<lambda>x. (an_section (snd x), fst x)) rows) = Inr rows"
  using assms
proof (induction rows arbitrary: n)
  case (Cons fr rows)
  obtain f r where fr: "fr = (f, r)" by (cases fr)
  have order: "an_order r = n" "map (\<lambda>x. an_order (snd x)) rows = [Suc n..<Suc n + length rows]"
    using Cons.prems(3) by (simp_all add: fr upt_conv_Cons del: upt_Suc)
  have "resolve_answers entries (Suc n) (map (\<lambda>x. (an_section (snd x), fst x)) rows) = Inr rows"
    using Cons.prems(1,2) order(2) by (intro Cons.IH) auto
  then show ?case
    using Cons.prems(1) [of f r] Cons.prems(2) order(1) by (simp add: fr)
qed simp

lemma asked_fields: "map snd (asked sections) = concat (map fs_fields sections)"
  by (induction sections) (simp_all add: asked_def comp_def)

definition bind_value ::
  "flow_field \<times> answer_row \<Rightarrow> (field_binding \<rightharpoonup> string) \<Rightarrow> field_binding \<rightharpoonup> string"
where
  "bind_value fr out = (case (ff_binds (fst fr), an_value (snd fr)) of
     (Some b, Some v) \<Rightarrow> if v \<noteq> [] then out(b \<mapsto> v) else out | _ \<Rightarrow> out)"

lemma bound_values_fold: "bound_values rows = fold bind_value rows Map.empty"
  unfolding bound_values_def by (rule arg_cong [where f = "\<lambda>f. fold f rows Map.empty"]) (auto simp: fun_eq_iff bind_value_def split: option.split)

lemma bind_value_only: "bind_value fr out b = Some v \<Longrightarrow>
    out b = Some v \<or> ff_binds (fst fr) = Some b \<and> an_value (snd fr) = Some v"
  by (auto simp: bind_value_def split: option.splits if_splits)

lemma bound_values_only:
  assumes "bound_values rows b = Some v"
  shows "\<exists>fr \<in> set rows. ff_binds (fst fr) = Some b \<and> an_value (snd fr) = Some v"
proof -
  have "fold bind_value rows out b = Some v \<Longrightarrow> out b = Some v
      \<or> (\<exists>fr \<in> set rows. ff_binds (fst fr) = Some b \<and> an_value (snd fr) = Some v)" for out
  proof (induction rows arbitrary: out)
    case (Cons fr rows)
    from Cons.IH [of "bind_value fr out"] Cons.prems bind_value_only [of fr out b v] show ?case by auto
  qed simp
  from this [of Map.empty] assms show ?thesis by (simp add: bound_values_fold)
qed

subsection \<open>A form\<close>

definition year_field :: flow_field where
  "year_field = \<lparr>ff_id = 20, ff_label = ''Year'', ff_type = F_NUMBER, ff_required = True, ff_options = [],
     ff_min = Some 1900, ff_max = Some 2030, ff_max_length = None, ff_binds = Some ITEM_YEAR\<rparr>"

definition fuel_field :: flow_field where
  "fuel_field = \<lparr>ff_id = 21, ff_label = ''Fuel'', ff_type = F_SELECT, ff_required = False,
     ff_options = [''petrol'', ''diesel''], ff_min = None, ff_max = None, ff_max_length = None, ff_binds = None\<rparr>"

definition car_section :: flow_section where
  "car_section = \<lparr>fs_id = 30, fs_garage = 2, fs_type = None, fs_order = 0, fs_title = ''Your car'', fs_active = True,
     fs_fields = [year_field, fuel_field]\<rparr>"

definition asking_db :: db where
  "asking_db = demo_shop\<lparr>db_sections := [car_section]\<rparr>"

definition sent :: "submitted list" where
  "sent = [\<lparr>sb_field = 20, sb_value = Some '' 2_015 '', sb_values = []\<rparr>]"

definition stored :: "(flow_field \<times> answer_row) list" where
  "stored = [(year_field, \<lparr>an_field = 20, an_order = 0, an_section = ''Your car'', an_label = ''Year'',
       an_type = F_NUMBER, an_value = Some ''2015'', an_values = []\<rparr>),
     (fuel_field, \<lparr>an_field = 21, an_order = 1, an_section = ''Your car'', an_label = ''Fuel'',
       an_type = F_SELECT, an_value = None, an_values = []\<rparr>)]"

lemmas form_demo = year_field_def fuel_field_def car_section_def asking_db_def sent_def stored_def

lemma form_sections: "resolve_sections asking_db 2 None = [car_section]"
  by (simp add: resolve_sections_def active_sections_def form_demo)

lemma form_fields: "resolve_fields asking_db 2 None = [year_field, fuel_field]"
  by (simp add: resolve_fields_def form_sections) (simp add: car_section_def)

lemma show_2015: "show_int 2015 = ''2015''"
  by (simp add: show_int_def show_nat.simps digit_char_def char_of_def bit_0)

lemma form_accepts: "validate_answers asking_db 2 None sent = Inr stored"
proof -
  have "parse_int ''2_015'' = Some 2015"
    by (simp add: parse_int_def is_digit_def digits_value_def digit_value_def)
  moreover have "as_text (Some '' 2_015 '') = ''2_015''" by (simp add: as_text_def text_eval)
  ultimately have year: "validate_one year_field (Some '' 2_015 '') [] = Inr (Some ''2015'', [])"
    by (simp add: validate_one_def validate_number_def year_field_def show_2015)
  have fuel: "validate_one fuel_field None [] = Inr (None, [])" by (simp add: validate_one_def fuel_field_def)
  have "asked [car_section] = [(''Your car'', year_field), (''Your car'', fuel_field)]"
    by (simp add: asked_def car_section_def)
  moreover have "incoming sent (ff_id year_field) = (Some '' 2_015 '', [])" "incoming sent (ff_id fuel_field) = (None, [])"
    by (simp_all add: incoming_def sent_def year_field_def fuel_field_def)
  ultimately show ?thesis
    using year fuel by (simp add: validate_answers_def form_sections) (simp add: form_demo)
qed

subsection \<open>Properties\<close>

text \<open>
  C29: Accepted answers fit the form the business configured: there is exactly one row per question,
  in the order the customer saw them, and each is a value its question allows - required ones
  answered, choices among those on offer, numbers in range, dates and times readable.
\<close>

theorem answers_fit_the_form:
  assumes "validate_answers s garage_id type_id entries = Inr rows"
  shows "map fst rows = resolve_fields s garage_id type_id
    \<and> map (\<lambda>x. an_order (snd x)) rows = [0..<length (resolve_fields s garage_id type_id)]
    \<and> (\<forall>(f, r) \<in> set rows. an_field r = ff_id f \<and> answer_fits f (an_value r) (an_values r))
    \<and> sb_field ` set entries \<subseteq> ff_id ` set (resolve_fields s garage_id type_id)"
proof -
  let ?asked = "asked (resolve_sections s garage_id type_id)"
  have rows: "resolve_answers entries 0 ?asked = Inr rows"
    and known: "\<forall>e \<in> set entries. sb_field e \<in> ff_id ` set (map snd ?asked)"
    using assms by (auto simp: validate_answers_def Let_def split: if_splits)
  have fields: "map snd ?asked = resolve_fields s garage_id type_id"
    by (simp add: asked_fields resolve_fields_def)
  then have "length ?asked = length (resolve_fields s garage_id type_id)" by (metis length_map)
  with resolve_answers_rows [OF rows] fields known show ?thesis by auto
qed

theorem answers_fit_the_form_witness:
  "map fst stored = [year_field, fuel_field] \<and> list_all (\<lambda>(f, r). answer_fits f (an_value r) (an_values r)) stored"
  using answers_fit_the_form [OF form_accepts] by (auto simp: form_fields list_all_iff)

text \<open>
  C30: Stored answers are stable: sending back exactly what was stored is accepted and stores the
  same rows again, so normalising an answer twice changes nothing and a retry can be recognised.
\<close>

theorem stored_answers_resubmit:
  assumes "validate_answers s garage_id type_id entries = Inr rows"
    "distinct (map ff_id (resolve_fields s garage_id type_id))"
  shows "validate_answers s garage_id type_id (resubmit rows) = Inr rows"
proof -
  let ?asked = "asked (resolve_sections s garage_id type_id)"
  have rows: "resolve_answers entries 0 ?asked = Inr rows"
    using assms(1) by (auto simp: validate_answers_def Let_def split: if_splits)
  note facts = resolve_answers_rows [OF rows]
  have fields: "map fst rows = resolve_fields s garage_id type_id"
    using facts by (simp add: asked_fields resolve_fields_def)
  have "map (\<lambda>x. an_field (snd x)) rows = map (\<lambda>x. ff_id (fst x)) rows" using facts by (intro map_cong) auto
  then have ids: "map (\<lambda>x. an_field (snd x)) rows = map ff_id (map fst rows)" by (simp add: comp_def)
  have "distinct (map (\<lambda>x. an_field (snd x)) rows)" using ids assms(2) fields by simp
  then have inc: "incoming (resubmit rows) (ff_id f) = (an_value r, an_values r)" if "(f, r) \<in> set rows" for f r
    using incoming_resubmit [OF _ that] facts that by auto
  have zips: "zip (map k rows) (map h rows) = map (\<lambda>x. (k x, h x)) rows" for k :: "flow_field \<times> answer_row \<Rightarrow> string"
    and h :: "flow_field \<times> answer_row \<Rightarrow> flow_field" by (induction rows) simp_all
  have "?asked = zip (map fst ?asked) (map snd ?asked)" by (simp add: zip_map_fst_snd)
  also have "\<dots> = zip (map (\<lambda>x. an_section (snd x)) rows) (map fst rows)" using facts by simp
  finally have asked: "?asked = map (\<lambda>x. (an_section (snd x), fst x)) rows" by (simp only: zips)
  have len: "length rows = length ?asked" using asked by (metis length_map)
  have "resolve_answers (resubmit rows) 0 ?asked = Inr rows"
    unfolding asked using facts inc len by (intro resolve_again) auto
  moreover have "\<forall>e \<in> set (resubmit rows). sb_field e \<in> ff_id ` set (map snd ?asked)"
    unfolding asked using facts by (fastforce simp: resubmit_def)
  ultimately show ?thesis by (auto simp: validate_answers_def Let_def)
qed

theorem stored_answers_resubmit_witness:
  "validate_answers asking_db 2 None (resubmit stored) = Inr stored"
  by (rule stored_answers_resubmit [OF form_accepts]) (simp add: form_fields, simp add: form_demo)

text \<open>
  A checkbox answer is stored as a scalar, although the model's comment counts CHECKBOX among the
  types that store a list; and a service whose own sections are all switched off falls back to the
  business's default form, although the model's comment says that any section of its own replaces it.
\<close>

lemma checkbox_is_scalar:
  "ff_type f = F_CHECKBOX \<Longrightarrow> validate_one f (Some ''true'') [] = Inr (Some ''Yes'', [])"
  by (simp add: validate_one_def as_text_def text_eval)

lemma inactive_override_falls_back:
  assumes "\<And>x. x \<in> set (db_sections s) \<Longrightarrow> fs_type x = Some i \<Longrightarrow> \<not> fs_active x"
  shows "resolve_sections s garage_id (Some i) = resolve_sections s garage_id None"
proof -
  have "filter fs_active (filter (\<lambda>x. fs_garage x = garage_id \<and> fs_type x = Some i) (db_sections s)) = []"
    using assms by (auto simp: filter_empty_conv)
  then show ?thesis by (simp add: resolve_sections_def active_sections_def)
qed

end
