(* ===== verification/Add_Ons.thy ===== *)
theory Add_Ons
  imports Payments
begin

text \<open>
  Choosing and pricing the extras of a service, \<open>app/appointments/add_ons/service.py\<close>: the rules every
  entry point shares (staff, public form, availability), the totals, the frozen copy on a booking and
  the identity of a selection used by idempotent retries. The loop over the selection is shown to
  accept exactly the selections that satisfy an order-free specification.
\<close>

record resolved_add_on =
  ra_add_on :: add_on
  ra_quantity :: int

type_synonym selection = "(uid \<times> int option) list"

definition offered :: "db \<Rightarrow> appointment_type \<Rightarrow> uid \<Rightarrow> add_on option" where
  "offered s ty add_on_id = find (\<lambda>a. xt_id a = add_on_id) (filter (\<lambda>a. xt_type a = ty_id ty) (db_add_ons s))"

definition quantity_limit :: "(uid \<rightharpoonup> int) \<Rightarrow> add_on \<Rightarrow> int" where
  "quantity_limit applied a = max (xt_max_quantity a) (case applied (xt_id a) of None \<Rightarrow> 0 | Some q \<Rightarrow> q)"

text \<open>\<open>seen\<close> and \<open>groups\<close> are the two collections the loop fills.\<close>

fun resolve_entries ::
  "(uid \<Rightarrow> add_on option) \<Rightarrow> (uid \<rightharpoonup> int) \<Rightarrow> selection \<Rightarrow> uid list \<Rightarrow> (string \<rightharpoonup> add_on)
     \<Rightarrow> http_error + resolved_add_on list"
where
  "resolve_entries by_id applied [] seen groups = Inr []"
| "resolve_entries by_id applied ((i, q) # entries) seen groups =
     (case by_id i of
        None \<Rightarrow> Inl (Abort 422 ''add_ons not offered'')
      | Some a \<Rightarrow>
          let quantity = (case q of None \<Rightarrow> 1 | Some n \<Rightarrow> n)
          in if xt_status a \<noteq> TYPE_ACTIVE \<and> applied (xt_id a) = None then Inl (Abort 422 ''no longer available'')
             else if i \<in> set seen then Inl (Abort 422 ''listed more than once'')
             else if quantity < 1 \<or> quantity_limit applied a < quantity then Inl (Abort 422 ''at most'')
             else
               (case (if truthy (xt_group a) then groups (the (xt_group a)) else None) of
                  Some other \<Rightarrow>
                    if \<not> (applied (xt_id other) \<noteq> None \<and> applied (xt_id a) \<noteq> None)
                    then Inl (Abort 422 ''add_on_exclusivity_conflict'')
                    else map_sum id (Cons \<lparr>ra_add_on = a, ra_quantity = quantity\<rparr>)
                           (resolve_entries by_id applied entries (i # seen) (groups(the (xt_group a) \<mapsto> a)))
                | None \<Rightarrow> map_sum id (Cons \<lparr>ra_add_on = a, ra_quantity = quantity\<rparr>)
                    (resolve_entries by_id applied entries (i # seen)
                       (if truthy (xt_group a) then groups(the (xt_group a) \<mapsto> a) else groups))))"

definition resolve_selection ::
  "db \<Rightarrow> appointment_type \<Rightarrow> selection \<Rightarrow> (uid \<rightharpoonup> int) \<Rightarrow> http_error + resolved_add_on list"
where
  "resolve_selection s ty sel applied = resolve_entries (offered s ty) applied sel [] Map.empty"

definition price_delta :: "resolved_add_on list \<Rightarrow> pence" where
  "price_delta rows = (\<Sum>r\<leftarrow>rows. xt_price_delta (ra_add_on r) * ra_quantity r)"

definition duration_delta :: "resolved_add_on list \<Rightarrow> int" where
  "duration_delta rows = (\<Sum>r\<leftarrow>rows. xt_duration_delta (ra_add_on r) * ra_quantity r)"

definition applied_price_delta :: "applied_add_on list \<Rightarrow> pence" where
  "applied_price_delta rows = (\<Sum>r\<leftarrow>rows. ao_price_delta r * ao_quantity r)"

definition applied_duration_delta :: "applied_add_on list \<Rightarrow> int" where
  "applied_duration_delta rows = (\<Sum>r\<leftarrow>rows. ao_duration_delta r * ao_quantity r)"

definition total_price :: "pence option \<Rightarrow> pence \<Rightarrow> http_error + pence option" where
  "total_price base_price delta =
     (case base_price of
        None \<Rightarrow> Inr None
      | Some b \<Rightarrow> if b + delta < 0 then Inl (Abort 422 ''price below zero'') else Inr (Some (b + delta)))"

definition total_duration :: "int \<Rightarrow> int \<Rightarrow> http_error + int" where
  "total_duration base_minutes delta =
     (if base_minutes + delta < 1 then Inl (Abort 422 ''duration below one minute'') else Inr (base_minutes + delta))"

definition applied_of :: "resolved_add_on \<Rightarrow> applied_add_on" where
  "applied_of r = \<lparr>ao_add_on = Some (xt_id (ra_add_on r)), ao_name = xt_name (ra_add_on r), ao_quantity = ra_quantity r,
     ao_price_delta = xt_price_delta (ra_add_on r), ao_duration_delta = xt_duration_delta (ra_add_on r)\<rparr>"

text \<open>
  The code sorts pairs of the id's text and the quantity; only equality of signatures is ever
  asked for, and sorting by another linear order decides the same equality.
\<close>

definition signature :: "(uid option \<times> int) list \<Rightarrow> (uid option \<times> int) list" where
  "signature pairs = sort_key (\<lambda>(i, q). (case i of None \<Rightarrow> 0 | Some n \<Rightarrow> Suc n, q)) pairs"

definition resolved_signature :: "resolved_add_on list \<Rightarrow> (uid option \<times> int) list" where
  "resolved_signature rows = signature (map (\<lambda>r. (Some (xt_id (ra_add_on r)), ra_quantity r)) rows)"

definition applied_signature :: "applied_add_on list \<Rightarrow> (uid option \<times> int) list" where
  "applied_signature rows = signature (map (\<lambda>r. (ao_add_on r, ao_quantity r)) rows)"

subsection \<open>What is accepted\<close>

definition chosen_quantity :: "int option \<Rightarrow> int" where
  "chosen_quantity q = (case q of None \<Rightarrow> 1 | Some n \<Rightarrow> n)"

definition same_group :: "add_on \<Rightarrow> add_on \<Rightarrow> bool" where
  "same_group a b \<longleftrightarrow> truthy (xt_group a) \<and> xt_group a = xt_group b"

definition entry_ok :: "(uid \<Rightarrow> add_on option) \<Rightarrow> (uid \<rightharpoonup> int) \<Rightarrow> uid \<Rightarrow> int option \<Rightarrow> bool" where
  "entry_ok by_id applied i q \<longleftrightarrow>
     (case by_id i of
        None \<Rightarrow> False
      | Some a \<Rightarrow> (xt_status a = TYPE_ACTIVE \<or> applied i \<noteq> None)
                \<and> 1 \<le> chosen_quantity q \<and> chosen_quantity q \<le> quantity_limit applied a)"

definition selection_ok :: "(uid \<Rightarrow> add_on option) \<Rightarrow> (uid \<rightharpoonup> int) \<Rightarrow> selection \<Rightarrow> bool" where
  "selection_ok by_id applied sel \<longleftrightarrow> distinct (map fst sel) \<and> (\<forall>(i, q) \<in> set sel. entry_ok by_id applied i q)
     \<and> (\<forall>i \<in> set (map fst sel). \<forall>j \<in> set (map fst sel). i \<noteq> j \<longrightarrow> same_group (the (by_id i)) (the (by_id j)) \<longrightarrow>
          applied i \<noteq> None \<and> applied j \<noteq> None)"

definition chosen :: "(uid \<Rightarrow> add_on option) \<Rightarrow> selection \<Rightarrow> resolved_add_on list" where
  "chosen by_id sel = map (\<lambda>(i, q). \<lparr>ra_add_on = the (by_id i), ra_quantity = chosen_quantity q\<rparr>) sel"

lemma same_group_sym: "same_group a b \<longleftrightarrow> same_group b a"
  by (auto simp: same_group_def)

text \<open>
  What the two collections mean while the loop runs: \<open>groups\<close> holds, per group, one of the add-ons
  accepted so far, and any two accepted ones of a group were both on the booking already.
\<close>

definition loop_inv ::
  "(uid \<Rightarrow> add_on option) \<Rightarrow> (uid \<rightharpoonup> int) \<Rightarrow> uid list \<Rightarrow> (string \<rightharpoonup> add_on) \<Rightarrow> bool"
where
  "loop_inv by_id applied seen groups \<longleftrightarrow>
     (\<forall>g a. groups g = Some a \<longrightarrow> g \<noteq> [] \<and> xt_group a = Some g \<and> xt_id a \<in> set seen \<and> by_id (xt_id a) = Some a)
     \<and> (\<forall>i \<in> set seen. \<exists>a. by_id i = Some a
          \<and> (truthy (xt_group a) \<longrightarrow> (\<exists>b. groups (the (xt_group a)) = Some b \<and> (xt_id b = i \<or> applied i \<noteq> None \<and> applied (xt_id b) \<noteq> None))))"

definition ids_kept :: "(uid \<Rightarrow> add_on option) \<Rightarrow> bool" where
  "ids_kept by_id \<longleftrightarrow> (\<forall>i a. by_id i = Some a \<longrightarrow> xt_id a = i)"

lemma offered_ids_kept: "ids_kept (offered s ty)"
  by (auto simp: ids_kept_def offered_def dest: find_SomeD)

text \<open>Two add-ons that cannot both be chosen.\<close>

definition excludes :: "(uid \<Rightarrow> add_on option) \<Rightarrow> (uid \<rightharpoonup> int) \<Rightarrow> uid \<Rightarrow> uid \<Rightarrow> bool" where
  "excludes by_id applied i j \<longleftrightarrow> i \<noteq> j \<and> same_group (the (by_id i)) (the (by_id j))
     \<and> \<not> (applied i \<noteq> None \<and> applied j \<noteq> None)"

lemma excludes_sym: "excludes by_id applied i j \<longleftrightarrow> excludes by_id applied j i"
  unfolding excludes_def using same_group_sym [of "the (by_id i)" "the (by_id j)"] by blast

definition ok_from :: "(uid \<Rightarrow> add_on option) \<Rightarrow> (uid \<rightharpoonup> int) \<Rightarrow> uid list \<Rightarrow> selection \<Rightarrow> bool" where
  "ok_from by_id applied seen sel \<longleftrightarrow> distinct (map fst sel) \<and> set (map fst sel) \<inter> set seen = {}
     \<and> (\<forall>(i, q) \<in> set sel. entry_ok by_id applied i q)
     \<and> (\<forall>i \<in> set (map fst sel). \<forall>j \<in> set (map fst sel) \<union> set seen. \<not> excludes by_id applied i j)"

lemma ok_from_Cons:
  "ok_from by_id applied seen ((i, q) # sel) \<longleftrightarrow>
     entry_ok by_id applied i q \<and> i \<notin> set seen \<and> (\<forall>j \<in> set seen. \<not> excludes by_id applied i j)
     \<and> ok_from by_id applied (i # seen) sel"
proof -
  have self: "\<not> excludes by_id applied i i" by (simp add: excludes_def)
  have turn: "(\<forall>k \<in> set (map fst sel). \<not> excludes by_id applied i k) \<longleftrightarrow>
      (\<forall>k \<in> set (map fst sel). \<not> excludes by_id applied k i)"
    by (simp add: excludes_sym [of by_id applied i])
  show ?thesis
    unfolding ok_from_def using self turn by (simp only: list.map fst_conv list.set distinct.simps ball_simps
        Un_insert_left Un_insert_right ball_Un prod.case) blast
qed

lemma ok_from_start: "ok_from by_id applied [] sel \<longleftrightarrow> selection_ok by_id applied sel"
  by (auto simp: ok_from_def selection_ok_def excludes_def)

lemma group_excludes:
  assumes inv: "loop_inv by_id applied seen groups" and kept: "ids_kept by_id"
    and a: "by_id i = Some a" and new: "i \<notin> set seen"
  shows "(\<exists>j \<in> set seen. excludes by_id applied i j) \<longleftrightarrow>
    (\<exists>other. truthy (xt_group a) \<and> groups (the (xt_group a)) = Some other
       \<and> \<not> (applied (xt_id other) \<noteq> None \<and> applied i \<noteq> None))" (is "?L \<longleftrightarrow> ?R")
proof
  assume ?L
  then obtain j where j: "j \<in> set seen" "same_group a (the (by_id j))"
    "\<not> (applied i \<noteq> None \<and> applied j \<noteq> None)" using a by (auto simp: excludes_def)
  from j(1) inv obtain c where c: "by_id j = Some c" "truthy (xt_group c) \<longrightarrow>
      (\<exists>b. groups (the (xt_group c)) = Some b \<and> (xt_id b = j \<or> applied j \<noteq> None \<and> applied (xt_id b) \<noteq> None))"
    by (auto simp: loop_inv_def)
  with j(2) show ?R using j(3) by (auto simp: same_group_def)
next
  assume ?R
  then obtain b where b: "truthy (xt_group a)" "groups (the (xt_group a)) = Some b"
    "\<not> (applied (xt_id b) \<noteq> None \<and> applied i \<noteq> None)" by blast
  with inv have "xt_group b = Some (the (xt_group a))" "xt_id b \<in> set seen" "by_id (xt_id b) = Some b"
    unfolding loop_inv_def by blast+
  with a b new have "excludes by_id applied i (xt_id b)"
    by (auto simp: excludes_def same_group_def truthy_def)
  with \<open>xt_id b \<in> set seen\<close> show ?L by blast
qed

lemma loop_inv_step:
  assumes inv: "loop_inv by_id applied seen groups" and kept: "ids_kept by_id"
    and a: "by_id i = Some a" and free: "\<forall>j \<in> set seen. \<not> excludes by_id applied i j"
  shows "loop_inv by_id applied (i # seen) (if truthy (xt_group a) then groups(the (xt_group a) \<mapsto> a) else groups)"
proof -
  have id: "xt_id a = i" using kept a by (simp add: ids_kept_def)
  have "\<exists>c. by_id k = Some c \<and> (truthy (xt_group c) \<longrightarrow>
      (\<exists>b. (if truthy (xt_group a) then groups(the (xt_group a) \<mapsto> a) else groups) (the (xt_group c)) = Some b
         \<and> (xt_id b = k \<or> applied k \<noteq> None \<and> applied (xt_id b) \<noteq> None)))" if k: "k \<in> set (i # seen)" for k
  proof (cases "k = i")
    case True
    with a id show ?thesis by auto
  next
    case False
    with k have s: "k \<in> set seen" by simp
    with inv obtain c where c: "by_id k = Some c" "truthy (xt_group c) \<longrightarrow>
      (\<exists>b. groups (the (xt_group c)) = Some b \<and> (xt_id b = k \<or> applied k \<noteq> None \<and> applied (xt_id b) \<noteq> None))"
      by (auto simp: loop_inv_def)
    have "applied i \<noteq> None \<and> applied k \<noteq> None" if "same_group a c"
      using free s that a c(1) False by (auto simp: excludes_def)
    with c id show ?thesis by (auto simp: same_group_def truthy_def)
  qed
  moreover have "g \<noteq> [] \<and> xt_group b = Some g \<and> xt_id b \<in> set (i # seen) \<and> by_id (xt_id b) = Some b"
    if "(if truthy (xt_group a) then groups(the (xt_group a) \<mapsto> a) else groups) g = Some b" for g b
    using that inv a id by (auto simp: loop_inv_def truthy_def split: if_splits)
  ultimately show ?thesis unfolding loop_inv_def by blast
qed

lemma resolve_entries_accepts:
  assumes "loop_inv by_id applied seen groups" "ids_kept by_id"
  shows "resolve_entries by_id applied sel seen groups = Inr rows
    \<longleftrightarrow> ok_from by_id applied seen sel \<and> rows = chosen by_id sel"
  using assms(1)
proof (induction sel arbitrary: seen groups rows)
  case Nil
  then show ?case by (auto simp: ok_from_def chosen_def)
next
  case (Cons e sel)
  obtain i q where e: "e = (i, q)" by (cases e)
  show ?case
  proof (cases "by_id i")
    case None
    then show ?thesis by (simp add: e ok_from_Cons entry_ok_def)
  next
    case (Some a)
    have id: "xt_id a = i" using assms(2) Some by (simp add: ids_kept_def)
    let ?groups = "if truthy (xt_group a) then groups(the (xt_group a) \<mapsto> a) else groups"
    let ?row = "\<lparr>ra_add_on = a, ra_quantity = chosen_quantity q\<rparr>"
    show ?thesis
    proof (cases "entry_ok by_id applied i q \<and> i \<notin> set seen \<and> (\<forall>j \<in> set seen. \<not> excludes by_id applied i j)")
      case True
      then have free: "\<not> (\<exists>other. truthy (xt_group a) \<and> groups (the (xt_group a)) = Some other
          \<and> \<not> (applied (xt_id other) \<noteq> None \<and> applied i \<noteq> None))"
        using group_excludes [OF Cons.prems assms(2) Some] by blast
      have step: "resolve_entries by_id applied (e # sel) seen groups
          = map_sum id (Cons ?row) (resolve_entries by_id applied sel (i # seen) ?groups)"
        using True free Some
        by (auto simp: e id entry_ok_def chosen_quantity_def Let_def split: option.splits)
      have cons: "map_sum id (Cons ?row) r = Inr rows \<longleftrightarrow> (\<exists>rows'. r = Inr rows' \<and> rows = ?row # rows')" for r
        by (cases r) auto
      have "loop_inv by_id applied (i # seen) ?groups"
        using True by (intro loop_inv_step [OF Cons.prems assms(2) Some]) blast
      from Cons.IH [OF this] show ?thesis
        unfolding step cons using True Some by (simp add: e ok_from_Cons chosen_def)
    next
      case False
      then have no: "\<not> ok_from by_id applied seen (e # sel)" by (auto simp: e ok_from_Cons)
      have "\<exists>err. resolve_entries by_id applied (e # sel) seen groups = Inl err"
      proof (cases "entry_ok by_id applied i q \<and> i \<notin> set seen")
        case True
        with False group_excludes [OF Cons.prems assms(2) Some]
        obtain other where "truthy (xt_group a)" "groups (the (xt_group a)) = Some other"
          "\<not> (applied (xt_id other) \<noteq> None \<and> applied i \<noteq> None)" by blast
        with Some show ?thesis by (auto simp: e id Let_def)
      next
        case False
        with Some show ?thesis by (auto simp: e id entry_ok_def chosen_quantity_def Let_def)
      qed
      with no show ?thesis by auto
    qed
  qed
qed

lemma resolve_selection_accepts:
  "resolve_selection s ty sel applied = Inr rows
    \<longleftrightarrow> selection_ok (offered s ty) applied sel \<and> rows = chosen (offered s ty) sel"
proof -
  have "loop_inv (offered s ty) applied [] Map.empty" by (simp add: loop_inv_def)
  from resolve_entries_accepts [OF this offered_ids_kept] show ?thesis
    by (simp add: resolve_selection_def ok_from_start)
qed

lemma selection_ok_mset:
  assumes "mset sel = mset sel'"
  shows "selection_ok by_id applied sel \<longleftrightarrow> selection_ok by_id applied sel'"
proof -
  have "set sel = set sel'" using assms by (rule mset_eq_setD)
  moreover have "distinct (map fst sel) \<longleftrightarrow> distinct (map fst sel')"
    using assms mset_eq_imp_distinct_iff [of "map fst sel" "map fst sel'"] by simp
  ultimately show ?thesis by (simp add: selection_ok_def)
qed

lemma sum_list_mset_eq: "mset xs = mset ys \<Longrightarrow> sum_list (map f xs) = (sum_list (map f ys) :: int)"
  by (metis mset_map sum_mset_sum_list)

lemma signature_mset: "signature xs = signature ys \<longleftrightarrow> mset xs = mset ys"
proof
  assume "signature xs = signature ys"
  then have "mset (signature xs) = mset (signature ys)" by simp
  then show "mset xs = mset ys" by (simp add: signature_def)
next
  assume eq: "mset xs = mset ys"
  define k where "k = (\<lambda>(i, q :: int). (case i of None \<Rightarrow> 0 | Some n \<Rightarrow> Suc n, q))"
  have "map k (sort_key k zs) = sort (map k zs)" for zs
    by (rule properties_for_sort [symmetric]) simp_all
  then have "map k (sort_key k xs) = map k (sort_key k ys)"
    using eq by (metis mset_map sorted_list_of_multiset_mset)
  moreover have "inj k" by (auto simp: inj_def k_def split: option.splits)
  ultimately show "signature xs = signature ys"
    unfolding signature_def k_def [symmetric] by (simp add: inj_map_eq_map)
qed

subsection \<open>The selection rules\<close>

lemma chosen_mset:
  assumes "mset sel = mset sel'"
  shows "mset (chosen by_id sel) = mset (chosen by_id sel')"
  using assms by (simp add: chosen_def)

text \<open>
  C31: a selection of extras is accepted exactly when every entry is offered, available and within its
  quantity limit, no extra is listed twice and no two of an exclusive group meet unless both were on
  the booking already; the rows are then the entries chosen. The loop's order does not matter: the same
  entries in another order are accepted too, at the same price, for the same duration and with the
  same identity for idempotent retries.
\<close>

theorem add_ons_accepted_by_the_rules:
  assumes "mset sel' = mset sel"
  shows "(resolve_selection s ty sel applied = Inr rows
      \<longleftrightarrow> selection_ok (offered s ty) applied sel \<and> rows = chosen (offered s ty) sel)
    \<and> (resolve_selection s ty sel applied = Inr rows \<longrightarrow>
        (\<exists>rows'. resolve_selection s ty sel' applied = Inr rows' \<and> price_delta rows' = price_delta rows
           \<and> duration_delta rows' = duration_delta rows \<and> resolved_signature rows' = resolved_signature rows))"
proof (intro conjI impI)
  assume "resolve_selection s ty sel applied = Inr rows"
  then have ok: "selection_ok (offered s ty) applied sel'" and rows: "rows = chosen (offered s ty) sel"
    using resolve_selection_accepts selection_ok_mset [OF assms] by auto
  let ?rows' = "chosen (offered s ty) sel'"
  have m: "mset ?rows' = mset rows" unfolding rows by (rule chosen_mset [OF assms])
  have "price_delta ?rows' = price_delta rows" "duration_delta ?rows' = duration_delta rows"
    unfolding price_delta_def duration_delta_def by (rule sum_list_mset_eq [OF m])+
  moreover have "resolved_signature ?rows' = resolved_signature rows"
    unfolding resolved_signature_def signature_mset using m by simp
  ultimately show "\<exists>rows'. resolve_selection s ty sel' applied = Inr rows' \<and> price_delta rows' = price_delta rows
      \<and> duration_delta rows' = duration_delta rows \<and> resolved_signature rows' = resolved_signature rows"
    using resolve_selection_accepts [of s ty sel' applied ?rows'] ok by blast
qed (rule resolve_selection_accepts)

definition valet :: add_on where
  "valet = \<lparr>xt_id = 30, xt_garage = 2, xt_type = 4, xt_name = ''Valet'', xt_price_delta = 1500, xt_duration_delta = 20,
     xt_max_quantity = 1, xt_group = None, xt_status = TYPE_ACTIVE\<rparr>"

definition wiper :: add_on where
  "wiper = \<lparr>xt_id = 31, xt_garage = 2, xt_type = 4, xt_name = ''Wiper'', xt_price_delta = 800, xt_duration_delta = 5,
     xt_max_quantity = 2, xt_group = None, xt_status = TYPE_ACTIVE\<rparr>"

definition extras_db :: db where
  "extras_db = demo_shop\<lparr>db_types := [deposit_type], db_add_ons := [valet, wiper]\<rparr>"

theorem add_ons_accepted_by_the_rules_witness:
  "\<exists>rows rows'. resolve_selection extras_db deposit_type [(30, None), (31, Some 2)] Map.empty = Inr rows
     \<and> resolve_selection extras_db deposit_type [(31, Some 2), (30, None)] Map.empty = Inr rows'
     \<and> price_delta rows = 3100 \<and> price_delta rows' = price_delta rows"
proof -
  have "resolve_selection extras_db deposit_type [(30, None), (31, Some 2)] Map.empty
      = Inr [\<lparr>ra_add_on = valet, ra_quantity = 1\<rparr>, \<lparr>ra_add_on = wiper, ra_quantity = 2\<rparr>]" (is "_ = Inr ?rows")
    by (simp add: resolve_selection_def offered_def quantity_limit_def extras_db_def valet_def wiper_def deposit_type_def
        truthy_def Let_def)
  moreover have "price_delta ?rows = 3100" by (simp add: price_delta_def valet_def wiper_def)
  moreover have "mset [(31, Some 2), (30, None)] = mset [(30 :: uid, None :: int option), (31, Some 2)]" by simp
  ultimately show ?thesis
    using add_ons_accepted_by_the_rules [of "[(31, Some 2), (30, None)]" "[(30, None), (31, Some 2)]" extras_db deposit_type
        Map.empty ?rows] by auto
qed

end
