(* ===== verification/Public_Booking.thy ===== *)
theory Public_Booking
  imports Terms Add_Ons Booking_Flow
begin

text \<open>
  The unauthenticated booking endpoints, \<open>app/public_booking/routes.py\<close>, and the reference codes of
  \<open>app/booking_requests/reference.py\<close>: the checks a submission goes through in their order, the request
  it leaves, the idempotent retries, and the deposit variant with its recovery and abandonment. The
  business of the slug and the outcome of the CAPTCHA check are passed in; the payload of a submission
  is the record \<open>booking_data\<close>, already of the types its schema gives it.
\<close>

subsection \<open>Reference codes\<close>

definition reference_alphabet :: string where
  "reference_alphabet = ''ABCDEFGHJKMNPQRSTUVWXYZ23456789''"

definition random_reference :: "nat list \<Rightarrow> string" where
  "random_reference draws = ''BK'' @ map (\<lambda>i. reference_alphabet ! i) draws"

text \<open>
  Each element of \<open>draws\<close> is one pass of the loop; \<open>None\<close> means that every one of them collided and
  the code would still be looking.
\<close>

fun unique_booking_reference :: "db \<Rightarrow> nat list list \<Rightarrow> string option" where
  "unique_booking_reference s [] = None"
| "unique_booking_reference s (d # ds) =
     (if list_ex (\<lambda>r. rq_reference r = Some (random_reference d)) (db_requests s)
      then unique_booking_reference s ds else Some (random_reference d))"

subsection \<open>The submission\<close>

record booking_data =
  bd_first :: string
  bd_last :: string
  bd_email :: string
  bd_phone :: "string option"
  bd_registration :: "string option"
  bd_item :: item_details
  bd_type :: "uid option"
  bd_add_ons :: selection
  bd_date :: date
  bd_time :: "clock option"
  bd_employee_note :: "string option"
  bd_notes :: "string option"
  bd_attempt :: "uid option"
  bd_code :: "string option"
  bd_answers :: "submitted list"
  bd_terms_accepted :: bool
  bd_terms_version :: "int option"

definition get_active_appointment_type :: "db \<Rightarrow> garage \<Rightarrow> uid option \<Rightarrow> http_error + appointment_type option" where
  "get_active_appointment_type s g type_id =
     (case type_id of
        None \<Rightarrow> Inr None
      | Some i \<Rightarrow>
          (case find (\<lambda>ty. ty_id ty = i \<and> ty_garage ty = g_id g) (db_types s) of
             None \<Rightarrow> Inl (Abort 422 ''appointment_type_id'')
           | Some ty \<Rightarrow> if ty_status ty \<noteq> TYPE_ACTIVE then Inl (Abort 422 ''appointment_type_id'') else Inr (Some ty)))"

definition resolve_add_ons :: "db \<Rightarrow> appointment_type option \<Rightarrow> selection \<Rightarrow> http_error + resolved_add_on list" where
  "resolve_add_ons s ty sel =
     (if sel = [] then Inr []
      else case ty of
        None \<Rightarrow> Inl (Abort 422 ''add_ons require an appointment_type_id'')
      | Some t \<Rightarrow> resolve_selection s t sel Map.empty)"

definition selected_duration ::
  "garage \<Rightarrow> appointment_type option \<Rightarrow> resolved_add_on list \<Rightarrow> http_error + int option"
where
  "selected_duration g ty rows =
     (if rows = [] then Inr None
      else map_sum id Some (total_duration (type_duration ty (resolve_settings g)) (duration_delta rows)))"

definition pre_discount_total :: "appointment_type option \<Rightarrow> resolved_add_on list \<Rightarrow> http_error + pence option" where
  "pre_discount_total ty rows =
     (case ty of None \<Rightarrow> Inr None | Some t \<Rightarrow> total_price (ty_base_price t) (price_delta rows))"

definition evaluate_public_discount ::
  "db \<Rightarrow> garage \<Rightarrow> string option \<Rightarrow> string \<Rightarrow> appointment_type option \<Rightarrow> resolved_add_on list \<Rightarrow> instant
     \<Rightarrow> discount_result option outcome"
where
  "evaluate_public_discount s g discount_code email ty rows now =
     (let code = strip_text (case discount_code of None \<Rightarrow> [] | Some c \<Rightarrow> c)
      in if code = [] then (Inr None, s)
         else checked (pre_discount_total ty rows) s (\<lambda>before.
           (case evaluate_code s g (Some code) (find_customer_by_email s (g_id g) (Some email)) before [] now of
              (Inl f, s') \<Rightarrow> (Inl (Abort 422 ''discount_code_invalid''), s')
            | (Inr result, s') \<Rightarrow> (Inr (Some result), s'))))"

definition redeem_public ::
  "db \<Rightarrow> discount_result option \<Rightarrow> booking_request \<Rightarrow> redemption_status \<Rightarrow> instant \<Rightarrow> unit outcome"
where
  "redeem_public s discount rq status now =
     (case discount of
        None \<Rightarrow> (Inr (), s)
      | Some result \<Rightarrow>
          (case redeem s result (rq_customer rq) status (Some (rq_id rq)) None now of
             (Inl f, s') \<Rightarrow> (Inl (Abort 422 ''discount_code_invalid''), s')
           | (Inr r, s') \<Rightarrow> (Inr (), s')))"

definition same_discount_code :: "booking_request \<Rightarrow> booking_data \<Rightarrow> bool" where
  "same_discount_code rq data \<longleftrightarrow> normalize_code (ds_code (rq_discount rq)) = normalize_code (bd_code data)"

text \<open>What the checkout shows before the deposit is taken.\<close>

definition deposit_preview ::
  "appointment_type option \<Rightarrow> pence \<Rightarrow> payment_error + bool \<times> pence option"
where
  "deposit_preview ty new_total =
     (case ty of
        None \<Rightarrow> Inr (False, None)
      | Some t \<Rightarrow>
          if \<not> ty_deposit_required t \<or> new_total \<le> 0 then Inr (False, None)
          else (case (ty_deposit_type t, ty_deposit_value t) of
                  (Some dt, Some dv) \<Rightarrow>
                    checks (map_sum Deposit_config id (calculate_deposit_minor dt dv (Some new_total)))
                      (\<lambda>minor. Inr (True, Some (min minor new_total)))
                | _ \<Rightarrow> Inl Assertion_error))"

definition slot_rejection :: "slot_reason \<Rightarrow> string" where
  "slot_rejection reason =
     (case reason of
        PAST \<Rightarrow> ''past'' | CLOSED \<Rightarrow> ''closed'' | OUTSIDE_HOURS \<Rightarrow> ''outside_hours''
      | TOO_SOON \<Rightarrow> ''too_soon'' | OUT_OF_WINDOW \<Rightarrow> ''out_of_window'' | FULL \<Rightarrow> ''full'')"

definition lock_and_validate_slot ::
  "db \<Rightarrow> garage \<Rightarrow> booking_data \<Rightarrow> appointment_type option \<Rightarrow> resolved_add_on list \<Rightarrow> instant
     \<Rightarrow> http_error + clock option"
where
  "lock_and_validate_slot s g data ty rows now =
     (case bd_time data of
        None \<Rightarrow> Inr None
      | Some t \<Rightarrow>
          checks (selected_duration g ty rows) (\<lambda>duration.
            (case validate_slot s g (bd_date data) t now ty None duration of
               None \<Rightarrow> Inr (Some t)
             | Some reason \<Rightarrow> Inl (Abort 409 (slot_rejection reason)))))"

definition validate_answers_or_abort ::
  "db \<Rightarrow> garage \<Rightarrow> booking_data \<Rightarrow> http_error + (flow_field \<times> answer_row) list"
where
  "validate_answers_or_abort s g data =
     (case validate_answers s (g_id g) (bd_type data) (bd_answers data) of
        Inl e \<Rightarrow> Inl (Abort 422 ''answers'') | Inr rows \<Rightarrow> Inr rows)"

subsection \<open>The request it becomes\<close>

text \<open>Python's \<open>a or b\<close> on a text and on a number.\<close>

definition or_text :: "string option \<Rightarrow> string option \<Rightarrow> string option" where
  "or_text a b = (if truthy a then a else b)"

definition tracked_reference :: "(flow_field \<times> answer_row) list \<Rightarrow> booking_data \<Rightarrow> string option" where
  "tracked_reference answers data =
     or_text (map_option ti_reference (tracked_item_kwargs (bound_values answers))) (bd_registration data)"

definition tracked_details :: "(flow_field \<times> answer_row) list \<Rightarrow> booking_data \<Rightarrow> item_details" where
  "tracked_details answers data =
     (let item = tracked_item_kwargs (bound_values answers); sent = bd_item data
      in \<lparr>it_make = or_text (Option.bind item ti_make) (it_make sent),
          it_model = or_text (Option.bind item ti_model) (it_model sent),
          it_year = number_or (Option.bind item ti_year) (it_year sent),
          it_usage = number_or (Option.bind item ti_usage) (it_usage sent)\<rparr>)"

definition submitted_contact :: "(flow_field \<times> answer_row) list \<Rightarrow> booking_data \<Rightarrow> contact" where
  "submitted_contact answers data =
     \<lparr>ct_first = bd_first data, ct_last = bd_last data, ct_email = Some (bd_email data), ct_phone = bd_phone data,
      ct_registration = tracked_reference answers data\<rparr>"

definition build_booking_request ::
  "db \<Rightarrow> garage \<Rightarrow> booking_data \<Rightarrow> appointment_type option \<Rightarrow> resolved_add_on list \<Rightarrow> clock option \<Rightarrow> request_status
     \<Rightarrow> (flow_field \<times> answer_row) list \<Rightarrow> discount_result option \<Rightarrow> nat list list \<Rightarrow> booking_request outcome"
where
  "build_booking_request s g data ty rows time status answers discount draws =
     (case resolve_customer_and_vehicle s (g_id g) None (submitted_contact answers data) (tracked_details answers data) of
        (Inl e, s1) \<Rightarrow> (Inl e, s1)
      | (Inr (customer_id, vehicle_id), s1) \<Rightarrow>
          (case unique_booking_reference s1 draws of
             None \<Rightarrow> (Inl (Abort 500 ''no free reference drawn''), s1)
           | Some reference \<Rightarrow>
               checked (selected_duration g ty rows) s1 (\<lambda>duration.
               checked (pre_discount_total ty rows) s1 (\<lambda>before.
                 (Inr \<lparr>rq_id = fresh_id s1, rq_garage = g_id g, rq_status = status,
                       rq_contact = submitted_contact answers data, rq_type = bd_type data,
                       rq_duration = (case duration of
                          None \<Rightarrow> Option.bind ty ty_duration | Some d \<Rightarrow> Some d),
                       rq_price = (case discount of None \<Rightarrow> before | Some result \<Rightarrow> Some (dr_new_total result)),
                       rq_type_name = map_option ty_name ty, rq_date = bd_date data, rq_time = time,
                       rq_add_ons = map applied_of rows,
                       rq_discount = (case discount of None \<Rightarrow> no_discount | Some result \<Rightarrow> apply_snapshot result),
                       rq_customer = Some customer_id, rq_vehicle = vehicle_id, rq_appointment = None,
                       rq_reviewer = None, rq_reviewed_at = None, rq_accepted_automatically = False,
                       rq_hold_expires = None, rq_terms_accepted_at = None, rq_terms_version = None,
                       rq_terms_token = None, rq_recovery_token = None, rq_source = SOURCE_WEB,
                       rq_reference = Some reference, rq_attempt = bd_attempt data,
                       rq_item = tracked_details answers data, rq_employee_note = bd_employee_note data,
                       rq_notes = bd_notes data, rq_answers = [],
                       rq_voice_tool = None, rq_voice_call = None\<rparr>,
                  s1\<lparr>db_next := Suc (db_next s1)\<rparr>)))))"

text \<open>
  The insert and its unique index on the business and the attempt id; then the answers and the use of
  the code.
\<close>

definition attempt_row :: "db \<Rightarrow> garage \<Rightarrow> uid \<Rightarrow> booking_request option" where
  "attempt_row s g attempt =
     find (\<lambda>r. rq_garage r = g_id g \<and> rq_attempt r = Some attempt) (db_requests s)"

definition insert_request :: "booking_request \<Rightarrow> db \<Rightarrow> unit outcome" where
  "insert_request rq s =
     (if list_ex (\<lambda>r. rq_garage r = rq_garage rq \<and> rq_attempt r = rq_attempt rq \<and> rq_attempt rq \<noteq> None) (db_requests s)
      then (Inl (Abort 500 ''IntegrityError''), s)
      else (Inr (), s\<lparr>db_requests := db_requests s @ [rq]\<rparr>))"

text \<open>
  The lines both submission endpoints share once the slot is free; \<open>stamp\<close> sets what they set on the
  built request before it is added.
\<close>

definition place_request ::
  "db \<Rightarrow> garage \<Rightarrow> booking_data \<Rightarrow> appointment_type option \<Rightarrow> resolved_add_on list \<Rightarrow> clock option \<Rightarrow> request_status
     \<Rightarrow> redemption_status \<Rightarrow> (flow_field \<times> answer_row) list \<Rightarrow> discount_result option \<Rightarrow> nat list list
     \<Rightarrow> (booking_request \<Rightarrow> booking_request) \<Rightarrow> instant \<Rightarrow> booking_request outcome"
where
  "place_request s g data ty rows time status use answers discount draws stamp now =
     (case build_booking_request s g data ty rows time status answers discount draws of
        (Inl e, s1) \<Rightarrow> (Inl e, s1)
      | (Inr built, s1) \<Rightarrow>
          let rq = persist_answers answers (stamp built)
          in (case insert_request rq s1 of
                (Inl e, s2) \<Rightarrow> (Inl e, s2)
              | (Inr _, s2) \<Rightarrow>
                  (case redeem_public s2 discount rq use now of
                     (Inl e, s3) \<Rightarrow> (Inl e, s3)
                   | (Inr _, s3) \<Rightarrow> (Inr rq, s3))))"

text \<open>An aborted request leaves what was committed before it; calls to a provider cannot be undone.\<close>

definition transaction :: "db \<Rightarrow> 'a outcome \<Rightarrow> 'a outcome" where
  "transaction s r = (case r of (Inl e, s') \<Rightarrow> (Inl e, rolled_back s s') | (Inr x, s') \<Rightarrow> (Inr x, s'))"

subsection \<open>Retries\<close>

definition same_selection ::
  "booking_request \<Rightarrow> booking_data \<Rightarrow> appointment_type option \<Rightarrow> resolved_add_on list \<Rightarrow> bool"
where
  "same_selection rq data ty rows \<longleftrightarrow> rq_type rq = map_option ty_id ty
     \<and> applied_signature (rq_add_ons rq) = resolved_signature rows
     \<and> rq_date rq = bd_date data \<and> rq_time rq = bd_time data \<and> same_discount_code rq data"

definition existing_plain_booking_attempt ::
  "db \<Rightarrow> garage \<Rightarrow> booking_data \<Rightarrow> appointment_type option \<Rightarrow> resolved_add_on list
     \<Rightarrow> http_error + booking_request option"
where
  "existing_plain_booking_attempt s g data ty rows =
     (case bd_attempt data of
        None \<Rightarrow> Inr None
      | Some attempt \<Rightarrow>
          (case attempt_row s g attempt of
             None \<Rightarrow> Inr None
           | Some rq \<Rightarrow>
               if \<not> same_selection rq data ty rows \<or> rq_status rq = AWAITING_PAYMENT
               then Inl (Abort 409 ''booking_attempt_mismatch'') else Inr (Some rq)))"

text \<open>Rows are in creation order, so the newest match is the first of the reversed table.\<close>

definition matching_active_plain_request ::
  "db \<Rightarrow> garage \<Rightarrow> booking_data \<Rightarrow> appointment_type option \<Rightarrow> resolved_add_on list
     \<Rightarrow> (flow_field \<times> answer_row) list \<Rightarrow> booking_request option"
where
  "matching_active_plain_request s g data ty rows answers =
     (case find (\<lambda>r. rq_garage r = g_id g \<and> rq_source r = SOURCE_WEB \<and> rq_status r = PENDING
              \<and> ct_email (rq_contact r) = Some (bd_email data) \<and> ct_phone (rq_contact r) = bd_phone data
              \<and> ct_registration (rq_contact r) = tracked_reference answers data
              \<and> rq_type r = map_option ty_id ty \<and> rq_date r = bd_date data \<and> rq_time r = bd_time data)
            (rev (db_requests s)) of
        None \<Rightarrow> None
      | Some candidate \<Rightarrow>
          if ct_first (rq_contact candidate) \<noteq> bd_first data \<or> ct_last (rq_contact candidate) \<noteq> bd_last data
             \<or> rq_employee_note candidate \<noteq> bd_employee_note data \<or> rq_notes candidate \<noteq> bd_notes data
             \<or> rq_item candidate \<noteq> tracked_details answers data then None
          else if applied_signature (rq_add_ons candidate) \<noteq> resolved_signature rows then None
          else if \<not> same_discount_code candidate data then None
          else if map (\<lambda>a. (an_field a, an_value a, an_values a)) (sort_key an_order (rq_answers candidate))
                  = map (\<lambda>(f, a). (ff_id f, an_value a, an_values a)) answers
          then Some candidate else None)"

subsection \<open>Submitting a booking\<close>

definition free_by_code :: "discount_result option \<Rightarrow> bool" where
  "free_by_code discount = (case discount of None \<Rightarrow> False | Some result \<Rightarrow> dr_new_total result \<le> 0)"

definition deposit_service :: "appointment_type option \<Rightarrow> bool" where
  "deposit_service ty = (case ty of None \<Rightarrow> False | Some t \<Rightarrow> ty_deposit_required t)"

datatype submission = Existing uid | Created uid

text \<open>\<open>BookingRequestSubmit.post\<close> up to its commit: a request that was there already, or a new one.\<close>

definition commit_submission ::
  "(string \<Rightarrow> bool) \<Rightarrow> string \<Rightarrow> db \<Rightarrow> garage \<Rightarrow> booking_data \<Rightarrow> nat list list \<Rightarrow> instant \<Rightarrow> submission outcome"
where
  "commit_submission verify_captcha captcha_token s g data draws now = transaction s (
     checked (require (verify_captcha captcha_token) (Abort 400 ''CAPTCHA verification failed.'')) s (\<lambda>_.
     checked (require_web_acceptance g (bd_terms_accepted data) (bd_terms_version data)) s (\<lambda>version.
     checked (get_active_appointment_type s g (bd_type data)) s (\<lambda>ty.
     checked (resolve_add_ons s ty (bd_add_ons data)) s (\<lambda>rows.
     checked (require (\<not> (deposit_service ty \<and> as_text (bd_code data) = [])) (Abort 422 ''deposit required'')) s (\<lambda>_.
     checked (existing_plain_booking_attempt s g data ty rows) s (\<lambda>existing.
       (case existing of
          Some rq \<Rightarrow> (Inr (Existing (rq_id rq)), s)
        | None \<Rightarrow>
            checked (validate_answers_or_abort s g data) s (\<lambda>answers.
              (case (if bd_attempt data = None then matching_active_plain_request s g data ty rows answers else None) of
                 Some rq \<Rightarrow> (Inr (Existing (rq_id rq)), s)
               | None \<Rightarrow>
                   (case evaluate_public_discount s g (bd_code data) (bd_email data) ty rows now of
                      (Inl e, s1) \<Rightarrow> (Inl e, s1)
                    | (Inr discount, s1) \<Rightarrow>
                        checked (require (\<not> (deposit_service ty \<and> \<not> free_by_code discount))
                                  (Abort 422 ''deposit required'')) s1 (\<lambda>_.
                        checked (lock_and_validate_slot s1 g data ty rows now) s1 (\<lambda>time.
                          (case place_request s1 g data ty rows time PENDING CONSUMED answers discount draws
                                  (\<lambda>rq. stamp_acceptance rq version now) now of
                             (Inl e, s2) \<Rightarrow> (Inl e, s2)
                           | (Inr rq, s2) \<Rightarrow> (Inr (Created (rq_id rq)), s2)))))))))))))))"

definition submit_booking ::
  "(string \<Rightarrow> bool) \<Rightarrow> string \<Rightarrow> db \<Rightarrow> garage \<Rightarrow> booking_data \<Rightarrow> nat list list \<Rightarrow> instant \<Rightarrow> uid outcome"
where
  "submit_booking verify_captcha captcha_token s g data draws now =
     (case commit_submission verify_captcha captcha_token s g data draws now of
        (Inl e, s1) \<Rightarrow> (Inl e, s1)
      | (Inr (Existing i), s1) \<Rightarrow> (Inr i, s1)
      | (Inr (Created i), s1) \<Rightarrow>
          (case auto_accept_booking_request (emit (BOOKING_REQUEST_CREATED i) s1) g i now of
             (Inl e, s2) \<Rightarrow> (Inl e, s2)
           | (Inr _, s2) \<Rightarrow> (Inr i, s2)))"

subsection \<open>Starting a deposit\<close>

text \<open>The envelope returned to the checkout: the snapshot of the request and its payment.\<close>

record deposit_view =
  dv_request :: uid
  dv_reference :: "string option"
  dv_status :: request_status
  dv_payment_status :: "payment_status option"
  dv_service_total :: "pence option"
  dv_deposit_amount :: "pence option"
  dv_remaining_balance :: "pence option"
  dv_hold_expires :: "instant option"
  dv_discount_code :: "string option"
  dv_discount_amount :: "pence option"
  dv_price_before :: "pence option"
  dv_session :: "(string option \<times> payment_status) option"
  dv_recovery :: "string option"

definition deposit_response ::
  "booking_request \<Rightarrow> payment option \<Rightarrow> (string option \<times> payment_status) option \<Rightarrow> string option \<Rightarrow> deposit_view"
where
  "deposit_response rq payment session recovery =
     (let deposit = map_option pay_amount payment
      in \<lparr>dv_request = rq_id rq, dv_reference = rq_reference rq, dv_status = rq_status rq,
          dv_payment_status = map_option pay_status payment, dv_service_total = rq_price rq,
          dv_deposit_amount = deposit,
          dv_remaining_balance = (case (rq_price rq, deposit) of (Some p, Some d) \<Rightarrow> Some (p - d) | _ \<Rightarrow> None),
          dv_hold_expires = rq_hold_expires rq, dv_discount_code = ds_code (rq_discount rq),
          dv_discount_amount = ds_amount (rq_discount rq), dv_price_before = ds_before (rq_discount rq),
          dv_session = session, dv_recovery = recovery\<rparr>)"

definition existing_deposit_attempt ::
  "db \<Rightarrow> garage \<Rightarrow> booking_data \<Rightarrow> appointment_type \<Rightarrow> resolved_add_on list \<Rightarrow> providers \<Rightarrow> deposit_view option outcome"
where
  "existing_deposit_attempt s g data ty rows pvs =
     (case bd_attempt data of
        None \<Rightarrow> (Inr None, s)
      | Some attempt \<Rightarrow>
          (case attempt_row s g attempt of
             None \<Rightarrow> (Inr None, s)
           | Some rq \<Rightarrow>
               if rq_status rq \<noteq> AWAITING_PAYMENT then (Inr None, s)
               else if \<not> same_selection rq data (Some ty) rows then (Inl (Abort 409 ''payment_attempt_mismatch''), s)
               else case locked_active_payment s rq of
                 None \<Rightarrow> (Inr None, s)
               | Some payment \<Rightarrow>
                   (case resume_payment_session s payment pvs of
                      (Inl e, s') \<Rightarrow> (Inl (Abort 502 ''could not resume the deposit payment''), s')
                    | (Inr None, s') \<Rightarrow> (Inr None, s')
                    | (Inr (Some session), s') \<Rightarrow>
                        (Inr (Some (deposit_response rq (Some payment) (Some session) None)), s'))))"

definition create_deposit_intent ::
  "db \<Rightarrow> garage \<Rightarrow> booking_data \<Rightarrow> appointment_type \<Rightarrow> resolved_add_on list \<Rightarrow> int option
     \<Rightarrow> (flow_field \<times> answer_row) list \<Rightarrow> payment_setup \<Rightarrow> string \<Rightarrow> nat list list \<Rightarrow> instant \<Rightarrow> deposit_view outcome"
where
  "create_deposit_intent s g data ty rows version answers su recovery draws now =
     (case evaluate_public_discount s g (bd_code data) (bd_email data) (Some ty) rows now of
        (Inl e, s1) \<Rightarrow> (Inl e, s1)
      | (Inr discount, s1) \<Rightarrow>
          checked (require (\<not> free_by_code discount) (Abort 422 ''deposit_not_required'')) s1 (\<lambda>_.
          checked (lock_and_validate_slot s1 g data (Some ty) rows now) s1 (\<lambda>time.
            (case place_request s1 g data (Some ty) rows time AWAITING_PAYMENT RESERVED answers discount draws
                    (\<lambda>rq. (stamp_acceptance rq version now)
                       \<lparr>rq_hold_expires := Some (payment_hold_deadline now (su_hold_minutes su)),
                        rq_recovery_token := Some recovery\<rparr>) now of
               (Inl e, s2) \<Rightarrow> (Inl e, s2)
             | (Inr rq, s2) \<Rightarrow>
                 (case start_deposit s2 g ty rq su now of
                    (Inl e, s3) \<Rightarrow> (Inl (deposit_abort e), s3)
                  | (Inr (payment, session), s3) \<Rightarrow>
                      (Inr (deposit_response rq (Some payment) (Some session) (Some recovery)), s3))))))"

text \<open>
  \<open>DepositIntentCreate.post\<close>: the sweep of expired holds commits, so an abort after it keeps what the
  sweep did.
\<close>

definition deposit_intent ::
  "(string \<Rightarrow> bool) \<Rightarrow> string \<Rightarrow> db \<Rightarrow> garage \<Rightarrow> booking_data \<Rightarrow> payment_setup \<Rightarrow> string \<Rightarrow> nat list list \<Rightarrow> instant
     \<Rightarrow> deposit_view outcome"
where
  "deposit_intent verify_captcha captcha_token s g data su recovery draws now =
     checked (require (verify_captcha captcha_token) (Abort 400 ''CAPTCHA verification failed.'')) s (\<lambda>_.
     checked (require_web_acceptance g (bd_terms_accepted data) (bd_terms_version data)) s (\<lambda>version.
     checked (get_active_appointment_type s g (bd_type data)) s (\<lambda>active.
       (case active of
          None \<Rightarrow> (Inl (Abort 422 ''This service does not require a deposit.''), s)
        | Some ty \<Rightarrow>
            checked (require (ty_deposit_required ty) (Abort 422 ''This service does not require a deposit.'')) s (\<lambda>_.
            checked (resolve_add_ons s (Some ty) (bd_add_ons data)) s (\<lambda>rows.
            checked (validate_answers_or_abort s g data) s (\<lambda>answers.
              let s1 = snd (expire_stale_payment_holds s (Some (g_id g)) (su_providers su) now)
              in transaction s1
                (case existing_deposit_attempt s1 g data ty rows (su_providers su) of
                   (Inl e, s2) \<Rightarrow> (Inl e, s2)
                 | (Inr (Some view), s2) \<Rightarrow> (Inr view, s2)
                 | (Inr None, s2) \<Rightarrow>
                     create_deposit_intent s2 g data ty rows version answers su recovery draws now))))))))"

subsection \<open>Following a deposit\<close>

text \<open>
  A recovery token names one request of the business; a reference likewise. The rows are read again
  after the sweep.
\<close>

definition request_by_recovery :: "db \<Rightarrow> garage \<Rightarrow> string \<Rightarrow> booking_request option" where
  "request_by_recovery s g token =
     find (\<lambda>r. rq_garage r = g_id g \<and> rq_recovery_token r = Some token) (db_requests s)"

definition request_by_reference :: "db \<Rightarrow> garage \<Rightarrow> string \<Rightarrow> booking_request option" where
  "request_by_reference s g reference =
     find (\<lambda>r. rq_garage r = g_id g \<and> rq_reference r = Some reference) (db_requests s)"

definition refreshed :: "db \<Rightarrow> booking_request \<Rightarrow> booking_request" where
  "refreshed s rq = (case row_find rq_id (rq_id rq) (db_requests s) of None \<Rightarrow> rq | Some r \<Rightarrow> r)"

definition swept_holds :: "db \<Rightarrow> garage \<Rightarrow> providers \<Rightarrow> instant \<Rightarrow> db" where
  "swept_holds s g pvs now = snd (expire_stale_payment_holds s (Some (g_id g)) pvs now)"

definition recover_deposit_attempt :: "db \<Rightarrow> garage \<Rightarrow> string \<Rightarrow> providers \<Rightarrow> instant \<Rightarrow> deposit_view outcome" where
  "recover_deposit_attempt s g token pvs now =
     (let s1 = swept_holds s g pvs now
      in case request_by_recovery s1 g token of
           None \<Rightarrow> (Inl (Abort 404 ''Booking recovery attempt not found.''), s1)
         | Some found \<Rightarrow>
             let s2 = reconcile_public_payment_recovery s1 found pvs now;
                 rq = refreshed s2 found
             in (case locked_active_payment s2 rq of
                   None \<Rightarrow> (Inr (deposit_response rq None None None), s2)
                 | Some payment \<Rightarrow>
                     if rq_status rq = AWAITING_PAYMENT
                        \<and> (pay_status payment = P_REQUIRES_PAYMENT \<or> pay_status payment = P_PENDING) then
                       (case resume_payment_session s2 payment pvs of
                          (Inl e, s3) \<Rightarrow> (Inl (Abort 502 ''could not resume the deposit payment''), s3)
                        | (Inr session, s3) \<Rightarrow> (Inr (deposit_response rq (Some payment) session None), s3))
                     else (Inr (deposit_response rq (Some payment) None None), s2)))"

definition abandon_deposit_attempt :: "db \<Rightarrow> garage \<Rightarrow> string \<Rightarrow> providers \<Rightarrow> instant \<Rightarrow> unit outcome" where
  "abandon_deposit_attempt s g token pvs now =
     (case request_by_recovery s g token of
        None \<Rightarrow> (Inl (Abort 404 ''Booking recovery attempt not found.''), s)
      | Some rq \<Rightarrow>
          (case abandon_public_hold s rq pvs now of
             (Inl (Hold_not_abandonable reason), s1) \<Rightarrow> (Inl (Abort 409 reason), s1)
           | (Inl _, s1) \<Rightarrow> (Inl (Abort 500 ''unhandled''), s1)
           | (Inr _, s1) \<Rightarrow> (Inr (), s1)))"

definition submission_abort :: "payment_error \<Rightarrow> http_error" where
  "submission_abort e =
     (case e of
        Submission_error reason \<Rightarrow> Abort (if reason = ''not_token_based'' then 422 else 409) reason
      | Provider_error \<Rightarrow> Abort 400 ''payment_failed''
      | _ \<Rightarrow> Abort 503 ''deposit payments unavailable'')"

definition submit_deposit_token ::
  "db \<Rightarrow> garage \<Rightarrow> string \<Rightarrow> providers \<Rightarrow> string \<Rightarrow> instant \<Rightarrow> deposit_view outcome"
where
  "submit_deposit_token s g reference pvs source_id now =
     (case request_by_reference s g reference of
        None \<Rightarrow> (Inl (Abort 404 ''Booking not found.''), s)
      | Some found \<Rightarrow>
          let s1 = swept_holds s g pvs now
          in (case submit_client_payment_token s1 (refreshed s1 found) pvs source_id now of
                (Inl e, s2) \<Rightarrow> (Inl (submission_abort e), s2)
              | (Inr payment, s2) \<Rightarrow>
                  (Inr (deposit_response (refreshed s2 found) (Some payment) None None), s2)))"

definition deposit_status :: "db \<Rightarrow> garage \<Rightarrow> string \<Rightarrow> providers \<Rightarrow> instant \<Rightarrow> deposit_view outcome" where
  "deposit_status s g reference pvs now =
     (case request_by_reference s g reference of
        None \<Rightarrow> (Inl (Abort 404 ''Booking not found.''), s)
      | Some found \<Rightarrow>
          let s1 = swept_holds s g pvs now;
              s2 = reconcile_submitted_payment s1 (refreshed s1 found) pvs now;
              rq = refreshed s2 found
          in (Inr (deposit_response rq (locked_active_payment s2 rq) None None), s2))"

subsection \<open>Applying a code, and the calendar\<close>

record discount_preview =
  pw_code :: string
  pw_original :: pence
  pw_discount :: pence
  pw_new_total :: pence
  pw_deposit_required :: bool
  pw_deposit_amount :: "pence option"
  pw_remaining :: "pence option"

text \<open>
  A code of nothing but spaces passes the schema's length check and meets the assertion that a result
  was found.
\<close>

definition validate_discount_code ::
  "db \<Rightarrow> garage \<Rightarrow> string \<Rightarrow> uid \<Rightarrow> selection \<Rightarrow> string \<Rightarrow> providers \<Rightarrow> instant \<Rightarrow> discount_preview outcome"
where
  "validate_discount_code s g code type_id sel email pvs now =
     (let s1 = swept_holds s g pvs now
      in transaction s1 (
        checked (get_active_appointment_type s1 g (Some type_id)) s1 (\<lambda>ty.
        checked (resolve_add_ons s1 ty sel) s1 (\<lambda>rows.
          (case evaluate_public_discount s1 g (Some code) email ty rows now of
             (Inl e, s2) \<Rightarrow> (Inl e, s2)
           | (Inr None, s2) \<Rightarrow> (Inl (Abort 500 ''AssertionError''), s2)
           | (Inr (Some result), s2) \<Rightarrow>
               (case deposit_preview ty (dr_new_total result) of
                  Inl e \<Rightarrow> (Inl (Abort 500 ''unhandled''), s2)
                | Inr (required, deposit) \<Rightarrow>
                    (Inr \<lparr>pw_code = dc_code (dr_code result), pw_original = dr_original_total result,
                          pw_discount = dr_discount_amount result, pw_new_total = dr_new_total result,
                          pw_deposit_required = required, pw_deposit_amount = deposit,
                          pw_remaining = map_option (\<lambda>d. dr_new_total result - d) deposit\<rparr>, s2)))))))"

text \<open>
  The calendar endpoints release expired holds first. The query form of the add-on selection is passed
  in parsed.
\<close>

definition public_availability ::
  "db \<Rightarrow> garage \<Rightarrow> date option \<Rightarrow> date option \<Rightarrow> uid option \<Rightarrow> selection \<Rightarrow> providers \<Rightarrow> instant
     \<Rightarrow> range_payload option outcome"
where
  "public_availability s g from_date to_date type_id sel pvs now =
     (let s1 = swept_holds s g pvs now
      in checked (get_active_appointment_type s1 g type_id) s1 (\<lambda>ty.
         checked (resolve_add_ons s1 ty sel) s1 (\<lambda>rows.
         checked (selected_duration g ty rows) s1 (\<lambda>duration.
           (Inr (availability_range s1 g from_date to_date now ty duration), s1)))))"

definition public_day_availability ::
  "db \<Rightarrow> garage \<Rightarrow> date \<Rightarrow> uid option \<Rightarrow> selection \<Rightarrow> providers \<Rightarrow> instant \<Rightarrow> single_day_payload option outcome"
where
  "public_day_availability s g day type_id sel pvs now =
     (let s1 = swept_holds s g pvs now
      in checked (get_active_appointment_type s1 g type_id) s1 (\<lambda>ty.
         checked (resolve_add_ons s1 ty sel) s1 (\<lambda>rows.
         checked (selected_duration g ty rows) s1 (\<lambda>duration.
           (Inr (single_day s1 g day now ty duration), s1)))))"

end
