(* ===== verification/Public_Promises.thy ===== *)
theory Public_Promises
  imports Public_Booking
begin

text \<open>
  What the booking endpoints of \<open>Public_Booking\<close> promise: a retried submission returns its request and
  changes nothing, a new booking has a bay for its whole span, and the deposit a checkout previews is
  the one that is taken.
\<close>

lemma outcome_case_Inr:
  "(case r of (Inl e, s) \<Rightarrow> (Inl e, s) | (Inr x, s) \<Rightarrow> k x s) = (Inr y, s')
    \<longleftrightarrow> (\<exists>x s1. r = (Inr x, s1) \<and> k x s1 = (Inr y, s'))"
  by (cases r; cases "fst r") auto

subsection \<open>What each step leaves alone\<close>

text \<open>The parts of the database a submission reads its checks from, and its own effect on the requests.\<close>

definition catalogue :: "db \<Rightarrow> garage list \<times> appointment_type list \<times> add_on list \<times> flow_section list \<times> employee list \<times> reserved_window list" where
  "catalogue s = (db_garages s, db_types s, db_add_ons s, db_sections s, db_employees s, db_windows s)"

lemma evaluate_public_discount_frame:
  assumes "evaluate_public_discount s g code email ty rows now = (r, s')"
  shows "\<exists>rds. s' = s\<lparr>db_redemptions := rds\<rparr>"
proof -
  have keep: "\<exists>rds. s = s\<lparr>db_redemptions := rds\<rparr>" by (rule exI [of _ "db_redemptions s"]) simp
  show ?thesis
    using assms keep unfolding evaluate_public_discount_def Let_def checked_def
    by (auto split: sum.splits prod.splits if_splits dest: evaluate_code_frame)
qed

lemma redeem_public_frame:
  assumes "redeem_public s discount rq status now = (Inr u, s')"
  shows "\<exists>rds n. s' = s\<lparr>db_redemptions := rds, db_next := n\<rparr> \<and> db_next s \<le> n"
proof -
  have "s = s\<lparr>db_redemptions := db_redemptions s, db_next := db_next s\<rparr>" by simp
  then have keep: "\<exists>rds n. s = s\<lparr>db_redemptions := rds, db_next := n\<rparr> \<and> db_next s \<le> n" by blast
  show ?thesis
  proof (cases discount)
    case None
    with assms keep show ?thesis by (simp add: redeem_public_def)
  next
    case (Some result)
    with assms obtain r where "redeem s result (rq_customer rq) status (Some (rq_id rq)) None now = (Inr r, s')"
      by (auto simp: redeem_public_def split: prod.splits sum.splits)
    then have "s' = s\<lparr>db_redemptions := db_redemptions s @ [r], db_next := Suc (db_next s)\<rparr>"
      unfolding redeem_def Let_def by (auto split: if_splits)
    then show ?thesis using le_SucI by blast
  qed
qed

lemma resolve_customer_catalogue:
  "resolve_customer s gid cid ct = (c, s') \<Longrightarrow> catalogue s' = catalogue s"
  by (auto simp: resolve_customer_def put_customer_def Let_def catalogue_def split: option.splits if_splits)

lemma resolve_catalogue:
  assumes "resolve_customer_and_vehicle s gid cid ct it = (Inr out, s')"
  shows "catalogue s' = catalogue s"
proof -
  obtain c t where rc: "resolve_customer s gid cid ct = (c, t)" by fastforce
  have "catalogue s' = catalogue t"
    using assms rc by (auto simp: resolve_customer_and_vehicle_def put_vehicle_def Let_def catalogue_def
        split: option.splits if_splits)
  with resolve_customer_catalogue [OF rc] show ?thesis by simp
qed

text \<open>A request just built: the fields the later reads depend on.\<close>

definition built_from ::
  "garage \<Rightarrow> booking_data \<Rightarrow> appointment_type option \<Rightarrow> resolved_add_on list \<Rightarrow> clock option \<Rightarrow> request_status
     \<Rightarrow> discount_result option \<Rightarrow> booking_request \<Rightarrow> bool"
where
  "built_from g data ty rows time status discount rq \<longleftrightarrow>
     rq_garage rq = g_id g \<and> rq_status rq = status \<and> rq_type rq = bd_type data
     \<and> (\<exists>d. selected_duration g ty rows = Inr d
          \<and> rq_duration rq = (case d of None \<Rightarrow> Option.bind ty ty_duration | Some n \<Rightarrow> Some n))
     \<and> (\<exists>p. pre_discount_total ty rows = Inr p
          \<and> rq_price rq = (case discount of None \<Rightarrow> p | Some r \<Rightarrow> Some (dr_new_total r)))
     \<and> rq_discount rq = (case discount of None \<Rightarrow> no_discount | Some r \<Rightarrow> apply_snapshot r)
     \<and> rq_date rq = bd_date data \<and> rq_time rq = time \<and> rq_add_ons rq = map applied_of rows
     \<and> rq_attempt rq = bd_attempt data \<and> rq_appointment rq = None"

definition stamps_only :: "(booking_request \<Rightarrow> booking_request) \<Rightarrow> bool" where
  "stamps_only stamp \<longleftrightarrow> (\<forall>rq. \<exists>a v h t. stamp rq = rq\<lparr>rq_terms_accepted_at := a, rq_terms_version := v,
     rq_hold_expires := h, rq_recovery_token := t\<rparr>)"

lemma stamps_only_acceptance: "stamps_only (\<lambda>rq. stamp_acceptance rq version now)"
  unfolding stamps_only_def
proof
  fix rq
  show "\<exists>a v h t. stamp_acceptance rq version now = rq\<lparr>rq_terms_accepted_at := a, rq_terms_version := v,
     rq_hold_expires := h, rq_recovery_token := t\<rparr>"
    by (rule exI [of _ "rq_terms_accepted_at (stamp_acceptance rq version now)"],
        rule exI [of _ "rq_terms_version (stamp_acceptance rq version now)"],
        rule exI [of _ "rq_hold_expires rq"], rule exI [of _ "rq_recovery_token rq"])
      (cases version; simp add: stamp_acceptance_def)
qed

lemma stamps_only_hold: "stamps_only (\<lambda>rq. (stamp_acceptance rq version now)\<lparr>rq_hold_expires := h, rq_recovery_token := t\<rparr>)"
  unfolding stamps_only_def
proof
  fix rq
  obtain a v h' t' where "stamp_acceptance rq version now = rq\<lparr>rq_terms_accepted_at := a, rq_terms_version := v,
     rq_hold_expires := h', rq_recovery_token := t'\<rparr>"
    using stamps_only_acceptance [of version now] unfolding stamps_only_def by blast
  then show "\<exists>a v h' t'. (stamp_acceptance rq version now)\<lparr>rq_hold_expires := h, rq_recovery_token := t\<rparr>
      = rq\<lparr>rq_terms_accepted_at := a, rq_terms_version := v, rq_hold_expires := h', rq_recovery_token := t'\<rparr>"
    by (intro exI [of _ a] exI [of _ v] exI [of _ h] exI [of _ t]) simp
qed

lemma build_booking_request_Inr:
  assumes "build_booking_request s g data ty rows time status answers discount draws = (Inr rq, s')"
  shows "built_from g data ty rows time status discount rq \<and> db_next s \<le> rq_id rq \<and> rq_id rq < db_next s'
    \<and> db_requests s' = db_requests s \<and> db_appointments s' = db_appointments s \<and> catalogue s' = catalogue s"
proof -
  obtain res s1 where rs: "resolve_customer_and_vehicle s (g_id g) None (submitted_contact answers data) (tracked_details answers data) = (res, s1)"
    by fastforce
  from assms rs obtain cid vid where res: "res = Inr (cid, vid)"
    unfolding build_booking_request_def by (auto split: sum.splits)
  note fr = resolve_frame [OF rs [unfolded res]] resolve_catalogue [OF rs [unfolded res]]
  from assms rs res obtain ref where ref: "unique_booking_reference s1 draws = Some ref"
    unfolding build_booking_request_def by (auto split: option.splits)
  from assms rs res ref obtain d p where d: "selected_duration g ty rows = Inr d" and p: "pre_discount_total ty rows = Inr p"
    unfolding build_booking_request_def by (auto simp: checked_Inr)
  have id: "rq_id rq = db_next s1" and s': "s' = s1\<lparr>db_next := Suc (db_next s1)\<rparr>"
    and built: "built_from g data ty rows time status discount rq"
    using assms unfolding build_booking_request_def by (auto simp: rs res ref d p fresh_id_def built_from_def)
  from built id s' fr show ?thesis by (simp add: catalogue_def)
qed

lemma built_from_stamped:
  assumes "stamps_only stamp" "built_from g data ty rows time status discount rq"
  shows "built_from g data ty rows time status discount (persist_answers answers (stamp rq))
    \<and> rq_id (persist_answers answers (stamp rq)) = rq_id rq"
proof -
  obtain a v h t where st: "stamp rq = rq\<lparr>rq_terms_accepted_at := a, rq_terms_version := v,
     rq_hold_expires := h, rq_recovery_token := t\<rparr>" using assms(1) unfolding stamps_only_def by blast
  from assms(2) show ?thesis unfolding st built_from_def persist_answers_def by simp
qed

lemma place_request_Inr:
  assumes "place_request s g data ty rows time status use_as answers discount draws stamp now = (Inr rq, s')" "stamps_only stamp"
  shows "built_from g data ty rows time status discount rq \<and> db_next s \<le> rq_id rq \<and> rq_id rq < db_next s'
    \<and> db_requests s' = db_requests s @ [rq] \<and> db_appointments s' = db_appointments s \<and> catalogue s' = catalogue s
    \<and> (\<forall>r \<in> set (db_requests s). rq_garage r = g_id g \<and> rq_attempt r = bd_attempt data \<longrightarrow> bd_attempt data = None)"
proof -
  from assms(1) obtain built s1 s2 where b: "build_booking_request s g data ty rows time status answers discount draws = (Inr built, s1)"
    and rq: "rq = persist_answers answers (stamp built)"
    and i: "insert_request rq s1 = (Inr (), s2)" and r: "redeem_public s2 discount rq use_as now = (Inr (), s')"
    unfolding place_request_def Let_def by (auto split: prod.splits sum.splits)
  note b' = build_booking_request_Inr [OF b]
  with built_from_stamped [OF assms(2), of g data ty rows time status discount built answers]
  have bf: "built_from g data ty rows time status discount rq" "rq_id rq = rq_id built" by (simp_all add: rq)
  from i have s2: "s2 = s1\<lparr>db_requests := db_requests s1 @ [rq]\<rparr>"
    and new: "\<not> list_ex (\<lambda>r. rq_garage r = rq_garage rq \<and> rq_attempt r = rq_attempt rq \<and> rq_attempt rq \<noteq> None) (db_requests s1)"
    by (auto simp: insert_request_def split: if_splits)
  from redeem_public_frame [OF r] obtain rds n where s': "s' = s2\<lparr>db_redemptions := rds, db_next := n\<rparr>" "db_next s2 \<le> n"
    by blast
  have "rq_attempt rq = bd_attempt data" "rq_garage rq = g_id g" using bf(1) by (simp_all add: built_from_def)
  with new b' bf s2 s' show ?thesis by (auto simp: catalogue_def list_ex_iff)
qed

subsection \<open>The three ways a submission succeeds\<close>

lemma transaction_Inr [simp]: "transaction s r = (Inr x, s') \<longleftrightarrow> r = (Inr x, s')"
  by (cases r; cases "fst r") (auto simp: transaction_def)

definition opening_checks ::
  "db \<Rightarrow> garage \<Rightarrow> booking_data \<Rightarrow> int option \<Rightarrow> appointment_type option \<Rightarrow> resolved_add_on list \<Rightarrow> bool"
where
  "opening_checks s g data version ty rows \<longleftrightarrow>
     require_web_acceptance g (bd_terms_accepted data) (bd_terms_version data) = Inr version
     \<and> get_active_appointment_type s g (bd_type data) = Inr ty \<and> resolve_add_ons s ty (bd_add_ons data) = Inr rows
     \<and> \<not> (deposit_service ty \<and> as_text (bd_code data) = [])"

definition newly_placed ::
  "db \<Rightarrow> garage \<Rightarrow> booking_data \<Rightarrow> nat list list \<Rightarrow> instant \<Rightarrow> int option \<Rightarrow> appointment_type option \<Rightarrow> resolved_add_on list
     \<Rightarrow> (flow_field \<times> answer_row) list \<Rightarrow> discount_result option \<Rightarrow> db \<Rightarrow> clock option \<Rightarrow> booking_request \<Rightarrow> db \<Rightarrow> bool"
where
  "newly_placed s g data draws now version ty rows answers discount s1 time rq s' \<longleftrightarrow>
     validate_answers_or_abort s g data = Inr answers
     \<and> evaluate_public_discount s g (bd_code data) (bd_email data) ty rows now = (Inr discount, s1)
     \<and> \<not> (deposit_service ty \<and> \<not> free_by_code discount)
     \<and> lock_and_validate_slot s1 g data ty rows now = Inr time
     \<and> place_request s1 g data ty rows time PENDING CONSUMED answers discount draws
          (\<lambda>rq. stamp_acceptance rq version now) now = (Inr rq, s')"

lemma commit_submission_Inr:
  assumes "commit_submission verify_captcha captcha_token s g data draws now = (Inr out, s')"
  obtains version ty rows where "verify_captcha captcha_token" "opening_checks s g data version ty rows"
    "(\<exists>rq. existing_plain_booking_attempt s g data ty rows = Inr (Some rq) \<and> out = Existing (rq_id rq) \<and> s' = s)
     \<or> existing_plain_booking_attempt s g data ty rows = Inr None \<and> bd_attempt data = None
         \<and> (\<exists>answers rq. matching_active_plain_request s g data ty rows answers = Some rq
               \<and> out = Existing (rq_id rq) \<and> s' = s)
     \<or> existing_plain_booking_attempt s g data ty rows = Inr None
         \<and> (\<exists>answers discount s1 time rq. newly_placed s g data draws now version ty rows answers discount s1 time rq s'
               \<and> out = Created (rq_id rq))"
proof -
  from assms obtain version ty rows existing where c: "verify_captcha captcha_token" "opening_checks s g data version ty rows"
    "existing_plain_booking_attempt s g data ty rows = Inr existing"
    unfolding commit_submission_def transaction_Inr checked_Inr opening_checks_def require_Inr by auto
  show thesis
  proof (cases existing)
    case (Some rq)
    with assms c show ?thesis
      by (intro that [OF c(1,2)] disjI1) (auto simp: commit_submission_def opening_checks_def)
  next
    case None
    with assms c obtain answers where a: "validate_answers_or_abort s g data = Inr answers"
      by (auto simp: commit_submission_def opening_checks_def checked_Inr)
    let ?dup = "if bd_attempt data = None then matching_active_plain_request s g data ty rows answers else None"
    show ?thesis
    proof (cases ?dup)
      case (Some rq)
      with assms c None a show ?thesis
        by (intro that [OF c(1,2)] disjI2 disjI1)
          (auto simp: commit_submission_def opening_checks_def split: if_splits)
    next
      case dup: None
      with assms c None a have r: "(case evaluate_public_discount s g (bd_code data) (bd_email data) ty rows now of
            (Inl e, s1) \<Rightarrow> (Inl e, s1)
          | (Inr discount, s1) \<Rightarrow>
              checked (require (\<not> (deposit_service ty \<and> \<not> free_by_code discount)) (Abort 422 ''deposit required'')) s1 (\<lambda>_.
              checked (lock_and_validate_slot s1 g data ty rows now) s1 (\<lambda>time.
                (case place_request s1 g data ty rows time PENDING CONSUMED answers discount draws
                        (\<lambda>rq. stamp_acceptance rq version now) now of
                   (Inl e, s2) \<Rightarrow> (Inl e, s2)
                 | (Inr rq, s2) \<Rightarrow> (Inr (Created (rq_id rq)), s2))))) = (Inr out, s')"
        unfolding commit_submission_def transaction_Inr opening_checks_def by (simp only: dup checked_simps require_simps option.case)
          simp
      then obtain discount s1 time rq where "newly_placed s g data draws now version ty rows answers discount s1 time rq s'"
        "out = Created (rq_id rq)"
        unfolding outcome_case_Inr checked_Inr require_Inr newly_placed_def using a by auto
      moreover from None c(3) have "existing_plain_booking_attempt s g data ty rows = Inr None" by simp
      ultimately show ?thesis by (intro that [OF c(1,2)] disjI2) blast
    qed
  qed
qed

subsection \<open>A submission that is sent again\<close>

text \<open>The row a retry finds, while it is neither mismatched nor awaiting its deposit.\<close>

lemma resubmission_returns:
  assumes "opening_checks s g data version ty rows" "bd_attempt data = Some a"
    "attempt_row s g a = Some rq" "same_selection rq data ty rows" "rq_status rq \<noteq> AWAITING_PAYMENT"
    "verify_captcha token"
  shows "submit_booking verify_captcha token s g data draws now = (Inr (rq_id rq), s)"
proof -
  have "existing_plain_booking_attempt s g data ty rows = Inr (Some rq)"
    using assms(2-5) by (simp add: existing_plain_booking_attempt_def)
  with assms(1,6) have "commit_submission verify_captcha token s g data draws now = (Inr (Existing (rq_id rq)), s)"
    unfolding commit_submission_def transaction_Inr opening_checks_def by simp
  then show ?thesis by (simp add: submit_booking_def)
qed

lemma opening_checks_catalogue:
  assumes "catalogue s' = catalogue s"
  shows "opening_checks s' g data version ty rows \<longleftrightarrow> opening_checks s g data version ty rows"
proof -
  have types: "db_types s' = db_types s" using assms by (simp add: catalogue_def)
  have "get_active_appointment_type s' g i = get_active_appointment_type s g i" for i
    unfolding get_active_appointment_type_def types ..
  moreover have "offered s' t = offered s t" for t
    using assms by (simp add: offered_def fun_eq_iff catalogue_def)
  then have "resolve_add_ons s' ty sel = resolve_add_ons s ty sel" for sel
    by (cases ty) (simp_all add: resolve_add_ons_def resolve_selection_def)
  ultimately show ?thesis by (simp add: opening_checks_def)
qed

lemma applied_resolved_signature: "applied_signature (map applied_of rows) = resolved_signature rows"
  by (simp add: applied_signature_def resolved_signature_def applied_of_def comp_def)

text \<open>The codes table stores each code with its normalised spelling.\<close>

definition codes_spelled :: "db \<Rightarrow> bool" where
  "codes_spelled s \<longleftrightarrow> (\<forall>c \<in> set (db_codes s). dc_normalized c = normalize_code (Some (dc_code c)))"

lemma evaluate_public_discount_Inr:
  assumes "evaluate_public_discount s g code email ty rows now = (Inr discount, s')"
  shows "as_text code = [] \<and> discount = None \<and> s' = s
    \<or> as_text code \<noteq> [] \<and> (\<exists>before r. pre_discount_total ty rows = Inr before \<and> discount = Some r
         \<and> evaluate_code s g (Some (as_text code)) (find_customer_by_email s (g_id g) (Some email)) before [] now = (Inr r, s'))"
proof (cases "as_text code = []")
  case True
  with assms show ?thesis by (cases code) (simp_all add: evaluate_public_discount_def as_text_def Let_def)
next
  case False
  let ?run = "\<lambda>before. evaluate_code s g (Some (as_text code)) (find_customer_by_email s (g_id g) (Some email)) before [] now"
  have "strip_text (case code of None \<Rightarrow> [] | Some c \<Rightarrow> c) = as_text code" by (cases code) (simp_all add: as_text_def)
  with assms False obtain before where before: "pre_discount_total ty rows = Inr before"
    and run: "(case ?run before of (Inl f, s') \<Rightarrow> (Inl (Abort 422 ''discount_code_invalid''), s')
            | (Inr result, s') \<Rightarrow> (Inr (Some result), s')) = (Inr discount, s')"
    by (auto simp: evaluate_public_discount_def Let_def checked_Inr)
  from run obtain r where "?run before = (Inr r, s')" "discount = Some r"
    by (cases "?run before"; cases "fst (?run before)") auto
  with False before show ?thesis by blast
qed

lemma discount_spelling:
  assumes "evaluate_public_discount s g code email ty rows now = (Inr discount, s')" "codes_spelled s"
  shows "normalize_code (ds_code (case discount of None \<Rightarrow> no_discount | Some r \<Rightarrow> apply_snapshot r)) = normalize_code code"
proof -
  have strip: "normalize_code (Some (as_text code)) = normalize_code code"
    by (cases code) (simp_all add: as_text_def normalize_code_strip, simp add: normalize_code_def)
  from evaluate_public_discount_Inr [OF assms(1)] show ?thesis
  proof (elim disjE conjE exE)
    assume none: "as_text code = []" "discount = None"
    with strip have "normalize_code code = []" by (simp add: normalize_code_def)
    with none show ?thesis by (simp add: no_discount_def normalize_code_def)
  next
    fix before r
    assume r: "discount = Some r" and run: "evaluate_code s g (Some (as_text code))
        (find_customer_by_email s (g_id g) (Some email)) before [] now = (Inr r, s')"
    from evaluate_code_InrD(1) [OF run] have "dr_code r \<in> set (db_codes s)"
      "dc_normalized (dr_code r) = normalize_code (Some (as_text code))"
      by (auto simp: find_code_def Let_def split: if_splits dest: find_SomeD)
    with assms(2) strip show ?thesis by (simp add: r apply_snapshot_def codes_spelled_def)
  qed
qed

text \<open>What automatic acceptance does to the row of the request.\<close>

lemma put_request_catalogue [simp]: "catalogue (put_request rq s) = catalogue s"
  by (simp add: catalogue_def put_request_def)

lemma approve_untyped_row:
  assumes "approve_booking_request s g e i data now = (res, s')" "ad_type data = None"
    "find (\<lambda>r. rq_id r = i \<and> rq_garage r = g_id g) (db_requests s) = Some rq"
  shows "catalogue s' = catalogue s \<and> (db_requests s' = db_requests s \<or>
    (\<exists>rq'. db_requests s' = row_set rq_id rq' (db_requests s) \<and> rq_id rq' = i \<and> rq_garage rq' = g_id g
        \<and> rq_status rq' \<in> {APPROVED, EXPIRED} \<and> rq_attempt rq' = rq_attempt rq
        \<and> (\<forall>data ty rows. same_selection rq' data ty rows \<longleftrightarrow> same_selection rq data ty rows)))"
proof (cases res)
  case (Inl err)
  have row: "rq_id rq = i" "rq_garage rq = g_id g" using find_SomeD [OF assms(3)] by simp_all
  from assms(1) Inl have "s' = s \<or> (\<exists>t. s' = sync_booking_request_redemption (put_request (rq\<lparr>rq_status := EXPIRED\<rparr>) s) t now)"
    unfolding approve_booking_request_def assms(3) option.case Let_def
    by (auto split: if_splits sum.splits prod.splits)
  then show ?thesis
  proof
    assume "\<exists>t. s' = sync_booking_request_redemption (put_request (rq\<lparr>rq_status := EXPIRED\<rparr>) s) t now"
    then obtain rds where "s' = (put_request (rq\<lparr>rq_status := EXPIRED\<rparr>) s)\<lparr>db_redemptions := rds\<rparr>"
      using sync_request_redemptions by metis
    then show ?thesis
      by (auto simp: catalogue_def put_request_def row same_selection_def same_discount_code_def intro!: exI [of _ "rq\<lparr>rq_status := EXPIRED\<rparr>"])
  qed simp
next
  case (Inr rq')
  from assms(1) [unfolded Inr] show ?thesis
  proof (rule approve_InrE)
    fix rq0 ty employee_id start_time end_time customer_id vehicle_id s1 ap
    assume f: "find (\<lambda>r. rq_id r = i \<and> rq_garage r = g_id g) (db_requests s) = Some rq0"
      and ch: "approval_checks s g rq0 data = Inr (ty, employee_id, start_time, end_time)"
      and rs: "resolve_customer_and_vehicle s (g_id g) (rq_customer rq0) (rq_contact rq0) (rq_item rq0) = (Inr (customer_id, vehicle_id), s1)"
      and rq': "rq' = rq0\<lparr>rq_status := APPROVED, rq_type := Some (ty_id ty), rq_customer := Some customer_id,
         rq_vehicle := vehicle_id, rq_appointment := Some (ap_id ap),
         rq_reviewer := Some (em_id e), rq_reviewed_at := Some now,
         rq_accepted_automatically := ad_automatic data\<rparr>"
      and s': "s' = emit (BOOKING_REQUEST_APPROVED (rq_id rq0) (ap_id ap)) (put_request rq'
         (attach_redemption_to_appointment (insert_appointment ap s1) (rq0\<lparr>rq_status := APPROVED\<rparr>) (ap_id ap) now))"
    from f assms(3) have [simp]: "rq0 = rq" by simp
    have row: "rq_id rq = i" "rq_garage rq = g_id g" using find_SomeD [OF assms(3)] by simp_all
    from ch assms(2) have "rq_type rq = Some (ty_id ty)"
      by (auto simp: approval_checks_def split: option.splits if_splits sum.splits prod.splits dest: find_SomeD)
    then have same: "same_selection rq' d t rows \<longleftrightarrow> same_selection rq d t rows" for d t rows
      by (simp add: rq' same_selection_def same_discount_code_def)
    obtain rds where at: "attach_redemption_to_appointment (insert_appointment ap s1) (rq0\<lparr>rq_status := APPROVED\<rparr>) (ap_id ap) now
        = (insert_appointment ap s1)\<lparr>db_redemptions := rds\<rparr>" using attach_redemptions by metis
    have "s' = emit (BOOKING_REQUEST_APPROVED (rq_id rq0) (ap_id ap)) (put_request rq'
        ((insert_appointment ap s1)\<lparr>db_redemptions := rds\<rparr>))" by (simp only: s' at)
    then show ?thesis
      using resolve_catalogue [OF rs] resolve_frame(2) [OF rs] same row
      by (intro conjI disjI2 exI [of _ rq'])
        (simp_all add: insert_appointment_def put_request_def emit_def catalogue_def rq')
  qed
qed

lemma auto_accept_row:
  assumes "snd (auto_accept_booking_request s g i now) = s'"
    "find (\<lambda>r. rq_id r = i \<and> rq_garage r = g_id g) (db_requests s) = Some rq"
  shows "catalogue s' = catalogue s \<and> (db_requests s' = db_requests s \<or>
    (\<exists>rq'. db_requests s' = row_set rq_id rq' (db_requests s) \<and> rq_id rq' = i \<and> rq_garage rq' = g_id g
        \<and> rq_status rq' \<in> {APPROVED, EXPIRED} \<and> rq_attempt rq' = rq_attempt rq
        \<and> (\<forall>data ty rows. same_selection rq' data ty rows \<longleftrightarrow> same_selection rq data ty rows)))"
  using auto_accept_runs [of s g i now]
proof
  assume "\<exists>e data. ad_type data = None \<and> snd (auto_accept_booking_request s g i now) = snd (approve_booking_request s g e i data now)"
  then obtain e data where "ad_type data = None"
    "approve_booking_request s g e i data now = (fst (approve_booking_request s g e i data now), s')"
    using assms(1) by (metis prod.collapse)
  from approve_untyped_row [OF this(2,1) assms(2)] show ?thesis .
qed (use assms in simp)

text \<open>After a new request is placed, its attempt id leads to its row, also once it was accepted.\<close>

lemma find_last: "(\<forall>x \<in> set xs. \<not> P x) \<Longrightarrow> P y \<Longrightarrow> find P (xs @ [y]) = Some y"
  by (induction xs) auto

lemma attempt_row_placed:
  assumes "db_requests s' = rows @ [rq]" "rq_garage rq = g_id g" "rq_attempt rq = Some a"
    "\<forall>r \<in> set rows. rq_garage r = g_id g \<longrightarrow> rq_attempt r \<noteq> Some a"
  shows "attempt_row s' g a = Some rq"
  using assms by (auto simp: attempt_row_def intro!: find_last)

lemma attempt_row_replaced:
  assumes "db_requests s' = row_set rq_id rq' (rows @ [rq])" "rq_id rq' = rq_id rq" "rq_garage rq' = g_id g"
    "rq_attempt rq' = Some a" "\<forall>r \<in> set rows. rq_id r \<noteq> rq_id rq"
    "\<forall>r \<in> set rows. rq_garage r = g_id g \<longrightarrow> rq_attempt r \<noteq> Some a"
  shows "attempt_row s' g a = Some rq'"
proof -
  have "row_set rq_id rq' rows = rows" using assms(2,5) by (auto simp: row_set_def intro!: map_idI)
  with assms(1,2) have "db_requests s' = rows @ [rq']" by (simp add: row_set_def)
  from attempt_row_placed [OF this assms(3,4,6)] show ?thesis .
qed

text \<open>The ids of a database were all drawn before its next one.\<close>

definition request_ids_drawn :: "db \<Rightarrow> bool" where
  "request_ids_drawn s \<longleftrightarrow> (\<forall>r \<in> set (db_requests s). rq_id r < db_next s)"

lemma active_type_id:
  assumes "get_active_appointment_type s g i = Inr ty"
  shows "i = map_option ty_id ty"
proof (cases i)
  case None
  with assms show ?thesis by (simp add: get_active_appointment_type_def)
next
  case (Some t)
  with assms obtain t' where t': "find (\<lambda>ty. ty_id ty = t \<and> ty_garage ty = g_id g) (db_types s) = Some t'" "ty = Some t'"
    by (auto simp: get_active_appointment_type_def split: option.splits if_splits)
  with find_SomeD [OF t'(1)] Some show ?thesis by simp
qed

lemma newly_placed_row:
  assumes "newly_placed s g data draws now version ty rows answers discount s1 time rq s'"
    "get_active_appointment_type s g (bd_type data) = Inr ty" "codes_spelled s"
  shows "same_selection rq data ty rows \<and> rq_status rq = PENDING \<and> rq_garage rq = g_id g \<and> rq_attempt rq = bd_attempt data
    \<and> db_next s \<le> rq_id rq \<and> db_requests s' = db_requests s @ [rq] \<and> catalogue s' = catalogue s
    \<and> (\<forall>r \<in> set (db_requests s). rq_garage r = g_id g \<and> rq_attempt r = bd_attempt data \<longrightarrow> bd_attempt data = None)"
proof -
  from assms(1) have e: "evaluate_public_discount s g (bd_code data) (bd_email data) ty rows now = (Inr discount, s1)"
    and l: "lock_and_validate_slot s1 g data ty rows now = Inr time"
    and p: "place_request s1 g data ty rows time PENDING CONSUMED answers discount draws
          (\<lambda>rq. stamp_acceptance rq version now) now = (Inr rq, s')" by (simp_all add: newly_placed_def)
  from evaluate_public_discount_frame [OF e] obtain rds where s1: "s1 = s\<lparr>db_redemptions := rds\<rparr>" by blast
  from l have time: "time = bd_time data"
    by (auto simp: lock_and_validate_slot_def checks_Inr split: option.splits)
  from assms(2) have ty: "bd_type data = map_option ty_id ty"
    by (rule active_type_id)
  note place = place_request_Inr [OF p stamps_only_acceptance]
  then have "same_selection rq data ty rows"
    using discount_spelling [OF e assms(3)]
    by (simp add: same_selection_def built_from_def ty time applied_resolved_signature same_discount_code_def)
  with place show ?thesis by (simp add: built_from_def s1 catalogue_def)
qed

lemma new_row_found:
  assumes "request_ids_drawn s" "db_next s \<le> rq_id rq" "rq_garage rq = gid"
  shows "find (\<lambda>r. rq_id r = rq_id rq \<and> rq_garage r = gid) (db_requests s @ [rq]) = Some rq"
  using assms by (intro find_last) (auto simp: request_ids_drawn_def)

text \<open>The retried attempt finds its row, whatever automatic acceptance did to it.\<close>

lemma placed_row_after_accept:
  assumes new: "newly_placed s g data draws now version ty rows answers discount s2 time rq s1"
    and ty: "get_active_appointment_type s g (bd_type data) = Inr ty" and ok: "request_ids_drawn s" "codes_spelled s"
    and a: "bd_attempt data = Some a"
    and s': "snd (auto_accept_booking_request (emit (BOOKING_REQUEST_CREATED (rq_id rq)) s1) g (rq_id rq) now) = s'"
  shows "\<exists>rq'. catalogue s' = catalogue s \<and> attempt_row s' g a = Some rq' \<and> same_selection rq' data ty rows
    \<and> rq_status rq' \<noteq> AWAITING_PAYMENT \<and> rq_id rq' = rq_id rq"
proof -
  note row = newly_placed_row [OF new ty ok(2)]
  with a have fresh: "\<forall>r \<in> set (db_requests s). rq_garage r = g_id g \<longrightarrow> rq_attempt r \<noteq> Some a" by auto
  have ids: "\<forall>r \<in> set (db_requests s). rq_id r \<noteq> rq_id rq" using ok(1) row by (auto simp: request_ids_drawn_def)
  let ?s1 = "emit (BOOKING_REQUEST_CREATED (rq_id rq)) s1"
  have emitted: "db_requests ?s1 = db_requests s @ [rq]" "catalogue ?s1 = catalogue s"
    using row by (simp_all add: emit_def catalogue_def)
  have "find (\<lambda>r. rq_id r = rq_id rq \<and> rq_garage r = g_id g) (db_requests ?s1) = Some rq"
    unfolding emitted(1) using new_row_found [OF ok(1)] row by simp
  from auto_accept_row [OF s' this] consider
    (keep) "catalogue s' = catalogue s" "db_requests s' = db_requests s @ [rq]"
  | (set) rq' where "catalogue s' = catalogue s" "db_requests s' = row_set rq_id rq' (db_requests s @ [rq])"
      "rq_id rq' = rq_id rq" "rq_garage rq' = g_id g" "rq_status rq' \<in> {APPROVED, EXPIRED}"
      "rq_attempt rq' = rq_attempt rq" "same_selection rq' data ty rows \<longleftrightarrow> same_selection rq data ty rows"
    unfolding emitted by blast
  then show ?thesis
  proof cases
    case keep
    with attempt_row_placed [OF keep(2), of g a] fresh row a show ?thesis by (intro exI [of _ rq]) simp
  next
    case set
    have "attempt_row s' g a = Some rq'"
      using attempt_row_replaced [OF set(2-4), of a] set(6) fresh ids row a by simp
    with set row show ?thesis by (intro exI [of _ rq']) auto
  qed
qed

text \<open>A submission with an attempt id either finds its request or has just made it.\<close>

lemma attempt_submission:
  assumes "submit_booking verify_captcha token s g data draws now = (Inr i, s')" "bd_attempt data = Some a"
  obtains (found) version ty rows rq where "opening_checks s g data version ty rows" "s' = s" "i = rq_id rq"
      "existing_plain_booking_attempt s g data ty rows = Inr (Some rq)"
  | (new) version ty rows answers discount s1 s2 time rq where "opening_checks s g data version ty rows" "i = rq_id rq"
      "newly_placed s g data draws now version ty rows answers discount s2 time rq s1"
      "s' = snd (auto_accept_booking_request (emit (BOOKING_REQUEST_CREATED (rq_id rq)) s1) g (rq_id rq) now)"
proof -
  from assms(1) obtain out s1 where c: "commit_submission verify_captcha token s g data draws now = (Inr out, s1)"
    and out: "out = Existing i \<and> s' = s1
      \<or> out = Created i \<and> s' = snd (auto_accept_booking_request (emit (BOOKING_REQUEST_CREATED i) s1) g i now)"
    by (auto simp: submit_booking_def split: prod.splits sum.splits submission.splits)
  from c show thesis
  proof (rule commit_submission_Inr)
    fix version ty rows
    assume oc: "opening_checks s g data version ty rows"
      and "(\<exists>rq. existing_plain_booking_attempt s g data ty rows = Inr (Some rq) \<and> out = Existing (rq_id rq) \<and> s1 = s)
     \<or> existing_plain_booking_attempt s g data ty rows = Inr None \<and> bd_attempt data = None
         \<and> (\<exists>answers rq. matching_active_plain_request s g data ty rows answers = Some rq
               \<and> out = Existing (rq_id rq) \<and> s1 = s)
     \<or> existing_plain_booking_attempt s g data ty rows = Inr None
         \<and> (\<exists>answers discount s2 time rq. newly_placed s g data draws now version ty rows answers discount s2 time rq s1
               \<and> out = Created (rq_id rq))"
    then consider
      (f) rq where "existing_plain_booking_attempt s g data ty rows = Inr (Some rq)" "out = Existing (rq_id rq)" "s1 = s"
    | (n) answers discount s2 time rq where
        "newly_placed s g data draws now version ty rows answers discount s2 time rq s1" "out = Created (rq_id rq)"
      using assms(2) by auto
    then show thesis
    proof cases
      case f
      with out show thesis by (intro found [OF oc]) auto
    next
      case n
      with out show thesis by (intro new [OF oc _ n(1)]) auto
    qed
  qed
qed

text \<open>
  What a later state must leave of the request for a retry to recognise it: the row, the selection it was
  made for, and that it is not (again) waiting for a deposit. Approving, rejecting, linking or
  cancelling it all do.
\<close>

definition same_intent :: "booking_request \<Rightarrow> booking_request \<Rightarrow> bool" where
  "same_intent rq rq2 \<longleftrightarrow> rq_id rq2 = rq_id rq \<and> rq_type rq2 = rq_type rq \<and> rq_add_ons rq2 = rq_add_ons rq
     \<and> rq_date rq2 = rq_date rq \<and> rq_time rq2 = rq_time rq \<and> ds_code (rq_discount rq2) = ds_code (rq_discount rq)
     \<and> (rq_status rq2 = AWAITING_PAYMENT \<longrightarrow> rq_status rq = AWAITING_PAYMENT)"

lemma same_intent_selection:
  "same_intent rq rq2 \<Longrightarrow> same_selection rq data ty rows \<Longrightarrow> same_selection rq2 data ty rows"
  by (simp add: same_intent_def same_selection_def same_discount_code_def)

lemma opening_checks_offer:
  assumes "db_types s' = db_types s" "db_add_ons s' = db_add_ons s"
  shows "opening_checks s' g data version ty rows \<longleftrightarrow> opening_checks s g data version ty rows"
proof -
  have "get_active_appointment_type s' g i = get_active_appointment_type s g i" for i
    unfolding get_active_appointment_type_def assms(1) ..
  moreover have "offered s' = offered s" by (simp add: offered_def fun_eq_iff assms(2))
  then have "resolve_add_ons s' ty sel = resolve_add_ons s ty sel" for sel
    by (cases ty) (simp_all add: resolve_add_ons_def resolve_selection_def)
  ultimately show ?thesis by (simp add: opening_checks_def)
qed

lemma attempt_left_by_submission:
  assumes "submit_booking verify_captcha token s g data draws now = (Inr i, s')" "bd_attempt data = Some a"
    "request_ids_drawn s" "codes_spelled s"
  shows "\<exists>version ty rows rq. opening_checks s' g data version ty rows \<and> attempt_row s' g a = Some rq
    \<and> same_selection rq data ty rows \<and> rq_status rq \<noteq> AWAITING_PAYMENT \<and> rq_id rq = i"
  using assms(1,2)
proof (cases rule: attempt_submission)
  case (found version ty rows rq)
  from found(4) assms(2) have "attempt_row s g a = Some rq" "same_selection rq data ty rows" "rq_status rq \<noteq> AWAITING_PAYMENT"
    by (auto simp: existing_plain_booking_attempt_def split: option.splits if_splits)
  with found(1-3) show ?thesis by blast
next
  case (new version ty rows answers discount s1 s2 time rq)
  from new(1) have ty: "get_active_appointment_type s g (bd_type data) = Inr ty" by (simp add: opening_checks_def)
  from placed_row_after_accept [OF new(3) ty assms(3,4,2) new(4) [symmetric]] obtain rq' where rq': "catalogue s' = catalogue s"
    "attempt_row s' g a = Some rq'" "same_selection rq' data ty rows" "rq_status rq' \<noteq> AWAITING_PAYMENT" "rq_id rq' = i"
    unfolding new(2) by blast
  from new(1) opening_checks_catalogue [OF rq'(1)] have "opening_checks s' g data version ty rows" by blast
  with rq' show ?thesis by blast
qed

text \<open>
  C6: a submission with an attempt id is safe to send again, at any later time and any number of times:
  once it has succeeded, whether it made the booking or found it, the same submission returns the same
  request and changes nothing - no second booking, no second use of a code, no second event. The state
  it is sent to again may be any later one, with other bookings, customers and payments in it and the
  request itself approved, rejected or cancelled meanwhile: what is assumed is that the captcha passes
  again, that the business still has the same terms (the business row is the same), services and extras, and that the request's row is
  still there with the selection it was made for.
\<close>

theorem resubmission_is_idempotent:
  assumes "submit_booking verify_captcha token s g data draws now = (Inr i, s')" "bd_attempt data = Some a"
    "request_ids_drawn s" "codes_spelled s" "verify_captcha token2"
    "db_types s2 = db_types s'" "db_add_ons s2 = db_add_ons s'"
    "rel_option same_intent (attempt_row s' g a) (attempt_row s2 g a)"
  shows "submit_booking verify_captcha token2 s2 g data draws2 later = (Inr i, s2)"
proof -
  from attempt_left_by_submission [OF assms(1-4)] obtain version ty rows rq where left: "opening_checks s' g data version ty rows"
    "attempt_row s' g a = Some rq" "same_selection rq data ty rows" "rq_status rq \<noteq> AWAITING_PAYMENT" "rq_id rq = i" by blast
  from assms(8) left(2) obtain rq2 where row: "attempt_row s2 g a = Some rq2" "same_intent rq rq2"
    by (auto simp: option_rel_Some1)
  from row(2) left(4,5) have "rq_status rq2 \<noteq> AWAITING_PAYMENT" "rq_id rq2 = i" by (auto simp: same_intent_def)
  with resubmission_returns [of s2 g data version ty rows a rq2 verify_captcha token2, OF _ assms(2) row(1) _ _ assms(5)]
    same_intent_selection [OF row(2) left(3)] left(1) opening_checks_offer [OF assms(6,7)] show ?thesis by simp
qed

subsection \<open>A booking made online has a bay\<close>

lemma pending_duration_catalogue:
  "catalogue s' = catalogue s \<Longrightarrow> pending_request_duration s' r st = pending_request_duration s r st"
  by (rule pending_duration_cong) (simp add: catalogue_def)

lemma capacity_catalogue:
  assumes "catalogue s' = catalogue s"
  shows "load_reserved_windows s' g day = load_reserved_windows s g day"
    "slot_capacity s' g (resolve_settings g) = slot_capacity s g (resolve_settings g)"
proof -
  have same: "db_employees s' = db_employees s" "db_windows s' = db_windows s" using assms by (simp_all add: catalogue_def)
  show "load_reserved_windows s' g day = load_reserved_windows s g day"
    "slot_capacity s' g (resolve_settings g) = slot_capacity s g (resolve_settings g)"
    unfolding load_reserved_windows_def slot_capacity_def same by (rule refl)+
qed

lemma bays_in_use_append:
  assumes "db_appointments s' = db_appointments s" "db_requests s' = db_requests s @ [rq]" "catalogue s' = catalogue s"
  shows "bays_in_use s' g day t \<le> bays_in_use s g day t + 1"
proof -
  let ?hold = "\<lambda>r. rq_garage r = g_id g \<and> rq_status r \<in> set holding_statuses \<and> rq_date r = day \<and> rq_time r \<noteq> None"
  let ?live = "filter (\<lambda>a. ap_garage a = g_id g \<and> ap_status a \<noteq> AP_CANCELLED) (db_appointments s)"
  have types: "db_types s' = db_types s" using assms(3) by (simp add: catalogue_def)
  have "occupancy (usage_intervals s g ?live (filter ?hold (db_requests s @ [rq])) (resolve_settings g)) t
      \<le> occupancy (usage_intervals s g ?live (filter ?hold (db_requests s)) (resolve_settings g)) t + 1"
    by (auto simp: usage_intervals_def Let_def)
  then show ?thesis unfolding bays_in_use_def assms(1,2) usage_intervals_cong [OF types] .
qed

text \<open>The length the slot was checked for is the length the request reserves.\<close>

lemma placed_duration:
  assumes "built_from g data ty rows time status discount rq" "selected_duration g ty rows = Inr d"
    "get_active_appointment_type s g (bd_type data) = Inr ty" "distinct (map ty_id (db_types s))"
  shows "pending_request_duration s rq (resolve_settings g)
    = (case d of None \<Rightarrow> type_duration ty (resolve_settings g) | Some n \<Rightarrow> n)"
proof -
  from assms(1,2) have dur: "rq_duration rq = (case d of None \<Rightarrow> Option.bind ty ty_duration | Some n \<Rightarrow> Some n)"
    and type: "rq_type rq = bd_type data" by (auto simp: built_from_def)
  have "find_type s (bd_type data) = ty"
  proof (cases "bd_type data")
    case None
    with assms(3) show ?thesis by (simp add: get_active_appointment_type_def find_type_def)
  next
    case (Some i)
    with assms(3) obtain t where t: "find (\<lambda>ty. ty_id ty = i \<and> ty_garage ty = g_id g) (db_types s) = Some t" "ty = Some t"
      by (auto simp: get_active_appointment_type_def split: option.splits if_splits)
    from find_SomeD [OF t(1)] row_find_distinct [OF assms(4)] Some t(2) show ?thesis by (auto simp: find_type_def)
  qed
  with dur type show ?thesis
    by (auto simp: pending_request_duration_def type_duration_def split: option.splits)
qed

lemma placed_length:
  assumes "built_from g data ty rows time status discount rq"
    "get_active_appointment_type s g (bd_type data) = Inr ty" "distinct (map ty_id (db_types s))"
  shows "pending_request_duration s rq (resolve_settings g) = type_duration ty (resolve_settings g) + duration_delta rows"
proof -
  from assms(1) obtain d where d: "selected_duration g ty rows = Inr d" by (auto simp: built_from_def)
  then have "(case d of None \<Rightarrow> type_duration ty (resolve_settings g) | Some n \<Rightarrow> n)
    = type_duration ty (resolve_settings g) + duration_delta rows"
    by (auto simp: selected_duration_def total_duration_def duration_delta_def map_sum_def split: if_splits sum.splits)
  with placed_duration [OF assms(1) d assms(2,3)] show ?thesis by simp
qed

lemma placed_has_a_bay:
  assumes "proper_usage s" "0 \<le> default_appointment_minutes (resolve_settings g)" "distinct (map ty_id (db_types s))"
    and active: "get_active_appointment_type s g (bd_type data) = Inr ty"
    and slot: "lock_and_validate_slot s g data ty rows now = Inr time" "bd_time data = Some t"
    and place: "place_request s g data ty rows time status use_as answers discount draws stamp now = (Inr rq, s')" "stamps_only stamp"
    and start: "start = local_slot_as_utc (g_zone g) (bd_date data) t" "local_day_for (g_zone g) start = bd_date data"
    and span: "start \<le> u" "u < start + pending_request_duration s' rq (resolve_settings g) * minute_us"
    and day: "fst (local_day_bounds_utc (g_zone g) (bd_date data)) \<le> u" "u \<le> snd (local_day_bounds_utc (g_zone g) (bd_date data))"
  shows "bays_in_use s' g (bd_date data) u
      + reserved_at (load_reserved_windows s' g (bd_date data)) start
          (start + pending_request_duration s' rq (resolve_settings g) * minute_us)
    \<le> slot_capacity s' g (resolve_settings g)"
proof -
  note placed = place_request_Inr [OF place]
  from slot obtain d where d: "selected_duration g ty rows = Inr d"
    and ok: "validate_slot s g (bd_date data) t now ty None d = None"
    by (auto simp: lock_and_validate_slot_def checks_Inr split: option.splits)
  let ?len = "case d of None \<Rightarrow> type_duration ty (resolve_settings g) | Some n \<Rightarrow> n"
  have len: "pending_request_duration s' rq (resolve_settings g) = ?len"
    using placed_duration [OF _ d active assms(3)] placed pending_duration_catalogue [of s' s rq "resolve_settings g"]
    by metis
  have "validate_slot s g (bd_date data) t now ty None (Some ?len) = None"
    using ok by (cases d) (simp_all add: validate_slot_None_iff)
  moreover have "0 < ?len" using span unfolding len by simp
  ultimately have "bays_in_use s g (bd_date data) u + 1
      + reserved_at (load_reserved_windows s g (bd_date data)) start (start + ?len * minute_us)
    \<le> slot_capacity s g (resolve_settings g)"
    using validated_slot_bay [OF assms(1,2) _ start] span(1) span(2) [unfolded len] day by blast
  moreover note capacity_catalogue [of s' s g]
  ultimately show ?thesis
    using bays_in_use_append [of s' s rq g "bd_date data" u] placed unfolding len by simp
qed

lemma bays_in_use_cong:
  assumes "db_appointments s' = db_appointments s" "db_requests s' = db_requests s" "catalogue s' = catalogue s"
  shows "bays_in_use s' g day t = bays_in_use s g day t"
proof -
  have types: "db_types s' = db_types s" using assms(3) by (simp add: catalogue_def)
  show ?thesis unfolding bays_in_use_def assms(1,2) usage_intervals_cong [OF types] ..
qed

lemma proper_usage_cong:
  assumes "db_appointments s' = db_appointments s" "db_requests s' = db_requests s" "catalogue s' = catalogue s"
  shows "proper_usage s' \<longleftrightarrow> proper_usage s"
  using assms by (simp add: proper_usage_def catalogue_def)

lemma create_deposit_hold_catalogue:
  "catalogue (snd (create_deposit_hold s g ty rq pvs name enabled configured account now)) = catalogue s
   \<and> db_appointments (snd (create_deposit_hold s g ty rq pvs name enabled configured account now)) = db_appointments s"
  by (simp add: create_deposit_hold_def Let_def put_payment_def insert_payment_def log_call_def catalogue_def
      split: sum.split option.split prod.split)

lemma evaluated_state:
  assumes "evaluate_public_discount s g code email ty rows now = (r, s1)"
  shows "db_appointments s1 = db_appointments s" "db_requests s1 = db_requests s" "catalogue s1 = catalogue s"
    "db_next s1 = db_next s"
  using evaluate_public_discount_frame [OF assms] by (auto simp: catalogue_def)

lemma get_active_catalogue:
  assumes "catalogue s' = catalogue s"
  shows "get_active_appointment_type s' g i = get_active_appointment_type s g i"
proof -
  have types: "db_types s' = db_types s" using assms by (simp add: catalogue_def)
  show ?thesis unfolding get_active_appointment_type_def types ..
qed

text \<open>Both endpoints place their request from a state the evaluation of the code left.\<close>

lemma submission_placed:
  assumes "commit_submission verify_captcha token s g data draws now = (Inr (Created i), s')"
  shows "\<exists>ty rows answers discount s1 time stamp rq. get_active_appointment_type s1 g (bd_type data) = Inr ty
    \<and> get_active_appointment_type s g (bd_type data) = Inr ty \<and> resolve_add_ons s ty (bd_add_ons data) = Inr rows
    \<and> db_appointments s1 = db_appointments s \<and> db_requests s1 = db_requests s \<and> catalogue s1 = catalogue s
    \<and> db_next s1 = db_next s \<and> lock_and_validate_slot s1 g data ty rows now = Inr time \<and> stamps_only stamp
    \<and> place_request s1 g data ty rows time PENDING CONSUMED answers discount draws stamp now = (Inr rq, s') \<and> rq_id rq = i"
  using assms
proof (rule commit_submission_Inr)
  fix version ty rows
  assume oc: "opening_checks s g data version ty rows"
    and "(\<exists>rq. existing_plain_booking_attempt s g data ty rows = Inr (Some rq) \<and> Created i = Existing (rq_id rq) \<and> s' = s)
     \<or> existing_plain_booking_attempt s g data ty rows = Inr None \<and> bd_attempt data = None
         \<and> (\<exists>answers rq. matching_active_plain_request s g data ty rows answers = Some rq
               \<and> Created i = Existing (rq_id rq) \<and> s' = s)
     \<or> existing_plain_booking_attempt s g data ty rows = Inr None
         \<and> (\<exists>answers discount s1 time rq. newly_placed s g data draws now version ty rows answers discount s1 time rq s'
               \<and> Created i = Created (rq_id rq))"
  then obtain answers discount s1 time rq where n: "newly_placed s g data draws now version ty rows answers discount s1 time rq s'"
    "rq_id rq = i" by auto
  then have e: "evaluate_public_discount s g (bd_code data) (bd_email data) ty rows now = (Inr discount, s1)"
    by (simp add: newly_placed_def)
  from oc get_active_catalogue [OF evaluated_state(3) [OF e]]
  have "get_active_appointment_type s1 g (bd_type data) = Inr ty" "get_active_appointment_type s g (bd_type data) = Inr ty"
    "resolve_add_ons s ty (bd_add_ons data) = Inr rows" by (simp_all add: opening_checks_def)
  with n evaluated_state [OF e] stamps_only_acceptance show ?thesis unfolding newly_placed_def by blast
qed

lemma intent_placed:
  assumes "create_deposit_intent s g data ty rows version answers su recovery draws now = (Inr view, s')"
    "get_active_appointment_type s g (bd_type data) = Inr (Some ty)"
  shows "\<exists>discount s1 s2 time stamp rq. get_active_appointment_type s1 g (bd_type data) = Inr (Some ty)
    \<and> db_appointments s1 = db_appointments s \<and> db_requests s1 = db_requests s \<and> catalogue s1 = catalogue s
    \<and> lock_and_validate_slot s1 g data (Some ty) rows now = Inr time \<and> stamps_only stamp
    \<and> place_request s1 g data (Some ty) rows time AWAITING_PAYMENT RESERVED answers discount draws stamp now = (Inr rq, s2)
    \<and> db_appointments s' = db_appointments s2 \<and> db_requests s' = db_requests s2 \<and> catalogue s' = catalogue s2"
proof -
  let ?stamp = "\<lambda>rq. (stamp_acceptance rq version now)
     \<lparr>rq_hold_expires := Some (payment_hold_deadline now (su_hold_minutes su)), rq_recovery_token := Some recovery\<rparr>"
  from assms(1) obtain discount s1 time rq s2 where
    e: "evaluate_public_discount s g (bd_code data) (bd_email data) (Some ty) rows now = (Inr discount, s1)"
    and l: "lock_and_validate_slot s1 g data (Some ty) rows now = Inr time"
    and p: "place_request s1 g data (Some ty) rows time AWAITING_PAYMENT RESERVED answers discount draws ?stamp now = (Inr rq, s2)"
    and d: "(case start_deposit s2 g ty rq su now of
                    (Inl e, s3) \<Rightarrow> (Inl (deposit_abort e), s3)
                  | (Inr (payment, session), s3) \<Rightarrow>
                      (Inr (deposit_response rq (Some payment) (Some session) (Some recovery)), s3)) = (Inr view, s')"
    unfolding create_deposit_intent_def outcome_case_Inr checked_Inr by blast
  from d have "s' = snd (start_deposit s2 g ty rq su now)" by (auto split: prod.splits sum.splits)
  then have "db_appointments s' = db_appointments s2" "db_requests s' = db_requests s2" "catalogue s' = catalogue s2"
    using create_deposit_hold_catalogue create_deposit_hold_requests by (auto simp: start_deposit_def)
  moreover have "get_active_appointment_type s1 g (bd_type data) = Inr (Some ty)"
    using assms(2) get_active_catalogue [OF evaluated_state(3) [OF e]] by simp
  ultimately show ?thesis using evaluated_state [OF e] stamps_only_hold l p by blast
qed

text \<open>
  C3: a booking made online never oversells a bay: when a submission leaves a new request for a time, or a
  checkout takes a deposit hold for one, the request reserves the length of its service plus that of the
  extras that were chosen, which it records; and at every instant of that length, while the local day
  lasts, the live appointments, the requests that hold a slot, the new one included, and the walk-in
  reservation fit the capacity.
\<close>

theorem online_booking_has_a_bay:
  assumes "proper_usage s" "0 \<le> default_appointment_minutes (resolve_settings g)" "distinct (map ty_id (db_types s))"
    "commit_submission verify_captcha token s g data draws now = (Inr (Created i), s')
     \<or> get_active_appointment_type s g (bd_type data) = Inr (Some ty) \<and> resolve_add_ons s (Some ty) (bd_add_ons data) = Inr rows
       \<and> create_deposit_intent s g data ty rows version answers su recovery draws now = (Inr view, s')"
    "bd_time data = Some t" "start = local_slot_as_utc (g_zone g) (bd_date data) t"
    "local_day_for (g_zone g) start = bd_date data"
    "reserved_until = start + pending_request_duration s' (last (db_requests s')) (resolve_settings g) * minute_us"
    "start \<le> u" "u < reserved_until"
    "fst (local_day_bounds_utc (g_zone g) (bd_date data)) \<le> u" "u \<le> snd (local_day_bounds_utc (g_zone g) (bd_date data))"
  shows "(\<exists>service extras. get_active_appointment_type s g (bd_type data) = Inr service
      \<and> resolve_add_ons s service (bd_add_ons data) = Inr extras \<and> rq_add_ons (last (db_requests s')) = map applied_of extras
      \<and> reserved_until = start + (type_duration service (resolve_settings g) + duration_delta extras) * minute_us)
    \<and> bays_in_use s' g (bd_date data) u
      + reserved_at (load_reserved_windows s' g (bd_date data)) start reserved_until
    \<le> slot_capacity s' g (resolve_settings g)"
proof -
  obtain ty' rows' answers' discount s1 s2 time stamp rq status use_as where
    a: "get_active_appointment_type s1 g (bd_type data) = Inr ty'"
    and chosen_in_s: "get_active_appointment_type s g (bd_type data) = Inr ty'" "resolve_add_ons s ty' (bd_add_ons data) = Inr rows'"
    and s1: "db_appointments s1 = db_appointments s" "db_requests s1 = db_requests s" "catalogue s1 = catalogue s"
    and l: "lock_and_validate_slot s1 g data ty' rows' now = Inr time" and st: "stamps_only stamp"
    and p: "place_request s1 g data ty' rows' time status use_as answers' discount draws stamp now = (Inr rq, s2)"
    and s': "db_appointments s' = db_appointments s2" "db_requests s' = db_requests s2" "catalogue s' = catalogue s2"
    using assms(4) submission_placed [of verify_captcha token s g data draws now i s']
      intent_placed [of s g data ty rows version answers su recovery draws now view s'] by blast
  note placed = place_request_Inr [OF p st]
  have row: "last (db_requests s') = rq" using placed s'(2) by simp
  then have len: "reserved_until = start + pending_request_duration s2 rq (resolve_settings g) * minute_us"
    unfolding assms(8) using pending_duration_catalogue [OF s'(3)] by simp
  have types: "proper_usage s1" "distinct (map ty_id (db_types s1))"
    using assms(1,3) s1 proper_usage_cong [OF s1] by (simp_all add: catalogue_def)
  have "pending_request_duration s2 rq (resolve_settings g) = pending_request_duration s1 rq (resolve_settings g)"
    using placed pending_duration_catalogue by blast
  also have "\<dots> = type_duration ty' (resolve_settings g) + duration_delta rows'"
    using placed_length [OF _ a types(2)] placed by blast
  finally have "reserved_until = start + (type_duration ty' (resolve_settings g) + duration_delta rows') * minute_us"
    unfolding len by simp
  moreover have "rq_add_ons rq = map applied_of rows'" using placed by (simp add: built_from_def)
  moreover from placed_has_a_bay [OF types(1) assms(2) types(2) a l assms(5) p st assms(6,7,9) assms(10) [unfolded len] assms(11,12)]
  have "bays_in_use s' g (bd_date data) u + reserved_at (load_reserved_windows s' g (bd_date data)) start reserved_until
    \<le> slot_capacity s' g (resolve_settings g)"
    unfolding bays_in_use_cong [OF s'] capacity_catalogue [OF s'(3)] len .
  ultimately show ?thesis unfolding row using chosen_in_s by blast
qed

subsection \<open>The deposit a checkout previews\<close>

lemma catalogue_puts [simp]:
  "catalogue (put_payment p s) = catalogue s" "catalogue (log_call c s) = catalogue s"
  "catalogue (emit ev s) = catalogue s" "catalogue (s\<lparr>db_redemptions := rds\<rparr>) = catalogue s"
  by (simp_all add: catalogue_def put_payment_def log_call_def emit_def)

lemma sync_request_catalogue [simp]: "catalogue (sync_booking_request_redemption s rq now) = catalogue s"
  using sync_request_redemptions [of s rq now] by auto

lemma hold_moves_catalogue [simp]:
  "catalogue (confirm_request s rq now) = catalogue s" "catalogue (expire_request s rq now) = catalogue s"
  "catalogue (cancel_attempt s p now) = catalogue s" "catalogue (emit_created ids s) = catalogue s"
  by (simp_all add: confirm_request_def expire_request_def cancel_attempt_def Let_def)
    (simp add: emit_created_def, induction ids arbitrary: s, simp_all)

lemma reconcile_catalogue [simp]: "catalogue (snd (snd (reconcile_if_already_succeeded s rq p pvs now))) = catalogue s"
  by (simp add: reconcile_if_already_succeeded_def split: option.split)

lemma expire_one_catalogue [simp]: "catalogue (snd (snd (expire_one pvs now i (n, notes, s)))) = catalogue s"
proof (cases "row_find rq_id i (db_requests s)")
  case (Some rq)
  have leaf: "catalogue (snd (snd (case reconcile_if_already_succeeded s rq p pvs now of
                (True, created, s') \<Rightarrow> (n, notes @ created, s')
              | (False, created, s') \<Rightarrow>
                  (n + 1, notes, if b then cancel_attempt (expire_request s' rq now) p now else expire_request s' rq now))))
      = catalogue s" for p b
    using reconcile_catalogue [of s rq p pvs now]
    by (cases "reconcile_if_already_succeeded s rq p pvs now") (auto split: bool.split)
  show ?thesis by (simp add: expire_one_def Some leaf split: option.split)
qed (simp add: expire_one_def)

lemma swept_catalogue [simp]: "catalogue (snd (expire_stale_payment_holds s gid pvs now)) = catalogue s"
proof -
  have "catalogue (snd (snd (fold (expire_one pvs now) ids (n, ns, s)))) = catalogue s" for ids n ns s
    by (induction ids arbitrary: n ns s) (simp, metis expire_one_catalogue fold_Cons comp_apply prod.collapse)
  then have "catalogue (snd (snd (fold (expire_one pvs now) (stale_ids s gid now) (0, [], s)))) = catalogue s" .
  then show ?thesis unfolding expire_stale_payment_holds_def Let_def by (auto split: prod.split)
qed

lemma resolve_add_ons_catalogue:
  assumes "catalogue s' = catalogue s"
  shows "resolve_add_ons s' ty sel = resolve_add_ons s ty sel"
proof -
  have "offered s' t = offered s t" for t
    using assms by (simp add: offered_def fun_eq_iff catalogue_def)
  then show ?thesis by (cases ty) (simp_all add: resolve_add_ons_def resolve_selection_def)
qed

lemma start_deposit_Inr:
  assumes "start_deposit s g ty rq su now = (Inr (payment, session), s')"
  shows "deposit_amount ty rq = Inr (pay_amount payment)"
  using assms unfolding start_deposit_def create_deposit_hold_def Let_def
  by (auto simp: new_payment_def split: if_splits sum.splits option.splits)

lemma preview_of_deposit:
  assumes "deposit_amount ty rq = Inr a" "rq_price rq = Some new_total" "ty_deposit_required ty" "0 < new_total"
  shows "deposit_preview (Some ty) new_total = Inr (True, Some a)"
  using assms unfolding deposit_amount_def Let_def
  by (auto simp: deposit_preview_def checks_Inr split: option.splits sum.splits if_splits)

lemma intent_view:
  assumes "create_deposit_intent s g data ty rows version answers su recovery draws now = (Inr view, s')"
  shows "\<exists>discount s1 rq a. evaluate_public_discount s g (bd_code data) (bd_email data) (Some ty) rows now = (Inr discount, s1)
    \<and> \<not> free_by_code discount \<and> deposit_amount ty rq = Inr a
    \<and> (\<exists>p. pre_discount_total (Some ty) rows = Inr p
         \<and> rq_price rq = (case discount of None \<Rightarrow> p | Some r \<Rightarrow> Some (dr_new_total r)))
    \<and> dv_service_total view = rq_price rq \<and> dv_deposit_amount view = Some a
    \<and> dv_remaining_balance view = map_option (\<lambda>p. p - a) (rq_price rq)"
proof -
  let ?stamp = "\<lambda>rq. (stamp_acceptance rq version now)
     \<lparr>rq_hold_expires := Some (payment_hold_deadline now (su_hold_minutes su)), rq_recovery_token := Some recovery\<rparr>"
  from assms obtain discount s1 time rq s2 where
    e: "evaluate_public_discount s g (bd_code data) (bd_email data) (Some ty) rows now = (Inr discount, s1)"
    and f: "\<not> free_by_code discount"
    and p: "place_request s1 g data (Some ty) rows time AWAITING_PAYMENT RESERVED answers discount draws ?stamp now = (Inr rq, s2)"
    and d: "(case start_deposit s2 g ty rq su now of
                    (Inl e, s3) \<Rightarrow> (Inl (deposit_abort e), s3)
                  | (Inr (payment, session), s3) \<Rightarrow>
                      (Inr (deposit_response rq (Some payment) (Some session) (Some recovery)), s3)) = (Inr view, s')"
    unfolding create_deposit_intent_def outcome_case_Inr checked_Inr require_Inr by blast
  from d obtain payment session where pay: "start_deposit s2 g ty rq su now = (Inr (payment, session), s')"
    and view: "view = deposit_response rq (Some payment) (Some session) (Some recovery)"
    by (auto split: prod.splits sum.splits)
  have "dv_service_total view = rq_price rq" "dv_deposit_amount view = Some (pay_amount payment)"
    "dv_remaining_balance view = map_option (\<lambda>p. p - pay_amount payment) (rq_price rq)"
    by (simp_all add: view deposit_response_def Let_def split: option.split)
  with place_request_Inr [OF p stamps_only_hold] start_deposit_Inr [OF pay] e f show ?thesis
    unfolding built_from_def by blast
qed

lemma resume_nothing: "resume_payment_session s p pvs = (Inr None, s') \<Longrightarrow> s' = s"
  by (auto simp: resume_payment_session_def Let_def split: if_splits option.splits)

lemma existing_deposit_attempt_Inr:
  assumes "existing_deposit_attempt s g data ty rows pvs = (Inr r, s')"
  shows "r = None \<and> s' = s \<or> (\<exists>view. r = Some view \<and> dv_recovery view = None)"
  using assms unfolding existing_deposit_attempt_def
  by (auto simp: deposit_response_def Let_def dest: resume_nothing split: option.splits if_splits prod.splits sum.splits)

lemma deposit_intent_new:
  assumes "deposit_intent verify_captcha token s g data su recovery draws now = (Inr view, s')" "dv_recovery view \<noteq> None"
  shows "\<exists>version ty rows answers. get_active_appointment_type s g (bd_type data) = Inr (Some ty) \<and> ty_deposit_required ty
    \<and> resolve_add_ons s (Some ty) (bd_add_ons data) = Inr rows
    \<and> create_deposit_intent (swept_holds s g (su_providers su) now) g data ty rows version answers su recovery draws now = (Inr view, s')"
proof -
  let ?s1 = "swept_holds s g (su_providers su) now"
  from assms(1) obtain version active where
    active: "get_active_appointment_type s g (bd_type data) = Inr active"
    and r: "(case active of
          None \<Rightarrow> (Inl (Abort 422 ''This service does not require a deposit.''), s)
        | Some ty \<Rightarrow>
            checked (require (ty_deposit_required ty) (Abort 422 ''This service does not require a deposit.'')) s (\<lambda>_.
            checked (resolve_add_ons s (Some ty) (bd_add_ons data)) s (\<lambda>rows.
            checked (validate_answers_or_abort s g data) s (\<lambda>answers.
              let s1 = snd (expire_stale_payment_holds s (Some (g_id g)) (su_providers su) now)
              in transaction s1
                (case existing_deposit_attempt s1 g data ty rows (su_providers su) of
                   (Inl e, s2) \<Rightarrow> (Inl e, s2)
                 | (Inr (Some view), s2) \<Rightarrow> (Inr view, s2)
                 | (Inr None, s2) \<Rightarrow>
                     create_deposit_intent s2 g data ty rows version answers su recovery draws now))))) = (Inr view, s')"
    unfolding deposit_intent_def checked_Inr by blast
  from r obtain ty where ty: "active = Some ty" by (cases active) auto
  from r obtain rows answers where c: "ty_deposit_required ty" "resolve_add_ons s (Some ty) (bd_add_ons data) = Inr rows"
    and t: "(case existing_deposit_attempt ?s1 g data ty rows (su_providers su) of
                   (Inl e, s2) \<Rightarrow> (Inl e, s2)
                 | (Inr (Some view), s2) \<Rightarrow> (Inr view, s2)
                 | (Inr None, s2) \<Rightarrow>
                     create_deposit_intent s2 g data ty rows version answers su recovery draws now) = (Inr view, s')"
    unfolding ty option.case checked_Inr require_Inr Let_def transaction_Inr swept_holds_def [symmetric] by blast
  from t obtain e s2 where ex: "existing_deposit_attempt ?s1 g data ty rows (su_providers su) = (Inr e, s2)"
    by (auto split: prod.splits sum.splits)
  from existing_deposit_attempt_Inr [OF ex] t ex assms(2) have "e = None" "s2 = ?s1" by auto
  with t ex active ty c show ?thesis by auto
qed

text \<open>
  C7: the deposit taken is the deposit shown: when the checkout applied a code and got a preview, a
  deposit started on the same booking in the same state charges exactly the previewed total and deposit
  and leaves the previewed balance. The preview and the charge are computed by different code.
\<close>

theorem deposit_taken_as_previewed:
  assumes "validate_discount_code s g code type_id sel email (su_providers su) now = (Inr shown, sv)"
    "deposit_intent verify_captcha token s g data su recovery draws now = (Inr view, s')" "dv_recovery view \<noteq> None"
    "bd_code data = Some code" "bd_type data = Some type_id" "bd_add_ons data = sel" "bd_email data = email"
  shows "pw_deposit_required shown \<and> dv_service_total view = Some (pw_new_total shown)
    \<and> dv_deposit_amount view = pw_deposit_amount shown \<and> dv_remaining_balance view = pw_remaining shown"
proof -
  let ?s1 = "swept_holds s g (su_providers su) now"
  have cat: "catalogue ?s1 = catalogue s" by (simp add: swept_holds_def)
  from deposit_intent_new [OF assms(2,3)] obtain version ty rows answers where
    ty: "get_active_appointment_type ?s1 g (Some type_id) = Inr (Some ty)" "ty_deposit_required ty"
    and rows: "resolve_add_ons ?s1 (Some ty) sel = Inr rows"
    and intent: "create_deposit_intent ?s1 g data ty rows version answers su recovery draws now = (Inr view, s')"
    using get_active_catalogue [OF cat] resolve_add_ons_catalogue [OF cat] assms(5,6) by auto
  from intent_view [OF intent] obtain discount s3 rq a where
    e: "evaluate_public_discount ?s1 g (Some code) email (Some ty) rows now = (Inr discount, s3)"
    and free: "\<not> free_by_code discount" and a: "deposit_amount ty rq = Inr a"
    and price: "\<And>r. discount = Some r \<Longrightarrow> rq_price rq = Some (dr_new_total r)"
    and view: "dv_service_total view = rq_price rq" "dv_deposit_amount view = Some a"
      "dv_remaining_balance view = map_option (\<lambda>p. p - a) (rq_price rq)"
    unfolding assms(4,7) by auto
  from assms(1) ty(1) rows e obtain result where r: "discount = Some result"
    by (cases discount) (auto simp: validate_discount_code_def Let_def)
  with free have "0 < dr_new_total result" by (simp add: free_by_code_def)
  from preview_of_deposit [OF a price [OF r] ty(2) this] assms(1) ty(1) rows e r
  have "pw_deposit_required shown" "pw_new_total shown = dr_new_total result" "pw_deposit_amount shown = Some a"
    "pw_remaining shown = Some (dr_new_total result - a)"
    by (auto simp: validate_discount_code_def Let_def)
  then show ?thesis using view price [OF r] by simp
qed

text \<open>A code of spaces is not refused but ends the request with a server error.\<close>

lemma blank_code_is_an_error:
  "get_active_appointment_type (swept_holds s g pvs now) g (Some i) = Inr (Some ty) \<Longrightarrow>
   fst (validate_discount_code s g ''  '' i [] email pvs now) = Inl (Abort 500 ''AssertionError'')"
  by (simp add: validate_discount_code_def resolve_add_ons_def evaluate_public_discount_def transaction_def text_eval Let_def)

text \<open>
  An attempt id whose request is no longer awaiting its deposit is neither resumed nor refused by the
  deposit endpoint: it goes on to the insert, which the unique index makes fail.
\<close>

lemma used_attempt_never_starts:
  assumes "attempt_row s g a = Some old" "bd_attempt data = Some a"
    "get_active_appointment_type s g (bd_type data) = Inr (Some ty)"
  shows "create_deposit_intent s g data ty rows version answers su recovery draws now \<noteq> (Inr view, s')"
proof
  assume "create_deposit_intent s g data ty rows version answers su recovery draws now = (Inr view, s')"
  from intent_placed [OF this assms(3)] obtain discount s1 s2 time stamp rq where s1: "db_requests s1 = db_requests s"
    and st: "stamps_only stamp" and p: "place_request s1 g data (Some ty) rows time AWAITING_PAYMENT RESERVED answers discount
        draws stamp now = (Inr rq, s2)" by blast
  from find_SomeD [OF assms(1) [unfolded attempt_row_def]] place_request_Inr [OF p st] s1 assms(2)
  show False by auto
qed

subsection \<open>Examples for the witnesses\<close>

definition walk_draws :: "nat list list" where
  "walk_draws = [[0, 1, 2, 3, 4, 5, 6]]"

definition plain_data :: booking_data where
  "plain_data = \<lparr>bd_first = ''A'', bd_last = ''B'', bd_email = ''a@b.c'', bd_phone = Some ''07'', bd_registration = None,
     bd_item = \<lparr>it_make = None, it_model = None, it_year = None, it_usage = None\<rparr>, bd_type = None, bd_add_ons = [],
     bd_date = 1, bd_time = Some (9 * hour_us), bd_employee_note = None, bd_notes = None, bd_attempt = Some 7,
     bd_code = None, bd_answers = [], bd_terms_accepted = False, bd_terms_version = None\<rparr>"

lemma validate_slot_own_duration:
  "validate_slot s g day t now ty ex None = validate_slot s g day t now ty ex (Some (type_duration ty (resolve_settings g)))"
  unfolding validate_slot_def Let_def option.case by (rule refl)

lemma plain_slot: "lock_and_validate_slot demo_db demo_garage plain_data None [] 0 = Inr (Some (9 * hour_us))"
proof -
  have "type_duration None (resolve_settings demo_garage) = 60"
    by (simp add: type_duration_def resolve_settings_def demo_defs)
  then have "validate_slot demo_db demo_garage 1 (9 * hour_us) 0 None None None = None"
    by (simp only: validate_slot_own_duration demo_slots(1))
  then show ?thesis by (simp add: lock_and_validate_slot_def plain_data_def selected_duration_def)
qed

definition plain_row :: booking_request where
  "plain_row = held_row\<lparr>rq_id := 101, rq_garage := 1, rq_status := PENDING, rq_contact := submitted_contact [] plain_data,
     rq_date := 1, rq_time := Some (9 * hour_us), rq_customer := Some 100, rq_hold_expires := None,
     rq_reference := Some ''BKABCDEFG'', rq_attempt := Some 7\<rparr>"

lemma plain_placed:
  "\<exists>s'. place_request demo_db demo_garage plain_data None [] (Some (9 * hour_us)) PENDING CONSUMED [] None walk_draws
     (\<lambda>rq. stamp_acceptance rq None 0) 0 = (Inr plain_row, s') \<and> db_requests s' = [plain_row]"
  by (simp add: place_request_def build_booking_request_def resolve_customer_and_vehicle_def resolve_customer_def
      match_customer_def submitted_contact_def tracked_reference_def tracked_details_def tracked_item_kwargs_def bound_values_def or_text_def truthy_def
      number_or_def selected_duration_def pre_discount_total_def insert_request_def redeem_public_def persist_answers_def
      stamp_acceptance_def fresh_id_def Let_def demo_db_def plain_data_def plain_row_def held_row_def walk_draws_def
      random_reference_def reference_alphabet_def demo_garage_def no_discount_def)

lemma plain_submitted:
  "\<exists>s'. commit_submission (\<lambda>_. True) '''' demo_db demo_garage plain_data walk_draws 0 = (Inr (Created 101), s')
     \<and> db_requests s' = [plain_row]"
proof -
  have terms: "require_web_acceptance demo_garage (bd_terms_accepted plain_data) (bd_terms_version plain_data) = Inr None"
    by (simp add: require_web_acceptance_def has_terms_def truthy_def demo_garage_def)
  have checks: "get_active_appointment_type demo_db demo_garage (bd_type plain_data) = Inr None"
    "resolve_add_ons demo_db None (bd_add_ons plain_data) = Inr []"
    "existing_plain_booking_attempt demo_db demo_garage plain_data None [] = Inr None"
    "validate_answers_or_abort demo_db demo_garage plain_data = Inr []"
    "evaluate_public_discount demo_db demo_garage (bd_code plain_data) (bd_email plain_data) None [] 0 = (Inr None, demo_db)"
    "bd_attempt plain_data = Some 7"
    by (simp_all add: get_active_appointment_type_def resolve_add_ons_def existing_plain_booking_attempt_def attempt_row_def
        validate_answers_or_abort_def validate_answers_def resolve_sections_def active_sections_def asked_def
        evaluate_public_discount_def plain_data_def demo_db_def)
  have "\<not> deposit_service None" "rq_id plain_row = 101" by (simp_all add: deposit_service_def plain_row_def)
  with plain_placed plain_slot terms checks show ?thesis by (auto simp: commit_submission_def)
qed

theorem resubmission_is_idempotent_witness:
  "\<exists>s'. submit_booking (\<lambda>_. True) '''' demo_db demo_garage plain_data walk_draws 0 = (Inr 101, s')
     \<and> (let s2 = s'\<lparr>db_requests := [plain_row\<lparr>rq_status := REJECTED\<rparr>, plain_row\<lparr>rq_id := 102, rq_attempt := Some 8\<rparr>]\<rparr>
        in submit_booking (\<lambda>_. True) ''x'' s2 demo_garage plain_data walk_draws 1 = (Inr 101, s2))"
proof -
  from plain_submitted obtain s1 where s1: "commit_submission (\<lambda>_. True) '''' demo_db demo_garage plain_data walk_draws 0
      = (Inr (Created 101), s1)" "db_requests s1 = [plain_row]" by blast
  have "auto_accept_booking_request (emit (BOOKING_REQUEST_CREATED 101) s1) demo_garage 101 0
      = (Inr None, emit (BOOKING_REQUEST_CREATED 101) s1)"
    using s1(2) by (simp add: auto_accept_booking_request_def emit_def find_type_def plain_row_def held_row_def)
  with s1(1) have first: "submit_booking (\<lambda>_. True) '''' demo_db demo_garage plain_data walk_draws 0
      = (Inr 101, emit (BOOKING_REQUEST_CREATED 101) s1)"
    by (simp add: submit_booking_def)
  have "bd_attempt plain_data = Some 7" "request_ids_drawn demo_db" "codes_spelled demo_db"
    by (simp_all add: plain_data_def request_ids_drawn_def codes_spelled_def demo_db_def)
  note again = resubmission_is_idempotent [OF first this TrueI]
  show ?thesis
    by (rule exI, rule conjI, rule first, unfold Let_def, rule again)
      (simp_all add: emit_def s1(2) attempt_row_def plain_row_def held_row_def demo_garage_def same_intent_def)
qed

theorem online_booking_has_a_bay_witness:
  "\<exists>s'. commit_submission (\<lambda>_. True) '''' demo_db demo_garage plain_data walk_draws 0 = (Inr (Created 101), s')
     \<and> bays_in_use s' demo_garage 1 (day_us + 9 * hour_us)
         + reserved_at (load_reserved_windows s' demo_garage 1) (day_us + 9 * hour_us) (day_us + 10 * hour_us)
       \<le> slot_capacity s' demo_garage (resolve_settings demo_garage)"
proof -
  from plain_submitted obtain s' where s': "commit_submission (\<lambda>_. True) '''' demo_db demo_garage plain_data walk_draws 0
      = (Inr (Created 101), s')" "db_requests s' = [plain_row]" by blast
  have "proper_usage demo_db" by (simp add: proper_usage_def demo_defs)
  moreover have "pending_request_duration s' plain_row (resolve_settings demo_garage) = 60"
    by (simp add: pending_request_duration_def find_type_def plain_row_def held_row_def resolve_settings_def demo_defs)
  ultimately have "bays_in_use s' demo_garage (bd_date plain_data) (day_us + 9 * hour_us)
         + reserved_at (load_reserved_windows s' demo_garage (bd_date plain_data)) (day_us + 9 * hour_us) (day_us + 10 * hour_us)
       \<le> slot_capacity s' demo_garage (resolve_settings demo_garage)"
    using online_booking_has_a_bay [OF _ _ _ disjI1 [OF s'(1)], of "9 * hour_us" "day_us + 9 * hour_us" "day_us + 10 * hour_us" "day_us + 9 * hour_us"]
    by (simp add: s'(2) plain_data_def calendar_eval local_day_bounds_utc_def)
  with s'(1) show ?thesis by (auto simp: plain_data_def)
qed

definition checkout_db :: db where
  "checkout_db = demo_shop\<lparr>db_types := [deposit_type]\<rparr>"

definition checkout_data :: booking_data where
  "checkout_data = plain_data\<lparr>bd_type := Some 4, bd_code := Some ''summer 10'', bd_time := None, bd_attempt := None\<rparr>"

definition checkout_setup :: payment_setup where
  "checkout_setup = demo_setup\<lparr>su_name := ''square'', su_enabled := True, su_configured := True\<rparr>"

lemma checkout_swept [simp]: "swept_holds checkout_db demo_business pvs now = checkout_db"
  by (simp add: swept_holds_def expire_stale_payment_holds_def stale_ids_def checkout_db_def demo_shop_def)

lemma checkout_type: "get_active_appointment_type checkout_db demo_business (Some 4) = Inr (Some deposit_type)"
  by (simp add: get_active_appointment_type_def checkout_db_def deposit_type_def demo_business_def)

lemma checkout_evaluate:
  "evaluate_public_discount checkout_db demo_business (Some ''summer 10'') ''a@b.c'' (Some deposit_type) [] 0
    = (Inr (Some demo_result), checkout_db)"
proof -
  have codes: "db_codes checkout_db = db_codes demo_shop" by (simp add: checkout_db_def)
  have "find_code checkout_db 2 (Some ''summer 10'') = Some demo_code"
    using demo_find unfolding find_code_def codes .
  moreover have "release_stale_redemptions checkout_db demo_code now = checkout_db" for now
    by (simp add: release_stale_redemptions_def release_where_def checkout_db_def demo_shop_def)
  moreover have "active_uses checkout_db i ex = []" for i ex by (simp add: active_uses_def checkout_db_def demo_shop_def)
  ultimately have "evaluate_code checkout_db demo_business (Some ''summer 10'') customer (Some 5000) [] 0
      = (Inr demo_result, checkout_db)" for customer
    by (simp add: evaluate_code_def demo_business_def Let_def evaluate_checks compute_discount_def eval_simps demo_result_def)
      (simp add: demo_code_def)
  moreover have "strip_text ''summer 10'' = ''summer 10''" by (rule strip_text_id) (simp_all add: text_eval)
  moreover have "pre_discount_total (Some deposit_type) [] = Inr (Some 5000)"
    by (simp add: pre_discount_total_def total_price_def price_delta_def deposit_type_def)
  ultimately show ?thesis by (simp add: evaluate_public_discount_def)
qed

lemma checkout_preview:
  "\<exists>shown. validate_discount_code checkout_db demo_business ''summer 10'' 4 [] ''a@b.c'' (su_providers checkout_setup) 0
     = (Inr shown, checkout_db) \<and> pw_new_total shown = 4500"
  using checkout_type checkout_evaluate
  by (simp add: validate_discount_code_def Let_def resolve_add_ons_def deposit_preview_def)
    (simp add: deposit_type_def demo_result_def calculate_deposit_minor_def)

lemma checkout_held:
  "\<exists>view s'. deposit_intent (\<lambda>_. True) '''' checkout_db demo_business checkout_data checkout_setup ''R'' walk_draws 0 = (Inr view, s')
     \<and> dv_recovery view = Some ''R''"
proof -
  have data: "bd_type checkout_data = Some 4" "bd_code checkout_data = Some ''summer 10''" "bd_email checkout_data = ''a@b.c''"
    "bd_add_ons checkout_data = []" "bd_attempt checkout_data = None" "bd_time checkout_data = None"
    by (simp_all add: checkout_data_def plain_data_def)
  have terms: "require_web_acceptance demo_business a v = Inr None" for a v
    by (simp add: require_web_acceptance_def has_terms_def truthy_def demo_business_def)
  have answers: "validate_answers_or_abort checkout_db demo_business checkout_data = Inr []"
    by (simp add: validate_answers_or_abort_def validate_answers_def resolve_sections_def active_sections_def asked_def
        checkout_data_def plain_data_def checkout_db_def demo_shop_def)
  let ?stamp = "\<lambda>rq. (stamp_acceptance rq None 0)
     \<lparr>rq_hold_expires := Some (payment_hold_deadline 0 (su_hold_minutes checkout_setup)), rq_recovery_token := Some ''R''\<rparr>"
  have "\<exists>rq s'. place_request checkout_db demo_business checkout_data (Some deposit_type) [] None AWAITING_PAYMENT RESERVED []
      (Some demo_result) walk_draws ?stamp 0 = (Inr rq, s') \<and> rq_price rq = Some 4500"
    by (simp add: place_request_def build_booking_request_def resolve_customer_and_vehicle_def resolve_customer_def
      match_customer_def submitted_contact_def tracked_reference_def tracked_details_def tracked_item_kwargs_def bound_values_def
      or_text_def truthy_def number_or_def selected_duration_def pre_discount_total_def total_price_def price_delta_def
      insert_request_def redeem_public_def redeem_def single_use_taken_def persist_answers_def
      stamp_acceptance_def fresh_id_def Let_def checkout_db_def demo_shop_def checkout_data_def plain_data_def walk_draws_def
      random_reference_def reference_alphabet_def demo_business_def deposit_type_def demo_result_def)
  then obtain rq s1 where placed: "place_request checkout_db demo_business checkout_data (Some deposit_type) [] None AWAITING_PAYMENT
      RESERVED [] (Some demo_result) walk_draws ?stamp 0 = (Inr rq, s1)" and price: "rq_price rq = Some 4500" by blast
  have "deposit_amount deposit_type rq = Inr 2000"
    using price by (simp add: deposit_amount_def deposit_type_def calculate_deposit_minor_def round_half_up_def)
  then obtain p session s2 where paid: "start_deposit s1 demo_business deposit_type rq checkout_setup 0 = (Inr (p, session), s2)"
    by (simp add: start_deposit_def create_deposit_hold_def checkout_setup_def demo_setup_def demo_adapter_def Let_def)
  have "lock_and_validate_slot checkout_db demo_business checkout_data (Some deposit_type) [] 0 = Inr None"
    by (simp add: lock_and_validate_slot_def data)
  moreover have "\<not> free_by_code (Some demo_result)" by (simp add: free_by_code_def demo_result_def)
  ultimately have "create_deposit_intent checkout_db demo_business checkout_data deposit_type [] None [] checkout_setup ''R'' walk_draws 0
      = (Inr (deposit_response rq (Some p) (Some session) (Some ''R'')), s2)"
    by (simp add: create_deposit_intent_def data checkout_evaluate placed paid)
  moreover have "ty_deposit_required deposit_type" by (simp add: deposit_type_def)
  ultimately show ?thesis
    using terms answers checkout_type checkout_swept [of "su_providers checkout_setup" 0]
    by (simp add: deposit_intent_def data resolve_add_ons_def existing_deposit_attempt_def Let_def swept_holds_def [symmetric]
        deposit_response_def)
qed

theorem deposit_taken_as_previewed_witness:
  "\<exists>shown view s'. validate_discount_code checkout_db demo_business ''summer 10'' 4 [] ''a@b.c''
         (su_providers checkout_setup) 0 = (Inr shown, checkout_db) \<and> pw_new_total shown = 4500 \<and> dv_service_total view = Some 4500
     \<and> deposit_intent (\<lambda>_. True) '''' checkout_db demo_business checkout_data checkout_setup ''R'' walk_draws 0 = (Inr view, s')
     \<and> dv_deposit_amount view = pw_deposit_amount shown"
proof -
  from checkout_preview obtain shown where shown: "validate_discount_code checkout_db demo_business ''summer 10'' 4 [] ''a@b.c''
      (su_providers checkout_setup) 0 = (Inr shown, checkout_db)" "pw_new_total shown = 4500" by blast
  from checkout_held obtain view s' where held: "deposit_intent (\<lambda>_. True) '''' checkout_db demo_business checkout_data
      checkout_setup ''R'' walk_draws 0 = (Inr view, s')" "dv_recovery view = Some ''R''" by blast
  have "bd_type checkout_data = Some 4" "bd_code checkout_data = Some ''summer 10''" "bd_email checkout_data = ''a@b.c''"
    "bd_add_ons checkout_data = []" by (simp_all add: checkout_data_def plain_data_def)
  with deposit_taken_as_previewed [OF shown(1) held(1)] held shown
  have "pw_new_total shown = 4500 \<and> dv_service_total view = Some 4500 \<and> dv_deposit_amount view = pw_deposit_amount shown"
    by simp
  with held(1) shown(1) show ?thesis by blast
qed

end
