(* ===== verification/Walkin_Snapshot.thy ===== *)
theory Walkin_Snapshot
  imports Queue_Eta Availability Texts
begin

text \<open>
  The reading side of the walk-in queue, \<open>app/queueing/service.py\<close> up to the sweeps: the queue's
  settings row, the automatic average service time (Python floats included), the snapshot of a
  day's queue with an estimate per waiting customer, and the check that refuses a new customer
  who could not be served before closing. The waiting-time estimate itself is \<open>Queue_Eta\<close>.
\<close>

subsection \<open>Settings and capacity\<close>

definition default_queue_settings :: "uid \<Rightarrow> queue_settings" where
  "default_queue_settings garage_id = \<lparr>qs_garage = garage_id, qs_is_open = False, qs_collect_name = True,
     qs_name_required = True, qs_collect_phone = True, qs_phone_required = True, qs_collect_email = False,
     qs_email_required = False, qs_collect_registration = True, qs_registration_required = False,
     qs_average_manual = False, qs_manual_minutes = None, qs_timeout_minutes = Some 10,
     qs_default_type = None\<rparr>"

definition get_queue_settings :: "db \<Rightarrow> uid \<Rightarrow> queue_settings \<times> db" where
  "get_queue_settings s garage_id =
     (case find (\<lambda>q. qs_garage q = garage_id) (db_queue_settings s) of
        Some q \<Rightarrow> (q, s)
      | None \<Rightarrow> (default_queue_settings garage_id,
                 s\<lparr>db_queue_settings := db_queue_settings s @ [default_queue_settings garage_id]\<rparr>))"

definition queue_capacity :: "db \<Rightarrow> garage \<Rightarrow> int" where
  "queue_capacity s g = slot_capacity s g (resolve_settings g)"

subsection \<open>The average service time\<close>

text \<open>
  A Python float here is \<open>m / 2 ^ k\<close>, the pair \<open>(m, k)\<close>; \<open>float_quotient n d\<close> is the double nearest
  to \<open>n / d\<close>, ties to even, for quotients below \<open>2 ^ 53\<close> (every difference of two timestamps).
\<close>

type_synonym double = "int \<times> nat"

definition float_quotient :: "int \<Rightarrow> int \<Rightarrow> double" where
  "float_quotient n d =
     (let k = 53 + bit_length (nat d) - bit_length (nat \<bar>n\<bar>);
          k' = (if 2 ^ 53 \<le> \<bar>n\<bar> * 2 ^ k div d then k - 1 else k)
      in (div_half_even (n * 2 ^ k') d, k'))"

definition float_div :: "double \<Rightarrow> int \<Rightarrow> double" where
  "float_div x d = float_quotient (fst x) (d * 2 ^ snd x)"

definition float_add :: "double \<Rightarrow> double \<Rightarrow> double" where
  "float_add x y = float_quotient (fst x * 2 ^ snd y + fst y * 2 ^ snd x) (2 ^ (snd x + snd y))"

definition in_band :: "int \<Rightarrow> int \<Rightarrow> double \<Rightarrow> bool" where
  "in_band low high x \<longleftrightarrow> low * 2 ^ snd x \<le> fst x \<and> fst x \<le> high * 2 ^ snd x"

text \<open>\<open>statistics.median\<close> of a non-empty list: the values are compared over one denominator.\<close>

definition sort_floats :: "double list \<Rightarrow> double list" where
  "sort_floats xs = (let top = fold max (map snd xs) 0 in sort_key (\<lambda>x. fst x * 2 ^ (top - snd x)) xs)"

definition median :: "double list \<Rightarrow> double" where
  "median xs =
     (let ys = sort_floats xs; n = length ys; i = n div 2
      in if odd n then ys ! i
         else let t = float_add (ys ! (i - 1)) (ys ! i) in (fst t, Suc (snd t)))"

definition round_float :: "double \<Rightarrow> int" where
  "round_float x = div_half_even (fst x) (2 ^ snd x)"

definition appointment_minutes :: "appointment \<Rightarrow> double" where
  "appointment_minutes a = float_div (float_quotient (ap_end a - ap_start a) 1000000) 60"

definition auto_average_minutes :: "db \<Rightarrow> uid \<Rightarrow> instant \<Rightarrow> int option \<times> nat" where
  "auto_average_minutes s garage_id now =
     (let since = now - 90 * day_us;
          rows = take 500 (sort_key (\<lambda>a. - ap_start a)
            (filter (\<lambda>a. ap_garage a = garage_id \<and> ap_status a = AP_COMPLETED \<and> since \<le> ap_start a
                       \<and> ap_start a \<le> now) (db_appointments s)));
          durations = filter (in_band 5 (8 * 60)) (map appointment_minutes rows)
      in if length durations < 5 then (None, length durations)
         else (Some (round_float (median durations)), length durations))"

datatype average_source = FROM_MANUAL | FROM_AUTO | FROM_DEFAULT

record average =
  av_minutes :: int
  av_source :: average_source
  av_auto :: "int option"
  av_samples :: nat

definition average_info :: "db \<Rightarrow> garage \<Rightarrow> queue_settings \<Rightarrow> instant \<Rightarrow> average" where
  "average_info s g settings now =
     (case auto_average_minutes s (g_id g) now of
        (auto_minutes, sample_size) \<Rightarrow>
          if qs_average_manual settings \<and> qs_manual_minutes settings \<noteq> None \<and> qs_manual_minutes settings \<noteq> Some 0
          then \<lparr>av_minutes = the (qs_manual_minutes settings), av_source = FROM_MANUAL,
                av_auto = auto_minutes, av_samples = sample_size\<rparr>
          else case auto_minutes of
            Some m \<Rightarrow> \<lparr>av_minutes = m, av_source = FROM_AUTO, av_auto = Some m, av_samples = sample_size\<rparr>
          | None \<Rightarrow> \<lparr>av_minutes = default_appointment_minutes (resolve_settings g), av_source = FROM_DEFAULT,
                     av_auto = None, av_samples = sample_size\<rparr>)"

definition resolve_service_minutes ::
  "db \<Rightarrow> garage \<Rightarrow> queue_settings \<Rightarrow> appointment_type option \<Rightarrow> instant \<Rightarrow> int"
where
  "resolve_service_minutes s g settings ty now =
     (case Option.bind ty ty_duration of
        Some d \<Rightarrow> if d \<noteq> 0 then d else av_minutes (average_info s g settings now)
      | None \<Rightarrow> av_minutes (average_info s g settings now))"

subsection \<open>The snapshot\<close>

definition finished_appointment_statuses :: "appointment_status list" where
  "finished_appointment_statuses = [AP_CANCELLED, AP_NO_SHOW, AP_COMPLETED]"

definition is_waiting :: "queue_entry \<Rightarrow> bool" where
  "is_waiting e \<longleftrightarrow> qe_status e = Q_WAITING"

definition of_day :: "uid \<Rightarrow> date \<Rightarrow> queue_entry \<Rightarrow> bool" where
  "of_day garage_id day e \<longleftrightarrow> qe_garage e = garage_id \<and> qe_date e = day"

definition today_entries :: "db \<Rightarrow> uid \<Rightarrow> date \<Rightarrow> queue_entry list" where
  "today_entries s garage_id service_date =
     sort_key qe_sort (filter (of_day garage_id service_date) (db_queue s))"

definition appointment_busy :: "instant \<Rightarrow> appointment \<Rightarrow> busy option" where
  "appointment_busy now a =
     (if ap_status a \<in> set finished_appointment_statuses then None
      else if ap_status a = AP_IN_PROGRESS then Some (ongoing (ap_start a) (ap_end a) now)
      else Some (Busy (ap_start a) (ap_end a)))"

definition entry_busy :: "uid set \<Rightarrow> instant \<Rightarrow> queue_entry \<Rightarrow> busy option" where
  "entry_busy appointment_ids now e =
     (let minutes = qe_minutes e * minute_us
      in if qe_status e = Q_CALLED then Some (Busy now (now + minutes))
         else if qe_status e = Q_IN_SERVICE
           \<and> (case qe_appointment e of None \<Rightarrow> True | Some i \<Rightarrow> i \<notin> appointment_ids)
         then let started = (case qe_started_at e of Some t \<Rightarrow> t | None \<Rightarrow> now)
              in Some (ongoing started (started + minutes) now)
         else None)"

definition busy_intervals :: "queue_entry list \<Rightarrow> appointment list \<Rightarrow> instant \<Rightarrow> busy list" where
  "busy_intervals entries appointments now =
     List.map_filter (appointment_busy now) appointments
     @ List.map_filter (entry_busy (set (map ap_id appointments)) now) entries"

definition day_window :: "garage \<Rightarrow> date \<Rightarrow> instant \<times> instant" where
  "day_window g day =
     (local_slot_as_utc (g_zone g) day time_min, local_slot_as_utc (g_zone g) day time_max)"

definition day_appointments :: "db \<Rightarrow> garage \<Rightarrow> date \<Rightarrow> appointment list" where
  "day_appointments s g day =
     (case day_window g day of (window_start, window_end) \<Rightarrow>
        sort_key ap_start (filter (\<lambda>a. ap_garage a = g_id g \<and> ap_start a < window_end
                                     \<and> window_start < ap_end a) (db_appointments s)))"

text \<open>
  The jobs handed to the estimate carry the entry's id as key; the extra job of a hypothetical
  newcomer (\<open>object()\<close>, or the string \<open>new\<close>) has the key \<open>None\<close>.
\<close>

definition waiting_jobs :: "queue_entry list \<Rightarrow> uid option queued_job list" where
  "waiting_jobs entries =
     map (\<lambda>e. \<lparr>job_key = Some (qe_id e), job_minutes = qe_minutes e\<rparr>) (filter is_waiting entries)"

record queue_snapshot =
  sn_now :: instant
  sn_date :: date
  sn_capacity :: int
  sn_opens :: "instant option"
  sn_closes :: "instant option"
  sn_entries :: "queue_entry list"
  sn_appointments :: "appointment list"
  sn_estimates :: "uid \<rightharpoonup> uid option estimate"
  sn_new_joiner :: "uid option estimate option"

definition estimates_of :: "uid option estimate list \<Rightarrow> (uid \<rightharpoonup> uid option estimate)" where
  "estimates_of results = (\<lambda>i. find (\<lambda>est. est_key est = Some i) (rev results))"

definition snapshot_of :: "db \<Rightarrow> garage \<Rightarrow> queue_settings \<Rightarrow> instant \<Rightarrow> queue_snapshot" where
  "snapshot_of s g settings now =
     (let service_date = local_day_for (g_zone g) now;
          hours = open_interval g service_date;
          entries = today_entries s (g_id g) service_date;
          appointments = day_appointments s g service_date;
          busy = busy_intervals entries appointments now;
          jobs = waiting_jobs entries
            @ [\<lparr>job_key = None, job_minutes = resolve_service_minutes s g settings None now\<rparr>];
          results = estimate_queue now (queue_capacity s g) (map_option fst hours) (map_option snd hours)
            busy jobs
      in \<lparr>sn_now = now, sn_date = service_date, sn_capacity = queue_capacity s g,
          sn_opens = map_option fst hours, sn_closes = map_option snd hours, sn_entries = entries,
          sn_appointments = appointments, sn_estimates = estimates_of results,
          sn_new_joiner = find (\<lambda>est. est_key est = None) (rev results)\<rparr>)"

definition queue_snapshot :: "db \<Rightarrow> garage \<Rightarrow> instant \<Rightarrow> queue_snapshot \<times> db" where
  "queue_snapshot s g now =
     (case get_queue_settings s (g_id g) of (settings, s') \<Rightarrow> (snapshot_of s' g settings now, s'))"

subsection \<open>May one more customer join?\<close>

datatype refusal = QUEUE_CLOSED | CLOSED_TODAY | PAST_CLOSING | FULL_FOR_TODAY

definition join_refusal_reason :: "queue_settings \<Rightarrow> queue_snapshot \<Rightarrow> int \<Rightarrow> refusal option" where
  "join_refusal_reason settings sn minutes =
     (if \<not> qs_is_open settings then Some QUEUE_CLOSED
      else case (sn_opens sn, sn_closes sn) of
        (Some opens, Some closes) \<Rightarrow>
          if closes \<le> sn_now sn then Some PAST_CLOSING
          else if \<not> fits_today (last (estimate_queue (sn_now sn) (sn_capacity sn) (sn_opens sn) (sn_closes sn)
                    (busy_intervals (sn_entries sn) (sn_appointments sn) (sn_now sn))
                    (waiting_jobs (sn_entries sn) @ [\<lparr>job_key = None, job_minutes = minutes\<rparr>])))
          then Some FULL_FOR_TODAY
          else None
      | _ \<Rightarrow> Some CLOSED_TODAY)"

definition call_expires_at :: "queue_entry \<Rightarrow> queue_settings \<Rightarrow> instant option" where
  "call_expires_at e settings =
     (case (qe_called_at e, qs_timeout_minutes settings) of
        (Some t, Some m) \<Rightarrow> if qe_status e = Q_CALLED \<and> m \<noteq> 0 then Some (t + m * minute_us) else None
      | _ \<Rightarrow> None)"

subsection \<open>The average stays in the band\<close>

lemma div_half_even_ge:
  assumes "0 < d" "c * d \<le> n"
  shows "c \<le> div_half_even n d"
proof -
  have "c \<le> n div d" using assms by (simp add: zdiv_mono1 [of "c * d" n d, simplified])
  then show ?thesis by (auto simp: div_half_even_def Let_def)
qed

lemma div_half_even_le:
  assumes "0 < d" "n \<le> c * d"
  shows "div_half_even n d \<le> c"
proof (cases "n = c * d")
  case True
  with assms(1) show ?thesis by (simp add: div_half_even_def)
next
  case False
  have "n div d < c"
  proof (rule ccontr)
    assume "\<not> n div d < c"
    then have "c * d \<le> n div d * d" using assms(1) by (intro mult_right_mono) simp_all
    also have "\<dots> \<le> n" using assms(1) by (simp add: minus_mod_eq_div_mult [symmetric])
    finally show False using False assms(2) by simp
  qed
  then show ?thesis by (auto simp: div_half_even_def Let_def)
qed

lemma float_quotient_band:
  assumes "0 < d" "low * d \<le> n" "n \<le> high * d"
  shows "in_band low high (float_quotient n d)"
proof -
  obtain k where k: "float_quotient n d = (div_half_even (n * 2 ^ k) d, k)"
    by (auto simp: float_quotient_def Let_def)
  have "low * 2 ^ k * d \<le> n * 2 ^ k" "n * 2 ^ k \<le> high * 2 ^ k * d"
    using mult_right_mono [OF assms(2), of "2 ^ k"] mult_right_mono [OF assms(3), of "2 ^ k"]
    by (simp_all add: ac_simps)
  with assms(1) show ?thesis
    by (simp add: k in_band_def div_half_even_ge div_half_even_le)
qed

lemma float_add_band:
  assumes "in_band low high x" "in_band low high y"
  shows "in_band (2 * low) (2 * high) (float_add x y)"
  unfolding float_add_def
proof (rule float_quotient_band)
  let ?x = "2 ^ snd x :: int" and ?y = "2 ^ snd y :: int"
  have "2 * low * (?x * ?y) = low * ?x * ?y + low * ?y * ?x" by (simp add: algebra_simps)
  also have "\<dots> \<le> fst x * ?y + fst y * ?x"
    using assms by (intro add_mono mult_right_mono) (simp_all add: in_band_def)
  finally show "2 * low * 2 ^ (snd x + snd y) \<le> fst x * ?y + fst y * ?x" by (simp add: power_add)
  have "fst x * ?y + fst y * ?x \<le> high * ?x * ?y + high * ?y * ?x"
    using assms by (intro add_mono mult_right_mono) (simp_all add: in_band_def)
  also have "\<dots> = 2 * high * (?x * ?y)" by (simp add: algebra_simps)
  finally show "fst x * ?y + fst y * ?x \<le> 2 * high * 2 ^ (snd x + snd y)" by (simp add: power_add)
qed simp

lemma set_sort_floats [simp]: "set (sort_floats xs) = set xs" "length (sort_floats xs) = length xs"
  by (simp_all add: sort_floats_def Let_def)

lemma median_band:
  assumes "xs \<noteq> []" "\<And>x. x \<in> set xs \<Longrightarrow> in_band low high x"
  shows "in_band low high (median xs)"
proof -
  have nth: "in_band low high (sort_floats xs ! i)" if "i < length xs" for i
    using assms(2) that nth_mem [of i "sort_floats xs"] by simp
  show ?thesis
  proof (cases "odd (length xs)")
    case True
    then have "length xs div 2 < length xs" using assms(1) by (intro div_less_dividend) simp_all
    with True show ?thesis by (simp add: median_def nth)
  next
    case False
    let ?t = "float_add (sort_floats xs ! (length xs div 2 - 1)) (sort_floats xs ! (length xs div 2))"
    have "length xs div 2 < length xs" using assms(1) by (intro div_less_dividend) simp_all
    then have "in_band (2 * low) (2 * high) ?t" by (intro float_add_band nth) simp_all
    with False show ?thesis by (simp add: median_def Let_def in_band_def)
  qed
qed

lemma round_float_band: "in_band low high x \<Longrightarrow> low \<le> round_float x \<and> round_float x \<le> high"
  by (simp add: round_float_def in_band_def div_half_even_ge div_half_even_le)

end
