(* ===== verification/Walkin_Queue.thy ===== *)
theory Walkin_Queue
  imports Walkin_Snapshot Booking_Requests "HOL-Library.List_Lexorder" "HOL-Library.Char_ord"
begin

text \<open>
  The life of a walk-in, \<open>app/queueing/service.py\<close> from the sweeps on, with the routes of
  \<open>app/queueing/routes.py\<close> that change state: joining, calling forward, checking in (which makes the
  appointment), completing, no-show, cancelling, staff reordering, opening and closing, settings,
  and the sweep that ends yesterday's leftovers and times out calls. \<open>queue_step\<close> is the relation
  of all of them. An abort rolls back to the last commit. Free-text notes and the SMS opt-in are
  not modelled.
\<close>

subsection \<open>Rows and transitions\<close>

definition active_statuses :: "queue_status list" where
  "active_statuses = [Q_WAITING, Q_CALLED, Q_IN_SERVICE]"

definition end_entry :: "queue_entry \<Rightarrow> queue_status \<Rightarrow> end_reason option \<Rightarrow> instant \<Rightarrow> queue_entry" where
  "end_entry e status reason now = e\<lparr>qe_status := status, qe_end_reason := reason, qe_ended_at := Some now\<rparr>"

definition mark_called :: "queue_entry \<Rightarrow> instant \<Rightarrow> queue_entry" where
  "mark_called e now = e\<lparr>qe_status := Q_CALLED, qe_called_at := Some now\<rparr>"

definition end_where ::
  "(queue_entry \<Rightarrow> bool) \<Rightarrow> queue_status \<Rightarrow> end_reason option \<Rightarrow> instant \<Rightarrow> db \<Rightarrow> db"
where
  "end_where P status reason now s =
     s\<lparr>db_queue := map (\<lambda>e. if P e then end_entry e status reason now else e) (db_queue s)\<rparr>"

definition waiting_line :: "db \<Rightarrow> uid \<Rightarrow> date \<Rightarrow> queue_entry list" where
  "waiting_line s garage_id day =
     sort_key qe_sort (filter (\<lambda>e. of_day garage_id day e \<and> is_waiting e) (db_queue s))"

definition next_waiting :: "db \<Rightarrow> uid \<Rightarrow> date \<Rightarrow> queue_entry option" where
  "next_waiting s garage_id day =
     (case waiting_line s garage_id day of [] \<Rightarrow> None | e # _ \<Rightarrow> Some e)"

definition entry_for_update :: "db \<Rightarrow> uid \<Rightarrow> uid \<Rightarrow> queue_entry option" where
  "entry_for_update s garage_id entry_id =
     find (\<lambda>e. qe_id e = entry_id \<and> qe_garage e = garage_id) (db_queue s)"

subsection \<open>The sweep\<close>

definition stale_entry :: "uid \<Rightarrow> date \<Rightarrow> queue_entry \<Rightarrow> bool" where
  "stale_entry garage_id today e \<longleftrightarrow> qe_garage e = garage_id \<and> qe_date e < today
     \<and> (qe_status e = Q_WAITING \<or> qe_status e = Q_CALLED)"

definition call_overdue :: "uid \<Rightarrow> date \<Rightarrow> int option \<Rightarrow> instant \<Rightarrow> queue_entry \<Rightarrow> bool" where
  "call_overdue garage_id today timeout now e \<longleftrightarrow>
     (case (timeout, qe_called_at e) of
        (Some m, Some t) \<Rightarrow> m \<noteq> 0 \<and> of_day garage_id today e \<and> qe_status e = Q_CALLED
          \<and> t \<le> now - m * minute_us
      | _ \<Rightarrow> False)"

text \<open>\<open>for _ in timed_out\<close>: each turn reads the line again, after the calls of the turns before.\<close>

primrec call_up :: "nat \<Rightarrow> uid \<Rightarrow> date \<Rightarrow> instant \<Rightarrow> db \<Rightarrow> uid list \<times> db" where
  "call_up 0 garage_id today now s = ([], s)"
| "call_up (Suc n) garage_id today now s =
     (case next_waiting s garage_id today of
        None \<Rightarrow> ([], s)
      | Some e \<Rightarrow>
          (case call_up n garage_id today now (put_entry (mark_called e now) s) of
             (called, s') \<Rightarrow> (qe_id e # called, s')))"

definition emit_called :: "uid list \<Rightarrow> db \<Rightarrow> db" where
  "emit_called called s = fold (\<lambda>i. emit (QUEUE_ENTRY_CALLED i)) called s"

definition sweep_queue :: "db \<Rightarrow> garage \<Rightarrow> instant \<Rightarrow> uid list \<times> db" where
  "sweep_queue s0 g now =
     (case get_queue_settings s0 (g_id g) of (settings, s) \<Rightarrow>
        let today = local_day_for (g_zone g) now;
            stale = stale_entry (g_id g) today;
            due = call_overdue (g_id g) today (qs_timeout_minutes settings) now
        in if \<not> list_ex stale (db_queue s) \<and> \<not> list_ex due (db_queue s) then ([], s)
           else
             let s1 = end_where stale Q_CANCELLED (Some END_DAY_ENDED) now s;
                 s2 = end_where due Q_NO_SHOW (Some END_CALL_TIMEOUT) now s1
             in (case call_up (length (filter due (db_queue s1))) (g_id g) today now s2 of
                   (called, s3) \<Rightarrow> (called, emit_called called s3)))"

definition sweep_all_garages :: "db \<Rightarrow> instant \<Rightarrow> nat \<times> db" where
  "sweep_all_garages s now =
     fold (\<lambda>garage_id (n, s').
         case row_find g_id garage_id (db_garages s') of
           None \<Rightarrow> (n, s')
         | Some g \<Rightarrow> (case sweep_queue s' g now of (called, s'') \<Rightarrow> (n + length called, s'')))
       (remdups (map qe_garage (filter (\<lambda>e. qe_status e = Q_WAITING \<or> qe_status e = Q_CALLED) (db_queue s))))
       (0, s)"

subsection \<open>Joining\<close>

record join_data =
  jd_first :: "string option"
  jd_last :: "string option"
  jd_phone :: "string option"
  jd_email :: "string option"
  jd_registration :: "string option"
  jd_notes :: "string option"
  jd_type :: "uid option"

text \<open>One of the form's field rules; \<open>None\<close>: the field is required and missing.\<close>

definition check_field :: "bool \<Rightarrow> bool \<Rightarrow> string option \<Rightarrow> string option option" where
  "check_field enabled required v =
     (if required \<and> (\<not> enabled \<or> \<not> truthy v \<or> strip_text (the v) = []) then None
      else Some (if enabled then v else None))"

definition check_fields :: "queue_settings \<Rightarrow> join_data \<Rightarrow> join_data option" where
  "check_fields settings data =
     (case (check_field (qs_collect_name settings) (qs_name_required settings) (jd_first data),
            check_field (qs_collect_phone settings) (qs_phone_required settings) (jd_phone data),
            check_field (qs_collect_email settings) (qs_email_required settings) (jd_email data),
            check_field (qs_collect_registration settings) (qs_registration_required settings)
              (jd_registration data)) of
        (Some first, Some phone, Some email, Some registration) \<Rightarrow>
          Some (data\<lparr>jd_first := first, jd_phone := phone, jd_email := email, jd_registration := registration\<rparr>)
      | _ \<Rightarrow> None)"

definition strip_or_none :: "string option \<Rightarrow> string option" where
  "strip_or_none v =
     (case v of None \<Rightarrow> None | Some x \<Rightarrow> if strip_text x = [] then None else Some (strip_text x))"

text \<open>\<open>None\<close>: the service the customer picked is not an active one.\<close>

definition chosen_type :: "db \<Rightarrow> uid \<Rightarrow> uid option \<Rightarrow> appointment_type option option" where
  "chosen_type s garage_id type_id =
     (case type_id of
        None \<Rightarrow> Some None
      | Some i \<Rightarrow>
          (case find (\<lambda>ty. ty_id ty = i \<and> ty_garage ty = garage_id \<and> ty_status ty = TYPE_ACTIVE) (db_types s) of
             None \<Rightarrow> None
           | Some ty \<Rightarrow> Some (Some ty)))"

definition stamp_entry :: "queue_entry \<Rightarrow> int option \<Rightarrow> instant \<Rightarrow> queue_entry" where
  "stamp_entry e version now =
     (case version of None \<Rightarrow> e
      | Some v \<Rightarrow> e\<lparr>qe_terms_accepted_at := Some now, qe_terms_version := Some v\<rparr>)"

definition new_entry ::
  "db \<Rightarrow> uid \<Rightarrow> date \<Rightarrow> join_data \<Rightarrow> appointment_type option \<Rightarrow> int \<Rightarrow> string \<Rightarrow> int option \<Rightarrow> instant \<Rightarrow> queue_entry"
where
  "new_entry s garage_id today data ty minutes token terms_version now =
     (let rows = filter (of_day garage_id today) (db_queue s);
          max_ticket = max_default 0 (map qe_ticket rows);
          max_sort = max_default 0 (map qe_sort rows)
      in stamp_entry
          \<lparr>qe_id = fresh_id s, qe_garage = garage_id, qe_status = Q_WAITING, qe_end_reason = None,
           qe_date = today, qe_ticket = max_ticket + 1, qe_sort = max_sort + 1,
           qe_first = strip_text (case jd_first data of None \<Rightarrow> [] | Some x \<Rightarrow> x),
           qe_last = strip_or_none (jd_last data), qe_phone = jd_phone data,
           qe_email = strip_or_none (jd_email data), qe_registration = strip_or_none (jd_registration data),
           qe_notes = jd_notes data, qe_type = map_option ty_id ty, qe_minutes = minutes, qe_token = token,
           qe_called_at = None, qe_started_at = None, qe_ended_at = None, qe_appointment = None,
           qe_terms_accepted_at = None, qe_terms_version = None\<rparr>
          terms_version now)"

definition phone_in_queue :: "string option \<Rightarrow> queue_entry list \<Rightarrow> bool" where
  "phone_in_queue phone entries \<longleftrightarrow>
     truthy phone \<and> list_ex (\<lambda>e. qe_phone e = phone \<and> qe_status e \<in> set active_statuses) entries"

definition join_queue ::
  "db \<Rightarrow> garage \<Rightarrow> join_data \<Rightarrow> string \<Rightarrow> int option \<Rightarrow> instant \<Rightarrow> queue_entry outcome"
where
  "join_queue s0 g data0 token terms_version now =
     (let s = snd (sweep_queue s0 g now)
      in case get_queue_settings s (g_id g) of (settings, s1) \<Rightarrow>
        case check_fields settings data0 of
          None \<Rightarrow> (Inl (Abort 422 ''required_queue_field''), s)
        | Some data \<Rightarrow>
            (case chosen_type s1 (g_id g) (jd_type data) of
               None \<Rightarrow> (Inl (Abort 422 ''appointment_type_id''), s)
             | Some ty \<Rightarrow>
                 let sn = snapshot_of s1 g settings now;
                     minutes = resolve_service_minutes s1 g settings ty now
                 in (case join_refusal_reason settings sn minutes of
                       Some reason \<Rightarrow> (Inl (Abort 409 ''refused''), s)
                     | None \<Rightarrow>
                         if phone_in_queue (jd_phone data) (sn_entries sn)
                         then (Inl (Abort 409 ''already_in_queue''), s)
                         else
                           let e = new_entry s1 (g_id g) (sn_date sn) data ty minutes token terms_version now
                           in (Inr e, emit (QUEUE_ENTRY_JOINED (qe_id e))
                                (s1\<lparr>db_queue := db_queue s1 @ [e], db_next := Suc (db_next s1)\<rparr>)))))"

subsection \<open>Calling, checking in, completing\<close>

definition call_entry :: "db \<Rightarrow> garage \<Rightarrow> uid option \<Rightarrow> instant \<Rightarrow> queue_entry outcome" where
  "call_entry s g entry_id now =
     (let called = (\<lambda>e. (Inr (mark_called e now),
              emit (QUEUE_ENTRY_CALLED (qe_id e)) (put_entry (mark_called e now) s)))
      in case entry_id of
           None \<Rightarrow> (case next_waiting s (g_id g) (local_day_for (g_zone g) now) of
                     None \<Rightarrow> (Inl (Abort 409 ''queue_empty''), s) | Some e \<Rightarrow> called e)
         | Some i \<Rightarrow> (case entry_for_update s (g_id g) i of
                     None \<Rightarrow> (Inl (Abort 404 ''Queue entry not found''), s)
                   | Some e \<Rightarrow> if qe_status e \<noteq> Q_WAITING then (Inl (Abort 409 ''invalid_transition''), s)
                              else called e))"

definition find_customer :: "db \<Rightarrow> uid \<Rightarrow> string option \<Rightarrow> customer option" where
  "find_customer s garage_id phone =
     (if \<not> truthy phone then None
      else case filter (\<lambda>c. cu_garage c = garage_id \<and> cu_phone c = phone) (db_customers s) of
        [c] \<Rightarrow> Some c
      | _ \<Rightarrow> None)"

definition registration_is_someone_elses :: "db \<Rightarrow> uid \<Rightarrow> string option \<Rightarrow> customer option \<Rightarrow> bool" where
  "registration_is_someone_elses s garage_id registration c \<longleftrightarrow>
     truthy registration \<and>
     (case find (\<lambda>v. ve_garage v = garage_id \<and> ve_registration v = normalize_registration (the registration))
             (db_vehicles s) of
        None \<Rightarrow> False
      | Some v \<Rightarrow> (case c of None \<Rightarrow> True | Some c' \<Rightarrow> ve_customer v \<noteq> cu_id c'))"

definition employee_busy :: "db \<Rightarrow> uid \<Rightarrow> instant \<Rightarrow> instant \<Rightarrow> bool" where
  "employee_busy s employee_id start end_time =
     list_ex (\<lambda>a. ap_employee a = employee_id \<and> ap_status a \<notin> set finished_appointment_statuses
       \<and> ap_start a < end_time \<and> start < ap_end a) (db_appointments s)"

definition pick_employee :: "db \<Rightarrow> employee \<Rightarrow> instant \<Rightarrow> instant \<Rightarrow> employee" where
  "pick_employee s acting start end_time =
     (let colleagues = sort_key em_id
            (filter (\<lambda>e. em_garage e = em_garage acting \<and> em_active e \<and> em_id e \<noteq> em_id acting) (db_employees s))
      in case find (\<lambda>e. em_active e \<and> \<not> employee_busy s (em_id e) start end_time) (acting # colleagues) of
           Some e \<Rightarrow> e
         | None \<Rightarrow> acting)"

primrec try_types ::
  "db \<Rightarrow> uid \<Rightarrow> uid option \<Rightarrow> uid option list \<Rightarrow> http_error + appointment_type option"
where
  "try_types s garage_id wanted [] = Inr None"
| "try_types s garage_id wanted (c # cs) =
     (case c of
        None \<Rightarrow> try_types s garage_id wanted cs
      | Some i \<Rightarrow>
          (case find (\<lambda>ty. ty_id ty = i \<and> ty_garage ty = garage_id) (db_types s) of
             Some ty \<Rightarrow> if ty_status ty = TYPE_ACTIVE then Inr (Some ty)
                        else if wanted = Some i then Inl (Abort 422 ''appointment_type_id'')
                        else try_types s garage_id wanted cs
           | None \<Rightarrow> if wanted = Some i then Inl (Abort 422 ''appointment_type_id'')
                     else try_types s garage_id wanted cs))"

definition first_active_type :: "db \<Rightarrow> uid \<Rightarrow> appointment_type option" where
  "first_active_type s garage_id =
     (case sort_key (\<lambda>ty. (ty_order ty, ty_name ty))
             (filter (\<lambda>ty. ty_garage ty = garage_id \<and> ty_status ty = TYPE_ACTIVE) (db_types s)) of
        [] \<Rightarrow> None | ty # _ \<Rightarrow> Some ty)"

definition resolve_appointment_type ::
  "db \<Rightarrow> uid \<Rightarrow> queue_entry \<Rightarrow> queue_settings \<Rightarrow> uid option \<Rightarrow> http_error + appointment_type"
where
  "resolve_appointment_type s garage_id e settings wanted =
     (case try_types s garage_id wanted [wanted, qe_type e, qs_default_type settings] of
        Inl err \<Rightarrow> Inl err
      | Inr (Some ty) \<Rightarrow> Inr ty
      | Inr None \<Rightarrow> (case first_active_type s garage_id of
            None \<Rightarrow> Inl (Abort 422 ''no_appointment_type'') | Some ty \<Rightarrow> Inr ty))"

text \<open>Who the appointment is recorded against: staff's choice, checked, or an automatic pick.\<close>

definition service_employee ::
  "db \<Rightarrow> employee \<Rightarrow> uid option \<Rightarrow> instant \<Rightarrow> instant \<Rightarrow> http_error + employee"
where
  "service_employee s acting employee_id start end_time =
     (case employee_id of
        None \<Rightarrow> Inr (pick_employee s acting start end_time)
      | Some i \<Rightarrow>
          (case find (\<lambda>e. em_id e = i \<and> em_garage e = em_garage acting) (db_employees s) of
             None \<Rightarrow> Inl (Abort 422 ''employee_id does not belong'')
           | Some e \<Rightarrow> if \<not> em_active e then Inl (Abort 422 ''employee deactivated'') else Inr e))"

definition walkin_contact :: "queue_entry \<Rightarrow> string option \<Rightarrow> contact" where
  "walkin_contact e registration =
     \<lparr>ct_first = qe_first e, ct_last = (case qe_last e of None \<Rightarrow> [] | Some l \<Rightarrow> l), ct_email = qe_email e,
      ct_phone = qe_phone e, ct_registration = registration\<rparr>"

definition walkin_appointment ::
  "db \<Rightarrow> uid \<Rightarrow> employee \<Rightarrow> uid \<Rightarrow> uid option \<Rightarrow> appointment_type \<Rightarrow> instant \<Rightarrow> instant \<Rightarrow> appointment"
where
  "walkin_appointment s garage_id employee customer_id vehicle_id ty start end_time =
     \<lparr>ap_id = fresh_id s, ap_garage = garage_id, ap_employee = em_id employee, ap_customer = customer_id,
      ap_vehicle = vehicle_id, ap_type = ty_id ty, ap_start = start, ap_end = end_time,
      ap_status = AP_IN_PROGRESS, ap_price = ty_base_price ty, ap_type_name = Some (ty_name ty),
      ap_imported_at = None, ap_completed_at = None, ap_add_ons = [], ap_discount = no_discount\<rparr>"

text \<open>The service, its length and the employee of a check-in, decided before anything is written.\<close>

definition service_plan ::
  "db \<Rightarrow> employee \<Rightarrow> queue_entry \<Rightarrow> queue_settings \<Rightarrow> uid option \<Rightarrow> uid option \<Rightarrow> instant
     \<Rightarrow> http_error + appointment_type \<times> int \<times> employee"
where
  "service_plan s acting e settings wanted_type wanted_employee now =
     (case resolve_appointment_type s (em_garage acting) e settings wanted_type of
        Inl err \<Rightarrow> Inl err
      | Inr ty \<Rightarrow>
          let minutes = (case (wanted_type, ty_duration ty) of
                           (Some _, Some d) \<Rightarrow> if d \<noteq> 0 then d else qe_minutes e
                         | _ \<Rightarrow> qe_minutes e)
          in (case service_employee s acting wanted_employee now (now + minutes * minute_us) of
                Inl err \<Rightarrow> Inl err
              | Inr employee \<Rightarrow> Inr (ty, minutes, employee)))"

definition in_service :: "queue_entry \<Rightarrow> appointment \<Rightarrow> int \<Rightarrow> instant \<Rightarrow> queue_entry" where
  "in_service e ap minutes now =
     e\<lparr>qe_status := Q_IN_SERVICE, qe_started_at := Some now,
       qe_called_at := (case qe_called_at e of None \<Rightarrow> Some now | Some t \<Rightarrow> Some t),
       qe_appointment := Some (ap_id ap), qe_type := Some (ap_type ap), qe_minutes := minutes\<rparr>"

definition check_in ::
  "db \<Rightarrow> uid \<Rightarrow> queue_entry \<Rightarrow> appointment_type \<Rightarrow> int \<Rightarrow> employee \<Rightarrow> instant \<Rightarrow> queue_entry outcome"
where
  "check_in s garage_id e ty minutes employee now =
     (let existing = find_customer s garage_id (qe_phone e);
          registration =
            (if registration_is_someone_elses s garage_id (qe_registration e) existing
             then None else qe_registration e)
      in (case resolve_customer_and_vehicle s garage_id (map_option cu_id existing)
                 (walkin_contact e registration) no_item of
            (Inl err, s') \<Rightarrow> (Inl err, s')
          | (Inr (customer_id, vehicle_id), s') \<Rightarrow>
              let ap = walkin_appointment s' garage_id employee customer_id vehicle_id ty
                         now (now + minutes * minute_us);
                  e' = in_service e ap minutes now
              in (Inr e', put_entry e' (insert_appointment ap s'))))"

definition start_service ::
  "db \<Rightarrow> employee \<Rightarrow> uid \<Rightarrow> uid option \<Rightarrow> uid option \<Rightarrow> instant \<Rightarrow> queue_entry outcome"
where
  "start_service s0 acting entry_id wanted_type wanted_employee now =
     (case entry_for_update s0 (em_garage acting) entry_id of
        None \<Rightarrow> (Inl (Abort 404 ''Queue entry not found''), s0)
      | Some e \<Rightarrow>
          if qe_status e \<noteq> Q_WAITING \<and> qe_status e \<noteq> Q_CALLED then (Inl (Abort 409 ''invalid_transition''), s0)
          else case get_queue_settings s0 (em_garage acting) of (settings, s) \<Rightarrow>
            (case service_plan s acting e settings wanted_type wanted_employee now of
               Inl err \<Rightarrow> (Inl err, s0)
             | Inr (ty, minutes, employee) \<Rightarrow>
                 (case check_in s (em_garage acting) e ty minutes employee now of
                    (Inl err, s') \<Rightarrow> (Inl err, s0)
                  | (Inr e', s') \<Rightarrow> (Inr e', s'))))"

definition complete_service :: "db \<Rightarrow> garage \<Rightarrow> uid \<Rightarrow> instant \<Rightarrow> queue_entry outcome" where
  "complete_service s g entry_id now =
     (case entry_for_update s (g_id g) entry_id of
        None \<Rightarrow> (Inl (Abort 404 ''Queue entry not found''), s)
      | Some e \<Rightarrow>
          if qe_status e \<noteq> Q_IN_SERVICE then (Inl (Abort 409 ''invalid_transition''), s)
          else
            let e' = end_entry e Q_DONE None now;
                s1 = put_entry e' s
            in (case Option.bind (qe_appointment e) (\<lambda>i. row_find ap_id i (db_appointments s)) of
                  None \<Rightarrow> (Inr e', s1)
                | Some ap \<Rightarrow>
                    if ap_status ap = AP_COMPLETED then (Inr e', s1)
                    else
                      let ap' = ap\<lparr>ap_status := AP_COMPLETED, ap_end := max now (ap_start ap + minute_us)\<rparr>
                      in (Inr e', emit (APPOINTMENT_COMPLETED (ap_id ap)) (put_appointment ap' s1))))"

definition mark_no_show :: "db \<Rightarrow> garage \<Rightarrow> uid \<Rightarrow> instant \<Rightarrow> queue_entry outcome" where
  "mark_no_show s g entry_id now =
     (case entry_for_update s (g_id g) entry_id of
        None \<Rightarrow> (Inl (Abort 404 ''Queue entry not found''), s)
      | Some e \<Rightarrow>
          if qe_status e \<noteq> Q_WAITING \<and> qe_status e \<noteq> Q_CALLED then (Inl (Abort 409 ''invalid_transition''), s)
          else let e' = end_entry e Q_NO_SHOW (Some END_STAFF_NO_SHOW) now in (Inr e', put_entry e' s))"

definition cancel_entry :: "db \<Rightarrow> queue_entry \<Rightarrow> bool \<Rightarrow> instant \<Rightarrow> queue_entry outcome" where
  "cancel_entry s e by_customer now =
     (if qe_status e \<noteq> Q_WAITING \<and> qe_status e \<noteq> Q_CALLED then (Inl (Abort 409 ''invalid_transition''), s)
      else let e' = end_entry e Q_CANCELLED
                      (Some (if by_customer then END_CUSTOMER_CANCELLED else END_STAFF_CANCELLED)) now
           in (Inr e', put_entry e' s))"

definition entry_by_token :: "db \<Rightarrow> uid \<Rightarrow> string \<Rightarrow> queue_entry option" where
  "entry_by_token s garage_id token =
     find (\<lambda>e. qe_garage e = garage_id \<and> qe_token e = token) (db_queue s)"

definition public_cancel :: "db \<Rightarrow> garage \<Rightarrow> string \<Rightarrow> instant \<Rightarrow> queue_entry outcome" where
  "public_cancel s g token now =
     (case entry_by_token s (g_id g) token of
        None \<Rightarrow> (Inl (Abort 404 ''place in the queue''), s)
      | Some e \<Rightarrow> cancel_entry s e True now)"

definition staff_cancel :: "db \<Rightarrow> garage \<Rightarrow> uid \<Rightarrow> instant \<Rightarrow> queue_entry outcome" where
  "staff_cancel s g entry_id now =
     (case entry_for_update s (g_id g) entry_id of
        None \<Rightarrow> (Inl (Abort 404 ''Queue entry not found''), s)
      | Some e \<Rightarrow> cancel_entry s e False now)"

subsection \<open>Reordering and settings\<close>

primrec offset_of :: "uid \<Rightarrow> uid list \<Rightarrow> int" where
  "offset_of i [] = 0"
| "offset_of i (j # js) = (if i = j then 0 else 1 + offset_of i js)"

definition reorder_waiting :: "db \<Rightarrow> garage \<Rightarrow> uid list \<Rightarrow> instant \<Rightarrow> unit outcome" where
  "reorder_waiting s g entry_ids now =
     (let today = local_day_for (g_zone g) now;
          in_line = (\<lambda>e. of_day (g_id g) today e \<and> is_waiting e);
          waiting = filter in_line (db_queue s)
      in if \<not> distinct entry_ids \<or> set entry_ids \<noteq> set (map qe_id waiting)
         then (Inl (Abort 409 ''stale_order''), s)
         else
           let base = (case map qe_sort waiting of [] \<Rightarrow> 0 | k # ks \<Rightarrow> foldl min k ks)
           in (Inr (), s\<lparr>db_queue := map (\<lambda>e. if in_line e
                  then e\<lparr>qe_sort := base + offset_of (qe_id e) entry_ids\<rparr> else e) (db_queue s)\<rparr>))"

definition put_settings :: "queue_settings \<Rightarrow> db \<Rightarrow> db" where
  "put_settings q s = s\<lparr>db_queue_settings := row_set qs_garage q (db_queue_settings s)\<rparr>"

definition set_open :: "db \<Rightarrow> garage \<Rightarrow> bool \<Rightarrow> db" where
  "set_open s0 g is_open =
     (case get_queue_settings s0 (g_id g) of (q, s) \<Rightarrow> put_settings (q\<lparr>qs_is_open := is_open\<rparr>) s)"

text \<open>
  The settings form: \<open>data\<close> is the effect of the \<open>setattr\<close> loop over the keys of the body. A refused
  body is rolled back, the fresh settings row included.
\<close>

definition save_queue_settings ::
  "db \<Rightarrow> garage \<Rightarrow> uid option \<Rightarrow> (queue_settings \<Rightarrow> queue_settings) \<Rightarrow> queue_settings outcome"
where
  "save_queue_settings s0 g default_type data =
     (case get_queue_settings s0 (g_id g) of (q, s) \<Rightarrow>
        if (case default_type of None \<Rightarrow> False
            | Some i \<Rightarrow> find (\<lambda>ty. ty_id ty = i \<and> ty_garage ty = g_id g) (db_types s) = None)
        then (Inl (Abort 422 ''default_appointment_type_id''), s0)
        else
          let q' = (data q)\<lparr>qs_garage := g_id g\<rparr>
          in if (qs_name_required q' \<and> \<not> qs_collect_name q') \<or> (qs_phone_required q' \<and> \<not> qs_collect_phone q')
                \<or> (qs_email_required q' \<and> \<not> qs_collect_email q')
                \<or> (qs_registration_required q' \<and> \<not> qs_collect_registration q')
             then (Inl (Abort 422 ''required field must be enabled''), s0)
             else if qs_average_manual q' \<and> (qs_manual_minutes q' = None \<or> qs_manual_minutes q' = Some 0)
             then (Inl (Abort 422 ''manual_average_minutes''), s0)
             else (Inr q', put_settings q' s))"

end
