(* ===== verification/Loyalty_Issuing.thy ===== *)
theory Loyalty_Issuing
  imports Walkin_Queue
begin

text \<open>
  Issuing loyalty rewards, \<open>app/loyalty/issuing.py\<close> and the settings route of
  \<open>app/loyalty/routes.py\<close>: which visit a completion is, the code it earns, the call routes make after
  completing an appointment, and the reconcile job that catches up what was missed. The random code
  texts are passed in: a list of draws per appointment. Emails are not modelled; UUIDs are ordered as
  the model's numbers where the code breaks ties by id.
\<close>

definition get_loyalty_settings :: "db \<Rightarrow> uid \<Rightarrow> loyalty_settings option" where
  "get_loyalty_settings s garage_id = find (\<lambda>l. ls_garage l = garage_id) (db_loyalty s)"

text \<open>Nulls first, then the completion time, the start and the id.\<close>

definition visit_key :: "appointment \<Rightarrow> (int \<times> int) \<times> int \<times> nat" where
  "visit_key a = ((case ap_completed_at a of None \<Rightarrow> (0, 0) | Some t \<Rightarrow> (1, t)), ap_start a, ap_id a)"

definition completed_visits :: "db \<Rightarrow> uid \<Rightarrow> uid \<Rightarrow> appointment list" where
  "completed_visits s customer_id garage_id =
     sort_key visit_key (filter (\<lambda>a. ap_customer a = customer_id \<and> ap_garage a = garage_id
                                  \<and> ap_status a = AP_COMPLETED) (db_appointments s))"

definition reward_exists :: "db \<Rightarrow> uid \<Rightarrow> int \<Rightarrow> bool" where
  "reward_exists s customer_id visit_count \<longleftrightarrow>
     list_ex (\<lambda>c. dc_customer c = Some customer_id \<and> dc_visit c = Some visit_count) (db_codes s)"

definition reward_code ::
  "loyalty_settings \<Rightarrow> uid \<Rightarrow> int \<Rightarrow> uid \<Rightarrow> instant \<Rightarrow> string \<Rightarrow> string \<Rightarrow> discount_code"
where
  "reward_code st customer_id visit_count appointment_id now w normalised =
     \<lparr>dc_id = 0, dc_garage = ls_garage st, dc_code = w, dc_normalized = normalised,
      dc_source = SOURCE_LOYALTY, dc_type = ls_discount_type st, dc_value = ls_discount_value st,
      dc_status = CODE_ACTIVE, dc_customer = Some customer_id, dc_valid_from = Some now,
      dc_expires = Some (now + ls_expiry_days st * day_us), dc_max_uses = Some 1,
      dc_max_per_customer = Some 1, dc_visit = Some visit_count, dc_for_appointment = Some appointment_id\<rparr>"

definition issue ::
  "db \<Rightarrow> loyalty_settings \<Rightarrow> uid \<Rightarrow> int \<Rightarrow> appointment \<Rightarrow> instant \<Rightarrow> nat list list \<Rightarrow> code_creation \<times> db"
where
  "issue s st customer_id visit_count ap now draws =
     (if reward_exists s customer_id visit_count then (Code_none, s)
      else create_unique_code s (ls_garage st) (reward_code st customer_id visit_count (ap_id ap) now)
             LOYALTY_PREFIX draws)"

text \<open>\<open>next((i + 1 for ...), None)\<close>: the 1-based position of the appointment among the visits.\<close>

fun position_of :: "uid \<Rightarrow> appointment list \<Rightarrow> int option" where
  "position_of i [] = None"
| "position_of i (a # as) = (if ap_id a = i then Some 1 else map_option (\<lambda>n. n + 1) (position_of i as))"

definition issue_reward_for_completion ::
  "db \<Rightarrow> appointment \<Rightarrow> instant \<Rightarrow> nat list list \<Rightarrow> (string + discount_code option) \<times> db"
where
  "issue_reward_for_completion s ap now draws =
     (if ap_status ap \<noteq> AP_COMPLETED \<or> ap_completed_at ap = None then (Inr None, s)
      else case get_loyalty_settings s (ap_garage ap) of
        None \<Rightarrow> (Inr None, s)
      | Some st \<Rightarrow>
          if \<not> ls_enabled st then (Inr None, s)
          else case find (\<lambda>c. cu_id c = ap_customer ap \<and> cu_garage c = ap_garage ap) (db_customers s) of
            None \<Rightarrow> (Inr None, s)
          | Some cu \<Rightarrow>
              (case position_of (ap_id ap) (completed_visits s (cu_id cu) (ap_garage ap)) of
                 None \<Rightarrow> (Inr None, s)
               | Some n \<Rightarrow>
                   if n mod ls_visits_required st \<noteq> 0 then (Inr None, s)
                   else case issue s st (cu_id cu) n ap now draws of
                     (Code_created c, s') \<Rightarrow> (Inr (Some c), s')
                   | (Code_none, s') \<Rightarrow> (Inr None, s')
                   | (Code_runtime_error, s') \<Rightarrow> (Inl ''RuntimeError'', s)))"

text \<open>The guarded call of the routes: an exception is rolled back and swallowed.\<close>

definition issue_reward_safely :: "db \<Rightarrow> appointment \<Rightarrow> instant \<Rightarrow> nat list list \<Rightarrow> db" where
  "issue_reward_safely s ap now draws =
     (case issue_reward_for_completion s ap now draws of (Inl err, s') \<Rightarrow> s | (Inr c, s') \<Rightarrow> s')"

subsection \<open>Reconciling\<close>

definition due_visits ::
  "db \<Rightarrow> loyalty_settings \<Rightarrow> uid \<Rightarrow> instant \<Rightarrow> (nat \<times> appointment) list"
where
  "due_visits s st customer_id window_start =
     filter (\<lambda>(n, a). int n mod ls_visits_required st = 0
               \<and> (case ap_completed_at a of None \<Rightarrow> False | Some t \<Rightarrow> window_start \<le> t))
       (enumerate 1 (completed_visits s customer_id (ls_garage st)))"

fun issue_all ::
  "loyalty_settings \<Rightarrow> uid \<Rightarrow> instant \<Rightarrow> (uid \<Rightarrow> nat list list) \<Rightarrow> (nat \<times> appointment) list \<Rightarrow> db
     \<Rightarrow> (discount_code list \<times> db) option"
where
  "issue_all st customer_id now draws [] s = Some ([], s)"
| "issue_all st customer_id now draws ((n, a) # due) s =
     (case issue s st customer_id (int n) a now (draws (ap_id a)) of
        (Code_created c, s') \<Rightarrow> map_option (\<lambda>(cs, s''). (c # cs, s'')) (issue_all st customer_id now draws due s')
      | (Code_none, s') \<Rightarrow> issue_all st customer_id now draws due s'
      | (Code_runtime_error, s') \<Rightarrow> None)"

text \<open>One commit per customer: an exception leaves what was committed before it.\<close>

fun reconcile_customers ::
  "loyalty_settings \<Rightarrow> instant \<Rightarrow> instant \<Rightarrow> (uid \<Rightarrow> nat list list) \<Rightarrow> uid list \<Rightarrow> db
     \<Rightarrow> (string + discount_code list) \<times> db"
where
  "reconcile_customers st window_start now draws [] s = (Inr [], s)"
| "reconcile_customers st window_start now draws (customer_id # ids) s =
     (case row_find cu_id customer_id (db_customers s) of
        None \<Rightarrow> reconcile_customers st window_start now draws ids s
      | Some cu \<Rightarrow>
          (case issue_all st customer_id now draws (due_visits s st customer_id window_start) s of
             None \<Rightarrow> (Inl ''RuntimeError'', s)
           | Some (cs, s') \<Rightarrow>
               (case reconcile_customers st window_start now draws ids s' of
                  (Inl err, s'') \<Rightarrow> (Inl err, s'')
                | (Inr tail_codes, s'') \<Rightarrow> (Inr (cs @ tail_codes), s''))))"

definition reconcile_window :: "loyalty_settings \<Rightarrow> instant \<Rightarrow> instant" where
  "reconcile_window st since = max since (case ls_enabled_at st of None \<Rightarrow> since | Some t \<Rightarrow> t)"

definition recent_customers :: "db \<Rightarrow> loyalty_settings \<Rightarrow> instant \<Rightarrow> uid list" where
  "recent_customers s st window_start =
     remdups (map ap_customer (filter (\<lambda>a. ap_garage a = ls_garage st \<and> ap_status a = AP_COMPLETED
       \<and> (case ap_completed_at a of None \<Rightarrow> False | Some t \<Rightarrow> window_start \<le> t)) (db_appointments s)))"

fun reconcile_businesses ::
  "instant \<Rightarrow> instant \<Rightarrow> (uid \<Rightarrow> nat list list) \<Rightarrow> loyalty_settings list \<Rightarrow> db
     \<Rightarrow> (string + discount_code list) \<times> db"
where
  "reconcile_businesses since now draws [] s = (Inr [], s)"
| "reconcile_businesses since now draws (st # sts) s =
     (case reconcile_customers st (reconcile_window st since) now draws
             (recent_customers s st (reconcile_window st since)) s of
        (Inl err, s') \<Rightarrow> (Inl err, s')
      | (Inr cs, s') \<Rightarrow>
          (case reconcile_businesses since now draws sts s' of
             (Inl err, s'') \<Rightarrow> (Inl err, s'')
           | (Inr tail_codes, s'') \<Rightarrow> (Inr (cs @ tail_codes), s'')))"

definition reconcile ::
  "db \<Rightarrow> int \<Rightarrow> instant \<Rightarrow> (uid \<Rightarrow> nat list list) \<Rightarrow> (string + discount_code list) \<times> db"
where
  "reconcile s days now draws =
     reconcile_businesses (now - days * day_us) now draws (filter ls_enabled (db_loyalty s)) s"

record loyalty_progress =
  lp_enabled :: bool
  lp_visits_required :: "int option"
  lp_completed :: int
  lp_to_next :: "int option"

definition loyalty_summary :: "db \<Rightarrow> customer \<Rightarrow> loyalty_progress" where
  "loyalty_summary s cu =
     (let st = get_loyalty_settings s (cu_garage cu);
          visits = int (length (completed_visits s (cu_id cu) (cu_garage cu)))
      in \<lparr>lp_enabled = (case st of None \<Rightarrow> False | Some l \<Rightarrow> ls_enabled l),
          lp_visits_required = map_option ls_visits_required st, lp_completed = visits,
          lp_to_next = (case st of None \<Rightarrow> None
            | Some l \<Rightarrow> if ls_enabled l then Some (ls_visits_required l - visits mod ls_visits_required l)
                        else None)\<rparr>)"

definition save_loyalty_settings ::
  "db \<Rightarrow> uid \<Rightarrow> bool \<Rightarrow> int \<Rightarrow> string \<Rightarrow> int \<Rightarrow> int \<Rightarrow> instant \<Rightarrow> loyalty_settings outcome"
where
  "save_loyalty_settings s garage_id enabled visits_required discount_type discount_value expiry_days now =
     (case validate_loyalty_settings visits_required (Some discount_type) (Some (discount_value, 2)) expiry_days of
        Inl _ \<Rightarrow> (Inl (Abort 422 ''discount_value''), s)
      | Inr _ \<Rightarrow>
          let old = get_loyalty_settings s garage_id;
              was_on = (case old of None \<Rightarrow> False | Some l \<Rightarrow> ls_enabled l);
              row = \<lparr>ls_garage = garage_id, ls_enabled = enabled, ls_visits_required = visits_required,
                     ls_discount_type = discount_type, ls_discount_value = discount_value,
                     ls_expiry_days = expiry_days,
                     ls_enabled_at = (if enabled \<and> \<not> was_on then Some now
                                      else Option.bind old ls_enabled_at)\<rparr>
          in (Inr row, s\<lparr>db_loyalty := (if old = None then db_loyalty s @ [row]
                                       else row_set ls_garage row (db_loyalty s))\<rparr>))"

subsection \<open>Changing a code\<close>

text \<open>
  \<open>DiscountCodeResource.patch\<close>: a field that is \<open>None\<close> is absent from the request, \<open>Some None\<close> is a null in
  it. An abort leaves the row as it was. What a code is worth cannot be changed; a limit may be lowered
  below the uses there are, which only stops further ones.
\<close>

record code_change =
  cg_status :: "code_stored_status option"
  cg_valid_from :: "instant option option"
  cg_expires :: "instant option option"
  cg_max_uses :: "int option option"
  cg_max_per_customer :: "int option option"

definition or_kept :: "'a option \<Rightarrow> 'a \<Rightarrow> 'a" where
  "or_kept change old = (case change of None \<Rightarrow> old | Some v \<Rightarrow> v)"

definition changed_code :: "code_change \<Rightarrow> discount_code \<Rightarrow> discount_code" where
  "changed_code cg c =
     c\<lparr>dc_status := or_kept (cg_status cg) (dc_status c), dc_valid_from := or_kept (cg_valid_from cg) (dc_valid_from c),
       dc_expires := or_kept (cg_expires cg) (dc_expires c), dc_max_uses := or_kept (cg_max_uses cg) (dc_max_uses c),
       dc_max_per_customer := or_kept (cg_max_per_customer cg) (dc_max_per_customer c)\<rparr>"

definition update_code :: "db \<Rightarrow> uid \<Rightarrow> uid \<Rightarrow> code_change \<Rightarrow> discount_code outcome" where
  "update_code s garage_id i cg =
     (case find (\<lambda>c. dc_id c = i \<and> dc_garage c = garage_id) (db_codes s) of
        None \<Rightarrow> (Inl (Abort 404 ''Discount code not found.''), s)
      | Some c \<Rightarrow>
          if dc_source c = SOURCE_LOYALTY \<and> (cg_max_uses cg \<noteq> None \<or> cg_max_per_customer cg \<noteq> None)
          then (Inl (Abort 422 ''Loyalty codes are always single-use.''), s)
          else
            let c' = changed_code cg c
            in case (dc_valid_from c', dc_expires c') of
                 (Some from_time, Some until) \<Rightarrow>
                   if until \<le> from_time then (Inl (Abort 422 ''expires_at must be after valid_from.''), s)
                   else (Inr c', s\<lparr>db_codes := row_set dc_id c' (db_codes s)\<rparr>)
               | _ \<Rightarrow> (Inr c', s\<lparr>db_codes := row_set dc_id c' (db_codes s)\<rparr>))"

text \<open>Neither another business's code nor a code's text, worth or owner is ever changed, and a reward stays single-use.\<close>

lemma update_code_effect:
  assumes "update_code s garage_id i cg = (Inr c', s')"
  shows "\<exists>c \<in> set (db_codes s). dc_id c = i \<and> dc_garage c = garage_id \<and> c' = changed_code cg c
    \<and> db_codes s' = row_set dc_id c' (db_codes s)
    \<and> dc_normalized c' = dc_normalized c \<and> dc_value c' = dc_value c \<and> dc_customer c' = dc_customer c
    \<and> (dc_source c = SOURCE_LOYALTY \<longrightarrow> dc_max_uses c' = dc_max_uses c \<and> dc_max_per_customer c' = dc_max_per_customer c)
    \<and> (\<forall>a b. dc_valid_from c' = Some a \<longrightarrow> dc_expires c' = Some b \<longrightarrow> a < b)"
proof -
  from assms obtain c where c: "find (\<lambda>c. dc_id c = i \<and> dc_garage c = garage_id) (db_codes s) = Some c"
    by (cases "find (\<lambda>c. dc_id c = i \<and> dc_garage c = garage_id) (db_codes s)") (simp_all add: update_code_def)
  with assms have done_so: "c' = changed_code cg c" "s' = s\<lparr>db_codes := row_set dc_id c' (db_codes s)\<rparr>"
      "\<not> (dc_source c = SOURCE_LOYALTY \<and> (cg_max_uses cg \<noteq> None \<or> cg_max_per_customer cg \<noteq> None))"
      "\<forall>a b. dc_valid_from c' = Some a \<longrightarrow> dc_expires c' = Some b \<longrightarrow> a < b"
    by (auto simp: update_code_def Let_def split: if_splits option.splits)
  moreover from done_so(1,3) have "dc_normalized c' = dc_normalized c" "dc_value c' = dc_value c" "dc_customer c' = dc_customer c"
    "dc_source c = SOURCE_LOYALTY \<longrightarrow> dc_max_uses c' = dc_max_uses c \<and> dc_max_per_customer c' = dc_max_per_customer c"
    by (simp_all add: changed_code_def or_kept_def)
  ultimately show ?thesis using find_SomeD [OF c] by (intro bexI [of _ c]) simp_all
qed

subsection \<open>What issuing leaves behind\<close>

text \<open>Issuing only adds codes.\<close>

definition only_adds_codes :: "db \<Rightarrow> db \<Rightarrow> bool" where
  "only_adds_codes s s' \<longleftrightarrow> set (db_codes s) \<subseteq> set (db_codes s') \<and> db_appointments s' = db_appointments s
     \<and> db_customers s' = db_customers s \<and> db_loyalty s' = db_loyalty s \<and> db_next s \<le> db_next s'
     \<and> db_requests s' = db_requests s \<and> db_statuses s' = db_statuses s \<and> db_types s' = db_types s
     \<and> db_add_ons s' = db_add_ons s \<and> db_sections s' = db_sections s \<and> db_garages s' = db_garages s
     \<and> db_employees s' = db_employees s \<and> db_windows s' = db_windows s"

lemma only_adds_codes_refl [simp]: "only_adds_codes s s"
  by (simp add: only_adds_codes_def)

lemma only_adds_codes_trans: "only_adds_codes a b \<Longrightarrow> only_adds_codes b c \<Longrightarrow> only_adds_codes a c"
  by (auto simp: only_adds_codes_def)

lemma reward_exists_mono: "only_adds_codes s s' \<Longrightarrow> reward_exists s i n \<Longrightarrow> reward_exists s' i n"
  by (auto simp: only_adds_codes_def reward_exists_def list_ex_iff)

lemma insert_codeD:
  assumes "insert_code s row = Some (c, s')"
  shows "c = row\<lparr>dc_id := db_next s\<rparr>" "db_codes s' = db_codes s @ [c]" "only_adds_codes s s'"
    "\<not> code_text_exists s (dc_garage c) (dc_normalized c)" "db_redemptions s' = db_redemptions s"
  using assms by (auto simp: insert_code_def Let_def only_adds_codes_def fresh_id_def split: if_splits)

text \<open>What an attempt can end in, for the reward of one visit.\<close>

lemma create_attempts_reward:
  assumes "create_attempts s gid (reward_code st i n a now) texts = (r, s')" "ls_garage st = gid"
  shows "only_adds_codes s s' \<and> db_redemptions s' = db_redemptions s
    \<and> (case r of Code_created c \<Rightarrow> (\<exists>w \<in> set texts.
             insert_code s (reward_code st i n a now w (normalize_code (Some w))) = Some (c, s'))
         | Code_none \<Rightarrow> s' = s \<and> reward_exists s i n
         | Code_runtime_error \<Rightarrow> s' = s)"
  using assms(1)
proof (induction texts)
  case (Cons w texts)
  let ?row = "reward_code st i n a now w (normalize_code (Some w))"
  show ?case
  proof (cases "code_text_exists s gid (normalize_code (Some w))")
    case True
    with Cons show ?thesis by (auto split: code_creation.splits)
  next
    case False
    show ?thesis
    proof (cases "insert_code s ?row")
      case None
      with False assms(2) have "milestone_exists s (Some i) (Some n)"
        by (auto simp: insert_code_def reward_code_def Let_def split: if_splits)
      then have "reward_exists s i n" by (simp add: milestone_exists_def reward_exists_def)
      with None False Cons.prems show ?thesis by (auto simp: Let_def)
    next
      case (Some cs)
      with False Cons.prems insert_codeD [of s ?row] show ?thesis
        by (cases cs) (auto simp: Let_def)
    qed
  qed
qed simp

lemma insert_reward_exists:
  "insert_code s (reward_code st i n a now w norm) = Some (c, s') \<Longrightarrow> reward_exists s' i n"
  using insert_codeD(1,2) [of s "reward_code st i n a now w norm" c s']
  by (simp add: reward_exists_def reward_code_def)

lemma issue_result:
  assumes "issue s st i n a now draws = (r, s')"
  shows "only_adds_codes s s' \<and> (r \<noteq> Code_runtime_error \<longrightarrow> reward_exists s' i n)"
proof (cases "reward_exists s i n")
  case True
  with assms show ?thesis by (simp add: issue_def)
next
  case False
  then have "create_attempts s (ls_garage st) (reward_code st i n (ap_id a) now)
      (map (generate_code LOYALTY_PREFIX) (take 5 draws)) = (r, s')"
    using assms by (simp add: issue_def create_unique_code_def)
  from create_attempts_reward [OF this refl] show ?thesis
    by (cases r) (auto dest: insert_reward_exists)
qed

lemma issue_again: "reward_exists s i n \<Longrightarrow> issue s st i n a now draws = (Code_none, s)"
  by (simp add: issue_def)

lemma issue_all_result:
  "issue_all st i now draws due s = Some (cs, s') \<Longrightarrow>
    only_adds_codes s s' \<and> (\<forall>(n, a) \<in> set due. reward_exists s' i (int n))"
proof (induction due arbitrary: s cs)
  case (Cons na due)
  obtain n a where na: "na = (n, a)" by (cases na)
  obtain r s1 where is1: "issue s st i (int n) a now (draws (ap_id a)) = (r, s1)" by fastforce
  with Cons.prems na have r: "r \<noteq> Code_runtime_error" by auto
  from is1 Cons.prems na r obtain cs' where rest: "issue_all st i now draws due s1 = Some (cs', s')"
    by (cases r) auto
  from issue_result [OF is1] r have "only_adds_codes s s1" "reward_exists s1 i (int n)" by simp_all
  with Cons.IH [OF rest] na show ?case
    by (auto intro: only_adds_codes_trans reward_exists_mono)
qed simp

lemma issue_all_again:
  "\<forall>(n, a) \<in> set due. reward_exists s i (int n) \<Longrightarrow> issue_all st i now draws due s = Some ([], s)"
  by (induction due) (auto simp: issue_again)

lemma due_visits_cong: "only_adds_codes s s' \<Longrightarrow> due_visits s' st i w = due_visits s st i w"
  by (simp add: due_visits_def completed_visits_def only_adds_codes_def)

lemma recent_customers_cong: "only_adds_codes s s' \<Longrightarrow> recent_customers s' st w = recent_customers s st w"
  by (simp add: recent_customers_def only_adds_codes_def)

definition all_rewarded :: "db \<Rightarrow> loyalty_settings \<Rightarrow> instant \<Rightarrow> uid list \<Rightarrow> bool" where
  "all_rewarded s st w ids \<longleftrightarrow> (\<forall>i \<in> set ids. row_find cu_id i (db_customers s) \<noteq> None \<longrightarrow>
     (\<forall>(n, a) \<in> set (due_visits s st i w). reward_exists s i (int n)))"

lemma all_rewarded_mono:
  "only_adds_codes s s' \<Longrightarrow> all_rewarded s st w ids \<Longrightarrow> all_rewarded s' st w ids"
  unfolding all_rewarded_def using due_visits_cong [of s s' st _ w]
  by (fastforce simp: only_adds_codes_def reward_exists_def list_ex_iff)

lemma reconcile_customers_result:
  "reconcile_customers st w now draws ids s = (Inr cs, s') \<Longrightarrow> only_adds_codes s s' \<and> all_rewarded s' st w ids"
proof (induction ids arbitrary: s cs)
  case (Cons i ids)
  show ?case
  proof (cases "row_find cu_id i (db_customers s)")
    case None
    with Cons.prems Cons.IH [of s cs] show ?thesis by (auto simp: all_rewarded_def only_adds_codes_def)
  next
    case (Some cu)
    obtain cs1 s1 where all: "issue_all st i now draws (due_visits s st i w) s = Some (cs1, s1)"
      using Cons.prems Some by (auto split: option.splits)
    obtain cs2 where rest: "reconcile_customers st w now draws ids s1 = (Inr cs2, s')"
      using Cons.prems Some all by (auto split: prod.splits sum.splits)
    note one = issue_all_result [OF all] and more = Cons.IH [OF rest]
    have grow: "only_adds_codes s s1" "only_adds_codes s1 s'" "only_adds_codes s s'"
      using one more by (auto intro: only_adds_codes_trans)
    have "\<forall>(n, a) \<in> set (due_visits s' st i w). reward_exists s' i (int n)"
      unfolding due_visits_cong [OF grow(3)] using one reward_exists_mono [OF grow(2)] by auto
    with grow more show ?thesis by (simp add: all_rewarded_def)
  qed
qed (simp add: all_rewarded_def)

lemma reconcile_customers_again:
  "all_rewarded s st w ids \<Longrightarrow> reconcile_customers st w now draws ids s = (Inr [], s)"
  by (induction ids) (auto simp: all_rewarded_def issue_all_again split: option.split)

lemma reconcile_businesses_result:
  "reconcile_businesses since now draws sts s = (Inr cs, s') \<Longrightarrow> only_adds_codes s s'
    \<and> (\<forall>st \<in> set sts. all_rewarded s' st (reconcile_window st since)
         (recent_customers s' st (reconcile_window st since)))"
proof (induction sts arbitrary: s cs)
  case (Cons st sts)
  let ?w = "reconcile_window st since"
  obtain cs1 s1 where one: "reconcile_customers st ?w now draws (recent_customers s st ?w) s = (Inr cs1, s1)"
    using Cons.prems by (auto split: prod.splits sum.splits)
  obtain cs2 where rest: "reconcile_businesses since now draws sts s1 = (Inr cs2, s')"
    using Cons.prems one by (auto split: prod.splits sum.splits)
  note a = reconcile_customers_result [OF one] and b = Cons.IH [OF rest]
  have grow: "only_adds_codes s1 s'" "only_adds_codes s s'" using a b by (auto intro: only_adds_codes_trans)
  have "all_rewarded s' st ?w (recent_customers s' st ?w)"
    unfolding recent_customers_cong [OF grow(2)] using a all_rewarded_mono [OF grow(1)] by blast
  with b grow(2) show ?case by simp
qed simp

lemma reconcile_businesses_again:
  "\<forall>st \<in> set sts. all_rewarded s st (reconcile_window st since) (recent_customers s st (reconcile_window st since))
    \<Longrightarrow> reconcile_businesses since now draws sts s = (Inr [], s)"
  by (induction sts) (auto simp: reconcile_customers_again)

lemma due_is_recent:
  assumes "(n, a) \<in> set (due_visits s st i w)"
  shows "i \<in> set (recent_customers s st w)"
proof -
  from assms have a: "a \<in> set (completed_visits s i (ls_garage st))"
    "case ap_completed_at a of None \<Rightarrow> False | Some t \<Rightarrow> w \<le> t"
    by (auto simp: due_visits_def enumerate_eq_zip simp del: One_nat_def dest: set_zip_rightD)
  then show ?thesis by (auto simp: completed_visits_def recent_customers_def)
qed

subsection \<open>A reward is a usable code\<close>

lemma find_upper_char_prefix: "is_valid_code (normalize_code (Some (generate_code LOYALTY_PREFIX d)))"
  if "length d = 8"
proof -
  have alpha: "code_char c \<and> c \<noteq> CHR ''-'' \<and> \<not> is_space c \<and> upper_char c = c" if "c \<in> set CODE_ALPHABET" for c
  proof -
    have "\<forall>c \<in> set CODE_ALPHABET. code_char c \<and> c \<noteq> CHR ''-'' \<and> \<not> is_space c \<and> upper_char c = c"
      by (simp add: CODE_ALPHABET_def code_char_def text_eval)
    with that show ?thesis by blast
  qed
  let ?cs = "map (\<lambda>i. CODE_ALPHABET ! (i mod 32)) (take 8 d)"
  have "length CODE_ALPHABET = 32" by (simp add: CODE_ALPHABET_def)
  then have cs: "set ?cs \<subseteq> set CODE_ALPHABET" by auto
  with alpha have "filter (\<lambda>c. \<not> (is_space c \<or> c = CHR ''-'')) ?cs = ?cs"
    by (intro filter_True) blast
  moreover have "map upper_char ?cs = ?cs" using cs alpha by (intro map_idI) blast
  ultimately have norm: "normalize_code (Some (generate_code LOYALTY_PREFIX d)) = ''LOYAL'' @ ?cs"
    by (simp add: normalize_code_def generate_code_def LOYALTY_PREFIX_def text_eval)
  have "list_all code_char (''LOYAL'' @ ?cs)" using cs alpha by (auto simp: list_all_iff code_char_def text_eval)
  moreover have "last (''LOYAL'' @ ?cs) \<noteq> CHR 0x0A"
  proof -
    have "?cs \<noteq> []" using that by auto
    then have "last (''LOYAL'' @ ?cs) \<in> set CODE_ALPHABET" using cs last_in_set [of ?cs] by (simp add: subset_iff)
    then show ?thesis by (auto simp: CODE_ALPHABET_def)
  qed
  ultimately show ?thesis using that unfolding norm by (simp add: is_valid_code_def Let_def)
qed

lemma issue_reward_created:
  assumes "issue_reward_for_completion s ap now draws = (Inr (Some c), s')"
  obtains st n w where "get_loyalty_settings s (ap_garage ap) = Some st" "w \<in> set (map (generate_code LOYALTY_PREFIX) draws)"
    "insert_code s (reward_code st (ap_customer ap) n (ap_id ap) now w (normalize_code (Some w))) = Some (c, s')"
    "ls_garage st = ap_garage ap"
proof -
  obtain st cu n where st: "get_loyalty_settings s (ap_garage ap) = Some st"
    and cu: "find (\<lambda>c. cu_id c = ap_customer ap \<and> cu_garage c = ap_garage ap) (db_customers s) = Some cu"
    and iss: "issue s st (cu_id cu) n ap now draws = (Code_created c, s')"
    using assms unfolding issue_reward_for_completion_def
    by (auto split: if_splits option.splits prod.splits code_creation.splits)
  from find_SomeD [OF cu] have id: "cu_id cu = ap_customer ap" by simp
  from st have g: "ls_garage st = ap_garage ap" by (auto simp: get_loyalty_settings_def dest: find_SomeD)
  from iss have "create_attempts s (ls_garage st) (reward_code st (ap_customer ap) n (ap_id ap) now)
      (map (generate_code LOYALTY_PREFIX) (take 5 draws)) = (Code_created c, s')"
    by (simp add: issue_def create_unique_code_def id split: if_splits)
  from create_attempts_reward [OF this refl] obtain w where
    "w \<in> set (map (generate_code LOYALTY_PREFIX) (take 5 draws))"
    "insert_code s (reward_code st (ap_customer ap) n (ap_id ap) now w (normalize_code (Some w))) = Some (c, s')"
    by auto
  with st g that [of st w n] show thesis by (auto dest: in_set_takeD)
qed

subsection \<open>A worked example\<close>

text \<open>Every visit earns ten per cent off the next one, for thirty days; Ann has had her first.\<close>

definition every_visit :: loyalty_settings where
  "every_visit = \<lparr>ls_garage = 2, ls_enabled = True, ls_visits_required = 1, ls_discount_type = ''PERCENTAGE'',
     ls_discount_value = 1000, ls_expiry_days = 30, ls_enabled_at = Some 0\<rparr>"

definition regular_customer :: customer where
  "regular_customer = \<lparr>cu_id = 3, cu_garage = 2, cu_first = ''Ann'', cu_last = ''Lee'', cu_email = None,
     cu_phone = None, cu_active = True\<rparr>"

definition first_visit :: appointment where
  "first_visit = \<lparr>ap_id = 5, ap_garage = 2, ap_employee = 7, ap_customer = 3, ap_vehicle = None, ap_type = 1,
     ap_start = 0, ap_end = 50, ap_status = AP_COMPLETED, ap_price = None, ap_type_name = None,
     ap_imported_at = None, ap_completed_at = Some 50, ap_add_ons = [], ap_discount = no_discount\<rparr>"

definition loyal_shop :: db where
  "loyal_shop = demo_shop\<lparr>db_codes := [], db_loyalty := [every_visit], db_customers := [regular_customer],
     db_appointments := [first_visit], db_next := 9\<rparr>"

lemmas loyal_demo = every_visit_def regular_customer_def first_visit_def loyal_shop_def demo_shop_def

lemma loyal_visits: "completed_visits loyal_shop 3 2 = [first_visit]"
  by (simp add: completed_visits_def loyal_demo)

definition lucky :: "nat list" where
  "lucky = [0, 1, 2, 3, 4, 5, 6, 7]"

lemma loyal_attempt:
  "create_unique_code loyal_shop 2 (reward_code every_visit 3 1 5 now) LOYALTY_PREFIX [lucky]
    = (Code_created ((reward_code every_visit 3 1 5 now ''LOYAL-ABCDEFGH'' ''LOYALABCDEFGH'')\<lparr>dc_id := 9\<rparr>),
       loyal_shop\<lparr>db_codes := [(reward_code every_visit 3 1 5 now ''LOYAL-ABCDEFGH'' ''LOYALABCDEFGH'')\<lparr>dc_id := 9\<rparr>],
         db_next := 10\<rparr>)"
proof -
  have w: "generate_code LOYALTY_PREFIX lucky = ''LOYAL-ABCDEFGH''"
    by (simp add: generate_code_def LOYALTY_PREFIX_def CODE_ALPHABET_def lucky_def)
  have n: "normalize_code (Some ''LOYAL-ABCDEFGH'') = ''LOYALABCDEFGH''"
    by (simp add: normalize_code_def text_eval)
  show ?thesis
    by (simp add: create_unique_code_def w n Let_def insert_code_def code_text_exists_def milestone_exists_def
        fresh_id_def reward_code_def) (simp add: loyal_demo)
qed

lemma loyal_issue:
  "\<exists>c s'. issue_reward_for_completion loyal_shop first_visit 60 [lucky] = (Inr (Some c), s')"
proof -
  have "issue loyal_shop every_visit 3 1 first_visit 60 [lucky]
      = create_unique_code loyal_shop 2 (reward_code every_visit 3 1 5 60) LOYALTY_PREFIX [lucky]"
    by (simp add: issue_def reward_exists_def loyal_demo)
  moreover have "get_loyalty_settings loyal_shop 2 = Some every_visit"
    "find (\<lambda>c. cu_id c = 3 \<and> cu_garage c = 2) (db_customers loyal_shop) = Some regular_customer"
    by (simp_all add: get_loyalty_settings_def loyal_demo)
  moreover have "ap_status first_visit = AP_COMPLETED" "ap_completed_at first_visit = Some 50" "ap_garage first_visit = 2"
    "ap_customer first_visit = 3" "ap_id first_visit = 5" "cu_id regular_customer = 3" "ls_enabled every_visit"
    "ls_visits_required every_visit = 1"
    by (simp_all add: loyal_demo)
  ultimately show ?thesis
    by (simp add: issue_reward_for_completion_def loyal_visits loyal_attempt)
qed

subsection \<open>Properties\<close>

text \<open>
  A loyalty reward works, for its owner only: the code a completion earned is accepted at the
  owner's next checkout with a positive total until it expires, and is refused to everybody else
  with the reason that it is another customer's.
\<close>

theorem issued_reward_is_usable:
  assumes "issue_reward_for_completion s ap now draws = (Inr (Some c), s')" "ids_ok s"
    "\<And>d. d \<in> set draws \<Longrightarrow> length d = 8"
    "get_loyalty_settings s (ap_garage ap) = Some st" "g_id g = ap_garage ap" "0 < order_total"
    "now \<le> t" "t < now + ls_expiry_days st * day_us" "cu_id owner = ap_customer ap"
  shows "(\<exists>res. fst (evaluate_code s' g (Some (dc_code c)) (Some owner) (Some order_total) [] t) = Inr res \<and> dr_code res = c)
    \<and> (cu_id other \<noteq> ap_customer ap \<longrightarrow>
         fst (evaluate_code s' g (Some (dc_code c)) (Some other) (Some order_total) [] t) = Inl D_WRONG_CUSTOMER)"
proof -
  obtain st' n w where st': "get_loyalty_settings s (ap_garage ap) = Some st'"
    and tx: "w \<in> set (map (generate_code LOYALTY_PREFIX) draws)"
    and ins: "insert_code s (reward_code st' (ap_customer ap) n (ap_id ap) now w (normalize_code (Some w)))
      = Some (c, s')" and g: "ls_garage st' = ap_garage ap"
    using assms(1) by (rule issue_reward_created)
  have eq: "st' = st" using st' assms(4) by simp
  have valid: "is_valid_code (normalize_code (Some w))"
    using tx assms(3) find_upper_char_prefix by auto
  have c: "c = (reward_code st (ap_customer ap) n (ap_id ap) now w (normalize_code (Some w)))\<lparr>dc_id := db_next s\<rparr>"
    using insert_codeD(1) [OF ins] eq by simp
  have codetext: "dc_code c = w" by (simp add: c reward_code_def)
  have found: "find_code s' (g_id g) (Some w) = Some c"
    using find_code_insert [OF ins, of "Some w" "g_id g"] valid assms(5) g by (simp add: c reward_code_def eq)
  have none: "active_uses (release_stale_redemptions s' c t) (dc_id c) [] = []"
    using assms(2) insert_codeD(5) [OF ins]
    by (auto simp: active_uses_def release_stale_redemptions_def release_where_def filter_empty_conv ids_ok_def c)
  have act: "dc_status c = CODE_ACTIVE" "\<not> not_yet_valid c t" "\<not> code_expired c t" "dc_max_uses c = Some 1"
    "dc_max_per_customer c = Some 1" "dc_source c = SOURCE_LOYALTY" "dc_customer c = Some (ap_customer ap)"
    using assms(7,8) by (simp_all add: c reward_code_def not_yet_valid_def code_expired_def)
  have "code_applies s' g (Some (dc_code c)) (Some owner) order_total [] t c"
    using assms(6,9) found act none
    by (simp add: code_applies_def codetext wrong_customer_def used_up_def customer_limit_reached_def)
  then have "\<exists>res s''. evaluate_code s' g (Some (dc_code c)) (Some owner) (Some order_total) [] t = (Inr res, s'')
      \<and> dr_code res = c"
    unfolding evaluate_code_Inr_iff by auto
  moreover have "fst (evaluate_code s' g (Some (dc_code c)) (Some other) (Some order_total) [] t) = Inl D_WRONG_CUSTOMER"
    if "cu_id other \<noteq> ap_customer ap"
    using that assms(6) found act by (simp add: evaluate_code_def codetext wrong_customer_def)
  ultimately show ?thesis by fastforce
qed

theorem issued_reward_is_usable_witness:
  "\<exists>c s' res. issue_reward_for_completion loyal_shop first_visit 60 [lucky] = (Inr (Some c), s')
     \<and> fst (evaluate_code s' demo_business (Some (dc_code c)) (Some regular_customer) (Some 5000) [] 70) = Inr res
     \<and> fst (evaluate_code s' demo_business (Some (dc_code c)) (Some (regular_customer\<lparr>cu_id := 4\<rparr>)) (Some 5000) [] 70)
       = Inl D_WRONG_CUSTOMER"
proof -
  obtain c s' where c: "issue_reward_for_completion loyal_shop first_visit 60 [lucky] = (Inr (Some c), s')"
    using loyal_issue by blast
  have "(\<exists>res. fst (evaluate_code s' demo_business (Some (dc_code c)) (Some regular_customer) (Some 5000) [] 70) = Inr res
        \<and> dr_code res = c)
      \<and> (cu_id (regular_customer\<lparr>cu_id := 4\<rparr>) \<noteq> ap_customer first_visit \<longrightarrow>
         fst (evaluate_code s' demo_business (Some (dc_code c)) (Some (regular_customer\<lparr>cu_id := 4\<rparr>)) (Some 5000) [] 70)
           = Inl D_WRONG_CUSTOMER)"
    by (rule issued_reward_is_usable [OF c, where st = every_visit])
      (simp_all add: ids_ok_def get_loyalty_settings_def lucky_def demo_business_def loyal_demo)
  moreover have "cu_id (regular_customer\<lparr>cu_id := 4\<rparr>) \<noteq> ap_customer first_visit" by (simp add: loyal_demo)
  ultimately show ?thesis using c by blast
qed

text \<open>
  C36: Reconciling catches up everything, once: when it returns, every completion of the window that
  was due a reward has one for its visit number, in every business with the programme on; and
  running it again issues nothing.
\<close>

theorem reconcile_catches_up_once:
  assumes "reconcile s days now draws = (Inr codes, s')"
  shows "(\<forall>st \<in> set (db_loyalty s). \<forall>customer_id n a. ls_enabled st
      \<and> row_find cu_id customer_id (db_customers s) \<noteq> None
      \<and> (n, a) \<in> set (due_visits s st customer_id (reconcile_window st (now - days * day_us)))
      \<longrightarrow> reward_exists s' customer_id (int n))
    \<and> reconcile s' days now draws' = (Inr [], s')"
proof -
  let ?since = "now - days * day_us"
  have res: "only_adds_codes s s'" "\<forall>st \<in> set (filter ls_enabled (db_loyalty s)).
      all_rewarded s' st (reconcile_window st ?since) (recent_customers s' st (reconcile_window st ?since))"
    using reconcile_businesses_result assms unfolding reconcile_def by blast+
  have same: "db_loyalty s' = db_loyalty s" "db_customers s' = db_customers s"
    using res(1) by (simp_all add: only_adds_codes_def)
  have "reconcile s' days now draws' = (Inr [], s')"
    unfolding reconcile_def using res(2) same by (intro reconcile_businesses_again) simp
  moreover have "reward_exists s' i (int n)"
    if "st \<in> set (db_loyalty s)" "ls_enabled st" "row_find cu_id i (db_customers s) \<noteq> None"
      "(n, a) \<in> set (due_visits s st i (reconcile_window st ?since))" for st i n a
  proof -
    have "(n, a) \<in> set (due_visits s' st i (reconcile_window st ?since))"
      using that(4) by (simp only: due_visits_cong [OF res(1)])
    moreover have "all_rewarded s' st (reconcile_window st ?since) (recent_customers s' st (reconcile_window st ?since))"
      using res(2) that(1,2) by simp
    ultimately show ?thesis
      using that(3) same due_is_recent unfolding all_rewarded_def by fastforce
  qed
  ultimately show ?thesis by blast
qed

theorem reconcile_catches_up_once_witness:
  "\<exists>codes s'. reconcile loyal_shop 1 60 (\<lambda>i. [lucky]) = (Inr codes, s') \<and> reward_exists s' 3 1
     \<and> reconcile s' 1 60 (\<lambda>i. []) = (Inr [], s')"
proof -
  have win: "reconcile_window every_visit (60 - 1 * day_us) = 0"
    by (simp add: reconcile_window_def every_visit_def)
  have ids: "recent_customers loyal_shop every_visit 0 = [3]"
    by (simp add: recent_customers_def loyal_demo)
  have due: "due_visits loyal_shop every_visit 3 0 = [(1, first_visit)]"
  proof -
    have "ls_garage every_visit = 2" by (simp add: every_visit_def)
    then show ?thesis by (simp add: due_visits_def loyal_visits) (simp add: loyal_demo)
  qed
  have "issue loyal_shop every_visit 3 1 first_visit 60 [lucky]
      = create_unique_code loyal_shop 2 (reward_code every_visit 3 1 5 60) LOYALTY_PREFIX [lucky]"
    by (simp add: issue_def reward_exists_def loyal_demo)
  then obtain c s1 where iss: "issue loyal_shop every_visit 3 1 first_visit 60 [lucky] = (Code_created c, s1)"
    by (simp add: loyal_attempt)
  have lists: "filter ls_enabled (db_loyalty loyal_shop) = [every_visit]"
    "row_find cu_id 3 (db_customers loyal_shop) = Some regular_customer"
    by (simp_all add: loyal_demo row_find_def)
  have rec: "reconcile loyal_shop 1 60 (\<lambda>i. [lucky]) = (Inr [c], s1)"
    unfolding reconcile_def lists(1) using win by (simp add: ids due iss lists(2))
  have "(\<forall>st \<in> set (db_loyalty loyal_shop). \<forall>i n a. ls_enabled st
      \<and> row_find cu_id i (db_customers loyal_shop) \<noteq> None
      \<and> (n, a) \<in> set (due_visits loyal_shop st i (reconcile_window st (60 - 1 * day_us)))
      \<longrightarrow> reward_exists s1 i (int n)) \<and> reconcile s1 1 60 (\<lambda>i. []) = (Inr [], s1)"
    by (rule reconcile_catches_up_once [OF rec])
  moreover have "(1, first_visit) \<in> set (due_visits loyal_shop every_visit 3 (reconcile_window every_visit (60 - 1 * day_us)))"
    unfolding win due by simp
  moreover have "every_visit \<in> set (db_loyalty loyal_shop)" "ls_enabled every_visit"
    by (simp_all add: loyal_demo)
  ultimately have "reward_exists s1 3 (int 1)" "reconcile s1 1 60 (\<lambda>i. []) = (Inr [], s1)"
    using lists(2) by blast+
  with rec show ?thesis by auto
qed

text \<open>
  A walk-in whose service is completed in the queue keeps an empty \<open>completed_at\<close>: the visit counts, but
  it can never be what issues a reward, neither at once nor when reconciling.
\<close>

lemma walkin_completion_earns_no_reward:
  assumes "complete_service s g i now = (Inr e, s')" "qe_appointment e = Some (ap_id ap)"
    "distinct (map ap_id (db_appointments s))" "ap \<in> set (db_appointments s)" "ap_status ap = AP_IN_PROGRESS"
    "ap_completed_at ap = None"
  shows "\<exists>ap' \<in> set (db_appointments s'). ap_id ap' = ap_id ap \<and> ap_status ap' = AP_COMPLETED
    \<and> issue_reward_for_completion s' ap' t draws = (Inr None, s')"
proof -
  have row: "row_find ap_id (ap_id ap) (db_appointments s) = Some ap"
    by (rule row_find_distinct [OF assms(3,4)])
  let ?ap' = "ap\<lparr>ap_status := AP_COMPLETED, ap_end := max now (ap_start ap + minute_us)\<rparr>"
  have "db_appointments s' = row_set ap_id ?ap' (db_appointments s)"
    using assms(1,2,5) row
    by (auto simp: complete_service_def Let_def end_entry_def emit_def put_appointment_def put_entry_def
        split: option.splits if_splits)
  moreover have "?ap' \<in> set (row_set ap_id ?ap' (db_appointments s))"
    using set_row_set [of ap_id ?ap' "db_appointments s"] assms(4) by force
  ultimately show ?thesis
    using assms(6) by (intro bexI [of _ ?ap']) (simp_all add: issue_reward_for_completion_def)
qed

end
