(* ===== verification/Appointment_Desk.thy ===== *)
theory Appointment_Desk
  imports Loyalty_Issuing Add_Ons
begin

text \<open>
  The staff's own diary, \<open>app/appointments/routes.py\<close> with \<open>app/appointments/discounts.py\<close> and the status
  sets of \<open>app/appointments/scheduling.py\<close>: creating, editing and cancelling an appointment. The list and
  detail queries, the checklist snapshot and the free-text notes are not modelled. A key that may be
  missing from the JSON of an edit is an option, one that may also be null an option of an option.
\<close>

subsection \<open>Rows that belong to the business\<close>

definition get_owned_employee :: "db \<Rightarrow> garage \<Rightarrow> uid \<Rightarrow> http_error + employee" where
  "get_owned_employee s g employee_id =
     (case find (\<lambda>e. em_id e = employee_id \<and> em_garage e = g_id g) (db_employees s) of
        None \<Rightarrow> Inl (Abort 422 ''employee_id does not belong to your business.'')
      | Some e \<Rightarrow> if \<not> em_active e then Inl (Abort 422 ''account is deactivated'') else Inr e)"

text \<open>An archived customer or vehicle that is booked again becomes active.\<close>

definition get_owned_customer :: "db \<Rightarrow> garage \<Rightarrow> uid \<Rightarrow> customer outcome" where
  "get_owned_customer s g customer_id =
     (case find (\<lambda>c. cu_id c = customer_id \<and> cu_garage c = g_id g) (db_customers s) of
        None \<Rightarrow> (Inl (Abort 422 ''customer_id does not belong to your business.''), s)
      | Some c \<Rightarrow>
          if \<not> cu_active c then (Inr (c\<lparr>cu_active := True\<rparr>), put_customer (c\<lparr>cu_active := True\<rparr>) s) else (Inr c, s))"

definition get_owned_appointment_type :: "db \<Rightarrow> garage \<Rightarrow> uid \<Rightarrow> http_error + appointment_type" where
  "get_owned_appointment_type s g type_id =
     (case find (\<lambda>t. ty_id t = type_id \<and> ty_garage t = g_id g) (db_types s) of
        None \<Rightarrow> Inl (Abort 422 ''appointment_type_id does not belong to your business.'')
      | Some t \<Rightarrow> if ty_status t \<noteq> TYPE_ACTIVE then Inl (Abort 422 ''type is not active'') else Inr t)"

definition get_owned_vehicle :: "db \<Rightarrow> garage \<Rightarrow> uid \<Rightarrow> uid \<Rightarrow> vehicle outcome" where
  "get_owned_vehicle s g vehicle_id customer_id =
     (case find (\<lambda>v. ve_id v = vehicle_id \<and> ve_garage v = g_id g) (db_vehicles s) of
        None \<Rightarrow> (Inl (Abort 422 ''vehicle_id does not belong to your business.''), s)
      | Some v \<Rightarrow>
          if ve_customer v \<noteq> customer_id then (Inl (Abort 422 ''vehicle of another customer''), s)
          else if \<not> ve_active v then (Inr (v\<lparr>ve_active := True\<rparr>), put_vehicle (v\<lparr>ve_active := True\<rparr>) s) else (Inr v, s))"

subsection \<open>Statuses\<close>

definition DEFAULT_STATUS_KEYS :: "appointment_status list" where
  "DEFAULT_STATUS_KEYS =
     [AP_REQUESTED, AP_BOOKED, AP_IN_PROGRESS, AP_ACTION_NEEDED, AP_COMPLETED, AP_CANCELLED, AP_NO_SHOW]"

definition allowed_statuses :: "db \<Rightarrow> garage \<Rightarrow> appointment_status list" where
  "allowed_statuses s g =
     (let configured = map sc_key (filter (\<lambda>c. sc_garage c = g_id g) (db_statuses s))
      in if configured \<noteq> [] then configured else DEFAULT_STATUS_KEYS)"

definition validate_status :: "db \<Rightarrow> garage \<Rightarrow> appointment_status option \<Rightarrow> http_error + unit" where
  "validate_status s g status =
     require (case status of None \<Rightarrow> True | Some st \<Rightarrow> st \<in> set (allowed_statuses s g))
       (Abort 422 ''Not a valid appointment status for this business.'')"

definition is_terminal_status :: "db \<Rightarrow> garage \<Rightarrow> appointment_status \<Rightarrow> bool" where
  "is_terminal_status s g status =
     (case find (\<lambda>c. sc_garage c = g_id g \<and> sc_key c = status) (db_statuses s) of
        Some configured \<Rightarrow> sc_terminal configured
      | None \<Rightarrow> status \<in> {AP_COMPLETED, AP_CANCELLED, AP_NO_SHOW})"

definition validate_status_transition ::
  "db \<Rightarrow> garage \<Rightarrow> appointment_status \<Rightarrow> appointment_status \<Rightarrow> http_error + unit"
where
  "validate_status_transition s g current_status requested_status =
     (if requested_status = current_status then Inr ()
      else if current_status = AP_CANCELLED then
        require (\<not> is_terminal_status s g requested_status) (Abort 409 ''must be reactivated'')
      else require (\<not> is_terminal_status s g current_status) (Abort 409 ''cannot be moved to another status''))"

subsection \<open>Times, extras and discounts\<close>

definition validate_time_range :: "instant \<Rightarrow> instant \<Rightarrow> http_error + unit" where
  "validate_time_range start_time end_time =
     require (start_time < end_time) (Abort 422 ''start_time must be before end_time.'')"

definition resolve_end_time ::
  "instant \<Rightarrow> instant option \<Rightarrow> appointment_type \<Rightarrow> int \<Rightarrow> http_error + instant"
where
  "resolve_end_time start_time end_time ty add_on_minutes =
     (case end_time of
        Some e \<Rightarrow> Inr e
      | None \<Rightarrow>
          (case default_end_time start_time ty add_on_minutes of
             None \<Rightarrow> Inl (Abort 422 ''end_time is required'') | Some e \<Rightarrow> Inr e))"

text \<open>The rows of an appointment by catalogue id; of two rows with one id the later counts.\<close>

definition rows_by_add_on :: "applied_add_on list \<Rightarrow> uid \<rightharpoonup> applied_add_on" where
  "rows_by_add_on rows i = find (\<lambda>r. ao_add_on r = Some i) (rev rows)"

definition planned_row :: "(uid \<rightharpoonup> applied_add_on) \<Rightarrow> resolved_add_on \<Rightarrow> applied_add_on" where
  "planned_row by_add_on row =
     (case by_add_on (xt_id (ra_add_on row)) of
        Some kept \<Rightarrow> \<lparr>ao_add_on = ao_add_on kept, ao_name = ao_name kept, ao_quantity = ra_quantity row,
                      ao_price_delta = ao_price_delta kept, ao_duration_delta = ao_duration_delta kept\<rparr>
      | None \<Rightarrow> applied_of row)"

definition plan_add_ons ::
  "db \<Rightarrow> appointment \<Rightarrow> appointment_type \<Rightarrow> bool \<Rightarrow> selection \<Rightarrow> http_error + applied_add_on list"
where
  "plan_add_ons s ap ty type_changed sel =
     (let by_add_on = rows_by_add_on (if type_changed then [] else ap_add_ons ap)
      in map_sum id (map (planned_row by_add_on))
           (resolve_selection s ty sel (\<lambda>i. map_option ao_quantity (by_add_on i))))"

definition check_for_conflict ::
  "db \<Rightarrow> uid \<Rightarrow> instant \<Rightarrow> instant \<Rightarrow> uid option \<Rightarrow> http_error + unit"
where
  "check_for_conflict s employee_id start_time end_time exclude =
     require (\<not> has_employee_conflict s employee_id start_time end_time exclude)
       (Abort 409 ''already has an appointment during this time'')"

definition check_capacity :: "db \<Rightarrow> garage \<Rightarrow> instant \<Rightarrow> instant \<Rightarrow> uid option \<Rightarrow> http_error + unit" where
  "check_capacity s g start_time end_time exclude =
     require (\<not> capacity_exceeded s g start_time end_time exclude) (Abort 409 ''capacity has already been taken'')"

definition booked_base_price :: "appointment \<Rightarrow> pence option" where
  "booked_base_price ap =
     map_option (\<lambda>p. p - applied_price_delta (ap_add_ons ap))
       (if ds_code_id (ap_discount ap) \<noteq> None \<or> ds_before (ap_discount ap) \<noteq> None
        then ds_before (ap_discount ap) else ap_price ap)"

definition appointment_pre_total :: "appointment \<Rightarrow> pence option" where
  "appointment_pre_total ap =
     (if ds_before (ap_discount ap) \<noteq> None then ds_before (ap_discount ap) else ap_price ap)"

definition evaluate_for_staff ::
  "db \<Rightarrow> garage \<Rightarrow> string \<Rightarrow> customer option \<Rightarrow> pence option \<Rightarrow> appointment option \<Rightarrow> instant
     \<Rightarrow> discount_result outcome"
where
  "evaluate_for_staff s g code customer order_total ap now =
     (let exclude = (case Option.bind ap (\<lambda>a. redemption_for_appointment s (ap_id a)) of
                       None \<Rightarrow> [] | Some r \<Rightarrow> [rd_id r])
      in case evaluate_code s g (Some code) customer order_total exclude now of
           (Inl f, s') \<Rightarrow> (Inl (Abort 422 ''discount_code''), s')
         | (Inr result, s') \<Rightarrow> (Inr result, s'))"

definition redeem_or_abort :: "db \<Rightarrow> discount_result \<Rightarrow> appointment \<Rightarrow> instant \<Rightarrow> unit outcome" where
  "redeem_or_abort s result ap now =
     (case redeem s result (Some (ap_customer ap)) CONSUMED None (Some (ap_id ap)) now of
        (Inl f, s') \<Rightarrow> (Inl (Abort 422 ''discount_code''), s')
      | (Inr r, s') \<Rightarrow> (Inr (), s'))"

text \<open>Aborting rolls back: nothing of an appointment request is committed before its end.\<close>

definition committed :: "db \<Rightarrow> 'a outcome \<Rightarrow> 'a outcome" where
  "committed s r = (case r of (Inl e, s') \<Rightarrow> (Inl e, s) | (Inr x, s') \<Rightarrow> (Inr x, s'))"

subsection \<open>Creating\<close>

record appointment_data =
  cd_employee :: uid
  cd_customer :: uid
  cd_vehicle :: "uid option"
  cd_start :: instant
  cd_end :: "instant option"
  cd_type :: uid
  cd_status :: "appointment_status option"
  cd_add_ons :: selection
  cd_code :: "string option"

definition staff_discount ::
  "db \<Rightarrow> garage \<Rightarrow> string option \<Rightarrow> customer \<Rightarrow> pence option \<Rightarrow> instant \<Rightarrow> discount_result option outcome"
where
  "staff_discount s g code customer price now =
     (case code of
        None \<Rightarrow> (Inr None, s)
      | Some raw \<Rightarrow>
          if strip_text raw = [] then (Inr None, s)
          else (case evaluate_for_staff s g raw (Some customer) price None now of
                  (Inl e, s') \<Rightarrow> (Inl e, s') | (Inr result, s') \<Rightarrow> (Inr (Some result), s')))"

definition built_appointment ::
  "db \<Rightarrow> garage \<Rightarrow> appointment_data \<Rightarrow> appointment_type \<Rightarrow> resolved_add_on list \<Rightarrow> instant \<Rightarrow> pence option
     \<Rightarrow> discount_result option \<Rightarrow> instant \<Rightarrow> appointment"
where
  "built_appointment s g data ty rows end_time price discount now =
     (let status = (case cd_status data of None \<Rightarrow> AP_BOOKED | Some st \<Rightarrow> st)
      in \<lparr>ap_id = fresh_id s, ap_garage = g_id g, ap_employee = cd_employee data, ap_customer = cd_customer data,
          ap_vehicle = cd_vehicle data, ap_type = cd_type data, ap_start = cd_start data, ap_end = end_time,
          ap_status = status,
          ap_price = (case discount of None \<Rightarrow> price | Some result \<Rightarrow> Some (dr_new_total result)),
          ap_type_name = Some (ty_name ty), ap_imported_at = None,
          ap_completed_at = (if status = AP_COMPLETED then Some now else None),
          ap_add_ons = map applied_of rows,
          ap_discount = (case discount of None \<Rightarrow> no_discount | Some result \<Rightarrow> apply_snapshot result)\<rparr>)"

definition store_appointment ::
  "db \<Rightarrow> appointment \<Rightarrow> discount_result option \<Rightarrow> instant \<Rightarrow> appointment outcome"
where
  "store_appointment s ap discount now =
     (let s1 = insert_appointment ap s
      in case discount of
           None \<Rightarrow> (Inr ap, s1)
         | Some result \<Rightarrow>
             (case redeem_or_abort s1 result ap now of
                (Inl e, s2) \<Rightarrow> (Inl e, s2)
              | (Inr _, s2) \<Rightarrow> (Inr ap, sync_appointment_redemption s2 ap now)))"

definition commit_appointment :: "db \<Rightarrow> garage \<Rightarrow> appointment_data \<Rightarrow> instant \<Rightarrow> appointment outcome" where
  "commit_appointment s g data now = committed s (
     checked (get_owned_employee s g (cd_employee data)) s (\<lambda>_.
     (case get_owned_customer s g (cd_customer data) of
        (Inl e, s1) \<Rightarrow> (Inl e, s1)
      | (Inr customer, s1) \<Rightarrow>
          checked (get_owned_appointment_type s1 g (cd_type data)) s1 (\<lambda>ty.
          (case (case cd_vehicle data of
                   None \<Rightarrow> (Inr (), s1)
                 | Some v \<Rightarrow> (case get_owned_vehicle s1 g v (cd_customer data) of
                     (Inl e, s2) \<Rightarrow> (Inl e, s2) | (Inr _, s2) \<Rightarrow> (Inr (), s2))) of
             (Inl e, s2) \<Rightarrow> (Inl e, s2)
           | (Inr _, s2) \<Rightarrow>
               checked (resolve_selection s2 ty (cd_add_ons data) Map.empty) s2 (\<lambda>rows.
               checked (resolve_end_time (cd_start data) (cd_end data) ty (duration_delta rows)) s2 (\<lambda>end_time.
               checked (total_price (ty_base_price ty) (price_delta rows)) s2 (\<lambda>price.
               checked (validate_time_range (cd_start data) end_time) s2 (\<lambda>_.
               checked (validate_status s2 g (cd_status data)) s2 (\<lambda>_.
               checked (check_for_conflict s2 (cd_employee data) (cd_start data) end_time None) s2 (\<lambda>_.
               checked (if cd_status data \<noteq> Some AP_CANCELLED then check_capacity s2 g (cd_start data) end_time None else Inr ())
                 s2 (\<lambda>_.
                 (case staff_discount s2 g (cd_code data) customer price now of
                    (Inl e, s3) \<Rightarrow> (Inl e, s3)
                  | (Inr discount, s3) \<Rightarrow>
                      store_appointment s3 (built_appointment s3 g data ty rows end_time price discount now)
                        discount now)))))))))))))"

definition create_appointment ::
  "db \<Rightarrow> garage \<Rightarrow> appointment_data \<Rightarrow> instant \<Rightarrow> nat list list \<Rightarrow> appointment outcome"
where
  "create_appointment s g data now draws =
     (case commit_appointment s g data now of
        (Inl e, s1) \<Rightarrow> (Inl e, s1)
      | (Inr ap, s1) \<Rightarrow>
          let s2 = emit (APPOINTMENT_CREATED (ap_id ap)) s1
          in (Inr ap, if ap_status ap = AP_COMPLETED then issue_reward_safely s2 ap now draws else s2))"

subsection \<open>Editing\<close>

record edit_data =
  ud_employee :: "uid option"
  ud_customer :: "uid option"
  ud_vehicle :: "uid option option"
  ud_start :: "instant option"
  ud_end :: "instant option"
  ud_type :: "uid option"
  ud_status :: "appointment_status option"
  ud_add_ons :: "selection option"
  ud_code :: "string option option"

definition given :: "'a option \<Rightarrow> 'a \<Rightarrow> 'a" where
  "given new old = (case new of None \<Rightarrow> old | Some x \<Rightarrow> x)"

text \<open>Sending the current type again is no change of service.\<close>

definition replacement_type :: "db \<Rightarrow> garage \<Rightarrow> appointment \<Rightarrow> edit_data \<Rightarrow> http_error + appointment_type option" where
  "replacement_type s g ap data =
     (case ud_type data of
        None \<Rightarrow> Inr None
      | Some i \<Rightarrow> if i = ap_type ap then Inr None else map_sum id Some (get_owned_appointment_type s g i))"

definition effective_customer :: "db \<Rightarrow> garage \<Rightarrow> appointment \<Rightarrow> edit_data \<Rightarrow> customer option outcome" where
  "effective_customer s g ap data =
     (case ud_customer data of
        None \<Rightarrow> (Inr (row_find cu_id (ap_customer ap) (db_customers s)), s)
      | Some i \<Rightarrow> (case get_owned_customer s g i of (Inl e, s') \<Rightarrow> (Inl e, s') | (Inr c, s') \<Rightarrow> (Inr (Some c), s')))"

text \<open>\<open>None\<close>: the discount stays; the empty text: it is removed; another text: the code to apply.\<close>

definition discount_change :: "appointment \<Rightarrow> edit_data \<Rightarrow> string option" where
  "discount_change ap data =
     (case ud_code data of
        None \<Rightarrow> None
      | Some raw \<Rightarrow>
          let requested = strip_text (given raw [])
          in if normalize_code (Some requested) \<noteq> normalize_code (ds_code (ap_discount ap)) then Some requested else None)"

definition loyalty_code_stays :: "db \<Rightarrow> appointment \<Rightarrow> edit_data \<Rightarrow> http_error + unit" where
  "loyalty_code_stays s ap data =
     require (\<not> (discount_change ap data = None \<and> given (ud_customer data) (ap_customer ap) \<noteq> ap_customer ap
         \<and> (case Option.bind (ds_code_id (ap_discount ap)) (\<lambda>i. row_find dc_id i (db_codes s)) of
              None \<Rightarrow> False
            | Some c \<Rightarrow> dc_source c = SOURCE_LOYALTY \<and> dc_customer c \<noteq> Some (given (ud_customer data) (ap_customer ap)))))
       (Abort 422 ''loyalty code belongs to its current customer'')"

definition edited_vehicle :: "db \<Rightarrow> garage \<Rightarrow> appointment \<Rightarrow> edit_data \<Rightarrow> unit outcome" where
  "edited_vehicle s g ap data =
     (let owner = given (ud_customer data) (ap_customer ap)
      in case (case ud_vehicle data of
                 Some (Some v) \<Rightarrow> Some v
               | Some None \<Rightarrow> (if ud_customer data \<noteq> None then ap_vehicle ap else None)
               | None \<Rightarrow> (if ud_customer data \<noteq> None then ap_vehicle ap else None)) of
           None \<Rightarrow> (Inr (), s)
         | Some v \<Rightarrow> (case get_owned_vehicle s g v owner of (Inl e, s') \<Rightarrow> (Inl e, s') | (Inr _, s') \<Rightarrow> (Inr (), s')))"

definition edited_status :: "db \<Rightarrow> garage \<Rightarrow> appointment \<Rightarrow> edit_data \<Rightarrow> http_error + unit" where
  "edited_status s g ap data =
     (case ud_status data of
        None \<Rightarrow> Inr ()
      | Some st \<Rightarrow> checks (validate_status s g (Some st)) (\<lambda>_. validate_status_transition s g (ap_status ap) st))"

definition planned_add_ons ::
  "db \<Rightarrow> appointment \<Rightarrow> appointment_type option \<Rightarrow> edit_data \<Rightarrow> http_error + applied_add_on list option"
where
  "planned_add_ons s ap replacement data =
     (if ud_add_ons data = None \<and> replacement = None then Inr None
      else case (case replacement of Some ty \<Rightarrow> Some ty | None \<Rightarrow> row_find ty_id (ap_type ap) (db_types s)) of
             None \<Rightarrow> Inl (Abort 500 ''AttributeError'')
           | Some ty \<Rightarrow> map_sum id Some (plan_add_ons s ap ty (replacement \<noteq> None) (given (ud_add_ons data) [])))"

text \<open>The end given, or the old one moved by what the extras add; \<open>None\<close>: the end is not set.\<close>

definition new_end :: "appointment \<Rightarrow> edit_data \<Rightarrow> applied_add_on list option \<Rightarrow> instant option" where
  "new_end ap data planned =
     (case (planned, ud_end data) of
        (Some rows, None) \<Rightarrow>
          let shift = applied_duration_delta rows - applied_duration_delta (ap_add_ons ap)
          in if shift \<noteq> 0 then Some (ap_end ap + shift * minute_us) else None
      | _ \<Rightarrow> ud_end data)"

definition check_reschedule ::
  "db \<Rightarrow> garage \<Rightarrow> appointment \<Rightarrow> edit_data \<Rightarrow> instant option \<Rightarrow> http_error + unit"
where
  "check_reschedule s g ap data end_set =
     (let will_be_live = given (ud_status data) (ap_status ap) \<noteq> AP_CANCELLED;
          scheduling_changed = ud_employee data \<noteq> None \<or> ud_start data \<noteq> None \<or> end_set \<noteq> None
            \<or> ap_status ap = AP_CANCELLED \<and> will_be_live;
          start_time = given (ud_start data) (ap_start ap);
          end_time = given end_set (ap_end ap)
      in if scheduling_changed \<and> will_be_live
         then checks (check_for_conflict s (given (ud_employee data) (ap_employee ap)) start_time end_time (Some (ap_id ap)))
                (\<lambda>_. check_capacity s g start_time end_time (Some (ap_id ap)))
         else Inr ())"

definition edited_pre_total ::
  "appointment \<Rightarrow> appointment_type option \<Rightarrow> applied_add_on list option \<Rightarrow> http_error + pence option"
where
  "edited_pre_total ap replacement planned =
     (case planned of
        None \<Rightarrow> Inr (appointment_pre_total ap)
      | Some rows \<Rightarrow>
          total_price (case replacement of Some ty \<Rightarrow> ty_base_price ty | None \<Rightarrow> booked_base_price ap)
            (applied_price_delta rows))"

text \<open>The columns the request sets, before prices and discounts.\<close>

definition edited_columns ::
  "appointment \<Rightarrow> edit_data \<Rightarrow> appointment_type option \<Rightarrow> applied_add_on list option \<Rightarrow> instant option \<Rightarrow> appointment"
where
  "edited_columns ap data replacement planned end_set =
     (let start_time = given (ud_start data) (ap_start ap); end_time = given end_set (ap_end ap)
      in ap\<lparr>ap_employee := given (ud_employee data) (ap_employee ap),
            ap_customer := given (ud_customer data) (ap_customer ap),
            ap_vehicle := given (ud_vehicle data) (ap_vehicle ap),
            ap_start := start_time, ap_end := end_time,
            ap_type := (case replacement of None \<Rightarrow> ap_type ap | Some ty \<Rightarrow> ty_id ty),
            ap_type_name := (case replacement of None \<Rightarrow> ap_type_name ap | Some ty \<Rightarrow> Some (ty_name ty)),
            ap_status := given (ud_status data) (ap_status ap),
            ap_imported_at := (if start_time \<noteq> ap_start ap \<or> end_time \<noteq> ap_end ap then None else ap_imported_at ap),
            ap_add_ons := given planned (ap_add_ons ap)\<rparr>)"

definition edited_price ::
  "db \<Rightarrow> appointment \<Rightarrow> string option \<Rightarrow> discount_result option \<Rightarrow> pence option \<Rightarrow> bool \<Rightarrow> instant \<Rightarrow> appointment outcome"
where
  "edited_price s ap change discount pre_total replanned now =
     (if change \<noteq> None then
        let s1 = (if ds_code_id (ap_discount ap) \<noteq> None then release_appointment_discount s (ap_id ap) now else s)
        in case discount of
             None \<Rightarrow> (Inr (ap\<lparr>ap_discount := clear_snapshot, ap_price := pre_total\<rparr>), s1)
           | Some result \<Rightarrow>
               let ap' = ap\<lparr>ap_discount := apply_snapshot result, ap_price := Some (dr_new_total result)\<rparr>
               in (case redeem_or_abort s1 result ap' now of
                     (Inl e, s2) \<Rightarrow> (Inl e, s2) | (Inr _, s2) \<Rightarrow> (Inr ap', s2))
      else if replanned then
        (case reprice_snapshot s (ap_discount ap) (redemption_for_appointment s (ap_id ap)) pre_total of
           ((price, ds), s1) \<Rightarrow> (Inr (ap\<lparr>ap_price := price, ap_discount := ds\<rparr>), s1))
      else (Inr ap, s))"

definition new_discount ::
  "db \<Rightarrow> garage \<Rightarrow> appointment \<Rightarrow> string option \<Rightarrow> customer option \<Rightarrow> pence option \<Rightarrow> instant \<Rightarrow> discount_result option outcome"
where
  "new_discount s g ap change customer pre_total now =
     (case change of
        None \<Rightarrow> (Inr None, s)
      | Some [] \<Rightarrow> (Inr None, s)
      | Some code \<Rightarrow>
          (case evaluate_for_staff s g code customer pre_total (Some ap) now of
             (Inl e, s') \<Rightarrow> (Inl e, s') | (Inr result, s') \<Rightarrow> (Inr (Some result), s')))"

text \<open>The write: the row, its discount, and what a new status means for both.\<close>

definition store_edit ::
  "db \<Rightarrow> appointment \<Rightarrow> appointment \<Rightarrow> string option \<Rightarrow> discount_result option \<Rightarrow> pence option \<Rightarrow> bool \<Rightarrow> instant
     \<Rightarrow> appointment outcome"
where
  "store_edit s ap edited change discount pre_total replanned now =
     (case edited_price s edited change discount pre_total replanned now of
        (Inl e, s1) \<Rightarrow> (Inl e, s1)
      | (Inr priced, s1) \<Rightarrow>
          if ap_status edited \<noteq> ap_status ap then
            let done_row = priced\<lparr>ap_completed_at := (if ap_status edited = AP_COMPLETED then Some now else None)\<rparr>
            in (Inr done_row, sync_appointment_redemption (put_appointment done_row s1) done_row now)
          else (Inr priced, put_appointment priced s1))"

definition commit_edit :: "db \<Rightarrow> garage \<Rightarrow> uid \<Rightarrow> edit_data \<Rightarrow> instant \<Rightarrow> (appointment \<times> appointment) outcome" where
  "commit_edit s g i data now = committed s
     (case find (\<lambda>a. ap_id a = i \<and> ap_garage a = g_id g) (db_appointments s) of
        None \<Rightarrow> (Inl (Abort 404 ''Appointment not found''), s)
      | Some ap \<Rightarrow>
          checked (case ud_employee data of None \<Rightarrow> Inr () | Some e \<Rightarrow> map_sum id (\<lambda>_. ()) (get_owned_employee s g e)) s (\<lambda>_.
          checked (replacement_type s g ap data) s (\<lambda>replacement.
          (case effective_customer s g ap data of
             (Inl e, s1) \<Rightarrow> (Inl e, s1)
           | (Inr customer, s1) \<Rightarrow>
               checked (loyalty_code_stays s1 ap data) s1 (\<lambda>_.
               (case edited_vehicle s1 g ap data of
                  (Inl e, s2) \<Rightarrow> (Inl e, s2)
                | (Inr _, s2) \<Rightarrow>
                    checked (edited_status s2 g ap data) s2 (\<lambda>_.
                    checked (planned_add_ons s2 ap replacement data) s2 (\<lambda>planned.
                    let end_set = new_end ap data planned; change = discount_change ap data in
                    checked (validate_time_range (given (ud_start data) (ap_start ap)) (given end_set (ap_end ap))) s2 (\<lambda>_.
                    checked (check_reschedule s2 g ap data end_set) s2 (\<lambda>_.
                    checked (edited_pre_total ap replacement planned) s2 (\<lambda>pre_total.
                    (case new_discount s2 g ap change customer pre_total now of
                       (Inl e, s3) \<Rightarrow> (Inl e, s3)
                     | (Inr discount, s3) \<Rightarrow>
                         (case store_edit s3 ap (edited_columns ap data replacement planned end_set) change discount pre_total
                                 (planned \<noteq> None) now of
                            (Inl e, s4) \<Rightarrow> (Inl e, s4)
                          | (Inr ap', s4) \<Rightarrow> (Inr (ap, ap'), s4))))))))))))))"

text \<open>After the commit: one event at most, and the reward of a completion.\<close>

definition announce_edit :: "db \<Rightarrow> appointment \<Rightarrow> appointment \<Rightarrow> instant \<Rightarrow> nat list list \<Rightarrow> db" where
  "announce_edit s old_row new_row now draws =
     (if ap_status new_row = AP_CANCELLED \<and> ap_status old_row \<noteq> AP_CANCELLED then emit (APPOINTMENT_CANCELLED (ap_id new_row)) s
      else if ap_status new_row = AP_COMPLETED \<and> ap_status old_row \<noteq> AP_COMPLETED
      then issue_reward_safely (emit (APPOINTMENT_COMPLETED (ap_id new_row)) s) new_row now draws
      else if ap_status new_row \<noteq> AP_CANCELLED \<and> (ap_start new_row \<noteq> ap_start old_row \<or> ap_end new_row \<noteq> ap_end old_row)
      then emit (APPOINTMENT_RESCHEDULED (ap_id new_row) (Some (ap_start old_row)) (Some (ap_end old_row))) s
      else s)"

definition edit_appointment ::
  "db \<Rightarrow> garage \<Rightarrow> uid \<Rightarrow> edit_data \<Rightarrow> instant \<Rightarrow> nat list list \<Rightarrow> appointment outcome"
where
  "edit_appointment s g i data now draws =
     (case commit_edit s g i data now of
        (Inl e, s1) \<Rightarrow> (Inl e, s1)
      | (Inr (old_row, new_row), s1) \<Rightarrow> (Inr new_row, announce_edit s1 old_row new_row now draws))"

subsection \<open>Cancelling\<close>

definition delete_appointment :: "db \<Rightarrow> garage \<Rightarrow> uid \<Rightarrow> instant \<Rightarrow> unit outcome" where
  "delete_appointment s g i now =
     (case find (\<lambda>a. ap_id a = i \<and> ap_garage a = g_id g) (db_appointments s) of
        None \<Rightarrow> (Inl (Abort 404 ''Appointment not found''), s)
      | Some ap \<Rightarrow>
          checked (validate_status_transition s g (ap_status ap) AP_CANCELLED) s (\<lambda>_.
            let ap' = ap\<lparr>ap_status := AP_CANCELLED\<rparr>;
                s1 = sync_appointment_redemption (put_appointment ap' s) ap' now
            in (Inr (), if ap_status ap \<noteq> AP_CANCELLED then emit (APPOINTMENT_CANCELLED i) s1 else s1)))"

end
