(* ===== verification/Desk_Promises.thy ===== *)
theory Desk_Promises
  imports Appointment_Desk Public_Promises
begin

text \<open>
  What the staff's diary promises. No employee is ever booked twice, whichever mix of approvals,
  automatic acceptances, online submissions, accepted links and staff edits is handled; an appointment
  staff create fits the bays; an outcome is final; and taking a code off gives the row back as it was.
\<close>

subsection \<open>A diary with distinct rows\<close>

definition roster_ok :: "db \<Rightarrow> bool" where
  "roster_ok s \<longleftrightarrow> no_double_booking s \<and> distinct (map ap_id (db_appointments s))
     \<and> (\<forall>a \<in> set (db_appointments s). ap_id a < db_next s)"

text \<open>What one operation may do to the diary: nothing, add a row, or replace one.\<close>

definition free_for :: "db \<Rightarrow> appointment \<Rightarrow> uid option \<Rightarrow> bool" where
  "free_for s ap exclude \<longleftrightarrow>
     live_appointment ap \<longrightarrow> \<not> has_employee_conflict s (ap_employee ap) (ap_start ap) (ap_end ap) exclude"

definition same_place :: "appointment \<Rightarrow> appointment \<Rightarrow> bool" where
  "same_place a b \<longleftrightarrow> live_appointment a \<and> ap_employee b = ap_employee a \<and> ap_start b = ap_start a \<and> ap_end b = ap_end a"

definition roster_step :: "db \<Rightarrow> db \<Rightarrow> bool" where
  "roster_step s s' \<longleftrightarrow> db_next s \<le> db_next s' \<and>
     (db_appointments s' = db_appointments s
      \<or> (\<exists>ap. db_appointments s' = db_appointments s @ [ap] \<and> db_next s \<le> ap_id ap \<and> ap_id ap < db_next s' \<and> free_for s ap None)
      \<or> (\<exists>ap ap'. ap \<in> set (db_appointments s) \<and> ap_id ap' = ap_id ap
           \<and> db_appointments s' = row_set ap_id ap' (db_appointments s)
           \<and> (free_for s ap' (Some (ap_id ap)) \<or> same_place ap ap')))"

lemma clash_sym: "clash a b \<longleftrightarrow> clash b a"
  by (auto simp: clash_def)

lemma roster_added:
  assumes "roster_ok s" "db_appointments s' = db_appointments s @ [ap]" "db_next s \<le> ap_id ap" "ap_id ap < db_next s'"
    "free_for s ap None" "db_next s \<le> db_next s'"
  shows "roster_ok s'"
proof -
  have "\<not> clash a ap" if "a \<in> set (db_appointments s)" for a
    using assms(5) that by (auto simp: free_for_def has_employee_conflict_def list_ex_iff clash_def)
  with assms show ?thesis by (fastforce simp: roster_ok_def no_double_booking_def sorted_wrt_append)
qed

text \<open>Pairs of a list whose keys are distinct, whatever their order.\<close>

lemma sorted_wrt_pairs:
  assumes "distinct (map key xs)" "\<And>a b. P a b \<longleftrightarrow> P b a"
  shows "sorted_wrt P xs \<longleftrightarrow> (\<forall>a \<in> set xs. \<forall>b \<in> set xs. key a \<noteq> key b \<longrightarrow> P a b)"
  using assms(1)
proof (induction xs)
  case (Cons x xs)
  then have new: "\<forall>y \<in> set xs. key x \<noteq> key y" by auto
  have "(\<forall>a \<in> insert x (set xs). \<forall>b \<in> insert x (set xs). key a \<noteq> key b \<longrightarrow> P a b)
      \<longleftrightarrow> (\<forall>y \<in> set xs. P x y) \<and> (\<forall>a \<in> set xs. \<forall>b \<in> set xs. key a \<noteq> key b \<longrightarrow> P a b)"
    using new assms(2) by auto
  with Cons show ?case by simp
qed simp

lemma roster_replaced:
  assumes "roster_ok s" "ap \<in> set (db_appointments s)" "ap_id ap' = ap_id ap"
    "db_appointments s' = row_set ap_id ap' (db_appointments s)" "db_next s \<le> db_next s'"
    "free_for s ap' (Some (ap_id ap)) \<or> same_place ap ap'"
  shows "roster_ok s'"
proof -
  let ?as = "db_appointments s"
  have ids: "distinct (map ap_id ?as)" and pairs: "\<forall>a \<in> set ?as. \<forall>b \<in> set ?as. ap_id a \<noteq> ap_id b \<longrightarrow> \<not> clash a b"
    using assms(1) sorted_wrt_pairs [of ap_id ?as "\<lambda>a b. \<not> clash a b"] clash_sym
    by (auto simp: roster_ok_def no_double_booking_def)
  have "\<not> clash a ap'" if a: "a \<in> set ?as" "ap_id a \<noteq> ap_id ap" for a
    using assms(6)
  proof
    assume "free_for s ap' (Some (ap_id ap))"
    with a show ?thesis by (auto simp: free_for_def has_employee_conflict_def list_ex_iff clash_def)
  next
    assume "same_place ap ap'"
    with pairs a assms(2) show ?thesis by (auto simp: same_place_def clash_def)
  qed
  then have "\<forall>a \<in> set (row_set ap_id ap' ?as). \<forall>b \<in> set (row_set ap_id ap' ?as). ap_id a \<noteq> ap_id b \<longrightarrow> \<not> clash a b"
    using pairs assms(3) clash_sym by (auto dest!: in_row_set)
  then have "no_double_booking s'"
    using ids sorted_wrt_pairs [of ap_id "row_set ap_id ap' ?as" "\<lambda>a b. \<not> clash a b"] clash_sym
    by (simp add: no_double_booking_def assms(4))
  moreover have "\<forall>a \<in> set (db_appointments s'). ap_id a < db_next s'"
    using assms(1,2,3,5) unfolding assms(4) roster_ok_def by (fastforce dest!: in_row_set)
  ultimately show ?thesis using ids by (simp add: roster_ok_def assms(4))
qed

text \<open>The contract of an operation on the diary.\<close>

locale roster_keeper =
  fixes op :: "'k \<Rightarrow> db \<Rightarrow> db"
  assumes steps: "roster_step s (op k s)"
begin

lemma keeps:
  assumes ok: "roster_ok s"
  shows "roster_ok (op k s)"
proof -
  from steps [of s k] have next_row: "db_next s \<le> db_next (op k s)" by (simp add: roster_step_def)
  from steps [of s k] consider
    (same) "db_appointments (op k s) = db_appointments s"
  | (added) ap where "db_appointments (op k s) = db_appointments s @ [ap]" "db_next s \<le> ap_id ap" "ap_id ap < db_next (op k s)"
      "free_for s ap None"
  | (replaced) ap ap' where "ap \<in> set (db_appointments s)" "ap_id ap' = ap_id ap"
      "db_appointments (op k s) = row_set ap_id ap' (db_appointments s)"
      "free_for s ap' (Some (ap_id ap)) \<or> same_place ap ap'"
    unfolding roster_step_def by blast
  then show ?thesis
  proof cases
    case same
    with ok next_row show ?thesis by (auto simp: roster_ok_def no_double_booking_def)
  next
    case added
    then show ?thesis by (rule roster_added [OF ok _ _ _ _ next_row])
  next
    case replaced
    show ?thesis by (rule roster_replaced [OF ok replaced(1-3) next_row replaced(4)])
  qed
qed

lemma fold_keeps: "roster_ok s \<Longrightarrow> roster_ok (fold op ks s)"
  by (induction ks arbitrary: s) (simp_all add: keeps)

end

subsection \<open>The operations as steps\<close>

definition same_diary :: "db \<Rightarrow> db \<Rightarrow> bool" where
  "same_diary s s' \<longleftrightarrow> db_appointments s' = db_appointments s \<and> db_next s \<le> db_next s'"

lemma same_diary_refl [simp]: "same_diary s s"
  by (simp add: same_diary_def)

lemma same_diary_trans: "same_diary a b \<Longrightarrow> same_diary b c \<Longrightarrow> same_diary a c"
  by (simp add: same_diary_def)

lemma same_diary_step: "same_diary s s' \<Longrightarrow> roster_step s s'"
  by (simp add: same_diary_def roster_step_def)

lemma free_for_same: "same_diary s t \<Longrightarrow> free_for t ap e \<longleftrightarrow> free_for s ap e"
  by (simp add: free_for_def has_employee_conflict_def same_diary_def)

lemma roster_step_from:
  assumes "same_diary s t" "roster_step t s'"
  shows "roster_step s s'"
  using assms(2) free_for_same [OF assms(1)] assms(1)
  by (auto simp: roster_step_def same_diary_def)

lemma roster_step_to:
  assumes "roster_step s t" "same_diary t s'"
  shows "roster_step s s'"
  using assms by (fastforce simp: roster_step_def same_diary_def)

lemma same_diary_redemptions: "\<exists>rds. s' = s\<lparr>db_redemptions := rds\<rparr> \<Longrightarrow> same_diary s s'"
  by (auto simp: same_diary_def)

lemmas redemption_moves = sync_request_redemptions attach_redemptions sync_appointment_redemptions
  release_appointment_redemptions

lemma same_diary_redemption_moves:
  "same_diary s (sync_booking_request_redemption s rq now)" "same_diary s (attach_redemption_to_appointment s rq i now)"
  "same_diary s (sync_appointment_redemption s ap now)" "same_diary s (release_appointment_discount s i now)"
  by (rule same_diary_redemptions, rule redemption_moves)+

lemma same_diary_puts [simp]:
  "same_diary s (put_request rq s)" "same_diary s (emit ev s)" "same_diary s (put_customer c s)" "same_diary s (put_vehicle v s)"
  "same_diary s (rolled_back s t)"
  by (simp_all add: same_diary_def put_request_def emit_def put_customer_def put_vehicle_def rolled_back_def)

lemma approve_step: "roster_step s (snd (approve_booking_request s g reviewer i data now))"
proof (cases "approve_booking_request s g reviewer i data now")
  case (Pair res s')
  show ?thesis
  proof (cases res)
    case (Inl err)
    from Pair Inl have "s' = s \<or> (\<exists>rq t. s' = sync_booking_request_redemption (put_request rq s) t now)"
      unfolding approve_booking_request_def Let_def
      by (auto split: option.splits if_splits sum.splits prod.splits)
    then have "same_diary s s'"
      using same_diary_trans [OF same_diary_puts(1) same_diary_redemption_moves(1)] by auto
    with Pair show ?thesis by (simp add: same_diary_step)
  next
    case (Inr rq')
    from approve_result [OF Pair [unfolded Inr]] obtain rq ap0 e where
      ap0: "db_appointments s' = db_appointments s @ [ap0]"
        "\<not> has_employee_conflict s (ap_employee ap0) (ap_start ap0) (ap_end ap0) None"
      by (auto simp: approval_effect_def)
    from Pair [unfolded Inr] show ?thesis
    proof (rule approve_InrE)
      fix rq ty employee_id start_time end_time customer_id vehicle_id s1 ap
      assume rs: "resolve_customer_and_vehicle s (g_id g) (rq_customer rq) (rq_contact rq) (rq_item rq) = (Inr (customer_id, vehicle_id), s1)"
        and ap: "ap = approved_appointment s1 rq ty employee_id customer_id vehicle_id start_time end_time"
        and s': "s' = emit (BOOKING_REQUEST_APPROVED (rq_id rq) (ap_id ap)) (put_request rq'
           (attach_redemption_to_appointment (insert_appointment ap s1) (rq\<lparr>rq_status := APPROVED\<rparr>) (ap_id ap) now))"
      have ins: "same_diary (insert_appointment ap s1) s'"
        unfolding s' by (rule same_diary_trans [OF same_diary_redemption_moves(2) same_diary_trans [OF same_diary_puts(1,2)]])
      have "ap_id ap = db_next s1" by (simp add: ap approved_appointment_def fresh_id_def Let_def split: prod.split)
      moreover have "db_next s \<le> db_next s1" "db_appointments s1 = db_appointments s" using resolve_frame [OF rs] by simp_all
      moreover from this ins ap0(1) have "ap0 = ap" by (simp add: same_diary_def insert_appointment_def)
      ultimately have "roster_step s s'"
        using ins ap0(2) by (auto simp: roster_step_def same_diary_def insert_appointment_def free_for_def)
      then show ?thesis by (simp add: Pair)
    qed
  qed
qed

lemma auto_accept_step: "roster_step s (snd (auto_accept_booking_request s g i now))"
  using auto_accept_db [of s g i now] approve_step same_diary_step [OF same_diary_refl] by auto

lemma submission_diary: "same_diary s (snd (commit_submission verify_captcha token s g data draws now))"
proof (cases "commit_submission verify_captcha token s g data draws now")
  case (Pair out s')
  show ?thesis
  proof (cases out)
    case (Inl e)
    with Pair show ?thesis
      by (auto simp: commit_submission_def transaction_def split: sum.splits prod.splits)
  next
    case (Inr sub)
    show ?thesis
    proof (cases sub)
      case (Existing i)
      from Pair [unfolded Inr Existing] have "s' = s" by (rule commit_submission_Inr) auto
      with Pair show ?thesis by simp
    next
      case (Created i)
      from submission_placed [OF Pair [unfolded Inr Created]] obtain ty rows answers discount s1 time stamp rq where
        s1: "db_appointments s1 = db_appointments s" "db_next s1 = db_next s" and st: "stamps_only stamp"
        and p: "place_request s1 g data ty rows time PENDING CONSUMED answers discount draws stamp now = (Inr rq, s')" by blast
      with place_request_Inr [OF p st] s1 Pair show ?thesis by (simp add: same_diary_def)
    qed
  qed
qed

lemma submit_step: "roster_step s (snd (submit_booking verify_captcha token s g data draws now))"
proof -
  obtain out s1 where c: "commit_submission verify_captcha token s g data draws now = (out, s1)" by fastforce
  with submission_diary [of s verify_captcha token g data draws now] have d: "same_diary s s1" by simp
  have "roster_step s (snd (auto_accept_booking_request (emit (BOOKING_REQUEST_CREATED i) s1) g i now))" for i
    by (rule roster_step_from [OF same_diary_trans [OF d same_diary_puts(2)] auto_accept_step])
  with c d show ?thesis
    by (auto simp: submit_booking_def same_diary_step split: sum.splits submission.splits prod.splits)
      (metis snd_conv)+
qed

lemma create_deposit_hold_diary: "same_diary s (snd (create_deposit_hold s g ty rq pvs name enabled configured account now))"
  by (simp add: same_diary_def create_deposit_hold_def Let_def put_payment_def insert_payment_def log_call_def
      split: sum.split option.split prod.split)

lemma accept_deposit_diary: "same_diary s (snd (accept_deposit s g ty rq su recovery now))"
proof -
  let ?rq' = "rq\<lparr>rq_status := AWAITING_PAYMENT,
      rq_hold_expires := Some (payment_hold_deadline now (su_hold_minutes su)), rq_recovery_token := Some recovery\<rparr>"
  have "same_diary s (snd (start_deposit (put_request ?rq' s) g ty ?rq' su now))"
    unfolding start_deposit_def by (rule same_diary_trans [OF same_diary_puts(1) create_deposit_hold_diary])
  then show ?thesis by (auto simp: accept_deposit_def Let_def split: prod.split sum.split)
qed

lemma accept_plain_step: "roster_step s (snd (accept_plain s g rq now))"
proof -
  let ?rq' = "rq\<lparr>rq_status := PENDING, rq_hold_expires := None\<rparr>"
  let ?s1 = "emit (BOOKING_REQUEST_CREATED (rq_id ?rq')) (put_request ?rq' s)"
  have "snd (accept_plain s g rq now) = snd (auto_accept_booking_request ?s1 g (rq_id ?rq') now)"
    by (simp add: accept_plain_def Let_def split: prod.split sum.split option.split)
  moreover have "same_diary s ?s1" by (rule same_diary_trans [OF same_diary_puts(1,2)])
  ultimately show ?thesis using roster_step_from [OF _ auto_accept_step] by simp
qed

lemma accept_link_step: "roster_step s (snd (accept_by_token s g i accepted version su recovery now))"
  unfolding accept_by_token_def Let_def
  by (simp add: same_diary_step accept_plain_step accept_deposit_diary
      split: option.split acceptance_state.split sum.split)

text \<open>The desk: what its checks leave alone, and the row it adds or replaces.\<close>

definition same_book :: "db \<Rightarrow> db \<Rightarrow> bool" where
  "same_book s s' \<longleftrightarrow> same_diary s s' \<and> catalogue s' = catalogue s \<and> db_requests s' = db_requests s
     \<and> db_statuses s' = db_statuses s"

lemma same_book_refl [simp]: "same_book s s"
  by (simp add: same_book_def)

lemma same_book_trans: "same_book a b \<Longrightarrow> same_book b c \<Longrightarrow> same_book a c"
  by (auto simp: same_book_def intro: same_diary_trans)

lemma same_book_diary: "same_book s s' \<Longrightarrow> same_diary s s'"
  by (simp add: same_book_def)

lemma same_book_redemptions: "\<exists>rds. s' = s\<lparr>db_redemptions := rds\<rparr> \<Longrightarrow> same_book s s'"
  by (auto simp: same_book_def same_diary_def catalogue_def)

lemma same_book_moves:
  "same_book s (sync_appointment_redemption s ap now)" "same_book s (release_appointment_discount s i now)"
  by (rule same_book_redemptions, rule redemption_moves)+

lemma same_book_emit [simp]: "same_book s (emit ev s)"
  by (simp add: same_book_def catalogue_def emit_def same_diary_def)

lemma owned_rows_book:
  "get_owned_customer s g i = (c, s1) \<Longrightarrow> same_book s s1" "get_owned_vehicle s g v j = (w, s2) \<Longrightarrow> same_book s s2"
  by (auto simp: get_owned_customer_def get_owned_vehicle_def put_customer_def put_vehicle_def same_book_def
      same_diary_def catalogue_def split: option.splits if_splits)

lemma evaluate_code_book: "evaluate_code s g code customer p exclude now = (r, s') \<Longrightarrow> same_book s s'"
  by (rule same_book_redemptions) (rule evaluate_code_frame)

lemma evaluate_for_staff_book: "evaluate_for_staff s g code customer p ap now = (r, s') \<Longrightarrow> same_book s s'"
  by (auto simp: evaluate_for_staff_def Let_def dest: evaluate_code_book split: sum.splits prod.splits)

lemma staff_discount_book: "staff_discount s g code customer p now = (r, s') \<Longrightarrow> same_book s s'"
  by (auto simp: staff_discount_def dest: evaluate_for_staff_book split: option.splits if_splits sum.splits prod.splits)

lemma new_discount_book: "new_discount s g ap change customer p now = (r, s') \<Longrightarrow> same_book s s'"
  by (auto simp: new_discount_def dest: evaluate_for_staff_book split: option.splits list.splits sum.splits prod.splits)

lemma redeem_or_abort_book: "redeem_or_abort s result ap now = (r, s') \<Longrightarrow> same_book s s'"
  by (auto simp: redeem_or_abort_def redeem_def same_book_def same_diary_def catalogue_def Let_def
      split: if_splits sum.splits prod.splits)

lemma issue_reward_book: "same_book s (issue_reward_safely s ap now draws)"
proof -
  have "same_book s s'" if "issue s st i n a now draws = (r, s')" for st i n a r s'
    using issue_result [OF that] by (simp add: only_adds_codes_def same_book_def same_diary_def catalogue_def)
  then have "same_book s (snd (issue_reward_for_completion s ap now draws))"
    by (auto simp: issue_reward_for_completion_def split: option.splits prod.splits code_creation.splits)
  then show ?thesis by (auto simp: issue_reward_safely_def split: sum.splits prod.splits)
qed

lemma committed_Inr [simp]: "committed s r = (Inr x, s') \<longleftrightarrow> r = (Inr x, s')"
  by (cases r; cases "fst r") (auto simp: committed_def)

lemma committed_Inl: "committed s r = (Inl e, s') \<Longrightarrow> s' = s"
  by (cases r; cases "fst r") (auto simp: committed_def)

text \<open>What a successful creation went through, and the row it stored.\<close>

definition created_from ::
  "db \<Rightarrow> garage \<Rightarrow> appointment_data \<Rightarrow> instant \<Rightarrow> db \<Rightarrow> db \<Rightarrow> appointment \<Rightarrow> db \<Rightarrow> bool"
where
  "created_from s g data now s2 s3 ap s' \<longleftrightarrow> same_book s s2 \<and> same_book s2 s3
     \<and> \<not> has_employee_conflict s2 (cd_employee data) (cd_start data) (ap_end ap) None
     \<and> (cd_status data \<noteq> Some AP_CANCELLED \<longrightarrow> \<not> capacity_exceeded s2 g (cd_start data) (ap_end ap) None)
     \<and> cd_start data < ap_end ap
     \<and> ap_id ap = fresh_id s3 \<and> ap_garage ap = g_id g \<and> ap_employee ap = cd_employee data \<and> ap_start ap = cd_start data
     \<and> ap_status ap = (case cd_status data of None \<Rightarrow> AP_BOOKED | Some st \<Rightarrow> st)
     \<and> same_book (insert_appointment ap s3) s'"

lemma store_appointment_book:
  assumes "store_appointment s ap discount now = (Inr ap', s')"
  shows "ap' = ap \<and> same_book (insert_appointment ap s) s'"
proof (cases discount)
  case (Some result)
  from assms [unfolded store_appointment_def Let_def Some option.case outcome_case_Inr]
  obtain s2 where "redeem_or_abort (insert_appointment ap s) result ap now = (Inr (), s2)"
    and s': "s' = sync_appointment_redemption s2 ap now" "ap' = ap" by auto
  from same_book_trans [OF redeem_or_abort_book [OF this(1)] same_book_moves(1)] show ?thesis by (simp add: s')
qed (use assms in \<open>auto simp: store_appointment_def\<close>)

lemma commit_appointment_Inr:
  assumes "commit_appointment s g data now = (Inr ap, s')"
  shows "\<exists>s2 s3. created_from s g data now s2 s3 ap s'"
proof -
  let ?vehicle = "\<lambda>s1. case cd_vehicle data of None \<Rightarrow> (Inr (), s1)
      | Some v \<Rightarrow> (case get_owned_vehicle s1 g v (cd_customer data) of (Inl e, s2) \<Rightarrow> (Inl e, s2) | (Inr _, s2) \<Rightarrow> (Inr (), s2))"
  from assms obtain customer s1 s2 rows ty end_time price discount s3 where
    c: "get_owned_customer s g (cd_customer data) = (Inr customer, s1)" and v: "?vehicle s1 = (Inr (), s2)"
    and range: "validate_time_range (cd_start data) end_time = Inr ()"
    and free: "check_for_conflict s2 (cd_employee data) (cd_start data) end_time None = Inr ()"
    and room: "(if cd_status data \<noteq> Some AP_CANCELLED then check_capacity s2 g (cd_start data) end_time None else Inr ()) = Inr ()"
    and d: "staff_discount s2 g (cd_code data) customer price now = (Inr discount, s3)"
    and st: "store_appointment s3 (built_appointment s3 g data ty rows end_time price discount now) discount now = (Inr ap, s')"
    unfolding commit_appointment_def committed_Inr checked_Inr outcome_case_Inr by auto
  from v have v': "same_book s1 s2"
    by (auto split: option.splits prod.splits sum.splits dest: owned_rows_book(2))
  note st' = store_appointment_book [OF st]
  have "same_book s s2" by (rule same_book_trans [OF owned_rows_book(1) [OF c] v'])
  moreover have "same_book s2 s3" by (rule staff_discount_book [OF d])
  moreover have "\<not> has_employee_conflict s2 (cd_employee data) (cd_start data) (ap_end ap) None"
    "cd_status data \<noteq> Some AP_CANCELLED \<longrightarrow> \<not> capacity_exceeded s2 g (cd_start data) (ap_end ap) None" "cd_start data < ap_end ap"
    using free room range st'
    by (auto simp: check_for_conflict_def check_capacity_def validate_time_range_def built_appointment_def Let_def)
  ultimately have "created_from s g data now s2 s3 ap s'"
    using st' unfolding created_from_def by (simp add: built_appointment_def Let_def)
  then show ?thesis by blast
qed

lemma create_step: "roster_step s (snd (create_appointment s g data now draws))"
proof -
  obtain res s1 where c: "commit_appointment s g data now = (res, s1)" by fastforce
  show ?thesis
  proof (cases res)
    case (Inl e)
    from c [unfolded Inl commit_appointment_def] have "s1 = s" by (rule committed_Inl)
    with c Inl show ?thesis by (simp add: create_appointment_def same_diary_step)
  next
    case (Inr ap)
    from commit_appointment_Inr [OF c [unfolded Inr]] obtain s2 s3 where cf: "created_from s g data now s2 s3 ap s1" by blast
    then have ss: "same_diary s s3" "same_diary s s2" using same_book_trans same_book_diary by (blast intro: same_book_diary
          dest: created_from_def [THEN iffD1])+
    have "free_for s ap None"
      using cf free_for_same [OF ss(2), of ap None] by (simp add: created_from_def free_for_def)
    then have "roster_step s s1"
      using cf ss(1) by (auto simp: created_from_def roster_step_def same_book_def same_diary_def insert_appointment_def fresh_id_def)
    moreover have "same_diary s1 (if b then issue_reward_safely (emit ev s1) ap now draws else emit ev s1)" for b ev
      by (simp add: same_diary_trans [OF same_diary_puts(2) same_book_diary [OF issue_reward_book]])
    ultimately show ?thesis using c Inr roster_step_to by (simp add: create_appointment_def Let_def)
  qed
qed

text \<open>What a successful edit went through, and the row it left.\<close>

definition edited_from ::
  "db \<Rightarrow> garage \<Rightarrow> uid \<Rightarrow> edit_data \<Rightarrow> instant \<Rightarrow> appointment \<Rightarrow> db \<Rightarrow> appointment_type option
     \<Rightarrow> applied_add_on list option \<Rightarrow> pence option \<Rightarrow> discount_result option \<Rightarrow> db \<Rightarrow> appointment \<Rightarrow> db \<Rightarrow> bool"
where
  "edited_from s g i data now ap s2 replacement planned pre_total discount s3 ap' s' \<longleftrightarrow>
     find (\<lambda>a. ap_id a = i \<and> ap_garage a = g_id g) (db_appointments s) = Some ap
     \<and> replacement_type s g ap data = Inr replacement \<and> planned_add_ons s2 ap replacement data = Inr planned
     \<and> same_book s s2 \<and> same_book s2 s3 \<and> edited_status s2 g ap data = Inr ()
     \<and> given (ud_start data) (ap_start ap) < given (new_end ap data planned) (ap_end ap)
     \<and> check_reschedule s2 g ap data (new_end ap data planned) = Inr ()
     \<and> edited_pre_total ap replacement planned = Inr pre_total
     \<and> (\<exists>customer. new_discount s2 g ap (discount_change ap data) customer pre_total now = (Inr discount, s3))
     \<and> store_edit s3 ap (edited_columns ap data replacement planned (new_end ap data planned)) (discount_change ap data)
          discount pre_total (planned \<noteq> None) now = (Inr ap', s')"

lemma effective_customer_book:
  assumes "effective_customer s g ap data = (Inr c, s1)"
  shows "same_book s s1"
proof (cases "ud_customer data")
  case (Some i)
  from assms [unfolded effective_customer_def Some option.case outcome_case_Inr]
  obtain c' where "get_owned_customer s g i = (Inr c', s1)" by auto
  then show ?thesis by (rule owned_rows_book(1))
qed (use assms in \<open>auto simp: effective_customer_def\<close>)

lemma edited_vehicle_book:
  assumes "edited_vehicle s g ap data = (Inr u, s1)"
  shows "same_book s s1"
proof -
  from assms have "s1 = s \<or> (\<exists>v j w. get_owned_vehicle s g v j = (w, s1))"
    unfolding edited_vehicle_def Let_def by (auto split: option.splits prod.splits sum.splits if_splits)
  with owned_rows_book(2) show ?thesis by auto
qed

lemma commit_edit_Inr:
  assumes "commit_edit s g i data now = (Inr (ap, ap'), s')"
  shows "\<exists>s2 replacement planned pre_total discount s3.
    edited_from s g i data now ap s2 replacement planned pre_total discount s3 ap' s'"
proof -
  from assms obtain ap0 where f: "find (\<lambda>a. ap_id a = i \<and> ap_garage a = g_id g) (db_appointments s) = Some ap0"
    by (auto simp: commit_edit_def split: option.splits)
  from assms [unfolded commit_edit_def committed_Inr f option.case checked_Inr outcome_case_Inr Let_def]
  obtain replacement customer s1 s2 planned pre_total discount s3 where
    "ap0 = ap" and p: "replacement_type s g ap0 data = Inr replacement" "planned_add_ons s2 ap0 replacement data = Inr planned"
    and c: "effective_customer s g ap0 data = (Inr customer, s1)" and v: "edited_vehicle s1 g ap0 data = (Inr (), s2)"
    and e: "edited_status s2 g ap0 data = Inr ()"
      "validate_time_range (given (ud_start data) (ap_start ap0)) (given (new_end ap0 data planned) (ap_end ap0)) = Inr ()"
      "check_reschedule s2 g ap0 data (new_end ap0 data planned) = Inr ()" "edited_pre_total ap0 replacement planned = Inr pre_total"
    and d: "new_discount s2 g ap0 (discount_change ap0 data) customer pre_total now = (Inr discount, s3)"
    and st: "store_edit s3 ap0 (edited_columns ap0 data replacement planned (new_end ap0 data planned)) (discount_change ap0 data)
          discount pre_total (planned \<noteq> None) now = (Inr ap', s')" by auto
  note frames = effective_customer_book [OF c] edited_vehicle_book [OF v] new_discount_book [OF d]
  then have "same_book s s2" using same_book_trans by blast
  with frames f p e d st \<open>ap0 = ap\<close>
  have "edited_from s g i data now ap s2 replacement planned pre_total discount s3 ap' s'"
    unfolding edited_from_def validate_time_range_def require_Inr by auto
  then show ?thesis by blast
qed

text \<open>The row an edit writes keeps the columns that place it; only prices and the discount are added.\<close>

definition same_columns :: "appointment \<Rightarrow> appointment \<Rightarrow> bool" where
  "same_columns a b \<longleftrightarrow> ap_id b = ap_id a \<and> ap_employee b = ap_employee a \<and> ap_start b = ap_start a
     \<and> ap_end b = ap_end a \<and> ap_status b = ap_status a \<and> ap_garage b = ap_garage a"

lemma reprice_book: "reprice_snapshot s ds red pre = (r, s') \<Longrightarrow> same_book s s'"
  by (auto simp: reprice_snapshot_def same_book_def same_diary_def catalogue_def put_redemption_def Let_def
      split: option.splits)

lemma edited_price_columns:
  assumes "edited_price s ap change discount pre_total replanned now = (Inr priced, s')"
  shows "same_columns ap priced \<and> same_book s s'"
proof (cases "change = None")
  case True
  with assms show ?thesis
    by (auto simp: edited_price_def same_columns_def dest: reprice_book split: if_splits prod.splits)
next
  case False
  let ?s1 = "if ds_code_id (ap_discount ap) \<noteq> None then release_appointment_discount s (ap_id ap) now else s"
  have d: "same_book s ?s1" using same_book_moves(2) by simp
  show ?thesis
  proof (cases discount)
    case None
    with assms False d show ?thesis by (auto simp: edited_price_def same_columns_def Let_def)
  next
    case (Some result)
    let ?ap = "ap\<lparr>ap_discount := apply_snapshot result, ap_price := Some (dr_new_total result)\<rparr>"
    from assms False Some have "redeem_or_abort ?s1 result ?ap now = (Inr (), s')" "priced = ?ap"
      by (auto simp: edited_price_def Let_def split: sum.splits prod.splits)
    with same_book_trans [OF d redeem_or_abort_book] show ?thesis by (simp add: same_columns_def)
  qed
qed

lemma store_edit_row:
  assumes "store_edit s ap edited change discount pre_total replanned now = (Inr ap', s')"
  shows "same_columns edited ap' \<and> (\<exists>t. same_book s t \<and> same_book (put_appointment ap' t) s')"
proof -
  from assms obtain priced s1 where
    p: "edited_price s edited change discount pre_total replanned now = (Inr priced, s1)"
    by (auto simp: store_edit_def split: sum.splits prod.splits)
  note c = edited_price_columns [OF p]
  show ?thesis
  proof (cases "ap_status edited = ap_status ap")
    case True
    with assms p c show ?thesis by (auto simp: store_edit_def)
  next
    case False
    let ?row = "priced\<lparr>ap_completed_at := (if ap_status edited = AP_COMPLETED then Some now else None)\<rparr>"
    from assms p False have "ap' = ?row" "s' = sync_appointment_redemption (put_appointment ?row s1) ?row now"
      by (auto simp: store_edit_def Let_def)
    with c same_book_moves(1) show ?thesis by (auto simp: same_columns_def)
  qed
qed

lemma roster_put:
  assumes "ap \<in> set (db_appointments s)" "ap_id ap' = ap_id ap" "free_for s ap' (Some (ap_id ap)) \<or> same_place ap ap'"
  shows "roster_step s (put_appointment ap' s)"
  using assms unfolding roster_step_def put_appointment_def by simp blast

lemma announce_edit_diary: "same_diary s (announce_edit s old_row new_row now draws)"
  by (simp add: announce_edit_def same_diary_trans [OF same_diary_puts(2) same_book_diary [OF issue_reward_book]])

lemma edited_from_place:
  assumes "edited_from s g i data now ap s2 replacement planned pre_total discount s3 ap' s'"
  shows "ap_id ap' = ap_id ap" "free_for s ap' (Some (ap_id ap)) \<or> same_place ap ap'"
proof -
  let ?ends = "new_end ap data planned"
  from assms have st: "same_columns (edited_columns ap data replacement planned ?ends) ap'"
    unfolding edited_from_def using store_edit_row by blast
  then show "ap_id ap' = ap_id ap" by (simp add: same_columns_def edited_columns_def Let_def)
  from assms have d: "same_book s s2" and check: "check_reschedule s2 g ap data ?ends = Inr ()" by (simp_all add: edited_from_def)
  from st have cols: "ap_employee ap' = given (ud_employee data) (ap_employee ap)" "ap_start ap' = given (ud_start data) (ap_start ap)"
    "ap_end ap' = given ?ends (ap_end ap)" "ap_status ap' = given (ud_status data) (ap_status ap)"
    by (simp_all add: same_columns_def edited_columns_def Let_def)
  show "free_for s ap' (Some (ap_id ap)) \<or> same_place ap ap'"
  proof (cases "live_appointment ap'
      \<and> (ud_employee data \<noteq> None \<or> ud_start data \<noteq> None \<or> ?ends \<noteq> None \<or> ap_status ap = AP_CANCELLED)")
    case True
    with check cols have "check_for_conflict s2 (ap_employee ap') (ap_start ap') (ap_end ap') (Some (ap_id ap)) = Inr ()"
      by (auto simp: check_reschedule_def live_appointment_def Let_def checks_Inr)
    then show ?thesis using free_for_same [OF same_book_diary [OF d]] by (auto simp: check_for_conflict_def free_for_def)
  next
    case False
    with cols show ?thesis by (auto simp: free_for_def same_place_def live_appointment_def given_def)
  qed
qed

lemma edit_step: "roster_step s (snd (edit_appointment s g i data now draws))"
proof -
  obtain res s1 where c: "commit_edit s g i data now = (res, s1)" by fastforce
  show ?thesis
  proof (cases res)
    case (Inl e)
    from c [unfolded Inl commit_edit_def] have "s1 = s" by (rule committed_Inl)
    with c Inl show ?thesis by (simp add: edit_appointment_def same_diary_step)
  next
    case (Inr rows)
    obtain ap ap' where rows: "rows = (ap, ap')" by fastforce
    from commit_edit_Inr [OF c [unfolded Inr rows]] obtain s2 replacement planned pre_total discount s3 where
      e: "edited_from s g i data now ap s2 replacement planned pre_total discount s3 ap' s1" by blast
    from e obtain t where t: "same_book s3 t" "same_book (put_appointment ap' t) s1"
      unfolding edited_from_def using store_edit_row by blast
    from e have "ap \<in> set (db_appointments s)" unfolding edited_from_def by (auto simp: find_Some_iff)
    moreover have st: "same_diary s t" using e t(1) same_book_trans unfolding edited_from_def by (blast intro: same_book_diary)
    ultimately have "roster_step t (put_appointment ap' t)"
      using edited_from_place [OF e] free_for_same by (intro roster_put) (auto simp: same_diary_def)
    then have "roster_step s s1" by (rule roster_step_from [OF st roster_step_to [OF _ same_book_diary [OF t(2)]]])
    then show ?thesis using c Inr rows roster_step_to [OF _ announce_edit_diary] by (simp add: edit_appointment_def)
  qed
qed

lemma delete_step: "roster_step s (snd (delete_appointment s g i now))"
proof (cases "find (\<lambda>a. ap_id a = i \<and> ap_garage a = g_id g) (db_appointments s)")
  case (Some ap)
  let ?ap = "ap\<lparr>ap_status := AP_CANCELLED\<rparr>"
  have "ap \<in> set (db_appointments s)" using Some by (auto simp: find_Some_iff)
  then have put: "roster_step s (put_appointment ?ap s)"
    by (rule roster_put) (simp_all add: free_for_def live_appointment_def)
  note d = same_diary_redemption_moves(3) [of "put_appointment ?ap s" ?ap now]
  from put d same_diary_trans [OF d same_diary_puts(2)] show ?thesis using Some
    by (auto simp: delete_appointment_def checked_def Let_def same_diary_step intro: roster_step_to split: sum.split)
qed (simp add: delete_appointment_def same_diary_step)

subsection \<open>Every way into the diary\<close>

datatype roster_request =
    Approve_request garage employee uid approval_data instant
  | Accept_automatically garage uid instant
  | Submit_online "string \<Rightarrow> bool" string garage booking_data "nat list list" instant
  | Accept_link garage uid bool "int option" payment_setup string instant
  | Create_at_desk garage appointment_data instant "nat list list"
  | Edit_at_desk garage uid edit_data instant "nat list list"
  | Cancel_at_desk garage uid instant

fun handle_roster :: "roster_request \<Rightarrow> db \<Rightarrow> db" where
  "handle_roster (Approve_request g reviewer i data now) s = snd (approve_booking_request s g reviewer i data now)"
| "handle_roster (Accept_automatically g i now) s = snd (auto_accept_booking_request s g i now)"
| "handle_roster (Submit_online verify token g data draws now) s = snd (submit_booking verify token s g data draws now)"
| "handle_roster (Accept_link g i accepted version su recovery now) s = snd (accept_by_token s g i accepted version su recovery now)"
| "handle_roster (Create_at_desk g data now draws) s = snd (create_appointment s g data now draws)"
| "handle_roster (Edit_at_desk g i data now draws) s = snd (edit_appointment s g i data now draws)"
| "handle_roster (Cancel_at_desk g i now) s = snd (delete_appointment s g i now)"

interpretation roster: roster_keeper handle_roster
proof
  show "roster_step s (handle_roster k s)" for s k
    by (cases k) (simp_all add: approve_step auto_accept_step submit_step accept_link_step create_step edit_step delete_step)
qed

subsection \<open>Bays, outcomes, and taking a code off again\<close>

lemma committed_of_create:
  assumes "create_appointment s g data now draws = (Inr ap, s')"
  shows "\<exists>s1. commit_appointment s g data now = (Inr ap, s1) \<and> same_book s1 s'"
proof -
  obtain res s1 where c: "commit_appointment s g data now = (res, s1)" by fastforce
  moreover have "same_book s1 (if b then issue_reward_safely (emit ev s1) ap now draws else emit ev s1)" for b ev
    by (simp add: same_book_trans [OF same_book_emit issue_reward_book])
  ultimately show ?thesis using assms by (auto simp: create_appointment_def Let_def split: sum.splits)
qed

lemma proper_usage_book: "same_book s s' \<Longrightarrow> proper_usage s \<Longrightarrow> proper_usage s'"
  by (simp add: proper_usage_def same_book_def same_diary_def catalogue_def)

lemma create_bays:
  assumes "proper_usage s" "0 \<le> default_appointment_minutes (resolve_settings g)"
    "create_appointment s g data now draws = (Inr ap, s')" "live_appointment ap"
    "day = local_day_for (g_zone g) (ap_start ap)" "ap_start ap \<le> t"
    "t < ap_start ap + duration_minutes (ap_start ap) (ap_end ap) * minute_us"
    "fst (local_day_bounds_utc (g_zone g) day) \<le> t" "t \<le> snd (local_day_bounds_utc (g_zone g) day)"
  shows "bays_in_use s' g day t \<le> slot_capacity s' g (resolve_settings g)"
proof -
  from committed_of_create [OF assms(3)] obtain s1 where c: "commit_appointment s g data now = (Inr ap, s1)" "same_book s1 s'" by blast
  from commit_appointment_Inr [OF c(1)] obtain s2 s3 where cf: "created_from s g data now s2 s3 ap s1" by blast
  then have b: "same_book s s2" "same_book s2 s3" "same_book (insert_appointment ap s3) s'"
    using c(2) same_book_trans by (auto simp: created_from_def)
  obtain used capacity where use: "slot_capacity_usage s2 g (ap_start ap) (duration_minutes (ap_start ap) (ap_end ap)) None None False
      = (used, capacity)" by fastforce
  have "\<not> capacity_exceeded s2 g (ap_start ap) (ap_end ap) None"
    using cf assms(4) by (auto simp: created_from_def live_appointment_def)
  then have "used < slot_capacity s2 g (resolve_settings g)"
    using use by (simp add: capacity_exceeded_def) (simp add: slot_capacity_usage_def Let_def split: prod.splits)
  moreover have added: "db_appointments s' = db_appointments s2 @ [ap]" "db_types s' = db_types s2" "db_requests s' = db_requests s2"
    and "slot_capacity s' g (resolve_settings g) = slot_capacity s2 g (resolve_settings g)"
    using b(2,3) by (simp_all add: same_book_def same_diary_def catalogue_def insert_appointment_def slot_capacity_def
        split: option.split)
  moreover have "bays_in_use s' g day t \<le> used + 1"
    by (rule added_fits [OF proper_usage_book [OF b(1) assms(1)] assms(2) use assms(5-9) added(1) _ assms(4) added(2)])
      (use cf in \<open>simp_all add: created_from_def added(3)\<close>)
  ultimately show ?thesis by simp
qed

lemma terminal_book: "same_book s s' \<Longrightarrow> is_terminal_status s' g st = is_terminal_status s g st"
  by (simp add: is_terminal_status_def same_book_def)

lemma terminal_stays:
  assumes "validate_status_transition s g old requested = Inr ()" "is_terminal_status s g old" "old \<noteq> AP_CANCELLED"
  shows "requested = old"
  using assms by (simp add: validate_status_transition_def split: if_splits)

lemma edit_Inr:
  assumes "edit_appointment s g i data now draws = (Inr ap', s')"
  shows "\<exists>ap s1 s2 replacement planned pre_total discount s3. commit_edit s g i data now = (Inr (ap, ap'), s1)
    \<and> edited_from s g i data now ap s2 replacement planned pre_total discount s3 ap' s1"
proof -
  from assms obtain ap s1 where c: "commit_edit s g i data now = (Inr (ap, ap'), s1)"
    by (auto simp: edit_appointment_def split: sum.splits prod.splits)
  with commit_edit_Inr [OF c] show ?thesis by blast
qed

lemma edited_status_kept:
  assumes "edit_appointment s g i data now draws = (Inr ap', s')"
    "find (\<lambda>a. ap_id a = i \<and> ap_garage a = g_id g) (db_appointments s) = Some ap"
    "is_terminal_status s g (ap_status ap)" "ap_status ap \<noteq> AP_CANCELLED"
  shows "ap_status ap' = ap_status ap"
proof -
  from edit_Inr [OF assms(1)] obtain ap0 s2 s1 replacement planned pre_total discount s3 where
    e0: "edited_from s g i data now ap0 s2 replacement planned pre_total discount s3 ap' s1" by blast
  have "ap0 = ap" using e0 assms(2) by (simp add: edited_from_def)
  note e = e0 [unfolded this]
  then have "ap_status ap' = given (ud_status data) (ap_status ap)"
    using store_edit_row by (fastforce simp: edited_from_def same_columns_def edited_columns_def Let_def)
  moreover have "st = ap_status ap" if "ud_status data = Some st" for st
  proof (rule terminal_stays [OF _ _ assms(4)])
    show "validate_status_transition s2 g (ap_status ap) st = Inr ()"
      using e that by (auto simp: edited_from_def edited_status_def checks_Inr)
    show "is_terminal_status s2 g (ap_status ap)" using e assms(3) terminal_book by (auto simp: edited_from_def)
  qed
  ultimately show ?thesis by (auto simp: given_def split: option.splits)
qed

lemma delete_refused:
  assumes "find (\<lambda>a. ap_id a = i \<and> ap_garage a = g_id g) (db_appointments s) = Some ap"
    "is_terminal_status s g (ap_status ap)" "ap_status ap \<noteq> AP_CANCELLED"
  shows "delete_appointment s g i now = (Inl (Abort 409 ''cannot be moved to another status''), s)"
  using assms by (simp add: delete_appointment_def validate_status_transition_def)

text \<open>An edit of nothing but the discount code.\<close>

definition edit_code :: "string option \<Rightarrow> edit_data" where
  "edit_code c = \<lparr>ud_employee = None, ud_customer = None, ud_vehicle = None, ud_start = None, ud_end = None,
     ud_type = None, ud_status = None, ud_add_ons = None, ud_code = Some c\<rparr>"

lemma edit_code_leaves:
  "edited_columns ap (edit_code c) None None None = ap" "new_end ap (edit_code c) None = None"
  "replacement_type s g ap (edit_code c) = Inr None" "planned_add_ons s ap None (edit_code c) = Inr None"
  "effective_customer s g ap (edit_code c) = (Inr (row_find cu_id (ap_customer ap) (db_customers s)), s)"
  "edited_vehicle s g ap (edit_code c) = (Inr (), s)" "edited_status s g ap (edit_code c) = Inr ()"
  "check_reschedule s g ap (edit_code c) None = Inr ()" "edited_pre_total ap None None = Inr (appointment_pre_total ap)"
  "loyalty_code_stays s ap (edit_code c) = Inr ()"
  by (cases ap; simp add: edited_columns_def edit_code_def given_def new_end_def replacement_type_def planned_add_ons_def
      effective_customer_def edited_vehicle_def edited_status_def check_reschedule_def edited_pre_total_def
      loyalty_code_stays_def Let_def)+

lemma commit_edit_code:
  assumes "find (\<lambda>a. ap_id a = i \<and> ap_garage a = g_id g) (db_appointments s) = Some ap" "ap_start ap < ap_end ap"
    "discount_change ap (edit_code c) = Some change"
  shows "commit_edit s g i (edit_code c) now = committed s
    (case new_discount s g ap (Some change) (row_find cu_id (ap_customer ap) (db_customers s)) (appointment_pre_total ap) now of
       (Inl e, s1) \<Rightarrow> (Inl e, s1)
     | (Inr discount, s1) \<Rightarrow>
         (case store_edit s1 ap ap (Some change) discount (appointment_pre_total ap) False now of
            (Inl e, s2) \<Rightarrow> (Inl e, s2) | (Inr ap', s2) \<Rightarrow> (Inr (ap, ap'), s2)))"
proof -
  have "ud_employee (edit_code c) = None" "ud_start (edit_code c) = None" by (simp_all add: edit_code_def)
  moreover have planned: "((None :: applied_add_on list option) \<noteq> None) = False" by simp
  ultimately show ?thesis using assms
    unfolding commit_edit_def assms(1) option.case edit_code_leaves checked_simps sum.case prod.case Let_def assms(3) planned
    by (simp add: validate_time_range_def given_def edit_code_leaves)
qed

lemma find_row_set:
  "find P rows = Some r \<Longrightarrow> key r' = key r \<Longrightarrow> P r' \<Longrightarrow> find P (row_set key r' rows) = Some r'"
  by (induction rows) (auto simp: row_set_def split: if_splits)

lemma rev_row_set: "rev (row_set key r' rows) = row_set key r' (rev rows)"
  by (simp add: row_set_def rev_map)

lemma released_after:
  "redemption_for_appointment (release_appointment_discount s i now) i = Some r \<Longrightarrow> rd_status r = RELEASED"
proof (cases "redemption_for_appointment s i")
  case (Some r0)
  let ?r = "set_status r0 RELEASED now"
  have "rd_appointment r0 = Some i" "rd_id ?r = rd_id r0" "rd_appointment ?r = rd_appointment r0" "rd_status ?r = RELEASED"
    using Some by (auto simp: redemption_for_appointment_def set_status_def find_Some_iff)
  moreover from this have "redemption_for_appointment (put_redemption ?r s) i = Some ?r"
    using Some find_row_set [of "\<lambda>r. rd_appointment r = Some i" "rev (db_redemptions s)" r0 rd_id ?r]
    by (simp add: redemption_for_appointment_def put_redemption_def rev_row_set)
  moreover assume "redemption_for_appointment (release_appointment_discount s i now) i = Some r"
  ultimately have "r = ?r" using Some by (simp add: release_appointment_discount_def)
  then show ?thesis by (simp add: set_status_def)
qed (simp add: release_appointment_discount_def)

lemma evaluate_for_staff_Inr:
  assumes "evaluate_for_staff s g code customer p ap now = (Inr r, s')"
  shows "p = Some (dr_original_total r) \<and> dr_code r \<in> set (db_codes s) \<and> dc_normalized (dr_code r) = normalize_code (Some code)"
proof -
  from assms obtain exclude where "evaluate_code s g (Some code) customer p exclude now = (Inr r, s')"
    by (auto simp: evaluate_for_staff_def Let_def split: sum.splits prod.splits)
  then show ?thesis unfolding evaluate_code_Inr_iff code_applies_def
    by (auto simp: find_code_def Let_def split: if_splits dest: find_SomeD)
qed

text \<open>What putting a code on a row without one did.\<close>

lemma code_put_on:
  assumes find: "find (\<lambda>a. ap_id a = i \<and> ap_garage a = g_id g) (db_appointments s) = Some ap"
    and "ap_discount ap = no_discount" "normalize_code (Some (strip_text code)) \<noteq> []"
    and run: "edit_appointment s g i (edit_code (Some code)) now draws = (Inr ap', s')"
  shows "\<exists>r. ap' = ap\<lparr>ap_discount := apply_snapshot r, ap_price := Some (dr_new_total r)\<rparr> \<and> ap_start ap < ap_end ap
    \<and> ap_price ap = Some (dr_original_total r) \<and> dr_code r \<in> set (db_codes s)
    \<and> dc_normalized (dr_code r) = normalize_code (Some (strip_text code))
    \<and> db_appointments s' = row_set ap_id ap' (db_appointments s)"
proof -
  from edit_Inr [OF run] obtain ap0 s1 s2 replacement planned pre_total discount s3 where
    c0: "commit_edit s g i (edit_code (Some code)) now = (Inr (ap0, ap'), s1)"
    and e: "edited_from s g i (edit_code (Some code)) now ap0 s2 replacement planned pre_total discount s3 ap' s1" by blast
  from run c0 have s': "s' = announce_edit s1 ap0 ap' now draws" by (simp add: edit_appointment_def)
  have ap0: "ap0 = ap" using e find by (simp add: edited_from_def)
  have "replacement = None" using e by (simp add: edited_from_def edit_code_leaves)
  moreover from this e have "planned = None" by (simp add: edited_from_def edit_code_leaves)
  ultimately have le: "ap_start ap < ap_end ap"
    using e by (simp add: edited_from_def ap0 edit_code_leaves) (simp add: edit_code_def given_def)
  have change: "discount_change ap (edit_code (Some code)) = Some (strip_text code)"
    using assms(2,3) by (simp add: discount_change_def edit_code_def given_def no_discount_def normalize_code_def)
  from assms(3) have "strip_text code \<noteq> []" by (auto simp: normalize_code_def)
  then obtain x xs where letters: "strip_text code = x # xs" by (cases "strip_text code") auto
  have code_id: "ds_code_id (ap_discount ap) = None" and pre: "appointment_pre_total ap = ap_price ap"
    using assms(2) by (simp_all add: no_discount_def appointment_pre_total_def)
  from c0 [unfolded ap0 commit_edit_code [OF find le change] committed_Inr outcome_case_Inr pre]
  obtain d t where d: "new_discount s g ap (Some (strip_text code)) (row_find cu_id (ap_customer ap) (db_customers s)) (ap_price ap) now
      = (Inr d, t)" and st: "store_edit t ap ap (Some (strip_text code)) d (ap_price ap) False now = (Inr ap', s1)" by auto
  from d obtain r where r: "d = Some r" "evaluate_for_staff s g (strip_text code) (row_find cu_id (ap_customer ap) (db_customers s))
      (ap_price ap) (Some ap) now = (Inr r, t)"
    by (auto simp: new_discount_def letters split: sum.splits prod.splits)
  let ?ap = "ap\<lparr>ap_discount := apply_snapshot r, ap_price := Some (dr_new_total r)\<rparr>"
  from st obtain t2 where t2: "redeem_or_abort t r ?ap now = (Inr (), t2)" and "ap' = ?ap" "s1 = put_appointment ?ap t2"
    by (auto simp: store_edit_def edited_price_def r(1) code_id Let_def split: sum.splits prod.splits)
  moreover have "db_appointments t2 = db_appointments s"
    using redeem_or_abort_book [OF t2] evaluate_for_staff_book [OF r(2)] by (simp add: same_book_def same_diary_def)
  moreover have "s' = s1" using \<open>ap' = ?ap\<close> by (simp add: s' ap0 announce_edit_def)
  ultimately show ?thesis using evaluate_for_staff_Inr [OF r(2)] le by (auto simp: put_appointment_def)
qed

text \<open>What taking the code off a row does.\<close>

lemma code_taken_off:
  assumes find: "find (\<lambda>a. ap_id a = i \<and> ap_garage a = g_id g) (db_appointments s) = Some ap"
    and le: "ap_start ap < ap_end ap" and code: "normalize_code (ds_code (ap_discount ap)) \<noteq> []"
    and id: "ds_code_id (ap_discount ap) \<noteq> None"
  shows "edit_appointment s g i (edit_code (Some [])) now draws
    = (let ap' = ap\<lparr>ap_discount := clear_snapshot, ap_price := appointment_pre_total ap\<rparr>
       in (Inr ap', put_appointment ap' (release_appointment_discount s (ap_id ap) now)))"
proof -
  have change: "discount_change ap (edit_code (Some [])) = Some []"
    using code by (auto simp: discount_change_def edit_code_def given_def normalize_code_def strip_text_def)
  show ?thesis unfolding edit_appointment_def commit_edit_code [OF find le change]
    using id by (simp add: new_discount_def store_edit_def edited_price_def committed_def announce_edit_def Let_def)
qed

lemma code_round_trip:
  assumes find: "find (\<lambda>a. ap_id a = i \<and> ap_garage a = g_id g) (db_appointments s) = Some ap"
    and plain: "ap_discount ap = no_discount" and spelt: "normalize_code (Some (strip_text code)) \<noteq> []"
    and spelled: "codes_spelled s"
    and run: "edit_appointment s g i (edit_code (Some code)) now draws = (Inr ap', s')"
  shows "\<exists>s''. edit_appointment s' g i (edit_code (Some [])) later draws' = (Inr ap, s'')
    \<and> (\<forall>r. redemption_for_appointment s'' i = Some r \<longrightarrow> rd_status r = RELEASED)"
proof -
  from code_put_on [OF find plain spelt run] obtain r where
    r: "ap' = ap\<lparr>ap_discount := apply_snapshot r, ap_price := Some (dr_new_total r)\<rparr>" "ap_start ap < ap_end ap"
      "ap_price ap = Some (dr_original_total r)" "dr_code r \<in> set (db_codes s)"
      "dc_normalized (dr_code r) = normalize_code (Some (strip_text code))"
      "db_appointments s' = row_set ap_id ap' (db_appointments s)" by blast
  have row: "ap_id ap = i" "ap_garage ap = g_id g" using find_SomeD [OF find] by simp_all
  have find': "find (\<lambda>a. ap_id a = i \<and> ap_garage a = g_id g) (db_appointments s') = Some ap'"
    unfolding r(6) by (rule find_row_set [OF find]) (simp_all add: r(1) row)
  have code': "normalize_code (ds_code (ap_discount ap')) \<noteq> []"
    using spelled r(1,4,5) spelt by (auto simp: codes_spelled_def apply_snapshot_def)
  have "ap'\<lparr>ap_discount := clear_snapshot, ap_price := appointment_pre_total ap'\<rparr> = ap"
    using plain r(3) by (cases ap) (simp add: r(1) appointment_pre_total_def apply_snapshot_def no_discount_def clear_snapshot_def)
  then have "edit_appointment s' g i (edit_code (Some [])) later draws'
      = (Inr ap, put_appointment ap (release_appointment_discount s' i later))"
    using code_taken_off [OF find' _ code', of later draws'] r(1,2) row by (simp add: apply_snapshot_def Let_def)
  moreover have "redemption_for_appointment (put_appointment ap t) i = redemption_for_appointment t i" for t
    by (simp add: redemption_for_appointment_def put_appointment_def)
  ultimately show ?thesis using released_after by auto
qed

text \<open>The operations of the desk alone, on a row whose status is an outcome.\<close>

fun desk_request :: "roster_request \<Rightarrow> bool" where
  "desk_request (Create_at_desk g data now draws) = True"
| "desk_request (Edit_at_desk g i data now draws) = True"
| "desk_request (Cancel_at_desk g i now) = True"
| "desk_request _ = False"

definition settled :: "db \<Rightarrow> uid \<Rightarrow> uid \<Rightarrow> appointment_status \<Rightarrow> db \<Rightarrow> bool" where
  "settled s0 i garage_id st s \<longleftrightarrow> db_statuses s = db_statuses s0
     \<and> (\<exists>ap \<in> set (db_appointments s). ap_id ap = i \<and> ap_garage ap = garage_id \<and> ap_status ap = st)"

lemma settled_book: "same_book s s' \<Longrightarrow> settled s0 i gid st s \<Longrightarrow> settled s0 i gid st s'"
  by (simp add: settled_def same_book_def same_diary_def)

lemma settled_inserted: "settled s0 i gid st s \<Longrightarrow> settled s0 i gid st (insert_appointment ap s)"
  by (auto simp: settled_def insert_appointment_def)

text \<open>Writing a row back keeps what is settled, unless it is that very row with another status.\<close>

lemma settled_put:
  assumes "settled s0 i gid st s" "ap_id ap' = i \<longrightarrow> ap_garage ap' = gid \<and> ap_status ap' = st"
  shows "settled s0 i gid st (put_appointment ap' s)"
proof -
  from assms(1) obtain ap where ap: "ap \<in> set (db_appointments s)" "ap_id ap = i" "ap_garage ap = gid" "ap_status ap = st"
    and st: "db_statuses s = db_statuses s0" by (auto simp: settled_def)
  have "(if ap_id ap = ap_id ap' then ap' else ap) \<in> set (row_set ap_id ap' (db_appointments s))"
    using ap(1) by (force simp: row_set_def)
  then show ?thesis using ap st assms(2) unfolding settled_def put_appointment_def by (auto split: if_splits)
qed

lemma the_row:
  assumes "roster_ok s" "ap \<in> set (db_appointments s)"
    "find (\<lambda>a. ap_id a = ap_id ap \<and> ap_garage a = gid) (db_appointments s) = Some ap0"
  shows "ap0 = ap"
  using find_SomeD [OF assms(3)] assms(1,2) by (auto simp: roster_ok_def distinct_map inj_on_def)

text \<open>What each desk operation does to the diary.\<close>

lemma create_effect:
  assumes "create_appointment s g data now draws = (res, s')"
  shows "s' = s \<or> (\<exists>t ap. same_book s t \<and> same_book (insert_appointment ap t) s')"
proof (cases res)
  case (Inl e)
  obtain r s1 where c: "commit_appointment s g data now = (r, s1)" by fastforce
  with assms Inl have "r = Inl e" "s' = s1" by (auto simp: create_appointment_def Let_def split: sum.splits)
  with c committed_Inl have "s' = s" unfolding commit_appointment_def by blast
  then show ?thesis ..
next
  case (Inr ap)
  with committed_of_create assms obtain s1 where c: "commit_appointment s g data now = (Inr ap, s1)" "same_book s1 s'" by blast
  from commit_appointment_Inr [OF c(1)] obtain s2 s3 where "created_from s g data now s2 s3 ap s1" by blast
  then have "same_book s s3 \<and> same_book (insert_appointment ap s3) s'"
    using c(2) same_book_trans by (auto simp: created_from_def)
  then show ?thesis by blast
qed

definition replaced_row :: "db \<Rightarrow> garage \<Rightarrow> uid \<Rightarrow> appointment \<Rightarrow> appointment \<Rightarrow> db \<Rightarrow> bool" where
  "replaced_row s g i old_row new_row s' \<longleftrightarrow>
     find (\<lambda>a. ap_id a = i \<and> ap_garage a = g_id g) (db_appointments s) = Some old_row
     \<and> ap_id new_row = ap_id old_row \<and> ap_garage new_row = ap_garage old_row
     \<and> (\<exists>t. same_book s t \<and> same_book (put_appointment new_row t) s')"

lemma edit_effect:
  assumes "edit_appointment s g i data now draws = (res, s')"
  shows "s' = s \<or> (\<exists>old_row new_row. res = Inr new_row \<and> replaced_row s g i old_row new_row s')"
proof (cases res)
  case (Inl e)
  obtain r s1 where c: "commit_edit s g i data now = (r, s1)" by fastforce
  with assms Inl have "r = Inl e" "s' = s1" by (auto simp: edit_appointment_def split: sum.splits prod.splits)
  with c committed_Inl have "s' = s" unfolding commit_edit_def by blast
  then show ?thesis ..
next
  case (Inr new_row)
  from edit_Inr [OF assms [unfolded Inr]] obtain old_row s1 s2 replacement planned pre_total discount s3 where
    c: "commit_edit s g i data now = (Inr (old_row, new_row), s1)"
    and e: "edited_from s g i data now old_row s2 replacement planned pre_total discount s3 new_row s1" by blast
  from e obtain t where t: "same_book s3 t" "same_book (put_appointment new_row t) s1"
    unfolding edited_from_def using store_edit_row by blast
  have "ap_garage new_row = ap_garage old_row" using e store_edit_row
    by (fastforce simp: edited_from_def same_columns_def edited_columns_def Let_def)
  moreover have "same_book s t" using e t(1) same_book_trans unfolding edited_from_def by blast
  moreover have "same_book s1 s'" using assms Inr c
    by (simp add: edit_appointment_def) (auto simp: announce_edit_def same_book_trans [OF same_book_emit issue_reward_book])
  then have "same_book (put_appointment new_row t) s'" by (rule same_book_trans [OF t(2)])
  ultimately show ?thesis using Inr e edited_from_place(1) [OF e] unfolding replaced_row_def edited_from_def by blast
qed

lemma delete_effect:
  "snd (delete_appointment s g i now) = s
   \<or> (\<exists>old_row. validate_status_transition s g (ap_status old_row) AP_CANCELLED = Inr ()
        \<and> replaced_row s g i old_row (old_row\<lparr>ap_status := AP_CANCELLED\<rparr>) (snd (delete_appointment s g i now)))"
proof (cases "find (\<lambda>a. ap_id a = i \<and> ap_garage a = g_id g) (db_appointments s)")
  case (Some old_row)
  let ?row = "old_row\<lparr>ap_status := AP_CANCELLED\<rparr>"
  let ?s = "sync_appointment_redemption (put_appointment ?row s) ?row now"
  have book: "same_book (put_appointment ?row s) ?s" by (rule same_book_moves)
  then have "same_book (put_appointment ?row s) (emit ev ?s)" for ev by (rule same_book_trans [OF _ same_book_emit])
  with book show ?thesis using Some
    by (cases "validate_status_transition s g (ap_status old_row) AP_CANCELLED")
      (auto simp: delete_appointment_def replaced_row_def Let_def intro!: exI [of _ old_row] exI [of _ s])
qed (simp add: delete_appointment_def)

lemma settled_replaced:
  assumes "settled s0 i gid st s" "replaced_row s g j old_row new_row s'"
    "ap_id old_row = i \<Longrightarrow> ap_garage old_row = gid \<and> ap_status new_row = st"
  shows "settled s0 i gid st s'"
proof -
  from assms(2) obtain t where t: "same_book s t" "same_book (put_appointment new_row t) s'" by (auto simp: replaced_row_def)
  have "settled s0 i gid st (put_appointment new_row t)"
    by (rule settled_put [OF settled_book [OF t(1) assms(1)]]) (use assms(2,3) in \<open>auto simp: replaced_row_def\<close>)
  with t(2) show ?thesis by (rule settled_book)
qed

lemma settled_step:
  assumes ok: "roster_ok s" and settled: "settled s0 i (g_id g) st s"
    and outcome: "is_terminal_status s0 g st" "st \<noteq> AP_CANCELLED" and desk: "desk_request k"
  shows "settled s0 i (g_id g) st (handle_roster k s)"
proof -
  from settled obtain ap where ap: "ap \<in> set (db_appointments s)" "ap_id ap = i" "ap_garage ap = g_id g" "ap_status ap = st"
    and statuses: "db_statuses s = db_statuses s0" by (auto simp: settled_def)
  have the: "ap_garage old_row = g_id g \<and> ap_status old_row = st \<and> is_terminal_status s g' st"
    if "replaced_row s g' j old_row new_row s'" "ap_id old_row = i" for g' j old_row new_row s'
  proof -
    have f: "find (\<lambda>a. ap_id a = j \<and> ap_garage a = g_id g') (db_appointments s) = Some old_row"
      using that by (simp add: replaced_row_def)
    with that(2) ap(2) have "ap_id ap = j" "ap_garage old_row = g_id g'" using find_SomeD [OF f] by auto
    with the_row [OF ok ap(1)] f have "old_row = ap" by blast
    with \<open>ap_garage old_row = g_id g'\<close> ap(3,4) outcome(1) show ?thesis by (simp add: is_terminal_status_def statuses)
  qed
  show ?thesis
  proof (cases k)
    case (Create_at_desk g' data now draws)
    with create_effect [OF prod.collapse [symmetric], of s g' data now draws] settled settled_book settled_inserted
    show ?thesis by auto
  next
    case (Edit_at_desk g' j data now draws)
    obtain res s' where run: "edit_appointment s g' j data now draws = (res, s')" by fastforce
    from edit_effect [OF run] show ?thesis
    proof (elim disjE exE conjE)
      fix old_row new_row
      assume new: "res = Inr new_row" and r: "replaced_row s g' j old_row new_row s'"
      have "ap_status new_row = st" if "ap_id old_row = i"
        using edited_status_kept [OF run [unfolded new]] the [OF r that] r outcome(2) by (simp add: replaced_row_def)
      with settled_replaced [OF settled r] the [OF r] run show ?thesis by (simp add: Edit_at_desk)
    qed (simp add: Edit_at_desk run settled)
  next
    case (Cancel_at_desk g' j now)
    from delete_effect [of s g' j now] show ?thesis
    proof (elim disjE exE conjE)
      fix old_row :: appointment
      let ?row = "old_row\<lparr>ap_status := AP_CANCELLED\<rparr>"
      assume v: "validate_status_transition s g' (ap_status old_row) AP_CANCELLED = Inr ()"
        and r: "replaced_row s g' j old_row ?row (snd (delete_appointment s g' j now))"
      have "ap_id old_row \<noteq> i" using terminal_stays [OF v] the [OF r] outcome(2) by auto
      with settled_replaced [OF settled r] show ?thesis by (simp add: Cancel_at_desk)
    qed (simp add: Cancel_at_desk settled)
  qed (use desk in auto)
qed

lemma settled_fold:
  assumes "is_terminal_status s0 g st" "st \<noteq> AP_CANCELLED"
  shows "roster_ok s \<Longrightarrow> settled s0 i (g_id g) st s \<Longrightarrow> \<forall>k \<in> set ks. desk_request k \<Longrightarrow>
    settled s0 i (g_id g) st (fold handle_roster ks s)"
  by (induction ks arbitrary: s) (simp_all add: settled_step [OF _ _ assms] roster.keeps)

subsection \<open>Example for the witnesses\<close>

definition client :: customer where
  "client = \<lparr>cu_id = 3, cu_garage = 1, cu_first = ''A'', cu_last = ''B'', cu_email = None, cu_phone = None, cu_active = True\<rparr>"

definition desk_db :: db where
  "desk_db = demo_db\<lparr>db_employees := [mechanic], db_types := [service_type], db_customers := [client],
     db_codes := [demo_code\<lparr>dc_garage := 1\<rparr>], db_appointments := [demo_appointment\<lparr>ap_price := Some 5000\<rparr>]\<rparr>"

definition desk_data :: appointment_data where
  "desk_data = \<lparr>cd_employee = 2, cd_customer = 3, cd_vehicle = None, cd_start = day_us + 14 * hour_us, cd_end = None,
     cd_type = 4, cd_status = None, cd_add_ons = [], cd_code = None\<rparr>"

lemmas desk_demo = client_def desk_db_def desk_data_def review_demo demo_code_def

lemma desk_checks:
  "get_owned_employee desk_db demo_garage 2 = Inr mechanic" "get_owned_customer desk_db demo_garage 3 = (Inr client, desk_db)"
  "get_owned_appointment_type desk_db demo_garage 4 = Inr service_type"
  "resolve_selection desk_db service_type [] Map.empty = Inr []" "validate_status desk_db demo_garage None = Inr ()"
  by (simp_all add: get_owned_employee_def get_owned_customer_def get_owned_appointment_type_def resolve_selection_def
      validate_status_def desk_demo demo_defs)

lemma desk_ok: "roster_ok desk_db" "proper_usage desk_db" "codes_spelled desk_db"
  by (simp_all add: roster_ok_def no_double_booking_def proper_usage_def codes_spelled_def normalize_code_def desk_demo
      demo_defs text_eval)

lemma desk_room:
  "check_for_conflict desk_db 2 (day_us + 14 * hour_us) (day_us + 15 * hour_us) None = Inr ()"
  "check_capacity desk_db demo_garage (day_us + 14 * hour_us) (day_us + 15 * hour_us) None = Inr ()"
  by (simp_all add: check_for_conflict_def check_capacity_def capacity_exceeded_def has_employee_conflict_def
      duration_minutes_def live_appointment_def Let_def desk_demo calendar_eval holding_statuses_def)

lemma desk_created:
  "\<exists>ap s'. create_appointment desk_db demo_garage desk_data 0 [] = (Inr ap, s')
    \<and> ap_start ap = day_us + 14 * hour_us \<and> ap_end ap = day_us + 15 * hour_us \<and> live_appointment ap
    \<and> db_appointments s' = db_appointments desk_db @ [ap]"
proof -
  have data: "cd_employee desk_data = 2" "cd_customer desk_data = 3" "cd_type desk_data = 4" "cd_vehicle desk_data = None"
    "cd_add_ons desk_data = []" "cd_start desk_data = day_us + 14 * hour_us" "cd_status desk_data = None" "cd_code desk_data = None"
    by (simp_all add: desk_data_def)
  have ends: "resolve_end_time (day_us + 14 * hour_us) (cd_end desk_data) service_type (duration_delta []) = Inr (day_us + 15 * hour_us)"
    by (simp add: resolve_end_time_def default_end_time_def duration_delta_def desk_demo eval_simps)
  have price: "total_price (ty_base_price service_type) (price_delta []) = Inr (Some 5000)"
    by (simp add: total_price_def price_delta_def desk_demo)
  have range: "validate_time_range (day_us + 14 * hour_us) (day_us + 15 * hour_us) = Inr ()"
    by (simp add: validate_time_range_def eval_simps)
  let ?ap = "built_appointment desk_db demo_garage desk_data service_type [] (day_us + 15 * hour_us) (Some 5000) None 0"
  have "commit_appointment desk_db demo_garage desk_data 0 = (Inr ?ap, insert_appointment ?ap desk_db)"
    unfolding commit_appointment_def data desk_checks checked_simps sum.case prod.case option.case ends price range desk_room
    by (simp add: committed_def staff_discount_def store_appointment_def desk_room)
  then show ?thesis
    by (simp add: create_appointment_def built_appointment_def Let_def data live_appointment_def insert_appointment_def emit_def)
qed

definition settled_db :: db where
  "settled_db = desk_db\<lparr>db_appointments := [demo_appointment\<lparr>ap_status := AP_COMPLETED\<rparr>]\<rparr>"

lemma settled_ok: "roster_ok settled_db"
  by (simp add: roster_ok_def no_double_booking_def settled_db_def desk_demo demo_defs)

subsection \<open>Properties\<close>

text \<open>
  No employee is ever booked twice. Whatever mix of approvals, automatic acceptances, online
  submissions, accepted links and appointments created, edited or cancelled by staff is handled, in any
  order, no two live appointments of one employee overlap.
\<close>

theorem no_way_to_double_book:
  assumes "roster_ok s" "i < j" "j < length (db_appointments (fold handle_roster requests s))"
  shows "\<not> clash (db_appointments (fold handle_roster requests s) ! i) (db_appointments (fold handle_roster requests s) ! j)"
  using roster.fold_keeps [OF assms(1), of requests] assms(2,3)
  by (simp add: roster_ok_def no_double_booking_def sorted_wrt_iff_nth_less)

theorem no_way_to_double_book_witness:
  "\<exists>s'. s' = fold handle_roster [Create_at_desk demo_garage desk_data 0 []] desk_db
     \<and> length (db_appointments s') = 2 \<and> \<not> clash (db_appointments s' ! 0) (db_appointments s' ! 1)"
proof -
  let ?requests = "[Create_at_desk demo_garage desk_data 0 []]"
  obtain ap s' where "create_appointment desk_db demo_garage desk_data 0 [] = (Inr ap, s')"
    "db_appointments s' = db_appointments desk_db @ [ap]" using desk_created by blast
  then have "length (db_appointments (fold handle_roster ?requests desk_db)) = 2" by (simp add: desk_db_def)
  with no_way_to_double_book [OF desk_ok(1), of 0 1 ?requests] show ?thesis by auto
qed

text \<open>
  An appointment staff create fits the bays: at every instant of it (while the local day lasts),
  the live appointments, the new one included, and the requests still holding a slot do not exceed the
  capacity of the business.
\<close>

theorem desk_booking_fits_the_bays:
  assumes "proper_usage s" "0 \<le> default_appointment_minutes (resolve_settings g)"
    "create_appointment s g data now draws = (Inr ap, s')" "live_appointment ap"
    "day = local_day_for (g_zone g) (ap_start ap)" "ap_start ap \<le> t"
    "t < ap_start ap + duration_minutes (ap_start ap) (ap_end ap) * minute_us"
    "fst (local_day_bounds_utc (g_zone g) day) \<le> t" "t \<le> snd (local_day_bounds_utc (g_zone g) day)"
  shows "bays_in_use s' g day t \<le> slot_capacity s' g (resolve_settings g)"
  by (rule create_bays [OF assms])

theorem desk_booking_fits_the_bays_witness:
  "\<exists>ap s'. create_appointment desk_db demo_garage desk_data 0 [] = (Inr ap, s')
     \<and> bays_in_use s' demo_garage 1 (day_us + 14 * hour_us) \<le> slot_capacity s' demo_garage (resolve_settings demo_garage)"
proof -
  from desk_created obtain ap s' where run: "create_appointment desk_db demo_garage desk_data 0 [] = (Inr ap, s')"
    and ap: "ap_start ap = day_us + 14 * hour_us" "ap_end ap = day_us + 15 * hour_us" "live_appointment ap" by blast
  have "bays_in_use s' demo_garage 1 (day_us + 14 * hour_us) \<le> slot_capacity s' demo_garage (resolve_settings demo_garage)"
    by (rule desk_booking_fits_the_bays [OF desk_ok(2) _ run ap(3)])
      (simp_all add: ap duration_minutes_def calendar_eval)
  with run show ?thesis by blast
qed

text \<open>
  C26: An outcome is final. Once an appointment has a status the business counts as terminal, other
  than cancelled, nothing staff create, edit or cancel afterwards changes that status.
\<close>

theorem outcome_is_final:
  assumes "roster_ok s" "ap \<in> set (db_appointments s)" "ap_garage ap = g_id g"
    "is_terminal_status s g (ap_status ap)" "ap_status ap \<noteq> AP_CANCELLED" "\<forall>k \<in> set requests. desk_request k"
  shows "\<exists>ap' \<in> set (db_appointments (fold handle_roster requests s)). ap_id ap' = ap_id ap \<and> ap_status ap' = ap_status ap"
proof -
  have "settled s (ap_id ap) (g_id g) (ap_status ap) s" using assms(2,3) by (auto simp: settled_def)
  from settled_fold [OF assms(4,5,1) this assms(6)] show ?thesis by (auto simp: settled_def)
qed

theorem outcome_is_final_witness:
  "\<exists>ap' \<in> set (db_appointments (fold handle_roster
      [Cancel_at_desk demo_garage 10 0, Create_at_desk demo_garage desk_data 0 [], Cancel_at_desk demo_garage 10 1] settled_db)).
    ap_id ap' = 10 \<and> ap_status ap' = AP_COMPLETED"
proof -
  let ?ap = "demo_appointment\<lparr>ap_status := AP_COMPLETED\<rparr>"
  have "is_terminal_status settled_db demo_garage (ap_status ?ap)"
    by (simp add: is_terminal_status_def settled_db_def desk_demo demo_defs)
  moreover have "?ap \<in> set (db_appointments settled_db)" "ap_garage ?ap = g_id demo_garage" "ap_status ?ap \<noteq> AP_CANCELLED"
    "ap_id ?ap = 10" "ap_status ?ap = AP_COMPLETED" by (simp_all add: settled_db_def demo_defs)
  ultimately show ?thesis
    using outcome_is_final [OF settled_ok, of ?ap demo_garage
      "[Cancel_at_desk demo_garage 10 0, Create_at_desk demo_garage desk_data 0 [], Cancel_at_desk demo_garage 10 1]"] by simp
qed

text \<open>
  Taking a code off gives everything back. When staff put a code on an appointment without one and
  take it off again, the second edit succeeds, the row is again exactly what it was, price included, and
  the redemption is released.
\<close>

theorem removing_a_code_restores_the_row:
  assumes "find (\<lambda>a. ap_id a = i \<and> ap_garage a = g_id g) (db_appointments s) = Some ap"
    "ap_discount ap = no_discount" "normalize_code (Some (strip_text code)) \<noteq> []" "codes_spelled s"
    "edit_appointment s g i (edit_code (Some code)) now draws = (Inr ap', s')"
  shows "\<exists>s''. edit_appointment s' g i (edit_code (Some [])) later draws' = (Inr ap, s'')
    \<and> (\<forall>r. redemption_for_appointment s'' i = Some r \<longrightarrow> rd_status r = RELEASED)"
  by (rule code_round_trip [OF assms])

lemma desk_code_applied:
  "\<exists>ap' s'. edit_appointment desk_db demo_garage 10 (edit_code (Some ''SUMMER-10'')) 0 [] = (Inr ap', s') \<and> ap_price ap' = Some 4500"
proof -
  let ?ap = "demo_appointment\<lparr>ap_price := Some 5000\<rparr>" and ?code = "demo_code\<lparr>dc_garage := 1\<rparr>"
  let ?r = "\<lparr>dr_code = ?code, dr_original_total = 5000, dr_discount_amount = 500, dr_new_total = 4500\<rparr>"
  have find: "find (\<lambda>a. ap_id a = 10 \<and> ap_garage a = g_id demo_garage) (db_appointments desk_db) = Some ?ap"
    and le: "ap_start ?ap < ap_end ?ap" and client: "row_find cu_id (ap_customer ?ap) (db_customers desk_db) = Some client"
    by (simp_all add: desk_demo demo_defs eval_simps row_find_def)
  have change: "discount_change ?ap (edit_code (Some ''SUMMER-10'')) = Some ''SUMMER-10''"
    by (simp add: discount_change_def edit_code_def given_def demo_defs no_discount_def normalize_code_def text_eval)
  have pre: "appointment_pre_total ?ap = Some 5000" by (simp add: appointment_pre_total_def demo_defs no_discount_def)
  have code: "find_code desk_db (g_id demo_garage) (Some ''SUMMER-10'') = Some ?code"
    by (simp add: find_code_def normalize_code_def is_valid_code_def code_char_def text_eval desk_demo demo_defs Let_def)
  have stale: "release_stale_redemptions desk_db ?code 0 = desk_db"
    by (simp add: release_stale_redemptions_def release_where_def desk_demo demo_defs)
  have "evaluate_code desk_db demo_garage (Some ''SUMMER-10'') (Some client) (Some 5000) [] 0 = (Inr ?r, desk_db)"
    by (simp add: evaluate_code_def code stale Let_def evaluate_checks active_uses_def compute_discount_def eval_simps
        del: One_nat_def)
      (simp add: desk_demo demo_defs)
  then have "new_discount desk_db demo_garage ?ap (Some ''SUMMER-10'') (Some client) (Some 5000) 0 = (Inr (Some ?r), desk_db)"
    by (simp add: new_discount_def evaluate_for_staff_def redemption_for_appointment_def desk_db_def demo_defs)
  then show ?thesis
    unfolding edit_appointment_def commit_edit_code [OF find le change] client pre
    by (simp add: store_edit_def edited_price_def redeem_or_abort_def redeem_def single_use_taken_def redemption_active_def
        committed_def demo_code_def desk_db_def demo_defs no_discount_def Let_def)
qed

theorem removing_a_code_restores_the_row_witness:
  "\<exists>ap' s' s''. edit_appointment desk_db demo_garage 10 (edit_code (Some ''SUMMER-10'')) 0 [] = (Inr ap', s')
     \<and> ap_price ap' = Some 4500
     \<and> edit_appointment s' demo_garage 10 (edit_code (Some [])) 1 [] = (Inr (demo_appointment\<lparr>ap_price := Some 5000\<rparr>), s'')"
proof -
  from desk_code_applied obtain ap' s' where
    run: "edit_appointment desk_db demo_garage 10 (edit_code (Some ''SUMMER-10'')) 0 [] = (Inr ap', s')" "ap_price ap' = Some 4500" by blast
  have "\<exists>s''. edit_appointment s' demo_garage 10 (edit_code (Some [])) 1 [] = (Inr (demo_appointment\<lparr>ap_price := Some 5000\<rparr>), s'')
      \<and> (\<forall>r. redemption_for_appointment s'' 10 = Some r \<longrightarrow> rd_status r = RELEASED)"
    by (rule removing_a_code_restores_the_row [OF _ _ _ desk_ok(3) run(1)])
      (simp_all add: desk_db_def demo_defs normalize_code_def text_eval)
  with run show ?thesis by blast
qed

text \<open>
  Detaching the vehicle while changing the customer is refused when the vehicle belongs to the previous
  customer: an explicit null is treated like a missing key.
\<close>

lemma detaching_the_vehicle_is_refused:
  assumes "ud_vehicle data = Some None" "ud_customer data = Some c" "ap_vehicle ap = Some v"
    "find (\<lambda>w. ve_id w = v \<and> ve_garage w = g_id g) (db_vehicles s) = Some w" "ve_customer w \<noteq> c"
  shows "edited_vehicle s g ap data = (Inl (Abort 422 ''vehicle of another customer''), s)"
  using assms by (simp add: edited_vehicle_def get_owned_vehicle_def given_def)

end
