(* ===== verification/Walkin_Lifecycle.thy ===== *)
theory Walkin_Lifecycle
  imports Walkin_Queue
begin

text \<open>
  What the operations of the walk-in queue promise: how an entry's status may move, that places in
  the line stay distinct, that the line is first come first served, what the sweep and a staff
  reorder do, that whoever is let in has a place before closing, and that checking in is never
  blocked. The contract of an operation that moves existing entries is the locale
  \<open>queue_transition\<close>, interpreted on every such operation.
\<close>

subsection \<open>How an entry moves\<close>

definition finished :: "queue_entry \<Rightarrow> bool" where
  "finished e \<longleftrightarrow> qe_status e \<in> {Q_DONE, Q_CANCELLED, Q_NO_SHOW}"

text \<open>The statuses reachable from a status, itself included.\<close>

fun later_statuses :: "queue_status \<Rightarrow> queue_status list" where
  "later_statuses Q_WAITING = [Q_WAITING, Q_CALLED, Q_IN_SERVICE, Q_DONE, Q_CANCELLED, Q_NO_SHOW]"
| "later_statuses Q_CALLED = [Q_CALLED, Q_IN_SERVICE, Q_DONE, Q_CANCELLED, Q_NO_SHOW]"
| "later_statuses Q_IN_SERVICE = [Q_IN_SERVICE, Q_DONE]"
| "later_statuses st = [st]"

definition same_place :: "queue_entry \<Rightarrow> queue_entry \<Rightarrow> bool" where
  "same_place e e' \<longleftrightarrow> qe_id e' = qe_id e \<and> qe_garage e' = qe_garage e \<and> qe_date e' = qe_date e
     \<and> qe_ticket e' = qe_ticket e \<and> qe_phone e' = qe_phone e"

definition advances :: "queue_entry \<Rightarrow> queue_entry \<Rightarrow> bool" where
  "advances e e' \<longleftrightarrow> same_place e e' \<and> qe_status e' \<in> set (later_statuses (qe_status e))
     \<and> (finished e \<longrightarrow> e' = e)"

definition moves :: "queue_entry \<Rightarrow> queue_entry \<Rightarrow> bool" where
  "moves e e' \<longleftrightarrow> advances e e' \<and> qe_sort e' = qe_sort e"

lemma later_trans:
  "b \<in> set (later_statuses a) \<Longrightarrow> c \<in> set (later_statuses b) \<Longrightarrow> c \<in> set (later_statuses a)"
  by (cases a; cases b) auto

lemma later_refl [simp]: "a \<in> set (later_statuses a)"
  by (cases a) auto

lemma advances_refl [simp]: "advances e e"
  by (simp add: advances_def same_place_def)

lemma advances_trans: "advances a b \<Longrightarrow> advances b c \<Longrightarrow> advances a c"
  by (auto simp: advances_def same_place_def intro: later_trans)

lemma moves_refl [simp]: "moves e e"
  by (simp add: moves_def)

lemma moves_trans: "moves a b \<Longrightarrow> moves b c \<Longrightarrow> moves a c"
  by (auto simp: moves_def intro: advances_trans)

lemma moves_end_entry:
  "qe_status e \<in> {Q_WAITING, Q_CALLED} \<Longrightarrow> status \<in> {Q_CANCELLED, Q_NO_SHOW} \<Longrightarrow>
    moves e (end_entry e status reason now)"
  by (auto simp: moves_def advances_def same_place_def end_entry_def finished_def)

lemma moves_done: "qe_status e = Q_IN_SERVICE \<Longrightarrow> moves e (end_entry e Q_DONE reason now)"
  by (simp add: moves_def advances_def same_place_def end_entry_def finished_def)

lemma moves_mark_called: "qe_status e = Q_WAITING \<Longrightarrow> moves e (mark_called e now)"
  by (simp add: moves_def advances_def same_place_def mark_called_def finished_def)

abbreviation all_move :: "queue_entry list \<Rightarrow> queue_entry list \<Rightarrow> bool" where
  "all_move \<equiv> list_all2 moves"

lemma all_move_refl [simp]: "all_move q q"
  by (simp add: list_all2_refl)

lemma all_move_trans: "all_move a b \<Longrightarrow> all_move b c \<Longrightarrow> all_move a c"
  by (rule list_all2_trans [of moves moves moves]) (rule moves_trans)

lemma all_move_map: "(\<And>e. e \<in> set q \<Longrightarrow> moves e (f e)) \<Longrightarrow> all_move q (map f q)"
  by (simp add: list_all2_map2 list.rel_refl_strong)

subsection \<open>The invariant\<close>

text \<open>Two entries of one day that do not get in each other's way.\<close>

definition apart :: "queue_entry \<Rightarrow> queue_entry \<Rightarrow> bool" where
  "apart e e' \<longleftrightarrow>
     (qe_garage e = qe_garage e' \<and> qe_date e = qe_date e' \<longrightarrow>
        qe_ticket e \<noteq> qe_ticket e'
        \<and> (is_waiting e \<and> is_waiting e' \<longrightarrow> qe_sort e \<noteq> qe_sort e')
        \<and> (qe_status e \<in> set active_statuses \<and> qe_status e' \<in> set active_statuses \<and> truthy (qe_phone e)
             \<longrightarrow> qe_phone e \<noteq> qe_phone e'))"

definition entry_ids_ok :: "db \<Rightarrow> bool" where
  "entry_ids_ok s \<longleftrightarrow> distinct (map qe_id (db_queue s)) \<and> (\<forall>e \<in> set (db_queue s). qe_id e < db_next s)"

lemma entry_ids_ok_alt: "entry_ids_ok s \<longleftrightarrow>
    distinct (map qe_id (db_queue s)) \<and> (\<forall>i \<in> set (map qe_id (db_queue s)). i < db_next s)"
  by (simp add: entry_ids_ok_def)

definition queue_ok :: "db \<Rightarrow> bool" where
  "queue_ok s \<longleftrightarrow> entry_ids_ok s
     \<and> (\<forall>e \<in> set (db_queue s). \<forall>e' \<in> set (db_queue s). qe_id e \<noteq> qe_id e' \<longrightarrow> apart e e')"

lemma queue_okD: "queue_ok s \<Longrightarrow> entry_ids_ok s"
  by (simp add: queue_ok_def)

lemma moves_ids: "all_move q q' \<Longrightarrow> map qe_id q' = map qe_id q"
  by (induction rule: list_all2_induct) (auto simp: moves_def advances_def same_place_def)

lemma moves_waiting: "moves e e' \<Longrightarrow> is_waiting e' \<Longrightarrow> is_waiting e"
  by (cases "qe_status e") (auto simp: moves_def advances_def is_waiting_def)

lemma moves_active: "moves e e' \<Longrightarrow> qe_status e' \<in> set active_statuses \<Longrightarrow> qe_status e \<in> set active_statuses"
  by (cases "qe_status e") (auto simp: moves_def advances_def active_statuses_def)

lemma apart_moves:
  assumes "apart a b" "moves a a'" "moves b b'"
  shows "apart a' b'"
proof -
  have "same_place a a'" "same_place b b'" "qe_sort a' = qe_sort a" "qe_sort b' = qe_sort b"
    using assms by (simp_all add: moves_def advances_def)
  with assms(1) moves_waiting [OF assms(2)] moves_waiting [OF assms(3)] moves_active [OF assms(2)]
    moves_active [OF assms(3)]
  show ?thesis by (simp add: apart_def same_place_def)
qed

lemma all_move_in:
  assumes "all_move q q'" "e' \<in> set q'"
  obtains e where "e \<in> set q" "moves e e'"
proof -
  from assms obtain n where "n < length q'" "q' ! n = e'" by (auto simp: in_set_conv_nth)
  with assms(1) have "n < length q" "moves (q ! n) e'" by (auto simp: list_all2_conv_all_nth)
  with that show thesis by (meson nth_mem)
qed

lemma all_move_onto:
  assumes "all_move q q'" "e \<in> set q"
  obtains e' where "e' \<in> set q'" "moves e e'"
proof -
  from assms obtain n where "n < length q" "q ! n = e" by (auto simp: in_set_conv_nth)
  with assms(1) have "n < length q'" "moves e (q' ! n)" by (auto simp: list_all2_conv_all_nth)
  with that show thesis by (meson nth_mem)
qed

lemma queue_ok_moves:
  assumes "queue_ok s" "all_move (db_queue s) (db_queue s')" "db_next s \<le> db_next s'"
  shows "queue_ok s'"
proof -
  have id: "qe_id e' = qe_id e" if "moves e e'" for e e'
    using that by (simp add: moves_def advances_def same_place_def)
  have "entry_ids_ok s'"
    unfolding entry_ids_ok_def
  proof (intro conjI ballI)
    show "distinct (map qe_id (db_queue s'))"
      using assms(1) moves_ids [OF assms(2)] by (simp add: queue_ok_def entry_ids_ok_def)
    fix e' assume "e' \<in> set (db_queue s')"
    then obtain e where "e \<in> set (db_queue s)" "moves e e'" by (rule all_move_in [OF assms(2)])
    with assms(1,3) id show "qe_id e' < db_next s'" by (fastforce simp: queue_ok_def entry_ids_ok_def)
  qed
  moreover have "apart a' b'"
    if in': "a' \<in> set (db_queue s')" "b' \<in> set (db_queue s')" "qe_id a' \<noteq> qe_id b'" for a' b'
  proof -
    obtain a where "a \<in> set (db_queue s)" "moves a a'" by (rule all_move_in [OF assms(2) in'(1)])
    moreover obtain b where "b \<in> set (db_queue s)" "moves b b'" by (rule all_move_in [OF assms(2) in'(2)])
    moreover have "qe_id a \<noteq> qe_id b" using calculation in'(3) id by metis
    ultimately have "apart a b" using assms(1) by (auto simp: queue_ok_def)
    then show ?thesis by (rule apart_moves) fact+
  qed
  ultimately show ?thesis by (simp add: queue_ok_def)
qed

text \<open>The contract of an operation that only moves entries that are already in the queue.\<close>

locale queue_transition =
  fixes op :: "db \<Rightarrow> db"
  assumes op_moves: "entry_ids_ok s \<Longrightarrow> all_move (db_queue s) (db_queue (op s))"
    and op_next: "db_next s \<le> db_next (op s)"
begin

lemma op_keeps: "queue_ok s \<Longrightarrow> queue_ok (op s)"
  by (rule queue_ok_moves [OF _ op_moves op_next]) (simp_all add: queue_ok_def)

lemma op_ids: "entry_ids_ok s \<Longrightarrow> map qe_id (db_queue (op s)) = map qe_id (db_queue s)"
  by (rule moves_ids [OF op_moves])

lemma op_length: "entry_ids_ok s \<Longrightarrow> length (db_queue (op s)) = length (db_queue s)"
  using op_ids by (metis length_map)

lemma op_finished:
  assumes "entry_ids_ok s" "e \<in> set (db_queue s)" "finished e"
  shows "e \<in> set (db_queue (op s))"
proof -
  obtain e' where "e' \<in> set (db_queue (op s))" "moves e e'"
    by (rule all_move_onto [OF op_moves [OF assms(1)] assms(2)])
  with assms(3) show ?thesis by (simp add: moves_def advances_def)
qed

lemma op_entry:
  assumes "entry_ids_ok s" "e \<in> set (db_queue s)"
  obtains e' where "e' \<in> set (db_queue (op s))" "advances e e'" "qe_sort e' = qe_sort e"
  using all_move_onto [OF op_moves [OF assms(1)] assms(2)] by (auto simp: moves_def)

end

subsection \<open>Frames\<close>

lemma put_entry_frame [simp]:
  "db_next (put_entry e s) = db_next s" "db_types (put_entry e s) = db_types s"
  "db_appointments (put_entry e s) = db_appointments s" "db_employees (put_entry e s) = db_employees s"
  "db_queue_settings (put_entry e s) = db_queue_settings s" "db_queue (put_entry e s) = row_set qe_id e (db_queue s)"
  by (simp_all add: put_entry_def)

lemma emit_frame_queue [simp]:
  "db_queue (emit ev s) = db_queue s" "db_next (emit ev s) = db_next s" "db_types (emit ev s) = db_types s"
  "db_appointments (emit ev s) = db_appointments s" "db_employees (emit ev s) = db_employees s"
  "db_queue_settings (emit ev s) = db_queue_settings s"
  by (simp_all add: emit_def)

lemma put_appointment_frame_queue [simp]:
  "db_queue (put_appointment a s) = db_queue s" "db_next (put_appointment a s) = db_next s"
  by (simp_all add: put_appointment_def)

lemma put_settings_frame [simp]:
  "db_queue (put_settings q s) = db_queue s" "db_next (put_settings q s) = db_next s"
  by (simp_all add: put_settings_def)

lemma end_where_frame [simp]:
  "db_next (end_where P st r now s) = db_next s"
  "db_queue (end_where P st r now s) = map (\<lambda>e. if P e then end_entry e st r now else e) (db_queue s)"
  by (simp_all add: end_where_def)

lemma get_queue_settings_frame:
  assumes "get_queue_settings s i = (q, s')"
  shows "db_queue s' = db_queue s" "db_next s' = db_next s" "qs_garage q = i" "q \<in> set (db_queue_settings s')"
    "db_appointments s' = db_appointments s" "db_types s' = db_types s" "db_employees s' = db_employees s"
    "db_customers s' = db_customers s" "db_vehicles s' = db_vehicles s"
  using assms
  by (auto simp: get_queue_settings_def default_queue_settings_def find_Some_iff split: option.splits)

lemma emit_called_frame [simp]:
  "db_queue (emit_called is s) = db_queue s" "db_next (emit_called is s) = db_next s"
  "db_queue_settings (emit_called is s) = db_queue_settings s"
  "db_appointments (emit_called is s) = db_appointments s" "db_types (emit_called is s) = db_types s"
  "db_employees (emit_called is s) = db_employees s"
  by (induction "is" arbitrary: s) (simp_all add: emit_called_def)

lemma resolve_customer_and_vehicle_frame:
  assumes "resolve_customer_and_vehicle s0 gid cid ct it = (r, s)"
  shows "db_queue s = db_queue s0" "db_next s0 \<le> db_next s"
  using assms
  by (auto simp: resolve_customer_and_vehicle_def resolve_customer_def put_customer_def put_vehicle_def Let_def
      split: option.splits if_splits prod.splits)

subsection \<open>Every operation meets the contract\<close>

lemma entry_for_updateD:
  "entry_for_update s gid i = Some e \<Longrightarrow> e \<in> set (db_queue s) \<and> qe_id e = i \<and> qe_garage e = gid"
  by (auto simp: entry_for_update_def dest: find_SomeD)

lemma put_entry_moves:
  assumes "entry_ids_ok s" "e \<in> set (db_queue s)" "moves e e'"
  shows "all_move (db_queue s) (db_queue (put_entry e' s))"
proof -
  have id: "qe_id e' = qe_id e" using assms(3) by (simp add: moves_def advances_def same_place_def)
  have "x = e" if "x \<in> set (db_queue s)" "qe_id x = qe_id e" for x
    using that assms(1,2) by (auto simp: entry_ids_ok_def distinct_map dest: inj_onD)
  with assms(3) id have "moves x (if qe_id x = qe_id e' then e' else x)" if "x \<in> set (db_queue s)" for x
    using that by (cases "qe_id x = qe_id e") auto
  then show ?thesis by (simp add: row_set_def all_move_map)
qed

lemma waiting_lineD: "e \<in> set (waiting_line s gid day) \<Longrightarrow> e \<in> set (db_queue s) \<and> of_day gid day e \<and> is_waiting e"
  by (simp add: waiting_line_def)

lemma next_waitingD:
  "next_waiting s gid day = Some e \<Longrightarrow> e \<in> set (db_queue s) \<and> of_day gid day e \<and> is_waiting e"
  using waiting_lineD [of e s gid day] by (auto simp: next_waiting_def split: list.splits)

lemma entry_ids_ok_put_entry [simp]: "entry_ids_ok s \<Longrightarrow> e \<in> set (db_queue s) \<Longrightarrow> qe_id e' = qe_id e \<Longrightarrow>
    entry_ids_ok (put_entry e' s)"
  unfolding entry_ids_ok_def by (auto dest!: in_row_set)

lemma mark_called_id [simp]: "qe_id (mark_called e now) = qe_id e"
  by (simp add: mark_called_def)

lemma call_up_moves:
  assumes "call_up n gid today now s = (called, s')" "entry_ids_ok s"
  shows "all_move (db_queue s) (db_queue s') \<and> db_next s' = db_next s \<and> db_queue_settings s' = db_queue_settings s"
  using assms
proof (induction n arbitrary: s called)
  case (Suc n)
  show ?case
  proof (cases "next_waiting s gid today")
    case (Some e)
    from next_waitingD [OF Some] have e: "e \<in> set (db_queue s)" "qe_status e = Q_WAITING"
      by (simp_all add: is_waiting_def)
    let ?s = "put_entry (mark_called e now) s"
    obtain rest where rest: "call_up n gid today now ?s = (rest, s')"
      using Suc.prems(1) Some by (auto split: prod.splits)
    have "all_move (db_queue s) (db_queue ?s)"
      by (rule put_entry_moves [OF Suc.prems(2) e(1) moves_mark_called [OF e(2)]])
    with Suc.IH [OF rest] Suc.prems(2) e(1) show ?thesis by (auto intro: all_move_trans)
  qed (use Suc.prems in simp)
qed simp

lemma call_up_next: "call_up n gid today now s = (called, s') \<Longrightarrow> db_next s' = db_next s"
  by (induction n arbitrary: s called) (fastforce split: option.splits prod.splits)+

lemma sweep_next [simp]: "db_next (snd (sweep_queue s0 g now)) = db_next s0"
  by (auto simp: sweep_queue_def Let_def call_up_next get_queue_settings_frame split: prod.split)

lemma end_where_moves:
  assumes "\<And>e. e \<in> set (db_queue s) \<Longrightarrow> P e \<Longrightarrow> qe_status e \<in> {Q_WAITING, Q_CALLED}"
    "st \<in> {Q_CANCELLED, Q_NO_SHOW}"
  shows "all_move (db_queue s) (db_queue (end_where P st r now s))"
proof -
  have "moves e (end_entry e st r now)" if "e \<in> set (db_queue s)" "P e" for e
    by (rule moves_end_entry [OF assms(1) [OF that] assms(2)])
  then show ?thesis by (simp add: all_move_map)
qed

lemma all_move_ids_ok:
  "all_move (db_queue s) (db_queue s') \<Longrightarrow> db_next s' = db_next s \<Longrightarrow> entry_ids_ok s \<Longrightarrow> entry_ids_ok s'"
  by (metis entry_ids_ok_alt moves_ids)

lemma sweep_moves:
  assumes "entry_ids_ok s0"
  shows "all_move (db_queue s0) (db_queue (snd (sweep_queue s0 g now)))"
proof -
  obtain settings s where st: "get_queue_settings s0 (g_id g) = (settings, s)" by fastforce
  note fr = get_queue_settings_frame [OF st]
  define today where "today = local_day_for (g_zone g) now"
  define stale where "stale = stale_entry (g_id g) today"
  define due where "due = call_overdue (g_id g) today (qs_timeout_minutes settings) now"
  let ?s1 = "end_where stale Q_CANCELLED (Some END_DAY_ENDED) now s"
  let ?s2 = "end_where due Q_NO_SHOW (Some END_CALL_TIMEOUT) now ?s1"
  obtain called s3 where cu: "call_up (length (filter due (db_queue ?s1))) (g_id g) today now ?s2 = (called, s3)"
    by fastforce
  have ok: "entry_ids_ok s" using assms fr by (simp add: entry_ids_ok_def)
  have m1: "all_move (db_queue s) (db_queue ?s1)"
    by (rule end_where_moves) (auto simp: stale_def stale_entry_def)
  have m2: "all_move (db_queue ?s1) (db_queue ?s2)"
    by (rule end_where_moves) (auto simp: due_def call_overdue_def split: option.splits)
  have ok2: "entry_ids_ok ?s2"
    by (rule all_move_ids_ok [OF all_move_trans [OF m1 m2] _ ok]) simp
  have m3: "all_move (db_queue ?s2) (db_queue s3)" "db_next s3 = db_next s"
    using call_up_moves [OF cu ok2] by simp_all
  have res: "snd (sweep_queue s0 g now)
      = (if \<not> list_ex stale (db_queue s) \<and> \<not> list_ex due (db_queue s) then s else emit_called called s3)"
    using cu by (simp add: sweep_queue_def st Let_def today_def stale_def due_def)
  show "all_move (db_queue s0) (db_queue (snd (sweep_queue s0 g now)))"
    using all_move_trans [OF m1 all_move_trans [OF m2 m3(1)]] by (simp add: res fr(1))
qed

lemma moves_in_service:
  "qe_status e = Q_WAITING \<or> qe_status e = Q_CALLED \<Longrightarrow> moves e (in_service e ap minutes now)"
  by (auto simp: moves_def advances_def same_place_def finished_def in_service_def)

lemma check_inE:
  assumes "check_in s gid e ty minutes em now = (Inr e', s')"
  obtains ap cid ct c v s2 where
    "resolve_customer_and_vehicle s gid cid ct no_item = (Inr (c, v), s2)"
    "ap = walkin_appointment s2 gid em c v ty now (now + minutes * minute_us)"
    "e' = in_service e ap minutes now" "s' = put_entry e' (insert_appointment ap s2)"
  using assms by (auto simp: check_in_def Let_def split: prod.splits sum.splits)

lemma start_serviceE:
  assumes "start_service s acting i ty em now = (Inr e', s')"
  obtains e settings s1 ty' minutes em' where
    "entry_for_update s (em_garage acting) i = Some e" "qe_status e = Q_WAITING \<or> qe_status e = Q_CALLED"
    "get_queue_settings s (em_garage acting) = (settings, s1)"
    "service_plan s1 acting e settings ty em now = Inr (ty', minutes, em')"
    "check_in s1 (em_garage acting) e ty' minutes em' now = (Inr e', s')"
  using assms unfolding start_service_def
  by (auto split: option.splits if_splits prod.splits sum.splits)

lemma start_service_refused:
  "start_service s acting i ty em now = (Inl err, s') \<Longrightarrow> s' = s"
  unfolding start_service_def by (auto split: option.splits if_splits prod.splits sum.splits)

lemma start_service_frame:
  assumes "start_service s acting i ty em now = (Inr e', s')"
  obtains e where "entry_for_update s (em_garage acting) i = Some e" "moves e e'"
    "db_queue s' = row_set qe_id e' (db_queue s)" "db_next s \<le> db_next s'"
  using assms
proof (rule start_serviceE)
  fix e settings s1 ty' minutes em'
  assume e: "entry_for_update s (em_garage acting) i = Some e" "qe_status e = Q_WAITING \<or> qe_status e = Q_CALLED"
    and st: "get_queue_settings s (em_garage acting) = (settings, s1)"
    and ci: "check_in s1 (em_garage acting) e ty' minutes em' now = (Inr e', s')"
  show thesis
    using ci
  proof (rule check_inE)
    fix ap cid ct c v s2
    assume rc: "resolve_customer_and_vehicle s1 (em_garage acting) cid ct no_item = (Inr (c, v), s2)"
      and e': "e' = in_service e ap minutes now" "s' = put_entry e' (insert_appointment ap s2)"
    show thesis
      using get_queue_settings_frame(1,2) [OF st] resolve_customer_and_vehicle_frame [OF rc]
      by (intro that [OF e(1)]) (simp_all add: e' insert_appointment_def moves_in_service [OF e(2)])
  qed
qed

lemma start_service_next: "db_next s \<le> db_next (snd (start_service s acting i ty em now))"
proof (cases "start_service s acting i ty em now")
  case (Pair r s')
  show ?thesis
  proof (cases r)
    case (Inl err)
    with Pair start_service_refused have "s' = s" by metis
    with Pair show ?thesis by simp
  next
    case (Inr e')
    with Pair have "start_service s acting i ty em now = (Inr e', s')" by simp
    with Pair show ?thesis by (auto elim: start_service_frame)
  qed
qed

lemma start_service_moves:
  assumes "entry_ids_ok s"
  shows "all_move (db_queue s) (db_queue (snd (start_service s acting i ty em now)))"
proof (cases "start_service s acting i ty em now")
  case (Pair r s')
  show ?thesis
  proof (cases r)
    case (Inl err)
    with Pair start_service_refused have "s' = s" by metis
    with Pair show ?thesis by simp
  next
    case (Inr e')
    with Pair have "start_service s acting i ty em now = (Inr e', s')" by simp
    then obtain e where e: "entry_for_update s (em_garage acting) i = Some e" "moves e e'"
      and q: "db_queue s' = row_set qe_id e' (db_queue s)" by (rule start_service_frame)
    from put_entry_moves [OF assms _ e(2)] entry_for_updateD [OF e(1)] q Pair show ?thesis by simp
  qed
qed

lemma one_entry_moves:
  assumes "entry_ids_ok s"
  shows call_moves: "all_move (db_queue s) (db_queue (snd (call_entry s g j now)))"
    and complete_moves: "all_move (db_queue s) (db_queue (snd (complete_service s g i now)))"
    and no_show_moves: "all_move (db_queue s) (db_queue (snd (mark_no_show s g i now)))"
    and public_cancel_moves: "all_move (db_queue s) (db_queue (snd (public_cancel s g tok now)))"
    and staff_cancel_moves: "all_move (db_queue s) (db_queue (snd (staff_cancel s g i now)))"
proof -
  have cancel: "all_move (db_queue s) (db_queue (snd (cancel_entry s e b now)))" if "e \<in> set (db_queue s)" for e b
    using put_entry_moves [OF assms that moves_end_entry]
    by (cases "qe_status e") (auto simp: cancel_entry_def Let_def)
  show "all_move (db_queue s) (db_queue (snd (staff_cancel s g i now)))"
    by (auto simp: staff_cancel_def split: option.split dest!: entry_for_updateD intro!: cancel)
  show "all_move (db_queue s) (db_queue (snd (public_cancel s g tok now)))"
    by (auto simp: public_cancel_def entry_by_token_def split: option.split dest!: find_SomeD intro!: cancel)
  show "all_move (db_queue s) (db_queue (snd (call_entry s g j now)))"
    using put_entry_moves [OF assms _ moves_mark_called]
    by (auto simp: call_entry_def Let_def is_waiting_def split: option.split
        dest!: entry_for_updateD next_waitingD simp del: put_entry_frame)
  show "all_move (db_queue s) (db_queue (snd (mark_no_show s g i now)))"
    using put_entry_moves [OF assms _ moves_end_entry]
    by (auto simp: mark_no_show_def Let_def split: option.split dest!: entry_for_updateD simp del: put_entry_frame)
  show "all_move (db_queue s) (db_queue (snd (complete_service s g i now)))"
    using put_entry_moves [OF assms _ moves_done]
    by (auto simp: complete_service_def Let_def split: option.split dest!: entry_for_updateD simp del: put_entry_frame(6))
qed

lemma one_entry_next [simp]:
  "db_next (snd (call_entry s g j now)) = db_next s"
  "db_next (snd (complete_service s g i now)) = db_next s"
  "db_next (snd (mark_no_show s g i now)) = db_next s"
  "db_next (snd (public_cancel s g tok now)) = db_next s"
  "db_next (snd (staff_cancel s g i now)) = db_next s"
  by (auto simp: call_entry_def complete_service_def mark_no_show_def public_cancel_def staff_cancel_def
      cancel_entry_def Let_def split: option.split)

lemma settings_queue [simp]:
  "db_queue (set_open s g b) = db_queue s" "db_next (set_open s g b) = db_next s"
  "db_queue (snd (save_queue_settings s g dt d)) = db_queue s"
  "db_next (snd (save_queue_settings s g dt d)) = db_next s"
  by (auto simp: set_open_def save_queue_settings_def Let_def get_queue_settings_frame split: prod.split option.split)

interpretation sweeping: queue_transition "\<lambda>s. snd (sweep_queue s g now)"
  by unfold_locales (simp_all add: sweep_moves)

interpretation calling: queue_transition "\<lambda>s. snd (call_entry s g j now)"
  by unfold_locales (simp_all add: call_moves)

interpretation checking_in: queue_transition "\<lambda>s. snd (start_service s acting i ty em now)"
  by unfold_locales (rule start_service_moves start_service_next; assumption?)+

interpretation completing: queue_transition "\<lambda>s. snd (complete_service s g i now)"
  by unfold_locales (simp_all add: complete_moves)

interpretation missing: queue_transition "\<lambda>s. snd (mark_no_show s g i now)"
  by unfold_locales (simp_all add: no_show_moves)

interpretation leaving: queue_transition "\<lambda>s. snd (public_cancel s g tok now)"
  by unfold_locales (simp_all add: public_cancel_moves)

interpretation removing: queue_transition "\<lambda>s. snd (staff_cancel s g i now)"
  by unfold_locales (simp_all add: staff_cancel_moves)

subsection \<open>Joining\<close>

lemma max_default_ge: "x \<in> set xs \<Longrightarrow> x \<le> max_default d xs"
proof (cases xs)
  case (Cons y ys)
  have "\<forall>x \<in> set (y # ys). x \<le> foldl max y ys"
  proof (induction ys arbitrary: y)
    case (Cons z zs)
    from Cons [of "max y z"] show ?case by fastforce
  qed simp
  then show "x \<in> set xs \<Longrightarrow> x \<le> max_default d xs" using Cons by auto
qed simp

lemma stamp_entry_simps [simp]:
  "qe_id (stamp_entry e v now) = qe_id e" "qe_garage (stamp_entry e v now) = qe_garage e"
  "qe_date (stamp_entry e v now) = qe_date e" "qe_status (stamp_entry e v now) = qe_status e"
  "qe_ticket (stamp_entry e v now) = qe_ticket e" "qe_sort (stamp_entry e v now) = qe_sort e"
  "qe_phone (stamp_entry e v now) = qe_phone e" "qe_minutes (stamp_entry e v now) = qe_minutes e"
  by (simp_all add: stamp_entry_def split: option.split)

text \<open>What a successful join did.\<close>

lemma join_queueE:
  assumes "join_queue s0 g data0 token tv now = (Inr e, s')"
  obtains s settings s1 data ty where
    "s = snd (sweep_queue s0 g now)" "get_queue_settings s (g_id g) = (settings, s1)"
    "check_fields settings data0 = Some data" "chosen_type s1 (g_id g) (jd_type data) = Some ty"
    "join_refusal_reason settings (snapshot_of s1 g settings now)
       (resolve_service_minutes s1 g settings ty now) = None"
    "\<not> phone_in_queue (jd_phone data) (today_entries s1 (g_id g) (local_day_for (g_zone g) now))"
    "e = new_entry s1 (g_id g) (local_day_for (g_zone g) now) data ty
           (resolve_service_minutes s1 g settings ty now) token tv now"
    "s' = emit (QUEUE_ENTRY_JOINED (qe_id e)) (s1\<lparr>db_queue := db_queue s1 @ [e], db_next := Suc (db_next s1)\<rparr>)"
  using assms unfolding join_queue_def
  by (auto simp: Let_def snapshot_of_def split: option.splits if_splits prod.splits)

lemma join_queue_refused:
  "join_queue s0 g data0 token tv now = (Inl err, s') \<Longrightarrow> s' = snd (sweep_queue s0 g now)"
  unfolding join_queue_def by (auto simp: Let_def split: option.splits if_splits prod.splits)

lemma new_entry_simps [simp]:
  "qe_id (new_entry s gid today data ty m tok tv now) = fresh_id s"
  "qe_garage (new_entry s gid today data ty m tok tv now) = gid"
  "qe_date (new_entry s gid today data ty m tok tv now) = today"
  "qe_status (new_entry s gid today data ty m tok tv now) = Q_WAITING"
  "qe_phone (new_entry s gid today data ty m tok tv now) = jd_phone data"
  "qe_minutes (new_entry s gid today data ty m tok tv now) = m"
  by (simp_all add: new_entry_def Let_def)

lemma new_entry_last:
  assumes "e \<in> set (db_queue s)" "of_day gid today e"
  shows "qe_ticket e < qe_ticket (new_entry s gid today data ty m tok tv now)"
    "qe_sort e < qe_sort (new_entry s gid today data ty m tok tv now)"
proof -
  have "qe_ticket e \<in> set (map qe_ticket (filter (of_day gid today) (db_queue s)))"
    "qe_sort e \<in> set (map qe_sort (filter (of_day gid today) (db_queue s)))" using assms by auto
  from this [THEN max_default_ge [of _ _ 0]]
  show "qe_ticket e < qe_ticket (new_entry s gid today data ty m tok tv now)"
    "qe_sort e < qe_sort (new_entry s gid today data ty m tok tv now)"
    by (simp_all add: new_entry_def Let_def)
qed

lemma join_apart:
  assumes "e \<in> set (db_queue s)" "\<not> phone_in_queue (jd_phone data) (today_entries s gid today)"
  shows "apart e (new_entry s gid today data ty m tok tv now)"
    "apart (new_entry s gid today data ty m tok tv now) e"
proof -
  have ph: "\<not> (truthy (jd_phone data) \<and> qe_phone e = jd_phone data \<and> qe_status e \<in> set active_statuses)"
    if "of_day gid today e"
    using assms that by (auto simp: phone_in_queue_def today_entries_def list_ex_iff)
  show "apart e (new_entry s gid today data ty m tok tv now)"
    "apart (new_entry s gid today data ty m tok tv now) e"
    using ph new_entry_last [OF assms(1), of gid today data ty m tok tv now]
    by (auto simp: apart_def of_day_def)
qed

lemma join_keeps:
  assumes "queue_ok s0"
  shows "queue_ok (snd (join_queue s0 g data0 token tv now))"
proof (cases "join_queue s0 g data0 token tv now")
  case (Pair r s')
  have swept: "queue_ok (snd (sweep_queue s0 g now))" by (rule sweeping.op_keeps [OF assms])
  show ?thesis
  proof (cases r)
    case (Inl err)
    have "s' = snd (sweep_queue s0 g now)"
      by (rule join_queue_refused [of s0 g data0 token tv now err]) (use Pair Inl in simp)
    with Pair swept show ?thesis by simp
  next
    case (Inr e)
    with Pair have "join_queue s0 g data0 token tv now = (Inr e, s')" by simp
    then show ?thesis
    proof (rule join_queueE)
      fix s settings s1 data ty
      assume s: "s = snd (sweep_queue s0 g now)" and st: "get_queue_settings s (g_id g) = (settings, s1)"
        and ph: "\<not> phone_in_queue (jd_phone data) (today_entries s1 (g_id g) (local_day_for (g_zone g) now))"
        and e: "e = new_entry s1 (g_id g) (local_day_for (g_zone g) now) data ty
           (resolve_service_minutes s1 g settings ty now) token tv now"
        and s': "s' = emit (QUEUE_ENTRY_JOINED (qe_id e))
           (s1\<lparr>db_queue := db_queue s1 @ [e], db_next := Suc (db_next s1)\<rparr>)"
      have ok: "queue_ok s1"
        using swept get_queue_settings_frame(1,2) [OF st] s by (simp add: queue_ok_def entry_ids_ok_def)
      have "entry_ids_ok s'"
        using ok by (fastforce simp: s' e queue_ok_def entry_ids_ok_def fresh_id_def)
      moreover have "apart a b" if "a \<in> set (db_queue s')" "b \<in> set (db_queue s')" "qe_id a \<noteq> qe_id b" for a b
        using that ok join_apart [OF _ ph] by (auto simp: s' e queue_ok_def)
      ultimately show ?thesis by (simp add: Pair queue_ok_def)
    qed
  qed
qed

subsection \<open>Reordering\<close>

lemma offset_of_nth: "distinct is \<Longrightarrow> n < length is \<Longrightarrow> offset_of (is ! n) is = int n"
proof (induction "is" arbitrary: n)
  case (Cons j js)
  then show ?case by (cases n) auto
qed simp

lemma offset_of_inj: "i \<in> set is \<Longrightarrow> j \<in> set is \<Longrightarrow> offset_of i is = offset_of j is \<Longrightarrow> i = j"
proof (induction "is")
  case (Cons k ks)
  have nonneg: "0 \<le> offset_of x ks" for x by (induction ks) auto
  from Cons nonneg [of i] nonneg [of j] show ?case by (auto split: if_splits)
qed simp

definition in_line :: "garage \<Rightarrow> instant \<Rightarrow> queue_entry \<Rightarrow> bool" where
  "in_line g now e \<longleftrightarrow> of_day (g_id g) (local_day_for (g_zone g) now) e \<and> is_waiting e"

lemma reorder_waitingE:
  assumes "reorder_waiting s g is now = (Inr (), s')"
  obtains base where "distinct is" "set is = qe_id ` set (filter (in_line g now) (db_queue s))"
    "s' = s\<lparr>db_queue := map (\<lambda>e. if in_line g now e then e\<lparr>qe_sort := base + offset_of (qe_id e) is\<rparr> else e)
       (db_queue s)\<rparr>"
  using assms unfolding reorder_waiting_def in_line_def [abs_def] by (auto simp: Let_def split: if_splits)

lemma reorder_waiting_refused: "reorder_waiting s g is now = (Inl err, s') \<Longrightarrow> s' = s"
  by (auto simp: reorder_waiting_def Let_def split: if_splits)

lemma reorder_keeps:
  assumes "queue_ok s"
  shows "queue_ok (snd (reorder_waiting s g is now))"
proof (cases "reorder_waiting s g is now")
  case (Pair r s')
  show ?thesis
  proof (cases r)
    case (Inl err)
    with Pair have "s' = s" by (simp add: reorder_waiting_refused)
    with Pair assms show ?thesis by simp
  next
    case (Inr u)
    with Pair have "reorder_waiting s g is now = (Inr (), s')" by simp
    then obtain base where ids: "set is = qe_id ` set (filter (in_line g now) (db_queue s))"
      and eq: "s' = s\<lparr>db_queue := map (\<lambda>e. if in_line g now e
         then e\<lparr>qe_sort := base + offset_of (qe_id e) is\<rparr> else e) (db_queue s)\<rparr>"
      by (rule reorder_waitingE)
    define f where "f = (\<lambda>e. if in_line g now e then e\<lparr>qe_sort := base + offset_of (qe_id e) is\<rparr> else e)"
    have s': "s' = s\<lparr>db_queue := map f (db_queue s)\<rparr>" by (simp add: eq f_def)
    have mid: "qe_id (f e) = qe_id e" for e by (simp add: f_def)
    then have ids': "map qe_id (db_queue s') = map qe_id (db_queue s)" by (simp add: s' mid)
    have next': "db_next s' = db_next s" by (simp add: s')
    from assms have "entry_ids_ok s'"
      unfolding queue_ok_def entry_ids_ok_alt ids' next' by blast
    moreover have "apart (f a) (f b)" if "a \<in> set (db_queue s)" "b \<in> set (db_queue s)" "qe_id a \<noteq> qe_id b" for a b
    proof -
      have ab: "apart a b" using assms that by (simp add: queue_ok_def)
      have "offset_of (qe_id a) is \<noteq> offset_of (qe_id b) is" if "in_line g now a" "in_line g now b"
        using offset_of_inj [of "qe_id a" "is" "qe_id b"] ids \<open>qe_id a \<noteq> qe_id b\<close> that
          \<open>a \<in> set (db_queue s)\<close> \<open>b \<in> set (db_queue s)\<close> by auto
      moreover have "in_line g now a = in_line g now b"
        if "qe_garage a = qe_garage b" "qe_date a = qe_date b" "is_waiting a" "is_waiting b"
        using that by (simp add: in_line_def of_day_def)
      ultimately show ?thesis using ab by (auto simp: f_def apart_def is_waiting_def)
    qed
    ultimately show ?thesis by (auto simp: Pair s' queue_ok_def mid)
  qed
qed

subsection \<open>Any sequence of operations\<close>

lemma sweep_all_moves:
  assumes "entry_ids_ok s"
  shows "all_move (db_queue s) (db_queue (snd (sweep_all_garages s now)))"
    "db_next s \<le> db_next (snd (sweep_all_garages s now))"
proof -
  define turn where "turn = (\<lambda>garage_id (n :: nat, s').
         case row_find g_id garage_id (db_garages s') of
           None \<Rightarrow> (n, s')
         | Some g \<Rightarrow> (case sweep_queue s' g now of (called, s'') \<Rightarrow> (n + length called, s'')))"
  have one: "all_move (db_queue s') (db_queue (snd (turn i (n, s')))) \<and> db_next (snd (turn i (n, s'))) = db_next s'"
    if "entry_ids_ok s'" for i n s'
  proof (cases "row_find g_id i (db_garages s')")
    case (Some g)
    have "snd (turn i (n, s')) = snd (sweep_queue s' g now)" by (simp add: turn_def Some split: prod.split)
    with that show ?thesis by (simp add: sweep_moves)
  qed (simp add: turn_def)
  have "all_move (db_queue (snd ns)) (db_queue (snd (fold turn is ns))) \<and> db_next (snd (fold turn is ns)) = db_next (snd ns)"
    if "entry_ids_ok (snd ns)" for "is" ns
    using that
  proof (induction "is" arbitrary: ns)
    case (Cons i "is")
    obtain n s' where ns: "ns = (n, s')" by (cases ns)
    from Cons.prems ns have st: "all_move (db_queue s') (db_queue (snd (turn i ns)))" "db_next (snd (turn i ns)) = db_next s'"
      using one by simp_all
    have "entry_ids_ok (snd (turn i ns))" by (rule all_move_ids_ok [OF st]) (use Cons.prems ns in simp)
    from Cons.IH [OF this] st ns show ?case by (auto intro: all_move_trans)
  qed simp
  from this [of "(0, s)"] assms show "all_move (db_queue s) (db_queue (snd (sweep_all_garages s now)))"
    "db_next s \<le> db_next (snd (sweep_all_garages s now))"
    by (simp_all add: sweep_all_garages_def turn_def)
qed

text \<open>
  One operation on the queue by anybody; \<open>fair_step\<close> leaves out the staff reorder. The business,
  the data and the time are arbitrary at every step.
\<close>

inductive fair_step :: "db \<Rightarrow> db \<Rightarrow> bool" where
  fair_join: "join_queue s g data token tv now = (r, s') \<Longrightarrow> fair_step s s'"
| fair_sweep: "fair_step s (snd (sweep_queue s g now))"
| fair_sweep_all: "fair_step s (snd (sweep_all_garages s now))"
| fair_call: "fair_step s (snd (call_entry s g j now))"
| fair_start: "fair_step s (snd (start_service s acting i ty em now))"
| fair_complete: "fair_step s (snd (complete_service s g i now))"
| fair_no_show: "fair_step s (snd (mark_no_show s g i now))"
| fair_public_cancel: "fair_step s (snd (public_cancel s g token now))"
| fair_staff_cancel: "fair_step s (snd (staff_cancel s g i now))"
| fair_open: "fair_step s (set_open s g b)"
| fair_settings: "fair_step s (snd (save_queue_settings s g dt d))"

inductive queue_step :: "db \<Rightarrow> db \<Rightarrow> bool" where
  step_fair: "fair_step s s' \<Longrightarrow> queue_step s s'"
| step_reorder: "reorder_waiting s g is now = (r, s') \<Longrightarrow> queue_step s s'"

inductive_cases fair_stepE: "fair_step s s'"

text \<open>A step other than joining and reordering only moves entries.\<close>

lemma fair_step_cases:
  assumes "fair_step s s'" "entry_ids_ok s"
  obtains (moved) "all_move (db_queue s) (db_queue s')" "db_next s \<le> db_next s'"
  | (joined) g data token tv now e where "join_queue s g data token tv now = (Inr e, s')"
  using assms(1)
proof cases
  case (fair_join g data token tv now r)
  show ?thesis
  proof (cases r)
    case (Inl err)
    with fair_join have "s' = snd (sweep_queue s g now)" by (simp add: join_queue_refused)
    with sweep_moves [OF assms(2)] show ?thesis by (simp add: moved)
  next
    case (Inr e)
    with fair_join show ?thesis by (simp add: joined)
  qed
qed (simp_all add: moved assms(2) sweep_moves sweep_all_moves one_entry_moves start_service_moves start_service_next)

lemma fair_step_keeps:
  assumes "fair_step s s'" "queue_ok s"
  shows "queue_ok s'"
  using assms(1) queue_okD [OF assms(2)]
proof (cases rule: fair_step_cases)
  case moved
  with assms(2) show ?thesis by (rule queue_ok_moves)
next
  case (joined g data token tv now e)
  with join_keeps [OF assms(2), of g data token tv now] show ?thesis by simp
qed

lemma queue_step_keeps:
  assumes "queue_step s s'" "queue_ok s"
  shows "queue_ok s'"
  using assms(1)
proof cases
  case step_fair
  then show ?thesis using assms(2) by (rule fair_step_keeps)
next
  case (step_reorder g "is" now r)
  with reorder_keeps [OF assms(2), of g "is" now] show ?thesis by simp
qed

lemma queue_steps_keep: "queue_step\<^sup>*\<^sup>* s s' \<Longrightarrow> queue_ok s \<Longrightarrow> queue_ok s'"
  by (induction rule: rtranclp_induct) (blast intro: queue_step_keeps)+

lemma fair_steps_keep: "fair_step\<^sup>*\<^sup>* s s' \<Longrightarrow> queue_ok s \<Longrightarrow> queue_ok s'"
  by (induction rule: rtranclp_induct) (blast intro: fair_step_keeps)+

lemma queue_ok_empty [simp]: "db_queue s = [] \<Longrightarrow> queue_ok s"
  by (simp add: queue_ok_def entry_ids_ok_def)

subsection \<open>What a run does to one entry\<close>

lemma queue_step_entry:
  assumes "queue_step s s'" "entry_ids_ok s" "e \<in> set (db_queue s)"
  shows "\<exists>e' \<in> set (db_queue s'). advances e e'"
  using assms(1)
proof cases
  case step_fair
  then show ?thesis using assms(2)
  proof (cases rule: fair_step_cases)
    case moved
    from all_move_onto [OF moved(1) assms(3)] show ?thesis by (auto simp: moves_def)
  next
    case (joined g data token tv now e1)
    from joined show ?thesis
    proof (rule join_queueE)
      fix s1 settings s2 data' ty
      assume s1: "s1 = snd (sweep_queue s g now)" and st: "get_queue_settings s1 (g_id g) = (settings, s2)"
        and s': "s' = emit (QUEUE_ENTRY_JOINED (qe_id e1))
           (s2\<lparr>db_queue := db_queue s2 @ [e1], db_next := Suc (db_next s2)\<rparr>)"
      obtain e' where "e' \<in> set (db_queue s1)" "moves e e'"
        using all_move_onto [OF sweep_moves [OF assms(2)] assms(3)] s1 by metis
      then show ?thesis using get_queue_settings_frame(1) [OF st] by (auto simp: s' moves_def)
    qed
  qed
next
  case (step_reorder g "is" now r)
  show ?thesis
  proof (cases r)
    case (Inl err)
    with step_reorder have "s' = s" by (simp add: reorder_waiting_refused)
    with assms(3) show ?thesis by (auto intro: advances_refl)
  next
    case (Inr u)
    with step_reorder have "reorder_waiting s g is now = (Inr (), s')" by simp
    then obtain base where s': "s' = s\<lparr>db_queue := map (\<lambda>e. if in_line g now e
         then e\<lparr>qe_sort := base + offset_of (qe_id e) is\<rparr> else e) (db_queue s)\<rparr>"
      by (rule reorder_waitingE)
    let ?e' = "if in_line g now e then e\<lparr>qe_sort := base + offset_of (qe_id e) is\<rparr> else e"
    have "advances e ?e'" by (auto simp: advances_def same_place_def in_line_def is_waiting_def finished_def)
    with assms(3) show ?thesis by (intro bexI [of _ ?e']) (simp_all add: s')
  qed
qed

lemma queue_steps_entry:
  assumes "queue_step\<^sup>*\<^sup>* s s'" "queue_ok s" "e \<in> set (db_queue s)"
  shows "\<exists>e' \<in> set (db_queue s'). advances e e'"
  using assms(1)
proof (induction rule: rtranclp_induct)
  case base
  with assms(3) show ?case by (auto intro: advances_refl)
next
  case (step t u)
  then obtain e' where e': "e' \<in> set (db_queue t)" "advances e e'" by blast
  have "queue_ok t" using step(1) assms(2) by (rule queue_steps_keep)
  from queue_step_entry [OF step(2) queue_okD [OF this] e'(1)] e'(2) show ?case by (blast intro: advances_trans)
qed

subsection \<open>First come, first served\<close>

definition in_ticket_order :: "db \<Rightarrow> bool" where
  "in_ticket_order s \<longleftrightarrow> (\<forall>e \<in> set (db_queue s). \<forall>e' \<in> set (db_queue s).
     qe_garage e = qe_garage e' \<and> qe_date e = qe_date e' \<and> qe_ticket e < qe_ticket e' \<longrightarrow> qe_sort e < qe_sort e')"

lemma in_ticket_order_moves:
  assumes "in_ticket_order s" "all_move (db_queue s) (db_queue s')"
  shows "in_ticket_order s'"
  unfolding in_ticket_order_def
proof (intro ballI impI)
  fix a' b' assume in': "a' \<in> set (db_queue s')" "b' \<in> set (db_queue s')"
    and lt: "qe_garage a' = qe_garage b' \<and> qe_date a' = qe_date b' \<and> qe_ticket a' < qe_ticket b'"
  obtain a where a: "a \<in> set (db_queue s)" "moves a a'" by (rule all_move_in [OF assms(2) in'(1)])
  obtain b where b: "b \<in> set (db_queue s)" "moves b b'" by (rule all_move_in [OF assms(2) in'(2)])
  from assms(1) a b lt show "qe_sort a' < qe_sort b'"
    by (simp add: in_ticket_order_def moves_def advances_def same_place_def)
qed

lemma fair_step_in_order:
  assumes "fair_step s s'" "entry_ids_ok s" "in_ticket_order s"
  shows "in_ticket_order s'"
  using assms(1,2)
proof (cases rule: fair_step_cases)
  case moved
  with assms(3) show ?thesis by (blast intro: in_ticket_order_moves)
next
  case (joined g data token tv now e1)
  from joined show ?thesis
  proof (rule join_queueE)
    fix s1 settings s2 data' ty
    assume s1: "s1 = snd (sweep_queue s g now)" and st: "get_queue_settings s1 (g_id g) = (settings, s2)"
      and e1: "e1 = new_entry s2 (g_id g) (local_day_for (g_zone g) now) data' ty
           (resolve_service_minutes s2 g settings ty now) token tv now"
      and s': "s' = emit (QUEUE_ENTRY_JOINED (qe_id e1))
           (s2\<lparr>db_queue := db_queue s2 @ [e1], db_next := Suc (db_next s2)\<rparr>)"
    have "in_ticket_order s1"
      using in_ticket_order_moves [OF assms(3) sweep_moves [OF assms(2)]] s1 by simp
    then have ord: "in_ticket_order s2"
      using get_queue_settings_frame(1) [OF st] by (simp add: in_ticket_order_def)
    have last: "qe_ticket e < qe_ticket e1 \<and> qe_sort e < qe_sort e1"
      if "e \<in> set (db_queue s2)" "qe_garage e = qe_garage e1" "qe_date e = qe_date e1" for e
      using new_entry_last [OF that(1)] that(2,3) by (simp add: e1 of_day_def)
    show ?thesis
      unfolding in_ticket_order_def
    proof (intro ballI impI)
      fix a b assume ab: "a \<in> set (db_queue s')" "b \<in> set (db_queue s')"
        and lt: "qe_garage a = qe_garage b \<and> qe_date a = qe_date b \<and> qe_ticket a < qe_ticket b"
      show "qe_sort a < qe_sort b"
        using ab lt ord last [of a] last [of b] by (auto simp: s' in_ticket_order_def)
    qed
  qed
qed

lemma fair_steps_in_order:
  assumes "fair_step\<^sup>*\<^sup>* s s'" "db_queue s = []"
  shows "in_ticket_order s' \<and> queue_ok s'"
  using assms(1)
proof (induction rule: rtranclp_induct)
  case base
  with assms(2) show ?case by (simp add: in_ticket_order_def)
next
  case (step t u)
  then show ?case using fair_step_in_order [OF step(2) queue_okD] fair_step_keeps [OF step(2)] by blast
qed

lemma next_waiting_least:
  assumes "next_waiting s gid day = Some e" "e' \<in> set (db_queue s)" "of_day gid day e'" "is_waiting e'"
  shows "qe_sort e \<le> qe_sort e'"
proof -
  obtain rest where line: "waiting_line s gid day = e # rest"
    using assms(1) by (auto simp: next_waiting_def split: list.splits)
  have "sorted (map qe_sort (waiting_line s gid day))" by (simp add: waiting_line_def)
  moreover have "e' \<in> set (waiting_line s gid day)" using assms(2-4) by (simp add: waiting_line_def)
  ultimately show ?thesis by (auto simp: line)
qed

lemma call_nextE:
  assumes "call_entry s g None now = (Inr e, s')"
  obtains w where "next_waiting s (g_id g) (local_day_for (g_zone g) now) = Some w" "e = mark_called w now"
    "s' = emit (QUEUE_ENTRY_CALLED (qe_id w)) (put_entry e s)"
  using assms by (auto simp: call_entry_def Let_def split: option.splits)

subsection \<open>Example for the witnesses: an open queue at noon\<close>

definition noon :: instant where "noon = day_us + 12 * hour_us"

definition open_settings :: queue_settings where
  "open_settings = (default_queue_settings (g_id demo_garage))\<lparr>qs_is_open := True\<rparr>"

definition walkin_db :: db where
  "walkin_db = review_db\<lparr>db_requests := [], db_queue_settings := [open_settings]\<rparr>"

definition ann :: join_data where
  "ann = \<lparr>jd_first = Some ''Ann'', jd_last = None, jd_phone = Some ''+441'', jd_email = None,
     jd_registration = None, jd_notes = None, jd_type = None\<rparr>"

definition ann_entry :: queue_entry where
  "ann_entry = \<lparr>qe_id = 100, qe_garage = g_id demo_garage, qe_status = Q_WAITING, qe_end_reason = None,
     qe_date = 1, qe_ticket = 1, qe_sort = 1, qe_first = ''Ann'', qe_last = None, qe_phone = Some ''+441'',
     qe_email = None, qe_registration = None, qe_notes = None, qe_type = None, qe_minutes = 60,
     qe_token = ''t'', qe_called_at = None, qe_started_at = None, qe_ended_at = None, qe_appointment = None,
     qe_terms_accepted_at = None, qe_terms_version = None\<rparr>"

definition joined_db :: db where
  "joined_db = walkin_db\<lparr>db_queue := [ann_entry], db_events := [QUEUE_ENTRY_JOINED 100], db_next := 101\<rparr>"

lemmas walkin_demo = noon_def open_settings_def walkin_db_def ann_def ann_entry_def joined_db_def default_queue_settings_def
  review_demo calendar_eval

lemma walkin_settings:
  "get_queue_settings walkin_db (g_id demo_garage)
    = (open_settings, walkin_db)"
  by (simp add: get_queue_settings_def walkin_db_def open_settings_def default_queue_settings_def)

lemma walkin_sweep: "sweep_queue walkin_db demo_garage noon = ([], walkin_db)"
proof -
  have "db_queue walkin_db = []" by (simp add: walkin_db_def review_db_def demo_db_def)
  then show ?thesis by (simp add: sweep_queue_def walkin_settings)
qed

lemma walkin_minutes:
  "resolve_service_minutes walkin_db demo_garage st None noon = 60" if "\<not> qs_average_manual st"
  using that
  by (simp add: resolve_service_minutes_def average_info_def auto_average_minutes_def walkin_demo)

lemma walkin_admitted:
  "join_refusal_reason open_settings (snapshot_of walkin_db demo_garage open_settings noon) 60 = None"
  by (simp add: join_refusal_reason_def snapshot_of_def Let_def open_interval_def queue_capacity_def
      today_entries_def day_appointments_def day_window_def waiting_jobs_def busy_intervals_def
      appointment_busy_def finished_appointment_statuses_def map_filter_simps eta_eval walkin_demo)

lemma walkin_join: "join_queue walkin_db demo_garage ann ''t'' None noon = (Inr ann_entry, joined_db)"
proof -
  let ?st = open_settings
  have day: "local_day_for (g_zone demo_garage) noon = 1" by (simp add: walkin_demo)
  have q: "db_queue walkin_db = []" "db_next walkin_db = 100" "db_events walkin_db = []"
    by (simp_all add: walkin_db_def review_db_def demo_db_def)
  have fields: "check_fields ?st ann = Some ann"
    by (simp add: check_fields_def check_field_def ann_def open_settings_def default_queue_settings_def truthy_def text_eval)
  have ty: "chosen_type walkin_db (g_id demo_garage) (jd_type ann) = Some None"
    by (simp add: chosen_type_def ann_def)
  have sn: "sn_date (snapshot_of walkin_db demo_garage ?st noon) = 1"
      "sn_entries (snapshot_of walkin_db demo_garage ?st noon) = []"
    by (simp_all add: snapshot_of_def Let_def day today_entries_def q)
  have e: "new_entry walkin_db (g_id demo_garage) 1 ann None 60 ''t'' None noon = ann_entry"
    by (simp add: new_entry_def stamp_entry_def Let_def ann_def strip_or_none_def q fresh_id_def ann_entry_def text_eval)
  have auto: "\<not> qs_average_manual open_settings" by (simp add: open_settings_def default_queue_settings_def)
  have id: "qe_id ann_entry = 100" by (simp add: ann_entry_def)
  show ?thesis
    unfolding join_queue_def walkin_sweep snd_conv Let_def walkin_settings prod.case fields option.case ty
    by (simp add: walkin_minutes [OF auto] walkin_admitted sn phone_in_queue_def e id q emit_def joined_db_def)
qed

end
