(* ===== verification/Walkin_Promises.thy ===== *)
theory Walkin_Promises
  imports Walkin_Lifecycle
begin

text \<open>
  The properties of the walk-in queue: places stay distinct, entries only advance, the line is
  first come first served, a staff reorder gives exactly the order asked for, the sweep hands every
  freed bay to the next in line, whoever may join is seen before closing, checking in is never
  blocked, and the automatic average stays in its band.
\<close>

subsection \<open>The line after a call, a sweep, a reorder\<close>

lemma line_after_call:
  assumes "entry_ids_ok s" "waiting_line s gid day = e # rest"
  shows "waiting_line (put_entry (mark_called e now) s) gid day = rest"
proof -
  let ?P = "\<lambda>x. of_day gid day x \<and> is_waiting x"
  have e: "e \<in> set (db_queue s)" using waiting_lineD [of e s gid day] assms(2) by simp
  have "filter ?P (row_set qe_id (mark_called e now) xs) = filter (\<lambda>x. ?P x \<and> qe_id x \<noteq> qe_id e) xs" for xs
    by (induction xs) (auto simp: row_set_def mark_called_def is_waiting_def)
  then have "waiting_line (put_entry (mark_called e now) s) gid day
      = filter (\<lambda>x. qe_id x \<noteq> qe_id e) (waiting_line s gid day)"
    by (simp add: waiting_line_def filter_sort conj_commute)
  moreover have "distinct (map qe_id (waiting_line s gid day))"
  proof -
    have "distinct (map qe_id (filter ?P (db_queue s)))"
      using assms(1) by (simp add: entry_ids_ok_def distinct_map_filter)
    then show ?thesis
      by (simp add: waiting_line_def distinct_map inj_on_def)
  qed
  ultimately show ?thesis using assms(2) by (auto simp: filter_id_conv) (metis image_eqI)
qed

lemma call_up_takes:
  assumes "call_up n gid today now s = (called, s')" "entry_ids_ok s"
  shows "called = map qe_id (take n (waiting_line s gid today))
    \<and> waiting_line s' gid today = drop n (waiting_line s gid today)"
  using assms
proof (induction n arbitrary: s called)
  case (Suc n)
  show ?case
  proof (cases "waiting_line s gid today")
    case Nil
    with Suc.prems show ?thesis by (simp add: next_waiting_def)
  next
    case (Cons e rest)
    then have nw: "next_waiting s gid today = Some e" by (simp add: next_waiting_def)
    let ?s = "put_entry (mark_called e now) s"
    obtain more where more: "call_up n gid today now ?s = (more, s')" "called = qe_id e # more"
      using Suc.prems(1) nw by (auto split: prod.splits)
    have "entry_ids_ok ?s" using next_waitingD [OF nw] by (intro entry_ids_ok_put_entry [OF Suc.prems(2)]) simp_all
    from Suc.IH [OF more(1) this] show ?thesis
      by (simp add: more(2) Cons line_after_call [OF Suc.prems(2) Cons])
  qed
qed simp

lemma line_end_where:
  assumes "\<And>e. of_day gid day e \<Longrightarrow> is_waiting e \<Longrightarrow> \<not> P e" "st \<noteq> Q_WAITING"
  shows "waiting_line (end_where P st r now s) gid day = waiting_line s gid day"
proof -
  have "filter (\<lambda>e. of_day gid day e \<and> is_waiting e) (map (\<lambda>e. if P e then end_entry e st r now else e) xs)
      = filter (\<lambda>e. of_day gid day e \<and> is_waiting e) xs" for xs
    using assms by (induction xs) (auto simp: end_entry_def is_waiting_def)
  then show ?thesis by (simp add: waiting_line_def)
qed

text \<open>What the entry that \<open>call_up\<close> leaves called looks like.\<close>

lemma call_up_entries:
  assumes "call_up n gid today now s = (called, s')" "e' \<in> set (db_queue s')"
  shows "e' \<in> set (db_queue s) \<or> (\<exists>e \<in> set (db_queue s). of_day gid today e \<and> is_waiting e \<and> e' = mark_called e now)"
  using assms
proof (induction n arbitrary: s called)
  case (Suc n)
  show ?case
  proof (cases "next_waiting s gid today")
    case (Some e)
    let ?s = "put_entry (mark_called e now) s"
    obtain more where "call_up n gid today now ?s = (more, s')"
      using Suc.prems(1) Some by (auto split: prod.splits)
    from Suc.IH [OF this Suc.prems(2)] next_waitingD [OF Some] show ?thesis
      by (auto dest!: in_row_set simp: mark_called_def is_waiting_def)
  qed (use Suc.prems in simp)
qed simp

lemma sweep_cases:
  assumes "sweep_queue s0 g now = (called, s')"
  obtains settings s where "get_queue_settings s0 (g_id g) = (settings, s)"
    "called = []" "s' = s" "\<not> list_ex (stale_entry (g_id g) (local_day_for (g_zone g) now)) (db_queue s)"
    "\<not> list_ex (call_overdue (g_id g) (local_day_for (g_zone g) now) (qs_timeout_minutes settings) now) (db_queue s)"
  | settings s s1 s2 s3 where "get_queue_settings s0 (g_id g) = (settings, s)"
    "s1 = end_where (stale_entry (g_id g) (local_day_for (g_zone g) now)) Q_CANCELLED (Some END_DAY_ENDED) now s"
    "s2 = end_where (call_overdue (g_id g) (local_day_for (g_zone g) now) (qs_timeout_minutes settings) now)
       Q_NO_SHOW (Some END_CALL_TIMEOUT) now s1"
    "call_up (length (filter (call_overdue (g_id g) (local_day_for (g_zone g) now) (qs_timeout_minutes settings) now)
       (db_queue s1))) (g_id g) (local_day_for (g_zone g) now) now s2 = (called, s3)"
    "s' = emit_called called s3"
  using assms unfolding sweep_queue_def by (auto simp: Let_def split: prod.splits if_splits)

lemma ended_never_due:
  assumes "status = Q_CANCELLED \<or> status = Q_NO_SHOW"
  shows "\<not> stale_entry gid today (end_entry e status reason now)"
    "\<not> call_overdue gid today timeout t (end_entry e status reason now)"
  using assms by (auto simp: end_entry_def stale_entry_def call_overdue_def split: option.split)

lemma in_end_where:
  "e' \<in> set (db_queue (end_where P status reason now s)) \<Longrightarrow>
    (\<exists>e. e' = end_entry e status reason now) \<or> e' \<in> set (db_queue s) \<and> \<not> P e'"
  by (auto simp: end_where_def)

lemma sweep_settles:
  assumes "sweep_queue s0 g now = (called, s')" "get_queue_settings s0 (g_id g) = (settings, s)"
    "\<And>m. qs_timeout_minutes settings = Some m \<Longrightarrow> 0 \<le> m"
  shows "\<not> list_ex (stale_entry (g_id g) (local_day_for (g_zone g) now)) (db_queue s')
    \<and> \<not> list_ex (call_overdue (g_id g) (local_day_for (g_zone g) now) (qs_timeout_minutes settings) now) (db_queue s')"
  using assms(1)
proof (cases rule: sweep_cases)
  case 1
  with assms(2) show ?thesis by simp
next
  case (2 settings' sx s1 s2 s3)
  let ?day = "local_day_for (g_zone g) now"
  let ?stale = "stale_entry (g_id g) ?day"
  let ?due = "call_overdue (g_id g) ?day (qs_timeout_minutes settings) now"
  have eq: "settings' = settings" "sx = s" using 2(1) assms(2) by simp_all
  have q1: "\<not> ?stale e" if "e \<in> set (db_queue s1)" for e
    using in_end_where [OF that [unfolded 2(2)]] ended_never_due(1) by auto
  have q2: "\<not> ?stale e \<and> \<not> ?due e" if e: "e \<in> set (db_queue s2)" for e
    using in_end_where [OF e [unfolded 2(3) eq]]
  proof
    assume "\<exists>e0. e = end_entry e0 Q_NO_SHOW (Some END_CALL_TIMEOUT) now"
    then show ?thesis by (auto simp: ended_never_due)
  next
    assume "e \<in> set (db_queue s1) \<and> \<not> ?due e"
    with q1 show ?thesis by simp
  qed
  have "\<not> ?stale e' \<and> \<not> ?due e'" if e': "e' \<in> set (db_queue s')" for e'
  proof -
    from e' 2(5) have "e' \<in> set (db_queue s3)" by simp
    from call_up_entries [OF 2(4) this] show ?thesis
    proof
      assume "e' \<in> set (db_queue s2)"
      then show ?thesis by (rule q2)
    next
      assume "\<exists>e \<in> set (db_queue s2). of_day (g_id g) ?day e \<and> is_waiting e \<and> e' = mark_called e now"
      then show ?thesis using assms(3)
        by (auto simp: mark_called_def stale_entry_def call_overdue_def of_day_def split: option.splits)
    qed
  qed
  then show ?thesis by (auto simp: list_ex_iff)
qed

lemma sweep_hands_over:
  assumes "sweep_queue s0 g now = (called, s')" "entry_ids_ok s0" "get_queue_settings s0 (g_id g) = (settings, s)"
  shows "called = map qe_id (take (length (filter (call_overdue (g_id g) (local_day_for (g_zone g) now)
      (qs_timeout_minutes settings) now) (db_queue s0))) (waiting_line s0 (g_id g) (local_day_for (g_zone g) now)))"
  using assms(1)
proof (cases rule: sweep_cases)
  case 1
  then have "filter (call_overdue (g_id g) (local_day_for (g_zone g) now) (qs_timeout_minutes settings) now)
      (db_queue s0) = []"
    using assms(3) get_queue_settings_frame(1) [OF assms(3)] by (auto simp: filter_empty_conv list_ex_iff)
  with 1 show ?thesis by simp
next
  case (2 settings' sx s1 s2 s3)
  let ?day = "local_day_for (g_zone g) now"
  let ?due = "call_overdue (g_id g) ?day (qs_timeout_minutes settings) now"
  have eq: "settings' = settings" "sx = s" using 2(1) assms(3) by simp_all
  have q: "db_queue s = db_queue s0" "db_next s = db_next s0" using get_queue_settings_frame [OF assms(3)] by simp_all
  have ok: "entry_ids_ok s" using assms(2) q by (simp add: entry_ids_ok_def)
  have m1: "all_move (db_queue s) (db_queue s1)"
    unfolding 2(2) eq by (rule end_where_moves) (auto simp: stale_entry_def)
  have m2: "all_move (db_queue s1) (db_queue s2)"
    unfolding 2(3) by (rule end_where_moves) (auto simp: call_overdue_def split: option.splits)
  have ok2: "entry_ids_ok s2"
    by (rule all_move_ids_ok [OF all_move_trans [OF m1 m2] _ ok]) (simp add: 2(2,3) eq)
  have "waiting_line s2 (g_id g) ?day = waiting_line s1 (g_id g) ?day"
    unfolding 2(3) by (rule line_end_where) (auto simp: call_overdue_def is_waiting_def split: option.splits)
  also have "\<dots> = waiting_line s (g_id g) ?day"
    unfolding 2(2) eq by (rule line_end_where) (auto simp: stale_entry_def of_day_def)
  also have "\<dots> = waiting_line s0 (g_id g) ?day" by (simp add: waiting_line_def q)
  finally have line: "waiting_line s2 (g_id g) ?day = waiting_line s0 (g_id g) ?day" .
  have "length (filter ?due (db_queue s1)) = length (filter ?due (db_queue s))"
  proof -
    have "length (filter ?due (map (\<lambda>e. if stale_entry (g_id g) ?day e
        then end_entry e Q_CANCELLED (Some END_DAY_ENDED) now else e) xs)) = length (filter ?due xs)" for xs
      by (induction xs) (auto simp: call_overdue_def stale_entry_def end_entry_def of_day_def split: option.splits)
    then show ?thesis by (simp add: 2(2) eq)
  qed
  with call_up_takes [OF 2(4) ok2] line eq q show ?thesis by simp
qed

lemma waiting_line_ids:
  assumes "entry_ids_ok s"
  shows "distinct (map qe_id (waiting_line s gid day))"
    "set (waiting_line s gid day) = set (filter (\<lambda>e. of_day gid day e \<and> is_waiting e) (db_queue s))"
proof -
  have "distinct (map qe_id (filter (\<lambda>e. of_day gid day e \<and> is_waiting e) (db_queue s)))"
    using assms by (simp add: entry_ids_ok_def distinct_map_filter)
  then show "distinct (map qe_id (waiting_line s gid day))"
    by (simp add: waiting_line_def distinct_map inj_on_def)
qed (simp add: waiting_line_def)

lemma reorder_line:
  assumes "reorder_waiting s g is now = (Inr (), s')" "entry_ids_ok s"
  shows "map qe_id (waiting_line s' (g_id g) (local_day_for (g_zone g) now)) = is"
proof -
  let ?day = "local_day_for (g_zone g) now"
  let ?L = "waiting_line s' (g_id g) ?day"
  from assms(1) obtain base where ids: "distinct is" "set is = qe_id ` set (filter (in_line g now) (db_queue s))"
    and eq: "s' = s\<lparr>db_queue := map (\<lambda>e. if in_line g now e
       then e\<lparr>qe_sort := base + offset_of (qe_id e) is\<rparr> else e) (db_queue s)\<rparr>"
    by (rule reorder_waitingE)
  define f where "f = (\<lambda>e. if in_line g now e then e\<lparr>qe_sort := base + offset_of (qe_id e) is\<rparr> else e)"
  have s': "s' = s\<lparr>db_queue := map f (db_queue s)\<rparr>" by (simp add: eq f_def)
  have fid: "qe_id (f e) = qe_id e" for e by (simp add: f_def)
  have fin: "in_line g now (f e) = in_line g now e" for e
    by (simp add: f_def in_line_def of_day_def is_waiting_def)
  have keys: "map qe_id (db_queue s') = map qe_id (db_queue s)" by (simp add: s' fid)
  have ok: "entry_ids_ok s'" using assms(2) unfolding entry_ids_ok_alt keys by (simp add: s')
  have mem: "set ?L = f ` set (filter (in_line g now) (db_queue s))"
    unfolding waiting_line_ids(2) [OF ok] in_line_def [symmetric]
    by (auto simp: s' fin)
  have setL: "set (map qe_id ?L) = set is" using ids(2) by (simp add: mem image_image fid)
  have sort: "qe_sort e = base + offset_of (qe_id e) is" if "e \<in> set ?L" for e
    using that by (auto simp: mem f_def)
  have "sorted (map qe_sort ?L)" by (simp add: waiting_line_def)
  also have "map qe_sort ?L = map (\<lambda>i. base + offset_of i is) (map qe_id ?L)" using sort by simp
  finally have s1: "sorted (map (\<lambda>i. offset_of i is) (map qe_id ?L))"
    by (simp add: sorted_iff_nth_mono)
  have "map (\<lambda>i. offset_of i is) is = map int [0..<length is]"
    by (rule nth_equalityI) (simp_all add: offset_of_nth ids(1))
  then have s2: "sorted (map (\<lambda>i. offset_of i is) is)" by (simp add: sorted_iff_nth_mono)
  have inj: "inj_on (\<lambda>i. offset_of i is) (set is)" by (auto intro: inj_onI offset_of_inj)
  let ?o = "\<lambda>i. offset_of i is"
  have d: "distinct (map ?o is)" "distinct (map ?o (map qe_id ?L))"
    unfolding distinct_map [of ?o] setL using inj ids(1) waiting_line_ids(1) [OF ok] by simp_all
  have "set (map ?o (map qe_id ?L)) = set (map ?o is)" unfolding set_map [of ?o] setL ..
  then have "map ?o (map qe_id ?L) = map ?o is" by (intro sorted_distinct_set_unique s1 s2 d)
  then show ?thesis using inj setL by (intro map_inj_on [of ?o]) simp_all
qed

subsection \<open>The estimate of the last in line\<close>

lemma place_jobs_append:
  "take (length js) (place_jobs cap cl ivs fl bl i (js @ ks)) = place_jobs cap cl ivs fl bl i js"
  by (induction js arbitrary: ivs fl bl i) (simp_all add: Let_def)

lemma place_jobs_starts_eq:
  "map job_minutes js = map job_minutes ks \<Longrightarrow>
    map est_start (place_jobs cap cl ivs fl bl i js) = map est_start (place_jobs cap cl ivs fl bl i ks)"
proof (induction js arbitrary: ks ivs fl bl i)
  case (Cons j js)
  from Cons.prems obtain k ks' where ks: "ks = k # ks'" "job_minutes k = job_minutes j"
    "map job_minutes js = map job_minutes ks'" by (cases ks) auto
  from Cons.IH [OF ks(3)] show ?case by (simp add: ks(1,2) Let_def)
qed simp

lemma place_jobs_Nil_iff [simp]: "place_jobs cap cl ivs fl bl i js = [] \<longleftrightarrow> js = []"
  by (cases js) (auto simp: Let_def)

lemma place_jobs_last_ends:
  assumes "js \<noteq> []" "est_start (last (place_jobs cap cl ivs fl bl i js)) = Some t"
  shows "t + job_minutes (last js) * minute_us \<le> cl"
  using assms
proof (induction js arbitrary: ivs fl bl i)
  case (Cons j js)
  then show ?case by (auto simp: Let_def split: if_splits)
qed simp

lemma take_closed_estimates: "take (length js) (closed_estimates (js @ ks)) = closed_estimates js"
  by (rule nth_equalityI) (simp_all add: closed_estimates_def nth_enumerate_eq nth_append)

lemma estimate_queue_append:
  "take (length js) (estimate_queue now cap op cl busy (js @ ks)) = estimate_queue now cap op cl busy js"
  by (auto simp: estimate_queue_def Let_def place_jobs_append take_closed_estimates split: option.split)

lemma closed_estimates_starts: "map est_start (closed_estimates qs) = replicate (length qs) None"
  by (rule nth_equalityI) (simp_all add: closed_estimates_def nth_enumerate_eq)

lemma estimate_queue_starts_eq:
  assumes "map job_minutes js = map job_minutes ks"
  shows "map est_start (estimate_queue now cap op cl busy js) = map est_start (estimate_queue now cap op cl busy ks)"
proof -
  have "length js = length ks" using arg_cong [OF assms, of length] by simp
  then have "map est_start (closed_estimates js) = map est_start (closed_estimates ks)"
    by (simp only: closed_estimates_starts)
  then show ?thesis
    using place_jobs_starts_eq [OF assms]
    by (auto simp: estimate_queue_def Let_def simp del: map_eq_conv split: option.split)
qed

lemma estimate_queue_facts:
  "map est_key (estimate_queue now cap op cl busy js) = map job_key js"
  "map est_position (estimate_queue now cap op cl busy js) = [1..<1 + length js]"
  by (cases now cap op cl busy js rule: estimate_queue_cases;
      simp add: closed_estimates_keys closed_estimates_positions place_jobs_keys place_jobs_positions)+

lemma length_estimate_queue [simp]: "length (estimate_queue now cap op cl busy js) = length js"
  using arg_cong [OF estimate_queue_facts(1), of length] by simp

lemma estimate_queue_last_ends:
  assumes "js \<noteq> []" "est_start (last (estimate_queue now cap op cl busy js)) = Some t"
  shows "\<exists>c. cl = Some c \<and> t + job_minutes (last js) * minute_us \<le> c"
proof (cases now cap op cl busy js rule: estimate_queue_cases)
  case closed
  have "map est_start (closed_estimates js) \<noteq> []" using assms(1) by (simp only: closed_estimates_starts) simp
  then have "closed_estimates js \<noteq> []" by simp
  then have "last (closed_estimates js) \<in> set (closed_estimates js)" by simp
  with closed assms(2) show ?thesis by (simp add: closed_estimates_none)
next
  case (placed opens closes)
  with assms place_jobs_last_ends [OF assms(1)] show ?thesis by simp
qed

lemma find_key_distinct:
  assumes "distinct (map key xs)" "x \<in> set xs"
  shows "find (\<lambda>y. key y = key x) (rev xs) = Some x"
proof (cases "find (\<lambda>y. key y = key x) (rev xs)")
  case None
  with assms(2) show ?thesis by (auto simp: find_None_iff)
next
  case (Some y)
  from find_SomeD [OF Some] have "y \<in> set xs" "key y = key x" by simp_all
  with assms have "y = x" by (metis distinct_map inj_onD)
  with Some show ?thesis by simp
qed

lemma sort_key_snoc:
  assumes "\<And>y. y \<in> set xs \<Longrightarrow> f y < f x"
  shows "sort_key f (xs @ [x]) = sort_key f xs @ [x]"
proof (rule properties_for_sort_key)
  show "sorted (map f (sort_key f xs @ [x]))" using assms by (auto simp: sorted_append less_imp_le)
  fix k assume "k \<in> set (sort_key f xs @ [x])"
  have "filter (\<lambda>y. f k = f y) (sort_key f xs) = filter (\<lambda>y. f k = f y) xs"
    using sort_key_stable [of f "f k" xs] by (simp add: eq_commute)
  then show "filter (\<lambda>y. f k = f y) (sort_key f xs @ [x]) = filter (\<lambda>y. f k = f y) (xs @ [x])" by simp
qed simp

lemma busy_intervals_waiting:
  "is_waiting e \<Longrightarrow> busy_intervals (entries @ [e]) appts now = busy_intervals entries appts now"
  by (simp add: busy_intervals_def map_filter_def entry_busy_def is_waiting_def)

subsection \<open>The queue after a join\<close>

lemma get_queue_settings_again:
  assumes "get_queue_settings s i = (q, s1)" "db_queue_settings t = db_queue_settings s1"
  shows "get_queue_settings t i = (q, t)"
proof -
  have "find (\<lambda>q. qs_garage q = i) (db_queue_settings s1) = Some q"
    using assms(1)
    by (auto simp: get_queue_settings_def default_queue_settings_def find_snoc split: option.splits)
  with assms(2) show ?thesis by (simp add: get_queue_settings_def)
qed

lemma snapshot_after_join:
  assumes "of_day (g_id g) (local_day_for (g_zone g) now) e"
    and last: "\<And>x. x \<in> set (db_queue s1) \<Longrightarrow> of_day (g_id g) (local_day_for (g_zone g) now) x \<Longrightarrow> qe_sort x < qe_sort e"
    and s': "db_queue s' = db_queue s1 @ [e]" "db_appointments s' = db_appointments s1" "db_employees s' = db_employees s1"
  shows "sn_entries (snapshot_of s' g st now) = sn_entries (snapshot_of s1 g st now) @ [e]"
    "sn_appointments (snapshot_of s' g st now) = sn_appointments (snapshot_of s1 g st now)"
    "sn_capacity (snapshot_of s' g st now) = sn_capacity (snapshot_of s1 g st now)"
    "sn_opens (snapshot_of s' g st now) = sn_opens (snapshot_of s1 g st now)"
    "sn_closes (snapshot_of s' g st now) = sn_closes (snapshot_of s1 g st now)"
proof -
  let ?day = "local_day_for (g_zone g) now"
  have "sort_key qe_sort (filter (of_day (g_id g) ?day) (db_queue s1) @ [e])
      = sort_key qe_sort (filter (of_day (g_id g) ?day) (db_queue s1)) @ [e]"
    by (rule sort_key_snoc) (use last in simp)
  then show "sn_entries (snapshot_of s' g st now) = sn_entries (snapshot_of s1 g st now) @ [e]"
    using assms(1) s' by (simp add: snapshot_of_def Let_def today_entries_def)
qed (simp_all add: snapshot_of_def Let_def day_appointments_def queue_capacity_def slot_capacity_def s' split: option.split)

lemma snapshot_estimates:
  "sn_estimates (snapshot_of s g st now) = estimates_of (estimate_queue now (sn_capacity (snapshot_of s g st now))
     (sn_opens (snapshot_of s g st now)) (sn_closes (snapshot_of s g st now))
     (busy_intervals (sn_entries (snapshot_of s g st now)) (sn_appointments (snapshot_of s g st now)) now)
     (waiting_jobs (sn_entries (snapshot_of s g st now))
       @ [\<lparr>job_key = None, job_minutes = resolve_service_minutes s g st None now\<rparr>]))"
  "sn_now (snapshot_of s g st now) = now"
  by (simp_all add: snapshot_of_def Let_def)

text \<open>The estimate of the last waiting entry does not depend on the keys, nor on the newcomer behind it.\<close>

lemma last_estimate:
  assumes keys: "distinct (map job_key (js @ [j, n]))"
    and fits: "est_start (last (estimate_queue now cap op cl busy (js @ [j']))) = Some t"
    and mins: "job_minutes j' = job_minutes j"
  shows "\<exists>est. find (\<lambda>x. est_key x = job_key j) (rev (estimate_queue now cap op cl busy (js @ [j, n]))) = Some est
    \<and> est_start est = Some t \<and> est_position est = length js + 1
    \<and> (\<exists>c. cl = Some c \<and> t + job_minutes j * minute_us \<le> c)"
proof -
  let ?R = "estimate_queue now cap op cl busy (js @ [j, n])"
  let ?R1 = "estimate_queue now cap op cl busy (js @ [j])"
  have take: "take (length js + 1) ?R = ?R1"
    using estimate_queue_append [of "js @ [j]" now cap op cl busy "[n]"] by simp
  have len: "length ?R = length js + 2" "length ?R1 = length js + 1" by simp_all
  have nth: "?R ! length js = ?R1 ! length js" using take len by (metis less_add_one nth_take)
  have lst: "last ?R1 = ?R1 ! length js" using len(2) by (metis add_diff_cancel_right' last_conv_nth length_0_conv
      add_is_0 one_neq_zero)
  have "map est_start ?R1 = map est_start (estimate_queue now cap op cl busy (js @ [j']))"
    by (rule estimate_queue_starts_eq) (simp add: mins)
  then have "last (map est_start ?R1) = last (map est_start (estimate_queue now cap op cl busy (js @ [j'])))" by simp
  moreover have "?R1 \<noteq> []" "estimate_queue now cap op cl busy (js @ [j']) \<noteq> []"
    using len(2) length_estimate_queue [of now cap op cl busy "js @ [j']"] by (auto simp del: length_estimate_queue)
  ultimately have start: "est_start (last ?R1) = Some t" using fits by (simp add: last_map)
  have "map est_key ?R ! length js = job_key j" by (simp add: estimate_queue_facts(1) nth_append)
  then have key: "est_key (?R ! length js) = job_key j" using len(1) by simp
  have "map est_position ?R ! length js = length js + 1" by (simp add: estimate_queue_facts(2) del: upt_Suc)
  then have pos: "est_position (?R ! length js) = length js + 1" using len(1) by simp
  have "find (\<lambda>x. est_key x = est_key (?R ! length js)) (rev ?R) = Some (?R ! length js)"
    using keys len(1) by (intro find_key_distinct) (simp_all add: estimate_queue_facts(1))
  moreover have "\<exists>c. cl = Some c \<and> t + job_minutes j * minute_us \<le> c"
    using estimate_queue_last_ends [OF _ start] by simp
  ultimately show ?thesis using key pos start nth lst by auto
qed

subsection \<open>Checking in\<close>

lemma walkin_customer_resolves:
  assumes "existing = find_customer s gid (qe_phone e)"
    "registration = (if registration_is_someone_elses s gid (qe_registration e) existing then None else qe_registration e)"
  shows "\<exists>c v s'. resolve_customer_and_vehicle s gid (map_option cu_id existing) (walkin_contact e registration) no_item
      = (Inr (c, v), s') \<and> db_appointments s' = db_appointments s"
proof -
  obtain c s1 where rc: "resolve_customer s gid (map_option cu_id existing) (walkin_contact e registration) = (c, s1)"
    by fastforce
  have s1: "db_vehicles s1 = db_vehicles s" "db_appointments s1 = db_appointments s"
    using rc by (auto simp: resolve_customer_def put_customer_def Let_def split: option.splits if_splits)
  have same: "cu_id c = cu_id c0" if "existing = Some c0" for c0
  proof -
    have "c0 \<in> set (db_customers s)" "cu_garage c0 = gid"
    proof -
      from that assms(1) have "[c0] = filter (\<lambda>c. cu_garage c = gid \<and> cu_phone c = qe_phone e) (db_customers s)"
        by (auto simp: find_customer_def split: if_splits list.splits)
      then have "c0 \<in> set (filter (\<lambda>c. cu_garage c = gid \<and> cu_phone c = qe_phone e) (db_customers s))"
        by (metis list.set_intros(1))
      then show "c0 \<in> set (db_customers s)" "cu_garage c0 = gid" by simp_all
    qed
    then obtain c1 where c1: "find (\<lambda>x. cu_id x = cu_id c0 \<and> cu_garage x = gid) (db_customers s) = Some c1"
      by (cases "find (\<lambda>x. cu_id x = cu_id c0 \<and> cu_garage x = gid) (db_customers s)") (auto simp: find_None_iff)
    with find_SomeD [OF c1] rc that show ?thesis
      by (auto simp: resolve_customer_def match_customer_def split: if_splits)
  qed
  show ?thesis
  proof (cases "registration = None \<or> strip_text (the registration) = []")
    case True
    with rc s1 show ?thesis
      by (auto simp: resolve_customer_and_vehicle_def walkin_contact_def split: option.split)
  next
    case False
    then obtain reg where reg: "registration = Some reg" "strip_text reg \<noteq> []" by auto
    then have given: "qe_registration e = Some reg"
      and mine: "\<not> registration_is_someone_elses s gid (Some reg) existing"
      using assms(2) by (auto split: if_splits)
    have "reg \<noteq> []" using reg(2) by (auto simp: strip_text_def)
    show ?thesis
    proof (cases "find (\<lambda>v. ve_garage v = gid \<and> ve_registration v = normalize_registration reg) (db_vehicles s)")
      case None
      with rc s1 reg show ?thesis
        by (simp add: resolve_customer_and_vehicle_def walkin_contact_def Let_def)
    next
      case (Some v)
      with mine \<open>reg \<noteq> []\<close> obtain c0 where "existing = Some c0" "ve_customer v = cu_id c0"
        by (auto simp: registration_is_someone_elses_def truthy_def split: option.splits)
      with Some rc s1 reg same show ?thesis
        by (simp add: resolve_customer_and_vehicle_def walkin_contact_def Let_def put_vehicle_def)
    qed
  qed
qed

lemma some_type_resolves:
  assumes "ty \<in> set (db_types s)" "ty_garage ty = gid" "ty_status ty = TYPE_ACTIVE"
  shows "\<exists>ty'. resolve_appointment_type s gid e settings None = Inr ty'"
proof -
  have "\<exists>r. try_types s gid None cs = Inr r" for cs
    by (induction cs) (auto split: option.split)
  then obtain r where r: "try_types s gid None [None, qe_type e, qs_default_type settings] = Inr r" by blast
  have "ty \<in> set (sort_key (\<lambda>ty. (ty_order ty, ty_name ty))
      (filter (\<lambda>ty. ty_garage ty = gid \<and> ty_status ty = TYPE_ACTIVE) (db_types s)))" using assms by simp
  then obtain ty' where "first_active_type s gid = Some ty'"
    unfolding first_active_type_def by (metis (no_types, lifting) list.exhaust list.set(1) empty_iff list.simps(5))
  with r show ?thesis by (cases r) (simp_all add: resolve_appointment_type_def)
qed

subsection \<open>Properties\<close>

text \<open>
  C33: Places in the queue never collide: after any sequence of joins, calls, check-ins, completions,
  cancellations, sweeps, reorders and settings changes, two entries of one business and day have
  different ticket numbers, two waiting ones different places in line, and no phone number holds
  two active places.
\<close>

theorem queue_places_stay_apart:
  assumes "queue_step\<^sup>*\<^sup>* s s'" "db_queue s = []" "e \<in> set (db_queue s')" "e' \<in> set (db_queue s')" "e \<noteq> e'"
    "qe_garage e = qe_garage e'" "qe_date e = qe_date e'"
  shows "qe_ticket e \<noteq> qe_ticket e'
    \<and> (qe_status e = Q_WAITING \<and> qe_status e' = Q_WAITING \<longrightarrow> qe_sort e \<noteq> qe_sort e')
    \<and> (qe_status e \<in> set active_statuses \<and> qe_status e' \<in> set active_statuses \<and> truthy (qe_phone e)
         \<longrightarrow> qe_phone e \<noteq> qe_phone e')"
proof -
  have ok: "queue_ok s'" using assms(1) by (rule queue_steps_keep) (simp add: assms(2))
  then have "qe_id e \<noteq> qe_id e'"
    using assms(3-5) by (auto simp: queue_ok_def entry_ids_ok_def distinct_map dest: inj_onD)
  with ok assms(3,4,6,7) show ?thesis by (auto simp: queue_ok_def apart_def is_waiting_def)
qed

definition bob :: join_data where
  "bob = ann\<lparr>jd_first := Some ''Bob'', jd_phone := Some ''+442''\<rparr>"

definition bob_entry :: queue_entry where
  "bob_entry = ann_entry\<lparr>qe_id := 101, qe_ticket := 2, qe_sort := 2, qe_first := ''Bob'', qe_phone := Some ''+442'',
     qe_token := ''u''\<rparr>"

definition two_db :: db where
  "two_db = joined_db\<lparr>db_queue := [ann_entry, bob_entry],
     db_events := [QUEUE_ENTRY_JOINED 100, QUEUE_ENTRY_JOINED 101], db_next := 102\<rparr>"

lemma joined_settings: "get_queue_settings joined_db (g_id demo_garage) = (open_settings, joined_db)"
  by (simp add: get_queue_settings_def joined_db_def walkin_db_def open_settings_def default_queue_settings_def)

lemma joined_sweep: "sweep_queue joined_db demo_garage noon = ([], joined_db)"
proof -
  have day: "local_day_for (g_zone demo_garage) noon = 1" by (simp add: walkin_demo)
  have "db_queue joined_db = [ann_entry]" by (simp add: joined_db_def)
  moreover have "\<not> stale_entry (g_id demo_garage) 1 ann_entry" by (simp add: stale_entry_def ann_entry_def)
  moreover have "\<not> call_overdue (g_id demo_garage) 1 m noon ann_entry" for m
    by (simp add: call_overdue_def ann_entry_def split: option.split)
  ultimately show ?thesis by (simp add: sweep_queue_def joined_settings day)
qed

lemma joined_admitted:
  "join_refusal_reason open_settings (snapshot_of joined_db demo_garage open_settings noon) 60 = None"
  by (simp add: join_refusal_reason_def snapshot_of_def Let_def open_interval_def queue_capacity_def
      today_entries_def day_appointments_def day_window_def waiting_jobs_def busy_intervals_def entry_busy_def
      appointment_busy_def finished_appointment_statuses_def map_filter_simps eta_eval of_day_def is_waiting_def
      walkin_demo)

lemma joined_minutes: "resolve_service_minutes joined_db demo_garage open_settings None noon = 60"
  by (simp add: resolve_service_minutes_def average_info_def auto_average_minutes_def walkin_demo)

lemma second_join: "join_queue joined_db demo_garage bob ''u'' None noon = (Inr bob_entry, two_db)"
proof -
  have day: "local_day_for (g_zone demo_garage) noon = 1" by (simp add: walkin_demo)
  have q: "db_queue joined_db = [ann_entry]" "db_next joined_db = 101" "db_events joined_db = [QUEUE_ENTRY_JOINED 100]"
    by (simp_all add: joined_db_def)
  have fields: "check_fields open_settings bob = Some bob"
    by (simp add: check_fields_def check_field_def bob_def ann_def open_settings_def default_queue_settings_def
        truthy_def text_eval)
  have ty: "chosen_type joined_db (g_id demo_garage) (jd_type bob) = Some None"
    by (simp add: chosen_type_def bob_def ann_def)
  have today: "of_day (g_id demo_garage) 1 ann_entry" by (simp add: of_day_def ann_entry_def)
  have sn: "sn_date (snapshot_of joined_db demo_garage open_settings noon) = 1"
      "sn_entries (snapshot_of joined_db demo_garage open_settings noon) = [ann_entry]"
    by (simp_all add: snapshot_of_def Let_def day today_entries_def q today)
  have e: "new_entry joined_db (g_id demo_garage) 1 bob None 60 ''u'' None noon = bob_entry"
    by (simp add: new_entry_def stamp_entry_def Let_def bob_def ann_def strip_or_none_def q today fresh_id_def
        bob_entry_def text_eval) (simp add: ann_entry_def)
  have "qe_id bob_entry = 101" "\<not> phone_in_queue (jd_phone bob) [ann_entry]"
    by (simp_all add: bob_entry_def phone_in_queue_def bob_def ann_entry_def)
  then show ?thesis
    unfolding join_queue_def joined_sweep snd_conv Let_def joined_settings prod.case fields option.case ty
    by (simp add: joined_minutes joined_admitted sn e q emit_def two_db_def)
qed

lemma two_joins: "fair_step\<^sup>*\<^sup>* walkin_db two_db"
  using fair_join [OF walkin_join] fair_join [OF second_join] by (meson rtranclp.rtrancl_into_rtrancl rtranclp.rtrancl_refl)

lemma walkin_empty: "db_queue walkin_db = []"
  by (simp add: walkin_db_def review_db_def demo_db_def)

lemma two_ok: "queue_ok two_db"
  using two_joins by (rule fair_steps_keep) (simp add: walkin_empty)

theorem queue_places_stay_apart_witness:
  "qe_ticket ann_entry \<noteq> qe_ticket bob_entry \<and> qe_sort ann_entry \<noteq> qe_sort bob_entry
    \<and> qe_phone ann_entry \<noteq> qe_phone bob_entry"
proof -
  have "queue_step\<^sup>*\<^sup>* walkin_db two_db"
    using two_joins by (induction rule: rtranclp_induct) (auto intro: rtranclp.rtrancl_into_rtrancl step_fair)
  from queue_places_stay_apart [OF this walkin_empty, of ann_entry bob_entry] show ?thesis
    by (simp add: two_db_def bob_entry_def) (simp add: ann_entry_def active_statuses_def truthy_def)
qed

text \<open>
  C34: A place in the queue only advances: whatever is done to the queue, an entry keeps its ticket,
  moves only from waiting to called to in service to done (or is cancelled or missed before its
  service starts), and once it is done, cancelled or missed it never changes again.
\<close>

theorem queue_entries_only_advance:
  assumes "queue_step\<^sup>*\<^sup>* s s'" "queue_ok s" "e \<in> set (db_queue s)"
  shows "\<exists>e' \<in> set (db_queue s'). qe_id e' = qe_id e \<and> qe_ticket e' = qe_ticket e
    \<and> qe_status e' \<in> set (later_statuses (qe_status e)) \<and> (finished e \<longrightarrow> e' = e)"
  using queue_steps_entry [OF assms] by (auto simp: advances_def same_place_def)

theorem queue_entries_only_advance_witness:
  "\<exists>e' \<in> set (db_queue (snd (call_entry two_db demo_garage None noon))). qe_id e' = 100 \<and> qe_ticket e' = 1"
proof -
  have "queue_step\<^sup>*\<^sup>* two_db (snd (call_entry two_db demo_garage None noon))"
    by (intro r_into_rtranclp step_fair fair_call)
  from queue_entries_only_advance [OF this two_ok, of ann_entry] show ?thesis
    by (simp add: two_db_def) (auto simp: ann_entry_def)
qed

text \<open>
  Without a staff reorder the queue is first come, first served: after any sequence of the other
  operations, calling the next customer calls a waiting one of today whose ticket is the lowest of
  all who wait, and changes nobody else.
\<close>

theorem call_next_is_first_come:
  assumes "fair_step\<^sup>*\<^sup>* s s'" "db_queue s = []" "call_entry s' g None now = (Inr e, s'')"
  shows "\<exists>w \<in> set (db_queue s'). is_waiting w \<and> of_day (g_id g) (local_day_for (g_zone g) now) w
    \<and> e = mark_called w now \<and> db_queue s'' = row_set qe_id e (db_queue s')
    \<and> (\<forall>w' \<in> set (db_queue s'). is_waiting w' \<and> of_day (g_id g) (local_day_for (g_zone g) now) w'
         \<longrightarrow> qe_ticket w \<le> qe_ticket w')"
proof -
  from fair_steps_in_order [OF assms(1,2)] have ord: "in_ticket_order s'" by simp
  obtain w where w: "next_waiting s' (g_id g) (local_day_for (g_zone g) now) = Some w" "e = mark_called w now"
      "s'' = emit (QUEUE_ENTRY_CALLED (qe_id w)) (put_entry e s')"
    using assms(3) by (rule call_nextE)
  have "qe_ticket w \<le> qe_ticket w'"
    if "w' \<in> set (db_queue s')" "is_waiting w'" "of_day (g_id g) (local_day_for (g_zone g) now) w'" for w'
  proof (rule ccontr)
    assume "\<not> qe_ticket w \<le> qe_ticket w'"
    with ord that next_waitingD [OF w(1)] have "qe_sort w' < qe_sort w"
      by (simp add: in_ticket_order_def of_day_def)
    with next_waiting_least [OF w(1) that(1,3,2)] show False by simp
  qed
  with next_waitingD [OF w(1)] w(2,3) show ?thesis by auto
qed

theorem call_next_is_first_come_witness:
  "\<exists>s''. call_entry two_db demo_garage None noon = (Inr (mark_called ann_entry noon), s'')
    \<and> qe_ticket ann_entry \<le> qe_ticket bob_entry"
proof -
  have day: "local_day_for (g_zone demo_garage) noon = 1" by (simp add: walkin_demo)
  have w: "is_waiting ann_entry" "is_waiting bob_entry" "of_day (g_id demo_garage) 1 ann_entry"
      "of_day (g_id demo_garage) 1 bob_entry"
    by (simp_all add: is_waiting_def of_day_def bob_entry_def) (simp_all add: ann_entry_def)
  have q: "db_queue two_db = [ann_entry, bob_entry]" by (simp add: two_db_def)
  have "qe_sort ann_entry = 1" "qe_sort bob_entry = 2" by (simp_all add: bob_entry_def ann_entry_def)
  then have nw: "next_waiting two_db (g_id demo_garage) 1 = Some ann_entry"
    by (simp add: next_waiting_def waiting_line_def q w)
  then obtain s'' where c: "call_entry two_db demo_garage None noon = (Inr (mark_called ann_entry noon), s'')"
    by (simp add: call_entry_def day)
  from call_next_is_first_come [OF two_joins walkin_empty c] obtain w0 where
      "w0 \<in> {ann_entry, bob_entry}" "mark_called ann_entry noon = mark_called w0 noon" "qe_ticket w0 \<le> qe_ticket bob_entry"
    using w by (auto simp: day q)
  moreover have "qe_id ann_entry \<noteq> qe_id bob_entry" by (simp add: bob_entry_def) (simp add: ann_entry_def)
  ultimately have "qe_ticket ann_entry \<le> qe_ticket bob_entry" by (metis insertE mark_called_id singletonD)
  with c show ?thesis by blast
qed

text \<open>
  A staff reorder puts the line in exactly the order asked for: it only succeeds on the whole
  line of today, each waiting customer named once, and afterwards the line reads as the list; nobody
  else in the queue is touched.
\<close>

theorem reorder_gives_the_order:
  assumes "reorder_waiting s g entry_ids now = (Inr (), s')" "queue_ok s"
  shows "map qe_id (waiting_line s' (g_id g) (local_day_for (g_zone g) now)) = entry_ids
    \<and> set entry_ids = qe_id ` set (waiting_line s (g_id g) (local_day_for (g_zone g) now))
    \<and> filter (\<lambda>e. \<not> in_line g now e) (db_queue s') = filter (\<lambda>e. \<not> in_line g now e) (db_queue s)"
proof -
  from assms(1) obtain base where ids: "set entry_ids = qe_id ` set (filter (in_line g now) (db_queue s))"
    and s': "s' = s\<lparr>db_queue := map (\<lambda>e. if in_line g now e
       then e\<lparr>qe_sort := base + offset_of (qe_id e) entry_ids\<rparr> else e) (db_queue s)\<rparr>"
    by (rule reorder_waitingE)
  have "filter (\<lambda>e. \<not> in_line g now e) (map (\<lambda>e. if in_line g now e
      then e\<lparr>qe_sort := base + offset_of (qe_id e) entry_ids\<rparr> else e) xs) = filter (\<lambda>e. \<not> in_line g now e) xs" for xs
    by (induction xs) (auto simp: in_line_def of_day_def is_waiting_def)
  with reorder_line [OF assms(1) queue_okD [OF assms(2)]] ids s' waiting_line_ids(2) [OF queue_okD [OF assms(2)]]
  show ?thesis by (simp add: in_line_def [abs_def])
qed

lemma two_line:
  "filter (\<lambda>e. of_day (g_id demo_garage) 1 e \<and> is_waiting e) (db_queue two_db) = [ann_entry, bob_entry]"
  "waiting_line two_db (g_id demo_garage) 1 = [ann_entry, bob_entry]"
  "qe_id ann_entry = 100" "qe_id bob_entry = 101"
proof -
  have "of_day (g_id demo_garage) 1 ann_entry" "is_waiting ann_entry" "of_day (g_id demo_garage) 1 bob_entry"
    "is_waiting bob_entry" "qe_sort ann_entry = 1" "qe_sort bob_entry = 2"
    by (simp_all add: of_day_def is_waiting_def bob_entry_def) (simp_all add: ann_entry_def)
  then show "filter (\<lambda>e. of_day (g_id demo_garage) 1 e \<and> is_waiting e) (db_queue two_db) = [ann_entry, bob_entry]"
    "waiting_line two_db (g_id demo_garage) 1 = [ann_entry, bob_entry]"
    by (simp_all add: waiting_line_def two_db_def)
qed (simp_all add: bob_entry_def, simp_all add: ann_entry_def)

lemma noon_day: "local_day_for (g_zone demo_garage) noon = 1"
  by (simp add: walkin_demo)

theorem reorder_gives_the_order_witness:
  "\<exists>s'. reorder_waiting two_db demo_garage [101, 100] noon = (Inr (), s')
     \<and> map qe_id (waiting_line s' (g_id demo_garage) 1) = [101, 100]"
proof -
  have "\<exists>s'. reorder_waiting two_db demo_garage [101, 100] noon = (Inr (), s')"
    unfolding reorder_waiting_def noon_day Let_def two_line(1) by (simp add: two_line(3,4) insert_commute)
  then obtain s' where r: "reorder_waiting two_db demo_garage [101, 100] noon = (Inr (), s')" ..
  from reorder_gives_the_order [OF r two_ok] r show ?thesis by (simp add: noon_day)
qed

text \<open>
  The sweep settles the queue: the customers it calls are exactly the first in line, one for each
  call that timed out (as long as somebody waits); afterwards nobody of an earlier day is still
  waiting or called and no call is overdue, and sweeping again at once does nothing.
\<close>

theorem sweep_hands_freed_bays_over:
  assumes "sweep_queue s g now = (called, s')" "queue_ok s" "get_queue_settings s (g_id g) = (settings, s1)"
    "\<And>m. qs_timeout_minutes settings = Some m \<Longrightarrow> 0 \<le> m"
    and today: "today = local_day_for (g_zone g) now"
  shows "called = map qe_id (take (length (filter (call_overdue (g_id g) today (qs_timeout_minutes settings) now)
        (db_queue s))) (waiting_line s (g_id g) today))
    \<and> (\<forall>e \<in> set (db_queue s'). \<not> stale_entry (g_id g) today e
         \<and> \<not> call_overdue (g_id g) today (qs_timeout_minutes settings) now e)
    \<and> sweep_queue s' g now = ([], s')"
proof -
  have calm: "\<not> list_ex (stale_entry (g_id g) today) (db_queue s')"
    "\<not> list_ex (call_overdue (g_id g) today (qs_timeout_minutes settings) now) (db_queue s')"
    using sweep_settles [OF assms(1,3,4)] today by simp_all
  have "db_queue_settings s' = db_queue_settings s1"
    using assms(1)
  proof (cases rule: sweep_cases)
    case 1
    with assms(3) show ?thesis by simp
  next
    case (2 st sx t1 t2 t3)
    have "db_queue_settings t3 = db_queue_settings t2"
    proof -
      have "db_queue_settings t3 = db_queue_settings t2" if "call_up n gid day now t2 = (c, t3)" for n gid day c t2
        using that by (induction n arbitrary: t2 c) (fastforce split: option.splits prod.splits)+
      with 2(4) show ?thesis by blast
    qed
    with 2 assms(3) show ?thesis by (simp add: end_where_def)
  qed
  from get_queue_settings_again [OF assms(3) this] calm have "sweep_queue s' g now = ([], s')"
    by (simp add: sweep_queue_def today)
  with sweep_hands_over [OF assms(1) queue_okD [OF assms(2)] assms(3)] calm show ?thesis
    by (simp add: today list_ex_iff)
qed

text \<open>Ann was called at noon and did not come; a quarter of an hour later the sweep calls Bob.\<close>

definition called_db :: db where
  "called_db = two_db\<lparr>db_queue := [mark_called ann_entry noon, bob_entry]\<rparr>"

theorem sweep_hands_freed_bays_over_witness:
  "fst (sweep_queue called_db demo_garage (noon + 15 * minute_us)) = [101]"
proof -
  let ?t = "noon + 15 * minute_us"
  have day: "local_day_for (g_zone demo_garage) ?t = 1" by (simp add: walkin_demo)
  have q: "db_queue called_db = [mark_called ann_entry noon, bob_entry]" by (simp add: called_db_def)
  have st: "get_queue_settings called_db (g_id demo_garage) = (open_settings, called_db)"
    by (rule get_queue_settings_again [OF walkin_settings]) (simp add: called_db_def two_db_def joined_db_def)
  have ten: "qs_timeout_minutes open_settings = Some 10"
    by (simp add: open_settings_def default_queue_settings_def)
  have ok: "queue_ok called_db"
    by (rule queue_ok_moves [OF two_ok])
      (simp_all add: called_db_def two_db_def moves_mark_called two_line(1) ann_entry_def)
  have due: "call_overdue (g_id demo_garage) 1 (Some 10) ?t (mark_called ann_entry noon)"
      "\<not> call_overdue (g_id demo_garage) 1 (Some 10) ?t bob_entry"
    by (simp_all add: call_overdue_def mark_called_def of_day_def bob_entry_def) (simp_all add: ann_entry_def)
  have wait: "\<not> is_waiting (mark_called ann_entry noon)" "is_waiting bob_entry" "of_day (g_id demo_garage) 1 bob_entry"
    by (simp_all add: is_waiting_def of_day_def mark_called_def bob_entry_def) (simp_all add: ann_entry_def)
  obtain called s' where sw: "sweep_queue called_db demo_garage ?t = (called, s')" by fastforce
  have "waiting_line called_db (g_id demo_garage) 1 = [bob_entry]" by (simp add: waiting_line_def q wait)
  with sweep_hands_freed_bays_over [OF sw ok st _ day [symmetric]] sw due show ?thesis
    by (simp add: ten q two_line(4))
qed

lemma distinct_job_keys:
  assumes "queue_ok s"
  shows "distinct (map job_key (waiting_jobs (sn_entries (snapshot_of s g settings now))
    @ [\<lparr>job_key = Some (db_next s), job_minutes = m\<rparr>, \<lparr>job_key = None, job_minutes = m'\<rparr>]))"
proof -
  let ?old = "snapshot_of s g settings now"
  have "distinct (map qe_id (filter is_waiting (sn_entries ?old)))"
    using assms by (simp add: snapshot_of_def Let_def today_entries_def queue_ok_def entry_ids_ok_def
        distinct_map inj_on_def)
  moreover have "qe_id x \<noteq> db_next s" if "x \<in> set (sn_entries ?old)" for x
    using that assms by (auto simp: snapshot_of_def Let_def today_entries_def queue_ok_def entry_ids_ok_def)
  ultimately show ?thesis by (auto simp: waiting_jobs_def comp_def distinct_map inj_on_def) metis
qed

text \<open>
  C35: Whoever is let into the queue is seen today: right after a successful join the customer is the
  last in line, is told that position, and has an estimated start from which the whole service ends
  by closing time.
\<close>

theorem joining_means_being_seen_today:
  assumes "join_queue s0 g data token terms_version now = (Inr e, s')" "queue_ok s0"
    "queue_snapshot s' g now = (sn, s'')"
  shows "\<exists>est start closes. sn_estimates sn (qe_id e) = Some est \<and> est_start est = Some start
    \<and> est_position est = length (filter is_waiting (sn_entries sn)) \<and> last (sn_entries sn) = e
    \<and> sn_closes sn = Some closes \<and> start + qe_minutes e * minute_us \<le> closes"
  using assms(1)
proof (rule join_queueE)
  fix s settings s1 data' ty
  let ?day = "local_day_for (g_zone g) now"
  let ?m = "resolve_service_minutes s1 g settings ty now"
  assume s: "s = snd (sweep_queue s0 g now)" and st: "get_queue_settings s (g_id g) = (settings, s1)"
    and free: "join_refusal_reason settings (snapshot_of s1 g settings now) ?m = None"
    and e: "e = new_entry s1 (g_id g) ?day data' ty ?m token terms_version now"
    and s': "s' = emit (QUEUE_ENTRY_JOINED (qe_id e))
        (s1\<lparr>db_queue := db_queue s1 @ [e], db_next := Suc (db_next s1)\<rparr>)"
  let ?old = "snapshot_of s1 g settings now"
  have ok: "queue_ok s1"
    using sweeping.op_keeps [OF assms(2)] get_queue_settings_frame(1,2) [OF st] s
    by (simp add: queue_ok_def entry_ids_ok_def)
  have w: "is_waiting e" "of_day (g_id g) ?day e" "qe_id e = db_next s1" "qe_minutes e = ?m"
    by (simp_all add: e is_waiting_def of_day_def fresh_id_def)
  have last: "qe_sort x < qe_sort e" if "x \<in> set (db_queue s1)" "of_day (g_id g) ?day x" for x
    using new_entry_last(2) [OF that] by (simp add: e)
  have sn: "sn = snapshot_of s' g settings now"
  proof -
    have "get_queue_settings s' (g_id g) = (settings, s')" by (rule get_queue_settings_again [OF st]) (simp add: s')
    with assms(3) show ?thesis by (auto simp: queue_snapshot_def)
  qed
  have "db_queue s' = db_queue s1 @ [e]" "db_appointments s' = db_appointments s1" "db_employees s' = db_employees s1"
    by (simp_all add: s')
  note new = snapshot_after_join [OF w(2) last this, where st = settings]
  let ?js = "waiting_jobs (sn_entries ?old)"
  obtain t where fits: "est_start (last (estimate_queue now (sn_capacity ?old) (sn_opens ?old) (sn_closes ?old)
      (busy_intervals (sn_entries ?old) (sn_appointments ?old) now)
      (?js @ [\<lparr>job_key = None, job_minutes = ?m\<rparr>]))) = Some t"
    using free by (auto simp: join_refusal_reason_def fits_today_def snapshot_estimates(2) split: option.splits if_splits)
  have jobs: "waiting_jobs (sn_entries sn) = ?js @ [\<lparr>job_key = Some (qe_id e), job_minutes = ?m\<rparr>]"
    using w(1,4) by (simp add: sn new(1) waiting_jobs_def)
  note keys = distinct_job_keys [OF ok, of g settings now ?m "resolve_service_minutes s' g settings None now", folded w(3)]
  from last_estimate [OF keys fits] obtain est closes where
      "find (\<lambda>x. est_key x = Some (qe_id e)) (rev (estimate_queue now (sn_capacity ?old) (sn_opens ?old) (sn_closes ?old)
        (busy_intervals (sn_entries ?old) (sn_appointments ?old) now)
        (?js @ [\<lparr>job_key = Some (qe_id e), job_minutes = ?m\<rparr>,
          \<lparr>job_key = None, job_minutes = resolve_service_minutes s' g settings None now\<rparr>]))) = Some est"
      and est: "est_start est = Some t" "est_position est = length ?js + 1" "sn_closes ?old = Some closes"
        "t + ?m * minute_us \<le> closes" by auto
  then have "sn_estimates sn (qe_id e) = Some est"
    using jobs w(1) by (simp add: sn snapshot_estimates(1) estimates_of_def new busy_intervals_waiting)
  moreover have "length (filter is_waiting (sn_entries sn)) = length ?js + 1"
    using w(1) by (simp add: sn new(1) waiting_jobs_def)
  ultimately show ?thesis using est w(4) new by (auto simp: sn)
qed

theorem joining_means_being_seen_today_witness:
  "\<exists>sn s' start closes. queue_snapshot joined_db demo_garage noon = (sn, s')
     \<and> sn_closes sn = Some closes \<and> start + 60 * minute_us \<le> closes"
proof -
  obtain sn s' where sn: "queue_snapshot joined_db demo_garage noon = (sn, s')" by fastforce
  have "queue_ok walkin_db" by (simp add: walkin_empty)
  from joining_means_being_seen_today [OF walkin_join this sn] sn show ?thesis
    by (auto simp: ann_entry_def)
qed

text \<open>
  Checking in is never blocked on bookkeeping: as long as the business has one active service,
  a waiting or called customer whom staff take in without further choices ends up in service with
  exactly one new running appointment starting now, whatever phone numbers, registrations or busy
  colleagues the database holds.
\<close>

theorem check_in_never_blocked:
  assumes "entry_for_update s (em_garage acting) entry_id = Some e"
    "qe_status e = Q_WAITING \<or> qe_status e = Q_CALLED"
    "ty \<in> set (db_types s)" "ty_garage ty = em_garage acting" "ty_status ty = TYPE_ACTIVE"
  shows "\<exists>e' s' ap. start_service s acting entry_id None None now = (Inr e', s')
    \<and> qe_status e' = Q_IN_SERVICE \<and> db_appointments s' = db_appointments s @ [ap]
    \<and> qe_appointment e' = Some (ap_id ap) \<and> ap_status ap = AP_IN_PROGRESS
    \<and> ap_garage ap = em_garage acting \<and> ap_start ap = now \<and> ap_end ap = now + qe_minutes e * minute_us"
proof -
  let ?gid = "em_garage acting"
  obtain settings s1 where st: "get_queue_settings s ?gid = (settings, s1)" by fastforce
  note fr = get_queue_settings_frame [OF st]
  obtain ty' where ty': "resolve_appointment_type s1 ?gid e settings None = Inr ty'"
    using some_type_resolves [of ty s1 ?gid] assms(3-5) fr by auto
  let ?until = "now + qe_minutes e * minute_us"
  have plan: "service_plan s1 acting e settings None None now
      = Inr (ty', qe_minutes e, pick_employee s1 acting now ?until)"
    by (simp add: service_plan_def ty' service_employee_def Let_def)
  define existing where "existing = find_customer s1 ?gid (qe_phone e)"
  define registration where "registration =
      (if registration_is_someone_elses s1 ?gid (qe_registration e) existing then None else qe_registration e)"
  obtain c v s2 where rc: "resolve_customer_and_vehicle s1 ?gid (map_option cu_id existing) (walkin_contact e registration) no_item
      = (Inr (c, v), s2)" and s2: "db_appointments s2 = db_appointments s1"
    using walkin_customer_resolves [OF existing_def registration_def] by auto
  let ?ap = "walkin_appointment s2 ?gid (pick_employee s1 acting now ?until) c v ty' now ?until"
  have "check_in s1 ?gid e ty' (qe_minutes e) (pick_employee s1 acting now ?until) now
      = (Inr (in_service e ?ap (qe_minutes e) now),
         put_entry (in_service e ?ap (qe_minutes e) now) (insert_appointment ?ap s2))"
    using rc by (simp add: check_in_def existing_def registration_def Let_def)
  with assms(1,2) st plan s2 fr show ?thesis
    by (auto simp: start_service_def in_service_def insert_appointment_def walkin_appointment_def)
qed

theorem check_in_never_blocked_witness:
  "\<exists>e' s'. start_service two_db mechanic 100 None None noon = (Inr e', s') \<and> qe_status e' = Q_IN_SERVICE"
proof -
  have g: "em_garage mechanic = g_id demo_garage" by (simp add: mechanic_def)
  have e: "entry_for_update two_db (em_garage mechanic) 100 = Some ann_entry"
    by (simp add: entry_for_update_def two_db_def g two_line) (simp add: ann_entry_def)
  have st: "qe_status ann_entry = Q_WAITING \<or> qe_status ann_entry = Q_CALLED" by (simp add: ann_entry_def)
  have ty: "service_type \<in> set (db_types two_db)" "ty_garage service_type = em_garage mechanic"
      "ty_status service_type = TYPE_ACTIVE"
    by (simp_all add: two_db_def joined_db_def walkin_db_def review_db_def g service_type_def deposit_type_def)
  from check_in_never_blocked [OF e st ty, of noon] show ?thesis by blast
qed

text \<open>
  The automatic average service time is only offered from at least five usable appointments and
  then lies between five minutes and eight hours, whatever the recorded times are and however Python's
  floats round the durations, their median and the result.
\<close>

theorem auto_average_stays_in_band:
  assumes "auto_average_minutes s garage_id now = (Some minutes, samples)"
  shows "5 \<le> minutes \<and> minutes \<le> 480 \<and> 5 \<le> samples"
proof -
  define durs where "durs = filter (in_band 5 (8 * 60)) (map appointment_minutes (take 500 (sort_key (\<lambda>a. - ap_start a)
    (filter (\<lambda>a. ap_garage a = garage_id \<and> ap_status a = AP_COMPLETED \<and> now - 90 * day_us \<le> ap_start a
       \<and> ap_start a \<le> now) (db_appointments s)))))"
  have "auto_average_minutes s garage_id now
      = (if length durs < 5 then (None, length durs) else (Some (round_float (median durs)), length durs))"
    by (simp only: auto_average_minutes_def Let_def durs_def)
  with assms have r: "minutes = round_float (median durs)" "samples = length durs" "5 \<le> length durs"
    by (auto split: if_splits)
  have "durs \<noteq> []" using r(3) by auto
  moreover have "in_band 5 480 x" if "x \<in> set durs" for x using that by (simp add: durs_def)
  ultimately have "in_band 5 480 (median durs)" by (rule median_band)
  with round_float_band [OF this] r show ?thesis by simp
qed

definition past_job :: "int \<Rightarrow> appointment" where
  "past_job minutes = demo_appointment\<lparr>ap_start := 0, ap_end := minutes * minute_us, ap_status := AP_COMPLETED\<rparr>"

definition history_db :: db where
  "history_db = demo_db\<lparr>db_appointments := map past_job [30, 40, 50, 45, 35, 900]\<rparr>"

lemma past_job_minutes:
  "map appointment_minutes (map past_job [30, 40, 50, 45, 35, 900])
    = [(8444249301319680, 48), (5629499534213120, 47), (7036874417766400, 47), (6333186975989760, 47),
       (4925812092436480, 47), (7916483719987200, 43)]"
  by (simp add: past_job_def demo_appointment_def appointment_minutes_def float_div_def float_quotient_def
      div_half_even_def Let_def bit_length.simps)

lemma history_average: "auto_average_minutes history_db (g_id demo_garage) noon = (Some 40, 5)"
proof -
  let ?jobs = "map past_job [30, 40, 50, 45, 35, 900]"
  have "filter (\<lambda>a. ap_garage a = g_id demo_garage \<and> ap_status a = AP_COMPLETED
      \<and> noon - 90 * day_us \<le> ap_start a \<and> ap_start a \<le> noon) (db_appointments history_db) = ?jobs"
    by (simp add: history_db_def past_job_def walkin_demo)
  moreover have "take 500 (sort_key (\<lambda>a. - ap_start a) ?jobs) = ?jobs"
    by (simp add: past_job_def)
  moreover have "filter (in_band 5 (8 * 60)) (map appointment_minutes ?jobs)
      = [(8444249301319680, 48), (5629499534213120, 47), (7036874417766400, 47), (6333186975989760, 47),
         (4925812092436480, 47)]"
    unfolding past_job_minutes by (simp add: in_band_def)
  moreover have "round_float (median [(8444249301319680, 48), (5629499534213120, 47), (7036874417766400, 47),
      (6333186975989760, 47), (4925812092436480, 47)]) = 40"
    by (simp add: median_def sort_floats_def round_float_def div_half_even_def Let_def)
  ultimately show ?thesis by (simp only: auto_average_minutes_def Let_def) simp
qed

theorem auto_average_stays_in_band_witness: "(5::int) \<le> 40 \<and> (40::int) \<le> 480"
  using auto_average_stays_in_band [OF history_average] by simp

end
