(* ===== verification/Phone_Numbers.thy ===== *)
theory Phone_Numbers
  imports Texts Schema
begin

text \<open>
  Telephone numbers as customers type them and as the telephone network reports them,
  \<open>app/phone.py\<close>, on ASCII texts. The library \<open>phonenumbers\<close> is the record \<open>phone_library\<close>:
  \<open>pl_parse\<close> parses with a British default region and is \<open>None\<close> where the library raises.
\<close>

record 'n phone_library =
  pl_parse :: "string \<Rightarrow> 'n option"
  pl_valid :: "'n \<Rightarrow> bool"
  pl_fixed_line :: "'n \<Rightarrow> bool"
  pl_e164 :: "'n \<Rightarrow> string"

datatype phone_error =
  ENTER_A_NUMBER | NOT_A_UK_NUMBER | LOOKS_LIKE_A_LANDLINE

definition normalize_uk_mobile :: "'n phone_library \<Rightarrow> string \<Rightarrow> phone_error + string" where
  "normalize_uk_mobile lib raw0 =
     (let raw = strip_text raw0
      in if raw = [] then Inl ENTER_A_NUMBER
         else case pl_parse lib raw of
                None \<Rightarrow> Inl NOT_A_UK_NUMBER
              | Some n \<Rightarrow>
                  if \<not> pl_valid lib n then Inl NOT_A_UK_NUMBER
                  else if pl_fixed_line lib n then Inl LOOKS_LIKE_A_LANDLINE
                  else Inr (pl_e164 lib n))"

definition normalize_uk_phone :: "'n phone_library \<Rightarrow> string \<Rightarrow> phone_error + string" where
  "normalize_uk_phone lib raw0 =
     (let raw = strip_text raw0
      in if raw = [] then Inl ENTER_A_NUMBER
         else case pl_parse lib raw of
                None \<Rightarrow> Inl NOT_A_UK_NUMBER
              | Some n \<Rightarrow> if \<not> pl_valid lib n then Inl NOT_A_UK_NUMBER else Inr (pl_e164 lib n))"

subsection \<open>The number inside an address\<close>

definition is_digits :: "string \<Rightarrow> bool" where
  "is_digits t \<longleftrightarrow> t \<noteq> [] \<and> list_all is_digit t"

text \<open>The name-addr form \<open><uri>;tag=...\<close>: what stands between the angle brackets.\<close>

definition unwrap :: "string \<Rightarrow> string" where
  "unwrap t = (if starts_with ''<'' t then takeWhile (\<lambda>c. c \<noteq> CHR ''>'') (tl t) else t)"

fun drop_scheme :: "string list \<Rightarrow> string \<Rightarrow> string" where
  "drop_scheme [] t = t"
| "drop_scheme (p # ps) t =
     (if starts_with p (map lower_char t) then drop (length p) t else drop_scheme ps t)"

definition phone_from_sip_uri :: "string option \<Rightarrow> string option" where
  "phone_from_sip_uri value =
     (case value of
        None \<Rightarrow> None
      | Some v \<Rightarrow>
          if v = [] then None
          else let uri = drop_scheme [''sips:'', ''sip:'', ''tel:''] (unwrap (strip_text v));
                   number = takeWhile (\<lambda>c. c \<noteq> CHR '';'') (takeWhile (\<lambda>c. c \<noteq> CHR ''@'') uri)
               in if number = [] then None else Some number)"

text \<open>British numbers that carriers send without the plus sign.\<close>

definition with_plus :: "string \<Rightarrow> string" where
  "with_plus number =
     (let digits = dropWhile (\<lambda>c. c = CHR ''+'') number
      in if \<not> starts_with ''+'' number \<and> is_digits digits \<and> starts_with ''44'' digits
         then CHR ''+'' # digits else number)"

definition plus_digits :: "string \<Rightarrow> bool" where
  "plus_digits t \<longleftrightarrow> starts_with ''+'' t \<and> is_digits (tl t)"

definition e164_from_address :: "'n phone_library \<Rightarrow> string option \<Rightarrow> string option" where
  "e164_from_address lib raw =
     (case phone_from_sip_uri raw of
        None \<Rightarrow> None
      | Some n0 \<Rightarrow>
          let number = with_plus n0
          in case normalize_uk_phone lib number of
               Inr e \<Rightarrow> Some e
             | Inl _ \<Rightarrow> if plus_digits number then Some number else None)"

lemmas phone_eval [eval_simps] =
  normalize_uk_mobile_def normalize_uk_phone_def is_digits_def unwrap_def
  phone_from_sip_uri_def with_plus_def plus_digits_def e164_from_address_def

subsection \<open>Lemmas\<close>

text \<open>A number as the network writes it: an optional plus sign and digits.\<close>

definition bare_number :: "string \<Rightarrow> bool" where
  "bare_number t \<longleftrightarrow> is_digits t \<or> plus_digits t"

definition number_char :: "char \<Rightarrow> bool" where
  "number_char c \<longleftrightarrow> is_digit c \<or> c = CHR ''+''"

lemma number_char_code: "number_char c \<Longrightarrow> of_char c = (43 :: nat) \<or> (48 :: nat) \<le> of_char c \<and> of_char c \<le> (57 :: nat)"
  unfolding number_char_def is_digit_def by auto

lemma number_char_not:
  assumes "number_char c"
  shows "\<not> is_space c" "c \<noteq> CHR ''<''" "c \<noteq> CHR ''>''" "c \<noteq> CHR ''@''" "c \<noteq> CHR '';''"
    "lower_char c = c" "c \<noteq> CHR ''s''" "c \<noteq> CHR ''t''"
  using number_char_code [OF assms] by (auto simp: is_space_def lower_char_def is_upper_def)

lemma bare_number_chars:
  assumes "bare_number t"
  shows "t \<noteq> []" "list_all number_char t"
  using assms
  by (auto simp: bare_number_def is_digits_def plus_digits_def number_char_def list_all_iff)

lemma strip_text_number:
  assumes "bare_number t"
  shows "strip_text t = t"
proof -
  from bare_number_chars [OF assms] have "t \<noteq> []" "number_char (hd t)" "number_char (last t)"
    by (auto simp: list_all_iff)
  then show ?thesis by (intro strip_text_id) (auto dest: number_char_not)
qed

lemma takeWhile_until:
  "list_all P t \<Longrightarrow> \<not> P c \<Longrightarrow> takeWhile P (t @ c # r) = t"
  by (induction t) auto

lemma takeWhile_number:
  assumes "bare_number t" "\<And>c. number_char c \<Longrightarrow> c \<noteq> d"
  shows "takeWhile (\<lambda>c. c \<noteq> d) t = t" "takeWhile (\<lambda>c. c \<noteq> d) (t @ d # r) = t"
proof -
  from bare_number_chars(2) [OF assms(1)] assms(2) have all: "\<forall>c \<in> set t. c \<noteq> d" by (auto simp: list_all_iff)
  then show "takeWhile (\<lambda>c. c \<noteq> d) t = t" by (simp add: takeWhile_eq_all_conv)
  from all show "takeWhile (\<lambda>c. c \<noteq> d) (t @ d # r) = t" by (simp add: takeWhile_tail)
qed

lemma drop_scheme_number:
  assumes "bare_number t"
  shows "drop_scheme [''sips:'', ''sip:'', ''tel:''] (t @ r) = t @ r"
proof -
  from bare_number_chars [OF assms] obtain c t' where t: "t = c # t'" "number_char c"
    by (cases t) auto
  then have "lower_char c = c" "c \<noteq> CHR ''s''" "c \<noteq> CHR ''t''" by (auto dest: number_char_not)
  with t show ?thesis by simp
qed

definition uri_schemes :: "string list" where
  "uri_schemes = [''sips:'', ''sip:'', ''tel:'']"

lemma drop_scheme_scheme:
  "p \<in> set uri_schemes \<Longrightarrow> bare_number t \<Longrightarrow> drop_scheme uri_schemes (p @ t @ r) = t @ r"
  unfolding uri_schemes_def by (auto simp: lower_char_def is_upper_def)

lemma number_of_uri:
  assumes "bare_number t"
  shows "takeWhile (\<lambda>c. c \<noteq> CHR '';'') (takeWhile (\<lambda>c. c \<noteq> CHR ''@'') (t @ CHR ''@'' # r)) = t"
    "takeWhile (\<lambda>c. c \<noteq> CHR '';'') (takeWhile (\<lambda>c. c \<noteq> CHR ''@'') t) = t"
  by (simp_all only: takeWhile_number [OF assms number_char_not(4)] takeWhile_number(1) [OF assms number_char_not(5)])

lemma phone_from_bare_number:
  assumes "bare_number t"
  shows "phone_from_sip_uri (Some t) = Some t"
proof -
  from bare_number_chars [OF assms] have t: "t \<noteq> []" "unwrap t = t"
    by (cases t, auto simp: unwrap_def dest: number_char_not)
  with assms show ?thesis
    using drop_scheme_number [OF assms, of "[]"] number_of_uri(2) [OF assms]
    by (simp add: phone_from_sip_uri_def strip_text_number del: drop_scheme.simps)
qed

text \<open>The name-addr form of a SIP header.\<close>

definition sip_header :: "string \<Rightarrow> string \<Rightarrow> string \<Rightarrow> string \<Rightarrow> string" where
  "sip_header p t host params = ''<'' @ p @ t @ ''@'' @ host @ ''>'' @ params"

lemma phone_from_sip_header:
  assumes "bare_number t" "p \<in> set uri_schemes" "CHR ''>'' \<notin> set host" "\<not> is_space (last (CHR ''>'' # params))"
  shows "phone_from_sip_uri (Some (sip_header p t host params)) = Some t"
proof -
  let ?h = "sip_header p t host params"
  have "?h \<noteq> []" "\<not> is_space (hd ?h)" "\<not> is_space (last ?h)"
    using assms(4) by (auto simp: sip_header_def is_space_def)
  then have strip: "strip_text ?h = ?h" by (rule strip_text_id)
  have "CHR ''>'' \<notin> set p" using assms(2) by (auto simp: uri_schemes_def)
  moreover have "CHR ''>'' \<notin> set t"
    using bare_number_chars(2) [OF assms(1)] by (auto simp: list_all_iff dest: number_char_not(3))
  ultimately have "unwrap ?h = p @ t @ CHR ''@'' # host"
    using assms(3) takeWhile_until [of "\<lambda>c. c \<noteq> CHR ''>''" "p @ t @ CHR ''@'' # host" "CHR ''>''" params]
    by (fastforce simp: unwrap_def sip_header_def list_all_iff)
  with strip assms(1,2) bare_number_chars(1) [OF assms(1)] drop_scheme_scheme [of p t "CHR ''@'' # host"] number_of_uri(1)
  show ?thesis by (simp add: phone_from_sip_uri_def uri_schemes_def Let_def sip_header_def del: drop_scheme.simps)
qed

lemma with_plus_simps:
  assumes "list_all is_digit ds"
  shows "with_plus (''44'' @ ds) = ''+44'' @ ds" "with_plus (''+44'' @ ds) = ''+44'' @ ds"
  using assms by (auto simp: with_plus_def is_digits_def is_digit_def)

lemma bare_british:
  assumes "list_all is_digit ds"
  shows "bare_number (''44'' @ ds)" "bare_number (''+44'' @ ds)"
  using assms by (auto simp: bare_number_def plus_digits_def is_digits_def is_digit_def)

subsection \<open>Properties\<close>

text \<open>
  C22: However the network writes a British caller's number - with the plus sign or without it, bare or in
  the name-addr form of a SIP header with any scheme of the list, any host and any parameters -, the number
  found there is the one put in, and all of these forms resolve to the same caller.
\<close>

theorem caller_number_survives_the_header:
  assumes "list_all is_digit ds" "t \<in> {''44'' @ ds, ''+44'' @ ds}" "p \<in> set uri_schemes"
    and "CHR ''>'' \<notin> set host" "\<not> is_space (last (CHR ''>'' # params))"
  shows "phone_from_sip_uri (Some t) = Some t \<and> phone_from_sip_uri (Some (sip_header p t host params)) = Some t
    \<and> e164_from_address lib (Some t) = e164_from_address lib (Some (''+44'' @ ds))
    \<and> e164_from_address lib (Some (sip_header p t host params)) = e164_from_address lib (Some (''+44'' @ ds))"
proof -
  from assms(1,2) have t: "bare_number t" by (auto dest: bare_british)
  note header = phone_from_sip_header [OF t assms(3,4,5)]
  from assms(1,2) have "with_plus t = ''+44'' @ ds" by (auto dest: with_plus_simps)
  moreover have "phone_from_sip_uri (Some (''+44'' @ ds)) = Some (''+44'' @ ds)"
    by (intro phone_from_bare_number bare_british assms(1))
  ultimately show ?thesis
    using header phone_from_bare_number [OF t] with_plus_simps(2) [OF assms(1)]
    by (simp only: e164_from_address_def option.case Let_def simp_thms)
qed

definition drama_library :: "nat phone_library" where
  "drama_library = \<lparr>pl_parse = (\<lambda>_. None), pl_valid = (\<lambda>_. False), pl_fixed_line = (\<lambda>_. False), pl_e164 = (\<lambda>_. [])\<rparr>"

theorem caller_number_survives_the_header_witness:
  "phone_from_sip_uri (Some (sip_header ''sip:'' ''447700900123'' ''h'' '';tag=a'')) = Some ''447700900123''
   \<and> e164_from_address drama_library (Some (sip_header ''sip:'' ''447700900123'' ''h'' '';tag=a''))
     = Some ''+447700900123''
   \<and> e164_from_address drama_library (Some ''447700900123'') = Some ''+447700900123''"
proof -
  have "phone_from_sip_uri (Some ''447700900123'') = Some ''447700900123''
    \<and> phone_from_sip_uri (Some (sip_header ''sip:'' ''447700900123'' ''h'' '';tag=a'')) = Some ''447700900123''
    \<and> e164_from_address drama_library (Some ''447700900123'') = e164_from_address drama_library (Some (''+44'' @ ''7700900123''))
    \<and> e164_from_address drama_library (Some (sip_header ''sip:'' ''447700900123'' ''h'' '';tag=a''))
      = e164_from_address drama_library (Some (''+44'' @ ''7700900123''))"
    by (rule caller_number_survives_the_header) (simp_all add: is_digit_def uri_schemes_def is_space_def)
  moreover have "e164_from_address drama_library (Some (''+44'' @ ''7700900123'')) = Some ''+447700900123''"
    by (simp add: drama_library_def eval_simps)
  ultimately show ?thesis by simp
qed

end
