(* ===== verification/Outreach_Schema.thy ===== *)
theory Outreach_Schema
  imports Schema
begin

text \<open>
  The tables of the messages a business sends and receives, and the state a message handler works on.
  They stand beside \<open>db\<close>, the tables of bookings, which these handlers only read. Unlike a booking
  handler, a sender commits in the middle of its work and calls services that a rollback cannot undo,
  so the state \<open>world\<close> keeps the committed tables and the ones of the open transaction apart, beside
  what the e-mail service and the carrier have been handed.
\<close>

subsection \<open>Channels and settings\<close>

datatype msg_channel = VOICE | WHATSAPP | SMS | EMAIL
datatype msg_direction = INBOUND | OUTBOUND | SYSTEM

text \<open>What a customer wants, and the question a conversation is waiting on.\<close>

datatype intent =
  CREATE_BOOKING | CHECK_AVAILABILITY | CHECK_APPOINTMENT | RESCHEDULE_APPOINTMENT | CANCEL_APPOINTMENT
| APPOINTMENT_PRICE_QUERY | APPOINTMENT_TYPE_QUERY | BUSINESS_HOURS_QUERY | BUSINESS_LOCATION_QUERY
| MOT_EXPIRY_QUERY | CUSTOMER_DETAILS_QUERY | UPDATE_CUSTOMER_NAME | UPDATE_CONTACT_DETAILS
| CALLBACK_REQUEST | SPEAK_TO_HUMAN | GREETING | SMALL_TALK | RESET_FLOW | ABANDON_FLOW | GO_BACK
| GENERAL_QUERY | UNKNOWN

datatype workflow_step =
  AWAITING_TYPE | AWAITING_TYPE_CHOICE | AWAITING_NAME | AWAITING_DATE | AWAITING_TIME
| AWAITING_VEHICLE_CHOICE | AWAITING_VEHICLE_CONFIRM | AWAITING_VEHICLE_REG | AWAITING_BOOKING_CONFIRMATION
| AWAITING_CANCEL_CHOICE | AWAITING_CANCEL_CONFIRMATION
| AWAITING_RESCHEDULE_CHOICE | AWAITING_RESCHEDULE_DATE | AWAITING_RESCHEDULE_TIME | AWAITING_RESCHEDULE_CONFIRMATION
| AWAITING_CALLBACK_REASON | AWAITING_RESUME | AWAITING_NAME_CORRECTION | AWAITING_NAME_CORRECTION_CONFIRM
| AWAITING_VEHICLE_REG_FOR_MOT | AWAITING_MOT_VEHICLE_CHOICE

record comm_settings =
  cs_garage :: uid
  cs_enabled :: bool
  cs_voice_number :: "string option"
  cs_whatsapp_sender :: "string option"
  cs_messaging_sid :: "string option"
  cs_mode :: "string option"
  cs_public_number :: "string option"
  cs_sip_domain :: "string option"
  cs_trunk :: "string option"
  cs_subaccount :: "string option"
  cs_number_sid :: "string option"
  cs_escalation :: "string option"
  cs_fallback :: "string option"
  cs_primary_type :: "string option"
  cs_primary :: "string option"
  cs_secondary_type :: "string option"
  cs_secondary :: "string option"
  cs_ring_seconds :: "int option"

text \<open>A new row: everything is unset.\<close>

definition blank_settings :: "uid \<Rightarrow> comm_settings" where
  "blank_settings g =
     \<lparr>cs_garage = g, cs_enabled = False, cs_voice_number = None, cs_whatsapp_sender = None, cs_messaging_sid = None,
      cs_mode = None, cs_public_number = None, cs_sip_domain = None, cs_trunk = None, cs_subaccount = None,
      cs_number_sid = None, cs_escalation = None, cs_fallback = None, cs_primary_type = None, cs_primary = None,
      cs_secondary_type = None, cs_secondary = None, cs_ring_seconds = None\<rparr>"

text \<open>The phone menu of a business; \<open>options\<close> is a JSON column.\<close>

datatype menu_action = AI_BOOKING | AI_FAQ | HUMAN_TRANSFER | REPEAT_MENU

record menu_option =
  mo_digit :: string
  mo_label :: string
  mo_prompt :: "string option"
  mo_action :: menu_action
  mo_target :: "string option"

record phone_menu =
  pm_garage :: uid
  pm_enabled :: bool
  pm_greeting :: "string option"
  pm_options :: "menu_option list"
  pm_fallback_action :: menu_action
  pm_fallback_target :: "string option"
  pm_max_attempts :: int

record automation_settings =
  as_garage :: uid
  as_booking_ack :: bool
  as_booking_confirmation :: bool
  as_reminder :: bool
  as_reminder_hours :: int
  as_missed_call_ack :: bool
  as_conversation :: bool

text \<open>One row per message or call. Statuses are the carrier's own texts.\<close>

record comm_log =
  lg_id :: uid
  lg_garage :: uid
  lg_customer :: "uid option"
  lg_appointment :: "uid option"
  lg_request :: "uid option"
  lg_discount :: "uid option"
  lg_channel :: msg_channel
  lg_direction :: msg_direction
  lg_provider :: string
  lg_external :: "string option"
  lg_call_sid :: "string option"
  lg_from :: "string option"
  lg_to :: "string option"
  lg_status :: string
  lg_trigger :: "string option"
  lg_intent :: "intent option"
  lg_body :: "string option"
  lg_duration :: "int option"
  lg_error_code :: "string option"
  lg_error :: "string option"

subsection \<open>Reminders\<close>

datatype reminder_status = R_PENDING | R_SENT | R_FAILED | R_SKIPPED
datatype reminder_trigger = AUTOMATIC | MANUAL
datatype reminder_stage = STAGE_1 | STAGE_2 | STAGE_3 | STAGE_MANUAL | STAGE_HOURS int
datatype reminder_type = REMIND_MOT | REMIND_APPOINTMENT

record reminder =
  rm_id :: uid
  rm_garage :: uid
  rm_customer :: uid
  rm_vehicle :: "uid option"
  rm_appointment :: "uid option"
  rm_initiated_by :: "uid option"
  rm_type :: reminder_type
  rm_channel :: string
  rm_trigger :: reminder_trigger
  rm_stage :: reminder_stage
  rm_mot_expiry :: "date option"
  rm_scheduled_at :: instant
  rm_sent_at :: "instant option"
  rm_status :: reminder_status
  rm_message_id :: "string option"

record mot_settings =
  ms_garage :: uid
  ms_enabled1 :: bool
  ms_days1 :: int
  ms_enabled2 :: bool
  ms_days2 :: int
  ms_enabled3 :: bool
  ms_days3 :: int

record reminder_timing =
  rt_hours :: int
  rt_enabled :: bool

record reminder_settings =
  rs_garage :: uid
  rs_enabled :: bool
  rs_channels :: "string list"
  rs_timings :: "reminder_timing list"

subsection \<open>Conversations\<close>

datatype session_status = S_ACTIVE | S_EXPIRED | S_COMPLETED | S_HUMAN_HANDOFF

text \<open>
  The JSON context of a session: identifiers, ISO dates and times and texts are kept as the values they
  stand for. \<open>NO_VALUE\<close> is the JSON null.
\<close>

datatype slot_value =
  NO_VALUE | ROW uid | ROWS "uid list" | TEXT string | DAY date | CLOCK clock | COUNT int
| STEP workflow_step | GOAL intent

type_synonym slots = "(string \<times> slot_value) list"

record session =
  cv_id :: uid
  cv_garage :: uid
  cv_channel :: msg_channel
  cv_phone :: string
  cv_customer :: "uid option"
  cv_status :: session_status
  cv_intent :: "intent option"
  cv_step :: "workflow_step option"
  cv_context :: slots
  cv_handoff_reason :: "string option"
  cv_last_message :: "string option"
  cv_last_activity :: instant

datatype callback_status = CB_PENDING | CB_COMPLETED | CB_CANCELLED

record callback =
  cb_id :: uid
  cb_garage :: uid
  cb_customer :: "uid option"
  cb_phone :: string
  cb_reason :: "string option"
  cb_preferred :: "string option"
  cb_status :: callback_status
  cb_session :: "uid option"

subsection \<open>The state of a handler\<close>

record outreach =
  or_settings :: "comm_settings list"
  or_automation :: "automation_settings list"
  or_logs :: "comm_log list"
  or_reminders :: "reminder list"
  or_mot :: "mot_settings list"
  or_plans :: "reminder_settings list"
  or_sessions :: "session list"
  or_callbacks :: "callback list"
  or_menus :: "phone_menu list"
  or_next :: uid

text \<open>What an e-mail is about stands for its subject and text.\<close>

datatype mail_topic =
  MOT_REMINDER string
| APPOINTMENT_REMINDER uid
| BOOKING_NOTICE string

record mail =
  ml_to :: string
  ml_topic :: mail_topic

record carrier_call =
  ca_garage :: uid
  ca_channel :: msg_channel
  ca_sender :: string
  ca_to :: string
  ca_body :: string

record world =
  wd_saved :: outreach
  wd_book :: outreach
  wd_mails :: "mail list"
  wd_calls :: "carrier_call list"

definition commit :: "world \<Rightarrow> world" where
  "commit w = w\<lparr>wd_saved := wd_book w\<rparr>"

definition rollback :: "world \<Rightarrow> world" where
  "rollback w = w\<lparr>wd_book := wd_saved w\<rparr>"

definition on_book :: "(outreach \<Rightarrow> outreach) \<Rightarrow> world \<Rightarrow> world" where
  "on_book f w = w\<lparr>wd_book := f (wd_book w)\<rparr>"

text \<open>An exception that a handler does not catch; the web server or the job runner rolls back.\<close>

datatype failure =
  PROVIDER_NOT_CONFIGURED string
| DUPLICATE_EXTERNAL_ID
| EMAIL_KEY_MISSING
| EMAIL_NOT_WIRED string
| EMAIL_UNKNOWN_PROVIDER string
| EMAIL_REJECTED string
| DUPLICATE_TIMING
| BAD_VALUE
| MISSING_SLOT string
| NO_FREE_REFERENCE
| DUPLICATE_REQUEST
| NEVER_RETURNS

type_synonym 'a effect = "(failure + 'a) \<times> world"

text \<open>The next step of a handler runs only when the one before raised nothing.\<close>

definition andthen :: "'a effect \<Rightarrow> ('a \<Rightarrow> world \<Rightarrow> 'b effect) \<Rightarrow> 'b effect" where
  "andthen r k = (case r of (Inl e, w) \<Rightarrow> (Inl e, w) | (Inr x, w) \<Rightarrow> k x w)"

definition has_text :: "string option \<Rightarrow> bool" where
  "has_text t = (case t of None \<Rightarrow> False | Some s \<Rightarrow> s \<noteq> [])"

lemma andthen_simps [simp]: "andthen (Inl e, w) k = (Inl e, w)" "andthen (Inr x, w) k = k x w"
  by (simp_all add: andthen_def)

lemma andthen_Inr: "andthen r k = (Inr y, w') \<longleftrightarrow> (\<exists>x w. r = (Inr x, w) \<and> k x w = (Inr y, w'))"
  by (cases r) (auto simp: andthen_def split: sum.split)

lemma andthen_cong [fundef_cong]:
  "r = r' \<Longrightarrow> (\<And>x w. r' = (Inr x, w) \<Longrightarrow> k x w = k' x w) \<Longrightarrow> andthen r k = andthen r' k'"
  by (cases r') (auto simp: andthen_def split: sum.split)

lemma has_text_simps [simp]: "has_text (Some t) \<longleftrightarrow> t \<noteq> []" "\<not> has_text None"
  by (simp_all add: has_text_def)

lemma has_text_the: "has_text t \<Longrightarrow> t = Some (the t)"
  by (cases t) auto

lemma commit_sel [simp]:
  "wd_saved (commit w) = wd_book w" "wd_book (commit w) = wd_book w"
  "wd_mails (commit w) = wd_mails w" "wd_calls (commit w) = wd_calls w"
  by (simp_all add: commit_def)

lemma rollback_sel [simp]:
  "wd_saved (rollback w) = wd_saved w" "wd_book (rollback w) = wd_saved w"
  "wd_mails (rollback w) = wd_mails w" "wd_calls (rollback w) = wd_calls w"
  by (simp_all add: rollback_def)

lemma on_book_sel [simp]:
  "wd_saved (on_book f w) = wd_saved w" "wd_book (on_book f w) = f (wd_book w)"
  "wd_mails (on_book f w) = wd_mails w" "wd_calls (on_book f w) = wd_calls w"
  by (simp_all add: on_book_def)

lemmas world_defs [eval_simps] = commit_def rollback_def on_book_def andthen_def has_text_def

end
