(* ===== verification/Messaging.thy ===== *)
theory Messaging
  imports Outreach_Schema Phone_Numbers
begin

text \<open>
  Sending and recording messages: \<open>app/communications/service.py\<close> with the provider selection and the
  Twilio transport (\<open>communications/providers\<close>, \<open>communications/config.py\<close>), the resolution of the
  business an incoming message is for (\<open>communications/tenant_resolution.py\<close>), and \<open>app/email\<close>'s
  \<open>send_email\<close>. The answers of Twilio and of the e-mail service are arguments (\<open>cf_twilio\<close>,
  \<open>cf_resend\<close>): functions of everything they were handed before, so that two equal calls may be
  answered differently. \<open>cf_business\<close> is the name column of a business,
  \<open>cf_wording\<close> the wording of a message about a row, \<open>cf_reply_to\<close> the address of a business's owner.
\<close>

subsection \<open>Deployment configuration\<close>

record 'n comm_config =
  cf_phones :: "'n phone_library"
  cf_business :: "uid \<Rightarrow> string"
  cf_wording :: "string \<Rightarrow> uid \<Rightarrow> string"
  cf_reply_to :: "uid \<Rightarrow> string option"
  cf_account_sid :: "string option"
  cf_auth_token :: "string option"
  cf_override :: "uid \<Rightarrow> string \<Rightarrow> string option"
  cf_default :: "string \<Rightarrow> string option"
  cf_twilio :: "carrier_call list \<Rightarrow> carrier_call \<Rightarrow> (string option \<times> string) + (string \<times> string)"
  cf_sms_notifications :: bool
  cf_email_provider :: "string option"
  cf_resend_key :: "string option"
  cf_resend :: "mail list \<Rightarrow> mail \<Rightarrow> string option"

definition is_twilio_configured :: "'n comm_config \<Rightarrow> bool" where
  "is_twilio_configured cf \<longleftrightarrow> has_text (cf_account_sid cf) \<and> has_text (cf_auth_token cf)"

definition settings_of :: "outreach \<Rightarrow> uid \<Rightarrow> comm_settings option" where
  "settings_of s g = find (\<lambda>c. cs_garage c = g) (or_settings s)"

definition garage_communications_enabled :: "outreach \<Rightarrow> uid \<Rightarrow> bool" where
  "garage_communications_enabled s g \<longleftrightarrow>
     (case settings_of s g of None \<Rightarrow> False | Some c \<Rightarrow> cs_enabled c)"

subsection \<open>Providers\<close>

datatype provider = TWILIO | SIP

definition provider_name :: "'n comm_config \<Rightarrow> uid \<Rightarrow> string \<Rightarrow> string" where
  "provider_name cf g channel =
     (case cf_override cf g channel of
        Some n \<Rightarrow> n
      | None \<Rightarrow> (case cf_default cf channel of Some n \<Rightarrow> n | None \<Rightarrow> ''twilio''))"

definition get_voice_provider :: "'n comm_config \<Rightarrow> uid \<Rightarrow> failure + provider" where
  "get_voice_provider cf g =
     (let name = provider_name cf g ''voice''
      in if name = ''twilio'' then Inr TWILIO else if name = ''sip'' then Inr SIP
         else Inl (PROVIDER_NOT_CONFIGURED name))"

definition get_messaging_provider :: "'n comm_config \<Rightarrow> uid \<Rightarrow> failure + provider" where
  "get_messaging_provider cf g =
     (let name = provider_name cf g ''whatsapp''
      in if name = ''twilio'' then Inr TWILIO else Inl (PROVIDER_NOT_CONFIGURED name))"

definition get_sms_provider :: "'n comm_config \<Rightarrow> uid \<Rightarrow> failure + provider" where
  "get_sms_provider cf g =
     (let name = provider_name cf g ''sms''
      in if name = ''twilio'' then Inr TWILIO else Inl (PROVIDER_NOT_CONFIGURED name))"

definition twilio_configuration_error :: "'n comm_config \<Rightarrow> outreach \<Rightarrow> uid \<Rightarrow> string option" where
  "twilio_configuration_error cf s g =
     (if \<not> is_twilio_configured cf then Some ''Twilio is not configured for this deployment.''
      else if \<not> garage_communications_enabled s g then Some ''Communications are not enabled for this business.''
      else None)"

text \<open>\<open>configuration_error\<close> of the three Twilio providers and of the SIP one.\<close>

definition needs :: "(comm_settings \<Rightarrow> bool) \<Rightarrow> string \<Rightarrow> 'n comm_config \<Rightarrow> outreach \<Rightarrow> uid \<Rightarrow> string option" where
  "needs ok reason cf s g =
     (case twilio_configuration_error cf s g of
        Some r \<Rightarrow> Some r
      | None \<Rightarrow> if ok (the (settings_of s g)) then None else Some reason)"

definition messaging_configuration_error :: "'n comm_config \<Rightarrow> outreach \<Rightarrow> uid \<Rightarrow> string option" where
  "messaging_configuration_error =
     needs (\<lambda>c. has_text (cs_whatsapp_sender c) \<or> has_text (cs_messaging_sid c))
       ''No WhatsApp sender configured for this business.''"

definition sms_configuration_error :: "'n comm_config \<Rightarrow> outreach \<Rightarrow> uid \<Rightarrow> string option" where
  "sms_configuration_error =
     needs (\<lambda>c. has_text (cs_messaging_sid c) \<or> has_text (cs_voice_number c))
       ''No SMS-capable number configured for this business.''"

definition voice_configuration_error :: "provider \<Rightarrow> 'n comm_config \<Rightarrow> outreach \<Rightarrow> uid \<Rightarrow> string option" where
  "voice_configuration_error p cf s g =
     (case p of
        SIP \<Rightarrow> Some ''SIP voice provider is not implemented or configured.''
      | TWILIO \<Rightarrow> needs (\<lambda>c. has_text (cs_voice_number c)) ''No voice number configured for this business.'' cf s g)"

text \<open>\<open>send_message\<close>, \<open>send_sms\<close> and \<open>initiate_call\<close>: one request to Twilio.\<close>

definition call_carrier :: "'n comm_config \<Rightarrow> carrier_call \<Rightarrow> world \<Rightarrow> ((string option \<times> string) + (string \<times> string)) \<times> world" where
  "call_carrier cf c w = (cf_twilio cf (wd_calls w) c, w\<lparr>wd_calls := wd_calls w @ [c]\<rparr>)"

definition message_sender :: "comm_settings \<Rightarrow> string option \<Rightarrow> string" where
  "message_sender c fallback =
     (if has_text (cs_messaging_sid c) then the (cs_messaging_sid c)
      else case fallback of None \<Rightarrow> [] | Some f \<Rightarrow> f)"

subsection \<open>Log rows\<close>

record related =
  rl_customer :: "uid option"
  rl_appointment :: "uid option"
  rl_request :: "uid option"

definition unrelated :: related where
  "unrelated = \<lparr>rl_customer = None, rl_appointment = None, rl_request = None\<rparr>"

text \<open>The columns a writer does not name.\<close>

definition blank_log :: "uid \<Rightarrow> msg_channel \<Rightarrow> msg_direction \<Rightarrow> related \<Rightarrow> comm_log" where
  "blank_log g channel direction rel =
     \<lparr>lg_id = 0, lg_garage = g, lg_customer = rl_customer rel, lg_appointment = rl_appointment rel,
      lg_request = rl_request rel, lg_discount = None, lg_channel = channel, lg_direction = direction,
      lg_provider = ''twilio'', lg_external = None, lg_call_sid = None, lg_from = None, lg_to = None,
      lg_status = [], lg_trigger = None, lg_intent = None, lg_body = None, lg_duration = None,
      lg_error_code = None, lg_error = None\<rparr>"

text \<open>
  \<open>_create_log\<close>: insert and commit. The carrier's id is a unique column; a violation is raised and
  the transaction is lost.
\<close>

definition external_taken :: "outreach \<Rightarrow> string option \<Rightarrow> bool" where
  "external_taken s x \<longleftrightarrow> x \<noteq> None \<and> x \<in> lg_external ` set (or_logs s)"

definition create_log :: "comm_log \<Rightarrow> world \<Rightarrow> comm_log effect" where
  "create_log cols w =
     (if external_taken (wd_book w) (lg_external cols) then (Inl DUPLICATE_EXTERNAL_ID, rollback w)
      else let row = cols\<lparr>lg_id := or_next (wd_book w)\<rparr>
           in (Inr row,
               commit (on_book (\<lambda>s. s\<lparr>or_logs := or_logs s @ [row], or_next := or_next s + 1\<rparr>) w)))"

definition channel_key :: "msg_channel \<Rightarrow> string" where
  "channel_key c = (case c of VOICE \<Rightarrow> ''voice'' | WHATSAPP \<Rightarrow> ''whatsapp'' | SMS \<Rightarrow> ''sms'' | EMAIL \<Rightarrow> ''email'')"

definition skip_send :: "'n comm_config \<Rightarrow> comm_log \<Rightarrow> string \<Rightarrow> world \<Rightarrow> comm_log effect" where
  "skip_send cf row reason w =
     create_log
       (row\<lparr>lg_provider := provider_name cf (lg_garage row) (channel_key (lg_channel row)),
            lg_status := ''SKIPPED_NOT_CONFIGURED'', lg_error := Some reason\<rparr>) w"

definition mobile_message :: "phone_error \<Rightarrow> string" where
  "mobile_message e =
     (case e of
        ENTER_A_NUMBER \<Rightarrow> ''Enter a mobile number.''
      | NOT_A_UK_NUMBER \<Rightarrow> ''Enter a valid UK mobile number, e.g. 07123 456789.''
      | LOOKS_LIKE_A_LANDLINE \<Rightarrow> ''That looks like a landline number - please enter a mobile '' @
          ''number so we can text you about your booking.'')"

text \<open>
  The part the three senders share: what happens once the destination is normalised. \<open>addressed\<close> is
  the row with its destination, \<open>reason\<close> the configuration error and \<open>attempt\<close> the request.
\<close>

definition attempt_send ::
  "'n comm_config \<Rightarrow> comm_log \<Rightarrow> string option \<Rightarrow> string option \<Rightarrow> carrier_call \<Rightarrow> world \<Rightarrow> comm_log effect" where
  "attempt_send cf addressed from_address reason attempt w =
     (case reason of
        Some r \<Rightarrow> skip_send cf addressed r w
      | None \<Rightarrow>
          (case call_carrier cf attempt w of
             (Inl (code, message), w') \<Rightarrow>
               create_log (addressed\<lparr>lg_from := from_address, lg_status := ''FAILED'',
                                     lg_error_code := code, lg_error := Some message\<rparr>) w'
           | (Inr (sid, status), w') \<Rightarrow>
               create_log (addressed\<lparr>lg_from := from_address, lg_external := Some sid, lg_status := status,
                                     lg_call_sid := if lg_channel addressed = VOICE then Some sid else None\<rparr>) w'))"

definition send_whatsapp_message ::
  "'n comm_config \<Rightarrow> uid \<Rightarrow> string \<Rightarrow> string \<Rightarrow> related \<Rightarrow> string option \<Rightarrow> world \<Rightarrow> comm_log effect" where
  "send_whatsapp_message cf g to body rel trigger w =
     (let row = (blank_log g WHATSAPP OUTBOUND rel)\<lparr>lg_trigger := trigger, lg_body := Some body\<rparr>
      in case get_messaging_provider cf g of
           Inl e \<Rightarrow> (Inl e, w)
         | Inr _ \<Rightarrow>
             (case normalize_uk_mobile (cf_phones cf) to of
                Inl e \<Rightarrow> skip_send cf (row\<lparr>lg_to := Some to\<rparr>)
                           (''Invalid destination number: '' @ mobile_message e) w
              | Inr to_e164 \<Rightarrow>
                  let to_address = ''whatsapp:'' @ to_e164; c = the (settings_of (wd_book w) g)
                  in attempt_send cf (row\<lparr>lg_to := Some to_address\<rparr>) (cs_whatsapp_sender c)
                       (messaging_configuration_error cf (wd_book w) g)
                       \<lparr>ca_garage = g, ca_channel = WHATSAPP, ca_sender = message_sender c (cs_whatsapp_sender c),
                        ca_to = to_address, ca_body = body\<rparr> w))"

definition send_sms_message ::
  "'n comm_config \<Rightarrow> uid \<Rightarrow> string \<Rightarrow> string \<Rightarrow> related \<Rightarrow> string option \<Rightarrow> world \<Rightarrow> comm_log effect" where
  "send_sms_message cf g to body rel trigger w =
     (let row = (blank_log g SMS OUTBOUND rel)\<lparr>lg_trigger := trigger, lg_body := Some body\<rparr>
      in case get_sms_provider cf g of
           Inl e \<Rightarrow> (Inl e, w)
         | Inr _ \<Rightarrow>
             (case normalize_uk_mobile (cf_phones cf) to of
                Inl e \<Rightarrow> skip_send cf (row\<lparr>lg_to := Some to\<rparr>)
                           (''Invalid destination number: '' @ mobile_message e) w
              | Inr to_e164 \<Rightarrow>
                  let c = the (settings_of (wd_book w) g)
                  in attempt_send cf (row\<lparr>lg_to := Some to_e164\<rparr>)
                       (if has_text (cs_messaging_sid c) then cs_messaging_sid c else cs_voice_number c)
                       (sms_configuration_error cf (wd_book w) g)
                       \<lparr>ca_garage = g, ca_channel = SMS, ca_sender = message_sender c (cs_voice_number c),
                        ca_to = to_e164, ca_body = body\<rparr> w))"

text \<open>A call has no text; \<open>instructions\<close> is the address of what to say.\<close>

definition initiate_voice_call ::
  "'n comm_config \<Rightarrow> uid \<Rightarrow> string \<Rightarrow> string \<Rightarrow> related \<Rightarrow> string option \<Rightarrow> world \<Rightarrow> comm_log effect" where
  "initiate_voice_call cf g to instructions rel trigger w =
     (let row = (blank_log g VOICE OUTBOUND rel)\<lparr>lg_trigger := trigger\<rparr>
      in case get_voice_provider cf g of
           Inl e \<Rightarrow> (Inl e, w)
         | Inr p \<Rightarrow>
             (case normalize_uk_mobile (cf_phones cf) to of
                Inl e \<Rightarrow> skip_send cf (row\<lparr>lg_to := Some to\<rparr>)
                           (''Invalid destination number: '' @ mobile_message e) w
              | Inr to_e164 \<Rightarrow>
                  let c = the (settings_of (wd_book w) g)
                  in attempt_send cf (row\<lparr>lg_to := Some to_e164\<rparr>) (cs_voice_number c)
                       (voice_configuration_error p cf (wd_book w) g)
                       \<lparr>ca_garage = g, ca_channel = VOICE,
                        ca_sender = (case cs_voice_number c of None \<Rightarrow> [] | Some n \<Rightarrow> n),
                        ca_to = to_e164, ca_body = instructions\<rparr> w))"

subsection \<open>Incoming messages and status callbacks\<close>

definition find_customer_by_phone :: "db \<Rightarrow> uid \<Rightarrow> string option \<Rightarrow> customer option" where
  "find_customer_by_phone d g phone =
     (if \<not> has_text phone then None
      else find (\<lambda>c. cu_garage c = g \<and> cu_phone c = phone) (db_customers d))"

definition log_by_external :: "outreach \<Rightarrow> string option \<Rightarrow> comm_log option" where
  "log_by_external s x = find (\<lambda>l. lg_external l = x) (or_logs s)"

text \<open>
  \<open>record_inbound_communication\<close>. Between the look-up and the insert another delivery of the same
  message may commit: \<open>meanwhile\<close> is what other sessions do to the tables in between.
\<close>

definition record_inbound_communication ::
  "(outreach \<Rightarrow> outreach) \<Rightarrow> comm_log \<Rightarrow> world \<Rightarrow> comm_log effect" where
  "record_inbound_communication meanwhile row w =
     (case (if has_text (lg_external row) then log_by_external (wd_book w) (lg_external row) else None) of
        Some existing \<Rightarrow> (Inr existing, w)
      | None \<Rightarrow>
          let w' = commit (on_book meanwhile w)
          in case create_log row w' of
               (Inr l, w'') \<Rightarrow> (Inr l, w'')
             | (Inl e, w'') \<Rightarrow>
                 (case log_by_external (wd_book w'') (lg_external row) of
                    None \<Rightarrow> (Inl e, w'')
                  | Some retry \<Rightarrow> (Inr retry, w'')))"

definition put_log :: "comm_log \<Rightarrow> outreach \<Rightarrow> outreach" where
  "put_log l s = s\<lparr>or_logs := row_set lg_id l (or_logs s)\<rparr>"

record status_event =
  sv_provider :: string
  sv_external :: "string option"
  sv_status :: string
  sv_duration :: "int option"
  sv_error_code :: "string option"
  sv_error :: "string option"

definition update_communication_status :: "status_event \<Rightarrow> world \<Rightarrow> comm_log option \<times> world" where
  "update_communication_status ev w =
     (if \<not> has_text (sv_external ev) then (None, w)
      else case find (\<lambda>l. lg_external l = sv_external ev
                        \<and> (sv_provider ev = ''twilio'' \<or> lg_provider l = sv_provider ev)) (or_logs (wd_book w)) of
             None \<Rightarrow> (None, w)
           | Some l \<Rightarrow>
               let l' = l\<lparr>lg_status := sv_status ev,
                          lg_duration := (if sv_duration ev \<noteq> None then sv_duration ev else lg_duration l),
                          lg_error_code := (if has_text (sv_error_code ev) then sv_error_code ev else lg_error_code l),
                          lg_error := (if has_text (sv_error ev) then sv_error ev else lg_error l)\<rparr>
               in (Some l', commit (on_book (put_log l') w)))"

subsection \<open>Whose message it is\<close>

definition resolve_garage_by_voice_number :: "outreach \<Rightarrow> string \<Rightarrow> uid option" where
  "resolve_garage_by_voice_number s to =
     (if to = [] then None
      else map_option cs_garage (find (\<lambda>c. cs_voice_number c = Some to) (or_settings s)))"

definition resolve_garage_by_whatsapp_sender :: "outreach \<Rightarrow> string \<Rightarrow> uid option" where
  "resolve_garage_by_whatsapp_sender s to =
     (if to = [] then None
      else map_option cs_garage (find (\<lambda>c. cs_whatsapp_sender c = Some to) (or_settings s)))"

definition resolve_garage_by_sms_sender :: "outreach \<Rightarrow> string \<Rightarrow> uid option" where
  "resolve_garage_by_sms_sender s to =
     (if to = [] then None
      else case find (\<lambda>c. cs_voice_number c = Some to) (or_settings s) of
             Some c \<Rightarrow> Some (cs_garage c)
           | None \<Rightarrow> map_option cs_garage (find (\<lambda>c. cs_messaging_sid c = Some to) (or_settings s)))"

text \<open>The fields of a voice webhook that say which business was called.\<close>

record call_form =
  fo_sip_domain :: "string option"
  fo_to :: "string option"
  fo_call_sid :: "string option"

definition resolve_garage_for_inbound_call :: "'n comm_config \<Rightarrow> outreach \<Rightarrow> call_form \<Rightarrow> uid option" where
  "resolve_garage_for_inbound_call cf s form =
     (let domain = strip_text (case fo_sip_domain form of None \<Rightarrow> [] | Some t \<Rightarrow> t)
      in if domain \<noteq> [] then
           (case e164_from_address (cf_phones cf) (fo_to form) of
              None \<Rightarrow> None
            | Some called \<Rightarrow>
                if called = [] then None
                else map_option cs_garage
                       (find (\<lambda>c. cs_mode c = Some ''SIP_BYOC'' \<and> cs_sip_domain c = Some domain
                                 \<and> cs_public_number c = Some called) (or_settings s)))
         else resolve_garage_by_voice_number s (case fo_to form of None \<Rightarrow> [] | Some t \<Rightarrow> t))"

definition garage_pinned_to_call :: "outreach \<Rightarrow> string option \<Rightarrow> uid option" where
  "garage_pinned_to_call s sid =
     (if \<not> has_text sid then None
      else map_option lg_garage
             (find (\<lambda>l. lg_external l = sid \<and> lg_provider l = ''twilio'' \<and> lg_channel l = VOICE
                       \<and> lg_direction l = INBOUND) (or_logs s)))"

definition resolve_garage_for_call_step :: "'n comm_config \<Rightarrow> outreach \<Rightarrow> call_form \<Rightarrow> uid option" where
  "resolve_garage_for_call_step cf s form =
     (let pinned = garage_pinned_to_call s (fo_call_sid form);
          resolved = resolve_garage_for_inbound_call cf s form
      in if pinned \<noteq> None \<and> resolved \<noteq> None \<and> pinned \<noteq> resolved then None
         else if pinned \<noteq> None then pinned else resolved)"

text \<open>
  The webhook of an incoming SMS: refused without configuration or signature, answered without a
  record when the number is nobody's, otherwise recorded for the business.
\<close>

record inbound_form =
  fi_sid :: "string option"
  fi_from :: string
  fi_to :: string
  fi_body :: string

definition incoming_sms ::
  "'n comm_config \<Rightarrow> db \<Rightarrow> bool \<Rightarrow> (outreach \<Rightarrow> outreach) \<Rightarrow> inbound_form \<Rightarrow> world
    \<Rightarrow> http_error + comm_log option effect" where
  "incoming_sms cf d signed meanwhile form w =
     (if \<not> is_twilio_configured cf then Inl (Abort 503 ''not configured'')
      else if \<not> signed then Inl (Abort 403 ''invalid signature'')
      else Inr
        (case resolve_garage_by_sms_sender (wd_book w) (fi_to form) of
           None \<Rightarrow> (Inr None, w)
         | Some g \<Rightarrow>
             let customer = map_option cu_id (find_customer_by_phone d g (Some (fi_from form)));
                 row = (blank_log g SMS INBOUND (unrelated\<lparr>rl_customer := customer\<rparr>))
                   \<lparr>lg_external := fi_sid form, lg_from := Some (fi_from form), lg_to := Some (fi_to form),
                    lg_status := ''received'', lg_body := Some (fi_body form)\<rparr>
             in andthen (record_inbound_communication meanwhile row w) (\<lambda>l w'. (Inr (Some l), w'))))"

definition sms_status :: "'n comm_config \<Rightarrow> bool \<Rightarrow> status_event \<Rightarrow> world \<Rightarrow> http_error + comm_log option \<times> world" where
  "sms_status cf signed ev w =
     (if \<not> is_twilio_configured cf then Inl (Abort 503 ''not configured'')
      else if \<not> signed then Inl (Abort 403 ''invalid signature'')
      else Inr (update_communication_status ev w))"

subsection \<open>E-mail\<close>

definition hand_over :: "mail \<Rightarrow> world \<Rightarrow> world" where
  "hand_over m w = w\<lparr>wd_mails := wd_mails w @ [m]\<rparr>"

definition send_email :: "'n comm_config \<Rightarrow> mail \<Rightarrow> world \<Rightarrow> unit effect" where
  "send_email cf m w =
     (let provider = map lower_char (if has_text (cf_email_provider cf) then the (cf_email_provider cf) else ''console'')
      in if provider = ''console'' then (Inr (), hand_over m w)
         else if provider = ''resend'' then
           (if \<not> has_text (cf_resend_key cf) then (Inl EMAIL_KEY_MISSING, w)
            else case cf_resend cf (wd_mails w) m of
                   Some e \<Rightarrow> (Inl (EMAIL_REJECTED e), w)
                 | None \<Rightarrow> (Inr (), hand_over m w))
         else if provider \<in> {''postmark'', ''sendgrid'', ''ses''} then (Inl (EMAIL_NOT_WIRED provider), w)
         else (Inl (EMAIL_UNKNOWN_PROVIDER provider), w))"

lemma send_email_effect:
  assumes "send_email cf m w = (r, w')"
  shows "w' = (case r of Inl _ \<Rightarrow> w | Inr _ \<Rightarrow> hand_over m w)"
  using assms by (auto simp: send_email_def Let_def split: if_splits option.splits)

lemma hand_over_sel [simp]:
  "wd_saved (hand_over m w) = wd_saved w" "wd_book (hand_over m w) = wd_book w"
  "wd_mails (hand_over m w) = wd_mails w @ [m]" "wd_calls (hand_over m w) = wd_calls w"
  by (simp_all add: hand_over_def)

subsection \<open>What a sender does to the tables\<close>

lemma create_log_Inr:
  assumes "create_log row w = (Inr l, w')"
  shows "l = row\<lparr>lg_id := or_next (wd_book w)\<rparr>" "\<not> external_taken (wd_book w) (lg_external row)"
    "wd_book w' = (wd_book w)\<lparr>or_logs := or_logs (wd_book w) @ [l], or_next := or_next (wd_book w) + 1\<rparr>"
    "wd_saved w' = wd_book w'" "wd_mails w' = wd_mails w" "wd_calls w' = wd_calls w"
  using assms by (auto simp: create_log_def Let_def split: if_splits)

lemma create_log_Inl:
  "create_log row w = (Inl e, w') \<Longrightarrow>
    e = DUPLICATE_EXTERNAL_ID \<and> external_taken (wd_book w) (lg_external row) \<and> w' = rollback w"
  by (auto simp: create_log_def Let_def split: if_splits)

lemma create_log_no_id: "lg_external row = None \<Longrightarrow> fst (create_log row w) \<noteq> Inl e"
  by (auto simp: create_log_def external_taken_def Let_def)

text \<open>
  The contract every writer of log rows keeps: at most one row is added, at the end, under a fresh id,
  and it is committed. The reminders, the e-mails and the conversation engine all rest on it.
\<close>

definition ids_distinct :: "outreach \<Rightarrow> bool" where
  "ids_distinct s \<longleftrightarrow> distinct (List.map_filter lg_external (or_logs s))"

lemma map_filter_append [simp]: "List.map_filter f (xs @ ys) = List.map_filter f xs @ List.map_filter f ys"
  by (simp add: List.map_filter_def)

lemma map_filter_single: "List.map_filter f [x] = (case f x of None \<Rightarrow> [] | Some y \<Rightarrow> [y])"
  by (simp add: List.map_filter_def split: option.split)

lemma external_taken_iff: "external_taken s (Some x) \<longleftrightarrow> x \<in> set (List.map_filter lg_external (or_logs s))"
  by (force simp: external_taken_def set_map_filter)

lemma create_log_keeps_ids:
  assumes "ids_distinct (wd_book w)" "create_log row w = (Inr l, w')"
  shows "ids_distinct (wd_book w')"
  using assms(1) create_log_Inr(1-3) [OF assms(2)]
  by (cases "lg_external row") (auto simp: ids_distinct_def map_filter_single external_taken_iff)

lemma log_by_external_taken: "x \<noteq> None \<Longrightarrow> log_by_external s x = None \<longleftrightarrow> \<not> external_taken s x"
  by (auto simp: log_by_external_def external_taken_def find_None_iff image_iff)

lemma log_by_external_SomeD:
  "log_by_external s x = Some l \<Longrightarrow> l \<in> set (or_logs s) \<and> lg_external l = x"
  by (auto simp: log_by_external_def dest: find_SomeD)

lemma attempt_send_calls:
  assumes "attempt_send cf row from reason c w = (Inr l, w')"
  shows "wd_calls w' = (if reason = None then wd_calls w @ [c] else wd_calls w)"
    "wd_mails w' = wd_mails w" "wd_saved w' = wd_book w'"
    "wd_book w' = (wd_book w)\<lparr>or_logs := or_logs (wd_book w) @ [l], or_next := or_next (wd_book w) + 1\<rparr>"
    "lg_channel l = lg_channel row" "lg_direction l = lg_direction row" "lg_garage l = lg_garage row"
    "lg_to l = lg_to row" "lg_trigger l = lg_trigger row" "lg_customer l = lg_customer row"
    "lg_appointment l = lg_appointment row" "lg_request l = lg_request row" "lg_body l = lg_body row"
    "reason \<noteq> None \<Longrightarrow> lg_status l = ''SKIPPED_NOT_CONFIGURED'' \<and> lg_external l = lg_external row \<and> lg_error l = reason"
  using assms
  by (auto simp: attempt_send_def skip_send_def call_carrier_def create_log_def Let_def
      split: option.splits sum.splits prod.splits if_splits)

lemma attempt_send_Inl:
  assumes "attempt_send cf row from reason c w = (Inl e, w')" "lg_external row = None"
  shows "\<exists>sid status. reason = None \<and> cf_twilio cf (wd_calls w) c = Inr (sid, status) \<and> external_taken (wd_book w) (Some sid)"
  using assms create_log_no_id
  by (auto simp: attempt_send_def skip_send_def call_carrier_def dest!: create_log_Inl
      split: option.splits sum.splits prod.splits) (auto simp: external_taken_def)

text \<open>What the documentation of Twilio promises: an id is never given twice.\<close>

definition fresh_sids :: "'n comm_config \<Rightarrow> world \<Rightarrow> bool" where
  "fresh_sids cf w \<longleftrightarrow>
     (\<forall>c sid status. cf_twilio cf (wd_calls w) c = Inr (sid, status) \<longrightarrow> \<not> external_taken (wd_book w) (Some sid))"

text \<open>
  The contract of a sender, for the parts of the program that send: it never raises, leaves one
  committed row and reaches the carrier for an enabled business only.
\<close>

definition recorded_send :: "'n comm_config \<Rightarrow> uid \<Rightarrow> world \<Rightarrow> comm_log \<Rightarrow> world \<Rightarrow> bool" where
  "recorded_send cf g w l w' \<longleftrightarrow>
     wd_book w' = (wd_book w)\<lparr>or_logs := or_logs (wd_book w) @ [l], or_next := or_next (wd_book w) + 1\<rparr>
     \<and> wd_saved w' = wd_book w' \<and> wd_mails w' = wd_mails w
     \<and> lg_garage l = g \<and> lg_direction l = OUTBOUND
     \<and> (wd_calls w' = wd_calls w \<and> lg_status l = ''SKIPPED_NOT_CONFIGURED'' \<and> lg_external l = None
        \<or> (\<exists>c. wd_calls w' = wd_calls w @ [c] \<and> ca_garage c = g \<and> ca_channel c = lg_channel l
              \<and> lg_to l = Some (ca_to c) \<and> is_twilio_configured cf \<and> garage_communications_enabled (wd_book w) g))"

definition logged_once ::
  "'n comm_config \<Rightarrow> uid \<Rightarrow> msg_channel \<Rightarrow> string option \<Rightarrow> string option \<Rightarrow> world \<Rightarrow> comm_log effect \<Rightarrow> bool" where
  "logged_once cf g channel trigger body w res \<longleftrightarrow>
     (\<exists>l w'. res = (Inr l, w') \<and> recorded_send cf g w l w'
        \<and> lg_channel l = channel \<and> lg_trigger l = trigger \<and> lg_body l = body)"

lemma attempt_send_returns:
  assumes "fresh_sids cf w" "lg_external row = None"
  obtains l w' where "attempt_send cf row from reason c w = (Inr l, w')"
proof (cases "attempt_send cf row from reason c w")
  case (Pair r w')
  show ?thesis
  proof (cases r)
    case (Inl e)
    with Pair assms attempt_send_Inl [of cf row "from" reason c w e w'] show ?thesis
      by (auto simp: fresh_sids_def)
  qed (use Pair that in auto)
qed

lemma attempt_send_once:
  assumes "fresh_sids cf w" "lg_external row = None" "lg_garage row = g" "lg_direction row = OUTBOUND"
    and "ca_garage c = g" "ca_channel c = lg_channel row" "lg_to row = Some (ca_to c)"
    and "reason = None \<Longrightarrow> is_twilio_configured cf \<and> garage_communications_enabled (wd_book w) g"
    and "lg_channel row = channel" "lg_trigger row = trigger" "lg_body row = body"
  shows "logged_once cf g channel trigger body w (attempt_send cf row from reason c w)"
proof -
  from attempt_send_returns [OF assms(1,2)] obtain l w' where *: "attempt_send cf row from reason c w = (Inr l, w')" .
  note e = attempt_send_calls [OF *]
  from e assms have "recorded_send cf g w l w'" unfolding recorded_send_def by (cases reason) auto
  with * e assms(9-11) show ?thesis unfolding logged_once_def by auto
qed

lemma skip_send_once:
  assumes "lg_external row = None" "lg_garage row = g" "lg_direction row = OUTBOUND"
    and "lg_channel row = channel" "lg_trigger row = trigger" "lg_body row = body"
  shows "logged_once cf g channel trigger body w (skip_send cf row reason w)"
  using assms unfolding logged_once_def
  by (simp add: skip_send_def recorded_send_def create_log_def external_taken_def Let_def commit_def on_book_def)

lemma needs_None:
  "needs ok reason cf s g = None \<Longrightarrow> is_twilio_configured cf \<and> garage_communications_enabled s g"
  by (auto simp: needs_def twilio_configuration_error_def split: option.splits if_splits)

lemma configuration_error_None:
  "messaging_configuration_error cf s g = None \<Longrightarrow> is_twilio_configured cf \<and> garage_communications_enabled s g"
  "sms_configuration_error cf s g = None \<Longrightarrow> is_twilio_configured cf \<and> garage_communications_enabled s g"
  "voice_configuration_error p cf s g = None \<Longrightarrow> is_twilio_configured cf \<and> garage_communications_enabled s g"
  by (auto simp: messaging_configuration_error_def sms_configuration_error_def voice_configuration_error_def
      dest: needs_None split: provider.splits)

lemma blank_log_sel [simp]:
  "lg_garage (blank_log g ch d rel) = g" "lg_channel (blank_log g ch d rel) = ch"
  "lg_direction (blank_log g ch d rel) = d" "lg_external (blank_log g ch d rel) = None"
  "lg_provider (blank_log g ch d rel) = ''twilio''"
  "lg_customer (blank_log g ch d rel) = rl_customer rel"
  "lg_appointment (blank_log g ch d rel) = rl_appointment rel"
  "lg_request (blank_log g ch d rel) = rl_request rel" "lg_discount (blank_log g ch d rel) = None"
  by (simp_all add: blank_log_def)

lemma send_whatsapp_once:
  assumes "get_messaging_provider cf g = Inr p" "fresh_sids cf w"
  shows "logged_once cf g WHATSAPP trigger (Some body) w (send_whatsapp_message cf g to body rel trigger w)"
  using assms
  by (auto simp: send_whatsapp_message_def Let_def split: sum.split
      intro!: skip_send_once attempt_send_once dest: configuration_error_None)

lemma send_sms_once:
  assumes "get_sms_provider cf g = Inr p" "fresh_sids cf w"
  shows "logged_once cf g SMS trigger (Some body) w (send_sms_message cf g to body rel trigger w)"
  using assms
  by (auto simp: send_sms_message_def Let_def split: sum.split
      intro!: skip_send_once attempt_send_once dest: configuration_error_None)

lemma initiate_call_once:
  assumes "get_voice_provider cf g = Inr p" "fresh_sids cf w"
  shows "logged_once cf g VOICE trigger None w (initiate_voice_call cf g to body rel trigger w)"
  using assms
  by (auto simp: initiate_voice_call_def Let_def blank_log_def split: sum.split
      intro!: skip_send_once attempt_send_once dest: configuration_error_None)

text \<open>What a sender does in every case, without any assumption.\<close>

definition sender_effect :: "failure + comm_log \<Rightarrow> world \<Rightarrow> world \<Rightarrow> bool" where
  "sender_effect r w w' \<longleftrightarrow> wd_mails w' = wd_mails w \<and>
     (case r of
        Inr l \<Rightarrow> wd_saved w' = wd_book w'
          \<and> wd_book w' = (wd_book w)\<lparr>or_logs := or_logs (wd_book w) @ [l], or_next := or_next (wd_book w) + 1\<rparr>
      | Inl e \<Rightarrow> wd_saved w' = wd_saved w
          \<and> (if e = DUPLICATE_EXTERNAL_ID then wd_book w' = wd_saved w else wd_book w' = wd_book w))"

lemma attempt_send_effect: "attempt_send cf row from reason c w = (r, w') \<Longrightarrow> sender_effect r w w'"
  by (auto simp: attempt_send_def skip_send_def call_carrier_def create_log_def sender_effect_def Let_def
      split: option.splits sum.splits prod.splits if_splits)

lemma skip_send_effect: "skip_send cf row reason w = (r, w') \<Longrightarrow> sender_effect r w w'"
  by (auto simp: skip_send_def create_log_def sender_effect_def Let_def split: if_splits)

lemma unknown_provider_effect: "e \<noteq> DUPLICATE_EXTERNAL_ID \<Longrightarrow> sender_effect (Inl e) w w"
  by (simp add: sender_effect_def)

lemma get_provider_Inl:
  "get_messaging_provider cf g = Inl e \<Longrightarrow> e \<noteq> DUPLICATE_EXTERNAL_ID"
  "get_sms_provider cf g = Inl e \<Longrightarrow> e \<noteq> DUPLICATE_EXTERNAL_ID"
  "get_voice_provider cf g = Inl e \<Longrightarrow> e \<noteq> DUPLICATE_EXTERNAL_ID"
  by (auto simp: get_messaging_provider_def get_sms_provider_def get_voice_provider_def Let_def split: if_splits)

lemma send_sms_effect: "send_sms_message cf g to body rel trigger w = (r, w') \<Longrightarrow> sender_effect r w w'"
  by (auto simp: send_sms_message_def Let_def split: sum.splits
      dest: attempt_send_effect skip_send_effect get_provider_Inl intro: unknown_provider_effect)

lemma send_whatsapp_effect: "send_whatsapp_message cf g to body rel trigger w = (r, w') \<Longrightarrow> sender_effect r w w'"
  by (auto simp: send_whatsapp_message_def Let_def split: sum.splits
      dest: attempt_send_effect skip_send_effect get_provider_Inl intro: unknown_provider_effect)

subsection \<open>Redelivery\<close>

lemma log_by_external_append:
  "\<not> external_taken s x \<Longrightarrow> x \<noteq> None \<Longrightarrow> lg_external l = x
    \<Longrightarrow> log_by_external (s\<lparr>or_logs := or_logs s @ [l], or_next := n\<rparr>) x = Some l"
  using log_by_external_taken [of x s] by (simp add: log_by_external_def find_snoc)

lemma record_inbound_again:
  assumes "has_text (lg_external row)" "log_by_external (wd_book w) (lg_external row) = Some l"
  shows "record_inbound_communication meanwhile row w = (Inr l, w)"
  using assms by (simp add: record_inbound_communication_def)

lemma record_inbound_result:
  assumes "has_text (lg_external row)" "wd_saved w = wd_book w"
    and "ids_distinct (wd_book w)" "ids_distinct (meanwhile (wd_book w))"
  shows "\<exists>l w'. record_inbound_communication meanwhile row w = (Inr l, w')
    \<and> log_by_external (wd_book w') (lg_external row) = Some l
    \<and> ids_distinct (wd_book w') \<and> wd_saved w' = wd_book w'"
proof (cases "log_by_external (wd_book w) (lg_external row)")
  case (Some l)
  with assms record_inbound_again [OF assms(1) Some] show ?thesis by auto
next
  case None
  let ?w = "commit (on_book meanwhile w)"
  have x: "lg_external row \<noteq> None" using assms(1) by (cases "lg_external row") auto
  show ?thesis
  proof (cases "create_log row ?w")
    case (Pair r w')
    show ?thesis
    proof (cases r)
      case (Inl e)
      with Pair have "external_taken (wd_book ?w) (lg_external row)" "w' = rollback ?w"
        by (auto dest: create_log_Inl)
      with x log_by_external_taken [OF x, of "wd_book ?w"] obtain l
        where "log_by_external (wd_book w') (lg_external row) = Some l" by auto
      with None Inl Pair assms \<open>w' = rollback ?w\<close> show ?thesis
        by (auto simp: record_inbound_communication_def)
    next
      case (Inr l)
      note e = create_log_Inr [OF Pair [unfolded Inr]]
      from log_by_external_append [OF e(2) x, of l] e(1,3)
      have "log_by_external (wd_book w') (lg_external row) = Some l" by simp
      moreover have "ids_distinct (wd_book w')"
        using create_log_keeps_ids [OF _ Pair [unfolded Inr]] assms(4) by simp
      ultimately show ?thesis using None Inr Pair assms e(4)
        by (auto simp: record_inbound_communication_def)
    qed
  qed
qed

lemma unique_external:
  assumes "ids_distinct s" "log_by_external s (Some x) = Some l"
  shows "filter (\<lambda>l'. lg_external l' = Some x) (or_logs s) = [l]"
proof -
  have "filter (\<lambda>l'. lg_external l' = Some x) ls = [l]"
    if "distinct (List.map_filter lg_external ls)" "find (\<lambda>l'. lg_external l' = Some x) ls = Some l" for ls
    using that
    by (induction ls) (auto simp: List.map_filter_def filter_empty_conv image_iff split: if_splits option.splits)
  with assms show ?thesis by (simp add: ids_distinct_def log_by_external_def)
qed

subsection \<open>Properties\<close>

text \<open>
  C16: Sending a WhatsApp message or a text never raises when the deployment names a known provider and
  the carrier gives fresh ids: it always adds exactly one committed row for the business, and it
  reaches the carrier at most once, and only when the deployment is configured and the business has
  communications enabled; otherwise the row says that the message was skipped.
\<close>

theorem every_send_is_recorded:
  assumes "get_messaging_provider cf g = Inr p" "get_sms_provider cf g = Inr q" "fresh_sids cf w"
  shows "logged_once cf g WHATSAPP trigger (Some body) w (send_whatsapp_message cf g to body rel trigger w)
    \<and> logged_once cf g SMS trigger (Some body) w (send_sms_message cf g to body rel trigger w)"
  using send_whatsapp_once [OF assms(1,3)] send_sms_once [OF assms(2,3)] by simp

text \<open>A deployment whose carrier accepts everything, and a business with a sender of each kind.\<close>

definition demo_phones :: "string phone_library" where
  "demo_phones = \<lparr>pl_parse = Some, pl_valid = (\<lambda>_. True), pl_fixed_line = (\<lambda>_. False), pl_e164 = (\<lambda>n. n)\<rparr>"

definition demo_config :: "string comm_config" where
  "demo_config = \<lparr>cf_phones = demo_phones, cf_business = (\<lambda>_. ''Garage''), cf_wording = (\<lambda>_ _. ''Hi''), cf_reply_to = (\<lambda>_. None), cf_account_sid = Some ''AC'', cf_auth_token = Some ''t'',
     cf_override = (\<lambda>_ _. None), cf_default = (\<lambda>_. None),
     cf_twilio = (\<lambda>calls _. Inr (replicate (Suc (length calls)) CHR ''m'', ''queued'')),
     cf_sms_notifications = True, cf_email_provider = None, cf_resend_key = None, cf_resend = (\<lambda>_ _. None)\<rparr>"

definition demo_outreach :: outreach where
  "demo_outreach = \<lparr>or_settings = [(blank_settings 1)\<lparr>cs_enabled := True, cs_voice_number := Some ''+441'',
       cs_whatsapp_sender := Some ''whatsapp:+441''\<rparr>],
     or_automation = [], or_logs = [], or_reminders = [], or_mot = [], or_plans = [], or_sessions = [], or_callbacks = [], or_menus = [], or_next = 1\<rparr>"

definition demo_world :: world where
  "demo_world = \<lparr>wd_saved = demo_outreach, wd_book = demo_outreach, wd_mails = [], wd_calls = []\<rparr>"

lemmas demo_world_defs [eval_simps] = blank_settings_def demo_phones_def demo_config_def demo_outreach_def demo_world_def

text \<open>Its bookings: one customer, one appointment, and the given vehicles.\<close>

definition demo_driver :: customer where
  "demo_driver = \<lparr>cu_id = 3, cu_garage = 1, cu_first = ''Ann'', cu_last = ''Lee'', cu_email = Some ''a@b'',
     cu_phone = None, cu_active = True\<rparr>"

definition demo_car :: "uid \<Rightarrow> vehicle" where
  "demo_car i = \<lparr>ve_id = i, ve_garage = 1, ve_customer = 3, ve_registration = replicate i CHR ''A'', ve_active = True,
     ve_mot_expiry = Some 40, ve_make = None, ve_model = None\<rparr>"

definition demo_visit :: appointment where
  "demo_visit = \<lparr>ap_id = 9, ap_garage = 1, ap_employee = 2, ap_customer = 3, ap_vehicle = None, ap_type = 4,
     ap_start = 100 * hour_us, ap_end = 101 * hour_us, ap_status = AP_BOOKED, ap_price = None, ap_type_name = None,
     ap_imported_at = None, ap_completed_at = None, ap_add_ons = [], ap_discount = no_discount\<rparr>"

definition demo_fleet :: "uid list \<Rightarrow> db" where
  "demo_fleet cars = \<lparr>db_garages = [], db_employees = [], db_types = [], db_add_ons = [], db_sections = [], db_statuses = [],
     db_appointments = [demo_visit], db_requests = [], db_windows = [], db_customers = [demo_driver],
     db_vehicles = map demo_car cars, db_codes = [], db_redemptions = [], db_payments = [], db_webhooks = [],
     db_queue = [], db_queue_settings = [], db_terms = [], db_loyalty = [], db_events = [], db_calls = [], db_next = 100\<rparr>"

lemmas demo_fleet_defs = demo_driver_def demo_car_def demo_visit_def demo_fleet_def

lemma demo_fresh: "fresh_sids demo_config demo_world"
  by (simp add: fresh_sids_def external_taken_def eval_simps)

theorem every_send_is_recorded_witness:
  "logged_once demo_config 1 WHATSAPP None (Some ''hi'') demo_world
      (send_whatsapp_message demo_config 1 ''+447'' ''hi'' unrelated None demo_world)
   \<and> length (wd_calls (snd (send_whatsapp_message demo_config 1 ''+447'' ''hi'' unrelated None demo_world))) = 1"
proof -
  have "get_messaging_provider demo_config 1 = Inr TWILIO" "get_sms_provider demo_config 1 = Inr TWILIO"
    by (simp_all add: get_messaging_provider_def get_sms_provider_def provider_name_def demo_config_def)
  note conjunct1 [OF every_send_is_recorded [OF this demo_fresh]]
  moreover have "length (wd_calls (snd (send_whatsapp_message demo_config 1 ''+447'' ''hi'' unrelated None demo_world))) = 1"
    by (simp add: Let_def send_whatsapp_message_def get_messaging_provider_def provider_name_def normalize_uk_mobile_def
        strip_text_def is_space_def messaging_configuration_error_def needs_def twilio_configuration_error_def
        is_twilio_configured_def garage_communications_enabled_def settings_of_def attempt_send_def call_carrier_def
        create_log_def external_taken_def eval_simps)
  ultimately show ?thesis by blast
qed

text \<open>
  C17: An incoming message is recorded exactly once, whatever other deliveries of it commit between the
  look-up and the insert: recording it always returns the one row with the carrier's id, and every
  later delivery of the same id returns the same row and changes nothing.
\<close>

theorem inbound_recorded_once:
  assumes "lg_external row = Some x" "x \<noteq> []" "wd_saved w = wd_book w"
    and "ids_distinct (wd_book w)" "ids_distinct (meanwhile (wd_book w))"
    and "record_inbound_communication meanwhile row w = (r, w')"
    and "lg_external row' = Some x"
  shows "\<exists>l. r = Inr l \<and> filter (\<lambda>l'. lg_external l' = Some x) (or_logs (wd_book w')) = [l]
    \<and> record_inbound_communication meanwhile' row' w' = (Inr l, w')"
proof -
  from record_inbound_result [of row w meanwhile] assms obtain l where
    l: "r = Inr l" "log_by_external (wd_book w') (Some x) = Some l" "ids_distinct (wd_book w')"
    by auto
  with unique_external [OF l(3,2)] record_inbound_again [of row' w' l meanwhile'] assms(2,7)
  show ?thesis by simp
qed

definition demo_inbound :: comm_log where
  "demo_inbound = (blank_log 1 SMS INBOUND unrelated)\<lparr>lg_external := Some ''SM1'', lg_status := ''received''\<rparr>"

text \<open>A second delivery of the same message commits in between.\<close>

definition demo_race :: "outreach \<Rightarrow> outreach" where
  "demo_race s = s\<lparr>or_logs := or_logs s @ [demo_inbound\<lparr>lg_id := 7\<rparr>]\<rparr>"

theorem inbound_recorded_once_witness:
  "fst (record_inbound_communication demo_race demo_inbound demo_world) = Inr (demo_inbound\<lparr>lg_id := 7\<rparr>)
   \<and> length (or_logs (wd_book (snd (record_inbound_communication demo_race demo_inbound demo_world)))) = 1"
proof -
  let ?run = "record_inbound_communication demo_race demo_inbound demo_world"
  have "\<exists>l. fst ?run = Inr l \<and> filter (\<lambda>l'. lg_external l' = Some ''SM1'') (or_logs (wd_book (snd ?run))) = [l]
    \<and> record_inbound_communication id demo_inbound (snd ?run) = (Inr l, snd ?run)"
    by (rule inbound_recorded_once [where meanwhile = demo_race and row = demo_inbound and w = demo_world])
      (simp_all add: demo_inbound_def demo_race_def ids_distinct_def List.map_filter_def eval_simps)
  moreover have "or_logs (wd_book (snd ?run)) = [demo_inbound\<lparr>lg_id := 7\<rparr>]"
    by (simp add: record_inbound_communication_def log_by_external_def create_log_def external_taken_def
        demo_inbound_def demo_race_def blank_log_def unrelated_def eval_simps)
  ultimately show ?thesis by (auto simp: demo_inbound_def)
qed

end
