(* ===== verification/Notifications.thy ===== *)
theory Notifications
  imports Messaging
begin

text \<open>
  What a booking event sends: the e-mails of \<open>app/email/service.py\<close> and the three subscribers of the
  event bus (\<open>email/automation.py\<close>, \<open>communications/sms_automation.py\<close>,
  \<open>conversation/automation.py\<close>) with \<open>emit_event\<close> of \<open>communications/events.py\<close>. The wording is
  left out; the texts about walk-in places are not modelled, since the opt-in they need is not in
  \<open>queue_entry\<close>.
\<close>

subsection \<open>E-mails\<close>

definition email_already_sent ::
  "outreach \<Rightarrow> string \<Rightarrow> uid option \<Rightarrow> uid option \<Rightarrow> uid option \<Rightarrow> uid option \<Rightarrow> bool" where
  "email_already_sent s trigger request appointment customer discount =
     (let sent = filter (\<lambda>l. lg_channel l = EMAIL \<and> lg_trigger l = Some trigger \<and> lg_status l = ''SENT'') (or_logs s)
      in if request \<noteq> None then list_ex (\<lambda>l. lg_request l = request) sent
         else if appointment \<noteq> None then list_ex (\<lambda>l. lg_appointment l = appointment) sent
         else if customer \<noteq> None then
           list_ex (\<lambda>l. lg_appointment l = None \<and> lg_request l = None \<and> lg_customer l = customer) sent
         else False)"

text \<open>What the exception of \<open>send_email\<close> says.\<close>

fun failure_text :: "failure \<Rightarrow> string" where
  "failure_text (EMAIL_REJECTED t) = t"
| "failure_text EMAIL_KEY_MISSING = ''EMAIL_PROVIDER=resend but RESEND_API_KEY is not set''"
| "failure_text (EMAIL_NOT_WIRED p) = ''EMAIL_PROVIDER='' @ p @ '' is not wired yet''"
| "failure_text (EMAIL_UNKNOWN_PROVIDER p) = ''Unknown EMAIL_PROVIDER '' @ p"
| "failure_text _ = []"

text \<open>\<open>_send\<close>: nothing when there is no address or the e-mail was sent already, otherwise one logged attempt.\<close>

definition email_row :: "'n comm_config \<Rightarrow> uid \<Rightarrow> string \<Rightarrow> related \<Rightarrow> uid option \<Rightarrow> string \<Rightarrow> comm_log" where
  "email_row cf g to rel discount trigger =
     (blank_log g EMAIL OUTBOUND rel)
       \<lparr>lg_provider := (case cf_email_provider cf of None \<Rightarrow> ''console'' | Some p \<Rightarrow> p),
        lg_from := cf_reply_to cf g, lg_to := Some to, lg_trigger := Some trigger, lg_discount := discount\<rparr>"

definition send_notice ::
  "'n comm_config \<Rightarrow> uid \<Rightarrow> string option \<Rightarrow> related \<Rightarrow> uid option \<Rightarrow> string \<Rightarrow> bool \<Rightarrow> world \<Rightarrow> comm_log option effect" where
  "send_notice cf g to rel discount trigger force w =
     (if \<not> has_text to then (Inr None, w)
      else if \<not> force \<and> email_already_sent (wd_book w) trigger (rl_request rel) (rl_appointment rel) (rl_customer rel) discount
      then (Inr None, w)
      else let row = email_row cf g (the to) rel discount trigger
           in case send_email cf \<lparr>ml_to = the to, ml_topic = BOOKING_NOTICE trigger\<rparr> w of
                (Inl e, w') \<Rightarrow> andthen (create_log (row\<lparr>lg_status := ''FAILED'', lg_error := Some (failure_text e)\<rparr>) w')
                                 (\<lambda>l w''. (Inr (Some l), w''))
              | (Inr _, w') \<Rightarrow> andthen (create_log (row\<lparr>lg_status := ''SENT''\<rparr>) w') (\<lambda>l w''. (Inr (Some l), w'')))"

definition about_request :: "booking_request \<Rightarrow> related" where
  "about_request rq = \<lparr>rl_customer = rq_customer rq, rl_appointment = None, rl_request = Some (rq_id rq)\<rparr>"

definition about_appointment :: "appointment \<Rightarrow> customer option \<Rightarrow> related" where
  "about_appointment a c = \<lparr>rl_customer = map_option cu_id c, rl_appointment = Some (ap_id a), rl_request = None\<rparr>"

definition customer_of :: "db \<Rightarrow> appointment \<Rightarrow> customer option" where
  "customer_of d a = row_find cu_id (ap_customer a) (db_customers d)"

definition send_booking_request_received_email :: "'n comm_config \<Rightarrow> booking_request \<Rightarrow> world \<Rightarrow> comm_log option effect" where
  "send_booking_request_received_email cf rq =
     send_notice cf (rq_garage rq) (ct_email (rq_contact rq)) (about_request rq) None ''BOOKING_REQUEST_CREATED'' False"

definition send_booking_request_rejected_email :: "'n comm_config \<Rightarrow> booking_request \<Rightarrow> world \<Rightarrow> comm_log option effect" where
  "send_booking_request_rejected_email cf rq =
     send_notice cf (rq_garage rq) (ct_email (rq_contact rq)) (about_request rq) None ''BOOKING_REQUEST_REJECTED'' False"

definition send_account_created_email :: "'n comm_config \<Rightarrow> customer \<Rightarrow> world \<Rightarrow> comm_log option effect" where
  "send_account_created_email cf c =
     send_notice cf (cu_garage c) (cu_email c) (unrelated\<lparr>rl_customer := Some (cu_id c)\<rparr>) None ''ACCOUNT_CREATED'' False"

definition appointment_email :: "'n comm_config \<Rightarrow> db \<Rightarrow> string \<Rightarrow> appointment \<Rightarrow> world \<Rightarrow> comm_log option effect" where
  "appointment_email cf d trigger a =
     send_notice cf (ap_garage a) (Option.bind (customer_of d a) cu_email) (about_appointment a (customer_of d a)) None trigger False"

definition send_appointment_confirmation_email :: "'n comm_config \<Rightarrow> db \<Rightarrow> appointment \<Rightarrow> world \<Rightarrow> comm_log option effect" where
  "send_appointment_confirmation_email cf d = appointment_email cf d ''APPOINTMENT_CREATED''"

definition send_appointment_changed_email :: "'n comm_config \<Rightarrow> db \<Rightarrow> appointment \<Rightarrow> world \<Rightarrow> comm_log option effect" where
  "send_appointment_changed_email cf d = appointment_email cf d ''APPOINTMENT_RESCHEDULED''"

definition send_appointment_completed_email :: "'n comm_config \<Rightarrow> db \<Rightarrow> appointment \<Rightarrow> world \<Rightarrow> comm_log option effect" where
  "send_appointment_completed_email cf d = appointment_email cf d ''APPOINTMENT_COMPLETED''"

text \<open>
  The reward e-mail. The result says what is written into the code's \<open>email_status\<close> column; the
  customer's marketing opt-out is an argument.
\<close>

datatype reward_email_status = RE_SENT | RE_FAILED | RE_NO_EMAIL | RE_OPTED_OUT

definition send_loyalty_reward_email ::
  "'n comm_config \<Rightarrow> db \<Rightarrow> (uid \<Rightarrow> bool) \<Rightarrow> discount_code \<Rightarrow> bool \<Rightarrow> world \<Rightarrow> (comm_log option \<times> reward_email_status option) effect" where
  "send_loyalty_reward_email cf d opted_out code force w =
     (case Option.bind (dc_customer code) (\<lambda>i. row_find cu_id i (db_customers d)) of
        None \<Rightarrow> (Inr (None, None), w)
      | Some c \<Rightarrow>
          if row_find g_id (dc_garage code) (db_garages d) = None then (Inr (None, None), w)
          else if opted_out (cu_id c) then (Inr (None, Some RE_OPTED_OUT), commit w)
          else if \<not> has_text (cu_email c) then (Inr (None, Some RE_NO_EMAIL), commit w)
          else andthen (send_notice cf (dc_garage code) (cu_email c) (unrelated\<lparr>rl_customer := Some (cu_id c)\<rparr>)
                          (Some (dc_id code)) ''LOYALTY_REWARD_ISSUED'' force w)
                 (\<lambda>log w'. case log of
                    None \<Rightarrow> (Inr (None, None), w')
                  | Some l \<Rightarrow>
                      (Inr (Some l, Some (if lg_status l = ''SENT'' then RE_SENT else RE_FAILED)), commit w')))"

subsection \<open>The event bus\<close>

text \<open>
  \<open>register_handler\<close>: a registry of handlers by name, so that registering one twice is a no-op.
\<close>

definition register_handler :: "string list \<Rightarrow> string \<Rightarrow> 'h \<Rightarrow> (string \<Rightarrow> 'h list) \<Rightarrow> (string \<Rightarrow> 'h list) option" where
  "register_handler event_types event h registry =
     (if event \<notin> set event_types then None
      else if h \<in> set (registry event) then Some registry
      else Some (registry(event := registry event @ [h])))"

text \<open>
  \<open>emit_event\<close>: every handler runs and what it raises is swallowed. After a violated constraint the
  session refuses every statement, so the handlers behind it do nothing.
\<close>

fun run_handlers :: "(world \<Rightarrow> 'a effect) list \<Rightarrow> world \<Rightarrow> world" where
  "run_handlers [] w = w"
| "run_handlers (h # hs) w =
     (case h w of (Inl DUPLICATE_EXTERNAL_ID, w') \<Rightarrow> w' | (_, w') \<Rightarrow> run_handlers hs w')"

subsection \<open>The WhatsApp subscriber\<close>

definition default_automation :: "uid \<Rightarrow> automation_settings" where
  "default_automation g =
     \<lparr>as_garage = g, as_booking_ack = True, as_booking_confirmation = True, as_reminder = True,
      as_reminder_hours = 24, as_missed_call_ack = False, as_conversation = False\<rparr>"

definition automation_of :: "outreach \<Rightarrow> uid \<Rightarrow> automation_settings" where
  "automation_of s g =
     (case find (\<lambda>a. as_garage a = g) (or_automation s) of Some a \<Rightarrow> a | None \<Rightarrow> default_automation g)"

definition is_conversation_automation_enabled :: "outreach \<Rightarrow> uid \<Rightarrow> bool" where
  "is_conversation_automation_enabled s g \<longleftrightarrow> as_conversation (automation_of s g)"

definition nothing :: "world \<Rightarrow> unit effect" where
  "nothing w = (Inr (), w)"

definition ignore_result :: "'a effect \<Rightarrow> unit effect" where
  "ignore_result r = andthen r (\<lambda>_ w. (Inr (), w))"

definition whatsapp_request_created :: "'n comm_config \<Rightarrow> booking_request \<Rightarrow> world \<Rightarrow> unit effect" where
  "whatsapp_request_created cf rq w =
     (if \<not> has_text (ct_phone (rq_contact rq)) then nothing w
      else if rq_status rq = AWAITING_TERMS then nothing w
      else if \<not> as_booking_ack (automation_of (wd_book w) (rq_garage rq)) then nothing w
      else ignore_result (send_whatsapp_message cf (rq_garage rq) (the (ct_phone (rq_contact rq)))
             (cf_wording cf ''booking_acknowledgement'' (rq_id rq)) (unrelated\<lparr>rl_request := Some (rq_id rq)\<rparr>)
             (Some ''BOOKING_REQUEST_CREATED'') w))"

definition whatsapp_request_approved :: "'n comm_config \<Rightarrow> booking_request \<Rightarrow> appointment option \<Rightarrow> world \<Rightarrow> unit effect" where
  "whatsapp_request_approved cf rq a w =
     (if \<not> has_text (ct_phone (rq_contact rq)) then nothing w
      else if \<not> as_booking_confirmation (automation_of (wd_book w) (rq_garage rq)) then nothing w
      else ignore_result (send_whatsapp_message cf (rq_garage rq) (the (ct_phone (rq_contact rq)))
             (cf_wording cf ''booking_confirmation'' (rq_id rq))
             \<lparr>rl_customer = rq_customer rq, rl_appointment = map_option ap_id a, rl_request = Some (rq_id rq)\<rparr>
             (Some ''BOOKING_REQUEST_APPROVED'') w))"

definition whatsapp_request_rejected :: "'n comm_config \<Rightarrow> booking_request \<Rightarrow> world \<Rightarrow> unit effect" where
  "whatsapp_request_rejected cf rq w =
     (if \<not> has_text (ct_phone (rq_contact rq)) then nothing w
      else if \<not> as_booking_confirmation (automation_of (wd_book w) (rq_garage rq)) then nothing w
      else ignore_result (send_whatsapp_message cf (rq_garage rq) (the (ct_phone (rq_contact rq)))
             (cf_wording cf ''booking_rejected'' (rq_id rq)) (unrelated\<lparr>rl_request := Some (rq_id rq)\<rparr>)
             (Some ''BOOKING_REQUEST_REJECTED'') w))"

definition customer_phone :: "db \<Rightarrow> appointment \<Rightarrow> string option" where
  "customer_phone d a = Option.bind (customer_of d a) cu_phone"

definition whatsapp_appointment :: "string \<Rightarrow> string \<Rightarrow> 'n comm_config \<Rightarrow> db \<Rightarrow> appointment \<Rightarrow> world \<Rightarrow> unit effect" where
  "whatsapp_appointment template trigger cf d a w =
     (if \<not> as_booking_confirmation (automation_of (wd_book w) (ap_garage a)) then nothing w
      else if \<not> has_text (customer_phone d a) then nothing w
      else ignore_result (send_whatsapp_message cf (ap_garage a) (the (customer_phone d a))
             (cf_wording cf template (ap_id a)) (about_appointment a (customer_of d a)) (Some trigger) w))"

definition whatsapp_missed_call :: "'n comm_config \<Rightarrow> uid \<Rightarrow> comm_log \<Rightarrow> world \<Rightarrow> unit effect" where
  "whatsapp_missed_call cf g call w =
     (if \<not> as_missed_call_ack (automation_of (wd_book w) g) then nothing w
      else if \<not> has_text (lg_from call) then nothing w
      else ignore_result (send_whatsapp_message cf g (the (lg_from call)) (cf_wording cf ''missed_call_ack'' g)
             (unrelated\<lparr>rl_customer := lg_customer call\<rparr>) (Some ''MISSED_CALL'') w))"

subsection \<open>The SMS subscriber\<close>

definition sms_request :: "string \<Rightarrow> 'n comm_config \<Rightarrow> booking_request \<Rightarrow> world \<Rightarrow> unit effect" where
  "sms_request trigger cf rq w =
     (if \<not> cf_sms_notifications cf then nothing w
      else if trigger = ''BOOKING_REQUEST_CREATED'' \<and> rq_status rq = AWAITING_TERMS then nothing w
      else if \<not> has_text (ct_phone (rq_contact rq)) then nothing w
      else ignore_result (send_sms_message cf (rq_garage rq) (the (ct_phone (rq_contact rq)))
             (cf_wording cf trigger (rq_id rq)) (unrelated\<lparr>rl_request := Some (rq_id rq)\<rparr>) (Some trigger) w))"

definition sms_appointment :: "string \<Rightarrow> 'n comm_config \<Rightarrow> db \<Rightarrow> appointment \<Rightarrow> world \<Rightarrow> unit effect" where
  "sms_appointment trigger cf d a w =
     (if \<not> cf_sms_notifications cf then nothing w
      else if \<not> has_text (customer_phone d a) then nothing w
      else ignore_result (send_sms_message cf (ap_garage a) (the (customer_phone d a))
             (cf_wording cf trigger (ap_id a)) (about_appointment a (customer_of d a)) (Some trigger) w))"

subsection \<open>The subscribers of an event\<close>

text \<open>In the order \<open>create_app\<close> registers them: WhatsApp, e-mail, SMS. A row that is gone reaches nobody.\<close>

definition with_request :: "db \<Rightarrow> uid \<Rightarrow> (booking_request \<Rightarrow> (world \<Rightarrow> unit effect) list) \<Rightarrow> (world \<Rightarrow> unit effect) list" where
  "with_request d i f = (case row_find rq_id i (db_requests d) of None \<Rightarrow> [] | Some rq \<Rightarrow> f rq)"

definition with_appointment :: "db \<Rightarrow> uid \<Rightarrow> (appointment \<Rightarrow> (world \<Rightarrow> unit effect) list) \<Rightarrow> (world \<Rightarrow> unit effect) list" where
  "with_appointment d i f = (case row_find ap_id i (db_appointments d) of None \<Rightarrow> [] | Some a \<Rightarrow> f a)"

definition email_request_created :: "'n comm_config \<Rightarrow> booking_request \<Rightarrow> world \<Rightarrow> unit effect" where
  "email_request_created cf rq w =
     (if rq_status rq = AWAITING_TERMS then nothing w
      else ignore_result (send_booking_request_received_email cf rq w))"

fun handlers_of :: "'n comm_config \<Rightarrow> db \<Rightarrow> app_event \<Rightarrow> (world \<Rightarrow> unit effect) list" where
  "handlers_of cf d (BOOKING_REQUEST_CREATED i) = with_request d i (\<lambda>rq.
     [whatsapp_request_created cf rq, email_request_created cf rq, sms_request ''BOOKING_REQUEST_CREATED'' cf rq])"
| "handlers_of cf d (BOOKING_REQUEST_APPROVED i j) = with_request d i (\<lambda>rq. with_appointment d j (\<lambda>a.
     [whatsapp_request_approved cf rq (Some a),
      (\<lambda>w. ignore_result (send_appointment_confirmation_email cf d a w)),
      sms_appointment ''BOOKING_REQUEST_APPROVED'' cf d a]))"
| "handlers_of cf d (BOOKING_REQUEST_REJECTED i) = with_request d i (\<lambda>rq.
     [whatsapp_request_rejected cf rq,
      (\<lambda>w. ignore_result (send_booking_request_rejected_email cf rq w)),
      sms_request ''BOOKING_REQUEST_REJECTED'' cf rq])"
| "handlers_of cf d (APPOINTMENT_CREATED j) = with_appointment d j (\<lambda>a.
     [(\<lambda>w. ignore_result (send_appointment_confirmation_email cf d a w))])"
| "handlers_of cf d (APPOINTMENT_RESCHEDULED j _ _) = with_appointment d j (\<lambda>a.
     [whatsapp_appointment ''appointment_rescheduled'' ''APPOINTMENT_RESCHEDULED'' cf d a,
      (\<lambda>w. ignore_result (send_appointment_changed_email cf d a w)),
      sms_appointment ''APPOINTMENT_RESCHEDULED'' cf d a])"
| "handlers_of cf d (APPOINTMENT_CANCELLED j) = with_appointment d j (\<lambda>a.
     [whatsapp_appointment ''appointment_cancelled'' ''APPOINTMENT_CANCELLED'' cf d a,
      sms_appointment ''APPOINTMENT_CANCELLED'' cf d a])"
| "handlers_of cf d (APPOINTMENT_COMPLETED j) = with_appointment d j (\<lambda>a.
     [(\<lambda>w. ignore_result (send_appointment_completed_email cf d a w))])"
| "handlers_of cf d (QUEUE_ENTRY_JOINED _) = []"
| "handlers_of cf d (QUEUE_ENTRY_CALLED _) = []"
| "handlers_of cf d (CALLBACK_REQUESTED _) = []"

definition emit_event :: "'n comm_config \<Rightarrow> db \<Rightarrow> app_event \<Rightarrow> world \<Rightarrow> world" where
  "emit_event cf d ev w = run_handlers (handlers_of cf d ev) w"

text \<open>A history: events emitted one after the other, each on the bookings of its moment.\<close>

definition emit_history :: "'n comm_config \<Rightarrow> (db \<times> app_event) list \<Rightarrow> world \<Rightarrow> world" where
  "emit_history cf hist w = foldl (\<lambda>w (d, ev). emit_event cf d ev w) w hist"

subsection \<open>What an e-mail leaves\<close>

lemma email_row_sel [simp]:
  "lg_channel (email_row cf g to rel discount trigger) = EMAIL" "lg_trigger (email_row cf g to rel discount trigger) = Some trigger"
  "lg_request (email_row cf g to rel discount trigger) = rl_request rel"
  "lg_appointment (email_row cf g to rel discount trigger) = rl_appointment rel"
  "lg_customer (email_row cf g to rel discount trigger) = rl_customer rel"
  "lg_external (email_row cf g to rel discount trigger) = None"
  by (simp_all add: email_row_def)

text \<open>
  The outcome of \<open>_send\<close>: it never raises; it leaves nothing, or one committed row that says whether
  the e-mail service took the e-mail.
\<close>

definition notice_outcome :: "string \<Rightarrow> related \<Rightarrow> uid option \<Rightarrow> world \<Rightarrow> comm_log option \<Rightarrow> world \<Rightarrow> bool" where
  "notice_outcome trigger rel discount w log w' \<longleftrightarrow>
     (case log of
        None \<Rightarrow> w' = w
      | Some l \<Rightarrow>
          wd_saved w' = wd_book w' \<and> wd_calls w' = wd_calls w
          \<and> wd_book w' = (wd_book w)\<lparr>or_logs := or_logs (wd_book w) @ [l], or_next := or_next (wd_book w) + 1\<rparr>
          \<and> lg_channel l = EMAIL \<and> lg_trigger l = Some trigger \<and> lg_request l = rl_request rel
          \<and> lg_appointment l = rl_appointment rel \<and> lg_customer l = rl_customer rel
          \<and> (lg_status l = ''SENT'' \<and> (\<exists>m. wd_mails w' = wd_mails w @ [m]) \<or> lg_status l = ''FAILED'' \<and> wd_mails w' = wd_mails w))"

lemma send_notice_outcome:
  "\<exists>log w'. send_notice cf g to rel discount trigger force w = (Inr log, w')
    \<and> notice_outcome trigger rel discount w log w'"
proof -
  obtain r w1 where e: "send_email cf \<lparr>ml_to = the to, ml_topic = BOOKING_NOTICE trigger\<rparr> w = (r, w1)" by fastforce
  note w1 = send_email_effect [OF e]
  show ?thesis
  proof (cases "\<not> has_text to \<or> \<not> force \<and> email_already_sent (wd_book w) trigger (rl_request rel) (rl_appointment rel) (rl_customer rel) discount")
    case True
    then show ?thesis by (intro exI [of _ None] exI [of _ w]) (auto simp: send_notice_def notice_outcome_def)
  next
    case False
    with e w1 show ?thesis
      by (cases r) (auto simp: send_notice_def create_log_def external_taken_def Let_def notice_outcome_def)
  qed
qed

lemma send_notice_unless_sent:
  assumes "send_notice cf g to rel discount trigger False w = (Inr (Some l), w')"
  shows "\<not> email_already_sent (wd_book w) trigger (rl_request rel) (rl_appointment rel) (rl_customer rel) discount"
  using assms by (auto simp: send_notice_def split: if_splits)

subsection \<open>An e-mail is sent once\<close>

definition emailed :: "comm_log \<Rightarrow> bool" where
  "emailed l \<longleftrightarrow> lg_channel l = EMAIL \<and> lg_status l = ''SENT'' \<and> (lg_request l \<noteq> None \<or> lg_appointment l \<noteq> None)"

definition mail_key :: "comm_log \<Rightarrow> string option \<times> uid option \<times> uid option" where
  "mail_key l = (lg_trigger l, lg_request l, if lg_request l = None then lg_appointment l else None)"

definition mailed_once :: "outreach \<Rightarrow> bool" where
  "mailed_once s \<longleftrightarrow> distinct (map mail_key (filter emailed (or_logs s)))"

lemma mail_key_fresh:
  assumes "\<not> email_already_sent s trigger (lg_request l) (lg_appointment l) c discount"
    and "emailed l" "lg_trigger l = Some trigger"
  shows "mail_key l \<notin> mail_key ` set (filter emailed (or_logs s))"
proof
  assume "mail_key l \<in> mail_key ` set (filter emailed (or_logs s))"
  then obtain l' where "l' \<in> set (or_logs s)" "emailed l'" "mail_key l = mail_key l'" by auto
  with assms show False
    by (auto simp: email_already_sent_def mail_key_def emailed_def Let_def list_ex_iff split: if_splits)
qed

lemma mailed_once_add:
  "mailed_once s \<Longrightarrow> (emailed l \<Longrightarrow> mail_key l \<notin> mail_key ` set (filter emailed (or_logs s)))
    \<Longrightarrow> mailed_once (s\<lparr>or_logs := or_logs s @ [l], or_next := n\<rparr>)"
  by (simp add: mailed_once_def)

text \<open>Committed and open tables together.\<close>

definition mails_once :: "world \<Rightarrow> bool" where
  "mails_once w \<longleftrightarrow> mailed_once (wd_saved w) \<and> mailed_once (wd_book w)"

lemma send_notice_once:
  assumes "mails_once w" "send_notice cf g to rel discount trigger False w = (r, w')"
  shows "mails_once w'"
proof -
  from send_notice_outcome [of cf g to rel discount trigger False w] assms(2) obtain log
    where r: "r = Inr log" and out: "notice_outcome trigger rel discount w log w'" by auto
  show ?thesis
  proof (cases log)
    case None
    with out assms(1) show ?thesis by (simp add: notice_outcome_def)
  next
    case (Some l)
    from send_notice_unless_sent assms(2) r Some
    have "\<not> email_already_sent (wd_book w) trigger (rl_request rel) (rl_appointment rel) (rl_customer rel) discount" by blast
    with out Some have "emailed l \<Longrightarrow> mail_key l \<notin> mail_key ` set (filter emailed (or_logs (wd_book w)))"
      by (intro mail_key_fresh [of _ trigger]) (auto simp: notice_outcome_def)
    with assms(1) out Some show ?thesis
      by (auto simp: mails_once_def notice_outcome_def intro: mailed_once_add)
  qed
qed

lemma sender_mails_once:
  assumes "mails_once w" "sender_effect r w w'" "\<And>l. r = Inr l \<Longrightarrow> lg_channel l \<noteq> EMAIL"
  shows "mails_once w'"
  using assms
  by (auto simp: sender_effect_def mails_once_def emailed_def intro: mailed_once_add split: sum.splits if_splits)

lemma send_sms_channel: "send_sms_message cf g to body rel trigger w = (Inr l, w') \<Longrightarrow> lg_channel l = SMS"
  by (auto simp: send_sms_message_def Let_def skip_send_def dest!: attempt_send_calls(5) create_log_Inr(1)
      split: sum.splits)

lemma send_whatsapp_channel: "send_whatsapp_message cf g to body rel trigger w = (Inr l, w') \<Longrightarrow> lg_channel l = WHATSAPP"
  by (auto simp: send_whatsapp_message_def Let_def skip_send_def dest!: attempt_send_calls(5) create_log_Inr(1)
      split: sum.splits)

text \<open>What a handler keeps.\<close>

definition safe_handler :: "(world \<Rightarrow> 'a effect) \<Rightarrow> bool" where
  "safe_handler h \<longleftrightarrow> (\<forall>w r w'. mails_once w \<longrightarrow> h w = (r, w') \<longrightarrow> mails_once w')"

lemma safe_ignore: "safe_handler h \<Longrightarrow> safe_handler (\<lambda>w. ignore_result (h w))"
  unfolding safe_handler_def ignore_result_def andthen_def by (auto split: sum.splits prod.splits)

lemma safe_nothing: "safe_handler nothing"
  by (simp add: safe_handler_def nothing_def)

lemma safe_if: "safe_handler h \<Longrightarrow> safe_handler h' \<Longrightarrow> safe_handler (\<lambda>w. if b w then h w else h' w)"
  unfolding safe_handler_def by metis

lemma safe_sms: "safe_handler (send_sms_message cf g to body rel trigger)"
  unfolding safe_handler_def
  by (intro allI impI, erule sender_mails_once [OF _ send_sms_effect], assumption) (auto dest: send_sms_channel)

lemma safe_whatsapp: "safe_handler (send_whatsapp_message cf g to body rel trigger)"
  unfolding safe_handler_def
  by (intro allI impI, erule sender_mails_once [OF _ send_whatsapp_effect], assumption) (auto dest: send_whatsapp_channel)

lemma safe_notice: "safe_handler (send_notice cf g to rel discount trigger False)"
  unfolding safe_handler_def by (blast intro: send_notice_once)

lemmas safe_intros = safe_ignore safe_nothing safe_if safe_sms safe_whatsapp safe_notice

lemma safe_email:
  "safe_handler (send_booking_request_received_email cf rq)" "safe_handler (send_booking_request_rejected_email cf rq)"
  "safe_handler (appointment_email cf d trigger a)" "safe_handler (send_account_created_email cf c)"
  by (simp_all add: send_booking_request_received_email_def send_booking_request_rejected_email_def
      appointment_email_def send_account_created_email_def safe_notice)

lemma safe_email_request: "safe_handler (email_request_created cf rq)"
  unfolding email_request_created_def [abs_def] by (intro safe_intros safe_email)

lemma safe_whatsapp_handlers:
  "safe_handler (whatsapp_request_created cf rq)" "safe_handler (whatsapp_request_approved cf rq x)"
  "safe_handler (whatsapp_request_rejected cf rq)" "safe_handler (whatsapp_appointment template trigger cf d a)"
  "safe_handler (whatsapp_missed_call cf g call)"
  unfolding whatsapp_request_created_def [abs_def] whatsapp_request_approved_def [abs_def]
    whatsapp_request_rejected_def [abs_def] whatsapp_appointment_def [abs_def] whatsapp_missed_call_def [abs_def]
  by (intro safe_intros)+

lemma safe_sms_handlers: "safe_handler (sms_request trigger cf rq)" "safe_handler (sms_appointment trigger cf d a)"
  unfolding sms_request_def [abs_def] sms_appointment_def [abs_def] by (intro safe_intros)+

lemma run_handlers_once:
  "list_all safe_handler hs \<Longrightarrow> mails_once w \<Longrightarrow> mails_once (run_handlers hs w)"
proof (induction hs w rule: run_handlers.induct)
  case (2 h hs w)
  obtain r w' where h: "h w = (r, w')" by fastforce
  with "2.prems" have w': "mails_once w'" by (auto simp: safe_handler_def)
  show ?case
  proof (cases r)
    case (Inl e)
    with 2 h w' show ?thesis by (cases e) simp_all
  next
    case (Inr x)
    with 2 h w' show ?thesis by simp
  qed
qed simp

lemma handlers_safe: "list_all safe_handler (handlers_of cf d ev)"
  by (cases ev)
    (auto simp: with_request_def with_appointment_def send_appointment_confirmation_email_def
      send_appointment_changed_email_def send_appointment_completed_email_def
      intro!: safe_whatsapp_handlers safe_sms_handlers safe_email_request safe_ignore safe_email split: option.split)

lemma emit_history_once: "mails_once w \<Longrightarrow> mails_once (emit_history cf hist w)"
  unfolding emit_history_def
proof (induction hist arbitrary: w)
  case (Cons x hist)
  then show ?case by (cases x) (auto simp: emit_event_def intro: run_handlers_once handlers_safe)
qed simp

lemma mailed_once_at_most:
  assumes "mailed_once s" "\<And>l. P l \<Longrightarrow> emailed l" "\<And>l l'. P l \<Longrightarrow> P l' \<Longrightarrow> mail_key l = mail_key l'"
  shows "length (filter P (or_logs s)) \<le> 1"
proof -
  have "filter P (filter emailed (or_logs s)) = filter P (or_logs s)"
    unfolding filter_filter using assms(2) by (intro filter_cong) blast+
  moreover have "length (filter P (filter emailed (or_logs s))) \<le> 1"
    using assms(1,3) unfolding mailed_once_def by (intro one_of_distinct)
  ultimately show ?thesis by simp
qed

subsection \<open>Properties\<close>

text \<open>
  C18: However often and in whatever order the booking events are emitted, and however the messages in
  between end, a customer gets at most one e-mail per booking request and kind of event, and at most one
  per appointment and kind of event.
\<close>

theorem each_notice_mailed_once:
  assumes "or_logs (wd_saved w) = []" "or_logs (wd_book w) = []"
  shows "length (filter (\<lambda>l. lg_channel l = EMAIL \<and> lg_status l = ''SENT'' \<and> lg_trigger l = Some trigger
        \<and> lg_request l = Some i) (or_logs (wd_book (emit_history cf hist w)))) \<le> 1
    \<and> length (filter (\<lambda>l. lg_channel l = EMAIL \<and> lg_status l = ''SENT'' \<and> lg_trigger l = Some trigger
        \<and> lg_request l = None \<and> lg_appointment l = Some j) (or_logs (wd_book (emit_history cf hist w)))) \<le> 1"
proof -
  from assms have "mails_once w" by (simp add: mails_once_def mailed_once_def)
  then have "mailed_once (wd_book (emit_history cf hist w))" using emit_history_once by (auto simp: mails_once_def)
  note one = mailed_once_at_most [OF this]
  show ?thesis by (intro conjI one) (auto simp: emailed_def mail_key_def)
qed

theorem each_notice_mailed_once_witness:
  "length (filter (\<lambda>l. lg_channel l = EMAIL \<and> lg_status l = ''SENT'' \<and> lg_trigger l = Some ''APPOINTMENT_CREATED''
        \<and> lg_request l = None \<and> lg_appointment l = Some 9) (or_logs (wd_book (emit_history demo_config
      [(demo_fleet [], APPOINTMENT_CREATED 9), (demo_fleet [], APPOINTMENT_CREATED 9)] demo_world)))) \<le> 1"
proof -
  have "or_logs (wd_saved demo_world) = []" "or_logs (wd_book demo_world) = []"
    by (simp_all add: demo_world_def demo_outreach_def)
  from conjunct2 [OF each_notice_mailed_once [OF this]] show ?thesis .
qed

text \<open>The first of the two events does send an e-mail.\<close>

lemma demo_notice_sent:
  "length (wd_mails (emit_history demo_config
      [(demo_fleet [], APPOINTMENT_CREATED 9), (demo_fleet [], APPOINTMENT_CREATED 9)] demo_world)) = 1"
  by (simp add: emit_history_def emit_event_def with_appointment_def send_appointment_confirmation_email_def
      appointment_email_def send_notice_def email_already_sent_def customer_of_def about_appointment_def email_row_def
      blank_log_def create_log_def external_taken_def send_email_def hand_over_def ignore_result_def row_find_def
      demo_fleet_defs eval_simps Let_def)

subsection \<open>What the handlers do with a request that waits for its terms\<close>

lemma waiting_request_reaches_nobody:
  assumes "row_find rq_id i (db_requests d) = Some rq" "rq_status rq = AWAITING_TERMS"
  shows "emit_event cf d (BOOKING_REQUEST_CREATED i) w = w"
  using assms by (simp add: emit_event_def with_request_def whatsapp_request_created_def email_request_created_def
      sms_request_def nothing_def)

subsection \<open>Where the code departs from its documentation\<close>

text \<open>
  The guard is documented to go by the discount code, since a customer may earn several rewards; it
  ignores the code, and a customer who was mailed one reward is never mailed another.
\<close>

lemma second_reward_is_never_mailed:
  assumes "l \<in> set (or_logs (wd_book w))" "lg_channel l = EMAIL" "lg_trigger l = Some ''LOYALTY_REWARD_ISSUED''"
    "lg_status l = ''SENT''" "lg_appointment l = None" "lg_request l = None" "lg_customer l = Some (cu_id c)"
    and "dc_customer code = Some (cu_id c)" "row_find cu_id (cu_id c) (db_customers d) = Some c"
    and "\<not> opted_out (cu_id c)" "has_text (cu_email c)"
  shows "send_loyalty_reward_email cf d opted_out code False w = (Inr (None, None), w)"
proof -
  have "email_already_sent (wd_book w) ''LOYALTY_REWARD_ISSUED'' None None (Some (cu_id c)) (Some (dc_id code))"
    using assms(1-7) by (auto simp: email_already_sent_def list_ex_iff)
  with assms(8-11) show ?thesis
    by (simp add: send_loyalty_reward_email_def send_notice_def unrelated_def)
qed

text \<open>An appointment that is moved a second time: its customer is not told by e-mail.\<close>

lemma second_move_is_never_mailed:
  assumes "l \<in> set (or_logs (wd_book w))" "lg_channel l = EMAIL" "lg_trigger l = Some ''APPOINTMENT_RESCHEDULED''"
    "lg_status l = ''SENT''" "lg_appointment l = Some (ap_id a)"
  shows "send_appointment_changed_email cf d a w = (Inr None, w)"
proof -
  have "email_already_sent (wd_book w) ''APPOINTMENT_RESCHEDULED'' None (Some (ap_id a)) c None" for c
    using assms by (auto simp: email_already_sent_def list_ex_iff)
  then show ?thesis
    by (simp add: send_appointment_changed_email_def appointment_email_def send_notice_def about_appointment_def)
qed

end
