(* ===== verification/Mot_Reminders.thy ===== *)
theory Mot_Reminders
  imports Messaging
begin

text \<open>
  Reminders that a vehicle's MOT is about to expire: \<open>app/mot_reminders\<close> (the schedule, the automatic
  worker, the manual send, the staff page) with the text message that \<open>communications/sms_automation.py\<close>
  adds when a reminder is due. The wording of the messages is left out, except where the carrier gets it.
\<close>

subsection \<open>The schedule\<close>

definition default_mot_settings :: "uid \<Rightarrow> mot_settings" where
  "default_mot_settings g =
     \<lparr>ms_garage = g, ms_enabled1 = True, ms_days1 = 30, ms_enabled2 = True, ms_days2 = 7,
      ms_enabled3 = True, ms_days3 = 1\<rparr>"

definition mot_settings_row :: "outreach \<Rightarrow> uid \<Rightarrow> mot_settings option" where
  "mot_settings_row s g = find (\<lambda>m. ms_garage m = g) (or_mot s)"

definition resolve_mot_settings :: "outreach \<Rightarrow> uid \<Rightarrow> mot_settings" where
  "resolve_mot_settings s g =
     (case mot_settings_row s g of Some m \<Rightarrow> m | None \<Rightarrow> default_mot_settings g)"

definition seed_mot_settings :: "uid \<Rightarrow> outreach \<Rightarrow> outreach" where
  "seed_mot_settings g s =
     (if mot_settings_row s g \<noteq> None then s else s\<lparr>or_mot := or_mot s @ [default_mot_settings g]\<rparr>)"

definition stage_days :: "mot_settings \<Rightarrow> (reminder_stage \<times> bool \<times> int) list" where
  "stage_days m =
     [(STAGE_1, ms_enabled1 m, ms_days1 m), (STAGE_2, ms_enabled2 m, ms_days2 m), (STAGE_3, ms_enabled3 m, ms_days3 m)]"

definition stages_from :: "mot_settings \<Rightarrow> (reminder_stage \<times> int) list" where
  "stages_from m =
     sort_key (\<lambda>p. - snd p) (map (\<lambda>(k, _, n). (k, n)) (filter (\<lambda>(_, enabled, _). enabled) (stage_days m)))"

definition automatic_stages :: "reminder_stage list" where
  "automatic_stages = [STAGE_1, STAGE_2, STAGE_3]"

subsection \<open>A booking that makes the reminder unnecessary\<close>

definition suppressing_statuses :: "appointment_status list" where
  "suppressing_statuses = [AP_REQUESTED, AP_BOOKED, AP_IN_PROGRESS, AP_ACTION_NEEDED, AP_COMPLETED]"

text \<open>\<open>ILIKE '%mot%'\<close>.\<close>

definition is_mot_name :: "string \<Rightarrow> bool" where
  "is_mot_name name \<longleftrightarrow> contains ''mot'' (map lower_char name)"

definition as_utc_bounds :: "date \<Rightarrow> date \<Rightarrow> instant \<times> instant" where
  "as_utc_bounds d1 d2 = (d1 * day_us + time_min, d2 * day_us + time_max)"

definition mot_booking_active_for :: "db \<Rightarrow> uid \<Rightarrow> uid \<Rightarrow> date option \<Rightarrow> bool" where
  "mot_booking_active_for d vehicle g mot_expiry =
     (case mot_expiry of
        None \<Rightarrow> False
      | Some expiry \<Rightarrow>
          let (start_dt, end_dt) = as_utc_bounds (expiry - 330) (expiry + 14)
          in list_ex (\<lambda>a. ap_garage a = g \<and> ap_vehicle a = Some vehicle \<and> ap_status a \<in> set suppressing_statuses
                \<and> list_ex (\<lambda>t. ty_id t = ap_type a \<and> is_mot_name (ty_name t)) (db_types d)
                \<and> start_dt \<le> ap_start a \<and> ap_start a \<le> end_dt) (db_appointments d))"

subsection \<open>Delivering a reminder\<close>

definition deliver_reminder :: "'n comm_config \<Rightarrow> customer \<Rightarrow> vehicle \<Rightarrow> string \<Rightarrow> world \<Rightarrow> reminder_status effect" where
  "deliver_reminder cf c v channel w =
     (if channel = ''email'' then
        if \<not> has_text (cu_email c) then (Inr R_SKIPPED, w)
        else andthen (send_email cf \<lparr>ml_to = the (cu_email c), ml_topic = MOT_REMINDER (ve_registration v)\<rparr> w)
               (\<lambda>_ w'. (Inr R_SENT, w'))
      else (Inr R_SKIPPED, w))"

text \<open>
  \<open>emit_event(MOT_REMINDER_DUE, ...)\<close> reaches one handler that acts, the one that texts the customer.
  What a handler raises is swallowed; but after a violated constraint the session refuses every further
  statement until it is rolled back, so the statement after the event raises.
\<close>

definition handle_mot_reminder_due :: "'n comm_config \<Rightarrow> customer \<Rightarrow> vehicle \<Rightarrow> world \<Rightarrow> unit effect" where
  "handle_mot_reminder_due cf c v w =
     (if \<not> cf_sms_notifications cf then (Inr (), w)
      else if \<not> has_text (cu_phone c) then (Inr (), w)
      else case send_sms_message cf (ve_garage v) (the (cu_phone c))
             (''Reminder from '' @ cf_business cf (ve_garage v) @ '': the MOT for '' @ ve_registration v @
              '' is due soon. Book online or get in touch to arrange it.'')
             (unrelated\<lparr>rl_customer := Some (cu_id c)\<rparr>) (Some ''MOT_REMINDER_DUE'') w of
             (Inl DUPLICATE_EXTERNAL_ID, w') \<Rightarrow> (Inl DUPLICATE_EXTERNAL_ID, w')
           | (_, w') \<Rightarrow> (Inr (), w'))"

definition add_reminder :: "reminder \<Rightarrow> outreach \<Rightarrow> outreach" where
  "add_reminder r s = s\<lparr>or_reminders := or_reminders s @ [r], or_next := or_next s + 1\<rparr>"

definition mot_row ::
  "vehicle \<Rightarrow> customer \<Rightarrow> reminder_stage \<Rightarrow> reminder_trigger \<Rightarrow> date option \<Rightarrow> string \<Rightarrow> uid option \<Rightarrow> instant \<Rightarrow>
   reminder_status \<Rightarrow> uid \<Rightarrow> reminder" where
  "mot_row v c stage trigger mot_expiry channel initiator now status i =
     \<lparr>rm_id = i, rm_garage = ve_garage v, rm_customer = cu_id c,
      rm_vehicle = Some (ve_id v), rm_appointment = None, rm_initiated_by = initiator,
      rm_type = REMIND_MOT, rm_channel = channel, rm_trigger = trigger, rm_stage = stage,
      rm_mot_expiry = mot_expiry, rm_scheduled_at = now,
      rm_sent_at = (if status = R_SENT then Some now else None), rm_status = status,
      rm_message_id = None\<rparr>"

definition record_and_send ::
  "'n comm_config \<Rightarrow> vehicle \<Rightarrow> customer \<Rightarrow> reminder_stage \<Rightarrow> reminder_trigger \<Rightarrow> date option \<Rightarrow>
   string option \<Rightarrow> uid option \<Rightarrow> instant \<Rightarrow> world \<Rightarrow> reminder effect" where
  "record_and_send cf v c stage trigger mot_expiry channel0 initiator now w =
     (let channel = (if has_text channel0 then the channel0 else ''email'')
      in andthen (deliver_reminder cf c v channel w) (\<lambda>status w1.
         let r = mot_row v c stage trigger mot_expiry channel initiator now status (or_next (wd_book w1))
         in andthen (handle_mot_reminder_due cf c v (on_book (add_reminder r) w1)) (\<lambda>_ w2. (Inr r, w2))))"

subsection \<open>The automatic worker\<close>

definition utc_date :: "instant \<Rightarrow> date" where
  "utc_date t = t div day_us"

definition counts_as_sent :: "reminder \<Rightarrow> bool" where
  "counts_as_sent r \<longleftrightarrow> rm_status r = R_SENT \<or> rm_status r = R_SKIPPED"

definition sent_stages :: "outreach \<Rightarrow> uid \<Rightarrow> date \<Rightarrow> reminder_stage list" where
  "sent_stages s vehicle expiry =
     map rm_stage (filter (\<lambda>r. rm_vehicle r = Some vehicle \<and> rm_mot_expiry r = Some expiry \<and> rm_type r = REMIND_MOT
        \<and> rm_stage r \<in> set automatic_stages \<and> counts_as_sent r) (or_reminders s))"

fun send_stages ::
  "'n comm_config \<Rightarrow> vehicle \<Rightarrow> customer \<Rightarrow> date \<Rightarrow> instant \<Rightarrow> reminder_stage list \<Rightarrow>
   (reminder_stage \<times> int) list \<Rightarrow> world \<Rightarrow> reminder list effect" where
  "send_stages cf v c expiry now already [] w = (Inr [], w)"
| "send_stages cf v c expiry now already ((k, n) # stages) w =
     (if k \<in> set already then send_stages cf v c expiry now already stages w
      else if expiry - n \<le> utc_date now then
        andthen (record_and_send cf v c k AUTOMATIC (Some expiry) None None now w) (\<lambda>r w1.
        andthen (send_stages cf v c expiry now (k # already) stages w1) (\<lambda>rs w2. (Inr (r # rs), w2)))
      else send_stages cf v c expiry now already stages w)"

definition send_for_vehicle :: "'n comm_config \<Rightarrow> db \<Rightarrow> instant \<Rightarrow> vehicle \<Rightarrow> world \<Rightarrow> reminder list effect" where
  "send_for_vehicle cf d now v w =
     (case ve_mot_expiry v of
        None \<Rightarrow> (Inr [], w)
      | Some expiry \<Rightarrow>
          if expiry < utc_date now then (Inr [], w)
          else if mot_booking_active_for d (ve_id v) (ve_garage v) (Some expiry) then (Inr [], w)
          else (case row_find cu_id (ve_customer v) (db_customers d) of
                  None \<Rightarrow> (Inr [], w)
                | Some c \<Rightarrow>
                    send_stages cf v c expiry now (sent_stages (wd_book w) (ve_id v) expiry)
                      (stages_from (resolve_mot_settings (wd_book w) (ve_garage v))) w))"

fun send_vehicles :: "'n comm_config \<Rightarrow> db \<Rightarrow> instant \<Rightarrow> vehicle list \<Rightarrow> world \<Rightarrow> reminder list effect" where
  "send_vehicles cf d now [] w = (Inr [], w)"
| "send_vehicles cf d now (v # vs) w =
     andthen (send_for_vehicle cf d now v w) (\<lambda>rs w1.
     andthen (send_vehicles cf d now vs w1) (\<lambda>rs' w2. (Inr (rs @ rs'), w2)))"

definition vehicles_of :: "db \<Rightarrow> uid option \<Rightarrow> vehicle list" where
  "vehicles_of d g =
     filter (\<lambda>v. ve_mot_expiry v \<noteq> None \<and> (case g of None \<Rightarrow> True | Some g' \<Rightarrow> ve_garage v = g')) (db_vehicles d)"

text \<open>An exception ends the job; what was not committed is lost.\<close>

definition send_due_automatic_reminders ::
  "'n comm_config \<Rightarrow> db \<Rightarrow> uid option \<Rightarrow> instant \<Rightarrow> world \<Rightarrow> reminder list effect" where
  "send_due_automatic_reminders cf d g now w =
     (case send_vehicles cf d now (vehicles_of d g) w of
        (Inl e, w') \<Rightarrow> (Inl e, rollback w')
      | (Inr created, w') \<Rightarrow> (Inr created, if created = [] then w' else commit w'))"

subsection \<open>The manual reminder and the schedule\<close>

record manual_request =
  mr_channel :: "string option"
  mr_acknowledge :: bool

definition send_manual_reminder ::
  "'n comm_config \<Rightarrow> db \<Rightarrow> uid \<Rightarrow> uid \<Rightarrow> uid \<Rightarrow> manual_request \<Rightarrow> instant \<Rightarrow> world \<Rightarrow>
   http_error + reminder effect" where
  "send_manual_reminder cf d g employee vehicle_id data now w =
     (case find (\<lambda>v. ve_id v = vehicle_id \<and> ve_garage v = g) (db_vehicles d) of
        None \<Rightarrow> Inl (Abort 404 ''vehicle'')
      | Some v \<Rightarrow>
          (case row_find cu_id (ve_customer v) (db_customers d) of
             None \<Rightarrow> Inl (Abort 404 ''customer'')
           | Some c \<Rightarrow>
               if cu_garage c \<noteq> g then Inl (Abort 404 ''customer'')
               else if \<not> mr_acknowledge data \<and> mot_booking_active_for d (ve_id v) g (ve_mot_expiry v)
               then Inl (Abort 409 ''already has an MOT booking'')
               else Inr
                 (case record_and_send cf v c STAGE_MANUAL MANUAL (ve_mot_expiry v) (mr_channel data)
                         (Some employee) now w of
                    (Inl e, w') \<Rightarrow> (Inl e, rollback w')
                  | (Inr r, w') \<Rightarrow> (Inr r, commit w'))))"

record mot_schedule =
  mq_enabled1 :: "bool option"
  mq_days1 :: "int option"
  mq_enabled2 :: "bool option"
  mq_days2 :: "int option"
  mq_enabled3 :: "bool option"
  mq_days3 :: "int option"

definition days_ok :: "int option \<Rightarrow> bool" where
  "days_ok n = (case n of None \<Rightarrow> True | Some k \<Rightarrow> 1 \<le> k \<and> k \<le> 365)"

definition pick :: "'a option \<Rightarrow> 'a \<Rightarrow> 'a" where
  "pick x old = (case x of None \<Rightarrow> old | Some new \<Rightarrow> new)"

text \<open>
  The schema's own check, on a body that names all three intervals: a stage whose switch is left out
  counts as enabled.
\<close>

definition duplicate_enabled :: "(bool \<times> int) list \<Rightarrow> bool" where
  "duplicate_enabled trio \<longleftrightarrow> \<not> distinct (map snd (filter fst trio))"

definition schedule_body_ok :: "mot_schedule \<Rightarrow> bool" where
  "schedule_body_ok q \<longleftrightarrow>
     days_ok (mq_days1 q) \<and> days_ok (mq_days2 q) \<and> days_ok (mq_days3 q)
     \<and> (mq_days1 q = None \<or> mq_days2 q = None \<or> mq_days3 q = None
        \<or> \<not> duplicate_enabled [(pick (mq_enabled1 q) True, the (mq_days1 q)),
             (pick (mq_enabled2 q) True, the (mq_days2 q)), (pick (mq_enabled3 q) True, the (mq_days3 q))])"

definition trio_of :: "mot_settings \<Rightarrow> (bool \<times> int) list" where
  "trio_of m = [(ms_enabled1 m, ms_days1 m), (ms_enabled2 m, ms_days2 m), (ms_enabled3 m, ms_days3 m)]"

definition normalise_stage_order :: "mot_settings \<Rightarrow> mot_settings" where
  "normalise_stage_order m =
     (let trio = sort_key (\<lambda>p. - snd p) (trio_of m)
      in m\<lparr>ms_enabled1 := fst (trio ! 0), ms_days1 := snd (trio ! 0), ms_enabled2 := fst (trio ! 1),
           ms_days2 := snd (trio ! 1), ms_enabled3 := fst (trio ! 2), ms_days3 := snd (trio ! 2)\<rparr>)"

definition merge_schedule :: "mot_schedule \<Rightarrow> mot_settings \<Rightarrow> mot_settings" where
  "merge_schedule q m =
     m\<lparr>ms_enabled1 := pick (mq_enabled1 q) (ms_enabled1 m), ms_days1 := pick (mq_days1 q) (ms_days1 m),
       ms_enabled2 := pick (mq_enabled2 q) (ms_enabled2 m), ms_days2 := pick (mq_days2 q) (ms_days2 m),
       ms_enabled3 := pick (mq_enabled3 q) (ms_enabled3 m), ms_days3 := pick (mq_days3 q) (ms_days3 m)\<rparr>"

text \<open>
  The row is created and committed first; a schedule that is refused leaves the row as it was.
\<close>

definition save_mot_schedule :: "uid \<Rightarrow> mot_schedule \<Rightarrow> world \<Rightarrow> (http_error + mot_settings) \<times> world" where
  "save_mot_schedule g q w =
     (if \<not> schedule_body_ok q then (Inl (Abort 422 ''invalid''), w)
      else let w1 = (if mot_settings_row (wd_book w) g = None then commit (on_book (seed_mot_settings g) w) else w);
               m = normalise_stage_order (merge_schedule q (resolve_mot_settings (wd_book w1) g))
           in if duplicate_enabled (trio_of m) then (Inl (Abort 422 ''different intervals''), w1)
              else (Inr m, commit (on_book (\<lambda>s. s\<lparr>or_mot := map (\<lambda>x. if ms_garage x = g then m else x) (or_mot s)\<rparr>) w1)))"

subsection \<open>The staff page\<close>

datatype stage_state = ST_SENT | ST_DISABLED | ST_SUPPRESSED | ST_EXPIRED | ST_SCHEDULED
datatype vehicle_reminder_status = VR_BOOKED | VR_SCHEDULED | VR_SENT | VR_EXPIRED | VR_NOT_SCHEDULED

record stage_view =
  sg_stage :: reminder_stage
  sg_days :: int
  sg_enabled :: bool
  sg_state :: stage_state
  sg_scheduled_for :: "date option"

record reminder_view =
  vw_status :: vehicle_reminder_status
  vw_booking :: bool
  vw_last_sent :: "instant option"
  vw_next :: "date option"
  vw_stages :: "stage_view list"

definition cycle_stages :: "date option \<Rightarrow> reminder list \<Rightarrow> reminder_stage list" where
  "cycle_stages expiry events =
     map rm_stage (filter (\<lambda>e. rm_mot_expiry e = expiry \<and> rm_stage e \<in> set automatic_stages \<and> counts_as_sent e) events)"

definition stage_state_of :: "reminder_stage list \<Rightarrow> bool \<Rightarrow> bool \<Rightarrow> reminder_stage \<times> bool \<times> int \<Rightarrow> stage_state" where
  "stage_state_of sent booking expired st =
     (case st of (k, enabled, _) \<Rightarrow>
        if k \<in> set sent then ST_SENT
        else if \<not> enabled then ST_DISABLED
        else if booking then ST_SUPPRESSED
        else if expired then ST_EXPIRED
        else ST_SCHEDULED)"

definition max_option :: "int list \<Rightarrow> int option" where
  "max_option xs = (if xs = [] then None else Some (Max (set xs)))"

definition min_option :: "int list \<Rightarrow> int option" where
  "min_option xs = (if xs = [] then None else Some (Min (set xs)))"

definition compute_reminder_state ::
  "vehicle \<Rightarrow> mot_settings \<Rightarrow> reminder list \<Rightarrow> bool \<Rightarrow> date \<Rightarrow> reminder_view" where
  "compute_reminder_state v m events booking today =
     (let expiry = ve_mot_expiry v;
          expired = (case expiry of None \<Rightarrow> False | Some e \<Rightarrow> e < today);
          sent = cycle_stages expiry events;
          stages = map (\<lambda>st. case st of (k, enabled, n) \<Rightarrow>
              let state = stage_state_of sent booking expired st
              in \<lparr>sg_stage = k, sg_days = n, sg_enabled = enabled, sg_state = state,
                  sg_scheduled_for = (if state = ST_SCHEDULED then map_option (\<lambda>e. e - n) expiry else None)\<rparr>)
            (stage_days m);
          next_scheduled = (if \<not> booking \<and> \<not> expired \<and> expiry \<noteq> None
            then min_option (List.map_filter sg_scheduled_for (filter (\<lambda>x. sg_state x = ST_SCHEDULED) stages))
            else None);
          status = (if booking then VR_BOOKED else if next_scheduled \<noteq> None then VR_SCHEDULED
                    else if sent \<noteq> [] then VR_SENT else if expired then VR_EXPIRED else VR_NOT_SCHEDULED)
      in \<lparr>vw_status = status, vw_booking = booking, vw_last_sent = max_option (List.map_filter rm_sent_at events),
          vw_next = next_scheduled, vw_stages = stages\<rparr>)"

text \<open>One vehicle's row of \<open>GET /api/mot-reminders/\<close>.\<close>

definition vehicle_row :: "db \<Rightarrow> outreach \<Rightarrow> uid \<Rightarrow> instant \<Rightarrow> vehicle \<Rightarrow> reminder_view" where
  "vehicle_row d s g now v =
     compute_reminder_state v (resolve_mot_settings s g)
       (filter (\<lambda>r. rm_garage r = g \<and> rm_type r = REMIND_MOT \<and> rm_vehicle r = Some (ve_id v)) (or_reminders s))
       (mot_booking_active_for d (ve_id v) g (ve_mot_expiry v)) (utc_date now)"

subsection \<open>What sending leaves alone\<close>

text \<open>
  \<open>grew rs w w'\<close>: the reminders \<open>rs\<close> were added to the open transaction, and every other table that
  a reminder depends on is as it was.
\<close>

definition grew :: "reminder list \<Rightarrow> world \<Rightarrow> world \<Rightarrow> bool" where
  "grew rs w w' \<longleftrightarrow>
     or_reminders (wd_book w') = or_reminders (wd_book w) @ rs
     \<and> or_mot (wd_book w') = or_mot (wd_book w) \<and> or_plans (wd_book w') = or_plans (wd_book w)
     \<and> or_settings (wd_book w') = or_settings (wd_book w)"

lemma grew_refl [simp]: "grew [] w w"
  by (simp add: grew_def)

lemma grew_trans: "grew rs w w1 \<Longrightarrow> grew rs' w1 w2 \<Longrightarrow> grew (rs @ rs') w w2"
  by (simp add: grew_def)

lemma deliver_reminder_effect:
  assumes "deliver_reminder cf c v channel w = (Inr status, w')"
  shows "wd_book w' = wd_book w" "wd_saved w' = wd_saved w" "status \<in> {R_SENT, R_SKIPPED}"
  using assms by (auto simp: deliver_reminder_def andthen_def split: if_splits sum.splits prod.splits dest!: send_email_effect)

lemma handle_mot_reminder_due_grew:
  "handle_mot_reminder_due cf c v w = (Inr u, w') \<Longrightarrow> grew [] w w'"
  by (auto simp: handle_mot_reminder_due_def grew_def sender_effect_def
      split: if_splits prod.splits sum.splits failure.splits dest!: send_sms_effect)

text \<open>The row a reminder leaves.\<close>

definition reminder_for :: "vehicle \<Rightarrow> customer \<Rightarrow> reminder_stage \<Rightarrow> reminder_trigger \<Rightarrow> date option \<Rightarrow> instant \<Rightarrow> reminder \<Rightarrow> bool" where
  "reminder_for v c stage trigger expiry now r \<longleftrightarrow>
     rm_garage r = ve_garage v \<and> rm_customer r = cu_id c \<and> rm_vehicle r = Some (ve_id v) \<and> rm_type r = REMIND_MOT
     \<and> rm_stage r = stage \<and> rm_trigger r = trigger \<and> rm_mot_expiry r = expiry \<and> rm_scheduled_at r = now
     \<and> counts_as_sent r"

lemma record_and_send_effect:
  assumes "record_and_send cf v c stage trigger expiry channel initiator now w = (Inr r, w')"
  shows "grew [r] w w'" "reminder_for v c stage trigger expiry now r"
proof -
  let ?channel = "if has_text channel then the channel else ''email''"
  from assms obtain status w1 where d: "deliver_reminder cf c v ?channel w = (Inr status, w1)"
    and r: "r = mot_row v c stage trigger expiry ?channel initiator now status (or_next (wd_book w1))"
    and h: "handle_mot_reminder_due cf c v (on_book (add_reminder r) w1) = (Inr (), w')"
    by (auto simp: record_and_send_def Let_def andthen_Inr)
  from deliver_reminder_effect(3) [OF d] show "reminder_for v c stage trigger expiry now r"
    by (auto simp: r mot_row_def reminder_for_def counts_as_sent_def)
  show "grew [r] w w'"
    using handle_mot_reminder_due_grew [OF h] deliver_reminder_effect [OF d] by (simp add: grew_def add_reminder_def)
qed

subsection \<open>What a run sends\<close>

text \<open>The stages due for a vehicle, in the order they are sent.\<close>

definition due_among :: "reminder_stage list \<Rightarrow> date \<Rightarrow> date \<Rightarrow> (reminder_stage \<times> int) list \<Rightarrow> reminder_stage list" where
  "due_among already expiry today stages =
     map fst (filter (\<lambda>(k, n). k \<notin> set already \<and> expiry - n \<le> today) stages)"

definition due_stages :: "db \<Rightarrow> outreach \<Rightarrow> instant \<Rightarrow> vehicle \<Rightarrow> reminder_stage list" where
  "due_stages d s now v =
     (case ve_mot_expiry v of
        None \<Rightarrow> []
      | Some expiry \<Rightarrow>
          if expiry < utc_date now \<or> mot_booking_active_for d (ve_id v) (ve_garage v) (Some expiry)
             \<or> row_find cu_id (ve_customer v) (db_customers d) = None then []
          else due_among (sent_stages s (ve_id v) expiry) expiry (utc_date now)
                 (stages_from (resolve_mot_settings s (ve_garage v))))"

lemma due_among_skip:
  assumes "distinct (map fst ((k, n) # stages))"
  shows "due_among (k # already) expiry today stages = due_among already expiry today stages"
  using assms unfolding due_among_def by (intro arg_cong [of _ _ "map fst"] filter_cong) (auto simp: image_iff)

lemma send_stages_effect:
  assumes "send_stages cf v c expiry now already stages w = (Inr rs, w')" "distinct (map fst stages)"
  shows "grew rs w w' \<and> map rm_stage rs = due_among already expiry (utc_date now) stages
    \<and> list_all (\<lambda>r. reminder_for v c (rm_stage r) AUTOMATIC (Some expiry) now r) rs"
  using assms
proof (induction cf v c expiry now already stages w arbitrary: rs w' rule: send_stages.induct)
  case (2 cf v c expiry now already k n stages w)
  show ?case
  proof (cases "k \<notin> set already \<and> expiry - n \<le> utc_date now")
    case True
    with "2.prems" obtain r w1 rs' where
      r: "record_and_send cf v c k AUTOMATIC (Some expiry) None None now w = (Inr r, w1)" and
      s: "send_stages cf v c expiry now (k # already) stages w1 = (Inr rs', w')" and rs: "rs = r # rs'"
      by (auto simp: andthen_Inr)
    from True "2.IH"(2) [OF _ _ r s] "2.prems"(2) have IH: "grew rs' w1 w'"
      "map rm_stage rs' = due_among (k # already) expiry (utc_date now) stages"
      "list_all (\<lambda>r. reminder_for v c (rm_stage r) AUTOMATIC (Some expiry) now r) rs'" by auto
    note e = record_and_send_effect [OF r]
    from e(2) have "rm_stage r = k" by (simp add: reminder_for_def)
    moreover from grew_trans [OF e(1) IH(1)] have "grew rs w w'" by (simp add: rs)
    ultimately show ?thesis
      using IH(2,3) True e(2) due_among_skip [OF "2.prems"(2)] by (simp add: rs due_among_def)
  next
    case False
    with "2.prems"(1) have "send_stages cf v c expiry now already stages w = (Inr rs, w')" by (auto split: if_splits)
    with False "2.IH"(1,3) "2.prems"(2) show ?thesis by (auto simp: due_among_def)
  qed
qed (auto simp: due_among_def)

lemma stages_from_distinct: "distinct (map fst (stages_from m))"
  by (auto simp: stages_from_def stage_days_def distinct_map inj_on_def)

lemma send_for_vehicle_effect:
  assumes "send_for_vehicle cf d now v w = (Inr rs, w')"
  shows "grew rs w w' \<and> map rm_stage rs = due_stages d (wd_book w) now v
    \<and> list_all (\<lambda>r. rm_vehicle r = Some (ve_id v) \<and> rm_mot_expiry r = ve_mot_expiry v \<and> rm_type r = REMIND_MOT
         \<and> rm_trigger r = AUTOMATIC \<and> counts_as_sent r) rs"
  using assms send_stages_effect [OF _ stages_from_distinct]
  by (fastforce simp: send_for_vehicle_def due_stages_def reminder_for_def list_all_iff split: option.splits if_splits)

lemma sent_stages_grew:
  assumes "grew rs w w'"
  shows "sent_stages (wd_book w') vid e = sent_stages (wd_book w) vid e @
    map rm_stage (filter (\<lambda>r. rm_vehicle r = Some vid \<and> rm_mot_expiry r = Some e \<and> rm_type r = REMIND_MOT
        \<and> rm_stage r \<in> set automatic_stages \<and> counts_as_sent r) rs)"
  using assms by (simp add: sent_stages_def grew_def)

lemma resolve_grew: "grew rs w w' \<Longrightarrow> resolve_mot_settings (wd_book w') g = resolve_mot_settings (wd_book w) g"
  by (simp add: grew_def resolve_mot_settings_def mot_settings_row_def)

lemma due_stages_other:
  assumes "grew rs w w'" "list_all (\<lambda>r. rm_vehicle r \<noteq> Some (ve_id v)) rs"
  shows "due_stages d (wd_book w') now v = due_stages d (wd_book w) now v"
proof -
  from assms(2) have "filter (\<lambda>r. rm_vehicle r = Some (ve_id v) \<and> rm_mot_expiry r = Some e \<and> rm_type r = REMIND_MOT
      \<and> rm_stage r \<in> set automatic_stages \<and> counts_as_sent r) rs = []" for e
    by (auto simp: filter_empty_conv list_all_iff)
  with assms(1) show ?thesis
    by (simp add: due_stages_def sent_stages_grew resolve_grew split: option.split)
qed

lemma due_among_done: "set (due_among already e t stages) \<subseteq> set already' \<Longrightarrow> set already \<subseteq> set already'
  \<Longrightarrow> due_among already' e t stages = []"
  unfolding due_among_def by (force simp: filter_empty_conv image_subset_iff)

lemma stages_from_automatic: "fst ` set (stages_from m) \<subseteq> set automatic_stages"
  by (auto simp: stages_from_def stage_days_def automatic_stages_def)

lemma due_among_automatic: "set (due_among already e t (stages_from m)) \<subseteq> set automatic_stages"
  using stages_from_automatic [of m] by (auto simp: due_among_def)

lemma due_stages_same_day: "utc_date now' = utc_date now \<Longrightarrow> due_stages d s now' v = due_stages d s now v"
  by (simp add: due_stages_def split: option.split)

lemma due_stages_done:
  assumes "send_for_vehicle cf d now v w = (Inr rs, w')" "utc_date now' = utc_date now"
  shows "due_stages d (wd_book w') now' v = []"
proof (cases "ve_mot_expiry v = None \<or> due_stages d (wd_book w) now v = []")
  case True
  then have "due_stages d (wd_book w) now v = []" by (auto simp: due_stages_def)
  moreover from this send_for_vehicle_effect [OF assms(1)] have "grew [] w w'" by auto
  ultimately show ?thesis using due_stages_other [of "[]" w w' v d now] due_stages_same_day [OF assms(2)] by simp
next
  case False
  then obtain e where exp: "ve_mot_expiry v = Some e" by auto
  let ?due = "due_among (sent_stages (wd_book w) (ve_id v) e) e (utc_date now)
    (stages_from (resolve_mot_settings (wd_book w) (ve_garage v)))"
  note eff = send_for_vehicle_effect [OF assms(1)]
  have due: "due_stages d (wd_book w) now v = ?due" using False by (auto simp: due_stages_def exp split: if_splits)
  with eff have stages: "map rm_stage rs = ?due" by simp
  with due_among_automatic have "rm_stage ` set rs \<subseteq> set automatic_stages" by (metis list.set_map)
  with eff have "filter (\<lambda>r. rm_vehicle r = Some (ve_id v) \<and> rm_mot_expiry r = Some e \<and> rm_type r = REMIND_MOT
      \<and> rm_stage r \<in> set automatic_stages \<and> counts_as_sent r) rs = rs"
    by (auto simp: filter_id_conv list_all_iff exp)
  with eff sent_stages_grew [of rs w w' "ve_id v" e] stages
  have "sent_stages (wd_book w') (ve_id v) e = sent_stages (wd_book w) (ve_id v) e @ ?due" by simp
  with eff assms(2) show ?thesis
    using due_among_done [of "sent_stages (wd_book w) (ve_id v) e" e "utc_date now"]
    by (auto simp: due_stages_def exp resolve_grew)
qed

lemma send_stages_nothing:
  "due_among already expiry (utc_date now) stages = [] \<Longrightarrow> send_stages cf v c expiry now already stages w = (Inr [], w)"
  by (induction cf v c expiry now already stages w rule: send_stages.induct) (auto simp: due_among_def split: if_splits)

lemma send_for_vehicle_nothing:
  "due_stages d (wd_book w) now v = [] \<Longrightarrow> send_for_vehicle cf d now v w = (Inr [], w)"
  by (auto simp: send_for_vehicle_def due_stages_def intro: send_stages_nothing split: option.splits if_splits)

lemma send_vehicles_nothing:
  "list_all (\<lambda>v. due_stages d (wd_book w) now v = []) vs \<Longrightarrow> send_vehicles cf d now vs w = (Inr [], w)"
  by (induction vs) (auto simp: send_for_vehicle_nothing)

lemma send_vehicles_effect:
  assumes "send_vehicles cf d now vs w = (Inr rs, w')" "distinct (map ve_id vs)"
  shows "grew rs w w' \<and> map (\<lambda>r. (rm_vehicle r, rm_stage r)) rs
      = concat (map (\<lambda>v. map (\<lambda>k. (Some (ve_id v), k)) (due_stages d (wd_book w) now v)) vs)
    \<and> list_all (\<lambda>r. rm_vehicle r \<in> Some ` ve_id ` set vs \<and> rm_type r = REMIND_MOT \<and> rm_trigger r = AUTOMATIC \<and> counts_as_sent r) rs
    \<and> (utc_date now' = utc_date now \<longrightarrow> list_all (\<lambda>v. due_stages d (wd_book w') now' v = []) vs)"
  using assms
proof (induction vs arbitrary: w rs)
  case (Cons v vs)
  from Cons.prems(1) obtain rs1 w1 rs2 where
    a: "send_for_vehicle cf d now v w = (Inr rs1, w1)" and b: "send_vehicles cf d now vs w1 = (Inr rs2, w')"
    and rs: "rs = rs1 @ rs2" by (auto simp: andthen_Inr)
  note ea = send_for_vehicle_effect [OF a]
  from Cons.IH [OF b] Cons.prems(2) have eb: "grew rs2 w1 w'"
    "map (\<lambda>r. (rm_vehicle r, rm_stage r)) rs2
      = concat (map (\<lambda>v. map (\<lambda>k. (Some (ve_id v), k)) (due_stages d (wd_book w1) now v)) vs)"
    "list_all (\<lambda>r. rm_vehicle r \<in> Some ` ve_id ` set vs \<and> rm_type r = REMIND_MOT \<and> rm_trigger r = AUTOMATIC \<and> counts_as_sent r) rs2"
    "utc_date now' = utc_date now \<longrightarrow> list_all (\<lambda>v. due_stages d (wd_book w') now' v = []) vs" by auto
  have "due_stages d (wd_book w1) now u = due_stages d (wd_book w) now u" if "u \<in> set vs" for u
    using ea that Cons.prems(2) by (intro due_stages_other [of rs1]) (auto simp: list_all_iff)
  then have same: "map (\<lambda>v. map (\<lambda>k. (Some (ve_id v), k)) (due_stages d (wd_book w1) now v)) vs
    = map (\<lambda>v. map (\<lambda>k. (Some (ve_id v), k)) (due_stages d (wd_book w) now v)) vs" by simp
  have "Some (ve_id v) \<notin> Some ` ve_id ` set vs" using Cons.prems(2) by auto
  with eb(3) have "list_all (\<lambda>r. rm_vehicle r \<noteq> Some (ve_id v)) rs2" unfolding list_all_iff by metis
  from due_stages_other [OF eb(1) this]
  have "due_stages d (wd_book w') now' v = due_stages d (wd_book w1) now' v" .
  with due_stages_done [OF a] have "utc_date now' = utc_date now \<longrightarrow> due_stages d (wd_book w') now' v = []" by auto
  moreover have "map (\<lambda>r. (rm_vehicle r, rm_stage r)) rs1 = map (\<lambda>k. (Some (ve_id v), k)) (due_stages d (wd_book w) now v)"
  proof -
    from ea have "\<forall>r \<in> set rs1. rm_vehicle r = Some (ve_id v)" unfolding list_all_iff by blast
    then have "map (\<lambda>r. (rm_vehicle r, rm_stage r)) rs1 = map (\<lambda>k. (Some (ve_id v), k)) (map rm_stage rs1)"
      unfolding map_map by (intro map_cong) (simp_all add: comp_def)
    with conjunct1 [OF conjunct2 [OF ea]] show ?thesis by simp
  qed
  ultimately show ?case
    using ea eb grew_trans [of rs1 w w1 rs2 w'] by (auto simp: rs same list_all_iff)
qed simp

end
