(* ===== verification/Appointment_Reminders.thy ===== *)
theory Appointment_Reminders
  imports Mot_Reminders
begin

text \<open>
  Reminders of an upcoming appointment: \<open>app/appointment_reminders\<close> (lead times and channels of a
  business, the automatic worker, the settings route).
\<close>

subsection \<open>Settings\<close>

definition valid_channels :: "string list" where
  "valid_channels = [''email'', ''sms'', ''whatsapp'']"

definition default_timings :: "reminder_timing list" where
  "default_timings = [\<lparr>rt_hours = 24, rt_enabled = True\<rparr>, \<lparr>rt_hours = 2, rt_enabled = True\<rparr>]"

definition default_reminder_settings :: "uid \<Rightarrow> reminder_settings" where
  "default_reminder_settings g =
     \<lparr>rs_garage = g, rs_enabled = False, rs_channels = [''email''], rs_timings = default_timings\<rparr>"

definition reminder_settings_row :: "outreach \<Rightarrow> uid \<Rightarrow> reminder_settings option" where
  "reminder_settings_row s g = find (\<lambda>r. rs_garage r = g) (or_plans s)"

text \<open>The timings of a stored row come longest lead time first.\<close>

definition resolve_reminder_settings :: "outreach \<Rightarrow> uid \<Rightarrow> reminder_settings" where
  "resolve_reminder_settings s g =
     (case reminder_settings_row s g of
        Some r \<Rightarrow> r\<lparr>rs_timings := sort_key (\<lambda>t. - rt_hours t) (rs_timings r)\<rparr>
      | None \<Rightarrow> default_reminder_settings g)"

definition seed_reminder_settings :: "uid \<Rightarrow> outreach \<Rightarrow> outreach" where
  "seed_reminder_settings g s =
     (if reminder_settings_row s g \<noteq> None then s else s\<lparr>or_plans := or_plans s @ [default_reminder_settings g]\<rparr>)"

subsection \<open>Choosing a channel\<close>

definition available_channels :: "'n comm_config \<Rightarrow> outreach \<Rightarrow> uid \<Rightarrow> failure + string list" where
  "available_channels cf s g =
     (case get_sms_provider cf g of
        Inl e \<Rightarrow> Inl e
      | Inr _ \<Rightarrow>
          (case get_messaging_provider cf g of
             Inl e \<Rightarrow> Inl e
           | Inr _ \<Rightarrow>
               Inr ([''email''] @ (if sms_configuration_error cf s g = None then [''sms''] else [])
                    @ (if messaging_configuration_error cf s g = None then [''whatsapp''] else []))))"

definition reaches :: "customer \<Rightarrow> string \<Rightarrow> bool" where
  "reaches c channel \<longleftrightarrow>
     channel = ''email'' \<and> has_text (cu_email c)
     \<or> channel \<in> {''sms'', ''whatsapp''} \<and> has_text (cu_phone c)"

definition pick_channel :: "'n comm_config \<Rightarrow> outreach \<Rightarrow> uid \<Rightarrow> customer \<Rightarrow> reminder_settings \<Rightarrow> failure + string option" where
  "pick_channel cf s g c rs =
     (case available_channels cf s g of
        Inl e \<Rightarrow> Inl e
      | Inr usable \<Rightarrow>
          Inr (find (\<lambda>ch. ch \<in> set valid_channels \<and> ch \<in> set usable \<and> reaches c ch) (rs_channels rs)))"

subsection \<open>Delivering a reminder\<close>

definition status_from_log :: "comm_log \<Rightarrow> reminder_status" where
  "status_from_log l =
     (if lg_status l = ''SKIPPED_NOT_CONFIGURED'' then R_SKIPPED
      else if lg_status l = ''FAILED'' then R_FAILED else R_SENT)"

definition deliver_appointment_reminder ::
  "'n comm_config \<Rightarrow> customer \<Rightarrow> appointment \<Rightarrow> string \<Rightarrow> world \<Rightarrow> (reminder_status \<times> string option) effect" where
  "deliver_appointment_reminder cf c a channel w =
     (let rel = \<lparr>rl_customer = Some (cu_id c), rl_appointment = Some (ap_id a), rl_request = None\<rparr>;
          via = (\<lambda>send. if \<not> has_text (cu_phone c) then (Inr (R_SKIPPED, None), w)
                 else andthen (send cf (ap_garage a) (the (cu_phone c)) (cf_wording cf ''APPOINTMENT_REMINDER_DUE'' (ap_id a)) rel
                                 (Some ''APPOINTMENT_REMINDER_DUE'') w)
                        (\<lambda>l w'. (Inr (status_from_log l, lg_external l), w')))
      in if channel = ''email'' then
           if \<not> has_text (cu_email c) then (Inr (R_SKIPPED, None), w)
           else andthen (send_email cf \<lparr>ml_to = the (cu_email c), ml_topic = APPOINTMENT_REMINDER (ap_id a)\<rparr> w)
                  (\<lambda>_ w'. (Inr (R_SENT, None), w'))
         else if channel = ''sms'' then via send_sms_message
         else if channel = ''whatsapp'' then via send_whatsapp_message
         else (Inr (R_SKIPPED, None), w))"

text \<open>No handler is registered for \<open>APPOINTMENT_REMINDER_DUE\<close>, so the event has no effect.\<close>

definition record_and_send_appointment ::
  "'n comm_config \<Rightarrow> customer \<Rightarrow> appointment \<Rightarrow> int \<Rightarrow> instant \<Rightarrow> string option \<Rightarrow> instant \<Rightarrow> world \<Rightarrow> reminder effect" where
  "record_and_send_appointment cf c a hours_before due_at channel now w =
     andthen (case channel of None \<Rightarrow> (Inr (R_SKIPPED, None), w)
              | Some ch \<Rightarrow> deliver_appointment_reminder cf c a ch w) (\<lambda>(status, sid) w1.
       let r = \<lparr>rm_id = or_next (wd_book w1), rm_garage = ap_garage a, rm_customer = cu_id c,
                rm_vehicle = ap_vehicle a, rm_appointment = Some (ap_id a), rm_initiated_by = None,
                rm_type = REMIND_APPOINTMENT, rm_channel = pick channel ''none'', rm_trigger = AUTOMATIC,
                rm_stage = STAGE_HOURS hours_before, rm_mot_expiry = None, rm_scheduled_at = due_at,
                rm_sent_at = (if status = R_SENT then Some now else None), rm_status = status,
                rm_message_id = sid\<rparr>
       in (Inr r, on_book (add_reminder r) w1))"

subsection \<open>The automatic worker\<close>

definition already_sent :: "outreach \<Rightarrow> uid \<Rightarrow> int \<Rightarrow> instant \<Rightarrow> bool" where
  "already_sent s appointment hours_before due_at \<longleftrightarrow>
     list_ex (\<lambda>r. rm_appointment r = Some appointment \<and> rm_type r = REMIND_APPOINTMENT
        \<and> rm_stage r = STAGE_HOURS hours_before \<and> rm_scheduled_at r = due_at \<and> counts_as_sent r) (or_reminders s)"

definition due_instant :: "appointment \<Rightarrow> int \<Rightarrow> instant" where
  "due_instant a hours_before = ap_start a - hours_before * hour_us"

fun send_timings ::
  "'n comm_config \<Rightarrow> customer \<Rightarrow> appointment \<Rightarrow> reminder_settings \<Rightarrow> instant \<Rightarrow> reminder_timing list \<Rightarrow> world \<Rightarrow> reminder list effect" where
  "send_timings cf c a rs now [] w = (Inr [], w)"
| "send_timings cf c a rs now (t # ts) w =
     (if \<not> rt_enabled t then send_timings cf c a rs now ts w
      else let due_at = due_instant a (rt_hours t)
           in if now < due_at then send_timings cf c a rs now ts w
              else if already_sent (wd_book w) (ap_id a) (rt_hours t) due_at then send_timings cf c a rs now ts w
              else case pick_channel cf (wd_book w) (ap_garage a) c rs of
                     Inl e \<Rightarrow> (Inl e, w)
                   | Inr channel \<Rightarrow>
                       andthen (record_and_send_appointment cf c a (rt_hours t) due_at channel now w) (\<lambda>r w1.
                       andthen (send_timings cf c a rs now ts w1) (\<lambda>rest w2. (Inr (r # rest), w2))))"

definition send_for_appointment :: "'n comm_config \<Rightarrow> db \<Rightarrow> instant \<Rightarrow> appointment \<Rightarrow> world \<Rightarrow> reminder list effect" where
  "send_for_appointment cf d now a w =
     (let rs = resolve_reminder_settings (wd_book w) (ap_garage a)
      in if \<not> rs_enabled rs then (Inr [], w)
         else case row_find cu_id (ap_customer a) (db_customers d) of
                None \<Rightarrow> (Inr [], w)
              | Some c \<Rightarrow> send_timings cf c a rs now (rs_timings rs) w)"

fun send_appointments :: "'n comm_config \<Rightarrow> db \<Rightarrow> instant \<Rightarrow> appointment list \<Rightarrow> world \<Rightarrow> reminder list effect" where
  "send_appointments cf d now [] w = (Inr [], w)"
| "send_appointments cf d now (a # as) w =
     andthen (send_for_appointment cf d now a w) (\<lambda>rs w1.
     andthen (send_appointments cf d now as w1) (\<lambda>rs' w2. (Inr (rs @ rs'), w2)))"

definition remindable :: "db \<Rightarrow> uid option \<Rightarrow> instant \<Rightarrow> appointment list" where
  "remindable d g now =
     filter (\<lambda>a. ap_status a = AP_BOOKED \<and> now < ap_start a \<and> ap_imported_at a = None
        \<and> (case g of None \<Rightarrow> True | Some g' \<Rightarrow> ap_garage a = g')) (db_appointments d)"

definition send_due_appointment_reminders ::
  "'n comm_config \<Rightarrow> db \<Rightarrow> uid option \<Rightarrow> instant \<Rightarrow> world \<Rightarrow> reminder list effect" where
  "send_due_appointment_reminders cf d g now w =
     (case send_appointments cf d now (remindable d g now) w of
        (Inl e, w') \<Rightarrow> (Inl e, rollback w')
      | (Inr created, w') \<Rightarrow> (Inr created, if created = [] then w' else commit w'))"

text \<open>\<open>flask send-due-reminders\<close>: both workers, one after the other; the first exception ends it.\<close>

definition send_due_reminders_command ::
  "'n comm_config \<Rightarrow> db \<Rightarrow> instant \<Rightarrow> instant \<Rightarrow> world \<Rightarrow> (reminder list \<times> reminder list) effect" where
  "send_due_reminders_command cf d now now' w =
     andthen (send_due_automatic_reminders cf d None now w) (\<lambda>mot w1.
     andthen (send_due_appointment_reminders cf d None now' w1) (\<lambda>app w2. (Inr (mot, app), w2)))"

subsection \<open>Saving the settings\<close>

record reminder_settings_body =
  rb_enabled :: bool
  rb_channels :: "string list"
  rb_timings :: "reminder_timing list"

definition settings_body_ok :: "reminder_settings_body \<Rightarrow> bool" where
  "settings_body_ok b \<longleftrightarrow>
     set (rb_channels b) \<subseteq> set valid_channels
     \<and> list_all (\<lambda>t. 1 \<le> rt_hours t \<and> rt_hours t \<le> 168) (rb_timings b)
     \<and> distinct (map rt_hours (filter rt_enabled (rb_timings b)))"

text \<open>
  The lead time is a unique column of the timings of a row, so two timings with the same lead time are
  refused by the database, an exception that nobody catches.
\<close>

definition save_reminder_settings :: "uid \<Rightarrow> reminder_settings_body \<Rightarrow> world \<Rightarrow> http_error + reminder_settings effect" where
  "save_reminder_settings g b w =
     (if \<not> settings_body_ok b then Inl (Abort 422 ''invalid'')
      else let w1 = (if reminder_settings_row (wd_book w) g = None
                     then commit (on_book (seed_reminder_settings g) w) else w);
               row = (the (reminder_settings_row (wd_book w1) g))
                 \<lparr>rs_enabled := rb_enabled b, rs_channels := rb_channels b, rs_timings := rb_timings b\<rparr>
           in Inr (if \<not> distinct (map rt_hours (rb_timings b)) then (Inl DUPLICATE_TIMING, rollback w1)
                   else (Inr row,
                         commit (on_book (\<lambda>s. s\<lparr>or_plans := map (\<lambda>x. if rs_garage x = g then row else x) (or_plans s)\<rparr>) w1))))"

subsection \<open>What a run sends\<close>

text \<open>Every part of a sender leaves the reminders and the settings alone.\<close>

lemma sender_grew: "sender_effect (Inr l) w w' \<Longrightarrow> grew [] w w'"
  by (simp add: sender_effect_def grew_def)

lemma deliver_appointment_grew:
  "deliver_appointment_reminder cf c a channel w = (Inr x, w') \<Longrightarrow> grew [] w w'"
  by (auto simp: deliver_appointment_reminder_def Let_def andthen_Inr grew_def split: if_splits
      dest!: send_email_effect send_sms_effect send_whatsapp_effect sender_grew)

text \<open>The row of one attempt.\<close>

definition attempt_row :: "appointment \<Rightarrow> int \<Rightarrow> reminder \<Rightarrow> bool" where
  "attempt_row a h r \<longleftrightarrow>
     rm_appointment r = Some (ap_id a) \<and> rm_type r = REMIND_APPOINTMENT \<and> rm_stage r = STAGE_HOURS h
     \<and> rm_scheduled_at r = due_instant a h \<and> rm_garage r = ap_garage a"

lemma record_and_send_appointment_effect:
  assumes "record_and_send_appointment cf c a h (due_instant a h) channel now w = (Inr r, w')"
  shows "grew [r] w w'" "attempt_row a h r"
proof -
  from assms obtain w1 where "w' = on_book (add_reminder r) w1" "grew [] w w1" and row: "attempt_row a h r"
    by (auto simp: record_and_send_appointment_def Let_def andthen_Inr attempt_row_def dest: deliver_appointment_grew
        split: option.splits)
  then show "grew [r] w w'" by (simp add: grew_def add_reminder_def)
  show "attempt_row a h r" by (rule row)
qed

definition due_hours :: "outreach \<Rightarrow> instant \<Rightarrow> appointment \<Rightarrow> reminder_timing list \<Rightarrow> int list" where
  "due_hours s now a ts =
     map rt_hours (filter (\<lambda>t. rt_enabled t \<and> due_instant a (rt_hours t) \<le> now
        \<and> \<not> already_sent s (ap_id a) (rt_hours t) (due_instant a (rt_hours t))) ts)"

definition due_timings :: "db \<Rightarrow> outreach \<Rightarrow> instant \<Rightarrow> appointment \<Rightarrow> int list" where
  "due_timings d s now a =
     (let rs = resolve_reminder_settings s (ap_garage a)
      in if \<not> rs_enabled rs \<or> row_find cu_id (ap_customer a) (db_customers d) = None then []
         else due_hours s now a (rs_timings rs))"

lemma already_sent_grew:
  "grew rs w w' \<Longrightarrow> already_sent (wd_book w') i h t \<longleftrightarrow>
    already_sent (wd_book w) i h t \<or> list_ex (\<lambda>r. rm_appointment r = Some i \<and> rm_type r = REMIND_APPOINTMENT
        \<and> rm_stage r = STAGE_HOURS h \<and> rm_scheduled_at r = t \<and> counts_as_sent r) rs"
  by (simp add: already_sent_def grew_def)

lemma due_hours_other:
  assumes "grew rs w w'" "\<And>r t. r \<in> set rs \<Longrightarrow> t \<in> set ts \<Longrightarrow> rm_appointment r \<noteq> Some (ap_id a) \<or> rm_stage r \<noteq> STAGE_HOURS (rt_hours t)"
  shows "due_hours (wd_book w') now a ts = due_hours (wd_book w) now a ts"
  using assms unfolding due_hours_def
  by (intro arg_cong [of _ _ "map rt_hours"] filter_cong refl) (auto simp: already_sent_grew list_ex_iff)

lemma already_sent_new:
  assumes "grew [r] w w1" "attempt_row a h r" "\<not> already_sent (wd_book w) (ap_id a) h (due_instant a h)"
    and "grew rest w1 w'" "list_all (\<lambda>r'. rm_stage r' \<noteq> STAGE_HOURS h) rest"
  shows "already_sent (wd_book w') (ap_id a) h (due_instant a h) \<longleftrightarrow> counts_as_sent r"
  using assms by (auto simp: already_sent_grew attempt_row_def list_ex_iff list_all_iff)

lemma send_timings_effect:
  assumes "send_timings cf c a rs now ts w = (Inr out, w')" "distinct (map rt_hours ts)"
  shows "grew out w w' \<and> map rm_stage out = map STAGE_HOURS (due_hours (wd_book w) now a ts)
    \<and> list_all (\<lambda>r. \<exists>h \<in> rt_hours ` set ts. attempt_row a h r) out
    \<and> map STAGE_HOURS (due_hours (wd_book w') now a ts) = map rm_stage (filter (\<lambda>r. \<not> counts_as_sent r) out)"
  using assms
proof (induction cf c a rs now ts w arbitrary: out w' rule: send_timings.induct)
  case (2 cf c a rs now t ts w)
  let ?go = "\<lambda>s. rt_enabled t \<and> due_instant a (rt_hours t) \<le> now
    \<and> \<not> already_sent s (ap_id a) (rt_hours t) (due_instant a (rt_hours t))"
  show ?case
  proof (cases "?go (wd_book w)")
    case True
    with "2.prems"(1) obtain channel r w1 rest where
      p: "pick_channel cf (wd_book w) (ap_garage a) c rs = Inr channel" and
      r: "record_and_send_appointment cf c a (rt_hours t) (due_instant a (rt_hours t)) channel now w = (Inr r, w1)" and
      s: "send_timings cf c a rs now ts w1 = (Inr rest, w')" and out: "out = r # rest"
      by (auto simp: andthen_Inr Let_def split: sum.splits if_splits)
    note e = record_and_send_appointment_effect [OF r]
    have same: "due_hours (wd_book w1) now a ts = due_hours (wd_book w) now a ts"
      using e "2.prems"(2) by (intro due_hours_other [of "[r]"]) (auto simp: attempt_row_def)
    from True "2.IH"(4) [OF _ _ _ _ p r s] "2.prems"(2) have IH: "grew rest w1 w'"
      "map rm_stage rest = map STAGE_HOURS (due_hours (wd_book w1) now a ts)"
      "list_all (\<lambda>r. \<exists>h \<in> rt_hours ` set ts. attempt_row a h r) rest"
      "map STAGE_HOURS (due_hours (wd_book w') now a ts) = map rm_stage (filter (\<lambda>r. \<not> counts_as_sent r) rest)"
      by auto
    have "rt_hours t \<notin> rt_hours ` set ts" using "2.prems"(2) by simp
    with IH(3) have "list_all (\<lambda>r'. rm_stage r' \<noteq> STAGE_HOURS (rt_hours t)) rest"
      unfolding list_all_iff attempt_row_def by (metis reminder_stage.inject)
    from already_sent_new [OF e _ IH(1) this] True
    have "already_sent (wd_book w') (ap_id a) (rt_hours t) (due_instant a (rt_hours t)) \<longleftrightarrow> counts_as_sent r" by simp
    with True e same IH grew_trans [OF e(1), of rest w'] show ?thesis
      by (auto simp: out due_hours_def attempt_row_def list_all_iff)
  next
    case False
    with "2.prems"(1) have s: "send_timings cf c a rs now ts w = (Inr out, w')" by (auto simp: Let_def split: if_splits)
    have IH: "grew out w w' \<and> map rm_stage out = map STAGE_HOURS (due_hours (wd_book w) now a ts)
      \<and> list_all (\<lambda>r. \<exists>h \<in> rt_hours ` set ts. attempt_row a h r) out
      \<and> map STAGE_HOURS (due_hours (wd_book w') now a ts) = map rm_stage (filter (\<lambda>r. \<not> counts_as_sent r) out)"
      using False s "2.IH"(1-3) "2.prems"(2) by (cases "rt_enabled t"; cases "now < due_instant a (rt_hours t)") auto
    with False have "\<not> ?go (wd_book w')" by (auto simp: already_sent_grew)
    with False IH show ?thesis by (auto simp: due_hours_def list_all_iff)
  qed
qed (simp add: due_hours_def)

text \<open>The database keeps the lead times of a business apart.\<close>

definition lead_times_unique :: "outreach \<Rightarrow> bool" where
  "lead_times_unique s \<longleftrightarrow> list_all (\<lambda>r. distinct (map rt_hours (rs_timings r))) (or_plans s)"

lemma resolved_hours_distinct:
  "lead_times_unique s \<Longrightarrow> distinct (map rt_hours (rs_timings (resolve_reminder_settings s g)))"
  by (auto simp: resolve_reminder_settings_def reminder_settings_row_def lead_times_unique_def list_all_iff
      default_reminder_settings_def default_timings_def distinct_map dest!: find_SomeD split: option.split)

lemma resolve_reminder_grew:
  "grew rs w w' \<Longrightarrow> resolve_reminder_settings (wd_book w') g = resolve_reminder_settings (wd_book w) g"
  by (simp add: grew_def resolve_reminder_settings_def reminder_settings_row_def)

lemma lead_times_grew: "grew rs w w' \<Longrightarrow> lead_times_unique (wd_book w') \<longleftrightarrow> lead_times_unique (wd_book w)"
  by (simp add: grew_def lead_times_unique_def)

lemma send_for_appointment_effect:
  assumes "send_for_appointment cf d now a w = (Inr out, w')" "lead_times_unique (wd_book w)"
  shows "grew out w w' \<and> map rm_stage out = map STAGE_HOURS (due_timings d (wd_book w) now a)
    \<and> list_all (\<lambda>r. \<exists>h. attempt_row a h r) out
    \<and> map STAGE_HOURS (due_timings d (wd_book w') now a) = map rm_stage (filter (\<lambda>r. \<not> counts_as_sent r) out)"
proof -
  let ?rs = "resolve_reminder_settings (wd_book w) (ap_garage a)"
  show ?thesis
  proof (cases "rs_enabled ?rs")
    case enabled: True
    show ?thesis
    proof (cases "row_find cu_id (ap_customer a) (db_customers d)")
      case (Some c)
      with assms(1) enabled have "send_timings cf c a ?rs now (rs_timings ?rs) w = (Inr out, w')"
        by (simp add: send_for_appointment_def Let_def)
      from send_timings_effect [OF this resolved_hours_distinct [OF assms(2)]] enabled Some show ?thesis
        by (auto simp: due_timings_def list_all_iff resolve_reminder_grew Let_def)
    qed (use assms enabled in \<open>auto simp: send_for_appointment_def due_timings_def Let_def resolve_reminder_grew\<close>)
  qed (use assms in \<open>auto simp: send_for_appointment_def due_timings_def Let_def resolve_reminder_grew\<close>)
qed

lemma due_timings_other:
  assumes "grew rs w w'" "list_all (\<lambda>r. rm_appointment r \<noteq> Some (ap_id a)) rs"
  shows "due_timings d (wd_book w') now a = due_timings d (wd_book w) now a"
  using assms due_hours_other [OF assms(1), of _ a]
  by (simp add: due_timings_def resolve_reminder_grew list_all_iff Let_def)

definition attempt_key :: "reminder \<Rightarrow> uid option \<times> reminder_stage" where
  "attempt_key r = (rm_appointment r, rm_stage r)"

definition due_keys :: "db \<Rightarrow> outreach \<Rightarrow> instant \<Rightarrow> appointment list \<Rightarrow> (uid option \<times> reminder_stage) list" where
  "due_keys d s now as = concat (map (\<lambda>a. map (\<lambda>h. (Some (ap_id a), STAGE_HOURS h)) (due_timings d s now a)) as)"

lemma attempt_keys:
  assumes "list_all (\<lambda>r. \<exists>h. attempt_row a h r) out" "map rm_stage out = map STAGE_HOURS hs"
  shows "map attempt_key out = map (\<lambda>h. (Some (ap_id a), STAGE_HOURS h)) hs"
proof -
  from assms(1) have "map attempt_key out = map (Pair (Some (ap_id a))) (map rm_stage out)"
    by (auto simp: attempt_key_def attempt_row_def list_all_iff)
  with assms(2) show ?thesis by simp
qed

lemma send_appointments_effect:
  assumes "send_appointments cf d now as w = (Inr out, w')" "distinct (map ap_id as)" "lead_times_unique (wd_book w)"
  shows "grew out w w' \<and> map attempt_key out = due_keys d (wd_book w) now as
    \<and> list_all (\<lambda>r. \<exists>a \<in> set as. \<exists>h. attempt_row a h r) out
    \<and> due_keys d (wd_book w') now as = map attempt_key (filter (\<lambda>r. \<not> counts_as_sent r) out)"
  using assms
proof (induction as arbitrary: w out)
  case (Cons a as)
  from Cons.prems(1) obtain out1 w1 out2 where
    a: "send_for_appointment cf d now a w = (Inr out1, w1)" and b: "send_appointments cf d now as w1 = (Inr out2, w')"
    and out: "out = out1 @ out2" by (auto simp: andthen_Inr)
  from send_for_appointment_effect [OF a Cons.prems(3)] have ea: "grew out1 w w1"
    "map rm_stage out1 = map STAGE_HOURS (due_timings d (wd_book w) now a)" "list_all (\<lambda>r. \<exists>h. attempt_row a h r) out1"
    "map STAGE_HOURS (due_timings d (wd_book w1) now a) = map rm_stage (filter (\<lambda>r. \<not> counts_as_sent r) out1)" by auto
  from Cons.IH [OF b] Cons.prems(2,3) lead_times_grew [OF ea(1)] have eb: "grew out2 w1 w'"
    "map attempt_key out2 = due_keys d (wd_book w1) now as" "list_all (\<lambda>r. \<exists>a \<in> set as. \<exists>h. attempt_row a h r) out2"
    "due_keys d (wd_book w') now as = map attempt_key (filter (\<lambda>r. \<not> counts_as_sent r) out2)" by auto
  have "due_timings d (wd_book w1) now b = due_timings d (wd_book w) now b" if "b \<in> set as" for b
    using ea(1,3) that Cons.prems(2) by (intro due_timings_other) (auto simp: list_all_iff attempt_row_def)
  then have same: "due_keys d (wd_book w1) now as = due_keys d (wd_book w) now as"
    unfolding due_keys_def by (intro arg_cong [of _ _ concat] map_cong) auto
  have "ap_id a \<notin> ap_id ` set as" using Cons.prems(2) by simp
  with eb(3) have "list_all (\<lambda>r. rm_appointment r \<noteq> Some (ap_id a)) out2"
    unfolding list_all_iff attempt_row_def by (metis image_eqI option.inject)
  note own = due_timings_other [OF eb(1) this]
  have failed: "list_all (\<lambda>r. \<exists>h. attempt_row a h r) (filter (\<lambda>r. \<not> counts_as_sent r) out1)"
    using ea(3) by (auto simp: list_all_iff)
  from attempt_keys [OF ea(3,2)] attempt_keys [OF failed ea(4) [symmetric]] own same eb ea(3) grew_trans [OF ea(1) eb(1)]
  show ?case by (auto simp: out due_keys_def list_all_iff)
qed (simp add: due_keys_def)

end
