(* ===== verification/Reminder_Promises.thy ===== *)
theory Reminder_Promises
  imports Appointment_Reminders "HOL-Library.Transitive_Closure_Table"
begin

text \<open>
  What the reminders promise: each is sent once for its MOT or its appointment time, whatever runs,
  manual sends and settings come in between; a run sends exactly what is due; the staff page shows what
  the worker will do. The locale \<open>outreach_keeper\<close> holds what every sender keeps, interpreted on the
  invariant of the reminders.
\<close>

subsection \<open>What every sender keeps\<close>

text \<open>A property of the committed tables and of the ones of the open transaction.\<close>

definition both :: "(outreach \<Rightarrow> bool) \<Rightarrow> world \<Rightarrow> bool" where
  "both P w \<longleftrightarrow> P (wd_saved w) \<and> P (wd_book w)"

lemma both_commit [simp]: "both P w \<Longrightarrow> both P (commit w)"
  by (simp add: both_def)

lemma both_rollback [simp]: "both P w \<Longrightarrow> both P (rollback w)"
  by (simp add: both_def)

locale outreach_keeper =
  fixes keeps :: "outreach \<Rightarrow> bool"
  assumes reminders_only: "or_reminders s' = or_reminders s \<Longrightarrow> keeps s \<Longrightarrow> keeps s'"
begin

lemma both_on_book:
  "both keeps w \<Longrightarrow> or_reminders (f (wd_book w)) = or_reminders (wd_book w) \<Longrightarrow> both keeps (on_book f w)"
  by (auto simp: both_def intro: reminders_only)

lemma both_sender: "both keeps w \<Longrightarrow> sender_effect r w w' \<Longrightarrow> both keeps w'"
  by (auto simp: both_def sender_effect_def intro: reminders_only split: sum.splits if_splits)

lemma both_sms: "both keeps w \<Longrightarrow> send_sms_message cf g to body rel trigger w = (r, w') \<Longrightarrow> both keeps w'"
  by (blast intro: both_sender send_sms_effect)

lemma both_whatsapp: "both keeps w \<Longrightarrow> send_whatsapp_message cf g to body rel trigger w = (r, w') \<Longrightarrow> both keeps w'"
  by (blast intro: both_sender send_whatsapp_effect)

lemma both_email: "both keeps w \<Longrightarrow> send_email cf m w = (r, w') \<Longrightarrow> both keeps w'"
  by (auto dest!: send_email_effect simp: both_def split: sum.splits)

lemma both_deliver: "both keeps w \<Longrightarrow> deliver_reminder cf c v channel w = (r, w') \<Longrightarrow> both keeps w'"
  by (auto simp: deliver_reminder_def andthen_def dest: both_email split: if_splits prod.splits sum.splits)

lemma both_handler: "both keeps w \<Longrightarrow> handle_mot_reminder_due cf c v w = (r, w') \<Longrightarrow> both keeps w'"
  by (auto simp: handle_mot_reminder_due_def dest: both_sms
      split: if_splits prod.splits sum.splits failure.splits)

lemma both_deliver_appointment:
  "both keeps w \<Longrightarrow> deliver_appointment_reminder cf c a channel w = (r, w') \<Longrightarrow> both keeps w'"
  by (auto simp: deliver_appointment_reminder_def andthen_def Let_def
      dest: both_email both_sms both_whatsapp split: if_splits prod.splits sum.splits)

lemma both_add:
  "both keeps w \<Longrightarrow> keeps (add_reminder r (wd_book w)) \<Longrightarrow> both keeps (on_book (add_reminder r) w)"
  by (simp add: both_def)

end

subsection \<open>A reminder is sent once\<close>

text \<open>
  The cycle a reminder belongs to: the vehicle and its expiry date, or the appointment and the instant
  the reminder is due at. A manual reminder belongs to none.
\<close>

definition counted :: "reminder \<Rightarrow> bool" where
  "counted r \<longleftrightarrow> counts_as_sent r \<and> (rm_type r = REMIND_MOT \<longrightarrow> rm_stage r \<in> set automatic_stages)"

definition cycle_key :: "reminder \<Rightarrow> reminder_type \<times> uid option \<times> date option \<times> instant \<times> reminder_stage" where
  "cycle_key r =
     (case rm_type r of
        REMIND_MOT \<Rightarrow> (REMIND_MOT, rm_vehicle r, rm_mot_expiry r, 0, rm_stage r)
      | REMIND_APPOINTMENT \<Rightarrow> (REMIND_APPOINTMENT, rm_appointment r, None, rm_scheduled_at r, rm_stage r))"

definition sent_once :: "outreach \<Rightarrow> bool" where
  "sent_once s \<longleftrightarrow> distinct (map cycle_key (filter counted (or_reminders s)))"

interpretation once: outreach_keeper sent_once
  by unfold_locales (simp add: sent_once_def)

lemma sent_once_add:
  "sent_once s \<Longrightarrow> (counted r \<Longrightarrow> cycle_key r \<notin> cycle_key ` set (filter counted (or_reminders s)))
    \<Longrightarrow> sent_once (add_reminder r s)"
  by (simp add: sent_once_def add_reminder_def)

lemma mot_key_fresh:
  assumes "rm_type r = REMIND_MOT" "rm_vehicle r = Some vid" "rm_mot_expiry r = Some e"
    and "rm_stage r \<notin> set (sent_stages s vid e)"
  shows "cycle_key r \<notin> cycle_key ` set (filter counted (or_reminders s))"
proof
  assume "cycle_key r \<in> cycle_key ` set (filter counted (or_reminders s))"
  then obtain r' where r': "r' \<in> set (or_reminders s)" "counted r'" "cycle_key r = cycle_key r'" by auto
  with assms(1-3) have "rm_type r' = REMIND_MOT" "rm_vehicle r' = Some vid" "rm_mot_expiry r' = Some e"
    "rm_stage r' = rm_stage r"
    by (auto simp: cycle_key_def split: reminder_type.splits)
  with r' have "rm_stage r' \<in> set (sent_stages s vid e)"
    unfolding sent_stages_def set_map set_filter counted_def by blast
  with \<open>rm_stage r' = rm_stage r\<close> have "rm_stage r \<in> set (sent_stages s vid e)" by simp
  with assms(4) show False ..
qed

lemma appointment_key_fresh:
  assumes "rm_type r = REMIND_APPOINTMENT" "rm_appointment r = Some i" "rm_stage r = STAGE_HOURS h"
    and "\<not> already_sent s i h (rm_scheduled_at r)"
  shows "cycle_key r \<notin> cycle_key ` set (filter counted (or_reminders s))"
proof
  assume "cycle_key r \<in> cycle_key ` set (filter counted (or_reminders s))"
  then obtain r' where r': "r' \<in> set (or_reminders s)" "counted r'" "cycle_key r = cycle_key r'" by auto
  with assms(1-3) have "rm_type r' = REMIND_APPOINTMENT" "rm_appointment r' = Some i"
    "rm_stage r' = STAGE_HOURS h" "rm_scheduled_at r' = rm_scheduled_at r"
    by (auto simp: cycle_key_def split: reminder_type.splits)
  with r' have "already_sent s i h (rm_scheduled_at r)"
    by (auto simp: already_sent_def list_ex_iff counted_def)
  with assms(4) show False ..
qed

lemma record_and_send_once:
  assumes "both sent_once w" "record_and_send cf v c k trigger expiry channel initiator now w = (res, w')"
    and "k \<in> set automatic_stages \<Longrightarrow> \<exists>e. expiry = Some e \<and> k \<notin> set (sent_stages (wd_book w) (ve_id v) e)"
  shows "both sent_once w'"
proof -
  let ?channel = "if has_text channel then the channel else ''email''"
  obtain res1 w1 where d: "deliver_reminder cf c v ?channel w = (res1, w1)" by fastforce
  note w1 = once.both_deliver [OF assms(1) d]
  show ?thesis
  proof (cases res1)
    case (Inl e)
    with d assms(2) w1 show ?thesis by (simp add: record_and_send_def Let_def)
  next
    case (Inr status)
    from deliver_reminder_effect [OF d [unfolded Inr]] have same: "wd_book w1 = wd_book w" by simp
    let ?r = "mot_row v c k trigger expiry ?channel initiator now status (or_next (wd_book w1))"
    from Inr d assms(2) obtain res2 where h: "handle_mot_reminder_due cf c v (on_book (add_reminder ?r) w1) = (res2, w')"
      by (cases "handle_mot_reminder_due cf c v (on_book (add_reminder ?r) w1)")
        (auto simp: record_and_send_def Let_def andthen_def split: sum.splits)
    obtain r where r_def: "r = ?r" by simp
    then have r: "rm_type r = REMIND_MOT" "rm_vehicle r = Some (ve_id v)" "rm_mot_expiry r = expiry" "rm_stage r = k"
      by (simp_all add: mot_row_def)
    note h = h [folded r_def]
    have "cycle_key r \<notin> cycle_key ` set (filter counted (or_reminders (wd_book w)))" if "counted r"
      using that r assms(3) mot_key_fresh [of r "ve_id v"] by (auto simp: counted_def)
    with assms(1) have "sent_once (add_reminder r (wd_book w))" by (auto intro: sent_once_add simp: both_def)
    with w1 same have "both sent_once (on_book (add_reminder r) w1)" by (auto intro: once.both_add)
    from once.both_handler [OF this h] show ?thesis .
  qed
qed

lemma sent_stages_after:
  assumes "record_and_send cf v c k AUTOMATIC (Some e) None None now w = (Inr r, w1)"
    and "set (sent_stages (wd_book w) (ve_id v) e) \<subseteq> set already"
  shows "set (sent_stages (wd_book w1) (ve_id v) e) \<subseteq> set (k # already)"
  using assms(2) record_and_send_effect [OF assms(1)] by (auto simp: sent_stages_grew reminder_for_def)

lemma send_stages_once:
  assumes "both sent_once w" "send_stages cf v c e now already stages w = (res, w')"
    and "set (sent_stages (wd_book w) (ve_id v) e) \<subseteq> set already"
  shows "both sent_once w'"
  using assms
proof (induction cf v c e now already stages w arbitrary: res w' rule: send_stages.induct)
  case (2 cf v c e now already k n stages w)
  show ?case
  proof (cases "k \<notin> set already \<and> e - n \<le> utc_date now")
    case True
    obtain res1 w1 where r: "record_and_send cf v c k AUTOMATIC (Some e) None None now w = (res1, w1)" by fastforce
    have w1: "both sent_once w1" using record_and_send_once [OF "2.prems"(1) r] True "2.prems"(3) by auto
    show ?thesis
    proof (cases res1)
      case (Inl x)
      with True r "2.prems"(2) w1 show ?thesis by simp
    next
      case (Inr x)
      obtain res2 w2 where s: "send_stages cf v c e now (k # already) stages w1 = (res2, w2)" by fastforce
      from True r Inr s "2.prems"(2) have "w' = w2" by (cases res2) auto
      moreover have "both sent_once w2"
        using True "2.IH"(2) [OF _ _ r [unfolded Inr] w1 s] sent_stages_after [OF r [unfolded Inr] "2.prems"(3)] by auto
      ultimately show ?thesis by simp
    qed
  next
    case False
    with "2.prems" "2.IH"(1,3) show ?thesis by (auto split: if_splits)
  qed
qed auto

text \<open>A step followed by a step, each of which keeps a property.\<close>

lemma andthen_keeps:
  assumes "andthen r k = (res, w')" "\<And>x w1. r = (x, w1) \<Longrightarrow> both P w1"
    and "\<And>x w1 res' w2. r = (Inr x, w1) \<Longrightarrow> both P w1 \<Longrightarrow> k x w1 = (res', w2) \<Longrightarrow> both P w2"
  shows "both P w'"
  using assms by (cases r; cases "fst r") (auto simp: andthen_def)

lemma send_for_vehicle_once:
  "both sent_once w \<Longrightarrow> send_for_vehicle cf d now v w = (res, w') \<Longrightarrow> both sent_once w'"
  by (auto simp: send_for_vehicle_def intro: send_stages_once split: option.splits if_splits)

lemma send_vehicles_once:
  "both sent_once w \<Longrightarrow> send_vehicles cf d now vs w = (res, w') \<Longrightarrow> both sent_once w'"
proof (induction vs arbitrary: w res w')
  case (Cons v vs)
  from Cons.prems(2) show ?case unfolding send_vehicles.simps
    by (rule andthen_keeps)
      (use Cons in \<open>auto intro: send_for_vehicle_once elim!: andthen_keeps\<close>)
qed simp

lemma mot_run_once:
  "both sent_once w \<Longrightarrow> send_due_automatic_reminders cf d g now w = (res, w') \<Longrightarrow> both sent_once w'"
  by (auto simp: send_due_automatic_reminders_def dest: send_vehicles_once split: prod.splits sum.splits if_splits)

lemma record_appointment_once:
  assumes "both sent_once w" "\<not> already_sent (wd_book w) (ap_id a) h (due_instant a h)"
    and "record_and_send_appointment cf c a h (due_instant a h) channel now w = (res, w')"
  shows "both sent_once w'"
proof -
  let ?send = "case channel of None \<Rightarrow> (Inr (R_SKIPPED, None), w) | Some ch \<Rightarrow> deliver_appointment_reminder cf c a ch w"
  obtain res1 w1 where d: "?send = (res1, w1)" by fastforce
  with assms(1) have w1: "both sent_once w1" by (auto dest: once.both_deliver_appointment split: option.splits)
  show ?thesis
  proof (cases res1)
    case (Inl e)
    with d assms(3) w1 show ?thesis by (simp add: record_and_send_appointment_def)
  next
    case (Inr x)
    with d have "grew [] w w1" by (auto dest: deliver_appointment_grew split: option.splits)
    then have same: "or_reminders (wd_book w1) = or_reminders (wd_book w)" by (simp add: grew_def)
    from Inr d assms(3) obtain r where w': "w' = on_book (add_reminder r) w1"
      and r: "rm_type r = REMIND_APPOINTMENT" "rm_appointment r = Some (ap_id a)" "rm_stage r = STAGE_HOURS h"
        "rm_scheduled_at r = due_instant a h"
      by (cases x) (auto simp: record_and_send_appointment_def Let_def)
    from appointment_key_fresh [OF r(1-3), of "wd_book w"] r(4) assms(2) same
    have "cycle_key r \<notin> cycle_key ` set (filter counted (or_reminders (wd_book w1)))" by simp
    with w1 show ?thesis unfolding w' by (auto intro!: once.both_add sent_once_add simp: both_def)
  qed
qed

lemma send_timings_once:
  assumes "both sent_once w" "send_timings cf c a rs now ts w = (res, w')"
  shows "both sent_once w'"
  using assms
proof (induction cf c a rs now ts w arbitrary: res w' rule: send_timings.induct)
  case (2 cf c a rs now t ts w)
  show ?case
  proof (cases "rt_enabled t \<and> due_instant a (rt_hours t) \<le> now
      \<and> \<not> already_sent (wd_book w) (ap_id a) (rt_hours t) (due_instant a (rt_hours t))")
    case True
    show ?thesis
    proof (cases "pick_channel cf (wd_book w) (ap_garage a) c rs")
      case (Inl e)
      with True "2.prems" show ?thesis by (simp add: Let_def)
    next
      case (Inr channel)
      let ?rec = "record_and_send_appointment cf c a (rt_hours t) (due_instant a (rt_hours t)) channel now w"
      from True Inr "2.prems"(2) have "andthen ?rec (\<lambda>r w1.
          andthen (send_timings cf c a rs now ts w1) (\<lambda>rest w2. (Inr (r # rest), w2))) = (res, w')"
        by (simp add: Let_def)
      then show ?thesis
        by (rule andthen_keeps)
          (use True "2.prems"(1) "2.IH"(4) [OF _ _ _ _ Inr] in
            \<open>auto intro: record_appointment_once elim!: andthen_keeps\<close>)
    qed
  next
    case False
    with "2.prems" "2.IH"(1-3) show ?thesis by (auto simp: Let_def split: if_splits)
  qed
qed simp

lemma send_for_appointment_once:
  "both sent_once w \<Longrightarrow> send_for_appointment cf d now a w = (res, w') \<Longrightarrow> both sent_once w'"
  by (auto simp: send_for_appointment_def Let_def dest: send_timings_once split: option.splits if_splits)

lemma send_appointments_once:
  "both sent_once w \<Longrightarrow> send_appointments cf d now as w = (res, w') \<Longrightarrow> both sent_once w'"
proof (induction as arbitrary: w res w')
  case (Cons a as)
  from Cons.prems(2) show ?case unfolding send_appointments.simps
    by (rule andthen_keeps)
      (use Cons in \<open>auto intro: send_for_appointment_once elim!: andthen_keeps\<close>)
qed simp

lemma appointment_run_once:
  "both sent_once w \<Longrightarrow> send_due_appointment_reminders cf d g now w = (res, w') \<Longrightarrow> both sent_once w'"
  by (auto simp: send_due_appointment_reminders_def dest: send_appointments_once split: prod.splits sum.splits if_splits)

lemma record_manual_once:
  "both sent_once w \<Longrightarrow> record_and_send cf v c STAGE_MANUAL trigger expiry channel e now w = (res, w') \<Longrightarrow> both sent_once w'"
  by (rule record_and_send_once) (auto simp: automatic_stages_def)

lemma manual_once:
  assumes "both sent_once w" "send_manual_reminder cf d g e v data now w = Inr (res, w')"
  shows "both sent_once w'"
proof -
  from assms(2) obtain u c where
    "(case record_and_send cf u c STAGE_MANUAL MANUAL (ve_mot_expiry u) (mr_channel data) (Some e) now w of
       (Inl e, w') \<Rightarrow> (Inl e, rollback w') | (Inr r, w') \<Rightarrow> (Inr r, commit w')) = (res, w')"
    unfolding send_manual_reminder_def by (auto split: option.splits if_splits)
  moreover obtain res1 w1 where
    run: "record_and_send cf u c STAGE_MANUAL MANUAL (ve_mot_expiry u) (mr_channel data) (Some e) now w = (res1, w1)" by fastforce
  moreover have "both sent_once w1" by (rule record_manual_once [OF assms(1) run])
  ultimately show ?thesis by (cases res1) (auto intro!: both_commit both_rollback)
qed

lemma settings_once:
  "both sent_once w \<Longrightarrow> save_mot_schedule g q w = (res, w') \<Longrightarrow> both sent_once w'"
  "both sent_once w \<Longrightarrow> save_reminder_settings g b w = Inr (res', w') \<Longrightarrow> both sent_once w'"
  by (auto simp: save_mot_schedule_def save_reminder_settings_def Let_def both_def sent_once_def seed_mot_settings_def
      seed_reminder_settings_def split: if_splits)

subsection \<open>Histories\<close>

text \<open>
  Everything that happens to the reminders in a deployment: the two workers at any time on any state of
  the bookings, manual reminders, changes of the schedules, and the messages other parts send.
\<close>

inductive reminder_step :: "'n comm_config \<Rightarrow> world \<Rightarrow> world \<Rightarrow> bool" for cf where
  mot_run: "send_due_automatic_reminders cf d g now w = (r, w') \<Longrightarrow> reminder_step cf w w'"
| appointment_run: "send_due_appointment_reminders cf d g now w = (r', w') \<Longrightarrow> reminder_step cf w w'"
| manual: "send_manual_reminder cf d g' e v data now w = Inr (r'', w') \<Longrightarrow> reminder_step cf w w'"
| mot_schedule: "save_mot_schedule g' q w = (s, w') \<Longrightarrow> reminder_step cf w w'"
| settings: "save_reminder_settings g' b w = Inr (s', w') \<Longrightarrow> reminder_step cf w w'"
| text_message: "send_sms_message cf g' to body rel trigger w = (l, w') \<Longrightarrow> reminder_step cf w w'"
| whatsapp: "send_whatsapp_message cf g' to body rel trigger w = (l, w') \<Longrightarrow> reminder_step cf w w'"

lemma reminder_step_once: "reminder_step cf w w' \<Longrightarrow> both sent_once w \<Longrightarrow> both sent_once w'"
  by (induction rule: reminder_step.induct)
    (blast intro: mot_run_once appointment_run_once manual_once settings_once once.both_sms once.both_whatsapp)+

lemma reminder_history_once: "(reminder_step cf)\<^sup>*\<^sup>* w w' \<Longrightarrow> both sent_once w \<Longrightarrow> both sent_once w'"
  by (induction rule: rtranclp_induct) (auto intro: reminder_step_once)

lemma sent_once_at_most:
  assumes "sent_once s" "\<And>r. P r \<Longrightarrow> counted r" "\<And>r r'. P r \<Longrightarrow> P r' \<Longrightarrow> cycle_key r = cycle_key r'"
  shows "length (filter P (or_reminders s)) \<le> 1"
proof -
  have "filter P (filter counted (or_reminders s)) = filter P (or_reminders s)"
    unfolding filter_filter using assms(2) by (intro filter_cong) blast+
  moreover have "length (filter P (filter counted (or_reminders s))) \<le> 1"
    using assms(1,3) unfolding sent_once_def by (intro one_of_distinct)
  ultimately show ?thesis by simp
qed

subsection \<open>A concrete business\<close>

lemmas mot_eval = demo_fleet_defs eval_simps send_due_automatic_reminders_def vehicles_of_def send_for_vehicle_def
  utc_date_def mot_booking_active_for_def as_utc_bounds_def suppressing_statuses_def row_find_def sent_stages_def
  resolve_mot_settings_def mot_settings_row_def default_mot_settings_def stages_from_def stage_days_def
  record_and_send_def deliver_reminder_def handle_mot_reminder_due_def mot_row_def add_reminder_def send_email_def
  hand_over_def automatic_stages_def counts_as_sent_def Let_def

lemma demo_mot_run:
  "map rm_stage (case fst (send_due_automatic_reminders demo_config (demo_fleet [5]) None (35 * day_us) demo_world) of
      Inl _ \<Rightarrow> [] | Inr rs \<Rightarrow> rs) = [STAGE_1, STAGE_2]"
  by (simp add: mot_eval)

lemmas appointment_eval = mot_eval send_due_appointment_reminders_def remindable_def send_for_appointment_def
  resolve_reminder_settings_def reminder_settings_row_def due_instant_def already_sent_def pick_channel_def
  available_channels_def reaches_def valid_channels_def record_and_send_appointment_def deliver_appointment_reminder_def
  get_sms_provider_def get_messaging_provider_def provider_name_def sms_configuration_error_def
  messaging_configuration_error_def needs_def twilio_configuration_error_def is_twilio_configured_def
  garage_communications_enabled_def settings_of_def

text \<open>The business with its appointment reminders switched on, a day and two hours ahead.\<close>

definition demo_plan :: reminder_settings where
  "demo_plan = \<lparr>rs_garage = 1, rs_enabled = True, rs_channels = [''sms'', ''email''], rs_timings = default_timings\<rparr>"

definition demo_reminding :: world where
  "demo_reminding = on_book (\<lambda>s. s\<lparr>or_plans := [demo_plan]\<rparr>) demo_world"

lemma demo_appointment_run:
  "map rm_stage (case fst (send_due_appointment_reminders demo_config (demo_fleet []) None (80 * hour_us) demo_reminding) of
      Inl _ \<Rightarrow> [] | Inr rs \<Rightarrow> rs) = [STAGE_HOURS 24]"
  by (simp add: demo_reminding_def demo_plan_def default_timings_def appointment_eval)

subsection \<open>Properties\<close>

text \<open>
  C19: The reminder log counts every cycle once. Whatever happens in a deployment, in any order and at any
  time, also when runs die half way, at most one row of the table says that a stage of the MOT schedule was
  sent or skipped for a vehicle and an expiry date, and at most one that an appointment reminder was for an
  appointment, a lead time and the instant it is due. This is about the rows. The e-mails follow them only
  for runs that end: a run that dies is rolled back, its rows are gone, and the next one mails the same customers again
  (failed_run_mails_again).
\<close>

theorem reminder_once_per_cycle:
  assumes "(reminder_step cf)\<^sup>*\<^sup>* w w'" "or_reminders (wd_saved w) = []" "or_reminders (wd_book w) = []"
    and "k \<in> set automatic_stages"
  shows "length (filter (\<lambda>r. rm_type r = REMIND_MOT \<and> rm_vehicle r = Some v \<and> rm_mot_expiry r = Some e
        \<and> rm_stage r = k \<and> counts_as_sent r) (or_reminders (wd_book w'))) \<le> 1
    \<and> length (filter (\<lambda>r. rm_type r = REMIND_APPOINTMENT \<and> rm_appointment r = Some a \<and> rm_stage r = STAGE_HOURS h
        \<and> rm_scheduled_at r = t \<and> counts_as_sent r) (or_reminders (wd_book w'))) \<le> 1"
proof -
  from assms(2,3) have "both sent_once w" by (simp add: both_def sent_once_def)
  from reminder_history_once [OF assms(1) this] have "sent_once (wd_book w')" by (simp add: both_def)
  note one = sent_once_at_most [OF this]
  show ?thesis using assms(4) by (intro conjI one) (auto simp: counted_def cycle_key_def)
qed

theorem reminder_once_per_cycle_witness:
  "length (filter (\<lambda>r. rm_type r = REMIND_MOT \<and> rm_vehicle r = Some 5 \<and> rm_mot_expiry r = Some 40
        \<and> rm_stage r = STAGE_1 \<and> counts_as_sent r)
      (or_reminders (wd_book (snd (send_due_automatic_reminders demo_config (demo_fleet [5]) None (35 * day_us) demo_world))))) \<le> 1"
proof -
  have "(reminder_step demo_config)\<^sup>*\<^sup>* demo_world
      (snd (send_due_automatic_reminders demo_config (demo_fleet [5]) None (35 * day_us) demo_world))"
    by (rule r_into_rtranclp, rule reminder_step.mot_run, rule prod.collapse [symmetric])
  moreover have "or_reminders (wd_saved demo_world) = []" "or_reminders (wd_book demo_world) = []" "STAGE_1 \<in> set automatic_stages"
    by (simp_all add: demo_world_def demo_outreach_def automatic_stages_def)
  ultimately show ?thesis by (rule conjunct1 [OF reminder_once_per_cycle])
qed

text \<open>
  C20: A run of the MOT worker that does not raise sends exactly the stages that are due, vehicle by
  vehicle in the order of the schedule, records each of them, and leaves nothing due: running it again
  on the same day sends nothing and changes nothing.
\<close>

theorem mot_run_sends_what_is_due:
  assumes "send_due_automatic_reminders cf d g now w = (Inr created, w')" "distinct (map ve_id (db_vehicles d))"
    and "utc_date now' = utc_date now"
  shows "map (\<lambda>r. (rm_vehicle r, rm_stage r)) created
      = concat (map (\<lambda>v. map (\<lambda>k. (Some (ve_id v), k)) (due_stages d (wd_book w) now v)) (vehicles_of d g))
    \<and> or_reminders (wd_book w') = or_reminders (wd_book w) @ created
    \<and> send_due_automatic_reminders cf' d g now' w' = (Inr [], w')"
proof -
  from assms(1) obtain w1 where run: "send_vehicles cf d now (vehicles_of d g) w = (Inr created, w1)"
    and w': "wd_book w' = wd_book w1"
    by (auto simp: send_due_automatic_reminders_def split: prod.splits sum.splits if_splits)
  have "distinct (map ve_id (vehicles_of d g))"
    unfolding vehicles_of_def using assms(2) by (rule distinct_map_filter)
  note eff = send_vehicles_effect [OF run this, of now']
  from eff assms(3) have "list_all (\<lambda>v. due_stages d (wd_book w') now' v = []) (vehicles_of d g)" by (simp add: w')
  from send_vehicles_nothing [OF this, of cf'] have "send_due_automatic_reminders cf' d g now' w' = (Inr [], w')"
    by (simp add: send_due_automatic_reminders_def)
  moreover from eff have "or_reminders (wd_book w') = or_reminders (wd_book w) @ created" by (simp add: grew_def w')
  ultimately show ?thesis using eff by blast
qed

theorem mot_run_sends_what_is_due_witness:
  "\<exists>w'. send_due_automatic_reminders demo_config (demo_fleet [5]) None (36 * day_us - 1) w' = (Inr [], w')
    \<and> length (or_reminders (wd_book w')) = 2"
proof -
  let ?run = "send_due_automatic_reminders demo_config (demo_fleet [5]) None (35 * day_us) demo_world"
  obtain created w' where run: "?run = (Inr created, w')" and two: "length created = 2"
    by (simp add: mot_eval)
  have "distinct (map ve_id (db_vehicles (demo_fleet [5])))" "utc_date (36 * day_us - 1) = utc_date (35 * day_us)"
    by (simp_all add: demo_fleet_defs utc_date_def)
  note sent = mot_run_sends_what_is_due [OF run this, of demo_config]
  moreover have "or_reminders (wd_book demo_world) = []" by (simp add: demo_world_def demo_outreach_def)
  ultimately show ?thesis using two by auto
qed

text \<open>
  A run of the appointment worker that does not raise attempts exactly the enabled lead times that
  are due for booked, upcoming appointments that were not imported; a second run at the same moment
  attempts again exactly those whose delivery failed.
\<close>

theorem appointment_run_retries_only_failures:
  assumes "send_due_appointment_reminders cf d g now w = (Inr created, w')"
    and "distinct (map ap_id (db_appointments d))" "lead_times_unique (wd_book w)"
    and "send_due_appointment_reminders cf' d g now w' = (Inr again, w'')"
  shows "map attempt_key created = due_keys d (wd_book w) now (remindable d g now)
    \<and> map attempt_key again = map attempt_key (filter (\<lambda>r. \<not> counts_as_sent r) created)"
proof -
  have run: "\<exists>w2. send_appointments cf1 d now (remindable d g now) w1 = (Inr out, w2) \<and> wd_book w3 = wd_book w2"
    if "send_due_appointment_reminders cf1 d g now w1 = (Inr out, w3)" for cf1 w1 out w3
    using that by (auto simp: send_due_appointment_reminders_def split: prod.splits sum.splits if_splits)
  have ids: "distinct (map ap_id (remindable d g now))"
    unfolding remindable_def using assms(2) by (rule distinct_map_filter)
  from run [OF assms(1)] obtain w1 where w1: "send_appointments cf d now (remindable d g now) w = (Inr created, w1)"
    "wd_book w' = wd_book w1" by blast
  note eff = send_appointments_effect [OF w1(1) ids assms(3)]
  from eff have first: "map attempt_key created = due_keys d (wd_book w) now (remindable d g now)"
    "due_keys d (wd_book w') now (remindable d g now) = map attempt_key (filter (\<lambda>r. \<not> counts_as_sent r) created)"
    unfolding w1(2) by blast+
  from lead_times_grew [OF conjunct1 [OF eff]] assms(3) have unique: "lead_times_unique (wd_book w')" by (simp add: w1(2))
  from run [OF assms(4)] send_appointments_effect [OF _ ids unique]
  have "map attempt_key again = due_keys d (wd_book w') now (remindable d g now)" by blast
  with first show ?thesis by simp
qed

theorem appointment_run_retries_only_failures_witness:
  "fst (send_due_appointment_reminders demo_config (demo_fleet []) None (80 * hour_us)
     (snd (send_due_appointment_reminders demo_config (demo_fleet []) None (80 * hour_us) demo_reminding))) = Inr []"
proof -
  let ?run = "send_due_appointment_reminders demo_config (demo_fleet []) None (80 * hour_us)"
  obtain created w' where run: "?run demo_reminding = (Inr created, w')" and sent: "filter (\<lambda>r. \<not> counts_as_sent r) created = []"
    by (simp add: demo_reminding_def demo_plan_def default_timings_def appointment_eval)
  obtain res w'' where again: "?run w' = (res, w'')" by fastforce
  have "distinct (map ap_id (db_appointments (demo_fleet [])))" "lead_times_unique (wd_book demo_reminding)"
    by (simp_all add: demo_fleet_def lead_times_unique_def demo_reminding_def demo_plan_def default_timings_def)
  note retry = appointment_run_retries_only_failures [OF run this]
  have "\<exists>rs. res = Inr rs"
    using run again by (auto simp: demo_reminding_def demo_plan_def default_timings_def appointment_eval)
  with again obtain rs where rs: "?run w' = (Inr rs, w'')" and res: "res = Inr rs" by auto
  from retry [OF rs] sent have "rs = []" by simp
  with run again res show ?thesis by simp
qed

lemma set_stages_from: "set (stages_from m) = {(k, n) |k n. (k, True, n) \<in> set (stage_days m)}"
  by (auto simp: stages_from_def stage_days_def)

lemma cycle_stages_set:
  assumes "list_all (\<lambda>r. rm_vehicle r = Some i \<longrightarrow> rm_garage r = g) (or_reminders s)"
  shows "set (cycle_stages (Some e) (filter (\<lambda>r. rm_garage r = g \<and> rm_type r = REMIND_MOT \<and> rm_vehicle r = Some i) (or_reminders s)))
    = set (sent_stages s i e)"
  using assms unfolding cycle_stages_def sent_stages_def by (auto simp: list_all_iff)

lemma scheduled_views:
  assumes "ve_mot_expiry v = Some e"
  shows "sg_stage ` {x \<in> set (vw_stages (compute_reminder_state v m events booking today)).
      sg_state x = ST_SCHEDULED \<and> (\<exists>t. sg_scheduled_for x = Some t \<and> t \<le> today)}
    = {k. \<exists>n. (k, True, n) \<in> set (stage_days m) \<and> k \<notin> set (cycle_stages (Some e) events)
        \<and> \<not> booking \<and> today \<le> e \<and> e - n \<le> today}"
proof -
  have state: "stage_state_of sent b x (k, en, n) = ST_SCHEDULED \<longleftrightarrow> k \<notin> set sent \<and> en \<and> \<not> b \<and> \<not> x" for sent b x k en n
    by (simp add: stage_state_of_def)
  show ?thesis
    by (force simp: compute_reminder_state_def Let_def assms state image_iff)
qed

text \<open>
  C21: The staff page tells what the worker will do: for a vehicle whose customer exists, the stages it
  shows as scheduled for today or earlier are exactly the ones the worker sends now.
\<close>

theorem page_shows_what_the_worker_sends:
  assumes "ve_garage v = g" "row_find cu_id (ve_customer v) (db_customers d) \<noteq> None"
    and "list_all (\<lambda>r. rm_vehicle r = Some (ve_id v) \<longrightarrow> rm_garage r = g) (or_reminders s)"
  shows "set (due_stages d s now v)
    = sg_stage ` {x \<in> set (vw_stages (vehicle_row d s g now v)).
        sg_state x = ST_SCHEDULED \<and> (\<exists>t. sg_scheduled_for x = Some t \<and> t \<le> utc_date now)}"
proof (cases "ve_mot_expiry v")
  case None
  then show ?thesis
    by (auto simp: due_stages_def vehicle_row_def compute_reminder_state_def Let_def)
next
  case (Some e)
  have "set (due_stages d s now v) = {k. \<exists>n. (k, True, n) \<in> set (stage_days (resolve_mot_settings s g))
      \<and> k \<notin> set (sent_stages s (ve_id v) e)
      \<and> \<not> mot_booking_active_for d (ve_id v) g (ve_mot_expiry v) \<and> utc_date now \<le> e \<and> e - n \<le> utc_date now}"
    using assms(1,2) by (force simp: due_stages_def due_among_def set_stages_from Some)
  then show ?thesis
    unfolding vehicle_row_def scheduled_views [OF Some] cycle_stages_set [OF assms(3), of e] .
qed

theorem page_shows_what_the_worker_sends_witness:
  "set (due_stages (demo_fleet [5]) demo_outreach (35 * day_us) (demo_car 5))
    = sg_stage ` {x \<in> set (vw_stages (vehicle_row (demo_fleet [5]) demo_outreach 1 (35 * day_us) (demo_car 5))).
        sg_state x = ST_SCHEDULED \<and> (\<exists>t. sg_scheduled_for x = Some t \<and> t \<le> utc_date (35 * day_us))}
   \<and> STAGE_2 \<in> set (due_stages (demo_fleet [5]) demo_outreach (35 * day_us) (demo_car 5))"
proof
  show "set (due_stages (demo_fleet [5]) demo_outreach (35 * day_us) (demo_car 5))
    = sg_stage ` {x \<in> set (vw_stages (vehicle_row (demo_fleet [5]) demo_outreach 1 (35 * day_us) (demo_car 5))).
        sg_state x = ST_SCHEDULED \<and> (\<exists>t. sg_scheduled_for x = Some t \<and> t \<le> utc_date (35 * day_us))}"
    by (rule page_shows_what_the_worker_sends) (simp_all add: demo_fleet_defs demo_outreach_def row_find_def)
  show "STAGE_2 \<in> set (due_stages (demo_fleet [5]) demo_outreach (35 * day_us) (demo_car 5))"
    by (simp add: due_stages_def due_among_def mot_eval)
qed

lemma list_of_three: "length xs = 3 \<Longrightarrow> xs = [xs ! 0, xs ! 1, xs ! 2]"
  by (auto simp: length_Suc_conv numeral_3_eq_3 numeral_2_eq_2)

lemma trio_of_normalised: "trio_of (normalise_stage_order m) = sort_key (\<lambda>p. - snd p) (trio_of m)"
proof -
  let ?trio = "sort_key (\<lambda>p. - snd p) (trio_of m)"
  have "trio_of (normalise_stage_order m) = [?trio ! 0, ?trio ! 1, ?trio ! 2]"
    by (simp add: normalise_stage_order_def Let_def trio_of_def [of "_ :: mot_settings"])
  moreover have "length ?trio = 3" by (simp add: trio_of_def)
  ultimately show ?thesis using list_of_three by metis
qed

lemma ordered_schedule:
  assumes "sorted (map (\<lambda>p. - snd p) (trio_of m))" "\<not> duplicate_enabled (trio_of m)"
  shows "stages_from m = map (\<lambda>(k, _, n). (k, n)) (filter (\<lambda>(_, enabled, _). enabled) (stage_days m))"
    and "sorted_wrt (>) (map snd (stages_from m))"
proof -
  let ?l = "map (\<lambda>(k, _, n). (k, n)) (filter (\<lambda>(_, enabled, _). enabled) (stage_days m))"
  from assms have "sorted (map (\<lambda>p. - snd p) ?l)" and desc: "sorted_wrt (>) (map snd ?l)"
    by (auto simp: stage_days_def trio_of_def duplicate_enabled_def)
  then show *: "stages_from m = ?l" by (simp add: stages_from_def sort_key_id_if_sorted)
  with desc show "sorted_wrt (>) (map snd (stages_from m))" by simp
qed

lemma resolve_after_seed: "resolve_mot_settings (seed_mot_settings g s) g = resolve_mot_settings s g"
  by (auto simp: seed_mot_settings_def resolve_mot_settings_def mot_settings_row_def default_mot_settings_def find_snoc)

lemma row_after_seed: "mot_settings_row (seed_mot_settings g s) g \<noteq> None"
  by (auto simp: seed_mot_settings_def mot_settings_row_def default_mot_settings_def find_snoc)

lemma resolve_garage: "ms_garage (resolve_mot_settings s g) = g"
  by (auto simp: resolve_mot_settings_def mot_settings_row_def default_mot_settings_def dest: find_SomeD split: option.split)

lemma find_after_update:
  "find (\<lambda>x. key x = g) xs \<noteq> None \<Longrightarrow> key m = g
    \<Longrightarrow> find (\<lambda>x. key x = g) (map (\<lambda>x. if key x = g then m else x) xs) = Some m"
  by (induction xs) auto

text \<open>
  A schedule that was saved is a reordering of what the owner sent: the three stages hold the same
  intervals and switches, furthest out first, the enabled ones with strictly decreasing intervals, so
  that the worker goes through them in the order of their names; and it is the schedule in force.
\<close>

theorem saved_schedule_is_ordered:
  assumes "save_mot_schedule g q w = (Inr m, w')"
  shows "mset (trio_of m) = mset (trio_of (merge_schedule q (resolve_mot_settings (wd_book w) g)))
    \<and> stages_from m = map (\<lambda>(k, _, n). (k, n)) (filter (\<lambda>(_, enabled, _). enabled) (stage_days m))
    \<and> sorted_wrt (>) (map snd (stages_from m))
    \<and> resolve_mot_settings (wd_book w') g = m"
proof -
  let ?m0 = "merge_schedule q (resolve_mot_settings (wd_book w) g)"
  let ?w1 = "if mot_settings_row (wd_book w) g = None then commit (on_book (seed_mot_settings g) w) else w"
  have "resolve_mot_settings (wd_book ?w1) g = resolve_mot_settings (wd_book w) g" by (simp add: resolve_after_seed)
  with assms have m: "m = normalise_stage_order ?m0" "\<not> duplicate_enabled (trio_of m)"
    and w': "wd_book w' = (wd_book ?w1)\<lparr>or_mot := map (\<lambda>x. if ms_garage x = g then m else x) (or_mot (wd_book ?w1))\<rparr>"
    by (auto simp: save_mot_schedule_def Let_def split: if_splits)
  have "sorted (map (\<lambda>p. - snd p) (trio_of m))" by (simp add: m(1) trio_of_normalised)
  note ordered = ordered_schedule [OF this m(2)]
  have "mot_settings_row (wd_book ?w1) g \<noteq> None" using row_after_seed by auto
  moreover have "ms_garage m = g" by (simp add: m(1) normalise_stage_order_def merge_schedule_def resolve_garage Let_def)
  ultimately have "resolve_mot_settings (wd_book w') g = m"
    unfolding w' resolve_mot_settings_def mot_settings_row_def by (simp add: find_after_update)
  with ordered m(1) show ?thesis by (simp add: trio_of_normalised)
qed

theorem saved_schedule_is_ordered_witness:
  "\<exists>m w'. save_mot_schedule 1 \<lparr>mq_enabled1 = None, mq_days1 = Some 3, mq_enabled2 = None, mq_days2 = Some 60,
        mq_enabled3 = Some False, mq_days3 = None\<rparr> demo_world = (Inr m, w')
    \<and> stages_from m = [(STAGE_1, 60), (STAGE_2, 3)] \<and> sorted_wrt (>) (map snd (stages_from m))"
proof -
  let ?run = "save_mot_schedule 1 \<lparr>mq_enabled1 = None, mq_days1 = Some 3, mq_enabled2 = None, mq_days2 = Some 60,
        mq_enabled3 = Some False, mq_days3 = None\<rparr> demo_world"
  obtain m w' where run: "?run = (Inr m, w')" and st: "stages_from m = [(STAGE_1, 60), (STAGE_2, 3)]"
    by (simp add: save_mot_schedule_def schedule_body_ok_def days_ok_def duplicate_enabled_def pick_def trio_of_def
        normalise_stage_order_def merge_schedule_def seed_mot_settings_def mot_eval)
  from saved_schedule_is_ordered [OF run] run st show ?thesis by blast
qed

subsection \<open>Where the code departs from its documentation\<close>

text \<open>
  An e-mail that cannot be sent ends the MOT run and rolls it back, the rows of the reminders that did
  go out included; the next run sends those again.
\<close>

definition demo_outage :: "string comm_config" where
  "demo_outage = demo_config\<lparr>cf_email_provider := Some ''resend'', cf_resend_key := Some ''k'',
     cf_resend := (\<lambda>mails m. if length mails = 1 then Some ''down'' else None)\<rparr>"

lemma failed_run_mails_again:
  "let w1 = snd (send_due_automatic_reminders demo_outage (demo_fleet [5, 6]) None (12 * day_us) demo_world);
       w2 = snd (send_due_automatic_reminders demo_config (demo_fleet [5, 6]) None (12 * day_us) w1);
       reminding = (\<lambda>i. \<lparr>ml_to = ''a@b'', ml_topic = MOT_REMINDER (ve_registration (demo_car i))\<rparr>)
   in or_reminders (wd_book w1) = [] \<and> wd_mails w1 = [reminding 5] \<and> wd_mails w2 = [reminding 5, reminding 5, reminding 6]"
  by (simp add: demo_outage_def lower_char_def is_upper_def mot_eval)

text \<open>
  The check of the lead times only looks at the enabled ones; a disabled timing with the lead time of an
  enabled one passes it and violates the constraint of the table.
\<close>

lemma disabled_duplicate_is_an_error:
  "let b = \<lparr>rb_enabled = True, rb_channels = [], rb_timings = [\<lparr>rt_hours = 24, rt_enabled = True\<rparr>, \<lparr>rt_hours = 24, rt_enabled = False\<rparr>]\<rparr>
   in settings_body_ok b \<and> (\<exists>w'. save_reminder_settings 1 b demo_world = Inr (Inl DUPLICATE_TIMING, w'))"
  by (simp add: settings_body_ok_def save_reminder_settings_def Let_def)

end
