(* ===== verification/Text_Patterns.thy ===== *)
theory Text_Patterns
  imports Texts
begin

text \<open>
  What the code uses of Python's module \<open>re\<close> on ASCII texts: \<open>compile\<close> reads the syntax of the
  patterns in \<open>app/conversation\<close>, \<open>run_pattern\<close> is the backtracking matcher, which lists the ways a
  pattern can match at a place in the order the matcher tries them, and on top of it stand \<open>search\<close>,
  \<open>match\<close>, \<open>fullmatch\<close>, \<open>findall\<close> and \<open>sub\<close>. A backslash cannot be written in a text here; the
  patterns have a percent sign in its place, which no pattern of the code contains.
\<close>

subsection \<open>Patterns\<close>

datatype pattern =
  Nothing
| One_Of "char \<Rightarrow> bool"
| Word_Boundary
| Text_Start
| Text_End
| Sequence pattern pattern
| Either pattern pattern
| Repeat nat "nat option" pattern
| Group nat pattern

text \<open>A place in a text: what stands before it, nearest character first, what follows, and the groups.\<close>

record place =
  pl_before :: string
  pl_rest :: string
  pl_groups :: "(nat \<times> string) list"

definition word_char :: "char \<Rightarrow> bool" where
  "word_char c \<longleftrightarrow> is_digit c \<or> is_upper c \<or> is_lower c \<or> c = CHR ''_''"

definition at_boundary :: "place \<Rightarrow> bool" where
  "at_boundary p \<longleftrightarrow>
     (pl_before p \<noteq> [] \<and> word_char (hd (pl_before p))) \<noteq> (pl_rest p \<noteq> [] \<and> word_char (hd (pl_rest p)))"

definition advance :: "place \<Rightarrow> place" where
  "advance p = p\<lparr>pl_before := hd (pl_rest p) # pl_before p, pl_rest := tl (pl_rest p)\<rparr>"

definition between :: "place \<Rightarrow> place \<Rightarrow> string" where
  "between p q = rev (take (length (pl_before q) - length (pl_before p)) (pl_before q))"

text \<open>Greedy repetition, \<open>m\<close> times at least and then \<open>n\<close> times at most, while the text gets shorter.\<close>

fun repeat_run :: "(place \<Rightarrow> place list) \<Rightarrow> nat \<Rightarrow> nat \<Rightarrow> place \<Rightarrow> place list" where
  "repeat_run f (Suc m) n p = concat (map (repeat_run f m n) (f p))"
| "repeat_run f 0 (Suc n) p =
     concat (map (\<lambda>q. if length (pl_rest q) < length (pl_rest p) then repeat_run f 0 n q else []) (f p)) @ [p]"
| "repeat_run f 0 0 p = [p]"

primrec run_pattern :: "pattern \<Rightarrow> place \<Rightarrow> place list" where
  "run_pattern Nothing = (\<lambda>p. [p])"
| "run_pattern (One_Of f) = (\<lambda>p. if pl_rest p \<noteq> [] \<and> f (hd (pl_rest p)) then [advance p] else [])"
| "run_pattern Word_Boundary = (\<lambda>p. if at_boundary p then [p] else [])"
| "run_pattern Text_Start = (\<lambda>p. if pl_before p = [] then [p] else [])"
| "run_pattern Text_End = (\<lambda>p. if pl_rest p = [] \<or> map of_char (pl_rest p) = [10 :: nat] then [p] else [])"
| "run_pattern (Sequence a b) = (\<lambda>p. concat (map (run_pattern b) (run_pattern a p)))"
| "run_pattern (Either a b) = (\<lambda>p. run_pattern a p @ run_pattern b p)"
| "run_pattern (Repeat m n a) = (\<lambda>p.
     repeat_run (run_pattern a) m (case n of None \<Rightarrow> length (pl_rest p) | Some k \<Rightarrow> k - m) p)"
| "run_pattern (Group i a) = (\<lambda>p.
     map (\<lambda>q. q\<lparr>pl_groups := (i, between p q) # pl_groups q\<rparr>) (run_pattern a p))"

subsection \<open>Reading a pattern\<close>

definition one_char :: "bool \<Rightarrow> char \<Rightarrow> pattern" where
  "one_char ignore_case x = One_Of (\<lambda>c. c = x \<or> ignore_case \<and> lower_char c = lower_char x)"

definition literal :: "bool \<Rightarrow> string \<Rightarrow> pattern" where
  "literal ignore_case t = foldr (\<lambda>c p. Sequence (one_char ignore_case c) p) t Nothing"

definition class_escape :: "char \<Rightarrow> char \<Rightarrow> bool" where
  "class_escape e c =
     (if e = CHR ''d'' then is_digit c else if e = CHR ''s'' then is_space c
      else if e = CHR ''w'' then word_char c else c = e)"

text \<open>The members of a character class up to its bracket.\<close>

fun char_class :: "string \<Rightarrow> ((char \<Rightarrow> bool) \<times> string) option" where
  "char_class [] = None"
| "char_class (c # t) =
     (if c = CHR '']'' then Some (\<lambda>_. False, t)
      else if c = CHR ''%'' then
        (case t of [] \<Rightarrow> None
         | e # t' \<Rightarrow> (case char_class t' of None \<Rightarrow> None | Some (f, r) \<Rightarrow> Some (\<lambda>x. class_escape e x \<or> f x, r)))
      else case t of
        d # u # t' \<Rightarrow>
          if d = CHR ''-'' \<and> u \<noteq> CHR '']'' then
            (case char_class t' of None \<Rightarrow> None
             | Some (f, r) \<Rightarrow> Some (\<lambda>x. (of_char c \<le> (of_char x :: nat) \<and> (of_char x :: nat) \<le> of_char u) \<or> f x, r))
          else (case char_class t of None \<Rightarrow> None | Some (f, r) \<Rightarrow> Some (\<lambda>x. x = c \<or> f x, r))
      | _ \<Rightarrow> (case char_class t of None \<Rightarrow> None | Some (f, r) \<Rightarrow> Some (\<lambda>x. x = c \<or> f x, r)))"

definition number_of :: "string \<Rightarrow> nat" where
  "number_of t = foldl (\<lambda>n c. 10 * n + (of_char c - 48)) 0 t"

text \<open>A quantifier behind an item.\<close>

definition quantified :: "pattern \<Rightarrow> string \<Rightarrow> pattern \<times> string" where
  "quantified p s =
     (case s of
        [] \<Rightarrow> (p, s)
      | c # t \<Rightarrow>
          if c = CHR ''?'' then (Repeat 0 (Some 1) p, t)
          else if c = CHR ''*'' then (Repeat 0 None p, t)
          else if c = CHR ''+'' then (Repeat 1 None p, t)
          else if c = CHR ''{'' then
            (let ds = takeWhile is_digit t; r = dropWhile is_digit t
             in if r \<noteq> [] \<and> hd r = CHR '','' then
                  let es = takeWhile is_digit (tl r)
                  in (Repeat (number_of ds) (if es = [] then None else Some (number_of es)) p,
                      tl (dropWhile is_digit (tl r)))
                else (Repeat (number_of ds) (Some (number_of ds)) p, tl r))
          else (p, s))"

text \<open>
  Alternatives, sequences and items. Every call consumes fuel; three units per character suffice,
  because a call of each kind stands at most once between two characters.
\<close>

fun read_either :: "bool \<Rightarrow> nat \<Rightarrow> nat \<Rightarrow> string \<Rightarrow> (pattern \<times> nat \<times> string) option"
and read_sequence :: "bool \<Rightarrow> nat \<Rightarrow> nat \<Rightarrow> string \<Rightarrow> (pattern \<times> nat \<times> string) option"
and read_item :: "bool \<Rightarrow> nat \<Rightarrow> nat \<Rightarrow> string \<Rightarrow> (pattern \<times> nat \<times> string) option" where
  "read_either ic 0 g s = None"
| "read_either ic (Suc n) g s =
     (case read_sequence ic n g s of
        None \<Rightarrow> None
      | Some (p, g', s') \<Rightarrow>
          if s' \<noteq> [] \<and> hd s' = CHR ''|'' then
            (case read_either ic n g' (tl s') of
               None \<Rightarrow> None | Some (q, g'', s'') \<Rightarrow> Some (Either p q, g'', s''))
          else Some (p, g', s'))"
| "read_sequence ic 0 g s = None"
| "read_sequence ic (Suc n) g s =
     (if s = [] \<or> hd s = CHR ''|'' \<or> hd s = CHR '')'' then Some (Nothing, g, s)
      else case read_item ic n g s of
             None \<Rightarrow> None
           | Some (p, g', s') \<Rightarrow>
               (case quantified p s' of (p', s'') \<Rightarrow>
                  (case read_sequence ic n g' s'' of
                     None \<Rightarrow> None | Some (q, g'', r) \<Rightarrow> Some (Sequence p' q, g'', r))))"
| "read_item ic 0 g s = None"
| "read_item ic (Suc n) g s =
     (case s of
        [] \<Rightarrow> None
      | c # t \<Rightarrow>
          if c = CHR ''('' then
            (if take 2 t = ''?:'' then
               (case read_either ic n g (drop 2 t) of
                  None \<Rightarrow> None
                | Some (p, g', r) \<Rightarrow> if r \<noteq> [] \<and> hd r = CHR '')'' then Some (p, g', tl r) else None)
             else
               (case read_either ic n (g + 1) t of
                  None \<Rightarrow> None
                | Some (p, g', r) \<Rightarrow> if r \<noteq> [] \<and> hd r = CHR '')'' then Some (Group g p, g', tl r) else None))
          else if c = CHR ''['' then
            (case char_class t of
               None \<Rightarrow> None
             | Some (f, r) \<Rightarrow> Some (One_Of (\<lambda>x. f x \<or> ic \<and> (f (lower_char x) \<or> f (upper_char x))), g, r))
          else if c = CHR ''^'' then Some (Text_Start, g, t)
          else if c = CHR ''$'' then Some (Text_End, g, t)
          else if c = CHR ''.'' then Some (One_Of (\<lambda>x. of_char x \<noteq> (10 :: nat)), g, t)
          else if c = CHR ''%'' then
            (case t of
               [] \<Rightarrow> None
             | e # r \<Rightarrow>
                 if e = CHR ''b'' then Some (Word_Boundary, g, r)
                 else if e \<in> {CHR ''d'', CHR ''s'', CHR ''w''} then Some (One_Of (class_escape e), g, r)
                 else Some (one_char ic e, g, r))
          else Some (one_char ic c, g, t))"

text \<open>\<open>re.compile\<close>; the groups are numbered from 1. A text that is no pattern never matches.\<close>

definition compile_pattern :: "bool \<Rightarrow> string \<Rightarrow> pattern" where
  "compile_pattern ignore_case s =
     (case read_either ignore_case (3 * length s + 3) 1 s of
        Some (p, _, []) \<Rightarrow> p
      | _ \<Rightarrow> One_Of (\<lambda>_. False))"

abbreviation (input) regex :: "string \<Rightarrow> pattern" where "regex \<equiv> compile_pattern False"
abbreviation (input) iregex :: "string \<Rightarrow> pattern" where "iregex \<equiv> compile_pattern True"

text \<open>\<open>'|'.join(re.escape(t) ...)\<close>.\<close>

definition one_text_of :: "bool \<Rightarrow> string list \<Rightarrow> pattern" where
  "one_text_of ignore_case ts =
     (if ts = [] then Nothing else foldr (\<lambda>t p. Either (literal ignore_case t) p) (butlast ts) (literal ignore_case (last ts)))"

subsection \<open>Searching\<close>

definition place_of :: "string \<Rightarrow> place" where
  "place_of t = \<lparr>pl_before = [], pl_rest = t, pl_groups = []\<rparr>"

definition match_at :: "pattern \<Rightarrow> place \<Rightarrow> (place \<times> place) option" where
  "match_at r p = (case run_pattern r p of [] \<Rightarrow> None | q # _ \<Rightarrow> Some (p, q))"

function search_from :: "pattern \<Rightarrow> place \<Rightarrow> (place \<times> place) option" where
  "search_from r p =
     (case match_at r p of
        Some m \<Rightarrow> Some m
      | None \<Rightarrow> if pl_rest p = [] then None else search_from r (advance p))"
  by pat_completeness auto
termination
  by (relation "measure (\<lambda>(_, p). length (pl_rest p))") (auto simp: advance_def)

declare search_from.simps [simp del]

definition search :: "pattern \<Rightarrow> string \<Rightarrow> (place \<times> place) option" where
  "search r t = search_from r (place_of t)"

definition full_match :: "pattern \<Rightarrow> string \<Rightarrow> bool" where
  "full_match r t \<longleftrightarrow> list_ex (\<lambda>q. pl_rest q = []) (run_pattern r (place_of t))"

text \<open>\<open>m.group(i)\<close>; \<open>None\<close> for a group that took no part in the match.\<close>

definition group :: "place \<times> place \<Rightarrow> nat \<Rightarrow> string option" where
  "group m i = map_of (pl_groups (snd m)) i"

definition group_text :: "place \<times> place \<Rightarrow> nat \<Rightarrow> string" where
  "group_text m i = (case group m i of None \<Rightarrow> [] | Some t \<Rightarrow> t)"

text \<open>The matches from left to right that do not overlap; the patterns never match the empty text.\<close>

function find_matches :: "pattern \<Rightarrow> place \<Rightarrow> (place \<times> place) list" where
  "find_matches r p =
     (case search_from r p of
        None \<Rightarrow> []
      | Some (a, b) \<Rightarrow>
          if length (pl_rest b) < length (pl_rest p) then (a, b) # find_matches r (b\<lparr>pl_groups := []\<rparr>) else [(a, b)])"
  by pat_completeness auto
termination
  by (relation "measure (\<lambda>(_, p). length (pl_rest p))") auto

declare find_matches.simps [simp del]

definition find_all :: "pattern \<Rightarrow> string \<Rightarrow> string list" where
  "find_all r t = map (\<lambda>(a, b). between a b) (find_matches r (place_of t))"

text \<open>\<open>re.sub\<close> with a function of the match.\<close>

fun splice :: "(place \<times> place \<Rightarrow> string) \<Rightarrow> (place \<times> place) list \<Rightarrow> place \<Rightarrow> string" where
  "splice f [] p = pl_rest p"
| "splice f ((a, b) # ms) p = between p a @ f (a, b) @ splice f ms b"

definition substitute :: "pattern \<Rightarrow> (place \<times> place \<Rightarrow> string) \<Rightarrow> string \<Rightarrow> string" where
  "substitute r f t = splice f (find_matches r (place_of t)) (place_of t)"

end
