(* ===== verification/Phrase_Dates.thy ===== *)
theory Phrase_Dates
  imports Text_Patterns Python_Parsing Availability Outreach_Schema
begin

text \<open>
  Dates and times as customers say them, \<open>app/conversation/datetime_parsing.py\<close>: explicit dates,
  weekdays, rough windows and clock times, with the part of Python's calendar they need. A clock time that
  does not exist raises \<open>ValueError\<close> in \<open>datetime.time\<close>, here \<open>Inl BAD_VALUE\<close>.
\<close>

subsection \<open>The calendar\<close>

text \<open>\<open>date.toordinal\<close>: day 1 is the first of January of year 1.\<close>

definition days_before_year :: "int \<Rightarrow> int" where
  "days_before_year y = (y - 1) * 365 + (y - 1) div 4 - (y - 1) div 100 + (y - 1) div 400"

definition days_before_month :: "nat \<Rightarrow> nat \<Rightarrow> int" where
  "days_before_month y m = (\<Sum>k\<leftarrow>[1..<m]. int (days_in_month y k))"

definition ordinal_of :: "nat \<Rightarrow> nat \<Rightarrow> nat \<Rightarrow> date" where
  "ordinal_of y m d = days_before_year (int y) + days_before_month y m + int d"

text \<open>The year and, within it, the month of a day.\<close>

definition year_of_day :: "date \<Rightarrow> nat" where
  "year_of_day n =
     (let n0 = n - 1; a = n0 div 146097; n1 = n0 mod 146097; b = n1 div 36524; n2 = n1 mod 36524;
          c = n2 div 1461; n3 = n2 mod 1461; e = n3 div 365
      in nat (if b = 4 \<or> e = 4 then a * 400 + b * 100 + c * 4 + e else a * 400 + b * 100 + c * 4 + e + 1))"

fun month_from :: "nat \<Rightarrow> nat list \<Rightarrow> int \<Rightarrow> nat \<times> int" where
  "month_from y [] n = (12, n)"
| "month_from y [m] n = (m, n)"
| "month_from y (m # ms) n =
     (if n \<le> int (days_in_month y m) then (m, n) else month_from y ms (n - int (days_in_month y m)))"

definition month_of_day :: "date \<Rightarrow> nat" where
  "month_of_day n = fst (month_from (year_of_day n) [1..<13] (n - days_before_year (int (year_of_day n))))"

text \<open>\<open>_safe_date\<close>.\<close>

definition safe_date :: "nat \<Rightarrow> nat \<Rightarrow> nat \<Rightarrow> date option" where
  "safe_date y m d = (if y \<le> 9999 \<and> real_date y m d then Some (ordinal_of y m d) else None)"

definition year_for :: "nat \<Rightarrow> nat \<Rightarrow> date \<Rightarrow> nat" where
  "year_for month day today =
     (case safe_date (year_of_day today) month day of
        None \<Rightarrow> year_of_day today
      | Some this_year \<Rightarrow> if today \<le> this_year then year_of_day today else year_of_day today + 1)"

subsection \<open>Explicit dates\<close>

definition weekdays :: "(string \<times> int) list" where
  "weekdays =
     [(''monday'', 0), (''mon'', 0), (''tuesday'', 1), (''tue'', 1), (''tues'', 1), (''wednesday'', 2),
      (''wed'', 2), (''thursday'', 3), (''thu'', 3), (''thurs'', 3), (''friday'', 4), (''fri'', 4),
      (''saturday'', 5), (''sat'', 5), (''sunday'', 6), (''sun'', 6)]"

definition months :: "(string \<times> nat) list" where
  "months =
     [(''january'', 1), (''jan'', 1), (''february'', 2), (''feb'', 2), (''march'', 3), (''mar'', 3),
      (''april'', 4), (''apr'', 4), (''may'', 5), (''june'', 6), (''jun'', 6), (''july'', 7), (''jul'', 7),
      (''august'', 8), (''aug'', 8), (''september'', 9), (''sept'', 9), (''sep'', 9), (''october'', 10),
      (''oct'', 10), (''november'', 11), (''nov'', 11), (''december'', 12), (''dec'', 12)]"

definition months_alt :: string where
  "months_alt = join_texts ''|'' (sort_key (\<lambda>t. - int (length t)) (map fst months))"

definition weekday_pattern :: pattern where
  "weekday_pattern = iregex (''%b(next%s+)?('' @ join_texts ''|'' (map fst weekdays) @ '')%b'')"

definition day_month_pattern :: pattern where
  "day_month_pattern =
     iregex (''%b(%d{1,2})(?:st|nd|rd|th)?%s+(?:of%s+)?('' @ months_alt @ '')%b(?:%s+(%d{4}))?'')"

definition month_day_pattern :: pattern where
  "month_day_pattern =
     iregex (''%b('' @ months_alt @ '')%s+(%d{1,2})(?:st|nd|rd|th)?%b(?:,?%s+(%d{4}))?'')"

definition iso_pattern :: pattern where
  "iso_pattern = regex ''%b(%d{4})-(%d{2})-(%d{2})%b''"

definition numeric_pattern :: pattern where
  "numeric_pattern = regex ''%b(%d{1,2})[/.%-](%d{1,2})(?:[/.%-](%d{2}|%d{4}))?%b''"

definition ordinal_day_pattern :: pattern where
  "ordinal_day_pattern = iregex ''%b(?:the%s+)?(%d{1,2})(?:st|nd|rd|th)%b''"

definition group_number :: "place \<times> place \<Rightarrow> nat \<Rightarrow> nat" where
  "group_number m i = digits_value (group_text m i)"

definition not_past :: "date \<Rightarrow> date option \<Rightarrow> date option" where
  "not_past today d = (case d of None \<Rightarrow> None | Some x \<Rightarrow> if today \<le> x then Some x else None)"

text \<open>One of the two ways to name a day of a month.\<close>

definition named_day :: "pattern \<Rightarrow> nat \<Rightarrow> nat \<Rightarrow> string \<Rightarrow> date \<Rightarrow> date option" where
  "named_day r day_group month_group text today =
     (case search r text of
        None \<Rightarrow> None
      | Some m \<Rightarrow>
          let month = the (map_of months (map lower_char (group_text m month_group)));
              day = group_number m day_group;
              year = (if has_text (group m 3) then group_number m 3 else year_for month day today)
          in not_past today (safe_date year month day))"

definition numeric_day :: "string \<Rightarrow> date \<Rightarrow> date option" where
  "numeric_day text today =
     (case search numeric_pattern text of
        None \<Rightarrow> None
      | Some m \<Rightarrow>
          let day = group_number m 1; month = group_number m 2;
              year = (if has_text (group m 3)
                      then (if length (group_text m 3) = 2 then group_number m 3 + 2000 else group_number m 3)
                      else if month \<le> 12 then year_for month day today else year_of_day today)
          in not_past today (safe_date year month day))"

text \<open>The next month, counted from this one, that has the day.\<close>

fun day_in_months :: "nat list \<Rightarrow> nat \<Rightarrow> date \<Rightarrow> date option" where
  "day_in_months [] day today = None"
| "day_in_months (offset # offsets) day today =
     (let month = month_of_day today + offset
      in case not_past today (safe_date (year_of_day today + (month - 1) div 12) ((month - 1) mod 12 + 1) day) of
           Some d \<Rightarrow> Some d
         | None \<Rightarrow> day_in_months offsets day today)"

definition or_else :: "'a option \<Rightarrow> 'a option \<Rightarrow> 'a option" where
  "or_else x y = (case x of Some v \<Rightarrow> Some v | None \<Rightarrow> y)"

definition parse_explicit_date :: "string \<Rightarrow> date \<Rightarrow> date option" where
  "parse_explicit_date text today =
     (case search iso_pattern text of
        Some m \<Rightarrow> not_past today (safe_date (group_number m 1) (group_number m 2) (group_number m 3))
      | None \<Rightarrow>
          or_else (named_day day_month_pattern 1 2 text today)
         (or_else (named_day month_day_pattern 2 1 text today)
         (or_else (numeric_day text today)
            (case search ordinal_day_pattern text of
               None \<Rightarrow> None
             | Some m \<Rightarrow> day_in_months [0, 1, 2] (group_number m 1) today))))"

subsection \<open>Phrases\<close>

definition parse_date_phrase :: "string \<Rightarrow> date \<Rightarrow> date option" where
  "parse_date_phrase text today =
     (let lowered = map lower_char text
      in if contains ''day after tomorrow'' lowered then Some (today + 2)
         else if contains ''tomorrow'' lowered then Some (today + 1)
         else if contains ''today'' lowered \<or> contains ''this afternoon'' lowered \<or> contains ''this morning'' lowered
         then Some today
         else or_else (parse_explicit_date text today)
           (case search weekday_pattern lowered of
              Some m \<Rightarrow>
                let ahead = (the (map_of weekdays (group_text m 2)) - weekday_of today) mod 7
                in Some (today + (if ahead = 0 then 7 else ahead))
            | None \<Rightarrow> if contains ''next week'' lowered then Some (today + 7) else None))"

subsection \<open>Times\<close>

text \<open>\<open>time(hour, minute)\<close>.\<close>

definition clock_of :: "nat \<Rightarrow> nat \<Rightarrow> failure + clock" where
  "clock_of hour minute =
     (if hour \<le> 23 \<and> minute \<le> 59 then Inr (int hour * hour_us + int minute * minute_us) else Inl BAD_VALUE)"

definition resolve_hour :: "nat \<Rightarrow> string option \<Rightarrow> nat" where
  "resolve_hour hour meridiem =
     (if has_text meridiem then
        (let m = map lower_char (the meridiem)
         in if m = ''pm'' \<and> hour \<noteq> 12 then hour + 12 else if m = ''am'' \<and> hour = 12 then 0 else hour)
      else if 1 \<le> hour \<and> hour \<le> 7 then hour + 12
      else hour mod 24)"

definition time_windows :: "(string \<times> clock \<times> clock) list" where
  "time_windows =
     [(''first thing'', 0, 10 * hour_us), (''early morning'', 0, 10 * hour_us),
      (''late afternoon'', 15 * hour_us, 18 * hour_us), (''after lunch'', 13 * hour_us, 17 * hour_us + 30 * minute_us),
      (''before lunch'', 0, 12 * hour_us), (''late'', 15 * hour_us + 30 * minute_us, 20 * hour_us),
      (''morning'', 0, 12 * hour_us), (''afternoon'', 12 * hour_us, 17 * hour_us + 30 * minute_us),
      (''evening'', 17 * hour_us, 21 * hour_us)]"

definition around_pattern :: pattern where
  "around_pattern = iregex ''%b(around|about|approx(?:imately)?)%s+(%d{1,2})(?::(%d{2}))?%s*(am|pm)?%b''"

definition parse_time_window_phrase :: "string \<Rightarrow> failure + (clock \<times> clock) option" where
  "parse_time_window_phrase text =
     (let lowered = map lower_char text
      in case search around_pattern lowered of
           Some m \<Rightarrow>
             (case clock_of (resolve_hour (group_number m 2) (group m 4)) (group_number m 3) of
                Inl e \<Rightarrow> Inl e
              | Inr centre \<Rightarrow> Inr (Some ((centre - 45 * minute_us) mod day_us, (centre + 45 * minute_us) mod day_us)))
         | None \<Rightarrow> Inr (map_option snd (find (\<lambda>(label, _). contains label lowered) time_windows)))"

definition time_patterns :: "pattern list" where
  "time_patterns =
     [iregex ''%b(%d{1,2})[:.](%d{2})%s*(am|pm)?%b'', iregex ''%b(%d{1,2})%s*(am|pm)%b'',
      iregex ''%bhalf%s+past%s+(%d{1,2})%b'', iregex ''%bhalf%s+(%d{1,2})%b'',
      iregex ''%bquarter%s+past%s+(%d{1,2})%b'', iregex ''%bquarter%s+to%s+(%d{1,2})%b'']"

text \<open>The time a match of the pattern number \<open>i\<close> means.\<close>

definition time_said :: "nat \<Rightarrow> place \<times> place \<Rightarrow> failure + clock" where
  "time_said i m =
     (let hour = group_number m 1; plain = resolve_hour hour None mod 24
      in if i = 0 then clock_of (resolve_hour hour (group m 3) mod 24) (group_number m 2)
         else if i = 1 then clock_of (resolve_hour hour (group m 2) mod 24) 0
         else if i = 2 \<or> i = 3 then clock_of plain 30
         else if i = 4 then clock_of plain 15
         else clock_of ((plain + 23) mod 24) 45)"

fun first_time :: "nat \<Rightarrow> pattern list \<Rightarrow> string \<Rightarrow> failure + clock option" where
  "first_time i [] lowered = Inr None"
| "first_time i (r # rs) lowered =
     (case search r lowered of
        Some m \<Rightarrow> (case time_said i m of Inl e \<Rightarrow> Inl e | Inr t \<Rightarrow> Inr (Some t))
      | None \<Rightarrow> first_time (i + 1) rs lowered)"

definition parse_exact_time_phrase :: "string \<Rightarrow> failure + clock option" where
  "parse_exact_time_phrase text = first_time 0 time_patterns (map lower_char text)"

subsection \<open>What a phrase can mean\<close>

lemma or_else_Some: "or_else x y = Some v \<longleftrightarrow> x = Some v \<or> x = None \<and> y = Some v"
  by (auto simp: or_else_def split: option.split)

lemma not_past_Some: "not_past today d = Some x \<Longrightarrow> today \<le> x"
  by (auto simp: not_past_def split: option.splits if_splits)

lemma day_in_months_Some: "day_in_months offsets day today = Some x \<Longrightarrow> today \<le> x"
  by (induction offsets day today rule: day_in_months.induct)
    (auto simp: Let_def split: option.splits dest: not_past_Some)

lemma parse_explicit_date_Some: "parse_explicit_date text today = Some d \<Longrightarrow> today \<le> d"
  by (auto simp: parse_explicit_date_def or_else_Some named_day_def numeric_day_def Let_def
      split: option.splits dest: not_past_Some day_in_months_Some)

lemma parse_date_phrase_Some:
  assumes "parse_date_phrase text today = Some d"
  shows "today \<le> d"
proof -
  have "0 \<le> (x - weekday_of today) mod 7" for x by simp
  with assms show ?thesis
    by (auto simp: parse_date_phrase_def Let_def or_else_Some
        split: if_splits option.splits dest: parse_explicit_date_Some)
qed

text \<open>A time of day in whole minutes.\<close>

definition day_clock :: "clock \<Rightarrow> bool" where
  "day_clock c \<longleftrightarrow> 0 \<le> c \<and> c < day_us \<and> c mod minute_us = 0"

lemma clock_of_Inr: "clock_of h m = Inr c \<Longrightarrow> day_clock c"
proof -
  assume "clock_of h m = Inr c"
  then have c: "c = int (h * 60 + m) * minute_us" "h \<le> 23" "m \<le> 59"
    by (auto simp: clock_of_def split: if_splits)
  then have "h * 60 + m \<le> 1439" by simp
  with c show ?thesis unfolding day_clock_def c(1) by (auto simp del: of_nat_add of_nat_mult)
qed

lemma time_said_Inr: "time_said i m = Inr c \<Longrightarrow> day_clock c"
  by (auto simp: time_said_def Let_def split: if_splits dest: clock_of_Inr)

lemma first_time_Inr: "first_time i rs t = Inr (Some c) \<Longrightarrow> day_clock c"
  by (induction i rs t rule: first_time.induct) (auto split: option.splits sum.splits dest: time_said_Inr)

lemma time_window_Inr:
  assumes "parse_time_window_phrase text = Inr (Some (a, b))"
  shows "day_clock a \<and> day_clock b"
proof (cases "search around_pattern (map lower_char text)")
  case None
  with assms show ?thesis
    by (auto simp: parse_time_window_phrase_def Let_def time_windows_def day_clock_def split: if_splits)
next
  case (Some m)
  with assms obtain c where "clock_of (resolve_hour (group_number m 2) (group m 4)) (group_number m 3) = Inr c"
    and ab: "a = (c - 45 * minute_us) mod day_us" "b = (c + 45 * minute_us) mod day_us"
    by (auto simp: parse_time_window_phrase_def Let_def split: sum.splits)
  from clock_of_Inr [OF this(1)] obtain k where c: "c = k * minute_us" by (auto simp: day_clock_def elim: dvdE)
  have "(j * minute_us) mod day_us mod minute_us = 0" for j :: int by (simp add: mod_mod_cancel)
  from this [of "k - 45"] this [of "k + 45"] show ?thesis by (simp add: ab c day_clock_def algebra_simps)
qed

text \<open>
  What the dialogue understands of dates and times is always usable: a date phrase never means a day in
  the past, and an exact time or a rough window always consists of times of day in whole minutes.
\<close>

theorem phrases_mean_days_and_times:
  "(parse_date_phrase said today = Some d \<longrightarrow> today \<le> d)
   \<and> (parse_exact_time_phrase said = Inr (Some c) \<longrightarrow> day_clock c)
   \<and> (parse_time_window_phrase said = Inr (Some (a, b)) \<longrightarrow> day_clock a \<and> day_clock b)"
  using parse_date_phrase_Some [of said today] first_time_Inr time_window_Inr by (auto simp: parse_exact_time_phrase_def)

theorem phrases_mean_days_and_times_witness:
  "739680 \<le> (739681 :: int) \<and> day_clock 37800000000 \<and> day_clock 0 \<and> day_clock (12 * hour_us)"
proof -
  let ?said = "''tomorrow morning at 10:30''"
  have "parse_date_phrase ?said 739680 = Some 739681"
    by (simp add: parse_date_phrase_def starts_with_def lower_char_def is_upper_def)
  moreover have "parse_exact_time_phrase ?said = Inr (Some 37800000000)" by code_simp
  moreover have "parse_time_window_phrase ?said = Inr (Some (0, 12 * hour_us))" by code_simp
  ultimately show ?thesis
    using phrases_mean_days_and_times [of ?said 739680 739681 37800000000 0 "12 * hour_us"] by simp
qed

subsection \<open>Offered times\<close>

text \<open>\<open>strftime('%H:%M')\<close> of the time \<open>m\<close> minutes after midnight.\<close>

definition two_digits :: "nat \<Rightarrow> string" where
  "two_digits n = [digit_char (n div 10), digit_char (n mod 10)]"

definition clock_text :: "nat \<Rightarrow> string" where
  "clock_text m = two_digits (m div 60) @ CHR '':'' # two_digits (m mod 60)"

text \<open>The first of the time patterns, read.\<close>

definition clock_pattern :: pattern where
  "clock_pattern =
     Sequence Word_Boundary (Sequence (Group 1 (Sequence (Repeat 1 (Some 2) (One_Of (class_escape CHR ''d''))) Nothing))
       (Sequence (One_Of (\<lambda>x. (x = CHR '':'' \<or> x = CHR ''.'' \<or> False) \<or>
           True \<and> ((lower_char x = CHR '':'' \<or> lower_char x = CHR ''.'' \<or> False) \<or> (upper_char x = CHR '':'' \<or> upper_char x = CHR ''.'' \<or> False))))
       (Sequence (Group 2 (Sequence (Repeat 2 (Some 2) (One_Of (class_escape CHR ''d''))) Nothing))
       (Sequence (Repeat 0 None (One_Of (class_escape CHR ''s'')))
       (Sequence (Repeat 0 (Some 1) (Group 3 (Either (literal True ''am'') (literal True ''pm''))))
       (Sequence Word_Boundary Nothing))))))"

lemma first_time_pattern: "time_patterns = clock_pattern # tl time_patterns"
proof -
  have "time_patterns ! 0 = clock_pattern"
    by (simp add: time_patterns_def clock_pattern_def compile_pattern_def quantified_def number_of_def literal_def
        one_char_def numeral_eq_Suc is_digit_def)
  then show ?thesis by (simp add: time_patterns_def)
qed

lemma digit_facts:
  assumes "is_digit c"
  shows "lower_char c = c" "upper_char c = c" "word_char c" "\<not> is_space c" "c \<noteq> CHR '':''" "c \<noteq> CHR ''.''"
  using assms by (auto simp: word_char_def lower_char_def upper_char_def is_upper_def is_lower_def is_digit_def is_space_def)

lemma clock_pattern_match:
  assumes "list_all is_digit [a, b, c, d]"
  shows "search clock_pattern [a, b, CHR '':'', c, d] =
    Some (place_of [a, b, CHR '':'', c, d],
      \<lparr>pl_before = [d, c, CHR '':'', b, a], pl_rest = [], pl_groups = [(2, [c, d]), (1, [a, b])]\<rparr>)"
proof -
  have colon: "\<not> word_char CHR '':''" "\<not> is_digit CHR '':''"
    by (simp_all add: word_char_def is_digit_def is_upper_def is_lower_def)
  have "match_at clock_pattern (place_of [a, b, CHR '':'', c, d]) =
    Some (place_of [a, b, CHR '':'', c, d],
      \<lparr>pl_before = [d, c, CHR '':'', b, a], pl_rest = [], pl_groups = [(2, [c, d]), (1, [a, b])]\<rparr>)"
    using assms digit_facts colon
    by (simp add: match_at_def clock_pattern_def place_of_def at_boundary_def class_escape_def advance_def between_def
        literal_def one_char_def numeral_eq_Suc)
  then show ?thesis by (simp add: search_def search_from.simps)
qed

lemma digits_value_two: "n < 100 \<Longrightarrow> digits_value (two_digits n) = n"
  by (simp add: two_digits_def digits_value_def digit_char_props)

text \<open>The code reads an hour from 1 to 7 as one of the afternoon.\<close>

definition understood_hour :: "nat \<Rightarrow> nat" where
  "understood_hour h = (if 1 \<le> h \<and> h \<le> 7 then h + 12 else h)"

lemma exact_time_of_clock_text:
  assumes "m < 1440"
  shows "parse_exact_time_phrase (clock_text m) = Inr (Some (int (understood_hour (m div 60) * 60 + m mod 60) * minute_us))"
proof -
  obtain a b c d where t: "two_digits (m div 60) = [a, b]" "two_digits (m mod 60) = [c, d]"
    and ds: "list_all is_digit [a, b, c, d]"
    using assms by (auto simp: two_digits_def digit_char_props)
  have colon: "lower_char CHR '':'' = CHR '':''" by (simp add: lower_char_def is_upper_def)
  have v: "digits_value [a, b] = m div 60" "digits_value [c, d] = m mod 60"
    using assms digits_value_two [of "m div 60"] digits_value_two [of "m mod 60"] t by auto
  from assms have h: "m div 60 < 24" by auto
  have "parse_exact_time_phrase (clock_text m) = (case clock_of (resolve_hour (m div 60) None mod 24) (m mod 60) of
      Inl e \<Rightarrow> Inl e | Inr x \<Rightarrow> Inr (Some x))"
    using ds digit_facts by (subst parse_exact_time_phrase_def, subst first_time_pattern)
      (simp add: clock_text_def t clock_pattern_match colon time_said_def group_number_def group_text_def group_def v)
  with h show ?thesis
    by (auto simp: clock_of_def resolve_hour_def understood_hour_def algebra_simps)
qed

text \<open>
  C38: A time the dialogue offers is understood when the customer repeats it as it was printed, minute for
  minute, unless its hour is from 1 to 7, which the code takes for the afternoon.
\<close>

theorem offered_time_is_understood:
  assumes "m < 1440" "m < 60 \<or> 480 \<le> m"
  shows "parse_exact_time_phrase (clock_text m) = Inr (Some (int m * minute_us))"
proof -
  have "understood_hour (m div 60) * 60 + m mod 60 = m" using assms(2) by (auto simp: understood_hour_def)
  with exact_time_of_clock_text [OF assms(1)] show ?thesis by simp
qed

theorem offered_time_is_understood_witness:
  "parse_exact_time_phrase (clock_text 630) = Inr (Some 37800000000)"
  using offered_time_is_understood [of 630] by simp

text \<open>A business that opens at half past seven: the slot offered as 07:30 is understood as 19:30.\<close>

lemma early_slot_becomes_evening: "parse_exact_time_phrase (clock_text 450) = Inr (Some (1170 * minute_us))"
  using exact_time_of_clock_text [of 450] by (simp add: understood_hour_def)

text \<open>A price in the message raises; a time with a dot is a date; the minutes in front of am and pm are lost.\<close>

lemma price_raises: "parse_exact_time_phrase ''I was quoted 49.99'' = Inl BAD_VALUE"
  by code_simp

lemma half_past_is_lost: "parse_exact_time_phrase ''half past 3 pm'' = Inr (Some (15 * hour_us))"
  by code_simp

end
