(* ===== verification/Service_Matching.thy ===== *)
theory Service_Matching
  imports Text_Patterns Availability
begin

text \<open>
  Which of a business's own services a customer means, \<open>app/conversation/appointment_matching.py\<close>.
  A service is chosen only when its full name stands in the text or when it shares strictly more words
  with the text than any other; anything less is a question back to the customer.
\<close>

subsection \<open>Definitions\<close>

definition stopwords :: "string list" where
  "stopwords =
     [''a'', ''an'', ''the'', ''my'', ''for'', ''please'', ''want'', ''need'', ''book'', ''booking'', ''to'', ''get'',
      ''have'', ''car'', ''vehicle'', ''in'', ''on'', ''of'', ''i'', ''is'']"

text \<open>\<open>_tokenize\<close>; the set is the list without repetitions.\<close>

definition tokenize :: "string \<Rightarrow> string list" where
  "tokenize t =
     remdups (filter (\<lambda>w. w \<notin> set stopwords) (find_all (regex ''[a-z0-9]+'') (map lower_char t)))"

record service_match =
  mt_matched :: "appointment_type option"
  mt_candidates :: "appointment_type list"

definition is_ambiguous :: "service_match \<Rightarrow> bool" where
  "is_ambiguous m \<longleftrightarrow> mt_matched m = None \<and> mt_candidates m \<noteq> []"

definition no_match :: service_match where
  "no_match = \<lparr>mt_matched = None, mt_candidates = []\<rparr>"

definition active_types :: "db \<Rightarrow> uid \<Rightarrow> appointment_type list" where
  "active_types d g = filter (\<lambda>t. ty_garage t = g \<and> ty_status t = TYPE_ACTIVE) (db_types d)"

text \<open>The name of a service, standing in the text as a word of its own.\<close>

definition named_in :: "string \<Rightarrow> appointment_type \<Rightarrow> bool" where
  "named_in text_lower t \<longleftrightarrow>
     search (Sequence Word_Boundary (Sequence (literal False (map lower_char (ty_name t))) Word_Boundary)) text_lower \<noteq> None"

definition shared_words :: "string list \<Rightarrow> appointment_type \<Rightarrow> nat" where
  "shared_words tokens t = length (filter (\<lambda>w. w \<in> set tokens) (tokenize (ty_name t)))"

definition match_appointment_type :: "db \<Rightarrow> uid \<Rightarrow> string \<Rightarrow> service_match" where
  "match_appointment_type d g said =
     (let types = active_types d g; tokens = tokenize said
      in if types = [] \<or> tokens = [] then no_match
         else case find (named_in (map lower_char said)) types of
                Some t \<Rightarrow> \<lparr>mt_matched = Some t, mt_candidates = []\<rparr>
              | None \<Rightarrow>
                  let scored = sort_key (\<lambda>p. - int (snd p))
                        (filter (\<lambda>p. 0 < snd p) (map (\<lambda>t. (t, shared_words tokens t)) types))
                  in if scored = [] then no_match
                     else let top = map fst (filter (\<lambda>p. snd p = snd (hd scored)) scored)
                          in if length top = 1 then \<lparr>mt_matched = Some (hd top), mt_candidates = []\<rparr>
                             else \<lparr>mt_matched = None, mt_candidates = take 3 top\<rparr>)"

subsection \<open>A choice is never a guess\<close>

lemma match_by_words:
  assumes "find (named_in (map lower_char said)) (active_types d g) = None"
    and "mt_matched (match_appointment_type d g said) = Some t"
  shows "t \<in> set (active_types d g) \<and> 0 < shared_words (tokenize said) t
    \<and> list_all (\<lambda>u. u = t \<or> shared_words (tokenize said) u < shared_words (tokenize said) t) (active_types d g)"
proof -
  define scored where "scored = sort_key (\<lambda>p. - int (snd p))
    (filter (\<lambda>p. 0 < snd p) (map (\<lambda>t. (t, shared_words (tokenize said) t)) (active_types d g)))"
  define top where "top = map fst (filter (\<lambda>p. snd p = snd (hd scored)) scored)"
  from assms have ne: "scored \<noteq> []" and one: "length top = 1" and t: "t = hd top"
    by (auto simp: match_appointment_type_def Let_def no_match_def scored_def top_def split: if_splits)
  then have top: "top = [t]" by (cases top) auto
  have members: "p \<in> set scored \<longleftrightarrow> fst p \<in> set (active_types d g) \<and> snd p = shared_words (tokenize said) (fst p) \<and> 0 < snd p" for p
    by (cases p) (auto simp: scored_def)
  have "sorted (map (\<lambda>p. - int (snd p)) scored)" by (simp add: scored_def)
  then have best: "p \<in> set scored \<Longrightarrow> snd p \<le> snd (hd scored)" for p using ne by (cases scored) auto
  from top have "t \<in> set top" by simp
  then obtain p where p: "p \<in> set scored" "snd p = snd (hd scored)" "fst p = t" by (auto simp: top_def)
  have other: "shared_words (tokenize said) u < shared_words (tokenize said) t" if "u \<in> set (active_types d g)" "u \<noteq> t" for u
  proof (rule ccontr)
    assume "\<not> ?thesis"
    with members [of p] p that(1) have "(u, shared_words (tokenize said) u) \<in> set scored" by (auto simp: members)
    with best [OF this] \<open>\<not> ?thesis\<close> p members [of p] have "u \<in> set top" by (force simp: top_def)
    with top that(2) show False by simp
  qed
  from p members [of p] other show ?thesis by (auto simp: list_all_iff)
qed

text \<open>
  C39: The dialogue never guesses a service: one it selects from a message is an active service of this very
  business, and its full name stands in the message or it shares strictly more words with the message than
  every other active service.
\<close>

theorem selected_service_is_no_guess:
  assumes "mt_matched (match_appointment_type d g said) = Some t"
  shows "t \<in> set (db_types d) \<and> ty_garage t = g \<and> ty_status t = TYPE_ACTIVE
    \<and> (named_in (map lower_char said) t
       \<or> list_all (\<lambda>u. u = t \<or> shared_words (tokenize said) u < shared_words (tokenize said) t) (active_types d g))"
proof (cases "find (named_in (map lower_char said)) (active_types d g)")
  case None
  from match_by_words [OF None assms] show ?thesis by (auto simp: active_types_def)
next
  case (Some u)
  with assms have "u = t"
    by (auto simp: match_appointment_type_def Let_def no_match_def split: if_splits)
  with find_SomeD [OF Some] show ?thesis by (auto simp: active_types_def)
qed

definition demo_service :: "uid \<Rightarrow> string \<Rightarrow> appointment_type" where
  "demo_service i name =
     \<lparr>ty_id = i, ty_garage = 1, ty_name = name, ty_status = TYPE_ACTIVE, ty_duration = Some 60, ty_base_price = Some 5000,
      ty_order = 0, ty_deposit_required = False, ty_deposit_type = None, ty_deposit_value = None\<rparr>"

definition demo_services :: "appointment_type list" where
  "demo_services = [demo_service 1 ''MOT Test'', demo_service 2 ''Full Service'', demo_service 3 ''Interim Service'']"

lemma demo_match:
  assumes "db_types d = demo_services"
  shows "mt_matched (match_appointment_type d 1 ''book an mot'') = Some (demo_service 1 ''MOT Test'')"
    "map ty_id (mt_candidates (match_appointment_type d 1 ''a service please'')) = [2, 3]"
proof -
  have types: "active_types d 1 = demo_services"
    by (simp add: assms active_types_def demo_services_def demo_service_def)
  have words: "tokenize ''book an mot'' = [''mot'']" "tokenize ''a service please'' = [''service'']"
    by code_simp+
  have unnamed: "find (named_in (map lower_char ''book an mot'')) demo_services = None"
    "find (named_in (map lower_char ''a service please'')) demo_services = None"
    by code_simp+
  have shared: "shared_words [''mot''] (demo_service 1 ''MOT Test'') = 1" "shared_words [''mot''] (demo_service 2 ''Full Service'') = 0"
    "shared_words [''mot''] (demo_service 3 ''Interim Service'') = 0" "shared_words [''service''] (demo_service 1 ''MOT Test'') = 0"
    "shared_words [''service''] (demo_service 2 ''Full Service'') = 1" "shared_words [''service''] (demo_service 3 ''Interim Service'') = 1"
    by code_simp+
  have ids: "ty_id (demo_service i name) = i" for i name by (simp add: demo_service_def)
  show "mt_matched (match_appointment_type d 1 ''book an mot'') = Some (demo_service 1 ''MOT Test'')"
    unfolding match_appointment_type_def types words unnamed Let_def by (simp add: demo_services_def shared del: One_nat_def)
  show "map ty_id (mt_candidates (match_appointment_type d 1 ''a service please'')) = [2, 3]"
    unfolding match_appointment_type_def types words unnamed Let_def by (simp add: demo_services_def shared ids del: One_nat_def)
qed

theorem selected_service_is_no_guess_witness:
  "ty_garage (demo_service 1 ''MOT Test'') = 1 \<and> demo_service 1 ''MOT Test'' \<in> set (db_types (demo_db\<lparr>db_types := demo_services\<rparr>))"
  using selected_service_is_no_guess [OF demo_match(1) [of "demo_db\<lparr>db_types := demo_services\<rparr>"]] by simp

end
