(* ===== verification/Chat_Actions.thy ===== *)
theory Chat_Actions
  imports Phrase_Dates Notifications Public_Booking
begin

text \<open>
  What a conversation may do to the business's data, \<open>app/conversation/actions.py\<close>, and the staff's view
  of callback requests in \<open>conversation/queries.py\<close>. Every action checks again against the present
  state under the lock of the business, and commits; its event is sent at once, so it changes both the
  bookings \<open>db\<close> and the messages \<open>world\<close>. \<open>NEVER_RETURNS\<close> stands for a slot loop that does not end,
  \<open>NO_FREE_REFERENCE\<close> for draws that all collided.
\<close>

type_synonym 'a talk = "(failure + 'a) \<times> db \<times> world"

definition announce :: "'n comm_config \<Rightarrow> app_event \<Rightarrow> db \<Rightarrow> world \<Rightarrow> db \<times> world" where
  "announce cf ev d w = (emit ev d, emit_event cf (emit ev d) ev w)"

subsection \<open>Reading\<close>

definition get_appointment_types :: "db \<Rightarrow> garage \<Rightarrow> appointment_type list" where
  "get_appointment_types d g = filter (\<lambda>t. ty_garage t = g_id g \<and> ty_status t = TYPE_ACTIVE) (db_types d)"

definition get_availability_for_day ::
  "db \<Rightarrow> garage \<Rightarrow> date \<Rightarrow> appointment_type option \<Rightarrow> int option \<Rightarrow> instant \<Rightarrow> failure + single_day_payload" where
  "get_availability_for_day d g day ty duration now =
     (case single_day d g day now ty duration of None \<Rightarrow> Inl NEVER_RETURNS | Some p \<Rightarrow> Inr p)"

text \<open>
  The date of the caller's clock. The engine hands its clock over in the zone of the business, so that
  is the local day there.
\<close>

definition local_today :: "garage \<Rightarrow> instant \<Rightarrow> date" where
  "local_today g now = local_day_for (g_zone g) now"

definition latest_bookable_day :: "garage \<Rightarrow> instant \<Rightarrow> date" where
  "latest_bookable_day g now = snd (booking_window (resolve_settings g) (local_today g now))"

definition free_slots :: "single_day_payload \<Rightarrow> slot list" where
  "free_slots p = (if sd_is_open p then filter (\<lambda>s. sl_status s \<noteq> SLOT_BOOKED) (sd_slots p) else [])"

fun days_with_room ::
  "db \<Rightarrow> garage \<Rightarrow> appointment_type option \<Rightarrow> instant \<Rightarrow> date list \<Rightarrow> nat \<Rightarrow> failure + date list" where
  "days_with_room d g ty now [] limit = Inr []"
| "days_with_room d g ty now (day # days) limit =
     (if limit = 0 then Inr []
      else case get_availability_for_day d g day ty None now of
             Inl e \<Rightarrow> Inl e
           | Inr p \<Rightarrow>
               if free_slots p \<noteq> [] then map_sum id (Cons day) (days_with_room d g ty now days (limit - 1))
               else days_with_room d g ty now days limit)"

definition find_next_available_days ::
  "db \<Rightarrow> garage \<Rightarrow> appointment_type option \<Rightarrow> date \<Rightarrow> instant \<Rightarrow> nat \<Rightarrow> failure + date list" where
  "find_next_available_days d g ty start_day now limit =
     days_with_room d g ty now [max start_day (local_today g now)..latest_bookable_day g now] limit"

definition find_vehicles_for_customer :: "db \<Rightarrow> customer \<Rightarrow> vehicle list" where
  "find_vehicles_for_customer d c = filter (\<lambda>v. ve_customer v = cu_id c \<and> ve_active v) (db_vehicles d)"

definition find_customer_vehicle_by_registration :: "db \<Rightarrow> customer \<Rightarrow> string \<Rightarrow> vehicle option" where
  "find_customer_vehicle_by_registration d c registration =
     find (\<lambda>v. ve_customer v = cu_id c \<and> ve_active v \<and> ve_registration v = normalize_registration registration) (db_vehicles d)"

definition get_upcoming_appointments :: "db \<Rightarrow> garage \<Rightarrow> customer \<Rightarrow> instant \<Rightarrow> appointment list" where
  "get_upcoming_appointments d g c now =
     sort_key ap_start (filter (\<lambda>a. ap_garage a = g_id g \<and> ap_customer a = cu_id c \<and> ap_status a \<noteq> AP_CANCELLED
        \<and> now \<le> ap_start a) (db_appointments d))"

definition revalidate_slot :: "db \<Rightarrow> garage \<Rightarrow> date \<Rightarrow> clock \<Rightarrow> appointment_type option \<Rightarrow> instant \<Rightarrow> slot_reason option" where
  "revalidate_slot d g day t ty now = validate_slot d g day t now ty None None"

subsection \<open>Booking\<close>

record chat_booking =
  kb_customer :: "customer option"
  kb_contact :: contact
  kb_item :: item_details
  kb_type :: "appointment_type option"
  kb_date :: date
  kb_time :: "clock option"
  kb_notes :: "string option"
  kb_tool :: "string option"
  kb_call :: "string option"

text \<open>What the caller draws: references until one is free, and the acceptance and recovery tokens.\<close>

record chat_draws =
  dw_references :: "nat list list"
  dw_acceptance :: string
  dw_recovery :: string
  dw_terms_minutes :: int

definition voice_request :: "db \<Rightarrow> string option \<Rightarrow> string option \<Rightarrow> booking_request option" where
  "voice_request d tool call =
     (case (if has_text tool then find (\<lambda>r. rq_voice_tool r = tool) (db_requests d) else None) of
        Some r \<Rightarrow> Some r
      | None \<Rightarrow> if has_text call then find (\<lambda>r. rq_voice_call r = call) (db_requests d) else None)"

definition chat_request :: "garage \<Rightarrow> chat_booking \<Rightarrow> request_status \<Rightarrow> string \<Rightarrow> uid \<Rightarrow> booking_request" where
  "chat_request g kb status reference i =
     \<lparr>rq_id = i, rq_garage = g_id g, rq_status = status, rq_contact = kb_contact kb,
      rq_type = map_option ty_id (kb_type kb), rq_duration = Option.bind (kb_type kb) ty_duration,
      rq_price = Option.bind (kb_type kb) ty_base_price, rq_type_name = map_option ty_name (kb_type kb),
      rq_date = kb_date kb, rq_time = kb_time kb, rq_add_ons = [], rq_discount = no_discount,
      rq_customer = map_option cu_id (kb_customer kb), rq_vehicle = None, rq_appointment = None,
      rq_reviewer = None, rq_reviewed_at = None, rq_accepted_automatically = False,
      rq_hold_expires = None, rq_terms_accepted_at = None, rq_terms_version = None,
      rq_terms_token = None, rq_recovery_token = None, rq_source = SOURCE_CONVERSATION,
      rq_reference = Some reference, rq_attempt = None, rq_item = kb_item kb, rq_employee_note = None,
      rq_notes = kb_notes kb, rq_answers = [], rq_voice_tool = kb_tool kb, rq_voice_call = kb_call kb\<rparr>"

text \<open>The unique columns of a voice request.\<close>

definition voice_ids_taken :: "db \<Rightarrow> booking_request \<Rightarrow> bool" where
  "voice_ids_taken d rq \<longleftrightarrow>
     list_ex (\<lambda>r. rq_voice_tool rq \<noteq> None \<and> rq_voice_tool r = rq_voice_tool rq
        \<or> rq_voice_call rq \<noteq> None \<and> rq_voice_call r = rq_voice_call rq) (db_requests d)"

definition add_request :: "booking_request \<Rightarrow> db \<Rightarrow> db" where
  "add_request rq d = d\<lparr>db_requests := db_requests d @ [rq], db_next := Suc (db_next d)\<rparr>"

definition slot_refusal :: "db \<Rightarrow> garage \<Rightarrow> chat_booking \<Rightarrow> instant \<Rightarrow> slot_reason option" where
  "slot_refusal d g kb now =
     (case kb_time kb of None \<Rightarrow> None | Some t \<Rightarrow> revalidate_slot d g (kb_date kb) t (kb_type kb) now)"

text \<open>
  \<open>create_booking_request\<close>. Between the look-up and the lock of the business another worker may commit:
  \<open>meanwhile\<close>. The result is the request, or why the slot was refused.
\<close>

definition create_booking_request ::
  "'n comm_config \<Rightarrow> (db \<Rightarrow> db) \<Rightarrow> garage \<Rightarrow> chat_booking \<Rightarrow> chat_draws \<Rightarrow> instant \<Rightarrow> db \<Rightarrow> world
    \<Rightarrow> (slot_reason + booking_request) talk" where
  "create_booking_request cf meanwhile g kb dw now d0 w =
     (case voice_request d0 (kb_tool kb) (kb_call kb) of
        Some r \<Rightarrow> (Inr (Inr r), d0, w)
      | None \<Rightarrow>
          let d = meanwhile d0
          in case slot_refusal d g kb now of
               Some reason \<Rightarrow> (Inr (Inl reason), d, w)
             | None \<Rightarrow>
                 (case unique_booking_reference d (dw_references dw) of
                    None \<Rightarrow> (Inl NO_FREE_REFERENCE, d, w)
                  | Some reference \<Rightarrow>
                      let plain = chat_request g kb PENDING reference (fresh_id d);
                          rq = (if has_terms g then hold_for_acceptance plain (dw_acceptance dw) now (dw_terms_minutes dw) else plain)
                      in if voice_ids_taken d rq then
                           (case voice_request d (kb_tool kb) (kb_call kb) of
                              Some r \<Rightarrow> (Inr (Inr r), d, w)
                            | None \<Rightarrow> (Inl DUPLICATE_REQUEST, d, w))
                         else if has_terms g then (Inr (Inr rq), add_request rq d, w)
                         else (Inr (Inr rq), announce cf (BOOKING_REQUEST_CREATED (rq_id rq)) (add_request rq d) w)))"

text \<open>
  \<open>create_deposit_booking_request\<close>: the same for a service with a deposit. With terms the hold waits for
  them first; otherwise the payment is started now, and what the provider raises undoes the request.
\<close>

definition create_deposit_booking_request ::
  "'n comm_config \<Rightarrow> (db \<Rightarrow> db) \<Rightarrow> garage \<Rightarrow> appointment_type \<Rightarrow> chat_booking \<Rightarrow> chat_draws \<Rightarrow> payment_setup
    \<Rightarrow> instant \<Rightarrow> db \<Rightarrow> world \<Rightarrow> (payment_error + failure + slot_reason + booking_request) \<times> db \<times> world" where
  "create_deposit_booking_request cf meanwhile g ty kb dw su now d0 w =
     (case voice_request d0 (kb_tool kb) (kb_call kb) of
        Some r \<Rightarrow> (Inr (Inr (Inr r)), d0, w)
      | None \<Rightarrow>
          let d = meanwhile d0
          in case slot_refusal d g kb now of
               Some reason \<Rightarrow> (Inr (Inr (Inl reason)), d, w)
             | None \<Rightarrow>
                 (case unique_booking_reference d (dw_references dw) of
                    None \<Rightarrow> (Inr (Inl NO_FREE_REFERENCE), d, w)
                  | Some reference \<Rightarrow>
                      let plain = chat_request g kb AWAITING_PAYMENT reference (fresh_id d)
                      in if has_terms g then
                           (let rq = hold_for_acceptance plain (dw_acceptance dw) now (dw_terms_minutes dw)
                            in if voice_ids_taken d rq then
                                 (case voice_request d (kb_tool kb) (kb_call kb) of
                                    Some r \<Rightarrow> (Inr (Inr (Inr r)), d, w)
                                  | None \<Rightarrow> (Inr (Inl DUPLICATE_REQUEST), d, w))
                               else (Inr (Inr (Inr rq)), add_request rq d, w))
                         else
                           (let rq = plain\<lparr>rq_hold_expires := Some (payment_hold_deadline now (su_hold_minutes su)),
                                           rq_recovery_token := Some (dw_recovery dw)\<rparr>
                            in if voice_ids_taken d rq then (Inr (Inl DUPLICATE_REQUEST), d, w)
                               else case start_deposit (add_request rq d) g ty rq su now of
                                      (Inl e, d') \<Rightarrow> (Inl e, rolled_back d d', w)
                                    | (Inr _, d') \<Rightarrow>
                                        (Inr (Inr (Inr rq)), announce cf (BOOKING_REQUEST_CREATED (rq_id rq)) d' w))))"

subsection \<open>Changing an appointment\<close>

datatype change_refusal =
  NOT_FOUND | ALREADY_CANCELLED | TERMINAL_APPOINTMENT | SLOT_REFUSED slot_reason | EMPLOYEE_CONFLICT
| INVALID_NAME | CROSS_TENANT

definition change_blocked :: "appointment \<Rightarrow> change_refusal option" where
  "change_blocked a =
     (if ap_status a = AP_CANCELLED then Some ALREADY_CANCELLED
      else if ap_status a \<in> {AP_COMPLETED, AP_NO_SHOW} then Some TERMINAL_APPOINTMENT else None)"

definition cancel_appointment :: "'n comm_config \<Rightarrow> appointment \<Rightarrow> db \<Rightarrow> world \<Rightarrow> change_refusal option \<times> db \<times> world" where
  "cancel_appointment cf a d w =
     (case change_blocked a of
        Some refusal \<Rightarrow> (Some refusal, d, w)
      | None \<Rightarrow>
          (None, announce cf (APPOINTMENT_CANCELLED (ap_id a)) (put_appointment (a\<lparr>ap_status := AP_CANCELLED\<rparr>) d) w))"

definition reschedule_appointment ::
  "'n comm_config \<Rightarrow> garage \<Rightarrow> uid \<Rightarrow> date \<Rightarrow> clock \<Rightarrow> instant \<Rightarrow> db \<Rightarrow> world \<Rightarrow> change_refusal option \<times> db \<times> world" where
  "reschedule_appointment cf g i new_day new_time now d w =
     (case find (\<lambda>a. ap_id a = i \<and> ap_garage a = g_id g) (db_appointments d) of
        None \<Rightarrow> (Some NOT_FOUND, d, w)
      | Some a \<Rightarrow>
          (case change_blocked a of
             Some refusal \<Rightarrow> (Some refusal, d, w)
           | None \<Rightarrow>
               let duration = ap_end a - ap_start a;
                   new_start = local_slot_as_utc (g_zone g) new_day new_time;
                   new_end = new_start + duration
               in case validate_slot d g new_day new_time now (find_type d (Some (ap_type a))) (Some i)
                         (Some (duration div minute_us)) of
                    Some reason \<Rightarrow> (Some (SLOT_REFUSED reason), d, w)
                  | None \<Rightarrow>
                      if has_employee_conflict d (ap_employee a) new_start new_end (Some i)
                      then (Some EMPLOYEE_CONFLICT, d, w)
                      else (None, announce cf (APPOINTMENT_RESCHEDULED i None None)
                                    (put_appointment (a\<lparr>ap_start := new_start, ap_end := new_end\<rparr>) d) w)))"

subsection \<open>Names and callbacks\<close>

definition update_customer_name :: "garage \<Rightarrow> customer \<Rightarrow> string \<Rightarrow> string \<Rightarrow> db \<Rightarrow> change_refusal option \<times> db" where
  "update_customer_name g c first_name last_name d =
     (let first = strip_text first_name; last = strip_text last_name
      in if first = [] \<or> last = [] \<or> 100 < length first \<or> 100 < length last then (Some INVALID_NAME, d)
         else if cu_garage c \<noteq> g_id g then (Some CROSS_TENANT, d)
         else (None, put_customer (c\<lparr>cu_first := first, cu_last := last\<rparr>) d))"

definition create_callback_request ::
  "'n comm_config \<Rightarrow> garage \<Rightarrow> customer option \<Rightarrow> string \<Rightarrow> string option \<Rightarrow> string option \<Rightarrow> uid option \<Rightarrow> db \<Rightarrow> world
    \<Rightarrow> callback \<times> db \<times> world" where
  "create_callback_request cf g c phone reason preferred source d w =
     (let cb = \<lparr>cb_id = or_next (wd_book w), cb_garage = g_id g, cb_customer = map_option cu_id c, cb_phone = phone,
                cb_reason = reason, cb_preferred = preferred, cb_status = CB_PENDING, cb_session = source\<rparr>;
          w' = commit (on_book (\<lambda>s. s\<lparr>or_callbacks := or_callbacks s @ [cb], or_next := or_next s + 1\<rparr>) w)
      in (cb, announce cf (CALLBACK_REQUESTED (cb_id cb)) d w'))"

text \<open>The staff's list, newest first, with its total before paging.\<close>

definition list_callback_requests ::
  "outreach \<Rightarrow> uid \<Rightarrow> callback_status option \<Rightarrow> nat option \<Rightarrow> nat \<Rightarrow> callback list \<times> nat" where
  "list_callback_requests s g status limit offset =
     (let rows = filter (\<lambda>c. cb_garage c = g \<and> (case status of None \<Rightarrow> True | Some st \<Rightarrow> cb_status c = st)) (or_callbacks s);
          newest = rev rows
      in (case limit of None \<Rightarrow> newest | Some n \<Rightarrow> take n (drop offset newest), length rows))"

definition get_callback_request :: "outreach \<Rightarrow> uid \<Rightarrow> uid \<Rightarrow> callback option" where
  "get_callback_request s g i = find (\<lambda>c. cb_garage c = g \<and> cb_id c = i) (or_callbacks s)"

definition set_callback :: "callback_status \<Rightarrow> callback \<Rightarrow> world \<Rightarrow> world" where
  "set_callback status c w =
     commit (on_book (\<lambda>s. s\<lparr>or_callbacks := row_set cb_id (c\<lparr>cb_status := status\<rparr>) (or_callbacks s)\<rparr>) w)"

definition complete_callback_request :: "callback \<Rightarrow> world \<Rightarrow> world" where
  "complete_callback_request = set_callback CB_COMPLETED"

definition cancel_callback_request :: "callback \<Rightarrow> world \<Rightarrow> world" where
  "cancel_callback_request = set_callback CB_CANCELLED"

end
