(* ===== verification/Intents.thy ===== *)
theory Intents
  imports Text_Patterns Outreach_Schema
begin

text \<open>
  What a message wants, \<open>app/conversation/intents.py\<close>: \<open>normalise\<close>, the rules in their order and
  \<open>RuleBasedIntentResolver.resolve\<close>. The first pattern that stands in the message decides; messages that
  steer the conversation come first. Quotation marks outside ASCII are not modelled.
\<close>

subsection \<open>Normalising\<close>

definition shorthand :: "(string \<times> string) list" where
  "shorthand =
     [(''u'', ''you''), (''ur'', ''your''), (''pls'', ''please''), (''plz'', ''please''), (''thx'', ''thanks''),
      (''thnx'', ''thanks''), (''ty'', ''thanks''), (''appt'', ''appointment''), (''appts'', ''appointments''),
      (''apt'', ''appointment''), (''resched'', ''reschedule''), (''wanna'', ''want to''), (''gonna'', ''going to''),
      (''gotta'', ''got to''), (''tmrw'', ''tomorrow''), (''tmr'', ''tomorrow''), (''tomo'', ''tomorrow''),
      (''asap'', ''as soon as possible''), (''avail'', ''availability''), (''info'', ''information'')]"

text \<open>\<open>' '.join(text.split())\<close>, \<open>strip\<close> and \<open>rstrip\<close> with a set of characters.\<close>

definition single_spaced :: "string \<Rightarrow> string" where
  "single_spaced t = join_texts '' '' (split_words t)"

definition rstrip_of :: "string \<Rightarrow> string \<Rightarrow> string" where
  "rstrip_of cs t = rev (dropWhile (\<lambda>c. c \<in> set cs) (rev t))"

definition strip_of :: "string \<Rightarrow> string \<Rightarrow> string" where
  "strip_of cs t = rstrip_of cs (dropWhile (\<lambda>c. c \<in> set cs) t)"

definition quotes :: string where
  "quotes = [CHR 0x22, CHR 0x27, CHR '' '']"

definition shorthand_pattern :: pattern where
  "shorthand_pattern = Sequence Word_Boundary (Sequence (Group 1 (one_text_of True (map fst shorthand))) Word_Boundary)"

definition normalise :: "string \<Rightarrow> string" where
  "normalise t =
     substitute shorthand_pattern
       (\<lambda>m. case map_of shorthand (map lower_char (group_text m 1)) of None \<Rightarrow> [] | Some w \<Rightarrow> w)
       (rstrip_of ''!.?, '' (strip_of quotes (single_spaced (map lower_char t))))"

subsection \<open>Rules\<close>

abbreviation (input) phrase_pattern :: "string list \<Rightarrow> pattern" where
  "phrase_pattern \<equiv> one_text_of True"

definition nav_prefix :: string where
  "nav_prefix = ''^(please%s+|ok(ay)?,?%s+|right,?%s+|actually,?%s+|erm,?%s+|hmm,?%s+|no,?%s+)*''"

definition greeting_pattern :: pattern where
  "greeting_pattern = iregex (
      ''^(hi|hello|hey|heya|hiya|yo|hallo|howdy|good%s+(morning|afternoon|evening)|morning|afternoon|'' @
      ''evening)([%s,]+(there|team|guys|folks))?$'')"

definition small_talk_pattern :: pattern where
  "small_talk_pattern = iregex (
      ''^(thanks|thank you|thankyou|thanks a lot|thanks very much|thank you very much|many thanks|'' @
      ''cheers|ta|nice one|great thanks|ok thanks|okay thanks|perfect thanks|brilliant|lovely|'' @
      ''great stuff|bye|goodbye|see you|see ya|good day|that'?s (all|it|everything)|that is all|'' @
      ''nothing else|no (that'?s|thats) (all|it|everything)|all good|we'?re good|i'?m good|'' @
      ''no thanks)[%s,]*(thanks|thank you|cheers|bye)?$'')"

definition reset_pattern :: pattern where
  "reset_pattern = iregex (nav_prefix @
      ''(start (over|again|from scratch|from the start)|restart|reset|start from scratch|'' @
      ''start from the beginning|back to (the )?(start|beginning|top|very beginning)|'' @
      ''(go )?right back to the start|from the (start|top|beginning)|begin again|let'?s start (over|'' @
      ''again)|scrap (all|everything) and start again)$'')"

definition abandon_pattern :: pattern where
  "abandon_pattern = iregex (nav_prefix @
      ''(never ?mind|forget (it|that|about it|this)|forget the whole thing|cancel (that|this|it)|'' @
      ''stop( it| this)?|drop it|leave it|not now|not right now|not anymore|don'?t bother|scrap (that|'' @
      ''it|this)|i (don'?t|do not) want to (do this|book|continue)( anymore)?|changed my mind)$'')"

definition go_back_pattern :: pattern where
  "go_back_pattern = iregex (nav_prefix @
      ''(go back( a step| one step)?|back a step|back one step|one step back|previous( step| question)?|'' @
      ''undo( that)?|go back to the (last|previous) (step|question))$'')"

definition update_name_pattern :: pattern where
  "update_name_pattern = iregex (
      ''((change|update|correct|fix|amend|edit)%s+(my%s+)?name|my%s+name%s+(is%s+)?(wrong|incorrect|'' @
      ''spelt?%s+wrong|misspelt|spelled%s+wrong)|(you'?ve|you%s+have)%s+(got%s+)?my%s+name%s+wrong|'' @
      ''(that'?s|that%s+is)%s+not%s+my%s+name|wrong%s+name%s+on%s+(my%s+)?(account|record|file)|'' @
      ''my%s+name%s+should%s+be|spelt%s+my%s+name%s+wrong)'')"

definition update_details_pattern :: pattern where
  "update_details_pattern = iregex (
      ''(change|update|correct|amend|edit)%s+(my%s+)?(email(%s+address)?|e-?mail|phone(%s+number)?|'' @
      ''mobile(%s+number)?|number|address|postcode|contact%s+details?|details)'')"

definition question_hint :: pattern where
  "question_hint = iregex (
      ''%?|^(what|when|where|how|can|could|do you|is there)%b'')"

definition help_pattern :: pattern where
  "help_pattern = phrase_pattern
      [''what can you do'', ''what can you help'', ''how does this work'', ''how do i use this'', ''what do you do'',
       ''help me'', ''need help'', ''show me options'', ''what are my options'']"

definition help_words :: "string list" where
  "help_words = [''help'', ''menu'', ''options'', ''start'']"

definition rules :: "(intent \<times> pattern) list" where
  "rules =
     [(UPDATE_CUSTOMER_NAME, update_name_pattern),
      (UPDATE_CONTACT_DETAILS, update_details_pattern),
      (SPEAK_TO_HUMAN, phrase_pattern
        [''speak to a person'', ''speak to someone'', ''speak to a human'', ''talk to a person'',
         ''talk to someone'', ''talk to a human'', ''real person'', ''human please'', ''customer service'',
         ''complain'', ''complaint'', ''not happy'', ''unhappy with'', ''speak to a manager'', ''speak to staff'',
         ''someone from the garage'']),
      (CALLBACK_REQUEST, phrase_pattern
        [''call me back'', ''call me please'', ''ring me back'', ''ring me please'', ''can someone call'',
         ''can you call me'', ''give me a call'', ''phone me back'', ''phone me please'', ''someone to call me'']),
      (CANCEL_APPOINTMENT, phrase_pattern
        [''cancel my'', ''cancel the'', ''cancel that appointment'', ''cancel that booking'', ''cancel appointment'',
         ''cancel booking'', ''cancel it please'', ''need to cancel'', ''want to cancel'', ''have to cancel'',
         ''got to cancel'', ''like to cancel'', ''wish to cancel'', ''please cancel'', ''no longer need'',
         ''don't need the appointment'', ''don't need my appointment'', ''don't want the appointment'',
         ''call off my appointment'']),
      (RESCHEDULE_APPOINTMENT, phrase_pattern
        [''reschedule'', ''re-schedule'', ''rearrange'', ''move my appointment'', ''move my booking'',
         ''move the appointment'', ''move it to'', ''change my appointment'', ''change my booking'',
         ''change the appointment'', ''change the time of my'', ''change the day of my'', ''push back my'',
         ''bring forward my'', ''need to move'', ''want to move'', ''need to change my appointment'',
         ''need to change my booking'', ''can't make it'', ''cant make it'', ''can't make my appointment'',
         ''can't make tomorrow'', ''can't make the appointment'', ''cannot make it'', ''cannot make my appointment'',
         ''can't come in'', ''cannot come in'', ''won't be able to make'', ''not able to make'', ''unable to make'',
         ''won't make my appointment'']),
      (MOT_EXPIRY_QUERY, phrase_pattern
        [''mot due'', ''mot expire'', ''mot expiry'', ''when is my mot'', ''mot run out'', ''mot renewal'']),
      (CHECK_APPOINTMENT, phrase_pattern
        [''when is my appointment'', ''when is my booking'', ''what time is my'', ''do i have anything booked'',
         ''do i have an appointment'', ''have i got an appointment'', ''have i got a booking'',
         ''check my appointment'', ''check my booking'', ''my next appointment'']),
      (APPOINTMENT_PRICE_QUERY, phrase_pattern
        [''how much is'', ''how much does'', ''how much for'', ''how much would'', ''how much will'', ''how much'',
         ''what does it cost'', ''what's the cost'', ''what is the cost'', ''price of'', ''price for'', ''prices'',
         ''pricing'', ''price list'', ''cost of'', ''cost for'', ''what do you charge'', ''how much do you charge'']),
      (BUSINESS_HOURS_QUERY, phrase_pattern
        [''opening hours'', ''opening time'', ''what time do you open'', ''what time do you close'',
         ''when do you open'', ''when do you close'', ''how late are you open'', ''are you open'',
         ''you open today'', ''you open tomorrow'', ''open on saturday'', ''open on sunday'', ''when are you open'',
         ''your hours'', ''what are your hours'', ''business hours'']),
      (BUSINESS_LOCATION_QUERY, phrase_pattern
        [''where are you'', ''where you are'', ''where you're'', ''where's your'', ''where is your'',
         ''where are you based'', ''where you based'', ''address'', ''your location'', ''where's it'', ''located'',
         ''how do i find you'', ''how to find you'', ''directions to you'', ''postcode'']),
      (APPOINTMENT_TYPE_QUERY, phrase_pattern
        [''what services'', ''which services'', ''what services do you'', ''what do you offer'', ''what can you do'',
         ''do you do mots'', ''do you do services'', ''what appointments'', ''types of appointment'',
         ''kind of appointments'', ''list of services'']),
      (CUSTOMER_DETAILS_QUERY, phrase_pattern
        [''my details'', ''my account'', ''my information'', ''what car do i have'', ''what vehicle do i have'',
         ''my vehicles'']),
      (CHECK_AVAILABILITY, phrase_pattern
        [''what slots'', ''what times'', ''what availability'', ''when can i come'', ''any availability'',
         ''are you free'']),
      (CREATE_BOOKING, phrase_pattern
        [''book'', ''booking'', ''appointment'', ''mot'', ''service'', ''diagnostic'', ''diagnostics'',
         ''get my car in'', ''bring my car in'', ''bring the car in'', ''get booked in'', ''get it booked'',
         ''come in for'', ''sort out my'', ''look at my car'', ''get my car looked at'', ''need my car seen''])]"

definition faq_intents :: "intent list" where
  "faq_intents = [BUSINESS_HOURS_QUERY, BUSINESS_LOCATION_QUERY, APPOINTMENT_PRICE_QUERY, APPOINTMENT_TYPE_QUERY]"

definition nav_intents :: "intent list" where
  "nav_intents = [RESET_FLOW, ABANDON_FLOW, GO_BACK]"

definition interrupt_intents :: "intent list" where
  "interrupt_intents =
     [SPEAK_TO_HUMAN, CALLBACK_REQUEST, CANCEL_APPOINTMENT, RESCHEDULE_APPOINTMENT, UPDATE_CUSTOMER_NAME]"

subsection \<open>Resolving\<close>

definition starts_match :: "pattern \<Rightarrow> string \<Rightarrow> bool" where
  "starts_match r t \<longleftrightarrow> match_at r (place_of t) \<noteq> None"

definition found_in :: "pattern \<Rightarrow> string \<Rightarrow> bool" where
  "found_in r t \<longleftrightarrow> search r t \<noteq> None"

definition detect_faq_intents :: "string \<Rightarrow> intent list" where
  "detect_faq_intents t =
     (let n = normalise t
      in filter (\<lambda>i. case map_of rules i of None \<Rightarrow> False | Some r \<Rightarrow> found_in r n) faq_intents)"

definition resolve_intent :: "string \<Rightarrow> intent" where
  "resolve_intent t =
     (let n = normalise t
      in if strip_text t = [] \<or> n = [] then UNKNOWN
         else if starts_match reset_pattern n then RESET_FLOW
         else if starts_match abandon_pattern n then ABANDON_FLOW
         else if starts_match go_back_pattern n then GO_BACK
         else case find (\<lambda>(i, r). found_in r n) rules of
                Some (i, _) \<Rightarrow> i
              | None \<Rightarrow>
                  if starts_match greeting_pattern n \<or> found_in help_pattern n \<or> n \<in> set help_words then GREETING
                  else if starts_match small_talk_pattern n then SMALL_TALK
                  else if CHR ''?'' \<in> set t \<or> found_in question_hint n then GENERAL_QUERY
                  else UNKNOWN)"

end
