(* ===== verification/Chat_Sessions.thy ===== *)
theory Chat_Sessions
  imports Outreach_Schema "HOL-Library.AList"
begin

text \<open>
  The life of a conversation, \<open>app/conversation/session_service.py\<close>, with the staff's view of it in
  \<open>conversation/queries.py\<close> and the routes \<open>takeover\<close> and \<open>resume-automation\<close> of
  \<open>communications/routes.py\<close>. Every operation commits. Rows stand in the order they were created, so the
  newest one is the last. An operation on a session takes the row and writes its successor back.
\<close>

subsection \<open>Reading\<close>

definition session_timeout :: "msg_channel \<Rightarrow> int" where
  "session_timeout channel = (if channel = VOICE then 30 * minute_us else 12 * 60 * minute_us)"

definition live_session :: "session \<Rightarrow> bool" where
  "live_session s \<longleftrightarrow> cv_status s = S_ACTIVE \<or> cv_status s = S_HUMAN_HANDOFF"

definition talks_with :: "uid \<Rightarrow> msg_channel \<Rightarrow> string \<Rightarrow> session \<Rightarrow> bool" where
  "talks_with g channel phone s \<longleftrightarrow> cv_garage s = g \<and> cv_channel s = channel \<and> cv_phone s = phone"

definition get_active_session :: "outreach \<Rightarrow> uid \<Rightarrow> msg_channel \<Rightarrow> string \<Rightarrow> session option" where
  "get_active_session b g channel phone =
     find (\<lambda>s. talks_with g channel phone s \<and> live_session s) (rev (or_sessions b))"

definition is_stale :: "session \<Rightarrow> instant \<Rightarrow> bool" where
  "is_stale s now =
     (let idle_too_long = session_timeout (cv_channel s) < now - cv_last_activity s
      in if cv_status s = S_HUMAN_HANDOFF then cv_channel s = VOICE \<and> idle_too_long else idle_too_long)"

definition already_processed :: "session \<Rightarrow> string option \<Rightarrow> bool" where
  "already_processed s message \<longleftrightarrow> has_text message \<and> cv_last_message s = message"

subsection \<open>Writing\<close>

definition put_session :: "session \<Rightarrow> world \<Rightarrow> world" where
  "put_session s w = commit (on_book (\<lambda>b. b\<lparr>or_sessions := row_set cv_id s (or_sessions b)\<rparr>) w)"

definition new_session :: "outreach \<Rightarrow> uid \<Rightarrow> msg_channel \<Rightarrow> string \<Rightarrow> uid option \<Rightarrow> instant \<Rightarrow> session" where
  "new_session b g channel phone customer now =
     \<lparr>cv_id = or_next b, cv_garage = g, cv_channel = channel, cv_phone = phone, cv_customer = customer,
      cv_status = S_ACTIVE, cv_intent = None, cv_step = None, cv_context = [], cv_handoff_reason = None,
      cv_last_message = None, cv_last_activity = now\<rparr>"

definition add_session :: "session \<Rightarrow> world \<Rightarrow> world" where
  "add_session s w = commit (on_book (\<lambda>b. b\<lparr>or_sessions := or_sessions b @ [s], or_next := or_next b + 1\<rparr>) w)"

definition get_or_create_session ::
  "uid \<Rightarrow> msg_channel \<Rightarrow> string \<Rightarrow> uid option \<Rightarrow> instant \<Rightarrow> world \<Rightarrow> session \<times> world" where
  "get_or_create_session g channel phone customer now w =
     (case get_active_session (wd_book w) g channel phone of
        None \<Rightarrow> (let s = new_session (wd_book w) g channel phone customer now in (s, add_session s w))
      | Some existing \<Rightarrow>
          if \<not> is_stale existing now then
            if customer \<noteq> None \<and> cv_customer existing = None
            then (existing\<lparr>cv_customer := customer\<rparr>, put_session (existing\<lparr>cv_customer := customer\<rparr>) w)
            else (existing, w)
          else
            let w' = put_session (existing\<lparr>cv_status := S_EXPIRED\<rparr>) w;
                s = new_session (wd_book w') g channel phone customer now
            in (s, add_session s w'))"

text \<open>\<open>dict.update\<close>.\<close>

definition merge_slots :: "slots \<Rightarrow> slots \<Rightarrow> slots" where
  "merge_slots context updates = foldl (\<lambda>c (k, v). AList.update k v c) context updates"

text \<open>What each operation makes of the row.\<close>

definition touched :: "instant \<Rightarrow> session \<Rightarrow> session" where
  "touched now s = s\<lparr>cv_last_activity := now\<rparr>"

definition at_step :: "workflow_step option \<Rightarrow> intent option \<Rightarrow> instant \<Rightarrow> slots \<Rightarrow> session \<Rightarrow> session" where
  "at_step step goal now updates s =
     s\<lparr>cv_step := step, cv_intent := (if goal \<noteq> None then goal else cv_intent s),
       cv_context := merge_slots (cv_context s) updates, cv_last_activity := now\<rparr>"

definition processed :: "string option \<Rightarrow> session \<Rightarrow> session" where
  "processed message s = (if has_text message then s\<lparr>cv_last_message := message\<rparr> else s)"

definition completed :: "session \<Rightarrow> session" where
  "completed s = s\<lparr>cv_status := S_COMPLETED, cv_step := None\<rparr>"

definition cleared :: "instant \<Rightarrow> session \<Rightarrow> session" where
  "cleared now s = s\<lparr>cv_context := [], cv_step := None, cv_last_activity := now\<rparr>"

definition handed_off :: "string \<Rightarrow> instant \<Rightarrow> session \<Rightarrow> session" where
  "handed_off reason now s =
     s\<lparr>cv_status := S_HUMAN_HANDOFF, cv_handoff_reason := Some reason, cv_last_activity := now\<rparr>"

definition resumed :: "instant \<Rightarrow> session \<Rightarrow> session" where
  "resumed now s =
     s\<lparr>cv_status := S_ACTIVE, cv_handoff_reason := None, cv_intent := None, cv_step := None, cv_context := [],
       cv_last_activity := now\<rparr>"

subsection \<open>The sweep\<close>

definition sweepable :: "session \<Rightarrow> bool" where
  "sweepable s \<longleftrightarrow> cv_status s = S_ACTIVE \<or> cv_status s = S_HUMAN_HANDOFF \<and> cv_channel s = VOICE"

definition expire_stale_sessions :: "instant \<Rightarrow> world \<Rightarrow> nat \<times> world" where
  "expire_stale_sessions now w =
     (let stale = map cv_id (filter (\<lambda>s. is_stale s now) (filter sweepable (or_sessions (wd_book w))))
      in if stale = [] then (0, w)
         else (length stale,
               commit (on_book (\<lambda>b. b\<lparr>or_sessions :=
                 map (\<lambda>s. if cv_id s \<in> set stale then s\<lparr>cv_status := S_EXPIRED\<rparr> else s) (or_sessions b)\<rparr>) w)))"

subsection \<open>The staff\<close>

definition list_handoff_sessions :: "outreach \<Rightarrow> uid \<Rightarrow> session list" where
  "list_handoff_sessions b g =
     sort_key (\<lambda>s. - cv_last_activity s)
       (filter (\<lambda>s. cv_garage s = g \<and> cv_channel s = WHATSAPP \<and> cv_status s = S_HUMAN_HANDOFF) (or_sessions b))"

definition get_conversation_session :: "outreach \<Rightarrow> uid \<Rightarrow> string \<Rightarrow> session option" where
  "get_conversation_session b g phone = find (talks_with g WHATSAPP phone) (rev (or_sessions b))"

text \<open>\<open>ConversationTakeover.post\<close> and \<open>ConversationResumeAutomation.post\<close>; \<open>None\<close> is the 404.\<close>

definition take_over :: "uid \<Rightarrow> string \<Rightarrow> string \<Rightarrow> string \<Rightarrow> instant \<Rightarrow> world \<Rightarrow> session option \<times> world" where
  "take_over g phone first_name last_name now w =
     (case get_conversation_session (wd_book w) g phone of
        None \<Rightarrow> (None, w)
      | Some s \<Rightarrow>
          if \<not> live_session s then (None, w)
          else let s' = handed_off (''Taken over by '' @ first_name @ '' '' @ last_name @ ''.'') now s
               in (Some s', put_session s' w))"

definition resume_automation :: "uid \<Rightarrow> string \<Rightarrow> instant \<Rightarrow> world \<Rightarrow> session option \<times> world" where
  "resume_automation g phone now w =
     (case get_conversation_session (wd_book w) g phone of
        None \<Rightarrow> (None, w)
      | Some s \<Rightarrow>
          if cv_status s \<noteq> S_HUMAN_HANDOFF then (None, w)
          else (Some (resumed now s), put_session (resumed now s) w))"

end
