(* ===== verification/Chat_Turns.thy ===== *)
theory Chat_Turns
  imports Chat_Actions Service_Matching Intents Chat_Sessions
begin

text \<open>
  What the flows of \<open>app/conversation/workflows.py\<close> share: the words for yes and no, \<open>StepResult\<close>,
  \<open>ConversationContext\<close> and reading its slots. Reading a slot that is missing or null where a date is needed raises.
\<close>

subsection \<open>Yes and no\<close>

definition yes_words :: "string list" where
  "yes_words =
     [''yes'', ''yep'', ''yeah'', ''yup'', ''ya'', ''y'', ''correct'', ''confirm'', ''confirmed'', ''please'',
      ''sure'', ''ok'', ''okay'', ''perfect'', ''great'', ''brilliant'', ''lovely'', ''definitely'', ''absolutely'']"

definition yes_phrases :: "string list" where
  "yes_phrases =
     [''go ahead'', ''go for it'', ''please do'', ''yes please'', ''sounds good'', ''sounds great'', ''that works'',
      ''that's fine'', ''thats fine'', ''that's great'', ''book it'', ''book me in'', ''lets do it'', ''let's do it'',
      ''do it'']"

definition no_words :: "string list" where
  "no_words = [''no'', ''nope'', ''not'', ''cancel'', ''nah'', ''n'', ''dont'', ''stop'']"

definition no_phrases :: "string list" where
  "no_phrases =
     [''don't'', ''do not'', ''never mind'', ''nevermind'', ''leave it'', ''not now'', ''not yet'', ''forget it'',
      ''changed my mind'', ''no thanks'', ''no thank you'', ''cancel that'']"

definition has_cue :: "string \<Rightarrow> string list \<Rightarrow> bool" where
  "has_cue text_lower cues \<longleftrightarrow> list_ex (\<lambda>p. contains p text_lower) cues"

definition answer_of :: "string \<Rightarrow> string" where
  "answer_of t = rstrip_of ''.!'' (map lower_char (strip_text t))"

definition is_yes :: "string \<Rightarrow> bool" where
  "is_yes t \<longleftrightarrow>
     (let lowered = answer_of t in lowered \<in> set yes_words \<or> starts_with ''yes'' lowered \<or> has_cue lowered yes_phrases)"

definition is_no :: "string \<Rightarrow> bool" where
  "is_no t \<longleftrightarrow>
     (let lowered = answer_of t in lowered \<in> set no_words \<or> starts_with ''no'' lowered \<or> has_cue lowered no_phrases)"

subsection \<open>Replies\<close>

text \<open>
  A reply is the wording of the code with the values it formats: dates, times, prices, the name of the
  business, the link to its terms.
\<close>

datatype fragment =
  Words string
| Long_Day date
| Full_Day date
| Time_Of_Day clock
| Pounds pence
| Number int
| New_Line
| Business uid
| Terms_Link uid string

type_synonym reply = "fragment list"

fun joined_lines :: "reply list \<Rightarrow> reply" where
  "joined_lines [] = []"
| "joined_lines [r] = r"
| "joined_lines (r # q # rs) = r @ New_Line # joined_lines (q # rs)"

fun comma_list :: "reply list \<Rightarrow> reply" where
  "comma_list [] = []"
| "comma_list [r] = r"
| "comma_list (r # q # rs) = r @ Words '', '' # comma_list (q # rs)"

text \<open>Lines numbered from 1.\<close>

definition numbered :: "reply list \<Rightarrow> reply" where
  "numbered rs = joined_lines (map (\<lambda>(i, r). Number (int i + 1) # Words ''. '' # r) (enumerate 0 rs))"

datatype performed =
  BOOKED uid | APPOINTMENT_CANCELLED_BY_CHAT uid | APPOINTMENT_MOVED_BY_CHAT uid
| RENAMED uid string string | CALLBACK_CREATED uid

record step_result =
  sr_reply :: reply
  sr_step :: "workflow_step option"
  sr_updates :: slots
  sr_actions :: "performed list"
  sr_handoff :: "string option"
  sr_complete :: bool
  sr_reset :: bool

text \<open>The usual ways to end a step: a question, a finished flow, a person takes over (with the reason).\<close>

definition ask :: "reply \<Rightarrow> workflow_step \<Rightarrow> slots \<Rightarrow> step_result" where
  "ask r step updates =
     \<lparr>sr_reply = r, sr_step = Some step, sr_updates = updates, sr_actions = [], sr_handoff = None,
      sr_complete = False, sr_reset = False\<rparr>"

definition finish :: "reply \<Rightarrow> step_result" where
  "finish r =
     \<lparr>sr_reply = r, sr_step = None, sr_updates = [], sr_actions = [], sr_handoff = None, sr_complete = True,
      sr_reset = False\<rparr>"

definition to_human :: "reply \<Rightarrow> string \<Rightarrow> step_result" where
  "to_human r reason = (finish r)\<lparr>sr_handoff := Some reason, sr_complete := False\<rparr>"

definition done_with :: "reply \<Rightarrow> performed \<Rightarrow> step_result" where
  "done_with r p = (finish r)\<lparr>sr_actions := [p]\<rparr>"

subsection \<open>The context of a turn\<close>

record turn =
  tn_garage :: garage
  tn_session :: session
  tn_channel :: msg_channel
  tn_phone :: string
  tn_customer :: "customer option"
  tn_now :: instant
  tn_max_unresolved :: int
  tn_address :: "string option \<times> string option"
  tn_db :: db

record 'n chat_setup =
  ct_config :: "'n comm_config"
  ct_meanwhile :: "db \<Rightarrow> db"
  ct_draws :: chat_draws
  ct_text :: "reply \<Rightarrow> string"
  ct_action_text :: "performed \<Rightarrow> string"
  ct_max_unresolved :: int
  ct_address :: "uid \<Rightarrow> string option \<times> string option"

definition slot_of :: "turn \<Rightarrow> string \<Rightarrow> slot_value option" where
  "slot_of t k = map_of (cv_context (tn_session t)) k"

definition turn_today :: "turn \<Rightarrow> date" where
  "turn_today t = local_today (tn_garage t) (tn_now t)"

definition row_slot :: "turn \<Rightarrow> string \<Rightarrow> uid option" where
  "row_slot t k = (case slot_of t k of Some (ROW i) \<Rightarrow> Some i | _ \<Rightarrow> None)"

definition rows_slot :: "turn \<Rightarrow> string \<Rightarrow> uid list" where
  "rows_slot t k = (case slot_of t k of Some (ROWS is) \<Rightarrow> is | _ \<Rightarrow> [])"

definition text_slot :: "turn \<Rightarrow> string \<Rightarrow> string option" where
  "text_slot t k = (case slot_of t k of Some (TEXT s) \<Rightarrow> (if s = [] then None else Some s) | _ \<Rightarrow> None)"

definition count_slot :: "turn \<Rightarrow> string \<Rightarrow> int" where
  "count_slot t k = (case slot_of t k of Some (COUNT n) \<Rightarrow> n | _ \<Rightarrow> 0)"

definition day_slot_value :: "turn \<Rightarrow> string \<Rightarrow> date option" where
  "day_slot_value t k = (case slot_of t k of Some (DAY d) \<Rightarrow> Some d | _ \<Rightarrow> None)"

definition clock_slot_value :: "turn \<Rightarrow> string \<Rightarrow> clock option" where
  "clock_slot_value t k = (case slot_of t k of Some (CLOCK c) \<Rightarrow> Some c | _ \<Rightarrow> None)"

text \<open>\<open>date.fromisoformat(slots[k])\<close>.\<close>

definition need_day :: "turn \<Rightarrow> string \<Rightarrow> failure + date" where
  "need_day t k = (case day_slot_value t k of Some d \<Rightarrow> Inr d | None \<Rightarrow> Inl (MISSING_SLOT k))"

definition need_clock :: "turn \<Rightarrow> string \<Rightarrow> failure + clock" where
  "need_clock t k = (case clock_slot_value t k of Some c \<Rightarrow> Inr c | None \<Rightarrow> Inl (MISSING_SLOT k))"

definition get_appointment_type :: "turn \<Rightarrow> uid option \<Rightarrow> appointment_type option" where
  "get_appointment_type t i =
     (case i of
        None \<Rightarrow> None
      | Some i \<Rightarrow> find (\<lambda>ty. ty_garage ty = g_id (tn_garage t) \<and> ty_id ty = i \<and> ty_status ty = TYPE_ACTIVE) (db_types (tn_db t)))"

definition service_names :: "turn \<Rightarrow> string list" where
  "service_names t = map ty_name (get_appointment_types (tn_db t) (tn_garage t))"

definition own_vehicles :: "turn \<Rightarrow> vehicle list" where
  "own_vehicles t = (case tn_customer t of None \<Rightarrow> [] | Some c \<Rightarrow> find_vehicles_for_customer (tn_db t) c)"

text \<open>\<open>for v in ctx.customer.vehicles: if str(v.id) == slots['vehicle_id']\<close>.\<close>

definition chosen_vehicle :: "turn \<Rightarrow> uid option \<Rightarrow> vehicle option" where
  "chosen_vehicle t i =
     (case (tn_customer t, i) of
        (Some c, Some i) \<Rightarrow> find (\<lambda>v. ve_customer v = cu_id c \<and> ve_id v = i) (rev (db_vehicles (tn_db t)))
      | _ \<Rightarrow> None)"

definition pick_from_list :: "string \<Rightarrow> 'a list \<Rightarrow> 'a option" where
  "pick_from_list t options =
     (let s = strip_text t
      in if s \<noteq> [] \<and> list_all is_digit s \<and> 1 \<le> number_of s \<and> number_of s \<le> length options
         then Some (options ! (number_of s - 1)) else None)"

text \<open>
  A booking as the customer is told of it: \<open>start_time.date()\<close> and \<open>start_time.strftime('%H:%M')\<close> of the
  stored instant, in UTC.
\<close>

definition type_name_of :: "turn \<Rightarrow> appointment \<Rightarrow> string \<Rightarrow> string" where
  "type_name_of t a otherwise =
     (case find_type (tn_db t) (Some (ap_type a)) of None \<Rightarrow> otherwise | Some ty \<Rightarrow> ty_name ty)"

definition told_date :: "appointment \<Rightarrow> date" where
  "told_date a = ap_start a div day_us"

definition told_time :: "appointment \<Rightarrow> clock" where
  "told_time a = ap_start a mod day_us"

definition appointment_line :: "turn \<Rightarrow> appointment \<Rightarrow> reply" where
  "appointment_line t a =
     [Words (type_name_of t a ''Appointment''), Words '' on '', Long_Day (told_date a), Words '' at '', Time_Of_Day (told_time a)]"

definition upcoming :: "turn \<Rightarrow> appointment list" where
  "upcoming t =
     (case tn_customer t of None \<Rightarrow> [] | Some c \<Rightarrow> get_upcoming_appointments (tn_db t) (tn_garage t) c (tn_now t))"

definition find_upcoming :: "turn \<Rightarrow> uid option \<Rightarrow> appointment option" where
  "find_upcoming t i = (case i of None \<Rightarrow> None | Some i \<Rightarrow> find (\<lambda>a. ap_id a = i) (upcoming t))"

subsection \<open>The reasons of the services as text\<close>

fun slot_reason_text :: "slot_reason \<Rightarrow> string" where
  "slot_reason_text PAST = ''past''"
| "slot_reason_text OUT_OF_WINDOW = ''out_of_window''"
| "slot_reason_text CLOSED = ''closed''"
| "slot_reason_text OUTSIDE_HOURS = ''outside_hours''"
| "slot_reason_text TOO_SOON = ''too_soon''"
| "slot_reason_text FULL = ''full''"

fun change_refusal_text :: "change_refusal \<Rightarrow> string" where
  "change_refusal_text NOT_FOUND = ''not_found''"
| "change_refusal_text ALREADY_CANCELLED = ''already_cancelled''"
| "change_refusal_text TERMINAL_APPOINTMENT = ''terminal_appointment''"
| "change_refusal_text (SLOT_REFUSED r) = slot_reason_text r"
| "change_refusal_text EMPLOYEE_CONFLICT = ''employee_conflict''"
| "change_refusal_text INVALID_NAME = ''invalid_name''"
| "change_refusal_text CROSS_TENANT = ''cross_tenant''"

end
