(* ===== verification/Chat_Booking.thy ===== *)
theory Chat_Booking
  imports Chat_Turns
begin

text \<open>
  The booking flow of \<open>app/conversation/workflows.py\<close>: which service, whose name, which day and time,
  which vehicle, and the final yes. Until that yes every step only reads; a customer may correct an
  earlier answer at any step (\<open>maybe_correct\<close>).
\<close>

subsection \<open>Offering times\<close>

definition within_window :: "(clock \<times> clock) option \<Rightarrow> slot \<Rightarrow> bool" where
  "within_window window s \<longleftrightarrow>
     (case window of None \<Rightarrow> True
      | Some (start_bound, end_bound) \<Rightarrow> start_bound \<le> sl_start s * minute_us \<and> sl_start s * minute_us \<le> end_bound)"

definition format_slots :: "slot list \<Rightarrow> reply" where
  "format_slots slots = comma_list (map (\<lambda>s. [Time_Of_Day (sl_start s * minute_us)]) (take 4 slots))"

definition long_days :: "date list \<Rightarrow> reply" where
  "long_days days = comma_list (map (\<lambda>d. [Long_Day d]) days)"

definition offer_times_for_date ::
  "turn \<Rightarrow> date \<Rightarrow> slots \<Rightarrow> (clock \<times> clock) option \<Rightarrow> appointment_type option \<Rightarrow> failure + step_result" where
  "offer_times_for_date t day updates window given =
     (let ty = (case given of Some ty \<Rightarrow> Some ty | None \<Rightarrow> get_appointment_type t (row_slot t ''appointment_type_id''))
      in checks (get_availability_for_day (tn_db t) (tn_garage t) day ty None (tn_now t)) (\<lambda>payload.
           let slots = filter (within_window window) (free_slots payload)
           in if slots \<noteq> [] then
                Inr (ask ([Words ''For '', Long_Day day, Words '' I have ''] @ format_slots slots
                          @ [Words '' available. Which would you like?''])
                       AWAITING_TIME (updates @ [(''preferred_date'', DAY day)]))
              else checks (find_next_available_days (tn_db t) (tn_garage t) ty day (tn_now t) 3) (\<lambda>alt_days.
                if alt_days \<noteq> [] then
                  Inr (ask ([Words ''I'm sorry, there's nothing free on '', Long_Day day,
                             Words ''. The next available days are ''] @ long_days alt_days
                            @ [Words '' - would one of those work?''])
                         AWAITING_DATE updates)
                else
                  Inr (to_human [Words ''I'm sorry, I can't find any availability in the bookable window at the moment - I'll get a member of staff to help you find a time.'']
                         ''No availability found for the requested service.''))))"

text \<open>The window of a phrase is only worked out where the times are offered.\<close>

definition offer_times_in_window ::
  "turn \<Rightarrow> date \<Rightarrow> slots \<Rightarrow> string \<Rightarrow> appointment_type option \<Rightarrow> failure + step_result" where
  "offer_times_in_window t day updates said given =
     checks (parse_time_window_phrase said) (\<lambda>window. offer_times_for_date t day updates window given)"

subsection \<open>Which service\<close>

definition after_type_resolved :: "turn \<Rightarrow> appointment_type \<Rightarrow> string \<Rightarrow> failure + step_result" where
  "after_type_resolved t ty said =
     (let updates = [(''appointment_type_id'', ROW (ty_id ty)), (''appointment_type_name'', TEXT (ty_name ty)),
                     (''clarify_rounds'', COUNT 0)];
          stated_day = not_past (turn_today t) (parse_date_phrase said (turn_today t));
          great = [Words ''Great, I can help book a '', Words (ty_name ty)]
      in case tn_customer t of
           None \<Rightarrow>
             Inr (ask (great @ [Words ''. Could I get your full name first?'']) AWAITING_NAME
                    (updates @ (case stated_day of None \<Rightarrow> [] | Some day \<Rightarrow> [(''preferred_date'', DAY day)])))
         | Some _ \<Rightarrow>
             (case stated_day of
                Some day \<Rightarrow> offer_times_in_window t day updates said (Some ty)
              | None \<Rightarrow> Inr (ask (great @ [Words ''. What day would you like to come in?'']) AWAITING_DATE updates)))"

definition cannot_match :: step_result where
  "cannot_match =
     to_human [Words ''I'm having trouble matching that to one of our services - I'll get a member of the team to help you book.'']
       ''Could not match a bookable service after repeated clarification.''"

definition start_booking :: "turn \<Rightarrow> string \<Rightarrow> failure + step_result" where
  "start_booking t said =
     (let types = get_appointment_types (tn_db t) (tn_garage t);
          match = match_appointment_type (tn_db t) (g_id (tn_garage t)) said;
          rounds = count_slot t ''clarify_rounds'';
          names = join_texts '', '' (map ty_name types)
      in if types = [] then
           Inr (to_human [Words ''I'm sorry, this business hasn't set up any bookable services yet - I'll get a member of staff to help you.'']
                  ''No appointment types configured for this business.'')
         else case mt_matched match of
           Some ty \<Rightarrow> after_type_resolved t ty said
         | None \<Rightarrow>
             if is_ambiguous match then
               Inr (ask [Words ''I can help with that. Did you mean '', Words (join_texts '' or '' (map ty_name (mt_candidates match))), Words ''?'']
                      AWAITING_TYPE_CHOICE [(''candidate_type_ids'', ROWS (map ty_id (mt_candidates match)))])
             else if tn_max_unresolved t \<le> rounds then Inr cannot_match
             else
               Inr (ask (if rounds = 0 then [Words ''Sure - which of these would you like? '', Words names]
                         else [Words ''Sorry, I didn't catch which service you need. We offer: '', Words names, Words ''. Which would you like?''])
                      AWAITING_TYPE [(''clarify_rounds'', COUNT (rounds + 1))]))"

subsection \<open>Which vehicle\<close>

definition vehicle_name :: "vehicle \<Rightarrow> string \<Rightarrow> string" where
  "vehicle_name v otherwise =
     (let parts = map the (filter has_text [ve_make v, ve_model v])
      in if parts = [] then otherwise else join_texts '' '' parts)"

definition after_time_resolved :: "turn \<Rightarrow> slots \<Rightarrow> step_result" where
  "after_time_resolved t updates =
     (case own_vehicles t of
        [] \<Rightarrow> ask [Words ''What's the vehicle's registration number?''] AWAITING_VEHICLE_REG updates
      | [v] \<Rightarrow>
          ask [Words ''Is this booking for your '', Words (vehicle_name v ''vehicle''), Words '', '', Words (ve_registration v), Words ''?'']
            AWAITING_VEHICLE_CONFIRM (updates @ [(''vehicle_id'', ROW (ve_id v))])
      | vs \<Rightarrow>
          ask ([Words ''I have a couple of vehicles for you:'', New_Line]
               @ numbered (map (\<lambda>v. [Words (vehicle_name v ''Vehicle''), Words '' - '', Words (ve_registration v)]) vs)
               @ [New_Line, Words ''Which one is this for?''])
            AWAITING_VEHICLE_CHOICE (updates @ [(''candidate_vehicle_ids'', ROWS (map ve_id vs))]))"

subsection \<open>Corrections\<close>

definition go_back_cues :: "string list" where
  "go_back_cues = [''go back'', ''step back'', ''back a step'', ''previous step'', ''start over'', ''start again'']"

definition change_date_cues :: "string list" where
  "change_date_cues =
     [''another day'', ''a different day'', ''different day'', ''other day'', ''another date'', ''different date'',
      ''change the date'', ''change the day'', ''change date'', ''wrong day'', ''not that day'']"

definition change_type_cues :: "string list" where
  "change_type_cues =
     [''change the service'', ''different service'', ''change service'', ''wrong service'', ''different appointment'',
      ''change the appointment type'']"

definition correction_hints :: "string list" where
  "correction_hints =
     [''actually'', ''instead'', ''changed my mind'', ''change my mind'', ''rather'', ''can we do'', ''could we do'',
      ''what about'', ''how about'', ''make it'', ''let's do'', ''lets do'']"

definition post_date_booking_steps :: "workflow_step list" where
  "post_date_booking_steps =
     [AWAITING_TIME, AWAITING_VEHICLE_CONFIRM, AWAITING_VEHICLE_CHOICE, AWAITING_VEHICLE_REG, AWAITING_BOOKING_CONFIRMATION]"

definition list_types_prompt :: "turn \<Rightarrow> string \<Rightarrow> step_result" where
  "list_types_prompt t prefix =
     ask [Words prefix, Words '' Which service would you like? '', Words (join_texts '', '' (service_names t))] AWAITING_TYPE []"

definition restart_date :: step_result where
  "restart_date =
     ask [Words ''Sure - what day would you like to come in instead?''] AWAITING_DATE
       [(''preferred_date'', NO_VALUE), (''preferred_time'', NO_VALUE)]"

definition apply_date_change :: "turn \<Rightarrow> date \<Rightarrow> string \<Rightarrow> failure + step_result" where
  "apply_date_change t day said = offer_times_in_window t day [(''preferred_time'', NO_VALUE)] said None"

definition apply_type_change :: "turn \<Rightarrow> appointment_type \<Rightarrow> string \<Rightarrow> failure + step_result" where
  "apply_type_change t ty said =
     (let updates = [(''appointment_type_id'', ROW (ty_id ty)), (''appointment_type_name'', TEXT (ty_name ty)),
                     (''preferred_time'', NO_VALUE)]
      in case not_past (turn_today t) (day_slot_value t ''preferred_date'') of
           Some day \<Rightarrow> offer_times_in_window t day updates said (Some ty)
         | None \<Rightarrow>
             Inr (ask [Words ''No problem, I've switched that to a '', Words (ty_name ty), Words ''. What day would you like to come in?'']
                    AWAITING_DATE (updates @ [(''preferred_date'', NO_VALUE)])))"

definition step_back :: "turn \<Rightarrow> workflow_step option \<Rightarrow> failure + step_result" where
  "step_back t step =
     (if step \<in> {Some AWAITING_NAME, Some AWAITING_DATE, Some AWAITING_TYPE_CHOICE}
      then Inr (list_types_prompt t ''No problem, let's start again.'')
      else if step = Some AWAITING_TIME then Inr restart_date
      else if step \<in> {Some AWAITING_VEHICLE_CONFIRM, Some AWAITING_VEHICLE_CHOICE, Some AWAITING_VEHICLE_REG} then
        (case day_slot_value t ''preferred_date'' of
           Some day \<Rightarrow>
             offer_times_for_date t day
               [(''preferred_time'', NO_VALUE), (''vehicle_id'', NO_VALUE), (''vehicle_registration'', NO_VALUE)] None None
         | None \<Rightarrow> Inr restart_date)
      else if step = Some AWAITING_BOOKING_CONFIRMATION then Inr (after_time_resolved t [])
      else Inr (list_types_prompt t ''No problem.''))"

definition maybe_correct :: "turn \<Rightarrow> string \<Rightarrow> failure + step_result option" where
  "maybe_correct t said =
     (let lowered = map lower_char (strip_text said);
          step = cv_step (tn_session t);
          other_type =
            (case row_slot t ''appointment_type_id'' of
               None \<Rightarrow> None
             | Some current \<Rightarrow>
                 (case mt_matched (match_appointment_type (tn_db t) (g_id (tn_garage t)) said) of
                    Some ty \<Rightarrow>
                      if ty_id ty \<noteq> current \<and> has_cue lowered (change_type_cues @ correction_hints) then Some ty else None
                  | None \<Rightarrow> None));
          correct = (\<lambda>r. map_sum id Some r)
      in if lowered = [] then Inr None
         else if has_cue lowered go_back_cues then correct (step_back t step)
         else case other_type of
           Some ty \<Rightarrow> correct (apply_type_change t ty said)
         | None \<Rightarrow>
             if step \<in> Some ` set post_date_booking_steps then
               (case not_past (turn_today t) (parse_date_phrase said (turn_today t)) of
                  Some day \<Rightarrow> correct (apply_date_change t day said)
                | None \<Rightarrow> if has_cue lowered change_date_cues then Inr (Some restart_date) else Inr None)
             else Inr None)"

text \<open>A handler that first looks for a correction.\<close>

definition corrected :: "turn \<Rightarrow> string \<Rightarrow> (failure + step_result) \<Rightarrow> failure + step_result" where
  "corrected t said otherwise =
     checks (maybe_correct t said) (\<lambda>c. case c of Some r \<Rightarrow> Inr r | None \<Rightarrow> otherwise)"

subsection \<open>One handler per question\<close>

definition handle_awaiting_type_choice :: "turn \<Rightarrow> string \<Rightarrow> failure + step_result" where
  "handle_awaiting_type_choice t said =
     corrected t said
       (let ids = rows_slot t ''candidate_type_ids'';
            candidates = filter (\<lambda>ty. ty_id ty \<in> set ids) (get_appointment_types (tn_db t) (tn_garage t));
            matched = (case mt_matched (match_appointment_type (tn_db t) (g_id (tn_garage t)) said) of
                         Some ty \<Rightarrow> if ty_id ty \<in> set ids then Some ty else None | None \<Rightarrow> None);
            named = find (\<lambda>ty. contains (map lower_char (ty_name ty)) (map lower_char said)) candidates;
            rounds = count_slot t ''clarify_rounds''
        in case or_else matched named of
             Some ty \<Rightarrow> after_type_resolved t ty []
           | None \<Rightarrow>
               if tn_max_unresolved t \<le> rounds then Inr cannot_match
               else Inr (ask [Words ''Sorry, just to confirm - '', Words (join_texts '' or '' (map ty_name candidates)), Words ''?'']
                           AWAITING_TYPE_CHOICE [(''clarify_rounds'', COUNT (rounds + 1))]))"

definition handle_awaiting_name :: "turn \<Rightarrow> string \<Rightarrow> failure + step_result" where
  "handle_awaiting_name t said =
     corrected t said
       (case split_words said of
          given # surname # others \<Rightarrow>
            (let updates = [(''customer_first_name'', TEXT given), (''customer_last_name'', TEXT (join_texts '' '' (surname # others)))]
             in case not_past (turn_today t) (day_slot_value t ''preferred_date'') of
                  Some day \<Rightarrow> offer_times_for_date t day (updates @ [(''preferred_date'', NO_VALUE)]) None None
                | None \<Rightarrow>
                    Inr (ask [Words ''Thanks '', Words given, Words ''. What day would you like to come in?''] AWAITING_DATE updates))
        | _ \<Rightarrow> Inr (ask [Words ''Sorry, could you give me your first and last name?''] AWAITING_NAME []))"

definition handle_awaiting_date :: "turn \<Rightarrow> string \<Rightarrow> failure + step_result" where
  "handle_awaiting_date t said =
     corrected t said
       (case parse_date_phrase said (turn_today t) of
          None \<Rightarrow>
            Inr (ask [Words ''Sorry, what day would you like to come in? You can give me a weekday, \"tomorrow\", or a date like \"24th September\".'']
                   AWAITING_DATE [])
        | Some day \<Rightarrow>
            if day < turn_today t then
              Inr (ask [Words ''That date's already passed - what day would you like instead?''] AWAITING_DATE [])
            else let latest = latest_bookable_day (tn_garage t) (tn_now t)
            in if latest < day then
                 Inr (ask [Words ''We can only take bookings up to '', Long_Day latest,
                           Words '' at the moment. Could you pick a day on or before then?''] AWAITING_DATE [])
               else offer_times_in_window t day [] said None)"

definition handle_awaiting_time :: "turn \<Rightarrow> string \<Rightarrow> failure + step_result" where
  "handle_awaiting_time t said =
     corrected t said
       (checks (need_day t ''preferred_date'') (\<lambda>day.
        checks (parse_exact_time_phrase said) (\<lambda>exact.
          case exact of
            None \<Rightarrow>
              checks (parse_time_window_phrase said) (\<lambda>window.
                if window \<noteq> None then offer_times_for_date t day [] window None
                else Inr (ask [Words ''Sorry, what time would you like (e.g. 10:30)?''] AWAITING_TIME []))
          | Some time \<Rightarrow>
              let ty = get_appointment_type t (row_slot t ''appointment_type_id'')
              in if revalidate_slot (tn_db t) (tn_garage t) day time ty (tn_now t) \<noteq> None
                 then offer_times_for_date t day [] None None
                 else Inr (after_time_resolved t [(''preferred_time'', CLOCK time)]))))"

text \<open>The summary is read from the slots with the updates of this step already in them.\<close>

definition with_updates :: "turn \<Rightarrow> slots \<Rightarrow> turn" where
  "with_updates t updates =
     t\<lparr>tn_session := (tn_session t)\<lparr>cv_context := merge_slots (cv_context (tn_session t)) updates\<rparr>\<rparr>"

definition booked_registration :: "turn \<Rightarrow> string option" where
  "booked_registration t =
     (case text_slot t ''vehicle_registration'' of
        Some r \<Rightarrow> Some r
      | None \<Rightarrow> map_option ve_registration (chosen_vehicle t (row_slot t ''vehicle_id'')))"

definition to_confirmation :: "turn \<Rightarrow> slots \<Rightarrow> failure + step_result" where
  "to_confirmation t0 updates =
     (let t = with_updates t0 updates;
          ty = get_appointment_type t (row_slot t ''appointment_type_id'');
          name = (case ty of Some ty \<Rightarrow> ty_name ty
                  | None \<Rightarrow> (case slot_of t ''appointment_type_name'' of Some (TEXT n) \<Rightarrow> n | _ \<Rightarrow> ''Appointment''));
          price = Option.bind ty ty_base_price;
          duration = Option.bind ty ty_duration
      in checks (need_day t ''preferred_date'') (\<lambda>day.
         checks (need_clock t ''preferred_time'') (\<lambda>time.
           Inr (ask ([Words ''Here's what I have:'', New_Line, Words name, New_Line, Long_Day day, New_Line, Time_Of_Day time, New_Line,
                      Words (case booked_registration t of Some r \<Rightarrow> r | None \<Rightarrow> ''(vehicle not given)''), New_Line,
                      (case price of Some p \<Rightarrow> if p \<noteq> 0 then Pounds p else Words ''to be confirmed'' | None \<Rightarrow> Words ''to be confirmed'')]
                     @ (case duration of
                          Some m \<Rightarrow> if m \<noteq> 0 then [New_Line, Words ''Approx. '', Number m, Words '' minutes''] else [] | None \<Rightarrow> [])
                     @ (if has_terms (tn_garage t) then
                          [New_Line, New_Line, Words ''Before it goes through, you'll need to accept '', Business (g_id (tn_garage t)),
                           Words [CHR 0x27], Words ''s terms and conditions - I'll send you a link.''] else [])
                     @ [New_Line, New_Line, Words ''Shall I go ahead and request this booking?''])
                  AWAITING_BOOKING_CONFIRMATION updates))))"

definition handle_awaiting_vehicle_confirm :: "turn \<Rightarrow> string \<Rightarrow> failure + step_result" where
  "handle_awaiting_vehicle_confirm t said =
     corrected t said
       (if is_yes said then to_confirmation t []
        else if is_no said then
          Inr (ask [Words ''No problem - what's the registration number for this booking?''] AWAITING_VEHICLE_REG [(''vehicle_id'', NO_VALUE)])
        else Inr (ask [Words ''Sorry, is that the right vehicle - yes or no?''] AWAITING_VEHICLE_CONFIRM []))"

definition staff_will_look :: "string \<Rightarrow> step_result" where
  "staff_will_look reason = to_human [Words ''I'll get a member of staff to look into that for you.''] reason"

text \<open>An answer that is a number of the list or the registration of one of the customer's own vehicles.\<close>

definition picked_vehicle :: "turn \<Rightarrow> customer \<Rightarrow> string \<Rightarrow> vehicle option" where
  "picked_vehicle t c said =
     (let ids = rows_slot t ''candidate_vehicle_ids'';
          vehicles = filter (\<lambda>v. ve_id v \<in> set ids) (find_vehicles_for_customer (tn_db t) c)
      in or_else (pick_from_list said vehicles) (find_customer_vehicle_by_registration (tn_db t) c said))"

definition handle_awaiting_vehicle_choice :: "turn \<Rightarrow> string \<Rightarrow> failure + step_result" where
  "handle_awaiting_vehicle_choice t said =
     corrected t said
       (case tn_customer t of
          None \<Rightarrow> Inr (staff_will_look ''Vehicle choice from unrecognised number.'')
        | Some c \<Rightarrow>
            (case picked_vehicle t c said of
               None \<Rightarrow>
                 Inr (ask [Words ''Sorry, which number was that - or you can just give me the registration?''] AWAITING_VEHICLE_CHOICE [])
             | Some v \<Rightarrow> to_confirmation t [(''vehicle_id'', ROW (ve_id v))]))"

definition handle_awaiting_vehicle_reg :: "turn \<Rightarrow> string \<Rightarrow> failure + step_result" where
  "handle_awaiting_vehicle_reg t said =
     corrected t said
       (let registration = normalize_registration said;
            existing = Option.bind (tn_customer t) (\<lambda>c. find_customer_vehicle_by_registration (tn_db t) c registration)
        in if length registration < 4 \<or> 10 < length registration then
             Inr (ask [Words ''Sorry, that doesn't look like a registration number - could you try again?''] AWAITING_VEHICLE_REG [])
           else to_confirmation t
                  ((''vehicle_registration'', TEXT registration)
                   # (case existing of None \<Rightarrow> [] | Some v \<Rightarrow> [(''vehicle_id'', ROW (ve_id v))])))"

subsection \<open>The final yes\<close>

definition wanted_booking :: "turn \<Rightarrow> date \<Rightarrow> clock \<Rightarrow> chat_booking" where
  "wanted_booking t day time =
     (let c = tn_customer t;
          chosen = (if text_slot t ''vehicle_registration'' = None then chosen_vehicle t (row_slot t ''vehicle_id'') else None);
          registration = booked_registration t
      in \<lparr>kb_customer = c,
          kb_contact =
            \<lparr>ct_first = (case text_slot t ''customer_first_name'' of Some n \<Rightarrow> n | None \<Rightarrow> (case c of None \<Rightarrow> [] | Some c \<Rightarrow> cu_first c)),
             ct_last = (case text_slot t ''customer_last_name'' of Some n \<Rightarrow> n | None \<Rightarrow> (case c of None \<Rightarrow> [] | Some c \<Rightarrow> cu_last c)),
             ct_email = Option.bind c cu_email, ct_phone = Some (tn_phone t),
             ct_registration = Some (case registration of Some r \<Rightarrow> if r = [] then ''UNKNOWN'' else r | None \<Rightarrow> ''UNKNOWN'')\<rparr>,
          kb_item = \<lparr>it_make = Option.bind chosen ve_make, it_model = Option.bind chosen ve_model, it_year = None, it_usage = None\<rparr>,
          kb_type = get_appointment_type t (row_slot t ''appointment_type_id''),
          kb_date = day, kb_time = Some time, kb_notes = None, kb_tool = None, kb_call = None\<rparr>)"

definition booked_reply :: "turn \<Rightarrow> date \<Rightarrow> clock \<Rightarrow> booking_request \<Rightarrow> reply" where
  "booked_reply t day time rq =
     (let label = (case get_appointment_type t (row_slot t ''appointment_type_id'') of Some ty \<Rightarrow> ty_name ty | None \<Rightarrow> ''appointment'')
      in (case (rq_status rq, rq_terms_token rq) of
            (AWAITING_TERMS, Some token) \<Rightarrow>
              [Words ''Nearly there - I'm holding '', Long_Day day, Words '' at '', Time_Of_Day time, Words '' for your '', Words label,
               Words '', but it isn't booked until you accept '', Business (g_id (tn_garage t)), Words [CHR 0x27],
               Words ''s terms and conditions here: '', Terms_Link (g_id (tn_garage t)) token]
          | _ \<Rightarrow>
              [Words ''You're all set - I've sent your '', Words label, Words '' request for '', Long_Day day, Words '' at '',
               Time_Of_Day time, Words '' to the team, who'll confirm shortly.''])
         @ (if tn_channel t = WHATSAPP \<and> has_text (rq_reference rq) then
              [New_Line, New_Line, Words ''Your reference is *'', Words (the (rq_reference rq)),
               Words ''* - keep it to check or change this booking.''] else []))"

definition reading :: "turn \<Rightarrow> (failure + 'a) \<Rightarrow> world \<Rightarrow> 'a talk" where
  "reading t r w = (r, tn_db t, w)"

definition handle_awaiting_booking_confirmation :: "'n chat_setup \<Rightarrow> turn \<Rightarrow> string \<Rightarrow> world \<Rightarrow> step_result talk" where
  "handle_awaiting_booking_confirmation ct t said w =
     (case maybe_correct t said of
        Inl e \<Rightarrow> reading t (Inl e) w
      | Inr (Some r) \<Rightarrow> reading t (Inr r) w
      | Inr None \<Rightarrow>
          if \<not> is_yes said then
            reading t (Inr (if is_no said
              then finish [Words ''No problem, I've not booked anything. Let me know if you'd like to try again.'']
              else ask [Words ''Sorry, shall I go ahead and request this booking - yes or no?''] AWAITING_BOOKING_CONFIRMATION [])) w
          else case checks (need_day t ''preferred_date'') (\<lambda>day. checks (need_clock t ''preferred_time'') (\<lambda>time. Inr (day, time))) of
            Inl e \<Rightarrow> reading t (Inl e) w
          | Inr (day, time) \<Rightarrow>
              (case create_booking_request (ct_config ct) (ct_meanwhile ct) (tn_garage t) (wanted_booking t day time)
                      (ct_draws ct) (tn_now t) (tn_db t) w of
                 (Inl e, d, w') \<Rightarrow> (Inl e, d, w')
               | (Inr (Inl reason), d, w') \<Rightarrow>
                   (if reason = FULL then offer_times_for_date (t\<lparr>tn_db := d\<rparr>) day [] None None
                    else Inr (to_human [Words ''I'm sorry, that time's no longer available - I'll get a member of staff to help you find another slot.'']
                               (''Slot became unavailable at confirmation ('' @ slot_reason_text reason @ '').'')), d, w')
               | (Inr (Inr rq), d, w') \<Rightarrow> (Inr (done_with (booked_reply t day time rq) (BOOKED (rq_id rq))), d, w')))"

end
