(* ===== verification/Chat_Flows.thy ===== *)
theory Chat_Flows
  imports Chat_Booking
begin

text \<open>
  The other flows of \<open>app/conversation/workflows.py\<close>: looking up, cancelling and moving an appointment,
  correcting the customer's name, the questions answered at once, steering the conversation, calling back,
  and the table of all step handlers. Cancelling, moving, renaming and the callback write; the rest only
  reads.
\<close>

subsection \<open>Cancelling\<close>

definition handle_check_appointment :: "turn \<Rightarrow> step_result" where
  "handle_check_appointment t =
     (if tn_customer t = None then
        finish [Words ''I don't have your details on file yet - could I get your name so I can look into that, or would you like a member of staff to call you?'']
      else case upcoming t of
        [] \<Rightarrow> finish [Words ''I can't see any upcoming appointments for you at the moment.'']
      | [a] \<Rightarrow>
          finish [Words ''You have a '', Words (type_name_of t a ''appointment''), Words '' booked for '', Long_Day (told_date a),
                  Words '' at '', Time_Of_Day (told_time a), Words ''.'']
      | as \<Rightarrow>
          finish ([Words ''You have '', Number (int (length as)), Words '' upcoming appointments:'', New_Line]
                  @ joined_lines (map (\<lambda>a. Words ''- '' # appointment_line t a) as)))"

definition confirm_cancel :: "turn \<Rightarrow> appointment \<Rightarrow> step_result" where
  "confirm_cancel t a =
     ask [Words ''Just to confirm - cancel your '', Words (type_name_of t a ''appointment''), Words '' on '', Long_Day (told_date a),
          Words '' at '', Time_Of_Day (told_time a), Words ''?'']
       AWAITING_CANCEL_CONFIRMATION [(''target_appointment_id'', ROW (ap_id a))]"

definition start_cancel :: "turn \<Rightarrow> step_result" where
  "start_cancel t =
     (if tn_customer t = None then
        to_human [Words ''I can't find an account for this number - I'll get a member of staff to help you cancel.'']
          ''Cancellation requested from an unrecognised number.''
      else case upcoming t of
        [] \<Rightarrow> finish [Words ''I can't see any upcoming appointments for you to cancel.'']
      | [a] \<Rightarrow> confirm_cancel t a
      | as \<Rightarrow>
          ask ([Words ''Which appointment would you like to cancel?'', New_Line] @ numbered (map (appointment_line t) as))
            AWAITING_CANCEL_CHOICE [(''candidate_appointment_ids'', ROWS (map ap_id as))])"

definition offered_appointments :: "turn \<Rightarrow> appointment list" where
  "offered_appointments t = filter (\<lambda>a. ap_id a \<in> set (rows_slot t ''candidate_appointment_ids'')) (upcoming t)"

definition handle_awaiting_cancel_choice :: "turn \<Rightarrow> string \<Rightarrow> step_result" where
  "handle_awaiting_cancel_choice t said =
     (if tn_customer t = None then staff_will_look ''Cancel choice from unrecognised number.''
      else case pick_from_list said (offered_appointments t) of
        None \<Rightarrow> ask [Words ''Sorry, which number was that?''] AWAITING_CANCEL_CHOICE []
      | Some a \<Rightarrow> confirm_cancel t a)"

definition left_as_it_is :: step_result where
  "left_as_it_is = finish [Words ''No problem, I've left your appointment as it is.'']"

definition handle_awaiting_cancel_confirmation :: "'n chat_setup \<Rightarrow> turn \<Rightarrow> string \<Rightarrow> world \<Rightarrow> step_result talk" where
  "handle_awaiting_cancel_confirmation ct t said w =
     (if \<not> is_yes said then reading t (Inr left_as_it_is) w
      else case find_upcoming t (row_slot t ''target_appointment_id'') of
        None \<Rightarrow>
          reading t (Inr (to_human [Words ''Sorry, I couldn't find that appointment any more - I'll get a member of staff to help.'']
            ''Target appointment not found at cancel confirmation.'')) w
      | Some a \<Rightarrow>
          (case cancel_appointment (ct_config ct) a (tn_db t) w of
             (Some refusal, d, w') \<Rightarrow>
               (Inr (to_human [Words ''That appointment can't be cancelled any more - I'll get a member of staff to help.'']
                  (''Cancel failed: '' @ change_refusal_text refusal @ ''.'')), d, w')
           | (None, d, w') \<Rightarrow>
               (Inr (done_with [Words ''Done - your appointment has been cancelled.''] (APPOINTMENT_CANCELLED_BY_CHAT (ap_id a))), d, w')))"

subsection \<open>Moving an appointment\<close>

definition offer_reschedule_slots :: "turn \<Rightarrow> appointment \<Rightarrow> date \<Rightarrow> failure + step_result" where
  "offer_reschedule_slots t a day =
     checks (get_availability_for_day (tn_db t) (tn_garage t) day (find_type (tn_db t) (Some (ap_type a)))
               (Some ((ap_end a - ap_start a) div minute_us)) (tn_now t)) (\<lambda>payload.
       let slots = free_slots payload
       in Inr (if slots = [] then
                 ask [Words ''There's nothing free on '', Long_Day day, Words '' - could you try another day?'']
                   AWAITING_RESCHEDULE_DATE [(''target_appointment_id'', ROW (ap_id a))]
               else
                 ask ([Words ''For '', Long_Day day, Words '' I have ''] @ format_slots slots
                      @ [Words '' available. Which would you like?''])
                   AWAITING_RESCHEDULE_TIME [(''target_appointment_id'', ROW (ap_id a)), (''new_date'', DAY day)]))"

definition ask_new_day :: "appointment \<Rightarrow> step_result" where
  "ask_new_day a =
     ask [Words ''What day would you like to move it to?''] AWAITING_RESCHEDULE_DATE [(''target_appointment_id'', ROW (ap_id a))]"

definition start_reschedule :: "turn \<Rightarrow> string \<Rightarrow> failure + step_result" where
  "start_reschedule t said =
     (if tn_customer t = None then
        Inr (to_human [Words ''I can't find an account for this number - I'll get a member of staff to help you reschedule.'']
               ''Reschedule requested from an unrecognised number.'')
      else case upcoming t of
        [] \<Rightarrow> Inr (finish [Words ''I can't see any upcoming appointments for you to move.''])
      | [a] \<Rightarrow>
          (case not_past (turn_today t) (parse_date_phrase said (turn_today t)) of
             Some day \<Rightarrow> offer_reschedule_slots t a day
           | None \<Rightarrow> Inr (ask_new_day a))
      | as \<Rightarrow>
          Inr (ask ([Words ''Which appointment would you like to move?'', New_Line] @ numbered (map (appointment_line t) as))
                 AWAITING_RESCHEDULE_CHOICE [(''candidate_appointment_ids'', ROWS (map ap_id as))]))"

definition handle_awaiting_reschedule_choice :: "turn \<Rightarrow> string \<Rightarrow> step_result" where
  "handle_awaiting_reschedule_choice t said =
     (if tn_customer t = None then staff_will_look ''Reschedule choice from unrecognised number.''
      else case pick_from_list said (offered_appointments t) of
        None \<Rightarrow> ask [Words ''Sorry, which number was that?''] AWAITING_RESCHEDULE_CHOICE []
      | Some a \<Rightarrow> ask_new_day a)"

definition lost_track :: "string \<Rightarrow> step_result" where
  "lost_track where_lost =
     to_human [Words ''Sorry, I've lost track of which appointment - I'll get a member of staff to help.'']
       (''Target appointment not found '' @ where_lost @ ''.'')"

definition handle_awaiting_reschedule_date :: "turn \<Rightarrow> string \<Rightarrow> failure + step_result" where
  "handle_awaiting_reschedule_date t said =
     (case find_upcoming t (row_slot t ''target_appointment_id'') of
        None \<Rightarrow> Inr (lost_track ''during reschedule'')
      | Some a \<Rightarrow>
          (case not_past (turn_today t) (parse_date_phrase said (turn_today t)) of
             None \<Rightarrow> Inr (ask [Words ''Sorry, what day would you like instead?''] AWAITING_RESCHEDULE_DATE [])
           | Some day \<Rightarrow> offer_reschedule_slots t a day))"

definition handle_awaiting_reschedule_time :: "turn \<Rightarrow> string \<Rightarrow> failure + step_result" where
  "handle_awaiting_reschedule_time t said =
     (case find_upcoming t (row_slot t ''target_appointment_id'') of
        None \<Rightarrow> Inr (lost_track ''during reschedule'')
      | Some a \<Rightarrow>
          checks (need_day t ''new_date'') (\<lambda>day.
          checks (parse_exact_time_phrase said) (\<lambda>exact. Inr
            (case exact of
               None \<Rightarrow> ask [Words ''Sorry, what time would you like (e.g. 10:30)?''] AWAITING_RESCHEDULE_TIME []
             | Some time \<Rightarrow>
                 ask [Words ''Just to confirm - move your appointment to '', Long_Day day, Words '' at '', Time_Of_Day time, Words ''?'']
                   AWAITING_RESCHEDULE_CONFIRMATION [(''new_time'', CLOCK time)]))))"

definition handle_awaiting_reschedule_confirmation :: "'n chat_setup \<Rightarrow> turn \<Rightarrow> string \<Rightarrow> world \<Rightarrow> step_result talk" where
  "handle_awaiting_reschedule_confirmation ct t said w =
     (if \<not> is_yes said then reading t (Inr left_as_it_is) w
      else case find_upcoming t (row_slot t ''target_appointment_id'') of
        None \<Rightarrow> reading t (Inr (lost_track ''at reschedule confirmation'')) w
      | Some a \<Rightarrow>
          (case checks (need_day t ''new_date'') (\<lambda>day. checks (need_clock t ''new_time'') (\<lambda>time. Inr (day, time))) of
             Inl e \<Rightarrow> reading t (Inl e) w
           | Inr (day, time) \<Rightarrow>
               (case reschedule_appointment (ct_config ct) (tn_garage t) (ap_id a) day time (tn_now t) (tn_db t) w of
                  (Some refusal, d, w') \<Rightarrow>
                    (Inr (to_human [Words ''I'm sorry, that time's no longer available - I'll get a member of staff to help you find another.'']
                       (''Reschedule failed: '' @ change_refusal_text refusal @ ''.'')), d, w')
                | (None, d, w') \<Rightarrow>
                    (Inr (done_with [Words ''Done - your appointment is now on '', Long_Day day, Words '' at '', Time_Of_Day time, Words ''.'']
                       (APPOINTMENT_MOVED_BY_CHAT (ap_id a))), d, w'))))"

subsection \<open>The customer's name\<close>

definition name_cue :: pattern where
  "name_cue = iregex (
     ''%b(?:should%s+be|chang(?:e|ed)%s+(?:it%s+)?to|correct(?:ed)?%s+(?:it%s+)?to|'' @
     ''make%s+it|put%s+it%s+(?:down%s+)?as|spell%s+it|name%s+is|name%s+to|name%s*[:=]|it'?s|its)%b'')"

definition name_stop_words :: "string list" where
  "name_stop_words =
     [''wrong'', ''not'', ''the'', ''a'', ''my'', ''name'', ''is'', ''please'', ''actually'', ''no'', ''yes'', ''it'',
      ''should'', ''be'', ''change'', ''correct'', ''to'']"

definition name_word :: pattern where
  "name_word = regex ''[A-Za-z][A-Za-z'%-.]*''"

definition extract_name :: "string \<Rightarrow> bool \<Rightarrow> (string \<times> string) option" where
  "extract_name said whole_is_name =
     (let stripped = strip_text said;
          matches = find_matches name_cue (place_of stripped);
          candidate = (if matches \<noteq> [] then Some (pl_rest (snd (last matches))) else if whole_is_name then Some stripped else None)
      in case candidate of
           None \<Rightarrow> None
         | Some c \<Rightarrow>
             let c1 = strip_text (strip_of ('' .!?,:;-'' @ quotes) c);
                 c2 = strip_text (substitute (iregex ''^(my%s+name%s+)'') (\<lambda>_. []) c1);
                 c3 = substitute (iregex ''%s+(please|thanks|thank%s+you|ta)$'') (\<lambda>_. []) c2;
                 parts = split_words c3
             in if length parts < 2 \<or> 4 < length parts then None
                else if list_ex (\<lambda>p. map lower_char p \<in> set name_stop_words) parts then None
                else if \<not> list_all (full_match name_word) parts then None
                else Some (strip_of ''.'' (hd parts), join_texts '' '' (tl parts)))"

definition need_identity :: "string \<Rightarrow> step_result" where
  "need_identity what =
     to_human [Words ''I can only '', Words what, Words '' once I can confirm who I'm speaking to, and this number isn't linked to an account yet. I'll get a member of the team to help.'']
       (what @ '' requested from an unrecognised number.'')"

definition confirm_name :: "customer \<Rightarrow> string \<times> string \<Rightarrow> step_result" where
  "confirm_name c name =
     ask [Words ''Just to confirm - change the name on your account from '', Words (cu_first c), Words '' '', Words (cu_last c),
          Words '' to '', Words (fst name), Words '' '', Words (snd name), Words ''?'']
       AWAITING_NAME_CORRECTION_CONFIRM [(''pending_first_name'', TEXT (fst name)), (''pending_last_name'', TEXT (snd name))]"

definition start_update_name :: "turn \<Rightarrow> string \<Rightarrow> step_result" where
  "start_update_name t said =
     (case tn_customer t of
        None \<Rightarrow> need_identity ''update the name on an account''
      | Some c \<Rightarrow>
          (case extract_name said False of
             None \<Rightarrow>
               ask [Words ''I've got your name as '', Words (cu_first c), Words '' '', Words (cu_last c),
                    Words ''. What should it be? Please send your full name.''] AWAITING_NAME_CORRECTION []
           | Some name \<Rightarrow> confirm_name c name))"

definition handle_awaiting_name_correction :: "turn \<Rightarrow> string \<Rightarrow> step_result" where
  "handle_awaiting_name_correction t said =
     (case tn_customer t of
        None \<Rightarrow> need_identity ''update the name on an account''
      | Some c \<Rightarrow>
          (case extract_name said True of
             None \<Rightarrow> ask [Words ''Sorry, could you send your full name (first and last)?''] AWAITING_NAME_CORRECTION []
           | Some name \<Rightarrow> confirm_name c name))"

definition handle_awaiting_name_correction_confirm :: "turn \<Rightarrow> string \<Rightarrow> world \<Rightarrow> step_result talk" where
  "handle_awaiting_name_correction_confirm t said w =
     (case (text_slot t ''pending_first_name'', text_slot t ''pending_last_name'') of
        (Some first_name, Some last_name) \<Rightarrow>
          (case tn_customer t of
             None \<Rightarrow> reading t (Inr (need_identity ''update the name on an account'')) w
           | Some c \<Rightarrow>
               if is_no said then
                 reading t (Inr ((finish [Words ''No problem - I've left it as '', Words (cu_first c), Words '' '', Words (cu_last c), Words ''.''])
                   \<lparr>sr_reset := True\<rparr>)) w
               else if \<not> is_yes said then
                 reading t (Inr (ask [Words ''Shall I change your name to '', Words first_name, Words '' '', Words last_name, Words ''? (yes/no)'']
                   AWAITING_NAME_CORRECTION_CONFIRM [])) w
               else case update_customer_name (tn_garage t) c first_name last_name (tn_db t) of
                 (Some refusal, d) \<Rightarrow>
                   (Inr (to_human [Words ''I couldn't update that - I'll get a member of the team to sort it.'']
                      (''Customer name update failed ('' @ change_refusal_text refusal @ '').'')), d, w)
               | (None, d) \<Rightarrow>
                   (Inr ((done_with [Words ''Done - your name is now '', Words first_name, Words '' '', Words last_name,
                                     Words ''. That'll update across our system.''] (RENAMED (cu_id c) first_name last_name))
                      \<lparr>sr_reset := True\<rparr>), d, w))
      | _ \<Rightarrow> reading t (Inr (start_update_name t [])) w)"

definition handle_update_contact_details :: step_result where
  "handle_update_contact_details =
     to_human [Words ''For security I can't change contact details like your email, phone number or address over WhatsApp. I'll pass this to the team and they'll sort it for you. Is there anything else I can help with in the meantime?'']
       ''Customer asked to change contact details (not permitted over WhatsApp).''"

subsection \<open>Questions answered at once\<close>

definition handle_price_query :: "turn \<Rightarrow> string \<Rightarrow> step_result" where
  "handle_price_query t said =
     (let match = match_appointment_type (tn_db t) (g_id (tn_garage t)) said
      in case mt_matched match of
           Some ty \<Rightarrow>
             finish (case ty_base_price ty of
               Some p \<Rightarrow> [Words (ty_name ty), Words '' is '', Pounds p, Words ''.'']
             | None \<Rightarrow> [Words ''Pricing for '', Words (ty_name ty),
                        Words '' is confirmed by the business - I'll get someone to call you back with a price.''])
         | None \<Rightarrow>
             if is_ambiguous match then
               finish [Words ''Did you mean '', Words (join_texts '' or '' (map ty_name (mt_candidates match))), Words ''?'']
             else finish (Words ''Here's what we offer: '' # comma_list (map (\<lambda>ty. case ty_base_price ty of
                 Some p \<Rightarrow> if p \<noteq> 0 then [Words (ty_name ty), Words '' ('', Pounds p, Words '')''] else [Words (ty_name ty)]
               | None \<Rightarrow> [Words (ty_name ty)]) (get_appointment_types (tn_db t) (tn_garage t)))))"

definition handle_appointment_type_query :: "turn \<Rightarrow> step_result" where
  "handle_appointment_type_query t =
     (if service_names t = [] then
        to_human [Words ''I'll get a member of staff to tell you what's available.''] ''No appointment types configured.''
      else finish [Words ''We offer: '', Words (join_texts '', '' (service_names t)), Words ''. Would you like to book one?''])"

definition weekday_names :: "string list" where
  "weekday_names = [''Monday'', ''Tuesday'', ''Wednesday'', ''Thursday'', ''Friday'', ''Saturday'', ''Sunday'']"

definition handle_business_hours_query :: "turn \<Rightarrow> step_result" where
  "handle_business_hours_query t =
     finish ([Words ''Our opening hours are:'', New_Line]
       @ joined_lines (map (\<lambda>(wd, name).
           case resolve_opening_hours (tn_garage t) (int wd) of
             (opens_at, closes_at, is_closed) \<Rightarrow>
               if is_closed then [Words name, Words '': closed'']
               else [Words name, Words '': '', Time_Of_Day opens_at, Words ''-'', Time_Of_Day closes_at]) (enumerate 0 weekday_names)))"

definition handle_business_location_query :: "turn \<Rightarrow> step_result" where
  "handle_business_location_query t =
     (let bits = map the (filter has_text [fst (tn_address t), snd (tn_address t)])
      in if bits = [] then
           to_human [Words ''I don't have an address on file for this business yet - I'll get someone to help.'']
             ''No business address configured.''
         else finish [Words ''We're at '', Words (join_texts '', '' bits), Words ''.''])"

definition mot_expiry_reply :: "vehicle \<Rightarrow> step_result" where
  "mot_expiry_reply v =
     finish (case ve_mot_expiry v of
       None \<Rightarrow> [Words ''I don't have an MOT expiry date on file for '', Words (ve_registration v), Words ''.'']
     | Some expiry \<Rightarrow> [Words ''The MOT for '', Words (ve_registration v), Words '' expires on '', Full_Day expiry, Words ''.''])"

definition handle_mot_expiry_query :: "turn \<Rightarrow> step_result" where
  "handle_mot_expiry_query t =
     (if tn_customer t = None then
        ask [Words ''I don't have your vehicle on file yet - what's the registration number?''] AWAITING_VEHICLE_REG_FOR_MOT []
      else case own_vehicles t of
        [] \<Rightarrow> ask [Words ''I don't have a vehicle on file for you yet - what's the registration number?''] AWAITING_VEHICLE_REG_FOR_MOT []
      | [v] \<Rightarrow> mot_expiry_reply v
      | vs \<Rightarrow>
          ask ([Words ''Which vehicle?'', New_Line] @ numbered (map (\<lambda>v. [Words (ve_registration v)]) vs))
            AWAITING_MOT_VEHICLE_CHOICE [(''candidate_vehicle_ids'', ROWS (map ve_id vs))])"

definition handle_awaiting_vehicle_reg_for_mot :: "turn \<Rightarrow> string \<Rightarrow> step_result" where
  "handle_awaiting_vehicle_reg_for_mot t said =
     (case tn_customer t of
        None \<Rightarrow> staff_will_look ''MOT query from unrecognised number.''
      | Some c \<Rightarrow>
          (case find_customer_vehicle_by_registration (tn_db t) c said of
             None \<Rightarrow>
               to_human [Words ''I can't find that registration on your account - I'll get someone to check for you.'']
                 ''Vehicle not found for MOT query.''
           | Some v \<Rightarrow> mot_expiry_reply v))"

definition handle_awaiting_mot_vehicle_choice :: "turn \<Rightarrow> string \<Rightarrow> step_result" where
  "handle_awaiting_mot_vehicle_choice t said =
     (case tn_customer t of
        None \<Rightarrow> staff_will_look ''MOT vehicle choice from unrecognised number.''
      | Some c \<Rightarrow>
          (case picked_vehicle t c said of
             None \<Rightarrow> ask [Words ''Sorry, which number was that?''] AWAITING_MOT_VEHICLE_CHOICE []
           | Some v \<Rightarrow> mot_expiry_reply v))"

definition handle_customer_details_query :: "turn \<Rightarrow> step_result" where
  "handle_customer_details_query t =
     (case tn_customer t of
        None \<Rightarrow> finish [Words ''I don't have an account on file for this number yet.'']
      | Some c \<Rightarrow>
          finish ([Words ''Hi '', Words (cu_first c)]
            @ (if own_vehicles t \<noteq> [] then
                 [Words '', I have you down with: '', Words (join_texts '', '' (map ve_registration (own_vehicles t))), Words ''.'']
               else [Words '', I don't have any vehicles on file for you yet.''])))"

subsection \<open>Greetings\<close>

definition handle_greeting :: "turn \<Rightarrow> step_result" where
  "handle_greeting t =
     (let name = (case tn_customer t of None \<Rightarrow> [] | Some c \<Rightarrow> [Words (cu_first c), Words '', '']);
          services = join_texts '', '' (take 4 (service_names t));
          hello = [Words ''Hi ''] @ name @ [Words ''you've reached '', Business (g_id (tn_garage t))]
      in finish
           (if tn_channel t = WHATSAPP then
              hello @ [Words ''. I can help you:'', New_Line, Words ''- book an appointment'']
              @ (if services \<noteq> [] then [Words '' ('', Words services, Words '')''] else [])
              @ [New_Line, Words ''- check, change or cancel an existing booking'', New_Line,
                 Words ''- answer questions about prices, opening hours or where we are'', New_Line, New_Line,
                 Words ''What would you like to do?'']
            else
              hello @ [Words ''. I can help you book, check, change or cancel an appointment, or answer questions about prices and opening hours. What would you like to do?'']))"

definition handle_small_talk :: step_result where
  "handle_small_talk = finish [Words ''You're welcome! Message here any time you need to book or change an appointment.'']"

subsection \<open>Steering the conversation\<close>

definition menu_line :: string where
  "menu_line = ''I can help you book, check, change or cancel an appointment, or answer questions about prices, opening hours and where we are.''"

text \<open>Nothing pending, but the conversation goes on.\<close>

definition open_end :: "reply \<Rightarrow> step_result" where
  "open_end r = (finish r)\<lparr>sr_complete := False\<rparr>"

definition reset_flow :: step_result where
  "reset_flow = (open_end [Words ''No problem - let's start fresh. What would you like to do? '', Words menu_line])\<lparr>sr_reset := True\<rparr>"

definition abandon_flow :: step_result where
  "abandon_flow =
     (finish [Words ''Okay, I've stopped that - nothing has been booked. Message any time you'd like to pick it back up.''])\<lparr>sr_reset := True\<rparr>"

definition resume_prompt :: "intent option \<Rightarrow> reply" where
  "resume_prompt goal =
     [Words ''Would you like to '',
      Words (if goal = Some CREATE_BOOKING then ''carry on with your booking''
             else if goal = Some RESCHEDULE_APPOINTMENT then ''carry on rescheduling your appointment''
             else if goal = Some CANCEL_APPOINTMENT then ''carry on cancelling your appointment''
             else ''carry on where we left off''),
      Words ''?'']"

definition resume_yes :: "string list" where
  "resume_yes =
     [''continue'', ''carry on'', ''carry-on'', ''keep going'', ''keep booking'', ''go on'', ''resume'', ''back to booking'',
      ''back to the booking'', ''the booking'', ''my booking'', ''where we were'', ''where we left off'']"

definition reprompt_step :: "turn \<Rightarrow> workflow_step option \<Rightarrow> failure + step_result" where
  "reprompt_step t step =
     (if step \<in> {Some AWAITING_TYPE, Some AWAITING_TYPE_CHOICE} then
        Inr (ask [Words ''Great - which service would you like? '', Words (join_texts '', '' (service_names t))] AWAITING_TYPE [])
      else if step = Some AWAITING_NAME then
        Inr (ask [Words ''Could I get your full name to put on the booking?''] AWAITING_NAME [])
      else if step = Some AWAITING_DATE then Inr (ask [Words ''What day would you like to come in?''] AWAITING_DATE [])
      else if step = Some AWAITING_TIME \<and> day_slot_value t ''preferred_date'' \<noteq> None then
        offer_times_for_date t (the (day_slot_value t ''preferred_date'')) [] None None
      else if step \<in> {Some AWAITING_VEHICLE_CONFIRM, Some AWAITING_VEHICLE_CHOICE} \<and> clock_slot_value t ''preferred_time'' \<noteq> None then
        Inr (after_time_resolved t [])
      else if step = Some AWAITING_VEHICLE_REG then
        Inr (ask [Words ''What's the vehicle's registration number?''] AWAITING_VEHICLE_REG [])
      else if step = Some AWAITING_BOOKING_CONFIRMATION \<and> clock_slot_value t ''preferred_time'' \<noteq> None then to_confirmation t []
      else if step \<in> {Some AWAITING_RESCHEDULE_DATE, Some AWAITING_RESCHEDULE_TIME} then
        Inr (ask [Words ''What day would you like to move it to?''] AWAITING_RESCHEDULE_DATE [])
      else Inr reset_flow)"

definition booking_steps :: "workflow_step list" where
  "booking_steps =
     [AWAITING_TYPE, AWAITING_TYPE_CHOICE, AWAITING_NAME, AWAITING_DATE, AWAITING_TIME, AWAITING_VEHICLE_CONFIRM,
      AWAITING_VEHICLE_CHOICE, AWAITING_VEHICLE_REG, AWAITING_BOOKING_CONFIRMATION]"

definition step_slot :: "turn \<Rightarrow> workflow_step option" where
  "step_slot t = (case slot_of t ''resume_step'' of Some (STEP s) \<Rightarrow> Some s | _ \<Rightarrow> None)"

definition go_back :: "turn \<Rightarrow> failure + step_result" where
  "go_back t =
     (let step = cv_step (tn_session t)
      in if cv_intent (tn_session t) = Some CREATE_BOOKING \<and> step \<in> Some ` set booking_steps then step_back t step
         else if step = Some AWAITING_RESUME then reprompt_step t (step_slot t)
         else Inr reset_flow)"

subsection \<open>A person calls back\<close>

definition handle_speak_to_human :: step_result where
  "handle_speak_to_human =
     to_human [Words ''Of course - I'll get a member of the team to pick this up.''] ''Customer asked to speak to a person.''"

definition start_callback :: step_result where
  "start_callback =
     ask [Words ''No problem - is there anything I should let them know before they call?''] AWAITING_CALLBACK_REASON []"

definition handle_awaiting_callback_reason :: "'n chat_setup \<Rightarrow> turn \<Rightarrow> string \<Rightarrow> world \<Rightarrow> step_result talk" where
  "handle_awaiting_callback_reason ct t said w =
     (case create_callback_request (ct_config ct) (tn_garage t) (tn_customer t) (tn_phone t)
             (if is_no said then None else Some (strip_text said)) None (Some (cv_id (tn_session t))) (tn_db t) w of
        (cb, d, w') \<Rightarrow> (Inr (done_with [Words ''Thanks - someone will call you back shortly.''] (CALLBACK_CREATED (cb_id cb))), d, w'))"

subsection \<open>All steps\<close>

definition answer_step :: "'n chat_setup \<Rightarrow> workflow_step \<Rightarrow> turn \<Rightarrow> string \<Rightarrow> world \<Rightarrow> step_result talk" where
  "answer_step ct step t said w =
     (case step of
        AWAITING_TYPE \<Rightarrow> reading t (start_booking t said) w
      | AWAITING_TYPE_CHOICE \<Rightarrow> reading t (handle_awaiting_type_choice t said) w
      | AWAITING_NAME \<Rightarrow> reading t (handle_awaiting_name t said) w
      | AWAITING_DATE \<Rightarrow> reading t (handle_awaiting_date t said) w
      | AWAITING_TIME \<Rightarrow> reading t (handle_awaiting_time t said) w
      | AWAITING_VEHICLE_CONFIRM \<Rightarrow> reading t (handle_awaiting_vehicle_confirm t said) w
      | AWAITING_VEHICLE_CHOICE \<Rightarrow> reading t (handle_awaiting_vehicle_choice t said) w
      | AWAITING_VEHICLE_REG \<Rightarrow> reading t (handle_awaiting_vehicle_reg t said) w
      | AWAITING_BOOKING_CONFIRMATION \<Rightarrow> handle_awaiting_booking_confirmation ct t said w
      | AWAITING_CANCEL_CHOICE \<Rightarrow> reading t (Inr (handle_awaiting_cancel_choice t said)) w
      | AWAITING_CANCEL_CONFIRMATION \<Rightarrow> handle_awaiting_cancel_confirmation ct t said w
      | AWAITING_RESCHEDULE_CHOICE \<Rightarrow> reading t (Inr (handle_awaiting_reschedule_choice t said)) w
      | AWAITING_RESCHEDULE_DATE \<Rightarrow> reading t (handle_awaiting_reschedule_date t said) w
      | AWAITING_RESCHEDULE_TIME \<Rightarrow> reading t (handle_awaiting_reschedule_time t said) w
      | AWAITING_RESCHEDULE_CONFIRMATION \<Rightarrow> handle_awaiting_reschedule_confirmation ct t said w
      | AWAITING_NAME_CORRECTION \<Rightarrow> reading t (Inr (handle_awaiting_name_correction t said)) w
      | AWAITING_NAME_CORRECTION_CONFIRM \<Rightarrow> handle_awaiting_name_correction_confirm t said w
      | AWAITING_VEHICLE_REG_FOR_MOT \<Rightarrow> reading t (Inr (handle_awaiting_vehicle_reg_for_mot t said)) w
      | AWAITING_MOT_VEHICLE_CHOICE \<Rightarrow> reading t (Inr (handle_awaiting_mot_vehicle_choice t said)) w
      | AWAITING_CALLBACK_REASON \<Rightarrow> handle_awaiting_callback_reason ct t said w
      | AWAITING_RESUME \<Rightarrow> reading t (Inl NEVER_RETURNS) w)"

text \<open>
  \<open>handle_awaiting_resume\<close>. A paused step that is itself \<open>AWAITING_RESUME\<close> would make the handler call
  itself for ever; the last case of \<open>answer_step\<close> stands for that, and no conversation gets there.
\<close>

definition handle_awaiting_resume :: "'n chat_setup \<Rightarrow> turn \<Rightarrow> string \<Rightarrow> world \<Rightarrow> step_result talk" where
  "handle_awaiting_resume ct t said w =
     (if is_no said then
        reading t (Inr ((finish [Words ''No problem - I haven't booked anything. Message any time you'd like to.''])\<lparr>sr_reset := True\<rparr>)) w
      else case step_slot t of
        None \<Rightarrow> reading t (Inr (open_end [Words ''Let's carry on. What would you like to do? '', Words menu_line])) w
      | Some step \<Rightarrow>
          if is_yes said \<or> has_cue (map lower_char (strip_text said)) resume_yes then reading t (reprompt_step t (Some step)) w
          else answer_step ct step t said w)"

definition handle_step :: "'n chat_setup \<Rightarrow> workflow_step \<Rightarrow> turn \<Rightarrow> string \<Rightarrow> world \<Rightarrow> step_result talk" where
  "handle_step ct step t said w =
     (if step = AWAITING_RESUME then handle_awaiting_resume ct t said w else answer_step ct step t said w)"

end
