(* ===== verification/Chat_Engine.thy ===== *)
theory Chat_Engine
  imports Chat_Flows
begin

text \<open>
  \<open>app/conversation/engine.py\<close>: one inbound message from end to end. A delivery seen before does nothing; a
  conversation handed to a person only records what the customer writes; otherwise \<open>dispatch\<close> decides
  whether the message steers the conversation, interrupts it, asks something in passing or answers the
  pending question, and \<open>finalized\<close> moves the session on. Every turn is logged. Also the WhatsApp webhook
  of \<open>communications/whatsapp_webhooks.py\<close>, which calls it.
\<close>

subsection \<open>Log rows\<close>

definition turn_log ::
  "uid \<Rightarrow> msg_channel \<Rightarrow> string \<Rightarrow> msg_direction \<Rightarrow> string \<Rightarrow> customer option \<Rightarrow> intent option \<Rightarrow> string option \<Rightarrow> string option \<Rightarrow> comm_log" where
  "turn_log g channel phone direction body customer intent external call_sid =
     (let channel' = (if channel = VOICE then VOICE else WHATSAPP);
          address = (if channel' = WHATSAPP then ''whatsapp:'' @ phone else phone)
      in (blank_log g channel' direction \<lparr>rl_customer = map_option cu_id customer, rl_appointment = None, rl_request = None\<rparr>)
           \<lparr>lg_provider := ''comaz_conversation_engine'', lg_external := external, lg_call_sid := call_sid,
            lg_status := (if direction = INBOUND then ''received'' else ''sent''),
            lg_from := (if direction = INBOUND then Some address else None),
            lg_to := (if direction = INBOUND then None else Some address),
            lg_body := Some body, lg_intent := intent\<rparr>)"

text \<open>Replies and actions are logged without an external id, so these rows are always accepted.\<close>

definition log_turns :: "comm_log list \<Rightarrow> world \<Rightarrow> unit effect" where
  "log_turns rows w = foldl (\<lambda>r row. andthen r (\<lambda>_ w. andthen (create_log row w) (\<lambda>_ w'. (Inr (), w')))) (Inr (), w) rows"

subsection \<open>Starting something new\<close>

definition unresolved :: "turn \<Rightarrow> step_result" where
  "unresolved t =
     (let count = count_slot t ''unresolved_count'' + 1
      in if tn_max_unresolved t \<le> count then
           to_human [Words ''I'm not quite following - let me get a member of the team to help you.''] ''Repeated failed intent detection.''
         else (open_end [Words (if count = 1 then
             ''I can help you book an appointment, check or change an existing one, or answer questions about prices, opening hours and where we are. What would you like to do?''
           else
             ''Sorry, I still didn't catch that. Try something like \"book an MOT for Friday\", \"how much is a service\" or \"what are your opening hours\" - or say \"speak to someone\" for the team.'')])
           \<lparr>sr_updates := [(''unresolved_count'', COUNT count)]\<rparr>)"

definition start_intent :: "turn \<Rightarrow> intent \<Rightarrow> string \<Rightarrow> failure + step_result" where
  "start_intent t goal said =
     (case goal of
        CREATE_BOOKING \<Rightarrow> start_booking t said
      | CANCEL_APPOINTMENT \<Rightarrow> Inr (start_cancel t)
      | RESCHEDULE_APPOINTMENT \<Rightarrow> start_reschedule t said
      | UPDATE_CUSTOMER_NAME \<Rightarrow> Inr (start_update_name t said)
      | APPOINTMENT_PRICE_QUERY \<Rightarrow> Inr (handle_price_query t said)
      | APPOINTMENT_TYPE_QUERY \<Rightarrow> Inr (handle_appointment_type_query t)
      | BUSINESS_HOURS_QUERY \<Rightarrow> Inr (handle_business_hours_query t)
      | BUSINESS_LOCATION_QUERY \<Rightarrow> Inr (handle_business_location_query t)
      | MOT_EXPIRY_QUERY \<Rightarrow> Inr (handle_mot_expiry_query t)
      | CUSTOMER_DETAILS_QUERY \<Rightarrow> Inr (handle_customer_details_query t)
      | CHECK_APPOINTMENT \<Rightarrow> Inr (handle_check_appointment t)
      | SPEAK_TO_HUMAN \<Rightarrow> Inr handle_speak_to_human
      | UPDATE_CONTACT_DETAILS \<Rightarrow> Inr handle_update_contact_details
      | CHECK_AVAILABILITY \<Rightarrow> start_booking t said
      | GREETING \<Rightarrow> Inr (handle_greeting t)
      | SMALL_TALK \<Rightarrow> Inr handle_small_talk
      | RESET_FLOW \<Rightarrow> Inr reset_flow
      | ABANDON_FLOW \<Rightarrow> Inr reset_flow
      | GO_BACK \<Rightarrow> Inr reset_flow
      | CALLBACK_REQUEST \<Rightarrow> Inr start_callback
      | _ \<Rightarrow> Inr (unresolved t))"

subsection \<open>Questions in passing\<close>

definition faq_answer :: "turn \<Rightarrow> string \<Rightarrow> intent \<Rightarrow> reply option" where
  "faq_answer t said goal =
     (case goal of
        APPOINTMENT_PRICE_QUERY \<Rightarrow> Some (sr_reply (handle_price_query t said))
      | APPOINTMENT_TYPE_QUERY \<Rightarrow> Some (sr_reply (handle_appointment_type_query t))
      | BUSINESS_HOURS_QUERY \<Rightarrow> Some (sr_reply (handle_business_hours_query t))
      | BUSINESS_LOCATION_QUERY \<Rightarrow> Some (sr_reply (handle_business_location_query t))
      | _ \<Rightarrow> None)"

definition combined_faq :: "turn \<Rightarrow> intent list \<Rightarrow> string \<Rightarrow> reply list" where
  "combined_faq t goals said =
     foldl (\<lambda>parts goal. case faq_answer t said goal of
              Some answer \<Rightarrow> if answer \<noteq> [] \<and> answer \<notin> set parts then parts @ [answer] else parts
            | None \<Rightarrow> parts) [] goals"

definition with_empty_lines :: "reply list \<Rightarrow> reply" where
  "with_empty_lines parts = concat (map (\<lambda>p. p @ [New_Line, New_Line]) parts)"

definition answer_multi_faq :: "turn \<Rightarrow> string \<Rightarrow> (intent \<times> step_result) option" where
  "answer_multi_faq t said =
     (let found = detect_faq_intents said; parts = combined_faq t found said
      in if length found < 2 \<or> parts = [] then None
         else Some (hd found, finish (with_empty_lines parts @ [Words ''If you'd like to book one in, just let me know.''])))"

definition goal_slot :: "turn \<Rightarrow> intent option" where
  "goal_slot t = (case slot_of t ''resume_intent'' of Some (GOAL i) \<Rightarrow> Some i | _ \<Rightarrow> None)"

definition answer_aside :: "turn \<Rightarrow> string \<Rightarrow> (intent \<times> step_result) option" where
  "answer_aside t said =
     (let found = detect_faq_intents said;
          parts = combined_faq t found said;
          s = tn_session t;
          paused_step = (if cv_step s = Some AWAITING_RESUME then step_slot t else cv_step s);
          paused_intent = (if cv_step s = Some AWAITING_RESUME then goal_slot t else cv_intent s)
      in if found = [] \<or> parts = [] then None
         else Some (case cv_intent s of Some i \<Rightarrow> i | None \<Rightarrow> hd found,
                    ask (with_empty_lines parts @ resume_prompt paused_intent) AWAITING_RESUME
                      [(''resume_step'', case paused_step of Some p \<Rightarrow> STEP p | None \<Rightarrow> NO_VALUE),
                       (''resume_intent'', case paused_intent of Some i \<Rightarrow> GOAL i | None \<Rightarrow> NO_VALUE)]))"

subsection \<open>Dispatching\<close>

definition handle_nav :: "turn \<Rightarrow> intent \<Rightarrow> failure + (intent \<times> step_result)" where
  "handle_nav t guess =
     (if guess = RESET_FLOW then Inr (RESET_FLOW, reset_flow)
      else if guess = ABANDON_FLOW then Inr (ABANDON_FLOW, abandon_flow)
      else map_sum id (Pair (case cv_intent (tn_session t) of Some i \<Rightarrow> i | None \<Rightarrow> GO_BACK)) (go_back t))"

definition dispatch_message :: "'n chat_setup \<Rightarrow> turn \<Rightarrow> string \<Rightarrow> intent \<Rightarrow> world \<Rightarrow> (intent \<times> step_result) talk" where
  "dispatch_message ct t said guess w =
     (case cv_step (tn_session t) of
        None \<Rightarrow>
          (case answer_multi_faq t said of
             Some res \<Rightarrow> reading t (Inr res) w
           | None \<Rightarrow> reading t (map_sum id (Pair guess) (start_intent t guess said)) w)
      | Some step \<Rightarrow>
          if guess \<in> set nav_intents then reading t (handle_nav t guess) w
          else if guess \<in> set interrupt_intents then reading t (map_sum id (Pair guess) (start_intent t guess said)) w
          else case answer_aside t said of
            Some res \<Rightarrow> reading t (Inr res) w
          | None \<Rightarrow>
              (case handle_step ct step t said w of
                 (r, d, w') \<Rightarrow>
                   (map_sum id (Pair (case cv_intent (tn_session t) of Some i \<Rightarrow> i | None \<Rightarrow> UNKNOWN)) r, d, w')))"

definition finalized :: "instant \<Rightarrow> intent \<Rightarrow> step_result \<Rightarrow> session \<Rightarrow> session" where
  "finalized now goal r s =
     (let s1 = s\<lparr>cv_intent := Some goal\<rparr>;
          s2 = (if sr_reset r then cleared now s1 else s1)
      in case sr_handoff r of
           Some reason \<Rightarrow> handed_off reason now s2
         | None \<Rightarrow> if sr_complete r then completed s2 else at_step (sr_step r) (Some goal) now (sr_updates r) s2)"

subsection \<open>One message\<close>

record conversation_result =
  cr_session :: uid
  cr_reply :: "reply option"
  cr_intent :: intent
  cr_step :: "workflow_step option"
  cr_actions :: "performed list"
  cr_needs_human :: bool
  cr_duplicate :: bool

record chat_message =
  cm_channel :: msg_channel
  cm_phone :: string
  cm_text :: string
  cm_external :: "string option"
  cm_call :: "string option"

definition result_of :: "session \<Rightarrow> conversation_result" where
  "result_of s =
     \<lparr>cr_session = cv_id s, cr_reply = None, cr_intent = (case cv_intent s of Some i \<Rightarrow> i | None \<Rightarrow> UNKNOWN),
      cr_step = cv_step s, cr_actions = [], cr_needs_human = False, cr_duplicate = False\<rparr>"

definition turn_of :: "'n chat_setup \<Rightarrow> garage \<Rightarrow> chat_message \<Rightarrow> customer option \<Rightarrow> session \<Rightarrow> instant \<Rightarrow> db \<Rightarrow> turn" where
  "turn_of ct g m customer s now d =
     \<lparr>tn_garage = g, tn_session = s, tn_channel = cm_channel m, tn_phone = cm_phone m, tn_customer = customer,
      tn_now = now, tn_max_unresolved = ct_max_unresolved ct, tn_address = ct_address ct (g_id g), tn_db = d\<rparr>"

definition outgoing_logs :: "'n chat_setup \<Rightarrow> garage \<Rightarrow> chat_message \<Rightarrow> customer option \<Rightarrow> step_result \<Rightarrow> comm_log list" where
  "outgoing_logs ct g m customer r =
     (if sr_reply r = [] then []
      else [turn_log (g_id g) (cm_channel m) (cm_phone m) OUTBOUND (ct_text ct (sr_reply r)) customer None None (cm_call m)])
     @ map (\<lambda>a. turn_log (g_id g) (cm_channel m) (cm_phone m) SYSTEM (ct_action_text ct a) customer None None (cm_call m)) (sr_actions r)"

text \<open>The message is answered: what \<open>dispatch\<close> decided is stored, logged and returned.\<close>

definition conclude ::
  "'n chat_setup \<Rightarrow> garage \<Rightarrow> chat_message \<Rightarrow> customer option \<Rightarrow> session \<Rightarrow> instant \<Rightarrow> intent \<Rightarrow> step_result \<Rightarrow> world
    \<Rightarrow> conversation_result effect" where
  "conclude ct g m customer s now goal r w =
     (let s' = finalized now goal r s
      in andthen (log_turns (outgoing_logs ct g m customer r) (put_session s' w)) (\<lambda>_ w'.
           (Inr ((result_of s')\<lparr>cr_reply := Some (sr_reply r), cr_actions := sr_actions r, cr_needs_human := sr_handoff r \<noteq> None\<rparr>),
            put_session (processed (cm_external m) s') w')))"

definition handle_message :: "'n chat_setup \<Rightarrow> garage \<Rightarrow> chat_message \<Rightarrow> instant \<Rightarrow> db \<Rightarrow> world \<Rightarrow> conversation_result talk" where
  "handle_message ct g m now d w0 =
     (let said = strip_text (cm_text m);
          customer = find_customer_by_phone d (g_id g) (Some (cm_phone m))
      in case get_or_create_session (g_id g) (cm_channel m) (cm_phone m) (map_option cu_id customer) now w0 of
           (s, w) \<Rightarrow>
             if already_processed s (cm_external m) then (Inr ((result_of s)\<lparr>cr_duplicate := True\<rparr>), d, w)
             else
               let guess = (if said = [] then UNKNOWN else resolve_intent said)
               in case create_log (turn_log (g_id g) (cm_channel m) (cm_phone m) INBOUND said customer (Some guess) (cm_external m) (cm_call m)) w of
                    (Inl e, w') \<Rightarrow> (Inl e, d, w')
                  | (Inr _, w1) \<Rightarrow>
                      if cv_status s = S_HUMAN_HANDOFF then
                        (Inr ((result_of s)\<lparr>cr_needs_human := True\<rparr>), d, put_session (processed (cm_external m) (touched now s)) w1)
                      else case dispatch_message ct (turn_of ct g m customer s now d) said guess w1 of
                        (Inl e, d', w') \<Rightarrow> (Inl e, d', w')
                      | (Inr (goal, r), d', w2) \<Rightarrow>
                          (case conclude ct g m customer s now goal r w2 of (res, w3) \<Rightarrow> (res, d', w3)))"

subsection \<open>The channels\<close>

definition whatsapp_number :: "string \<Rightarrow> string" where
  "whatsapp_number from_number = (if starts_with ''whatsapp:'' from_number then drop 9 from_number else from_number)"

text \<open>
  \<open>incoming_whatsapp\<close>: the reply for the carrier. Without the automation the message is only recorded, and
  \<open>auto_ack\<close> answers it when the deployment is set up so.
\<close>

definition incoming_whatsapp ::
  "'n chat_setup \<Rightarrow> (uid \<Rightarrow> garage) \<Rightarrow> bool \<Rightarrow> bool \<Rightarrow> (outreach \<Rightarrow> outreach) \<Rightarrow> inbound_form \<Rightarrow> instant \<Rightarrow> db \<Rightarrow> world
    \<Rightarrow> http_error + reply option talk" where
  "incoming_whatsapp ct garages signed auto_ack meanwhile form now d w =
     (if \<not> is_twilio_configured (ct_config ct) then Inl (Abort 503 ''not configured'')
      else if \<not> signed then Inl (Abort 403 ''invalid signature'')
      else Inr
        (case resolve_garage_by_whatsapp_sender (wd_book w) (fi_to form) of
           None \<Rightarrow> (Inr None, d, w)
         | Some g \<Rightarrow>
             let phone = whatsapp_number (fi_from form)
             in if is_conversation_automation_enabled (wd_book w) g then
                  (case handle_message ct (garages g)
                          \<lparr>cm_channel = WHATSAPP, cm_phone = phone, cm_text = fi_body form, cm_external = fi_sid form, cm_call = None\<rparr>
                          now d w of
                     (Inl e, d', w') \<Rightarrow> (Inl e, d', w')
                   | (Inr res, d', w') \<Rightarrow> (Inr (cr_reply res), d', w'))
                else
                  let customer = map_option cu_id (find_customer_by_phone d g (Some phone));
                      row = (blank_log g WHATSAPP INBOUND (unrelated\<lparr>rl_customer := customer\<rparr>))
                        \<lparr>lg_external := fi_sid form, lg_from := Some (fi_from form), lg_to := Some (fi_to form),
                         lg_status := ''received'', lg_body := Some (fi_body form)\<rparr>
                  in (case record_inbound_communication meanwhile row w of
                        (Inl e, w') \<Rightarrow> (Inl e, d, w')
                      | (Inr _, w') \<Rightarrow>
                          (Inr (if auto_ack then Some [Words ''Thanks for messaging '', Business g,
                             Words ''. This is an automated line - we'll get back to you shortly.''] else None), d, w'))))"

definition whatsapp_status :: "'n comm_config \<Rightarrow> bool \<Rightarrow> status_event \<Rightarrow> world \<Rightarrow> http_error + comm_log option \<times> world" where
  "whatsapp_status cf signed ev w =
     (if \<not> is_twilio_configured cf then Inl (Abort 503 ''not configured'')
      else if \<not> signed then Inl (Abort 403 ''invalid signature'')
      else Inr (update_communication_status ev w))"

text \<open>\<open>SimulateMessage.post\<close> of \<open>conversation/routes.py\<close>.\<close>

definition simulate_message ::
  "'n chat_setup \<Rightarrow> bool \<Rightarrow> garage \<Rightarrow> msg_channel \<Rightarrow> string \<Rightarrow> string \<Rightarrow> instant \<Rightarrow> db \<Rightarrow> world
    \<Rightarrow> http_error + conversation_result talk" where
  "simulate_message ct simulator_on g channel phone said now d w =
     (if \<not> simulator_on then Inl (Abort 404 [])
      else case normalize_uk_mobile (cf_phones (ct_config ct)) phone of
        Inl _ \<Rightarrow> Inl (Abort 422 ''invalid phone number'')
      | Inr phone_e164 \<Rightarrow>
          Inr (handle_message ct g
            \<lparr>cm_channel = channel, cm_phone = phone_e164, cm_text = said, cm_external = None, cm_call = None\<rparr> now d w))"

end
