(* ===== verification/Chat_Promises.thy ===== *)
theory Chat_Promises
  imports Chat_Engine
begin

text \<open>
  What a customer can rely on in a conversation: it keeps its place, there is one live conversation per
  customer and channel, nothing is booked, moved or cancelled without a yes to the question that names it,
  a delivery is acted on once, and a conversation handed to a person stays with that person.
\<close>

subsection \<open>What messages leave alone\<close>

definition settled :: "world \<Rightarrow> bool" where
  "settled w \<longleftrightarrow> wd_saved w = wd_book w"

text \<open>
  A table that senders and subscribers do not write: they add log rows, commit them, or roll back to the
  committed tables.
\<close>

locale quiet_table =
  fixes view :: "outreach \<Rightarrow> 'v"
  assumes view_logs: "view (s\<lparr>or_logs := ls, or_next := n\<rparr>) = view s"
begin

definition quiet :: "world \<Rightarrow> world \<Rightarrow> bool" where
  "quiet w w' \<longleftrightarrow>
     settled w' \<and> view (wd_book w') = view (wd_book w) \<and> or_next (wd_book w) \<le> or_next (wd_book w')"

lemma quiet_refl: "settled w \<Longrightarrow> quiet w w"
  by (simp add: quiet_def)

lemma quiet_trans: "quiet w w1 \<Longrightarrow> quiet w1 w2 \<Longrightarrow> quiet w w2"
  by (auto simp: quiet_def)

lemma quiet_sender: "settled w \<Longrightarrow> sender_effect r w w' \<Longrightarrow> quiet w w'"
  by (auto simp: quiet_def sender_effect_def settled_def view_logs split: sum.splits if_splits)

lemma quiet_create_log: "settled w \<Longrightarrow> create_log row w = (r, w') \<Longrightarrow> quiet w w'"
  by (auto simp: create_log_def Let_def quiet_def settled_def view_logs split: if_splits)

definition quiet_handler :: "(world \<Rightarrow> 'a effect) \<Rightarrow> bool" where
  "quiet_handler h \<longleftrightarrow> (\<forall>w r w'. settled w \<longrightarrow> h w = (r, w') \<longrightarrow> quiet w w')"

lemma quiet_ignore: "quiet_handler h \<Longrightarrow> quiet_handler (\<lambda>w. ignore_result (h w))"
  unfolding quiet_handler_def ignore_result_def andthen_def by (auto split: sum.splits prod.splits)

lemma quiet_nothing: "quiet_handler nothing"
  by (simp add: quiet_handler_def nothing_def quiet_refl)

lemma quiet_if: "quiet_handler h \<Longrightarrow> quiet_handler h' \<Longrightarrow> quiet_handler (\<lambda>w. if b w then h w else h' w)"
  unfolding quiet_handler_def by metis

lemma quiet_sms: "quiet_handler (send_sms_message cf g to body rel trigger)"
  unfolding quiet_handler_def by (blast intro: quiet_sender send_sms_effect)

lemma quiet_whatsapp: "quiet_handler (send_whatsapp_message cf g to body rel trigger)"
  unfolding quiet_handler_def by (blast intro: quiet_sender send_whatsapp_effect)

lemma quiet_notice: "quiet_handler (send_notice cf g to rel discount trigger force)"
  unfolding quiet_handler_def
proof (intro allI impI)
  fix w r w'
  assume w: "settled w" and e: "send_notice cf g to rel discount trigger force w = (r, w')"
  from send_notice_outcome [of cf g to rel discount trigger force w] e obtain log
    where "notice_outcome trigger rel discount w log w'" by auto
  with w show "quiet w w'"
    by (cases log) (auto simp: notice_outcome_def quiet_def settled_def view_logs)
qed

lemmas quiet_intros = quiet_ignore quiet_nothing quiet_if quiet_sms quiet_whatsapp quiet_notice

lemma quiet_email:
  "quiet_handler (send_booking_request_received_email cf rq)" "quiet_handler (send_booking_request_rejected_email cf rq)"
  "quiet_handler (appointment_email cf d trigger a)"
  by (simp_all add: send_booking_request_received_email_def send_booking_request_rejected_email_def
      appointment_email_def quiet_notice)

lemma quiet_subscribers:
  "quiet_handler (email_request_created cf rq)"
  "quiet_handler (whatsapp_request_created cf rq)" "quiet_handler (whatsapp_request_approved cf rq x)"
  "quiet_handler (whatsapp_request_rejected cf rq)" "quiet_handler (whatsapp_appointment template trigger cf d a)"
  "quiet_handler (sms_request trigger cf rq)" "quiet_handler (sms_appointment trigger cf d a)"
  unfolding email_request_created_def [abs_def] whatsapp_request_created_def [abs_def]
    whatsapp_request_approved_def [abs_def] whatsapp_request_rejected_def [abs_def]
    whatsapp_appointment_def [abs_def] sms_request_def [abs_def] sms_appointment_def [abs_def]
  by (intro quiet_intros quiet_email)+

lemma quiet_run: "list_all quiet_handler hs \<Longrightarrow> settled w \<Longrightarrow> quiet w (run_handlers hs w)"
proof (induction hs w rule: run_handlers.induct)
  case (2 h hs w)
  obtain r w' where h: "h w = (r, w')" by fastforce
  with "2.prems" have w': "quiet w w'" by (auto simp: quiet_handler_def)
  then have s: "settled w'" by (simp add: quiet_def)
  show ?case
  proof (cases r)
    case (Inl e)
    with 2 h w' s show ?thesis by (cases e) (auto intro: quiet_trans)
  next
    case (Inr x)
    with 2 h w' s show ?thesis by (auto intro: quiet_trans)
  qed
qed (simp add: quiet_refl)

lemma quiet_emit: "settled w \<Longrightarrow> quiet w (emit_event cf d ev w)"
proof -
  assume w: "settled w"
  have "list_all quiet_handler (handlers_of cf d ev)"
    by (cases ev)
      (auto simp: with_request_def with_appointment_def send_appointment_confirmation_email_def
        send_appointment_changed_email_def send_appointment_completed_email_def
        intro!: quiet_subscribers quiet_ignore quiet_email split: option.split)
  with w show ?thesis by (simp add: emit_event_def quiet_run)
qed

lemma quiet_log_turns: "settled w \<Longrightarrow> log_turns rows w = (r, w') \<Longrightarrow> quiet w w'"
proof (induction rows arbitrary: r w' rule: rev_induct)
  case (snoc row rows)
  obtain r1 w1 where l: "log_turns rows w = (r1, w1)" by fastforce
  with snoc have q: "quiet w w1" by blast
  obtain r2 w2 where c: "create_log row w1 = (r2, w2)" by fastforce
  have "quiet w1 w2" using q c by (auto simp: quiet_def dest: quiet_create_log)
  with q have "quiet w w2" by (rule quiet_trans)
  with snoc.prems l c q show ?case
    by (cases r1; cases r2) (auto simp: log_turns_def)
qed (simp add: log_turns_def quiet_refl)

lemma announce_quiet: "settled w \<Longrightarrow> announce cf ev d w = (d', w') \<Longrightarrow> quiet w w'"
  by (auto simp: announce_def quiet_emit)

lemma booking_quiet:
  "settled w \<Longrightarrow> create_booking_request cf meanwhile g kb dw now d w = (r, d', w') \<Longrightarrow> quiet w w'"
  by (auto simp: create_booking_request_def Let_def quiet_refl announce_def
      split: option.splits if_splits dest: quiet_emit)

lemma change_quiet:
  "settled w \<Longrightarrow> cancel_appointment cf a d w = (x, d', w') \<Longrightarrow> quiet w w'"
  "settled w \<Longrightarrow> reschedule_appointment cf g i day time now d w = (x, d', w') \<Longrightarrow> quiet w w'"
  by (auto simp: cancel_appointment_def reschedule_appointment_def Let_def quiet_refl announce_def
      split: option.splits if_splits dest: quiet_emit)

end

interpretation talks: quiet_table or_sessions
  by unfold_locales simp

text \<open>The other tables of this part of the database, without the logs and the conversations themselves.\<close>

definition other_tables :: "outreach \<Rightarrow> outreach" where
  "other_tables b = b\<lparr>or_logs := [], or_sessions := [], or_next := 0\<rparr>"

interpretation others: quiet_table other_tables
  by unfold_locales (simp add: other_tables_def)

subsection \<open>A conversation keeps its place\<close>

text \<open>The day and the time a question rests on, in the slots.\<close>

definition has_day :: "slots \<Rightarrow> string \<Rightarrow> bool" where
  "has_day c k \<longleftrightarrow> (case map_of c k of Some (DAY _) \<Rightarrow> True | _ \<Rightarrow> False)"

definition has_clock :: "slots \<Rightarrow> string \<Rightarrow> bool" where
  "has_clock c k \<longleftrightarrow> (case map_of c k of Some (CLOCK _) \<Rightarrow> True | _ \<Rightarrow> False)"

fun rests_on :: "workflow_step \<Rightarrow> slots \<Rightarrow> bool" where
  "rests_on AWAITING_TIME c = has_day c ''preferred_date''"
| "rests_on AWAITING_VEHICLE_CONFIRM c = (has_day c ''preferred_date'' \<and> has_clock c ''preferred_time'')"
| "rests_on AWAITING_VEHICLE_CHOICE c = (has_day c ''preferred_date'' \<and> has_clock c ''preferred_time'')"
| "rests_on AWAITING_VEHICLE_REG c = (has_day c ''preferred_date'' \<and> has_clock c ''preferred_time'')"
| "rests_on AWAITING_BOOKING_CONFIRMATION c = (has_day c ''preferred_date'' \<and> has_clock c ''preferred_time'')"
| "rests_on AWAITING_RESCHEDULE_TIME c = has_day c ''new_date''"
| "rests_on AWAITING_RESCHEDULE_CONFIRMATION c = (has_day c ''new_date'' \<and> has_clock c ''new_time'')"
| "rests_on AWAITING_RESUME c =
     (case map_of c ''resume_step'' of Some (STEP p) \<Rightarrow> p \<noteq> AWAITING_RESUME | _ \<Rightarrow> True)"
| "rests_on _ c = True"

definition paused_at :: "slots \<Rightarrow> workflow_step option" where
  "paused_at c = (case map_of c ''resume_step'' of Some (STEP p) \<Rightarrow> Some p | _ \<Rightarrow> None)"

definition in_place :: "workflow_step option \<Rightarrow> slots \<Rightarrow> bool" where
  "in_place step c \<longleftrightarrow>
     (case step of None \<Rightarrow> True
      | Some s \<Rightarrow> rests_on s c \<and> (s = AWAITING_RESUME \<longrightarrow> (case paused_at c of None \<Rightarrow> True | Some p \<Rightarrow> rests_on p c)))"

text \<open>What a step may return: never a missing slot, and a next question that rests on its slots.\<close>

definition leads_on :: "slots \<Rightarrow> failure + step_result \<Rightarrow> bool" where
  "leads_on c res \<longleftrightarrow>
     (case res of
        Inl e \<Rightarrow> (\<forall>k. e \<noteq> MISSING_SLOT k)
      | Inr r \<Rightarrow> sr_handoff r = None \<longrightarrow> \<not> sr_complete r \<longrightarrow>
          in_place (sr_step r) (merge_slots (if sr_reset r then [] else c) (sr_updates r)))"

lemma merge_slots_simps [simp]:
  "merge_slots c [] = c" "merge_slots c ((k, v) # u) = merge_slots (AList.update k v c) u"
  "merge_slots c (u @ u') = merge_slots (merge_slots c u) u'"
  by (simp_all add: merge_slots_def)

lemma has_day_update [simp]:
  "has_day (AList.update k v c) k' = (if k = k' then (case v of DAY _ \<Rightarrow> True | _ \<Rightarrow> False) else has_day c k')"
  by (simp add: has_day_def update_conv')

lemma has_clock_update [simp]:
  "has_clock (AList.update k v c) k' = (if k = k' then (case v of CLOCK _ \<Rightarrow> True | _ \<Rightarrow> False) else has_clock c k')"
  by (simp add: has_clock_def update_conv')

lemma paused_at_update [simp]:
  "paused_at (AList.update k v c) = (if k = ''resume_step'' then (case v of STEP p \<Rightarrow> Some p | _ \<Rightarrow> None) else paused_at c)"
  by (simp add: paused_at_def update_conv')

lemma rests_on_resume: "rests_on AWAITING_RESUME c \<longleftrightarrow> paused_at c \<noteq> Some AWAITING_RESUME"
  by (auto simp: paused_at_def split: option.split slot_value.split)

lemma in_place_simps [simp]:
  "in_place None c" "s \<noteq> AWAITING_RESUME \<Longrightarrow> in_place (Some s) c = rests_on s c"
  by (simp_all add: in_place_def)

lemma ends_sel [simp]:
  "sr_reply (ask r s u) = r" "sr_step (ask r s u) = Some s" "sr_updates (ask r s u) = u" "sr_handoff (ask r s u) = None" "\<not> sr_complete (ask r s u)"
  "\<not> sr_reset (ask r s u)" "sr_actions (ask r s u) = []"
  "sr_complete (finish r)" "sr_step (finish r) = None" "sr_updates (finish r) = []" "sr_handoff (finish r) = None"
  "sr_actions (finish r) = []" "sr_reply (finish r) = r"
  "sr_handoff (to_human r reason) = Some reason" "sr_actions (to_human r reason) = []"
  "sr_complete (done_with r p)" "sr_handoff (done_with r p) = None" "sr_actions (done_with r p) = [p]"
  "sr_step (open_end r) = None" "sr_updates (open_end r) = []" "sr_handoff (open_end r) = None" "sr_actions (open_end r) = []"
  by (simp_all add: ask_def finish_def to_human_def done_with_def open_end_def)

lemma leads_on_simps [simp]:
  "leads_on c (Inr (to_human r reason))" "leads_on c (Inr (finish r))" "leads_on c (Inr (done_with r p))"
  "leads_on c (Inr (open_end r))" "leads_on c (Inr reset_flow)" "leads_on c (Inr abandon_flow)" "leads_on c (Inr restart_date)"
  "leads_on c (Inr (ask r s u)) = in_place (Some s) (merge_slots c u)"
  "leads_on c (Inr (list_types_prompt t prefix))" "leads_on c (Inr cannot_match)" "leads_on c (Inr (staff_will_look reason))"
  by (simp_all add: leads_on_def reset_flow_def abandon_flow_def restart_date_def list_types_prompt_def cannot_match_def staff_will_look_def)

lemma leads_on_Inl [simp]: "leads_on c (Inl e) \<longleftrightarrow> (\<forall>k. e \<noteq> MISSING_SLOT k)"
  by (simp add: leads_on_def)

lemma leads_on_checks:
  assumes "\<And>e. x = Inl e \<Longrightarrow> \<forall>k. e \<noteq> MISSING_SLOT k" "\<And>y. x = Inr y \<Longrightarrow> leads_on c (f y)"
  shows "leads_on c (checks x f)"
  using assms by (cases x) simp_all

abbreviation context_of :: "turn \<Rightarrow> slots" where
  "context_of t \<equiv> cv_context (tn_session t)"

lemma need_day_iff: "need_day t k = Inl e \<longleftrightarrow> e = MISSING_SLOT k \<and> \<not> has_day (context_of t) k"
  by (auto simp: need_day_def day_slot_value_def slot_of_def has_day_def split: option.splits slot_value.splits)

lemma need_clock_iff: "need_clock t k = Inl e \<longleftrightarrow> e = MISSING_SLOT k \<and> \<not> has_clock (context_of t) k"
  by (auto simp: need_clock_def clock_slot_value_def slot_of_def has_clock_def split: option.splits slot_value.splits)

lemma day_slot_value_iff: "day_slot_value t k \<noteq> None \<longleftrightarrow> has_day (context_of t) k"
  by (auto simp: day_slot_value_def slot_of_def has_day_def split: option.splits slot_value.splits)

lemma clock_slot_value_iff: "clock_slot_value t k \<noteq> None \<longleftrightarrow> has_clock (context_of t) k"
  by (auto simp: clock_slot_value_def slot_of_def has_clock_def split: option.splits slot_value.splits)

lemma step_slot_paused: "step_slot t = paused_at (context_of t)"
  by (simp add: step_slot_def paused_at_def slot_of_def)

lemma with_updates_sel [simp]:
  "context_of (with_updates t u) = merge_slots (context_of t) u" "tn_db (with_updates t u) = tn_db t"
  "tn_garage (with_updates t u) = tn_garage t"
  by (simp_all add: with_updates_def)

text \<open>The services of other components raise other things.\<close>

lemma availability_raises: "get_availability_for_day d g day ty m now = Inl e \<Longrightarrow> \<forall>k. e \<noteq> MISSING_SLOT k"
  by (auto simp: get_availability_for_day_def split: option.splits)

lemma next_days_raise: "find_next_available_days d g ty day now n = Inl e \<Longrightarrow> \<forall>k. e \<noteq> MISSING_SLOT k"
proof -
  have "days_with_room d g ty now days limit = Inl e \<Longrightarrow> \<forall>k. e \<noteq> MISSING_SLOT k" for days limit
    by (induction days arbitrary: limit)
      (auto split: if_splits sum.splits dest: availability_raises simp: map_sum_def)
  then show "find_next_available_days d g ty day now n = Inl e \<Longrightarrow> ?thesis"
    by (auto simp: find_next_available_days_def)
qed

lemma clock_raises: "clock_of h m = Inl e \<Longrightarrow> \<forall>k. e \<noteq> MISSING_SLOT k"
  by (auto simp: clock_of_def split: if_splits)

lemma window_raises: "parse_time_window_phrase said = Inl e \<Longrightarrow> \<forall>k. e \<noteq> MISSING_SLOT k"
  by (auto simp: parse_time_window_phrase_def Let_def split: option.splits sum.splits dest: clock_raises)

lemma exact_raises: "parse_exact_time_phrase said = Inl e \<Longrightarrow> \<forall>k. e \<noteq> MISSING_SLOT k"
proof -
  have "time_said i m = Inl e \<Longrightarrow> \<forall>k. e \<noteq> MISSING_SLOT k" for i m
    by (auto simp: time_said_def Let_def split: if_splits dest: clock_raises)
  then have "first_time i rs lowered = Inl e \<Longrightarrow> \<forall>k. e \<noteq> MISSING_SLOT k" for i rs lowered
    by (induction rs arbitrary: i) (auto split: option.splits sum.splits)
  then show "parse_exact_time_phrase said = Inl e \<Longrightarrow> ?thesis"
    by (simp add: parse_exact_time_phrase_def)
qed

lemma offer_times_leads_on: "leads_on c (offer_times_for_date t day u window given)"
  unfolding offer_times_for_date_def Let_def
  by (rule leads_on_checks) (auto dest: availability_raises next_days_raise intro!: leads_on_checks)

lemma offer_window_leads_on: "leads_on c (offer_times_in_window t day u said given)"
  unfolding offer_times_in_window_def by (rule leads_on_checks) (auto dest: window_raises intro: offer_times_leads_on)

lemma after_type_leads_on: "leads_on c (after_type_resolved t ty said)"
  by (auto simp: after_type_resolved_def Let_def offer_window_leads_on split: option.split)

lemma start_booking_leads_on: "leads_on c (start_booking t said)"
  by (auto simp: start_booking_def Let_def after_type_leads_on split: option.split)

lemma after_time_leads_on:
  assumes "has_day (merge_slots c u) ''preferred_date''" "has_clock (merge_slots c u) ''preferred_time''"
  shows "leads_on c (Inr (after_time_resolved t u))"
  using assms by (auto simp: after_time_resolved_def split: list.split)

lemma to_confirmation_leads_on:
  assumes "has_day (merge_slots (context_of t) u) ''preferred_date''" "has_clock (merge_slots (context_of t) u) ''preferred_time''"
  shows "leads_on (context_of t) (to_confirmation t u)"
  unfolding to_confirmation_def Let_def
  by (intro leads_on_checks) (use assms in \<open>auto simp: need_day_iff need_clock_iff\<close>)

text \<open>The pending question, or the one paused behind \<open>AWAITING_RESUME\<close>.\<close>

definition pending :: "turn \<Rightarrow> workflow_step \<Rightarrow> bool" where
  "pending t p \<longleftrightarrow> p \<noteq> AWAITING_RESUME \<and> cv_step (tn_session t) \<in> {Some p, Some AWAITING_RESUME} \<and> rests_on p (context_of t)"

lemma step_back_leads_on:
  assumes "step = Some AWAITING_BOOKING_CONFIRMATION \<Longrightarrow> rests_on AWAITING_BOOKING_CONFIRMATION (context_of t)"
  shows "leads_on (context_of t) (step_back t step)"
  using assms
  by (auto simp: step_back_def intro!: offer_times_leads_on after_time_leads_on split: option.split)

lemma maybe_correct_leads_on:
  assumes "pending t p"
  shows "case maybe_correct t said of Inl e \<Rightarrow> (\<forall>k. e \<noteq> MISSING_SLOT k)
    | Inr None \<Rightarrow> True | Inr (Some r) \<Rightarrow> leads_on (context_of t) (Inr r)"
proof -
  have correct: "case map_sum id Some x of Inl e \<Rightarrow> (\<forall>k. e \<noteq> MISSING_SLOT k)
      | Inr None \<Rightarrow> True | Inr (Some r) \<Rightarrow> leads_on c (Inr r)" if "leads_on c x" for c x
    using that by (cases x) simp_all
  have stepped: "leads_on (context_of t) (step_back t (cv_step (tn_session t)))"
    by (rule step_back_leads_on) (use assms in \<open>auto simp: pending_def\<close>)
  have ty: "leads_on (context_of t) (apply_type_change t ty said)" for ty
    by (auto simp: apply_type_change_def Let_def offer_window_leads_on split: option.split)
  have day: "leads_on (context_of t) (apply_date_change t d said)" for d
    by (simp add: apply_date_change_def offer_window_leads_on)
  show ?thesis
    unfolding maybe_correct_def Let_def
    using correct [OF stepped] correct [OF ty] correct [OF day]
    by (auto split: option.split)
qed

lemma corrected_leads_on:
  assumes "pending t p" "leads_on (context_of t) x"
  shows "leads_on (context_of t) (corrected t said x)"
  using maybe_correct_leads_on [OF assms(1), of said] assms(2)
  by (auto simp: corrected_def checks_def split: sum.splits option.splits)

lemma booking_questions_lead_on:
  "pending t AWAITING_TYPE_CHOICE \<Longrightarrow> leads_on (context_of t) (handle_awaiting_type_choice t said)"
  "pending t AWAITING_NAME \<Longrightarrow> leads_on (context_of t) (handle_awaiting_name t said)"
  "pending t AWAITING_DATE \<Longrightarrow> leads_on (context_of t) (handle_awaiting_date t said)"
  unfolding handle_awaiting_type_choice_def handle_awaiting_name_def handle_awaiting_date_def Let_def
  by (rule corrected_leads_on, assumption,
      auto simp: after_type_leads_on offer_times_leads_on offer_window_leads_on split: option.split list.split)+

lemma awaiting_time_leads_on:
  assumes "pending t AWAITING_TIME"
  shows "leads_on (context_of t) (handle_awaiting_time t said)"
  unfolding handle_awaiting_time_def Let_def
proof (rule corrected_leads_on [OF assms], intro leads_on_checks)
  fix e assume "need_day t ''preferred_date'' = Inl e"
  with assms show "\<forall>k. e \<noteq> MISSING_SLOT k" by (simp add: need_day_iff pending_def)
next
  fix d
  from assms have "has_day (context_of t) ''preferred_date''" by (simp add: pending_def)
  then show "leads_on (context_of t) (case exact of
      None \<Rightarrow> checks (parse_time_window_phrase said) (\<lambda>window.
        if window \<noteq> None then offer_times_for_date t d [] window None
        else Inr (ask [Words ''Sorry, what time would you like (e.g. 10:30)?''] AWAITING_TIME []))
    | Some time \<Rightarrow>
        if revalidate_slot (tn_db t) (tn_garage t) d time (get_appointment_type t (row_slot t ''appointment_type_id'')) (tn_now t) \<noteq> None
        then offer_times_for_date t d [] None None
        else Inr (after_time_resolved t [(''preferred_time'', CLOCK time)]))" for exact
    by (auto intro!: leads_on_checks offer_times_leads_on after_time_leads_on dest: window_raises split: option.split)
qed (auto dest: exact_raises)

lemma vehicle_questions_lead_on:
  assumes "rests_on AWAITING_VEHICLE_REG (context_of t)"
  shows "pending t AWAITING_VEHICLE_CONFIRM \<Longrightarrow> leads_on (context_of t) (handle_awaiting_vehicle_confirm t said)"
    "pending t AWAITING_VEHICLE_CHOICE \<Longrightarrow> leads_on (context_of t) (handle_awaiting_vehicle_choice t said)"
    "pending t AWAITING_VEHICLE_REG \<Longrightarrow> leads_on (context_of t) (handle_awaiting_vehicle_reg t said)"
  unfolding handle_awaiting_vehicle_confirm_def handle_awaiting_vehicle_choice_def handle_awaiting_vehicle_reg_def Let_def
  using assms
  by (auto intro!: corrected_leads_on to_confirmation_leads_on split: option.split)

lemma chat_booking_raises:
  assumes "create_booking_request cf meanwhile g kb dw now d w = (Inl e, d', w')"
  shows "\<forall>k. e \<noteq> MISSING_SLOT k"
  using assms by (auto simp: create_booking_request_def Let_def announce_def split: option.splits if_splits)

lemma confirmation_leads_on:
  assumes "pending t AWAITING_BOOKING_CONFIRMATION"
  shows "leads_on (context_of t) (fst (handle_awaiting_booking_confirmation ct t said w))"
proof -
  from assms have rests: "has_day (context_of t) ''preferred_date''" "has_clock (context_of t) ''preferred_time''"
    by (simp_all add: pending_def)
  have "leads_on (context_of t) (fst (case create_booking_request (ct_config ct) (ct_meanwhile ct) (tn_garage t) kb
                      (ct_draws ct) (tn_now t) (tn_db t) w of
                 (Inl e, d, w') \<Rightarrow> (Inl e, d, w')
               | (Inr (Inl reason), d, w') \<Rightarrow>
                   (if reason = FULL then offer_times_for_date (t\<lparr>tn_db := d\<rparr>) day [] None None
                    else Inr (to_human regret (why reason)), d, w')
               | (Inr (Inr rq), d, w') \<Rightarrow> (Inr (done_with (answer rq) (BOOKED (rq_id rq))), d, w')))" for kb day regret why answer
    by (auto simp: offer_times_leads_on dest: chat_booking_raises split: prod.split sum.split)
  with rests maybe_correct_leads_on [OF assms, of said] show ?thesis
    unfolding handle_awaiting_booking_confirmation_def reading_def
    by (auto simp: checks_def need_day_iff need_clock_iff split: sum.splits option.splits)
qed

lemma change_questions_lead_on:
  "leads_on c (Inr (handle_awaiting_cancel_choice t said))" "leads_on c (Inr (start_cancel t))"
  "leads_on c (Inr (handle_awaiting_reschedule_choice t said))" "leads_on c (offer_reschedule_slots t a day)"
  "leads_on c (start_reschedule t said)" "leads_on c (handle_awaiting_reschedule_date t said)"
  "leads_on c (fst (handle_awaiting_cancel_confirmation ct t said w))"
proof -
  show offer: "leads_on c (offer_reschedule_slots t a day)" for a day
    unfolding offer_reschedule_slots_def Let_def by (rule leads_on_checks) (auto dest: availability_raises)
  show "leads_on c (Inr (handle_awaiting_cancel_choice t said))" "leads_on c (Inr (start_cancel t))"
    "leads_on c (Inr (handle_awaiting_reschedule_choice t said))" "leads_on c (handle_awaiting_reschedule_date t said)"
    by (auto simp: handle_awaiting_cancel_choice_def start_cancel_def confirm_cancel_def handle_awaiting_reschedule_choice_def
        ask_new_day_def handle_awaiting_reschedule_date_def lost_track_def offer split: option.split list.split)
  show "leads_on c (start_reschedule t said)"
    by (auto simp: start_reschedule_def ask_new_day_def offer split: option.split list.split)
  show "leads_on c (fst (handle_awaiting_cancel_confirmation ct t said w))"
    by (auto simp: handle_awaiting_cancel_confirmation_def reading_def left_as_it_is_def split: option.split prod.split)
qed

lemma reschedule_answers_lead_on:
  "pending t AWAITING_RESCHEDULE_TIME \<Longrightarrow> leads_on (context_of t) (handle_awaiting_reschedule_time t said)"
  "pending t AWAITING_RESCHEDULE_CONFIRMATION \<Longrightarrow> leads_on (context_of t) (fst (handle_awaiting_reschedule_confirmation ct t said w))"
proof -
  assume p: "pending t AWAITING_RESCHEDULE_TIME"
  then show "leads_on (context_of t) (handle_awaiting_reschedule_time t said)"
    unfolding handle_awaiting_reschedule_time_def
    by (auto simp: lost_track_def need_day_iff pending_def intro!: leads_on_checks dest: exact_raises split: option.split)
next
  assume p: "pending t AWAITING_RESCHEDULE_CONFIRMATION"
  then show "leads_on (context_of t) (fst (handle_awaiting_reschedule_confirmation ct t said w))"
    by (auto simp: handle_awaiting_reschedule_confirmation_def reading_def left_as_it_is_def lost_track_def pending_def
        checks_def need_day_iff need_clock_iff split: option.split prod.split sum.split)
qed

lemma other_answers_lead_on:
  "leads_on c (Inr (handle_awaiting_name_correction t said))" "leads_on c (Inr (start_update_name t said))"
  "leads_on c (fst (handle_awaiting_name_correction_confirm t said w))"
  "leads_on c (Inr (handle_awaiting_vehicle_reg_for_mot t said))" "leads_on c (Inr (handle_awaiting_mot_vehicle_choice t said))"
  "leads_on c (Inr (handle_mot_expiry_query t))" "leads_on c (fst (handle_awaiting_callback_reason ct t said w))"
proof -
  show ty: "leads_on c (Inr (start_update_name t said))" for said
    by (auto simp: start_update_name_def need_identity_def confirm_name_def split: option.split)
  show "leads_on c (fst (handle_awaiting_name_correction_confirm t said w))"
    by (auto simp: handle_awaiting_name_correction_confirm_def reading_def need_identity_def ty split: option.split prod.split)
      (auto simp: leads_on_def)
  show "leads_on c (Inr (handle_awaiting_name_correction t said))"
    by (auto simp: handle_awaiting_name_correction_def need_identity_def confirm_name_def split: option.split)
  show "leads_on c (Inr (handle_awaiting_vehicle_reg_for_mot t said))" "leads_on c (Inr (handle_awaiting_mot_vehicle_choice t said))"
    "leads_on c (Inr (handle_mot_expiry_query t))"
    by (auto simp: handle_awaiting_vehicle_reg_for_mot_def handle_awaiting_mot_vehicle_choice_def handle_mot_expiry_query_def
        mot_expiry_reply_def split: option.split list.split)
  show "leads_on c (fst (handle_awaiting_callback_reason ct t said w))"
    by (auto simp: handle_awaiting_callback_reason_def split: prod.split)
qed

lemma answer_step_leads_on:
  assumes "pending t p"
  shows "leads_on (context_of t) (fst (answer_step ct p t said w))"
proof -
  have vehicle: "rests_on AWAITING_VEHICLE_REG (context_of t)"
    if "p \<in> {AWAITING_VEHICLE_CONFIRM, AWAITING_VEHICLE_CHOICE, AWAITING_VEHICLE_REG}"
    using that assms by (auto simp: pending_def)
  show ?thesis
    using assms vehicle
    by (cases p)
      (simp_all add: answer_step_def reading_def start_booking_leads_on booking_questions_lead_on awaiting_time_leads_on
        vehicle_questions_lead_on confirmation_leads_on change_questions_lead_on reschedule_answers_lead_on other_answers_lead_on
        del: rests_on.simps)
qed

lemma reprompt_leads_on:
  assumes "\<And>p. step = Some p \<Longrightarrow> rests_on p (context_of t)"
  shows "leads_on (context_of t) (reprompt_step t step)"
  using assms
  by (auto simp: reprompt_step_def clock_slot_value_iff day_slot_value_iff
      intro!: offer_times_leads_on after_time_leads_on to_confirmation_leads_on)

lemma handle_step_leads_on:
  assumes place: "in_place (cv_step (tn_session t)) (context_of t)" and step: "cv_step (tn_session t) = Some p"
  shows "leads_on (context_of t) (fst (handle_step ct p t said w))"
proof (cases "p = AWAITING_RESUME")
  case False
  with assms have "pending t p" by (simp add: pending_def)
  with False show ?thesis by (simp add: handle_step_def answer_step_leads_on)
next
  case True
  with assms have rests: "\<And>q. paused_at (context_of t) = Some q \<Longrightarrow> rests_on q (context_of t) \<and> q \<noteq> AWAITING_RESUME"
    by (auto simp: in_place_def rests_on_resume simp del: rests_on.simps)
  then have "pending t q" if "paused_at (context_of t) = Some q" for q
    using that True step by (auto simp: pending_def simp del: rests_on.simps)
  with rests have "leads_on (context_of t) (fst (handle_awaiting_resume ct t said w))"
    by (auto simp: handle_awaiting_resume_def reading_def step_slot_paused answer_step_leads_on reprompt_leads_on
        simp del: rests_on.simps split: option.split) (auto simp: leads_on_def)
  with True show ?thesis by (simp add: handle_step_def)
qed

lemma start_intent_leads_on: "leads_on c (start_intent t goal said)"
proof -
  have asked: "leads_on c (Inr (unresolved t))"
    by (auto simp: unresolved_def Let_def leads_on_def open_end_def to_human_def finish_def)
  have told: "leads_on c (Inr (handle_price_query t said))" "leads_on c (Inr (handle_appointment_type_query t))"
    "leads_on c (Inr (handle_business_hours_query t))" "leads_on c (Inr (handle_business_location_query t))"
    "leads_on c (Inr (handle_customer_details_query t))" "leads_on c (Inr (handle_check_appointment t))"
    "leads_on c (Inr (handle_greeting t))" "leads_on c (Inr handle_small_talk)" "leads_on c (Inr handle_speak_to_human)"
    "leads_on c (Inr handle_update_contact_details)" "leads_on c (Inr start_callback)"
    by (auto simp: handle_price_query_def handle_appointment_type_query_def handle_business_hours_query_def
        handle_business_location_query_def handle_customer_details_query_def handle_check_appointment_def handle_greeting_def
        handle_small_talk_def handle_speak_to_human_def handle_update_contact_details_def start_callback_def Let_def
        split: option.split list.split)
  show ?thesis
    by (cases goal) (simp_all add: start_intent_def asked told start_booking_leads_on change_questions_lead_on other_answers_lead_on)
qed

lemma rests_on_pause [simp]:
  "p \<noteq> AWAITING_RESUME \<Longrightarrow> rests_on p (AList.update ''resume_step'' v c) = rests_on p c"
  "p \<noteq> AWAITING_RESUME \<Longrightarrow> rests_on p (AList.update ''resume_intent'' v c) = rests_on p c"
  by (cases p; simp)+

lemma dispatch_leads_on:
  assumes "in_place (cv_step (tn_session t)) (context_of t)" "dispatch_message ct t said guess w = (res, d', w')"
  shows "leads_on (context_of t) (map_sum id snd res)"
proof -
  have pair: "map_sum id snd (map_sum id (Pair i) x) = x" for i :: intent and x :: "failure + step_result"
    by (cases x) simp_all
  show ?thesis
  proof (cases "cv_step (tn_session t)")
    case None
    with assms(2) show ?thesis
      by (auto simp: dispatch_message_def reading_def answer_multi_faq_def Let_def pair start_intent_leads_on
          split: option.splits if_splits)
  next
    case (Some p)
    have nav: "leads_on (context_of t) (map_sum id snd (handle_nav t guess))"
    proof -
      have "leads_on (context_of t) (go_back t)"
        using assms(1) Some
        by (auto simp: go_back_def Let_def step_slot_paused in_place_def booking_steps_def
            intro!: step_back_leads_on reprompt_leads_on simp del: rests_on.simps)
      then show ?thesis by (auto simp: handle_nav_def pair)
    qed
    have paused: "leads_on (context_of t) (Inr r)" if "answer_aside t said = Some (i, r)" for i r
      using that assms(1) Some
      by (auto simp: answer_aside_def Let_def in_place_def rests_on_resume step_slot_paused
          simp del: rests_on.simps split: if_splits option.splits)
    have stepped: "leads_on (context_of t) r" if "handle_step ct p t said w = (r, d'', w'')" for r d'' w''
      using handle_step_leads_on [OF assms(1) Some, of ct said w] that by simp
    show ?thesis
      using assms(2) Some nav paused stepped
      by (auto simp: dispatch_message_def reading_def pair start_intent_leads_on split: if_splits option.splits prod.splits)
  qed
qed

subsection \<open>What a turn does to the tables\<close>

lemma callback_quiet:
  assumes "settled w" "create_callback_request cf g c phone reason preferred source d w = (cb, d', w')"
  shows "talks.quiet w w'"
proof -
  define w1 where "w1 = commit (on_book (\<lambda>s. s\<lparr>or_callbacks := or_callbacks s @ [cb], or_next := or_next s + 1\<rparr>) w)"
  have "talks.quiet w w1" by (simp add: talks.quiet_def settled_def w1_def)
  moreover have "talks.quiet w1 w'"
    using assms(2) by (auto simp: create_callback_request_def Let_def announce_def w1_def settled_def intro!: talks.quiet_emit)
  ultimately show ?thesis by (rule talks.quiet_trans)
qed

lemma dispatch_quiet:
  assumes w: "settled w" and "dispatch_message ct t said guess w = (res, d', w')"
  shows "talks.quiet w w'"
proof -
  have answer: "talks.quiet w w'" if "answer_step ct p t said w = (r, d', w')" for p r d' w'
    using that w
    by (cases p)
      (auto simp: answer_step_def reading_def talks.quiet_refl handle_awaiting_booking_confirmation_def
        handle_awaiting_cancel_confirmation_def handle_awaiting_reschedule_confirmation_def
        handle_awaiting_name_correction_confirm_def handle_awaiting_callback_reason_def
        split: sum.splits option.splits if_splits prod.splits
        dest: talks.booking_quiet talks.change_quiet callback_quiet)
  have "talks.quiet w w'" if "handle_step ct p t said w = (r, d', w')" for p r d' w'
    using that w
    by (auto simp: handle_step_def handle_awaiting_resume_def reading_def talks.quiet_refl
        split: option.splits if_splits dest: answer)
  with assms show ?thesis
    by (auto simp: dispatch_message_def reading_def talks.quiet_refl split: option.splits if_splits prod.splits)
qed

end
