(* ===== verification/Chat_History.thy ===== *)
theory Chat_History
  imports Chat_Promises
begin

text \<open>
  Histories of conversations: messages of any customers, takeovers and resumptions by the staff, and the
  sweep, in any order. Every table they can reach has one live conversation per customer and channel, and
  every conversation its place.
\<close>

subsection \<open>The table of sessions\<close>

definition talk_key :: "session \<Rightarrow> uid \<times> msg_channel \<times> string" where
  "talk_key s = (cv_garage s, cv_channel s, cv_phone s)"

definition one_live :: "outreach \<Rightarrow> bool" where
  "one_live b \<longleftrightarrow>
     (\<forall>s \<in> set (or_sessions b). \<forall>s' \<in> set (or_sessions b).
        live_session s \<longrightarrow> live_session s' \<longrightarrow> talk_key s = talk_key s' \<longrightarrow> cv_id s = cv_id s')"

definition places_kept :: "outreach \<Rightarrow> bool" where
  "places_kept b \<longleftrightarrow> (\<forall>s \<in> set (or_sessions b). in_place (cv_step s) (cv_context s))"

definition sessions_ok :: "outreach \<Rightarrow> bool" where
  "sessions_ok b \<longleftrightarrow>
     distinct (map cv_id (or_sessions b)) \<and> (\<forall>s \<in> set (or_sessions b). cv_id s < or_next b) \<and> one_live b \<and> places_kept b"

definition talks_ok :: "world \<Rightarrow> bool" where
  "talks_ok w \<longleftrightarrow> settled w \<and> sessions_ok (wd_book w)"

lemmas session_inv [inv_simps] = one_live_def places_kept_def sessions_ok_def talks_ok_def

lemma talks_with_key: "talks_with g ch p s \<longleftrightarrow> talk_key s = (g, ch, p)"
  by (auto simp: talks_with_def talk_key_def)

lemma sessions_ok_cong:
  assumes "sessions_ok b" "or_sessions b' = or_sessions b" "or_next b \<le> or_next b'"
  shows "sessions_ok b'"
proof -
  from assms have "\<forall>s \<in> set (or_sessions b'). cv_id s < or_next b'"
    unfolding sessions_ok_def by (metis order_less_le_trans)
  moreover have "one_live b' = one_live b" "places_kept b' = places_kept b"
    using assms(2) by (simp_all only: one_live_def places_kept_def)
  ultimately show ?thesis using assms(1,2) by (simp add: sessions_ok_def)
qed

lemma one_liveD:
  "one_live b \<Longrightarrow> s \<in> set (or_sessions b) \<Longrightarrow> s' \<in> set (or_sessions b) \<Longrightarrow> live_session s \<Longrightarrow> live_session s'
    \<Longrightarrow> talk_key s = talk_key s' \<Longrightarrow> cv_id s = cv_id s'"
  unfolding one_live_def by blast

lemma talks_okD:
  assumes "talks_ok w"
  shows "settled w" "distinct (map cv_id (or_sessions (wd_book w)))" "one_live (wd_book w)"
    "s \<in> set (or_sessions (wd_book w)) \<Longrightarrow> cv_id s < or_next (wd_book w)"
    "s \<in> set (or_sessions (wd_book w)) \<Longrightarrow> in_place (cv_step s) (cv_context s)"
  using assms by (simp_all add: talks_ok_def sessions_ok_def places_kept_def)

lemma talks_okI:
  assumes "settled w" "distinct (map cv_id (or_sessions (wd_book w)))"
    "\<And>s. s \<in> set (or_sessions (wd_book w)) \<Longrightarrow> cv_id s < or_next (wd_book w) \<and> in_place (cv_step s) (cv_context s)"
    "\<And>s s'. s \<in> set (or_sessions (wd_book w)) \<Longrightarrow> s' \<in> set (or_sessions (wd_book w)) \<Longrightarrow> live_session s
      \<Longrightarrow> live_session s' \<Longrightarrow> talk_key s = talk_key s' \<Longrightarrow> cv_id s = cv_id s'"
  shows "talks_ok w"
  using assms unfolding talks_ok_def sessions_ok_def places_kept_def one_live_def by blast

lemma talks_ok_quiet: "talks_ok w \<Longrightarrow> talks.quiet w w' \<Longrightarrow> talks_ok w'"
  unfolding talks_ok_def talks.quiet_def by (blast intro: sessions_ok_cong)

text \<open>A row may be replaced by one of the same conversation that is live only if the old one was.\<close>

definition succeeds :: "session \<Rightarrow> session \<Rightarrow> bool" where
  "succeeds s s' \<longleftrightarrow>
     cv_id s' = cv_id s \<and> talk_key s' = talk_key s \<and> (live_session s' \<longrightarrow> live_session s) \<and> in_place (cv_step s') (cv_context s')"

lemma put_session_ok:
  assumes ok: "talks_ok w" and s: "s \<in> set (or_sessions (wd_book w))" and succ: "succeeds s s'"
  shows "talks_ok (put_session s' w)" "s' \<in> set (or_sessions (wd_book (put_session s' w)))"
proof -
  let ?xs = "or_sessions (wd_book w)"
  note new = succ [unfolded succeeds_def]
  have rows: "or_sessions (wd_book (put_session s' w)) = row_set cv_id s' ?xs" by (simp add: put_session_def)
  have old: "y = s' \<or> y \<in> set ?xs \<and> cv_id y \<noteq> cv_id s" if "y \<in> set (row_set cv_id s' ?xs)" for y
    using in_row_set [OF that] new by auto
  show "s' \<in> set (or_sessions (wd_book (put_session s' w)))"
    unfolding rows using s new by (auto simp: row_set_def image_iff intro!: bexI [of _ s])
  show "talks_ok (put_session s' w)"
  proof (rule talks_okI, unfold rows)
    fix y assume "y \<in> set (row_set cv_id s' ?xs)"
    from old [OF this] show "cv_id y < or_next (wd_book (put_session s' w)) \<and> in_place (cv_step y) (cv_context y)"
      using talks_okD(4,5) [OF ok] s new by (auto simp: put_session_def)
  next
    fix y y' assume y: "y \<in> set (row_set cv_id s' ?xs)" "y' \<in> set (row_set cv_id s' ?xs)"
      and live: "live_session y" "live_session y'" "talk_key y = talk_key y'"
    from old [OF y(1)] old [OF y(2)] live show "cv_id y = cv_id y'"
      using one_liveD [OF talks_okD(3) [OF ok]] s new by metis
  qed (use talks_okD(2) [OF ok] in \<open>simp_all add: put_session_def settled_def\<close>)
qed

lemma add_session_ok:
  assumes ok: "talks_ok w" and free: "\<forall>s \<in> set (or_sessions (wd_book w)). live_session s \<longrightarrow> talk_key s \<noteq> (g, ch, p)"
  shows "talks_ok (add_session (new_session (wd_book w) g ch p c now) w)"
proof -
  let ?x = "new_session (wd_book w) g ch p c now" and ?xs = "or_sessions (wd_book w)"
  have x: "talk_key ?x = (g, ch, p)" "cv_id ?x = or_next (wd_book w)" "in_place (cv_step ?x) (cv_context ?x)"
    by (simp_all add: new_session_def talk_key_def)
  have rows: "or_sessions (wd_book (add_session ?x w)) = ?xs @ [?x]" "or_next (wd_book (add_session ?x w)) = or_next (wd_book w) + 1"
    by (simp_all add: add_session_def)
  show ?thesis
  proof (rule talks_okI, unfold rows)
    show "distinct (map cv_id (?xs @ [?x]))"
      using talks_okD(2) [OF ok] talks_okD(4) [OF ok] x(2) by fastforce
    fix y assume "y \<in> set (?xs @ [?x])"
    then show "cv_id y < or_next (wd_book w) + 1 \<and> in_place (cv_step y) (cv_context y)"
      using talks_okD(4,5) [OF ok, of y] x by auto
  next
    fix y y' assume y: "y \<in> set (?xs @ [?x])" "y' \<in> set (?xs @ [?x])"
      and live: "live_session y" "live_session y'" "talk_key y = talk_key y'"
    from y have "y = ?x \<or> y \<in> set ?xs" "y' = ?x \<or> y' \<in> set ?xs" by auto
    with live show "cv_id y = cv_id y'"
      using one_liveD [OF talks_okD(3) [OF ok], of y y'] free x(1) by metis
  qed (simp add: add_session_def settled_def)
qed

lemma get_active_session_Some:
  "get_active_session b g ch p = Some s \<Longrightarrow> s \<in> set (or_sessions b) \<and> talk_key s = (g, ch, p) \<and> live_session s"
  by (auto simp: get_active_session_def talks_with_key dest: find_SomeD)

lemma get_active_session_None:
  "get_active_session b g ch p = None \<longleftrightarrow> (\<forall>s \<in> set (or_sessions b). live_session s \<longrightarrow> talk_key s \<noteq> (g, ch, p))"
  by (auto simp: get_active_session_def find_None_iff talks_with_key)

lemma get_active_session_unique:
  assumes ok: "talks_ok w" and s: "s \<in> set (or_sessions (wd_book w))" "live_session s" "talk_key s = (g, ch, p)"
  shows "get_active_session (wd_book w) g ch p = Some s"
proof -
  from s obtain s' where s': "get_active_session (wd_book w) g ch p = Some s'"
    using get_active_session_None [of "wd_book w" g ch p] by auto
  from get_active_session_Some [OF this] s have "s' \<in> set (or_sessions (wd_book w))" "cv_id s' = cv_id s"
    using one_liveD [OF talks_okD(3) [OF ok], of s' s] by auto
  with s(1) talks_okD(2) [OF ok] have "s' = s" by (metis distinct_map inj_onD)
  with s' show ?thesis by simp
qed

lemma found_is_in_place:
  "talks_ok w \<Longrightarrow> get_active_session (wd_book w) g ch p = Some x \<Longrightarrow> in_place (cv_step x) (cv_context x)"
  by (auto dest: get_active_session_Some talks_okD(5))

definition joins :: "uid \<Rightarrow> msg_channel \<Rightarrow> string \<Rightarrow> session \<Rightarrow> world \<Rightarrow> bool" where
  "joins g ch p s w \<longleftrightarrow>
     talks_ok w \<and> s \<in> set (or_sessions (wd_book w)) \<and> live_session s \<and> talk_key s = (g, ch, p)"

lemma add_session_joins:
  assumes "talks_ok w" "get_active_session (wd_book w) g ch p = None" "s = new_session (wd_book w) g ch p c now"
  shows "joins g ch p s (add_session s w)"
proof -
  have "talks_ok (add_session s w)"
    using assms by (auto simp: get_active_session_None intro: add_session_ok)
  with assms(3) show ?thesis
    by (simp add: joins_def) (simp add: add_session_def new_session_def live_session_def talk_key_def)
qed

lemma expired_is_gone:
  assumes ok: "talks_ok w" and found: "get_active_session (wd_book w) g ch p = Some x"
  defines "w1 \<equiv> put_session (x\<lparr>cv_status := S_EXPIRED\<rparr>) w"
  shows "talks_ok w1" "get_active_session (wd_book w1) g ch p = None"
proof -
  note x = get_active_session_Some [OF found]
  have succ: "succeeds x (x\<lparr>cv_status := S_EXPIRED\<rparr>)"
    using found_is_in_place [OF ok found] by (simp add: succeeds_def talk_key_def live_session_def)
  show "talks_ok w1" unfolding w1_def by (rule put_session_ok(1) [OF ok _ succ]) (use x in simp)
  have "talk_key y \<noteq> (g, ch, p)" if "y \<in> set (or_sessions (wd_book w1))" and live: "live_session y" for y
  proof -
    from that have "y \<in> set (row_set cv_id (x\<lparr>cv_status := S_EXPIRED\<rparr>) (or_sessions (wd_book w)))"
      by (simp add: w1_def put_session_def)
    from in_row_set [OF this] live have "y \<in> set (or_sessions (wd_book w))" "cv_id y \<noteq> cv_id x"
      by (auto simp: live_session_def)
    with x live one_liveD [OF talks_okD(3) [OF ok], of y x] show ?thesis by auto
  qed
  then show "get_active_session (wd_book w1) g ch p = None" by (simp add: get_active_session_None)
qed

lemma get_or_create_joins:
  assumes ok: "talks_ok w" and e: "get_or_create_session g ch p c now w = (s, w')"
  shows "joins g ch p s w'"
proof (cases "get_active_session (wd_book w) g ch p")
  case None
  with e add_session_joins [OF ok None] show ?thesis by (auto simp: get_or_create_session_def Let_def)
next
  case (Some x)
  note x = get_active_session_Some [OF Some]
  show ?thesis
  proof (cases "is_stale x now")
    case False
    have "succeeds x (x\<lparr>cv_customer := c\<rparr>)"
      using x found_is_in_place [OF ok Some] by (simp add: succeeds_def talk_key_def live_session_def)
    from put_session_ok [OF ok _ this] x have "joins g ch p (x\<lparr>cv_customer := c\<rparr>) (put_session (x\<lparr>cv_customer := c\<rparr>) w)"
      by (simp add: joins_def) (simp add: live_session_def talk_key_def)
    moreover from ok x have "joins g ch p x w" by (simp add: joins_def)
    ultimately show ?thesis using False Some e by (auto simp: get_or_create_session_def split: if_splits)
  next
    case True
    note gone = expired_is_gone [OF ok Some]
    from True Some e add_session_joins [OF gone] show ?thesis
      by (auto simp: get_or_create_session_def Let_def)
  qed
qed

subsection \<open>A turn\<close>

lemma succeeds_sel:
  "in_place (cv_step s) (cv_context s) \<Longrightarrow> succeeds s (processed m s)"
  "in_place (cv_step s) (cv_context s) \<Longrightarrow> succeeds s (touched now s)"
  "live_session s \<Longrightarrow> in_place (cv_step s) (cv_context s) \<Longrightarrow> succeeds s (handed_off reason now s)"
  "live_session s \<Longrightarrow> succeeds s (resumed now s)"
  by (auto simp: succeeds_def processed_def touched_def handed_off_def resumed_def talk_key_def live_session_def)

lemma finalized_succeeds:
  assumes "live_session s" "in_place (cv_step s) (cv_context s)" "leads_on (cv_context s) (Inr r)"
  shows "succeeds s (finalized now goal r s)"
  using assms
  by (auto simp: finalized_def succeeds_def Let_def leads_on_def handed_off_def completed_def cleared_def at_step_def
      talk_key_def live_session_def split: option.split)

lemma joins_in_place: "joins g ch p s w \<Longrightarrow> in_place (cv_step s) (cv_context s)"
  by (auto simp: joins_def dest: talks_okD(5))

lemma joins_quiet: "joins g ch p s w \<Longrightarrow> talks.quiet w w' \<Longrightarrow> joins g ch p s w'"
  by (auto simp: joins_def dest: talks_ok_quiet) (auto simp: talks.quiet_def)

lemma put_joined:
  assumes "joins g ch p s w" "succeeds s s'"
  shows "talks_ok (put_session s' w)" "s' \<in> set (or_sessions (wd_book (put_session s' w)))" "in_place (cv_step s') (cv_context s')"
    "talk_key s' = (g, ch, p)"
  using put_session_ok [of w s s'] assms by (auto simp: joins_def succeeds_def)

lemma log_turns_raises: "log_turns rows w = (Inl e, w') \<Longrightarrow> e = DUPLICATE_EXTERNAL_ID"
proof (induction rows arbitrary: w' rule: rev_induct)
  case (snoc row rows)
  obtain r1 w1 where l: "log_turns rows w = (r1, w1)" by fastforce
  with snoc show ?case by (cases r1) (auto simp: log_turns_def andthen_def dest: create_log_Inl split: sum.splits prod.splits)
qed (simp add: log_turns_def)

lemma conclude_ok:
  assumes j: "joins (g_id g) (cm_channel m) (cm_phone m) s w" and r: "leads_on (cv_context s) (Inr r)"
    and e: "conclude ct g m customer s now goal r w = (res, w')"
  shows "talks_ok w'" "\<And>e. res = Inl e \<Longrightarrow> e = DUPLICATE_EXTERNAL_ID"
    "\<And>x. res = Inr x \<Longrightarrow> processed (cm_external m) (finalized now goal r s) \<in> set (or_sessions (wd_book w'))"
proof -
  let ?s = "finalized now goal r s" and ?key = "(g_id g, cm_channel m, cm_phone m)"
  have succ: "succeeds s ?s"
    using j r joins_in_place [OF j] by (intro finalized_succeeds) (simp_all add: joins_def)
  note put = put_joined [OF j succ]
  obtain l w1 where l: "log_turns (outgoing_logs ct g m customer r) (put_session ?s w) = (l, w1)" by fastforce
  have q: "talks.quiet (put_session ?s w) w1"
    using talks_okD(1) [OF put(1)] l by (rule talks.quiet_log_turns)
  have w1: "talks_ok w1" "?s \<in> set (or_sessions (wd_book w1))"
    using put q talks_ok_quiet by (auto simp: talks.quiet_def)
  note last = put_session_ok [OF w1 succeeds_sel(1) [OF put(3)]]
  show "talks_ok w'" using e l w1 last by (cases l) (auto simp: conclude_def Let_def)
  show "e = DUPLICATE_EXTERNAL_ID" if "res = Inl e" for e
    using that e l by (cases l) (auto simp: conclude_def Let_def dest: log_turns_raises)
  show "processed (cm_external m) ?s \<in> set (or_sessions (wd_book w'))" if "res = Inr x" for x
    using that e l last by (cases l) (auto simp: conclude_def Let_def)
qed

text \<open>The turn of a message, taken apart once for all proofs about it.\<close>

definition first_log :: "garage \<Rightarrow> chat_message \<Rightarrow> db \<Rightarrow> comm_log" where
  "first_log g m d =
     turn_log (g_id g) (cm_channel m) (cm_phone m) INBOUND (strip_text (cm_text m))
       (find_customer_by_phone d (g_id g) (Some (cm_phone m)))
       (Some (if strip_text (cm_text m) = [] then UNKNOWN else resolve_intent (strip_text (cm_text m)))) (cm_external m) (cm_call m)"

lemma handle_messageE:
  assumes ok: "talks_ok w0" and e: "handle_message ct g m now d w0 = (res, d', w')"
  obtains
    (duplicate) s where "joins (g_id g) (cm_channel m) (cm_phone m) s w'" "already_processed s (cm_external m)"
      "res = Inr ((result_of s)\<lparr>cr_duplicate := True\<rparr>)" "d' = d"
      "get_or_create_session (g_id g) (cm_channel m) (cm_phone m)
         (map_option cu_id (find_customer_by_phone d (g_id g) (Some (cm_phone m)))) now w0 = (s, w')"
  | (refused) s w err where "joins (g_id g) (cm_channel m) (cm_phone m) s w" "create_log (first_log g m d) w = (Inl err, w')"
      "res = Inl err" "d' = d"
      "get_or_create_session (g_id g) (cm_channel m) (cm_phone m)
         (map_option cu_id (find_customer_by_phone d (g_id g) (Some (cm_phone m)))) now w0 = (s, w)"
  | (human) s w w1 where "get_or_create_session (g_id g) (cm_channel m) (cm_phone m)
         (map_option cu_id (find_customer_by_phone d (g_id g) (Some (cm_phone m)))) now w0 = (s, w)" "talks.quiet w w1"
      "joins (g_id g) (cm_channel m) (cm_phone m) s w1" "cv_status s = S_HUMAN_HANDOFF"
      "\<exists>row. create_log (first_log g m d) w = (Inr row, w1)" "res = Inr ((result_of s)\<lparr>cr_needs_human := True\<rparr>)" "d' = d" "w' = put_session (processed (cm_external m) (touched now s)) w1"
  | (raised) s w w1 goal err where "get_or_create_session (g_id g) (cm_channel m) (cm_phone m)
         (map_option cu_id (find_customer_by_phone d (g_id g) (Some (cm_phone m)))) now w0 = (s, w)" "talks.quiet w w1"
      "joins (g_id g) (cm_channel m) (cm_phone m) s w1" "cv_status s = S_ACTIVE"
      "dispatch_message ct (turn_of ct g m (find_customer_by_phone d (g_id g) (Some (cm_phone m))) s now d) (strip_text (cm_text m)) goal w1
        = (Inl err, d', w')" "res = Inl err"
  | (answered) s w w1 w2 guess goal r where "get_or_create_session (g_id g) (cm_channel m) (cm_phone m)
         (map_option cu_id (find_customer_by_phone d (g_id g) (Some (cm_phone m)))) now w0 = (s, w)" "talks.quiet w w1" "talks.quiet w1 w2"
      "joins (g_id g) (cm_channel m) (cm_phone m) s w1" "cv_status s = S_ACTIVE"
      "dispatch_message ct (turn_of ct g m (find_customer_by_phone d (g_id g) (Some (cm_phone m))) s now d) (strip_text (cm_text m)) guess w1
        = (Inr (goal, r), d', w2)"
      "conclude ct g m (find_customer_by_phone d (g_id g) (Some (cm_phone m))) s now goal r w2 = (res, w')"
      "joins (g_id g) (cm_channel m) (cm_phone m) s w2"
proof -
  let ?c = "find_customer_by_phone d (g_id g) (Some (cm_phone m))" and ?said = "strip_text (cm_text m)"
  define guess where "guess = (if ?said = [] then UNKNOWN else resolve_intent ?said)"
  obtain s w where sw: "get_or_create_session (g_id g) (cm_channel m) (cm_phone m) (map_option cu_id ?c) now w0 = (s, w)" by fastforce
  note j = get_or_create_joins [OF ok sw]
  obtain l w1 where l: "create_log (first_log g m d) w = (l, w1)" by fastforce
  have q1: "talks.quiet w w1" using j l by (auto simp: joins_def dest: talks_okD(1) talks.quiet_create_log)
  note j1 = joins_quiet [OF j q1]
  obtain r d2 w2 where dp: "dispatch_message ct (turn_of ct g m ?c s now d) ?said guess w1 = (r, d2, w2)" by (metis prod_cases3)
  have q2: "talks.quiet w1 w2" using j1 dp by (auto simp: joins_def dest: talks_okD(1) dispatch_quiet)
  note j2 = joins_quiet [OF j1 q2]
  have live: "cv_status s = S_HUMAN_HANDOFF \<or> cv_status s = S_ACTIVE" using j by (auto simp: joins_def live_session_def)
  have fl: "turn_log (g_id g) (cm_channel m) (cm_phone m) INBOUND ?said ?c (Some guess) (cm_external m) (cm_call m) = first_log g m d"
    by (simp add: first_log_def guess_def)
  note body = e [unfolded handle_message_def Let_def sw prod.case guess_def [symmetric] fl l]
  show thesis
  proof (cases "already_processed s (cm_external m)")
    case True
    with body j sw show thesis by (intro duplicate) auto
  next
    case new: False
    show thesis
    proof (cases l)
      case (Inl err)
      with new body j l sw show thesis by (intro refused) auto
    next
      case (Inr row)
      show thesis
      proof (cases "cv_status s = S_HUMAN_HANDOFF")
        case True
        with new Inr body j1 q1 sw l show thesis by (intro human [of s w w1]) auto
      next
        case False
        with live have active: "cv_status s = S_ACTIVE" by simp
        show thesis
        proof (cases r)
          case (Inl err)
          with new \<open>l = Inr row\<close> False body j1 q1 sw active dp show thesis by (intro raised [of s w w1 guess]) auto
        next
          case (Inr x)
          obtain goal sr where x: "x = (goal, sr)" by fastforce
          obtain res' w3 where c: "conclude ct g m ?c s now goal sr w2 = (res', w3)" by fastforce
          with Inr new \<open>l = Inr row\<close> False body j1 j2 q1 q2 sw active dp x show thesis by (intro answered [of s w w1 w2 guess goal sr]) auto
        qed
      qed
    qed
  qed
qed

lemma turn_of_sel [simp]:
  "tn_session (turn_of ct g m c s now d) = s" "tn_db (turn_of ct g m c s now d) = d" "tn_garage (turn_of ct g m c s now d) = g"
  "tn_customer (turn_of ct g m c s now d) = c" "tn_now (turn_of ct g m c s now d) = now" "tn_phone (turn_of ct g m c s now d) = cm_phone m"
  by (simp_all add: turn_of_def)

lemma dispatch_in_place:
  assumes "joins g' ch p s w" "dispatch_message ct (turn_of ct g m c s now d) said guess w = (r, d', w')"
  shows "leads_on (cv_context s) (map_sum id snd r)"
  using dispatch_leads_on [OF _ assms(2)] joins_in_place [OF assms(1)] by simp

lemma handle_message_ok:
  assumes ok: "talks_ok w" and e: "handle_message ct g m now d w = (res, d', w')"
  shows "talks_ok w'" "res \<noteq> Inl (MISSING_SLOT k)"
proof -
  have "talks_ok w' \<and> res \<noteq> Inl (MISSING_SLOT k)"
    using ok e
  proof (cases rule: handle_messageE)
    case (duplicate s)
    then show ?thesis by (simp add: joins_def)
  next
    case (refused s w1 err)
    then have "talks.quiet w1 w'" by (auto simp: joins_def dest: talks_okD(1) talks.quiet_create_log)
    with refused show ?thesis by (auto simp: joins_def dest: talks_ok_quiet create_log_Inl)
  next
    case (human s w0 w1)
    then have "succeeds s (touched now s)" by (auto intro: succeeds_sel joins_in_place)
    then have "succeeds s (processed (cm_external m) (touched now s))"
      by (auto simp: succeeds_def processed_def talk_key_def live_session_def)
    from put_joined(1) [OF human(3) this] human show ?thesis by simp
  next
    case (raised s w0 w1 goal err)
    then have "talks.quiet w1 w'" by (auto simp: joins_def dest: talks_okD(1) dispatch_quiet)
    with raised dispatch_in_place [OF raised(3,5)] show ?thesis by (auto simp: joins_def dest: talks_ok_quiet)
  next
    case (answered s w0 w1 w2 guess goal r)
    have "leads_on (cv_context s) (Inr r)" using dispatch_in_place [OF answered(4,6)] by simp
    from conclude_ok [OF answered(8) this answered(7)] show ?thesis by auto
  qed
  then show "talks_ok w'" "res \<noteq> Inl (MISSING_SLOT k)" by simp_all
qed

lemma sweep_ok:
  assumes ok: "talks_ok w"
  shows "talks_ok (snd (expire_stale_sessions now w))"
proof -
  define f where "f x = (if cv_id x \<in> set (map cv_id (filter (\<lambda>s. is_stale s now) (filter sweepable (or_sessions (wd_book w)))))
      then x\<lparr>cv_status := S_EXPIRED\<rparr> else x)" for x :: session
  have f: "cv_id (f x) = cv_id x" "talk_key (f x) = talk_key x" "live_session (f x) \<Longrightarrow> live_session x"
    "cv_step (f x) = cv_step x" "cv_context (f x) = cv_context x" for x
    by (auto simp: f_def talk_key_def live_session_def split: if_splits)
  have "talks_ok (commit (on_book (\<lambda>b. b\<lparr>or_sessions := map f (or_sessions b)\<rparr>) w))"
  proof (rule talks_okI)
    show "distinct (map cv_id (or_sessions (wd_book (commit (on_book (\<lambda>b. b\<lparr>or_sessions := map f (or_sessions b)\<rparr>) w)))))"
      using talks_okD(2) [OF ok] by (simp add: f(1) comp_def)
  next
    fix y y' assume "y \<in> set (or_sessions (wd_book (commit (on_book (\<lambda>b. b\<lparr>or_sessions := map f (or_sessions b)\<rparr>) w))))"
      "y' \<in> set (or_sessions (wd_book (commit (on_book (\<lambda>b. b\<lparr>or_sessions := map f (or_sessions b)\<rparr>) w))))"
      and live: "live_session y" "live_session y'" "talk_key y = talk_key y'"
    then obtain x x' where x: "x \<in> set (or_sessions (wd_book w))" "x' \<in> set (or_sessions (wd_book w))" "y = f x" "y' = f x'"
      by auto
    with live f show "cv_id y = cv_id y'"
      using one_liveD [OF talks_okD(3) [OF ok], of x x'] by metis
  qed (use talks_okD(4,5) [OF ok] f in \<open>auto simp: settled_def\<close>)
  with ok show ?thesis by (simp add: expire_stale_sessions_def Let_def f_def [abs_def])
qed

lemma staff_ok:
  assumes ok: "talks_ok w"
  shows "talks_ok (snd (take_over g phone first_name last_name now w))" "talks_ok (snd (resume_automation g phone now w))"
proof -
  have place: "x \<in> set (or_sessions (wd_book w)) \<and> in_place (cv_step x) (cv_context x)"
    if "get_conversation_session (wd_book w) g phone = Some x" for x
    using that talks_okD(5) [OF ok, of x] by (auto simp: get_conversation_session_def dest: find_SomeD)
  then show "talks_ok (snd (take_over g phone first_name last_name now w))" "talks_ok (snd (resume_automation g phone now w))"
    using ok
    by (auto simp: take_over_def resume_automation_def Let_def intro!: put_session_ok(1) succeeds_sel split: option.split)
      (auto simp: live_session_def)
qed

subsection \<open>Histories\<close>

text \<open>
  One step of a history. The bookings may change in any way between two messages: that is the rest of the
  program.
\<close>

inductive talk_step :: "'n chat_setup \<Rightarrow> db \<times> world \<Rightarrow> db \<times> world \<Rightarrow> bool" for ct where
  writes: "handle_message ct g m now d w = (res, d', w') \<Longrightarrow> talk_step ct (d, w) (d', w')"
| takes_over: "take_over g phone first_name last_name now w = (s, w') \<Longrightarrow> talk_step ct (d, w) (d, w')"
| resumes: "resume_automation g phone now w = (s, w') \<Longrightarrow> talk_step ct (d, w) (d, w')"
| sweeps: "expire_stale_sessions now w = (n, w') \<Longrightarrow> talk_step ct (d, w) (d, w')"
| books_elsewhere: "talk_step ct (d, w) (d', w)"

inductive_cases talk_stepE: "talk_step ct (d, w) st"

lemma talk_step_ok: "talk_step ct (d, w) (d', w') \<Longrightarrow> talks_ok w \<Longrightarrow> talks_ok w'"
  using sweep_ok staff_ok by (elim talk_stepE) (auto dest: handle_message_ok(1), (metis snd_conv)+)

lemma talk_steps_ok: "(talk_step ct)\<^sup>*\<^sup>* st st' \<Longrightarrow> talks_ok (snd st) \<Longrightarrow> talks_ok (snd st')"
proof (induction rule: rtranclp_induct)
  case (step y z)
  then show ?case by (cases y; cases z) (auto dest: talk_step_ok)
qed simp

text \<open>
  C13: A conversation keeps its place. Whatever customers write, the staff take over or hand back, the sweep
  expires and the rest of the program does to the bookings, in any order: every customer has one live
  conversation per channel at most, every pending question has the day and time it rests on in its slots, and
  so no message is ever lost to a missing slot.
\<close>

theorem conversation_keeps_its_place:
  assumes "talks_ok w" "(talk_step ct)\<^sup>*\<^sup>* (d, w) (d', w')"
  shows "talks_ok w' \<and> fst (handle_message ct g m now d' w') \<noteq> Inl (MISSING_SLOT k)"
proof -
  have ok: "talks_ok w'" using talk_steps_ok [OF assms(2)] assms(1) by simp
  obtain res d2 w2 where "handle_message ct g m now d' w' = (res, d2, w2)" by (metis prod_cases3)
  with handle_message_ok(2) [OF ok this] ok show ?thesis by simp
qed

text \<open>A small history: a customer who was offered times on day 1 comes back after the sweep.\<close>

definition demo_talk :: session where
  "demo_talk =
     \<lparr>cv_id = 0, cv_garage = 1, cv_channel = WHATSAPP, cv_phone = ''+44'', cv_customer = None, cv_status = S_ACTIVE,
      cv_intent = Some CREATE_BOOKING, cv_step = Some AWAITING_TIME, cv_context = [(''preferred_date'', DAY 1)],
      cv_handoff_reason = None, cv_last_message = None, cv_last_activity = 0\<rparr>"

definition talk_world :: "session \<Rightarrow> world" where
  "talk_world s =
     \<lparr>wd_saved = demo_outreach\<lparr>or_sessions := [s]\<rparr>, wd_book = demo_outreach\<lparr>or_sessions := [s]\<rparr>, wd_mails = [], wd_calls = []\<rparr>"

definition demo_chat :: "string chat_setup" where
  "demo_chat =
     \<lparr>ct_config = demo_config, ct_meanwhile = id,
      ct_draws = \<lparr>dw_references = [], dw_acceptance = ''a'', dw_recovery = ''r'', dw_terms_minutes = 60\<rparr>,
      ct_text = (\<lambda>_. ''text''), ct_action_text = (\<lambda>_. ''action''), ct_max_unresolved = 3, ct_address = (\<lambda>_. (None, None))\<rparr>"

lemma talk_world_ok: "cv_id s = 0 \<Longrightarrow> in_place (cv_step s) (cv_context s) \<Longrightarrow> talks_ok (talk_world s)"
  by (simp add: talks_ok_def sessions_ok_def one_live_def places_kept_def settled_def talk_world_def demo_outreach_def)

lemma demo_talk_ok: "talks_ok (talk_world demo_talk)"
  by (rule talk_world_ok) (simp_all add: demo_talk_def has_day_def)

definition demo_words :: "string \<Rightarrow> chat_message" where
  "demo_words said = \<lparr>cm_channel = WHATSAPP, cm_phone = ''+44'', cm_text = said, cm_external = Some ''m1'', cm_call = None\<rparr>"

text \<open>She answers when the sweep has expired the conversation.\<close>

definition after_sweep :: world where
  "after_sweep = snd (expire_stale_sessions (13 * 60 * minute_us) (talk_world demo_talk))"

lemma demo_sweep: "(talk_step demo_chat)\<^sup>*\<^sup>* (demo_db, talk_world demo_talk) (demo_db, after_sweep)"
  by (rule r_into_rtranclp, rule sweeps [of "13 * 60 * minute_us" _ "fst (expire_stale_sessions (13 * 60 * minute_us) (talk_world demo_talk))"])
    (simp add: after_sweep_def)

lemma conversation_keeps_its_place_witness:
  "talks_ok after_sweep
     \<and> fst (handle_message demo_chat demo_garage (demo_words ''9am'') 0 demo_db after_sweep) \<noteq> Inl (MISSING_SLOT ''preferred_date'')"
  by (rule conversation_keeps_its_place [OF demo_talk_ok demo_sweep])

subsection \<open>A conversation in the hands of a person\<close>

lemma put_session_other:
  "x \<in> set (or_sessions (wd_book w)) \<Longrightarrow> cv_id x \<noteq> cv_id s \<Longrightarrow> x \<in> set (or_sessions (wd_book (put_session s w)))"
  by (force simp: put_session_def row_set_def)

lemma other_id:
  assumes "talks_ok w" "x \<in> set (or_sessions (wd_book w))" "s \<in> set (or_sessions (wd_book w))" "talk_key x \<noteq> talk_key s"
  shows "cv_id x \<noteq> cv_id s"
  using assms talks_okD(2) [OF assms(1)] by (metis distinct_map inj_onD)

lemma get_or_create_other:
  assumes ok: "talks_ok w" and x: "x \<in> set (or_sessions (wd_book w))" "talk_key x \<noteq> (g, ch, p)"
    and e: "get_or_create_session g ch p c now w = (s, w')"
  shows "x \<in> set (or_sessions (wd_book w'))"
proof (cases "get_active_session (wd_book w) g ch p")
  case None
  with x e show ?thesis by (auto simp: get_or_create_session_def Let_def add_session_def)
next
  case (Some y)
  with other_id [OF ok x(1), of y] x(2) have "cv_id x \<noteq> cv_id y" by (auto dest: get_active_session_Some)
  then have "x \<in> set (or_sessions (wd_book (put_session (y\<lparr>cv_status := S_EXPIRED\<rparr>) w)))"
    "x \<in> set (or_sessions (wd_book (put_session (y\<lparr>cv_customer := c\<rparr>) w)))"
    using put_session_other [OF x(1)] by simp_all
  with x Some e show ?thesis
    by (auto simp: get_or_create_session_def Let_def add_session_def split: if_splits)
qed

lemma conclude_other:
  assumes "settled w" "x \<in> set (or_sessions (wd_book w))" "cv_id x \<noteq> cv_id s"
    "conclude ct g m customer s now goal r w = (res, w')"
  shows "x \<in> set (or_sessions (wd_book w'))"
proof -
  let ?s = "finalized now goal r s"
  have id: "cv_id ?s = cv_id s" "cv_id (processed (cm_external m) ?s) = cv_id s"
    by (simp_all add: finalized_def Let_def handed_off_def completed_def cleared_def at_step_def processed_def split: option.split)
  obtain l w1 where l: "log_turns (outgoing_logs ct g m customer r) (put_session ?s w) = (l, w1)" by fastforce
  have "settled (put_session ?s w)" by (simp add: put_session_def settled_def)
  from talks.quiet_log_turns [OF this l] put_session_other [OF assms(2), of ?s] assms(3) id
  have "x \<in> set (or_sessions (wd_book w1))" by (simp add: talks.quiet_def)
  with put_session_other [OF this, of "processed (cm_external m) ?s"] assms(3,4) id l show ?thesis
    by (cases l) (auto simp: conclude_def Let_def)
qed

text \<open>A message leaves the rows of all other conversations as they are.\<close>

lemma handle_message_other:
  assumes ok: "talks_ok w" and x: "x \<in> set (or_sessions (wd_book w))" "talk_key x \<noteq> (g_id g, cm_channel m, cm_phone m)"
    and e: "handle_message ct g m now d w = (res, d', w')"
  shows "x \<in> set (or_sessions (wd_book w'))"
  using ok e
proof (cases rule: handle_messageE)
  case (duplicate s)
  with get_or_create_other [OF ok x] show ?thesis by auto
next
  case (refused s w1 err)
  with get_or_create_other [OF ok x] have "x \<in> set (or_sessions (wd_book w1))" by auto
  moreover from refused have "talks.quiet w1 w'" by (auto simp: joins_def dest: talks_okD(1) talks.quiet_create_log)
  ultimately show ?thesis by (simp add: talks.quiet_def)
next
  case (human s w0 w1)
  with get_or_create_other [OF ok x human(1)] have "x \<in> set (or_sessions (wd_book w1))" by (simp add: talks.quiet_def)
  moreover from this human(3) x(2) have "cv_id x \<noteq> cv_id s" by (auto simp: joins_def dest: other_id)
  ultimately show ?thesis using human by (auto simp: processed_def touched_def intro!: put_session_other)
next
  case (raised s w0 w1 goal err)
  with get_or_create_other [OF ok x raised(1)] have "x \<in> set (or_sessions (wd_book w1))" by (simp add: talks.quiet_def)
  moreover from raised have "talks.quiet w1 w'" by (auto simp: joins_def dest: talks_okD(1) dispatch_quiet)
  ultimately show ?thesis by (simp add: talks.quiet_def)
next
  case (answered s w0 w1 w2 guess goal r)
  with get_or_create_other [OF ok x answered(1)] have in2: "x \<in> set (or_sessions (wd_book w2))" by (simp add: talks.quiet_def)
  moreover from this answered(8) x(2) have "cv_id x \<noteq> cv_id s" by (auto simp: joins_def dest: other_id)
  moreover from answered(8) have "settled w2" by (auto simp: joins_def dest: talks_okD(1))
  ultimately show ?thesis using answered(7) by (auto dest: conclude_other)
qed

definition with_staff :: "uid \<Rightarrow> string \<Rightarrow> world \<Rightarrow> bool" where
  "with_staff g phone w \<longleftrightarrow>
     (\<exists>x \<in> set (or_sessions (wd_book w)). cv_status x = S_HUMAN_HANDOFF \<and> talk_key x = (g, WHATSAPP, phone))"

text \<open>
  Its customer's messages find that conversation, whatever the time, and only record: one row with the text
  and the carrier's id for a message that is new, none for one that was delivered before.
\<close>

definition recorded_once :: "garage \<Rightarrow> chat_message \<Rightarrow> bool \<Rightarrow> world \<Rightarrow> world \<Rightarrow> bool" where
  "recorded_once g m duplicate w w' \<longleftrightarrow>
     (if duplicate then or_logs (wd_book w') = or_logs (wd_book w)
      else \<exists>row. or_logs (wd_book w') = or_logs (wd_book w) @ [row] \<and> lg_garage row = g_id g \<and> lg_direction row = INBOUND
        \<and> lg_from row = Some (''whatsapp:'' @ cm_phone m) \<and> lg_body row = Some (strip_text (cm_text m)) \<and> lg_external row = cm_external m)"

lemma get_or_create_outbox:
  assumes "get_or_create_session g ch p c now w = (s, w')"
  shows "or_logs (wd_book w') = or_logs (wd_book w)" "wd_mails w' = wd_mails w" "wd_calls w' = wd_calls w"
  using assms by (auto simp: get_or_create_session_def Let_def put_session_def add_session_def split: option.splits if_splits)

lemma create_log_outbox:
  assumes "create_log row w = (r, w')"
  shows "wd_mails w' = wd_mails w" "wd_calls w' = wd_calls w"
  using assms by (auto simp: create_log_def Let_def split: if_splits)

lemma staff_message:
  assumes ok: "talks_ok w" and staff: "with_staff (g_id g) (cm_phone m) w" and whatsapp: "cm_channel m = WHATSAPP"
    and e: "handle_message ct g m now d w = (out, d', w')"
  shows "with_staff (g_id g) (cm_phone m) w'" "d' = d"
    "wd_mails w' = wd_mails w \<and> wd_calls w' = wd_calls w"
    "case out of
       Inl err \<Rightarrow> err = DUPLICATE_EXTERNAL_ID
     | Inr res \<Rightarrow> cr_reply res = None \<and> cr_actions res = [] \<and> recorded_once g m (cr_duplicate res) w w'"
proof -
  from staff obtain x where x: "x \<in> set (or_sessions (wd_book w))" "cv_status x = S_HUMAN_HANDOFF"
    "talk_key x = (g_id g, WHATSAPP, cm_phone m)" by (auto simp: with_staff_def)
  then have found: "get_active_session (wd_book w) (g_id g) WHATSAPP (cm_phone m) = Some x"
    by (intro get_active_session_unique [OF ok]) (simp_all add: live_session_def)
  have awake: "\<not> is_stale x now" using x by (simp add: is_stale_def talk_key_def)
  have kept: "cv_status s = S_HUMAN_HANDOFF"
    if "get_or_create_session (g_id g) WHATSAPP (cm_phone m) c now w = (s, w1)" for c s w1
    using that found awake x by (auto simp: get_or_create_session_def split: if_splits)
  have still: "with_staff (g_id g) (cm_phone m) w1" if "joins (g_id g) WHATSAPP (cm_phone m) s w1" "cv_status s = S_HUMAN_HANDOFF" for s w1
    using that by (auto simp: joins_def with_staff_def)
  have "with_staff (g_id g) (cm_phone m) w' \<and> d' = d \<and> (wd_mails w' = wd_mails w \<and> wd_calls w' = wd_calls w) \<and>
      (case out of
         Inl err \<Rightarrow> err = DUPLICATE_EXTERNAL_ID
       | Inr res \<Rightarrow> cr_reply res = None \<and> cr_actions res = [] \<and> recorded_once g m (cr_duplicate res) w w')"
    using ok e
  proof (cases rule: handle_messageE)
    case (duplicate s)
    with whatsapp kept still get_or_create_outbox [OF duplicate(5)] show ?thesis by (auto simp: result_of_def recorded_once_def)
  next
    case (refused s w1 err)
    then have "talks.quiet w1 w'" by (auto simp: joins_def dest: talks_okD(1) talks.quiet_create_log)
    with refused(1) whatsapp have "joins (g_id g) WHATSAPP (cm_phone m) s w'" by (auto dest: joins_quiet)
    with refused whatsapp kept still get_or_create_outbox [OF refused(5)] show ?thesis
      by (auto dest: create_log_Inl create_log_outbox)
  next
    case (human s w0 w1)
    let ?s = "processed (cm_external m) (touched now s)"
    have "succeeds s ?s" using joins_in_place [OF human(3)]
      by (auto simp: succeeds_def processed_def touched_def talk_key_def live_session_def)
    from put_joined(2,4) [OF human(3) this] human(4) whatsapp have "with_staff (g_id g) (cm_phone m) (put_session ?s w1)"
      by (auto simp: with_staff_def processed_def touched_def intro!: bexI [of _ ?s])
    moreover from human(5) obtain row where l: "create_log (first_log g m d) w0 = (Inr row, w1)" by blast
    then have "or_logs (wd_book w1) = or_logs (wd_book w0) @ [row]" "row = (first_log g m d)\<lparr>lg_id := or_next (wd_book w0)\<rparr>"
      by (auto simp: create_log_def Let_def split: if_splits)
    then have "recorded_once g m False w (put_session ?s w1)"
      using get_or_create_outbox [OF human(1)] whatsapp
      by (simp add: recorded_once_def put_session_def first_log_def turn_log_def)
    moreover have "wd_mails (put_session ?s w1) = wd_mails w \<and> wd_calls (put_session ?s w1) = wd_calls w"
      using create_log_outbox [OF l] get_or_create_outbox [OF human(1)] by (simp add: put_session_def)
    ultimately show ?thesis using human by (simp add: result_of_def)
  next
    case (raised s w0 w1 goal err)
    with kept whatsapp show ?thesis by auto
  next
    case (answered s w0 w1 w2 guess goal r)
    with kept whatsapp show ?thesis by auto
  qed
  then show "with_staff (g_id g) (cm_phone m) w'" "d' = d" "wd_mails w' = wd_mails w \<and> wd_calls w' = wd_calls w"
    "case out of
       Inl err \<Rightarrow> err = DUPLICATE_EXTERNAL_ID
     | Inr res \<Rightarrow> cr_reply res = None \<and> cr_actions res = [] \<and> recorded_once g m (cr_duplicate res) w w'"
    by blast+
qed

text \<open>A history without the staff: messages, the sweep, and anything that happens to the bookings.\<close>

inductive unattended_step :: "'n chat_setup \<Rightarrow> db \<times> world \<Rightarrow> db \<times> world \<Rightarrow> bool" for ct where
  unattended_message: "handle_message ct g m now d w = (res, d', w') \<Longrightarrow> unattended_step ct (d, w) (d', w')"
| unattended_sweep: "expire_stale_sessions now w = (n, w') \<Longrightarrow> unattended_step ct (d, w) (d, w')"
| unattended_bookings: "unattended_step ct (d, w) (d', w)"

inductive_cases unattended_stepE: "unattended_step ct (d, w) st"

lemma unattended_is_talk: "unattended_step ct st st' \<Longrightarrow> talk_step ct st st'"
  by (auto elim!: unattended_step.cases intro: talk_step.intros)

lemma sweep_with_staff:
  assumes "with_staff g phone w" "talks_ok w"
  shows "with_staff g phone (snd (expire_stale_sessions now w))"
proof -
  from assms(1) obtain x where x: "x \<in> set (or_sessions (wd_book w))" "cv_status x = S_HUMAN_HANDOFF" "talk_key x = (g, WHATSAPP, phone)"
    by (auto simp: with_staff_def)
  then have "\<not> sweepable x" by (simp add: sweepable_def talk_key_def)
  then have "cv_id x \<notin> set (map cv_id (filter (\<lambda>s. is_stale s now) (filter sweepable (or_sessions (wd_book w)))))"
    using x(1) talks_okD(2) [OF assms(2)] by (auto simp: distinct_map dest: inj_onD)
  with x assms(1) show ?thesis
    by (auto simp: expire_stale_sessions_def Let_def with_staff_def intro!: bexI [of _ x])
qed

lemma unattended_with_staff:
  assumes "unattended_step ct (d, w) (d', w')" "talks_ok w" "with_staff g phone w"
  shows "with_staff g phone w'"
proof -
  from assms(1) consider
    (message) g' m now res where "handle_message ct g' m now d w = (res, d', w')"
  | (sweep) now n where "expire_stale_sessions now w = (n, w')"
  | (bookings) "w' = w"
    by (auto elim: unattended_stepE)
  then show ?thesis
  proof cases
    case message
    show ?thesis
    proof (cases "(g_id g', cm_channel m, cm_phone m) = (g, WHATSAPP, phone)")
      case True
      with staff_message(1) [OF assms(2) _ _ message] assms(3) show ?thesis by auto
    next
      case False
      with assms(3) handle_message_other [OF assms(2) _ _ message] show ?thesis
        unfolding with_staff_def by (metis (no_types, lifting))
    qed
  next
    case sweep
    with sweep_with_staff [OF assms(3,2), of now] show ?thesis by simp
  qed (use assms(3) in simp)
qed

text \<open>
  C14: A WhatsApp conversation in the hands of a person stays there. Until the staff hand it back, no passage
  of time, no sweep and no message ends it. A message of its customer that reaches the conversation engine is
  recorded, with its text and the carrier's id, and that row is all: no automatic reply is returned or
  logged, no e-mail, text or call goes out, nothing is done for the customer and no booking changes. (With
  the automation switched off incoming_whatsapp does not ask the engine and may acknowledge by itself.)
\<close>

theorem handed_over_stays_with_staff:
  assumes "talks_ok w" "with_staff (g_id g) (cm_phone m) w" "cm_channel m = WHATSAPP"
    and "(unattended_step ct)\<^sup>*\<^sup>* (d, w) (d', w')" "handle_message ct g m now d' w' = (out, d'', w'')"
  shows "with_staff (g_id g) (cm_phone m) w'' \<and> d'' = d' \<and> (wd_mails w'' = wd_mails w' \<and> wd_calls w'' = wd_calls w')
    \<and> (case out of
         Inl err \<Rightarrow> err = DUPLICATE_EXTERNAL_ID
       | Inr res \<Rightarrow> cr_reply res = None \<and> cr_actions res = [] \<and> recorded_once g m (cr_duplicate res) w' w'')"
proof -
  have "talks_ok (snd st) \<and> with_staff (g_id g) (cm_phone m) (snd st)" if "(unattended_step ct)\<^sup>*\<^sup>* (d, w) st" for st
    using that
  proof (induction rule: rtranclp_induct)
    case base
    with assms show ?case by simp
  next
    case (step y z)
    then show ?case
      by (cases y; cases z) (auto dest: unattended_with_staff talk_step_ok unattended_is_talk)
  qed
  from this [OF assms(4)] have "talks_ok w'" "with_staff (g_id g) (cm_phone m) w'" by simp_all
  from staff_message [OF this assms(3,5)] show ?thesis by blast
qed

text \<open>The same conversation, taken over by the staff.\<close>

definition staff_talk :: session where
  "staff_talk = demo_talk\<lparr>cv_status := S_HUMAN_HANDOFF\<rparr>"

lemma staff_talk_ok: "talks_ok (talk_world staff_talk)"
  by (rule talk_world_ok) (simp_all add: staff_talk_def demo_talk_def has_day_def)

lemma staff_talk_with_staff: "with_staff (g_id demo_garage) (cm_phone (demo_words x)) (talk_world staff_talk)"
  by (simp add: with_staff_def talk_world_def staff_talk_def demo_talk_def talk_key_def demo_garage_def demo_words_def)

text \<open>What its customer's message leads to, three days later.\<close>

definition staff_answer :: "(failure + conversation_result) \<times> db \<times> world" where
  "staff_answer = handle_message demo_chat demo_garage (demo_words ''9am'') (72 * 60 * minute_us) demo_db (talk_world staff_talk)"

lemma handed_over_stays_with_staff_witness:
  "with_staff (g_id demo_garage) ''+44'' (snd (snd staff_answer)) \<and> fst (snd staff_answer) = demo_db
    \<and> wd_mails (snd (snd staff_answer)) = []
    \<and> (case fst staff_answer of
         Inl err \<Rightarrow> err = DUPLICATE_EXTERNAL_ID
       | Inr res \<Rightarrow> cr_reply res = None \<and> cr_actions res = []
           \<and> recorded_once demo_garage (demo_words ''9am'') (cr_duplicate res) (talk_world staff_talk) (snd (snd staff_answer)))"
proof -
  have "handle_message demo_chat demo_garage (demo_words ''9am'') (72 * 60 * minute_us) demo_db (talk_world staff_talk)
      = (fst staff_answer, fst (snd staff_answer), snd (snd staff_answer))" by (simp add: staff_answer_def)
  note answered = this
  have "wd_mails (talk_world staff_talk) = []" "cm_phone (demo_words ''9am'') = ''+44''" "cm_channel (demo_words ''9am'') = WHATSAPP"
    by (simp_all add: talk_world_def demo_words_def)
  with handed_over_stays_with_staff [OF staff_talk_ok staff_talk_with_staff _ rtranclp.rtrancl_refl answered]
  show ?thesis by simp
qed

subsection \<open>Redelivery\<close>

lemma result_of_sel [simp]: "cr_session (result_of s) = cv_id s" "cr_duplicate (result_of s) \<longleftrightarrow> False" "cr_reply (result_of s) = None"
  "cr_actions (result_of s) = []"
  by (simp_all add: result_of_def)

lemma processed_sel [simp]:
  "cv_id (processed x s) = cv_id s" "cv_last_activity (processed x s) = cv_last_activity s" "cv_status (processed x s) = cv_status s"
  "has_text x \<Longrightarrow> cv_last_message (processed x s) = x"
  by (simp_all add: processed_def)

lemma finalized_id [simp]: "cv_id (finalized now goal r s) = cv_id s"
  by (simp add: finalized_def Let_def handed_off_def completed_def cleared_def at_step_def split: option.split)

text \<open>What a handled delivery leaves: its session remembers the message.\<close>

lemma handled_remembers:
  assumes ok: "talks_ok w" and x: "has_text (cm_external m)" and e: "handle_message ct g m now d w = (Inr res, d', w')"
  obtains s where "s \<in> set (or_sessions (wd_book w'))" "cv_id s = cr_session res" "cv_last_message s = cm_external m"
    "talk_key s = (g_id g, cm_channel m, cm_phone m)"
  using ok e
proof (cases rule: handle_messageE)
  case (duplicate s)
  with x show thesis by (intro that [of s]) (auto simp: joins_def already_processed_def)
next
  case (refused s w1 err)
  then show thesis by simp
next
  case (human s w0 w1)
  let ?s = "processed (cm_external m) (touched now s)"
  have "succeeds s ?s" using joins_in_place [OF human(3)]
    by (auto simp: succeeds_def processed_def touched_def talk_key_def live_session_def)
  from put_joined(2,4) [OF human(3) this] human x show thesis
    by (intro that [of ?s]) (auto simp: touched_def)
next
  case (raised s w0 w1 goal err)
  then show thesis by simp
next
  case (answered s w0 w1 w2 guess goal r)
  let ?s = "processed (cm_external m) (finalized now goal r s)"
  have lead: "leads_on (cv_context s) (Inr r)" using dispatch_in_place [OF answered(4,6)] by simp
  have "succeeds s (finalized now goal r s)"
    using answered(4) lead joins_in_place [OF answered(4)] by (intro finalized_succeeds) (simp_all add: joins_def)
  then have "talk_key ?s = (g_id g, cm_channel m, cm_phone m)"
    using answered(4) by (auto simp: joins_def succeeds_def processed_def talk_key_def)
  with conclude_ok(3) [OF answered(8) lead answered(7), of res] x answered(7) show thesis
    by (intro that [of ?s]) (auto simp: conclude_def Let_def andthen_def split: sum.splits prod.splits)
qed

text \<open>
  What may happen in between without touching the conversation \<open>key\<close>: messages of other customers or on
  other channels, takeovers and resumptions of other conversations, sweeps up to a moment \<open>later\<close>, and
  anything at all in the bookings.
\<close>

inductive elsewhere_step ::
  "'n chat_setup \<Rightarrow> uid \<times> msg_channel \<times> string \<Rightarrow> instant \<Rightarrow> db \<times> world \<Rightarrow> db \<times> world \<Rightarrow> bool" for ct key later where
  others_write: "(g_id g, cm_channel m, cm_phone m) \<noteq> key \<Longrightarrow> handle_message ct g m now d w = (res, d', w')
    \<Longrightarrow> elsewhere_step ct key later (d, w) (d', w')"
| others_taken_over: "(g, WHATSAPP, phone) \<noteq> key \<Longrightarrow> take_over g phone first_name last_name now w = (s, w')
    \<Longrightarrow> elsewhere_step ct key later (d, w) (d, w')"
| others_resumed: "(g, WHATSAPP, phone) \<noteq> key \<Longrightarrow> resume_automation g phone now w = (s, w')
    \<Longrightarrow> elsewhere_step ct key later (d, w) (d, w')"
| swept: "now \<le> later \<Longrightarrow> expire_stale_sessions now w = (n, w') \<Longrightarrow> elsewhere_step ct key later (d, w) (d, w')"
| bookings_change: "elsewhere_step ct key later (d, w) (d', w)"

inductive_cases elsewhere_stepE: "elsewhere_step ct key later (d, w) st"

lemma elsewhere_is_talk: "elsewhere_step ct key later st st' \<Longrightarrow> talk_step ct st st'"
  by (auto elim!: elsewhere_step.cases intro: talk_step.intros)

lemma is_stale_mono: "is_stale s now \<Longrightarrow> now \<le> later \<Longrightarrow> is_stale s later"
  by (auto simp: is_stale_def Let_def split: if_splits)

lemma staff_other:
  assumes ok: "talks_ok w" and x: "x \<in> set (or_sessions (wd_book w))" "talk_key x \<noteq> (g, WHATSAPP, phone)"
  shows "x \<in> set (or_sessions (wd_book (snd (take_over g phone first_name last_name now w))))"
    "x \<in> set (or_sessions (wd_book (snd (resume_automation g phone now w))))"
proof -
  have "cv_id x \<noteq> cv_id s" if "get_conversation_session (wd_book w) g phone = Some s" for s
    using that other_id [OF ok x(1), of s] x(2) by (auto simp: get_conversation_session_def talks_with_key dest!: find_SomeD)
  with x(1) show "x \<in> set (or_sessions (wd_book (snd (take_over g phone first_name last_name now w))))"
    "x \<in> set (or_sessions (wd_book (snd (resume_automation g phone now w))))"
    by (auto simp: take_over_def resume_automation_def Let_def handed_off_def resumed_def intro!: put_session_other split: option.split)
qed

lemma elsewhere_keeps:
  assumes "elsewhere_step ct key later (d, w) (d', w')" "talks_ok w" "x \<in> set (or_sessions (wd_book w))" "talk_key x = key"
    "\<not> is_stale x later"
  shows "x \<in> set (or_sessions (wd_book w'))"
proof -
  from assms(1) consider
    (message) g m now res where "(g_id g, cm_channel m, cm_phone m) \<noteq> key" "handle_message ct g m now d w = (res, d', w')"
  | (taken) g phone first_name last_name now s where "(g, WHATSAPP, phone) \<noteq> key" "take_over g phone first_name last_name now w = (s, w')"
  | (resumption) g phone now s where "(g, WHATSAPP, phone) \<noteq> key" "resume_automation g phone now w = (s, w')"
  | (sweep) now n where "now \<le> later" "expire_stale_sessions now w = (n, w')"
  | (bookings) "w' = w"
    by (auto elim: elsewhere_stepE)
  then show ?thesis
  proof cases
    case message
    with assms(4) have "talk_key x \<noteq> (g_id g, cm_channel m, cm_phone m)" by auto
    from handle_message_other [OF assms(2,3) this message(2)] show ?thesis .
  next
    case (taken g phone first_name last_name now s)
    with staff_other(1) [OF assms(2,3), of g phone first_name last_name now] assms(4) show ?thesis by simp
  next
    case (resumption g phone now s)
    with staff_other(2) [OF assms(2,3), of g phone now] assms(4) show ?thesis by simp
  next
    case sweep
    define stale where "stale = map cv_id (filter (\<lambda>s. is_stale s now) (filter sweepable (or_sessions (wd_book w))))"
    have "cv_id x \<notin> set stale"
      using is_stale_mono [OF _ sweep(1)] assms(3,5) talks_okD(2) [OF assms(2)]
      by (auto simp: stale_def distinct_map dest: inj_onD)
    then have "x \<in> set (map (\<lambda>s. if cv_id s \<in> set stale then s\<lparr>cv_status := S_EXPIRED\<rparr> else s) (or_sessions (wd_book w)))"
      using assms(3) by force
    moreover from sweep(2) have "w' = w \<or> or_sessions (wd_book w')
        = map (\<lambda>s. if cv_id s \<in> set stale then s\<lparr>cv_status := S_EXPIRED\<rparr> else s) (or_sessions (wd_book w))"
      unfolding expire_stale_sessions_def Let_def stale_def [symmetric] by (auto split: if_splits)
    ultimately show ?thesis using assms(3) by (elim disjE) simp_all
  qed (use assms(3) in simp)
qed

lemma elsewhere_keeps_all:
  assumes "(elsewhere_step ct key later)\<^sup>*\<^sup>* (d, w) (d', w')" "talks_ok w" "x \<in> set (or_sessions (wd_book w))" "talk_key x = key"
    "\<not> is_stale x later"
  shows "talks_ok w' \<and> x \<in> set (or_sessions (wd_book w'))"
proof -
  have "talks_ok (snd st) \<and> x \<in> set (or_sessions (wd_book (snd st)))" if "(elsewhere_step ct key later)\<^sup>*\<^sup>* (d, w) st" for st
    using that
  proof (induction rule: rtranclp_induct)
    case (step y z)
    then show ?case using assms(4,5)
      by (cases y; cases z) (auto dest: elsewhere_keeps talk_step_ok elsewhere_is_talk)
  qed (use assms(2,3) in simp)
  from this [OF assms(1)] show ?thesis by simp
qed

text \<open>
  C15: A delivery is acted on once. When the carrier delivers a message again that was already answered,
  while its conversation is still live and not stale, nothing is replied, logged, done or changed - whatever
  other customers wrote, the staff did in other conversations, the sweep expired or the business changed in
  the bookings in between.
\<close>

theorem redelivery_is_ignored:
  assumes "talks_ok w" "has_text (cm_external m)" "handle_message ct g m now d w = (Inr res, d', w')"
    and "row_find cv_id (cr_session res) (or_sessions (wd_book w')) = Some s" "live_session s" "\<not> is_stale s later"
    and "(elsewhere_step ct (g_id g, cm_channel m, cm_phone m) later)\<^sup>*\<^sup>* (d', w') (d2, w2)"
    and "handle_message ct g m later d2 w2 = (out, d3, w3)"
  shows "\<exists>res'. out = Inr res' \<and> cr_duplicate res' \<and> cr_reply res' = None \<and> cr_actions res' = [] \<and> d3 = d2
    \<and> or_logs (wd_book w3) = or_logs (wd_book w2) \<and> wd_mails w3 = wd_mails w2 \<and> wd_calls w3 = wd_calls w2"
proof -
  have ok: "talks_ok w'" using handle_message_ok(1) [OF assms(1,3)] .
  obtain x where x: "x \<in> set (or_sessions (wd_book w'))" "cv_id x = cr_session res" "cv_last_message x = cm_external m"
    "talk_key x = (g_id g, cm_channel m, cm_phone m)"
    using handled_remembers [OF assms(1-3)] by blast
  with row_find_distinct [OF talks_okD(2) [OF ok] x(1)] assms(4) have "x = s" by simp
  with elsewhere_keeps_all [OF assms(7) ok x(1,4)] assms(6) have ok2: "talks_ok w2" "s \<in> set (or_sessions (wd_book w2))" by simp_all
  with x(4) \<open>x = s\<close> assms(5) have found: "get_active_session (wd_book w2) (g_id g) (cm_channel m) (cm_phone m) = Some s"
    by (intro get_active_session_unique [OF ok2(1)]) simp_all
  obtain s' w1 where got: "get_or_create_session (g_id g) (cm_channel m) (cm_phone m)
      (map_option cu_id (find_customer_by_phone d2 (g_id g) (Some (cm_phone m)))) later w2 = (s', w1)" by fastforce
  with found assms(6) have "cv_last_message s' = cv_last_message s"
    by (auto simp: get_or_create_session_def put_session_def split: if_splits)
  with \<open>x = s\<close> x(3) assms(2) have "already_processed s' (cm_external m)" by (simp add: already_processed_def)
  with assms(8) got get_or_create_outbox [OF got] show ?thesis
    by (auto simp: handle_message_def Let_def)
qed

text \<open>The conversation with the staff again: the message is recorded, and its second delivery ignored.\<close>

definition recorded :: world where
  "recorded = snd (snd staff_answer)"

definition remembered :: session where
  "remembered = staff_talk\<lparr>cv_last_activity := 72 * 60 * minute_us, cv_last_message := Some ''m1''\<rparr>"

lemma staff_talk_found:
  "get_or_create_session 1 WHATSAPP ''+44'' None t (talk_world staff_talk) = (staff_talk, talk_world staff_talk)"
  by (simp add: get_or_create_session_def get_active_session_def talk_world_def talks_with_def live_session_def is_stale_def
      staff_talk_def demo_talk_def)

lemma staff_answer_is:
  "staff_answer = (Inr ((result_of staff_talk)\<lparr>cr_needs_human := True\<rparr>), demo_db, recorded)"
  "row_find cv_id 0 (or_sessions (wd_book recorded)) = Some remembered"
proof -
  have "\<not> already_processed staff_talk x" for x
    by (simp add: already_processed_def staff_talk_def demo_talk_def has_text_def split: option.splits)
  moreover have "find_customer_by_phone demo_db 1 (Some ''+44'') = None" by (simp add: find_customer_by_phone_def demo_db_def)
  moreover have "external_taken (wd_book (talk_world staff_talk)) x \<longleftrightarrow> False" for x
    by (simp add: external_taken_def talk_world_def demo_outreach_def)
  ultimately have step: "staff_answer = (Inr ((result_of staff_talk)\<lparr>cr_needs_human := True\<rparr>), demo_db, recorded)
      \<and> (\<exists>log. recorded = put_session remembered (snd (create_log log (talk_world staff_talk))) \<and> \<not> external_taken (wd_book (talk_world staff_talk)) (lg_external log))"
    using staff_talk_found
    by (auto simp: staff_answer_def recorded_def handle_message_def Let_def create_log_def demo_words_def demo_garage_def
      staff_talk_def demo_talk_def remembered_def touched_def processed_def has_text_def)
  then show "staff_answer = (Inr ((result_of staff_talk)\<lparr>cr_needs_human := True\<rparr>), demo_db, recorded)" by simp
  from step obtain log where at: "recorded = put_session remembered (snd (create_log log (talk_world staff_talk)))"
    by blast
  show "row_find cv_id 0 (or_sessions (wd_book recorded)) = Some remembered"
    unfolding at by (simp add: create_log_def Let_def put_session_def talk_world_def row_find_def row_set_def remembered_def staff_talk_def demo_talk_def
      commit_def on_book_def demo_outreach_def external_taken_def)
qed

text \<open>In between, another customer writes and an appointment is deleted.\<close>

definition demo_busy :: db where
  "demo_busy = demo_db\<lparr>db_appointments := []\<rparr>"

definition meanwhile_written :: world where
  "meanwhile_written = snd (snd (handle_message demo_chat demo_garage ((demo_words ''hello'')\<lparr>cm_phone := ''+45''\<rparr>)
     (72 * 60 * minute_us) demo_db recorded))"

lemma redelivery_is_ignored_witness:
  "\<exists>res. fst (handle_message demo_chat demo_garage (demo_words ''9am'') (73 * 60 * minute_us) demo_busy meanwhile_written) = Inr res
    \<and> cr_duplicate res \<and> cr_reply res = None \<and> cr_actions res = []
    \<and> or_logs (wd_book (snd (snd (handle_message demo_chat demo_garage (demo_words ''9am'') (73 * 60 * minute_us) demo_busy meanwhile_written))))
        = or_logs (wd_book meanwhile_written)"
proof -
  let ?m = "demo_words ''9am''" and ?later = "73 * 60 * minute_us"
  let ?step = "elsewhere_step demo_chat (g_id demo_garage, cm_channel ?m, cm_phone ?m) ?later"
  obtain r d1 where other: "handle_message demo_chat demo_garage ((demo_words ''hello'')\<lparr>cm_phone := ''+45''\<rparr>)
     (72 * 60 * minute_us) demo_db recorded = (r, d1, meanwhile_written)"
    by (metis prod_cases3 meanwhile_written_def snd_conv)
  have "?step (demo_db, recorded) (d1, meanwhile_written)"
    by (rule others_write [OF _ other]) (simp add: demo_words_def)
  moreover have "?step (d1, meanwhile_written) (demo_busy, meanwhile_written)" by (rule bookings_change)
  ultimately have between: "?step\<^sup>*\<^sup>* (demo_db, recorded) (demo_busy, meanwhile_written)" by (meson converse_rtranclp_into_rtranclp r_into_rtranclp)
  obtain out d3 w3 where again: "handle_message demo_chat demo_garage ?m ?later demo_busy meanwhile_written = (out, d3, w3)"
    by (metis prod_cases3)
  have "cr_session ((result_of staff_talk)\<lparr>cr_needs_human := True\<rparr>) = 0" by (simp add: staff_talk_def demo_talk_def)
  then have "row_find cv_id (cr_session ((result_of staff_talk)\<lparr>cr_needs_human := True\<rparr>)) (or_sessions (wd_book recorded)) = Some remembered"
    by (simp only: staff_answer_is(2))
  from redelivery_is_ignored [OF staff_talk_ok _ staff_answer_is(1) [unfolded staff_answer_def] this _ _ between again]
  have "\<exists>res. out = Inr res \<and> cr_duplicate res \<and> cr_reply res = None \<and> cr_actions res = []
      \<and> or_logs (wd_book w3) = or_logs (wd_book meanwhile_written)"
    by (simp add: demo_words_def remembered_def staff_talk_def demo_talk_def live_session_def is_stale_def has_text_def) blast
  then show ?thesis unfolding again by simp
qed

end
