(* ===== verification/Plain_Answers.thy ===== *)
theory Plain_Answers
  imports Chat_Turns
begin

text \<open>
  How some particular answers are understood, evaluated through all the patterns: a plain yes is nothing
  else, but not every refusal is a refusal.
\<close>

lemma yes_is_no_intent: "resolve_intent ''yes'' = UNKNOWN"
  by code_simp

lemma yes_asks_nothing: "detect_faq_intents ''yes'' = []"
  by code_simp

lemma yes_names_no_day: "parse_date_phrase ''yes'' today = None"
  by code_simp

lemma yes_is_yes: "is_yes ''yes''" "strip_text ''yes'' = ''yes''" "map lower_char ''yes'' = ''yes''"
  by code_simp+

text \<open>
  "don't book it" contains "book it", and the handlers of the confirmation questions look for a yes first.
\<close>

lemma refusal_is_a_yes: "is_yes ''don't book it'' \<and> is_no ''don't book it''"
  by code_simp

text \<open>A month beginning with "no" is a no: the paused booking is dropped instead of moved to that day.\<close>

lemma november_is_a_no: "is_no ''November 24''"
  by code_simp

end
