(* ===== verification/Chat_Consent.thy ===== *)
theory Chat_Consent
  imports Chat_History Plain_Answers
begin

text \<open>
  What a conversation may change, and when. Only an answer to one of the four confirmation questions can
  touch the bookings, and only a yes; what it does is what was asked; and it reaches no appointment but the
  writer's own. A plain yes to the final question of a booking makes the request, if the slot is still free.
\<close>

subsection \<open>Only a yes to a confirmation question\<close>

definition confirmation_steps :: "workflow_step list" where
  "confirmation_steps =
     [AWAITING_BOOKING_CONFIRMATION, AWAITING_CANCEL_CONFIRMATION, AWAITING_RESCHEDULE_CONFIRMATION, AWAITING_NAME_CORRECTION_CONFIRM]"

text \<open>Nothing but the trace of announced events differs.\<close>

definition same_rows :: "db \<Rightarrow> db \<Rightarrow> bool" where
  "same_rows d d' \<longleftrightarrow> d'\<lparr>db_events := db_events d\<rparr> = d"

lemma same_rows_refl [simp]: "same_rows d d" by (simp add: same_rows_def)

lemma same_rows_announce: "announce cf ev d w = (d', w') \<Longrightarrow> same_rows d d'"
  by (auto simp: announce_def emit_def same_rows_def)

lemma answer_step_rows:
  assumes "answer_step ct p t said w = (r, d', w')"
  shows "same_rows (tn_db t) d' \<or> p \<in> set confirmation_steps \<and> is_yes said"
  using assms
  by (cases p)
    (auto simp: answer_step_def reading_def confirmation_steps_def handle_awaiting_booking_confirmation_def
        handle_awaiting_cancel_confirmation_def handle_awaiting_reschedule_confirmation_def
        handle_awaiting_name_correction_confirm_def handle_awaiting_callback_reason_def create_callback_request_def Let_def
        split: sum.splits option.splits if_splits prod.splits dest: same_rows_announce)

lemma handle_step_rows:
  assumes "handle_step ct p t said w = (r, d', w')"
  shows "same_rows (tn_db t) d' \<or> p \<in> set confirmation_steps \<and> is_yes said \<and> answer_step ct p t said w = (r, d', w')"
  using assms answer_step_rows [of ct _ t said w r d' w']
  by (auto simp: handle_step_def handle_awaiting_resume_def reading_def confirmation_steps_def split: if_splits option.splits)

lemma dispatch_rows:
  assumes "dispatch_message ct t said guess w = (r, d', w')"
  shows "same_rows (tn_db t) d'
    \<or> (\<exists>p \<in> set confirmation_steps. \<exists>res. cv_step (tn_session t) = Some p \<and> is_yes said \<and> answer_step ct p t said w = (res, d', w'))"
  using assms handle_step_rows [of ct _ t said w _ d' w']
  by (auto simp: dispatch_message_def reading_def split: option.splits if_splits prod.splits)


text \<open>The question a message answers, if it is one that changes something.\<close>

definition pending_question :: "outreach \<Rightarrow> garage \<Rightarrow> chat_message \<Rightarrow> instant \<Rightarrow> session \<Rightarrow> workflow_step \<Rightarrow> bool" where
  "pending_question b g m now s p \<longleftrightarrow>
     get_active_session b (g_id g) (cm_channel m) (cm_phone m) = Some s \<and> \<not> is_stale s now \<and> cv_status s = S_ACTIVE
     \<and> cv_step s = Some p"

definition asked_to_confirm :: "outreach \<Rightarrow> garage \<Rightarrow> chat_message \<Rightarrow> instant \<Rightarrow> session \<Rightarrow> workflow_step \<Rightarrow> bool" where
  "asked_to_confirm b g m now s p \<longleftrightarrow>
     get_active_session b (g_id g) (cm_channel m) (cm_phone m) = Some s \<and> \<not> is_stale s now \<and> cv_status s = S_ACTIVE
     \<and> cv_step s = Some p \<and> p \<in> set confirmation_steps"

definition writer :: "garage \<Rightarrow> chat_message \<Rightarrow> db \<Rightarrow> customer option" where
  "writer g m d = find_customer_by_phone d (g_id g) (Some (cm_phone m))"

lemma get_or_create_found:
  assumes "get_or_create_session gid ch p c now w = (s, w')" "cv_step s = Some step"
  obtains s0 where "get_active_session (wd_book w) gid ch p = Some s0" "\<not> is_stale s0 now" "s = s0 \<or> s = s0\<lparr>cv_customer := c\<rparr>"
proof (cases "get_active_session (wd_book w) gid ch p")
  case None
  with assms show thesis by (auto simp: get_or_create_session_def new_session_def Let_def)
next
  case (Some s0)
  with assms that show thesis
    by (auto simp: get_or_create_session_def new_session_def Let_def split: if_splits)
qed

lemma message_rows:
  assumes e: "handle_message ct g m now d w = (out, d', w')"
  shows "same_rows d d'
    \<or> (\<exists>s p s' w1 w2 r. asked_to_confirm (wd_book w) g m now s p \<and> is_yes (strip_text (cm_text m)) \<and> cv_context s' = cv_context s
         \<and> answer_step ct p (turn_of ct g m (writer g m d) s' now d) (strip_text (cm_text m)) w1 = (r, d', w2))"
proof (cases "same_rows d d'")
  case False
  obtain s w0 where got: "get_or_create_session (g_id g) (cm_channel m) (cm_phone m) (map_option cu_id (writer g m d)) now w = (s, w0)"
    by fastforce
  let ?t = "turn_of ct g m (writer g m d) s now d" and ?said = "strip_text (cm_text m)"
  from e False got obtain w1 guess res w2 where active: "cv_status s \<noteq> S_HUMAN_HANDOFF"
    and disp: "dispatch_message ct ?t ?said guess w1 = (res, d', w2)"
    unfolding writer_def
    by (auto simp: handle_message_def Let_def split: if_splits sum.splits prod.splits)
  from dispatch_rows [OF disp] False obtain p r where p: "p \<in> set confirmation_steps" "cv_step s = Some p" "is_yes ?said"
    "answer_step ct p ?t ?said w1 = (r, d', w2)" by (auto simp: turn_of_def)
  from get_or_create_found [OF got p(2)] obtain s0 where s0: "get_active_session (wd_book w) (g_id g) (cm_channel m) (cm_phone m) = Some s0"
    "\<not> is_stale s0 now" "s = s0 \<or> s = s0\<lparr>cv_customer := map_option cu_id (writer g m d)\<rparr>" .
  then have same: "cv_step s0 = cv_step s" "cv_status s0 = cv_status s" "cv_context s = cv_context s0" by auto
  from s0(1) have "live_session s0" by (auto simp: get_active_session_def dest: find_SomeD)
  with active same have "cv_status s0 = S_ACTIVE" by (simp add: live_session_def)
  with s0 p same show ?thesis unfolding asked_to_confirm_def by metis
qed simp

subsection \<open>Call-back requests\<close>

text \<open>The question a call-back request answers, also while it is paused for another one.\<close>

definition asks_reason :: "session \<Rightarrow> workflow_step \<Rightarrow> bool" where
  "asks_reason s p \<longleftrightarrow>
     p = AWAITING_CALLBACK_REASON
     \<or> p = AWAITING_RESUME \<and> map_of (cv_context s) ''resume_step'' = Some (STEP AWAITING_CALLBACK_REASON)"

definition callback_made :: "garage \<Rightarrow> chat_message \<Rightarrow> uid \<Rightarrow> outreach \<Rightarrow> outreach \<Rightarrow> bool" where
  "callback_made g m i b b' \<longleftrightarrow>
     (\<exists>cb. cb_garage cb = g_id g \<and> cb_phone cb = cm_phone m \<and> cb_status cb = CB_PENDING \<and> cb_session cb = Some i
        \<and> other_tables b' = (other_tables b)\<lparr>or_callbacks := or_callbacks b @ [cb]\<rparr>)"

lemma other_tables_callbacks: "other_tables b' = other_tables b \<Longrightarrow> or_callbacks b' = or_callbacks b"
  by (drule arg_cong [of _ _ or_callbacks]) (simp add: other_tables_def)

lemma callback_made_cong:
  assumes "other_tables b1 = other_tables b" "other_tables b' = other_tables b2" "callback_made g m i b1 b2"
  shows "callback_made g m i b b'"
  using assms(3) unfolding callback_made_def assms(1,2) other_tables_callbacks [OF assms(1)] .

lemma callback_reason_tables:
  assumes "settled w" "handle_awaiting_callback_reason ct (turn_of ct g m c s now d) said w = (r, d', w')"
  shows "settled w' \<and> callback_made g m (cv_id s) (wd_book w) (wd_book w')"
proof -
  define cb where "cb = \<lparr>cb_id = or_next (wd_book w), cb_garage = g_id g, cb_customer = map_option cu_id c, cb_phone = cm_phone m,
                cb_reason = (if is_no said then None else Some (strip_text said)), cb_preferred = None, cb_status = CB_PENDING,
                cb_session = Some (cv_id s)\<rparr>"
  define w1 where "w1 = commit (on_book (\<lambda>s. s\<lparr>or_callbacks := or_callbacks s @ [cb], or_next := or_next s + 1\<rparr>) w)"
  have "others.quiet w1 w'"
    using assms(2)
    by (auto simp: handle_awaiting_callback_reason_def create_callback_request_def Let_def announce_def w1_def settled_def cb_def
        intro!: others.quiet_emit)
  moreover have "other_tables (wd_book w1) = (other_tables (wd_book w))\<lparr>or_callbacks := or_callbacks (wd_book w) @ [cb]\<rparr>"
    by (simp add: w1_def other_tables_def)
  moreover have "cb_garage cb = g_id g" "cb_phone cb = cm_phone m" "cb_status cb = CB_PENDING" "cb_session cb = Some (cv_id s)"
    by (simp_all add: cb_def)
  ultimately show ?thesis unfolding callback_made_def others.quiet_def by metis
qed

lemma answer_step_tables:
  assumes "settled w" "answer_step ct p (turn_of ct g m c s now d) said w = (r, d', w')"
  shows "settled w' \<and> (if p = AWAITING_CALLBACK_REASON then callback_made g m (cv_id s) (wd_book w) (wd_book w')
    else other_tables (wd_book w') = other_tables (wd_book w))"
proof (cases "p = AWAITING_CALLBACK_REASON")
  case True
  with callback_reason_tables [OF assms(1), of ct g m c s now d said r d' w'] assms(2) show ?thesis by (simp add: answer_step_def)
next
  case False
  have "others.quiet w w'"
    using assms False
    by (cases p)
      (auto simp: answer_step_def reading_def others.quiet_refl handle_awaiting_booking_confirmation_def
        handle_awaiting_cancel_confirmation_def handle_awaiting_reschedule_confirmation_def
        handle_awaiting_name_correction_confirm_def
        split: sum.splits option.splits if_splits prod.splits
        dest: others.booking_quiet others.change_quiet)
  with False show ?thesis by (simp add: others.quiet_def)
qed

lemma dispatch_tables:
  assumes "settled w" "dispatch_message ct (turn_of ct g m c s now d) said guess w = (r, d', w')"
  shows "settled w' \<and> (other_tables (wd_book w') = other_tables (wd_book w)
    \<or> (\<exists>p. cv_step s = Some p \<and> asks_reason s p) \<and> callback_made g m (cv_id s) (wd_book w) (wd_book w'))"
proof -
  let ?t = "turn_of ct g m c s now d"
  have answer: "settled w' \<and> (other_tables (wd_book w') = other_tables (wd_book w)
      \<or> p = AWAITING_CALLBACK_REASON \<and> callback_made g m (cv_id s) (wd_book w) (wd_book w'))"
    if "answer_step ct p ?t said w = (r, d', w')" for p r d' w'
    using answer_step_tables [OF assms(1) that] by (cases "p = AWAITING_CALLBACK_REASON") simp_all
  have handled: "settled w' \<and> (other_tables (wd_book w') = other_tables (wd_book w)
      \<or> asks_reason s p \<and> callback_made g m (cv_id s) (wd_book w) (wd_book w'))"
    if "handle_step ct p ?t said w = (r, d', w')" for p r d' w'
    using that assms(1)
    by (auto simp: handle_step_def handle_awaiting_resume_def reading_def asks_reason_def step_slot_def slot_of_def
        split: if_splits option.splits slot_value.splits dest!: answer)
  show ?thesis
  proof (cases "cv_step s")
    case None
    with assms show ?thesis by (auto simp: dispatch_message_def reading_def split: option.splits)
  next
    case (Some p)
    obtain r1 d1 w1 where h: "handle_step ct p ?t said w = (r1, d1, w1)" by (metis prod_cases3)
    with Some assms have "w' = w \<or> w' = w1"
      by (auto simp: dispatch_message_def reading_def split: option.splits if_splits prod.splits)
    with Some handled [OF h] assms(1) show ?thesis by auto
  qed
qed

lemma put_session_tables [simp]: "other_tables (wd_book (put_session s w)) = other_tables (wd_book w)"
  "settled (put_session s w)"
  by (simp_all add: put_session_def other_tables_def settled_def)

lemma get_or_create_tables:
  "settled w \<Longrightarrow> get_or_create_session g ch p c now w = (s, w') \<Longrightarrow> settled w' \<and> other_tables (wd_book w') = other_tables (wd_book w)"
  by (auto simp: get_or_create_session_def Let_def add_session_def other_tables_def settled_def put_session_def
      split: option.splits if_splits)

lemma conclude_tables:
  assumes "conclude ct g m c s now goal r w = (res, w')"
  shows "other_tables (wd_book w') = other_tables (wd_book w)"
proof -
  let ?w = "put_session (finalized now goal r s) w"
  obtain l w1 where l: "log_turns (outgoing_logs ct g m c r) ?w = (l, w1)" by fastforce
  from others.quiet_log_turns [OF _ l] have "other_tables (wd_book w1) = other_tables (wd_book w)" by (simp add: others.quiet_def)
  with assms l show ?thesis by (cases l) (auto simp: conclude_def Let_def)
qed

lemma message_tables:
  assumes "settled w" "handle_message ct g m now d w = (out, d', w')"
  shows "other_tables (wd_book w') = other_tables (wd_book w)
    \<or> (\<exists>s p. pending_question (wd_book w) g m now s p \<and> asks_reason s p \<and> callback_made g m (cv_id s) (wd_book w) (wd_book w'))"
proof -
  let ?said = "strip_text (cm_text m)"
  define guess where "guess = (if ?said = [] then UNKNOWN else resolve_intent ?said)"
  obtain s w0 where got: "get_or_create_session (g_id g) (cm_channel m) (cm_phone m) (map_option cu_id (writer g m d)) now w = (s, w0)"
    by fastforce
  note w0 = get_or_create_tables [OF assms(1) got]
  obtain l w1 where l: "create_log (turn_log (g_id g) (cm_channel m) (cm_phone m) INBOUND ?said (writer g m d) (Some guess) (cm_external m) (cm_call m)) w0 = (l, w1)"
    by fastforce
  from others.quiet_create_log [OF _ l] w0 have w1: "settled w1" "other_tables (wd_book w1) = other_tables (wd_book w)"
    by (simp_all add: others.quiet_def)
  let ?t = "turn_of ct g m (writer g m d) s now d"
  obtain r d2 w2 where disp: "dispatch_message ct ?t ?said guess w1 = (r, d2, w2)" by (metis prod_cases3)
  note body = assms(2) [unfolded handle_message_def Let_def writer_def [symmetric] got prod.case guess_def [symmetric] l]
  show ?thesis
  proof (cases "cv_status s = S_HUMAN_HANDOFF \<or> (\<exists>e. l = Inl e) \<or> already_processed s (cm_external m)")
    case True
    then show ?thesis using body w0 w1(2) by (auto split: if_splits sum.splits prod.splits)
  next
    case False
    then have w': "other_tables (wd_book w') = other_tables (wd_book w2)"
      using body disp by (auto split: if_splits sum.splits prod.splits dest: conclude_tables)
    from dispatch_tables [OF w1(1) disp] show ?thesis
    proof (elim conjE disjE)
      assume "other_tables (wd_book w2) = other_tables (wd_book w1)"
      with w' w1(2) show ?thesis by simp
    next
      assume p: "\<exists>p. cv_step s = Some p \<and> asks_reason s p" and made: "callback_made g m (cv_id s) (wd_book w1) (wd_book w2)"
      then obtain p where p: "cv_step s = Some p" "asks_reason s p" by blast
      from get_or_create_found [OF got p(1)] obtain s0 where s0: "get_active_session (wd_book w) (g_id g) (cm_channel m) (cm_phone m) = Some s0"
        "\<not> is_stale s0 now" "s = s0 \<or> s = s0\<lparr>cv_customer := map_option cu_id (writer g m d)\<rparr>" .
      then have same: "cv_step s0 = cv_step s" "cv_status s0 = cv_status s" "cv_context s0 = cv_context s" "cv_id s0 = cv_id s" by auto
      from s0(1) have "live_session s0" by (auto simp: get_active_session_def dest: find_SomeD)
      with False same have "cv_status s0 = S_ACTIVE" by (simp add: live_session_def)
      with s0 p same have "pending_question (wd_book w) g m now s0 p" "asks_reason s0 p" by (simp_all add: pending_question_def asks_reason_def)
      with callback_made_cong [OF w1(2) w' made] same(4) show ?thesis by metis
    qed
  qed
qed

subsection \<open>What the yes does\<close>

lemma same_rowsD: "same_rows d d' \<Longrightarrow> db_requests d' = db_requests d \<and> db_appointments d' = db_appointments d
    \<and> db_customers d' = db_customers d \<and> db_next d' = db_next d"
proof -
  assume "same_rows d d'"
  then have "db_requests (d'\<lparr>db_events := db_events d\<rparr>) = db_requests d \<and> db_appointments (d'\<lparr>db_events := db_events d\<rparr>) = db_appointments d
    \<and> db_customers (d'\<lparr>db_events := db_events d\<rparr>) = db_customers d \<and> db_next (d'\<lparr>db_events := db_events d\<rparr>) = db_next d"
    by (simp only: same_rows_def)
  then show ?thesis by simp
qed

definition asked_for :: "garage \<Rightarrow> chat_booking \<Rightarrow> db \<Rightarrow> booking_request \<Rightarrow> bool" where
  "asked_for g kb d rq \<longleftrightarrow>
     rq_id rq = db_next d \<and> rq_garage rq = g_id g \<and> rq_status rq = (if has_terms g then AWAITING_TERMS else PENDING)
     \<and> rq_contact rq = kb_contact kb \<and> rq_customer rq = map_option cu_id (kb_customer kb)
     \<and> rq_type rq = map_option ty_id (kb_type kb) \<and> rq_duration rq = Option.bind (kb_type kb) ty_duration
     \<and> rq_date rq = kb_date kb \<and> rq_time rq = kb_time kb"

lemma asked_for_sel:
  "\<not> has_terms g \<Longrightarrow> asked_for g kb d (chat_request g kb PENDING reference (fresh_id d))"
  "has_terms g \<Longrightarrow> asked_for g kb d (hold_for_acceptance (chat_request g kb PENDING reference (fresh_id d)) token now minutes)"
  by (simp_all add: asked_for_def chat_request_def hold_for_acceptance_def fresh_id_def)

lemma create_booking_request_effect:
  assumes "create_booking_request cf mw g kb dw now d0 w = (r, d', w')" "\<not> has_text (kb_tool kb)" "\<not> has_text (kb_call kb)"
  shows "d' = mw d0
    \<or> slot_refusal (mw d0) g kb now = None \<and> (\<exists>rq. asked_for g kb (mw d0) rq \<and> same_rows (add_request rq (mw d0)) d')"
proof (cases "d' = mw d0")
  case False
  have none: "voice_request d0 (kb_tool kb) (kb_call kb) = None" using assms(2,3) by (simp add: voice_request_def)
  from assms(1) False none obtain reference where "slot_refusal (mw d0) g kb now = None"
    "has_terms g \<longrightarrow> d' = add_request (hold_for_acceptance (chat_request g kb PENDING reference (fresh_id (mw d0))) (dw_acceptance dw) now
       (dw_terms_minutes dw)) (mw d0)"
    "\<not> has_terms g \<longrightarrow> same_rows (add_request (chat_request g kb PENDING reference (fresh_id (mw d0))) (mw d0)) d'"
    by (auto simp: create_booking_request_def Let_def split: option.splits if_splits dest: same_rows_announce)
  with asked_for_sel [of g kb "mw d0" reference] show ?thesis
    by (cases "has_terms g") (metis same_rows_refl)+
qed simp

text \<open>A booking is the answer of the final question, for the day and time it was asked about.\<close>

lemma chat_booking_effect:
  assumes "answer_step ct p t said w = (r, d', w')" "db_requests d' \<noteq> db_requests (tn_db t)" "db_requests d' \<noteq> db_requests (ct_meanwhile ct (tn_db t))"
  obtains day time rq where "p = AWAITING_BOOKING_CONFIRMATION" "day_slot_value t ''preferred_date'' = Some day"
    "clock_slot_value t ''preferred_time'' = Some time"
    "slot_refusal (ct_meanwhile ct (tn_db t)) (tn_garage t) (wanted_booking t day time) (tn_now t) = None"
    "asked_for (tn_garage t) (wanted_booking t day time) (ct_meanwhile ct (tn_db t)) rq"
    "same_rows (add_request rq (ct_meanwhile ct (tn_db t))) d'"
proof (cases "p = AWAITING_BOOKING_CONFIRMATION")
  case False
  with assms(1) have "db_requests d' = db_requests (tn_db t)"
    by (cases p)
      (auto simp: answer_step_def reading_def handle_awaiting_cancel_confirmation_def handle_awaiting_reschedule_confirmation_def
        handle_awaiting_name_correction_confirm_def handle_awaiting_callback_reason_def create_callback_request_def Let_def
        cancel_appointment_def reschedule_appointment_def update_customer_name_def announce_def emit_def put_appointment_def put_customer_def
        split: sum.splits option.splits if_splits prod.splits)
  with assms(2) show thesis by simp
next
  case True
  from assms(1) assms(2) True obtain day time res where
    slots: "need_day t ''preferred_date'' = Inr day" "need_clock t ''preferred_time'' = Inr time"
    and c: "create_booking_request (ct_config ct) (ct_meanwhile ct) (tn_garage t) (wanted_booking t day time) (ct_draws ct) (tn_now t)
       (tn_db t) w = (res, d', w')"
    by (auto simp: answer_step_def handle_awaiting_booking_confirmation_def reading_def checks_def
        split: sum.splits option.splits if_splits prod.splits)
  have "\<not> has_text (kb_tool (wanted_booking t day time))" "\<not> has_text (kb_call (wanted_booking t day time))"
    by (simp_all add: wanted_booking_def has_text_def Let_def)
  from create_booking_request_effect [OF c this] assms(3) obtain rq where
    "slot_refusal (ct_meanwhile ct (tn_db t)) (tn_garage t) (wanted_booking t day time) (tn_now t) = None"
    "asked_for (tn_garage t) (wanted_booking t day time) (ct_meanwhile ct (tn_db t)) rq"
    "same_rows (add_request rq (ct_meanwhile ct (tn_db t))) d'" by auto
  with True slots show thesis by (intro that) (auto simp: need_day_def need_clock_def split: option.splits)
qed


text \<open>An appointment changes only in the last step of its flow: cancelled, or moved to the day and time agreed.\<close>

definition moved_as_agreed :: "turn \<Rightarrow> appointment \<Rightarrow> appointment \<Rightarrow> bool" where
  "moved_as_agreed t a a' \<longleftrightarrow>
     (\<exists>day time. day_slot_value t ''new_date'' = Some day \<and> clock_slot_value t ''new_time'' = Some time
        \<and> a' = a\<lparr>ap_start := local_slot_as_utc (g_zone (tn_garage t)) day time,
                 ap_end := local_slot_as_utc (g_zone (tn_garage t)) day time + (ap_end a - ap_start a)\<rparr>
        \<and> validate_slot (tn_db t) (tn_garage t) day time (tn_now t) (find_type (tn_db t) (Some (ap_type a))) (Some (ap_id a))
            (Some ((ap_end a - ap_start a) div minute_us)) = None
        \<and> \<not> has_employee_conflict (tn_db t) (ap_employee a') (ap_start a') (ap_end a') (Some (ap_id a)))"

lemma find_upcoming_Some:
  "find_upcoming t i = Some a \<Longrightarrow> i = Some (ap_id a) \<and> a \<in> set (upcoming t) \<and> a \<in> set (db_appointments (tn_db t))
    \<and> ap_garage a = g_id (tn_garage t)"
  by (auto simp: find_upcoming_def upcoming_def get_upcoming_appointments_def dest!: find_SomeD split: option.splits)

lemma find_own:
  assumes "distinct (map ap_id xs)" "a \<in> set xs" "ap_garage a = g"
  shows "find (\<lambda>b. ap_id b = ap_id a \<and> ap_garage b = g) xs = Some a"
  using assms by (induction xs) auto

lemma reschedule_effect:
  assumes "reschedule_appointment cf g (ap_id a) day time now d w = (refusal, d', w')" "db_appointments d' \<noteq> db_appointments d"
    "distinct (map ap_id (db_appointments d))" "a \<in> set (db_appointments d)" "ap_garage a = g_id g"
  shows "let start = local_slot_as_utc (g_zone g) day time; stop = start + (ap_end a - ap_start a)
    in validate_slot d g day time now (find_type d (Some (ap_type a))) (Some (ap_id a)) (Some ((ap_end a - ap_start a) div minute_us)) = None
      \<and> \<not> has_employee_conflict d (ap_employee a) start stop (Some (ap_id a))
      \<and> db_appointments d' = row_set ap_id (a\<lparr>ap_start := start, ap_end := stop\<rparr>) (db_appointments d)"
  using assms(1,2) find_own [OF assms(3-5)]
  by (auto simp: reschedule_appointment_def Let_def announce_def emit_def put_appointment_def split: option.splits if_splits)

lemma chat_change_effect:
  assumes "answer_step ct p t said w = (r, d', w')" "db_appointments d' \<noteq> db_appointments (tn_db t)"
    "db_appointments d' \<noteq> db_appointments (ct_meanwhile ct (tn_db t))" "distinct (map ap_id (db_appointments (tn_db t)))"
  obtains a a' where "a \<in> set (upcoming t)" "row_slot t ''target_appointment_id'' = Some (ap_id a)"
    "db_appointments d' = row_set ap_id a' (db_appointments (tn_db t))"
    "p = AWAITING_CANCEL_CONFIRMATION \<and> a' = a\<lparr>ap_status := AP_CANCELLED\<rparr> \<or> p = AWAITING_RESCHEDULE_CONFIRMATION \<and> moved_as_agreed t a a'"
proof (cases "p = AWAITING_CANCEL_CONFIRMATION \<or> p = AWAITING_RESCHEDULE_CONFIRMATION")
  case False
  have "db_appointments d2 = db_appointments d1" if "same_rows (add_request rq d1) d2" for rq d1 d2
    using same_rowsD [OF that] by (simp add: add_request_def)
  moreover have "\<not> has_text (kb_tool (wanted_booking t day time))" "\<not> has_text (kb_call (wanted_booking t day time))" for day time
    by (simp_all add: wanted_booking_def has_text_def Let_def)
  ultimately have booking: "db_appointments d' = db_appointments (ct_meanwhile ct (tn_db t))"
    if "create_booking_request (ct_config ct) (ct_meanwhile ct) g (wanted_booking t day time) dw now (tn_db t) w = (res, d', w'')"
    for g day time dw now res w''
    using create_booking_request_effect [OF that] by metis
  from False assms(1) have "db_appointments d' = db_appointments (tn_db t) \<or> db_appointments d' = db_appointments (ct_meanwhile ct (tn_db t))"
    by (cases p)
      (auto simp: answer_step_def reading_def handle_awaiting_booking_confirmation_def
        handle_awaiting_name_correction_confirm_def handle_awaiting_callback_reason_def create_callback_request_def Let_def
        update_customer_name_def announce_def emit_def put_customer_def
        split: sum.splits option.splits if_splits prod.splits dest: booking)
  with assms(2,3) show thesis by simp
next
  case True
  from True assms(1,2) obtain a where a: "find_upcoming t (row_slot t ''target_appointment_id'') = Some a"
    by (auto simp: answer_step_def reading_def handle_awaiting_cancel_confirmation_def handle_awaiting_reschedule_confirmation_def
        split: option.splits if_splits prod.splits)
  note own = find_upcoming_Some [OF a]
  from True show thesis
  proof
    assume p: "p = AWAITING_CANCEL_CONFIRMATION"
    with assms(1,2) a have "db_appointments d' = row_set ap_id (a\<lparr>ap_status := AP_CANCELLED\<rparr>) (db_appointments (tn_db t))"
      by (auto simp: answer_step_def reading_def handle_awaiting_cancel_confirmation_def cancel_appointment_def announce_def emit_def
          put_appointment_def split: option.splits if_splits prod.splits)
    with p own show thesis by (intro that [of a]) simp_all
  next
    assume p: "p = AWAITING_RESCHEDULE_CONFIRMATION"
    from p assms(1,2) a obtain day time refusal where slots: "need_day t ''new_date'' = Inr day" "need_clock t ''new_time'' = Inr time"
      and c: "reschedule_appointment (ct_config ct) (tn_garage t) (ap_id a) day time (tn_now t) (tn_db t) w = (refusal, d', w')"
      by (auto simp: answer_step_def handle_awaiting_reschedule_confirmation_def reading_def checks_def
          split: sum.splits option.splits if_splits prod.splits)
    from reschedule_effect [OF c assms(2,4)] own slots p show thesis
      by (intro that [of a]) (auto simp: moved_as_agreed_def Let_def need_day_def need_clock_def split: option.splits)
  qed
qed

subsection \<open>The promises\<close>

text \<open>
  C9: Nothing happens without a yes. A message changes the booking database - the requests, the appointments,
  the customers, the vehicles, the codes and every other table there - only when it answers, with a text the
  code reads as a yes, one of the four questions that ask for confirmation, and that question is still pending
  in the writer's live conversation. Of the tables kept beside it, apart from the conversations and the logs,
  it changes only the call-back requests: it adds one, for the writer's number, when the question for the reason is
  pending or paused; any text answers that one that is not itself a command or a question. All else a customer
  writes only reads. (What the code reads as a yes is wider than the word; the lemma refusal_is_a_yes has an example.)
\<close>

theorem nothing_changes_without_a_yes:
  assumes "settled w" "handle_message ct g m now d w = (out, d', w')"
  shows "(same_rows d d' \<or> is_yes (strip_text (cm_text m)) \<and> (\<exists>s p. asked_to_confirm (wd_book w) g m now s p))
    \<and> (other_tables (wd_book w') = other_tables (wd_book w)
       \<or> (\<exists>s p cb. pending_question (wd_book w) g m now s p \<and> asks_reason s p
            \<and> cb_garage cb = g_id g \<and> cb_phone cb = cm_phone m \<and> cb_status cb = CB_PENDING \<and> cb_session cb = Some (cv_id s)
            \<and> other_tables (wd_book w') = (other_tables (wd_book w))\<lparr>or_callbacks := or_callbacks (wd_book w) @ [cb]\<rparr>))"
  using message_rows [OF assms(2)] message_tables [OF assms] unfolding callback_made_def by blast

text \<open>A stranger's greeting, and the answer to the question why she wants to be called.\<close>

definition reason_talk :: session where
  "reason_talk = demo_talk\<lparr>cv_step := Some AWAITING_CALLBACK_REASON, cv_context := []\<rparr>"

lemma nothing_changes_without_a_yes_witness:
  "same_rows demo_db (fst (snd (handle_message demo_chat demo_garage (demo_words ''hello'') 0 demo_db (talk_world reason_talk))))"
proof -
  obtain out d' w' where e: "handle_message demo_chat demo_garage (demo_words ''hello'') 0 demo_db (talk_world reason_talk) = (out, d', w')"
    by (metis prod_cases3)
  have "get_active_session (wd_book (talk_world reason_talk)) (g_id demo_garage) (cm_channel (demo_words ''hello'')) (cm_phone (demo_words ''hello''))
      = Some reason_talk"
    by (simp add: get_active_session_def talk_world_def reason_talk_def demo_talk_def talks_with_def live_session_def demo_garage_def demo_words_def)
  then have "\<not> asked_to_confirm (wd_book (talk_world reason_talk)) demo_garage (demo_words ''hello'') 0 s p" for s p
    by (auto simp: asked_to_confirm_def reason_talk_def confirmation_steps_def)
  moreover have "settled (talk_world reason_talk)" by (simp add: settled_def talk_world_def)
  ultimately show ?thesis using nothing_changes_without_a_yes [OF _ e] unfolding e by auto
qed

text \<open>
  The service a conversation holds: the business's active service with the id in its slot. A service that was
  withdrawn since is no longer held.
\<close>

definition service_held :: "db \<Rightarrow> garage \<Rightarrow> session \<Rightarrow> appointment_type option" where
  "service_held d g s =
     (case map_of (cv_context s) ''appointment_type_id'' of
        Some (ROW i) \<Rightarrow> find (\<lambda>ty. ty_garage ty = g_id g \<and> ty_id ty = i \<and> ty_status ty = TYPE_ACTIVE) (db_types d)
      | _ \<Rightarrow> None)"

lemma service_held_turn:
  assumes "cv_context s' = cv_context s"
  shows "get_appointment_type (turn_of ct g m c s' now d) (row_slot (turn_of ct g m c s' now d) ''appointment_type_id'') = service_held d g s"
  by (simp add: get_appointment_type_def row_slot_def slot_of_def assms service_held_def split: option.split slot_value.split)

text \<open>
  C10: A booking made in a conversation is the one that was confirmed. When a message adds a request, the
  final question was pending and answered with a yes; the request is for the day and time the conversation
  holds, for the service it holds - for none exactly when it holds none, or one that is no longer offered -,
  for the customer who owns the writing number and for that number; the slot was checked again at that moment
  for that service, and the request is held for the terms exactly when the business has some.
\<close>

theorem chat_books_what_was_confirmed:
  "case handle_message ct g m now d w of (out, d', w') \<Rightarrow>
     db_requests d' = db_requests d \<or> db_requests d' = db_requests (ct_meanwhile ct d)
     \<or> (\<exists>s day time rq. asked_to_confirm (wd_book w) g m now s AWAITING_BOOKING_CONFIRMATION \<and> is_yes (strip_text (cm_text m))
          \<and> map_of (cv_context s) ''preferred_date'' = Some (DAY day) \<and> map_of (cv_context s) ''preferred_time'' = Some (CLOCK time)
          \<and> validate_slot (ct_meanwhile ct d) g day time now (service_held d g s) None None = None
          \<and> db_requests d' = db_requests (ct_meanwhile ct d) @ [rq]
          \<and> rq_garage rq = g_id g \<and> rq_date rq = day \<and> rq_time rq = Some time \<and> rq_type rq = map_option ty_id (service_held d g s)
          \<and> rq_customer rq = map_option cu_id (writer g m d) \<and> ct_phone (rq_contact rq) = Some (cm_phone m)
          \<and> rq_status rq = (if has_terms g then AWAITING_TERMS else PENDING))"
proof -
  obtain out d' w' where e: "handle_message ct g m now d w = (out, d', w')" by (metis prod_cases3)
  show ?thesis
  proof (cases "db_requests d' = db_requests d \<or> db_requests d' = db_requests (ct_meanwhile ct d)")
    case False
    then have "\<not> same_rows d d'" using same_rowsD by blast
    with message_rows [OF e] obtain s p s' w1 w2 r where asked: "asked_to_confirm (wd_book w) g m now s p" "is_yes (strip_text (cm_text m))"
      and ctx: "cv_context s' = cv_context s"
      and step: "answer_step ct p (turn_of ct g m (writer g m d) s' now d) (strip_text (cm_text m)) w1 = (r, d', w2)"
      by blast
    let ?t = "turn_of ct g m (writer g m d) s' now d"
    from chat_booking_effect [OF step] False obtain day time rq where
      b: "p = AWAITING_BOOKING_CONFIRMATION" "day_slot_value ?t ''preferred_date'' = Some day"
        "clock_slot_value ?t ''preferred_time'' = Some time"
        "slot_refusal (ct_meanwhile ct d) g (wanted_booking ?t day time) now = None"
        "asked_for g (wanted_booking ?t day time) (ct_meanwhile ct d) rq" "same_rows (add_request rq (ct_meanwhile ct d)) d'"
      by auto
    have held: "kb_type (wanted_booking ?t day time) = service_held d g s"
      by (simp add: wanted_booking_def Let_def service_held_turn [OF ctx])
    have "map_of (cv_context s) ''preferred_date'' = Some (DAY day)" "map_of (cv_context s) ''preferred_time'' = Some (CLOCK time)"
      using b(2,3) ctx
      by (auto simp: day_slot_value_def clock_slot_value_def slot_of_def split: option.splits slot_value.splits)
    moreover have "validate_slot (ct_meanwhile ct d) g day time now (service_held d g s) None None = None"
      using b(4) unfolding slot_refusal_def held revalidate_slot_def by (simp add: wanted_booking_def Let_def)
    moreover have "db_requests d' = db_requests (ct_meanwhile ct d) @ [rq]" using same_rowsD [OF b(6)] by (simp add: add_request_def)
    moreover have "rq_garage rq = g_id g" "rq_date rq = day" "rq_time rq = Some time" "rq_type rq = map_option ty_id (service_held d g s)"
      "rq_customer rq = map_option cu_id (writer g m d)" "ct_phone (rq_contact rq) = Some (cm_phone m)"
      "rq_status rq = (if has_terms g then AWAITING_TERMS else PENDING)"
      using b(5) unfolding asked_for_def held by (simp_all add: wanted_booking_def Let_def)
    moreover have "asked_to_confirm (wd_book w) g m now s AWAITING_BOOKING_CONFIRMATION" using asked(1) b(1) by simp
    ultimately show ?thesis unfolding e prod.case using asked(2) by (intro disjI2 exI conjI)
  next
    case True
    then show ?thesis unfolding e prod.case by blast
  qed
qed

text \<open>
  C11: A customer reaches no appointment but her own. When a message changes the diary, one appointment of
  the customer who owns the writing number, at this business, not cancelled and not yet begun, is cancelled
  or moved, by a yes to the question about it. A move goes to the day and time agreed, which passed the slot
  check and the employee's diary at that moment, and keeps the length.
\<close>

theorem messages_touch_own_appointments_only:
  assumes "distinct (map ap_id (db_appointments d))" "handle_message ct g m now d w = (out, d', w')"
  shows "db_appointments d' = db_appointments d \<or> db_appointments d' = db_appointments (ct_meanwhile ct d)
     \<or> (\<exists>s c a a'. writer g m d = Some c \<and> a \<in> set (db_appointments d) \<and> ap_customer a = cu_id c \<and> ap_garage a = g_id g
          \<and> ap_status a \<noteq> AP_CANCELLED \<and> now \<le> ap_start a \<and> is_yes (strip_text (cm_text m))
          \<and> map_of (cv_context s) ''target_appointment_id'' = Some (ROW (ap_id a))
          \<and> db_appointments d' = row_set ap_id a' (db_appointments d)
          \<and> (asked_to_confirm (wd_book w) g m now s AWAITING_CANCEL_CONFIRMATION \<and> a' = a\<lparr>ap_status := AP_CANCELLED\<rparr>
             \<or> asked_to_confirm (wd_book w) g m now s AWAITING_RESCHEDULE_CONFIRMATION
               \<and> (\<exists>day time start. map_of (cv_context s) ''new_date'' = Some (DAY day) \<and> map_of (cv_context s) ''new_time'' = Some (CLOCK time)
                    \<and> start = local_slot_as_utc (g_zone g) day time
                    \<and> a' = a\<lparr>ap_start := start, ap_end := start + (ap_end a - ap_start a)\<rparr>
                    \<and> validate_slot d g day time now (find_type d (Some (ap_type a))) (Some (ap_id a))
                        (Some ((ap_end a - ap_start a) div minute_us)) = None
                    \<and> \<not> has_employee_conflict d (ap_employee a) start (ap_end a') (Some (ap_id a)))))"
proof (cases "db_appointments d' = db_appointments d \<or> db_appointments d' = db_appointments (ct_meanwhile ct d)")
  case False
  then have "\<not> same_rows d d'" using same_rowsD by blast
  with message_rows [OF assms(2)] obtain s p s' w1 w2 r where asked: "asked_to_confirm (wd_book w) g m now s p" "is_yes (strip_text (cm_text m))"
    and ctx: "cv_context s' = cv_context s"
    and step: "answer_step ct p (turn_of ct g m (writer g m d) s' now d) (strip_text (cm_text m)) w1 = (r, d', w2)"
    by blast
  let ?t = "turn_of ct g m (writer g m d) s' now d"
  from False assms(1) obtain a a' where a: "a \<in> set (upcoming ?t)" "row_slot ?t ''target_appointment_id'' = Some (ap_id a)"
    "db_appointments d' = row_set ap_id a' (db_appointments d)"
    "p = AWAITING_CANCEL_CONFIRMATION \<and> a' = a\<lparr>ap_status := AP_CANCELLED\<rparr> \<or> p = AWAITING_RESCHEDULE_CONFIRMATION \<and> moved_as_agreed ?t a a'"
    using chat_change_effect [OF step] by auto
  from a(1) obtain c where c: "writer g m d = Some c" "a \<in> set (db_appointments d)" "ap_customer a = cu_id c" "ap_garage a = g_id g"
    "ap_status a \<noteq> AP_CANCELLED" "now \<le> ap_start a"
    by (cases "writer g m d") (auto simp: upcoming_def get_upcoming_appointments_def)
  have slot: "map_of (cv_context s) k = Some v" if "slot_of ?t k = Some v" for k v using that ctx by (simp add: slot_of_def)
  from a(2) have target: "map_of (cv_context s) ''target_appointment_id'' = Some (ROW (ap_id a))"
    by (auto simp: row_slot_def intro: slot split: option.splits slot_value.splits)
  from a(4) show ?thesis
  proof
    assume "p = AWAITING_CANCEL_CONFIRMATION \<and> a' = a\<lparr>ap_status := AP_CANCELLED\<rparr>"
    with asked c a(3) target show ?thesis by blast
  next
    assume p: "p = AWAITING_RESCHEDULE_CONFIRMATION \<and> moved_as_agreed ?t a a'"
    then obtain day time where move: "day_slot_value ?t ''new_date'' = Some day" "clock_slot_value ?t ''new_time'' = Some time"
      "a' = a\<lparr>ap_start := local_slot_as_utc (g_zone g) day time, ap_end := local_slot_as_utc (g_zone g) day time + (ap_end a - ap_start a)\<rparr>"
      "validate_slot d g day time now (find_type d (Some (ap_type a))) (Some (ap_id a)) (Some ((ap_end a - ap_start a) div minute_us)) = None"
      "\<not> has_employee_conflict d (ap_employee a') (ap_start a') (ap_end a') (Some (ap_id a))"
      by (auto simp: moved_as_agreed_def)
    from move(1,2) have "map_of (cv_context s) ''new_date'' = Some (DAY day)" "map_of (cv_context s) ''new_time'' = Some (CLOCK time)"
      by (auto simp: day_slot_value_def clock_slot_value_def intro: slot split: option.splits slot_value.splits)
    moreover have "\<not> has_employee_conflict d (ap_employee a) (local_slot_as_utc (g_zone g) day time) (ap_end a') (Some (ap_id a))"
      using move(3,5) by simp
    ultimately show ?thesis using asked c a(3) target p move(3,4) by blast
  qed
qed blast

text \<open>A stranger who got hold of an appointment's number and says yes.\<close>

definition stranger_talk :: session where
  "stranger_talk = demo_talk\<lparr>cv_step := Some AWAITING_CANCEL_CONFIRMATION, cv_context := [(''target_appointment_id'', ROW 10)]\<rparr>"

lemma messages_touch_own_appointments_only_witness:
  "db_appointments (fst (snd (handle_message demo_chat demo_garage (demo_words ''yes'') 0 demo_db (talk_world stranger_talk))))
     = [demo_appointment]"
proof -
  have "writer demo_garage (demo_words ''yes'') demo_db = None"
    by (simp add: writer_def find_customer_by_phone_def demo_db_def)
  moreover obtain out d' w' where e: "handle_message demo_chat demo_garage (demo_words ''yes'') 0 demo_db (talk_world stranger_talk) = (out, d', w')"
    by (metis prod_cases3)
  moreover have "distinct (map ap_id (db_appointments demo_db))" "db_appointments (ct_meanwhile demo_chat demo_db) = [demo_appointment]"
    by (simp_all add: demo_db_def demo_chat_def)
  ultimately show ?thesis using messages_touch_own_appointments_only [OF _ e] by (simp add: demo_chat_def)
qed

subsection \<open>A plain yes is enough\<close>

lemma log_turns_plain: "list_all (\<lambda>row. lg_external row = None) rows \<Longrightarrow> \<exists>w'. log_turns rows w = (Inr (), w')"
proof (induction rows arbitrary: w rule: rev_induct)
  case (snoc row rows)
  then obtain w1 where l: "log_turns rows w = (Inr (), w1)" by auto
  obtain r w2 where c: "create_log row w1 = (r, w2)" by fastforce
  from c snoc.prems create_log_no_id [of row w1] obtain x where "r = Inr x" by (cases r) auto
  with l c show ?case by (simp add: log_turns_def andthen_def)
qed (simp add: log_turns_def)

lemma outgoing_logs_plain: "list_all (\<lambda>row. lg_external row = None) (outgoing_logs ct g m c r)"
  by (simp add: outgoing_logs_def turn_log_def Let_def list_all_iff)

lemma yes_corrects_nothing: "maybe_correct t ''yes'' = Inr None"
proof -
  have cues: "\<not> has_cue ''yes'' go_back_cues" "\<not> has_cue ''yes'' (change_type_cues @ correction_hints)" "\<not> has_cue ''yes'' change_date_cues"
    by code_simp+
  have "not_past (turn_today t) (parse_date_phrase ''yes'' (turn_today t)) = None"
    unfolding yes_names_no_day by (simp add: not_past_def)
  with cues show ?thesis
    by (simp add: maybe_correct_def yes_is_yes Let_def del: list.map split: option.split)
qed

lemma yes_goes_to_the_step:
  assumes "cv_step (tn_session t) = Some p" "p \<noteq> AWAITING_RESUME" "answer_step ct p t ''yes'' w = (Inr r, d', w')"
  shows "\<exists>goal. dispatch_message ct t ''yes'' UNKNOWN w = (Inr (goal, r), d', w')"
  using assms
  by (simp add: dispatch_message_def nav_intents_def interrupt_intents_def answer_aside_def yes_asks_nothing handle_step_def)

lemma wanted_booking_context:
  assumes "cv_context s' = cv_context s"
  shows "wanted_booking (turn_of ct g m c s' now d) = wanted_booking (turn_of ct g m c s now d)"
proof -
  let ?t = "turn_of ct g m c s now d" and ?t' = "turn_of ct g m c s' now d"
  have slots: "slot_of ?t' k = slot_of ?t k" for k using assms by (simp add: slot_of_def)
  then have "text_slot ?t' k = text_slot ?t k" "row_slot ?t' k = row_slot ?t k" "chosen_vehicle ?t' i = chosen_vehicle ?t i"
    "get_appointment_type ?t' i = get_appointment_type ?t i" for k i
    by (simp_all add: text_slot_def row_slot_def chosen_vehicle_def get_appointment_type_def split: option.split)
  moreover from this have "booked_registration ?t' = booked_registration ?t" by (simp add: booked_registration_def split: option.split)
  ultimately show ?thesis by (simp add: wanted_booking_def fun_eq_iff)
qed

text \<open>What the customer is told: the hold and the link to the terms, or that the request is with the team.\<close>

definition announcement :: "garage \<Rightarrow> msg_channel \<Rightarrow> appointment_type option \<Rightarrow> date \<Rightarrow> clock \<Rightarrow> string \<Rightarrow> string \<Rightarrow> reply" where
  "announcement g channel ty day time token reference =
     (let label = (case ty of Some t \<Rightarrow> ty_name t | None \<Rightarrow> ''appointment'')
      in (if has_terms g then
            [Words ''Nearly there - I'm holding '', Long_Day day, Words '' at '', Time_Of_Day time, Words '' for your '', Words label,
             Words '', but it isn't booked until you accept '', Business (g_id g), Words [CHR 0x27],
             Words ''s terms and conditions here: '', Terms_Link (g_id g) token]
          else
            [Words ''You're all set - I've sent your '', Words label, Words '' request for '', Long_Day day, Words '' at '',
             Time_Of_Day time, Words '' to the team, who'll confirm shortly.''])
         @ (if channel = WHATSAPP then
              [New_Line, New_Line, Words ''Your reference is *'', Words reference,
               Words ''* - keep it to check or change this booking.''] else []))"

lemma booked_reply_announces:
  assumes "rq_reference rq = Some reference" "reference \<noteq> []"
    "has_terms (tn_garage t) \<Longrightarrow> rq_status rq = AWAITING_TERMS \<and> rq_terms_token rq = Some token"
    "\<not> has_terms (tn_garage t) \<Longrightarrow> rq_status rq = PENDING"
  shows "booked_reply t day time rq
    = announcement (tn_garage t) (tn_channel t) (get_appointment_type t (row_slot t ''appointment_type_id'')) day time token reference"
  using assms by (auto simp: booked_reply_def announcement_def Let_def has_text_def)

lemma reference_is_text: "unique_booking_reference d draws = Some reference \<Longrightarrow> reference \<noteq> []"
  by (induction draws) (auto simp: random_reference_def split: if_splits)

lemma yes_makes_the_request:
  assumes "need_day t ''preferred_date'' = Inr day" "need_clock t ''preferred_time'' = Inr time" "ct_meanwhile ct = id"
    "slot_refusal (tn_db t) (tn_garage t) (wanted_booking t day time) (tn_now t) = None"
    "unique_booking_reference (tn_db t) (dw_references (ct_draws ct)) = Some reference"
  obtains rq d' w' where "asked_for (tn_garage t) (wanted_booking t day time) (tn_db t) rq" "same_rows (add_request rq (tn_db t)) d'"
    "rq_reference rq = Some reference"
    "booked_reply t day time rq = announcement (tn_garage t) (tn_channel t) (get_appointment_type t (row_slot t ''appointment_type_id''))
       day time (dw_acceptance (ct_draws ct)) reference"
    "answer_step ct AWAITING_BOOKING_CONFIRMATION t ''yes'' w = (Inr (done_with (booked_reply t day time rq) (BOOKED (rq_id rq))), d', w')"
proof -
  let ?kb = "wanted_booking t day time" and ?g = "tn_garage t" and ?d = "tn_db t"
  let ?plain = "chat_request ?g ?kb PENDING reference (fresh_id ?d)"
  let ?rq = "if has_terms ?g then hold_for_acceptance ?plain (dw_acceptance (ct_draws ct)) (tn_now t) (dw_terms_minutes (ct_draws ct)) else ?plain"
  have ids: "kb_tool ?kb = None" "kb_call ?kb = None" by (simp_all add: wanted_booking_def Let_def)
  then have free: "\<not> voice_ids_taken ?d ?rq" by (simp add: voice_ids_taken_def chat_request_def hold_for_acceptance_def list_ex_iff)
  from ids have new: "voice_request ?d (kb_tool ?kb) (kb_call ?kb) = None" by (simp add: voice_request_def has_text_def)
  obtain res d' w' where c: "create_booking_request (ct_config ct) (ct_meanwhile ct) ?g ?kb (ct_draws ct) (tn_now t) ?d w = (res, d', w')"
    by (metis prod_cases3)
  from c have made: "res = Inr (Inr ?rq)" "same_rows (add_request ?rq ?d) d'"
    using assms(3-5) free new
    by (auto simp: create_booking_request_def Let_def split: if_splits dest: same_rows_announce)
  show thesis
  proof (rule that [of ?rq d' w'])
    show "asked_for ?g ?kb ?d ?rq" using asked_for_sel by simp
    show "same_rows (add_request ?rq ?d) d'" by (rule made(2))
    show ref: "rq_reference ?rq = Some reference" by (simp add: chat_request_def hold_for_acceptance_def)
    show "booked_reply t day time ?rq = announcement ?g (tn_channel t) (get_appointment_type t (row_slot t ''appointment_type_id''))
       day time (dw_acceptance (ct_draws ct)) reference"
      by (rule booked_reply_announces [OF ref reference_is_text [OF assms(5)]]) (simp_all add: chat_request_def hold_for_acceptance_def)
    show "answer_step ct AWAITING_BOOKING_CONFIRMATION t ''yes'' w = (Inr (done_with (booked_reply t day time ?rq) (BOOKED (rq_id ?rq))), d', w')"
      unfolding answer_step_def workflow_step.case handle_awaiting_booking_confirmation_def yes_corrects_nothing
      using assms(1,2) c made(1) by (simp add: yes_is_yes checks_def)
  qed
qed

lemma asked_session_kept:
  assumes "asked_to_confirm (wd_book w) g m now s p"
    "get_or_create_session (g_id g) (cm_channel m) (cm_phone m) c now w = (s', w')"
  shows "cv_context s' = cv_context s" "cv_step s' = cv_step s" "cv_status s' = cv_status s" "cv_id s' = cv_id s"
    "cv_last_message s' = cv_last_message s"
  using assms by (auto simp: asked_to_confirm_def get_or_create_session_def put_session_def split: if_splits)

lemma message_is_logged:
  assumes "talks_ok w" "\<not> external_taken (wd_book w) (cm_external m)"
    "get_or_create_session (g_id g) (cm_channel m) (cm_phone m) c now w = (s, w0)"
  shows "\<exists>row w1. create_log (turn_log (g_id g) (cm_channel m) (cm_phone m) INBOUND said c' guess (cm_external m) (cm_call m)) w0 = (Inr row, w1)
    \<and> joins (g_id g) (cm_channel m) (cm_phone m) s w1"
proof -
  have joined: "joins (g_id g) (cm_channel m) (cm_phone m) s w0" by (rule get_or_create_joins [OF assms(1,3)])
  obtain row w1 where l: "create_log (turn_log (g_id g) (cm_channel m) (cm_phone m) INBOUND said c' guess (cm_external m) (cm_call m)) w0
      = (Inr row, w1)"
    using assms(2) get_or_create_outbox(1) [OF assms(3)] by (simp add: create_log_def external_taken_def turn_log_def Let_def)
  have "settled w0" using joined by (auto simp: joins_def dest: talks_okD(1))
  from joins_quiet [OF joined talks.quiet_create_log [OF this l]] l show ?thesis by blast
qed

text \<open>
  C12: A plain yes is enough. Whoever answers the final question of a booking with "yes" while the slot is
  still free gets the request: for the day and time the conversation holds, for the service it holds, for her
  number; she is told so, with the link to the terms when the business has some and on WhatsApp with
  the reference of the new request; and the conversation is over. No pattern of the engine mistakes that yes
  for anything else.
\<close>

theorem plain_yes_books:
  assumes "talks_ok w" "asked_to_confirm (wd_book w) g m now s AWAITING_BOOKING_CONFIRMATION" "cm_text m = ''yes''"
    "\<not> already_processed s (cm_external m)" "\<not> external_taken (wd_book w) (cm_external m)"
    "map_of (cv_context s) ''preferred_date'' = Some (DAY day)" "map_of (cv_context s) ''preferred_time'' = Some (CLOCK time)"
    "ct_meanwhile ct = id" "unique_booking_reference d (dw_references (ct_draws ct)) = Some reference"
    "validate_slot d g day time now (service_held d g s) None None = None"
  shows "\<exists>res rq d' w'. handle_message ct g m now d w = (Inr res, d', w') \<and> cr_actions res = [BOOKED (rq_id rq)]
    \<and> cr_reply res = Some (announcement g (cm_channel m) (service_held d g s) day time (dw_acceptance (ct_draws ct)) reference)
    \<and> db_requests d' = db_requests d @ [rq] \<and> rq_reference rq = Some reference
    \<and> rq_garage rq = g_id g \<and> rq_date rq = day \<and> rq_time rq = Some time \<and> rq_type rq = map_option ty_id (service_held d g s)
    \<and> rq_customer rq = map_option cu_id (writer g m d) \<and> ct_phone (rq_contact rq) = Some (cm_phone m)
    \<and> rq_status rq = (if has_terms g then AWAITING_TERMS else PENDING)
    \<and> (\<exists>x \<in> set (or_sessions (wd_book w')). cv_id x = cv_id s \<and> cv_status x = S_COMPLETED)"
proof -
  note asked = assms(2) [unfolded asked_to_confirm_def]
  obtain s' w0 where got: "get_or_create_session (g_id g) (cm_channel m) (cm_phone m) (map_option cu_id (writer g m d)) now w = (s', w0)"
    by fastforce
  note s' = asked_session_kept [OF assms(2) got]
  from message_is_logged [OF assms(1,5) got] obtain row w1 where
    l: "create_log (turn_log (g_id g) (cm_channel m) (cm_phone m) INBOUND ''yes'' (writer g m d) (Some UNKNOWN) (cm_external m) (cm_call m)) w0
      = (Inr row, w1)" and w1: "joins (g_id g) (cm_channel m) (cm_phone m) s' w1" by blast
  let ?t = "turn_of ct g m (writer g m d) s' now d"
  have "need_day ?t ''preferred_date'' = Inr day" "need_clock ?t ''preferred_time'' = Inr time"
    using assms(6,7) s'(1) by (simp_all add: need_day_def need_clock_def day_slot_value_def clock_slot_value_def slot_of_def)
  moreover have "slot_refusal (tn_db ?t) (tn_garage ?t) (wanted_booking ?t day time) (tn_now ?t) = None"
    using assms(10) service_held_turn [OF s'(1), of ct g m "writer g m d" now d]
    by (simp add: slot_refusal_def revalidate_slot_def wanted_booking_def Let_def)
  ultimately obtain rq d' w2 where rq: "asked_for g (wanted_booking ?t day time) d rq" "same_rows (add_request rq d) d'"
    "rq_reference rq = Some reference"
    and told: "booked_reply ?t day time rq = announcement g (tn_channel ?t) (service_held d g s) day time (dw_acceptance (ct_draws ct)) reference"
    and step: "answer_step ct AWAITING_BOOKING_CONFIRMATION ?t ''yes'' w1
      = (Inr (done_with (booked_reply ?t day time rq) (BOOKED (rq_id rq))), d', w2)"
    using yes_makes_the_request [of ?t day time ct reference w1] assms(8,9) service_held_turn [OF s'(1), of ct g m "writer g m d" now d] by auto
  let ?r = "done_with (booked_reply ?t day time rq) (BOOKED (rq_id rq))"
  from yes_goes_to_the_step [OF _ _ step] asked s'(2) obtain goal where
    disp: "dispatch_message ct ?t ''yes'' UNKNOWN w1 = (Inr (goal, ?r), d', w2)" by auto
  have w2: "joins (g_id g) (cm_channel m) (cm_phone m) s' w2"
    using w1 by (rule joins_quiet) (use w1 disp in \<open>auto simp: joins_def dest: talks_okD(1) intro: dispatch_quiet\<close>)
  obtain w3 where logs: "log_turns (outgoing_logs ct g m (writer g m d) ?r) (put_session (finalized now goal ?r s') w2) = (Inr (), w3)"
    using log_turns_plain [OF outgoing_logs_plain] by blast
  then obtain res w' where c: "conclude ct g m (writer g m d) s' now goal ?r w2 = (Inr res, w')" "cr_actions res = [BOOKED (rq_id rq)]"
      "cr_reply res = Some (booked_reply ?t day time rq)"
    by (simp add: conclude_def Let_def done_with_def finish_def)
  have lead: "leads_on (cv_context s') (Inr ?r)" by (simp add: done_with_def finish_def leads_on_def)
  from conclude_ok(3) [OF w2 lead c(1), of res] have "processed (cm_external m) (finalized now goal ?r s') \<in> set (or_sessions (wd_book w'))" by simp
  then have "\<exists>x \<in> set (or_sessions (wd_book w')). cv_id x = cv_id s \<and> cv_status x = S_COMPLETED"
    using s'(4) by (intro bexI [of _ "processed (cm_external m) (finalized now goal ?r s')"])
      (simp_all add: finalized_def done_with_def finish_def completed_def)
  moreover have fresh: "\<not> already_processed s' (cm_external m)" using assms(4) s'(5) by (simp add: already_processed_def)
  moreover have "handle_message ct g m now d w = (Inr res, d', w')"
    using got l disp c fresh assms(3) asked s'(3)
    by (simp add: handle_message_def Let_def writer_def yes_is_yes yes_is_no_intent)
  moreover have "db_requests d' = db_requests d @ [rq]" using same_rowsD [OF rq(2)] by (simp add: add_request_def)
  moreover have "rq_garage rq = g_id g" "rq_date rq = day" "rq_time rq = Some time" "rq_type rq = map_option ty_id (service_held d g s)"
    "rq_customer rq = map_option cu_id (writer g m d)" "ct_phone (rq_contact rq) = Some (cm_phone m)"
    "rq_status rq = (if has_terms g then AWAITING_TERMS else PENDING)"
    using rq(1) service_held_turn [OF s'(1), of ct g m "writer g m d" now d] by (simp_all add: asked_for_def wanted_booking_def Let_def)
  moreover have "tn_channel ?t = cm_channel m" by (simp add: turn_of_def)
  ultimately show ?thesis using c(2,3) told rq(3) by (intro exI [of _ res] exI [of _ rq] exI [of _ d'] exI [of _ w']) auto
qed

text \<open>The customer of \<open>demo_talk\<close> again, after choosing nine o'clock.\<close>

definition yes_talk :: session where
  "yes_talk = demo_talk\<lparr>cv_step := Some AWAITING_BOOKING_CONFIRMATION,
     cv_context := [(''preferred_date'', DAY 1), (''preferred_time'', CLOCK (9 * hour_us))]\<rparr>"

definition drawing_chat :: "string chat_setup" where
  "drawing_chat = demo_chat\<lparr>ct_draws := (ct_draws demo_chat)\<lparr>dw_references := [[0, 1, 2, 3, 4, 5, 6]]\<rparr>\<rparr>"

lemma plain_yes_books_witness:
  "\<exists>res rq d' w'. handle_message drawing_chat demo_garage (demo_words ''yes'') 0 demo_db (talk_world yes_talk) = (Inr res, d', w')
     \<and> cr_actions res = [BOOKED (rq_id rq)] \<and> db_requests d' = [rq] \<and> rq_date rq = 1 \<and> rq_time rq = Some (9 * hour_us)
     \<and> cr_reply res = Some (announcement demo_garage WHATSAPP None 1 (9 * hour_us) ''a'' (random_reference [0, 1, 2, 3, 4, 5, 6]))"
proof -
  have ok: "talks_ok (talk_world yes_talk)"
    by (rule talk_world_ok) (simp_all add: yes_talk_def demo_talk_def has_day_def has_clock_def)
  have asked: "asked_to_confirm (wd_book (talk_world yes_talk)) demo_garage (demo_words ''yes'') 0 yes_talk AWAITING_BOOKING_CONFIRMATION"
    by (simp add: asked_to_confirm_def get_active_session_def talk_world_def yes_talk_def demo_talk_def talks_with_def live_session_def
        demo_garage_def demo_words_def is_stale_def confirmation_steps_def session_timeout_def)
  have held: "service_held demo_db demo_garage yes_talk = None" by (simp add: service_held_def yes_talk_def)
  then have free: "validate_slot demo_db demo_garage 1 (9 * hour_us) 0 (service_held demo_db demo_garage yes_talk) None None = None"
    by (simp add: validate_slot_def booking_window_def calendar_eval type_duration_def)
  have draw: "unique_booking_reference demo_db (dw_references (ct_draws drawing_chat)) = Some (random_reference [0, 1, 2, 3, 4, 5, 6])"
    by (simp add: drawing_chat_def demo_db_def)
  have set_up: "\<not> already_processed yes_talk (cm_external (demo_words ''yes''))" "cm_text (demo_words ''yes'') = ''yes''"
    "\<not> external_taken (wd_book (talk_world yes_talk)) (cm_external (demo_words ''yes''))"
    "map_of (cv_context yes_talk) ''preferred_date'' = Some (DAY 1)" "map_of (cv_context yes_talk) ''preferred_time'' = Some (CLOCK (9 * hour_us))"
    "ct_meanwhile drawing_chat = id" "dw_acceptance (ct_draws drawing_chat) = ''a''" "cm_channel (demo_words ''yes'') = WHATSAPP"
    "db_requests demo_db = []"
    by (simp_all add: demo_words_def yes_talk_def demo_talk_def already_processed_def external_taken_def talk_world_def demo_outreach_def
        drawing_chat_def demo_chat_def demo_db_def)
  from plain_yes_books [OF ok asked set_up(2,1,3-6) draw free] show ?thesis
    unfolding held set_up(7-9) append_Nil by blast
qed

end
