(* ===== verification/Diary_Promises.thy ===== *)
theory Diary_Promises
  imports Desk_Promises Chat_Consent
begin

text \<open>
  The staff's diary with the customers' messages among its writers: the contract \<open>roster_keeper\<close> holds of
  every way into the diary, the conversations included.
\<close>

subsection \<open>Messages as steps\<close>

lemma roster_step_same_rows: "same_rows d d' \<Longrightarrow> roster_step d d'"
  by (auto simp: roster_step_def dest: same_rowsD)

lemma roster_step_then_same: "roster_step d d1 \<Longrightarrow> same_rows d1 d' \<Longrightarrow> roster_step d d'"
  by (auto simp: roster_step_def dest!: same_rowsD)

lemma chat_booking_step:
  assumes "create_booking_request cf id g (wanted_booking t day time) dw now d w = (r, d', w')"
  shows "roster_step d d'"
proof -
  have "\<not> has_text (kb_tool (wanted_booking t day time))" "\<not> has_text (kb_call (wanted_booking t day time))"
    by (simp_all add: wanted_booking_def has_text_def Let_def)
  from create_booking_request_effect [OF assms this] consider "d' = d" | rq where "same_rows (add_request rq d) d'" by auto
  then show ?thesis
  proof cases
    case 2
    moreover have "roster_step d (add_request rq d)" by (simp add: roster_step_def add_request_def)
    ultimately show ?thesis by (rule roster_step_then_same [rotated])
  qed (simp add: roster_step_same_rows)
qed

lemma chat_cancel_step:
  assumes "cancel_appointment cf a d w = (r, d', w')" "a \<in> set (db_appointments d)"
  shows "roster_step d d'"
proof -
  have "roster_step d (put_appointment (a\<lparr>ap_status := AP_CANCELLED\<rparr>) d)"
    using assms(2) by (rule roster_put) (simp_all add: free_for_def live_appointment_def)
  with assms(1) show ?thesis
    by (auto simp: cancel_appointment_def split: option.splits intro: roster_step_same_rows roster_step_then_same dest: same_rows_announce)
qed

lemma chat_move_step:
  assumes "reschedule_appointment cf g i day time now d w = (r, d', w')"
  shows "roster_step d d'"
proof -
  have put: "roster_step d (put_appointment (a\<lparr>ap_start := start, ap_end := stop\<rparr>) d)"
    if "find (\<lambda>a. ap_id a = i \<and> ap_garage a = g_id g) (db_appointments d) = Some a" "\<not> has_employee_conflict d (ap_employee a) start stop (Some i)"
    for a start stop
    using that by (intro roster_put [of a]) (auto simp: free_for_def dest: find_SomeD)
  from assms show ?thesis
    by (auto simp: reschedule_appointment_def Let_def split: option.splits if_splits
        intro: roster_step_same_rows roster_step_then_same [OF put] dest: same_rows_announce)
qed

lemma answer_step_roster:
  assumes "answer_step ct p t said w = (r, d', w')" "ct_meanwhile ct = id"
  shows "roster_step (tn_db t) d'"
proof -
  have name: "roster_step d d1" if "update_customer_name g c a b d = (x, d1)" for g c a b d x d1
    using that by (auto simp: update_customer_name_def Let_def put_customer_def roster_step_def split: if_splits)
  have own: "a \<in> set (db_appointments (tn_db t))" if "find_upcoming t i = Some a" for i a
    using find_upcoming_Some [OF that] by simp
  have call: "roster_step d d1" if "create_callback_request cf g c ph re pr so d w = (x, d1, w1)" for cf g c ph re pr so d w x d1 w1
    using that by (auto simp: create_callback_request_def Let_def split: prod.splits intro: roster_step_same_rows dest: same_rows_announce)
  show ?thesis using assms
    by (cases p)
      (auto simp: answer_step_def reading_def roster_step_same_rows handle_awaiting_booking_confirmation_def
        handle_awaiting_cancel_confirmation_def handle_awaiting_reschedule_confirmation_def
        handle_awaiting_name_correction_confirm_def handle_awaiting_callback_reason_def
        split: sum.splits option.splits if_splits prod.splits
        dest: chat_booking_step chat_cancel_step chat_move_step name call own)
qed

lemma message_step:
  assumes "ct_meanwhile ct = id"
  shows "roster_step d (fst (snd (handle_message ct g m now d w)))"
proof -
  obtain out d' w' where e: "handle_message ct g m now d w = (out, d', w')" by (metis prod_cases3)
  from message_rows [OF e] consider "same_rows d d'"
    | p s' w1 w2 r where "answer_step ct p (turn_of ct g m (writer g m d) s' now d) (strip_text (cm_text m)) w1 = (r, d', w2)" by blast
  then have "roster_step d d'"
  proof cases
    case 2
    from answer_step_roster [OF this assms] show ?thesis by simp
  qed (rule roster_step_same_rows)
  with e show ?thesis by simp
qed

subsection \<open>Every way into the diary\<close>

datatype 'n diary_request =
    At_desk roster_request
  | Wrote "'n chat_setup" garage chat_message instant world

text \<open>A history lists the runs of the handlers one after the other, so no other worker commits inside one.\<close>

fun handle_diary :: "'n diary_request \<Rightarrow> db \<Rightarrow> db" where
  "handle_diary (At_desk k) d = handle_roster k d"
| "handle_diary (Wrote ct g m now w) d = fst (snd (handle_message (ct\<lparr>ct_meanwhile := id\<rparr>) g m now d w))"

interpretation diary: roster_keeper handle_diary
proof
  show "roster_step d (handle_diary k d)" for d and k :: "'n diary_request"
    by (cases k) (simp_all add: roster.steps message_step)
qed

text \<open>
  C2: No employee is ever booked twice. Whatever mix of approvals, automatic acceptances, online
  submissions, accepted links, appointments created, edited or cancelled by staff, and messages of customers
  who book, cancel or move appointments is handled, in any order, no two live appointments of one employee
  overlap.
\<close>

theorem nobody_is_booked_twice:
  assumes "roster_ok s" "i < j" "j < length (db_appointments (fold handle_diary requests s))"
  shows "\<not> clash (db_appointments (fold handle_diary requests s) ! i) (db_appointments (fold handle_diary requests s) ! j)"
  using diary.fold_keeps [OF assms(1), of requests] assms(2,3)
  by (simp add: roster_ok_def no_double_booking_def sorted_wrt_iff_nth_less)

text \<open>A customer writes to the staff, who then add an appointment.\<close>

lemma nobody_is_booked_twice_witness:
  "\<exists>d. d = fold handle_diary [Wrote demo_chat demo_garage (demo_words ''9am'') 0 (talk_world staff_talk), At_desk (Create_at_desk demo_garage desk_data 0 [])] desk_db
     \<and> length (db_appointments d) = 2 \<and> \<not> clash (db_appointments d ! 0) (db_appointments d ! 1)"
proof -
  let ?requests = "[Wrote demo_chat demo_garage (demo_words ''9am'') 0 (talk_world staff_talk), At_desk (Create_at_desk demo_garage desk_data 0 [])]"
  obtain out d w' where "handle_message (demo_chat\<lparr>ct_meanwhile := id\<rparr>) demo_garage (demo_words ''9am'') 0 desk_db (talk_world staff_talk) = (out, d, w')"
    by (metis prod_cases3)
  with staff_message(2) [OF staff_talk_ok staff_talk_with_staff _ this]
  have wrote: "handle_diary (Wrote demo_chat demo_garage (demo_words ''9am'') 0 (talk_world staff_talk)) desk_db = desk_db"
    by (simp add: demo_words_def)
  obtain ap s' where "create_appointment desk_db demo_garage desk_data 0 [] = (Inr ap, s')"
    "db_appointments s' = db_appointments desk_db @ [ap]" using desk_created by blast
  with wrote have "length (db_appointments (fold handle_diary ?requests desk_db)) = 2" by (simp add: desk_db_def)
  with nobody_is_booked_twice [OF desk_ok(1), of 0 1 ?requests] show ?thesis by auto
qed

end
