(* ===== verification/Ip_Addresses.thy ===== *)
theory Ip_Addresses
  imports Texts Python_Parsing "HOL-Library.Word"
begin

text \<open>
  What the code uses of Python's module \<open>ipaddress\<close>: \<open>ip_address\<close>, which reads an IPv4 or an IPv6
  address, and \<open>is_global\<close>, with the special-purpose networks of Python 3.12. Addresses are ASCII texts
  without a zone index.
\<close>

type_synonym ipv4 = "32 word"
type_synonym ipv6 = "128 word"

datatype ip_addr = IPV4 ipv4 | IPV6 ipv6

text \<open>\<open>str.split(separator)\<close>: the pieces between the separators, empty ones included.\<close>

fun split_on :: "char \<Rightarrow> string \<Rightarrow> string list" where
  "split_on sep [] = [[]]"
| "split_on sep (c # t) =
     (if c = sep then [] # split_on sep t
      else case split_on sep t of p # ps \<Rightarrow> (c # p) # ps | [] \<Rightarrow> [[c]])"

subsection \<open>IPv4\<close>

definition parse_octet :: "string \<Rightarrow> nat option" where
  "parse_octet t =
     (if t = [] \<or> \<not> list_all is_digit t \<or> 3 < length t \<or> (t \<noteq> ''0'' \<and> hd t = CHR ''0'') then None
      else let n = digits_value t in if 255 < n then None else Some n)"

definition ipv4_of :: "nat list \<Rightarrow> ipv4" where
  "ipv4_of octets = foldl (\<lambda>a d. push_bit 8 a + of_nat d) 0 octets"

definition parse_ipv4 :: "string \<Rightarrow> ipv4 option" where
  "parse_ipv4 t =
     (let octets = map parse_octet (split_on CHR ''.'' t)
      in if length octets = 4 \<and> list_all (\<lambda>d. d \<noteq> None) octets then Some (ipv4_of (map the octets)) else None)"

text \<open>\<open>address in network\<close>: the bits before the prefix length agree.\<close>

definition in_network :: "'a :: len word \<Rightarrow> 'a word \<times> nat \<Rightarrow> bool" where
  "in_network a n \<longleftrightarrow> drop_bit (LENGTH('a) - snd n) a = drop_bit (LENGTH('a) - snd n) (fst n)"

definition ipv4_private_networks :: "(ipv4 \<times> nat) list" where
  "ipv4_private_networks =
     map (\<lambda>(octets, len). (ipv4_of octets, len))
       [([0, 0, 0, 0], 8), ([10, 0, 0, 0], 8), ([127, 0, 0, 0], 8), ([169, 254, 0, 0], 16), ([172, 16, 0, 0], 12),
        ([192, 0, 0, 0], 24), ([192, 0, 0, 170], 31), ([192, 0, 2, 0], 24), ([192, 168, 0, 0], 16),
        ([198, 18, 0, 0], 15), ([198, 51, 100, 0], 24), ([203, 0, 113, 0], 24), ([240, 0, 0, 0], 4),
        ([255, 255, 255, 255], 32)]"

definition ipv4_private_exceptions :: "(ipv4 \<times> nat) list" where
  "ipv4_private_exceptions = [(ipv4_of [192, 0, 0, 9], 32), (ipv4_of [192, 0, 0, 10], 32)]"

definition ipv4_is_private :: "ipv4 \<Rightarrow> bool" where
  "ipv4_is_private a \<longleftrightarrow>
     list_ex (in_network a) ipv4_private_networks \<and> \<not> list_ex (in_network a) ipv4_private_exceptions"

definition ipv4_is_global :: "ipv4 \<Rightarrow> bool" where
  "ipv4_is_global a \<longleftrightarrow> \<not> in_network a (ipv4_of [100, 64, 0, 0], 10) \<and> \<not> ipv4_is_private a"

subsection \<open>IPv6\<close>

definition hex_value :: "char \<Rightarrow> nat option" where
  "hex_value c =
     (let n = of_char c
      in if is_digit c then Some (n - 48)
         else if 97 \<le> n \<and> n \<le> 102 then Some (n - 87)
         else if 65 \<le> n \<and> n \<le> 70 then Some (n - 55) else None)"

definition parse_hextet :: "string \<Rightarrow> nat option" where
  "parse_hextet t =
     (let ds = map hex_value t
      in if t = [] \<or> 4 < length t \<or> \<not> list_all (\<lambda>d. d \<noteq> None) ds then None
         else Some (foldl (\<lambda>n d. 16 * n + the d) 0 ds))"

definition hextets :: "nat list \<Rightarrow> ipv6" where
  "hextets parts = foldl (\<lambda>a p. push_bit 16 a + of_nat p) 0 parts"

text \<open>The last part may be an IPv4 address, which stands for two parts.\<close>

definition expand_suffix :: "string list \<Rightarrow> nat option list option" where
  "expand_suffix parts =
     (if CHR ''.'' \<in> set (last parts) then
        (case parse_ipv4 (last parts) of
           None \<Rightarrow> None
         | Some a \<Rightarrow> Some (map parse_hextet (butlast parts) @ [Some (unat (drop_bit 16 a)), Some (unat (take_bit 16 a))]))
      else Some (map parse_hextet parts))"

text \<open>
  \<open>_ip_int_from_string\<close>. \<open>empty\<close> marks the parts with no text; an empty part that is neither the first
  nor the last is a run of zeros, and there is one at most. Beside it the first and the last part may be
  empty only when they touch it.
\<close>

definition parse_ipv6 :: "string \<Rightarrow> ipv6 option" where
  "parse_ipv6 t =
     (let parts = split_on CHR '':'' t
      in if length parts < 3 then None
         else case expand_suffix parts of
           None \<Rightarrow> None
         | Some vs \<Rightarrow>
             let n = length vs;
                 empty = (\<lambda>i. i < length parts \<and> parts ! i = []);
                 gaps = filter empty [1 ..< n - 1];
                 numbers = (\<lambda>ps. if list_all (\<lambda>p. p \<noteq> None) ps then Some (map the ps) else None)
             in if 9 < n then None
                else case gaps of
                  [] \<Rightarrow> if n \<noteq> 8 then None else map_option hextets (numbers vs)
                | [gap] \<Rightarrow>
                    let high = (if empty 0 then gap - 1 else gap);
                        low = (if empty (n - 1) then n - gap - 2 else n - gap - 1)
                    in if empty 0 \<and> high \<noteq> 0 \<or> empty (n - 1) \<and> low \<noteq> 0 \<or> 8 < high + low + 1 then None
                       else map_option hextets
                              (numbers (take high vs @ replicate (8 - (high + low)) (Some 0) @ drop (n - low) vs))
                | _ \<Rightarrow> None)"

definition ipv6_private_networks :: "(ipv6 \<times> nat) list" where
  "ipv6_private_networks =
     map (\<lambda>(parts, len). (hextets parts, len))
       [([0, 0, 0, 0, 0, 0, 0, 1], 128), ([0, 0, 0, 0, 0, 0, 0, 0], 128), ([0, 0, 0, 0, 0, 0xffff, 0, 0], 96),
        ([0x64, 0xff9b, 1, 0, 0, 0, 0, 0], 48), ([0x100, 0, 0, 0, 0, 0, 0, 0], 64), ([0x2001, 0, 0, 0, 0, 0, 0, 0], 23),
        ([0x2001, 0xdb8, 0, 0, 0, 0, 0, 0], 32), ([0x2002, 0, 0, 0, 0, 0, 0, 0], 16),
        ([0x3fff, 0, 0, 0, 0, 0, 0, 0], 20),
        ([0xfc00, 0, 0, 0, 0, 0, 0, 0], 7), ([0xfe80, 0, 0, 0, 0, 0, 0, 0], 10)]"

definition ipv6_private_exceptions :: "(ipv6 \<times> nat) list" where
  "ipv6_private_exceptions =
     map (\<lambda>(parts, len). (hextets parts, len))
       [([0x2001, 1, 0, 0, 0, 0, 0, 1], 128), ([0x2001, 1, 0, 0, 0, 0, 0, 2], 128), ([0x2001, 3, 0, 0, 0, 0, 0, 0], 32),
        ([0x2001, 4, 0x112, 0, 0, 0, 0, 0], 48), ([0x2001, 0x20, 0, 0, 0, 0, 0, 0], 28), ([0x2001, 0x30, 0, 0, 0, 0, 0, 0], 28)]"

text \<open>An address of the form \<open>::ffff:a.b.c.d\<close> stands for an IPv4 address.\<close>

definition ipv4_mapped :: "ipv6 \<Rightarrow> ipv4 option" where
  "ipv4_mapped a = (if drop_bit 32 a = 0xffff then Some (ucast a) else None)"

definition ipv6_is_private :: "ipv6 \<Rightarrow> bool" where
  "ipv6_is_private a \<longleftrightarrow>
     (case ipv4_mapped a of
        Some b \<Rightarrow> ipv4_is_private b
      | None \<Rightarrow> list_ex (in_network a) ipv6_private_networks \<and> \<not> list_ex (in_network a) ipv6_private_exceptions)"

subsection \<open>Both\<close>

definition ip_address :: "string \<Rightarrow> ip_addr option" where
  "ip_address t = (case parse_ipv4 t of Some a \<Rightarrow> Some (IPV4 a) | None \<Rightarrow> map_option IPV6 (parse_ipv6 t))"

definition ip_is_global :: "ip_addr \<Rightarrow> bool" where
  "ip_is_global a = (case a of IPV4 a \<Rightarrow> ipv4_is_global a | IPV6 a \<Rightarrow> \<not> ipv6_is_private a)"

end
