(* ===== verification/Telephony.thy ===== *)
theory Telephony
  imports Ip_Addresses Messaging
begin

text \<open>
  How callers reach a business and whom a caller who needs a person is put through to:
  \<open>communications/telephony.py\<close> with \<open>normalise_transfer_number\<close> of \<open>communications/ivr/actions.py\<close>,
  and the two settings actions of \<open>communications/provisioning/service.py\<close>. The regular expressions for
  SIP addresses and Twilio identifiers are written out as the readers they stand for. When a row was
  written, the column \<open>created_at\<close> the database fills, is the argument \<open>written\<close>.
\<close>

subsection \<open>Destinations\<close>

datatype telephony_problem =
  BAD_NUMBER phone_error | NOT_BRITISH | PREMIUM_RATE | RINGS_COMAZ
| NOT_A_SIP_ADDRESS | ROUTES_BACK | NOT_REACHABLE | LOCAL_HOST | NO_DESTINATION_TYPE
| NOT_A_TRUNK | NOT_A_DOMAIN | BAD_RING_TIME | BAD_MODE | NO_PUBLIC_NUMBER | NO_SIP_DOMAIN
| TRUNK_NOT_WANTED | NO_COMAZ_NUMBER | SAME_NUMBERS | NUMBER_NOT_WANTED | NUMBER_TAKEN
| NO_PRIMARY | SAME_AS_PRIMARY | PRIMARY_REQUIRED

text \<open>What is wrong, and the form field it is reported at.\<close>

type_synonym telephony_error = "telephony_problem \<times> string"

record human_destination =
  hd_kind :: string
  hd_value :: string
  hd_source :: string

definition text_or_empty :: "string option \<Rightarrow> string" where
  "text_or_empty t = (case t of None \<Rightarrow> [] | Some s \<Rightarrow> s)"

definition non_empty :: "string \<Rightarrow> string option" where
  "non_empty t = (if t = [] then None else Some t)"

definition ends_with :: "string \<Rightarrow> string \<Rightarrow> bool" where
  "ends_with p t \<longleftrightarrow> starts_with (rev p) (rev t)"

definition blocked_national_prefixes :: "string list" where
  "blocked_national_prefixes = [''9'', ''70'', ''87'', ''118'']"

definition normalise_transfer_number :: "'n phone_library \<Rightarrow> string \<Rightarrow> telephony_problem + string" where
  "normalise_transfer_number lib raw =
     (case normalize_uk_phone lib raw of
        Inl e \<Rightarrow> Inl (BAD_NUMBER e)
      | Inr e164 \<Rightarrow>
          if \<not> starts_with ''+44'' e164 then Inl NOT_BRITISH
          else if list_ex (\<lambda>p. starts_with p (drop 3 e164)) blocked_national_prefixes then Inl PREMIUM_RATE
          else Inr e164)"

definition mode_of :: "comm_settings option \<Rightarrow> string" where
  "mode_of c = (case c of None \<Rightarrow> ''NEW_COMAZ_NUMBER''
                | Some c \<Rightarrow> if has_text (cs_mode c) then the (cs_mode c) else ''NEW_COMAZ_NUMBER'')"

definition settings_numbers :: "comm_settings \<Rightarrow> string list" where
  "settings_numbers c = map the (filter has_text [cs_voice_number c, cs_public_number c])"

definition own_numbers :: "outreach \<Rightarrow> uid \<Rightarrow> string list" where
  "own_numbers s g = (case settings_of s g of None \<Rightarrow> [] | Some c \<Rightarrow> settings_numbers c)"

definition comaz_routed_numbers :: "outreach \<Rightarrow> string list" where
  "comaz_routed_numbers s = concat (map settings_numbers (or_settings s))"

definition caller_identity :: "'n phone_library \<Rightarrow> outreach \<Rightarrow> uid \<Rightarrow> string option \<Rightarrow> string" where
  "caller_identity lib s g raw =
     (case e164_from_address lib raw of
        None \<Rightarrow> []
      | Some number \<Rightarrow> if number = [] \<or> number \<in> set (own_numbers s g) then [] else number)"

definition validate_pstn_destination ::
  "'n phone_library \<Rightarrow> outreach \<Rightarrow> string \<Rightarrow> string \<Rightarrow> telephony_error + string" where
  "validate_pstn_destination lib s raw field =
     (case normalise_transfer_number lib raw of
        Inl p \<Rightarrow> Inl (p, field)
      | Inr number \<Rightarrow> if number \<in> set (comaz_routed_numbers s) then Inl (RINGS_COMAZ, field) else Inr number)"

subsection \<open>SIP addresses\<close>

definition is_letter :: "char \<Rightarrow> bool" where
  "is_letter c \<longleftrightarrow> is_upper c \<or> is_lower c"

definition is_hex :: "char \<Rightarrow> bool" where
  "is_hex c \<longleftrightarrow> hex_value c \<noteq> None"

definition sip_user_char :: "char \<Rightarrow> bool" where
  "sip_user_char c \<longleftrightarrow> is_letter c \<or> is_digit c \<or> c \<in> set ''._~+-!$&*=,%'' \<or> c = CHR 0x27"

definition sip_host_char :: "char \<Rightarrow> bool" where
  "sip_host_char c \<longleftrightarrow> is_letter c \<or> is_digit c \<or> c = CHR ''.'' \<or> c = CHR ''-''"

text \<open>The scheme, \<open>sips?:\<close> without regard to case; what follows it.\<close>

definition drop_sip_scheme :: "string \<Rightarrow> string option" where
  "drop_sip_scheme t =
     (let lower = map lower_char t
      in if starts_with ''sips:'' lower then Some (drop 5 t)
         else if starts_with ''sip:'' lower then Some (drop 4 t) else None)"

text \<open>What may follow the host: a port of up to five digits and a transport.\<close>

definition sip_tail_ok :: "string \<Rightarrow> bool" where
  "sip_tail_ok t =
     (let digits = takeWhile is_digit (tl t);
          rest = (if starts_with '':'' t then dropWhile is_digit (tl t) else t)
      in (starts_with '':'' t \<longrightarrow> digits \<noteq> [] \<and> length digits \<le> 5)
         \<and> map lower_char rest \<in> set ['''', '';transport=udp'', '';transport=tcp'', '';transport=tls''])"

text \<open>\<open>_SIP_URI_RE\<close>: the host of an address that matches, with its brackets when it is an IPv6 address.\<close>

definition sip_uri_host :: "string \<Rightarrow> string option" where
  "sip_uri_host t =
     (case drop_sip_scheme t of
        None \<Rightarrow> None
      | Some rest \<Rightarrow>
          let user = takeWhile sip_user_char rest;
              after = dropWhile sip_user_char rest
          in if user = [] \<or> 64 < length user \<or> \<not> starts_with ''@'' after then None
             else let place = tl after
             in if starts_with ''['' place then
                  (let inner = takeWhile (\<lambda>c. c \<noteq> CHR '']'') (tl place);
                       behind = dropWhile (\<lambda>c. c \<noteq> CHR '']'') (tl place)
                   in if 2 \<le> length inner \<and> length inner \<le> 45 \<and> list_all (\<lambda>c. is_hex c \<or> c = CHR '':'' \<or> c = CHR ''.'') inner
                         \<and> behind \<noteq> [] \<and> sip_tail_ok (tl behind)
                      then Some (''['' @ inner @ '']'') else None)
                else
                  (let host = takeWhile sip_host_char place
                   in if host \<noteq> [] \<and> length host \<le> 190 \<and> sip_tail_ok (dropWhile sip_host_char place)
                      then Some host else None))"

definition strip_dots :: "string \<Rightarrow> string" where
  "strip_dots t = rev (dropWhile (\<lambda>c. c = CHR ''.'') (rev t))"

definition strip_brackets :: "string \<Rightarrow> string" where
  "strip_brackets t =
     (let outer = (\<lambda>c. c = CHR ''['' \<or> c = CHR '']'') in rev (dropWhile outer (rev (dropWhile outer t))))"

definition plain_host :: "string \<Rightarrow> string" where
  "plain_host h = strip_dots (map lower_char (strip_brackets h))"

definition blocked_sip_host_suffixes :: "string list" where
  "blocked_sip_host_suffixes = [''.twilio.com'', ''twilio.com'', ''.openai.com'', ''openai.com'']"

definition routes_back :: "string \<Rightarrow> bool" where
  "routes_back host \<longleftrightarrow>
     list_ex (\<lambda>s. host = dropWhile (\<lambda>c. c = CHR ''.'') s \<or> ends_with s host) blocked_sip_host_suffixes"

definition validate_sip_destination :: "string \<Rightarrow> string \<Rightarrow> telephony_error + string" where
  "validate_sip_destination raw field =
     (let value = strip_text raw
      in if value = [] \<or> 255 < length value then Inl (NOT_A_SIP_ADDRESS, field)
         else case sip_uri_host value of
           None \<Rightarrow> Inl (NOT_A_SIP_ADDRESS, field)
         | Some h \<Rightarrow>
             let host = plain_host h
             in if routes_back host then Inl (ROUTES_BACK, field)
                else case ip_address host of
                  Some a \<Rightarrow> if \<not> ip_is_global a then Inl (NOT_REACHABLE, field) else Inr value
                | None \<Rightarrow> if host = ''localhost'' then Inl (LOCAL_HOST, field) else Inr value)"

definition validate_destination ::
  "'n phone_library \<Rightarrow> outreach \<Rightarrow> string option \<Rightarrow> string option \<Rightarrow> string \<Rightarrow> telephony_error + string" where
  "validate_destination lib s kind raw field =
     (if kind = Some ''SIP_URI'' then validate_sip_destination (text_or_empty raw) field
      else if kind = Some ''PSTN_NUMBER'' then validate_pstn_destination lib s (text_or_empty raw) field
      else Inl (NO_DESTINATION_TYPE, field @ ''_type''))"

subsection \<open>Configuration\<close>

text \<open>\<open>^BY[0-9a-fA-F]{32}$\<close> and \<open>^SD[0-9a-fA-F]{32}$\<close>.\<close>

definition twilio_sid :: "string \<Rightarrow> string \<Rightarrow> bool" where
  "twilio_sid prefix t \<longleftrightarrow> starts_with prefix t \<and> length t = 34 \<and> list_all is_hex (drop 2 t)"

definition validate_byoc_trunk_sid :: "string option \<Rightarrow> telephony_error + string option" where
  "validate_byoc_trunk_sid raw =
     (let value = strip_text (text_or_empty raw)
      in if value = [] then Inr None
         else if \<not> twilio_sid ''BY'' value then Inl (NOT_A_TRUNK, ''byoc_trunk_sid'') else Inr (Some value))"

definition validate_sip_domain_sid :: "string option \<Rightarrow> telephony_error + string option" where
  "validate_sip_domain_sid raw =
     (let value = strip_text (text_or_empty raw)
      in if value = [] then Inr None
         else if \<not> twilio_sid ''SD'' value then Inl (NOT_A_DOMAIN, ''byoc_sip_domain_sid'') else Inr (Some value))"

text \<open>The schema lets only a whole number or nothing through.\<close>

definition validate_timeout :: "int option \<Rightarrow> telephony_error + int option" where
  "validate_timeout raw =
     (case raw of None \<Rightarrow> Inr None
      | Some n \<Rightarrow> if 10 \<le> n \<and> n \<le> 60 then Inr (Some n) else Inl (BAD_RING_TIME, ''human_transfer_timeout_seconds''))"

record telephony_data =
  td_mode :: "string option"
  td_public :: "string option"
  td_sip_domain :: "string option"
  td_trunk :: "string option"
  td_primary_type :: "string option"
  td_primary :: "string option"
  td_secondary_type :: "string option"
  td_secondary :: "string option"
  td_ring_seconds :: "int option"

definition upper_word :: "string option \<Rightarrow> string" where
  "upper_word t = map upper_char (strip_text (text_or_empty t))"

definition public_number_of :: "'n phone_library \<Rightarrow> string option \<Rightarrow> telephony_error + string option" where
  "public_number_of lib raw =
     (let t = strip_text (text_or_empty raw)
      in if t = [] then Inr None
         else case normalize_uk_phone lib t of
                Inl e \<Rightarrow> Inl (BAD_NUMBER e, ''public_business_number'')
              | Inr n \<Rightarrow> Inr (Some n))"

text \<open>The rules of each mode about the numbers and the trunk, in the order of the code.\<close>

definition mode_rules ::
  "string \<Rightarrow> string option \<Rightarrow> string option \<Rightarrow> string option \<Rightarrow> string option \<Rightarrow> telephony_error + unit" where
  "mode_rules mode ingress public domain trunk =
     (if mode = ''SIP_BYOC'' then
        (if \<not> has_text public then Inl (NO_PUBLIC_NUMBER, ''public_business_number'')
         else if domain = None then Inl (NO_SIP_DOMAIN, ''byoc_sip_domain_sid'') else Inr ())
      else if domain \<noteq> None \<or> trunk \<noteq> None then
        Inl (TRUNK_NOT_WANTED, if domain \<noteq> None then ''byoc_sip_domain_sid'' else ''byoc_trunk_sid'')
      else if mode = ''PSTN_FORWARD'' then
        (if \<not> has_text ingress then Inl (NO_COMAZ_NUMBER, ''telephony_mode'')
         else if \<not> has_text public then Inl (NO_PUBLIC_NUMBER, ''public_business_number'')
         else if public = ingress then Inl (SAME_NUMBERS, ''public_business_number'') else Inr ())
      else if has_text public \<and> public \<noteq> ingress then Inl (NUMBER_NOT_WANTED, ''public_business_number'')
      else Inr ())"

definition number_of_another :: "outreach \<Rightarrow> uid \<Rightarrow> string option \<Rightarrow> bool" where
  "number_of_another s g public \<longleftrightarrow>
     has_text public
     \<and> list_ex (\<lambda>c. cs_garage c \<noteq> g \<and> (cs_public_number c = public \<or> cs_voice_number c = public)) (or_settings s)"

text \<open>\<open>_destination\<close>: one human destination of the form, with its type.\<close>

definition form_destination ::
  "'n phone_library \<Rightarrow> outreach \<Rightarrow> string option list \<Rightarrow> string \<Rightarrow> string option \<Rightarrow> string option
    \<Rightarrow> telephony_error + (string \<times> string) option" where
  "form_destination lib s own prefix kind_text value_text =
     (let kind = non_empty (upper_word kind_text);
          raw = non_empty (strip_text (text_or_empty value_text));
          field = prefix @ ''_destination''
      in if kind = None \<and> raw = None then Inr None
         else checks (validate_destination lib s kind raw field) (\<lambda>value.
           if kind = Some ''PSTN_NUMBER'' \<and> Some value \<in> set (filter has_text own) then Inl (RINGS_COMAZ, field)
           else Inr (Some (the kind, value))))"

record telephony_values =
  tv_mode :: string
  tv_public :: "string option"
  tv_sip_domain :: "string option"
  tv_trunk :: "string option"
  tv_primary :: "(string \<times> string) option"
  tv_secondary :: "(string \<times> string) option"
  tv_ring_seconds :: "int option"

definition folded :: "string \<times> string \<Rightarrow> string \<times> string" where
  "folded d = (fst d, map lower_char (snd d))"

definition destination_rules ::
  "string \<Rightarrow> (string \<times> string) option \<Rightarrow> (string \<times> string) option \<Rightarrow> telephony_error + unit" where
  "destination_rules mode primary secondary =
     (if secondary \<noteq> None \<and> primary = None then Inl (NO_PRIMARY, ''human_primary_destination'')
      else if secondary \<noteq> None \<and> folded (the secondary) = folded (the primary) then
        Inl (SAME_AS_PRIMARY, ''human_secondary_destination'')
      else if mode \<in> {''SIP_BYOC'', ''PSTN_FORWARD''} \<and> primary = None then
        Inl (PRIMARY_REQUIRED, ''human_primary_destination'')
      else Inr ())"

definition validate_configuration ::
  "'n phone_library \<Rightarrow> outreach \<Rightarrow> uid \<Rightarrow> telephony_data \<Rightarrow> telephony_error + telephony_values" where
  "validate_configuration lib s g data =
     (let ingress = (case settings_of s g of None \<Rightarrow> None | Some c \<Rightarrow> cs_voice_number c);
          mode = upper_word (td_mode data)
      in if mode \<notin> {''SIP_BYOC'', ''PSTN_FORWARD'', ''NEW_COMAZ_NUMBER''} then Inl (BAD_MODE, ''telephony_mode'')
         else
           checks (public_number_of lib (td_public data)) (\<lambda>public.
           checks (validate_sip_domain_sid (td_sip_domain data)) (\<lambda>domain.
           checks (validate_byoc_trunk_sid (td_trunk data)) (\<lambda>trunk.
           checks (mode_rules mode ingress public domain trunk) (\<lambda>_.
           checks (require (\<not> number_of_another s g public) (NUMBER_TAKEN, ''public_business_number'')) (\<lambda>_.
           checks (form_destination lib s [public, ingress] ''human_primary'' (td_primary_type data) (td_primary data)) (\<lambda>primary.
           checks (form_destination lib s [public, ingress] ''human_secondary'' (td_secondary_type data) (td_secondary data)) (\<lambda>secondary.
           checks (destination_rules mode primary secondary) (\<lambda>_.
           checks (validate_timeout (td_ring_seconds data)) (\<lambda>ring.
             Inr \<lparr>tv_mode = mode, tv_public = public, tv_sip_domain = domain, tv_trunk = trunk,
                  tv_primary = primary, tv_secondary = secondary, tv_ring_seconds = ring\<rparr>))))))))))"

subsection \<open>Saving the settings\<close>

text \<open>The row of a business, created on first use.\<close>

definition ensure_settings :: "uid \<Rightarrow> outreach \<Rightarrow> outreach" where
  "ensure_settings g s = (if settings_of s g = None then s\<lparr>or_settings := or_settings s @ [blank_settings g]\<rparr> else s)"

definition change_settings :: "uid \<Rightarrow> (comm_settings \<Rightarrow> comm_settings) \<Rightarrow> outreach \<Rightarrow> outreach" where
  "change_settings g f s = s\<lparr>or_settings := map (\<lambda>c. if cs_garage c = g then f c else c) (or_settings s)\<rparr>"

definition store_telephony :: "telephony_values \<Rightarrow> comm_settings \<Rightarrow> comm_settings" where
  "store_telephony v c =
     c\<lparr>cs_mode := Some (tv_mode v), cs_public_number := tv_public v, cs_sip_domain := tv_sip_domain v, cs_trunk := tv_trunk v,
       cs_primary_type := map_option fst (tv_primary v), cs_primary := map_option snd (tv_primary v),
       cs_secondary_type := map_option fst (tv_secondary v), cs_secondary := map_option snd (tv_secondary v),
       cs_ring_seconds := tv_ring_seconds v\<rparr>"

definition set_telephony :: "'n phone_library \<Rightarrow> uid \<Rightarrow> telephony_data \<Rightarrow> outreach \<Rightarrow> (telephony_error + unit) \<times> outreach" where
  "set_telephony lib g data s =
     (let s' = ensure_settings g s
      in case validate_configuration lib s' g data of
           Inl e \<Rightarrow> (Inl e, s)
         | Inr v \<Rightarrow> (Inr (), change_settings g (store_telephony v) s'))"

definition set_voice_routing ::
  "'n phone_library \<Rightarrow> uid \<Rightarrow> string option \<Rightarrow> string option \<Rightarrow> outreach \<Rightarrow> (telephony_error + unit) \<times> outreach" where
  "set_voice_routing lib g escalation fallback s =
     (let check = (\<lambda>field value. if has_text value then validate_pstn_destination lib s (the value) field else Inr []);
          kept = (\<lambda>value. if has_text value then value else None)
      in checked (check ''escalation_number'' escalation) s (\<lambda>_.
         checked (check ''fallback_number'' fallback) s (\<lambda>_.
           (Inr (), change_settings g (\<lambda>c. c\<lparr>cs_escalation := kept escalation, cs_fallback := kept fallback\<rparr>)
                      (ensure_settings g s)))))"

subsection \<open>The chain of people\<close>

definition transfer_timeout :: "outreach \<Rightarrow> uid \<Rightarrow> int" where
  "transfer_timeout s g =
     (case settings_of s g of
        None \<Rightarrow> 25
      | Some c \<Rightarrow> (case cs_ring_seconds c of None \<Rightarrow> 25 | Some n \<Rightarrow> if n = 0 then 25 else max 10 (min 60 n)))"

definition pstn_byoc_trunk :: "outreach \<Rightarrow> uid \<Rightarrow> string option" where
  "pstn_byoc_trunk s g =
     (case settings_of s g of
        None \<Rightarrow> None
      | Some c \<Rightarrow> if mode_of (Some c) \<noteq> ''SIP_BYOC'' then None else if has_text (cs_trunk c) then cs_trunk c else None)"

definition destination_when :: "bool \<Rightarrow> string option \<Rightarrow> string option \<Rightarrow> string \<Rightarrow> human_destination list" where
  "destination_when b kind value source =
     (if b \<and> has_text kind \<and> has_text value then [\<lparr>hd_kind = the kind, hd_value = the value, hd_source = source\<rparr>] else [])"

definition menu_destinations :: "phone_menu \<Rightarrow> human_destination list" where
  "menu_destinations m =
     destination_when True (Some ''PSTN_NUMBER'') (pm_fallback_target m) ''menu_fallback''
     @ (case find (\<lambda>o'. mo_action o' = HUMAN_TRANSFER \<and> has_text (mo_target o')) (pm_options m) of
          None \<Rightarrow> []
        | Some o' \<Rightarrow> destination_when True (Some ''PSTN_NUMBER'') (mo_target o') ''menu_option'')"

definition candidates :: "comm_settings option \<Rightarrow> phone_menu option \<Rightarrow> menu_option option \<Rightarrow> human_destination list" where
  "candidates c menu chosen =
     (let configured = (case c of None \<Rightarrow> False | Some c \<Rightarrow> has_text (cs_primary_type c) \<and> has_text (cs_primary c))
      in (case chosen of None \<Rightarrow> [] | Some o' \<Rightarrow> destination_when True (Some ''PSTN_NUMBER'') (mo_target o') ''option'')
         @ (case c of None \<Rightarrow> []
            | Some c \<Rightarrow> destination_when configured (cs_primary_type c) (cs_primary c) ''primary''
                       @ destination_when configured (cs_secondary_type c) (cs_secondary c) ''secondary'')
         @ (case menu of None \<Rightarrow> [] | Some m \<Rightarrow> menu_destinations m)
         @ (case c of None \<Rightarrow> []
            | Some c \<Rightarrow> destination_when (\<not> configured) (Some ''PSTN_NUMBER'') (cs_escalation c) ''escalation''
                       @ destination_when (\<not> configured) (Some ''PSTN_NUMBER'') (cs_fallback c) ''fallback''))"

definition dialable :: "'n phone_library \<Rightarrow> string list \<Rightarrow> human_destination \<Rightarrow> bool" where
  "dialable lib routed d \<longleftrightarrow>
     (if hd_kind d = ''SIP_URI'' then (case validate_sip_destination (hd_value d) ''destination'' of Inl _ \<Rightarrow> False | Inr _ \<Rightarrow> True)
      else if hd_kind d = ''PSTN_NUMBER'' then
        (case normalise_transfer_number lib (hd_value d) of Inl _ \<Rightarrow> False | Inr number \<Rightarrow> number \<notin> set routed)
      else False)"

definition destination_key :: "human_destination \<Rightarrow> string \<times> string" where
  "destination_key d = folded (hd_kind d, hd_value d)"

text \<open>The loop: \<open>seen\<close> are the keys met so far, \<open>n\<close> how many may still be added.\<close>

fun pick_destinations ::
  "(human_destination \<Rightarrow> bool) \<Rightarrow> (string \<times> string) list \<Rightarrow> nat \<Rightarrow> human_destination list \<Rightarrow> human_destination list" where
  "pick_destinations ok seen 0 ds = []"
| "pick_destinations ok seen (Suc n) [] = []"
| "pick_destinations ok seen (Suc n) (d # ds) =
     (if destination_key d \<in> set seen then pick_destinations ok seen (Suc n) ds
      else if \<not> ok d then pick_destinations ok (destination_key d # seen) (Suc n) ds
      else d # pick_destinations ok (destination_key d # seen) n ds)"

definition max_human_destinations :: nat where
  "max_human_destinations = 3"

definition human_destinations ::
  "'n phone_library \<Rightarrow> outreach \<Rightarrow> uid \<Rightarrow> phone_menu option \<Rightarrow> menu_option option \<Rightarrow> human_destination list" where
  "human_destinations lib s g menu chosen =
     pick_destinations (dialable lib (comaz_routed_numbers s)) [] max_human_destinations
       (candidates (settings_of s g) menu chosen)"

definition has_human_destination :: "'n phone_library \<Rightarrow> outreach \<Rightarrow> uid \<Rightarrow> phone_menu option \<Rightarrow> bool" where
  "has_human_destination lib s g menu \<longleftrightarrow> human_destinations lib s g menu None \<noteq> []"

definition refer_uri :: "human_destination \<Rightarrow> string" where
  "refer_uri d = (if hd_kind d = ''SIP_URI'' then hd_value d else ''tel:'' @ hd_value d)"

subsection \<open>Attempts to put a caller through\<close>

definition transfer_provider :: string where
  "transfer_provider = ''comaz_human_transfer''"

definition is_attempt :: "uid \<Rightarrow> string \<Rightarrow> comm_log \<Rightarrow> bool" where
  "is_attempt g call_sid l \<longleftrightarrow> lg_garage l = g \<and> lg_provider l = transfer_provider \<and> lg_call_sid l = Some call_sid"

definition attempt_mark :: "int \<Rightarrow> string" where
  "attempt_mark index = show_int index @ '':''"

definition body_starts :: "string \<Rightarrow> comm_log \<Rightarrow> bool" where
  "body_starts p l \<longleftrightarrow> (case lg_body l of None \<Rightarrow> False | Some b \<Rightarrow> starts_with p b)"

definition insert_log :: "comm_log \<Rightarrow> outreach \<Rightarrow> outreach" where
  "insert_log row s = s\<lparr>or_logs := or_logs s @ [row\<lparr>lg_id := or_next s\<rparr>], or_next := or_next s + 1\<rparr>"

definition record_transfer_attempt :: "uid \<Rightarrow> string \<Rightarrow> string \<Rightarrow> human_destination \<Rightarrow> int \<Rightarrow> world \<Rightarrow> world" where
  "record_transfer_attempt g call_sid caller d index w =
     (if call_sid \<noteq> [] \<and> list_ex (\<lambda>l. is_attempt g call_sid l \<and> body_starts (attempt_mark index) l) (or_logs (wd_book w)) then w
      else commit (on_book (insert_log
        ((blank_log g VOICE OUTBOUND unrelated)
           \<lparr>lg_provider := transfer_provider, lg_call_sid := non_empty call_sid, lg_from := non_empty caller,
            lg_to := Some (hd_value d), lg_status := ''dialling'', lg_trigger := Some ''HUMAN_TRANSFER'',
            lg_body := Some (attempt_mark index @ hd_source d @ '':'' @ hd_kind d)\<rparr>)) w))"

text \<open>How an attempt ended: the newest one still ringing, of the given index when there is one.\<close>

definition finish_transfer_attempt ::
  "uid \<Rightarrow> string \<Rightarrow> string \<Rightarrow> int option \<Rightarrow> string option \<Rightarrow> string option \<Rightarrow> world \<Rightarrow> world" where
  "finish_transfer_attempt g call_sid dial_status index dial_call_sid sip_code w =
     (let ringing = filter (\<lambda>l. is_attempt g call_sid l \<and> lg_status l = ''dialling''
                              \<and> (case index of None \<Rightarrow> True | Some i \<Rightarrow> body_starts (attempt_mark i) l)) (or_logs (wd_book w))
      in if ringing = [] then w
         else let l = last ringing;
                  l' = l\<lparr>lg_status := take 30 (if dial_status = [] then ''unknown'' else dial_status),
                         lg_error_code := (if has_text sip_code then map_option (take 40) sip_code else lg_error_code l),
                         lg_external := (if has_text dial_call_sid \<and> log_by_external (wd_book w) dial_call_sid = None
                                         then dial_call_sid else lg_external l)\<rparr>
              in commit (on_book (put_log l') w))"

definition close_open_transfers :: "string option \<Rightarrow> world \<Rightarrow> world" where
  "close_open_transfers call_sid w =
     (let open_row = (\<lambda>l. lg_provider l = transfer_provider \<and> lg_call_sid l = call_sid \<and> lg_status l = ''dialling'')
      in if \<not> has_text call_sid \<or> \<not> list_ex open_row (or_logs (wd_book w)) then w
         else commit (on_book (\<lambda>s. s\<lparr>or_logs := map (\<lambda>l. if open_row l then l\<lparr>lg_status := ''ended''\<rparr> else l) (or_logs s)\<rparr>) w))"

text \<open>\<open>LOOP_WINDOW\<close>, ten minutes in microseconds.\<close>

definition loop_window :: int where
  "loop_window = 600 * 1000000"

definition transfer_loop_suspected :: "(uid \<Rightarrow> instant) \<Rightarrow> outreach \<Rightarrow> uid \<Rightarrow> string \<Rightarrow> instant \<Rightarrow> bool" where
  "transfer_loop_suspected written s g caller now \<longleftrightarrow>
     caller \<noteq> []
     \<and> list_ex (\<lambda>l. lg_garage l = g \<and> lg_provider l = transfer_provider \<and> lg_status l = ''dialling''
                   \<and> now - loop_window \<le> written (lg_id l)
                   \<and> (lg_from l = Some caller \<or> lg_to l = Some caller)) (or_logs s)"

subsection \<open>Lemmas\<close>

lemmas telephony_eval [eval_simps] =
  text_or_empty_def non_empty_def ends_with_def blocked_national_prefixes_def normalise_transfer_number_def mode_of_def
  settings_numbers_def own_numbers_def comaz_routed_numbers_def

lemma text_or_empty_simps [simp]: "text_or_empty None = []" "text_or_empty (Some t) = t"
  by (simp_all add: text_or_empty_def)

lemma settings_numbers_iff [simp]:
  "n \<in> set (settings_numbers c) \<longleftrightarrow> n \<noteq> [] \<and> (cs_voice_number c = Some n \<or> cs_public_number c = Some n)"
  by (cases "cs_voice_number c"; cases "cs_public_number c") (auto simp: settings_numbers_def)

lemma comaz_routed_numbers_iff:
  "n \<in> set (comaz_routed_numbers s) \<longleftrightarrow>
     n \<noteq> [] \<and> (\<exists>c \<in> set (or_settings s). cs_voice_number c = Some n \<or> cs_public_number c = Some n)"
  by (auto simp: comaz_routed_numbers_def)

lemma pick_destinations_length: "length (pick_destinations ok seen n ds) \<le> n"
  by (induction ok seen n ds rule: pick_destinations.induct) auto

lemma pick_destinations_in: "d \<in> set (pick_destinations ok seen n ds) \<Longrightarrow> ok d \<and> d \<in> set ds"
  by (induction ok seen n ds rule: pick_destinations.induct) (auto split: if_splits)

lemma pick_destinations_unseen:
  "k \<in> set seen \<Longrightarrow> k \<notin> destination_key ` set (pick_destinations ok seen n ds)"
  by (induction ok seen n ds rule: pick_destinations.induct) auto

lemma pick_destinations_distinct: "distinct (map destination_key (pick_destinations ok seen n ds))"
proof (induction ok seen n ds rule: pick_destinations.induct)
  case (3 ok seen n d ds)
  then show ?case using pick_destinations_unseen [of "destination_key d" "destination_key d # seen" ok n ds] by simp
qed simp_all

lemma pick_destinations_first: "ok d \<Longrightarrow> 0 < n \<Longrightarrow> destination_key d \<notin> set seen \<Longrightarrow> pick_destinations ok seen n (d # ds) \<noteq> []"
  by (cases n) simp_all

lemma pick_destinations_some:
  assumes "d \<in> set ds" "0 < n" "destination_key d \<notin> set seen"
    and "\<And>d'. d' \<in> set ds \<Longrightarrow> destination_key d' = destination_key d \<Longrightarrow> ok d'"
  shows "pick_destinations ok seen n ds \<noteq> []"
  using assms
proof (induction ds arbitrary: seen)
  case (Cons e ds)
  then obtain m where n: "n = Suc m" by (cases n) auto
  show ?case
  proof (cases "destination_key e = destination_key d")
    case True
    with Cons.prems n show ?thesis by simp
  next
    case False
    with Cons.prems(1) have d: "d \<in> set ds" by auto
    have rest: "pick_destinations ok seen' n ds \<noteq> []" if "destination_key d \<notin> set seen'" for seen'
      using Cons.IH [OF d Cons.prems(2) that] Cons.prems(4) by simp
    show ?thesis using rest [of seen] rest [of "destination_key e # seen"] Cons.prems(3) False n by simp
  qed
qed simp

lemma pick_destinations_whole:
  assumes "\<forall>d \<in> set ds. ok d" "distinct (map destination_key ds)" "destination_key ` set ds \<inter> set seen = {}"
  shows "pick_destinations ok seen n ds = take n ds"
  using assms by (induction ok seen n ds rule: pick_destinations.induct) auto

end
