(* ===== verification/Phone_Menu.thy ===== *)
theory Phone_Menu
  imports Telephony
begin

text \<open>
  The phone menu an owner sets up: the option rules of \<open>communications/ivr/actions.py\<close> and the reading and
  saving of \<open>communications/ivr/service.py\<close>. What the form's JSON schema lets through is
  \<open>raw_option\<close> and \<open>menu_data\<close>.
\<close>

datatype menu_problem =
  BAD_DIGIT | BAD_ACTION | BAD_LABEL | LONG_PROMPT | TARGET_NOT_WANTED | BAD_TARGET telephony_problem
| REPEATED_DIGIT | LONG_GREETING | BAD_FALLBACK | TARGET_RINGS_COMAZ | BAD_ATTEMPTS | NO_OPTIONS
| NO_TARGET | NO_FALLBACK_NUMBER

type_synonym menu_error = "menu_problem \<times> string"

record raw_option =
  ro_digit :: string
  ro_label :: string
  ro_prompt :: "string option"
  ro_action :: string
  ro_target :: "string option"

record menu_data =
  md_enabled :: bool
  md_greeting :: "string option"
  md_options :: "raw_option list"
  md_fallback_action :: string
  md_fallback_target :: "string option"
  md_max_attempts :: int

subsection \<open>Actions\<close>

text \<open>The registry: the key of each action, whether it takes a number and whether it ends the menu.\<close>

definition action_key :: "menu_action \<Rightarrow> string" where
  "action_key a =
     (case a of AI_BOOKING \<Rightarrow> ''AI_BOOKING'' | AI_FAQ \<Rightarrow> ''AI_FAQ'' | HUMAN_TRANSFER \<Rightarrow> ''HUMAN_TRANSFER''
      | REPEAT_MENU \<Rightarrow> ''REPEAT_MENU'')"

definition all_actions :: "menu_action list" where
  "all_actions = [AI_BOOKING, AI_FAQ, HUMAN_TRANSFER, REPEAT_MENU]"

definition action_of_key :: "string \<Rightarrow> menu_action option" where
  "action_of_key t = find (\<lambda>a. action_key a = t) all_actions"

definition takes_target :: "menu_action \<Rightarrow> bool" where
  "takes_target a \<longleftrightarrow> a = HUMAN_TRANSFER"

definition terminal_action :: "menu_action \<Rightarrow> bool" where
  "terminal_action a \<longleftrightarrow> a \<noteq> REPEAT_MENU"

definition is_ai_action :: "menu_action \<Rightarrow> bool" where
  "is_ai_action a \<longleftrightarrow> a = AI_BOOKING \<or> a = AI_FAQ"

definition dtmf_digits :: "string list" where
  "dtmf_digits = [''0'', ''1'', ''2'', ''3'', ''4'', ''5'', ''6'', ''7'', ''8'', ''9'']"

subsection \<open>Options\<close>

definition option_field :: "nat \<Rightarrow> string \<Rightarrow> string" where
  "option_field i name = ''options.'' @ show_nat i @ ''.'' @ name"

definition validate_option :: "'n phone_library \<Rightarrow> nat \<Rightarrow> raw_option \<Rightarrow> menu_error + menu_option" where
  "validate_option lib i raw =
     (let digit = strip_text (ro_digit raw);
          label = strip_text (ro_label raw);
          prompt = non_empty (strip_text (text_or_empty (ro_prompt raw)));
          raw_target = strip_text (text_or_empty (ro_target raw))
      in if digit \<notin> set dtmf_digits then Inl (BAD_DIGIT, option_field i ''digit'')
         else case action_of_key (map upper_char (strip_text (ro_action raw))) of
           None \<Rightarrow> Inl (BAD_ACTION, option_field i ''action'')
         | Some a \<Rightarrow>
             if label = [] \<or> 60 < length label then Inl (BAD_LABEL, option_field i ''label'')
             else if prompt \<noteq> None \<and> 200 < length (the prompt) then Inl (LONG_PROMPT, option_field i ''prompt'')
             else if raw_target = [] then
               Inr \<lparr>mo_digit = digit, mo_label = label, mo_prompt = prompt, mo_action = a, mo_target = None\<rparr>
             else if \<not> takes_target a then Inl (TARGET_NOT_WANTED, option_field i ''target'')
             else case normalise_transfer_number lib raw_target of
               Inl p \<Rightarrow> Inl (BAD_TARGET p, option_field i ''target'')
             | Inr number \<Rightarrow>
                 Inr \<lparr>mo_digit = digit, mo_label = label, mo_prompt = prompt, mo_action = a, mo_target = Some number\<rparr>)"

fun validate_each :: "'n phone_library \<Rightarrow> nat \<Rightarrow> raw_option list \<Rightarrow> menu_error + menu_option list" where
  "validate_each lib i [] = Inr []"
| "validate_each lib i (raw # raws) =
     checks (validate_option lib i raw) (\<lambda>o'. checks (validate_each lib (Suc i) raws) (\<lambda>os. Inr (o' # os)))"

definition digit_order :: "menu_option \<Rightarrow> nat" where
  "digit_order o' = digits_value (mo_digit o')"

definition validate_options :: "'n phone_library \<Rightarrow> raw_option list \<Rightarrow> menu_error + menu_option list" where
  "validate_options lib raws =
     checks (validate_each lib 0 raws) (\<lambda>os.
       if \<not> distinct (map mo_digit os) then Inl (REPEATED_DIGIT, ''options'') else Inr (sort_key digit_order os))"

subsection \<open>Reading\<close>

definition menu_of :: "outreach \<Rightarrow> uid \<Rightarrow> phone_menu option" where
  "menu_of s g = find (\<lambda>m. pm_garage m = g) (or_menus s)"

definition active_menu :: "outreach \<Rightarrow> uid \<Rightarrow> phone_menu option" where
  "active_menu s g =
     (case menu_of s g of None \<Rightarrow> None | Some m \<Rightarrow> if \<not> pm_enabled m \<or> pm_options m = [] then None else Some m)"

definition platform_transfer_number :: "outreach \<Rightarrow> uid \<Rightarrow> string option" where
  "platform_transfer_number s g =
     (case settings_of s g of
        None \<Rightarrow> None
      | Some c \<Rightarrow>
          if has_text (cs_primary_type c) \<and> has_text (cs_primary c) then cs_primary c
          else if has_text (cs_escalation c) then cs_escalation c
          else if has_text (cs_fallback c) then cs_fallback c else None)"

definition transfer_target ::
  "'n phone_library \<Rightarrow> outreach \<Rightarrow> uid \<Rightarrow> phone_menu option \<Rightarrow> menu_option option \<Rightarrow> string option" where
  "transfer_target lib s g menu chosen =
     (case human_destinations lib s g menu chosen of [] \<Rightarrow> None | d # _ \<Rightarrow> Some (hd_value d))"

definition option_for_digit :: "phone_menu \<Rightarrow> string \<Rightarrow> menu_option option" where
  "option_for_digit m digit = find (\<lambda>o'. mo_digit o' = digit) (pm_options m)"

subsection \<open>Saving\<close>

fun reject_comaz_numbers :: "string list \<Rightarrow> nat \<Rightarrow> menu_option list \<Rightarrow> string option \<Rightarrow> menu_error + unit" where
  "reject_comaz_numbers routed i [] fallback_target =
     (if has_text fallback_target \<and> the fallback_target \<in> set routed
      then Inl (TARGET_RINGS_COMAZ, ''fallback_target'') else Inr ())"
| "reject_comaz_numbers routed i (o' # os) fallback_target =
     (if has_text (mo_target o') \<and> the (mo_target o') \<in> set routed
      then Inl (TARGET_RINGS_COMAZ, option_field i ''target'')
      else reject_comaz_numbers routed (Suc i) os fallback_target)"

text \<open>An enabled menu has options, and a number for every transfer it offers.\<close>

fun transfers_have_numbers :: "bool \<Rightarrow> nat \<Rightarrow> menu_option list \<Rightarrow> menu_error + unit" where
  "transfers_have_numbers by_default i [] = Inr ()"
| "transfers_have_numbers by_default i (o' # os) =
     (if mo_action o' = HUMAN_TRANSFER \<and> \<not> (has_text (mo_target o') \<or> by_default)
      then Inl (NO_TARGET, option_field i ''target'') else transfers_have_numbers by_default (Suc i) os)"

definition default_transfer :: "outreach \<Rightarrow> uid \<Rightarrow> menu_option list \<Rightarrow> string option \<Rightarrow> bool" where
  "default_transfer s g os fallback_target \<longleftrightarrow>
     has_text fallback_target \<or> has_text (platform_transfer_number s g)
     \<or> list_ex (\<lambda>o'. mo_action o' = HUMAN_TRANSFER \<and> has_text (mo_target o')) os"

definition enabling_rules ::
  "outreach \<Rightarrow> uid \<Rightarrow> menu_option list \<Rightarrow> menu_action \<Rightarrow> string option \<Rightarrow> menu_error + unit" where
  "enabling_rules s g os fallback_action fallback_target =
     (let by_default = default_transfer s g os fallback_target
      in if os = [] then Inl (NO_OPTIONS, ''options'')
         else checks (transfers_have_numbers by_default 0 os) (\<lambda>_.
           if fallback_action = HUMAN_TRANSFER \<and> \<not> by_default then Inl (NO_FALLBACK_NUMBER, ''fallback_target'')
           else Inr ()))"

definition fallback_action_of :: "string \<Rightarrow> menu_error + menu_action" where
  "fallback_action_of raw =
     (case action_of_key (map upper_char (if raw = [] then ''HUMAN_TRANSFER'' else raw)) of
        None \<Rightarrow> Inl (BAD_FALLBACK, ''fallback_action'')
      | Some a \<Rightarrow> if terminal_action a then Inr a else Inl (BAD_FALLBACK, ''fallback_action''))"

definition fallback_number :: "'n phone_library \<Rightarrow> string option \<Rightarrow> menu_error + string option" where
  "fallback_number lib raw =
     (let t = strip_text (text_or_empty raw)
      in if t = [] then Inr None
         else case normalise_transfer_number lib t of
                Inl p \<Rightarrow> Inl (BAD_TARGET p, ''fallback_target'')
              | Inr n \<Rightarrow> Inr (Some n))"

definition put_menu :: "phone_menu \<Rightarrow> outreach \<Rightarrow> outreach" where
  "put_menu m s =
     (if menu_of s (pm_garage m) = None then s\<lparr>or_menus := or_menus s @ [m]\<rparr>
      else s\<lparr>or_menus := map (\<lambda>x. if pm_garage x = pm_garage m then m else x) (or_menus s)\<rparr>)"

definition menu_from :: "'n phone_library \<Rightarrow> outreach \<Rightarrow> uid \<Rightarrow> menu_data \<Rightarrow> menu_error + phone_menu" where
  "menu_from lib s g data =
     checks (validate_options lib (md_options data)) (\<lambda>os.
     let greeting = non_empty (strip_text (text_or_empty (md_greeting data)))
     in if greeting \<noteq> None \<and> 500 < length (the greeting) then Inl (LONG_GREETING, ''greeting'')
        else
          checks (fallback_action_of (md_fallback_action data)) (\<lambda>fallback_action.
          checks (fallback_number lib (md_fallback_target data)) (\<lambda>fallback_target.
          checks (reject_comaz_numbers (comaz_routed_numbers s) 0 os fallback_target) (\<lambda>_.
          checks (require (1 \<le> md_max_attempts data \<and> md_max_attempts data \<le> 5) (BAD_ATTEMPTS, ''max_attempts'')) (\<lambda>_.
          checks (if md_enabled data then enabling_rules s g os fallback_action fallback_target else Inr ()) (\<lambda>_.
            Inr \<lparr>pm_garage = g, pm_enabled = md_enabled data, pm_greeting = greeting, pm_options = os,
                 pm_fallback_action = fallback_action, pm_fallback_target = fallback_target,
                 pm_max_attempts = md_max_attempts data\<rparr>))))))"

definition update_menu :: "'n phone_library \<Rightarrow> uid \<Rightarrow> menu_data \<Rightarrow> world \<Rightarrow> (menu_error + phone_menu) \<times> world" where
  "update_menu lib g data w =
     (case menu_from lib (wd_book w) g data of
        Inl e \<Rightarrow> (Inl e, w)
      | Inr m \<Rightarrow> (Inr m, commit (on_book (put_menu m) w)))"

text \<open>\<open>VoiceMenu.put\<close>: owners only; what is wrong is a 422 at its field.\<close>

definition put_voice_menu :: "'n phone_library \<Rightarrow> bool \<Rightarrow> uid \<Rightarrow> menu_data \<Rightarrow> world \<Rightarrow> (http_error + phone_menu) \<times> world" where
  "put_voice_menu lib is_owner g data w =
     (if \<not> is_owner then (Inl (Abort 403 ''owners only''), w)
      else case update_menu lib g data w of
        (Inl (_, field), w') \<Rightarrow> (Inl (Abort 422 field), w')
      | (Inr m, w') \<Rightarrow> (Inr m, w'))"

end
