(* ===== verification/Ai_Calls.thy ===== *)
theory Ai_Calls
  imports Phone_Menu
begin

text \<open>
  Handing a call over to the assistant: the signed handoff of \<open>ai_voice/sip_handoff.py\<close>, the business a
  SIP call is for (\<open>ai_voice/tenant.py\<close>) and the webhook that accepts it (\<open>ai_voice/routes.py\<close>). The
  keyed hash, the identifiers of businesses as texts and OpenAI's answer to an accepted call are arguments
  (\<open>ai_config\<close>). The clock is in microseconds, the time stamp of a handoff in whole seconds.
\<close>

record ai_config =
  av_enabled :: bool
  av_api_key :: "string option"
  av_webhook_secret :: "string option"
  av_project :: "string option"
  av_signing_secret :: "string option"
  av_secret_key :: string
  av_hmac :: "string \<Rightarrow> string \<Rightarrow> string"
  av_id_text :: "uid \<Rightarrow> string"
  av_id_of_text :: "string \<Rightarrow> uid option"
  av_accepts :: "string \<Rightarrow> bool"

subsection \<open>Configuration\<close>

definition ai_voice_available :: "ai_config \<Rightarrow> bool" where
  "ai_voice_available ai \<longleftrightarrow> av_enabled ai \<and> has_text (av_api_key ai) \<and> has_text (av_project ai)"

definition ai_webhook_ready :: "ai_config \<Rightarrow> bool" where
  "ai_webhook_ready ai \<longleftrightarrow> av_enabled ai \<and> has_text (av_api_key ai) \<and> has_text (av_webhook_secret ai)"

subsection \<open>Percent escapes\<close>

definition plain_url_char :: "char \<Rightarrow> bool" where
  "plain_url_char c \<longleftrightarrow> is_letter c \<or> is_digit c \<or> c \<in> set ''_.-~''"

definition hex_digit :: "nat \<Rightarrow> char" where
  "hex_digit n = char_of (if n < 10 then 48 + n else 55 + n)"

definition escape_char :: "char \<Rightarrow> string" where
  "escape_char c =
     (if plain_url_char c then [c] else [CHR 0x25, hex_digit (of_char c div 16), hex_digit (of_char c mod 16)])"

text \<open>\<open>quote(t, safe='')\<close> and \<open>unquote\<close> on ASCII texts.\<close>

definition quote :: "string \<Rightarrow> string" where
  "quote t = concat (map escape_char t)"

fun unquote :: "string \<Rightarrow> string" where
  "unquote (c # a # b # t) =
     (if c = CHR 0x25 \<and> hex_value a \<noteq> None \<and> hex_value b \<noteq> None
      then char_of (16 * the (hex_value a) + the (hex_value b)) # unquote t
      else c # unquote (a # b # t))"
| "unquote t = t"

subsection \<open>The handoff\<close>

record handoff =
  ho_garage :: string
  ho_call :: string
  ho_route :: string
  ho_caller :: string

type_synonym sip_headers = "(string \<times> string option) list"

text \<open>\<open>sip_header\<close>: the first header of that name, whatever its case.\<close>

definition sip_header :: "sip_headers \<Rightarrow> string \<Rightarrow> string option" where
  "sip_header hs name =
     (case find (\<lambda>h. map lower_char (fst h) = map lower_char name) hs of None \<Rightarrow> None | Some h \<Rightarrow> snd h)"

definition signing_key :: "ai_config \<Rightarrow> string" where
  "signing_key ai =
     av_hmac ai (if has_text (av_signing_secret ai) then the (av_signing_secret ai) else av_secret_key ai)
       ''comaz-voice-sip-handoff-v1''"

definition handoff_message :: "string list \<Rightarrow> string" where
  "handoff_message parts = join_texts ''|'' (''v1'' # parts)"

definition handoff_signature :: "ai_config \<Rightarrow> string list \<Rightarrow> string" where
  "handoff_signature ai parts = av_hmac ai (signing_key ai) (handoff_message parts)"

definition drop_plus :: "string \<Rightarrow> string" where
  "drop_plus t = dropWhile (\<lambda>c. c = CHR ''+'') t"

definition max_age_seconds :: int where
  "max_age_seconds = 300"

definition handoff_headers :: "ai_config \<Rightarrow> string \<Rightarrow> string \<Rightarrow> string \<Rightarrow> string \<Rightarrow> instant \<Rightarrow> (string \<times> string) list" where
  "handoff_headers ai g call route caller now =
     (let ts = show_int (now div 1000000); bare = drop_plus caller
      in [(''X-CoMaz-Garage'', g), (''X-CoMaz-Call'', call), (''X-CoMaz-Route'', route), (''X-CoMaz-Caller'', bare),
          (''X-CoMaz-Ts'', ts), (''X-CoMaz-Sig'', handoff_signature ai [g, call, route, bare, ts])])"

definition openai_sip_uri :: "ai_config \<Rightarrow> string \<Rightarrow> string \<Rightarrow> string \<Rightarrow> string \<Rightarrow> instant \<Rightarrow> string option" where
  "openai_sip_uri ai g call route caller now =
     (if \<not> has_text (av_project ai) then None
      else Some (''sip:'' @ the (av_project ai) @ ''@sip.api.openai.com;transport=tls?''
                 @ join_texts ''&'' (map (\<lambda>(name, value). name @ ''='' @ quote value) (handoff_headers ai g call route caller now))))"

datatype handoff_reason = BAD_SIGNATURE | BAD_TIMESTAMP | HANDOFF_EXPIRED | INCOMPLETE

text \<open>\<open>verify\<close>: nothing when the call carries no signature at all.\<close>

definition verify_handoff :: "ai_config \<Rightarrow> sip_headers \<Rightarrow> instant \<Rightarrow> handoff_reason + handoff option" where
  "verify_handoff ai hs now =
     (let sig = sip_header hs ''X-CoMaz-Sig'';
          value = (\<lambda>name. strip_text (unquote (text_or_empty (sip_header hs name))))
      in if \<not> has_text sig then Inr None
         else
           let g = value ''X-CoMaz-Garage''; call = value ''X-CoMaz-Call''; route = value ''X-CoMaz-Route'';
               caller = drop_plus (value ''X-CoMaz-Caller''); ts = value ''X-CoMaz-Ts''
           in if handoff_signature ai [g, call, route, caller, ts] \<noteq> map lower_char (strip_text (the sig)) then Inl BAD_SIGNATURE
              else case parse_int ts of
                None \<Rightarrow> Inl BAD_TIMESTAMP
              | Some seconds \<Rightarrow>
                  if max_age_seconds * 1000000 < \<bar>now - seconds * 1000000\<bar> then Inl HANDOFF_EXPIRED
                  else if g = [] \<or> call = [] \<or> route = [] then Inl INCOMPLETE
                  else Inr (Some \<lparr>ho_garage = g, ho_call = call, ho_route = route,
                                  ho_caller = (if caller = [] then [] else CHR ''+'' # caller)\<rparr>))"

subsection \<open>Calls that come over a trunk\<close>

definition resolve_business_for_sip_call :: "'n phone_library \<Rightarrow> outreach \<Rightarrow> sip_headers \<Rightarrow> uid option" where
  "resolve_business_for_sip_call lib s hs =
     (let diverted = phone_from_sip_uri (sip_header hs ''Diversion'');
          number = (if has_text diverted then diverted else phone_from_sip_uri (sip_header hs ''To''))
      in if \<not> has_text number then None
         else case normalize_uk_phone lib (the number) of Inl _ \<Rightarrow> None | Inr n \<Rightarrow> resolve_garage_by_voice_number s n)"

definition caller_number_for_sip_call :: "'n phone_library \<Rightarrow> sip_headers \<Rightarrow> string" where
  "caller_number_for_sip_call lib hs =
     (let number = phone_from_sip_uri (sip_header hs ''From'')
      in if \<not> has_text number then []
         else case normalize_uk_phone lib (the number) of Inl _ \<Rightarrow> the number | Inr n \<Rightarrow> n)"

subsection \<open>The webhook\<close>

text \<open>What OpenAI is asked to do with a call, and the agent started for it.\<close>

datatype agent_action =
  ACCEPT_CALL string uid string
| REJECT_CALL string "int option"
| START_AGENT string uid string string bool

record ai_event =
  ae_type :: string
  ae_call_id :: string
  ae_headers :: sip_headers

definition ai_leg :: "uid \<Rightarrow> string \<Rightarrow> comm_log \<Rightarrow> bool" where
  "ai_leg g call l \<longleftrightarrow> lg_garage l = g \<and> lg_provider l = ''openai'' \<and> lg_call_sid l = Some call"

text \<open>Whose call it is, who calls, by which route, and the menu call it belongs to; \<open>None\<close> when it is replayed.\<close>

definition identify_call ::
  "'n phone_library \<Rightarrow> ai_config \<Rightarrow> outreach \<Rightarrow> sip_headers \<Rightarrow> handoff option
    \<Rightarrow> (uid option \<times> string \<times> string \<times> string option) option" where
  "identify_call lib ai s hs ho =
     (case ho of
        None \<Rightarrow> Some (resolve_business_for_sip_call lib s hs, caller_number_for_sip_call lib hs, ''DIRECT'', None)
      | Some ho \<Rightarrow>
          let g = av_id_of_text ai (ho_garage ho);
              caller = (if ho_caller ho \<noteq> [] then ho_caller ho else caller_number_for_sip_call lib hs)
          in if g \<noteq> None \<and> list_ex (ai_leg (the g) (ho_call ho)) (or_logs s) then None
             else Some (g, caller, ho_route ho, Some (ho_call ho)))"

definition ai_leg_row :: "uid \<Rightarrow> string \<Rightarrow> string option \<Rightarrow> string \<Rightarrow> sip_headers \<Rightarrow> comm_log" where
  "ai_leg_row g call_id menu_call caller hs =
     (blank_log g VOICE INBOUND unrelated)
       \<lparr>lg_provider := ''openai'', lg_external := Some call_id, lg_call_sid := menu_call, lg_from := non_empty caller,
        lg_to := non_empty (text_or_empty (sip_header hs ''To'')), lg_status := ''accepted''\<rparr>"

definition take_call ::
  "ai_config \<Rightarrow> ai_event \<Rightarrow> uid \<times> string \<times> string \<times> string option \<Rightarrow> world \<Rightarrow> agent_action list \<times> world" where
  "take_call ai ev call w =
     (case call of (g, caller, route, menu_call) \<Rightarrow>
        if \<not> garage_communications_enabled (wd_book w) g then ([REJECT_CALL (ae_call_id ev) None], w)
        else if \<not> av_accepts ai (ae_call_id ev) then
          ([ACCEPT_CALL (ae_call_id ev) g route, REJECT_CALL (ae_call_id ev) (Some 500)], w)
        else ([ACCEPT_CALL (ae_call_id ev) g route,
               START_AGENT (ae_call_id ev) g caller route (menu_call \<noteq> None)],
              commit (on_book (insert_log (ai_leg_row g (ae_call_id ev) menu_call caller (ae_headers ev))) w)))"

definition realtime_webhook ::
  "'n phone_library \<Rightarrow> ai_config \<Rightarrow> bool \<Rightarrow> ai_event \<Rightarrow> instant \<Rightarrow> world \<Rightarrow> int \<times> agent_action list \<times> world" where
  "realtime_webhook lib ai genuine ev now w =
     (if \<not> ai_webhook_ready ai then (503, [], w)
      else if \<not> genuine then (400, [], w)
      else if ae_type ev \<noteq> ''realtime.call.incoming'' then (200, [], w)
      else if log_by_external (wd_book w) (Some (ae_call_id ev)) \<noteq> None then (200, [], w)
      else case verify_handoff ai (ae_headers ev) now of
        Inl _ \<Rightarrow> (200, [REJECT_CALL (ae_call_id ev) None], w)
      | Inr ho \<Rightarrow>
          (case identify_call lib ai (wd_book w) (ae_headers ev) ho of
             None \<Rightarrow> (200, [REJECT_CALL (ae_call_id ev) None], w)
           | Some (None, _) \<Rightarrow> (200, [REJECT_CALL (ae_call_id ev) None], w)
           | Some (Some g, rest) \<Rightarrow> (case take_call ai ev (g, rest) w of (acts, w') \<Rightarrow> (200, acts, w'))))"

subsection \<open>Escapes are undone\<close>

lemma hex_value_hex_digit: "n < 16 \<Longrightarrow> hex_value (hex_digit n) = Some n"
  by (auto simp: hex_value_def hex_digit_def is_digit_def)

lemma unquote_plain: "c \<noteq> CHR 0x25 \<Longrightarrow> unquote (c # t) = c # unquote t"
  by (cases t; cases "tl t") auto

lemma unquote_quote_char: "unquote (escape_char c @ t) = c # unquote t"
proof (cases "plain_url_char c")
  case True
  then have "c \<noteq> CHR 0x25" by (auto simp: plain_url_char_def is_letter_def is_upper_def is_lower_def is_digit_def)
  with True show ?thesis by (simp add: escape_char_def unquote_plain)
next
  case False
  have "(of_char c :: nat) < 16 * 16" by simp
  then have "of_char c div 16 < (16 :: nat)" by (rule less_mult_imp_div_less)
  then show ?thesis using False by (simp add: escape_char_def hex_value_hex_digit)
qed

lemma unquote_quote [simp]: "unquote (quote t) = t"
proof -
  have "unquote (quote t @ u) = t @ unquote u" for u
    by (induction t) (simp_all add: quote_def unquote_quote_char)
  from this [of "[]"] show ?thesis by simp
qed

text \<open>A message with no bar inside its parts tells the parts apart.\<close>

lemma split_on_append: "sep \<notin> set t \<Longrightarrow> split_on sep (t @ sep # u) = t # split_on sep u"
  by (induction t) auto

lemma split_on_plain: "sep \<notin> set t \<Longrightarrow> split_on sep t = [t]"
  by (induction t) auto

lemma split_on_join:
  "ts \<noteq> [] \<Longrightarrow> (\<forall>t \<in> set ts. sep \<notin> set t) \<Longrightarrow> split_on sep (join_texts [sep] ts) = ts"
  by (induction "[sep]" ts rule: join_texts.induct) (simp_all add: split_on_plain split_on_append)

lemma length_split_on: "length (split_on sep t) = Suc (length (filter (\<lambda>c. c = sep) t))"
  by (induction t) (auto split: list.splits)

lemma bars_join:
  "ts \<noteq> [] \<Longrightarrow> length (filter (\<lambda>c. c = sep) (join_texts [sep] ts))
    = length ts - 1 + sum_list (map (\<lambda>t. length (filter (\<lambda>c. c = sep) t)) ts)"
  by (induction "[sep]" ts rule: join_texts.induct) auto

definition count_bars :: "string list \<Rightarrow> nat" where
  "count_bars ts = sum_list (map (\<lambda>t. length (filter (\<lambda>c. c = CHR ''|'') t)) ts)"

lemma count_bars_zero: "count_bars ts = 0 \<longleftrightarrow> (\<forall>t \<in> set ts. CHR ''|'' \<notin> set t)"
  by (auto simp: count_bars_def filter_empty_conv)

lemma bars_of_message: "length (filter (\<lambda>c. c = CHR ''|'') (handoff_message ps)) = length ps + count_bars ps"
  unfolding handoff_message_def by (subst bars_join) (simp_all add: count_bars_def)

lemma parts_of_message: "count_bars ps = 0 \<Longrightarrow> split_on CHR ''|'' (handoff_message ps) = ''v1'' # ps"
  unfolding handoff_message_def by (intro split_on_join) (auto simp: count_bars_zero)

lemma handoff_message_injective:
  assumes m: "handoff_message ps = handoff_message qs" and bare: "count_bars ps = 0" and n: "length ps = length qs"
  shows "ps = qs"
proof -
  have "length ps + count_bars ps = length qs + count_bars qs"
    unfolding bars_of_message [symmetric] m by (rule refl)
  with bare n have "count_bars qs = 0" by simp
  with parts_of_message [OF this] parts_of_message [OF bare] m show ?thesis by simp
qed

end
