(* ===== verification/Call_Flow.thy ===== *)
theory Call_Flow
  imports Ai_Calls Chat_Actions
begin

text \<open>
  A telephone call from the first ring to its end: the steps of the phone menu
  (\<open>communications/ivr/twiml.py\<close>), the webhooks that Twilio calls after each of them
  (\<open>communications/voice_webhooks.py\<close>) and the bridge to the spoken conversation
  (\<open>communications/voice_relay.py\<close>). A reply to Twilio is the list of its verbs; a verb that reports
  back carries the step it reports to with its parameters instead of the address with its query string.
  When a row was written is the argument \<open>cc_written\<close>.
\<close>

record 'n call_config =
  cc_comm :: "'n comm_config"
  cc_ai :: ai_config
  cc_relay :: bool
  cc_relay_url :: string
  cc_relay_builds :: "uid \<Rightarrow> bool"
  cc_written :: "uid \<Rightarrow> instant"

datatype leg = TRIED_AI | TRIED_HUMAN

datatype next_step =
  AFTER_MENU int int
| AFTER_AI menu_action "leg set"
| AFTER_TRANSFER "leg set" int "string option"

datatype verb =
  SAY string
| GATHER next_step string
| DIAL_SIP string next_step "int option"
| DIAL_NUMBER string "string option" next_step int
| RELAY string string "string option"
| HANG_UP
| REJECT_BUSY

type_synonym twiml = "verb list"

subsection \<open>The menu\<close>

definition option_prompt :: "menu_option \<Rightarrow> string" where
  "option_prompt o' =
     (if has_text (mo_prompt o') then the (mo_prompt o')
      else ''For '' @ mo_label o' @ '', press '' @ mo_digit o' @ ''.'')"

definition gather :: "phone_menu \<Rightarrow> int \<Rightarrow> int \<Rightarrow> string option \<Rightarrow> verb" where
  "gather m attempt repeated lead =
     GATHER (AFTER_MENU attempt repeated)
       (join_texts '' '' ((if has_text lead then [the lead] else []) @ map option_prompt (pm_options m)))"

definition menu_twiml :: "'n call_config \<Rightarrow> uid \<Rightarrow> phone_menu \<Rightarrow> twiml" where
  "menu_twiml cc g m =
     [gather m 1 0 (Some (if has_text (pm_greeting m) then the (pm_greeting m)
                          else ''Thanks for calling '' @ cf_business (cc_comm cc) g @ ''.''))]"

subsection \<open>Actions\<close>

text \<open>\<open>dial_human\<close>: rings one entry of the chain; \<open>None\<close> when the chain is shorter.\<close>

definition dial_human ::
  "'n call_config \<Rightarrow> uid \<Rightarrow> phone_menu option \<Rightarrow> menu_option option \<Rightarrow> string \<Rightarrow> string \<Rightarrow> leg set \<Rightarrow> nat \<Rightarrow> world
    \<Rightarrow> (twiml \<times> world) option" where
  "dial_human cc g menu picked call_sid caller tried index w =
     (let s = wd_book w;
          chain = human_destinations (cf_phones (cc_comm cc)) s g menu picked
      in if length chain \<le> index then None
         else
           let d = chain ! index;
               step = AFTER_TRANSFER (insert TRIED_HUMAN tried) (int index + 1) (map_option mo_digit picked);
               seconds = transfer_timeout s g
           in Some ([SAY (if index = 0 then ''Putting you through now.'' else ''Sorry for the wait. Trying someone else now.''),
                     (if hd_kind d = ''SIP_URI'' then DIAL_SIP (hd_value d) step (Some seconds)
                      else DIAL_NUMBER (hd_value d) (pstn_byoc_trunk s g) step seconds)],
                    record_transfer_attempt g call_sid caller d (int index) w))"

definition run_action ::
  "'n call_config \<Rightarrow> uid \<Rightarrow> phone_menu option \<Rightarrow> menu_action \<Rightarrow> menu_option option \<Rightarrow> string \<Rightarrow> string \<Rightarrow> leg set
    \<Rightarrow> instant \<Rightarrow> world \<Rightarrow> (twiml \<times> world) option" where
  "run_action cc g menu a picked call_sid caller tried now w =
     (if is_ai_action a then
        (if \<not> ai_voice_available (cc_ai cc) then None
         else case openai_sip_uri (cc_ai cc) (av_id_text (cc_ai cc) g) call_sid (action_key a) caller now of
                None \<Rightarrow> None
              | Some uri \<Rightarrow> Some ([DIAL_SIP uri (AFTER_AI a (insert TRIED_AI tried)) None], w))
      else if a = HUMAN_TRANSFER then dial_human cc g menu picked call_sid caller tried 0 w
      else None)"

subsection \<open>When nobody can take the call\<close>

definition callback_window :: int where
  "callback_window = 1800 * 1000000"

definition recent_open_callback :: "(uid \<Rightarrow> instant) \<Rightarrow> outreach \<Rightarrow> uid \<Rightarrow> string \<Rightarrow> instant \<Rightarrow> bool" where
  "recent_open_callback written s g caller now \<longleftrightarrow>
     list_ex (\<lambda>c. cb_garage c = g \<and> cb_phone c = caller \<and> cb_status c = CB_PENDING
                 \<and> now - callback_window \<le> written (cb_id c)) (or_callbacks s)"

definition callback_reason :: "string option \<Rightarrow> string" where
  "callback_reason detail =
     (let text = ''Phone menu: the caller couldn't be connected to the team or assistant.''
      in if has_text detail then take 1000 (text @ '' They needed: '' @ the detail) else text)"

definition closing_line :: string where
  "closing_line = ''Sorry, we can't take your call right now. We've noted your number and the team will call you back as soon as possible. Goodbye.''"

definition sorry_line :: string where
  "sorry_line = ''Sorry, we can't take your call right now. Please try again later. Goodbye.''"

definition close_with_callback ::
  "'n call_config \<Rightarrow> garage \<Rightarrow> string \<Rightarrow> string option \<Rightarrow> instant \<Rightarrow> db \<Rightarrow> world \<Rightarrow> twiml \<times> db \<times> world" where
  "close_with_callback cc g caller detail now d w =
     (if caller = [] then ([SAY sorry_line, HANG_UP], d, w)
      else if recent_open_callback (cc_written cc) (wd_book w) (g_id g) caller now then ([SAY closing_line, HANG_UP], d, w)
      else case create_callback_request (cc_comm cc) g (find_customer_by_phone d (g_id g) (Some caller)) caller
                  (Some (callback_reason detail)) None None d w of
             (_, d', w') \<Rightarrow> ([SAY closing_line, HANG_UP], d', w'))"

text \<open>The configured fallback, then a person, then the callback, without what was tried or is excluded.\<close>

definition fallback_candidates :: "phone_menu option \<Rightarrow> menu_action list" where
  "fallback_candidates menu =
     (let configured = (case menu of None \<Rightarrow> HUMAN_TRANSFER | Some m \<Rightarrow> pm_fallback_action m);
          picked = (if terminal_action configured then [configured] else [])
      in if HUMAN_TRANSFER \<in> set picked then picked else picked @ [HUMAN_TRANSFER])"

definition excluded :: "menu_action set \<Rightarrow> leg set \<Rightarrow> menu_action \<Rightarrow> bool" where
  "excluded exclude tried a \<longleftrightarrow>
     a \<in> exclude \<or> TRIED_AI \<in> tried \<and> is_ai_action a \<or> TRIED_HUMAN \<in> tried \<and> a = HUMAN_TRANSFER"

fun first_that_runs :: "('a \<Rightarrow> 'b option) \<Rightarrow> 'a list \<Rightarrow> 'b option" where
  "first_that_runs f [] = None"
| "first_that_runs f (a # as) = (case f a of None \<Rightarrow> first_that_runs f as | Some r \<Rightarrow> Some r)"

definition fallback ::
  "'n call_config \<Rightarrow> garage \<Rightarrow> phone_menu option \<Rightarrow> string \<Rightarrow> string \<Rightarrow> menu_action set \<Rightarrow> leg set \<Rightarrow> string option
    \<Rightarrow> instant \<Rightarrow> db \<Rightarrow> world \<Rightarrow> twiml \<times> db \<times> world" where
  "fallback cc g menu call_sid caller exclude tried detail now d w =
     (case first_that_runs (\<lambda>a. run_action cc (g_id g) menu a None call_sid caller tried now w)
             (filter (\<lambda>a. \<not> excluded exclude tried a) (fallback_candidates menu)) of
        Some (verbs, w') \<Rightarrow> (verbs, d, w')
      | None \<Rightarrow> close_with_callback cc g caller detail now d w)"

subsection \<open>A key was pressed\<close>

definition max_repeats :: int where
  "max_repeats = 3"

definition handle_selection ::
  "'n call_config \<Rightarrow> garage \<Rightarrow> phone_menu \<Rightarrow> string \<Rightarrow> string \<Rightarrow> string \<Rightarrow> int \<Rightarrow> int \<Rightarrow> instant \<Rightarrow> db \<Rightarrow> world
    \<Rightarrow> twiml \<times> db \<times> world" where
  "handle_selection cc g m call_sid caller digits attempt repeated now d w =
     (case (if digits = [] then None else option_for_digit m digits) of
        None \<Rightarrow>
          if attempt < pm_max_attempts m then
            ([gather m (attempt + 1) repeated
                (Some (if digits = [] then ''Sorry, I didn't catch that.'' else ''Sorry, that isn't one of the options.''))], d, w)
          else fallback cc g (Some m) call_sid caller {} {} None now d w
      | Some o' \<Rightarrow>
          if mo_action o' = REPEAT_MENU then
            (if max_repeats \<le> repeated then fallback cc g (Some m) call_sid caller {} {} None now d w
             else ([gather m attempt (repeated + 1) None], d, w))
          else case run_action cc (g_id g) (Some m) (mo_action o') (Some o') call_sid caller {} now w of
                 Some (verbs, w') \<Rightarrow> (verbs, d, w')
               | None \<Rightarrow> fallback cc g (Some m) call_sid caller {mo_action o'} {} None now d w)"

subsection \<open>The spoken conversation\<close>

fun distinct_names :: "string list \<Rightarrow> string list \<Rightarrow> string list" where
  "distinct_names seen [] = []"
| "distinct_names seen (raw # raws) =
     (let value = strip_text raw; key = map lower_char value
      in if value = [] \<or> key \<in> set seen then distinct_names seen raws
         else value # distinct_names (key # seen) raws)"

definition speech_hints :: "'n call_config \<Rightarrow> db \<Rightarrow> garage \<Rightarrow> string" where
  "speech_hints cc d g =
     take 800 (join_texts '', '' (distinct_names [] (cf_business (cc_comm cc) (g_id g) # map ty_name (get_appointment_types d g))))"

definition welcome_greeting :: "'n call_config \<Rightarrow> outreach \<Rightarrow> uid \<Rightarrow> string" where
  "welcome_greeting cc s g =
     (let has_whatsapp = (case settings_of s g of None \<Rightarrow> False
                          | Some c \<Rightarrow> has_text (cs_whatsapp_sender c) \<or> has_text (cs_messaging_sid c))
      in ''Thanks for calling '' @ cf_business (cc_comm cc) g @ ''. I can help with booking enquiries here, though for the quickest service you can ''
         @ (if has_whatsapp then ''book online or message us on WhatsApp'' else ''book online'') @ ''. How can I help?'')"

definition relay_twiml :: "'n call_config \<Rightarrow> db \<Rightarrow> outreach \<Rightarrow> garage \<Rightarrow> twiml" where
  "relay_twiml cc d s g =
     [RELAY (cc_relay_url cc) (welcome_greeting cc s (g_id g)) (non_empty (speech_hints cc d g))]"

subsection \<open>The webhooks\<close>

text \<open>The form of a voice webhook, beside the fields that say which business was called.\<close>

record voice_form =
  vf_call :: call_form
  vf_from :: "string option"
  vf_status :: "string option"
  vf_digits :: string
  vf_dial_status :: string
  vf_dial_sid :: "string option"
  vf_sip_code :: "string option"

definition not_in_service :: twiml where
  "not_in_service = [SAY ''Sorry, this number is not currently in service.'']"

text \<open>Every webhook is refused without configuration or signature.\<close>

definition guarded :: "'n call_config \<Rightarrow> bool \<Rightarrow> 'a \<Rightarrow> http_error + 'a" where
  "guarded cc genuine r =
     (if \<not> is_twilio_configured (cc_comm cc) then Inl (Abort 503 ''not configured'')
      else if \<not> genuine then Inl (Abort 403 ''invalid signature'') else Inr r)"

definition sid_of :: "voice_form \<Rightarrow> string" where
  "sid_of form = text_or_empty (fo_call_sid (vf_call form))"

definition inbound_call_row :: "uid \<Rightarrow> voice_form \<Rightarrow> comm_log" where
  "inbound_call_row g form =
     (blank_log g VOICE INBOUND unrelated)
       \<lparr>lg_external := fo_call_sid (vf_call form), lg_from := Some (text_or_empty (vf_from form)),
        lg_to := Some (text_or_empty (fo_to (vf_call form))),
        lg_status := (if has_text (vf_status form) then the (vf_status form) else ''received'')\<rparr>"

definition greet_and_dial ::
  "'n call_config \<Rightarrow> garage \<Rightarrow> string \<Rightarrow> string \<Rightarrow> world \<Rightarrow> twiml \<times> world" where
  "greet_and_dial cc g call_sid caller w =
     (let hello = SAY (''Thank you for calling '' @ cf_business (cc_comm cc) (g_id g) @ ''.'')
      in case dial_human cc (g_id g) (menu_of (wd_book w) (g_id g)) None call_sid caller {} 0 w of
           Some (verbs, w') \<Rightarrow> (hello # verbs, w')
         | None \<Rightarrow> ([hello, SAY ''Our automated booking service is currently being configured.''], w))"

definition answer_call ::
  "'n call_config \<Rightarrow> garage \<Rightarrow> string \<Rightarrow> string \<Rightarrow> instant \<Rightarrow> db \<Rightarrow> world \<Rightarrow> twiml \<times> world" where
  "answer_call cc g call_sid caller now d w =
     (if transfer_loop_suspected (cc_written cc) (wd_book w) (g_id g) caller now then ([REJECT_BUSY], w)
      else case active_menu (wd_book w) (g_id g) of
        Some m \<Rightarrow> (menu_twiml cc (g_id g) m, w)
      | None \<Rightarrow>
          if cc_relay cc \<and> cc_relay_builds cc (g_id g) then (relay_twiml cc d (wd_book w) g, w)
          else greet_and_dial cc g call_sid caller w)"

definition incoming_call ::
  "'n call_config \<Rightarrow> (uid \<Rightarrow> garage) \<Rightarrow> bool \<Rightarrow> (outreach \<Rightarrow> outreach) \<Rightarrow> voice_form \<Rightarrow> instant \<Rightarrow> db \<Rightarrow> world
    \<Rightarrow> http_error + twiml talk" where
  "incoming_call cc garages genuine meanwhile form now d w =
     guarded cc genuine
       (case resolve_garage_for_inbound_call (cc_comm cc) (wd_book w) (vf_call form) of
          None \<Rightarrow> (Inr not_in_service, d, w)
        | Some g \<Rightarrow>
            (case record_inbound_communication meanwhile (inbound_call_row g form) w of
               (Inl e, w') \<Rightarrow> (Inl e, d, w')
             | (Inr _, w') \<Rightarrow>
                 (case answer_call cc (garages g) (sid_of form)
                         (caller_identity (cf_phones (cc_comm cc)) (wd_book w') g (vf_from form)) now d w' of
                    (verbs, w'') \<Rightarrow> (Inr verbs, d, w''))))"

text \<open>The steps of a call in progress: the business, the call and the caller, or the spoken refusal.\<close>

definition call_step ::
  "'n call_config \<Rightarrow> (uid \<Rightarrow> garage) \<Rightarrow> bool \<Rightarrow> voice_form \<Rightarrow> db \<Rightarrow> world
    \<Rightarrow> (garage \<Rightarrow> string \<Rightarrow> string \<Rightarrow> twiml \<times> db \<times> world) \<Rightarrow> http_error + twiml \<times> db \<times> world" where
  "call_step cc garages genuine form d w k =
     guarded cc genuine
       (case resolve_garage_for_call_step (cc_comm cc) (wd_book w) (vf_call form) of
          None \<Rightarrow> (not_in_service, d, w)
        | Some g \<Rightarrow> k (garages g) (sid_of form) (caller_identity (cf_phones (cc_comm cc)) (wd_book w) g (vf_from form)))"

definition ivr_menu ::
  "'n call_config \<Rightarrow> (uid \<Rightarrow> garage) \<Rightarrow> bool \<Rightarrow> int \<Rightarrow> int \<Rightarrow> voice_form \<Rightarrow> instant \<Rightarrow> db \<Rightarrow> world
    \<Rightarrow> http_error + twiml \<times> db \<times> world" where
  "ivr_menu cc garages genuine attempt repeated form now d w =
     call_step cc garages genuine form d w (\<lambda>g call_sid caller.
       case menu_of (wd_book w) (g_id g) of
         Some m \<Rightarrow>
           if pm_options m = [] then fallback cc g (Some m) call_sid caller {} {} None now d w
           else handle_selection cc g m call_sid caller (take 1 (strip_text (vf_digits form)))
                  (max 1 (max 0 attempt)) (max 0 repeated) now d w
       | None \<Rightarrow> fallback cc g None call_sid caller {} {} None now d w)"

definition ai_leg_of :: "outreach \<Rightarrow> uid \<Rightarrow> string \<Rightarrow> comm_log option" where
  "ai_leg_of s g call_sid = find (ai_leg g call_sid) (or_logs s)"

definition connected :: "string \<Rightarrow> bool" where
  "connected status \<longleftrightarrow> status \<in> {''completed'', ''answered''}"

definition handoff_detail :: "comm_log option \<Rightarrow> string option" where
  "handoff_detail l = (case l of Some l \<Rightarrow> if lg_status l = ''handoff'' then lg_body l else None | None \<Rightarrow> None)"

definition ivr_ai_complete ::
  "'n call_config \<Rightarrow> (uid \<Rightarrow> garage) \<Rightarrow> bool \<Rightarrow> leg set \<Rightarrow> voice_form \<Rightarrow> instant \<Rightarrow> db \<Rightarrow> world
    \<Rightarrow> http_error + twiml \<times> db \<times> world" where
  "ivr_ai_complete cc garages genuine tried form now d w =
     call_step cc garages genuine form d w (\<lambda>g call_sid caller.
       let ai = ai_leg_of (wd_book w) (g_id g) call_sid;
           done_well = (case ai of None \<Rightarrow> False
                        | Some l \<Rightarrow> connected (vf_dial_status form) \<and> lg_status l \<notin> {''handoff'', ''ai_failed''})
       in if done_well then ([HANG_UP], d, w)
          else fallback cc g (menu_of (wd_book w) (g_id g)) call_sid caller {} tried (handoff_detail ai) now d w)"

definition ivr_transfer_complete ::
  "'n call_config \<Rightarrow> (uid \<Rightarrow> garage) \<Rightarrow> bool \<Rightarrow> leg set \<Rightarrow> int option \<Rightarrow> string option \<Rightarrow> voice_form \<Rightarrow> instant \<Rightarrow> db \<Rightarrow> world
    \<Rightarrow> http_error + twiml \<times> db \<times> world" where
  "ivr_transfer_complete cc garages genuine tried index digit form now d w =
     call_step cc garages genuine form d w (\<lambda>g call_sid caller.
       let w1 = finish_transfer_attempt (g_id g) call_sid (vf_dial_status form) (map_option (\<lambda>i. max 0 i - 1) index)
                  (vf_dial_sid form) (vf_sip_code form) w;
           menu = menu_of (wd_book w1) (g_id g);
           pressed = take 1 (text_or_empty digit);
           picked = (case menu of None \<Rightarrow> None | Some m \<Rightarrow> if pressed = [] then None else option_for_digit m pressed)
       in if connected (vf_dial_status form) then ([HANG_UP], d, w1)
          else case (case index of None \<Rightarrow> None
                     | Some i \<Rightarrow> dial_human cc (g_id g) menu picked call_sid caller tried (nat i) w1) of
                 Some (verbs, w2) \<Rightarrow> (verbs, d, w2)
               | None \<Rightarrow> fallback cc g menu call_sid caller {} tried
                           (if call_sid = [] then None else handoff_detail (ai_leg_of (wd_book w1) (g_id g) call_sid)) now d w1)"

text \<open>The progress of a call: what it was still ringing ends with it, and a missed call is answered.\<close>

definition voice_status ::
  "'n call_config \<Rightarrow> bool \<Rightarrow> status_event \<Rightarrow> world \<Rightarrow> http_error + world" where
  "voice_status cc genuine ev w =
     guarded cc genuine
       (case update_communication_status ev w of
          (log, w1) \<Rightarrow>
            let w2 = (if sv_status ev \<in> {''completed'', ''busy'', ''failed'', ''no-answer'', ''canceled''}
                      then close_open_transfers (sv_external ev) w1 else w1)
            in case log of
                 None \<Rightarrow> w2
               | Some l \<Rightarrow>
                   if lg_direction l = INBOUND \<and> sv_status ev \<in> {''no-answer'', ''busy'', ''failed'', ''canceled''}
                   then run_handlers [whatsapp_missed_call (cc_comm cc) (lg_garage l) l] w2 else w2)"

end
