(* ===== verification/Call_Promises.thy ===== *)
theory Call_Promises
  imports Call_Flow
begin

text \<open>
  What a telephone call can rely on: every call comes to an end, whoever changes the settings meanwhile;
  nobody is dropped without a person, the assistant or a callback; only people the business has saved
  are rung, and none of them routes back. For the assistant: a handoff names the call it was signed for,
  and every call gets one assistant at most. For the settings: an accepted configuration of an existing
  number always has a person to put callers through to.
\<close>

subsection \<open>What a call changes\<close>

definition same_setup :: "world \<Rightarrow> world \<Rightarrow> bool" where
  "same_setup w w' \<longleftrightarrow> or_settings (wd_book w') = or_settings (wd_book w) \<and> or_menus (wd_book w') = or_menus (wd_book w)"

lemma same_setup_refl [simp]: "same_setup w w"
  by (simp add: same_setup_def)

lemma same_setup_trans: "same_setup w w' \<Longrightarrow> same_setup w' w'' \<Longrightarrow> same_setup w w''"
  by (simp add: same_setup_def)

lemma record_attempt_setup [simp]: "same_setup w (record_transfer_attempt g sid caller d i w)"
  by (simp add: same_setup_def record_transfer_attempt_def insert_log_def)

lemma finish_attempt_setup [simp]: "same_setup w (finish_transfer_attempt g sid st i dsid code w)"
  by (simp add: same_setup_def finish_transfer_attempt_def Let_def put_log_def)

lemma same_setup_reads:
  assumes "same_setup w w'"
  shows "settings_of (wd_book w') g = settings_of (wd_book w) g" "menu_of (wd_book w') g = menu_of (wd_book w) g"
    "comaz_routed_numbers (wd_book w') = comaz_routed_numbers (wd_book w)"
  using assms by (simp_all add: same_setup_def settings_of_def menu_of_def comaz_routed_numbers_def)

subsection \<open>Whom a reply rings\<close>

definition saved_destination :: "outreach \<Rightarrow> uid \<Rightarrow> string \<Rightarrow> bool" where
  "saved_destination s g n \<longleftrightarrow>
     (\<exists>c. settings_of s g = Some c \<and> Some n \<in> {cs_primary c, cs_secondary c, cs_escalation c, cs_fallback c})
     \<or> (\<exists>m. menu_of s g = Some m \<and> (pm_fallback_target m = Some n \<or> Some n \<in> mo_target ` set (pm_options m)))"

text \<open>A number that is no premium line and rings nobody's \<open>CoMaz\<close>, an address that does not lead back.\<close>

definition safe_number :: "'n phone_library \<Rightarrow> outreach \<Rightarrow> string \<Rightarrow> bool" where
  "safe_number lib s n \<longleftrightarrow>
     (case normalise_transfer_number lib n of
        Inl _ \<Rightarrow> False | Inr e164 \<Rightarrow> starts_with ''+44'' e164 \<and> e164 \<notin> set (comaz_routed_numbers s))"

definition safe_sip :: "string \<Rightarrow> bool" where
  "safe_sip u \<longleftrightarrow>
     (case sip_uri_host (strip_text u) of
        None \<Rightarrow> False
      | Some h \<Rightarrow> \<not> routes_back (plain_host h) \<and> (\<forall>a. ip_address (plain_host h) = Some a \<longrightarrow> ip_is_global a))"

definition handed_over :: "'n call_config \<Rightarrow> uid \<Rightarrow> string \<Rightarrow> bool" where
  "handed_over cc g u \<longleftrightarrow>
     (\<exists>call route caller now. openai_sip_uri (cc_ai cc) (av_id_text (cc_ai cc) g) call route caller now = Some u)"

fun safe_verb :: "'n call_config \<Rightarrow> outreach \<Rightarrow> uid \<Rightarrow> verb \<Rightarrow> bool" where
  "safe_verb cc s g (DIAL_NUMBER n trunk step seconds) \<longleftrightarrow>
     saved_destination s g n \<and> safe_number (cf_phones (cc_comm cc)) s n \<and> 10 \<le> seconds \<and> seconds \<le> 60"
| "safe_verb cc s g (DIAL_SIP u step (Some seconds)) \<longleftrightarrow> saved_destination s g u \<and> safe_sip u \<and> 10 \<le> seconds \<and> seconds \<le> 60"
| "safe_verb cc s g (DIAL_SIP u step None) \<longleftrightarrow> handed_over cc g u"
| "safe_verb cc s g _ \<longleftrightarrow> True"

lemma safe_verb_setup: "same_setup w w' \<Longrightarrow> safe_verb cc (wd_book w') g v = safe_verb cc (wd_book w) g v"
  by (induction cc "wd_book w" g v rule: safe_verb.induct)
     (simp_all add: saved_destination_def safe_number_def same_setup_reads split: sum.split)

lemma transfer_timeout_bounds: "10 \<le> transfer_timeout s g" "transfer_timeout s g \<le> 60"
  by (auto simp: transfer_timeout_def split: option.splits)

lemma dialable_safe:
  assumes "dialable lib (comaz_routed_numbers s) d"
  shows "hd_kind d = ''SIP_URI'' \<Longrightarrow> safe_sip (hd_value d)"
    "hd_kind d \<noteq> ''SIP_URI'' \<Longrightarrow> safe_number lib s (hd_value d)"
proof -
  show "safe_sip (hd_value d)" if "hd_kind d = ''SIP_URI''"
    using assms that by (auto simp: dialable_def safe_sip_def validate_sip_destination_def Let_def split: if_splits option.splits)
  show "safe_number lib s (hd_value d)" if "hd_kind d \<noteq> ''SIP_URI''"
    using assms that
    by (auto simp: dialable_def safe_number_def normalise_transfer_number_def split: if_splits sum.splits)
qed

text \<open>The chain is built from what the business has saved; the option picked is one of its menu.\<close>

definition option_of :: "phone_menu option \<Rightarrow> menu_option option \<Rightarrow> bool" where
  "option_of menu picked \<longleftrightarrow>
     (case picked of None \<Rightarrow> True | Some o' \<Rightarrow> (case menu of None \<Rightarrow> False | Some m \<Rightarrow> o' \<in> set (pm_options m)))"

lemma option_of_None [simp]: "option_of menu None"
  by (simp add: option_of_def)

lemma destination_when_in:
  "d \<in> set (destination_when b kind value source) \<longleftrightarrow>
     b \<and> has_text kind \<and> has_text value \<and> d = \<lparr>hd_kind = the kind, hd_value = the value, hd_source = source\<rparr>"
  by (auto simp: destination_when_def)

lemma find_in: "find P xs = Some x \<Longrightarrow> x \<in> set xs \<and> P x"
  by (auto simp: find_Some_iff)

lemma has_text_value: "has_text t \<Longrightarrow> t = Some u \<longleftrightarrow> the t = u"
  by (cases t) auto

lemma menu_destinations_saved:
  assumes "d \<in> set (menu_destinations m)"
  shows "pm_fallback_target m = Some (hd_value d) \<or> Some (hd_value d) \<in> mo_target ` set (pm_options m)"
proof -
  consider "has_text (pm_fallback_target m)" "hd_value d = the (pm_fallback_target m)"
    | o' where "find (\<lambda>o'. mo_action o' = HUMAN_TRANSFER \<and> has_text (mo_target o')) (pm_options m) = Some o'"
        "hd_value d = the (mo_target o')"
    using assms
    by (cases "find (\<lambda>o'. mo_action o' = HUMAN_TRANSFER \<and> has_text (mo_target o')) (pm_options m)")
       (auto simp: menu_destinations_def destination_when_in)
  then show ?thesis
  proof cases
    case 1 then show ?thesis by (simp add: has_text_value)
  next
    case (2 o') with find_in [OF 2(1)] show ?thesis by (auto simp: has_text_value image_iff)
  qed
qed

lemma option_saved:
  assumes "option_of menu (Some o')" "has_text (mo_target o')"
  shows "\<exists>m. menu = Some m \<and> Some (the (mo_target o')) \<in> mo_target ` set (pm_options m)"
  using assms by (auto simp: option_of_def has_text_value image_iff split: option.splits)

lemma candidates_saved:
  assumes "d \<in> set (candidates (settings_of s g) (menu_of s g) picked)" "option_of (menu_of s g) picked"
  shows "saved_destination s g (hd_value d)"
proof -
  consider (option) o' where "picked = Some o'" "has_text (mo_target o')" "hd_value d = the (mo_target o')"
    | (menu) m where "menu_of s g = Some m" "d \<in> set (menu_destinations m)"
    | (settings) c where "settings_of s g = Some c"
        "Some (hd_value d) \<in> {cs_primary c, cs_secondary c, cs_escalation c, cs_fallback c}"
    using assms(1)
    by (cases picked; cases "menu_of s g"; cases "settings_of s g")
       (auto simp: candidates_def destination_when_in Let_def dest: has_text_the)
  then show ?thesis
  proof cases
    case (option o') with assms(2) option_saved [of "menu_of s g" o'] show ?thesis by (auto simp: saved_destination_def)
  next
    case (menu m) with menu_destinations_saved [of d m] show ?thesis unfolding saved_destination_def by blast
  next
    case (settings c) then show ?thesis unfolding saved_destination_def by blast
  qed
qed

lemma human_destinations_props:
  assumes "d \<in> set (human_destinations lib s g (menu_of s g) picked)" "option_of (menu_of s g) picked"
  shows "saved_destination s g (hd_value d)" "dialable lib (comaz_routed_numbers s) d"
  using assms pick_destinations_in candidates_saved unfolding human_destinations_def by blast+

lemma human_destinations_length: "length (human_destinations lib s g menu picked) \<le> 3"
  using pick_destinations_length [of _ _ 3] by (simp add: human_destinations_def max_human_destinations_def)

lemma dial_human_some:
  assumes "dial_human cc g menu picked sid caller tried i w = Some (verbs, w')"
  obtains d v where "d \<in> set (human_destinations (cf_phones (cc_comm cc)) (wd_book w) g menu picked)"
    "i < 3" "verbs = [SAY v, if hd_kind d = ''SIP_URI''
        then DIAL_SIP (hd_value d) (AFTER_TRANSFER (insert TRIED_HUMAN tried) (int i + 1) (map_option mo_digit picked)) (Some (transfer_timeout (wd_book w) g))
        else DIAL_NUMBER (hd_value d) (pstn_byoc_trunk (wd_book w) g)
               (AFTER_TRANSFER (insert TRIED_HUMAN tried) (int i + 1) (map_option mo_digit picked)) (transfer_timeout (wd_book w) g)]"
    "same_setup w w'" "or_callbacks (wd_book w') = or_callbacks (wd_book w)"
proof -
  let ?chain = "human_destinations (cf_phones (cc_comm cc)) (wd_book w) g menu picked"
  from assms have i: "i < length ?chain" by (simp add: dial_human_def Let_def split: if_splits)
  moreover have "i < 3"
    using i human_destinations_length [of "cf_phones (cc_comm cc)" "wd_book w" g menu picked] by linarith
  ultimately show ?thesis
    using assms by (intro that [of "?chain ! i"])
      (auto simp: dial_human_def Let_def same_setup_def record_transfer_attempt_def insert_log_def)
qed

subsection \<open>Every reply\<close>

text \<open>Where Twilio reports back after a reply, if it does: to the first verb that asks for it.\<close>

fun reports :: "twiml \<Rightarrow> next_step option" where
  "reports [] = None"
| "reports (GATHER step _ # _) = Some step"
| "reports (DIAL_SIP _ step _ # _) = Some step"
| "reports (DIAL_NUMBER _ _ step _ # _) = Some step"
| "reports (SAY _ # verbs) = reports verbs"
| "reports (_ # _) = None"

text \<open>The reply to a report, at the webhook its step names.\<close>

definition step_reply ::
  "'n call_config \<Rightarrow> (uid \<Rightarrow> garage) \<Rightarrow> bool \<Rightarrow> next_step \<Rightarrow> voice_form \<Rightarrow> instant \<Rightarrow> db \<Rightarrow> world
    \<Rightarrow> http_error + twiml \<times> db \<times> world" where
  "step_reply cc garages genuine step form now d w =
     (case step of
        AFTER_MENU attempt repeated \<Rightarrow> ivr_menu cc garages genuine attempt repeated form now d w
      | AFTER_AI _ tried \<Rightarrow> ivr_ai_complete cc garages genuine tried form now d w
      | AFTER_TRANSFER tried index digit \<Rightarrow> ivr_transfer_complete cc garages genuine tried (Some index) digit form now d w)"

text \<open>
  How many more replies a pending step can lead to: three people once, the assistant once, five attempts
  at the menu and three repetitions of it.
\<close>

definition left_ai :: "leg set \<Rightarrow> nat" where
  "left_ai tried = (if TRIED_AI \<in> tried then 0 else 1)"

definition left_human :: "leg set \<Rightarrow> nat" where
  "left_human tried = (if TRIED_HUMAN \<in> tried then 0 else 3)"

fun patience :: "next_step option \<Rightarrow> nat" where
  "patience None = 0"
| "patience (Some (AFTER_AI _ tried)) = 1 + left_human tried + left_ai tried"
| "patience (Some (AFTER_TRANSFER tried i _)) = 1 + nat (3 - max 0 i) + left_ai tried + left_human tried"
| "patience (Some (AFTER_MENU attempt repeated)) = 5 + nat (5 - max 1 attempt) + nat (3 - max 0 repeated)"

lemma left_simps [simp]:
  "left_ai (insert TRIED_AI t) = 0" "left_ai (insert TRIED_HUMAN t) = left_ai t" "left_ai {} = 1"
  "left_human (insert TRIED_HUMAN t) = 0" "left_human (insert TRIED_AI t) = left_human t" "left_human {} = 3"
  "left_ai t \<le> 1" "left_human t \<le> 3"
  by (simp_all add: left_ai_def left_human_def)

text \<open>
  What every reply of a running call guarantees, given the step it answers: it rings only safe
  destinations, it leaves less to try, and when it ends the call for a caller nobody reached, a callback
  is open.
\<close>

definition callback_open :: "uid \<Rightarrow> string \<Rightarrow> world \<Rightarrow> bool" where
  "callback_open g caller w \<longleftrightarrow>
     (\<exists>cb \<in> set (or_callbacks (wd_book w)). cb_garage cb = g \<and> cb_phone cb = caller \<and> cb_status cb = CB_PENDING)"

definition good_reply ::
  "'n call_config \<Rightarrow> world \<Rightarrow> uid \<Rightarrow> string \<Rightarrow> nat \<Rightarrow> twiml \<Rightarrow> world \<Rightarrow> bool" where
  "good_reply cc w g caller n verbs w' \<longleftrightarrow>
     same_setup w w' \<and> (\<forall>v \<in> set verbs. safe_verb cc (wd_book w) g v) \<and> patience (reports verbs) < n
     \<and> (reports verbs = None \<and> caller \<noteq> [] \<longrightarrow> callback_open g caller w')"

lemma good_reply_mono: "good_reply cc w g caller n verbs w' \<Longrightarrow> n \<le> m \<Longrightarrow> good_reply cc w g caller m verbs w'"
  by (simp add: good_reply_def)

lemma good_reply_setup:
  assumes "good_reply cc w1 g caller n verbs w'" "same_setup w w1"
  shows "good_reply cc w g caller n verbs w'"
  using assms(1) same_setup_trans [OF assms(2)] by (simp add: good_reply_def safe_verb_setup [OF assms(2)])

lemma dial_human_good:
  assumes e: "dial_human cc g (menu_of (wd_book w) g) picked sid caller tried i w = Some (verbs, w')"
    and o': "option_of (menu_of (wd_book w) g) picked"
  shows "good_reply cc w g caller (1 + nat (3 - int i) + left_ai tried) verbs w'"
    "or_callbacks (wd_book w') = or_callbacks (wd_book w)" "reports verbs \<noteq> None"
proof -
  obtain d v where d: "d \<in> set (human_destinations (cf_phones (cc_comm cc)) (wd_book w) g (menu_of (wd_book w) g) picked)"
    and i: "i < 3" and verbs: "verbs = [SAY v, if hd_kind d = ''SIP_URI''
        then DIAL_SIP (hd_value d) (AFTER_TRANSFER (insert TRIED_HUMAN tried) (int i + 1) (map_option mo_digit picked)) (Some (transfer_timeout (wd_book w) g))
        else DIAL_NUMBER (hd_value d) (pstn_byoc_trunk (wd_book w) g)
               (AFTER_TRANSFER (insert TRIED_HUMAN tried) (int i + 1) (map_option mo_digit picked)) (transfer_timeout (wd_book w) g)]"
    and w': "same_setup w w'" "or_callbacks (wd_book w') = or_callbacks (wd_book w)"
    by (rule dial_human_some [OF e])
  note safe = human_destinations_props [OF d o'] and bounds = transfer_timeout_bounds [of "wd_book w" g]
  have "\<forall>v \<in> set verbs. safe_verb cc (wd_book w) g v"
    using safe(1) dialable_safe [OF safe(2)] bounds verbs by simp
  moreover have "patience (reports verbs) < 1 + nat (3 - int i) + left_ai tried" "reports verbs \<noteq> None"
    using verbs i by simp_all
  ultimately show "good_reply cc w g caller (1 + nat (3 - int i) + left_ai tried) verbs w'"
    "or_callbacks (wd_book w') = or_callbacks (wd_book w)" "reports verbs \<noteq> None"
    using w' by (auto simp: good_reply_def)
qed

lemma run_action_good:
  assumes e: "run_action cc g (menu_of (wd_book w) g) a picked sid caller tried now w = Some (verbs, w')"
    and o': "option_of (menu_of (wd_book w) g) picked" and fresh: "\<not> excluded exclude tried a"
  shows "good_reply cc w g caller (1 + left_human tried + left_ai tried) verbs w'"
proof (cases "is_ai_action a")
  case True
  with e obtain uri where uri: "openai_sip_uri (cc_ai cc) (av_id_text (cc_ai cc) g) sid (action_key a) caller now = Some uri"
    and v: "verbs = [DIAL_SIP uri (AFTER_AI a (insert TRIED_AI tried)) None]" "w' = w"
    by (auto simp: run_action_def split: if_splits option.splits)
  from uri have "handed_over cc g uri" unfolding handed_over_def by blast
  moreover have "left_ai tried = 1" using True fresh by (simp add: excluded_def left_ai_def)
  ultimately show ?thesis using v by (simp add: good_reply_def)
next
  case False
  with e have a: "a = HUMAN_TRANSFER" and "dial_human cc g (menu_of (wd_book w) g) picked sid caller tried 0 w = Some (verbs, w')"
    by (simp_all add: run_action_def split: if_splits)
  from dial_human_good(1) [OF this(2) o'] have "good_reply cc w g caller (4 + left_ai tried) verbs w'" by simp
  moreover have "left_human tried = 3" using a fresh by (simp add: excluded_def left_human_def)
  ultimately show ?thesis by (simp add: good_reply_mono)
qed

lemma close_good:
  assumes "close_with_callback cc g caller detail now d w = (verbs, d', w')"
  shows "good_reply cc w (g_id g) caller (Suc n) verbs w'"
proof (cases "caller = [] \<or> recent_open_callback (cc_written cc) (wd_book w) (g_id g) caller now")
  case True
  with assms show ?thesis
    by (auto simp: close_with_callback_def good_reply_def callback_open_def recent_open_callback_def list_ex_iff split: if_splits)
next
  case False
  with assms show ?thesis
    by (auto simp: close_with_callback_def good_reply_def callback_open_def create_callback_request_def Let_def
          announce_def emit_event_def same_setup_def)
qed

lemma first_that_runs_some: "first_that_runs f as = Some r \<Longrightarrow> \<exists>a \<in> set as. f a = Some r"
  by (induction as) (auto split: option.splits)

lemma fallback_good:
  assumes "fallback cc g (menu_of (wd_book w) (g_id g)) sid caller exclude tried detail now d w = (verbs, d', w')"
  shows "good_reply cc w (g_id g) caller (1 + left_human tried + left_ai tried) verbs w'"
proof (cases "first_that_runs (\<lambda>a. run_action cc (g_id g) (menu_of (wd_book w) (g_id g)) a None sid caller tried now w)
    (filter (\<lambda>a. \<not> excluded exclude tried a) (fallback_candidates (menu_of (wd_book w) (g_id g))))")
  case None
  with assms have "close_with_callback cc g caller detail now d w = (verbs, d', w')" by (simp add: fallback_def)
  then show ?thesis using close_good by simp
next
  case (Some r)
  with assms have r: "r = (verbs, w')" by (cases r) (simp add: fallback_def)
  from first_that_runs_some [OF Some] r obtain a where "\<not> excluded exclude tried a"
    "run_action cc (g_id g) (menu_of (wd_book w) (g_id g)) a None sid caller tried now w = Some (verbs, w')" by auto
  from run_action_good [OF this(2) option_of_None this(1)] show ?thesis .
qed

definition menus_sane :: "world \<Rightarrow> bool" where
  "menus_sane w \<longleftrightarrow> (\<forall>m \<in> set (or_menus (wd_book w)). pm_max_attempts m \<le> 5)"

lemma put_voice_menu_sane: "put_voice_menu lib is_owner g data w = (r, w') \<Longrightarrow> menus_sane w \<Longrightarrow> menus_sane w'"
  by (auto simp: put_voice_menu_def update_menu_def menu_from_def put_menu_def menus_sane_def checks_def require_def Let_def
      split: if_splits sum.splits prod.splits)

lemma menus_saneD: "menus_sane w \<Longrightarrow> menu_of (wd_book w) g = Some m \<Longrightarrow> pm_max_attempts m \<le> 5"
  unfolding menus_sane_def menu_of_def by (auto dest: find_in)

lemma option_for_digit_of: "option_for_digit m digit = Some o' \<Longrightarrow> option_of (Some m) (Some o')"
  by (auto simp: option_for_digit_def option_of_def dest: find_in)

lemma handle_selection_good:
  assumes e: "handle_selection cc g m sid caller digits attempt repeated now d w = (verbs, d', w')"
    and m: "menu_of (wd_book w) (g_id g) = Some m" and sane: "menus_sane w" and bounds: "1 \<le> attempt" "0 \<le> repeated"
  shows "good_reply cc w (g_id g) caller (5 + nat (5 - attempt) + nat (3 - repeated)) verbs w'"
proof -
  let ?n = "5 + nat (5 - attempt) + nat (3 - repeated)"
  have fb: "good_reply cc w (g_id g) caller ?n verbs w'"
    if "fallback cc g (Some m) sid caller exclude {} None now d w = (verbs, d', w')" for exclude
    using fallback_good [of cc g w sid caller exclude "{}" None now d verbs d' w'] that m by (simp add: good_reply_mono)
  have again: "good_reply cc w (g_id g) caller ?n verbs w'"
    if "verbs = [gather m a r lead]" "w' = w" "1 \<le> a" "0 \<le> r" "nat (5 - a) + nat (3 - r) < nat (5 - attempt) + nat (3 - repeated)" for a r lead
    using that by (simp add: good_reply_def gather_def)
  show ?thesis
  proof (cases "if digits = [] then None else option_for_digit m digits")
    case None
    with e fb again [of "attempt + 1" repeated] menus_saneD [OF sane m] bounds show ?thesis
      by (auto simp: handle_selection_def split: if_splits)
  next
    case (Some o')
    then have o': "option_of (menu_of (wd_book w) (g_id g)) (Some o')"
      using option_for_digit_of m by (auto split: if_splits)
    show ?thesis
    proof (cases "mo_action o' = REPEAT_MENU")
      case True
      with e Some fb again [of attempt "repeated + 1" None] bounds show ?thesis
        by (auto simp: handle_selection_def max_repeats_def split: if_splits)
    next
      case False
      show ?thesis
      proof (cases "run_action cc (g_id g) (Some m) (mo_action o') (Some o') sid caller {} now w")
        case None
        with e Some False fb show ?thesis by (auto simp: handle_selection_def split: if_splits)
      next
        case run: (Some r)
        with e Some False have r: "run_action cc (g_id g) (menu_of (wd_book w) (g_id g)) (mo_action o') (Some o') sid caller {} now w = Some (verbs, w')"
          using m by (cases r) (auto simp: handle_selection_def split: if_splits)
        from run_action_good [OF r o', of "{}"] show ?thesis by (simp add: excluded_def good_reply_mono)
      qed
    qed
  qed
qed

subsection \<open>The promises of a call\<close>

lemma finish_attempt_callbacks [simp]: "or_callbacks (wd_book (finish_transfer_attempt g sid st i dsid code w)) = or_callbacks (wd_book w)"
  by (simp add: finish_transfer_attempt_def Let_def put_log_def)

text \<open>Either the caller has been talking to somebody and the call is over, or the reply is a good one.\<close>

definition call_over :: "voice_form \<Rightarrow> twiml \<Rightarrow> bool" where
  "call_over form verbs \<longleftrightarrow> connected (vf_dial_status form) \<and> verbs = [HANG_UP]"

lemma call_step_business:
  assumes "call_step cc garages genuine form d w k = Inr r"
    and "resolve_garage_for_call_step (cc_comm cc) (wd_book w) (vf_call form) = Some g"
  shows "k (garages g) (sid_of form) (caller_identity (cf_phones (cc_comm cc)) (wd_book w) g (vf_from form)) = r"
  using assms by (simp add: call_step_def guarded_def split: if_splits)

lemma step_reply_good:
  assumes e: "step_reply cc garages genuine step form now d w = Inr (verbs, d', w')"
    and g: "resolve_garage_for_call_step (cc_comm cc) (wd_book w) (vf_call form) = Some g" "g_id (garages g) = g"
    and sane: "menus_sane w"
  defines "caller \<equiv> caller_identity (cf_phones (cc_comm cc)) (wd_book w) g (vf_from form)"
  shows "same_setup w w' \<and> call_over form verbs \<or> good_reply cc w g caller (patience (Some step)) verbs w'"
proof (cases step)
  case (AFTER_MENU attempt repeated)
  have fb: "good_reply cc w g caller (patience (Some step)) verbs w'"
    if "fallback cc (garages g) (menu_of (wd_book w) g) (sid_of form) caller {} {} None now d w = (verbs, d', w')"
    using fallback_good [of cc "garages g" w "sid_of form" caller "{}" "{}" None now d verbs d' w'] that g(2) AFTER_MENU
    by (simp add: good_reply_mono)
  note e = e [unfolded step_reply_def]
  have e': "(case menu_of (wd_book w) (g_id (garages g)) of
         Some m \<Rightarrow>
           if pm_options m = [] then fallback cc (garages g) (Some m) (sid_of form) caller {} {} None now d w
           else handle_selection cc (garages g) m (sid_of form) caller (take 1 (strip_text (vf_digits form)))
                  (max 1 (max 0 attempt)) (max 0 repeated) now d w
       | None \<Rightarrow> fallback cc (garages g) None (sid_of form) caller {} {} None now d w) = (verbs, d', w')"
    using call_step_business [OF e [unfolded AFTER_MENU next_step.case ivr_menu_def] g(1)] by (simp only: caller_def)
  show ?thesis
  proof (cases "menu_of (wd_book w) g")
    case None with e' g fb show ?thesis by simp
  next
    case (Some m)
    show ?thesis
    proof (cases "pm_options m = []")
      case True with e' g fb Some show ?thesis by simp
    next
      case False
      with e' Some g have "handle_selection cc (garages g) m (sid_of form) caller (take 1 (strip_text (vf_digits form)))
                  (max 1 (max 0 attempt)) (max 0 repeated) now d w = (verbs, d', w')" by simp
      moreover have "max 1 (max 0 attempt) = max 1 attempt" by (simp add: max_def)
      ultimately show ?thesis using handle_selection_good [of cc "garages g" m _ _ _ "max 1 attempt" "max 0 repeated", OF _ _ sane] Some g
        by (simp add: AFTER_MENU)
    qed
  qed
next
  case (AFTER_AI a tried)
  note e = e [unfolded step_reply_def]
  have "(let ai = ai_leg_of (wd_book w) (g_id (garages g)) (sid_of form);
           done_well = (case ai of None \<Rightarrow> False
                        | Some l \<Rightarrow> connected (vf_dial_status form) \<and> lg_status l \<notin> {''handoff'', ''ai_failed''})
       in if done_well then ([HANG_UP], d, w)
          else fallback cc (garages g) (menu_of (wd_book w) (g_id (garages g))) (sid_of form) caller {} tried (handoff_detail ai) now d w)
     = (verbs, d', w')"
    using call_step_business [OF e [unfolded AFTER_AI next_step.case ivr_ai_complete_def] g(1)] by (simp only: caller_def)
  then consider "call_over form verbs" "w' = w"
    | detail where "fallback cc (garages g) (menu_of (wd_book w) (g_id (garages g))) (sid_of form) caller {} tried detail now d w = (verbs, d', w')"
    by (auto simp: Let_def call_over_def split: if_splits option.splits)
  then show ?thesis
    using fallback_good [of cc "garages g" w "sid_of form" caller "{}" tried _ now d verbs d' w'] g(2) AFTER_AI by cases auto
next
  case (AFTER_TRANSFER tried index digit)
  let ?w1 = "finish_transfer_attempt g (sid_of form) (vf_dial_status form) (Some (max 0 index - 1)) (vf_dial_sid form) (vf_sip_code form) w"
  let ?pressed = "take 1 (text_or_empty digit)"
  let ?picked = "case menu_of (wd_book ?w1) g of None \<Rightarrow> None | Some m \<Rightarrow> if ?pressed = [] then None else option_for_digit m ?pressed"
  have s1: "same_setup w ?w1" by simp
  have o': "option_of (menu_of (wd_book ?w1) g) ?picked"
    by (auto simp: option_for_digit_of split: option.splits) (metis option_for_digit_of option_of_None not_None_eq)
  note e = e [unfolded step_reply_def]
  have "(if connected (vf_dial_status form) then ([HANG_UP], d, ?w1)
          else case dial_human cc g (menu_of (wd_book ?w1) g) ?picked (sid_of form) caller tried (nat index) ?w1 of
                 Some (verbs, w2) \<Rightarrow> (verbs, d, w2)
               | None \<Rightarrow> fallback cc (garages g) (menu_of (wd_book ?w1) g) (sid_of form) caller {} tried
                           (if sid_of form = [] then None else handoff_detail (ai_leg_of (wd_book ?w1) g (sid_of form))) now d ?w1)
      = (verbs, d', w')"
    using call_step_business [OF e [unfolded AFTER_TRANSFER next_step.case ivr_transfer_complete_def] g(1)] g(2)
    by (simp only: caller_def Let_def option.map option.case)
  then consider "call_over form verbs" "w' = ?w1"
    | "dial_human cc g (menu_of (wd_book ?w1) g) ?picked (sid_of form) caller tried (nat index) ?w1 = Some (verbs, w')"
    | detail where "fallback cc (garages g) (menu_of (wd_book ?w1) g) (sid_of form) caller {} tried detail now d ?w1 = (verbs, d', w')"
    by (auto simp: call_over_def split: if_splits option.splits prod.splits)
  then show ?thesis
  proof cases
    case 1 then show ?thesis using s1 by simp
  next
    case 2
    from good_reply_setup [OF dial_human_good(1) [OF this o'] s1] show ?thesis by (simp add: AFTER_TRANSFER good_reply_mono)
  next
    case (3 detail)
    with fallback_good [of cc "garages g" ?w1 "sid_of form" caller "{}" tried detail now d verbs d' w'] g
    have "good_reply cc ?w1 g caller (1 + left_human tried + left_ai tried) verbs w'" by simp
    from good_reply_setup [OF this s1] show ?thesis by (simp add: AFTER_TRANSFER good_reply_mono)
  qed
qed

subsection \<open>From the first ring\<close>

lemma record_inbound_setup: "record_inbound_communication meanwhile row w = (r, w') \<Longrightarrow> \<exists>f. wd_book w' = f (wd_book w)"
  by (rule exI [of _ "\<lambda>_. wd_book w'"]) simp

lemma answer_call_good:
  assumes "answer_call cc g sid caller now d w = (verbs, w')"
  shows "same_setup w w'" "v \<in> set verbs \<Longrightarrow> safe_verb cc (wd_book w') (g_id g) v" "patience (reports verbs) \<le> 12"
proof -
  have "same_setup w w' \<and> (\<forall>v \<in> set verbs. safe_verb cc (wd_book w) (g_id g) v) \<and> patience (reports verbs) \<le> 12"
  proof (cases "dial_human cc (g_id g) (menu_of (wd_book w) (g_id g)) None sid caller {} 0 w")
    case None
    with assms show ?thesis
      by (auto simp: answer_call_def menu_twiml_def gather_def relay_twiml_def greet_and_dial_def Let_def split: if_splits option.splits)
  next
    case (Some r)
    then obtain vs w1 where r: "dial_human cc (g_id g) (menu_of (wd_book w) (g_id g)) None sid caller {} 0 w = Some (vs, w1)"
      by (cases r) simp
    note good = dial_human_good(1) [OF r option_of_None]
    then have "patience (reports vs) \<le> 12" by (simp add: good_reply_def)
    with good assms r show ?thesis
      by (auto simp: answer_call_def menu_twiml_def gather_def relay_twiml_def greet_and_dial_def Let_def good_reply_def
            split: if_splits option.splits)
  qed
  then show "same_setup w w'" "v \<in> set verbs \<Longrightarrow> safe_verb cc (wd_book w') (g_id g) v" "patience (reports verbs) \<le> 12"
    using safe_verb_setup by blast+
qed

lemma incoming_call_business:
  assumes "incoming_call cc garages genuine meanwhile form now d w = Inr (Inr verbs, d', w')"
    and "resolve_garage_for_inbound_call (cc_comm cc) (wd_book w) (vf_call form) = Some g"
  obtains w1 caller where "answer_call cc (garages g) (sid_of form) caller now d w1 = (verbs, w')"
  using assms by (auto simp: incoming_call_def guarded_def split: if_splits prod.splits sum.splits)

lemma incoming_call_nobody:
  assumes "incoming_call cc garages genuine meanwhile form now d w = Inr (Inr verbs, d', w')"
    and "resolve_garage_for_inbound_call (cc_comm cc) (wd_book w) (vf_call form) = None"
  shows "verbs = not_in_service"
  using assms by (auto simp: incoming_call_def guarded_def split: if_splits)

lemma step_reply_nobody:
  assumes "step_reply cc garages genuine step form now d w = Inr (verbs, d', w')"
    and "resolve_garage_for_call_step (cc_comm cc) (wd_book w) (vf_call form) = None"
  shows "verbs = not_in_service"
  using assms by (cases step) (auto simp: step_reply_def ivr_menu_def ivr_ai_complete_def ivr_transfer_complete_def call_step_def guarded_def split: if_splits)

lemma incoming_call_patience:
  assumes "incoming_call cc garages genuine meanwhile form now d w = Inr (Inr verbs, d', w')"
  shows "patience (reports verbs) \<le> 12"
proof (cases "resolve_garage_for_inbound_call (cc_comm cc) (wd_book w) (vf_call form)")
  case None
  from incoming_call_nobody [OF assms None] show ?thesis by (simp add: not_in_service_def)
next
  case (Some g)
  then show ?thesis using answer_call_good(3) by (rule incoming_call_business [OF assms])
qed

text \<open>The webhook of the first ring, or the one a pending step names; whose call it is.\<close>

definition reply_to ::
  "'n call_config \<Rightarrow> (uid \<Rightarrow> garage) \<Rightarrow> bool \<Rightarrow> (outreach \<Rightarrow> outreach) \<Rightarrow> next_step option \<Rightarrow> voice_form \<Rightarrow> instant \<Rightarrow> db \<Rightarrow> world
    \<Rightarrow> http_error + twiml talk" where
  "reply_to cc garages genuine meanwhile step form now d w =
     (case step of
        None \<Rightarrow> incoming_call cc garages genuine meanwhile form now d w
      | Some st \<Rightarrow> map_sum id (\<lambda>(verbs, d', w'). (Inr verbs, d', w')) (step_reply cc garages genuine st form now d w))"

definition business_called :: "'n call_config \<Rightarrow> next_step option \<Rightarrow> voice_form \<Rightarrow> world \<Rightarrow> uid option" where
  "business_called cc step form w =
     (case step of
        None \<Rightarrow> resolve_garage_for_inbound_call (cc_comm cc) (wd_book w) (vf_call form)
      | Some _ \<Rightarrow> resolve_garage_for_call_step (cc_comm cc) (wd_book w) (vf_call form))"

lemma reply_to_step:
  assumes "reply_to cc garages genuine meanwhile (Some st) form now d w = Inr (Inr verbs, d', w')"
  shows "step_reply cc garages genuine st form now d w = Inr (verbs, d', w')"
  using assms by (cases "step_reply cc garages genuine st form now d w") (auto simp: reply_to_def)

text \<open>
  No webhook of a call rings anybody but the people the business itself has saved, and the assistant.
  Every number a reply dials is one of the business's saved destinations, is a British number that is
  no premium, personal or directory line, and reaches no business of the platform again; every SIP address it dials
  is a saved one that leads neither to Twilio nor to OpenAI nor to a private network; the only other address is
  the signed handoff to the assistant. It rings for ten to sixty seconds. A call for no business is only told so.
\<close>

theorem only_saved_people_are_rung:
  assumes "reply_to cc garages genuine meanwhile step form now d w = Inr (Inr verbs, d', w')"
    and "\<And>g. g_id (garages g) = g" and "menus_sane w" and "v \<in> set verbs"
  shows "case business_called cc step form w of
           None \<Rightarrow> v = SAY ''Sorry, this number is not currently in service.''
         | Some g \<Rightarrow> safe_verb cc (wd_book w') g v"
proof (cases step)
  case None
  with assms(1) have e: "incoming_call cc garages genuine meanwhile form now d w = Inr (Inr verbs, d', w')" by (simp add: reply_to_def)
  show ?thesis
  proof (cases "resolve_garage_for_inbound_call (cc_comm cc) (wd_book w) (vf_call form)")
    case nobody: None
    from incoming_call_nobody [OF e nobody] assms(4) None nobody show ?thesis by (simp add: business_called_def not_in_service_def)
  next
    case (Some g)
    from incoming_call_business [OF e Some] answer_call_good(2) [OF _ assms(4)] assms(2) [of g]
    have "safe_verb cc (wd_book w') g v" by metis
    with Some None show ?thesis by (simp add: business_called_def)
  qed
next
  case (Some st)
  note e = reply_to_step [OF assms(1) [unfolded Some]]
  show ?thesis
  proof (cases "resolve_garage_for_call_step (cc_comm cc) (wd_book w) (vf_call form)")
    case None
    from step_reply_nobody [OF e None] assms(4) Some None show ?thesis by (simp add: business_called_def not_in_service_def)
  next
    case (Some g)
    from step_reply_good [OF e Some assms(2) assms(3)] assms(4)
    have "same_setup w w'" "safe_verb cc (wd_book w) g v"
      by (auto simp: good_reply_def call_over_def)
    with Some \<open>step = Some st\<close> show ?thesis by (simp add: business_called_def safe_verb_setup)
  qed
qed

text \<open>
  Between two webhooks of a call the staff, other calls and the clock may do anything; \<open>next_reply\<close> relates a
  reply to every reply that can follow it, whatever the tables hold by then.
\<close>

inductive next_reply :: "'n call_config \<Rightarrow> (uid \<Rightarrow> garage) \<Rightarrow> twiml \<Rightarrow> twiml \<Rightarrow> bool" for cc garages where
  answered: "reports verbs = Some st \<Longrightarrow> menus_sane w \<Longrightarrow> step_reply cc garages True st form now d w = Inr (verbs', d', w')
    \<Longrightarrow> next_reply cc garages verbs verbs'"

inductive_cases next_replyE: "next_reply cc garages verbs verbs'"

lemma next_reply_patience:
  assumes "next_reply cc garages verbs verbs'" and ids: "\<And>g. g_id (garages g) = g"
  shows "patience (reports verbs') < patience (reports verbs)"
  using assms(1)
proof (rule next_replyE)
  fix st w form now d d' w'
  assume st: "reports verbs = Some st" and sane: "menus_sane w" and e: "step_reply cc garages True st form now d w = Inr (verbs', d', w')"
  have pos: "0 < patience (Some st)" by (cases st) simp_all
  show ?thesis
  proof (cases "resolve_garage_for_call_step (cc_comm cc) (wd_book w) (vf_call form)")
    case None
    from step_reply_nobody [OF e None] pos st show ?thesis by (simp add: not_in_service_def)
  next
    case (Some g)
    from step_reply_good [OF e Some ids sane] pos st show ?thesis by (auto simp: good_reply_def call_over_def)
  qed
qed

lemma relpow_patience:
  assumes "(next_reply cc garages ^^ n) verbs verbs'" and ids: "\<And>g. g_id (garages g) = g"
  shows "n + patience (reports verbs') \<le> patience (reports verbs)"
  using assms(1)
proof (induction n arbitrary: verbs')
  case (Suc n)
  then obtain vs where "(next_reply cc garages ^^ n) verbs vs" "next_reply cc garages vs verbs'" by auto
  with Suc.IH [of vs] next_reply_patience [OF this(2) ids] show ?case by simp
qed simp

lemma call_step_total:
  assumes "is_twilio_configured (cc_comm cc)"
  shows "\<exists>verbs' d' w'. call_step cc garages True form d w k = Inr (verbs', d', w')"
proof (cases "call_step cc garages True form d w k")
  case (Inr r)
  then show ?thesis by (cases r) simp
qed (use assms in \<open>simp add: call_step_def guarded_def\<close>)

lemma step_reply_total:
  assumes "is_twilio_configured (cc_comm cc)"
  shows "\<exists>verbs' d' w'. step_reply cc garages True st form now d w = Inr (verbs', d', w')"
  unfolding step_reply_def ivr_menu_def ivr_ai_complete_def ivr_transfer_complete_def
  by (cases st) (simp_all only: next_step.case call_step_total [OF assms])

text \<open>
  No caller is dropped. When a step of a running call is answered by a reply that asks for no further report,
  either the caller had been connected and the conversation is over, or a callback request for the caller's number is open.
\<close>

lemma no_caller_is_dropped:
  assumes "step_reply cc garages genuine step form now d w = Inr (verbs, d', w')"
    and "resolve_garage_for_call_step (cc_comm cc) (wd_book w) (vf_call form) = Some g" and "g_id (garages g) = g"
    and "menus_sane w" and "reports verbs = None"
    and "caller_identity (cf_phones (cc_comm cc)) (wd_book w) g (vf_from form) = caller" and "caller \<noteq> []"
  shows "connected (vf_dial_status form) \<and> verbs = [HANG_UP] \<or> callback_open g caller w'"
  using step_reply_good [OF assms(1-4)] assms(5-) by (auto simp: call_over_def good_reply_def)

lemma every_report_is_answered:
  assumes "is_twilio_configured (cc_comm cc)" "\<And>g. g_id (garages g) = g"
  shows "\<exists>v d'' w''. step_reply cc garages True step form now d w = Inr (v, d'', w'')
             \<and> (\<forall>g caller. menus_sane w \<and> reports v = None
                   \<and> resolve_garage_for_call_step (cc_comm cc) (wd_book w) (vf_call form) = Some g
                   \<and> caller_identity (cf_phones (cc_comm cc)) (wd_book w) g (vf_from form) = caller \<and> caller \<noteq> [] \<longrightarrow>
                   connected (vf_dial_status form) \<and> v = [HANG_UP] \<or> callback_open g caller w'')"
proof -
  obtain v d'' w'' where e: "step_reply cc garages True step form now d w = Inr (v, d'', w'')"
    using step_reply_total [OF assms(1)] by blast
  show ?thesis using e no_caller_is_dropped [OF e _ assms(2)] by blast
qed

text \<open>
  C40: Every call comes to an end, and its caller is not dropped. Whatever the caller presses, whoever answers, and
  however the settings and all other tables change while the call is running, at most twelve replies follow the first
  one. Every report in between is answered by a reply and not by an error. And when the answer asks for no further report, for
  a call that still belongs to a business and a caller who shows a number, either the caller had been connected
  and the call is hung up, or a callback request for the caller's number is open at that business.
\<close>

theorem call_comes_to_an_end:
  assumes "incoming_call cc garages True meanwhile form now d w = Inr (Inr verbs, d', w')"
    and "\<And>g. g_id (garages g) = g" and "(next_reply cc garages ^^ n) verbs verbs'"
  shows "n \<le> 12
    \<and> (\<forall>step form now d w. reports verbs' = Some step \<longrightarrow>
          (\<exists>v d'' w''. step_reply cc garages True step form now d w = Inr (v, d'', w'')
             \<and> (\<forall>g caller. menus_sane w \<and> reports v = None
                   \<and> resolve_garage_for_call_step (cc_comm cc) (wd_book w) (vf_call form) = Some g
                   \<and> caller_identity (cf_phones (cc_comm cc)) (wd_book w) g (vf_from form) = caller \<and> caller \<noteq> [] \<longrightarrow>
                   connected (vf_dial_status form) \<and> v = [HANG_UP] \<or> callback_open g caller w'')))"
proof -
  from assms(1) have ready: "is_twilio_configured (cc_comm cc)" by (simp add: incoming_call_def guarded_def split: if_splits)
  have "n \<le> 12" using relpow_patience [OF assms(3,2)] incoming_call_patience [OF assms(1)] by fastforce
  then show ?thesis using every_report_is_answered [OF ready assms(2)] by (intro conjI allI impI)
qed

subsection \<open>A call on a small business\<close>

text \<open>
  A business with an escalation number, no menu and no assistant. A call comes in, the person does not
  answer, and the caller is told that somebody will call back.
\<close>

definition no_ai :: ai_config where
  "no_ai = \<lparr>av_enabled = False, av_api_key = None, av_webhook_secret = None, av_project = None, av_signing_secret = None,
            av_secret_key = ''k'', av_hmac = (\<lambda>_ m. m), av_id_text = (\<lambda>_. ''1''), av_id_of_text = (\<lambda>_. Some 1),
            av_accepts = (\<lambda>_. True)\<rparr>"

definition demo_calls :: "string call_config" where
  "demo_calls = \<lparr>cc_comm = demo_config, cc_ai = no_ai, cc_relay = False, cc_relay_url = [], cc_relay_builds = (\<lambda>_. True),
                 cc_written = (\<lambda>_. 0)\<rparr>"

definition demo_line :: outreach where
  "demo_line = demo_outreach\<lparr>or_settings :=
     [(blank_settings 1)\<lparr>cs_enabled := True, cs_voice_number := Some ''+443331'', cs_escalation := Some ''+447700900123''\<rparr>]\<rparr>"

definition demo_line_world :: world where
  "demo_line_world = \<lparr>wd_saved = demo_line, wd_book = demo_line, wd_mails = [], wd_calls = []\<rparr>"

definition demo_ring :: voice_form where
  "demo_ring = \<lparr>vf_call = \<lparr>fo_sip_domain = None, fo_to = Some ''+443331'', fo_call_sid = Some ''CA1''\<rparr>,
                vf_from = Some ''+447911123456'', vf_status = None, vf_digits = [], vf_dial_status = ''no-answer'',
                vf_dial_sid = None, vf_sip_code = None\<rparr>"

definition demo_garages :: "uid \<Rightarrow> garage" where
  "demo_garages g = demo_garage\<lparr>g_id := g\<rparr>"

definition demo_rung :: twiml where
  "demo_rung = [SAY ''Thank you for calling Garage.'', SAY ''Putting you through now.'',
                DIAL_NUMBER ''+447700900123'' None (AFTER_TRANSFER {TRIED_HUMAN} 1 None) 25]"

lemma demo_garages_id: "g_id (demo_garages g) = g"
  by (simp add: demo_garages_def)

lemma demo_line_sane: "menus_sane demo_line_world"
  by (simp add: menus_sane_def demo_line_world_def demo_line_def demo_outreach_def)

lemma demo_first: "\<exists>d' w'. incoming_call demo_calls demo_garages True id demo_ring 0 demo_db demo_line_world = Inr (Inr demo_rung, d', w')"
proof -
  have "map_sum id fst (incoming_call demo_calls demo_garages True id demo_ring 0 demo_db demo_line_world) = Inr (Inr demo_rung)"
    by code_simp
  then show ?thesis by (cases "incoming_call demo_calls demo_garages True id demo_ring 0 demo_db demo_line_world") auto
qed

lemma demo_second:
  "\<exists>d' w'. step_reply demo_calls demo_garages True (AFTER_TRANSFER {TRIED_HUMAN} 1 None) demo_ring 0 demo_db demo_line_world
     = Inr ([SAY closing_line, HANG_UP], d', w') \<and> or_callbacks (wd_book w') \<noteq> []"
proof -
  have "map_sum id (\<lambda>(v, d, w). (v, or_callbacks (wd_book w) = [])) (step_reply demo_calls demo_garages True (AFTER_TRANSFER {TRIED_HUMAN} 1 None) demo_ring 0 demo_db demo_line_world)
     = Inr ([SAY closing_line, HANG_UP], False)" by code_simp
  then show ?thesis
    by (cases "step_reply demo_calls demo_garages True (AFTER_TRANSFER {TRIED_HUMAN} 1 None) demo_ring 0 demo_db demo_line_world") auto
qed

lemma demo_resolved:
  "resolve_garage_for_call_step (cc_comm demo_calls) (wd_book demo_line_world) (vf_call demo_ring) = Some 1"
  "resolve_garage_for_inbound_call (cc_comm demo_calls) (wd_book demo_line_world) (vf_call demo_ring) = Some 1"
  "caller_identity (cf_phones (cc_comm demo_calls)) (wd_book demo_line_world) 1 (vf_from demo_ring) = ''+447911123456''"
  by code_simp+

lemma only_saved_people_are_rung_witness:
  "case reply_to demo_calls demo_garages True id None demo_ring 0 demo_db demo_line_world of
     Inr (_, _, w') \<Rightarrow> safe_verb demo_calls (wd_book w') 1 (DIAL_NUMBER ''+447700900123'' None (AFTER_TRANSFER {TRIED_HUMAN} 1 None) 25)
   | Inl _ \<Rightarrow> False"
proof -
  obtain d' w' where e: "reply_to demo_calls demo_garages True id None demo_ring 0 demo_db demo_line_world = Inr (Inr demo_rung, d', w')"
    using demo_first by (auto simp: reply_to_def)
  from only_saved_people_are_rung [OF e demo_garages_id demo_line_sane,
      of "DIAL_NUMBER ''+447700900123'' None (AFTER_TRANSFER {TRIED_HUMAN} 1 None) 25"]
  show ?thesis unfolding e by (simp add: demo_rung_def business_called_def demo_resolved del: safe_verb.simps)
qed

lemma demo_next: "next_reply demo_calls demo_garages demo_rung [SAY closing_line, HANG_UP]"
proof -
  obtain d' w' where "step_reply demo_calls demo_garages True (AFTER_TRANSFER {TRIED_HUMAN} 1 None) demo_ring 0 demo_db demo_line_world
     = Inr ([SAY closing_line, HANG_UP], d', w')" using demo_second by blast
  from next_reply.answered [OF _ demo_line_sane this] show ?thesis by (simp add: demo_rung_def)
qed

lemma demo_rung_reports: "reports demo_rung = Some (AFTER_TRANSFER {TRIED_HUMAN} 1 None)"
  by (simp add: demo_rung_def)

lemma call_comes_to_an_end_witness:
  "case step_reply demo_calls demo_garages True (AFTER_TRANSFER {TRIED_HUMAN} 1 None) demo_ring 0 demo_db demo_line_world of
     Inr (_, _, w') \<Rightarrow> callback_open 1 ''+447911123456'' w' | Inl _ \<Rightarrow> False"
proof -
  obtain d1 w1 where first: "incoming_call demo_calls demo_garages True id demo_ring 0 demo_db demo_line_world = Inr (Inr demo_rung, d1, w1)"
    using demo_first by blast
  have "(next_reply demo_calls demo_garages ^^ 0) demo_rung demo_rung" by simp
  note call_comes_to_an_end [OF first demo_garages_id this, THEN conjunct2, THEN spec, THEN spec, THEN spec, THEN spec, THEN spec,
      THEN mp, OF demo_rung_reports, of demo_ring 0 demo_db demo_line_world]
  then obtain v d2 w2
    where e: "step_reply demo_calls demo_garages True (AFTER_TRANSFER {TRIED_HUMAN} 1 None) demo_ring 0 demo_db demo_line_world = Inr (v, d2, w2)"
      and promise: "reports v = None \<Longrightarrow> v = [HANG_UP] \<or> callback_open 1 ''+447911123456'' w2"
    using demo_line_sane demo_resolved(1,3) by fastforce
  obtain d3 w3 where "step_reply demo_calls demo_garages True (AFTER_TRANSFER {TRIED_HUMAN} 1 None) demo_ring 0 demo_db demo_line_world
     = Inr ([SAY closing_line, HANG_UP], d3, w3)" using demo_second by blast
  with e have "v = [SAY closing_line, HANG_UP]" by simp
  with promise have "callback_open 1 ''+447911123456'' w2" by simp
  with e show ?thesis by simp
qed

end
