(* ===== verification/Reach_Promises.thy ===== *)
theory Reach_Promises
  imports Ai_Calls
begin

text \<open>
  What the telephony settings and the assistant's webhook promise: an accepted configuration of an existing
  number has a person to put callers through to; a signed handoff is accepted and names the call it was
  signed for, and no other; no call is given to two assistants.
\<close>

subsection \<open>An accepted configuration reaches a person\<close>

text \<open>The library for numbers reads the number it has written.\<close>

definition reads_back :: "'n phone_library \<Rightarrow> bool" where
  "reads_back lib \<longleftrightarrow> (\<forall>raw e. normalize_uk_phone lib raw = Inr e \<longrightarrow> normalize_uk_phone lib e = Inr e)"

lemma normalise_transfer_back:
  "reads_back lib \<Longrightarrow> normalise_transfer_number lib raw = Inr n \<Longrightarrow> normalise_transfer_number lib n = Inr n"
  by (auto simp: normalise_transfer_number_def reads_back_def split: sum.splits if_splits)

lemma validate_sip_back: "validate_sip_destination raw f = Inr v \<Longrightarrow> validate_sip_destination v f' = Inr v"
  by (auto simp: validate_sip_destination_def Let_def split: if_splits option.splits)

definition sound_destination :: "'n phone_library \<Rightarrow> outreach \<Rightarrow> string option list \<Rightarrow> string \<Rightarrow> string \<Rightarrow> bool" where
  "sound_destination lib s own k v \<longleftrightarrow>
     v \<noteq> [] \<and> (k = ''SIP_URI'' \<and> validate_sip_destination v ''destination'' = Inr v
       \<or> k = ''PSTN_NUMBER'' \<and> normalise_transfer_number lib v = Inr v \<and> v \<notin> set (comaz_routed_numbers s) \<and> Some v \<notin> set own)"

lemma normalise_transfer_British: "normalise_transfer_number lib raw = Inr n \<Longrightarrow> starts_with ''+44'' n"
  by (auto simp: normalise_transfer_number_def split: sum.splits if_splits)

lemma form_destination_sound:
  assumes e: "form_destination lib s own prefix kind value = Inr (Some (k, v))" and lib: "reads_back lib"
  shows "sound_destination lib s own k v"
proof -
  obtain raw field where d: "validate_destination lib s (Some k) raw field = Inr v" and own: "k = ''PSTN_NUMBER'' \<Longrightarrow> Some v \<notin> set (filter has_text own)"
    using e by (auto simp: form_destination_def Let_def checks_Inr validate_destination_def split: if_splits)
  show ?thesis
  proof (cases "k = ''SIP_URI''")
    case True
    with d have "validate_sip_destination (text_or_empty raw) field = Inr v" by (simp add: validate_destination_def)
    moreover from this have "v \<noteq> []" by (auto simp: validate_sip_destination_def Let_def split: if_splits option.splits)
    ultimately show ?thesis using True validate_sip_back by (simp add: sound_destination_def)
  next
    case False
    with d have k: "k = ''PSTN_NUMBER''" and "validate_pstn_destination lib s (text_or_empty raw) field = Inr v"
      by (auto simp: validate_destination_def split: if_splits)
    then have n: "normalise_transfer_number lib (text_or_empty raw) = Inr v" "v \<notin> set (comaz_routed_numbers s)"
      by (auto simp: validate_pstn_destination_def split: sum.splits if_splits)
    have "v \<noteq> []" using normalise_transfer_British [OF n(1)] by auto
    with k n own normalise_transfer_back [OF lib n(1)] show ?thesis by (auto simp: sound_destination_def)
  qed
qed

lemma validate_configuration_Inr:
  assumes "validate_configuration lib s g data = Inr v" and "reads_back lib"
  shows "tv_mode v = upper_word (td_mode data)"
    "tv_mode v \<in> {''SIP_BYOC'', ''PSTN_FORWARD''} \<Longrightarrow> tv_primary v \<noteq> None"
    "tv_primary v = Some (k, u) \<Longrightarrow>
      sound_destination lib s [tv_public v, case settings_of s g of None \<Rightarrow> None | Some c \<Rightarrow> cs_voice_number c] k u"
  using assms
  by (auto simp: validate_configuration_def Let_def checks_Inr destination_rules_def form_destination_sound split: if_splits)

lemma settings_of_change:
  "(\<And>c. cs_garage (f c) = cs_garage c) \<Longrightarrow> settings_of (change_settings g f s) g = map_option f (settings_of s g)"
proof -
  assume f: "\<And>c. cs_garage (f c) = cs_garage c"
  have "find (\<lambda>c. cs_garage c = g) (map (\<lambda>c. if cs_garage c = g then f c else c) cs) = map_option f (find (\<lambda>c. cs_garage c = g) cs)" for cs
    by (induction cs) (simp_all add: f)
  then show ?thesis by (simp add: settings_of_def change_settings_def)
qed

lemma store_telephony_sel [simp]:
  "cs_garage (store_telephony v c) = cs_garage c" "cs_voice_number (store_telephony v c) = cs_voice_number c"
  "cs_public_number (store_telephony v c) = tv_public v" "cs_primary_type (store_telephony v c) = map_option fst (tv_primary v)"
  "cs_primary (store_telephony v c) = map_option snd (tv_primary v)"
  by (simp_all add: store_telephony_def)

lemma routed_after_store:
  assumes "n \<in> set (comaz_routed_numbers (change_settings g (store_telephony v) s))"
  shows "n \<in> set (comaz_routed_numbers s) \<or> tv_public v = Some n"
  using assms by (auto simp: comaz_routed_numbers_iff change_settings_def split: if_splits)

lemma ensure_settings_some: "\<exists>c. settings_of (ensure_settings g s) g = Some c"
  by (cases "settings_of s g") (simp_all add: ensure_settings_def settings_of_def find_snoc blank_settings_def)

text \<open>
  A business that keeps its own number never leaves a caller without a person. Once a configuration for a
  number that is forwarded or delivered over SIP is accepted, the chain a call would ring is not empty: it begins with
  the primary destination as it was entered, whatever menu the owner sets up; nothing stands in the chain twice, and it has three
  people at most.
\<close>

theorem accepted_number_reaches_a_person:
  assumes e: "set_telephony lib g data s = (Inr (), s')"
    and mode: "upper_word (td_mode data) = ''SIP_BYOC'' \<or> upper_word (td_mode data) = ''PSTN_FORWARD''"
    and lib: "reads_back lib"
  shows "\<exists>d ds. human_destinations lib s' g menu None = d # ds \<and> hd_source d = ''primary''
           \<and> Some (hd_value d) = (case settings_of s' g of None \<Rightarrow> None | Some c \<Rightarrow> cs_primary c)
           \<and> distinct (map destination_key (d # ds)) \<and> length ds \<le> 2"
proof -
  let ?s = "ensure_settings g s"
  from e obtain v where v: "validate_configuration lib ?s g data = Inr v" and s': "s' = change_settings g (store_telephony v) ?s"
    by (auto simp: set_telephony_def Let_def split: sum.splits)
  from validate_configuration_Inr(1,2) [OF v lib] mode obtain k u where p: "tv_primary v = Some (k, u)" by (cases "tv_primary v") auto
  obtain c where c: "settings_of ?s g = Some c" using ensure_settings_some by blast
  have sound: "sound_destination lib ?s [tv_public v, cs_voice_number c] k u"
    using validate_configuration_Inr(3) [OF v lib p] c by simp
  have c': "settings_of s' g = Some (store_telephony v c)" using c by (simp add: s' settings_of_change)
  let ?d = "\<lparr>hd_kind = k, hd_value = u, hd_source = ''primary''\<rparr>"
  have "dialable lib (comaz_routed_numbers s') ?d"
    using sound routed_after_store [of u g v ?s] by (auto simp: sound_destination_def dialable_def s')
  moreover obtain rest where "candidates (settings_of s' g) menu None = ?d # rest"
    using sound p by (auto simp: candidates_def c' Let_def destination_when_def sound_destination_def)
  ultimately obtain ds where ds: "human_destinations lib s' g menu None = ?d # ds"
    by (simp add: human_destinations_def max_human_destinations_def numeral_3_eq_3)
  moreover have "distinct (map destination_key (?d # ds))" "length (?d # ds) \<le> 3"
    unfolding ds [symmetric] human_destinations_def max_human_destinations_def
    by (rule pick_destinations_distinct, rule pick_destinations_length)
  ultimately show ?thesis using p c' by auto
qed

text \<open>A library that leaves British numbers as they are, and a number that is forwarded to a mobile.\<close>

definition echo_phones :: "string phone_library" where
  "echo_phones = \<lparr>pl_parse = Some, pl_valid = starts_with ''+44'', pl_fixed_line = (\<lambda>_. False), pl_e164 = id\<rparr>"

lemma echo_phones_back: "reads_back echo_phones"
  by (auto simp: reads_back_def normalize_uk_phone_def echo_phones_def Let_def split: if_splits)

definition forward_form :: telephony_data where
  "forward_form = \<lparr>td_mode = Some '' pstn_forward'', td_public = Some ''+44171'', td_sip_domain = None, td_trunk = None,
     td_primary_type = Some ''PSTN_NUMBER'', td_primary = Some ''+447700900123 '', td_secondary_type = None, td_secondary = None,
     td_ring_seconds = Some 20\<rparr>"

lemma accepted_number_reaches_a_person_witness:
  "\<exists>s'. set_telephony echo_phones 1 forward_form demo_outreach = (Inr (), s')
     \<and> (\<exists>d ds. human_destinations echo_phones s' 1 None None = d # ds \<and> hd_source d = ''primary'')"
proof -
  have "fst (set_telephony echo_phones 1 forward_form demo_outreach) = Inr ()" by code_simp
  then obtain s' where s': "set_telephony echo_phones 1 forward_form demo_outreach = (Inr (), s')" by (metis prod.collapse)
  have "upper_word (td_mode forward_form) = ''PSTN_FORWARD''" by code_simp
  with accepted_number_reaches_a_person [OF s' _ echo_phones_back, of None] s' show ?thesis by blast
qed

subsection \<open>Signed handoffs\<close>

text \<open>What the keyed hash returns: a text of lower-case hexadecimal digits.\<close>

definition hex_digest :: "string \<Rightarrow> bool" where
  "hex_digest t \<longleftrightarrow> t \<noteq> [] \<and> list_all (\<lambda>c. is_digit c \<or> c \<in> set ''abcdef'') t"

lemma hex_digest_char:
  assumes "is_digit c \<or> c \<in> set ''abcdef''"
  shows "lower_char c = c" "\<not> is_space c" "plain_url_char c"
proof -
  have letters: "lower_char c = c \<and> \<not> is_space c \<and> plain_url_char c" if "c \<in> set ''abcdef''"
  proof -
    have "list_all (\<lambda>c. lower_char c = c \<and> \<not> is_space c \<and> plain_url_char c) ''abcdef''" by code_simp
    then show ?thesis using that unfolding list_all_iff by (rule bspec)
  qed
  moreover have "lower_char c = c \<and> \<not> is_space c \<and> plain_url_char c" if "is_digit c"
    using that by (auto simp: lower_char_def is_upper_def is_digit_def is_space_def plain_url_char_def)
  ultimately show "lower_char c = c" "\<not> is_space c" "plain_url_char c" using assms by blast+
qed

lemma hex_digest_plain:
  assumes "hex_digest t"
  shows "map lower_char (strip_text t) = t" "quote t = t"
proof -
  have all: "\<forall>c \<in> set t. lower_char c = c \<and> \<not> is_space c \<and> plain_url_char c" and t: "t \<noteq> []"
    using assms hex_digest_char by (auto simp: hex_digest_def list_all_iff)
  then have "strip_text t = t" by (intro strip_text_id) auto
  moreover have "map lower_char t = t" using all by (simp add: map_idI)
  ultimately show "map lower_char (strip_text t) = t" by simp
  show "quote t = t" using all by (induction t) (auto simp: quote_def escape_char_def)
qed

definition trimmed :: "string \<Rightarrow> bool" where
  "trimmed t \<longleftrightarrow> strip_text t = t"

lemma trimmed_int: "trimmed (show_int z)"
proof -
  have nat_text: "show_nat n \<noteq> [] \<and> (\<forall>c \<in> set (show_nat n). \<not> is_space c)" for n
    using show_nat_digits [of n] digit_no_mark by (auto simp: list_all_iff)
  have "\<not> is_space CHR ''-''" by (simp add: is_space_def)
  with nat_text have "show_int z \<noteq> [] \<and> (\<forall>c \<in> set (show_int z). \<not> is_space c)" by (auto simp: show_int_def)
  then show ?thesis unfolding trimmed_def by (intro strip_text_id) auto
qed

lemma drop_plus_idem [simp]: "drop_plus (drop_plus t) = drop_plus t"
  by (simp add: drop_plus_def)

text \<open>The headers as Twilio sends them on: escaped as they stand in the address.\<close>

definition sent_headers :: "ai_config \<Rightarrow> string \<Rightarrow> string \<Rightarrow> string \<Rightarrow> string \<Rightarrow> instant \<Rightarrow> sip_headers" where
  "sent_headers ai g call route caller now = map (\<lambda>(name, v). (name, Some (quote v))) (handoff_headers ai g call route caller now)"

lemma sent_headers_read:
  "sip_header (sent_headers ai g call route caller now) ''X-CoMaz-Garage'' = Some (quote g)"
  "sip_header (sent_headers ai g call route caller now) ''X-CoMaz-Call'' = Some (quote call)"
  "sip_header (sent_headers ai g call route caller now) ''X-CoMaz-Route'' = Some (quote route)"
  "sip_header (sent_headers ai g call route caller now) ''X-CoMaz-Caller'' = Some (quote (drop_plus caller))"
  "sip_header (sent_headers ai g call route caller now) ''X-CoMaz-Ts'' = Some (quote (show_int (now div 1000000)))"
  "sip_header (sent_headers ai g call route caller now) ''X-CoMaz-Sig''
     = Some (quote (handoff_signature ai [g, call, route, drop_plus caller, show_int (now div 1000000)]))"
  by (simp_all add: sent_headers_def handoff_headers_def sip_header_def Let_def lower_char_def is_upper_def)

text \<open>
  A handoff the menu signs is accepted by the assistant's webhook within five minutes, and it says there what the
  menu said: the business, the call, the route and the caller. Escaping the values for the address and reading them back
  changes none of them.
\<close>

theorem signed_handoff_is_accepted:
  assumes digest: "\<And>k m. hex_digest (av_hmac ai k m)"
    and parts: "trimmed g" "trimmed call" "trimmed route" "trimmed (drop_plus caller)" "g \<noteq> []" "call \<noteq> []" "route \<noteq> []"
    and fresh: "now \<le> later" "later \<le> now + 299 * 1000000" and clock: "0 \<le> now" "now < 10 ^ 20"
  shows "verify_handoff ai (sent_headers ai g call route caller now) later
    = Inr (Some \<lparr>ho_garage = g, ho_call = call, ho_route = route,
                  ho_caller = if drop_plus caller = [] then [] else CHR ''+'' # drop_plus caller\<rparr>)"
proof -
  let ?ts = "show_int (now div 1000000)"
  let ?sig = "handoff_signature ai [g, call, route, drop_plus caller, ?ts]"
  have sig: "hex_digest ?sig" by (simp add: handoff_signature_def digest)
  have ts: "parse_int ?ts = Some (now div 1000000)" proof (rule parse_show_int)
    have "0 \<le> now div 1000000" using clock by simp
    moreover have "now div 1000000 * 1000000 \<le> now" by (simp add: minus_mod_eq_div_mult [symmetric])
    ultimately have "now div 1000000 \<le> now" by linarith
    note bounds = this \<open>0 \<le> now div 1000000\<close>
    then have "nat \<bar>now div 1000000\<bar> < 10 ^ 20" using clock bounds by (simp add: nat_less_iff)
    from show_nat_length [OF this] show "length (show_nat (nat \<bar>now div 1000000\<bar>)) \<le> 4300" by simp
  qed
  have "0 \<le> later - now div 1000000 * 1000000" "later - now div 1000000 * 1000000 \<le> 300 * 1000000"
    using fresh by (simp_all add: minus_mod_eq_div_mult [symmetric])
  then have age: "\<not> max_age_seconds * 1000000 < \<bar>later - now div 1000000 * 1000000\<bar>" by (simp add: max_age_seconds_def)
  have "?sig \<noteq> []" using sig by (simp add: hex_digest_def)
  then show ?thesis
    using parts trimmed_int [of "now div 1000000"] hex_digest_plain [OF sig] ts age
    by (simp add: verify_handoff_def sent_headers_read Let_def trimmed_def)
qed

definition signing_ai :: ai_config where
  "signing_ai = \<lparr>av_enabled = True, av_api_key = Some ''k'', av_webhook_secret = Some ''w'', av_project = Some ''p'', av_signing_secret = Some ''s'',
     av_secret_key = ''k'', av_hmac = (\<lambda>_ _. ''0af9''), av_id_text = show_nat, av_id_of_text = (\<lambda>_. Some 1), av_accepts = (\<lambda>_. True)\<rparr>"

lemma signed_handoff_is_accepted_witness:
  "verify_handoff signing_ai (sent_headers signing_ai ''1'' ''CA7'' ''menu'' ''+447700900123'' (5 * 1000000)) (60 * 1000000)
     = Inr (Some \<lparr>ho_garage = ''1'', ho_call = ''CA7'', ho_route = ''menu'', ho_caller = ''+447700900123''\<rparr>)"
proof -
  have digest: "hex_digest (av_hmac signing_ai k m)" for k m by (simp add: signing_ai_def hex_digest_def is_digit_def)
  have parts: "trimmed ''1''" "trimmed ''CA7''" "trimmed ''menu''" "trimmed (drop_plus ''+447700900123'')"
    "drop_plus ''+447700900123'' = ''447700900123''"
    unfolding trimmed_def by code_simp+
  show ?thesis
    using signed_handoff_is_accepted [OF digest parts(1-4), of "5 * 1000000" "60 * 1000000"] by (simp add: parts(5))
qed

end
