(* ===== verification/Spec2Isabelle.thy ===== *)
theory Spec2Isabelle
  imports Prelude Timezones Money Schema Bay_Occupancy Queue_Eta Availability Texts Discounts Payments
    Booking_Requests Terms Python_Parsing Booking_Flow Add_Ons Public_Booking Public_Promises
    Loyalty_Issuing Appointment_Desk Desk_Promises
    Walkin_Snapshot Walkin_Queue Walkin_Lifecycle Walkin_Promises
    Phone_Numbers Outreach_Schema Messaging Notifications Mot_Reminders Appointment_Reminders Reminder_Promises
    Text_Patterns Phrase_Dates Service_Matching Chat_Actions
    Intents Chat_Sessions Chat_Turns Chat_Booking Chat_Flows Chat_Engine Chat_Promises Chat_History
    Plain_Answers Chat_Consent Diary_Promises
    Ip_Addresses Telephony Phone_Menu Ai_Calls Call_Flow Call_Promises Reach_Promises
begin

text \<open>
  \<^bold>\<open>The program.\<close> \<open>src/app\<close> is the backend of a booking system for businesses with bays and
  staff: a public calendar with deposits and discount codes, review of booking requests, the staff's
  diary, a walk-in queue, loyalty rewards, and channels around them (telephone, chat, reminders,
  operator console). This development models the part that decides who gets which bay, who pays what,
  what happens to it afterwards and what customers are told. Everything shares one relational database; a request handler
  reads it, checks, writes and commits, under a lock on the row of the business.

  \<^bold>\<open>How it is modelled.\<close> \<open>Schema\<close> has one record per table of \<open>app/models\<close> and the record
  \<open>db\<close> of all tables (lists of rows in creation order) with the events emitted and the calls made to
  payment providers. A handler is a function from the database and the request to its result and the
  committed database; an abort is \<open>Inl (Abort code reason)\<close>. Because handlers run under the lock of
  the business, a history is a sequence of handler runs. Money is whole pence, an instant is a number of
  microseconds, a date a day number. The clock (\<open>now\<close>), random draws, bearer tokens, the captcha
  service, the payment providers (the record \<open>payment_provider\<close>) and the transition table of a time
  zone are arguments.

  \<^bold>\<open>Foundations.\<close>
  \<^item> \<open>Prelude\<close>: tables as lists, checks that end a handler, sums and filters.
  \<^item> \<open>Timezones\<close> (\<open>garages/timezones.py\<close>): local days and slots; local slots come back as
    themselves.
  \<^item> \<open>Money\<close> (\<open>payments/money.py\<close>): deposits to the nearest penny and their bounds.
  \<^item> \<open>Texts\<close>, \<open>Python_Parsing\<close>: what the code uses of Python's strings, \<open>int\<close>, dates and times.
  \<^item> \<open>Bay_Occupancy\<close>: the contract between intervals and their occupancy, a locale extended by the
    calendar and by the queue.

  \<^bold>\<open>Calendar and booking.\<close>
  \<^item> \<open>Availability\<close> (\<open>public_booking/availability.py\<close>): the slots of a day, the range, the submit
    check. The sweep over events is exactly the peak occupancy; the calendar and the submit check
    agree; an accepted slot has a bay.
  \<^item> \<open>Booking_Flow\<close> (\<open>booking_flow/resolve.py\<close>, \<open>answers.py\<close>) and \<open>Add_Ons\<close>
    (\<open>appointments/add_ons/service.py\<close>): the questions of the form and the extras. Accepted answers fit
    the form and can be sent again; the loop over extras refines an order-free rule.
  \<^item> \<open>Booking_Requests\<close> (\<open>booking_requests/service.py\<close>, \<open>routes.py\<close>,
    \<open>appointments/scheduling.py\<close>): matching customers, approving, accepting automatically, expiring,
    rejecting. Locale \<open>diary_keeper\<close>.
  \<^item> \<open>Terms\<close> (\<open>terms/service.py\<close>): versions of the wording and the texted link.
  \<^item> \<open>Public_Booking\<close> (\<open>public_booking/routes.py\<close>, \<open>booking_requests/reference.py\<close>): every
    endpoint of the public form that changes state, composed of the services; \<open>Public_Promises\<close>: a
    submission is idempotent, has a bay, and takes the deposit the preview showed.
  \<^item> \<open>Appointment_Desk\<close> (\<open>appointments/routes.py\<close>, \<open>appointments/discounts.py\<close>): staff create,
    edit and cancel appointments; \<open>Desk_Promises\<close>: the locale \<open>roster_keeper\<close> is interpreted on the
    union of all ways into the diary, so no mix of them books an employee twice.

  \<^bold>\<open>Money and codes.\<close>
  \<^item> \<open>Payments\<close> (\<open>payments/service.py\<close>): holds, client tokens, the sweep, recovery, abandoning,
    refunds and webhooks, as functions and as the step relation \<open>payment_step\<close>: one refund call per
    payment at most, no double charge, nothing paid is lost.
  \<^item> \<open>Discounts\<close> (\<open>loyalty/service.py\<close>, \<open>loyalty/codes.py\<close>, \<open>loyalty/routes.py\<close>): codes and
    redemptions with the step relation \<open>discount_step\<close>; no code is used more often than its limit.
  \<^item> \<open>Loyalty_Issuing\<close> (\<open>loyalty/issuing.py\<close>, \<open>loyalty/routes.py\<close>): rewards for completed visits, the
    catch-up run, creating and changing codes (\<open>create_code\<close>, \<open>update_code\<close>) and the settings.

  \<^bold>\<open>Walk-ins.\<close>
  \<^item> \<open>Queue_Eta\<close> (\<open>queueing/eta.py\<close>): placing waiting jobs between the bookings.
  \<^item> \<open>Walkin_Snapshot\<close>, \<open>Walkin_Queue\<close>, \<open>Walkin_Lifecycle\<close> (\<open>queueing/service.py\<close>,
    \<open>queueing/routes.py\<close>): the day as the queue sees it, joining and calling, serving, sweeping and
    reordering; \<open>Walkin_Promises\<close>: places stay apart, entries only advance, joining means being seen.

  \<^bold>\<open>Messages and reminders.\<close> \<open>Outreach_Schema\<close> holds the tables beside \<open>db\<close> and the state \<open>world\<close> of a
  message handler: committed tables, the open transaction, and what the e-mail service and the carrier were
  handed. The carrier, the e-mail service, the wording of texts and the library for telephone numbers are
  arguments (the record \<open>comm_config\<close>).
  \<^item> \<open>Phone_Numbers\<close> (\<open>phone.py\<close>) and \<open>Messaging\<close> (\<open>communications/service.py\<close>, \<open>providers/\<close>,
    \<open>config.py\<close>, \<open>tenant_resolution.py\<close>, \<open>sms_webhooks.py\<close>, \<open>email/__init__.py\<close>): every message
    leaves one log row, an incoming one is recorded once under any race.
  \<^item> \<open>Notifications\<close> (\<open>email/service.py\<close>, \<open>communications/events.py\<close> and its subscribers): no
    history of booking events mails a customer the same notice twice.
  \<^item> \<open>Mot_Reminders\<close>, \<open>Appointment_Reminders\<close> (\<open>mot_reminders/\<close>, \<open>appointment_reminders/\<close>,
    \<open>tasks/cli.py\<close>); \<open>Reminder_Promises\<close>: the locale \<open>outreach_keeper\<close>, the step relation
    \<open>reminder_step\<close>, and that a run sends what is due, once per cycle.

  \<^bold>\<open>Conversations.\<close> A customer writes or speaks; the text is understood by patterns, never by a model.
  \<^item> \<open>Text_Patterns\<close>: what the code uses of Python's \<open>re\<close>, with the syntax of its patterns.
  \<^item> \<open>Phrase_Dates\<close> (\<open>conversation/datetime_parsing.py\<close>) and \<open>Service_Matching\<close>
    (\<open>conversation/appointment_matching.py\<close>): which day, time and service a text means; an offered time
    is understood, a chosen service is no guess.
  \<^item> \<open>Chat_Actions\<close> (\<open>conversation/actions.py\<close>, \<open>queries.py\<close>): what a conversation may do to the
    bookings.
  \<^item> \<open>Intents\<close> (\<open>conversation/intents.py\<close>) and \<open>Plain_Answers\<close>: what a message asks for, what counts
    as a yes and a no.
  \<^item> \<open>Chat_Sessions\<close> (\<open>conversation/session_service.py\<close>): one live conversation per number and
    channel, its slots, its timeout, the ids of the messages already answered.
  \<^item> \<open>Chat_Turns\<close>, \<open>Chat_Booking\<close>, \<open>Chat_Flows\<close> (\<open>conversation/workflows.py\<close>): the steps of the
    booking flow, of cancelling and moving an appointment and of the questions, each a function from
    the turn to the reply, the next step and the slots it writes.
  \<^item> \<open>Chat_Engine\<close> (\<open>conversation/engine.py\<close>, \<open>conversation/routes.py\<close>): one message end to end, the
    corrections, the hand-over to a person and back.
  \<^item> \<open>Chat_Promises\<close>, \<open>Chat_History\<close>: the invariant of a stored conversation (every slot the pending
    step reads is there) kept by any sequence of messages, timeouts and interventions of the staff; what may
    happen between two deliveries of one message is the relation \<open>elsewhere_step\<close>. Locale \<open>quiet_table\<close>
    for the tables a message leaves alone, interpreted on the conversations of others and on all tables
    but the logs and the conversations (\<open>other_tables\<close>). \<open>Chat_Consent\<close>: nothing is booked, moved or
    cancelled without a yes to the pending question, and then what was confirmed, for the service the
    conversation holds (\<open>service_held\<close>).
  \<^item> \<open>Diary_Promises\<close>: the desk, the public form and the conversations as one family of requests, the
    second interpretation of \<open>roster_keeper\<close>: no mix of them books an employee twice.

  \<^bold>\<open>Telephone calls.\<close> The carrier calls one webhook per step of a call and does what the reply says; a
  reply is a list of verbs (\<open>twiml\<close>), and a verb that reports back carries its next step.
  \<^item> \<open>Ip_Addresses\<close>: what the code uses of Python's \<open>ipaddress\<close>, on 32 and 128 bit words.
  \<^item> \<open>Telephony\<close> (\<open>communications/telephony.py\<close>, two actions of \<open>communications/provisioning/service.py\<close>):
    the modes of a number, which destinations are accepted, the chain of people to ring, the log of attempts.
  \<^item> \<open>Phone_Menu\<close> (\<open>communications/ivr/actions.py\<close>, \<open>service.py\<close>, \<open>routes.py\<close>): the owner's menu.
  \<^item> \<open>Ai_Calls\<close> (\<open>ai_voice/sip_handoff.py\<close>, \<open>tenant.py\<close>, \<open>routes.py\<close>): handing a call over to the
    assistant; the keyed hash is an argument.
  \<^item> \<open>Call_Flow\<close> (\<open>communications/ivr/twiml.py\<close>, \<open>communications/voice_webhooks.py\<close>,
    \<open>communications/voice_relay.py\<close>): every webhook of a call.
  \<^item> \<open>Call_Promises\<close>: a call comes to an end, whatever happens to the tables meanwhile (\<open>next_reply\<close>), and
    a caller nobody answered gets a call-back; only saved people are rung; \<open>Reach_Promises\<close>: an accepted
    configuration reaches a person, and a signed handoff is accepted.

  \<^bold>\<open>Kinds of lemmas.\<close> Frame lemmas say what an operation leaves alone; \<open>_Inr\<close> and \<open>_effect\<close>
  lemmas what a successful or any run did; invariants are preserved by each operation and then by folds
  or step relations; the theorems with a claim number are the properties, each followed by its witness
  on a small concrete database. Lemmas without a number next to them record behaviour that differs from
  the documentation.

  \<^bold>\<open>Bounds and termination.\<close> The loops over slots and over candidate starts are structural or have
  a measure; no fuel is used there. Drawing a fresh reference or code takes a list of draws:
  \<open>unique_booking_reference\<close> has no bound in the code, and its \<open>None\<close> means that every draw so far
  collided; \<open>create_unique_code\<close> takes the five attempts the code makes. That a call ends is shown with the
  measure \<open>patience\<close> of its pending step: three people, one assistant, five attempts at the menu and three
  repetitions of it, so twelve replies at most. Dates, instants and durations are unbounded integers: the range of
  Python's \<open>date\<close> and \<open>timedelta\<close> (years 1 to 9999) and the \<open>OverflowError\<close> beyond it are not modelled,
  so every statement is about values inside that range.

  \<^bold>\<open>Not modelled, and why.\<close> Rate limits, JSON schemas, log lines and the wording of messages have no influence
  on the state. Row locks are not modelled: a handler is one step. The row of the business is an argument
  of each handler, so the lookup by slug is left out. The CRUD of types, check-lists, customers, vehicles,
  employees, roles and business settings writes rows the modelled handlers read. What the AI voice agent says
  and the operator console's set-up of numbers go through third-party services, and the
  administration of the booking form, the bulk import and the reports are inserts and lists of rows
  without a contract of their own.
\<close>

end
